(* ===== verification/Prelude.thy ===== *)
theory Prelude
  imports Main "HOL-Library.Word" "HOL-Library.AList"
begin

text \<open>
  What every component of the model shares: bytes and byte strings, the big-endian
  integers of Go's \<open>encoding/binary\<close>, fallible results, and the two interfaces that
  several components provide (a wire codec, and a machine that keeps an invariant).

  Conventions.  A Go \<open>[]byte\<close> is a list of 8-bit words.  A fixed array that the code
  only compares, stores and copies (\<open>[16]byte\<close>, \<open>[32]byte\<close>) is the word of its
  width, read big-endian, so that \<open>bytes.Compare\<close> on two such arrays is the unsigned
  order of the words (\<open>put_be_less\<close> below) and the all-zero array is \<open>0\<close>.
  \<open>uint16\<close>, \<open>uint32\<close>, \<open>uint64\<close> are words of that width; lengths and counts of
  Go's \<open>int\<close> that stay within a buffer are \<open>nat\<close>.  An \<open>error\<close> carries the text the
  source gives it.  Instants and durations are integers, in nanoseconds.
\<close>

unbundle bit_operations_syntax

type_synonym byte = "8 word"
type_synonym bytes = "8 word list"
type_synonym uint16 = "16 word"
type_synonym uint32 = "32 word"
type_synonym uint64 = "64 word"
type_synonym id16 = "128 word"
type_synonym key32 = "256 word"
type_synonym time = int
type_synonym duration = int

datatype error = Error string

type_synonym 'a result = "error + 'a"

abbreviation fail :: "string \<Rightarrow> 'a result" where
  "fail msg \<equiv> Inl (Error msg)"

abbreviation ok :: "'a result \<Rightarrow> bool" where
  "ok r \<equiv> \<not> isl r"

named_theorems wire_simps \<open>unfolding rules of the wire format\<close>
named_theorems length_simps \<open>lengths of encoded packets\<close>

section \<open>Durations of package time\<close>

definition Millisecond :: duration where [simp]: "Millisecond = 1000000"
definition Second :: duration where [simp]: "Second = 1000 * Millisecond"
definition Minute :: duration where [simp]: "Minute = 60 * Second"

section \<open>Strings as bytes\<close>

definition bytes_of :: "string \<Rightarrow> bytes" where
  "bytes_of s = map of_char s"

definition textOf :: "bytes \<Rightarrow> string" where
  "textOf bs = map (\<lambda>b. char_of (unat b)) bs"

text \<open>\<open>fmt.Errorf("...: %w", err)\<close>\<close>

fun wrap :: "string \<Rightarrow> error \<Rightarrow> error" where
  "wrap prefix (Error msg) = Error (prefix @ msg)"

section \<open>Testing a bit\<close>

lemma and_mask_bit: "(x :: 'a::len word) AND push_bit n 1 \<noteq> 0 \<longleftrightarrow> bit x n"
proof
  assume "bit x n"
  then have "bit (x AND push_bit n 1) n" by (auto simp: bit_simps dest: bit_imp_le_length)
  then show "x AND push_bit n 1 \<noteq> 0" by force
next
  assume "x AND push_bit n 1 \<noteq> 0"
  then obtain k where "bit (x AND push_bit n 1) k" by (auto simp: bit_eq_iff)
  then show "bit x n" by (auto simp: bit_simps)
qed

lemma and_exp_bit: "(x :: 'a::len word) AND 2 ^ n \<noteq> 0 \<longleftrightarrow> bit x n"
  using and_mask_bit [of x n] by simp

lemma and_exp_bit_0: "(x :: 'a::len word) AND 2 ^ n = 0 \<longleftrightarrow> \<not> bit x n"
  using and_exp_bit [of x n] by blast

section \<open>Big-endian integers\<close>

definition put_be :: "nat \<Rightarrow> 'a::len word \<Rightarrow> bytes" where
  "put_be n w = map (\<lambda>i. ucast (drop_bit (8 * (n - 1 - i)) w)) [0..<n]"

definition get_be :: "bytes \<Rightarrow> 'a::len word" where
  "get_be bs = foldl (\<lambda>acc b. push_bit 8 acc OR ucast b) 0 bs"

lemma length_put_be [simp, length_simps]: "length (put_be n w) = n"
  by (simp add: put_be_def)

lemma put_be_0 [simp]: "put_be 0 w = []"
  by (simp add: put_be_def)

lemma put_be_Suc: "put_be (Suc n) w = put_be n (drop_bit 8 w) @ [ucast w]"
  by (auto simp: put_be_def intro!: nth_equalityI simp: nth_append less_Suc_eq)
     (simp add: algebra_simps Suc_diff_Suc)

lemma get_be_Nil [simp]: "get_be [] = 0"
  by (simp add: get_be_def)

lemma get_be_snoc: "get_be (bs @ [b]) = push_bit 8 (get_be bs) OR ucast b"
  by (simp add: get_be_def)

lemma get_put_be_take: "(get_be (put_be n w) :: 'a::len word) = take_bit (8 * n) w"
proof (induction n arbitrary: w)
  case 0
  show ?case by simp
next
  case (Suc n)
  have "(get_be (put_be (Suc n) w) :: 'a word)
      = push_bit 8 (take_bit (8 * n) (drop_bit 8 w)) OR ucast (ucast w :: byte)"
    by (simp add: put_be_Suc get_be_snoc Suc.IH)
  also have "\<dots> = take_bit (8 * Suc n) w"
    by (rule bit_eqI) (auto simp: bit_simps)
  finally show ?case .
qed

lemma get_put_be [simp]:
  "LENGTH('a::len) \<le> 8 * n \<Longrightarrow> (get_be (put_be n (w :: 'a word)) :: 'a word) = w"
  by (simp add: get_put_be_take take_bit_word_eq_self)

lemma get_be_small: "take_bit (8 * length bs) (get_be bs :: 'a::len word) = get_be bs"
proof (induction bs rule: rev_induct)
  case Nil
  show ?case by simp
next
  case (snoc b bs)
  let ?g = "get_be bs :: 'a word"
  have "take_bit (8 * length (bs @ [b])) (push_bit 8 ?g OR ucast b)
      = push_bit 8 (take_bit (8 * length bs) ?g) OR ucast b"
    by (rule bit_eqI) (auto simp: bit_simps dest: bit_imp_le_length)
  then show ?case by (simp add: get_be_snoc snoc.IH)
qed

lemma put_get_be:
  "8 * length bs \<le> LENGTH('a::len) \<Longrightarrow> put_be (length bs) (get_be bs :: 'a word) = bs"
proof (induction bs rule: rev_induct)
  case Nil
  show ?case by simp
next
  case (snoc b bs)
  let ?g = "get_be bs :: 'a word"
  have small: "take_bit (8 * length bs) ?g = ?g" by (rule get_be_small)
  have "drop_bit 8 (push_bit 8 ?g OR ucast b) = take_bit (LENGTH('a) - 8) ?g"
    by (rule bit_eqI) (auto simp: bit_simps dest: bit_imp_le_length)
  also have "\<dots> = ?g"
    using snoc.prems small
    by (metis (no_types, lifting) add_le_imp_le_diff add.commute length_append_singleton
        min.absorb2 mult_Suc_right take_bit_take_bit)
  finally have "drop_bit 8 (push_bit 8 ?g OR ucast b) = ?g" .
  moreover have "ucast (push_bit 8 ?g OR ucast b) = b"
    using snoc.prems by (intro bit_eqI) (auto simp: bit_simps dest: bit_imp_le_length)
  ultimately show ?case
    using snoc by (simp add: put_be_Suc get_be_snoc)
qed

lemma put_get_be' [simp]:
  "length bs = n \<Longrightarrow> 8 * n \<le> LENGTH('a::len) \<Longrightarrow> put_be n (get_be bs :: 'a word) = bs"
  using put_get_be by blast

lemma put_be_inject:
  "LENGTH('a::len) \<le> 8 * n \<Longrightarrow> put_be n (v :: 'a word) = put_be n w \<longleftrightarrow> v = w"
  by (metis get_put_be)

lemma put_be_zero_iff: "LENGTH('a::len) \<le> 8 * n \<Longrightarrow> get_be (put_be n (w :: 'a word)) = (0 :: 'a word) \<longleftrightarrow> w = 0"
  by simp

text \<open>
  Reading a field back out of a packet that was built by appending fields: the packet is
  written as the bytes before the field, the field, and the bytes after it.
\<close>

definition seg :: "nat \<Rightarrow> nat \<Rightarrow> 'a list \<Rightarrow> 'a list" where
  "seg a b xs = take (b - a) (drop a xs)"

lemma length_seg [simp]: "length (seg a b xs) = min (b - a) (length xs - a)"
  by (simp add: seg_def min.commute)

lemma seg_skip [simp]:
  "length xs \<le> a \<Longrightarrow> seg a b (xs @ ys) = seg (a - length xs) (b - length xs) ys"
  by (simp add: seg_def)

lemma seg_here [simp]:
  "length xs = b \<Longrightarrow> seg 0 b (xs @ ys) = xs"
  by (simp add: seg_def)

lemma seg_all [simp]: "length xs = b \<Longrightarrow> seg 0 b xs = xs"
  by (simp add: seg_def)

lemma seg_Cons [simp]: "0 < a \<Longrightarrow> seg a b (x # xs) = seg (a - 1) (b - 1) xs"
  by (cases a) (auto simp: seg_def)

lemma drop_seg: "a \<le> b \<Longrightarrow> drop a xs = seg a b xs @ drop b xs"
  by (metis append_take_drop_id drop_drop le_add_diff_inverse2 seg_def)

lemma take_seg_drop:
  "a \<le> b \<Longrightarrow> b \<le> length xs \<Longrightarrow> take a xs @ seg a b xs @ drop b xs = xs"
  by (metis append_assoc append_take_drop_id drop_drop le_add_diff_inverse2 seg_def)

section \<open>Finite maps in iteration order\<close>

text \<open>
  A Go map that is iterated, or whose size counts, is an association list with distinct keys,
  updated and deleted from by the operations of \<open>HOL-Library.AList\<close>.  The order of the list
  stands for the order of an iteration, which Go leaves open; results hold for every list.
  \<open>total f m\<close> adds \<open>f\<close> over the values.
\<close>

definition total :: "('v \<Rightarrow> int) \<Rightarrow> ('k \<times> 'v) list \<Rightarrow> int" where
  "total f m = sum_list (map (\<lambda>(k, v). f v) m)"

lemma total_Nil [simp]: "total f [] = 0"
  by (simp add: total_def)

lemma total_Cons [simp]: "total f ((k, v) # m) = f v + total f m"
  by (simp add: total_def)

lemma total_append [simp]: "total f (m @ m') = total f m + total f m'"
  by (simp add: total_def)

lemma total_nonneg: "(\<And>k v. (k, v) \<in> set m \<Longrightarrow> 0 \<le> f v) \<Longrightarrow> 0 \<le> total f m"
proof (induction m)
  case Nil
  show ?case by simp
next
  case (Cons a m)
  obtain k v where a: "a = (k, v)" by fastforce
  have "0 \<le> f v" using Cons.prems [of k v] a by simp
  moreover have "0 \<le> total f m" using Cons.IH Cons.prems by (meson list.set_intros(2))
  ultimately show ?case by (simp add: a)
qed

lemma delete_absent [simp]: "map_of m k = None \<Longrightarrow> AList.delete k m = m"
  by (induction m) (auto split: if_splits)

lemma total_delete:
  "distinct (map fst m) \<Longrightarrow> map_of m k = Some v \<Longrightarrow> total f (AList.delete k m) = total f m - f v"
proof (induction m)
  case Nil
  then show ?case by simp
next
  case (Cons a m)
  obtain k' v' where a: "a = (k', v')" by fastforce
  show ?case
  proof (cases "k' = k")
    case True
    with Cons.prems a have "map_of m k = None" by (auto simp: map_of_eq_None_iff)
    with True Cons.prems a show ?thesis by simp
  next
    case False
    with Cons a show ?thesis by simp
  qed
qed

lemma update_absent: "map_of m k = None \<Longrightarrow> AList.update k v m = m @ [(k, v)]"
  by (induction m) (auto split: if_splits)

lemma total_update:
  "distinct (map fst m) \<Longrightarrow> total f (AList.update k v m) =
     total f m + f v - (case map_of m k of None \<Rightarrow> 0 | Some u \<Rightarrow> f u)"
  by (induction m) (auto simp: map_of_eq_None_iff)

lemma length_delete_present:
  "map_of m k = Some v \<Longrightarrow> length (AList.delete k m) < length m"
proof (induction m)
  case Nil
  then show ?case by simp
next
  case (Cons a m)
  then show ?case
    by (cases "fst a = k") (auto simp: le_imp_less_Suc length_delete_le)
qed

lemma map_of_update [simp]: "map_of (AList.update k v m) = (map_of m)(k \<mapsto> v)"
  by (rule update_conv')

lemma map_of_delete [simp]: "map_of (AList.delete k m) = (map_of m)(k := None)"
  by (rule delete_conv')

lemma distinct_delete_keys [simp]:
  "distinct (map fst m) \<Longrightarrow> distinct (map fst (AList.delete k m))"
  by (rule distinct_delete)

lemma distinct_update_keys [simp]:
  "distinct (map fst m) \<Longrightarrow> distinct (map fst (AList.update k v m))"
  by (rule distinct_update)

lemma length_dom_map_of: "distinct (map fst m) \<Longrightarrow> length m = card (dom (map_of m))"
  by (metis dom_map_of_conv_image_fst distinct_card length_map list.set_map)

lemma Some_eq_map_option: "Some y = map_option g x \<longleftrightarrow> (\<exists>z. x = Some z \<and> g z = y)"
  by (cases x) auto

text \<open>The first hit of a search.\<close>

fun first_some :: "'a option list \<Rightarrow> 'a option" where
  "first_some [] = None"
| "first_some (None # xs) = first_some xs"
| "first_some (Some x # xs) = Some x"

lemma first_some_SomeD: "first_some xs = Some x \<Longrightarrow> Some x \<in> set xs"
  by (induction xs rule: first_some.induct) auto

lemma first_some_NoneD: "first_some xs = None \<Longrightarrow> y \<in> set xs \<Longrightarrow> y = None"
  by (induction xs rule: first_some.induct) auto

lemma sum_list_int_nonneg: "(\<And>x. x \<in> set xs \<Longrightarrow> (0::int) \<le> f x) \<Longrightarrow> 0 \<le> sum_list (map f xs)"
  by (induction xs) auto

section \<open>The interface of a wire codec\<close>

text \<open>
  A pair of an encoder and a decoder, each of which may refuse its input.  Every message
  format of the program provides it; the strict formats, whose decoder accepts nothing but
  what the encoder writes, provide the canonical one.
\<close>

locale codec =
  fixes valid :: "'a \<Rightarrow> bool"
    and enc :: "'a \<Rightarrow> bytes result"
    and dec :: "bytes \<Rightarrow> 'a result"
  assumes enc_valid: "valid x \<Longrightarrow> \<exists>b. enc x = Inr b"
    and dec_enc: "valid x \<Longrightarrow> enc x = Inr b \<Longrightarrow> dec b = Inr x"
begin

lemma round_trip: "valid x \<Longrightarrow> \<exists>b. enc x = Inr b \<and> dec b = Inr x"
  using enc_valid dec_enc by blast

lemma enc_inject: "valid x \<Longrightarrow> valid y \<Longrightarrow> enc x = Inr b \<Longrightarrow> enc y = Inr b \<Longrightarrow> x = y"
  by (metis dec_enc sum.inject(2))

end

locale canonical_codec = codec +
  assumes dec_valid: "dec b = Inr x \<Longrightarrow> valid x"
    and enc_dec: "dec b = Inr x \<Longrightarrow> enc x = Inr b"
begin

lemma dec_iff_enc: "valid x \<Longrightarrow> dec b = Inr x \<longleftrightarrow> enc x = Inr b"
  using dec_enc enc_dec by blast

lemma dec_inject: "dec b = Inr x \<Longrightarrow> dec b' = Inr x \<Longrightarrow> b = b'"
  by (metis enc_dec sum.inject(2))

lemma dec_accepts: "ok (dec b) \<longleftrightarrow> (\<exists>x. valid x \<and> enc x = Inr b)"
proof
  assume "ok (dec b)"
  then obtain x where "dec b = Inr x" by (cases "dec b") auto
  then show "\<exists>x. valid x \<and> enc x = Inr b" using dec_valid enc_dec by blast
next
  assume "\<exists>x. valid x \<and> enc x = Inr b"
  then obtain x where "dec b = Inr x" using dec_enc by blast
  then show "ok (dec b)" by simp
qed

end

section \<open>The interface of a machine that keeps an invariant\<close>

text \<open>
  A component driven by a sequence of operations.  A client of such a component gets
  the invariant after any sequence of them, in any order.
\<close>

locale machine =
  fixes step :: "'s \<Rightarrow> 'e \<Rightarrow> 's"
    and inv :: "'s \<Rightarrow> bool"
    and start :: "'s \<Rightarrow> bool"
  assumes inv_start: "start s \<Longrightarrow> inv s"
    and inv_step: "inv s \<Longrightarrow> inv (step s e)"
begin

lemma inv_run: "inv s \<Longrightarrow> inv (foldl step s es)"
  by (induction es arbitrary: s) (auto intro: inv_step)

lemma inv_reachable: "start s \<Longrightarrow> inv (foldl step s es)"
  by (rule inv_run [OF inv_start])

lemma inv_prefix: "start s \<Longrightarrow> inv (foldl step s (take n es))"
  by (rule inv_reachable)

end

end
