(* ===== verification/Wire.thy ===== *)
theory Wire
  imports Prelude
begin

text \<open>
  The packet prefix, the packet sizes and the session header of
  \<open>internal/protocol/wire.go\<close>, with the size constants of \<open>bridge.go\<close>,
  \<open>reliable.go\<close> and \<open>room_datagram.go\<close> that \<open>ValidPacketSize\<close> uses, the
  zero test of \<open>internal/identity\<close>, and the AEAD interface \<open>crypto/cipher.AEAD\<close> through
  which packets are sealed.  The cipher itself is a library outside the repository, so it
  is an argument of every definition that uses it; what is assumed of it, where a lemma
  needs it, is \<open>aead_correct\<close>.
\<close>

section \<open>Peer identifiers\<close>

text \<open>\<open>type PeerID [16]byte\<close>\<close>

type_synonym PeerID = id16

definition IsZero :: "PeerID \<Rightarrow> bool" where [simp]: "IsZero peerID \<longleftrightarrow> peerID = 0"

section \<open>Packet types and sizes\<close>

definition Version :: byte where [simp]: "Version = 3"

definition PacketHelloProbe :: byte where [simp]: "PacketHelloProbe = 1"
definition PacketSessionHello :: byte where [simp]: "PacketSessionHello = 2"
definition PacketPing :: byte where [simp]: "PacketPing = 3"
definition PacketPong :: byte where [simp]: "PacketPong = 4"
definition PacketBridge :: byte where [simp]: "PacketBridge = 5"
definition PacketBridgeLowPriority :: byte where [simp]: "PacketBridgeLowPriority = 6"
definition PacketVoice :: byte where [simp]: "PacketVoice = 7"
definition PacketScreenVideo :: byte where [simp]: "PacketScreenVideo = 8"
definition PacketScreenAudio :: byte where [simp]: "PacketScreenAudio = 9"
definition PacketReliable :: byte where [simp]: "PacketReliable = 10"
definition PacketLeave :: byte where [simp]: "PacketLeave = 11"

definition prefixSize :: nat where [simp]: "prefixSize = 4 + 1"
definition sessionHeaderSize :: nat where [simp]: "sessionHeaderSize = prefixSize + 16 + 8"
definition aeadTagSize :: nat where [simp]: "aeadTagSize = 16"

definition helloMACSize :: nat where [simp]: "helloMACSize = 32"
definition helloProbeBodySize :: nat where [simp]: "helloProbeBodySize = 16"
definition helloProbePacketSize :: nat where
  [simp]: "helloProbePacketSize = prefixSize + helloProbeBodySize + helloMACSize"
definition sessionHelloBodySize :: nat where [simp]: "sessionHelloBodySize = 16 + 16 + 32"
definition sessionHelloPacketSize :: nat where
  [simp]: "sessionHelloPacketSize = prefixSize + sessionHelloBodySize + helloMACSize"

definition emptyControlPacketSize :: nat where
  [simp]: "emptyControlPacketSize = sessionHeaderSize + aeadTagSize"
definition pongPlaintextSize :: nat where [simp]: "pongPlaintextSize = 8"
definition pongPacketSize :: nat where
  [simp]: "pongPacketSize = sessionHeaderSize + pongPlaintextSize + aeadTagSize"

definition MaxDatagramSize :: nat where [simp]: "MaxDatagramSize = 1200"

definition roomDatagramHeaderSize :: nat where
  [simp]: "roomDatagramHeaderSize = prefixSize + 16 + 8"
definition MaxRoomDatagramPayload :: nat where
  [simp]: "MaxRoomDatagramPayload = MaxDatagramSize - roomDatagramHeaderSize - 4 - aeadTagSize"
definition roomDatagramMinPacketSize :: nat where
  [simp]: "roomDatagramMinPacketSize = roomDatagramHeaderSize + 4 + 1 + aeadTagSize"

text \<open>\<open>reliable.go\<close> and \<open>bridge.go\<close>\<close>

definition MaxReliableFragments :: nat where [simp]: "MaxReliableFragments = 1024"
definition reliablePlaintextFixedSize :: nat where
  [simp]: "reliablePlaintextFixedSize = 2 + 8 + 2 + 2 + 8 + 8"
definition reliableMinPacketSize :: nat where
  [simp]: "reliableMinPacketSize = sessionHeaderSize + reliablePlaintextFixedSize + aeadTagSize"

definition bridgeBodyFixedSize :: nat where [simp]: "bridgeBodyFixedSize = 16"
definition MaxBridgeInnerSize :: nat where
  [simp]: "MaxBridgeInnerSize = MaxDatagramSize - sessionHeaderSize - aeadTagSize - bridgeBodyFixedSize"
definition bridgeMinPacketSize :: nat where
  [simp]: "bridgeMinPacketSize =
     sessionHeaderSize + aeadTagSize + bridgeBodyFixedSize + emptyControlPacketSize"
definition bridgeLowPriorityMinPacketSize :: nat where
  [simp]: "bridgeLowPriorityMinPacketSize =
     sessionHeaderSize + aeadTagSize + bridgeBodyFixedSize + reliableMinPacketSize"
definition MaxReliablePayload :: nat where
  [simp]: "MaxReliablePayload =
     MaxBridgeInnerSize - sessionHeaderSize - reliablePlaintextFixedSize - aeadTagSize"

definition fixedPacketSizes :: "nat list" where
  "fixedPacketSizes =
     [0, helloProbePacketSize, sessionHelloPacketSize, emptyControlPacketSize, pongPacketSize,
      0, 0, 0, 0, 0, 0, emptyControlPacketSize]"

definition sizeWithin :: "nat \<Rightarrow> nat \<Rightarrow> nat \<Rightarrow> bool" where
  [simp]: "sizeWithin sz minimum maximum \<longleftrightarrow> sz \<ge> minimum \<and> sz \<le> maximum"

definition ValidPacketSize :: "byte \<Rightarrow> nat \<Rightarrow> bool" where
  "ValidPacketSize packetType sz =
     (if unat packetType < length fixedPacketSizes \<and> fixedPacketSizes ! unat packetType \<noteq> 0
      then sz = fixedPacketSizes ! unat packetType
      else if packetType = PacketBridge
        then sizeWithin sz bridgeMinPacketSize MaxDatagramSize
      else if packetType = PacketBridgeLowPriority
        then sizeWithin sz bridgeLowPriorityMinPacketSize MaxDatagramSize
      else if packetType = PacketVoice \<or> packetType = PacketScreenVideo \<or> packetType = PacketScreenAudio
        then sizeWithin sz roomDatagramMinPacketSize MaxDatagramSize
      else if packetType = PacketReliable
        then sizeWithin sz reliableMinPacketSize MaxBridgeInnerSize
      else False)"

section \<open>Prefix and session header\<close>

text \<open>\<open>var Magic = [4]byte{'B', 'R', 'K', '0' + Version}\<close>\<close>

definition Magic :: bytes where
  "Magic = [66, 82, 75, 48 + Version]"

definition appendPrefix :: "bytes \<Rightarrow> byte \<Rightarrow> bytes" where
  "appendPrefix destination packetType = (destination @ Magic) @ [packetType]"

definition ParsePrefix :: "bytes \<Rightarrow> byte result" where
  "ParsePrefix packet =
     (if length packet < prefixSize then fail ''Bork packet is truncated''
      else if take 4 packet \<noteq> Magic then fail ''Bork packet magic is invalid''
      else Inr (packet ! 4))"

definition appendUint64 :: "bytes \<Rightarrow> uint64 \<Rightarrow> bytes" where
  "appendUint64 destination v = destination @ put_be 8 v"

record SessionHeader =
  Type :: byte
  SessionID :: id16
  PacketSequence :: uint64

definition appendSessionHeader :: "bytes \<Rightarrow> byte \<Rightarrow> id16 \<Rightarrow> uint64 \<Rightarrow> bytes" where
  "appendSessionHeader destination packetType sessionID sequence =
     appendUint64 (appendPrefix destination packetType @ put_be 16 sessionID) sequence"

definition validSessionPacketType :: "byte \<Rightarrow> bool" where
  "validSessionPacketType packetType \<longleftrightarrow>
     packetType \<in> {PacketPing, PacketPong, PacketBridge, PacketBridgeLowPriority, PacketReliable,
       PacketLeave}"

definition ParseSessionHeader :: "bytes \<Rightarrow> SessionHeader result" where
  "ParseSessionHeader packet =
     (if length packet < sessionHeaderSize then fail ''session packet is truncated''
      else case ParsePrefix packet of
        Inl err \<Rightarrow> fail ''session packet prefix is invalid''
      | Inr packetType \<Rightarrow>
          if \<not> validSessionPacketType packetType then fail ''session packet prefix is invalid''
          else
            let header = \<lparr>Type = packetType,
                  SessionID = get_be (seg prefixSize (prefixSize + 16) packet),
                  PacketSequence = get_be (seg (prefixSize + 16) sessionHeaderSize packet)\<rparr>
            in if SessionID header = 0 \<or> PacketSequence header = 0
               then fail ''session packet header is invalid''
               else Inr header)"

definition sessionNonce :: "bytes \<Rightarrow> bytes" where
  "sessionNonce packet = seg (sessionHeaderSize - 12) sessionHeaderSize packet"

section \<open>Sealing\<close>

text \<open>
  \<open>crypto/cipher.AEAD\<close>: \<open>Seal\<close> takes nonce, plaintext and additional data, \<open>Open\<close>
  nonce, ciphertext and additional data.  A nil \<open>cipher.AEAD\<close> is \<open>None\<close>.
\<close>

record aead =
  NonceSize :: nat
  Overhead :: nat
  Seal :: "bytes \<Rightarrow> bytes \<Rightarrow> bytes \<Rightarrow> bytes"
  Open :: "bytes \<Rightarrow> bytes \<Rightarrow> bytes \<Rightarrow> bytes option"

text \<open>
  The documented contract: opening what was sealed under the same nonce and additional
  data gives the plaintext back, and a ciphertext is longer than its plaintext by the
  overhead, for sealing as for opening.
\<close>

definition aead_correct :: "aead \<Rightarrow> bool" where
  "aead_correct A \<longleftrightarrow>
     (\<forall>n p a. Open A n (Seal A n p a) a = Some p \<and> length (Seal A n p a) = length p + Overhead A) \<and>
     (\<forall>n c a p. Open A n c a = Some p \<longrightarrow> length c = length p + Overhead A)"

text \<open>
  A deterministic AEAD: opening recomputes the tag and compares it, so a ciphertext opens
  only when it is what sealing the plaintext gives.  ChaCha20-Poly1305 is one.
\<close>

definition aead_strict :: "aead \<Rightarrow> bool" where
  "aead_strict A \<longleftrightarrow> aead_correct A \<and> (\<forall>n c a p. Open A n c a = Some p \<longrightarrow> c = Seal A n p a)"

definition validPairwiseCipher :: "aead option \<Rightarrow> bool" where
  "validPairwiseCipher protector =
     (case protector of None \<Rightarrow> False | Some A \<Rightarrow> NonceSize A = 12 \<and> Overhead A = aeadTagSize)"

text \<open>
  The tail of every \<open>Marshal\<close> function: the body that follows the header is sealed in
  place, with the header as additional data, and the packet is resliced to the header and
  the sealed body.  \<open>openBody\<close> is the matching tail of the \<open>Parse\<close> functions.
\<close>

definition sealBody :: "aead \<Rightarrow> nat \<Rightarrow> (bytes \<Rightarrow> bytes) \<Rightarrow> bytes \<Rightarrow> bytes" where
  "sealBody A headerSize nonce packet =
     take headerSize packet
       @ Seal A (nonce packet) (drop headerSize packet) (take headerSize packet)"

definition openBody :: "aead \<Rightarrow> nat \<Rightarrow> (bytes \<Rightarrow> bytes) \<Rightarrow> bytes \<Rightarrow> bytes option" where
  "openBody A headerSize nonce packet =
     Open A (nonce packet) (drop headerSize packet) (take headerSize packet)"

text \<open>
  A concrete AEAD for the witnesses: the ciphertext is the plaintext, followed by a tag of
  sixteen bytes that repeats its length and one checksum byte over nonce, plaintext and
  additional data.
\<close>

definition toy_tag :: "bytes \<Rightarrow> bytes \<Rightarrow> bytes \<Rightarrow> bytes" where
  "toy_tag n p a = replicate 15 (of_nat (length p)) @ [sum_list (n @ p @ a)]"

definition toy_aead :: "nat \<Rightarrow> aead" where
  "toy_aead nonceSize = \<lparr>NonceSize = nonceSize, Overhead = 16,
     Seal = (\<lambda>n p a. p @ toy_tag n p a),
     Open = (\<lambda>n c a. let p = take (length c - 16) c in
       if 16 \<le> length c \<and> drop (length c - 16) c = toy_tag n p a then Some p else None)\<rparr>"

lemma length_toy_tag [simp]: "length (toy_tag n p a) = 16"
  by (simp add: toy_tag_def)

lemma toy_aead_strict: "aead_strict (toy_aead k)"
  by (auto simp: aead_strict_def aead_correct_def toy_aead_def Let_def split: if_splits)
     (metis append_take_drop_id)+

lemma toy_aead_correct: "aead_correct (toy_aead k)"
  using toy_aead_strict by (simp add: aead_strict_def)

lemma toy_aead_sizes [simp]: "NonceSize (toy_aead k) = k" "Overhead (toy_aead k) = 16"
  by (simp_all add: toy_aead_def)

lemma open_seal: "aead_correct A \<Longrightarrow> Open A n (Seal A n p a) a = Some p"
  by (simp add: aead_correct_def)

lemma length_seal: "aead_correct A \<Longrightarrow> length (Seal A n p a) = length p + Overhead A"
  by (simp add: aead_correct_def)

lemma length_open: "aead_correct A \<Longrightarrow> Open A n c a = Some p \<Longrightarrow> length c = length p + Overhead A"
  by (simp add: aead_correct_def)

lemma seal_open: "aead_strict A \<Longrightarrow> Open A n c a = Some p \<Longrightarrow> Seal A n p a = c"
  by (simp add: aead_strict_def)

lemma aead_strictD: "aead_strict A \<Longrightarrow> aead_correct A"
  by (simp add: aead_strict_def)

section \<open>Lemmas on headers\<close>

lemma length_Magic [simp]: "length Magic = 4"
  by (simp add: Magic_def)

lemma Magic_eq: "Magic = [66, 82, 75, 51]"
  by (simp add: Magic_def)

lemma ParsePrefix_appendPrefix [simp]:
  "ParsePrefix (appendPrefix [] t @ rest) = Inr t"
  by (simp add: ParsePrefix_def appendPrefix_def nth_append)

lemma ParsePrefix_take:
  "prefixSize \<le> n \<Longrightarrow> n \<le> length packet \<Longrightarrow> ParsePrefix (take n packet) = ParsePrefix packet"
  by (auto simp: ParsePrefix_def min_def)

lemma ParsePrefix_OK:
  "ParsePrefix packet = Inr t \<longleftrightarrow> (\<exists>rest. packet = appendPrefix [] t @ rest)"
proof
  assume p: "ParsePrefix packet = Inr t"
  then have "length packet > 4" "take 4 packet = Magic" "packet ! 4 = t"
    by (auto simp: ParsePrefix_def split: if_splits)
  then have "packet = Magic @ [t] @ drop 5 packet"
    by (metis append_Cons append_Nil append_take_drop_id Cons_nth_drop_Suc eval_nat_numeral(3))
  then show "\<exists>rest. packet = appendPrefix [] t @ rest"
    by (auto simp: appendPrefix_def)
qed auto

lemma length_appendSessionHeader [simp, length_simps]:
  "length (appendSessionHeader [] t sid n) = 29"
  by (simp add: appendSessionHeader_def appendUint64_def appendPrefix_def)

lemma ParseSessionHeader_appendSessionHeader:
  assumes "validSessionPacketType t" "sid \<noteq> 0" "n \<noteq> 0"
  shows "ParseSessionHeader (appendSessionHeader [] t sid n @ rest)
    = Inr \<lparr>Type = t, SessionID = sid, PacketSequence = n\<rparr>"
  using assms
  by (simp add: ParseSessionHeader_def appendSessionHeader_def appendUint64_def)
     (simp add: appendPrefix_def)

lemma ParseSessionHeader_OK:
  "ParseSessionHeader packet = Inr h \<longleftrightarrow>
     validSessionPacketType (Type h) \<and> SessionID h \<noteq> 0 \<and> PacketSequence h \<noteq> 0 \<and>
     (\<exists>rest. packet = appendSessionHeader [] (Type h) (SessionID h) (PacketSequence h) @ rest)"
  (is "?l \<longleftrightarrow> ?r")
proof
  assume l: ?l
  then have len: "29 \<le> length packet" and v: "validSessionPacketType (Type h)"
    and t: "ParsePrefix packet = Inr (Type h)"
    and s: "SessionID h = get_be (seg 5 21 packet)" "SessionID h \<noteq> 0"
    and n: "PacketSequence h = get_be (seg 21 29 packet)" "PacketSequence h \<noteq> 0"
    by (auto simp: ParseSessionHeader_def Let_def split: if_splits sum.splits)
  obtain rest where p: "packet = appendPrefix [] (Type h) @ rest"
    using t ParsePrefix_OK by blast
  then have "rest = drop 5 packet" by (simp add: appendPrefix_def)
  also have "\<dots> = seg 5 21 packet @ seg 21 29 packet @ drop 29 packet"
    using drop_seg [of 5 21 packet] drop_seg [of 21 29 packet] by simp
  finally have "packet = appendPrefix [] (Type h) @ seg 5 21 packet @ seg 21 29 packet
      @ drop 29 packet"
    using p by simp
  moreover have "put_be 16 (SessionID h) = seg 5 21 packet"
    using len s by simp
  moreover have "put_be 8 (PacketSequence h) = seg 21 29 packet"
    using len n by simp
  ultimately have "packet = appendSessionHeader [] (Type h) (SessionID h) (PacketSequence h)
      @ drop 29 packet"
    by (simp add: appendSessionHeader_def appendUint64_def)
  with v s n show ?r by blast
next
  assume ?r
  then show ?l by (auto simp: ParseSessionHeader_appendSessionHeader)
qed

lemma take_29_appendSessionHeader [simp]:
  "take 29 (appendSessionHeader [] t sid n @ rest) = appendSessionHeader [] t sid n"
  "drop 29 (appendSessionHeader [] t sid n @ rest) = rest"
  by simp_all

lemma sessionNonce_append [simp]:
  "29 \<le> length packet \<Longrightarrow> sessionNonce (packet @ rest) = sessionNonce packet"
  by (simp add: sessionNonce_def seg_def)

lemma sealBody_append:
  "length hdr = n \<Longrightarrow> (\<And>body. nonce (hdr @ body) = nonce hdr) \<Longrightarrow>
     sealBody A n nonce (hdr @ body) = hdr @ Seal A (nonce hdr) body hdr"
  by (simp add: sealBody_def)

lemma openBody_append:
  "length hdr = n \<Longrightarrow> (\<And>body. nonce (hdr @ body) = nonce hdr) \<Longrightarrow>
     openBody A n nonce (hdr @ sealed) = Open A (nonce hdr) sealed hdr"
  by (simp add: openBody_def)

lemma sealBody_session [simp]:
  "length hdr = 29 \<Longrightarrow>
     sealBody A 29 sessionNonce (hdr @ body) = hdr @ Seal A (sessionNonce hdr) body hdr"
  by (rule sealBody_append) simp_all

lemma openBody_session [simp]:
  "length hdr = 29 \<Longrightarrow>
     openBody A 29 sessionNonce (hdr @ sealed) = Open A (sessionNonce hdr) sealed hdr"
  by (rule openBody_append) simp_all

lemma ValidPacketSize_simps:
  "ValidPacketSize PacketHelloProbe n \<longleftrightarrow> n = 53"
  "ValidPacketSize PacketSessionHello n \<longleftrightarrow> n = 101"
  "ValidPacketSize PacketPing n \<longleftrightarrow> n = 45"
  "ValidPacketSize PacketPong n \<longleftrightarrow> n = 53"
  "ValidPacketSize PacketLeave n \<longleftrightarrow> n = 45"
  "ValidPacketSize PacketBridge n \<longleftrightarrow> 106 \<le> n \<and> n \<le> 1200"
  "ValidPacketSize PacketBridgeLowPriority n \<longleftrightarrow> 136 \<le> n \<and> n \<le> 1200"
  "ValidPacketSize PacketVoice n \<longleftrightarrow> 50 \<le> n \<and> n \<le> 1200"
  "ValidPacketSize PacketScreenVideo n \<longleftrightarrow> 50 \<le> n \<and> n \<le> 1200"
  "ValidPacketSize PacketScreenAudio n \<longleftrightarrow> 50 \<le> n \<and> n \<le> 1200"
  "ValidPacketSize PacketReliable n \<longleftrightarrow> 75 \<le> n \<and> n \<le> 1139"
  by (simp_all add: ValidPacketSize_def fixedPacketSizes_def)

text \<open>No datagram of the protocol is larger than \<open>MaxDatagramSize\<close>.\<close>

lemma ValidPacketSize_bounded: "ValidPacketSize t n \<Longrightarrow> n \<le> 1200"
proof -
  assume v: "ValidPacketSize t n"
  have "x \<le> 101" if "x \<in> set fixedPacketSizes" for x
    using that by (auto simp: fixedPacketSizes_def)
  then have "unat t < length fixedPacketSizes \<Longrightarrow> fixedPacketSizes ! unat t \<le> 101"
    by simp
  with v show ?thesis
    by (auto simp: ValidPacketSize_def split: if_splits)
qed

end
