(* ===== verification/ControlWire.thy ===== *)
theory ControlWire
  imports Wire
begin

text \<open>
  Ping, Pong and Leave packets: \<open>internal/protocol/control.go\<close>.  A Pong carries the
  packet sequence of the Ping it answers; Ping and Leave have an empty body.
\<close>

definition validControlType :: "byte \<Rightarrow> bool" where
  "validControlType packetType \<longleftrightarrow> packetType \<in> {PacketPing, PacketPong, PacketLeave}"

definition validControlFields :: "byte \<Rightarrow> uint64 \<Rightarrow> bool" where
  "validControlFields packetType pingSequence =
     (if \<not> validControlType packetType then False
      else (packetType = PacketPong) = (pingSequence \<noteq> 0))"

definition validControlPacket :: "SessionHeader \<Rightarrow> id16 \<Rightarrow> nat \<Rightarrow> bool" where
  "validControlPacket header sessionID sz \<longleftrightarrow>
     validControlType (Type header) \<and> SessionID header = sessionID \<and>
     ValidPacketSize (Type header) sz"

definition decodeControlBody :: "byte \<Rightarrow> bytes \<Rightarrow> uint64 result" where
  "decodeControlBody packetType body =
     (if packetType \<noteq> PacketPong then
        (if length body \<noteq> 0 then fail ''control packet body is not empty'' else Inr 0)
      else if length body \<noteq> pongPlaintextSize then fail ''pong packet body is invalid''
      else let pingSequence = get_be body in
        if pingSequence = 0 then fail ''pong packet ping sequence is zero''
        else Inr pingSequence)"

definition MarshalControl :: "byte \<Rightarrow> id16 \<Rightarrow> uint64 \<Rightarrow> uint64 \<Rightarrow> aead option \<Rightarrow> bytes result" where
  "MarshalControl packetType sessionID packetSequence pingSequence protector =
     (if sessionID = 0 \<or> packetSequence = 0 \<or> \<not> validControlFields packetType pingSequence
      then fail ''control packet fields are invalid''
      else if \<not> validPairwiseCipher protector then fail ''control packet protector is invalid''
      else
        let packet = appendSessionHeader [] packetType sessionID packetSequence;
            packet = (if packetType = PacketPong then appendUint64 packet pingSequence else packet)
        in Inr (sealBody (the protector) sessionHeaderSize sessionNonce packet))"

definition ParseControl :: "bytes \<Rightarrow> id16 \<Rightarrow> aead option \<Rightarrow> uint64 result" where
  "ParseControl packet expectedSessionID protector =
     (case ParseSessionHeader packet of
        Inl err \<Rightarrow> fail ''control packet header is invalid''
      | Inr header \<Rightarrow>
          if \<not> validControlPacket header expectedSessionID (length packet)
          then fail ''control packet header is invalid''
          else if \<not> validPairwiseCipher protector
          then fail ''control packet protector is invalid''
          else case openBody (the protector) sessionHeaderSize sessionNonce packet of
              None \<Rightarrow> fail ''control packet authentication failed''
            | Some opened \<Rightarrow> decodeControlBody (Type header) opened)"

lemma MarshalControl_eq:
  assumes "sid \<noteq> 0" "n \<noteq> 0" "validControlFields t q" "validPairwiseCipher (Some A)"
  defines "hdr \<equiv> appendSessionHeader [] t sid n"
  shows "MarshalControl t sid n q (Some A) =
    Inr (hdr @ Seal A (sessionNonce hdr) (if t = PacketPong then put_be 8 q else []) hdr)"
  using assms(1-4) sealBody_session [of hdr A "[]"] unfolding hdr_def
  by (simp add: MarshalControl_def appendUint64_def)

lemma validControlType_session: "validControlType t \<Longrightarrow> validSessionPacketType t"
  by (auto simp: validControlType_def validSessionPacketType_def)

lemma ParseControl_MarshalControl:
  assumes m: "MarshalControl t sid n q (Some A) = Inr packet" and A: "aead_correct A"
  shows "ParseSessionHeader packet = Inr \<lparr>Type = t, SessionID = sid, PacketSequence = n\<rparr>"
    and "ParseControl packet sid (Some A) = Inr q"
proof -
  have v: "sid \<noteq> 0" "n \<noteq> 0" "validControlFields t q" "validPairwiseCipher (Some A)"
    using m by (auto simp: MarshalControl_def split: if_splits)
  define hdr where "hdr = appendSessionHeader [] t sid n"
  define body where "body = (if t = PacketPong then put_be 8 q else [])"
  have len: "length hdr = 29" by (simp add: hdr_def)
  have packet: "packet = hdr @ Seal A (sessionNonce hdr) body hdr"
    using m MarshalControl_eq [OF v] by (simp add: hdr_def body_def)
  have vt: "validControlType t" using v by (auto simp: validControlFields_def split: if_splits)
  then show hd: "ParseSessionHeader packet = Inr \<lparr>Type = t, SessionID = sid, PacketSequence = n\<rparr>"
    using v by (simp add: packet hdr_def ParseSessionHeader_appendSessionHeader
        validControlType_session)
  have ov: "Overhead A = 16" using v by (simp add: validPairwiseCipher_def)
  have "length packet = 45 + length body"
    using A ov by (simp add: packet len length_seal)
  then have "ValidPacketSize t (length packet)"
    using vt by (auto simp: validControlType_def body_def ValidPacketSize_simps [simplified])
  moreover have "openBody A 29 sessionNonce packet = Some body"
    using A len by (simp add: packet open_seal)
  moreover have "decodeControlBody t body = Inr q"
    using v by (auto simp: decodeControlBody_def body_def validControlFields_def split: if_splits)
  ultimately show "ParseControl packet sid (Some A) = Inr q"
    using hd v vt by (simp add: ParseControl_def validControlPacket_def)
qed

lemma MarshalControl_ParseControl:
  assumes p: "ParseControl packet sid (Some A) = Inr q" and A: "aead_strict A"
  obtains h where "ParseSessionHeader packet = Inr h"
    and "MarshalControl (Type h) sid (PacketSequence h) q (Some A) = Inr packet"
proof -
  obtain h opened where h: "ParseSessionHeader packet = Inr h"
    and vp: "validControlPacket h sid (length packet)" and vc: "validPairwiseCipher (Some A)"
    and o: "openBody A 29 sessionNonce packet = Some opened"
    and d: "decodeControlBody (Type h) opened = Inr q"
    using p by (auto simp: ParseControl_def split: sum.splits if_splits option.splits)
  define hdr where "hdr = appendSessionHeader [] (Type h) sid (PacketSequence h)"
  obtain rest where packet: "packet = hdr @ rest" and nz: "sid \<noteq> 0" "PacketSequence h \<noteq> 0"
    using h vp by (auto simp: ParseSessionHeader_OK hdr_def validControlPacket_def)
  have len: "length hdr = 29" by (simp add: hdr_def)
  have "Open A (sessionNonce hdr) rest hdr = Some opened"
    using o len by (simp add: packet)
  then have rest: "rest = Seal A (sessionNonce hdr) opened hdr"
    using A by (metis seal_open)
  have vt: "validControlType (Type h)" using vp by (simp add: validControlPacket_def)
  have body: "opened = (if Type h = PacketPong then put_be 8 q else [])"
    using d by (auto simp: decodeControlBody_def Let_def split: if_splits)
  have "validControlFields (Type h) q"
    using d vt by (auto simp: decodeControlBody_def validControlFields_def Let_def split: if_splits)
  then have "MarshalControl (Type h) sid (PacketSequence h) q (Some A) = Inr packet"
    using MarshalControl_eq [OF nz _ vc] by (simp add: packet rest body hdr_def)
  with h that show ?thesis by blast
qed

text \<open>Ping, pong and leave packets: marshalling and parsing are exact inverses under a
  session's cipher.\<close>

theorem control_wire_inverse:
  assumes "aead_strict A"
  shows "MarshalControl t sid n q (Some A) = Inr packet \<longleftrightarrow>
    ParseSessionHeader packet = Inr \<lparr>Type = t, SessionID = sid, PacketSequence = n\<rparr> \<and>
    ParseControl packet sid (Some A) = Inr q"
proof
  assume "MarshalControl t sid n q (Some A) = Inr packet"
  then show "ParseSessionHeader packet = Inr \<lparr>Type = t, SessionID = sid, PacketSequence = n\<rparr> \<and>
    ParseControl packet sid (Some A) = Inr q"
    using ParseControl_MarshalControl assms aead_strictD by blast
next
  assume r: "ParseSessionHeader packet = Inr \<lparr>Type = t, SessionID = sid, PacketSequence = n\<rparr> \<and>
    ParseControl packet sid (Some A) = Inr q"
  then obtain h where "ParseSessionHeader packet = Inr h" "MarshalControl (Type h) sid (PacketSequence h) q (Some A) = Inr packet"
    using MarshalControl_ParseControl [OF _ assms] by blast
  with r show "MarshalControl t sid n q (Some A) = Inr packet" by simp
qed

theorem control_wire_inverse_witness:
  "\<exists>packet. MarshalControl PacketPong 1 2 9 (Some (toy_aead 12)) = Inr packet \<and>
    ParseControl packet 1 (Some (toy_aead 12)) = Inr 9"
proof -
  obtain packet where m: "MarshalControl PacketPong 1 2 9 (Some (toy_aead 12)) = Inr packet"
    by (simp add: MarshalControl_def validControlFields_def validControlType_def validPairwiseCipher_def Let_def)
  with control_wire_inverse [OF toy_aead_strict, of PacketPong 1 2 9 12 packet] show ?thesis by auto
qed

end
