(* ===== verification/HelloWire.thy ===== *)
theory HelloWire
  imports Wire
begin

text \<open>
  Hello packets and the derivation of a session's ciphers:
  \<open>internal/protocol/hello.go\<close> and \<open>session.go\<close>.  HMAC-SHA256 under a 32-byte key is
  the argument \<open>mac\<close>; the primitives of the key agreement (X25519, SHA-256, HKDF,
  ChaCha20-Poly1305) are the fields of a record of arguments.
\<close>

section \<open>Hello packets\<close>

record SessionHello =
  helloSessionID :: id16
  helloPeerID :: PeerID
  EphemeralKey :: key32
  wire :: bytes

definition appendAdmissionMAC :: "(key32 \<Rightarrow> bytes \<Rightarrow> bytes) \<Rightarrow> bytes \<Rightarrow> key32 \<Rightarrow> bytes" where
  "appendAdmissionMAC mac packet admissionKey = packet @ mac admissionKey packet"

definition validAdmissionMAC :: "(key32 \<Rightarrow> bytes \<Rightarrow> bytes) \<Rightarrow> bytes \<Rightarrow> key32 \<Rightarrow> bool" where
  "validAdmissionMAC mac packet admissionKey =
     (let bodyEnd = length packet - helloMACSize
      in drop bodyEnd packet = mac admissionKey (take bodyEnd packet))"

definition MarshalHelloProbe :: "(key32 \<Rightarrow> bytes \<Rightarrow> bytes) \<Rightarrow> key32 \<Rightarrow> PeerID \<Rightarrow> bytes result" where
  "MarshalHelloProbe mac admissionKey peerID =
     (if IsZero peerID then fail ''hello probe peer ID is empty''
      else
        let packet = appendPrefix [] PacketHelloProbe @ put_be 16 peerID
        in Inr (appendAdmissionMAC mac packet admissionKey))"

definition ParseHelloProbe :: "(key32 \<Rightarrow> bytes \<Rightarrow> bytes) \<Rightarrow> bytes \<Rightarrow> key32 \<Rightarrow> PeerID result" where
  "ParseHelloProbe mac packet admissionKey =
     (if length packet \<noteq> helloProbePacketSize then fail ''hello probe length is invalid''
      else case ParsePrefix packet of
        Inl err \<Rightarrow> fail ''hello probe authentication failed''
      | Inr packetType \<Rightarrow>
          if packetType \<noteq> PacketHelloProbe \<or> \<not> validAdmissionMAC mac packet admissionKey
          then fail ''hello probe authentication failed''
          else
            let peerID = get_be (seg prefixSize (prefixSize + 16) packet)
            in if IsZero peerID then fail ''hello probe peer ID is empty'' else Inr peerID)"

definition MarshalSessionHello ::
  "(key32 \<Rightarrow> bytes \<Rightarrow> bytes) \<Rightarrow> key32 \<Rightarrow> PeerID \<Rightarrow> id16 \<Rightarrow> key32 \<Rightarrow> bytes result" where
  "MarshalSessionHello mac admissionKey peerID sessionID ephemeralKey =
     (if IsZero peerID then fail ''session hello peer ID is empty''
      else if sessionID = 0 then fail ''session hello session ID is empty''
      else if ephemeralKey = 0 then fail ''session hello ephemeral key is empty''
      else
        let packet = appendPrefix [] PacketSessionHello @ put_be 16 sessionID @ put_be 16 peerID
              @ put_be 32 ephemeralKey
        in Inr (appendAdmissionMAC mac packet admissionKey))"

definition ParseSessionHello ::
  "(key32 \<Rightarrow> bytes \<Rightarrow> bytes) \<Rightarrow> bytes \<Rightarrow> key32 \<Rightarrow> SessionHello result" where
  "ParseSessionHello mac packet admissionKey =
     (if length packet \<noteq> sessionHelloPacketSize then fail ''session hello length is invalid''
      else case ParsePrefix packet of
        Inl err \<Rightarrow> fail ''session hello authentication failed''
      | Inr packetType \<Rightarrow>
          if packetType \<noteq> PacketSessionHello \<or> \<not> validAdmissionMAC mac packet admissionKey
          then fail ''session hello authentication failed''
          else
            let offset = prefixSize;
                sessionID = get_be (seg offset (offset + 16) packet);
                offset = offset + 16;
                peerID = get_be (seg offset (offset + 16) packet);
                offset = offset + 16;
                ephemeralKey = get_be (seg offset (offset + 32) packet)
            in if sessionID = 0 \<or> IsZero peerID \<or> ephemeralKey = 0
               then fail ''session hello fields are invalid''
               else Inr \<lparr>helloSessionID = sessionID, helloPeerID = peerID,
                      EphemeralKey = ephemeralKey, wire = packet\<rparr>)"

text \<open>What HMAC-SHA256 documents of its output.\<close>

definition mac_sized :: "(key32 \<Rightarrow> bytes \<Rightarrow> bytes) \<Rightarrow> bool" where
  "mac_sized mac \<longleftrightarrow> (\<forall>key message. length (mac key message) = helloMACSize)"

definition toy_mac :: "key32 \<Rightarrow> bytes \<Rightarrow> bytes" where
  "toy_mac key message = put_be 31 key @ [sum_list message]"

lemma toy_mac_sized: "mac_sized toy_mac"
  by (simp add: mac_sized_def toy_mac_def)

lemma appendPrefix_length [simp]: "length (appendPrefix [] t) = 5"
  by (simp add: appendPrefix_def)

lemma validAdmissionMAC_append [simp]:
  "mac_sized mac \<Longrightarrow> validAdmissionMAC mac (body @ mac key' body) key \<longleftrightarrow> mac key' body = mac key body"
  by (simp add: validAdmissionMAC_def mac_sized_def)

lemma ParseHelloProbe_MarshalHelloProbe:
  assumes "mac_sized mac" and "MarshalHelloProbe mac key peerID = Inr packet"
  shows "ParseHelloProbe mac packet key = Inr peerID"
proof -
  let ?body = "appendPrefix [] PacketHelloProbe @ put_be 16 peerID"
  have p: "peerID \<noteq> 0" "packet = ?body @ mac key ?body"
    using assms(2) by (auto simp: MarshalHelloProbe_def appendAdmissionMAC_def Let_def split: if_splits)
  have "length packet = 53" "ParsePrefix packet = Inr PacketHelloProbe"
    using assms(1) p ParsePrefix_appendPrefix [of PacketHelloProbe]
    by (simp_all add: mac_sized_def)
  moreover have "validAdmissionMAC mac packet key"
    using assms(1) unfolding p(2) by (rule validAdmissionMAC_append [THEN iffD2]) simp
  moreover have "get_be (seg 5 21 packet) = peerID"
    by (simp add: p)
  ultimately show ?thesis
    using p(1) by (simp add: ParseHelloProbe_def)
qed

lemma ParseSessionHello_MarshalSessionHello:
  assumes "mac_sized mac" and "MarshalSessionHello mac key peerID sid eph = Inr packet"
  shows "ParseSessionHello mac packet key =
    Inr \<lparr>helloSessionID = sid, helloPeerID = peerID, EphemeralKey = eph, wire = packet\<rparr>"
proof -
  let ?body = "appendPrefix [] PacketSessionHello @ put_be 16 sid @ put_be 16 peerID @ put_be 32 eph"
  have p: "peerID \<noteq> 0" "sid \<noteq> 0" "eph \<noteq> 0" "packet = ?body @ mac key ?body"
    using assms(2)
    by (auto simp: MarshalSessionHello_def appendAdmissionMAC_def Let_def split: if_splits)
  have "length packet = 101" "ParsePrefix packet = Inr PacketSessionHello"
    using assms(1) p ParsePrefix_appendPrefix [of PacketSessionHello]
    by (simp_all add: mac_sized_def)
  moreover have "validAdmissionMAC mac packet key"
    using assms(1) unfolding p(4) by (rule validAdmissionMAC_append [THEN iffD2]) simp
  moreover have "get_be (seg 5 21 packet) = sid" "get_be (seg 21 37 packet) = peerID"
    "get_be (seg 37 69 packet) = eph"
    by (simp_all add: p(4))
  ultimately show ?thesis
    using p(1-3) by (simp add: ParseSessionHello_def)
qed

lemma ParseSessionHello_authentic:
  assumes "ParseSessionHello mac packet key = Inr hello"
  shows "\<exists>body. packet = body @ mac key body \<and> wire hello = packet \<and>
    length packet = 101 \<and> helloSessionID hello \<noteq> 0 \<and> helloPeerID hello \<noteq> 0 \<and>
    EphemeralKey hello \<noteq> 0"
  using assms
  by (auto simp: ParseSessionHello_def validAdmissionMAC_def Let_def
      split: if_splits sum.splits) (metis append_take_drop_id)

lemma ParseSessionHello_fields:
  assumes p: "ParseSessionHello mac packet key = Inr hello"
  shows "MarshalSessionHello mac key (helloPeerID hello) (helloSessionID hello) (EphemeralKey hello)
    = Inr packet"
proof -
  have t: "ParsePrefix packet = Inr 2" and len: "length packet = 101"
    and mac: "drop 69 packet = mac key (take 69 packet)"
    and f: "helloSessionID hello = get_be (seg 5 21 packet)"
      "helloPeerID hello = get_be (seg 21 37 packet)"
      "EphemeralKey hello = get_be (seg 37 69 packet)"
    and nz: "helloSessionID hello \<noteq> 0" "helloPeerID hello \<noteq> 0" "EphemeralKey hello \<noteq> 0"
    using p by (auto simp: ParseSessionHello_def validAdmissionMAC_def Let_def
        split: if_splits sum.splits)
  obtain rest where pk: "packet = appendPrefix [] 2 @ rest" using t ParsePrefix_OK by blast
  then have "rest = drop 5 packet" by simp
  then have rest: "rest = seg 5 21 packet @ seg 21 37 packet @ seg 37 69 packet @ drop 69 packet"
    using drop_seg [of 5 21 packet] drop_seg [of 21 37 packet] drop_seg [of 37 69 packet] by simp
  have "take 69 packet = appendPrefix [] 2 @ seg 5 21 packet @ seg 21 37 packet @ seg 37 69 packet"
    using len by (subst pk, subst rest) simp
  moreover have "packet = take 69 packet @ mac key (take 69 packet)"
    using mac by (metis append_take_drop_id)
  ultimately show ?thesis
    using len nz by (simp add: MarshalSessionHello_def appendAdmissionMAC_def f)
qed

section \<open>Session keys\<close>

record 'sk crypto =
  PublicKey :: "'sk \<Rightarrow> key32"
  NewPublicKey :: "key32 \<Rightarrow> key32 result"
  ECDH :: "'sk \<Rightarrow> key32 \<Rightarrow> bytes result"
  Sha256 :: "bytes \<Rightarrow> key32"
  HkdfKey :: "bytes \<Rightarrow> key32 \<Rightarrow> string \<Rightarrow> bytes result"
  NewCipher :: "bytes \<Rightarrow> aead result"

record SessionCiphers =
  Send :: aead
  Receive :: aead

definition wireDomain :: string where "wireDomain = ''bork/wire-v3/''"

definition validSessionPeers :: "SessionHello \<Rightarrow> SessionHello \<Rightarrow> bool" where
  "validSessionPeers localHello remoteHello \<longleftrightarrow>
     \<not> IsZero (helloPeerID localHello) \<and> \<not> IsZero (helloPeerID remoteHello) \<and>
     helloPeerID localHello \<noteq> helloPeerID remoteHello"

definition validSessionIDPair :: "id16 \<Rightarrow> id16 \<Rightarrow> bool" where
  "validSessionIDPair local remote \<longleftrightarrow> local \<noteq> 0 \<and> local = remote"

definition validateSessionInputs ::
  "'sk crypto \<Rightarrow> 'sk option \<Rightarrow> SessionHello \<Rightarrow> SessionHello \<Rightarrow> key32 result" where
  "validateSessionInputs C privateKey localHello remoteHello =
     (case privateKey of
        None \<Rightarrow> fail ''local X25519 key is nil''
      | Some sk \<Rightarrow>
          if \<not> validSessionPeers localHello remoteHello then fail ''session peer IDs are invalid''
          else if \<not> validSessionIDPair (helloSessionID localHello) (helloSessionID remoteHello)
          then fail ''session hello session IDs do not match''
          else if PublicKey C sk \<noteq> EphemeralKey localHello
          then fail ''local X25519 key does not match hello''
          else case NewPublicKey C (EphemeralKey remoteHello) of
              Inl err \<Rightarrow> Inl (wrap ''parse remote X25519 key: '' err)
            | Inr remotePublic \<Rightarrow> Inr remotePublic)"

text \<open>The transcript hash, and whether the local peer is the first of the two.\<close>

definition sessionTranscript ::
  "'sk crypto \<Rightarrow> SessionHello \<Rightarrow> SessionHello \<Rightarrow> key32 \<times> bool" where
  "sessionTranscript C localHello remoteHello =
     (let localFirst = helloPeerID localHello < helloPeerID remoteHello;
          (first, second) = (if \<not> localFirst then (remoteHello, localHello)
                             else (localHello, remoteHello))
      in (Sha256 C (bytes_of (wireDomain @ ''session-transcript'') @ [0] @ wire first @ wire second),
          localFirst))"

definition deriveSessionCipher :: "'sk crypto \<Rightarrow> bytes \<Rightarrow> key32 \<Rightarrow> string \<Rightarrow> aead result" where
  "deriveSessionCipher C sharedSecret transcriptHash info =
     (case HkdfKey C sharedSecret transcriptHash info of
        Inl err \<Rightarrow> Inl err
      | Inr key \<Rightarrow> NewCipher C key)"

definition DeriveSession ::
  "'sk crypto \<Rightarrow> 'sk option \<Rightarrow> SessionHello \<Rightarrow> SessionHello \<Rightarrow> SessionCiphers result" where
  "DeriveSession C privateKey localHello remoteHello =
     (case validateSessionInputs C privateKey localHello remoteHello of
        Inl err \<Rightarrow> Inl err
      | Inr remotePublic \<Rightarrow>
          case ECDH C (the privateKey) remotePublic of
            Inl err \<Rightarrow> Inl (wrap ''derive X25519 secret: '' err)
          | Inr sharedSecret \<Rightarrow>
              let (transcriptHash, localFirst) = sessionTranscript C localHello remoteHello
              in case deriveSessionCipher C sharedSecret transcriptHash
                    (wireDomain @ ''chacha20poly1305/session-packets/a-to-b'') of
                   Inl err \<Rightarrow> Inl err
                 | Inr packetsAB \<Rightarrow>
                     case deriveSessionCipher C sharedSecret transcriptHash
                         (wireDomain @ ''chacha20poly1305/session-packets/b-to-a'') of
                       Inl err \<Rightarrow> Inl err
                     | Inr packetsBA \<Rightarrow>
                         if localFirst then Inr \<lparr>Send = packetsAB, Receive = packetsBA\<rparr>
                         else Inr \<lparr>Send = packetsBA, Receive = packetsAB\<rparr>)"

text \<open>
  The Diffie-Hellman law of X25519: a public key made from a private key parses, and both
  sides compute the same secret from their private key and the other's public key.
\<close>

definition ecdh_agrees :: "'sk crypto \<Rightarrow> bool" where
  "ecdh_agrees C \<longleftrightarrow>
     (\<forall>a b. \<exists>pa pb. NewPublicKey C (PublicKey C a) = Inr pa \<and> NewPublicKey C (PublicKey C b) = Inr pb
        \<and> ECDH C a pb = ECDH C b pa)"

lemma sessionTranscript_swap:
  assumes "helloPeerID l \<noteq> helloPeerID r"
  shows "fst (sessionTranscript C l r) = fst (sessionTranscript C r l)"
    and "snd (sessionTranscript C l r) = (\<not> snd (sessionTranscript C r l))"
  using assms by (auto simp: sessionTranscript_def Let_def)

lemma DeriveSession_OK:
  "DeriveSession C (Some sk) l r = Inr c \<longleftrightarrow>
     validSessionPeers l r \<and> validSessionIDPair (helloSessionID l) (helloSessionID r) \<and>
     PublicKey C sk = EphemeralKey l \<and>
     (\<exists>pub secret ab ba. NewPublicKey C (EphemeralKey r) = Inr pub \<and> ECDH C sk pub = Inr secret \<and>
        deriveSessionCipher C secret (fst (sessionTranscript C l r))
          (wireDomain @ ''chacha20poly1305/session-packets/a-to-b'') = Inr ab \<and>
        deriveSessionCipher C secret (fst (sessionTranscript C l r))
          (wireDomain @ ''chacha20poly1305/session-packets/b-to-a'') = Inr ba \<and>
        c = (if snd (sessionTranscript C l r) then \<lparr>Send = ab, Receive = ba\<rparr>
             else \<lparr>Send = ba, Receive = ab\<rparr>))"
  unfolding DeriveSession_def validateSessionInputs_def
  by (cases "sessionTranscript C l r") (auto split: sum.splits if_splits)

lemma DeriveSession_agrees:
  assumes C: "ecdh_agrees C" and l: "DeriveSession C (Some a) hA hB = Inr cA"
    and pub: "PublicKey C b = EphemeralKey hB"
  shows "DeriveSession C (Some b) hB hA = Inr \<lparr>Send = Receive cA, Receive = Send cA\<rparr>"
proof -
  obtain pub secret ab ba where d: "validSessionPeers hA hB"
      "validSessionIDPair (helloSessionID hA) (helloSessionID hB)" "PublicKey C a = EphemeralKey hA"
      "NewPublicKey C (EphemeralKey hB) = Inr pub" "ECDH C a pub = Inr secret"
      "deriveSessionCipher C secret (fst (sessionTranscript C hA hB))
          (wireDomain @ ''chacha20poly1305/session-packets/a-to-b'') = Inr ab"
      "deriveSessionCipher C secret (fst (sessionTranscript C hA hB))
          (wireDomain @ ''chacha20poly1305/session-packets/b-to-a'') = Inr ba"
      "cA = (if snd (sessionTranscript C hA hB) then \<lparr>Send = ab, Receive = ba\<rparr>
             else \<lparr>Send = ba, Receive = ab\<rparr>)"
    using l unfolding DeriveSession_OK by blast
  obtain pa where "NewPublicKey C (EphemeralKey hA) = Inr pa" "ECDH C b pa = Inr secret"
    using C [unfolded ecdh_agrees_def, rule_format, of a b] d(3-5) pub by fastforce
  moreover have ne: "helloPeerID hA \<noteq> helloPeerID hB" using d(1) by (simp add: validSessionPeers_def)
  moreover have "fst (sessionTranscript C hB hA) = fst (sessionTranscript C hA hB)"
    "snd (sessionTranscript C hB hA) = (\<not> snd (sessionTranscript C hA hB))"
    using sessionTranscript_swap [OF ne, of C] by simp_all
  moreover have "validSessionPeers hB hA" "validSessionIDPair (helloSessionID hB) (helloSessionID hA)"
    using d(1,2) by (auto simp: validSessionPeers_def validSessionIDPair_def)
  ultimately show ?thesis
    using d(6-8) pub unfolding DeriveSession_OK by (auto simp: validSessionPeers_def)
qed

section \<open>Properties\<close>

text \<open>A session hello parses to given fields just when it is the hello marshalled from them under
  the same admission key, so a hello with a wrong tag, length, type or a zero field is refused.\<close>

theorem session_hello_inverse:
  assumes "mac_sized mac"
  shows "MarshalSessionHello mac key peerID sid eph = Inr packet \<longleftrightarrow>
    ParseSessionHello mac packet key =
      Inr \<lparr>helloSessionID = sid, helloPeerID = peerID, EphemeralKey = eph, wire = packet\<rparr>"
  using ParseSessionHello_MarshalSessionHello [OF assms]
    ParseSessionHello_fields [of mac packet key "\<lparr>helloSessionID = sid, helloPeerID = peerID, EphemeralKey = eph, wire = packet\<rparr>"]
  by auto

theorem session_hello_inverse_witness:
  "\<exists>packet. MarshalSessionHello toy_mac 3 4 5 6 = Inr packet \<and> ParseSessionHello toy_mac packet 3 =
     Inr \<lparr>helloSessionID = 5, helloPeerID = 4, EphemeralKey = 6, wire = packet\<rparr>"
proof -
  obtain packet where m: "MarshalSessionHello toy_mac 3 4 5 6 = Inr packet"
    by (simp add: MarshalSessionHello_def Let_def)
  with session_hello_inverse [OF toy_mac_sized, of 3 4 5 6 packet] show ?thesis by auto
qed

text \<open>C7: Both ends of a session derive the same pair of directional ciphers from the same two hellos,
  with sending and receiving exchanged.\<close>

theorem session_keys_agree:
  assumes "ecdh_agrees C" "DeriveSession C (Some a) hA hB = Inr cA" "PublicKey C b = EphemeralKey hB"
  shows "DeriveSession C (Some b) hB hA = Inr \<lparr>Send = Receive cA, Receive = Send cA\<rparr>"
  using assms by (rule DeriveSession_agrees)

text \<open>A commutative key exchange for the witness: the public key of \<open>n\<close> is \<open>n\<close>, the secret the product.\<close>

definition toy_crypto :: "key32 crypto" where
  "toy_crypto = \<lparr>PublicKey = (\<lambda>k. k), NewPublicKey = Inr, ECDH = (\<lambda>a b. Inr (put_be 32 (a * b))),
     Sha256 = get_be, HkdfKey = (\<lambda>s t i. Inr (s @ bytes_of i)), NewCipher = (\<lambda>k. Inr (toy_aead 12))\<rparr>"

theorem session_keys_agree_witness:
  "\<exists>hA hB cA. DeriveSession toy_crypto (Some 3) hA hB = Inr cA \<and>
     DeriveSession toy_crypto (Some 5) hB hA = Inr \<lparr>Send = Receive cA, Receive = Send cA\<rparr>"
proof -
  let ?A = "\<lparr>helloSessionID = 1, helloPeerID = 1, EphemeralKey = 3, wire = [1]\<rparr>"
  let ?B = "\<lparr>helloSessionID = 1, helloPeerID = 2, EphemeralKey = 5, wire = [2]\<rparr>"
  have C: "ecdh_agrees toy_crypto" by (simp add: ecdh_agrees_def toy_crypto_def mult.commute)
  obtain cA where "DeriveSession toy_crypto (Some 3) ?A ?B = Inr cA"
    by (simp add: DeriveSession_def validateSessionInputs_def validSessionPeers_def validSessionIDPair_def
        deriveSessionCipher_def sessionTranscript_def toy_crypto_def Let_def)
  moreover from session_keys_agree [OF C this, of 5] have
    "DeriveSession toy_crypto (Some 5) ?B ?A = Inr \<lparr>Send = Receive cA, Receive = Send cA\<rparr>"
    by (simp add: toy_crypto_def)
  ultimately show ?thesis by blast
qed

end
