(* ===== verification/BridgeWire.thy ===== *)
theory BridgeWire
  imports Wire
begin

text \<open>
  Bridge packets: \<open>internal/protocol/bridge.go\<close>.  A bridge packet carries, sealed for the
  next hop, a target peer and one inner packet; a low-priority bridge carries only reliable
  packets.
\<close>

record BridgePacket =
  Target :: PeerID
  LowPriority :: bool
  Inner :: bytes

definition validBridgeFields :: "id16 \<Rightarrow> uint64 \<Rightarrow> PeerID \<Rightarrow> nat \<Rightarrow> bool" where
  "validBridgeFields sessionID packetSequence target innerSize \<longleftrightarrow>
     sessionID \<noteq> 0 \<and> packetSequence \<noteq> 0 \<and> \<not> IsZero target \<and> innerSize > 0 \<and>
     innerSize \<le> MaxBridgeInnerSize"

definition validBridgeInner :: "bytes \<Rightarrow> bool \<Rightarrow> bool" where
  "validBridgeInner inner lowPriority =
     (case ParsePrefix inner of
        Inl err \<Rightarrow> False
      | Inr packetType \<Rightarrow>
          if \<not> ValidPacketSize packetType (length inner) then False
          else if lowPriority \<and> packetType \<noteq> PacketReliable then False
          else packetType \<in> {PacketHelloProbe, PacketSessionHello, PacketPing, PacketPong,
            PacketReliable, PacketLeave})"

definition MarshalBridge ::
  "id16 \<Rightarrow> uint64 \<Rightarrow> PeerID \<Rightarrow> bool \<Rightarrow> bytes \<Rightarrow> aead option \<Rightarrow> bytes result" where
  "MarshalBridge sessionID packetSequence target lowPriority inner protector =
     (if \<not> validBridgeFields sessionID packetSequence target (length inner)
      then fail ''bridge packet fields are invalid''
      else if \<not> validPairwiseCipher protector then fail ''bridge packet protector is invalid''
      else if \<not> validBridgeInner inner lowPriority then fail ''bridge inner packet is invalid''
      else
        let packetType = (if lowPriority then PacketBridgeLowPriority else PacketBridge);
            packet = appendSessionHeader [] packetType sessionID packetSequence;
            packet = packet @ (put_be 16 target @ inner)
        in Inr (sealBody (the protector) sessionHeaderSize sessionNonce packet))"

definition parseBridgeBody :: "bytes \<Rightarrow> bool \<Rightarrow> BridgePacket result" where
  "parseBridgeBody opened lowPriority =
     (if length opened < bridgeBodyFixedSize then fail ''bridge packet body is invalid''
      else
        let decoded = \<lparr>Target = get_be (seg 0 16 opened), LowPriority = lowPriority,
              Inner = drop bridgeBodyFixedSize opened\<rparr>
        in if IsZero (Target decoded) then fail ''bridge packet target is invalid''
           else if \<not> validBridgeInner (Inner decoded) (LowPriority decoded)
           then fail ''bridge inner packet is invalid''
           else Inr decoded)"

definition ParseBridge :: "bytes \<Rightarrow> id16 \<Rightarrow> aead option \<Rightarrow> BridgePacket result" where
  "ParseBridge packet expectedSessionID protector =
     (if \<not> validPairwiseCipher protector then fail ''bridge packet protector is invalid''
      else case ParseSessionHeader packet of
        Inl err \<Rightarrow> fail ''bridge packet header is invalid''
      | Inr header \<Rightarrow>
          let lowPriority = (Type header = PacketBridgeLowPriority)
          in if SessionID header \<noteq> expectedSessionID
                \<or> (Type header \<noteq> PacketBridge \<and> \<not> lowPriority)
                \<or> \<not> ValidPacketSize (Type header) (length packet)
             then fail ''bridge packet header is invalid''
             else case openBody (the protector) sessionHeaderSize sessionNonce packet of
                 None \<Rightarrow> fail ''bridge packet authentication failed''
               | Some opened \<Rightarrow> parseBridgeBody opened lowPriority)"

lemma validBridgeInner_length:
  "validBridgeInner inner low \<Longrightarrow> 45 \<le> length inner \<and> (low \<longrightarrow> 75 \<le> length inner) \<and> length inner \<le> 1139"
  by (auto simp: validBridgeInner_def ValidPacketSize_simps [simplified] split: sum.splits if_splits)

lemma MarshalBridge_OK:
  assumes "MarshalBridge sid n target low inner (Some A) = Inr packet"
  defines "hdr \<equiv> appendSessionHeader [] (if low then PacketBridgeLowPriority else PacketBridge) sid n"
  shows "packet = hdr @ Seal A (sessionNonce hdr) (put_be 16 target @ inner) hdr"
    and "sid \<noteq> 0" "n \<noteq> 0" "target \<noteq> 0" "validBridgeInner inner low" "validPairwiseCipher (Some A)"
  using assms(1) unfolding hdr_def
  by (auto simp: MarshalBridge_def validBridgeFields_def Let_def split: if_splits)

lemma ParseBridge_MarshalBridge:
  assumes m: "MarshalBridge sid n target low inner (Some A) = Inr packet" and A: "aead_correct A"
  shows "ParseBridge packet sid (Some A)
      = Inr \<lparr>Target = target, LowPriority = low, Inner = inner\<rparr>"
    and "length packet \<le> MaxDatagramSize"
proof -
  define t where "t = (if low then PacketBridgeLowPriority else PacketBridge)"
  define hdr where "hdr = appendSessionHeader [] t sid n"
  note v = MarshalBridge_OK [OF m]
  have len: "length hdr = 29" by (simp add: hdr_def)
  have packet: "packet = hdr @ Seal A (sessionNonce hdr) (put_be 16 target @ inner) hdr"
    using v(1) by (simp add: hdr_def t_def)
  have hd: "ParseSessionHeader packet = Inr \<lparr>Type = t, SessionID = sid, PacketSequence = n\<rparr>"
    using v(2,3) by (auto simp: packet hdr_def t_def ParseSessionHeader_appendSessionHeader
        validSessionPacketType_def)
  have "Overhead A = 16" using v(6) by (simp add: validPairwiseCipher_def)
  then have lp: "length packet = 61 + length inner"
    using A by (simp add: packet len length_seal)
  then have vs: "ValidPacketSize t (length packet)"
    using validBridgeInner_length [OF v(5)]
    by (auto simp: t_def ValidPacketSize_simps [simplified])
  show "length packet \<le> MaxDatagramSize"
    using ValidPacketSize_bounded [OF vs] by simp
  have "openBody A 29 sessionNonce packet = Some (put_be 16 target @ inner)"
    using A len by (simp add: packet open_seal)
  then show "ParseBridge packet sid (Some A)
      = Inr \<lparr>Target = target, LowPriority = low, Inner = inner\<rparr>"
    using hd vs v(4-6)
    by (auto simp: ParseBridge_def parseBridgeBody_def Let_def t_def split: if_splits)
qed

lemma ParseBridge_inner:
  assumes "ParseBridge packet sid protector = Inr p"
  shows "Target p \<noteq> 0 \<and> validBridgeInner (Inner p) (LowPriority p)"
  using assms
  by (auto simp: ParseBridge_def parseBridgeBody_def Let_def split: sum.splits if_splits option.splits)

lemma MarshalBridge_ParseBridge:
  assumes p: "ParseBridge packet sid (Some A) = Inr p" and A: "aead_strict A"
    and h: "ParseSessionHeader packet = Inr \<lparr>Type = t, SessionID = sid', PacketSequence = n\<rparr>"
  shows "MarshalBridge sid n (Target p) (LowPriority p) (Inner p) (Some A) = Inr packet"
    and "t = (if LowPriority p then PacketBridgeLowPriority else PacketBridge)" "sid' = sid"
proof -
  obtain opened where t: "t = 5 \<or> t = 6" "sid' = sid" and vc: "validPairwiseCipher (Some A)"
    and o: "openBody A 29 sessionNonce packet = Some opened"
    and b: "parseBridgeBody opened (t = 6) = Inr p"
    using p h by (auto simp: ParseBridge_def Let_def split: if_splits option.splits)
  have lo: "16 \<le> length opened" and tgt: "Target p = get_be (seg 0 16 opened)" "Target p \<noteq> 0"
    and low: "LowPriority p = (t = 6)" and inner: "Inner p = drop 16 opened"
    and v: "validBridgeInner (Inner p) (LowPriority p)"
    using b by (auto simp: parseBridgeBody_def Let_def split: if_splits)
  show ty: "t = (if LowPriority p then PacketBridgeLowPriority else PacketBridge)" and "sid' = sid"
    using t low by auto
  define hdr where "hdr = appendSessionHeader [] t sid n"
  obtain rest where packet: "packet = hdr @ rest" and nz: "sid \<noteq> 0" "n \<noteq> 0"
    using h t(2) by (auto simp: ParseSessionHeader_OK hdr_def)
  have len: "length hdr = 29" by (simp add: hdr_def)
  have "Open A (sessionNonce hdr) rest hdr = Some opened" using o len by (simp add: packet)
  then have rest: "rest = Seal A (sessionNonce hdr) opened hdr" using A by (metis seal_open)
  have "opened = put_be 16 (Target p) @ Inner p"
    using lo drop_seg [of 0 16 opened] by (simp add: tgt inner)
  moreover have "validBridgeFields sid n (Target p) (length (Inner p))"
    using nz tgt(2) validBridgeInner_length [OF v] by (auto simp: validBridgeFields_def)
  ultimately show "MarshalBridge sid n (Target p) (LowPriority p) (Inner p) (Some A) = Inr packet"
    using vc v ty by (simp add: MarshalBridge_def packet rest hdr_def Let_def)
qed

lemma ParseBridge_one_hop:
  assumes "ParseBridge packet sid protector = Inr p"
  shows "Target p \<noteq> 0 \<and> (\<exists>t. ParsePrefix (Inner p) = Inr t \<and> ValidPacketSize t (length (Inner p)) \<and>
      t \<notin> {PacketBridge, PacketBridgeLowPriority, PacketVoice, PacketScreenVideo, PacketScreenAudio} \<and>
      (LowPriority p \<longrightarrow> t = PacketReliable))"
  using ParseBridge_inner [OF assms] by (auto simp: validBridgeInner_def split: sum.splits if_splits)

text \<open>Bridge packets: marshalling and parsing are exact inverses under the next hop's cipher.\<close>

theorem bridge_wire_inverse:
  assumes "aead_strict A"
  shows "MarshalBridge sid n target low inner (Some A) = Inr packet \<longleftrightarrow>
      ParseSessionHeader packet = Inr \<lparr>Type = (if low then PacketBridgeLowPriority else PacketBridge),
        SessionID = sid, PacketSequence = n\<rparr> \<and>
      ParseBridge packet sid (Some A) = Inr \<lparr>Target = target, LowPriority = low, Inner = inner\<rparr>"
    (is "?m \<longleftrightarrow> ?h \<and> ?p")
proof
  assume m: ?m
  note v = MarshalBridge_OK [OF m]
  have ?h using v(1-3) by (auto simp: ParseSessionHeader_appendSessionHeader validSessionPacketType_def)
  then show "?h \<and> ?p" using ParseBridge_MarshalBridge(1) [OF m aead_strictD [OF assms]] by simp
next
  assume "?h \<and> ?p"
  then show ?m using MarshalBridge_ParseBridge(1) [OF _ assms] by fastforce
qed

definition bridge_inner_example :: bytes where
  "bridge_inner_example = appendPrefix [] PacketPing @ replicate 40 0"

lemma bridge_example: "\<exists>packet. MarshalBridge 1 2 9 False bridge_inner_example (Some (toy_aead 12)) = Inr packet"
proof -
  have pre: "ParsePrefix bridge_inner_example = Inr PacketPing"
    unfolding bridge_inner_example_def by (rule ParsePrefix_appendPrefix)
  have len: "length bridge_inner_example = 45" by (simp add: bridge_inner_example_def appendPrefix_def)
  have "validBridgeInner bridge_inner_example False"
    using pre len by (simp add: validBridgeInner_def ValidPacketSize_simps [simplified])
  with len show ?thesis
    by (simp add: MarshalBridge_def validBridgeFields_def validPairwiseCipher_def Let_def flip: length_greater_0_conv)
qed

theorem bridge_wire_inverse_witness:
  "\<exists>packet. MarshalBridge 1 2 9 False bridge_inner_example (Some (toy_aead 12)) = Inr packet \<and>
    ParseBridge packet 1 (Some (toy_aead 12)) = Inr \<lparr>Target = 9, LowPriority = False, Inner = bridge_inner_example\<rparr>"
  using bridge_example bridge_wire_inverse [OF toy_aead_strict, of 1 2 9 False bridge_inner_example 12] by blast

text \<open>Whatever a bridge accepts to forward is a hello, control or reliable packet of a valid size for
  a nonzero target, never a bridge or media packet, so that bridging has one hop; a low-priority bridge
  forwards reliable packets only.\<close>

theorem bridge_one_hop:
  assumes "ParseBridge packet sid protector = Inr p"
  shows "Target p \<noteq> 0 \<and> (\<exists>t. ParsePrefix (Inner p) = Inr t \<and> ValidPacketSize t (length (Inner p)) \<and>
      t \<notin> {PacketBridge, PacketBridgeLowPriority, PacketVoice, PacketScreenVideo, PacketScreenAudio} \<and>
      (LowPriority p \<longrightarrow> t = PacketReliable))"
  using assms by (rule ParseBridge_one_hop)

theorem bridge_one_hop_witness:
  "\<exists>packet p t. ParseBridge packet 1 (Some (toy_aead 12)) = Inr p \<and> Target p = 9 \<and>
    ParsePrefix (Inner p) = Inr t \<and> ValidPacketSize t (length (Inner p))"
proof -
  obtain packet where m: "MarshalBridge 1 2 9 False bridge_inner_example (Some (toy_aead 12)) = Inr packet"
    using bridge_example by blast
  note p = ParseBridge_MarshalBridge(1) [OF m toy_aead_correct]
  from p bridge_one_hop [OF p] show ?thesis by (metis BridgePacket.select_convs(1))
qed

end
