(* ===== verification/RoomDatagramWire.thy ===== *)
theory RoomDatagramWire
  imports Wire
begin

text \<open>
  Room datagrams (voice, screen video, screen audio):
  \<open>internal/protocol/room_datagram.go\<close>.  They are sealed once per stream under the room
  key and forwarded verbatim.
\<close>

record RoomDatagramHeader =
  rdType :: byte
  rdStreamID :: id16
  rdPacketSequence :: uint64

record RoomDatagram =
  MediaUnitID :: uint32
  rdPayload :: bytes

definition NonceSizeX :: nat where [simp]: "NonceSizeX = 24"

definition validRoomDatagramType :: "byte \<Rightarrow> bool" where
  "validRoomDatagramType packetType \<longleftrightarrow>
     packetType = PacketVoice \<or> packetType = PacketScreenVideo \<or> packetType = PacketScreenAudio"

definition validRoomDatagramHeader :: "RoomDatagramHeader \<Rightarrow> bool" where
  "validRoomDatagramHeader header \<longleftrightarrow>
     validRoomDatagramType (rdType header) \<and> rdStreamID header \<noteq> 0 \<and> rdPacketSequence header \<noteq> 0"

definition validRoomDatagramCipher :: "aead option \<Rightarrow> bool" where
  "validRoomDatagramCipher protector =
     (case protector of None \<Rightarrow> False | Some A \<Rightarrow> NonceSize A = NonceSizeX \<and> Overhead A = aeadTagSize)"

definition roomDatagramNonce :: "bytes \<Rightarrow> bytes" where
  "roomDatagramNonce packet = seg (roomDatagramHeaderSize - NonceSizeX) roomDatagramHeaderSize packet"

definition ParseRoomDatagramHeader :: "bytes \<Rightarrow> RoomDatagramHeader result" where
  "ParseRoomDatagramHeader packet =
     (if length packet < roomDatagramHeaderSize then fail ''room datagram is truncated''
      else case ParsePrefix packet of
        Inl err \<Rightarrow> fail ''room datagram prefix is invalid''
      | Inr packetType \<Rightarrow>
          if \<not> validRoomDatagramType packetType then fail ''room datagram prefix is invalid''
          else
            let header = \<lparr>rdType = packetType,
                  rdStreamID = get_be (seg prefixSize (prefixSize + 16) packet),
                  rdPacketSequence =
                    get_be (seg (roomDatagramHeaderSize - 8) roomDatagramHeaderSize packet)\<rparr>
            in if \<not> validRoomDatagramHeader header then fail ''room datagram header is invalid''
               else Inr header)"

definition MarshalRoomDatagram ::
  "RoomDatagramHeader \<Rightarrow> uint32 \<Rightarrow> bytes \<Rightarrow> aead option \<Rightarrow> bytes result" where
  "MarshalRoomDatagram header mediaUnitID payload protector =
     (if \<not> validRoomDatagramHeader header then fail ''room datagram header is invalid''
      else if \<not> sizeWithin (length payload) 1 MaxRoomDatagramPayload
      then fail ''room datagram payload length is invalid''
      else if \<not> validRoomDatagramCipher protector then fail ''room datagram protector is invalid''
      else
        let packet = appendPrefix [] (rdType header);
            packet = packet @ put_be 16 (rdStreamID header);
            packet = appendUint64 packet (rdPacketSequence header);
            packet = packet @ (put_be 4 mediaUnitID @ payload)
        in Inr (sealBody (the protector) roomDatagramHeaderSize roomDatagramNonce packet))"

definition ParseRoomDatagram ::
  "bytes \<Rightarrow> RoomDatagramHeader \<Rightarrow> aead option \<Rightarrow> RoomDatagram result" where
  "ParseRoomDatagram packet expected protector =
     (if \<not> sizeWithin (length packet) roomDatagramMinPacketSize MaxDatagramSize
      then fail ''room datagram length is invalid''
      else if \<not> validRoomDatagramCipher protector then fail ''room datagram protector is invalid''
      else case ParseRoomDatagramHeader packet of
        Inl err \<Rightarrow> fail ''room datagram header does not match''
      | Inr header \<Rightarrow>
          if header \<noteq> expected then fail ''room datagram header does not match''
          else case openBody (the protector) roomDatagramHeaderSize roomDatagramNonce packet of
              None \<Rightarrow> fail ''room datagram authentication failed''
            | Some opened \<Rightarrow>
                if length opened \<le> 4 then fail ''room datagram authentication failed''
                else Inr \<lparr>MediaUnitID = get_be (seg 0 4 opened), rdPayload = drop 4 opened\<rparr>)"

definition roomHeaderBytes :: "RoomDatagramHeader \<Rightarrow> bytes" where
  "roomHeaderBytes h = appendSessionHeader [] (rdType h) (rdStreamID h) (rdPacketSequence h)"

lemma length_roomHeaderBytes [simp]: "length (roomHeaderBytes h) = 29"
  by (simp add: roomHeaderBytes_def)

lemma roomDatagramNonce_append [simp]:
  "29 \<le> length packet \<Longrightarrow> roomDatagramNonce (packet @ rest) = roomDatagramNonce packet"
  by (simp add: roomDatagramNonce_def seg_def)

lemma ParseRoomDatagramHeader_append:
  "validRoomDatagramHeader h \<Longrightarrow> ParseRoomDatagramHeader (roomHeaderBytes h @ rest) = Inr h"
  by (simp add: ParseRoomDatagramHeader_def roomHeaderBytes_def appendSessionHeader_def
      appendUint64_def validRoomDatagramHeader_def)
     (simp add: appendPrefix_def)

lemma ParseRoomDatagramHeader_OK:
  assumes "ParseRoomDatagramHeader packet = Inr h"
  shows "validRoomDatagramHeader h" and "\<exists>rest. packet = roomHeaderBytes h @ rest"
proof -
  show v: "validRoomDatagramHeader h"
    using assms by (auto simp: ParseRoomDatagramHeader_def Let_def split: if_splits sum.splits)
  have len: "29 \<le> length packet" and t: "ParsePrefix packet = Inr (rdType h)"
    and f: "rdStreamID h = get_be (seg 5 21 packet)" "rdPacketSequence h = get_be (seg 21 29 packet)"
    using assms by (auto simp: ParseRoomDatagramHeader_def Let_def split: if_splits sum.splits)
  obtain rest where p: "packet = appendPrefix [] (rdType h) @ rest"
    using t ParsePrefix_OK by blast
  then have "rest = drop 5 packet" by (simp add: appendPrefix_def)
  also have "\<dots> = seg 5 21 packet @ seg 21 29 packet @ drop 29 packet"
    using drop_seg [of 5 21 packet] drop_seg [of 21 29 packet] by simp
  finally have "packet = roomHeaderBytes h @ drop 29 packet"
    using p len by (simp add: roomHeaderBytes_def appendSessionHeader_def appendUint64_def f)
  then show "\<exists>rest. packet = roomHeaderBytes h @ rest" ..
qed

lemma MarshalRoomDatagram_eq:
  assumes "validRoomDatagramHeader h" "1 \<le> length payload" "length payload \<le> 1151"
    "validRoomDatagramCipher (Some A)"
  shows "MarshalRoomDatagram h u payload (Some A) =
    Inr (roomHeaderBytes h @ Seal A (roomDatagramNonce (roomHeaderBytes h))
      (put_be 4 u @ payload) (roomHeaderBytes h))"
proof -
  have "sealBody A 29 roomDatagramNonce (roomHeaderBytes h @ (put_be 4 u @ payload)) =
    roomHeaderBytes h @ Seal A (roomDatagramNonce (roomHeaderBytes h)) (put_be 4 u @ payload)
      (roomHeaderBytes h)"
    by (rule sealBody_append) simp_all
  with assms show ?thesis
    by (simp add: MarshalRoomDatagram_def roomHeaderBytes_def appendSessionHeader_def
        appendUint64_def)
qed

lemma ParseRoomDatagram_MarshalRoomDatagram:
  assumes m: "MarshalRoomDatagram h u payload (Some A) = Inr packet" and A: "aead_correct A"
  shows "ParseRoomDatagramHeader packet = Inr h"
    and "ParseRoomDatagram packet h (Some A) = Inr \<lparr>MediaUnitID = u, rdPayload = payload\<rparr>"
    and "length packet \<le> MaxDatagramSize"
proof -
  have v: "validRoomDatagramHeader h" "1 \<le> length payload" "length payload \<le> 1151"
    "validRoomDatagramCipher (Some A)"
    using m by (auto simp: MarshalRoomDatagram_def split: if_splits)
  have packet: "packet = roomHeaderBytes h @ Seal A (roomDatagramNonce (roomHeaderBytes h))
      (put_be 4 u @ payload) (roomHeaderBytes h)"
    using m MarshalRoomDatagram_eq [OF v] by simp
  have "Overhead A = 16" using v(4) by (simp add: validRoomDatagramCipher_def)
  then have len: "length packet = 49 + length payload"
    using A by (simp add: packet length_seal)
  show hd: "ParseRoomDatagramHeader packet = Inr h"
    by (simp add: packet ParseRoomDatagramHeader_append v(1))
  show "length packet \<le> MaxDatagramSize" using len v(3) by simp
  have "openBody A 29 roomDatagramNonce packet = Some (put_be 4 u @ payload)"
    unfolding packet by (subst openBody_append) (use A in \<open>simp_all add: open_seal\<close>)
  then show "ParseRoomDatagram packet h (Some A) = Inr \<lparr>MediaUnitID = u, rdPayload = payload\<rparr>"
    using hd len v(2-4) by (auto simp: ParseRoomDatagram_def)
qed

lemma ParseRoomDatagram_origin:
  assumes p: "ParseRoomDatagram packet h (Some A) = Inr d" and A: "aead_strict A"
  shows "MarshalRoomDatagram h (MediaUnitID d) (rdPayload d) (Some A) = Inr packet"
proof -
  obtain opened where hd: "ParseRoomDatagramHeader packet = Inr h"
    and vc: "validRoomDatagramCipher (Some A)" and len: "length packet \<le> 1200"
    and o: "openBody A 29 roomDatagramNonce packet = Some opened" and lo: "4 < length opened"
    and d: "d = \<lparr>MediaUnitID = get_be (seg 0 4 opened), rdPayload = drop 4 opened\<rparr>"
    using p by (auto simp: ParseRoomDatagram_def split: sum.splits if_splits option.splits)
  obtain rest where v: "validRoomDatagramHeader h" and packet: "packet = roomHeaderBytes h @ rest"
    using ParseRoomDatagramHeader_OK [OF hd] by blast
  have opn: "Open A (roomDatagramNonce (roomHeaderBytes h)) rest (roomHeaderBytes h) = Some opened"
    using o unfolding packet by (subst (asm) openBody_append) simp_all
  have "Overhead A = 16" using vc by (simp add: validRoomDatagramCipher_def)
  then have "length packet = 45 + length opened"
    using length_open [OF aead_strictD [OF A] opn] by (simp add: packet)
  moreover have "put_be 4 (MediaUnitID d) @ rdPayload d = opened"
    using lo drop_seg [of 0 4 opened] by (simp add: d)
  ultimately show ?thesis
    using MarshalRoomDatagram_eq [OF v _ _ vc, of "rdPayload d"] len lo seal_open [OF A opn]
    by (auto simp: packet d)
qed

text \<open>Room datagrams (voice, screen video and audio): marshalling and parsing are exact inverses
  under the room cipher, the header is readable without it, and a datagram fits the limit.\<close>

theorem room_datagram_inverse:
  assumes "aead_strict A"
  shows "MarshalRoomDatagram h u payload (Some A) = Inr packet \<longleftrightarrow>
    ParseRoomDatagram packet h (Some A) = Inr \<lparr>MediaUnitID = u, rdPayload = payload\<rparr> \<and>
    ParseRoomDatagramHeader packet = Inr h \<and> length packet \<le> MaxDatagramSize"
  using ParseRoomDatagram_MarshalRoomDatagram [of h u payload A packet]
    ParseRoomDatagram_origin [of packet h A "\<lparr>MediaUnitID = u, rdPayload = payload\<rparr>"] assms aead_strictD [OF assms]
  by auto

theorem room_datagram_inverse_witness:
  "\<exists>h packet. MarshalRoomDatagram h 5 [1, 2] (Some (toy_aead 24)) = Inr packet \<and>
    ParseRoomDatagram packet h (Some (toy_aead 24)) = Inr \<lparr>MediaUnitID = 5, rdPayload = [1, 2]\<rparr> \<and>
    ParseRoomDatagramHeader packet = Inr h"
proof -
  let ?h = "\<lparr>rdType = PacketVoice, rdStreamID = 7, rdPacketSequence = 3\<rparr>"
  obtain packet where m: "MarshalRoomDatagram ?h 5 [1, 2] (Some (toy_aead 24)) = Inr packet"
    by (simp add: MarshalRoomDatagram_def validRoomDatagramHeader_def validRoomDatagramType_def
        validRoomDatagramCipher_def Let_def)
  with room_datagram_inverse [OF toy_aead_strict, of ?h 5 "[1, 2]" 24 packet] show ?thesis by blast
qed

end
