(* ===== verification/ReliableWire.thy ===== *)
theory ReliableWire
  imports Wire
begin

text \<open>
  Reliable packets: \<open>internal/protocol/reliable.go\<close>.  A packet carries one fragment of a
  message of a channel and, on every packet, the acknowledgment of that channel: the highest
  fragment received and a bitmap of the 64 fragments that end there.
\<close>

record ReliablePacket =
  Channel :: uint16
  FragmentSequence :: uint64
  FragmentIndex :: uint16
  FragmentCount :: uint16
  FragmentAckBase :: uint64
  FragmentAckBitmap :: uint64
  Payload :: bytes

definition AckOnly :: "ReliablePacket \<Rightarrow> bool" where
  "AckOnly p \<longleftrightarrow> FragmentSequence p = 0"

definition FragmentAckContains :: "uint64 \<Rightarrow> uint64 \<Rightarrow> uint64 \<Rightarrow> bool" where
  "FragmentAckContains base bitmap sequence =
     (if base = 0 \<or> sequence = 0 \<or> sequence > base then False
      else let delta = base - sequence
        in delta < 64 \<and> bitmap AND push_bit (unat delta) 1 \<noteq> 0)"

definition validReliableAck :: "uint64 \<Rightarrow> uint64 \<Rightarrow> bool" where
  "validReliableAck base bitmap =
     (if base = 0 then bitmap = 0
      else if bitmap AND 1 = 0 then False
      else base \<ge> 64 \<or> drop_bit (unat base) bitmap = 0)"

definition validateReliableBody :: "ReliablePacket \<Rightarrow> unit result" where
  "validateReliableBody p =
     (if Channel p = 0 then fail ''reliable packet channel is zero''
      else if \<not> validReliableAck (FragmentAckBase p) (FragmentAckBitmap p)
        then fail ''reliable packet acknowledgment is invalid''
      else if AckOnly p then
        (if FragmentIndex p \<noteq> 0 \<or> FragmentCount p \<noteq> 0 \<or> length (Payload p) \<noteq> 0
         then fail ''reliable acknowledgment-only packet is invalid''
         else Inr ())
      else if FragmentCount p = 0 \<or> unat (FragmentCount p) > MaxReliableFragments
          \<or> FragmentIndex p \<ge> FragmentCount p
        then fail ''reliable fragment fields are invalid''
      else if FragmentSequence p \<le> ucast (FragmentIndex p)
        then fail ''reliable fragment sequence is invalid''
      else
        let messageStart = FragmentSequence p - ucast (FragmentIndex p)
        in if ucast (FragmentCount p) - 1 > NOT 0 - messageStart
             then fail ''reliable fragment sequence overflows''
           else if length (Payload p) = 0 \<or> length (Payload p) > MaxReliablePayload
             then fail ''reliable payload length is invalid''
           else Inr ())"

definition MarshalReliable :: "id16 \<Rightarrow> uint64 \<Rightarrow> ReliablePacket \<Rightarrow> aead option \<Rightarrow> bytes result" where
  "MarshalReliable sessionID packetSequence p protector =
     (if packetSequence = 0 then fail ''reliable packet sequence is zero''
      else if \<not> validPairwiseCipher protector then fail ''reliable packet protector is invalid''
      else case validateReliableBody p of
        Inl err \<Rightarrow> Inl err
      | Inr _ \<Rightarrow>
          let packet = appendSessionHeader [] PacketReliable sessionID packetSequence;
              fixed = put_be 2 (Channel p) @ put_be 8 (FragmentSequence p)
                @ put_be 2 (FragmentIndex p) @ put_be 2 (FragmentCount p)
                @ put_be 8 (FragmentAckBase p) @ put_be 8 (FragmentAckBitmap p);
              packet = packet @ (fixed @ Payload p)
          in Inr (sealBody (the protector) sessionHeaderSize sessionNonce packet))"

text \<open>The fixed fields of an opened body, as \<open>ParseReliable\<close> reads them.\<close>

definition decodeReliablePlaintext :: "bytes \<Rightarrow> ReliablePacket" where
  "decodeReliablePlaintext opened = \<lparr>
     Channel = get_be (seg 0 2 opened),
     FragmentSequence = get_be (seg 2 10 opened),
     FragmentIndex = get_be (seg 10 12 opened),
     FragmentCount = get_be (seg 12 14 opened),
     FragmentAckBase = get_be (seg 14 22 opened),
     FragmentAckBitmap = get_be (seg 22 30 opened),
     Payload = drop reliablePlaintextFixedSize opened\<rparr>"

definition ParseReliable :: "bytes \<Rightarrow> id16 \<Rightarrow> aead option \<Rightarrow> ReliablePacket result" where
  "ParseReliable packet expectedSessionID protector =
     (if length packet < reliableMinPacketSize \<or> length packet > MaxBridgeInnerSize
      then fail ''reliable packet length is invalid''
      else if \<not> validPairwiseCipher protector then fail ''reliable packet protector is invalid''
      else case ParseSessionHeader packet of
        Inl err \<Rightarrow> fail ''reliable packet header is invalid''
      | Inr header \<Rightarrow>
          if Type header \<noteq> PacketReliable \<or> SessionID header \<noteq> expectedSessionID
          then fail ''reliable packet header is invalid''
          else case openBody (the protector) sessionHeaderSize sessionNonce packet of
            None \<Rightarrow> fail ''reliable packet authentication failed''
          | Some opened \<Rightarrow>
              if length opened < reliablePlaintextFixedSize
              then fail ''reliable packet authentication failed''
              else
                let decoded = decodeReliablePlaintext opened
                in case validateReliableBody decoded of
                     Inl err \<Rightarrow> Inl err
                   | Inr _ \<Rightarrow> Inr decoded)"

definition reliablePlaintext :: "ReliablePacket \<Rightarrow> bytes" where
  "reliablePlaintext p = (put_be 2 (Channel p) @ put_be 8 (FragmentSequence p)
     @ put_be 2 (FragmentIndex p) @ put_be 2 (FragmentCount p)
     @ put_be 8 (FragmentAckBase p) @ put_be 8 (FragmentAckBitmap p)) @ Payload p"

lemma length_reliablePlaintext [simp, length_simps]:
  "length (reliablePlaintext p) = 30 + length (Payload p)"
  by (simp add: reliablePlaintext_def)

lemma MarshalReliable_eq:
  fixes sid :: id16
  assumes "n \<noteq> 0" "validPairwiseCipher (Some A)" "validateReliableBody p = Inr ()"
  defines "hdr \<equiv> appendSessionHeader [] PacketReliable sid n"
  shows "MarshalReliable sid n p (Some A) =
    Inr (hdr @ Seal A (sessionNonce hdr) (reliablePlaintext p) hdr)"
  using assms(1-3) unfolding hdr_def by (simp add: MarshalReliable_def reliablePlaintext_def)

lemma validateReliableBody_payload:
  "validateReliableBody p = Inr () \<Longrightarrow> length (Payload p) \<le> MaxReliablePayload"
  by (auto simp: validateReliableBody_def Let_def split: if_splits)

lemma decode_reliablePlaintext [simp]: "decodeReliablePlaintext (reliablePlaintext p) = p"
  by (simp add: decodeReliablePlaintext_def reliablePlaintext_def)

lemma reliablePlaintext_decode:
  assumes "30 \<le> length x"
  shows "reliablePlaintext (decodeReliablePlaintext x) = x"
proof -
  have "x = seg 0 2 x @ seg 2 10 x @ seg 10 12 x @ seg 12 14 x @ seg 14 22 x @ seg 22 30 x @ drop 30 x"
    using drop_seg [of 0 2 x] drop_seg [of 2 10 x] drop_seg [of 10 12 x] drop_seg [of 12 14 x]
      drop_seg [of 14 22 x] drop_seg [of 22 30 x] by simp
  with assms show ?thesis
    by (simp add: reliablePlaintext_def decodeReliablePlaintext_def)
qed

lemma ParseReliable_MarshalReliable:
  assumes m: "MarshalReliable sid n p (Some A) = Inr packet" and sid: "sid \<noteq> 0"
    and A: "aead_correct A"
  shows "ParseSessionHeader packet
      = Inr \<lparr>Type = PacketReliable, SessionID = sid, PacketSequence = n\<rparr>"
    and "ParseReliable packet sid (Some A) = Inr p"
    and "ValidPacketSize PacketReliable (length packet)"
proof -
  have v: "n \<noteq> 0" "validPairwiseCipher (Some A)" "validateReliableBody p = Inr ()"
    using m by (auto simp: MarshalReliable_def split: if_splits sum.splits)
  define hdr where "hdr = appendSessionHeader [] PacketReliable sid n"
  have len: "length hdr = 29" by (simp add: hdr_def)
  have packet: "packet = hdr @ Seal A (sessionNonce hdr) (reliablePlaintext p) hdr"
    using m MarshalReliable_eq [OF v] by (simp add: hdr_def)
  show hd: "ParseSessionHeader packet
      = Inr \<lparr>Type = PacketReliable, SessionID = sid, PacketSequence = n\<rparr>"
    using v sid by (simp add: packet hdr_def ParseSessionHeader_appendSessionHeader
        validSessionPacketType_def)
  have ov: "Overhead A = 16" using v by (simp add: validPairwiseCipher_def)
  have lp: "length packet = 75 + length (Payload p)"
    using A ov by (simp add: packet len length_seal)
  have o: "openBody A 29 sessionNonce packet = Some (reliablePlaintext p)"
    using A len by (simp add: packet open_seal)
  show "ParseReliable packet sid (Some A) = Inr p"
    using hd v lp o validateReliableBody_payload [OF v(3)]
    by (simp add: ParseReliable_def Let_def)
  show "ValidPacketSize PacketReliable (length packet)"
    using lp validateReliableBody_payload [OF v(3)] by (simp add: ValidPacketSize_simps [simplified])
qed

lemma MarshalReliable_ParseReliable:
  assumes p: "ParseReliable packet sid (Some A) = Inr p" and A: "aead_strict A"
  obtains h where "ParseSessionHeader packet = Inr h"
    and "MarshalReliable sid (PacketSequence h) p (Some A) = Inr packet"
proof -
  obtain h opened where h: "ParseSessionHeader packet = Inr h" "Type h = 10" "SessionID h = sid"
    and vc: "validPairwiseCipher (Some A)"
    and o: "openBody A 29 sessionNonce packet = Some opened" and lo: "30 \<le> length opened"
    and v: "validateReliableBody p = Inr ()"
    and dec: "p = decodeReliablePlaintext opened"
    using p by (auto simp: ParseReliable_def Let_def split: sum.splits if_splits option.splits)
  define hdr where "hdr = appendSessionHeader [] PacketReliable sid (PacketSequence h)"
  obtain rest where packet: "packet = hdr @ rest" and nz: "PacketSequence h \<noteq> 0"
    using h by (auto simp: ParseSessionHeader_OK hdr_def)
  have len: "length hdr = 29" by (simp add: hdr_def)
  have "Open A (sessionNonce hdr) rest hdr = Some opened"
    using o len by (simp add: packet)
  then have rest: "rest = Seal A (sessionNonce hdr) opened hdr"
    using A by (metis seal_open)
  have "opened = reliablePlaintext p"
    using reliablePlaintext_decode [of opened] lo by (simp add: dec)
  then have "MarshalReliable sid (PacketSequence h) p (Some A) = Inr packet"
    using MarshalReliable_eq [OF nz vc v] by (simp add: packet rest hdr_def)
  with h that show ?thesis by blast
qed

text \<open>Marshalling and parsing of reliable packets are exact inverses under a session's cipher:
  a packet parses to given fields just when marshalling those fields gives that packet.\<close>

theorem reliable_wire_inverse:
  assumes "aead_strict A" "sid \<noteq> 0"
  shows "MarshalReliable sid n p (Some A) = Inr packet \<longleftrightarrow>
    ParseSessionHeader packet = Inr \<lparr>Type = PacketReliable, SessionID = sid, PacketSequence = n\<rparr> \<and>
    ParseReliable packet sid (Some A) = Inr p"
proof
  assume "MarshalReliable sid n p (Some A) = Inr packet"
  then show "ParseSessionHeader packet = Inr \<lparr>Type = PacketReliable, SessionID = sid, PacketSequence = n\<rparr> \<and>
    ParseReliable packet sid (Some A) = Inr p"
    using ParseReliable_MarshalReliable(1,2) assms aead_strictD by blast
next
  assume r: "ParseSessionHeader packet = Inr \<lparr>Type = PacketReliable, SessionID = sid, PacketSequence = n\<rparr> \<and>
    ParseReliable packet sid (Some A) = Inr p"
  then obtain h where "ParseSessionHeader packet = Inr h" "MarshalReliable sid (PacketSequence h) p (Some A) = Inr packet"
    using MarshalReliable_ParseReliable [OF _ assms(1)] by blast
  with r show "MarshalReliable sid n p (Some A) = Inr packet" by simp
qed

theorem reliable_wire_inverse_witness:
  "\<exists>packet. MarshalReliable 1 2 \<lparr>Channel = 1, FragmentSequence = 3, FragmentIndex = 1, FragmentCount = 2,
      FragmentAckBase = 5, FragmentAckBitmap = 1, Payload = [7]\<rparr> (Some (toy_aead 12)) = Inr packet \<and>
    ParseReliable packet 1 (Some (toy_aead 12)) = Inr \<lparr>Channel = 1, FragmentSequence = 3, FragmentIndex = 1,
      FragmentCount = 2, FragmentAckBase = 5, FragmentAckBitmap = 1, Payload = [7]\<rparr>"
proof -
  let ?p = "\<lparr>Channel = 1, FragmentSequence = 3, FragmentIndex = 1, FragmentCount = 2,
      FragmentAckBase = 5, FragmentAckBitmap = 1, Payload = [7]\<rparr>"
  have "validateReliableBody ?p = Inr ()"
    by (simp add: validateReliableBody_def validReliableAck_def AckOnly_def word_le_nat_alt)
  then obtain packet where m: "MarshalReliable 1 2 ?p (Some (toy_aead 12)) = Inr packet"
    by (simp add: MarshalReliable_def validPairwiseCipher_def)
  with reliable_wire_inverse [OF toy_aead_strict, of 1 2 ?p 12 packet] show ?thesis by auto
qed

end
