(* ===== verification/SequenceWindow.thy ===== *)
theory SequenceWindow
  imports Prelude
begin

text \<open>
  The replay window and the packet flow of a session: \<open>internal/peer/control_flow.go\<close>.
  The window keeps the highest sequence accepted and a bitmap of the 64 sequences ending
  there.  \<open>win_rel w R\<close> relates it to the set \<open>R\<close> of all sequences it ever accepted;
  \<open>accept_refines\<close> says that it decides membership in that set as far back as the
  bitmap reaches and refuses everything older.
\<close>

section \<open>The interface of a replay guard\<close>

text \<open>The sequences of a stream that a guard lets through, in order.\<close>

fun admitted :: "('w \<Rightarrow> 'q \<Rightarrow> bool \<times> 'w) \<Rightarrow> 'w \<Rightarrow> 'q list \<Rightarrow> 'q list" where
  "admitted acc w [] = []"
| "admitted acc w (q # qs) =
     (case acc w q of (True, w') \<Rightarrow> q # admitted acc w' qs | (False, w') \<Rightarrow> admitted acc w' qs)"

fun after :: "('w \<Rightarrow> 'q \<Rightarrow> bool \<times> 'w) \<Rightarrow> 'w \<Rightarrow> 'q list \<Rightarrow> 'w" where
  "after acc w [] = w"
| "after acc w (q # qs) = after acc (snd (acc w q)) qs"

locale replay_guard =
  fixes acc :: "'w \<Rightarrow> 'q \<Rightarrow> bool \<times> 'w"
    and may :: "'w \<Rightarrow> 'q \<Rightarrow> bool"
    and rel :: "'w \<Rightarrow> 'q set \<Rightarrow> bool"
  assumes may_acc: "may w q = fst (acc w q)"
    and acc_fresh: "rel w R \<Longrightarrow> fst (acc w q) \<Longrightarrow> q \<notin> R"
    and acc_rel: "rel w R \<Longrightarrow> rel (snd (acc w q)) (if fst (acc w q) then insert q R else R)"
begin

lemma admitted_fresh: "rel w R \<Longrightarrow> distinct (admitted acc w qs) \<and> set (admitted acc w qs) \<inter> R = {}"
proof (induction qs arbitrary: w R)
  case Nil
  then show ?case by simp
next
  case (Cons q qs)
  obtain b w' where a: "acc w q = (b, w')" by fastforce
  show ?case
  proof (cases b)
    case True
    then have "rel w' (insert q R)" "q \<notin> R"
      using acc_rel [OF Cons.prems, of q] acc_fresh [OF Cons.prems, of q] a by auto
    with Cons.IH [of w' "insert q R"] show ?thesis by (auto simp: a True)
  next
    case False
    then have "rel w' R" using acc_rel [OF Cons.prems, of q] a by auto
    with Cons.IH [of w' R] show ?thesis by (simp add: a False)
  qed
qed

lemma after_rel: "rel w R \<Longrightarrow> rel (after acc w qs) (R \<union> set (admitted acc w qs))"
proof (induction qs arbitrary: w R)
  case Nil
  then show ?case by simp
next
  case (Cons q qs)
  obtain b w' where a: "acc w q = (b, w')" by fastforce
  have "rel w' (if b then insert q R else R)"
    using acc_rel [OF Cons.prems, of q] a by auto
  from Cons.IH [OF this] show ?case by (cases b) (simp_all add: a)
qed

text \<open>What was let through once is never let through again, whatever came in between.\<close>

lemma admitted_once:
  assumes "rel w R" and "q \<in> R \<union> set (admitted acc w qs)"
  shows "\<not> may (after acc w qs) q"
  using acc_fresh [OF after_rel [OF assms(1)], of qs q] assms(2) by (auto simp: may_acc)

end

section \<open>The sequence window\<close>

record sequenceWindow =
  highest :: uint64
  seen :: uint64

definition empty_window :: sequenceWindow where
  "empty_window = \<lparr>highest = 0, seen = 0\<rparr>"

definition accept :: "sequenceWindow \<Rightarrow> uint64 \<Rightarrow> bool \<times> sequenceWindow" where
  "accept w sequence =
     (if sequence = 0 then (False, w)
      else if sequence > highest w then
        let shift = sequence - highest w
        in (True, w\<lparr>seen := (if shift \<ge> 64 then 1 else push_bit (unat shift) (seen w) OR 1),
                    highest := sequence\<rparr>)
      else
        let delta = highest w - sequence
        in if delta \<ge> 64 then (False, w)
           else
             let mask = push_bit (unat delta) 1
             in if seen w AND mask \<noteq> 0 then (False, w)
                else (True, w\<lparr>seen := seen w OR mask\<rparr>))"

text \<open>\<open>mayAccept\<close> has a value receiver: it runs \<open>accept\<close> on a copy.\<close>

definition mayAccept :: "sequenceWindow \<Rightarrow> uint64 \<Rightarrow> bool" where
  "mayAccept w sequence = fst (accept w sequence)"

definition win_rel :: "sequenceWindow \<Rightarrow> uint64 set \<Rightarrow> bool" where
  "win_rel w R \<longleftrightarrow>
     0 \<notin> R \<and> (\<forall>q \<in> R. q \<le> highest w) \<and> (highest w \<noteq> 0 \<longrightarrow> highest w \<in> R) \<and>
     (\<forall>d < 64. bit (seen w) d \<longleftrightarrow> (\<exists>q \<in> R. unat q + d = unat (highest w)))"

lemma win_rel_empty [simp]: "win_rel empty_window {}"
  by (simp add: win_rel_def empty_window_def)

lemma win_relD:
  assumes "win_rel w R"
  shows "0 \<notin> R" and "q \<in> R \<Longrightarrow> unat q \<le> unat (highest w)"
    and "highest w \<noteq> 0 \<Longrightarrow> highest w \<in> R"
    and "d < 64 \<Longrightarrow> bit (seen w) d \<longleftrightarrow> (\<exists>q \<in> R. unat q + d = unat (highest w))"
  using assms by (auto simp: win_rel_def word_le_nat_alt)

lemma bit_seen_iff_member:
  assumes "win_rel w R" "q \<le> highest w" "unat (highest w - q) < 64"
  shows "bit (seen w) (unat (highest w - q)) \<longleftrightarrow> q \<in> R"
proof -
  have "unat (highest w - q) = unat (highest w) - unat q" "unat q \<le> unat (highest w)"
    using assms(2) by (simp_all add: unat_sub word_le_nat_alt)
  moreover have "x = q" if "unat x = unat q" for x :: uint64
    using that by (simp add: word_unat_eq_iff)
  ultimately have "(\<exists>x \<in> R. unat x + unat (highest w - q) = unat (highest w)) \<longleftrightarrow> q \<in> R"
    by (metis add.commute add_right_cancel le_add_diff_inverse)
  then show ?thesis
    using win_relD(4) [OF assms(1,3)] by simp
qed

lemma accept_iff:
  assumes "win_rel w R"
  shows "fst (accept w q) \<longleftrightarrow> q \<noteq> 0 \<and> q \<notin> R \<and> unat (highest w) < unat q + 64"
proof (cases "q > highest w")
  case True
  then have "q \<noteq> 0" "q \<notin> R" "unat (highest w) < unat q"
    using assms by (auto simp: win_rel_def word_less_nat_alt word_le_nat_alt not_le)
  with True show ?thesis by (simp add: accept_def Let_def)
next
  case False
  then have le: "q \<le> highest w" by simp
  then have d: "unat (highest w - q) = unat (highest w) - unat q" "unat q \<le> unat (highest w)"
    by (simp_all add: unat_sub word_le_nat_alt)
  have "highest w - q \<ge> 64 \<longleftrightarrow> \<not> unat (highest w) < unat q + 64"
    using d by (auto simp: word_le_nat_alt)
  then show ?thesis
    using False bit_seen_iff_member [OF assms le] d
    by (auto simp: accept_def Let_def and_exp_bit_0 split: if_splits)
qed

lemma accept_newest:
  assumes rel: "win_rel w R" and gt: "highest w < q"
  shows "win_rel (snd (accept w q)) (insert q R)"
proof -
  let ?s = "unat (q - highest w)"
  have s: "?s = unat q - unat (highest w)" "unat (highest w) < unat q"
    using gt unat_sub [OF order_less_imp_le [OF gt]] by (simp_all add: word_less_nat_alt)
  have le: "unat x \<le> unat (highest w)" if "x \<in> R" for x
    using win_relD(2) [OF rel that] .
  have acc: "snd (accept w q) = w\<lparr>highest := q,
      seen := (if ?s \<ge> 64 then 1 else push_bit ?s (seen w) OR 1)\<rparr>"
    using gt by (auto simp: accept_def Let_def word_le_nat_alt)
  have "bit (seen (snd (accept w q))) d \<longleftrightarrow> (\<exists>x \<in> insert q R. unat x + d = unat q)"
    if d: "d < 64" for d
  proof (cases "d < ?s")
    case True
    then have "\<not> (\<exists>x \<in> R. unat x + d = unat q)" using s le by fastforce
    then show ?thesis
      using True d by (auto simp: acc bit_simps)
  next
    case False
    then have "unat x + d = unat q \<longleftrightarrow> unat x + (d - ?s) = unat (highest w)" for x :: uint64
      using s by arith
    then have "(\<exists>x \<in> R. unat x + d = unat q) \<longleftrightarrow> bit (seen w) (d - ?s)"
      using win_relD(4) [OF rel, of "d - ?s"] d by simp
    with False d s show ?thesis by (auto simp: acc bit_simps)
  qed
  moreover have "q \<noteq> 0" using gt by auto
  ultimately show ?thesis
    using rel gt by (auto simp: win_rel_def acc)
qed

lemma accept_rel:
  assumes rel: "win_rel w R"
  shows "win_rel (snd (accept w q)) (if fst (accept w q) then insert q R else R)"
proof (cases "fst (accept w q)")
  case False
  then have "snd (accept w q) = w" by (auto simp: accept_def Let_def split: if_splits)
  with False rel show ?thesis by simp
next
  case True
  show ?thesis
  proof (cases "q > highest w")
    case gt: True
    with True accept_newest [OF rel gt] show ?thesis by simp
  next
    case False
    then have le: "q \<le> highest w" and nz: "q \<noteq> 0" and new: "q \<notin> R"
      using True accept_iff [OF rel] by auto
    have dn: "unat (highest w - q) = unat (highest w) - unat q" "unat q \<le> unat (highest w)"
      using le by (simp_all add: unat_sub word_le_nat_alt)
    have acc: "snd (accept w q) = w\<lparr>seen := seen w OR push_bit (unat (highest w - q)) 1\<rparr>"
      using True le nz by (auto simp: accept_def Let_def split: if_splits)
    have "bit (seen (snd (accept w q))) d \<longleftrightarrow> (\<exists>x \<in> insert q R. unat x + d = unat (highest w))"
      if "d < 64" for d
      using win_relD(4) [OF rel that] that dn by (auto simp: acc bit_simps)
    with True rel le nz show ?thesis by (auto simp: win_rel_def acc)
  qed
qed

interpretation window: replay_guard accept mayAccept win_rel
  by unfold_locales (simp add: mayAccept_def, use accept_iff in blast, rule accept_rel)

text \<open>The acknowledgment that the window stands for, read by \<open>FragmentAckContains\<close>.\<close>

lemma win_rel_ack:
  assumes rel: "win_rel w R" and q: "q \<noteq> 0" "q \<le> highest w" and d: "highest w - q < 64"
  shows "seen w AND push_bit (unat (highest w - q)) 1 \<noteq> 0 \<longleftrightarrow> q \<in> R"
  using bit_seen_iff_member [OF rel q(2)] d by (simp add: and_exp_bit_0 word_less_nat_alt)

lemma highest_mono: "win_rel w R \<Longrightarrow> highest w \<le> highest (snd (accept w q))"
  by (auto simp: accept_def Let_def)

section \<open>The packet flow of a session\<close>

record sessionPacketFlow =
  sendSequence :: uint64
  receiveWindow :: sequenceWindow

definition nextSendSequence :: "sessionPacketFlow \<Rightarrow> uint64 result \<times> sessionPacketFlow" where
  "nextSendSequence f =
     (if sendSequence f = - 1 then (fail ''session sequence is exhausted'', f)
      else let f = f\<lparr>sendSequence := sendSequence f + 1\<rparr>
        in (Inr (sendSequence f), f))"

definition mayReceive :: "sessionPacketFlow \<Rightarrow> uint64 \<Rightarrow> bool" where
  "mayReceive f sequence = mayAccept (receiveWindow f) sequence"

definition commitReceived :: "sessionPacketFlow \<Rightarrow> uint64 \<Rightarrow> bool \<times> sessionPacketFlow" where
  "commitReceived f sequence =
     (let (accepted, w) = accept (receiveWindow f) sequence
      in (accepted, f\<lparr>receiveWindow := w\<rparr>))"

definition empty_flow :: sessionPacketFlow where
  "empty_flow = \<lparr>sendSequence = 0, receiveWindow = empty_window\<rparr>"

definition flow_rel :: "sessionPacketFlow \<Rightarrow> uint64 set \<Rightarrow> bool" where
  "flow_rel f R \<longleftrightarrow> win_rel (receiveWindow f) R"

interpretation flow: replay_guard commitReceived mayReceive flow_rel
proof unfold_locales
  show "mayReceive f q = fst (commitReceived f q)" for f q
    by (simp add: mayReceive_def commitReceived_def mayAccept_def split: prod.splits)
  show "flow_rel f R \<Longrightarrow> fst (commitReceived f q) \<Longrightarrow> q \<notin> R" for f R q
    using accept_iff [of "receiveWindow f" R q]
    by (simp add: flow_rel_def commitReceived_def split: prod.splits)
  show "flow_rel f R \<Longrightarrow>
      flow_rel (snd (commitReceived f q)) (if fst (commitReceived f q) then insert q R else R)" for f R q
    using accept_rel [of "receiveWindow f" R q]
    by (cases "accept (receiveWindow f) q") (simp add: flow_rel_def commitReceived_def)
qed

lemma nextSendSequence_increases:
  assumes "nextSendSequence f = (Inr n, f')"
  shows "unat n = unat (sendSequence f) + 1" and "sendSequence f' = n" and "n \<noteq> 0"
    and "receiveWindow f' = receiveWindow f"
proof -
  have ne: "sendSequence f \<noteq> - 1" and n: "n = sendSequence f + 1"
    and f': "f' = f\<lparr>sendSequence := n\<rparr>"
    using assms by (auto simp: nextSendSequence_def Let_def split: if_splits)
  from ne have nz: "sendSequence f + 1 \<noteq> 0"
    by (metis add.commute eq_neg_iff_add_eq_0)
  then have "1 + sendSequence f \<noteq> 0" by (simp add: add.commute)
  from unatSuc [OF this] show "unat n = unat (sendSequence f) + 1"
    by (simp add: n add.commute)
  show "sendSequence f' = n" "n \<noteq> 0" "receiveWindow f' = receiveWindow f"
    using nz by (simp_all add: f' n)
qed

text \<open>The sequences handed out by a run of \<open>k\<close> successive calls.\<close>

fun sendRun :: "nat \<Rightarrow> sessionPacketFlow \<Rightarrow> uint64 list" where
  "sendRun 0 f = []"
| "sendRun (Suc k) f =
     (case nextSendSequence f of (Inl _, f') \<Rightarrow> sendRun k f' | (Inr n, f') \<Rightarrow> n # sendRun k f')"

lemma sendRun_above: "n \<in> set (sendRun k f) \<Longrightarrow> unat (sendSequence f) < unat n"
proof (induction k arbitrary: f)
  case 0
  then show ?case by simp
next
  case (Suc k)
  show ?case
  proof (cases "nextSendSequence f")
    case (Pair r f')
    show ?thesis
    proof (cases r)
      case (Inl e)
      then have "f' = f" using Pair by (auto simp: nextSendSequence_def Let_def split: if_splits)
      with Suc Pair Inl show ?thesis by simp
    next
      case (Inr m)
      with Pair have "unat m = unat (sendSequence f) + 1" "sendSequence f' = m"
        using nextSendSequence_increases [of f m f'] by auto
      with Suc.IH [of f'] Suc.prems Pair Inr show ?thesis by auto
    qed
  qed
qed

lemma sendRun_strict: "sorted_wrt (<) (sendRun k f) \<and> 0 \<notin> set (sendRun k f)"
proof (induction k arbitrary: f)
  case 0
  then show ?case by simp
next
  case (Suc k)
  show ?case
  proof (cases "nextSendSequence f")
    case (Pair r f')
    show ?thesis
    proof (cases r)
      case (Inl e)
      with Suc.IH [of f'] Pair show ?thesis by simp
    next
      case (Inr m)
      with Pair have "sendSequence f' = m" "m \<noteq> 0"
        using nextSendSequence_increases [of f m f'] by auto
      with Suc.IH [of f'] Pair Inr sendRun_above [of _ k f'] show ?thesis
        by (auto simp: word_less_nat_alt)
    qed
  qed
qed

section \<open>Properties\<close>

text \<open>C5: The replay window decides freshness exactly as a set of all accepted sequences would,
  as far back as its 64-entry bitmap reaches: a sequence is accepted when it is nonzero, was not
  accepted before and is less than 64 behind the highest one; accepting it adds it to the set.\<close>

theorem accept_refines_set:
  assumes "win_rel w R"
  shows "(fst (accept w q) \<longleftrightarrow> q \<noteq> 0 \<and> q \<notin> R \<and> unat (highest w) < unat q + 64) \<and>
    win_rel (snd (accept w q)) (if fst (accept w q) then insert q R else R)"
  using accept_iff [OF assms] accept_rel [OF assms] by blast

theorem accept_refines_set_witness:
  "win_rel (snd (accept empty_window 70)) {70} \<and> fst (accept (snd (accept empty_window 70)) 7) \<and>
   \<not> fst (accept (snd (accept empty_window 70)) 6) \<and> \<not> fst (accept (snd (accept empty_window 70)) 70)"
proof -
  have 0: "win_rel (snd (accept empty_window 70)) {70}"
    using accept_refines_set [OF win_rel_empty, of 70] by (simp add: accept_def empty_window_def Let_def)
  have "highest (snd (accept empty_window 70)) = 70" by (simp add: accept_def empty_window_def Let_def)
  with 0 accept_refines_set [OF 0, of 7] accept_refines_set [OF 0, of 6] accept_refines_set [OF 0, of 70]
  show ?thesis by simp
qed

text \<open>C6: Replay protection of a session: whatever packet sequences arrive, in whatever order and
  however often, each is let through at most once, zero never, and none that was let through is
  ever receivable again.\<close>

theorem session_replay_protection:
  "distinct (admitted commitReceived empty_flow qs) \<and> 0 \<notin> set (admitted commitReceived empty_flow qs) \<and>
   set (admitted commitReceived empty_flow qs) \<inter> {q. mayReceive (after commitReceived empty_flow qs) q} = {}"
proof -
  have start: "flow_rel empty_flow {}" by (simp add: flow_rel_def empty_flow_def)
  have rel: "flow_rel (after commitReceived empty_flow qs) (set (admitted commitReceived empty_flow qs))"
    using flow.after_rel [OF start, of qs] by simp
  then have "0 \<notin> set (admitted commitReceived empty_flow qs)" by (simp add: flow_rel_def win_rel_def)
  then show ?thesis
    using flow.admitted_fresh [OF start, of qs] flow.admitted_once [OF start, of _ qs] by auto
qed

text \<open>The packet sequences a session sends under one key are strictly increasing and never
  zero, so no nonce is used twice; after the last one, sending fails instead of wrapping around.\<close>

theorem session_sequences_increase:
  "sorted_wrt (<) (sendRun k f) \<and> 0 \<notin> set (sendRun k f)"
  by (rule sendRun_strict)

end
