(* ===== verification/ReliableTransport.thy ===== *)
theory ReliableTransport
  imports ReliableWire SequenceWindow
begin

text \<open>
  The reliable transport of a session, \<open>internal/peer/reliable.go\<close>: per-channel fragment
  sequences and acknowledgment windows, a shared send queue with a congestion window and a
  retransmission timer, and bounded reassembly with ordered or unordered delivery.

  The code keeps fragments and channels behind pointers.  A fragment is identified here by
  its channel and fragment sequence, a channel by its number, so an update through a pointer
  is an update of the entry with that key.  A reservation holds the fragment it was made for.
\<close>

section \<open>State\<close>

definition reliableChannelTopology :: uint16 where [simp]: "reliableChannelTopology = 1"
definition reliableChannelFanout :: uint16 where [simp]: "reliableChannelFanout = 2"
definition reliableChannelMemberState :: uint16 where [simp]: "reliableChannelMemberState = 3"
definition reliableChannelScreenState :: uint16 where [simp]: "reliableChannelScreenState = 4"
definition reliableChannelFileControl :: uint16 where [simp]: "reliableChannelFileControl = 5"
definition reliableChannelFileData :: uint16 where [simp]: "reliableChannelFileData = 6"

definition reliableMSS :: nat where [simp]: "reliableMSS = MaxReliablePayload"
definition initialReliableCwnd :: int where [simp]: "initialReliableCwnd = 4 * int reliableMSS"
definition minimumReliableCwnd :: int where [simp]: "minimumReliableCwnd = 2 * int reliableMSS"
definition maximumReliableCwnd :: int where [simp]: "maximumReliableCwnd = 64 * int reliableMSS"
definition initialReliableRTO :: duration where [simp]: "initialReliableRTO = 500 * Millisecond"
definition minimumReliableRTO :: duration where [simp]: "minimumReliableRTO = 100 * Millisecond"
definition maximumReliableRTO :: duration where [simp]: "maximumReliableRTO = 5 * Second"
definition maxQueuedReliableBytes :: int where [simp]: "maxQueuedReliableBytes = 4 * 2 ^ 20"
definition maxReassemblyReliableBytes :: int where [simp]: "maxReassemblyReliableBytes = 4 * 2 ^ 20"
definition maxReliableAssemblies :: int where [simp]: "maxReliableAssemblies = 4096"
definition maxReliableFragments :: int where [simp]: "maxReliableFragments = 8192"

record deliveredReliableMessage =
  dChannel :: uint16
  dPayload :: bytes

record reliableFragment =
  fChannel :: uint16
  fSequence :: uint64
  fIndex :: uint16
  fCount :: uint16
  fPayload :: bytes
  sentAt :: time
  transmissions :: nat
  timeoutPending :: bool

record reliableAssembly =
  aCount :: uint16
  aFragments :: "(uint16 \<times> bytes) list"
  aBytes :: int

record reliableChannel =
  nextFragmentSequence :: uint64
  received :: sequenceWindow
  ackDirty :: bool
  nextDeliveredFragment :: uint64
  reassemblies :: "(uint64 \<times> reliableAssembly) list"

record reliableTransport =
  channels :: "uint16 \<Rightarrow> reliableChannel option"
  outbound :: "reliableFragment list"
  ackChannels :: "uint16 list"
  ackCursor :: nat
  dataCursor :: nat
  queuedBytes :: int
  bytesInFlight :: int
  reassemblyBytes :: int
  reassemblyCount :: int
  reassemblyParts :: int
  cwnd :: int
  ssthresh :: int
  rto :: duration
  srtt :: duration
  rttvar :: duration
  haveRTT :: bool
  preferACK :: bool

datatype reliableReservation =
    ReservationNew reliableFragment nat time
  | ReservationRetransmit reliableFragment nat time
  | ReservationACK uint16 nat

definition newReliableTransport :: reliableTransport where
  "newReliableTransport = \<lparr>channels = (\<lambda>_. None), outbound = [], ackChannels = [], ackCursor = 0,
     dataCursor = 0, queuedBytes = 0, bytesInFlight = 0, reassemblyBytes = 0, reassemblyCount = 0,
     reassemblyParts = 0, cwnd = initialReliableCwnd, ssthresh = maximumReliableCwnd,
     rto = initialReliableRTO, srtt = 0, rttvar = 0, haveRTT = False, preferACK = True\<rparr>"

text \<open>The results are \<open>ordered\<close> and \<open>known\<close>.\<close>

definition reliableChannelOrdered :: "uint16 \<Rightarrow> bool \<times> bool" where
  "reliableChannelOrdered channel =
     (if channel \<in> {reliableChannelTopology, reliableChannelFanout, reliableChannelMemberState,
          reliableChannelScreenState, reliableChannelFileControl} then (True, True)
      else if channel = reliableChannelFileData then (False, True)
      else (False, False))"

section \<open>Queueing\<close>

definition newChannel :: reliableChannel where
  "newChannel = \<lparr>nextFragmentSequence = 0, received = empty_window, ackDirty = False,
     nextDeliveredFragment = 1, reassemblies = []\<rparr>"

definition addChannel :: "reliableTransport \<Rightarrow> uint16 \<Rightarrow> reliableTransport" where
  "addChannel r channel = r\<lparr>channels := (channels r)(channel \<mapsto> newChannel),
     ackChannels := ackChannels r @ [channel]\<rparr>"

text \<open>\<open>state := r.channels[channel]; if state == nil { state = r.addChannel(channel) }\<close>\<close>

definition ensureChannel :: "reliableTransport \<Rightarrow> uint16 \<Rightarrow> reliableTransport" where
  "ensureChannel r channel =
     (case channels r channel of None \<Rightarrow> addChannel r channel | Some _ \<Rightarrow> r)"

definition fragmentCountOf :: "nat \<Rightarrow> nat" where
  "fragmentCountOf sz = (sz + reliableMSS - 1) div reliableMSS"

definition canQueue :: "reliableTransport \<Rightarrow> uint16 \<Rightarrow> nat \<Rightarrow> unit result" where
  "canQueue r channel sz =
     (if \<not> snd (reliableChannelOrdered channel) then fail ''reliable channel is unknown''
      else if sz = 0 then fail ''reliable message is empty''
      else if sz > MaxReliableFragments * reliableMSS then fail ''reliable message is too large''
      else if int sz > maxQueuedReliableBytes - queuedBytes r then fail ''reliable queue is full''
      else case channels r channel of
        None \<Rightarrow> Inr ()
      | Some state \<Rightarrow>
          if of_nat (fragmentCountOf sz) > NOT 0 - nextFragmentSequence state
          then fail ''reliable sequence exhausted''
          else Inr ())"

text \<open>One turn of the fragment loop: the next sequence is taken and the fragment appended.\<close>

definition newFragment :: "uint16 \<Rightarrow> uint64 \<Rightarrow> nat \<Rightarrow> bytes \<Rightarrow> nat \<Rightarrow> reliableFragment" where
  "newFragment channel sequence count payload index =
     \<lparr>fChannel = channel, fSequence = sequence, fIndex = of_nat index, fCount = of_nat count,
      fPayload = seg (index * reliableMSS) (min (index * reliableMSS + reliableMSS) (length payload)) payload,
      sentAt = 0, transmissions = 0, timeoutPending = False\<rparr>"

fun queueFragments ::
  "uint16 \<Rightarrow> bytes \<Rightarrow> nat \<Rightarrow> nat list \<Rightarrow> uint64 \<Rightarrow> reliableFragment list \<Rightarrow>
     uint64 \<times> reliableFragment list" where
  "queueFragments channel payload count [] next out = (next, out)"
| "queueFragments channel payload count (index # rest) next out =
     queueFragments channel payload count rest (next + 1)
       (out @ [newFragment channel (next + 1) count payload index])"

definition queue :: "reliableTransport \<Rightarrow> uint16 \<Rightarrow> bytes \<Rightarrow> unit result \<times> reliableTransport" where
  "queue r channel payload =
     (case canQueue r channel (length payload) of
        Inl err \<Rightarrow> (Inl err, r)
      | Inr _ \<Rightarrow>
          let fragmentCount = fragmentCountOf (length payload);
              r = ensureChannel r channel;
              state = the (channels r channel);
              (next, out) = queueFragments channel payload fragmentCount [0..<fragmentCount]
                (nextFragmentSequence state) (outbound r)
          in (Inr (), r\<lparr>channels := (channels r)(channel \<mapsto> state\<lparr>nextFragmentSequence := next\<rparr>),
                outbound := out, queuedBytes := queuedBytes r + int (length payload)\<rparr>))"

section \<open>Choosing what to send\<close>

definition nextFragment ::
  "reliableTransport \<Rightarrow> (reliableFragment \<Rightarrow> bool) \<Rightarrow> (reliableFragment \<times> nat) option" where
  "nextFragment r eligible =
     first_some (map (\<lambda>offset.
         let index = (dataCursor r + offset) mod length (ackChannels r);
             channel = ackChannels r ! index
         in map_option (\<lambda>fragment. (fragment, index))
              (List.find (\<lambda>fragment. fChannel fragment = channel \<and> eligible fragment) (outbound r)))
       [0..<length (ackChannels r)])"

definition oldestStep :: "(uint16 \<Rightarrow> uint64) \<Rightarrow> reliableFragment \<Rightarrow> uint16 \<Rightarrow> uint64" where
  "oldestStep m fragment =
     (if transmissions fragment = 0 then m
      else
        let oldest = m (fChannel fragment)
        in if oldest = 0 \<or> fSequence fragment < oldest
           then m(fChannel fragment := fSequence fragment) else m)"

definition oldestTransmitted :: "reliableFragment list \<Rightarrow> uint16 \<Rightarrow> uint64" where
  "oldestTransmitted out = foldl oldestStep (\<lambda>_. 0) out"

definition packetFor :: "reliableTransport \<Rightarrow> reliableFragment \<Rightarrow> ReliablePacket" where
  "packetFor r fragment =
     (let state = the (channels r (fChannel fragment))
      in \<lparr>Channel = fChannel fragment, FragmentSequence = fSequence fragment,
          FragmentIndex = fIndex fragment, FragmentCount = fCount fragment,
          FragmentAckBase = highest (received state), FragmentAckBitmap = seen (received state),
          Payload = fPayload fragment\<rparr>)"

definition expired :: "reliableTransport \<Rightarrow> time \<Rightarrow> reliableFragment \<Rightarrow> bool" where
  "expired r now fragment \<longleftrightarrow> transmissions fragment \<noteq> 0 \<and> \<not> now < sentAt fragment + rto r"

definition retransmitEligible :: "reliableTransport \<Rightarrow> time \<Rightarrow> reliableFragment \<Rightarrow> bool" where
  "retransmitEligible r now fragment \<longleftrightarrow>
     transmissions fragment \<noteq> 0 \<and> (timeoutPending fragment \<or> \<not> now < sentAt fragment + rto r)"

definition newEligible :: "reliableTransport \<Rightarrow> reliableFragment \<Rightarrow> bool" where
  "newEligible r fragment =
     (if transmissions fragment \<noteq> 0 \<or> bytesInFlight r + int (length (fPayload fragment)) > cwnd r
      then False
      else let oldest = oldestTransmitted (outbound r) (fChannel fragment)
        in oldest = 0 \<or> fSequence fragment - oldest < 64)"

definition nextPacket ::
  "reliableTransport \<Rightarrow> time \<Rightarrow> (ReliablePacket \<times> reliableReservation) option" where
  "nextPacket r now =
     (case nextFragment r (retransmitEligible r now) of
        Some (fragment, index) \<Rightarrow>
          Some (packetFor r fragment, ReservationRetransmit fragment index now)
      | None \<Rightarrow>
          (case nextFragment r (newEligible r) of
             Some (fragment, index) \<Rightarrow>
               Some (packetFor r fragment, ReservationNew fragment index now)
           | None \<Rightarrow> None))"

definition nextAck :: "reliableTransport \<Rightarrow> (ReliablePacket \<times> reliableReservation) option" where
  "nextAck r =
     first_some (map (\<lambda>offset.
         let index = (ackCursor r + offset) mod length (ackChannels r);
             channel = ackChannels r ! index;
             state = the (channels r channel)
         in if \<not> ackDirty state then None
            else Some (\<lparr>Channel = channel, FragmentSequence = 0, FragmentIndex = 0,
                   FragmentCount = 0, FragmentAckBase = highest (received state),
                   FragmentAckBitmap = seen (received state), Payload = []\<rparr>,
                 ReservationACK channel index))
       [0..<length (ackChannels r)])"

definition nextSend ::
  "reliableTransport \<Rightarrow> time \<Rightarrow> (ReliablePacket \<times> reliableReservation) option" where
  "nextSend r now =
     (if preferACK r then
        (case nextAck r of Some result \<Rightarrow> Some result | None \<Rightarrow> nextPacket r now)
      else
        (case nextPacket r now of Some result \<Rightarrow> Some result | None \<Rightarrow> nextAck r))"

section \<open>Committing or rejecting a reservation\<close>

definition advance :: "reliableTransport \<Rightarrow> reliableReservation \<Rightarrow> reliableTransport" where
  "advance r reservation =
     (case reservation of
        ReservationACK channel ackIndex \<Rightarrow>
          r\<lparr>ackCursor := (ackIndex + 1) mod length (ackChannels r), preferACK := False\<rparr>
      | ReservationNew fragment dataIndex now \<Rightarrow>
          r\<lparr>dataCursor := (dataIndex + 1) mod length (ackChannels r), preferACK := True\<rparr>
      | ReservationRetransmit fragment dataIndex now \<Rightarrow>
          r\<lparr>dataCursor := (dataIndex + 1) mod length (ackChannels r), preferACK := True\<rparr>)"

definition reject :: "reliableTransport \<Rightarrow> reliableReservation \<Rightarrow> reliableTransport" where
  "reject r reservation = advance r reservation"

definition sameFragment :: "reliableFragment \<Rightarrow> reliableFragment \<Rightarrow> bool" where
  "sameFragment f g \<longleftrightarrow> fChannel f = fChannel g \<and> fSequence f = fSequence g"

definition updateFragment ::
  "reliableFragment \<Rightarrow> (reliableFragment \<Rightarrow> reliableFragment) \<Rightarrow> reliableFragment list \<Rightarrow>
     reliableFragment list" where
  "updateFragment f upd out = map (\<lambda>g. if sameFragment f g then upd g else g) out"

definition markTransmitted :: "time \<Rightarrow> reliableFragment \<Rightarrow> reliableFragment" where
  "markTransmitted now f = f\<lparr>transmissions := transmissions f + 1, sentAt := now\<rparr>"

definition clearAckDirty :: "reliableTransport \<Rightarrow> uint16 \<Rightarrow> reliableTransport" where
  "clearAckDirty r channel =
     r\<lparr>channels := (channels r)(channel :=
        map_option (\<lambda>state. state\<lparr>ackDirty := False\<rparr>) (channels r channel))\<rparr>"

definition commitNew :: "reliableTransport \<Rightarrow> reliableFragment \<Rightarrow> time \<Rightarrow> reliableTransport" where
  "commitNew r fragment now =
     r\<lparr>outbound := updateFragment fragment (markTransmitted now) (outbound r),
       bytesInFlight := bytesInFlight r + int (length (fPayload fragment))\<rparr>"

definition commitRetransmit :: "reliableTransport \<Rightarrow> reliableFragment \<Rightarrow> time \<Rightarrow> reliableTransport" where
  "commitRetransmit r fragment now =
     (let r =
        (if timeoutPending fragment then r
         else r\<lparr>outbound := map (\<lambda>f. if expired r now f then f\<lparr>timeoutPending := True\<rparr> else f)
                  (outbound r),
                ssthresh := max (cwnd r div 2) minimumReliableCwnd,
                cwnd := minimumReliableCwnd,
                rto := min (rto r * 2) maximumReliableRTO\<rparr>)
      in r\<lparr>outbound := updateFragment fragment
             (\<lambda>f. markTransmitted now (f\<lparr>timeoutPending := False\<rparr>)) (outbound r)\<rparr>)"

definition commit :: "reliableTransport \<Rightarrow> reliableReservation \<Rightarrow> reliableTransport" where
  "commit r reservation =
     (case reservation of
        ReservationNew fragment dataIndex now \<Rightarrow>
          clearAckDirty (advance (commitNew r fragment now) reservation) (fChannel fragment)
      | ReservationRetransmit fragment dataIndex now \<Rightarrow>
          clearAckDirty (advance (commitRetransmit r fragment now) reservation) (fChannel fragment)
      | ReservationACK channel ackIndex \<Rightarrow>
          clearAckDirty (advance r reservation) channel)"

section \<open>Acknowledgments\<close>

definition updateRTT :: "reliableTransport \<Rightarrow> duration \<Rightarrow> reliableTransport" where
  "updateRTT r sample =
     (let r =
        (if \<not> haveRTT r then r\<lparr>srtt := sample, rttvar := sample div 2, haveRTT := True\<rparr>
         else
           let deviation = srtt r - sample;
               deviation = (if deviation < 0 then - deviation else deviation)
           in r\<lparr>rttvar := (3 * rttvar r + deviation) div 4, srtt := (7 * srtt r + sample) div 8\<rparr>)
      in r\<lparr>rto := min (max (srtt r + 4 * rttvar r) minimumReliableRTO) maximumReliableRTO\<rparr>)"

definition ackedBy :: "uint16 \<Rightarrow> uint64 \<Rightarrow> uint64 \<Rightarrow> reliableFragment \<Rightarrow> bool" where
  "ackedBy channel base bitmap fragment \<longleftrightarrow>
     \<not> (fChannel fragment \<noteq> channel \<or> transmissions fragment = 0
        \<or> \<not> FragmentAckContains base bitmap (fSequence fragment))"

text \<open>The loop over the outbound fragments, with \<open>ackedBytes\<close> and \<open>remaining\<close>.\<close>

fun consumeLoop ::
  "uint16 \<Rightarrow> uint64 \<Rightarrow> uint64 \<Rightarrow> time \<Rightarrow> reliableFragment list \<Rightarrow> reliableTransport \<Rightarrow> int \<Rightarrow>
     reliableFragment list \<Rightarrow> reliableTransport \<times> int \<times> reliableFragment list" where
  "consumeLoop channel base bitmap now [] r ackedBytes remaining = (r, ackedBytes, remaining)"
| "consumeLoop channel base bitmap now (fragment # rest) r ackedBytes remaining =
     (if \<not> ackedBy channel base bitmap fragment
      then consumeLoop channel base bitmap now rest r ackedBytes (remaining @ [fragment])
      else
        let len = int (length (fPayload fragment));
            r = r\<lparr>queuedBytes := queuedBytes r - len, bytesInFlight := bytesInFlight r - len\<rparr>;
            r = (if transmissions fragment = 1 \<and> \<not> now < sentAt fragment
                 then updateRTT r (now - sentAt fragment) else r)
        in consumeLoop channel base bitmap now rest r (ackedBytes + len) remaining)"

definition growCwnd :: "reliableTransport \<Rightarrow> int \<Rightarrow> reliableTransport" where
  "growCwnd r ackedBytes =
     (let r =
        (if cwnd r < ssthresh r then r\<lparr>cwnd := cwnd r + ackedBytes\<rparr>
         else
           let increase = int reliableMSS * ackedBytes div cwnd r
           in r\<lparr>cwnd := cwnd r + max increase 1\<rparr>)
      in r\<lparr>cwnd := min (cwnd r) maximumReliableCwnd\<rparr>)"

definition consumeFragmentAck ::
  "reliableTransport \<Rightarrow> uint16 \<Rightarrow> uint64 \<Rightarrow> uint64 \<Rightarrow> time \<Rightarrow> reliableTransport" where
  "consumeFragmentAck r channel base bitmap now =
     (if base = 0 \<or> bitmap = 0 then r
      else
        let (r, ackedBytes, remaining) = consumeLoop channel base bitmap now (outbound r) r 0 [];
            r = r\<lparr>outbound := remaining\<rparr>
        in if ackedBytes = 0 then r else growCwnd r ackedBytes)"

section \<open>Reassembly\<close>

text \<open>\<open>append\<close> of \<open>assembly.fragments[index]\<close> for each index; a missing fragment is empty.\<close>

definition assembleReliable :: "reliableAssembly \<Rightarrow> bytes" where
  "assembleReliable assembly =
     concat (map (\<lambda>index. case map_of (aFragments assembly) (of_nat index) of
         None \<Rightarrow> [] | Some fragment \<Rightarrow> fragment)
       [0..<unat (aCount assembly)])"

definition removeAssembly ::
  "reliableTransport \<Rightarrow> reliableChannel \<Rightarrow> uint64 \<Rightarrow> reliableTransport \<times> reliableChannel" where
  "removeAssembly r state sequence =
     (case map_of (reassemblies state) sequence of
        None \<Rightarrow> (r, state)
      | Some assembly \<Rightarrow>
          (r\<lparr>reassemblyBytes := reassemblyBytes r - aBytes assembly,
             reassemblyCount := reassemblyCount r - 1,
             reassemblyParts := reassemblyParts r - int (length (aFragments assembly))\<rparr>,
           state\<lparr>reassemblies := AList.delete sequence (reassemblies state)\<rparr>))"

definition complete :: "reliableAssembly \<Rightarrow> bool" where
  "complete assembly \<longleftrightarrow> length (aFragments assembly) = unat (aCount assembly)"

function deliverOrdered ::
  "uint16 \<Rightarrow> reliableTransport \<Rightarrow> reliableChannel \<Rightarrow>
     reliableTransport \<times> reliableChannel \<times> deliveredReliableMessage list" where
  "deliverOrdered channel r state =
     (case map_of (reassemblies state) (nextDeliveredFragment state) of
        None \<Rightarrow> (r, state, [])
      | Some assembly \<Rightarrow>
          if \<not> complete assembly then (r, state, [])
          else
            let message = \<lparr>dChannel = channel, dPayload = assembleReliable assembly\<rparr>;
                (r, state) = removeAssembly r state (nextDeliveredFragment state);
                next = nextDeliveredFragment state + ucast (aCount assembly)
            in if next < nextDeliveredFragment state
               then (r, state\<lparr>nextDeliveredFragment := 0\<rparr>, [message])
               else
                 let (r, state, delivered) =
                   deliverOrdered channel r (state\<lparr>nextDeliveredFragment := next\<rparr>)
                 in (r, state, message # delivered))"
  by pat_completeness auto
termination
  by (relation "measure (\<lambda>(channel, r, state). length (reassemblies state))")
     (auto simp: removeAssembly_def length_delete_present)

declare deliverOrdered.simps [simp del]

text \<open>
  \<open>receive\<close>.  The part after the acknowledgment is \<open>receiveFragment\<close>; \<open>storeFragment\<close> is
  its tail once every refusal has been ruled out.  The state that is written back at each
  return is the channel the code mutates through its pointer.
\<close>

definition putChannel :: "reliableTransport \<Rightarrow> uint16 \<Rightarrow> reliableChannel \<Rightarrow> reliableTransport" where
  "putChannel r channel state = r\<lparr>channels := (channels r)(channel \<mapsto> state)\<rparr>"

definition storeFragment ::
  "reliableTransport \<Rightarrow> reliableChannel \<Rightarrow> bool \<Rightarrow> ReliablePacket \<Rightarrow> uint64 \<Rightarrow> reliableAssembly \<Rightarrow>
     reliableTransport \<times> deliveredReliableMessage list" where
  "storeFragment r state ordered packet messageStart assembly =
     (let len = int (length (Payload packet));
          assembly = assembly\<lparr>
            aFragments := AList.update (FragmentIndex packet) (Payload packet) (aFragments assembly),
            aBytes := aBytes assembly + len\<rparr>;
          r = r\<lparr>reassemblyBytes := reassemblyBytes r + len,
                reassemblyParts := reassemblyParts r + 1\<rparr>;
          state = state\<lparr>
            received := snd (accept (received state) (FragmentSequence packet)),
            reassemblies := AList.update messageStart assembly (reassemblies state)\<rparr>
      in if \<not> complete assembly then (putChannel r (Channel packet) state, [])
         else if \<not> ordered then
           let delivered = \<lparr>dChannel = Channel packet, dPayload = assembleReliable assembly\<rparr>;
               (r, state) = removeAssembly r state messageStart
           in (putChannel r (Channel packet) state, [delivered])
         else
           let (r, state, delivered) = deliverOrdered (Channel packet) r state
           in (putChannel r (Channel packet) state, delivered))"

definition receiveFragment ::
  "reliableTransport \<Rightarrow> bool \<Rightarrow> ReliablePacket \<Rightarrow> reliableTransport \<times> deliveredReliableMessage list" where
  "receiveFragment r ordered packet =
     (let r = ensureChannel r (Channel packet);
          state = (the (channels r (Channel packet)))\<lparr>ackDirty := True\<rparr>;
          r = putChannel r (Channel packet) state;
          messageStart = FragmentSequence packet - ucast (FragmentIndex packet);
          assembly = map_of (reassemblies state) messageStart
      in if \<not> mayAccept (received state) (FragmentSequence packet) then (r, [])
         else if ordered \<and> (nextDeliveredFragment state = 0
             \<or> messageStart < nextDeliveredFragment state) then (r, [])
         else if (case assembly of None \<Rightarrow> False | Some a \<Rightarrow>
             aCount a \<noteq> FragmentCount packet
             \<or> map_of (aFragments a) (FragmentIndex packet) \<noteq> None) then (r, [])
         else if int (length (Payload packet)) > maxReassemblyReliableBytes - reassemblyBytes r
           then (r, [])
         else if reassemblyParts r \<ge> maxReliableFragments then (r, [])
         else case assembly of
             Some a \<Rightarrow> storeFragment r state ordered packet messageStart a
           | None \<Rightarrow>
               if reassemblyCount r \<ge> maxReliableAssemblies then (r, [])
               else storeFragment (r\<lparr>reassemblyCount := reassemblyCount r + 1\<rparr>) state ordered packet
                 messageStart \<lparr>aCount = FragmentCount packet, aFragments = [], aBytes = 0\<rparr>)"

definition receive ::
  "reliableTransport \<Rightarrow> ReliablePacket \<Rightarrow> time \<Rightarrow> reliableTransport \<times> deliveredReliableMessage list" where
  "receive r packet now =
     (let (ordered, known) = reliableChannelOrdered (Channel packet)
      in if \<not> known then (r, [])
         else
           let r = consumeFragmentAck r (Channel packet) (FragmentAckBase packet)
                 (FragmentAckBitmap packet) now
           in if AckOnly packet then (r, []) else receiveFragment r ordered packet)"

section \<open>The rest of the interface\<close>

definition pendingChannel :: "reliableTransport \<Rightarrow> uint16 \<Rightarrow> bool" where
  "pendingChannel r channel \<longleftrightarrow> (\<exists>fragment \<in> set (outbound r). fChannel fragment = channel)"

definition discardOutboundChannel :: "reliableTransport \<Rightarrow> uint16 \<Rightarrow> reliableTransport" where
  "discardOutboundChannel r channel =
     foldl (\<lambda>r fragment.
         if fChannel fragment \<noteq> channel then r\<lparr>outbound := outbound r @ [fragment]\<rparr>
         else
           let r = r\<lparr>queuedBytes := queuedBytes r - int (length (fPayload fragment))\<rparr>
           in if transmissions fragment \<noteq> 0
              then r\<lparr>bytesInFlight := bytesInFlight r - int (length (fPayload fragment))\<rparr> else r)
       (r\<lparr>outbound := []\<rparr>) (outbound r)"

definition discardInboundChannel :: "reliableTransport \<Rightarrow> uint16 \<Rightarrow> reliableTransport" where
  "discardInboundChannel r channel =
     (case channels r channel of
        None \<Rightarrow> r
      | Some state \<Rightarrow>
          let (r, state) = foldl (\<lambda>(r, state) sequence. removeAssembly r state sequence)
                (r, state) (map fst (reassemblies state))
          in putChannel r channel state)"

section \<open>An overtaken fragment\<close>

lemma oldestTransmitted_member:
  "oldestTransmitted out c = 0 \<or>
    (\<exists>g \<in> set out. transmissions g \<noteq> 0 \<and> fChannel g = c \<and> fSequence g = oldestTransmitted out c)"
proof -
  have "foldl oldestStep m out c = m c \<or>
    (\<exists>g \<in> set out. transmissions g \<noteq> 0 \<and> fChannel g = c \<and> fSequence g = foldl oldestStep m out c)" for m
  proof (induction out arbitrary: m)
    case (Cons h out)
    have "oldestStep m h c = m c \<or> transmissions h \<noteq> 0 \<and> fChannel h = c \<and> fSequence h = oldestStep m h c"
      by (simp add: oldestStep_def Let_def)
    with Cons.IH [of "oldestStep m h"] show ?case by auto
  qed simp
  from this [of "\<lambda>_. 0"] show ?thesis by (simp add: oldestTransmitted_def)
qed

lemma wrapped_distance:
  fixes a b :: uint64
  assumes "a < b" "unat b < 2 ^ 63"
  shows "\<not> a - b < 64"
proof
  assume w: "a - b < 64"
  have "unat (b + (a - b)) = unat b + unat (a - b)"
    using w assms(2) by (subst unat_word_ariths(1)) (simp add: word_less_nat_alt)
  with assms(1) show False by (simp add: word_less_nat_alt)
qed

lemma oldestTransmitted_some:
  assumes "g \<in> set out" "transmissions g \<noteq> 0" "fChannel g = c" "\<And>g. g \<in> set out \<Longrightarrow> fSequence g \<noteq> 0"
  shows "oldestTransmitted out c \<noteq> 0"
proof -
  have "(\<And>g. g \<in> set out \<Longrightarrow> fSequence g \<noteq> 0) \<Longrightarrow> m c \<noteq> 0 \<or> (\<exists>g \<in> set out. transmissions g \<noteq> 0 \<and> fChannel g = c) \<Longrightarrow>
    foldl oldestStep m out c \<noteq> 0" for m
  proof (induction out arbitrary: m)
    case (Cons h out)
    have "oldestStep m h c \<noteq> 0 \<or> (\<exists>g \<in> set out. transmissions g \<noteq> 0 \<and> fChannel g = c)"
      using Cons.prems by (auto simp: oldestStep_def Let_def)
    with Cons.IH [of "oldestStep m h"] Cons.prems(1) show ?case by simp
  qed simp
  from this [of "\<lambda>_. 0"] assms show ?thesis by (auto simp: oldestTransmitted_def)
qed

text \<open>C8: A fragment that a later one of its channel overtook, because it did not fit the congestion
  window and the later one did, is not eligible for its first transmission while every fragment of the
  channel in flight is later: the distance to the oldest one is taken modulo \<open>2 ^ 64\<close>.\<close>

theorem overtaken_fragment_blocked:
  assumes g: "g \<in> set (outbound r)" "transmissions g \<noteq> 0" "fChannel g = fChannel f"
    and later: "\<And>h. h \<in> set (outbound r) \<Longrightarrow> transmissions h \<noteq> 0 \<Longrightarrow> fChannel h = fChannel f \<Longrightarrow>
      fSequence f < fSequence h"
    and nz: "\<And>h. h \<in> set (outbound r) \<Longrightarrow> fSequence h \<noteq> 0 \<and> unat (fSequence h) < 2 ^ 63"
  shows "\<not> newEligible r f"
proof -
  let ?o = "oldestTransmitted (outbound r) (fChannel f)"
  have nz0: "?o \<noteq> 0" using oldestTransmitted_some [OF g] nz by blast
  then obtain h where h: "h \<in> set (outbound r)" "transmissions h \<noteq> 0" "fChannel h = fChannel f" "fSequence h = ?o"
    using oldestTransmitted_member [of "outbound r" "fChannel f"] by auto
  then have "fSequence f < ?o" "unat ?o < 2 ^ 63" using later [OF h(1-3)] nz [OF h(1)] by simp_all
  then have "\<not> fSequence f - ?o < 64" by (rule wrapped_distance)
  with nz0 show ?thesis by (auto simp: newEligible_def Let_def)
qed

text \<open>Three fragments of one channel: the first is in flight and leaves no room for the second, which the
  third overtakes; once the first is acknowledged the second is blocked although the window is open.\<close>

definition overtaking_fragment :: "uint64 \<Rightarrow> nat \<Rightarrow> nat \<Rightarrow> reliableFragment" where
  "overtaking_fragment q n k = \<lparr>fChannel = 1, fSequence = q, fIndex = 0, fCount = 1, fPayload = replicate n 0,
     sentAt = 0, transmissions = k, timeoutPending = False\<rparr>"

definition overtaken_transport :: reliableTransport where
  "overtaken_transport = newReliableTransport\<lparr>outbound := [overtaking_fragment 2 1000 0, overtaking_fragment 3 10 1],
     queuedBytes := 1010, bytesInFlight := 10\<rparr>"

theorem overtaken_fragment_blocked_witness:
  "bytesInFlight overtaken_transport + 1000 \<le> cwnd overtaken_transport \<and>
   \<not> newEligible overtaken_transport (overtaking_fragment 2 1000 0)"
proof -
  have "\<not> newEligible overtaken_transport (overtaking_fragment 2 1000 0)"
    by (rule overtaken_fragment_blocked [of "overtaking_fragment 3 10 1"])
      (auto simp: overtaken_transport_def overtaking_fragment_def newReliableTransport_def)
  then show ?thesis by (simp add: overtaken_transport_def newReliableTransport_def)
qed

end
