(* ===== verification/ReliableAccounting.thy ===== *)
theory ReliableAccounting
  imports ReliableTransport
begin

text \<open>
  The accounting invariant of the reliable transport: every counter is the sum it stands for,
  and stays within the budget the code sets for it; the congestion window, the slow-start
  threshold and the retransmission timer stay within their bounds.  It is proved for every
  operation and lifted to every sequence of operations by the machine interface.
\<close>

section \<open>Channels\<close>

definition chan_inv :: "reliableTransport \<Rightarrow> bool" where
  "chan_inv r \<longleftrightarrow> distinct (ackChannels r) \<and> dom (channels r) = set (ackChannels r)"

definition chsum :: "(reliableChannel \<Rightarrow> int) \<Rightarrow> reliableTransport \<Rightarrow> int" where
  "chsum f r = sum_list (map (\<lambda>c. f (the (channels r c))) (ackChannels r))"

lemma chan_inv_cong:
  "channels r' = channels r \<Longrightarrow> ackChannels r' = ackChannels r \<Longrightarrow> chan_inv r' = chan_inv r"
  by (simp add: chan_inv_def)

lemma chsum_cong:
  "channels r' = channels r \<Longrightarrow> ackChannels r' = ackChannels r \<Longrightarrow> chsum f r' = chsum f r"
  by (simp add: chsum_def)

lemma chan_inv_put [simp]:
  "chan_inv r \<Longrightarrow> c \<in> set (ackChannels r) \<Longrightarrow> chan_inv (putChannel r c st)"
  by (auto simp: chan_inv_def putChannel_def)

lemma chan_inv_mem: "chan_inv r \<Longrightarrow> c \<in> set (ackChannels r) \<longleftrightarrow> (\<exists>st. channels r c = Some st)"
  by (metis chan_inv_def domD domI)

lemma sum_list_map_upd:
  fixes g :: "'a \<Rightarrow> int"
  shows "distinct cs \<Longrightarrow> c \<in> set cs \<Longrightarrow>
    sum_list (map (\<lambda>x. if x = c then v else g x) cs) = sum_list (map g cs) + v - g c"
proof (induction cs)
  case Nil
  then show ?case by simp
next
  case (Cons a cs)
  have "c \<notin> set cs \<Longrightarrow> sum_list (map (\<lambda>x. if x = c then v else g x) cs) = sum_list (map g cs)"
    by (intro arg_cong [where f = sum_list] map_cong) auto
  with Cons show ?case by (cases "a = c") auto
qed

lemma chsum_put:
  assumes "chan_inv r" "channels r c = Some st0"
  shows "chsum f (putChannel r c st) = chsum f r + f st - f st0"
proof -
  have "chsum f (putChannel r c st)
      = sum_list (map (\<lambda>x. if x = c then f st else f (the (channels r x))) (ackChannels r))"
    unfolding chsum_def putChannel_def by (intro arg_cong [where f = sum_list] map_cong) auto
  moreover have "distinct (ackChannels r)" "c \<in> set (ackChannels r)"
    using assms by (auto simp: chan_inv_def)
  ultimately show ?thesis
    using sum_list_map_upd [of "ackChannels r" c "f st" "\<lambda>x. f (the (channels r x))"] assms(2)
    by (simp add: chsum_def)
qed

lemma ensureChannel_inv:
  assumes "chan_inv r" "f newChannel = 0"
  shows "chan_inv (ensureChannel r c)" and "chsum f (ensureChannel r c) = chsum f r"
proof -
  show "chan_inv (ensureChannel r c)"
    using assms by (auto simp: ensureChannel_def addChannel_def chan_inv_def split: option.splits)
  show "chsum f (ensureChannel r c) = chsum f r"
  proof (cases "channels r c")
    case None
    then have "c \<notin> set (ackChannels r)" using assms(1) by (simp add: chan_inv_mem)
    then have "sum_list (map (\<lambda>x. f (the (((channels r)(c \<mapsto> newChannel)) x))) (ackChannels r))
        = sum_list (map (\<lambda>x. f (the (channels r x))) (ackChannels r))"
      by (intro arg_cong [where f = sum_list] map_cong) auto
    with None assms(2) show ?thesis
      by (simp add: ensureChannel_def addChannel_def chsum_def)
  next
    case (Some st)
    then show ?thesis by (simp add: ensureChannel_def)
  qed
qed

lemma ensureChannel_present: "\<exists>st. channels (ensureChannel r c) c = Some st"
  by (auto simp: ensureChannel_def addChannel_def split: option.splits)

lemma ensureChannel_frame [simp]:
  "outbound (ensureChannel r c) = outbound r" "queuedBytes (ensureChannel r c) = queuedBytes r"
  "bytesInFlight (ensureChannel r c) = bytesInFlight r" "cwnd (ensureChannel r c) = cwnd r"
  "ssthresh (ensureChannel r c) = ssthresh r" "rto (ensureChannel r c) = rto r"
  "srtt (ensureChannel r c) = srtt r" "rttvar (ensureChannel r c) = rttvar r"
  "reassemblyBytes (ensureChannel r c) = reassemblyBytes r"
  "reassemblyCount (ensureChannel r c) = reassemblyCount r"
  "reassemblyParts (ensureChannel r c) = reassemblyParts r"
  by (simp_all add: ensureChannel_def addChannel_def split: option.splits)

lemma putChannel_frame [simp]:
  "outbound (putChannel r c st) = outbound r" "queuedBytes (putChannel r c st) = queuedBytes r"
  "bytesInFlight (putChannel r c st) = bytesInFlight r" "cwnd (putChannel r c st) = cwnd r"
  "ssthresh (putChannel r c st) = ssthresh r" "rto (putChannel r c st) = rto r"
  "srtt (putChannel r c st) = srtt r" "rttvar (putChannel r c st) = rttvar r"
  "reassemblyBytes (putChannel r c st) = reassemblyBytes r"
  "reassemblyCount (putChannel r c st) = reassemblyCount r"
  "reassemblyParts (putChannel r c st) = reassemblyParts r"
  "ackChannels (putChannel r c st) = ackChannels r"
  "channels (putChannel r c st) = (channels r)(c \<mapsto> st)"
  by (simp_all add: putChannel_def)

section \<open>Congestion control\<close>

definition cc_inv :: "reliableTransport \<Rightarrow> bool" where
  "cc_inv r \<longleftrightarrow>
     minimumReliableCwnd \<le> cwnd r \<and> cwnd r \<le> maximumReliableCwnd \<and>
     minimumReliableCwnd \<le> ssthresh r \<and> ssthresh r \<le> maximumReliableCwnd \<and>
     minimumReliableRTO \<le> rto r \<and> rto r \<le> maximumReliableRTO \<and> 0 \<le> srtt r \<and> 0 \<le> rttvar r"

lemma cc_inv_cong:
  "cwnd r' = cwnd r \<Longrightarrow> ssthresh r' = ssthresh r \<Longrightarrow> rto r' = rto r \<Longrightarrow> srtt r' = srtt r \<Longrightarrow>
     rttvar r' = rttvar r \<Longrightarrow> cc_inv r' = cc_inv r"
  by (simp add: cc_inv_def)

lemma cc_inv_updateRTT: "cc_inv r \<Longrightarrow> 0 \<le> sample \<Longrightarrow> cc_inv (updateRTT r sample)"
  by (auto simp: cc_inv_def updateRTT_def Let_def)

lemma cc_inv_growCwnd: "cc_inv r \<Longrightarrow> 0 \<le> acked \<Longrightarrow> cc_inv (growCwnd r acked)"
  by (auto simp: cc_inv_def growCwnd_def Let_def)

lemma cc_inv_consumeLoop:
  "cc_inv r \<Longrightarrow> cc_inv (fst (consumeLoop c base bitmap now out r a rem))"
proof (induction out arbitrary: r a rem)
  case Nil
  then show ?case by simp
next
  case (Cons f out)
  let ?r = "r\<lparr>queuedBytes := queuedBytes r - int (length (fPayload f)),
      bytesInFlight := bytesInFlight r - int (length (fPayload f))\<rparr>"
  have "cc_inv ?r" using Cons.prems by (simp add: cc_inv_def)
  then have "cc_inv (updateRTT ?r (now - sentAt f))" if "\<not> now < sentAt f"
    using that cc_inv_updateRTT by auto
  with \<open>cc_inv ?r\<close> show ?case using Cons by (simp add: Let_def)
qed

section \<open>The outbound queue\<close>

abbreviation plen :: "reliableFragment \<Rightarrow> int" where
  "plen f \<equiv> int (length (fPayload f))"

definition osum :: "(reliableFragment \<Rightarrow> bool) \<Rightarrow> reliableFragment list \<Rightarrow> int" where
  "osum P out = sum_list (map plen (filter P out))"

lemma osum_Nil [simp]: "osum P [] = 0"
  by (simp add: osum_def)

lemma osum_Cons [simp]: "osum P (f # out) = (if P f then plen f else 0) + osum P out"
  by (simp add: osum_def)

lemma osum_append [simp]: "osum P (out @ out') = osum P out + osum P out'"
  by (simp add: osum_def)

lemma osum_nonneg: "0 \<le> osum P out"
  by (induction out) auto

lemma osum_mono: "osum P out \<le> osum (\<lambda>_. True) out"
  by (induction out) auto

abbreviation inFlight :: "reliableFragment \<Rightarrow> bool" where
  "inFlight f \<equiv> 0 < transmissions f"

definition fkey :: "reliableFragment \<Rightarrow> uint16 \<times> uint64" where
  "fkey f = (fChannel f, fSequence f)"

definition fragment_of :: "reliableTransport \<Rightarrow> reliableFragment \<Rightarrow> bool" where
  "fragment_of r f \<longleftrightarrow> (\<exists>st. channels r (fChannel f) = Some st \<and> fSequence f \<le> nextFragmentSequence st
     \<and> fSequence f \<noteq> 0)"

definition out_inv :: "reliableTransport \<Rightarrow> bool" where
  "out_inv r \<longleftrightarrow>
     queuedBytes r = osum (\<lambda>_. True) (outbound r) \<and> bytesInFlight r = osum inFlight (outbound r) \<and>
     queuedBytes r \<le> maxQueuedReliableBytes \<and> distinct (map fkey (outbound r)) \<and>
     (\<forall>f \<in> set (outbound r). fragment_of r f)"

lemma consumeLoop_frame:
  "let (r', a', rem') = consumeLoop c base bitmap now out r a rem in
     rem' = rem @ filter (\<lambda>f. \<not> ackedBy c base bitmap f) out \<and>
     a' = a + osum (ackedBy c base bitmap) out \<and>
     queuedBytes r' = queuedBytes r - osum (ackedBy c base bitmap) out \<and>
     bytesInFlight r' = bytesInFlight r - osum (ackedBy c base bitmap) out \<and>
     channels r' = channels r \<and> ackChannels r' = ackChannels r \<and>
     reassemblyBytes r' = reassemblyBytes r \<and> reassemblyCount r' = reassemblyCount r \<and>
     reassemblyParts r' = reassemblyParts r"
proof (induction out arbitrary: r a rem)
  case Nil
  then show ?case by simp
next
  case (Cons f out)
  let ?r = "r\<lparr>queuedBytes := queuedBytes r - plen f, bytesInFlight := bytesInFlight r - plen f\<rparr>"
  define r1 where "r1 = (if transmissions f = 1 \<and> \<not> now < sentAt f
    then updateRTT ?r (now - sentAt f) else ?r)"
  have r1: "queuedBytes r1 = queuedBytes r - plen f" "bytesInFlight r1 = bytesInFlight r - plen f"
    "channels r1 = channels r" "ackChannels r1 = ackChannels r"
    "reassemblyBytes r1 = reassemblyBytes r" "reassemblyCount r1 = reassemblyCount r"
    "reassemblyParts r1 = reassemblyParts r"
    by (simp_all add: r1_def updateRTT_def Let_def)
  show ?case
  proof (cases "ackedBy c base bitmap f")
    case True
    then have "consumeLoop c base bitmap now (f # out) r a rem
      = consumeLoop c base bitmap now out r1 (a + plen f) rem"
      by (simp add: r1_def Let_def)
    with Cons.IH [of r1 "a + plen f" rem] True r1 show ?thesis by (simp add: Let_def split: prod.splits)
  next
    case False
    with Cons.IH [of r a "rem @ [f]"] show ?thesis by (simp add: Let_def split: prod.splits)
  qed
qed

lemma consumeFragmentAck_frame:
  shows "channels (consumeFragmentAck r c base bitmap now) = channels r"
    and "ackChannels (consumeFragmentAck r c base bitmap now) = ackChannels r"
    and "reassemblyBytes (consumeFragmentAck r c base bitmap now) = reassemblyBytes r"
    and "reassemblyCount (consumeFragmentAck r c base bitmap now) = reassemblyCount r"
    and "reassemblyParts (consumeFragmentAck r c base bitmap now) = reassemblyParts r"
    and "outbound (consumeFragmentAck r c base bitmap now) =
      filter (\<lambda>f. \<not> (base \<noteq> 0 \<and> bitmap \<noteq> 0 \<and> ackedBy c base bitmap f)) (outbound r)"
    and "queuedBytes (consumeFragmentAck r c base bitmap now) = queuedBytes r
      - (if base \<noteq> 0 \<and> bitmap \<noteq> 0 then osum (ackedBy c base bitmap) (outbound r) else 0)"
    and "bytesInFlight (consumeFragmentAck r c base bitmap now) = bytesInFlight r
      - (if base \<noteq> 0 \<and> bitmap \<noteq> 0 then osum (ackedBy c base bitmap) (outbound r) else 0)"
  using consumeLoop_frame [of c base bitmap now "outbound r" r 0 "[]"]
  by (auto simp: consumeFragmentAck_def growCwnd_def Let_def split: prod.splits)

lemma cc_inv_consumeFragmentAck:
  assumes "cc_inv r"
  shows "cc_inv (consumeFragmentAck r c base bitmap now)"
proof -
  obtain r' a' rem' where l: "consumeLoop c base bitmap now (outbound r) r 0 [] = (r', a', rem')"
    by (metis prod_cases3)
  have "0 \<le> a'" using consumeLoop_frame [of c base bitmap now "outbound r" r 0 "[]"] osum_nonneg
    by (auto simp: l)
  moreover have "cc_inv (r'\<lparr>outbound := rem'\<rparr>)"
    using cc_inv_consumeLoop [OF assms, of c base bitmap now "outbound r" 0 "[]"]
    by (simp add: l cc_inv_def)
  ultimately show ?thesis
    using assms cc_inv_growCwnd [of "r'\<lparr>outbound := rem'\<rparr>" a'] by (auto simp: consumeFragmentAck_def l Let_def)
qed

lemma osum_partition: "osum P out + osum Q (filter (\<lambda>f. \<not> P f) out) = osum Q out"
  if "\<And>f. f \<in> set out \<Longrightarrow> P f \<Longrightarrow> Q f"
  using that by (induction out) auto

lemma out_inv_consumeFragmentAck:
  assumes "out_inv r"
  shows "out_inv (consumeFragmentAck r c base bitmap now)"
proof (cases "base \<noteq> 0 \<and> bitmap \<noteq> 0")
  case True
  let ?P = "ackedBy c base bitmap"
  have t: "osum ?P (outbound r) + osum (\<lambda>_. True) (filter (\<lambda>f. \<not> ?P f) (outbound r))
      = osum (\<lambda>_. True) (outbound r)"
    by (rule osum_partition) simp
  have i: "osum ?P (outbound r) + osum inFlight (filter (\<lambda>f. \<not> ?P f) (outbound r))
      = osum inFlight (outbound r)"
    by (rule osum_partition) (simp add: ackedBy_def)
  have "distinct (map fkey (filter (\<lambda>f. \<not> ?P f) (outbound r)))"
    using assms by (simp add: out_inv_def distinct_map_filter)
  then show ?thesis
    using assms t i osum_nonneg [of ?P "outbound r"] True
    by (simp add: out_inv_def consumeFragmentAck_frame fragment_of_def)
next
  case False
  then have "consumeFragmentAck r c base bitmap now = r"
    by (auto simp: consumeFragmentAck_def)
  with assms show ?thesis by simp
qed

section \<open>Queueing\<close>

text \<open>The fragments of a message: pieces of \<open>reliableMSS\<close> bytes, the last one shorter.\<close>

definition chunk :: "bytes \<Rightarrow> nat \<Rightarrow> bytes" where
  "chunk m i = seg (i * reliableMSS) (min (i * reliableMSS + reliableMSS) (length m)) m"

lemma chunk_take: "take (k * reliableMSS) m @ chunk m k = take (Suc k * reliableMSS) m"
proof -
  have "take (min (a + n) (length m) - a) (drop a m) = take n (drop a m)" for a n :: nat
    by (cases "a + n \<le> length m") (simp_all add: min_def)
  then have "chunk m k = take reliableMSS (drop (k * reliableMSS) m)"
    by (simp only: chunk_def seg_def)
  then show ?thesis by (simp only: take_add [symmetric] mult_Suc add.commute)
qed

lemma concat_chunks_take: "concat (map (chunk m) [0..<k]) = take (k * reliableMSS) m"
proof (induction k)
  case 0
  show ?case by simp
next
  case (Suc k)
  have "concat (map (chunk m) [0..<Suc k]) = take (k * reliableMSS) m @ chunk m k"
    using Suc by simp
  then show ?case by (simp only: chunk_take)
qed

lemma fragmentCountOf_bounds:
  shows "sz \<le> fragmentCountOf sz * reliableMSS"
    and "0 < sz \<Longrightarrow> 0 < fragmentCountOf sz"
    and "sz \<le> 1024 * 1064 \<Longrightarrow> fragmentCountOf sz \<le> 1024"
proof -
  show "sz \<le> fragmentCountOf sz * reliableMSS"
    unfolding fragmentCountOf_def by simp
  show "0 < sz \<Longrightarrow> 0 < fragmentCountOf sz"
    unfolding fragmentCountOf_def by (simp add: div_greater_zero_iff)
  show "sz \<le> 1024 * 1064 \<Longrightarrow> fragmentCountOf sz \<le> 1024"
    unfolding fragmentCountOf_def by simp
qed

lemma concat_chunks: "concat (map (chunk m) [0..<fragmentCountOf (length m)]) = m"
  using fragmentCountOf_bounds(1) [of "length m"] by (simp add: concat_chunks_take)

lemma chunk_nonempty: "i < fragmentCountOf (length m) \<Longrightarrow> chunk m i \<noteq> []"
  by (auto simp: chunk_def seg_def fragmentCountOf_def)

lemma chunk_length: "length (chunk m i) \<le> 1064"
  by (simp add: chunk_def)

lemma newFragment_simps [simp]:
  "fChannel (newFragment c s n m i) = c" "fSequence (newFragment c s n m i) = s"
  "fIndex (newFragment c s n m i) = of_nat i" "fCount (newFragment c s n m i) = of_nat n"
  "fPayload (newFragment c s n m i) = chunk m i" "transmissions (newFragment c s n m i) = 0"
  by (simp_all add: newFragment_def chunk_def)

definition newFragments :: "uint16 \<Rightarrow> uint64 \<Rightarrow> bytes \<Rightarrow> reliableFragment list" where
  "newFragments c nxt m = map (\<lambda>i. newFragment c (nxt + 1 + of_nat i) (fragmentCountOf (length m)) m i)
     [0..<fragmentCountOf (length m)]"

lemma queueFragments_eq:
  "queueFragments c m n [i..<n] nxt out =
     (nxt + of_nat (n - i), out @ map (\<lambda>j. newFragment c (nxt + 1 + of_nat (j - i)) n m j) [i..<n])"
proof (induction "n - i" arbitrary: i nxt out)
  case 0
  then show ?case by simp
next
  case (Suc d)
  then have lt: "i < n" by simp
  have "map (\<lambda>j. newFragment c (nxt + 1 + 1 + of_nat (j - Suc i)) n m j) [Suc i..<n]
      = map (\<lambda>j. newFragment c (nxt + 1 + of_nat (j - i)) n m j) [Suc i..<n]"
    by (rule map_cong) (auto simp: Suc_diff_Suc le_Suc_eq of_nat_diff algebra_simps)
  moreover have "nxt + 1 + of_nat (n - Suc i) = nxt + (of_nat (n - i) :: uint64)"
    using lt by (simp add: of_nat_diff)
  ultimately show ?case
    using Suc.hyps(1) [of "Suc i"] Suc.hyps(2) lt by (simp add: upt_conv_Cons)
qed

lemma queueFragments_all:
  "queueFragments c m (fragmentCountOf (length m)) [0..<fragmentCountOf (length m)] nxt out =
     (nxt + of_nat (fragmentCountOf (length m)), out @ newFragments c nxt m)"
  by (simp add: queueFragments_eq newFragments_def)

lemma canQueue_OK:
  assumes "canQueue r c sz = Inr ()"
  shows "snd (reliableChannelOrdered c)" "0 < sz" "sz \<le> 1024 * 1064"
    "int sz \<le> maxQueuedReliableBytes - queuedBytes r"
    "\<And>st. channels (ensureChannel r c) c = Some st \<Longrightarrow>
       unat (nextFragmentSequence st) + fragmentCountOf sz < 2 ^ 64"
proof -
  show "snd (reliableChannelOrdered c)" "0 < sz" "sz \<le> 1024 * 1064"
    "int sz \<le> maxQueuedReliableBytes - queuedBytes r"
    using assms by (auto simp: canQueue_def split: if_splits)
  fix st assume st: "channels (ensureChannel r c) c = Some st"
  have n: "fragmentCountOf sz \<le> 1024" using \<open>sz \<le> 1024 * 1064\<close> by (rule fragmentCountOf_bounds)
  show "unat (nextFragmentSequence st) + fragmentCountOf sz < 2 ^ 64"
  proof (cases "channels r c")
    case None
    with st have "nextFragmentSequence st = 0"
      by (auto simp: ensureChannel_def addChannel_def newChannel_def)
    with n show ?thesis by simp
  next
    case (Some st')
    with st have "st' = st" by (simp add: ensureChannel_def)
    with Some assms have le: "\<not> of_nat (fragmentCountOf sz) > (- 1) - nextFragmentSequence st"
      by (auto simp: canQueue_def split: if_splits)
    have "unat (of_nat (fragmentCountOf sz) :: uint64) = fragmentCountOf sz"
      using n by (simp add: unat_of_nat)
    moreover have "unat ((- 1 :: uint64) - nextFragmentSequence st)
        = 2 ^ 64 - 1 - unat (nextFragmentSequence st)"
      by (subst unat_sub) (simp_all add: unsigned_minus_1_eq_mask mask_eq_exp_minus_1)
    ultimately have "fragmentCountOf sz \<le> 2 ^ 64 - 1 - unat (nextFragmentSequence st)"
      using le by (simp add: not_less word_le_nat_alt)
    moreover have "unat (nextFragmentSequence st) < 2 ^ 64"
      using unsigned_less [of "nextFragmentSequence st", where 'a = nat] by simp
    ultimately show ?thesis by simp
  qed
qed

lemma queue_OK:
  assumes "queue r c m = (Inr (), r')"
  obtains st where "canQueue r c (length m) = Inr ()" "channels (ensureChannel r c) c = Some st"
    "r' = (putChannel (ensureChannel r c) c (st\<lparr>nextFragmentSequence :=
              nextFragmentSequence st + of_nat (fragmentCountOf (length m))\<rparr>))
            \<lparr>outbound := outbound r @ newFragments c (nextFragmentSequence st) m,
             queuedBytes := queuedBytes r + int (length m)\<rparr>"
proof -
  obtain st where st: "channels (ensureChannel r c) c = Some st"
    using ensureChannel_present by blast
  have ok: "canQueue r c (length m) = Inr ()"
    using assms by (auto simp: queue_def split: sum.splits)
  have "r' = (putChannel (ensureChannel r c) c (st\<lparr>nextFragmentSequence :=
              nextFragmentSequence st + of_nat (fragmentCountOf (length m))\<rparr>))
            \<lparr>outbound := outbound r @ newFragments c (nextFragmentSequence st) m,
             queuedBytes := queuedBytes r + int (length m)\<rparr>"
    using assms ok st by (simp add: queue_def queueFragments_all putChannel_def Let_def)
  with st ok that show ?thesis by blast
qed

lemma queue_refused: "queue r c m = (Inl e, r') \<Longrightarrow> r' = r"
  by (auto simp: queue_def Let_def split: sum.splits prod.splits)

lemma unat_nxt_plus:
  assumes "unat (nxt :: uint64) + n < 2 ^ 64" "i < n"
  shows "unat (nxt + 1 + of_nat i) = unat nxt + 1 + i"
proof -
  have "nxt + 1 + of_nat i = of_nat (unat nxt + 1 + i)" by simp
  also have "unat \<dots> = unat nxt + 1 + i"
    using assms by (subst unat_of_nat) simp
  finally show ?thesis .
qed

lemma newFragments_seq:
  assumes "unat nxt + fragmentCountOf (length m) < 2 ^ 64" "f \<in> set (newFragments c nxt m)"
  obtains i where "i < fragmentCountOf (length m)"
    "f = newFragment c (nxt + 1 + of_nat i) (fragmentCountOf (length m)) m i"
    "unat (fSequence f) = unat nxt + 1 + i"
  using assms unat_nxt_plus [OF assms(1)] by (auto simp: newFragments_def)

lemma osum_newFragments: "osum (\<lambda>_. True) (newFragments c nxt m) = int (length m)"
proof -
  have "int (length (concat (map (chunk m) [0..<k])))
      = osum (\<lambda>_. True) (map (\<lambda>i. newFragment c (nxt + 1 + of_nat i) n m i) [0..<k])" for n k
    by (induction k) simp_all
  from this [of "fragmentCountOf (length m)" "fragmentCountOf (length m)"] show ?thesis
    unfolding newFragments_def concat_chunks by simp
qed

lemma osum_newFragments_inFlight: "osum inFlight (newFragments c nxt m) = 0"
  by (simp add: osum_def newFragments_def filter_map comp_def)

lemma distinct_newFragments:
  assumes "unat nxt + fragmentCountOf (length m) < 2 ^ 64"
  shows "distinct (map fkey (newFragments c nxt m))"
proof -
  have "inj_on (\<lambda>i. (c, nxt + 1 + of_nat i :: uint64)) {0..<fragmentCountOf (length m)}"
  proof (rule inj_onI)
    fix i j assume ij: "i \<in> {0..<fragmentCountOf (length m)}" "j \<in> {0..<fragmentCountOf (length m)}"
      and eq: "(c, nxt + 1 + of_nat i) = (c, nxt + 1 + of_nat j)"
    have e: "nxt + 1 + of_nat i = nxt + 1 + of_nat j" using eq by (rule Pair_inject)
    then show "i = j" using ij unat_nxt_plus [OF assms] by (metis add_left_cancel atLeastLessThan_iff)
  qed
  then show ?thesis by (simp add: newFragments_def comp_def fkey_def distinct_map)
qed

lemma chan_inv_queue:
  assumes "chan_inv r" "queue r c m = (Inr (), r')"
  shows "chan_inv r'"
proof -
  obtain st where st: "channels (ensureChannel r c) c = Some st" and r': "r' = (putChannel (ensureChannel r c) c (st\<lparr>nextFragmentSequence :=
              nextFragmentSequence st + of_nat (fragmentCountOf (length m))\<rparr>))
            \<lparr>outbound := outbound r @ newFragments c (nextFragmentSequence st) m,
             queuedBytes := queuedBytes r + int (length m)\<rparr>"
    using assms(2) by (rule queue_OK)
  have "chan_inv (ensureChannel r c)"
    using assms(1) ensureChannel_inv(1) [of r "\<lambda>_. 0"] by simp
  then show ?thesis
    using st by (simp add: r' chan_inv_def putChannel_def) blast
qed

lemma out_inv_queue:
  assumes inv: "out_inv r" and q: "queue r c m = (Inr (), r')"
  shows "out_inv r'"
proof -
  obtain st where ok: "canQueue r c (length m) = Inr ()"
    and st: "channels (ensureChannel r c) c = Some st"
    and r': "r' = (putChannel (ensureChannel r c) c (st\<lparr>nextFragmentSequence :=
              nextFragmentSequence st + of_nat (fragmentCountOf (length m))\<rparr>))
            \<lparr>outbound := outbound r @ newFragments c (nextFragmentSequence st) m,
             queuedBytes := queuedBytes r + int (length m)\<rparr>"
    using q by (rule queue_OK)
  let ?next = "nextFragmentSequence st" and ?n = "fragmentCountOf (length m)"
  have fit: "unat ?next + ?n < 2 ^ 64" using canQueue_OK(5) [OF ok st] .
  have next': "unat (?next + of_nat ?n) = unat ?next + ?n"
  proof -
    have "?next + of_nat ?n = of_nat (unat ?next + ?n)" by simp
    also have "unat \<dots> = unat ?next + ?n" using fit by (subst unat_of_nat) simp
    finally show ?thesis .
  qed
  have old: "fSequence f \<le> ?next" if "f \<in> set (outbound r)" "fChannel f = c" for f
    using inv that st by (auto simp: out_inv_def fragment_of_def ensureChannel_def)
  have "fragment_of r' f" if f: "f \<in> set (outbound r)" for f
  proof (cases "fChannel f = c")
    case True
    with old [OF f] next' inv f show ?thesis
      by (auto simp: fragment_of_def r' word_le_nat_alt out_inv_def)
  next
    case False
    with inv f show ?thesis
      by (auto simp: fragment_of_def r' out_inv_def ensureChannel_def addChannel_def split: option.splits)
  qed
  moreover have "fragment_of r' f" if "f \<in> set (newFragments c ?next m)" for f
    using fit that
  proof (rule newFragments_seq)
    fix i assume "i < ?n" "f = newFragment c (?next + 1 + of_nat i) ?n m i"
      "unat (fSequence f) = unat ?next + 1 + i"
    moreover from this have "fSequence f \<noteq> 0" by (metis add_is_0 one_neq_zero unat_0)
    ultimately show "fragment_of r' f"
      using next' by (simp add: fragment_of_def r' word_le_nat_alt)
  qed
  moreover have "fkey ` set (outbound r) \<inter> fkey ` set (newFragments c ?next m) = {}"
  proof -
    have False if "f \<in> set (outbound r)" "g \<in> set (newFragments c ?next m)" "fkey f = fkey g" for f g
      using fit that(2)
    proof (rule newFragments_seq)
      fix i assume "g = newFragment c (?next + 1 + of_nat i) ?n m i"
        "unat (fSequence g) = unat ?next + 1 + i"
      with that old [of f] show False by (auto simp: fkey_def word_le_nat_alt)
    qed
    then show ?thesis by blast
  qed
  ultimately show ?thesis
    using inv canQueue_OK(4) [OF ok] distinct_newFragments [OF fit]
    by (auto simp: out_inv_def r' osum_newFragments osum_newFragments_inFlight)
qed

section \<open>Committing\<close>

lemma advance_frame [simp]:
  "channels (advance r res) = channels r" "outbound (advance r res) = outbound r"
  "ackChannels (advance r res) = ackChannels r" "queuedBytes (advance r res) = queuedBytes r"
  "bytesInFlight (advance r res) = bytesInFlight r" "cwnd (advance r res) = cwnd r"
  "ssthresh (advance r res) = ssthresh r" "rto (advance r res) = rto r"
  "srtt (advance r res) = srtt r" "rttvar (advance r res) = rttvar r"
  "reassemblyBytes (advance r res) = reassemblyBytes r"
  "reassemblyCount (advance r res) = reassemblyCount r"
  "reassemblyParts (advance r res) = reassemblyParts r"
  by (simp_all add: advance_def split: reliableReservation.splits)

lemma clearAckDirty_frame [simp]:
  "outbound (clearAckDirty r c) = outbound r" "ackChannels (clearAckDirty r c) = ackChannels r"
  "queuedBytes (clearAckDirty r c) = queuedBytes r"
  "bytesInFlight (clearAckDirty r c) = bytesInFlight r" "cwnd (clearAckDirty r c) = cwnd r"
  "ssthresh (clearAckDirty r c) = ssthresh r" "rto (clearAckDirty r c) = rto r"
  "srtt (clearAckDirty r c) = srtt r" "rttvar (clearAckDirty r c) = rttvar r"
  "reassemblyBytes (clearAckDirty r c) = reassemblyBytes r"
  "reassemblyCount (clearAckDirty r c) = reassemblyCount r"
  "reassemblyParts (clearAckDirty r c) = reassemblyParts r"
  by (simp_all add: clearAckDirty_def)

lemma clearAckDirty_channels:
  "channels (clearAckDirty r c) x = (if x = c then map_option (\<lambda>st. st\<lparr>ackDirty := False\<rparr>) (channels r x)
     else channels r x)"
  by (simp add: clearAckDirty_def)

lemma chan_inv_clearAckDirty [simp]: "chan_inv (clearAckDirty r c) = chan_inv r"
proof -
  have "dom (channels (clearAckDirty r c)) = dom (channels r)"
    by (auto simp: clearAckDirty_channels dom_def split: if_splits)
  then show ?thesis by (simp add: chan_inv_def)
qed

lemma fragment_of_clearAckDirty [simp]: "fragment_of (clearAckDirty r c) f = fragment_of r f"
  by (auto simp: fragment_of_def clearAckDirty_channels)

lemma fragment_of_advance [simp]: "fragment_of (advance r res) f = fragment_of r f"
  by (simp add: fragment_of_def)

lemma chsum_clearAckDirty:
  assumes "chan_inv r" "\<And>st. f (st\<lparr>ackDirty := False\<rparr>) = f st"
  shows "chsum f (clearAckDirty r c) = chsum f r"
  unfolding chsum_def clearAckDirty_frame
proof (intro arg_cong [where f = sum_list] map_cong refl)
  fix x assume "x \<in> set (ackChannels r)"
  then obtain st where "channels r x = Some st" using assms(1) by (auto simp: chan_inv_mem)
  then show "f (the (channels (clearAckDirty r c) x)) = f (the (channels r x))"
    using assms(2) by (auto simp: clearAckDirty_channels)
qed

lemma cc_inv_commit: "cc_inv r \<Longrightarrow> cc_inv (commit r res)"
  by (auto simp: commit_def commitNew_def commitRetransmit_def cc_inv_def Let_def
      split: reliableReservation.splits)

lemma chan_inv_commit: "chan_inv (commit r res) = chan_inv r"
  by (auto simp: commit_def commitNew_def commitRetransmit_def Let_def chan_inv_def [of "advance _ _"]
      chan_inv_def split: reliableReservation.splits)
    (auto simp: chan_inv_def clearAckDirty_channels dom_def split: if_splits)

lemma map_fkey_updateFragment:
  "(\<And>g. fkey (upd g) = fkey g) \<Longrightarrow> map fkey (updateFragment f upd out) = map fkey out"
  by (simp add: updateFragment_def)

lemma osum_updateFragment_same:
  assumes "\<And>g. fPayload (upd g) = fPayload g" "\<And>g. g \<in> set out \<Longrightarrow> sameFragment f g \<Longrightarrow> P (upd g) = P g"
  shows "osum P (updateFragment f upd out) = osum P out"
  using assms(2) by (induction out) (auto simp: updateFragment_def assms(1))

lemma osum_updateFragment_new:
  assumes "distinct (map fkey out)" "f \<in> set out" "transmissions f = 0"
    "\<And>g. fPayload (upd g) = fPayload g" "\<And>g. 0 < transmissions (upd g)"
  shows "osum inFlight (updateFragment f upd out) = osum inFlight out + plen f"
  using assms(1,2)
proof (induction out)
  case Nil
  then show ?case by simp
next
  case (Cons g out)
  show ?case
  proof (cases "f = g")
    case True
    then have "\<And>h. h \<in> set out \<Longrightarrow> \<not> sameFragment f h"
      using Cons.prems by (auto simp: sameFragment_def fkey_def image_iff)
    then have "updateFragment f upd out = out"
      by (auto simp: updateFragment_def intro: map_idI)
    with True assms show ?thesis by (simp add: updateFragment_def sameFragment_def)
  next
    case False
    then have "f \<in> set out" "fkey g \<notin> fkey ` set out" using Cons.prems by auto
    then have "\<not> sameFragment f g" by (auto simp: sameFragment_def fkey_def image_iff)
    moreover have "osum inFlight (updateFragment f upd out) = osum inFlight out + plen f"
      using Cons False by simp
    ultimately show ?thesis by (simp add: updateFragment_def)
  qed
qed

text \<open>A reservation that \<open>nextSend\<close> made on this very state.\<close>

definition fresh_reservation :: "reliableTransport \<Rightarrow> reliableReservation \<Rightarrow> bool" where
  "fresh_reservation r res =
     (case res of
        ReservationNew f i now \<Rightarrow> f \<in> set (outbound r) \<and> transmissions f = 0
      | ReservationRetransmit f i now \<Rightarrow> f \<in> set (outbound r) \<and> transmissions f \<noteq> 0
      | ReservationACK c i \<Rightarrow> c \<in> set (ackChannels r))"

lemma nextFragment_SomeD:
  assumes "nextFragment r P = Some (f, i)"
  shows "f \<in> set (outbound r)" "P f" "i < length (ackChannels r)" "ackChannels r ! i = fChannel f"
proof -
  obtain off where off: "off < length (ackChannels r)" "i = (dataCursor r + off) mod length (ackChannels r)"
    and f: "List.find (\<lambda>g. fChannel g = ackChannels r ! i \<and> P g) (outbound r) = Some f"
    using first_some_SomeD [OF assms [unfolded nextFragment_def]]
    by (auto simp: Let_def Some_eq_map_option)
  show "f \<in> set (outbound r)" "P f" "ackChannels r ! i = fChannel f"
    using f by (auto simp: find_Some_iff)
  show "i < length (ackChannels r)" using off by (metis mod_less_divisor gr_implies_not0 not_gr_zero)
qed

lemma nextAck_SomeD:
  assumes "nextAck r = Some (p, res)"
  obtains c i where "c \<in> set (ackChannels r)" "res = ReservationACK c i"
    "p = \<lparr>Channel = c, FragmentSequence = 0, FragmentIndex = 0, FragmentCount = 0,
      FragmentAckBase = highest (received (the (channels r c))),
      FragmentAckBitmap = seen (received (the (channels r c))), Payload = []\<rparr>"
proof -
  have m: "Some (p, res) \<in> set (map (\<lambda>offset.
         let index = (ackCursor r + offset) mod length (ackChannels r);
             channel = ackChannels r ! index;
             state = the (channels r channel)
         in if \<not> ackDirty state then None
            else Some (\<lparr>Channel = channel, FragmentSequence = 0, FragmentIndex = 0,
                   FragmentCount = 0, FragmentAckBase = highest (received state),
                   FragmentAckBitmap = seen (received state), Payload = []\<rparr>,
                 ReservationACK channel index)) [0..<length (ackChannels r)])"
    using assms unfolding nextAck_def by (rule first_some_SomeD)
  then obtain off where off: "off < length (ackChannels r)"
    and "Some (p, res) = (let index = (ackCursor r + off) mod length (ackChannels r);
             channel = ackChannels r ! index;
             state = the (channels r channel)
         in if \<not> ackDirty state then None
            else Some (\<lparr>Channel = channel, FragmentSequence = 0, FragmentIndex = 0,
                   FragmentCount = 0, FragmentAckBase = highest (received state),
                   FragmentAckBitmap = seen (received state), Payload = []\<rparr>,
                 ReservationACK channel index))"
    by auto
  moreover have "(ackCursor r + off) mod length (ackChannels r) < length (ackChannels r)"
    using off by (metis mod_less_divisor gr_implies_not0 not_gr_zero)
  ultimately show ?thesis
    using that [of "ackChannels r ! ((ackCursor r + off) mod length (ackChannels r))"
        "(ackCursor r + off) mod length (ackChannels r)"]
    by (auto simp: Let_def split: if_splits)
qed

lemma nextPacket_SomeD:
  assumes "nextPacket r now = Some (p, res)"
  obtains f i where "f \<in> set (outbound r)" "p = packetFor r f"
    "res = ReservationNew f i now \<and> newEligible r f \<or>
     res = ReservationRetransmit f i now \<and> retransmitEligible r now f"
  using assms nextFragment_SomeD [of r "retransmitEligible r now"]
    nextFragment_SomeD [of r "newEligible r"]
  unfolding nextPacket_def by (fastforce split: option.splits)

lemma nextSend_cases:
  assumes "nextSend r now = Some (p, res)"
  shows "nextAck r = Some (p, res) \<or> nextPacket r now = Some (p, res)"
  using assms by (auto simp: nextSend_def split: if_splits option.splits)

lemma nextSend_fresh:
  assumes "nextSend r now = Some (p, res)"
  shows "fresh_reservation r res"
  using nextSend_cases [OF assms]
  by (auto simp: fresh_reservation_def newEligible_def retransmitEligible_def
      elim!: nextAck_SomeD nextPacket_SomeD split: if_splits)

lemma out_inv_frame:
  "outbound r' = outbound r \<Longrightarrow> queuedBytes r' = queuedBytes r \<Longrightarrow>
    bytesInFlight r' = bytesInFlight r \<Longrightarrow> (\<And>f. fragment_of r' f = fragment_of r f) \<Longrightarrow>
    out_inv r' = out_inv r"
  by (simp add: out_inv_def)

lemma fragment_of_key:
  "fChannel g = fChannel f \<Longrightarrow> fSequence g = fSequence f \<Longrightarrow> fragment_of r g = fragment_of r f"
  by (simp add: fragment_of_def)

lemma out_inv_map:
  assumes "out_inv r"
    and "\<And>g. fkey (upd g) = fkey g" "\<And>g. fPayload (upd g) = fPayload g"
    and "osum inFlight (map upd (outbound r)) = osum inFlight (outbound r) + d"
  shows "out_inv (r\<lparr>outbound := map upd (outbound r), bytesInFlight := bytesInFlight r + d\<rparr>)"
proof -
  have "osum (\<lambda>_. True) (map upd out) = osum (\<lambda>_. True) out" for out
    by (induction out) (simp_all add: assms(3))
  moreover have "map fkey (map upd (outbound r)) = map fkey (outbound r)" by (simp add: assms(2))
  moreover have "fragment_of (r\<lparr>outbound := map upd (outbound r),
      bytesInFlight := bytesInFlight r + d\<rparr>) (upd g) = fragment_of r g" for g
    using assms(2) [of g] by (auto simp: fragment_of_def fkey_def)
  ultimately show ?thesis
    using assms(1,4) by (auto simp: out_inv_def simp del: map_map)
qed

lemma out_inv_commitNew:
  assumes "out_inv r" "f \<in> set (outbound r)" "transmissions f = 0"
  shows "out_inv (commitNew r f now)"
  unfolding commitNew_def updateFragment_def
  using osum_updateFragment_new [OF _ assms(2,3), of "markTransmitted now"] assms(1)
  by (intro out_inv_map) (auto simp: markTransmitted_def fkey_def updateFragment_def out_inv_def)

lemma out_inv_commitRetransmit:
  assumes "out_inv r" "f \<in> set (outbound r)" "transmissions f \<noteq> 0"
  shows "out_inv (commitRetransmit r f now)"
proof -
  define r1 where "r1 = (if timeoutPending f then r
         else r\<lparr>outbound := map (\<lambda>f. if expired r now f then f\<lparr>timeoutPending := True\<rparr> else f)
                  (outbound r),
                ssthresh := max (cwnd r div 2) minimumReliableCwnd,
                cwnd := minimumReliableCwnd,
                rto := min (rto r * 2) maximumReliableRTO\<rparr>)"
  have "out_inv r1"
  proof (cases "timeoutPending f")
    case False
    let ?upd = "\<lambda>f. if expired r now f then f\<lparr>timeoutPending := True\<rparr> else f"
    have "osum inFlight (map ?upd out) = osum inFlight out" for out
      by (induction out) auto
    then have "out_inv (r\<lparr>outbound := map ?upd (outbound r), bytesInFlight := bytesInFlight r + 0\<rparr>)"
      using assms(1) by (intro out_inv_map) (auto simp: fkey_def)
    then show ?thesis
      using False by (simp add: r1_def out_inv_def fragment_of_def)
  qed (simp add: r1_def assms(1))
  moreover have same: "0 < transmissions g" if g: "g \<in> set (outbound r1)" "sameFragment f g" for g
  proof -
    obtain h where h: "h \<in> set (outbound r)" "fkey h = fkey g" "transmissions h = transmissions g"
      using g(1) by (auto simp: r1_def fkey_def split: if_splits)
    have "fkey h = fkey f" using g(2) h(2) by (simp add: sameFragment_def fkey_def)
    then have "h = f"
      using assms(1,2) h(1) by (auto simp: out_inv_def distinct_map dest: inj_onD)
    with h(3) assms(3) show ?thesis by simp
  qed
  moreover have "osum inFlight (updateFragment f (\<lambda>f. markTransmitted now (f\<lparr>timeoutPending := False\<rparr>))
      (outbound r1)) = osum inFlight (outbound r1)"
    by (rule osum_updateFragment_same) (auto simp: markTransmitted_def dest: same)
  ultimately have inv: "out_inv (r1\<lparr>outbound := updateFragment f
        (\<lambda>f. markTransmitted now (f\<lparr>timeoutPending := False\<rparr>)) (outbound r1),
      bytesInFlight := bytesInFlight r1 + 0\<rparr>)" (is "out_inv ?r2")
    unfolding updateFragment_def by (intro out_inv_map) (auto simp: markTransmitted_def fkey_def)
  have "out_inv (commitRetransmit r f now) = out_inv ?r2"
    unfolding commitRetransmit_def r1_def [symmetric] Let_def
    by (rule out_inv_frame) (simp_all add: fragment_of_def)
  with inv show ?thesis by simp
qed

lemma out_inv_commit:
  assumes "out_inv r" "fresh_reservation r res"
  shows "out_inv (commit r res)"
proof -
  have frame: "out_inv (clearAckDirty (advance r' res') c) = out_inv r'" for r' res' c
    by (rule out_inv_frame) simp_all
  show ?thesis
    using assms out_inv_commitNew out_inv_commitRetransmit
    by (cases res) (auto simp: commit_def frame fresh_reservation_def)
qed

section \<open>Reassembly\<close>

definition asm_ok :: "reliableAssembly \<Rightarrow> bool" where
  "asm_ok a \<longleftrightarrow> distinct (map fst (aFragments a)) \<and>
     aBytes a = total (\<lambda>p. int (length p)) (aFragments a)"

definition chst_ok :: "reliableChannel \<Rightarrow> bool" where
  "chst_ok st \<longleftrightarrow> distinct (map fst (reassemblies st)) \<and> (\<forall>(k, a) \<in> set (reassemblies st). asm_ok a)"

abbreviation parts :: "reliableAssembly \<Rightarrow> int" where
  "parts a \<equiv> int (length (aFragments a))"

definition rbytes :: "reliableChannel \<Rightarrow> int" where "rbytes st = total aBytes (reassemblies st)"
definition rcount :: "reliableChannel \<Rightarrow> int" where "rcount st = total (\<lambda>_. 1) (reassemblies st)"
definition rparts :: "reliableChannel \<Rightarrow> int" where "rparts st = total parts (reassemblies st)"

lemmas rsums = rbytes_def rcount_def rparts_def

definition re_inv :: "reliableTransport \<Rightarrow> bool" where
  "re_inv r \<longleftrightarrow> (\<forall>c st. channels r c = Some st \<longrightarrow> chst_ok st) \<and>
     reassemblyBytes r = chsum rbytes r \<and> reassemblyCount r = chsum rcount r \<and>
     reassemblyParts r = chsum rparts r \<and> reassemblyBytes r \<le> maxReassemblyReliableBytes \<and>
     reassemblyCount r \<le> maxReliableAssemblies \<and> reassemblyParts r \<le> maxReliableFragments"

text \<open>
  While \<open>receive\<close> works on a channel, the counters and the channel move together: their
  difference, which the other channels account for, stays the same.
\<close>

definition balance :: "reliableTransport \<Rightarrow> reliableChannel \<Rightarrow> int \<times> int \<times> int" where
  "balance r st = (reassemblyBytes r - rbytes st, reassemblyCount r - rcount st,
     reassemblyParts r - rparts st)"

definition core ::
  "reliableTransport \<Rightarrow> (uint16 \<Rightarrow> reliableChannel option) \<times> uint16 list \<times> reliableFragment list \<times>
     int \<times> int \<times> int \<times> int \<times> duration \<times> duration \<times> duration" where
  "core r = (channels r, ackChannels r, outbound r, queuedBytes r, bytesInFlight r, cwnd r,
     ssthresh r, rto r, srtt r, rttvar r)"

definition drains :: "reliableTransport \<Rightarrow> reliableChannel \<Rightarrow> reliableTransport \<Rightarrow> reliableChannel \<Rightarrow> bool" where
  "drains r st r' st' \<longleftrightarrow> balance r' st' = balance r st \<and> chst_ok st' \<and>
     reassemblyBytes r' \<le> reassemblyBytes r \<and> reassemblyCount r' \<le> reassemblyCount r \<and>
     reassemblyParts r' \<le> reassemblyParts r \<and>
     core r' = core r \<and>
     received st' = received st \<and> nextFragmentSequence st' = nextFragmentSequence st \<and>
     ackDirty st' = ackDirty st"

lemma asm_ok_nonneg: "asm_ok a \<Longrightarrow> 0 \<le> aBytes a"
  by (simp add: asm_ok_def total_nonneg)

lemma chst_okD: "chst_ok st \<Longrightarrow> map_of (reassemblies st) k = Some a \<Longrightarrow> asm_ok a"
  by (auto simp: chst_ok_def dest: map_of_SomeD)

lemma chst_ok_ackDirty [simp]: "chst_ok (st\<lparr>ackDirty := b\<rparr>) = chst_ok st"
  by (simp add: chst_ok_def)

lemma drains_refl: "chst_ok st \<Longrightarrow> drains r st r st"
  by (simp add: drains_def)

lemma drains_trans: "drains r st r' st' \<Longrightarrow> drains r' st' r'' st'' \<Longrightarrow> drains r st r'' st''"
  by (auto simp: drains_def)

lemma drains_delivered [simp]: "drains r st r' (st'\<lparr>nextDeliveredFragment := n\<rparr>) = drains r st r' st'"
  "drains r (st\<lparr>nextDeliveredFragment := n\<rparr>) r' st' = drains r st r' st'"
  by (simp_all add: drains_def balance_def rsums chst_ok_def)

lemma set_delete_subset: "set (AList.delete k m) \<subseteq> set m"
  by (induction m) auto

lemma set_update_subset: "set (AList.update k v m) \<subseteq> insert (k, v) (set m)"
  by (induction m) auto

lemma drains_removeAssembly:
  assumes ok: "chst_ok st" and rm: "removeAssembly r st k = (r', st')"
  shows "drains r st r' st'"
proof (cases "map_of (reassemblies st) k")
  case None
  with rm ok show ?thesis by (simp add: removeAssembly_def drains_refl)
next
  case (Some a)
  have d: "distinct (map fst (reassemblies st))" using ok by (simp add: chst_ok_def)
  have r': "r' = r\<lparr>reassemblyBytes := reassemblyBytes r - aBytes a,
      reassemblyCount := reassemblyCount r - 1, reassemblyParts := reassemblyParts r - parts a\<rparr>"
    and st': "st' = st\<lparr>reassemblies := AList.delete k (reassemblies st)\<rparr>"
    using rm Some by (auto simp: removeAssembly_def)
  have "chst_ok st'"
    using ok set_delete_subset [of k "reassemblies st"] by (auto simp: chst_ok_def st')
  then show ?thesis
    using asm_ok_nonneg [OF chst_okD [OF ok Some]]
    by (auto simp: drains_def balance_def rsums r' st' core_def total_delete [OF d Some])
qed

lemma removeAssembly_delivered [simp]:
  "nextDeliveredFragment (snd (removeAssembly r st k)) = nextDeliveredFragment st"
  by (simp add: removeAssembly_def split: option.splits)

lemma drains_deliverOrdered:
  "chst_ok st \<Longrightarrow> deliverOrdered c r st = (r', st', ds) \<Longrightarrow> drains r st r' st'"
proof (induction c r st arbitrary: r' st' ds rule: deliverOrdered.induct)
  case (1 c r st)
  show ?case
  proof (cases "\<exists>a. map_of (reassemblies st) (nextDeliveredFragment st) = Some a \<and> complete a")
    case False
    then have "(r', st', ds) = (r, st, [])"
      using "1.prems"(2) by (subst (asm) deliverOrdered.simps) (auto split: option.splits)
    then show ?thesis using "1.prems"(1) by (simp add: drains_refl)
  next
    case True
    then obtain a where a: "map_of (reassemblies st) (nextDeliveredFragment st) = Some a" "complete a"
      by blast
    obtain r1 st1 where rm: "removeAssembly r st (nextDeliveredFragment st) = (r1, st1)" by fastforce
    have d1: "drains r st r1 st1" using "1.prems"(1) rm by (rule drains_removeAssembly)
    let ?n = "nextDeliveredFragment st1 + ucast (aCount a)"
    show ?thesis
    proof (cases "?n < nextDeliveredFragment st1")
      case True
      then have "r' = r1" "st' = st1\<lparr>nextDeliveredFragment := 0\<rparr>"
        using "1.prems"(2) a rm by (subst (asm) deliverOrdered.simps, simp add: Let_def)+
      then show ?thesis using d1 by simp
    next
      case False
      obtain r2 st2 ds2 where rec: "deliverOrdered c r1 (st1\<lparr>nextDeliveredFragment := ?n\<rparr>) = (r2, st2, ds2)"
        by (metis prod_cases3)
      have "r' = r2" "st' = st2"
        using "1.prems"(2) a rm False rec by (subst (asm) deliverOrdered.simps, simp add: Let_def)+
      moreover have "chst_ok (st1\<lparr>nextDeliveredFragment := ?n\<rparr>)"
        using d1 by (simp add: drains_def chst_ok_def)
      then have "drains r1 (st1\<lparr>nextDeliveredFragment := ?n\<rparr>) r2 st2"
        using "1.IH" a rm False rec by auto
      ultimately show ?thesis using d1 by (auto intro: drains_trans)
    qed
  qed
qed

text \<open>Writing the channel back.\<close>

lemma re_inv_put:
  assumes inv: "re_inv r0" "chan_inv r0" and c: "channels r0 c = Some st0"
    and same: "channels r = channels r0" "ackChannels r = ackChannels r0"
    and bal: "balance r st = balance r0 st0" and ok: "chst_ok st"
    and bound: "reassemblyBytes r \<le> maxReassemblyReliableBytes"
      "reassemblyCount r \<le> maxReliableAssemblies" "reassemblyParts r \<le> maxReliableFragments"
  shows "re_inv (putChannel r c st)"
proof -
  have "chsum f (putChannel r c st) = chsum f r0 + f st - f st0" for f
    using chsum_put [of r0 c st0 f st] inv(2) c same by (simp add: chsum_def putChannel_def)
  then show ?thesis
    using inv(1) same bal ok bound by (auto simp: re_inv_def balance_def)
qed

text \<open>What receiving leaves alone: everything but one channel and the reassembly counters.\<close>

definition sender_part ::
  "reliableTransport \<Rightarrow> uint16 list \<times> reliableFragment list \<times> int \<times> int \<times> int \<times> int \<times> duration \<times>
     duration \<times> duration" where
  "sender_part r = (ackChannels r, outbound r, queuedBytes r, bytesInFlight r, cwnd r,
     ssthresh r, rto r, srtt r, rttvar r)"

definition recv_frame :: "uint16 \<Rightarrow> reliableTransport \<Rightarrow> reliableTransport \<Rightarrow> bool" where
  "recv_frame c r r' \<longleftrightarrow> sender_part r' = sender_part r \<and>
     (\<exists>st st'. channels r c = Some st \<and> channels r' = (channels r)(c \<mapsto> st') \<and>
        nextFragmentSequence st' = nextFragmentSequence st)"

lemma recv_frame_inv:
  assumes "recv_frame c r r'"
  shows "out_inv r' = out_inv r" and "cc_inv r' = cc_inv r" and "chan_inv r' = chan_inv r"
proof -
  obtain st st' where st: "channels r c = Some st" "channels r' = (channels r)(c \<mapsto> st')"
    "nextFragmentSequence st' = nextFragmentSequence st" and sp: "sender_part r' = sender_part r"
    using assms by (auto simp: recv_frame_def)
  have "fragment_of r' f = fragment_of r f" for f
    using st by (simp add: fragment_of_def)
  with sp show "out_inv r' = out_inv r" by (intro out_inv_frame) (simp_all add: sender_part_def)
  show "cc_inv r' = cc_inv r" using sp by (intro cc_inv_cong) (simp_all add: sender_part_def)
  have "dom (channels r') = dom (channels r)" using st by auto
  with sp show "chan_inv r' = chan_inv r" by (simp add: chan_inv_def sender_part_def)
qed

lemma re_inv_storeFragment:
  assumes inv: "re_inv r0" "chan_inv r0" and c: "channels r0 (Channel packet) = Some st0"
    and same: "channels r = channels r0" "sender_part r = sender_part r0"
    and bytes: "reassemblyBytes r = reassemblyBytes r0"
      "reassemblyBytes r + int (length (Payload packet)) \<le> maxReassemblyReliableBytes"
    and nparts: "reassemblyParts r = reassemblyParts r0" "reassemblyParts r < maxReliableFragments"
    and count: "reassemblyCount r = reassemblyCount r0 + (if map_of (reassemblies st0) start = None then 1 else 0)"
      "reassemblyCount r \<le> maxReliableAssemblies"
    and asm: "case map_of (reassemblies st0) start of
        None \<Rightarrow> aFragments assembly = [] \<and> aBytes assembly = 0 | Some a \<Rightarrow> assembly = a"
    and new: "map_of (aFragments assembly) (FragmentIndex packet) = None"
    and store: "storeFragment r st0 ordered packet start assembly = (r', ds)"
  shows "re_inv r' \<and> recv_frame (Channel packet) r0 r'"
proof -
  let ?len = "int (length (Payload packet))"
  define a1 where "a1 = assembly\<lparr>aFragments := AList.update (FragmentIndex packet) (Payload packet)
      (aFragments assembly), aBytes := aBytes assembly + ?len\<rparr>"
  define r1 where "r1 = r\<lparr>reassemblyBytes := reassemblyBytes r + ?len,
      reassemblyParts := reassemblyParts r + 1\<rparr>"
  define st1 where "st1 = st0\<lparr>received := snd (accept (received st0) (FragmentSequence packet)),
      reassemblies := AList.update start a1 (reassemblies st0)\<rparr>"
  have ok0: "chst_ok st0" using inv c by (simp add: re_inv_def)
  then have d0: "distinct (map fst (reassemblies st0))" by (simp add: chst_ok_def)
  have oka: "asm_ok assembly"
    using asm chst_okD [OF ok0] by (auto simp: asm_ok_def split: option.splits)
  have upd: "AList.update (FragmentIndex packet) (Payload packet) (aFragments assembly)
      = aFragments assembly @ [(FragmentIndex packet, Payload packet)]"
    using new by (rule update_absent)
  have ok1: "asm_ok a1"
    using oka distinct_update_keys [of "aFragments assembly" "FragmentIndex packet" "Payload packet"]
    by (simp add: asm_ok_def a1_def upd)
  have "set (AList.update start a1 (reassemblies st0)) \<subseteq> insert (start, a1) (set (reassemblies st0))"
    by (rule set_update_subset)
  then have okst: "chst_ok st1"
    using ok0 ok1 by (auto simp: chst_ok_def st1_def)
  have pa: "parts a1 = parts assembly + 1" "aBytes a1 = aBytes assembly + ?len"
    by (simp_all add: a1_def upd)
  have bal: "balance r1 st1 = balance r0 st0"
    using asm bytes(1) nparts(1) count(1) pa
    by (auto simp: balance_def rsums st1_def r1_def total_update [OF d0] split: option.splits)
  have bound: "reassemblyBytes r1 \<le> maxReassemblyReliableBytes"
      "reassemblyCount r1 \<le> maxReliableAssemblies" "reassemblyParts r1 \<le> maxReliableFragments"
    using bytes(2) nparts(2) count(2) by (simp_all add: r1_def)
  have put: "re_inv (putChannel r2 (Channel packet) st2) \<and>
      recv_frame (Channel packet) r0 (putChannel r2 (Channel packet) st2)"
    if dr: "drains r1 st1 r2 st2" for r2 st2
  proof -
    have "channels r2 = channels r0" "ackChannels r2 = ackChannels r0"
      using dr same by (auto simp: drains_def r1_def core_def sender_part_def)
    then have "re_inv (putChannel r2 (Channel packet) st2)"
      using dr bal bound by (intro re_inv_put [OF inv c]) (auto simp: drains_def)
    moreover have "recv_frame (Channel packet) r0 (putChannel r2 (Channel packet) st2)"
      using \<open>channels r2 = channels r0\<close> dr same c
      by (auto simp: recv_frame_def drains_def core_def sender_part_def r1_def st1_def)
    ultimately show ?thesis ..
  qed
  have "storeFragment r st0 ordered packet start assembly =
    (if \<not> complete a1 then (putChannel r1 (Channel packet) st1, [])
     else if \<not> ordered then
       let delivered = \<lparr>dChannel = Channel packet, dPayload = assembleReliable a1\<rparr>;
           (r, state) = removeAssembly r1 st1 start
       in (putChannel r (Channel packet) state, [delivered])
     else let (r, state, delivered) = deliverOrdered (Channel packet) r1 st1
       in (putChannel r (Channel packet) state, delivered))"
    by (simp only: storeFragment_def Let_def a1_def r1_def st1_def)
  with store put drains_refl [OF okst] drains_removeAssembly [OF okst] drains_deliverOrdered [OF okst]
  show ?thesis by (auto simp: Let_def split: if_splits prod.splits)
qed

lemma recv_frame_trans: "recv_frame c r r' \<Longrightarrow> recv_frame c r' r'' \<Longrightarrow> recv_frame c r r''"
  by (auto simp: recv_frame_def)

lemma receiveFragment_inv:
  assumes inv: "re_inv r" "chan_inv r" and rec: "receiveFragment r ordered packet = (r', ds)"
  shows "re_inv r' \<and> recv_frame (Channel packet) (ensureChannel r (Channel packet)) r'"
proof -
  let ?c = "Channel packet"
  define r1 where "r1 = ensureChannel r ?c"
  obtain st0 where st0: "channels r1 ?c = Some st0"
    using ensureChannel_present by (auto simp: r1_def)
  define st where "st = st0\<lparr>ackDirty := True\<rparr>"
  define r2 where "r2 = putChannel r1 ?c st"
  define start where "start = FragmentSequence packet - ucast (FragmentIndex packet)"
  define asm where "asm = map_of (reassemblies st) start"
  have inv1: "chan_inv r1" "re_inv r1"
    using inv ensureChannel_inv [OF inv(2)]
    by (auto simp: r1_def re_inv_def rsums newChannel_def ensureChannel_def addChannel_def
        chst_ok_def split: option.splits if_splits)
  have f2: "recv_frame ?c r1 r2"
    using st0 by (auto simp: recv_frame_def r2_def st_def sender_part_def)
  have "chst_ok st" using inv1(2) st0 by (simp add: re_inv_def st_def chst_ok_def)
  moreover have "balance r1 st = balance r1 st0" by (simp add: balance_def rsums st_def)
  ultimately have i2: "re_inv r2"
    using inv1 st0 unfolding r2_def by (intro re_inv_put [OF inv1(2,1) st0]) (auto simp: re_inv_def)
  have c2: "chan_inv r2" using inv1(1) recv_frame_inv(3) [OF f2] by simp
  have ch2: "channels r2 ?c = Some st" by (simp add: r2_def)
  show ?thesis
  proof (cases "r' = r2")
    case True
    with i2 f2 show ?thesis by (simp add: r1_def)
  next
    case False
    have "re_inv r' \<and> recv_frame ?c r2 r'"
    proof (cases asm)
      case None
      from rec False None have bound: "int (length (Payload packet)) \<le> maxReassemblyReliableBytes - reassemblyBytes r2"
        "reassemblyParts r2 < maxReliableFragments" "reassemblyCount r2 < maxReliableAssemblies"
        and store: "storeFragment (r2\<lparr>reassemblyCount := reassemblyCount r2 + 1\<rparr>) st ordered packet
            start \<lparr>aCount = FragmentCount packet, aFragments = [], aBytes = 0\<rparr> = (r', ds)"
        by (auto simp: receiveFragment_def Let_def r1_def [symmetric] st0 st_def [symmetric]
            r2_def [symmetric] start_def [symmetric] asm_def [symmetric] split: if_splits)
      show ?thesis
        by (rule re_inv_storeFragment [OF i2 c2 ch2 _ _ _ _ _ _ _ _ _ _ store])
          (use bound None in \<open>simp_all add: sender_part_def asm_def\<close>)
    next
      case (Some a)
      from rec False Some have bound: "int (length (Payload packet)) \<le> maxReassemblyReliableBytes - reassemblyBytes r2"
        "reassemblyParts r2 < maxReliableFragments" "map_of (aFragments a) (FragmentIndex packet) = None"
        and store: "storeFragment r2 st ordered packet start a = (r', ds)"
        by (auto simp: receiveFragment_def Let_def r1_def [symmetric] st0 st_def [symmetric]
            r2_def [symmetric] start_def [symmetric] asm_def [symmetric] split: if_splits)
      have "reassemblyCount r2 \<le> maxReliableAssemblies" using i2 by (simp add: re_inv_def)
      then show ?thesis
        by (intro re_inv_storeFragment [OF i2 c2 ch2 _ _ _ _ _ _ _ _ _ _ store])
          (use bound Some in \<open>simp_all add: asm_def\<close>)
    qed
    with f2 show ?thesis by (auto simp: r1_def intro: recv_frame_trans)
  qed
qed

section \<open>The accounting invariant\<close>

definition acct_inv :: "reliableTransport \<Rightarrow> bool" where
  "acct_inv r \<longleftrightarrow> chan_inv r \<and> cc_inv r \<and> out_inv r \<and> re_inv r"

lemma acct_inv_new: "acct_inv newReliableTransport"
  by (simp add: acct_inv_def newReliableTransport_def chan_inv_def cc_inv_def out_inv_def re_inv_def
      chsum_def)

lemma re_inv_cong:
  "channels r' = channels r \<Longrightarrow> ackChannels r' = ackChannels r \<Longrightarrow>
    reassemblyBytes r' = reassemblyBytes r \<Longrightarrow> reassemblyCount r' = reassemblyCount r \<Longrightarrow>
    reassemblyParts r' = reassemblyParts r \<Longrightarrow> re_inv r' = re_inv r"
  by (simp add: re_inv_def chsum_def)

lemma ensureChannel_acct:
  assumes "acct_inv r"
  shows "acct_inv (ensureChannel r c)"
proof -
  have "re_inv (ensureChannel r c)"
    using assms ensureChannel_inv(2) [of r]
    by (auto simp: acct_inv_def re_inv_def rsums newChannel_def ensureChannel_def addChannel_def
        chst_ok_def split: option.splits if_splits)
  moreover have "fragment_of (ensureChannel r c) f" if "fragment_of r f" for f
    using that by (auto simp: fragment_of_def ensureChannel_def addChannel_def split: option.splits)
  then have "out_inv (ensureChannel r c)" using assms by (auto simp: acct_inv_def out_inv_def)
  ultimately show ?thesis
    using assms ensureChannel_inv(1) [of r "\<lambda>_. 0"] by (auto simp: acct_inv_def cc_inv_def)
qed

lemma acct_inv_queue:
  assumes inv: "acct_inv r" and q: "queue r c m = (res, r')"
  shows "acct_inv r'"
proof (cases res)
  case (Inl e)
  with q inv show ?thesis using queue_refused by blast
next
  case (Inr u)
  with q have q': "queue r c m = (Inr (), r')" by simp
  obtain st where st: "channels (ensureChannel r c) c = Some st"
    and r': "r' = (putChannel (ensureChannel r c) c (st\<lparr>nextFragmentSequence :=
              nextFragmentSequence st + of_nat (fragmentCountOf (length m))\<rparr>))
            \<lparr>outbound := outbound r @ newFragments c (nextFragmentSequence st) m,
             queuedBytes := queuedBytes r + int (length m)\<rparr>"
    using q' by (rule queue_OK)
  let ?r1 = "ensureChannel r c"
  let ?st = "st\<lparr>nextFragmentSequence := nextFragmentSequence st + of_nat (fragmentCountOf (length m))\<rparr>"
  have a1: "acct_inv ?r1" using inv by (rule ensureChannel_acct)
  have "re_inv (putChannel ?r1 c ?st)"
    by (rule re_inv_put [of ?r1 c st])
      (use a1 st in \<open>auto simp: acct_inv_def re_inv_def balance_def rsums chst_ok_def\<close>)
  then have "re_inv r'"
    by (subst re_inv_cong [of r' "putChannel ?r1 c ?st"]) (simp_all add: r')
  moreover have "cc_inv r'" using inv by (simp add: acct_inv_def cc_inv_def r')
  ultimately show ?thesis
    using chan_inv_queue [OF _ q'] out_inv_queue [OF _ q'] inv by (simp add: acct_inv_def)
qed

lemma acct_inv_commit:
  assumes inv: "acct_inv r" and "fresh_reservation r res"
  shows "acct_inv (commit r res)"
proof -
  define r1 where "r1 = (case res of ReservationNew f i now \<Rightarrow> commitNew r f now
    | ReservationRetransmit f i now \<Rightarrow> commitRetransmit r f now | ReservationACK c i \<Rightarrow> r)"
  obtain c where c: "commit r res = clearAckDirty (advance r1 res) c"
    by (cases res) (auto simp: commit_def r1_def)
  have same: "channels r1 = channels r" "ackChannels r1 = ackChannels r"
    "reassemblyBytes r1 = reassemblyBytes r" "reassemblyCount r1 = reassemblyCount r"
    "reassemblyParts r1 = reassemblyParts r"
    by (auto simp: r1_def commitNew_def commitRetransmit_def Let_def split: reliableReservation.splits)
  then have re1: "re_inv (advance r1 res)" and ch1: "chan_inv (advance r1 res)"
    using inv re_inv_cong [of "advance r1 res" r] chan_inv_cong [of "advance r1 res" r]
    by (simp_all add: acct_inv_def)
  have "chst_ok st'" if "channels (commit r res) x = Some st'" for x st'
    using that re1 unfolding c
    by (auto simp: clearAckDirty_channels re_inv_def split: if_splits)
  moreover have "chsum f (commit r res) = chsum f (advance r1 res)"
    if "f = rbytes \<or> f = rcount \<or> f = rparts" for f
    unfolding c using ch1 that by (intro chsum_clearAckDirty) (auto simp: rsums)
  ultimately have "re_inv (commit r res)"
    using re1 by (simp add: re_inv_def c)
  then show ?thesis
    using inv assms(2) by (simp add: acct_inv_def chan_inv_commit cc_inv_commit out_inv_commit)
qed

lemma acct_inv_reject: "acct_inv r \<Longrightarrow> acct_inv (reject r res)"
  unfolding acct_inv_def reject_def
  using re_inv_cong [of "advance r res" r] chan_inv_cong [of "advance r res" r]
    cc_inv_cong [of "advance r res" r] out_inv_frame [of "advance r res" r] by simp

lemma acct_inv_receive:
  assumes inv: "acct_inv r" and rec: "receive r packet now = (r', ds)"
  shows "acct_inv r'"
proof -
  let ?r1 = "consumeFragmentAck r (Channel packet) (FragmentAckBase packet) (FragmentAckBitmap packet) now"
  have i1: "acct_inv ?r1"
    using inv re_inv_cong [of ?r1 r] chan_inv_cong [of ?r1 r] cc_inv_consumeFragmentAck
      out_inv_consumeFragmentAck
    by (simp add: acct_inv_def consumeFragmentAck_frame)
  consider "r' = r" | "r' = ?r1" | ordered where "receiveFragment ?r1 ordered packet = (r', ds)"
    using rec by (auto simp: receive_def Let_def split: prod.splits if_splits)
  then show ?thesis
  proof cases
    case 3
    then have "re_inv r'" and f: "recv_frame (Channel packet) (ensureChannel ?r1 (Channel packet)) r'"
      using receiveFragment_inv [of ?r1 ordered packet r' ds] i1 by (simp_all add: acct_inv_def)
    then show ?thesis
      using ensureChannel_acct [OF i1, of "Channel packet"] recv_frame_inv [OF f]
      by (simp add: acct_inv_def)
  qed (use inv i1 in simp_all)
qed

lemma discardOutbound_loop:
  fixes out r c
  defines "r' \<equiv> foldl (\<lambda>r fragment.
         if fChannel fragment \<noteq> c then r\<lparr>outbound := outbound r @ [fragment]\<rparr>
         else
           let r = r\<lparr>queuedBytes := queuedBytes r - int (length (fPayload fragment))\<rparr>
           in if transmissions fragment \<noteq> 0
              then r\<lparr>bytesInFlight := bytesInFlight r - int (length (fPayload fragment))\<rparr> else r) r out"
  shows "outbound r' = outbound r @ filter (\<lambda>f. fChannel f \<noteq> c) out"
    and "queuedBytes r' = queuedBytes r - osum (\<lambda>f. fChannel f = c) out"
    and "bytesInFlight r' = bytesInFlight r - osum (\<lambda>f. fChannel f = c \<and> inFlight f) out"
    and "channels r' = channels r" "ackChannels r' = ackChannels r" "cwnd r' = cwnd r"
    "ssthresh r' = ssthresh r" "rto r' = rto r" "srtt r' = srtt r" "rttvar r' = rttvar r"
    "reassemblyBytes r' = reassemblyBytes r" "reassemblyCount r' = reassemblyCount r"
    "reassemblyParts r' = reassemblyParts r"
  unfolding r'_def by (induction out arbitrary: r) (simp_all add: Let_def)

lemma acct_inv_discardOutbound:
  assumes inv: "acct_inv r"
  shows "acct_inv (discardOutboundChannel r c)"
proof -
  define r' where "r' = discardOutboundChannel r c"
  have q: "queuedBytes r' = queuedBytes r - osum (\<lambda>f. fChannel f = c) (outbound r)"
    and b: "bytesInFlight r' = bytesInFlight r - osum (\<lambda>f. fChannel f = c \<and> inFlight f) (outbound r)"
    and o: "outbound r' = filter (\<lambda>f. fChannel f \<noteq> c) (outbound r)"
    and frame: "channels r' = channels r" "ackChannels r' = ackChannels r" "cwnd r' = cwnd r"
    "ssthresh r' = ssthresh r" "rto r' = rto r" "srtt r' = srtt r" "rttvar r' = rttvar r"
    "reassemblyBytes r' = reassemblyBytes r" "reassemblyCount r' = reassemblyCount r"
    "reassemblyParts r' = reassemblyParts r"
    unfolding r'_def discardOutboundChannel_def by (simp_all add: discardOutbound_loop)
  have split: "osum P (filter (\<lambda>f. fChannel f \<noteq> c) out) = osum P out - osum (\<lambda>f. fChannel f = c \<and> P f) out" for P out
    by (induction out) auto
  have "bytesInFlight r' = osum inFlight (outbound r')"
    unfolding b o split using inv by (simp add: acct_inv_def out_inv_def)
  moreover have "queuedBytes r' = osum (\<lambda>_. True) (outbound r')"
    unfolding q o split using inv by (simp add: acct_inv_def out_inv_def)
  moreover have "queuedBytes r' \<le> maxQueuedReliableBytes"
    using inv q osum_nonneg [of "\<lambda>f. fChannel f = c" "outbound r"] by (simp add: acct_inv_def out_inv_def)
  moreover have "distinct (map fkey (outbound r'))" "\<forall>f \<in> set (outbound r'). fragment_of r' f"
    using inv by (simp_all add: acct_inv_def out_inv_def fragment_of_def frame o distinct_map_filter)
  ultimately have "out_inv r'" by (simp add: out_inv_def)
  then show ?thesis
    using inv re_inv_cong [of r' r] chan_inv_cong [of r' r] cc_inv_cong [of r' r] frame
    by (simp add: acct_inv_def r'_def)
qed

lemma drains_discard:
  "chst_ok st \<Longrightarrow> foldl (\<lambda>(r, st) k. removeAssembly r st k) (r, st) ks = (r', st') \<Longrightarrow> drains r st r' st'"
proof (induction ks arbitrary: r st)
  case Nil
  then show ?case by (simp add: drains_refl)
next
  case (Cons k ks)
  obtain r1 st1 where rm: "removeAssembly r st k = (r1, st1)" by fastforce
  have "drains r st r1 st1" using Cons.prems(1) rm by (rule drains_removeAssembly)
  moreover from this have "drains r1 st1 r' st'"
    using Cons rm by (auto simp: drains_def [of r st r1 st1])
  ultimately show ?case by (rule drains_trans)
qed

lemma acct_inv_discardInbound:
  assumes inv: "acct_inv r"
  shows "acct_inv (discardInboundChannel r c)"
proof (cases "channels r c")
  case None
  with inv show ?thesis by (simp add: discardInboundChannel_def)
next
  case (Some st)
  obtain r1 st1 where l: "foldl (\<lambda>(r, st) k. removeAssembly r st k) (r, st) (map fst (reassemblies st))
      = (r1, st1)" by fastforce
  have "chst_ok st" using inv Some by (simp add: acct_inv_def re_inv_def)
  then have d: "drains r st r1 st1" using l by (rule drains_discard)
  have r': "discardInboundChannel r c = putChannel r1 c st1"
    using Some l by (simp add: discardInboundChannel_def)
  have "re_inv (putChannel r1 c st1)"
    using inv Some d by (intro re_inv_put [of r c st]) (auto simp: acct_inv_def drains_def core_def re_inv_def)
  moreover have "recv_frame c r (putChannel r1 c st1)"
    using Some d by (auto simp: recv_frame_def drains_def core_def sender_part_def)
  ultimately show ?thesis
    using inv recv_frame_inv [of c r "putChannel r1 c st1"] by (simp add: acct_inv_def r')
qed

section \<open>Every sequence of operations\<close>

datatype reliableOp =
    OpQueue uint16 bytes
  | OpSend time
  | OpReject time
  | OpReceive ReliablePacket time
  | OpDiscardOutbound uint16
  | OpDiscardInbound uint16

text \<open>
  \<open>OpSend\<close> and \<open>OpReject\<close> are \<open>nextSend\<close> followed by \<open>commit\<close> or \<open>reject\<close>, as in
  \<open>sendReliable\<close>.
\<close>

fun opStep :: "reliableTransport \<Rightarrow> reliableOp \<Rightarrow> reliableTransport" where
  "opStep r (OpQueue channel payload) = snd (queue r channel payload)"
| "opStep r (OpSend now) =
     (case nextSend r now of None \<Rightarrow> r | Some (packet, reservation) \<Rightarrow> commit r reservation)"
| "opStep r (OpReject now) =
     (case nextSend r now of None \<Rightarrow> r | Some (packet, reservation) \<Rightarrow> reject r reservation)"
| "opStep r (OpReceive packet now) = fst (receive r packet now)"
| "opStep r (OpDiscardOutbound channel) = discardOutboundChannel r channel"
| "opStep r (OpDiscardInbound channel) = discardInboundChannel r channel"

lemma acct_inv_opStep: "acct_inv r \<Longrightarrow> acct_inv (opStep r e)"
proof (cases e)
  case (OpQueue c m)
  then show "acct_inv r \<Longrightarrow> ?thesis" by (cases "queue r c m") (simp add: acct_inv_queue)
next
  case (OpReceive p now)
  then show "acct_inv r \<Longrightarrow> ?thesis" by (cases "receive r p now") (simp add: acct_inv_receive)
qed (auto simp: acct_inv_reject acct_inv_discardOutbound acct_inv_discardInbound
    split: option.splits intro: acct_inv_commit nextSend_fresh)

interpretation reliable: machine opStep acct_inv "\<lambda>r. r = newReliableTransport"
  by unfold_locales (auto simp: acct_inv_new acct_inv_opStep)

text \<open>C4: After any sequence of operations on a reliable transport, the queued and in-flight byte
  counters are exactly the payload sizes of the outbound fragments, the reassembly counters exactly
  what the channels hold, and all of them, the congestion window and the retransmission timeout stay
  within their bounds.\<close>

theorem transport_budgets:
  fixes ops :: "reliableOp list"
  defines "r \<equiv> foldl opStep newReliableTransport ops"
  shows "queuedBytes r = sum_list (map (\<lambda>f. int (length (fPayload f))) (outbound r)) \<and>
    bytesInFlight r = sum_list (map (\<lambda>f. int (length (fPayload f))) (filter (\<lambda>f. 0 < transmissions f) (outbound r))) \<and>
    queuedBytes r \<le> 4 * 2 ^ 20 \<and>
    distinct (map (\<lambda>f. (fChannel f, fSequence f)) (outbound r)) \<and>
    reassemblyBytes r = chsum rbytes r \<and> reassemblyBytes r \<le> 4 * 2 ^ 20 \<and>
    reassemblyCount r = chsum rcount r \<and> reassemblyCount r \<le> 4096 \<and>
    reassemblyParts r = chsum rparts r \<and> reassemblyParts r \<le> 8192 \<and>
    2 * int reliableMSS \<le> cwnd r \<and> cwnd r \<le> 64 * int reliableMSS \<and>
    100 * Millisecond \<le> rto r \<and> rto r \<le> 5 * Second"
proof -
  have inv: "acct_inv r" unfolding r_def by (rule reliable.inv_reachable) simp
  then have o: "out_inv r" and c: "cc_inv r" and re: "re_inv r" by (simp_all add: acct_inv_def)
  have "queuedBytes r = sum_list (map (\<lambda>f. int (length (fPayload f))) (outbound r))"
    and "bytesInFlight r = sum_list (map (\<lambda>f. int (length (fPayload f))) (filter (\<lambda>f. 0 < transmissions f) (outbound r)))"
    and "queuedBytes r \<le> 4 * 2 ^ 20" and "distinct (map (\<lambda>f. (fChannel f, fSequence f)) (outbound r))"
    using o by (simp_all add: out_inv_def osum_def fkey_def [abs_def])
  moreover have "reassemblyBytes r = chsum rbytes r" "reassemblyBytes r \<le> 4 * 2 ^ 20"
    "reassemblyCount r = chsum rcount r" "reassemblyCount r \<le> 4096"
    "reassemblyParts r = chsum rparts r" "reassemblyParts r \<le> 8192"
    using re by (simp_all add: re_inv_def)
  moreover have "2 * int reliableMSS \<le> cwnd r" "cwnd r \<le> 64 * int reliableMSS"
    "100 * Millisecond \<le> rto r" "rto r \<le> 5 * Second"
    using c by (simp_all add: cc_inv_def)
  ultimately show ?thesis by blast
qed

end
