(* ===== verification/ReliableStream.thy ===== *)
theory ReliableStream
  imports ReliableAccounting
begin

text \<open>
  What the reliable transport promises end to end.  Two transports exchange packets over a
  network that may lose, repeat, delay and reorder them (a set of packets sent, any of which
  may be received at any time).  On an ordered channel the receiver delivers a prefix of the
  messages the sender queued, and all of them once the sender has nothing pending there.
\<close>

section \<open>Messages and their fragments\<close>

definition nfrag :: "bytes \<Rightarrow> nat" where
  "nfrag m = fragmentCountOf (length m)"

text \<open>The fragment sequence at which message number \<open>k\<close> of a channel starts.\<close>

definition msgStart :: "bytes list \<Rightarrow> nat \<Rightarrow> nat" where
  "msgStart M k = 1 + sum_list (map nfrag (take k M))"

definition msgs_ok :: "bytes list \<Rightarrow> bool" where
  "msgs_ok M \<longleftrightarrow> (\<forall>m \<in> set M. 0 < nfrag m \<and> nfrag m \<le> 1024) \<and> msgStart M (length M) \<le> 2 ^ 64"

definition is_frag :: "bytes list \<Rightarrow> nat \<Rightarrow> nat \<Rightarrow> nat \<Rightarrow> bytes \<Rightarrow> bool" where
  "is_frag M s i n p \<longleftrightarrow>
     (\<exists>k < length M. s = msgStart M k + i \<and> n = nfrag (M ! k) \<and> i < n \<and> p = chunk (M ! k) i)"

lemma msgStart_0 [simp]: "msgStart M 0 = 1"
  by (simp add: msgStart_def)

lemma msgStart_Suc: "k < length M \<Longrightarrow> msgStart M (Suc k) = msgStart M k + nfrag (M ! k)"
  by (simp add: msgStart_def take_Suc_conv_app_nth)

lemma msgStart_append [simp]: "k \<le> length M \<Longrightarrow> msgStart (M @ M') k = msgStart M k"
  by (simp add: msgStart_def)

lemma msgStart_mono: "j \<le> k \<Longrightarrow> msgStart M j \<le> msgStart M k"
proof (induction k)
  case 0
  then show ?case by simp
next
  case (Suc k)
  have "msgStart M k \<le> msgStart M (Suc k)"
    by (cases "k < length M") (simp_all add: msgStart_Suc, simp add: msgStart_def)
  with Suc show ?case by (cases "j = Suc k") auto
qed

lemma msgStart_pos: "1 \<le> msgStart M k"
  by (simp add: msgStart_def)

lemma msgStart_next: "j < k \<Longrightarrow> k \<le> length M \<Longrightarrow> msgStart M j + nfrag (M ! j) \<le> msgStart M k"
  using msgStart_mono [of "Suc j" k M] by (simp add: msgStart_Suc)

lemma msgStart_bound: "msgs_ok M \<Longrightarrow> k \<le> length M \<Longrightarrow> msgStart M k \<le> 2 ^ 64"
  using msgStart_mono [of k "length M" M] by (auto simp: msgs_ok_def)

lemma msgStart_less: "msgs_ok M \<Longrightarrow> k < length M \<Longrightarrow> msgStart M k < 2 ^ 64"
proof -
  assume ok: "msgs_ok M" and k: "k < length M"
  then have "0 < nfrag (M ! k)" by (simp add: msgs_ok_def)
  with msgStart_bound [OF ok, of "Suc k"] k show ?thesis by (simp add: msgStart_Suc)
qed

lemma msgStart_unique:
  assumes "j < length M" "k < length M" "msgStart M j + a = msgStart M k + b"
    "a < nfrag (M ! j)" "b < nfrag (M ! k)"
  shows "j = k \<and> a = b"
proof (cases j k rule: linorder_cases)
  case less
  with msgStart_next [of j k M] assms show ?thesis by simp
next
  case equal
  with assms show ?thesis by simp
next
  case greater
  with msgStart_next [of k j M] assms show ?thesis by simp
qed

lemma msgStart_inject:
  assumes "msgs_ok M" "j < length M" "k < length M" "msgStart M j = msgStart M k"
  shows "j = k"
  using msgStart_unique [of j M k 0 0] assms by (auto simp: msgs_ok_def)

lemma is_frag_append: "is_frag M s i n p \<Longrightarrow> is_frag (M @ M') s i n p"
proof -
  assume "is_frag M s i n p"
  then obtain k where "k < length M" "s = msgStart M k + i" "n = nfrag (M ! k)" "i < n" "p = chunk (M ! k) i"
    by (auto simp: is_frag_def)
  then show ?thesis unfolding is_frag_def by (intro exI [of _ k]) (simp add: nth_append)
qed

lemma unat_of_nat_64: "n < 2 ^ 64 \<Longrightarrow> unat (of_nat n :: uint64) = n"
  by (simp add: unat_of_nat)

lemma unat_ucast_16_64: "unat (ucast (i :: uint16) :: uint64) = unat i"
  using unsigned_less [of i, where ?'a = nat] by (simp add: unsigned_ucast_eq take_bit_nat_eq_self_iff)

lemma word_of_unat_eq: "unat (w :: 'a::len word) = n \<Longrightarrow> w = of_nat n"
  by auto

section \<open>One assembly\<close>

definition asm_frag :: "bytes list \<Rightarrow> uint64 \<Rightarrow> reliableAssembly \<Rightarrow> bool" where
  "asm_frag M ms a \<longleftrightarrow>
     (\<exists>j < length M. unat ms = msgStart M j \<and> unat (aCount a) = nfrag (M ! j) \<and>
        (\<forall>(i, p) \<in> set (aFragments a). unat i < nfrag (M ! j) \<and> p = chunk (M ! j) (unat i)))"

lemma asm_frag_append: "asm_frag M ms a \<Longrightarrow> asm_frag (M @ M') ms a"
proof -
  assume "asm_frag M ms a"
  then obtain k where "k < length M" "unat ms = msgStart M k" "unat (aCount a) = nfrag (M ! k)"
      "\<forall>(i, p) \<in> set (aFragments a). unat i < nfrag (M ! k) \<and> p = chunk (M ! k) (unat i)"
    by (auto simp: asm_frag_def)
  then show ?thesis unfolding asm_frag_def by (intro exI [of _ k]) (simp add: nth_append)
qed

text \<open>A full set of distinct indices below \<open>n\<close> is all of them.\<close>

lemma full_index_set:
  fixes I :: "'a::len word set"
  assumes "card I = n" "\<And>i. i \<in> I \<Longrightarrow> unat i < n" "k < n"
  shows "of_nat k \<in> I"
proof -
  have "unat ` I \<subseteq> {..<n}" using assms(2) by auto
  moreover have "card (unat ` I) = n"
    using assms(1) by (subst card_image) (auto intro: inj_onI simp: word_unat_eq_iff)
  ultimately have "unat ` I = {..<n}" by (simp add: card_subset_eq)
  with assms(3) obtain i where "i \<in> I" "unat i = k" by (metis imageE lessThan_iff)
  then show ?thesis by (metis word_of_unat_eq)
qed

lemma assembleReliable_complete:
  assumes a: "asm_frag M ms a" and d: "distinct (map fst (aFragments a))" and c: "complete a"
    and j: "j < length M" "unat ms = msgStart M j" and ok: "msgs_ok M"
  shows "assembleReliable a = M ! j"
proof -
  obtain j' where j': "j' < length M" "unat ms = msgStart M j'" "unat (aCount a) = nfrag (M ! j')"
    and f: "\<And>i p. (i, p) \<in> set (aFragments a) \<Longrightarrow> unat i < nfrag (M ! j') \<and> p = chunk (M ! j') (unat i)"
    using a by (auto simp: asm_frag_def)
  have "j' = j" using msgStart_inject [OF ok j'(1) j(1)] j'(2) j(2) by simp
  note [simp] = this
  have le: "nfrag (M ! j) \<le> 1024" using ok j(1) by (simp add: msgs_ok_def)
  have card: "card (set (map fst (aFragments a))) = nfrag (M ! j)"
    using d c j'(3) by (simp add: distinct_card complete_def del: set_map)
  have look: "map_of (aFragments a) (of_nat k) = Some (chunk (M ! j) k)" if k: "k < nfrag (M ! j)" for k
  proof -
    have "of_nat k \<in> set (map fst (aFragments a))"
      using f k by (intro full_index_set [OF card]) auto
    then obtain p where p: "(of_nat k, p) \<in> set (aFragments a)" by auto
    moreover have "unat (of_nat k :: uint16) = k" using k le by (simp add: unat_of_nat)
    ultimately show ?thesis using f [OF p] d by (simp add: map_of_is_SomeI)
  qed
  have "assembleReliable a = concat (map (chunk (M ! j)) [0..<nfrag (M ! j)])"
    using j'(3) look unfolding assembleReliable_def by (intro arg_cong [where f = concat] map_cong) auto
  then show ?thesis by (simp add: nfrag_def concat_chunks)
qed

section \<open>One channel of the receiver\<close>

text \<open>
  \<open>M\<close> is what the sender queued on the channel, \<open>D\<close> what the receiver delivered, \<open>R\<close> the
  fragment sequences it acknowledges.
\<close>

definition retained :: "reliableChannel \<Rightarrow> uint64 \<Rightarrow> bool" where
  "retained st s \<longleftrightarrow> (\<exists>ms a i. map_of (reassemblies st) ms = Some a \<and> map_of (aFragments a) i \<noteq> None \<and>
     s = ms + ucast i)"

definition recv_pre :: "bytes list \<Rightarrow> bytes list \<Rightarrow> uint64 set \<Rightarrow> reliableChannel \<Rightarrow> bool" where
  "recv_pre M D R st \<longleftrightarrow> win_rel (received st) R \<and> chst_ok st \<and>
     length D \<le> length M \<and> D = take (length D) M \<and>
     nextDeliveredFragment st = of_nat (msgStart M (length D)) \<and>
     (\<forall>ms a. map_of (reassemblies st) ms = Some a \<longrightarrow>
        asm_frag M ms a \<and> msgStart M (length D) \<le> unat ms) \<and>
     (\<forall>s \<in> R. unat s < msgStart M (length D) \<or> retained st s)"

definition settled :: "reliableChannel \<Rightarrow> bool" where
  "settled st \<longleftrightarrow> (\<forall>a. map_of (reassemblies st) (nextDeliveredFragment st) = Some a \<longrightarrow> \<not> complete a)"

definition recv_ord :: "bytes list \<Rightarrow> bytes list \<Rightarrow> uint64 set \<Rightarrow> reliableChannel \<Rightarrow> bool" where
  "recv_ord M D R st \<longleftrightarrow> recv_pre M D R st \<and> settled st"

definition recv_un :: "bytes list \<Rightarrow> bytes list \<Rightarrow> uint64 set \<Rightarrow> reliableChannel \<Rightarrow> bool" where
  "recv_un M D R st \<longleftrightarrow> win_rel (received st) R \<and> chst_ok st \<and> set D \<subseteq> set M \<and>
     (\<forall>ms a. map_of (reassemblies st) ms = Some a \<longrightarrow> asm_frag M ms a)"

lemma recv_pre_append: "recv_pre M D R st \<Longrightarrow> recv_pre (M @ M') D R st"
  by (auto simp: recv_pre_def asm_frag_append)

lemma recv_ord_append: "recv_ord M D R st \<Longrightarrow> recv_ord (M @ M') D R st"
  by (simp add: recv_ord_def recv_pre_append)

lemma recv_un_append: "recv_un M D R st \<Longrightarrow> recv_un (M @ M') D R st"
  by (auto simp: recv_un_def asm_frag_append)

lemma recv_ord_cong:
  assumes "received st' = received st" "reassemblies st' = reassemblies st"
    "nextDeliveredFragment st' = nextDeliveredFragment st"
  shows "recv_ord M D R st' = recv_ord M D R st" and "recv_un M D R st' = recv_un M D R st"
    and "recv_pre M D R st' = recv_pre M D R st"
  using assms by (simp_all add: recv_ord_def recv_un_def recv_pre_def settled_def retained_def chst_ok_def)

lemma recv_new:
  "recv_ord M [] {} newChannel" "recv_un M [] {} newChannel"
  by (simp_all add: recv_ord_def recv_un_def recv_pre_def settled_def newChannel_def chst_ok_def)

lemma unat_start_plus:
  assumes ok: "msgs_ok M" and j: "j < length M" "unat (ms :: uint64) = msgStart M j"
    and i: "unat (i :: uint16) < nfrag (M ! j)"
  shows "unat (ms + ucast i) = msgStart M j + unat i"
proof -
  have "msgStart M j + nfrag (M ! j) \<le> 2 ^ 64"
    using msgStart_bound [OF ok, of "Suc j"] j(1) by (simp add: msgStart_Suc)
  then have "unat ms + unat (ucast i :: uint64) < 2 ^ 64"
    using j(2) i by (simp add: unat_ucast_16_64)
  then have "unat (ms + ucast i) = unat ms + unat (ucast i :: uint64)"
    by (subst unat_word_ariths(1)) simp
  then show ?thesis by (simp add: unat_ucast_16_64 j(2))
qed

text \<open>Delivering one message: the assembly at the delivery point is complete.\<close>

lemma recv_pre_deliver:
  assumes pre: "recv_pre M D R st" and ok: "msgs_ok M"
    and a: "map_of (reassemblies st) (nextDeliveredFragment st) = Some a" "complete a"
    and rm: "removeAssembly r st (nextDeliveredFragment st) = (r1, st1)"
  defines "nxt \<equiv> nextDeliveredFragment st1 + ucast (aCount a)"
  shows "length D < length M" and "assembleReliable a = M ! length D"
    and "recv_pre M (D @ [assembleReliable a]) R
      (st1\<lparr>nextDeliveredFragment := of_nat (msgStart M (Suc (length D)))\<rparr>)"
    and "nxt = of_nat (msgStart M (Suc (length D)))"
    and "nxt < nextDeliveredFragment st1 \<Longrightarrow> nxt = 0"
proof -
  let ?k = "length D"
  have st1: "st1 = st\<lparr>reassemblies := AList.delete (nextDeliveredFragment st) (reassemblies st)\<rparr>"
    using rm a(1) by (simp add: removeAssembly_def)
  have asm: "asm_frag M (nextDeliveredFragment st) a" and ge: "msgStart M ?k \<le> unat (nextDeliveredFragment st)"
    and oka: "asm_ok a" and nd: "nextDeliveredFragment st = of_nat (msgStart M ?k)"
    using pre a(1) chst_okD by (auto simp: recv_pre_def)
  then obtain j where j: "j < length M" "unat (nextDeliveredFragment st) = msgStart M j"
      "unat (aCount a) = nfrag (M ! j)"
    by (auto simp: asm_frag_def)
  have kl: "?k \<le> length M" and D: "D = take ?k M" using pre by (auto simp: recv_pre_def)
  have lt: "msgStart M ?k < 2 ^ 64"
    using ge msgStart_less [OF ok j(1)] j(2) by simp
  then have jk: "msgStart M j = msgStart M ?k" using j(2) nd by (simp add: unat_of_nat_64)
  show k: "?k < length M"
  proof (rule ccontr)
    assume "\<not> ?k < length M"
    then have "msgStart M j + nfrag (M ! j) \<le> msgStart M ?k" using msgStart_next [of j ?k M] j(1) kl by simp
    moreover have "0 < nfrag (M ! j)" using ok j(1) by (simp add: msgs_ok_def)
    ultimately show False using jk by simp
  qed
  have [simp]: "j = ?k" using msgStart_inject [OF ok j(1) k jk] .
  show msg: "assembleReliable a = M ! ?k"
    using assembleReliable_complete [OF asm _ a(2) k _ ok] oka j(2) by (simp add: asm_ok_def)
  have S: "msgStart M (Suc ?k) = msgStart M ?k + nfrag (M ! ?k)" using k by (rule msgStart_Suc)
  have "ucast (aCount a) = (of_nat (nfrag (M ! ?k)) :: uint64)"
    using unat_ucast_16_64 [of "aCount a"] j(3) by (metis \<open>j = ?k\<close> word_of_unat_eq)
  then show nx: "nxt = of_nat (msgStart M (Suc ?k))"
    by (simp add: nxt_def st1 nd S)
  show "nxt = 0" if "nxt < nextDeliveredFragment st1"
  proof -
    have "\<not> msgStart M (Suc ?k) < 2 ^ 64"
    proof
      assume "msgStart M (Suc ?k) < 2 ^ 64"
      then show False using that lt S unfolding nx by (simp add: st1 nd word_less_nat_alt unat_of_nat_64 del: of_nat_add)
    qed
    then have "msgStart M (Suc ?k) = 2 ^ 64" using msgStart_bound [OF ok, of "Suc ?k"] k by simp
    then show ?thesis unfolding nx by simp
  qed
  have other: "msgStart M (Suc ?k) \<le> unat ms" if ms: "map_of (reassemblies st) ms = Some b" "ms \<noteq> nextDeliveredFragment st" for ms b
  proof -
    have am: "asm_frag M ms b" and lem: "msgStart M ?k \<le> unat ms"
      using pre ms(1) unfolding recv_pre_def by blast+
    then obtain j' where j': "j' < length M" "unat ms = msgStart M j'" by (auto simp: asm_frag_def)
    have "j' \<noteq> ?k" using j' j(2) ms(2) by (auto simp: word_unat_eq_iff)
    moreover have "\<not> j' < ?k"
    proof
      assume "j' < ?k"
      then have "msgStart M j' + nfrag (M ! j') \<le> msgStart M ?k" using msgStart_next kl by blast
      moreover have "0 < nfrag (M ! j')" using ok j'(1) by (simp add: msgs_ok_def)
      ultimately show False using lem j'(2) by simp
    qed
    ultimately have "?k < j'" by simp
    then show ?thesis using j' msgStart_mono [of "Suc ?k" j' M] by simp
  qed
  have keep: "unat s < msgStart M (Suc ?k) \<or> retained st1 s" if s: "s \<in> R" for s
  proof -
    consider "unat s < msgStart M ?k" | ms b i where "map_of (reassemblies st) ms = Some b"
        "map_of (aFragments b) i \<noteq> None" "s = ms + ucast i"
      using pre s unfolding recv_pre_def retained_def by blast
    then show ?thesis
    proof cases
      case 1
      then show ?thesis by (simp add: S)
    next
      case (2 ms b i)
      show ?thesis
      proof (cases "ms = nextDeliveredFragment st")
        case True
        then have "b = a" using 2 a(1) by simp
        then obtain p where "(i, p) \<in> set (aFragments a)" using 2(2) map_of_SomeD by fastforce
        then have "unat i < nfrag (M ! ?k)"
          using asm j msgStart_inject [OF ok] by (fastforce simp: asm_frag_def)
        with unat_start_plus [OF ok k _ this, of ms] j(2) 2(3) True show ?thesis by (simp add: S)
      next
        case False
        then have "retained st1 s"
          using 2 unfolding retained_def by (intro exI [of _ ms] exI [of _ b] exI [of _ i]) (simp add: st1)
        then show ?thesis ..
      qed
    qed
  qed
  have "chst_ok st1"
    using drains_removeAssembly [of st r "nextDeliveredFragment st" r1 st1] rm pre
    by (simp add: recv_pre_def drains_def)
  then show "recv_pre M (D @ [assembleReliable a]) R
      (st1\<lparr>nextDeliveredFragment := of_nat (msgStart M (Suc ?k))\<rparr>)"
    using pre k other keep D msg
    by (auto simp: recv_pre_def st1 take_Suc_conv_app_nth chst_ok_def retained_def split: if_splits)
qed

lemma recv_ord_deliverOrdered:
  assumes "msgs_ok M"
  shows "recv_pre M D R st \<Longrightarrow> deliverOrdered c r st = (r', st', ds) \<Longrightarrow>
    recv_ord M (D @ map dPayload ds) R st' \<and> (\<forall>d \<in> set ds. dChannel d = c)"
proof (induction c r st arbitrary: D r' st' ds rule: deliverOrdered.induct)
  case (1 c r st)
  show ?case
  proof (cases "\<exists>a. map_of (reassemblies st) (nextDeliveredFragment st) = Some a \<and> complete a")
    case False
    then have "(r', st', ds) = (r, st, [])" "settled st"
      using "1.prems"(2) by (subst (asm) deliverOrdered.simps, auto simp: settled_def split: option.splits)+
    then show ?thesis using "1.prems"(1) by (simp add: recv_ord_def)
  next
    case True
    then obtain a where a: "map_of (reassemblies st) (nextDeliveredFragment st) = Some a" "complete a"
      by blast
    obtain r1 st1 where rm: "removeAssembly r st (nextDeliveredFragment st) = (r1, st1)" by fastforce
    note dl = recv_pre_deliver [OF "1.prems"(1) assms a rm]
    let ?n = "nextDeliveredFragment st1 + ucast (aCount a)"
    have eq: "?n = of_nat (msgStart M (Suc (length D)))" by (rule dl(4))
    have pre: "recv_pre M (D @ [assembleReliable a]) R (st1\<lparr>nextDeliveredFragment := ?n\<rparr>)"
      unfolding eq by (rule dl(3))
    show ?thesis
    proof (cases "?n < nextDeliveredFragment st1")
      case wrap: True
      then have res: "st' = st1\<lparr>nextDeliveredFragment := 0\<rparr>"
          "ds = [\<lparr>dChannel = c, dPayload = assembleReliable a\<rparr>]"
        using "1.prems"(2) a rm by (subst (asm) deliverOrdered.simps, simp add: Let_def)+
      have n0: "?n = 0" using wrap by (rule dl(5))
      have pre0: "recv_pre M (D @ [assembleReliable a]) R (st1\<lparr>nextDeliveredFragment := 0\<rparr>)"
        using pre unfolding n0 .
      have "map_of (reassemblies st1) 0 = None"
      proof (rule ccontr)
        assume "map_of (reassemblies st1) 0 \<noteq> None"
        then obtain b where "asm_frag M 0 b" using pre0 by (auto simp: recv_pre_def)
        then obtain j where "unat (0 :: uint64) = msgStart M j" by (auto simp: asm_frag_def)
        then show False using msgStart_pos [of M j] by simp
      qed
      then show ?thesis using pre0 by (simp add: recv_ord_def settled_def res)
    next
      case False
      obtain r2 st2 ds2 where rec: "deliverOrdered c r1 (st1\<lparr>nextDeliveredFragment := ?n\<rparr>) = (r2, st2, ds2)"
        by (metis prod_cases3)
      have res: "st' = st2" "ds = \<lparr>dChannel = c, dPayload = assembleReliable a\<rparr> # ds2"
        using "1.prems"(2) a rm False rec by (subst (asm) deliverOrdered.simps, simp add: Let_def)+
      have "recv_ord M ((D @ [assembleReliable a]) @ map dPayload ds2) R st2 \<and> (\<forall>d \<in> set ds2. dChannel d = c)"
        by (rule "1.IH" [OF a(1) _ refl rm [symmetric] refl refl False pre rec]) (use a(2) in auto)
      then show ?thesis by (simp add: res)
    qed
  qed
qed

end
