(* ===== verification/ReliableReceive.thy ===== *)
theory ReliableReceive
  imports ReliableStream
begin

text \<open>
  What receiving one fragment does to a channel whose state agrees with the messages the peer
  queued: the fragment is refused, or it joins its message and \<open>receive\<close> hands over
  every message that this completes.
\<close>

section \<open>Receiving a fragment\<close>

definition recv_rel :: "bool \<Rightarrow> bytes list \<Rightarrow> bytes list \<Rightarrow> uint64 set \<Rightarrow> reliableChannel \<Rightarrow> bool" where
  "recv_rel ordered M D R st = (if ordered then recv_ord M D R st else recv_un M D R st)"

lemma recv_rel_append: "recv_rel ordered M D R st \<Longrightarrow> recv_rel ordered (M @ M') D R st"
  by (simp add: recv_rel_def recv_ord_append recv_un_append)

lemma recv_rel_cong:
  assumes "received st' = received st" "reassemblies st' = reassemblies st"
    "nextDeliveredFragment st' = nextDeliveredFragment st"
  shows "recv_rel ordered M D R st' = recv_rel ordered M D R st"
  using recv_ord_cong [OF assms] by (simp add: recv_rel_def)

lemma recv_relD:
  assumes "recv_rel ordered M D R st"
  shows "win_rel (received st) R" "chst_ok st"
    "map_of (reassemblies st) ms = Some a \<Longrightarrow> asm_frag M ms a"
  using assms by (auto simp: recv_rel_def recv_ord_def recv_pre_def recv_un_def split: if_splits)

text \<open>Every way \<open>receiveFragment\<close> ends: refused, with only the acknowledgment due, or stored.\<close>

lemma receiveFragment_cases:
  assumes rec: "receiveFragment r ordered packet = (r', ds)"
    and st0: "channels (ensureChannel r (Channel packet)) (Channel packet) = Some st0"
  defines "st \<equiv> st0\<lparr>ackDirty := True\<rparr>"
    and "start \<equiv> FragmentSequence packet - ucast (FragmentIndex packet)"
  obtains (refused) "r' = putChannel (ensureChannel r (Channel packet)) (Channel packet) st" "ds = []"
  | (stored) r3 a where "channels r3 = (channels (ensureChannel r (Channel packet)))(Channel packet \<mapsto> st)"
      "mayAccept (received st) (FragmentSequence packet)"
      "ordered \<Longrightarrow> nextDeliveredFragment st \<noteq> 0 \<and> nextDeliveredFragment st \<le> start"
      "case map_of (reassemblies st) start of None \<Rightarrow> a = \<lparr>aCount = FragmentCount packet, aFragments = [], aBytes = 0\<rparr>
        | Some a' \<Rightarrow> a = a' \<and> aCount a = FragmentCount packet \<and> map_of (aFragments a) (FragmentIndex packet) = None"
      "storeFragment r3 st ordered packet start a = (r', ds)"
proof -
  let ?c = "Channel packet"
  define r2 where "r2 = putChannel (ensureChannel r ?c) ?c st"
  have ch2: "channels r2 = (channels (ensureChannel r ?c))(?c \<mapsto> st)" by (simp add: r2_def putChannel_def)
  show ?thesis
  proof (cases "r' = r2 \<and> ds = []")
    case True
    then show ?thesis using refused by (simp add: r2_def)
  next
    case stores: False
    have eq: "receiveFragment r ordered packet =
       (if \<not> mayAccept (received st) (FragmentSequence packet) then (r2, [])
        else if ordered \<and> (nextDeliveredFragment st = 0 \<or> start < nextDeliveredFragment st) then (r2, [])
        else if (case map_of (reassemblies st) start of None \<Rightarrow> False | Some a \<Rightarrow>
             aCount a \<noteq> FragmentCount packet \<or> map_of (aFragments a) (FragmentIndex packet) \<noteq> None) then (r2, [])
        else if int (length (Payload packet)) > maxReassemblyReliableBytes - reassemblyBytes r2 then (r2, [])
        else if reassemblyParts r2 \<ge> maxReliableFragments then (r2, [])
        else case map_of (reassemblies st) start of
             Some a \<Rightarrow> storeFragment r2 st ordered packet start a
           | None \<Rightarrow>
               if reassemblyCount r2 \<ge> maxReliableAssemblies then (r2, [])
               else storeFragment (r2\<lparr>reassemblyCount := reassemblyCount r2 + 1\<rparr>) st ordered packet
                 start \<lparr>aCount = FragmentCount packet, aFragments = [], aBytes = 0\<rparr>)"
      by (simp only: receiveFragment_def Let_def st0 option.sel st_def r2_def start_def)
    have g: "mayAccept (received st) (FragmentSequence packet)"
      "ordered \<Longrightarrow> nextDeliveredFragment st \<noteq> 0 \<and> nextDeliveredFragment st \<le> start"
      using rec stores unfolding eq by (auto split: if_splits)
    show ?thesis
    proof (cases "map_of (reassemblies st) start")
      case None
      then have "storeFragment (r2\<lparr>reassemblyCount := reassemblyCount r2 + 1\<rparr>) st ordered packet
            start \<lparr>aCount = FragmentCount packet, aFragments = [], aBytes = 0\<rparr> = (r', ds)"
        using rec stores unfolding eq by (auto split: if_splits)
      then show ?thesis using g None ch2
        by (intro stored [of "r2\<lparr>reassemblyCount := reassemblyCount r2 + 1\<rparr>"]) auto
    next
      case (Some a)
      then have "storeFragment r2 st ordered packet start a = (r', ds)"
        "aCount a = FragmentCount packet" "map_of (aFragments a) (FragmentIndex packet) = None"
        using rec stores unfolding eq by (auto split: if_splits)
      then show ?thesis using g Some ch2 by (intro stored [of r2 a]) auto
    qed
  qed
qed

definition addFragment :: "reliableAssembly \<Rightarrow> ReliablePacket \<Rightarrow> reliableAssembly" where
  "addFragment a packet = a\<lparr>aFragments := AList.update (FragmentIndex packet) (Payload packet) (aFragments a),
     aBytes := aBytes a + int (length (Payload packet))\<rparr>"

lemma asm_ok_addFragment:
  assumes "asm_ok a" "map_of (aFragments a) (FragmentIndex packet) = None"
  shows "asm_ok (addFragment a packet)"
  using assms distinct_update_keys [of "aFragments a" "FragmentIndex packet" "Payload packet"]
    update_absent [OF assms(2)]
  by (simp add: asm_ok_def addFragment_def)

lemma asm_frag_addFragment:
  assumes ok: "msgs_ok M" and k: "k < length M" "unat ms = msgStart M k"
    and p: "unat (FragmentCount packet) = nfrag (M ! k)" "unat (FragmentIndex packet) < nfrag (M ! k)"
      "Payload packet = chunk (M ! k) (unat (FragmentIndex packet))"
    and a: "aFragments a = [] \<or> asm_frag M ms a" "aCount a = FragmentCount packet"
  shows "asm_frag M ms (addFragment a packet)"
proof -
  have "unat i < nfrag (M ! k) \<and> q = chunk (M ! k) (unat i)" if "(i, q) \<in> set (aFragments a)" for i q
  proof -
    from a(1) that obtain j where j: "j < length M" "unat ms = msgStart M j"
        "\<forall>(i, p) \<in> set (aFragments a). unat i < nfrag (M ! j) \<and> p = chunk (M ! j) (unat i)"
      by (auto simp: asm_frag_def)
    have "j = k" using msgStart_inject [OF ok j(1) k(1)] j(2) k(2) by simp
    with j(3) that show ?thesis by auto
  qed
  then have "\<forall>(i, q) \<in> set (aFragments (addFragment a packet)). unat i < nfrag (M ! k) \<and> q = chunk (M ! k) (unat i)"
    using p set_update_subset [of "FragmentIndex packet" "Payload packet" "aFragments a"]
    by (fastforce simp: addFragment_def)
  then show ?thesis
    unfolding asm_frag_def using k p(1) a(2) by (intro exI [of _ k]) (simp add: addFragment_def)
qed

definition pkt_frag :: "bytes list \<Rightarrow> ReliablePacket \<Rightarrow> bool" where
  "pkt_frag M p \<longleftrightarrow> is_frag M (unat (FragmentSequence p)) (unat (FragmentIndex p)) (unat (FragmentCount p)) (Payload p)"

lemma pkt_frag_append: "pkt_frag M p \<Longrightarrow> pkt_frag (M @ M') p"
  by (simp add: pkt_frag_def is_frag_append)

lemma pkt_frag_start:
  assumes "pkt_frag M p"
  obtains k where "k < length M" "unat (FragmentSequence p - ucast (FragmentIndex p)) = msgStart M k"
    "unat (FragmentCount p) = nfrag (M ! k)" "unat (FragmentIndex p) < nfrag (M ! k)"
    "Payload p = chunk (M ! k) (unat (FragmentIndex p))"
    "unat (FragmentSequence p) = msgStart M k + unat (FragmentIndex p)"
proof -
  obtain k where k: "k < length M" "unat (FragmentSequence p) = msgStart M k + unat (FragmentIndex p)"
    "unat (FragmentCount p) = nfrag (M ! k)" "unat (FragmentIndex p) < nfrag (M ! k)"
    "Payload p = chunk (M ! k) (unat (FragmentIndex p))"
    using assms by (auto simp: pkt_frag_def is_frag_def)
  have "ucast (FragmentIndex p) \<le> FragmentSequence p"
    using k(2) by (simp add: word_le_nat_alt unat_ucast_16_64)
  then have "unat (FragmentSequence p - ucast (FragmentIndex p)) = msgStart M k"
    using k(2) by (simp add: unat_sub unat_ucast_16_64)
  with k that show ?thesis by blast
qed

text \<open>The channel after a fragment went into its assembly and before anything is delivered.\<close>

definition storedChannel :: "reliableChannel \<Rightarrow> ReliablePacket \<Rightarrow> uint64 \<Rightarrow> reliableAssembly \<Rightarrow> reliableChannel" where
  "storedChannel st packet start a = st\<lparr>
     received := snd (accept (received st) (FragmentSequence packet)),
     reassemblies := AList.update start (addFragment a packet) (reassemblies st)\<rparr>"

lemma storedChannel_rel:
  assumes rel: "recv_rel ordered M D R st" and ok: "msgs_ok M" and p: "pkt_frag M packet"
    and start: "start = FragmentSequence packet - ucast (FragmentIndex packet)"
    and acc: "mayAccept (received st) (FragmentSequence packet)"
    and a: "case map_of (reassemblies st) start of None \<Rightarrow> a = \<lparr>aCount = FragmentCount packet, aFragments = [], aBytes = 0\<rparr>
        | Some a' \<Rightarrow> a = a' \<and> aCount a = FragmentCount packet \<and> map_of (aFragments a) (FragmentIndex packet) = None"
  defines "st1 \<equiv> storedChannel st packet start a" and "R1 \<equiv> insert (FragmentSequence packet) R"
  shows "win_rel (received st1) R1" "chst_ok st1" "asm_ok (addFragment a packet)"
    "map_of (reassemblies st1) ms = Some b \<Longrightarrow> asm_frag M ms b"
proof -
  note r = recv_relD [OF rel]
  have none: "map_of (aFragments a) (FragmentIndex packet) = None" and cnt: "aCount a = FragmentCount packet"
    and oka: "asm_ok a"
    using a chst_okD [OF r(2)] by (auto simp: asm_ok_def split: option.splits)
  show "win_rel (received st1) R1"
    using accept_rel [OF r(1), of "FragmentSequence packet"] acc
    by (simp add: mayAccept_def st1_def R1_def storedChannel_def)
  show ok1: "asm_ok (addFragment a packet)" using oka none by (rule asm_ok_addFragment)
  show "chst_ok st1"
    using r(2) ok1 set_update_subset [of start "addFragment a packet" "reassemblies st"]
    by (auto simp: chst_ok_def st1_def storedChannel_def)
  obtain k where k: "k < length M" "unat start = msgStart M k"
    "unat (FragmentCount packet) = nfrag (M ! k)" "unat (FragmentIndex packet) < nfrag (M ! k)"
    "Payload packet = chunk (M ! k) (unat (FragmentIndex packet))"
    using p start by (auto elim: pkt_frag_start)
  have "aFragments a = [] \<or> asm_frag M start a" using a r(3) by (auto split: option.splits)
  then have "asm_frag M start (addFragment a packet)"
    using asm_frag_addFragment [OF ok k] cnt by blast
  then show "map_of (reassemblies st1) ms = Some b \<Longrightarrow> asm_frag M ms b"
    using r(3) by (auto simp: st1_def storedChannel_def split: if_splits)
qed

lemma storedChannel_retained:
  assumes s: "retained st s \<or> s = FragmentSequence packet"
    and start: "start = FragmentSequence packet - ucast (FragmentIndex packet)"
    and a: "\<And>a'. map_of (reassemblies st) start = Some a' \<Longrightarrow> a = a'"
  shows "retained (storedChannel st packet start a) s"
proof (cases "s = FragmentSequence packet")
  case True
  then show ?thesis unfolding retained_def
    by (intro exI [of _ start] exI [of _ "addFragment a packet"] exI [of _ "FragmentIndex packet"])
      (simp add: storedChannel_def addFragment_def start)
next
  case False
  then obtain ms b i where b: "map_of (reassemblies st) ms = Some b" "map_of (aFragments b) i \<noteq> None" "s = ms + ucast i"
    using s by (auto simp: retained_def)
  show ?thesis unfolding retained_def
  proof (cases "ms = start")
    case True
    then show "\<exists>ms a' i. map_of (reassemblies (storedChannel st packet start a)) ms = Some a' \<and>
        map_of (aFragments a') i \<noteq> None \<and> s = ms + ucast i"
      using b a [of b] by (intro exI [of _ start] exI [of _ "addFragment a packet"] exI [of _ i])
        (simp add: storedChannel_def addFragment_def)
  next
    case False
    then show "\<exists>ms a' i. map_of (reassemblies (storedChannel st packet start a)) ms = Some a' \<and>
        map_of (aFragments a') i \<noteq> None \<and> s = ms + ucast i"
      using b by (intro exI [of _ ms] exI [of _ b] exI [of _ i]) (simp add: storedChannel_def)
  qed
qed

lemma storedChannel_recv_pre:
  assumes rel: "recv_rel True M D R st" and ok: "msgs_ok M" and p: "pkt_frag M packet"
    and start: "start = FragmentSequence packet - ucast (FragmentIndex packet)"
    and acc: "mayAccept (received st) (FragmentSequence packet)"
    and nd: "nextDeliveredFragment st \<noteq> 0 \<and> nextDeliveredFragment st \<le> start"
    and a: "case map_of (reassemblies st) start of None \<Rightarrow> a = \<lparr>aCount = FragmentCount packet, aFragments = [], aBytes = 0\<rparr>
        | Some a' \<Rightarrow> a = a' \<and> aCount a = FragmentCount packet \<and> map_of (aFragments a) (FragmentIndex packet) = None"
  shows "recv_pre M D (insert (FragmentSequence packet) R) (storedChannel st packet start a)"
proof -
  let ?st1 = "storedChannel st packet start a"
  note S = storedChannel_rel [OF rel ok p start acc a]
  have pre: "recv_pre M D R st" using rel by (simp add: recv_rel_def recv_ord_def)
  have nd': "nextDeliveredFragment st = of_nat (msgStart M (length D))" and l: "length D \<le> length M"
    using pre by (simp_all add: recv_pre_def)
  have "msgStart M (length D) \<noteq> 2 ^ 64" using nd nd' by auto
  then have "unat (nextDeliveredFragment st) = msgStart M (length D)"
    using msgStart_bound [OF ok l] nd' by (simp add: unat_of_nat_64)
  then have "msgStart M (length D) \<le> unat start" using nd by (simp add: word_le_nat_alt)
  then have ge: "msgStart M (length D) \<le> unat ms" if "map_of (reassemblies ?st1) ms = Some b" for ms b
    using that pre by (auto simp: storedChannel_def recv_pre_def split: if_splits)
  have ret: "unat s < msgStart M (length D) \<or> retained ?st1 s" if "s \<in> insert (FragmentSequence packet) R" for s
    using that pre a storedChannel_retained [OF _ start, of st s a]
    by (auto simp: recv_pre_def split: option.splits)
  show ?thesis
    unfolding recv_pre_def using S(1,2,4) pre ge ret nd'
    by (auto simp: recv_pre_def storedChannel_def)
qed

lemma storeFragment_eq:
  "storeFragment r st ordered packet start a =
    (let a1 = addFragment a packet; st1 = storedChannel st packet start a;
         r1 = r\<lparr>reassemblyBytes := reassemblyBytes r + int (length (Payload packet)),
                reassemblyParts := reassemblyParts r + 1\<rparr>
     in if \<not> complete a1 then (putChannel r1 (Channel packet) st1, [])
        else if \<not> ordered then
          let (r2, st2) = removeAssembly r1 st1 start
          in (putChannel r2 (Channel packet) st2, [\<lparr>dChannel = Channel packet, dPayload = assembleReliable a1\<rparr>])
        else let (r2, st2, delivered) = deliverOrdered (Channel packet) r1 st1
          in (putChannel r2 (Channel packet) st2, delivered))"
  by (simp only: storeFragment_def Let_def addFragment_def storedChannel_def)

lemma settled_stored:
  assumes "settled st" "\<not> complete (addFragment a packet)"
  shows "settled (storedChannel st packet start a)"
  using assms by (auto simp: settled_def storedChannel_def)

lemma storeFragment_rel:
  assumes rel: "recv_rel ordered M D R st" and ok: "msgs_ok M" and p: "pkt_frag M packet"
    and start: "start = FragmentSequence packet - ucast (FragmentIndex packet)"
    and acc: "mayAccept (received st) (FragmentSequence packet)"
    and nd: "ordered \<Longrightarrow> nextDeliveredFragment st \<noteq> 0 \<and> nextDeliveredFragment st \<le> start"
    and a: "case map_of (reassemblies st) start of None \<Rightarrow> a = \<lparr>aCount = FragmentCount packet, aFragments = [], aBytes = 0\<rparr>
        | Some a' \<Rightarrow> a = a' \<and> aCount a = FragmentCount packet \<and> map_of (aFragments a) (FragmentIndex packet) = None"
    and store: "storeFragment r st ordered packet start a = (r', ds)"
  shows "\<exists>st'. channels r' = (channels r)(Channel packet \<mapsto> st') \<and>
    recv_rel ordered M (D @ map dPayload ds) (insert (FragmentSequence packet) R) st' \<and>
    (\<forall>d \<in> set ds. dChannel d = Channel packet)"
proof -
  let ?a1 = "addFragment a packet" and ?st1 = "storedChannel st packet start a" and ?c = "Channel packet"
  let ?R = "insert (FragmentSequence packet) R"
  let ?r1 = "r\<lparr>reassemblyBytes := reassemblyBytes r + int (length (Payload packet)),
                reassemblyParts := reassemblyParts r + 1\<rparr>"
  note S = storedChannel_rel [OF rel ok p start acc a]
  have asm1: "asm_frag M start ?a1" by (rule S(4)) (simp add: storedChannel_def)
  have un1: "recv_un M D ?R ?st1" if "\<not> ordered"
    using rel that S(1,2,4) by (simp add: recv_rel_def recv_un_def)
  have pre1: "recv_pre M D ?R ?st1" if ordered
    using storedChannel_recv_pre [OF _ ok p start acc nd a] rel that by simp
  show ?thesis
  proof (cases "complete ?a1")
    case False
    then have res: "r' = putChannel ?r1 ?c ?st1" "ds = []" using store by (auto simp: storeFragment_eq Let_def)
    have "recv_ord M D ?R ?st1" if ordered
      using pre1 [OF that] settled_stored [OF _ False] rel that by (simp add: recv_rel_def recv_ord_def)
    then show ?thesis using un1 res by (auto simp: recv_rel_def putChannel_def)
  next
    case compl: True
    show ?thesis
    proof (cases ordered)
      case False
      obtain r2 st2 where rm: "removeAssembly ?r1 ?st1 start = (r2, st2)" by fastforce
      then have res: "r' = putChannel r2 ?c st2" "ds = [\<lparr>dChannel = ?c, dPayload = assembleReliable ?a1\<rparr>]"
        using store compl False by (auto simp: storeFragment_eq Let_def)
      have dr: "drains ?r1 ?st1 r2 st2" using S(2) rm by (rule drains_removeAssembly)
      obtain j where j: "j < length M" "unat start = msgStart M j" using asm1 by (auto simp: asm_frag_def)
      have "assembleReliable ?a1 = M ! j"
        using assembleReliable_complete [OF asm1 _ compl j ok] S(3) by (simp add: asm_ok_def)
      then have "set (D @ map dPayload ds) \<subseteq> set M" using un1 [OF False] j(1) by (simp add: res recv_un_def)
      moreover have "asm_frag M ms b" if "map_of (reassemblies st2) ms = Some b" for ms b
        using that rm S(4) by (auto simp: removeAssembly_def split: option.splits if_splits)
      ultimately have "recv_un M (D @ map dPayload ds) ?R st2"
        using dr S(1) by (simp add: recv_un_def drains_def)
      then show ?thesis using dr False by (auto simp: res recv_rel_def putChannel_def drains_def core_def)
    next
      case True
      obtain r2 st2 ds2 where dl: "deliverOrdered ?c ?r1 ?st1 = (r2, st2, ds2)" by (metis prod_cases3)
      then have res: "r' = putChannel r2 ?c st2" "ds = ds2"
        using store compl True by (auto simp: storeFragment_eq Let_def)
      have "channels r2 = channels r"
        using drains_deliverOrdered [OF S(2) dl] by (simp add: drains_def core_def)
      then show ?thesis
        using recv_ord_deliverOrdered [OF ok pre1 [OF True] dl] True by (auto simp: res recv_rel_def putChannel_def)
    qed
  qed
qed

lemma receiveFragment_rel:
  assumes rec: "receiveFragment r ordered packet = (r', ds)"
    and st0: "channels (ensureChannel r (Channel packet)) (Channel packet) = Some st0"
    and rel: "recv_rel ordered M D R st0" and ok: "msgs_ok M" and p: "pkt_frag M packet"
  shows "\<exists>st' R'. channels r' = (channels (ensureChannel r (Channel packet)))(Channel packet \<mapsto> st') \<and>
    R \<subseteq> R' \<and> recv_rel ordered M (D @ map dPayload ds) R' st' \<and> (\<forall>d \<in> set ds. dChannel d = Channel packet)"
proof -
  let ?st = "st0\<lparr>ackDirty := True\<rparr>"
  have rel': "recv_rel ordered M D R ?st" using rel by (simp cong: recv_rel_cong)
  from rec st0 show ?thesis
  proof (cases rule: receiveFragment_cases)
    case refused
    then show ?thesis using rel' by (intro exI [of _ ?st] exI [of _ R]) (simp add: putChannel_def)
  next
    case (stored r3 a)
    obtain st' where "channels r' = (channels r3)(Channel packet \<mapsto> st')"
      "recv_rel ordered M (D @ map dPayload ds) (insert (FragmentSequence packet) R) st'"
      "\<forall>d \<in> set ds. dChannel d = Channel packet"
      using storeFragment_rel [OF rel' ok p refl stored(2,3,4,5)] by blast
    then show ?thesis using stored(1)
      by (intro exI [of _ st'] exI [of _ "insert (FragmentSequence packet) R"]) auto
  qed
qed

end
