(* ===== verification/ReliableSystem.thy ===== *)
theory ReliableSystem
  imports ReliableReceive "HOL-Library.Sublist"
begin

text \<open>
  Two reliable transports and the network between them.  \<open>sys_step\<close> interleaves the
  operations of \<open>internal/peer/reliable.go\<close> at either end with a network that keeps every
  packet sent and hands any of them over any number of times, in any order, or never.
  \<open>sys_inv\<close> is the invariant of that system; it gives in-order delivery without loss or
  duplication on the ordered channels.
\<close>

section \<open>The system\<close>

text \<open>The two ends are \<open>True\<close> and \<open>False\<close>.  \<open>sent\<close> and \<open>got\<close> record what each end queued and
  delivered on each channel.\<close>

record sys =
  tr :: "bool \<Rightarrow> reliableTransport"
  net :: "bool \<Rightarrow> ReliablePacket set"
  sent :: "bool \<Rightarrow> uint16 \<Rightarrow> bytes list"
  got :: "bool \<Rightarrow> uint16 \<Rightarrow> bytes list"

definition sys_start :: sys where
  "sys_start = \<lparr>tr = (\<lambda>_. newReliableTransport), net = (\<lambda>_. {}), sent = (\<lambda>_ _. []), got = (\<lambda>_ _. [])\<rparr>"

definition hand_over :: "(uint16 \<Rightarrow> bytes list) \<Rightarrow> deliveredReliableMessage list \<Rightarrow> uint16 \<Rightarrow> bytes list" where
  "hand_over g ds c = g c @ map dPayload (filter (\<lambda>d. dChannel d = c) ds)"

inductive sys_step :: "sys \<Rightarrow> sys \<Rightarrow> bool" where
  step_queue: "queue (tr s b) c m = (Inr (), r') \<Longrightarrow>
     sys_step s (s\<lparr>tr := (tr s)(b := r'), sent := (sent s)(b := (sent s b)(c := sent s b c @ [m]))\<rparr>)"
| step_send: "nextSend (tr s b) now = Some (p, res) \<Longrightarrow>
     sys_step s (s\<lparr>tr := (tr s)(b := commit (tr s b) res), net := (net s)(b := insert p (net s b))\<rparr>)"
| step_reject: "nextSend (tr s b) now = Some (p, res) \<Longrightarrow>
     sys_step s (s\<lparr>tr := (tr s)(b := reject (tr s b) res)\<rparr>)"
| step_receive: "p \<in> net s (\<not> b) \<Longrightarrow> receive (tr s b) p now = (r', ds) \<Longrightarrow>
     sys_step s (s\<lparr>tr := (tr s)(b := r'), got := (got s)(b := hand_over (got s b) ds)\<rparr>)"
| step_discard_out: "sys_step s (s\<lparr>tr := (tr s)(b := discardOutboundChannel (tr s b) reliableChannelFileData)\<rparr>)"
| step_discard_in: "sys_step s (s\<lparr>tr := (tr s)(b := discardInboundChannel (tr s b) reliableChannelFileData)\<rparr>)"

section \<open>One end\<close>

abbreviation orderedChannel :: "uint16 \<Rightarrow> bool" where
  "orderedChannel c \<equiv> fst (reliableChannelOrdered c)"

abbreviation knownChannel :: "uint16 \<Rightarrow> bool" where
  "knownChannel c \<equiv> snd (reliableChannelOrdered c)"

lemma orderedChannel_known: "orderedChannel c \<Longrightarrow> knownChannel c"
  by (auto simp: reliableChannelOrdered_def split: if_splits)

text \<open>The state of a channel, new when there is none yet.\<close>

definition chan :: "reliableTransport \<Rightarrow> uint16 \<Rightarrow> reliableChannel" where
  "chan r c = (case channels r c of None \<Rightarrow> newChannel | Some st \<Rightarrow> st)"

lemma chan_ensureChannel [simp]: "chan (ensureChannel r c) = chan r"
  by (auto simp: chan_def ensureChannel_def addChannel_def fun_eq_iff split: option.splits)

lemma chan_put [simp]: "chan (putChannel r c st) x = (if x = c then st else chan r x)"
  by (simp add: chan_def putChannel_def)

lemma channels_chan: "channels r c = Some st \<Longrightarrow> chan r c = st"
  by (simp add: chan_def)

lemma chan_cong: "channels r' = channels r \<Longrightarrow> chan r' = chan r"
  by (simp add: chan_def fun_eq_iff)

abbreviation frag_of :: "bytes list \<Rightarrow> reliableFragment \<Rightarrow> bool" where
  "frag_of M f \<equiv> is_frag M (unat (fSequence f)) (unat (fIndex f)) (unat (fCount f)) (fPayload f)"

definition send_ok :: "(uint16 \<Rightarrow> bytes list) \<Rightarrow> reliableTransport \<Rightarrow> bool" where
  "send_ok L r \<longleftrightarrow>
     (\<forall>c. msgs_ok (L c) \<and> msgStart (L c) (length (L c)) = unat (nextFragmentSequence (chan r c)) + 1) \<and>
     (\<forall>c \<in> dom (channels r). knownChannel c) \<and>
     (\<forall>f \<in> set (outbound r). frag_of (L (fChannel f)) f)"

definition recv_ok ::
  "(uint16 \<Rightarrow> bytes list) \<Rightarrow> (uint16 \<Rightarrow> bytes list) \<Rightarrow> (uint16 \<Rightarrow> uint64 set) \<Rightarrow> reliableTransport \<Rightarrow> bool" where
  "recv_ok L D R r \<longleftrightarrow> (\<forall>c. recv_rel (orderedChannel c) (L c) (D c) (R c) (chan r c))"

definition okeys :: "reliableTransport \<Rightarrow> (uint16 \<times> uint64) set" where
  "okeys r = fkey ` set (outbound r)"

text \<open>On an ordered channel every fragment is still queued or was accepted by the peer.\<close>

definition covered :: "(uint16 \<Rightarrow> uint64 set) \<Rightarrow> reliableTransport \<Rightarrow> bool" where
  "covered R r \<longleftrightarrow> (\<forall>c q. orderedChannel c \<longrightarrow> q \<noteq> 0 \<longrightarrow> q \<le> nextFragmentSequence (chan r c) \<longrightarrow>
     q \<in> R c \<or> (c, q) \<in> okeys r)"

definition pkt_ok :: "(uint16 \<Rightarrow> bytes list) \<Rightarrow> (uint16 \<Rightarrow> uint64 set) \<Rightarrow> ReliablePacket \<Rightarrow> bool" where
  "pkt_ok L R p \<longleftrightarrow> validateReliableBody p = Inr () \<and> (AckOnly p \<or> pkt_frag (L (Channel p)) p) \<and>
     (\<forall>q. FragmentAckContains (FragmentAckBase p) (FragmentAckBitmap p) q \<longrightarrow> q \<in> R (Channel p))"

definition end_ok where
  "end_ok L L' D R R' N r \<longleftrightarrow> acct_inv r \<and> send_ok L r \<and> recv_ok L' D R r \<and> covered R' r \<and>
     (\<forall>p \<in> N. pkt_ok L R p)"

lemma end_ok_mono:
  assumes "end_ok L L' D R R' N r" "\<And>c. \<exists>M. L'' c = L' c @ M" "\<And>c. R' c \<subseteq> R'' c"
  shows "end_ok L L'' D R R'' N r"
proof -
  have "recv_rel (orderedChannel c) (L'' c) (D c) (R c) (chan r c)" for c
  proof -
    obtain M where "L'' c = L' c @ M" using assms(2) by blast
    then show ?thesis using assms(1) by (simp add: end_ok_def recv_ok_def recv_rel_append)
  qed
  then have "recv_ok L'' D R r" by (simp add: recv_ok_def)
  moreover have "covered R'' r" unfolding covered_def
  proof (intro allI impI)
    fix c q assume h: "orderedChannel c" "q \<noteq> 0" "q \<le> nextFragmentSequence (chan r c)"
    have "covered R' r" using assms(1) by (simp add: end_ok_def)
    then have "q \<in> R' c \<or> (c, q) \<in> okeys r" using h by (simp add: covered_def)
    with assms(3) [of c] show "q \<in> R'' c \<or> (c, q) \<in> okeys r" by auto
  qed
  ultimately show ?thesis using assms(1) by (simp add: end_ok_def)
qed

section \<open>Frames\<close>

definition static :: "reliableFragment \<Rightarrow> uint16 \<times> uint64 \<times> uint16 \<times> uint16 \<times> bytes" where
  "static f = (fChannel f, fSequence f, fIndex f, fCount f, fPayload f)"

lemma send_ok_frame:
  assumes "send_ok L r" "static ` set (outbound r') \<subseteq> static ` set (outbound r)"
    "\<And>c. nextFragmentSequence (chan r' c) = nextFragmentSequence (chan r c)"
    "\<And>c. c \<in> dom (channels r') \<Longrightarrow> c \<in> dom (channels r) \<or> knownChannel c"
  shows "send_ok L r'"
proof -
  have "frag_of (L (fChannel f)) f" if "f \<in> set (outbound r')" for f
  proof -
    have "static f \<in> static ` set (outbound r)" using assms(2) that by blast
    then obtain g where g: "g \<in> set (outbound r)" "static g = static f" by auto
    then have "frag_of (L (fChannel g)) g" using assms(1) by (simp add: send_ok_def)
    with g(2) show ?thesis by (simp add: static_def)
  qed
  moreover have "knownChannel c" if "c \<in> dom (channels r')" for c
    using assms(1) assms(4) [OF that] by (auto simp: send_ok_def)
  ultimately show ?thesis using assms(1,3) by (simp add: send_ok_def)
qed

lemma recv_ok_frame:
  assumes "recv_ok L D R r" "\<And>c. received (chan r' c) = received (chan r c)"
    "\<And>c. reassemblies (chan r' c) = reassemblies (chan r c)"
    "\<And>c. nextDeliveredFragment (chan r' c) = nextDeliveredFragment (chan r c)"
  shows "recv_ok L D R r'"
  using assms(1) recv_rel_cong [OF assms(2,3,4)] by (simp add: recv_ok_def)

lemma covered_frame:
  assumes "covered R r" "\<And>c. nextFragmentSequence (chan r' c) = nextFragmentSequence (chan r c)"
    "\<And>c q. (c, q) \<in> okeys r \<Longrightarrow> orderedChannel c \<Longrightarrow> (c, q) \<in> okeys r' \<or> q \<in> R c"
  shows "covered R r'"
  unfolding covered_def
proof (intro allI impI)
  fix c q assume h: "orderedChannel c" "q \<noteq> 0" "q \<le> nextFragmentSequence (chan r' c)"
  then have "q \<in> R c \<or> (c, q) \<in> okeys r" using assms(1,2) by (simp add: covered_def)
  with assms(3) [OF _ h(1)] show "q \<in> R c \<or> (c, q) \<in> okeys r'" by auto
qed

lemma static_fkey: "static f = static g \<Longrightarrow> fkey f = fkey g"
  by (simp add: static_def fkey_def)

section \<open>Queueing\<close>

lemma msgs_ok_snoc:
  assumes "msgs_ok M" "0 < nfrag m" "nfrag m \<le> 1024" "msgStart M (length M) + nfrag m \<le> 2 ^ 64"
  shows "msgs_ok (M @ [m])" "msgStart (M @ [m]) (Suc (length M)) = msgStart M (length M) + nfrag m"
proof -
  show start: "msgStart (M @ [m]) (Suc (length M)) = msgStart M (length M) + nfrag m"
    by (simp add: msgStart_def)
  then show "msgs_ok (M @ [m])" using assms by (auto simp: msgs_ok_def)
qed

lemma frag_of_new:
  assumes "unat nxt + nfrag m < 2 ^ 64" "nfrag m \<le> 1024" "msgStart M (length M) = unat nxt + 1"
    "f \<in> set (newFragments c nxt m)"
  shows "fChannel f = c" "frag_of (M @ [m]) f"
proof -
  obtain i where i: "i < nfrag m" "f = newFragment c (nxt + 1 + of_nat i) (nfrag m) m i"
    "unat (fSequence f) = unat nxt + 1 + i"
    using newFragments_seq [OF _ assms(4)] assms(1) unfolding nfrag_def by metis
  then show "fChannel f = c" by simp
  have "unat (of_nat i :: uint16) = i" "unat (of_nat (nfrag m) :: uint16) = nfrag m"
    using i(1) assms(2) by (simp_all add: unat_of_nat)
  then show "frag_of (M @ [m]) f"
    unfolding is_frag_def using i assms(3) by (intro exI [of _ "length M"]) simp
qed

lemma newFragments_key:
  assumes "unat nxt + nfrag m < 2 ^ 64" "nxt < q" "q \<le> nxt + of_nat (nfrag m)"
  shows "(c, q) \<in> fkey ` set (newFragments c nxt m)"
proof -
  define i where "i = unat q - unat nxt - 1"
  have le: "unat q \<le> unat nxt + nfrag m" and lt: "unat nxt < unat q"
    using assms unat_of_nat_64 [of "unat nxt + nfrag m"] by (simp_all add: word_le_nat_alt word_less_nat_alt)
  then have i: "i < nfrag m" by (auto simp: i_def)
  have "unat (nxt + 1 + of_nat i) = unat q"
    using unat_nxt_plus [OF assms(1) i] lt by (simp add: i_def)
  then have q: "q = nxt + 1 + of_nat i" by (simp add: word_unat_eq_iff)
  have "newFragment c q (nfrag m) m i \<in> set (newFragments c nxt m)"
    using i unfolding newFragments_def nfrag_def q by auto
  moreover have "fkey (newFragment c q (nfrag m) m i) = (c, q)" by (simp add: fkey_def)
  ultimately show ?thesis by (metis image_eqI)
qed

lemma end_ok_queue:
  assumes inv: "end_ok L L' D R R' N r" and q: "queue r c m = (Inr (), r')"
  shows "end_ok (L(c := L c @ [m])) L' D R R' N r'"
proof -
  obtain st where can: "canQueue r c (length m) = Inr ()" and st: "channels (ensureChannel r c) c = Some st"
    and r': "r' = (putChannel (ensureChannel r c) c (st\<lparr>nextFragmentSequence :=
              nextFragmentSequence st + of_nat (nfrag m)\<rparr>))
            \<lparr>outbound := outbound r @ newFragments c (nextFragmentSequence st) m,
             queuedBytes := queuedBytes r + int (length m)\<rparr>"
    using q unfolding nfrag_def by (rule queue_OK)
  let ?n = "nextFragmentSequence st"
  have st': "chan r c = st" using channels_chan [OF st] by simp
  note cq = canQueue_OK [OF can]
  have fit: "unat ?n + nfrag m < 2 ^ 64" using cq(5) [OF st] by (simp add: nfrag_def)
  have nf: "0 < nfrag m" "nfrag m \<le> 1024"
    using cq(2,3) fragmentCountOf_bounds(2,3) [of "length m"] by (simp_all add: nfrag_def)
  have un: "unat (?n + of_nat (nfrag m)) = unat ?n + nfrag m"
    using unat_of_nat_64 [OF fit] by simp
  have chan': "chan r' x = (if x = c then st\<lparr>nextFragmentSequence := ?n + of_nat (nfrag m)\<rparr> else chan r x)" for x
    using chan_cong [of r' "putChannel (ensureChannel r c) c (st\<lparr>nextFragmentSequence := ?n + of_nat (nfrag m)\<rparr>)"]
    by (simp add: r')
  have out: "outbound r' = outbound r @ newFragments c ?n m" by (simp add: r')
  have S: "send_ok L r" and st0: "msgStart (L c) (length (L c)) = unat ?n + 1"
    using inv st' by (auto simp: end_ok_def send_ok_def)
  have "msgs_ok (L c)" using S by (simp add: send_ok_def)
  then have snoc: "msgs_ok (L c @ [m])" "msgStart (L c @ [m]) (Suc (length (L c))) = unat ?n + 1 + nfrag m"
    using msgs_ok_snoc [of "L c" m] nf fit st0 by simp_all
  have fr: "frag_of ((L(c := L c @ [m])) (fChannel f)) f" if "f \<in> set (outbound r')" for f
  proof (cases "f \<in> set (outbound r)")
    case True
    then have "frag_of (L (fChannel f)) f" using S by (simp add: send_ok_def)
    then show ?thesis by (auto simp: is_frag_append)
  next
    case False
    then have "f \<in> set (newFragments c ?n m)" using that by (simp add: out)
    then show ?thesis using frag_of_new [OF fit nf(2) st0, of f c] by simp
  qed
  have "channels r' = (channels (ensureChannel r c))(c \<mapsto> st\<lparr>nextFragmentSequence := ?n + of_nat (nfrag m)\<rparr>)"
    by (simp add: r' putChannel_def)
  then have dom: "x \<in> dom (channels r) \<or> x = c" if "x \<in> dom (channels r')" for x
    using that by (auto simp: ensureChannel_def addChannel_def split: option.splits if_splits)
  have known: "knownChannel x" if "x \<in> dom (channels r')" for x
    using dom [OF that] S cq(1) by (auto simp: send_ok_def)
  have "send_ok (L(c := L c @ [m])) r'"
    using S fr snoc known chan' un unfolding send_ok_def by auto
  moreover have "recv_ok L' D R r'"
    by (rule recv_ok_frame [of L' D R r]) (use inv st' in \<open>auto simp: end_ok_def chan'\<close>)
  moreover have "covered R' r'"
    unfolding covered_def
  proof (intro allI impI)
    fix x y assume h: "orderedChannel x" "y \<noteq> 0" "y \<le> nextFragmentSequence (chan r' x)"
    have ok: "okeys r \<subseteq> okeys r'" by (auto simp: okeys_def out)
    show "y \<in> R' x \<or> (x, y) \<in> okeys r'"
    proof (cases "y \<le> nextFragmentSequence (chan r x)")
      case True
      then have "y \<in> R' x \<or> (x, y) \<in> okeys r" using inv h by (simp add: end_ok_def covered_def)
      with ok show ?thesis by auto
    next
      case False
      with h chan' st' have "x = c" "?n < y" "y \<le> ?n + of_nat (nfrag m)" by (auto split: if_splits)
      then have "(x, y) \<in> okeys r'" using newFragments_key [OF fit, of y c] by (auto simp: okeys_def out)
      then show ?thesis ..
    qed
  qed
  moreover have "acct_inv r'" using inv q acct_inv_queue by (auto simp: end_ok_def)
  moreover have "\<forall>p \<in> N. pkt_ok (L(c := L c @ [m])) R p"
    using inv by (auto simp: end_ok_def pkt_ok_def pkt_frag_append)
  ultimately show ?thesis by (simp add: end_ok_def)
qed

section \<open>Sending\<close>

lemma validReliableAck_window: "win_rel w R \<Longrightarrow> validReliableAck (highest w) (seen w)"
proof -
  assume rel: "win_rel w R"
  have bit: "bit (seen w) d \<longleftrightarrow> d < 64 \<and> (\<exists>q \<in> R. unat q + d = unat (highest w))" for d
    using win_relD(4) [OF rel, of d] bit_imp_le_length [of "seen w" d] by auto
  have pos: "0 < unat q" if "q \<in> R" for q
    using win_relD(1) [OF rel] that by (auto simp: unat_gt_0)
  show ?thesis
  proof (cases "highest w = 0")
    case True
    then have "\<not> bit (seen w) d" for d using bit pos by auto
    then have "seen w = 0" by (simp add: bit_eq_iff)
    with True show ?thesis by (simp add: validReliableAck_def)
  next
    case False
    then have "bit (seen w) 0" using bit [of 0] win_relD(3) [OF rel] by auto
    then have "seen w AND 1 \<noteq> 0" using and_mask_bit [of "seen w" 0] by simp
    moreover have "\<not> bit (drop_bit (unat (highest w)) (seen w)) d" for d
      using bit [of "unat (highest w) + d"] pos by (auto simp: bit_simps)
    then have "drop_bit (unat (highest w)) (seen w) = 0" by (simp add: bit_eq_iff)
    ultimately show ?thesis using False by (simp add: validReliableAck_def)
  qed
qed

lemma FragmentAckContains_window:
  "win_rel w R \<Longrightarrow> FragmentAckContains (highest w) (seen w) q \<Longrightarrow> q \<in> R"
  using win_rel_ack [of w R q] by (auto simp: FragmentAckContains_def Let_def not_less split: if_splits)

lemma pkt_frag_valid:
  assumes ok: "msgs_ok M" and p: "pkt_frag M p" and c: "Channel p \<noteq> 0"
    and ack: "validReliableAck (FragmentAckBase p) (FragmentAckBitmap p)"
  shows "validateReliableBody p = Inr ()" "\<not> AckOnly p"
proof -
  obtain k where k: "k < length M" "unat (FragmentSequence p - ucast (FragmentIndex p)) = msgStart M k"
    "unat (FragmentCount p) = nfrag (M ! k)" "unat (FragmentIndex p) < nfrag (M ! k)"
    "Payload p = chunk (M ! k) (unat (FragmentIndex p))"
    "unat (FragmentSequence p) = msgStart M k + unat (FragmentIndex p)"
    using p by (rule pkt_frag_start)
  have nf: "nfrag (M ! k) \<le> 1024" "0 < nfrag (M ! k)" using ok k(1) by (simp_all add: msgs_ok_def)
  have pay: "Payload p \<noteq> []" "length (Payload p) \<le> 1064"
    using chunk_nonempty [of _ "M ! k"] chunk_length k(4,5) by (simp_all add: nfrag_def)
  have seq: "ucast (FragmentIndex p) < FragmentSequence p"
    using k(6) msgStart_pos [of M k] by (simp add: word_less_nat_alt unat_ucast_16_64)
  show ne: "\<not> AckOnly p" using seq by (auto simp: AckOnly_def)
  have cnt: "FragmentCount p \<noteq> 0" "FragmentIndex p < FragmentCount p"
    using nf k(3,4) by (auto simp: word_less_nat_alt unat_gt_0 [symmetric])
  have "msgStart M k + nfrag (M ! k) \<le> 2 ^ 64"
    using msgStart_bound [OF ok, of "Suc k"] k(1) by (simp add: msgStart_Suc)
  moreover have "unat (NOT 0 - (FragmentSequence p - ucast (FragmentIndex p))) = 2 ^ 64 - 1 - msgStart M k"
    using k(2) by (subst unat_sub) (simp_all add: unsigned_minus_1_eq_mask mask_eq_exp_minus_1)
  moreover have "unat (ucast (FragmentCount p) - 1 :: uint64) = nfrag (M ! k) - 1"
    using nf k(3) unat_ucast_16_64 [of "FragmentCount p"] by (subst unat_sub) (simp_all add: word_le_nat_alt)
  ultimately have "\<not> NOT 0 - (FragmentSequence p - ucast (FragmentIndex p)) < ucast (FragmentCount p) - (1 :: uint64)"
    by (simp add: word_less_nat_alt del: word_not_simps)
  then show "validateReliableBody p = Inr ()"
    using c ack ne cnt seq pay nf k(3) by (simp add: validateReliableBody_def Let_def not_le)
qed

lemma knownChannel_nonzero: "knownChannel c \<Longrightarrow> c \<noteq> 0"
  by (auto simp: reliableChannelOrdered_def split: if_splits)

lemma nextSend_pkt_ok:
  assumes inv: "end_ok L L' D R R' N r" and s: "nextSend r now = Some (p, res)"
  shows "pkt_ok L R p"
proof -
  have acct: "acct_inv r" and S: "send_ok L r" and rel: "recv_rel (orderedChannel c) (L' c) (D c) (R c) (chan r c)" for c
    using inv by (auto simp: end_ok_def recv_ok_def)
  have win: "win_rel (received (chan r c)) (R c)" for c using recv_relD(1) [OF rel] .
  note ack = validReliableAck_window [OF win] and sound = FragmentAckContains_window [OF win]
  have state: "the (channels r c) = chan r c" "c \<noteq> 0" if "c \<in> dom (channels r)" for c
    using that S knownChannel_nonzero by (auto simp: chan_def send_ok_def)
  from nextSend_cases [OF s] show ?thesis
  proof
    assume "nextAck r = Some (p, res)"
    then obtain c i where c: "c \<in> set (ackChannels r)"
      and p: "p = \<lparr>Channel = c, FragmentSequence = 0, FragmentIndex = 0, FragmentCount = 0,
      FragmentAckBase = highest (received (the (channels r c))),
      FragmentAckBitmap = seen (received (the (channels r c))), Payload = []\<rparr>"
      by (rule nextAck_SomeD)
    have "c \<in> dom (channels r)" using acct c by (simp add: acct_inv_def chan_inv_def)
    with state show ?thesis using ack sound by (simp add: pkt_ok_def p AckOnly_def validateReliableBody_def)
  next
    assume "nextPacket r now = Some (p, res)"
    then obtain f where f: "f \<in> set (outbound r)" "p = packetFor r f" by (rule nextPacket_SomeD)
    have fr: "frag_of (L (fChannel f)) f" and ok: "msgs_ok (L (fChannel f))" using S f(1) by (auto simp: send_ok_def)
    have "fChannel f \<in> dom (channels r)" using acct f(1) by (auto simp: acct_inv_def out_inv_def fragment_of_def)
    note ch = state [OF this]
    have pf: "pkt_frag (L (Channel p)) p" using fr by (simp add: f(2) packetFor_def Let_def pkt_frag_def)
    then have "validateReliableBody p = Inr ()"
      using pkt_frag_valid(1) [of "L (fChannel f)" p] ok ch ack by (simp add: f(2) packetFor_def Let_def)
    with pf show ?thesis using ch sound by (simp add: pkt_ok_def f(2) packetFor_def Let_def)
  qed
qed

lemma static_commit: "map static (outbound (commit r res)) = map static (outbound r)"
  by (auto simp: commit_def commitNew_def commitRetransmit_def updateFragment_def markTransmitted_def
      static_def Let_def split: reliableReservation.splits)

lemma chan_commit:
  "received (chan (commit r res) c) = received (chan r c)"
  "reassemblies (chan (commit r res) c) = reassemblies (chan r c)"
  "nextDeliveredFragment (chan (commit r res) c) = nextDeliveredFragment (chan r c)"
  "nextFragmentSequence (chan (commit r res) c) = nextFragmentSequence (chan r c)"
  "dom (channels (commit r res)) = dom (channels r)"
  by (auto simp: commit_def chan_def clearAckDirty_channels commitNew_def commitRetransmit_def Let_def dom_def
      split: reliableReservation.splits option.splits if_splits)

lemma okeys_static: "static ` set (outbound r') = static ` set (outbound r) \<Longrightarrow> okeys r' = okeys r"
proof -
  assume "static ` set (outbound r') = static ` set (outbound r)"
  then have "(\<lambda>(c, q, _). (c, q)) ` static ` set (outbound r') = (\<lambda>(c, q, _). (c, q)) ` static ` set (outbound r)"
    by simp
  then show ?thesis by (simp add: image_image okeys_def static_def fkey_def)
qed

lemma end_ok_frame:
  assumes inv: "end_ok L L' D R R' N r" and acct: "acct_inv r'"
    and out: "map static (outbound r') = map static (outbound r)"
    and ch: "\<And>c. received (chan r' c) = received (chan r c)"
      "\<And>c. reassemblies (chan r' c) = reassemblies (chan r c)"
      "\<And>c. nextDeliveredFragment (chan r' c) = nextDeliveredFragment (chan r c)"
      "\<And>c. nextFragmentSequence (chan r' c) = nextFragmentSequence (chan r c)"
      "dom (channels r') = dom (channels r)"
  shows "end_ok L L' D R R' N r'"
proof -
  have st: "static ` set (outbound r') = static ` set (outbound r)" using arg_cong [OF out, of set] by simp
  have "send_ok L r'" by (rule send_ok_frame [of L r]) (use inv st ch in \<open>auto simp: end_ok_def\<close>)
  moreover have "recv_ok L' D R r'" by (rule recv_ok_frame [of L' D R r]) (use inv ch in \<open>auto simp: end_ok_def\<close>)
  moreover have "covered R' r'"
    by (rule covered_frame [of R' r]) (use inv ch okeys_static [OF st] in \<open>auto simp: end_ok_def\<close>)
  ultimately show ?thesis using inv acct by (simp add: end_ok_def)
qed

lemma end_ok_commit:
  assumes "end_ok L L' D R R' N r" "nextSend r now = Some (p, res)"
  shows "end_ok L L' D R R' (insert p N) (commit r res)"
proof -
  have "acct_inv (commit r res)"
    using assms nextSend_fresh by (auto simp: end_ok_def intro: acct_inv_commit)
  then have "end_ok L L' D R R' N (commit r res)"
    by (rule end_ok_frame [OF assms(1)]) (simp_all add: static_commit chan_commit)
  then show ?thesis using nextSend_pkt_ok [OF assms] by (simp add: end_ok_def)
qed

lemma end_ok_reject:
  assumes "end_ok L L' D R R' N r"
  shows "end_ok L L' D R R' N (reject r res)"
  by (rule end_ok_frame [OF assms])
    (use assms acct_inv_reject in \<open>auto simp: end_ok_def reject_def chan_def\<close>)

section \<open>Receiving\<close>

lemma acct_inv_consumeFragmentAck: "acct_inv r \<Longrightarrow> acct_inv (consumeFragmentAck r c base bitmap now)"
  using re_inv_cong [of "consumeFragmentAck r c base bitmap now" r]
    chan_inv_cong [of "consumeFragmentAck r c base bitmap now" r]
    cc_inv_consumeFragmentAck [of r c base bitmap now] out_inv_consumeFragmentAck [of r c base bitmap now]
  by (simp add: acct_inv_def consumeFragmentAck_frame)

lemma end_ok_consume:
  assumes inv: "end_ok L L' D R R' N r"
    and ack: "\<And>q. FragmentAckContains base bitmap q \<Longrightarrow> q \<in> R' c"
  shows "end_ok L L' D R R' N (consumeFragmentAck r c base bitmap now)" (is "end_ok _ _ _ _ _ _ ?r")
proof -
  have ch: "channels ?r = channels r" by (simp add: consumeFragmentAck_frame)
  then have chan: "chan ?r = chan r" by (rule chan_cong)
  have sub: "set (outbound ?r) \<subseteq> set (outbound r)" by (auto simp: consumeFragmentAck_frame)
  have "send_ok L ?r"
    by (rule send_ok_frame [of L r]) (use inv ch chan sub in \<open>auto simp: end_ok_def\<close>)
  moreover have "recv_ok L' D R ?r" using inv by (simp add: end_ok_def recv_ok_def chan)
  moreover have "covered R' ?r"
  proof (rule covered_frame [of R' r])
    fix x q assume "(x, q) \<in> okeys r"
    then obtain f where f: "f \<in> set (outbound r)" "fkey f = (x, q)" by (auto simp: okeys_def)
    show "(x, q) \<in> okeys ?r \<or> q \<in> R' x"
    proof (cases "f \<in> set (outbound ?r)")
      case True
      then have "fkey f \<in> okeys ?r" by (simp add: okeys_def)
      with f(2) show ?thesis by simp
    next
      case False
      then have "ackedBy c base bitmap f" using f(1) by (auto simp: consumeFragmentAck_frame split: if_splits)
      then show ?thesis using ack f(2) by (auto simp: ackedBy_def fkey_def)
    qed
  qed (use inv chan in \<open>auto simp: end_ok_def\<close>)
  moreover have "acct_inv ?r" using inv by (simp add: end_ok_def acct_inv_consumeFragmentAck)
  ultimately show ?thesis using inv by (simp add: end_ok_def)
qed

lemma recv_frame_chan:
  assumes "recv_frame c r r'"
  shows "outbound r' = outbound r" "nextFragmentSequence (chan r' x) = nextFragmentSequence (chan r x)"
    "dom (channels r') = dom (channels r)"
  using assms by (auto simp: recv_frame_def sender_part_def chan_def split: if_splits)

lemma pkt_ok_mono: "pkt_ok L R p \<Longrightarrow> (\<And>c. R c \<subseteq> R2 c) \<Longrightarrow> pkt_ok L R2 p"
  unfolding pkt_ok_def by blast

lemma end_ok_receiveFragment:
  assumes inv: "end_ok L L' D R R' N r" and rec: "receiveFragment r (orderedChannel (Channel p)) p = (r', ds)"
    and ok: "msgs_ok (L' (Channel p))" and p: "pkt_frag (L' (Channel p)) p" and known: "knownChannel (Channel p)"
  shows "\<exists>R2. (\<forall>c. R c \<subseteq> R2 c) \<and> end_ok L L' (hand_over D ds) R2 R' N r'"
proof -
  let ?c = "Channel p"
  have acct: "acct_inv r" and rel: "recv_rel (orderedChannel x) (L' x) (D x) (R x) (chan r x)" for x
    using inv by (auto simp: end_ok_def recv_ok_def)
  have fr: "recv_frame ?c (ensureChannel r ?c) r'" and "re_inv r'"
    using receiveFragment_inv [OF _ _ rec] acct by (auto simp: acct_inv_def)
  then have acct': "acct_inv r'"
    using ensureChannel_acct [OF acct, of ?c] recv_frame_inv [OF fr] by (simp add: acct_inv_def)
  obtain st0 where st0: "channels (ensureChannel r ?c) ?c = Some st0" using ensureChannel_present by blast
  then have "chan r ?c = st0" using channels_chan [OF st0] by simp
  then obtain st' R1 where ch: "channels r' = (channels (ensureChannel r ?c))(?c \<mapsto> st')"
    and R1: "R ?c \<subseteq> R1" and rel': "recv_rel (orderedChannel ?c) (L' ?c) (D ?c @ map dPayload ds) R1 st'"
    and ds: "\<forall>d \<in> set ds. dChannel d = ?c"
    using receiveFragment_rel [OF rec st0 _ ok p] rel [of ?c] by blast
  let ?R = "R(?c := R1)"
  have chan': "chan r' x = (if x = ?c then st' else chan r x)" for x
    using fun_cong [OF chan_ensureChannel [of r ?c], of x] unfolding chan_def ch by simp
  have "filter (\<lambda>d. dChannel d = ?c) ds = ds" using ds by simp
  moreover have "filter (\<lambda>d. dChannel d = x) ds = []" if "x \<noteq> ?c" for x using ds that by (auto simp: filter_empty_conv)
  ultimately have "recv_ok L' (hand_over D ds) ?R r'"
    using rel rel' by (auto simp: recv_ok_def chan' hand_over_def)
  moreover have dom: "x \<in> dom (channels r) \<or> x = ?c" if "x \<in> dom (channels r')" for x
    using that unfolding ch by (auto simp: ensureChannel_def addChannel_def split: option.splits if_splits)
  have nf: "nextFragmentSequence (chan r' x) = nextFragmentSequence (chan r x)" for x
    using recv_frame_chan(2) [OF fr, of x] by simp
  have "send_ok L r'"
  proof (rule send_ok_frame [of L r])
    show "x \<in> dom (channels r) \<or> knownChannel x" if "x \<in> dom (channels r')" for x
      using dom [OF that] known by metis
  qed (use inv nf recv_frame_chan(1) [OF fr] in \<open>auto simp: end_ok_def\<close>)
  moreover have "covered R' r'"
    by (rule covered_frame [of R' r])
      (use inv nf recv_frame_chan(1) [OF fr] in \<open>auto simp: end_ok_def okeys_def\<close>)
  moreover have mono: "R x \<subseteq> ?R x" for x using R1 by simp
  have "\<forall>q \<in> N. pkt_ok L ?R q" using inv pkt_ok_mono [where R = R and ?R2.0 = ?R, OF _ mono] by (auto simp: end_ok_def)
  ultimately have "end_ok L L' (hand_over D ds) ?R R' N r'" using acct' by (simp add: end_ok_def)
  with mono show ?thesis by blast
qed

lemma end_ok_receive:
  assumes inv: "end_ok L L' D R R' N r" and p: "pkt_ok L' R' p" and ok: "\<And>c. msgs_ok (L' c)"
    and rec: "receive r p now = (r', ds)"
  shows "\<exists>R2. (\<forall>c. R c \<subseteq> R2 c) \<and> end_ok L L' (hand_over D ds) R2 R' N r'"
proof -
  let ?r1 = "consumeFragmentAck r (Channel p) (FragmentAckBase p) (FragmentAckBitmap p) now"
  have nil: "hand_over D [] = D" by (simp add: hand_over_def fun_eq_iff)
  have i1: "end_ok L L' D R R' N ?r1" using p by (intro end_ok_consume [OF inv]) (simp add: pkt_ok_def)
  consider "r' = r" "ds = []" | "r' = ?r1" "ds = []"
    | "knownChannel (Channel p)" "\<not> AckOnly p" "receiveFragment ?r1 (orderedChannel (Channel p)) p = (r', ds)"
    using rec by (auto simp: receive_def Let_def split: prod.splits if_splits)
  then show ?thesis
  proof cases
    case 3
    then show ?thesis using end_ok_receiveFragment [OF i1 3(3) ok _ 3(1)] p by (simp add: pkt_ok_def)
  qed (use inv i1 nil in auto)
qed

section \<open>Discarding the file data channel\<close>

lemma fileData_unordered: "\<not> orderedChannel reliableChannelFileData"
  by (simp add: reliableChannelOrdered_def)

lemma end_ok_discardOutbound:
  assumes inv: "end_ok L L' D R R' N r" and c: "\<not> orderedChannel c"
  shows "end_ok L L' D R R' N (discardOutboundChannel r c)" (is "end_ok _ _ _ _ _ _ ?r")
proof -
  have ch: "channels ?r = channels r" and out: "outbound ?r = filter (\<lambda>f. fChannel f \<noteq> c) (outbound r)"
    by (simp_all add: discardOutboundChannel_def discardOutbound_loop)
  have chan: "chan ?r = chan r" using ch by (rule chan_cong)
  have "send_ok L ?r"
    by (rule send_ok_frame [of L r]) (use inv ch chan out in \<open>auto simp: end_ok_def\<close>)
  moreover have "recv_ok L' D R ?r" using inv by (simp add: end_ok_def recv_ok_def chan)
  moreover have "covered R' ?r"
  proof (rule covered_frame [of R' r])
    fix x q assume "(x, q) \<in> okeys r" "orderedChannel x"
    then obtain f where f: "f \<in> set (outbound r)" "fkey f = (x, q)" by (auto simp: okeys_def)
    have "x \<noteq> c" using \<open>orderedChannel x\<close> c by metis
    with f have "f \<in> set (outbound ?r)" by (simp add: out fkey_def)
    then have "fkey f \<in> okeys ?r" by (simp add: okeys_def)
    with f(2) show "(x, q) \<in> okeys ?r \<or> q \<in> R' x" by simp
  qed (use inv chan in \<open>auto simp: end_ok_def\<close>)
  moreover have "acct_inv ?r" using inv by (simp add: end_ok_def acct_inv_discardOutbound)
  ultimately show ?thesis using inv by (simp add: end_ok_def)
qed

lemma discard_reassemblies:
  "foldl (\<lambda>(r, st) k. removeAssembly r st k) (r, st) ks = (r', st') \<Longrightarrow>
    nextDeliveredFragment st' = nextDeliveredFragment st \<and> map_of (reassemblies st') \<subseteq>\<^sub>m map_of (reassemblies st)"
proof (induction ks arbitrary: r st)
  case Nil
  then show ?case by simp
next
  case (Cons k ks)
  obtain r1 st1 where rm: "removeAssembly r st k = (r1, st1)" by fastforce
  then have "nextDeliveredFragment st1 = nextDeliveredFragment st" "map_of (reassemblies st1) \<subseteq>\<^sub>m map_of (reassemblies st)"
    by (auto simp: removeAssembly_def map_le_def split: option.splits if_splits)
  with Cons.IH [of r1 st1] Cons.prems rm show ?case by (auto intro: map_le_trans)
qed

lemma end_ok_discardInbound:
  assumes inv: "end_ok L L' D R R' N r" and c: "\<not> orderedChannel c"
  shows "end_ok L L' D R R' N (discardInboundChannel r c)" (is "end_ok _ _ _ _ _ _ ?r")
proof (cases "channels r c")
  case None
  with inv show ?thesis by (simp add: discardInboundChannel_def)
next
  case (Some st)
  obtain r1 st1 where l: "foldl (\<lambda>(r, st) k. removeAssembly r st k) (r, st) (map fst (reassemblies st))
      = (r1, st1)" by fastforce
  have "chst_ok st" using inv Some by (simp add: end_ok_def acct_inv_def re_inv_def)
  then have d: "drains r st r1 st1" using l by (rule drains_discard)
  have r': "?r = putChannel r1 c st1" using Some l by (simp add: discardInboundChannel_def)
  have fr: "recv_frame c r ?r"
    using Some d by (auto simp: r' recv_frame_def drains_def core_def sender_part_def)
  have rel: "recv_rel (orderedChannel x) (L' x) (D x) (R x) (chan r x)" for x
    using inv by (simp add: end_ok_def recv_ok_def)
  have "chan r1 = chan r" using d by (intro chan_cong) (simp add: drains_def core_def)
  moreover have "recv_un (L' c) (D c) (R c) st1"
    using rel [of c] c d discard_reassemblies [OF l] channels_chan [OF Some]
    by (auto simp: recv_rel_def recv_un_def drains_def map_le_def dom_def)
  ultimately have "recv_ok L' D R ?r" using rel c by (simp add: recv_ok_def r' recv_rel_def)
  moreover have "send_ok L ?r"
    by (rule send_ok_frame [of L r]) (use inv recv_frame_chan [OF fr] in \<open>auto simp: end_ok_def\<close>)
  moreover have "covered R' ?r"
    by (rule covered_frame [of R' r])
      (use inv recv_frame_chan [OF fr] in \<open>auto simp: end_ok_def okeys_def\<close>)
  moreover have "acct_inv ?r" using inv by (simp add: end_ok_def acct_inv_discardInbound)
  ultimately show ?thesis using inv by (simp add: end_ok_def)
qed

section \<open>The invariant of the system\<close>

definition sys_rel :: "(bool \<Rightarrow> uint16 \<Rightarrow> uint64 set) \<Rightarrow> sys \<Rightarrow> bool" where
  "sys_rel R s \<longleftrightarrow>
     (\<forall>b. end_ok (sent s b) (sent s (\<not> b)) (got s b) (R b) (R (\<not> b)) (net s b) (tr s b))"

definition sys_inv :: "sys \<Rightarrow> bool" where
  "sys_inv s \<longleftrightarrow> (\<exists>R. sys_rel R s)"

lemma sys_relI:
  assumes s: "sys_rel R s"
    and b: "end_ok L (sent s (\<not> b)) D (R2 b) (R (\<not> b)) N r"
    and L: "\<And>c. \<exists>M. L c = sent s b c @ M" and R2: "\<And>c. R b c \<subseteq> R2 b c" "R2 (\<not> b) = R (\<not> b)"
    and s2: "tr s2 = (tr s)(b := r)" "net s2 = (net s)(b := N)" "sent s2 = (sent s)(b := L)" "got s2 = (got s)(b := D)"
  shows "sys_rel R2 s2"
  unfolding sys_rel_def
proof
  fix x
  show "end_ok (sent s2 x) (sent s2 (\<not> x)) (got s2 x) (R2 x) (R2 (\<not> x)) (net s2 x) (tr s2 x)"
  proof (cases "x = b")
    case True
    then show ?thesis using b R2 by (simp add: s2)
  next
    case False
    then have x: "x = (\<not> b)" by auto
    have "end_ok (sent s (\<not> b)) (sent s (\<not> \<not> b)) (got s (\<not> b)) (R (\<not> b)) (R (\<not> \<not> b)) (net s (\<not> b)) (tr s (\<not> b))"
      using s unfolding sys_rel_def by blast
    then have "end_ok (sent s (\<not> b)) L (got s (\<not> b)) (R (\<not> b)) (R2 b) (net s (\<not> b)) (tr s (\<not> b))"
      by (intro end_ok_mono [OF _ L R2(1)]) simp
    then show ?thesis using R2(2) by (simp add: s2 x)
  qed
qed

lemma sys_invI:
  assumes "sys_rel R s" "end_ok L (sent s (\<not> b)) (got s b) (R b) (R (\<not> b)) N r"
    "\<And>c. \<exists>M. L c = sent s b c @ M"
    "tr s2 = (tr s)(b := r)" "net s2 = (net s)(b := N)" "sent s2 = (sent s)(b := L)" "got s2 = got s"
  shows "sys_inv s2"
  using sys_relI [where b = b and ?R2.0 = R, OF assms(1,2,3), of s2] assms(4-7) by (auto simp: sys_inv_def)

lemma sys_rel_end:
  "sys_rel R s \<Longrightarrow> end_ok (sent s b) (sent s (\<not> b)) (got s b) (R b) (R (\<not> b)) (net s b) (tr s b)"
  by (simp add: sys_rel_def)

lemma sys_inv_step:
  assumes "sys_step s s'" "sys_inv s"
  shows "sys_inv s'"
proof -
  obtain R where R: "sys_rel R s" using assms(2) by (auto simp: sys_inv_def)
  note e = sys_rel_end [OF R]
  from assms(1) show ?thesis
  proof cases
    case (step_queue b c m r')
    show ?thesis
      by (rule sys_invI [where b = b, OF R end_ok_queue [OF e step_queue(2)]])
        (simp_all add: step_queue(1) fun_upd_def)
  next
    case (step_send b now p res)
    show ?thesis
      by (rule sys_invI [where b = b, OF R end_ok_commit [OF e step_send(2)]])
        (simp_all add: step_send(1))
  next
    case (step_reject b now p res)
    show ?thesis
      by (rule sys_invI [where b = b, OF R end_ok_reject [OF e, where res = res]])
        (simp_all add: step_reject(1))
  next
    case (step_receive p b now r' ds)
    have peer: "end_ok (sent s (\<not> b)) (sent s b) (got s (\<not> b)) (R (\<not> b)) (R b) (net s (\<not> b)) (tr s (\<not> b))"
      using e [of "\<not> b"] by simp
    then have "pkt_ok (sent s (\<not> b)) (R (\<not> b)) p" "\<And>c. msgs_ok (sent s (\<not> b) c)"
      using step_receive(2) by (auto simp: end_ok_def send_ok_def)
    from end_ok_receive [OF e this step_receive(3)] obtain R2 where
      "\<forall>c. R b c \<subseteq> R2 c" and R2: "end_ok (sent s b) (sent s (\<not> b)) (hand_over (got s b) ds) R2 (R (\<not> b)) (net s b) r'"
      by blast
    then have "sys_rel (R(b := R2)) s'"
      by (intro sys_relI [OF R, of "sent s b" b "hand_over (got s b) ds" "R(b := R2)" "net s b" r'])
        (simp_all add: step_receive(1))
    then show ?thesis by (auto simp: sys_inv_def)
  next
    case (step_discard_out b)
    show ?thesis
      by (rule sys_invI [where b = b, OF R end_ok_discardOutbound [OF e fileData_unordered]])
        (simp_all add: step_discard_out)
  next
    case (step_discard_in b)
    show ?thesis
      by (rule sys_invI [where b = b, OF R end_ok_discardInbound [OF e fileData_unordered]])
        (simp_all add: step_discard_in)
  qed
qed

lemma sys_inv_start: "sys_inv sys_start"
proof -
  have [simp]: "chan newReliableTransport c = newChannel" for c
    by (simp add: chan_def newReliableTransport_def)
  have "end_ok (\<lambda>_. []) (\<lambda>_. []) (\<lambda>_. []) (\<lambda>_. {}) (\<lambda>_. {}) {} newReliableTransport"
    by (auto simp: end_ok_def acct_inv_new send_ok_def recv_ok_def recv_rel_def recv_new covered_def msgs_ok_def)
      (simp_all add: newReliableTransport_def newChannel_def)
  then show ?thesis by (auto simp: sys_inv_def sys_rel_def sys_start_def intro!: exI [of _ "\<lambda>_ _. {}"])
qed

abbreviation sys_reach :: "sys \<Rightarrow> bool" where
  "sys_reach s \<equiv> sys_step\<^sup>*\<^sup>* sys_start s"

lemma sys_inv_reach: "sys_reach s \<Longrightarrow> sys_inv s"
  by (induction rule: rtranclp_induct) (auto simp: sys_inv_start sys_inv_step)

section \<open>What an application sees\<close>

lemma sys_inv_recv:
  assumes "sys_inv s"
  obtains R where "\<And>c. recv_rel (orderedChannel c) (sent s b c) (got s (\<not> b) c) (R c) (chan (tr s (\<not> b)) c)"
    "covered R (tr s b)" "send_ok (sent s b) (tr s b)"
proof -
  obtain R where R: "sys_rel R s" using assms by (auto simp: sys_inv_def)
  have "recv_ok (sent s b) (got s (\<not> b)) (R (\<not> b)) (tr s (\<not> b))"
    using sys_rel_end [OF R, of "\<not> b"] by (simp add: end_ok_def)
  with sys_rel_end [OF R, of b] that [of "R (\<not> b)"] show ?thesis
    by (simp add: end_ok_def recv_ok_def)
qed

text \<open>When the receiver accepted every fragment of the channel, it delivered every message.\<close>

lemma accepted_part:
  assumes pre: "recv_pre M D R st" and ok: "msgs_ok M" and k: "length D < length M"
    and all: "\<And>q. q \<noteq> 0 \<Longrightarrow> unat q < msgStart M (length M) \<Longrightarrow> q \<in> R"
    and i: "i < nfrag (M ! length D)"
  shows "\<exists>a. map_of (reassemblies st) (nextDeliveredFragment st) = Some a \<and>
      asm_frag M (nextDeliveredFragment st) a \<and> of_nat i \<in> fst ` set (aFragments a)"
proof -
  let ?k = "length D"
  let ?q = "of_nat (msgStart M ?k + i) :: uint64"
  have Suc: "msgStart M ?k + nfrag (M ! ?k) \<le> msgStart M (length M)" using msgStart_next [OF k] by simp
  have uq: "unat ?q = msgStart M ?k + i" using i Suc ok by (intro unat_of_nat_64) (simp add: msgs_ok_def)
  then have "?q \<in> R" using i Suc msgStart_pos [of M ?k] by (intro all) (auto simp del: of_nat_add)
  then have "retained st ?q" using pre uq unfolding recv_pre_def by force
  then obtain ms a w where a: "map_of (reassemblies st) ms = Some a" "map_of (aFragments a) w \<noteq> None"
      and q: "?q = ms + ucast w"
    unfolding retained_def by blast
  have asm: "asm_frag M ms a" using pre a(1) by (simp add: recv_pre_def)
  obtain j where j: "j < length M" "unat ms = msgStart M j" and fr: "\<forall>(i, p) \<in> set (aFragments a). unat i < nfrag (M ! j) \<and> p = chunk (M ! j) (unat i)"
    using asm by (auto simp: asm_frag_def)
  have mem: "w \<in> fst ` set (aFragments a)" using a(2) by (auto simp: map_of_eq_None_iff)
  then have w: "unat w < nfrag (M ! j)" using fr by auto
  have "msgStart M ?k + i = msgStart M j + unat w"
    using unat_start_plus [OF ok j w] uq q by simp
  then have jk: "?k = j" and iw: "i = unat w" using msgStart_unique [OF k j(1)] i w by blast+
  have "nextDeliveredFragment st = of_nat (msgStart M ?k)" using pre by (simp add: recv_pre_def)
  then have "ms = nextDeliveredFragment st" using j(2) jk word_of_unat_eq by metis
  with a(1) asm mem iw show ?thesis by auto
qed

lemma full_assembly_complete:
  assumes d: "distinct (map fst (aFragments a))" and cnt: "unat (aCount a) = n" "n \<le> 1024"
    and fr: "\<And>i p. (i, p) \<in> set (aFragments a) \<Longrightarrow> unat i < n"
    and mem: "\<And>i. i < n \<Longrightarrow> of_nat i \<in> fst ` set (aFragments a)"
  shows "complete a"
proof -
  have "unat ` fst ` set (aFragments a) = {..<n}"
  proof
    show "unat ` fst ` set (aFragments a) \<subseteq> {..<n}" using fr by auto
    show "{..<n} \<subseteq> unat ` fst ` set (aFragments a)"
    proof
      fix i assume i: "i \<in> {..<n}"
      then have "unat (of_nat i :: uint16) = i" using cnt by (simp add: unat_of_nat)
      with mem [of i] i show "i \<in> unat ` fst ` set (aFragments a)" by (metis image_eqI lessThan_iff)
    qed
  qed
  moreover have "length (aFragments a) = card (fst ` set (aFragments a))"
    using d by (metis distinct_card length_map set_map)
  moreover have "card (unat ` fst ` set (aFragments a)) = card (fst ` set (aFragments a))"
    by (rule card_image) (auto intro: inj_onI simp: word_unat_eq_iff)
  ultimately show ?thesis using cnt(1) by (simp add: complete_def)
qed

lemma all_accepted_all_delivered:
  assumes rel: "recv_ord M D R st" and ok: "msgs_ok M"
    and all: "\<And>q. q \<noteq> 0 \<Longrightarrow> unat q < msgStart M (length M) \<Longrightarrow> q \<in> R"
  shows "D = M"
proof (rule ccontr)
  assume "D \<noteq> M"
  let ?k = "length D"
  have pre: "recv_pre M D R st" and set: "settled st" using rel by (auto simp: recv_ord_def)
  then have k: "?k < length M" using \<open>D \<noteq> M\<close> by (auto simp: recv_pre_def order_le_less)
  have nf: "0 < nfrag (M ! ?k)" "nfrag (M ! ?k) \<le> 1024" using ok k by (simp_all add: msgs_ok_def)
  have nd: "nextDeliveredFragment st = of_nat (msgStart M ?k)" using pre by (simp add: recv_pre_def)
  note part = accepted_part [OF pre ok k all]
  obtain a where a: "map_of (reassemblies st) (nextDeliveredFragment st) = Some a"
    "asm_frag M (nextDeliveredFragment st) a" using part [OF _ _ nf(1)] by blast
  obtain j where j: "j < length M" "unat (nextDeliveredFragment st) = msgStart M j" "unat (aCount a) = nfrag (M ! j)"
    and fr: "\<forall>(i, p) \<in> set (aFragments a). unat i < nfrag (M ! j) \<and> p = chunk (M ! j) (unat i)"
    using a(2) by (auto simp: asm_frag_def)
  have [simp]: "j = ?k" using msgStart_inject [OF ok j(1) k] j(2) nd unat_of_nat_64 [OF msgStart_less [OF ok k]] by simp
  have "complete a"
  proof (rule full_assembly_complete [of a "nfrag (M ! ?k)"])
    show "distinct (map fst (aFragments a))"
      using pre a(1) chst_okD [of st] by (auto simp: recv_pre_def asm_ok_def)
    show "of_nat i \<in> fst ` set (aFragments a)" if "i < nfrag (M ! ?k)" for i
      using part [OF _ _ that] a(1) by auto
  qed (use j(3) nf fr in auto)
  with set a(1) show False by (simp add: settled_def)
qed

text \<open>C1: On an ordered channel the messages delivered at one end are, in order and each exactly
  once, a prefix of the messages queued at the other end, in every state the two transports can
  reach over a network that loses, repeats, delays and reorders packets.\<close>

theorem ordered_delivery_prefix:
  assumes "sys_reach s" "orderedChannel c"
  shows "prefix (got s (\<not> b) c) (sent s b c)"
proof -
  obtain R where "recv_rel (orderedChannel c) (sent s b c) (got s (\<not> b) c) (R c) (chan (tr s (\<not> b)) c)"
    using sys_inv_recv [OF sys_inv_reach [OF assms(1)], of b] by metis
  then have "got s (\<not> b) c = take (length (got s (\<not> b) c)) (sent s b c)"
    using assms(2) by (simp add: recv_rel_def recv_ord_def recv_pre_def)
  then show ?thesis by (metis take_is_prefix)
qed

text \<open>C2: When the sender has nothing pending on an ordered channel, the other end has delivered
  every message queued there: an acknowledgment never drops a fragment the receiver still needs.\<close>

theorem ordered_delivery_complete:
  assumes "sys_reach s" "orderedChannel c" "\<not> pendingChannel (tr s b) c"
  shows "got s (\<not> b) c = sent s b c"
proof -
  obtain R where rel: "recv_rel (orderedChannel c) (sent s b c) (got s (\<not> b) c) (R c) (chan (tr s (\<not> b)) c)"
    and cov: "covered R (tr s b)" and S: "send_ok (sent s b) (tr s b)"
    using sys_inv_recv [OF sys_inv_reach [OF assms(1)], of b] by metis
  have nx: "msgStart (sent s b c) (length (sent s b c)) = unat (nextFragmentSequence (chan (tr s b) c)) + 1"
    and ok: "msgs_ok (sent s b c)" using S by (auto simp: send_ok_def)
  have none: "(c, q) \<notin> okeys (tr s b)" for q
    using assms(3) by (auto simp: okeys_def fkey_def pendingChannel_def)
  have "q \<in> R c" if "q \<noteq> 0" "unat q < msgStart (sent s b c) (length (sent s b c))" for q
    using cov assms(2) that none nx by (auto simp: covered_def word_le_nat_alt)
  then show ?thesis using all_accepted_all_delivered [OF _ ok] rel assms(2) by (simp add: recv_rel_def)
qed

text \<open>C3: Every packet a transport sends passes the wire format's own checks, so that
  \<open>MarshalReliable\<close> never refuses it: nonzero channel, consistent acknowledgment, fragment fields,
  sequence range and payload length.\<close>

theorem sent_packets_valid:
  assumes "sys_reach s" "p \<in> net s b"
  shows "validateReliableBody p = Inr ()"
proof -
  obtain R where R: "sys_rel R s" using sys_inv_reach [OF assms(1)] by (auto simp: sys_inv_def)
  then show ?thesis using sys_rel_end [OF R, of b] assms(2) by (auto simp: end_ok_def pkt_ok_def)
qed

section \<open>A run\<close>

text \<open>One message goes from one end to the other on the topology channel and is acknowledged.\<close>

definition run_queued :: reliableTransport where
  "run_queued = snd (queue newReliableTransport 1 [7, 8, 9])"

definition run_send :: "ReliablePacket \<times> reliableReservation" where
  "run_send = the (nextSend run_queued 0)"

definition run_delivery :: "reliableTransport \<times> deliveredReliableMessage list" where
  "run_delivery = receive newReliableTransport (fst run_send) 5"

definition run_queue_sys :: sys where
  "run_queue_sys = sys_start\<lparr>tr := (tr sys_start)(True := run_queued),
     sent := (sent sys_start)(True := (sent sys_start True)(1 := sent sys_start True 1 @ [[7, 8, 9]]))\<rparr>"

definition run_send_sys :: sys where
  "run_send_sys = run_queue_sys\<lparr>tr := (tr run_queue_sys)(True := commit (tr run_queue_sys True) (snd run_send)),
     net := (net run_queue_sys)(True := insert (fst run_send) (net run_queue_sys True))\<rparr>"

definition run_sys :: sys where
  "run_sys = run_send_sys\<lparr>tr := (tr run_send_sys)(False := fst run_delivery),
     got := (got run_send_sys)(False := hand_over (got run_send_sys False) (snd run_delivery))\<rparr>"

definition run_fragment :: reliableFragment where
  "run_fragment = \<lparr>fChannel = 1, fSequence = 1, fIndex = 0, fCount = 1, fPayload = [7, 8, 9],
     sentAt = 0, transmissions = 0, timeoutPending = False\<rparr>"

lemma run_queued_eq:
  "queue newReliableTransport 1 [7, 8, 9] = (Inr (), run_queued)"
  "run_queued = newReliableTransport\<lparr>channels := [1 \<mapsto> newChannel\<lparr>nextFragmentSequence := 1\<rparr>],
     outbound := [run_fragment], ackChannels := [1], queuedBytes := 3\<rparr>"
  by (simp_all add: run_queued_def queue_def canQueue_def newReliableTransport_def reliableChannelOrdered_def
      fragmentCountOf_def ensureChannel_def addChannel_def newChannel_def newFragment_def run_fragment_def seg_def
      upt_rec Let_def)

lemma run_send_eq:
  "nextSend run_queued 0 = Some run_send"
  "run_send = (\<lparr>Channel = 1, FragmentSequence = 1, FragmentIndex = 0, FragmentCount = 1,
     FragmentAckBase = 0, FragmentAckBitmap = 0, Payload = [7, 8, 9]\<rparr>, ReservationNew run_fragment 0 0)"
  by (simp_all add: run_send_def nextSend_def nextAck_def nextPacket_def nextFragment_def run_queued_eq(2)
      newReliableTransport_def newChannel_def run_fragment_def packetFor_def Let_def empty_window_def
      newEligible_def retransmitEligible_def oldestTransmitted_def oldestStep_def)

lemma run_delivery_eq:
  "snd run_delivery = [\<lparr>dChannel = 1, dPayload = [7, 8, 9]\<rparr>]"
  "fst run_delivery = newReliableTransport\<lparr>channels := [1 \<mapsto> newChannel\<lparr>ackDirty := True,
     received := \<lparr>highest = 1, seen = 1\<rparr>, nextDeliveredFragment := 2\<rparr>], ackChannels := [1]\<rparr>"
  by (simp_all add: run_delivery_def run_send_eq(2) receive_def reliableChannelOrdered_def consumeFragmentAck_def
      AckOnly_def receiveFragment_def ensureChannel_def addChannel_def newReliableTransport_def newChannel_def
      putChannel_def mayAccept_def accept_def empty_window_def storeFragment_def complete_def
      deliverOrdered.simps assembleReliable_def removeAssembly_def Let_def)

lemma run_reach: "sys_reach run_sys"
proof -
  have "sys_step sys_start run_queue_sys"
    unfolding run_queue_sys_def by (rule step_queue) (simp add: sys_start_def run_queued_eq(1))
  moreover have "sys_step run_queue_sys run_send_sys"
    unfolding run_send_sys_def
    by (rule step_send [where now = 0]) (simp add: run_queue_sys_def run_send_eq(1))
  moreover have "sys_step run_send_sys run_sys"
    unfolding run_sys_def
    by (rule step_receive [where p = "fst run_send" and now = 5])
      (simp_all add: run_send_sys_def run_queue_sys_def sys_start_def run_delivery_def)
  ultimately show ?thesis by (meson rtranclp.rtrancl_refl rtranclp.rtrancl_into_rtrancl)
qed

definition run_ack :: "ReliablePacket \<times> reliableReservation" where
  "run_ack = the (nextSend (fst run_delivery) 6)"

lemma run_ack_eq:
  "nextSend (fst run_delivery) 6 = Some run_ack"
  "run_ack = (\<lparr>Channel = 1, FragmentSequence = 0, FragmentIndex = 0, FragmentCount = 0,
     FragmentAckBase = 1, FragmentAckBitmap = 1, Payload = []\<rparr>, ReservationACK 1 0)"
  by (simp_all add: run_ack_def nextSend_def nextAck_def run_delivery_eq(2) newReliableTransport_def newChannel_def Let_def)

definition run_ack_sys :: sys where
  "run_ack_sys = run_sys\<lparr>tr := (tr run_sys)(False := commit (tr run_sys False) (snd run_ack)),
     net := (net run_sys)(False := insert (fst run_ack) (net run_sys False))\<rparr>"

definition run_done_sys :: sys where
  "run_done_sys = run_ack_sys\<lparr>tr := (tr run_ack_sys)(True := fst (receive (tr run_ack_sys True) (fst run_ack) 9)),
     got := (got run_ack_sys)(True := hand_over (got run_ack_sys True) (snd (receive (tr run_ack_sys True) (fst run_ack) 9)))\<rparr>"

lemma run_done_reach: "sys_reach run_done_sys"
proof -
  have "sys_step run_sys run_ack_sys"
    unfolding run_ack_sys_def
    by (rule step_send [where now = 6]) (simp add: run_sys_def run_ack_eq(1))
  moreover have "sys_step run_ack_sys run_done_sys"
    unfolding run_done_sys_def
    by (rule step_receive [where p = "fst run_ack" and now = 9]) (simp_all add: run_ack_sys_def)
  ultimately show ?thesis using run_reach by (meson rtranclp.rtrancl_into_rtrancl)
qed

lemma run_done_drained: "\<not> pendingChannel (tr run_done_sys True) 1"
proof -
  have "outbound (tr run_ack_sys True) = [run_fragment\<lparr>transmissions := 1, sentAt := 0\<rparr>]"
    by (simp add: run_ack_sys_def run_sys_def run_send_sys_def run_queue_sys_def run_send_eq(2) commit_def
        commitNew_def run_queued_eq(2) updateFragment_def sameFragment_def run_fragment_def markTransmitted_def)
  moreover have "outbound (tr run_done_sys True) = filter (\<lambda>f. \<not> ackedBy 1 1 1 f) (outbound (tr run_ack_sys True))"
    by (simp add: run_done_sys_def receive_def reliableChannelOrdered_def run_ack_eq(2) AckOnly_def
        consumeFragmentAck_frame)
  ultimately show ?thesis
    by (simp add: pendingChannel_def ackedBy_def run_fragment_def FragmentAckContains_def)
qed

lemma run_delivered: "got run_done_sys False 1 = [[7, 8, 9]]" "got run_sys False 1 = [[7, 8, 9]]"
  by (simp_all add: run_done_sys_def run_ack_sys_def run_sys_def run_send_sys_def run_queue_sys_def sys_start_def
      hand_over_def run_delivery_eq(1))

theorem ordered_delivery_prefix_witness:
  "sys_reach run_sys \<and> got run_sys False 1 = [[7, 8, 9]] \<and> prefix (got run_sys False 1) (sent run_sys True 1)"
  using ordered_delivery_prefix [of run_sys 1 True] run_reach run_delivered(2)
  by (simp add: reliableChannelOrdered_def)

theorem ordered_delivery_complete_witness:
  "sys_reach run_done_sys \<and> \<not> pendingChannel (tr run_done_sys True) 1 \<and>
   got run_done_sys False 1 = sent run_done_sys True 1 \<and> sent run_done_sys True 1 = [[7, 8, 9]]"
  using ordered_delivery_complete [of run_done_sys 1 True] run_done_reach run_done_drained run_delivered(1)
  by (simp add: reliableChannelOrdered_def)

theorem sent_packets_valid_witness:
  "sys_reach run_sys \<and> fst run_send \<in> net run_sys True \<and> validateReliableBody (fst run_send) = Inr ()"
proof -
  have "fst run_send \<in> net run_sys True" by (simp add: run_sys_def run_send_sys_def)
  with sent_packets_valid [of run_sys "fst run_send" True] run_reach show ?thesis by simp
qed

end
