(* ===== verification/MediaFlow.thy ===== *)
theory MediaFlow
  imports Wire
begin

text \<open>
  The boundary between audio and peer, \<open>internal/media/flow.go\<close>: bounded queues of received
  frames, one per source and stream kind, served round robin, and one slot for the frame to
  send, guarded by a send generation.

  Every method holds the mutex throughout, so a method is one step.  The two ready channels
  have room for one signal: a channel is whether a signal is waiting.  The invalidator is a
  callback; an operation that may call it returns the generations it was called with.
  A missing entry of the Go map reads as the empty queue.
\<close>

section \<open>State\<close>

definition maxReceivedFramesPerSource :: nat where [simp]: "maxReceivedFramesPerSource = 2"

definition AudioStreamVoice :: byte where [simp]: "AudioStreamVoice = 0"
definition AudioStreamScreen :: byte where [simp]: "AudioStreamScreen = 1"

record ReceivedFrame =
  rfSourceID :: PeerID
  rfStreamKind :: byte
  rfStreamID :: id16
  rfSequence :: uint64
  rfTimestamp :: uint32
  rfPayload :: bytes
  rfReceivedAt :: time

record SendFrame =
  sfTimestamp :: uint32
  sfPayload :: bytes
  sfDeadline :: time
  SendGeneration :: uint64

datatype receivedStreamKey = StreamKey (keySourceID: PeerID) (keyKind: byte)

record Flow =
  receivedQueues :: "receivedStreamKey \<Rightarrow> ReceivedFrame list"
  receivedOrder :: "receivedStreamKey list"
  receivedNext :: nat
  receivedReady :: bool
  screenAudioSourceID :: PeerID
  send :: SendFrame
  hasSend :: bool
  sendGeneration :: uint64
  sendInvalidator :: bool
  sendReady :: bool

definition emptySend :: SendFrame where
  "emptySend = \<lparr>sfTimestamp = 0, sfPayload = [], sfDeadline = 0, SendGeneration = 0\<rparr>"

definition NewFlow :: Flow where
  "NewFlow = \<lparr>receivedQueues = (\<lambda>_. []), receivedOrder = [], receivedNext = 0, receivedReady = False,
     screenAudioSourceID = 0, send = emptySend, hasSend = False, sendGeneration = 1,
     sendInvalidator = False, sendReady = False\<rparr>"

section \<open>Received frames\<close>

text \<open>The loop that looks for the place of a frame: \<open>None\<close> when its sequence is queued already.\<close>

fun insertAt :: "uint64 \<Rightarrow> nat \<Rightarrow> ReceivedFrame list \<Rightarrow> nat option" where
  "insertAt sequence index [] = Some index"
| "insertAt sequence index (x # queue) =
     (if rfSequence x = sequence then None
      else if rfSequence x > sequence then Some index
      else insertAt sequence (index + 1) queue)"

definition frameKey :: "ReceivedFrame \<Rightarrow> receivedStreamKey" where
  "frameKey frame = StreamKey (rfSourceID frame) (rfStreamKind frame)"

definition SubmitReceived :: "Flow \<Rightarrow> ReceivedFrame \<Rightarrow> bool \<times> Flow" where
  "SubmitReceived f frame =
     (if IsZero (rfSourceID frame) \<or> rfSequence frame = 0 \<or> length (rfPayload frame) = 0 then (False, f)
      else if rfStreamKind frame = AudioStreamScreen \<and> rfSourceID frame \<noteq> screenAudioSourceID f
      then (False, f)
      else
        let key = frameKey frame;
            queue = receivedQueues f key;
            f = (if length queue = 0 then f\<lparr>receivedOrder := receivedOrder f @ [key]\<rparr> else f);
            queue = (if length queue > 0 \<and> rfStreamID (hd queue) \<noteq> rfStreamID frame then [] else queue)
        in case insertAt (rfSequence frame) 0 queue of
             None \<Rightarrow> (False, f)
           | Some index \<Rightarrow>
               let queue = take index queue @ [frame] @ drop index queue;
                   queue = (if length queue > maxReceivedFramesPerSource
                            then drop (length queue - maxReceivedFramesPerSource) queue else queue)
               in (True, f\<lparr>receivedQueues := (receivedQueues f)(key := queue), receivedReady := True\<rparr>))"

definition takeAt :: "Flow \<Rightarrow> nat \<Rightarrow> (ReceivedFrame \<times> Flow) option" where
  "takeAt f index =
     (let key = receivedOrder f ! index;
          queue = receivedQueues f key
      in if length queue = 0 then None
         else if length queue = 1 then
           let order = take index (receivedOrder f) @ drop (index + 1) (receivedOrder f)
           in Some (hd queue, f\<lparr>receivedQueues := (receivedQueues f)(key := []), receivedOrder := order,
                receivedNext := (if length order = 0 then 0 else index mod length order)\<rparr>)
         else Some (hd queue, f\<lparr>receivedQueues := (receivedQueues f)(key := tl queue),
                receivedNext := (index + 1) mod length (receivedOrder f)\<rparr>))"

definition TakeReceived :: "Flow \<Rightarrow> (ReceivedFrame \<times> Flow) option" where
  "TakeReceived f =
     first_some (map (\<lambda>offset. takeAt f ((receivedNext f + offset) mod length (receivedOrder f)))
       [0..<length (receivedOrder f)])"

definition SetScreenAudioSource :: "Flow \<Rightarrow> PeerID \<Rightarrow> Flow" where
  "SetScreenAudioSource f sourceID =
     (if screenAudioSourceID f = sourceID then f
      else
        let oldKey = StreamKey (screenAudioSourceID f) AudioStreamScreen
        in f\<lparr>receivedQueues := (receivedQueues f)(oldKey := []),
             receivedOrder := filter (\<lambda>key. key \<noteq> oldKey) (receivedOrder f),
             screenAudioSourceID := sourceID, receivedNext := 0, receivedReady := True\<rparr>)"

section \<open>The frame to send\<close>

definition SubmitSend :: "Flow \<Rightarrow> SendFrame \<Rightarrow> bool \<times> Flow" where
  "SubmitSend f frame =
     (if length (sfPayload frame) = 0 then (False, f)
      else if SendGeneration frame \<noteq> sendGeneration f then (False, f)
      else (True, f\<lparr>send := frame, hasSend := True, sendReady := True\<rparr>))"

text \<open>The frame handed to \<open>consume\<close>, if any.\<close>

definition ConsumeSend :: "Flow \<Rightarrow> SendFrame option \<times> Flow" where
  "ConsumeSend f =
     (if \<not> hasSend f then (None, f)
      else (Some (send f), f\<lparr>send := emptySend, hasSend := False\<rparr>))"

definition advanceSendGenerationLocked :: "Flow \<Rightarrow> Flow" where
  "advanceSendGenerationLocked f =
     (let f = f\<lparr>sendGeneration := sendGeneration f + 1\<rparr>
      in if sendGeneration f = 0 then f\<lparr>sendGeneration := 1\<rparr> else f)"

definition invalidatorCalls :: "Flow \<Rightarrow> uint64 list" where
  "invalidatorCalls f = (if sendInvalidator f then [sendGeneration f] else [])"

definition InvalidateSend :: "Flow \<Rightarrow> uint64 \<times> uint64 list \<times> Flow" where
  "InvalidateSend f =
     (let f = advanceSendGenerationLocked f;
          f = f\<lparr>send := emptySend, hasSend := False, sendReady := False\<rparr>
      in (sendGeneration f, invalidatorCalls f, f))"

definition Reset :: "Flow \<Rightarrow> uint64 \<times> uint64 list \<times> Flow" where
  "Reset f =
     (let f = advanceSendGenerationLocked f;
          f = f\<lparr>receivedQueues := (\<lambda>_. []), receivedOrder := [], receivedNext := 0, send := emptySend,
                hasSend := False, receivedReady := False, sendReady := False\<rparr>
      in (sendGeneration f, invalidatorCalls f, f))"

definition SetSendInvalidator :: "Flow \<Rightarrow> bool \<Rightarrow> uint64 list \<times> Flow" where
  "SetSendInvalidator f invalidator =
     (let f = f\<lparr>sendInvalidator := invalidator\<rparr> in (invalidatorCalls f, f))"

section \<open>The invariant\<close>

definition queue_ok :: "receivedStreamKey \<Rightarrow> ReceivedFrame list \<Rightarrow> bool" where
  "queue_ok key q \<longleftrightarrow> length q \<le> maxReceivedFramesPerSource \<and> sorted_wrt (<) (map rfSequence q) \<and>
     (\<exists>s. \<forall>x \<in> set q. frameKey x = key \<and> rfStreamID x = s \<and> rfPayload x \<noteq> [])"

definition flow_inv :: "Flow \<Rightarrow> bool" where
  "flow_inv f \<longleftrightarrow> distinct (receivedOrder f) \<and>
     (\<forall>key. key \<in> set (receivedOrder f) \<longleftrightarrow> receivedQueues f key \<noteq> []) \<and>
     (receivedNext f < length (receivedOrder f) \<or> receivedNext f = 0) \<and>
     (\<forall>key. queue_ok key (receivedQueues f key)) \<and>
     (\<forall>key. receivedQueues f key \<noteq> [] \<longrightarrow> keyKind key = AudioStreamScreen \<longrightarrow> keySourceID key = screenAudioSourceID f) \<and>
     sendGeneration f \<noteq> 0 \<and>
     (hasSend f \<longrightarrow> SendGeneration (send f) = sendGeneration f \<and> sfPayload (send f) \<noteq> [])"

lemma insertAt_index:
  "sorted_wrt (<) (map rfSequence q) \<Longrightarrow> insertAt s i q = Some k \<Longrightarrow>
    i \<le> k \<and> k \<le> i + length q \<and> (\<forall>x \<in> set (take (k - i) q). rfSequence x < s) \<and>
    (\<forall>x \<in> set (drop (k - i) q). s < rfSequence x)"
proof (induction q arbitrary: i)
  case Nil
  then show ?case by simp
next
  case (Cons x q)
  show ?case
  proof (cases "rfSequence x > s")
    case True
    then show ?thesis using Cons.prems by (force split: if_splits)
  next
    case False
    then have lt: "rfSequence x < s" and rec: "insertAt s (i + 1) q = Some k"
      using Cons.prems by (auto split: if_splits)
    note ih = Cons.IH [OF _ rec]
    have "k - i = Suc (k - (i + 1))" using ih Cons.prems(1) by force
    then show ?thesis using ih Cons.prems(1) lt by (simp del: One_nat_def)
  qed
qed

lemma sorted_insert:
  assumes "sorted_wrt (<) (map rfSequence q)" "insertAt (rfSequence x) 0 q = Some k"
  shows "sorted_wrt (<) (map rfSequence (take k q @ [x] @ drop k q))"
proof -
  have i: "\<forall>y \<in> set (take k q). rfSequence y < rfSequence x" "\<forall>y \<in> set (drop k q). rfSequence x < rfSequence y"
    using insertAt_index [OF assms] by auto
  have "sorted_wrt (<) (map rfSequence (take k q) @ map rfSequence (drop k q))"
    using assms(1) by (metis append_take_drop_id map_append)
  with i show ?thesis by (auto simp: sorted_wrt_append)
qed

lemma sorted_wrt_drop: "sorted_wrt P xs \<Longrightarrow> sorted_wrt P (drop n xs)"
  by (metis append_take_drop_id sorted_wrt_append)

lemma insertAt_member: "insertAt s i q = None \<Longrightarrow> q \<noteq> []"
  by (cases q) auto

definition submitQueue :: "Flow \<Rightarrow> ReceivedFrame \<Rightarrow> ReceivedFrame list" where
  "submitQueue f frame =
     (let q = receivedQueues f (frameKey frame)
      in if q \<noteq> [] \<and> rfStreamID (hd q) \<noteq> rfStreamID frame then [] else q)"

definition insertedQueue :: "ReceivedFrame list \<Rightarrow> nat \<Rightarrow> ReceivedFrame \<Rightarrow> ReceivedFrame list" where
  "insertedQueue q index frame =
     (let q = take index q @ [frame] @ drop index q
      in if length q > maxReceivedFramesPerSource then drop (length q - maxReceivedFramesPerSource) q else q)"

text \<open>The two ways a submission ends.\<close>

lemma SubmitReceived_cases:
  assumes "SubmitReceived f frame = (b, f')"
  obtains (refused) "\<not> b" "f' = f"
  | (queued) index where "b" "rfSourceID frame \<noteq> 0" "rfPayload frame \<noteq> []"
      "rfStreamKind frame = AudioStreamScreen \<longrightarrow> rfSourceID frame = screenAudioSourceID f"
      "insertAt (rfSequence frame) 0 (submitQueue f frame) = Some index"
      "f' = f\<lparr>receivedOrder := (if receivedQueues f (frameKey frame) = [] then receivedOrder f @ [frameKey frame]
              else receivedOrder f),
            receivedQueues := (receivedQueues f)(frameKey frame := insertedQueue (submitQueue f frame) index frame),
            receivedReady := True\<rparr>"
proof (cases "insertAt (rfSequence frame) 0 (submitQueue f frame)")
  case None
  then have "receivedQueues f (frameKey frame) \<noteq> []"
    using insertAt_member by (fastforce simp: submitQueue_def Let_def)
  then have "\<not> b \<and> f' = f"
    using assms None by (auto simp: SubmitReceived_def submitQueue_def Let_def split: if_splits)
  then show ?thesis using refused by blast
next
  case (Some index)
  show ?thesis
  proof (cases b)
    case False
    then have "f' = f"
      using assms Some by (auto simp: SubmitReceived_def submitQueue_def Let_def split: if_splits)
    with False show ?thesis by (rule refused)
  next
    case True
    then show ?thesis using assms Some
      by (intro queued [of index])
        (auto simp: SubmitReceived_def submitQueue_def insertedQueue_def Let_def split: if_splits)
  qed
qed

lemma queue_ok_Nil [simp]: "queue_ok key []"
  by (simp add: queue_ok_def)

lemma flow_invD:
  assumes "flow_inv f"
  shows "distinct (receivedOrder f)" "key \<in> set (receivedOrder f) \<longleftrightarrow> receivedQueues f key \<noteq> []"
    "receivedNext f < length (receivedOrder f) \<or> receivedNext f = 0" "queue_ok key (receivedQueues f key)"
    "receivedQueues f key \<noteq> [] \<Longrightarrow> keyKind key = AudioStreamScreen \<Longrightarrow> keySourceID key = screenAudioSourceID f"
    "sendGeneration f \<noteq> 0"
    "hasSend f \<Longrightarrow> SendGeneration (send f) = sendGeneration f" "hasSend f \<Longrightarrow> sfPayload (send f) \<noteq> []"
  using assms by (simp_all add: flow_inv_def)

lemma flow_invI:
  assumes "distinct (receivedOrder f)" "\<And>key. key \<in> set (receivedOrder f) \<longleftrightarrow> receivedQueues f key \<noteq> []"
    "receivedNext f < length (receivedOrder f) \<or> receivedNext f = 0" "\<And>key. queue_ok key (receivedQueues f key)"
    "\<And>key. receivedQueues f key \<noteq> [] \<Longrightarrow> keyKind key = AudioStreamScreen \<Longrightarrow> keySourceID key = screenAudioSourceID f"
    "sendGeneration f \<noteq> 0"
    "hasSend f \<Longrightarrow> SendGeneration (send f) = sendGeneration f" "hasSend f \<Longrightarrow> sfPayload (send f) \<noteq> []"
  shows "flow_inv f"
  using assms by (simp add: flow_inv_def)

lemma queue_ok_submitQueue:
  assumes "flow_inv f"
  shows "queue_ok (frameKey frame) (submitQueue f frame)"
    and "x \<in> set (submitQueue f frame) \<Longrightarrow> rfStreamID x = rfStreamID frame"
proof -
  let ?q = "receivedQueues f (frameKey frame)"
  have q: "queue_ok (frameKey frame) ?q" using assms by (rule flow_invD)
  then show "queue_ok (frameKey frame) (submitQueue f frame)" by (simp add: submitQueue_def Let_def)
  obtain s where "\<forall>x \<in> set ?q. rfStreamID x = s" using q by (auto simp: queue_ok_def)
  then show "x \<in> set (submitQueue f frame) \<Longrightarrow> rfStreamID x = rfStreamID frame"
    by (cases ?q) (auto simp: submitQueue_def Let_def split: if_splits)
qed

lemma queue_ok_same:
  assumes "sorted_wrt (<) (map rfSequence q)" "length q \<le> 2"
    "\<And>x. x \<in> set q \<Longrightarrow> frameKey x = key \<and> rfStreamID x = s \<and> rfPayload x \<noteq> []"
  shows "queue_ok key q"
  using assms by (auto simp: queue_ok_def)

lemma queue_ok_insertedQueue:
  assumes q: "queue_ok (frameKey frame) q" "\<And>x. x \<in> set q \<Longrightarrow> rfStreamID x = rfStreamID frame"
    and p: "rfPayload frame \<noteq> []" and i: "insertAt (rfSequence frame) 0 q = Some index"
  shows "queue_ok (frameKey frame) (insertedQueue q index frame) \<and> insertedQueue q index frame \<noteq> []"
proof -
  let ?q = "take index q @ [frame] @ drop index q"
  have s: "sorted_wrt (<) (map rfSequence ?q)"
    using q(1) i by (intro sorted_insert) (auto simp: queue_ok_def)
  have "set ?q \<subseteq> insert frame (set q)" by (auto dest: in_set_takeD in_set_dropD)
  then have m: "frameKey x = frameKey frame \<and> rfStreamID x = rfStreamID frame \<and> rfPayload x \<noteq> []"
    if "x \<in> set ?q" for x
    using that q p by (auto simp: queue_ok_def)
  obtain n where n: "insertedQueue q index frame = drop n ?q" "length (drop n ?q) \<le> 2" "n < length ?q"
  proof (cases "length ?q > maxReceivedFramesPerSource")
    case True
    then show ?thesis
      by (intro that [of "length ?q - maxReceivedFramesPerSource"]) (auto simp: insertedQueue_def Let_def)
  next
    case False
    then show ?thesis by (intro that [of 0]) (auto simp: insertedQueue_def Let_def)
  qed
  have "queue_ok (frameKey frame) (drop n ?q)"
  proof (rule queue_ok_same [where s = "rfStreamID frame"])
    show "sorted_wrt (<) (map rfSequence (drop n ?q))"
      using sorted_wrt_drop [OF s, of n] by (simp only: drop_map)
    show "frameKey x = frameKey frame \<and> rfStreamID x = rfStreamID frame \<and> rfPayload x \<noteq> []"
      if "x \<in> set (drop n ?q)" for x using m in_set_dropD [OF that] by blast
  qed (rule n(2))
  moreover have "drop n ?q \<noteq> []" using n(3) by (metis drop_eq_Nil not_less)
  ultimately show ?thesis by (simp only: n(1) simp_thms)
qed

lemma flow_inv_SubmitReceived:
  assumes inv: "flow_inv f" and s: "SubmitReceived f frame = (b, f')"
  shows "flow_inv f'"
  using s
proof (cases rule: SubmitReceived_cases)
  case refused
  with inv show ?thesis by simp
next
  case (queued index)
  let ?k = "frameKey frame" and ?q = "insertedQueue (submitQueue f frame) index frame"
  have ok: "queue_ok ?k ?q" and ne: "?q \<noteq> []"
    using queue_ok_insertedQueue [OF queue_ok_submitQueue [OF inv] queued(3,5)] by auto
  note D = flow_invD [OF inv]
  show ?thesis
  proof (rule flow_invI)
    show "key \<in> set (receivedOrder f') \<longleftrightarrow> receivedQueues f' key \<noteq> []" for key
      using D(2) [of key] D(2) [of ?k] ne by (simp add: queued(6))
    show "distinct (receivedOrder f')" using D(1) D(2) [of ?k] by (simp add: queued(6))
    show "receivedNext f' < length (receivedOrder f') \<or> receivedNext f' = 0" using D(3) by (auto simp: queued(6))
    show "queue_ok key (receivedQueues f' key)" for key using D(4) [of key] ok by (simp add: queued(6))
    show "keySourceID key = screenAudioSourceID f'" if "receivedQueues f' key \<noteq> []" "keyKind key = AudioStreamScreen" for key
      using that D(5) [of key] queued(4) by (auto simp: queued(6) frameKey_def split: if_splits)
  qed (use D in \<open>simp_all add: queued(6)\<close>)
qed

lemma queue_ok_tl: "queue_ok key q \<Longrightarrow> queue_ok key (tl q)"
  by (cases q) (auto simp: queue_ok_def)

lemma distinct_remove_at:
  assumes "distinct xs" "i < length xs"
  shows "distinct (take i xs @ drop (Suc i) xs)" "set (take i xs @ drop (Suc i) xs) = set xs - {xs ! i}"
proof -
  have xs: "xs = take i xs @ [xs ! i] @ drop (Suc i) xs" using assms(2) by (simp add: id_take_nth_drop)
  then have "distinct (take i xs @ [xs ! i] @ drop (Suc i) xs)" using assms(1) by metis
  then show "distinct (take i xs @ drop (Suc i) xs)" by auto
  have "set xs = insert (xs ! i) (set (take i xs @ drop (Suc i) xs))" by (subst xs) auto
  moreover have "xs ! i \<notin> set (take i xs @ drop (Suc i) xs)"
    using \<open>distinct (take i xs @ [xs ! i] @ drop (Suc i) xs)\<close> by auto
  ultimately show "set (take i xs @ drop (Suc i) xs) = set xs - {xs ! i}" by auto
qed

section \<open>Round robin\<close>

text \<open>The streams in the order they will be served, with their queues.\<close>

definition rotation :: "Flow \<Rightarrow> receivedStreamKey list" where
  "rotation f = drop (receivedNext f) (receivedOrder f) @ take (receivedNext f) (receivedOrder f)"

definition waiting :: "Flow \<Rightarrow> (receivedStreamKey \<times> ReceivedFrame list) list" where
  "waiting f = map (\<lambda>key. (key, receivedQueues f key)) (rotation f)"

text \<open>A round-robin server: the first frame of the first stream, which then goes to the back.\<close>

fun serve :: "('k \<times> 'a list) list \<Rightarrow> ('a \<times> ('k \<times> 'a list) list) option" where
  "serve [] = None"
| "serve ((key, []) # ws) = serve ws"
| "serve ((key, x # xs) # ws) = Some (x, if xs = [] then ws else ws @ [(key, xs)])"

lemma TakeReceived_eq:
  assumes inv: "flow_inv f"
  shows "TakeReceived f = (if receivedOrder f = [] then None else takeAt f (receivedNext f))"
proof (cases "receivedOrder f")
  case (Cons k ks)
  let ?n = "length (receivedOrder f)"
  have lt: "receivedNext f < ?n" using flow_invD(3) [OF inv] Cons by auto
  then have "receivedQueues f (receivedOrder f ! receivedNext f) \<noteq> []"
    using flow_invD(2) [OF inv] nth_mem by blast
  then have "takeAt f (receivedNext f) \<noteq> None" by (simp add: takeAt_def Let_def)
  then obtain x where x: "takeAt f (receivedNext f) = Some x" by auto
  have "[0..<?n] = 0 # [1..<?n]" using Cons by (simp add: upt_conv_Cons del: upt_Suc)
  then show ?thesis using x lt Cons by (simp add: TakeReceived_def)
qed (simp add: TakeReceived_def)

lemma rotation_Cons:
  assumes "receivedNext f < length (receivedOrder f)"
  shows "rotation f = receivedOrder f ! receivedNext f #
    drop (Suc (receivedNext f)) (receivedOrder f) @ take (receivedNext f) (receivedOrder f)"
  using assms by (simp add: rotation_def Cons_nth_drop_Suc [symmetric])

lemma set_rotation [simp]: "set (rotation f) = set (receivedOrder f)"
  unfolding rotation_def by (metis append_take_drop_id set_append sup_commute)

lemma distinct_rotation: "distinct (receivedOrder f) \<Longrightarrow> distinct (rotation f)"
  unfolding rotation_def by (metis append_take_drop_id distinct_append inf_commute)

lemma takeAt_rotation:
  assumes inv: "flow_inv f" and lt: "receivedNext f < length (receivedOrder f)"
    and t: "takeAt f (receivedNext f) = Some (x, f')"
  defines "key \<equiv> receivedOrder f ! receivedNext f"
  shows "receivedQueues f key = x # receivedQueues f' key"
    and "receivedQueues f' = (receivedQueues f)(key := tl (receivedQueues f key))"
    and "rotation f' = (if receivedQueues f' key = [] then tl (rotation f) else tl (rotation f) @ [key])"
    and "receivedNext f' < length (receivedOrder f') \<or> receivedNext f' = 0"
    and "receivedOrder f' = (if receivedQueues f' key = []
      then take (receivedNext f) (receivedOrder f) @ drop (Suc (receivedNext f)) (receivedOrder f) else receivedOrder f)"
    and "screenAudioSourceID f' = screenAudioSourceID f" "send f' = send f" "hasSend f' = hasSend f"
      "sendGeneration f' = sendGeneration f"
proof -
  let ?n = "receivedNext f" and ?o = "receivedOrder f"
  let ?q = "receivedQueues f key"
  have ne: "?q \<noteq> []" using t by (auto simp: takeAt_def key_def Let_def split: if_splits)
  have tl: "tl (rotation f) = drop (Suc ?n) ?o @ take ?n ?o" using rotation_Cons [OF lt] by simp
  have one: "length ?q = 1 \<longleftrightarrow> tl ?q = []" using ne by (cases ?q) auto
  have x: "x = hd ?q" and q': "receivedQueues f' = (receivedQueues f)(key := tl ?q)"
    and o': "receivedOrder f' = (if tl ?q = [] then take ?n ?o @ drop (Suc ?n) ?o else ?o)"
    and n': "receivedNext f' = (if tl ?q = [] then (if length ?o = 1 then 0 else ?n mod (length ?o - 1))
        else Suc ?n mod length ?o)"
    and rest: "screenAudioSourceID f' = screenAudioSourceID f" "send f' = send f" "hasSend f' = hasSend f"
      "sendGeneration f' = sendGeneration f"
    using t ne one lt by (auto simp: takeAt_def key_def [symmetric] Let_def min_def split: if_splits)
  show "screenAudioSourceID f' = screenAudioSourceID f" "send f' = send f" "hasSend f' = hasSend f"
      "sendGeneration f' = sendGeneration f" by (rule rest)+
  show "?q = x # receivedQueues f' key" using ne by (simp add: x q')
  show "receivedQueues f' = (receivedQueues f)(key := tl ?q)" by (rule q')
  show "receivedOrder f' = (if receivedQueues f' key = [] then take ?n ?o @ drop (Suc ?n) ?o else ?o)"
    by (simp add: o' q')
  have "0 < length ?o" using lt by auto
  then show "receivedNext f' < length (receivedOrder f') \<or> receivedNext f' = 0"
    using lt by (auto simp: n' o' min_def)
  have rot: "rotation f' = drop (receivedNext f') (receivedOrder f') @ take (receivedNext f') (receivedOrder f')"
    by (rule rotation_def)
  show "rotation f' = (if receivedQueues f' key = [] then tl (rotation f) else tl (rotation f) @ [key])"
  proof (cases "tl ?q = []")
    case True
    have "drop (?n mod (length ?o - 1)) (take ?n ?o @ drop (Suc ?n) ?o) @ take (?n mod (length ?o - 1)) (take ?n ?o @ drop (Suc ?n) ?o)
        = drop (Suc ?n) ?o @ take ?n ?o" if "length ?o \<noteq> 1"
    proof (cases "?n < length ?o - 1")
      case True
      then show ?thesis by simp
    next
      case False
      with lt have "?n = length ?o - 1" by simp
      then show ?thesis using that by simp
    qed
    moreover have "take ?n ?o @ drop (Suc ?n) ?o = []" if "length ?o = 1" using lt that by simp
    ultimately show ?thesis using True lt unfolding tl rot n' o' q'
      by (cases "length ?o = 1") (simp_all del: drop_append take_append)
  next
    case False
    have "drop (Suc ?n mod length ?o) ?o @ take (Suc ?n mod length ?o) ?o = drop (Suc ?n) ?o @ take ?n ?o @ [key]"
    proof (cases "Suc ?n < length ?o")
      case True
      then show ?thesis by (simp add: take_Suc_conv_app_nth key_def)
    next
      case False
      with lt have "Suc ?n = length ?o" by simp
      then show ?thesis using lt by (simp add: key_def) (metis take_Suc_conv_app_nth lessI take_all order_refl)
    qed
    with False show ?thesis unfolding tl rot n' o' q' by simp
  qed
qed

lemma TakeReceived_cases:
  assumes inv: "flow_inv f"
  obtains (none) "TakeReceived f = None" "receivedOrder f = []"
  | (some) x f' where "TakeReceived f = Some (x, f')" "receivedNext f < length (receivedOrder f)"
      "takeAt f (receivedNext f) = Some (x, f')"
proof (cases "receivedOrder f = []")
  case True
  then show ?thesis using none TakeReceived_eq [OF inv] by simp
next
  case False
  have lt: "receivedNext f < length (receivedOrder f)" using flow_invD(3) [OF inv] False by auto
  then have "takeAt f (receivedNext f) \<noteq> None"
    using flow_invD(2) [OF inv] nth_mem [OF lt] by (simp add: takeAt_def Let_def)
  then obtain x f' where "takeAt f (receivedNext f) = Some (x, f')" by auto
  then show ?thesis using some [OF _ lt] TakeReceived_eq [OF inv] False by simp
qed

lemma flow_inv_takeAt:
  assumes inv: "flow_inv f" and lt: "receivedNext f < length (receivedOrder f)"
    and t: "takeAt f (receivedNext f) = Some (x, f')"
  shows "flow_inv f'"
proof (rule flow_invI)
  let ?k = "receivedOrder f ! receivedNext f"
  note D = flow_invD [OF inv] and T = takeAt_rotation [OF inv lt t]
  note rm = distinct_remove_at [OF D(1) lt]
  show "distinct (receivedOrder f')" using D(1) rm(1) by (simp add: T(5))
  show "key \<in> set (receivedOrder f') \<longleftrightarrow> receivedQueues f' key \<noteq> []" for key
  proof (cases "key = ?k")
    case True
    have "?k \<in> set (receivedOrder f)" using lt by simp
    with True rm(2) show ?thesis unfolding T(5) by simp
  next
    case False
    then have "receivedQueues f' key = receivedQueues f key" by (simp add: T(2))
    with D(2) [of key] rm(2) False show ?thesis unfolding T(5) by simp
  qed
  show "receivedNext f' < length (receivedOrder f') \<or> receivedNext f' = 0" by (rule T(4))
  show "queue_ok key (receivedQueues f' key)" for key using D(4) [of key] queue_ok_tl by (auto simp: T(2))
  show "keySourceID key = screenAudioSourceID f'"
    if "receivedQueues f' key \<noteq> []" "keyKind key = AudioStreamScreen" for key
  proof -
    have "receivedQueues f key \<noteq> []" using that(1) unfolding T(2) by (auto split: if_splits)
    then show ?thesis using D(5) that(2) by (simp add: T(6))
  qed
qed (use flow_invD(6-8) [OF inv] takeAt_rotation(7-9) [OF inv lt t] in simp_all)

text \<open>\<open>TakeReceived\<close> implements the round-robin server.\<close>

lemma TakeReceived_refines:
  assumes inv: "flow_inv f"
  shows "map_option (\<lambda>(x, f'). (x, waiting f')) (TakeReceived f) = serve (waiting f)"
  using inv
proof (cases rule: TakeReceived_cases)
  case none
  then show ?thesis by (simp add: waiting_def rotation_def)
next
  case (some x f')
  let ?k = "receivedOrder f ! receivedNext f"
  note T = takeAt_rotation [OF inv some(2,3)]
  have rot: "rotation f = ?k # tl (rotation f)" using rotation_Cons [OF some(2)] by simp
  then have "distinct (?k # tl (rotation f))" using distinct_rotation flow_invD(1) [OF inv] by metis
  then have same: "map (\<lambda>key. (key, receivedQueues f' key)) (tl (rotation f)) =
      map (\<lambda>key. (key, receivedQueues f key)) (tl (rotation f))"
    by (auto simp: T(2))
  have "waiting f = (?k, x # receivedQueues f' ?k) # map (\<lambda>key. (key, receivedQueues f key)) (tl (rotation f))"
    unfolding waiting_def by (subst rot) (simp add: T(1))
  then show ?thesis using some(1) T(3) same by (auto simp: waiting_def)
qed

section \<open>Every sequence of operations\<close>

datatype flowOp =
    FSubmitReceived ReceivedFrame
  | FTakeReceived
  | FSetScreenAudioSource PeerID
  | FSubmitSend SendFrame
  | FConsumeSend
  | FInvalidateSend
  | FReset
  | FSetSendInvalidator bool

fun flowStep :: "Flow \<Rightarrow> flowOp \<Rightarrow> Flow" where
  "flowStep f (FSubmitReceived frame) = snd (SubmitReceived f frame)"
| "flowStep f FTakeReceived = (case TakeReceived f of None \<Rightarrow> f | Some (frame, f') \<Rightarrow> f')"
| "flowStep f (FSetScreenAudioSource sourceID) = SetScreenAudioSource f sourceID"
| "flowStep f (FSubmitSend frame) = snd (SubmitSend f frame)"
| "flowStep f FConsumeSend = snd (ConsumeSend f)"
| "flowStep f FInvalidateSend = snd (snd (InvalidateSend f))"
| "flowStep f FReset = snd (snd (Reset f))"
| "flowStep f (FSetSendInvalidator b) = snd (SetSendInvalidator f b)"

lemma flow_inv_New: "flow_inv NewFlow"
  by (simp add: flow_inv_def NewFlow_def)

lemma flow_inv_SetScreenAudioSource:
  assumes inv: "flow_inv f"
  shows "flow_inv (SetScreenAudioSource f sourceID)"
proof (cases "screenAudioSourceID f = sourceID")
  case False
  let ?old = "StreamKey (screenAudioSourceID f) AudioStreamScreen"
  have "receivedQueues f key = []" if "keyKind key = AudioStreamScreen" "key \<noteq> ?old" for key
    using flow_invD(5) [OF inv, of key] that by (cases key) auto
  then show ?thesis
    using inv False by (auto simp: flow_inv_def SetScreenAudioSource_def Let_def)
qed (use inv in \<open>simp add: SetScreenAudioSource_def\<close>)

lemma advance_generation:
  "sendGeneration (advanceSendGenerationLocked f) \<noteq> 0"
  "sendGeneration (advanceSendGenerationLocked f) \<noteq> sendGeneration f"
proof -
  have "sendGeneration f \<noteq> 1" if "sendGeneration f + 1 = 0" using that by auto
  then show "sendGeneration (advanceSendGenerationLocked f) \<noteq> 0"
    "sendGeneration (advanceSendGenerationLocked f) \<noteq> sendGeneration f"
    by (auto simp: advanceSendGenerationLocked_def Let_def)
qed

lemma advance_generation_frame [simp]:
  "receivedQueues (advanceSendGenerationLocked f) = receivedQueues f"
  "receivedOrder (advanceSendGenerationLocked f) = receivedOrder f"
  "receivedNext (advanceSendGenerationLocked f) = receivedNext f"
  "screenAudioSourceID (advanceSendGenerationLocked f) = screenAudioSourceID f"
  by (simp_all add: advanceSendGenerationLocked_def Let_def)

lemma flow_inv_step: "flow_inv f \<Longrightarrow> flow_inv (flowStep f e)"
proof (cases e)
  case (FSubmitReceived frame)
  then show "flow_inv f \<Longrightarrow> ?thesis" by (cases "SubmitReceived f frame") (simp add: flow_inv_SubmitReceived)
next
  case FTakeReceived
  assume inv: "flow_inv f"
  then show ?thesis
    by (cases rule: TakeReceived_cases) (use inv in \<open>auto simp: FTakeReceived intro: flow_inv_takeAt\<close>)
next
  case FInvalidateSend
  then show "flow_inv f \<Longrightarrow> ?thesis"
    by (simp add: InvalidateSend_def Let_def flow_inv_def advance_generation)
next
  case FReset
  then show "flow_inv f \<Longrightarrow> ?thesis"
    by (simp add: Reset_def Let_def flow_inv_def advance_generation)
next
  case (FSetScreenAudioSource sourceID)
  then show "flow_inv f \<Longrightarrow> ?thesis" by (simp add: flow_inv_SetScreenAudioSource)
qed (auto simp: SubmitSend_def ConsumeSend_def SetSendInvalidator_def Let_def flow_inv_def)

interpretation media: machine flowStep flow_inv "\<lambda>f. f = NewFlow"
  by unfold_locales (auto simp: flow_inv_New flow_inv_step)

section \<open>Properties\<close>

text \<open>Whatever is submitted, taken, selected and reset, the received queues stay bounded and in
  order: a stream waits for service just when it has frames queued, no more than two of them, with
  strictly increasing sequences and one stream identity, and screen audio waits only for the source
  selected.\<close>

theorem media_queues_bounded:
  fixes ops :: "flowOp list"
  defines "f \<equiv> foldl flowStep NewFlow ops"
  shows "distinct (receivedOrder f) \<and> (key \<in> set (receivedOrder f) \<longleftrightarrow> receivedQueues f key \<noteq> []) \<and>
    length (receivedQueues f key) \<le> 2 \<and> sorted_wrt (<) (map rfSequence (receivedQueues f key)) \<and>
    card (rfStreamID ` set (receivedQueues f key)) \<le> 1 \<and>
    \<not> (receivedQueues f key \<noteq> [] \<and> keyKind key = AudioStreamScreen \<and> keySourceID key \<noteq> screenAudioSourceID f)"
proof -
  have inv: "flow_inv f" unfolding f_def by (rule media.inv_reachable) simp
  note D = flow_invD [OF inv]
  obtain s where "\<forall>x \<in> set (receivedQueues f key). rfStreamID x = s"
    using D(4) [of key] by (auto simp: queue_ok_def)
  then have "rfStreamID ` set (receivedQueues f key) \<subseteq> {s}" by auto
  then have "card (rfStreamID ` set (receivedQueues f key)) \<le> 1"
    using card_mono [of "{s}" "rfStreamID ` set (receivedQueues f key)"] by simp
  then show ?thesis using D(1,2) D(4) [of key] D(5) [of key] by (auto simp: queue_ok_def)
qed

text \<open>The frames taken by \<open>n\<close> calls in a row.\<close>

fun takeRun :: "nat \<Rightarrow> Flow \<Rightarrow> ReceivedFrame list" where
  "takeRun 0 f = []"
| "takeRun (Suc n) f = (case TakeReceived f of None \<Rightarrow> [] | Some (x, f') \<Rightarrow> x # takeRun n f')"

fun serveRun :: "nat \<Rightarrow> ('k \<times> 'a list) list \<Rightarrow> 'a list" where
  "serveRun 0 ws = []"
| "serveRun (Suc n) ws = (case serve ws of None \<Rightarrow> [] | Some (x, ws') \<Rightarrow> x # serveRun n ws')"

lemma takeRun_serveRun: "flow_inv f \<Longrightarrow> takeRun n f = serveRun n (waiting f)"
proof (induction n arbitrary: f)
  case (Suc n)
  note r = TakeReceived_refines [OF Suc.prems]
  show ?case
  proof (cases "TakeReceived f")
    case (Some y)
    obtain x f' where y: "y = (x, f')" by fastforce
    have "flow_inv f'" using flow_inv_step [OF Suc.prems, of FTakeReceived] Some y by simp
    with Suc.IH r Some y show ?thesis by (simp add: r [symmetric])
  qed (use r in \<open>simp add: r [symmetric]\<close>)
qed simp

lemma serveRun_all:
  "(\<And>k q. (k, q) \<in> set us \<Longrightarrow> q \<noteq> []) \<Longrightarrow> serveRun (length us) (us @ vs) = map (\<lambda>(k, q). hd q) us"
proof (induction us arbitrary: vs)
  case (Cons u us)
  obtain k x xs where u: "u = (k, x # xs)" using Cons.prems by (metis list.exhaust list.set_intros(1) surj_pair)
  show ?case
  proof (cases "xs = []")
    case True
    then show ?thesis using Cons.IH [of vs] Cons.prems u by auto
  next
    case False
    then show ?thesis using Cons.IH [of "vs @ [(k, xs)]"] Cons.prems u by auto
  qed
qed simp

text \<open>Round-robin service: from any state the next as many takes as there are waiting streams give the
  oldest queued frame of each waiting stream exactly once, so no source starves another.\<close>

theorem media_round_robin:
  fixes ops :: "flowOp list"
  defines "f \<equiv> foldl flowStep NewFlow ops"
  shows "takeRun (length (receivedOrder f)) f = map (\<lambda>key. hd (receivedQueues f key)) (rotation f) \<and>
    distinct (rotation f) \<and> set (rotation f) = {key. receivedQueues f key \<noteq> []}"
proof -
  have inv: "flow_inv f" unfolding f_def by (rule media.inv_reachable) simp
  note D = flow_invD [OF inv]
  have "serveRun (length (waiting f)) (waiting f @ []) = map (\<lambda>(k, q). hd q) (waiting f)"
    by (rule serveRun_all) (use D(2) in \<open>auto simp: waiting_def\<close>)
  moreover have "length (waiting f) = length (receivedOrder f)" by (simp add: waiting_def rotation_def)
  ultimately have "takeRun (length (receivedOrder f)) f = map (\<lambda>key. hd (receivedQueues f key)) (rotation f)"
    by (simp add: takeRun_serveRun [OF inv]) (simp add: waiting_def)
  moreover have "distinct (rotation f)" using D(1) by (rule distinct_rotation)
  moreover have "set (rotation f) = {key. receivedQueues f key \<noteq> []}" using D(2) by auto
  ultimately show ?thesis by blast
qed

text \<open>No stale frame is sent: a frame handed to the peer always carries the current send
  generation, and after \<open>InvalidateSend\<close> nothing is left to hand over and every frame of the previous
  generation is refused, also when the counter wraps around.\<close>

theorem media_no_stale_send:
  fixes ops :: "flowOp list"
  defines "f \<equiv> foldl flowStep NewFlow ops"
  shows "(case fst (ConsumeSend f) of None \<Rightarrow> True | Some frame \<Rightarrow> SendGeneration frame = sendGeneration f) \<and>
    (case InvalidateSend f of (g, calls, f1) \<Rightarrow> g \<noteq> 0 \<and> g \<noteq> sendGeneration f \<and> sendGeneration f1 = g \<and>
      fst (ConsumeSend f1) = None \<and>
      {frame. SendGeneration frame = sendGeneration f \<and> fst (SubmitSend f1 frame)} = {})"
proof -
  have inv: "flow_inv f" unfolding f_def by (rule media.inv_reachable) simp
  have "case fst (ConsumeSend f) of None \<Rightarrow> True | Some frame \<Rightarrow> SendGeneration frame = sendGeneration f"
    using flow_invD(7) [OF inv] by (simp add: ConsumeSend_def)
  moreover have "case InvalidateSend f of (g, calls, f1) \<Rightarrow> g \<noteq> 0 \<and> g \<noteq> sendGeneration f \<and> sendGeneration f1 = g \<and>
      fst (ConsumeSend f1) = None \<and>
      {frame. SendGeneration frame = sendGeneration f \<and> fst (SubmitSend f1 frame)} = {}"
    using advance_generation [of f]
    by (auto simp: InvalidateSend_def ConsumeSend_def SubmitSend_def Let_def split: if_splits)
  ultimately show ?thesis ..
qed

end
