(* ===== verification/Base58.thy ===== *)
theory Base58
  imports Prelude
begin

text \<open>
  Base 58 as invites use it: \<open>internal/invite/base58.go\<close>.  \<open>big.Int\<close> values are natural
  numbers; \<open>SetBytes\<close> and \<open>Bytes\<close> read and write them big-endian without leading zeros.
\<close>

section \<open>Big integers and bytes\<close>

definition SetBytes :: "bytes \<Rightarrow> nat" where
  "SetBytes input = foldl (\<lambda>value b. value * 256 + unat b) 0 input"

fun Bytes :: "nat \<Rightarrow> bytes" where
  "Bytes value = (if value = 0 then [] else Bytes (value div 256) @ [of_nat (value mod 256)])"

declare Bytes.simps [simp del]

lemma Bytes_0 [simp]: "Bytes 0 = []"
  by (simp add: Bytes.simps)

lemma SetBytes_snoc: "SetBytes (xs @ [b]) = SetBytes xs * 256 + unat b"
  by (simp add: SetBytes_def)

lemma SetBytes_Nil [simp]: "SetBytes [] = 0"
  by (simp add: SetBytes_def)

lemma foldl_digits:
  fixes d :: "'a \<Rightarrow> nat"
  shows "foldl (\<lambda>v x. v * k + d x) v xs = v * k ^ length xs + foldl (\<lambda>v x. v * k + d x) 0 xs"
proof (induction xs arbitrary: v)
  case (Cons x xs)
  from Cons [of "v * k + d x"] Cons [of "d x"] show ?case by (simp add: algebra_simps)
qed simp

lemma SetBytes_zeros [simp]: "SetBytes (replicate n 0 @ xs) = SetBytes xs"
  by (induction n) (simp_all add: SetBytes_def)

lemma unat_byte_less: "unat (b :: byte) < 256"
  using unsigned_less [of b, where ?'a = nat] by simp

lemma SetBytes_less: "SetBytes xs < 256 ^ length xs"
proof (induction xs rule: rev_induct)
  case (snoc b xs)
  have "SetBytes xs * 256 + unat b < (SetBytes xs + 1) * 256" using unat_byte_less [of b] by simp
  also have "\<dots> \<le> 256 ^ length xs * 256" using snoc by simp
  finally show ?case by (simp add: SetBytes_snoc)
qed simp

lemma SetBytes_pos: "xs \<noteq> [] \<Longrightarrow> hd xs \<noteq> 0 \<Longrightarrow> 0 < SetBytes xs"
proof -
  assume "xs \<noteq> []" "hd xs \<noteq> 0"
  then obtain b ys where xs: "xs = b # ys" "0 < unat b" by (cases xs) (auto simp: unat_gt_0)
  have "SetBytes xs = unat b * 256 ^ length ys + SetBytes ys"
    using foldl_digits [of 256 unat "unat b" ys] by (simp add: xs SetBytes_def)
  with xs(2) show ?thesis by simp
qed

lemma Bytes_SetBytes: "xs = [] \<or> hd xs \<noteq> 0 \<Longrightarrow> Bytes (SetBytes xs) = xs"
proof (induction xs rule: rev_induct)
  case (snoc b xs)
  show ?case
  proof (cases "xs = []")
    case True
    have "of_nat (unat b) = b" by simp
    with snoc.prems True show ?thesis
      using unat_byte_less [of b] by (simp add: SetBytes_def Bytes.simps [of "unat b"] unat_eq_0)
  next
    case False
    then have h: "hd xs \<noteq> 0" using snoc.prems by simp
    have pos: "0 < SetBytes xs" using SetBytes_pos [OF False h] .
    have "Bytes (SetBytes xs * 256 + unat b) = Bytes (SetBytes xs) @ [b]"
      using pos unat_byte_less [of b] by (subst Bytes.simps) simp
    with snoc.IH h show ?thesis by (simp add: SetBytes_snoc)
  qed
qed simp

text \<open>Splitting off the leading zeros.\<close>

definition leading :: "'a \<Rightarrow> 'a list \<Rightarrow> nat" where
  "leading z xs = length (takeWhile (\<lambda>x. x = z) xs)"

lemma leading_split: "xs = replicate (leading z xs) z @ dropWhile (\<lambda>x. x = z) xs"
proof -
  have "takeWhile (\<lambda>x. x = z) xs = replicate (leading z xs) z"
    unfolding leading_def by (induction xs) auto
  then show ?thesis by (metis takeWhile_dropWhile_id)
qed

lemma leading_replicate: "xs = [] \<or> hd xs \<noteq> z \<Longrightarrow> leading z (replicate n z @ xs) = n"
  unfolding leading_def by (induction n) (cases xs; auto)+

section \<open>Digits\<close>

definition base58Alphabet :: bytes where
  "base58Alphabet = bytes_of ''123456789ABCDEFGHJKLMNPQRSTUVWXYZabcdefghijkmnopqrstuvwxyz''"

definition base58Index :: "byte \<Rightarrow> int" where
  "base58Index character =
     (case List.find (\<lambda>position. base58Alphabet ! position = character) [0..<58] of
        None \<Rightarrow> - 1 | Some position \<Rightarrow> int position)"

lemma length_base58Alphabet [simp]: "length base58Alphabet = 58"
  by (simp add: base58Alphabet_def bytes_of_def)

lemma distinct_base58Alphabet: "distinct base58Alphabet"
  by code_simp

lemma base58Index_nth [simp]: "d < 58 \<Longrightarrow> base58Index (base58Alphabet ! d) = int d"
proof -
  assume d: "d < 58"
  have "List.find (\<lambda>p. base58Alphabet ! p = base58Alphabet ! d) [0..<58] = Some d"
    using d distinct_base58Alphabet
    by (auto simp: find_Some_iff nth_eq_iff_index_eq intro!: exI [of _ d])
  then show ?thesis by (simp add: base58Index_def)
qed

text \<open>The loop of \<open>encodeBase58\<close> appends the digits, lowest first.\<close>

function encodeDigits :: "nat \<Rightarrow> bytes \<Rightarrow> bytes" where
  "encodeDigits value encoded =
     (if value > 0 then encodeDigits (value div 58) (encoded @ [base58Alphabet ! (value mod 58)])
      else encoded)"
  by pat_completeness auto
termination by (relation "measure fst") auto

declare encodeDigits.simps [simp del]

definition encodeBase58 :: "bytes \<Rightarrow> bytes" where
  "encodeBase58 input =
     (if length input = 0 then []
      else
        let zeroes = leading 0 input;
            encoded = encodeDigits (SetBytes input) [];
            encoded = encoded @ replicate zeroes (base58Alphabet ! 0)
        in rev encoded)"

fun decodeDigits :: "bytes \<Rightarrow> nat \<Rightarrow> nat result" where
  "decodeDigits [] value = Inr value"
| "decodeDigits (character # rest) value =
     (let decoded = base58Index character
      in if decoded < 0 then fail ''base58 character is invalid''
         else decodeDigits rest (value * 58 + nat decoded))"

definition decodeBase58 :: "bytes \<Rightarrow> bytes result" where
  "decodeBase58 encoded =
     (if encoded = [] then fail ''base58 value is empty''
      else
        let zeroes = leading (base58Alphabet ! 0) encoded
        in case decodeDigits encoded 0 of
             Inl err \<Rightarrow> Inl err
           | Inr value \<Rightarrow> Inr (replicate zeroes 0 @ Bytes value))"

section \<open>Round trip\<close>

text \<open>The digits of a number, highest first.\<close>

fun digits58 :: "nat \<Rightarrow> bytes" where
  "digits58 value = (if value = 0 then [] else digits58 (value div 58) @ [base58Alphabet ! (value mod 58)])"

declare digits58.simps [simp del]

lemma digits58_0 [simp]: "digits58 0 = []"
  by (simp add: digits58.simps)

lemma digits58_pos: "0 < v \<Longrightarrow> digits58 v = digits58 (v div 58) @ [base58Alphabet ! (v mod 58)]"
  by (simp add: digits58.simps)

lemma encodeDigits_eq: "encodeDigits v acc = acc @ rev (digits58 v)"
proof (induction v arbitrary: acc rule: digits58.induct)
  case (1 v)
  show ?case
  proof (cases "v = 0")
    case True
    then show ?thesis by (simp add: encodeDigits.simps)
  next
    case False
    then show ?thesis using "1.IH" by (simp add: encodeDigits.simps [of v] digits58_pos)
  qed
qed

lemma encodeBase58_eq:
  "xs \<noteq> [] \<Longrightarrow> encodeBase58 xs = replicate (leading 0 xs) (base58Alphabet ! 0) @ digits58 (SetBytes xs)"
  by (simp add: encodeBase58_def encodeDigits_eq Let_def)

lemma digits58_nonzero: "0 < v \<Longrightarrow> digits58 v \<noteq> [] \<and> hd (digits58 v) \<noteq> base58Alphabet ! 0"
proof (induction v rule: digits58.induct)
  case (1 v)
  show ?case
  proof (cases "v div 58 = 0")
    case True
    then have "v < 58" by simp
    then have "digits58 v = [base58Alphabet ! v]" using "1.prems" True by (simp add: digits58_pos)
    moreover have "base58Alphabet ! v \<noteq> base58Alphabet ! 0"
      using distinct_base58Alphabet \<open>v < 58\<close> "1.prems" by (simp add: nth_eq_iff_index_eq)
    ultimately show ?thesis by simp
  next
    case False
    then have "digits58 (v div 58) \<noteq> [] \<and> hd (digits58 (v div 58)) \<noteq> base58Alphabet ! 0"
      using "1.IH" "1.prems" by simp
    then show ?thesis unfolding digits58_pos [OF "1.prems"] by simp
  qed
qed

lemma decodeDigits_append:
  "decodeDigits (xs @ ys) v = (case decodeDigits xs v of Inl e \<Rightarrow> Inl e | Inr w \<Rightarrow> decodeDigits ys w)"
  by (induction xs arbitrary: v) (simp_all add: Let_def)

lemma decodeDigits_zeros: "decodeDigits (replicate n (base58Alphabet ! 0) @ xs) 0 = decodeDigits xs 0"
  by (induction n) (simp_all add: Let_def)

lemma decodeDigits_digits58: "decodeDigits (digits58 v) 0 = Inr v"
proof (induction v rule: digits58.induct)
  case (1 v)
  show ?case
  proof (cases "v = 0")
    case False
    then show ?thesis using "1.IH" by (simp add: digits58_pos decodeDigits_append Let_def)
  qed simp
qed

lemma hd_dropWhile_ne: "dropWhile (\<lambda>x. x = z) xs = [] \<or> hd (dropWhile (\<lambda>x. x = z) xs) \<noteq> z"
  using hd_dropWhile [of "\<lambda>x. x = z" xs] by blast

lemma decodeBase58_encodeBase58:
  assumes "xs \<noteq> []"
  shows "decodeBase58 (encodeBase58 xs) = Inr xs"
proof -
  let ?n = "leading 0 xs" and ?ys = "dropWhile (\<lambda>x. x = 0) xs"
  have xs: "xs = replicate ?n 0 @ ?ys" by (rule leading_split)
  have v: "SetBytes xs = SetBytes ?ys" by (metis SetBytes_zeros xs)
  have ys: "?ys = [] \<or> hd ?ys \<noteq> 0" by (rule hd_dropWhile_ne)
  have e: "encodeBase58 xs = replicate ?n (base58Alphabet ! 0) @ digits58 (SetBytes xs)"
    by (rule encodeBase58_eq [OF assms])
  have lead: "leading (base58Alphabet ! 0) (encodeBase58 xs) = ?n"
    unfolding e using digits58_nonzero [of "SetBytes xs"]
    by (cases "SetBytes xs = 0") (auto simp: leading_replicate leading_replicate [of "[]", simplified])
  have "encodeBase58 xs \<noteq> []"
  proof (cases "?n = 0")
    case True
    then have "?ys \<noteq> []" using xs assms by auto
    then show ?thesis using e v ys SetBytes_pos [of ?ys] digits58_nonzero [of "SetBytes xs"] by auto
  qed (simp add: e)
  moreover have "decodeDigits (encodeBase58 xs) 0 = Inr (SetBytes xs)"
    by (simp add: e decodeDigits_zeros decodeDigits_digits58)
  ultimately show ?thesis
    using lead Bytes_SetBytes [OF ys] xs by (simp add: decodeBase58_def Let_def v)
qed

text \<open>The length of an encoding.\<close>

lemma length_digits58: "v < 58 ^ n \<Longrightarrow> length (digits58 v) \<le> n"
proof (induction n arbitrary: v)
  case (Suc n)
  show ?case
  proof (cases "v = 0")
    case False
    have "v div 58 < 58 ^ n" using Suc.prems by (simp add: less_mult_imp_div_less)
    then show ?thesis using Suc.IH [of "v div 58"] False by (simp add: digits58_pos)
  qed simp
qed simp

lemma encodeBase58_alphabet: "set (encodeBase58 xs) \<subseteq> set base58Alphabet"
proof -
  have a: "base58Alphabet ! k \<in> set base58Alphabet" if "k < 58" for k using that by simp
  have "set (digits58 v) \<subseteq> set base58Alphabet" for v
  proof (induction v rule: digits58.induct)
    case (1 v)
    then show ?case using a [of "v mod 58"] by (cases "v = 0") (auto simp: digits58_pos)
  qed
  then show ?thesis using a [of 0] encodeBase58_eq [of xs] by (cases "xs = []") (auto simp: encodeBase58_def)
qed

end
