(* ===== verification/GoStrings.thy ===== *)
theory GoStrings
  imports Prelude
begin

text \<open>
  What the program uses of Go's strings: a string is its bytes, and \<open>utf8.ValidString\<close>,
  \<open>utf8.RuneCountInString\<close>, the \<open>range\<close> loop over runes, \<open>unicode.IsSpace\<close>,
  \<open>unicode.IsControl\<close> and \<open>strings.TrimSpace\<close> work on its UTF-8 runes.
\<close>

section \<open>UTF-8\<close>

definition byteIn :: "byte \<Rightarrow> byte \<Rightarrow> byte \<Rightarrow> bool" where
  "byteIn lo hi b \<longleftrightarrow> lo \<le> b \<and> b \<le> hi"

definition low6 :: "byte \<Rightarrow> nat" where
  "low6 b = unat b mod 64"

text \<open>\<open>utf8.DecodeRune\<close>: the rune and its width; \<open>None\<close> stands for \<open>(RuneError, 1)\<close>.\<close>

definition rune2 :: "byte \<Rightarrow> bytes \<Rightarrow> (nat \<times> nat) option" where
  "rune2 b0 rest =
     (case rest of
        b1 # _ \<Rightarrow> if byteIn 0x80 0xBF b1 then Some (unat b0 mod 32 * 64 + low6 b1, 2) else None
      | _ \<Rightarrow> None)"

definition rune3 :: "byte \<Rightarrow> bytes \<Rightarrow> (nat \<times> nat) option" where
  "rune3 b0 rest =
     (case rest of
        b1 # b2 # _ \<Rightarrow>
          if byteIn (if b0 = 0xE0 then 0xA0 else 0x80) (if b0 = 0xED then 0x9F else 0xBF) b1
             \<and> byteIn 0x80 0xBF b2
          then Some (unat b0 mod 16 * 4096 + low6 b1 * 64 + low6 b2, 3) else None
      | _ \<Rightarrow> None)"

definition rune4 :: "byte \<Rightarrow> bytes \<Rightarrow> (nat \<times> nat) option" where
  "rune4 b0 rest =
     (case rest of
        b1 # b2 # b3 # _ \<Rightarrow>
          if byteIn (if b0 = 0xF0 then 0x90 else 0x80) (if b0 = 0xF4 then 0x8F else 0xBF) b1
             \<and> byteIn 0x80 0xBF b2 \<and> byteIn 0x80 0xBF b3
          then Some (unat b0 mod 8 * 262144 + low6 b1 * 4096 + low6 b2 * 64 + low6 b3, 4) else None
      | _ \<Rightarrow> None)"

fun decodeRune :: "bytes \<Rightarrow> (nat \<times> nat) option" where
  "decodeRune [] = None"
| "decodeRune (b0 # rest) =
     (if b0 < 0x80 then Some (unat b0, 1)
      else if byteIn 0xC2 0xDF b0 then rune2 b0 rest
      else if byteIn 0xE0 0xEF b0 then rune3 b0 rest
      else if byteIn 0xF0 0xF4 b0 then rune4 b0 rest
      else None)"

lemma rune_width:
  "rune2 b rest = Some (r, w) \<Longrightarrow> w = 2 \<and> 1 \<le> length rest"
  "rune3 b rest = Some (r, w) \<Longrightarrow> w = 3 \<and> 2 \<le> length rest"
  "rune4 b rest = Some (r, w) \<Longrightarrow> w = 4 \<and> 3 \<le> length rest"
  unfolding rune2_def rune3_def rune4_def by (simp_all split: if_split_asm list.split_asm)

lemma rune_append:
  "rune2 b rest = Some x \<Longrightarrow> rune2 b (rest @ t) = Some x"
  "rune3 b rest = Some x \<Longrightarrow> rune3 b (rest @ t) = Some x"
  "rune4 b rest = Some x \<Longrightarrow> rune4 b (rest @ t) = Some x"
  unfolding rune2_def rune3_def rune4_def by (simp_all split: if_split_asm list.split_asm)

lemma decodeRune_cases:
  assumes "decodeRune s = Some x"
  obtains (one) b rest where "s = b # rest" "b < 0x80" "x = (unat b, 1)"
  | (two) b rest where "s = b # rest" "\<not> b < 0x80" "byteIn 0xC2 0xDF b" "rune2 b rest = Some x"
  | (three) b rest where "s = b # rest" "\<not> b < 0x80" "\<not> byteIn 0xC2 0xDF b" "byteIn 0xE0 0xEF b" "rune3 b rest = Some x"
  | (four) b rest where "s = b # rest" "\<not> b < 0x80" "\<not> byteIn 0xC2 0xDF b" "\<not> byteIn 0xE0 0xEF b"
      "byteIn 0xF0 0xF4 b" "rune4 b rest = Some x"
  using assms by (cases s) (simp_all split: if_split_asm)

lemma decodeRune_width:
  assumes "decodeRune s = Some (r, w)"
  shows "1 \<le> w \<and> w \<le> length s \<and> w \<le> 4"
  using assms
proof (cases rule: decodeRune_cases)
  case two
  then show ?thesis using rune_width(1) by fastforce
next
  case three
  then show ?thesis using rune_width(2) by fastforce
next
  case four
  then show ?thesis using rune_width(3) by fastforce
qed simp

lemma decodeRune_append:
  assumes "decodeRune s = Some x"
  shows "decodeRune (s @ t) = Some x"
  using assms by (cases rule: decodeRune_cases) (simp_all add: rune_append)

definition runeStep :: "bytes \<Rightarrow> nat \<times> nat" where
  "runeStep s = (case decodeRune s of None \<Rightarrow> (0xFFFD, 1) | Some x \<Rightarrow> x)"

lemma runeStep_width: "s \<noteq> [] \<Longrightarrow> 1 \<le> snd (runeStep s) \<and> snd (runeStep s) \<le> length s"
  using decodeRune_width [of s "fst (runeStep s)" "snd (runeStep s)"]
  by (cases "decodeRune s") (auto simp: runeStep_def Suc_le_eq)

text \<open>The runes of a string, as a \<open>range\<close> loop sees them.\<close>

function runes :: "bytes \<Rightarrow> nat list" where
  "runes s = (if s = [] then [] else fst (runeStep s) # runes (drop (snd (runeStep s)) s))"
  by pat_completeness auto
termination
proof (relation "measure length")
  fix s :: bytes assume "s \<noteq> []"
  then show "(drop (snd (runeStep s)) s, s) \<in> measure length"
    using runeStep_width [of s] by (cases s) auto
qed simp

declare runes.simps [simp del]

definition RuneCountInString :: "bytes \<Rightarrow> nat" where
  "RuneCountInString s = length (runes s)"

function ValidString :: "bytes \<Rightarrow> bool" where
  "ValidString s =
     (if s = [] then True
      else case decodeRune s of None \<Rightarrow> False | Some (r, w) \<Rightarrow> ValidString (drop w s))"
  by pat_completeness auto
termination
  by (relation "measure length") (auto dest!: decodeRune_width)

declare ValidString.simps [simp del]

lemma runes_Nil [simp]: "runes [] = []"
  by (simp add: runes.simps)

lemma ValidString_Nil [simp]: "ValidString []"
  by (simp add: ValidString.simps)

lemma runes_ascii [simp]: "b < 0x80 \<Longrightarrow> runes (b # s) = unat b # runes s"
  by (simp add: runes.simps [of "b # s"] runeStep_def)

lemma ValidString_ascii [simp]: "b < 0x80 \<Longrightarrow> ValidString (b # s) = ValidString s"
  by (simp add: ValidString.simps [of "b # s"])

lemma RuneCount_le: "length (runes s) \<le> length s"
proof (induction s rule: runes.induct)
  case (1 s)
  show ?case
  proof (cases "s = []")
    case False
    from runeStep_width [OF this] "1.IH" [OF this] False show ?thesis
      by (subst runes.simps) auto
  qed simp
qed

section \<open>Trimming\<close>

definition IsSpace :: "nat \<Rightarrow> bool" where
  "IsSpace r \<longleftrightarrow> r \<in> {0x09, 0x0A, 0x0B, 0x0C, 0x0D, 0x20, 0x85, 0xA0, 0x1680, 0x2028, 0x2029,
     0x202F, 0x205F, 0x3000} \<or> (0x2000 \<le> r \<and> r \<le> 0x200A)"

definition IsControl :: "nat \<Rightarrow> bool" where
  "IsControl r \<longleftrightarrow> r < 0x20 \<or> (0x7F \<le> r \<and> r < 0xA0)"

definition RuneStart :: "byte \<Rightarrow> bool" where
  "RuneStart b \<longleftrightarrow> b AND 0xC0 \<noteq> 0x80"

text \<open>\<open>utf8.DecodeLastRune\<close>: looks back over at most three continuation bytes.\<close>

definition decodeLastRune :: "bytes \<Rightarrow> (nat \<times> nat) option" where
  "decodeLastRune s =
     (if s = [] then None
      else if last s < 0x80 then Some (unat (last s), 1)
      else case List.find (\<lambda>w. w \<le> length s \<and> RuneStart (s ! (length s - w))) [2, 3, 4] of
          None \<Rightarrow> None
        | Some w \<Rightarrow>
            (case decodeRune (drop (length s - w) s) of
               None \<Rightarrow> None
             | Some (r, n) \<Rightarrow> if n = w then Some (r, n) else None))"

lemma decodeLastRune_width: "decodeLastRune s = Some (r, w) \<Longrightarrow> 1 \<le> w \<and> w \<le> length s"
  by (auto simp: decodeLastRune_def Suc_le_eq find_Some_iff split: if_splits option.splits
      dest: decodeRune_width)

function trimLeft :: "bytes \<Rightarrow> bytes" where
  "trimLeft s =
     (case decodeRune s of
        Some (r, w) \<Rightarrow> if IsSpace r then trimLeft (drop w s) else s
      | None \<Rightarrow> s)"
  by pat_completeness auto
termination
  by (relation "measure length") (auto dest!: decodeRune_width)

function trimRight :: "bytes \<Rightarrow> bytes" where
  "trimRight s =
     (case decodeLastRune s of
        Some (r, w) \<Rightarrow> if IsSpace r then trimRight (take (length s - w) s) else s
      | None \<Rightarrow> s)"
  by pat_completeness auto
termination
  by (relation "measure length") (auto dest!: decodeLastRune_width)

declare trimLeft.simps [simp del] trimRight.simps [simp del]

definition TrimSpace :: "bytes \<Rightarrow> bytes" where
  "TrimSpace s = trimRight (trimLeft s)"

definition leftTrimmed :: "bytes \<Rightarrow> bool" where
  "leftTrimmed s \<longleftrightarrow> (\<forall>r w. decodeRune s = Some (r, w) \<longrightarrow> \<not> IsSpace r)"

definition rightTrimmed :: "bytes \<Rightarrow> bool" where
  "rightTrimmed s \<longleftrightarrow> (\<forall>r w. decodeLastRune s = Some (r, w) \<longrightarrow> \<not> IsSpace r)"

lemma trimLeft_id: "leftTrimmed s \<Longrightarrow> trimLeft s = s"
  by (subst trimLeft.simps) (auto simp: leftTrimmed_def split: option.splits)

lemma trimRight_id: "rightTrimmed s \<Longrightarrow> trimRight s = s"
  by (subst trimRight.simps) (auto simp: rightTrimmed_def split: option.splits)

lemma trimLeft_space: "decodeRune s = Some (r, w) \<Longrightarrow> IsSpace r \<Longrightarrow> trimLeft s = trimLeft (drop w s)"
  by (subst trimLeft.simps) simp

lemma trimRight_space:
  "decodeLastRune s = Some (r, w) \<Longrightarrow> IsSpace r \<Longrightarrow> trimRight s = trimRight (take (length s - w) s)"
  by (subst trimRight.simps) simp

lemma leftTrimmed_trimLeft: "leftTrimmed (trimLeft s)"
proof (induction s rule: trimLeft.induct)
  case (1 s)
  show ?case
  proof (cases "leftTrimmed s")
    case True
    then show ?thesis by (simp add: trimLeft_id)
  next
    case False
    then obtain r w where "decodeRune s = Some (r, w)" "IsSpace r" by (auto simp: leftTrimmed_def)
    with "1.IH" [of "(r, w)" r w] show ?thesis by (simp add: trimLeft_space)
  qed
qed

lemma rightTrimmed_trimRight: "rightTrimmed (trimRight s)"
proof (induction s rule: trimRight.induct)
  case (1 s)
  show ?case
  proof (cases "rightTrimmed s")
    case True
    then show ?thesis by (simp add: trimRight_id)
  next
    case False
    then obtain r w where "decodeLastRune s = Some (r, w)" "IsSpace r" by (auto simp: rightTrimmed_def)
    with "1.IH" [of "(r, w)" r w] show ?thesis by (simp add: trimRight_space)
  qed
qed

lemma trimRight_prefix: "\<exists>t. s = trimRight s @ t"
proof (induction s rule: trimRight.induct)
  case (1 s)
  show ?case
  proof (cases "rightTrimmed s")
    case True
    then show ?thesis by (simp add: trimRight_id)
  next
    case False
    then obtain r w where rw: "decodeLastRune s = Some (r, w)" "IsSpace r" by (auto simp: rightTrimmed_def)
    then obtain t where "take (length s - w) s = trimRight s @ t"
      using "1.IH" [of "(r, w)" r w] by (auto simp: trimRight_space)
    then have "s = trimRight s @ t @ drop (length s - w) s" by (metis append.assoc append_take_drop_id)
    then show ?thesis by blast
  qed
qed

lemma leftTrimmed_prefix: "leftTrimmed (s @ t) \<Longrightarrow> leftTrimmed s"
  by (auto simp: leftTrimmed_def dest: decodeRune_append)

lemma TrimSpace_trimmed: "leftTrimmed (TrimSpace s)" "rightTrimmed (TrimSpace s)"
proof -
  obtain t where "trimLeft s = TrimSpace s @ t" using trimRight_prefix by (metis TrimSpace_def)
  then show "leftTrimmed (TrimSpace s)" using leftTrimmed_prefix leftTrimmed_trimLeft by metis
  show "rightTrimmed (TrimSpace s)" by (simp add: TrimSpace_def rightTrimmed_trimRight)
qed

lemma TrimSpace_id: "leftTrimmed s \<Longrightarrow> rightTrimmed s \<Longrightarrow> TrimSpace s = s"
  by (simp add: TrimSpace_def trimLeft_id trimRight_id)

lemma TrimSpace_idem [simp]: "TrimSpace (TrimSpace s) = TrimSpace s"
  by (rule TrimSpace_id) (rule TrimSpace_trimmed)+

lemma leftTrimmed_ascii [simp]: "b < 0x80 \<Longrightarrow> leftTrimmed (b # s) \<longleftrightarrow> \<not> IsSpace (unat b)"
  by (simp add: leftTrimmed_def)

lemma rightTrimmed_ascii [simp]: "b < 0x80 \<Longrightarrow> rightTrimmed (s @ [b]) \<longleftrightarrow> \<not> IsSpace (unat b)"
  by (simp add: rightTrimmed_def decodeLastRune_def)

lemma trimmed_Nil [simp]: "leftTrimmed []" "rightTrimmed []"
  by (simp_all add: leftTrimmed_def rightTrimmed_def decodeLastRune_def)

end
