(* ===== verification/RoomInvite.thy ===== *)
theory RoomInvite
  imports Base58 GoStrings
begin

text \<open>
  Room invites: \<open>internal/invite/invite.go\<close>.  An invite is a room name and a 32-byte seed; its
  text form is base 58 of version, seed, name and a CRC, behind a fixed prefix.  The random
  source and HKDF-SHA256 are parameters.
\<close>

section \<open>Invites\<close>

definition inviteVersion :: byte where [simp]: "inviteVersion = 1"
definition RoomSeedSize :: nat where [simp]: "RoomSeedSize = 32"
definition TrackerHashSize :: nat where [simp]: "TrackerHashSize = 20"
definition MaxDisplayRunes :: nat where [simp]: "MaxDisplayRunes = 64"
definition MaxDisplayBytes :: nat where [simp]: "MaxDisplayBytes = 256"
definition MaxEncodedSize :: nat where [simp]: "MaxEncodedSize = 512"
definition invitePrefix :: bytes where "invitePrefix = bytes_of ''bork://join/''"
definition payloadFixedSize :: nat where [simp]: "payloadFixedSize = 1 + RoomSeedSize"
definition checksumSize :: nat where [simp]: "checksumSize = 2"
definition hkdfSalt :: bytes where "hkdfSalt = bytes_of ''bork/invite/hkdf-sha256/v1''"

record Invite =
  DisplayName :: bytes
  roomSeed :: key32

definition validateDisplayName :: "bytes \<Rightarrow> bytes result" where
  "validateDisplayName displayName =
     (let displayName = TrimSpace displayName
      in if displayName = [] then fail ''room name is required''
         else if \<not> ValidString displayName \<or> RuneCountInString displayName > MaxDisplayRunes
           \<or> length displayName > MaxDisplayBytes
         then fail ''room name must contain at most 64 characters''
         else Inr displayName)"

text \<open>\<open>seed\<close> is the outcome of \<open>rand.Read\<close>.\<close>

definition New :: "key32 result \<Rightarrow> bytes \<Rightarrow> Invite result" where
  "New seed displayName =
     (case validateDisplayName displayName of
        Inl err \<Rightarrow> Inl err
      | Inr displayName \<Rightarrow>
          (case seed of
             Inl err \<Rightarrow> Inl (wrap ''generate room seed: '' err)
           | Inr value \<Rightarrow> Inr \<lparr>DisplayName = displayName, roomSeed = value\<rparr>))"

fun crcShift :: "nat \<Rightarrow> uint16 \<Rightarrow> uint16" where
  "crcShift 0 crc = crc"
| "crcShift (Suc n) crc =
     crcShift n (if crc AND 0x8000 \<noteq> 0 then push_bit 1 crc XOR 0x1021 else push_bit 1 crc)"

definition inviteCRC16 :: "bytes \<Rightarrow> uint16" where
  "inviteCRC16 content =
     foldl (\<lambda>crc value. crcShift 8 (crc XOR push_bit 8 (ucast value))) 0xffff content"

definition Encode :: "Invite \<Rightarrow> bytes" where
  "Encode i =
     (let content = [inviteVersion] @ put_be RoomSeedSize (roomSeed i) @ DisplayName i
      in invitePrefix @ encodeBase58 (content @ put_be checksumSize (inviteCRC16 content)))"

definition TrimPrefix :: "bytes \<Rightarrow> bytes \<Rightarrow> bytes" where
  "TrimPrefix s p = (if length p \<le> length s \<and> take (length p) s = p then drop (length p) s else s)"

definition parsePayload :: "bytes \<Rightarrow> Invite result" where
  "parsePayload payload =
     (if length payload < payloadFixedSize + checksumSize then fail ''invite payload is truncated''
      else
        let content = take (length payload - checksumSize) payload
        in if payload ! 0 \<noteq> inviteVersion then fail ''unsupported invite version''
           else if get_be (drop (length payload - checksumSize) payload) \<noteq> inviteCRC16 content
           then fail ''invite checksum is invalid''
           else
             let rawDisplayName = drop payloadFixedSize content
             in case validateDisplayName rawDisplayName of
                  Inl err \<Rightarrow> Inl err
                | Inr displayName \<Rightarrow>
                    if displayName \<noteq> rawDisplayName then fail ''invite room name is not canonical''
                    else Inr \<lparr>DisplayName = displayName,
                      roomSeed = get_be (seg 1 (1 + RoomSeedSize) payload)\<rparr>)"

definition Parse :: "bytes \<Rightarrow> Invite result" where
  "Parse encoded =
     (if length encoded > MaxEncodedSize then fail ''invite is too large''
      else
        let encoded = TrimPrefix (TrimSpace encoded) invitePrefix
        in if encoded = [] then fail ''invite is empty''
           else if 13 \<in> set encoded \<or> 10 \<in> set encoded then fail ''invite encoding is invalid''
           else case decodeBase58 encoded of
               Inl err \<Rightarrow> fail ''invite encoding is invalid''
             | Inr payload \<Rightarrow>
                 if encodeBase58 payload \<noteq> encoded then fail ''invite encoding is not canonical''
                 else parsePayload payload)"

text \<open>\<open>hkdf secret salt info length\<close> is the output of HKDF-SHA256.\<close>

type_synonym hkdf = "bytes \<Rightarrow> bytes \<Rightarrow> bytes \<Rightarrow> nat \<Rightarrow> bytes"

definition derive :: "hkdf \<Rightarrow> Invite \<Rightarrow> string \<Rightarrow> nat \<Rightarrow> bytes" where
  "derive hkdf i info len = hkdf (put_be RoomSeedSize (roomSeed i)) hkdfSalt (bytes_of info) len"

definition TrackerHash :: "hkdf \<Rightarrow> Invite \<Rightarrow> 160 word" where
  "TrackerHash hkdf i = get_be (derive hkdf i ''bork/tracker/v1'' TrackerHashSize)"

definition RoomDatagramKey :: "hkdf \<Rightarrow> Invite \<Rightarrow> key32" where
  "RoomDatagramKey hkdf i = get_be (derive hkdf i ''bork/room-datagram/v1'' 32)"

definition AdmissionKey :: "hkdf \<Rightarrow> Invite \<Rightarrow> key32" where
  "AdmissionKey hkdf i = get_be (derive hkdf i ''bork/admission/v1'' 32)"

definition RoomTag :: "hkdf \<Rightarrow> Invite \<Rightarrow> id16" where
  "RoomTag hkdf i = get_be (derive hkdf i ''bork/room-tag/v1'' 16)"

section \<open>Names\<close>

lemma validateDisplayName_idem: "validateDisplayName n = Inr m \<Longrightarrow> validateDisplayName m = Inr m"
  by (auto simp: validateDisplayName_def Let_def split: if_splits)

lemma validateDisplayName_OK:
  "validateDisplayName n = Inr n \<Longrightarrow> n \<noteq> [] \<and> ValidString n \<and> length n \<le> 256"
  by (auto simp: validateDisplayName_def Let_def split: if_splits)

lemma New_valid: "New seed n = Inr i \<Longrightarrow> validateDisplayName (DisplayName i) = Inr (DisplayName i)"
  by (auto simp: New_def validateDisplayName_idem split: sum.splits)

section \<open>Round trip\<close>

definition inviteContent :: "Invite \<Rightarrow> bytes" where
  "inviteContent i = [inviteVersion] @ put_be 32 (roomSeed i) @ DisplayName i"

definition invitePayload :: "Invite \<Rightarrow> bytes" where
  "invitePayload i = inviteContent i @ put_be 2 (inviteCRC16 (inviteContent i))"

lemma Encode_eq: "Encode i = invitePrefix @ encodeBase58 (invitePayload i)"
  by (simp add: Encode_def invitePayload_def inviteContent_def Let_def)

lemma length_invitePayload [simp]: "length (invitePayload i) = 35 + length (DisplayName i)"
  by (simp add: invitePayload_def inviteContent_def)

lemma parsePayload_invitePayload:
  assumes "validateDisplayName (DisplayName i) = Inr (DisplayName i)"
  shows "parsePayload (invitePayload i) = Inr i"
proof -
  have t: "take (length (invitePayload i) - 2) (invitePayload i) = inviteContent i"
    by (simp add: invitePayload_def)
  have d: "drop (length (invitePayload i) - 2) (invitePayload i) = put_be 2 (inviteCRC16 (inviteContent i))"
    by (simp add: invitePayload_def)
  have s: "seg 1 33 (invitePayload i) = put_be 32 (roomSeed i)"
    by (simp add: invitePayload_def inviteContent_def)
  have n: "drop 33 (inviteContent i) = DisplayName i" by (simp add: inviteContent_def)
  have v: "invitePayload i ! 0 = 1" by (simp add: invitePayload_def inviteContent_def)
  show ?thesis
    using assms t d s n v by (simp add: parsePayload_def Let_def)
qed

lemma parsePayload_OK:
  assumes "parsePayload payload = Inr i"
  shows "payload = invitePayload i" and "validateDisplayName (DisplayName i) = Inr (DisplayName i)"
proof -
  let ?c = "take (length payload - 2) payload"
  have len: "35 \<le> length payload" and v: "payload ! 0 = 1"
    and crc: "get_be (drop (length payload - 2) payload) = inviteCRC16 ?c"
    and name: "validateDisplayName (drop 33 ?c) = Inr (drop 33 ?c)"
    and i: "i = \<lparr>DisplayName = drop 33 ?c, roomSeed = get_be (seg 1 33 payload)\<rparr>"
    using assms by (auto simp: parsePayload_def Let_def split: if_splits sum.splits)
  show "validateDisplayName (DisplayName i) = Inr (DisplayName i)" using name by (simp add: i)
  have "seg 1 33 payload = seg 1 33 ?c" using len by (simp add: seg_def drop_take min_def)
  moreover have "seg 0 1 ?c = [1]" using len v by (cases payload) (auto simp: seg_def take_Cons')
  then have "?c = [1] @ seg 1 33 ?c @ drop 33 ?c"
    using drop_seg [of 0 1 ?c] drop_seg [of 1 33 ?c] by simp
  ultimately have "inviteContent i = ?c"
    using len by (simp add: inviteContent_def i)
  moreover have "put_be 2 (inviteCRC16 ?c) = drop (length payload - 2) payload"
    using crc [symmetric] len by simp
  ultimately show "payload = invitePayload i"
    by (simp add: invitePayload_def)
qed

lemma alphabet_plain:
  assumes "c \<in> set base58Alphabet"
  shows "c < 0x80 \<and> \<not> IsSpace (unat c) \<and> c \<noteq> 13 \<and> c \<noteq> 10"
proof -
  have "\<forall>c \<in> set base58Alphabet. 49 \<le> c \<and> c \<le> 122" by code_simp
  with assms have "49 \<le> unat c" "unat c \<le> 122" by (auto simp: word_le_nat_alt)
  then show ?thesis by (auto simp: word_less_nat_alt IsSpace_def)
qed

lemma invitePrefix_eq: "invitePrefix = [98, 111, 114, 107, 58, 47, 47, 106, 111, 105, 110, 47]"
  by (simp add: invitePrefix_def bytes_of_def)

lemma TrimSpace_Encode:
  assumes "xs \<noteq> []" "set xs \<subseteq> set base58Alphabet"
  shows "TrimSpace (invitePrefix @ xs) = invitePrefix @ xs"
proof (rule TrimSpace_id)
  show "leftTrimmed (invitePrefix @ xs)" by (simp add: invitePrefix_eq IsSpace_def)
  obtain ys c where xs: "xs = ys @ [c]" using assms(1) by (metis rev_exhaust)
  have "c \<in> set base58Alphabet" using assms(2) xs by simp
  then have "rightTrimmed ((invitePrefix @ ys) @ [c])" using alphabet_plain rightTrimmed_ascii by blast
  then show "rightTrimmed (invitePrefix @ xs)" by (simp add: xs)
qed

lemma encodeBase58_nonempty: "xs \<noteq> [] \<Longrightarrow> encodeBase58 xs \<noteq> []"
  using decodeBase58_encodeBase58 [of xs] by (auto simp: decodeBase58_def)

lemma length_encodeBase58:
  assumes "length xs \<le> 291" "xs \<noteq> []" "hd xs \<noteq> 0"
  shows "length (encodeBase58 xs) \<le> 398"
proof -
  have "SetBytes xs < 256 ^ length xs" by (rule SetBytes_less)
  also have "\<dots> \<le> 256 ^ 291" using assms(1) by (intro power_increasing) auto
  also have "\<dots> \<le> (58 :: nat) ^ 398" by simp
  finally have "length (digits58 (SetBytes xs)) \<le> 398" by (rule length_digits58)
  moreover have "leading 0 xs = 0" using assms(2,3) by (cases xs) (auto simp: leading_def)
  ultimately show ?thesis using encodeBase58_eq [OF assms(2)] by simp
qed

lemma Parse_Encode:
  assumes "validateDisplayName (DisplayName i) = Inr (DisplayName i)"
  shows "Parse (Encode i) = Inr i"
proof -
  let ?p = "invitePayload i"
  let ?e = "encodeBase58 ?p"
  have p: "?p \<noteq> []" "hd ?p \<noteq> 0" by (simp_all add: invitePayload_def inviteContent_def)
  have len: "length ?e \<le> 398"
    using validateDisplayName_OK [OF assms] p by (intro length_encodeBase58) auto
  have ne: "?e \<noteq> []" using p(1) by (rule encodeBase58_nonempty)
  have al: "set ?e \<subseteq> set base58Alphabet" by (rule encodeBase58_alphabet)
  have "TrimPrefix (TrimSpace (Encode i)) invitePrefix = ?e"
    by (simp add: Encode_eq TrimSpace_Encode [OF ne al] TrimPrefix_def)
  moreover have "13 \<notin> set ?e \<and> 10 \<notin> set ?e" using al alphabet_plain by blast
  moreover have "length (Encode i) \<le> 512" using len by (simp add: Encode_eq invitePrefix_eq)
  ultimately show ?thesis
    using ne decodeBase58_encodeBase58 [OF p(1)] parsePayload_invitePayload [OF assms]
    by (simp add: Parse_def Let_def)
qed

lemma Parse_canonical:
  assumes "Parse s = Inr i"
  shows "Encode i = invitePrefix @ TrimPrefix (TrimSpace s) invitePrefix"
    and "validateDisplayName (DisplayName i) = Inr (DisplayName i)"
proof -
  obtain payload where d: "encodeBase58 payload = TrimPrefix (TrimSpace s) invitePrefix"
    and p: "parsePayload payload = Inr i"
    using assms by (auto simp: Parse_def Let_def split: if_splits sum.splits)
  show "Encode i = invitePrefix @ TrimPrefix (TrimSpace s) invitePrefix"
    using d parsePayload_OK(1) [OF p] by (simp add: Encode_eq)
  show "validateDisplayName (DisplayName i) = Inr (DisplayName i)" using p by (rule parsePayload_OK)
qed

section \<open>The checksum\<close>

definition crcRound :: "uint16 \<Rightarrow> uint16" where
  "crcRound crc = (if crc AND 0x8000 \<noteq> 0 then push_bit 1 crc XOR 0x1021 else push_bit 1 crc)"

lemma word_xor_cancel: "a XOR k = b XOR k \<Longrightarrow> a = b" for a b k :: "'a::len word"
proof -
  assume "a XOR k = b XOR k"
  then have "(a XOR k) XOR k = (b XOR k) XOR k" by (rule arg_cong)
  then show ?thesis by (simp only: xor.assoc xor_self_eq xor.right_neutral)
qed

lemma crcRound_cases:
  "crcRound c = (if bit c 15 then push_bit 1 c XOR 0x1021 else push_bit 1 c)"
  using and_exp_bit [of c 15] by (simp add: crcRound_def)

lemma bit_crcRound_0: "bit (crcRound c) 0 \<longleftrightarrow> bit c 15"
proof -
  have "\<not> bit (push_bit k c) 0" if "0 < k" for k using that by (simp add: bit_push_bit_iff)
  from this [of 1] show ?thesis by (simp add: crcRound_cases bit_xor_iff)
qed

lemma push_bit_inj:
  assumes "push_bit k a = push_bit k (b :: 'a::len word)" "n + k < LENGTH('a)"
  shows "bit a n = bit b n"
proof -
  have "bit (push_bit k a) (n + k) = bit a n" "bit (push_bit k b) (n + k) = bit b n"
    using assms(2) by (simp_all add: bit_push_bit_iff)
  with assms(1) show ?thesis by simp
qed

lemma crcRound_inj:
  assumes eq: "crcRound a = crcRound b"
  shows "a = b"
proof (rule bit_word_eqI)
  have m: "bit a 15 \<longleftrightarrow> bit b 15" using eq bit_crcRound_0 by metis
  then have p: "push_bit 1 a = push_bit 1 b"
    using eq word_xor_cancel [of "push_bit 1 a" "0x1021" "push_bit 1 b"]
    by (cases "bit a 15") (simp_all add: crcRound_cases)
  show "bit a n = bit b n" if "n < LENGTH(16)" for n
  proof (cases "n = 15")
    case False
    with that show ?thesis by (intro push_bit_inj [OF p]) simp
  qed (use m in simp)
qed

lemma crcShift_inj: "crcShift n a = crcShift n b \<Longrightarrow> a = b"
proof (induction n arbitrary: a b)
  case (Suc n)
  have "crcShift n (crcRound a) = crcShift n (crcRound b)"
    using Suc.prems by (simp only: crcShift.simps crcRound_def)
  then show ?case using Suc.IH crcRound_inj by blast
qed simp

definition crcByte :: "uint16 \<Rightarrow> byte \<Rightarrow> uint16" where
  "crcByte crc value = crcShift 8 (crc XOR push_bit 8 (ucast value))"

lemma crcByte_inj: "crcByte a v = crcByte b v \<Longrightarrow> a = b"
  unfolding crcByte_def using crcShift_inj word_xor_cancel by blast

lemma crcByte_value_inj:
  assumes "crcByte a v = crcByte a w"
  shows "v = w"
proof (rule bit_word_eqI)
  have "push_bit 8 (ucast v) XOR a = push_bit 8 (ucast w) XOR a"
    using assms crcShift_inj unfolding crcByte_def by (metis xor.commute)
  then have p: "push_bit 8 (ucast v :: uint16) = push_bit 8 (ucast w)" by (rule word_xor_cancel)
  show "bit v n = bit w n" if "n < LENGTH(8)" for n
    using push_bit_inj [OF p, of n] that by (simp add: bit_simps)
qed

lemma inviteCRC16_foldl: "inviteCRC16 content = foldl crcByte 0xffff content"
  by (simp add: inviteCRC16_def crcByte_def [abs_def])

lemma crc_foldl_inj: "foldl crcByte a ys = foldl crcByte b ys \<Longrightarrow> a = b"
  by (induction ys arbitrary: a b) (auto dest: crcByte_inj)

lemma inviteCRC16_single:
  assumes "inviteCRC16 (xs @ [v] @ ys) = inviteCRC16 (xs @ [w] @ ys)"
  shows "v = w"
proof -
  have "foldl crcByte (crcByte (foldl crcByte 0xffff xs) v) ys = foldl crcByte (crcByte (foldl crcByte 0xffff xs) w) ys"
    using assms by (simp add: inviteCRC16_foldl)
  then have "crcByte (foldl crcByte 0xffff xs) v = crcByte (foldl crcByte 0xffff xs) w" by (rule crc_foldl_inj)
  then show ?thesis by (rule crcByte_value_inj)
qed

section \<open>Properties\<close>

text \<open>C9: An invite survives its text form: parsing what \<open>Encode\<close> writes gives the invite back, for
  every invite \<open>New\<close> can make, and it fits the accepted length.\<close>

theorem invite_round_trip:
  assumes "New seed name = Inr i"
  shows "Parse (Encode i) = Inr i \<and> length (Encode i) \<le> MaxEncodedSize"
proof -
  have p: "Parse (Encode i) = Inr i" using Parse_Encode [OF New_valid [OF assms]] .
  have "Parse s = fail ''invite is too large''" if "length s > MaxEncodedSize" for s
    using that by (simp add: Parse_def)
  from this [of "Encode i"] p show ?thesis by (cases "length (Encode i) > MaxEncodedSize") simp_all
qed

theorem invite_round_trip_witness:
  "\<exists>i. New (Inr 7) [32, 65, 66, 32] = Inr i \<and> DisplayName i = [65, 66] \<and> Parse (Encode i) = Inr i"
proof -
  have l: "trimLeft [32, 65, 66, 32] = [65, 66, 32]"
    by (subst trimLeft.simps, simp add: IsSpace_def, subst trimLeft.simps, simp add: IsSpace_def)
  have "decodeLastRune [65, 66, 32] = Some (32, 1)" "decodeLastRune [65, 66] = Some (66, 1)"
    by (simp_all add: decodeLastRune_def)
  then have "trimRight [65, 66, 32] = [65, 66]"
    by (subst trimRight.simps, simp add: IsSpace_def, subst trimRight.simps, simp add: IsSpace_def)
  with l have "TrimSpace [32, 65, 66, 32] = [65, 66]" by (simp add: TrimSpace_def)
  then have n: "New (Inr 7) [32, 65, 66, 32] = Inr \<lparr>DisplayName = [65, 66], roomSeed = 7\<rparr>"
    by (simp add: New_def validateDisplayName_def RuneCountInString_def)
  with invite_round_trip [OF n] show ?thesis by auto
qed

text \<open>The text form is canonical: up to surrounding white space and the optional prefix, a text that
  parses is exactly what \<open>Encode\<close> writes for the invite it parses to.\<close>

theorem invite_canonical:
  assumes "Parse s = Inr i"
  shows "Encode i = invitePrefix @ TrimPrefix (TrimSpace s) invitePrefix \<and>
    validateDisplayName (DisplayName i) = Inr (DisplayName i)"
  using Parse_canonical [OF assms] by blast

theorem invite_canonical_witness:
  "\<exists>s i. Parse s = Inr i \<and> DisplayName i = [65] \<and> Encode i = invitePrefix @ TrimPrefix (TrimSpace s) invitePrefix"
proof -
  let ?i = "\<lparr>DisplayName = [65], roomSeed = 7\<rparr>"
  have "leftTrimmed [65]" "rightTrimmed ([] @ [65])"
    using leftTrimmed_ascii [of 65 "[]"] rightTrimmed_ascii [of 65 "[]"] by (simp_all add: IsSpace_def)
  then have "TrimSpace [65] = [65]" by (intro TrimSpace_id) simp_all
  then have "validateDisplayName (DisplayName ?i) = Inr (DisplayName ?i)"
    by (simp add: validateDisplayName_def RuneCountInString_def)
  then have p: "Parse (Encode ?i) = Inr ?i" by (rule Parse_Encode)
  with invite_canonical [OF p] show ?thesis by (intro exI [of _ "Encode ?i"] exI [of _ ?i]) simp
qed

text \<open>The checksum of an invite detects every change of a single byte: two contents that differ in
  exactly one byte have different checksums.\<close>

theorem invite_checksum_detects:
  assumes "v \<noteq> w"
  shows "inviteCRC16 (xs @ [v] @ ys) \<noteq> inviteCRC16 (xs @ [w] @ ys)"
  using inviteCRC16_single assms by blast

theorem invite_checksum_detects_witness:
  "inviteCRC16 ([1, 2] @ [3] @ [4]) \<noteq> inviteCRC16 ([1, 2] @ [5] @ [4])"
  by (rule invite_checksum_detects) simp

end
