(* ===== verification/MemberState.thy ===== *)
theory MemberState
  imports GoStrings
begin

text \<open>
  The state a member announces to the others: \<open>internal/peer/member_state.go\<close>, its nickname rules
  and its encoding.  The revision is local and not encoded.
\<close>

definition maxNicknameRunes :: nat where [simp]: "maxNicknameRunes = 32"
definition maxNicknameBytes :: nat where [simp]: "maxNicknameBytes = 128"

record memberState =
  msRevision :: uint64
  nickname :: bytes
  muted :: bool
  playbackMuted :: bool

definition emptyMemberState :: memberState where
  "emptyMemberState = \<lparr>msRevision = 0, nickname = [], muted = False, playbackMuted = False\<rparr>"

definition NormalizeNickname :: "bytes \<Rightarrow> bytes result" where
  "NormalizeNickname name =
     (let name = TrimSpace name
      in if \<not> ValidString name then fail ''nickname is not valid UTF-8''
         else if RuneCountInString name > maxNicknameRunes \<or> length name > maxNicknameBytes
         then fail ''nickname is too long''
         else if list_ex IsControl (runes name) then fail ''nickname contains a control character''
         else Inr name)"

definition encodeMemberState :: "memberState \<Rightarrow> bytes result" where
  "encodeMemberState state =
     (case NormalizeNickname (nickname state) of
        Inl err \<Rightarrow> Inl err
      | Inr name \<Rightarrow>
          let flags = (if muted state then 0 OR 1 else (0 :: byte));
              flags = (if playbackMuted state then flags OR 2 else flags)
          in Inr (flags # name))"

definition decodeMemberState :: "bytes \<Rightarrow> memberState result" where
  "decodeMemberState payload =
     (if length payload < 1 then fail ''member state header is invalid''
      else if payload ! 0 AND NOT 3 \<noteq> 0 then fail ''member state fields are invalid''
      else
        let rawNickname = drop 1 payload
        in case NormalizeNickname rawNickname of
             Inl err \<Rightarrow> fail ''member state nickname is invalid''
           | Inr name \<Rightarrow>
               if name \<noteq> rawNickname then fail ''member state nickname is invalid''
               else Inr \<lparr>msRevision = 0, nickname = name, muted = (payload ! 0 AND 1 \<noteq> 0),
                      playbackMuted = (payload ! 0 AND 2 \<noteq> 0)\<rparr>)"

section \<open>Nicknames\<close>

lemma NormalizeNickname_idem: "NormalizeNickname name = Inr name' \<Longrightarrow> NormalizeNickname name' = Inr name'"
  by (auto simp: NormalizeNickname_def Let_def split: if_splits)

lemma NormalizeNickname_OK:
  "NormalizeNickname name = Inr name' \<Longrightarrow>
     name' = TrimSpace name \<and> ValidString name' \<and> length name' \<le> 128 \<and> length (runes name') \<le> 32 \<and>
     \<not> list_ex IsControl (runes name')"
  by (auto simp: NormalizeNickname_def RuneCountInString_def Let_def split: if_splits)

section \<open>The codec\<close>

definition normalMemberState :: "memberState \<Rightarrow> bool" where
  "normalMemberState state \<longleftrightarrow> msRevision state = 0 \<and> NormalizeNickname (nickname state) = Inr (nickname state)"

lemma byte_flags:
  fixes b :: byte
  assumes "b AND NOT 3 = 0"
  shows "b \<in> {0, 1, 2, 3}"
proof -
  have "b = (b AND 3) OR (b AND NOT 3)"
    by (simp only: bit.conj_disj_distrib [symmetric] bit.disj_cancel_right bit.conj_one_right)
  also have "\<dots> = b AND 3" using assms by simp
  also have "\<dots> = take_bit 2 b" by (simp add: take_bit_eq_mask mask_eq_exp_minus_1)
  finally have "unat b = take_bit 2 (unat b)" by (metis unsigned_take_bit_eq)
  then have "unat b < 4" using take_bit_nat_less_exp [of 2 "unat b"] by simp
  then have "unat b \<in> {0, 1, 2, 3}" by auto
  then show ?thesis by (auto simp: word_unat_eq_iff)
qed

lemma decode_encodeMemberState:
  assumes "normalMemberState state"
  shows "\<exists>b. encodeMemberState state = Inr b \<and> decodeMemberState b = Inr state"
  using assms
  by (cases state) (auto simp: normalMemberState_def encodeMemberState_def decodeMemberState_def Let_def)

lemma encode_decodeMemberState:
  assumes "decodeMemberState b = Inr state"
  shows "normalMemberState state \<and> encodeMemberState state = Inr b"
proof -
  obtain f name where b: "b = f # name" using assms by (cases b) (auto simp: decodeMemberState_def)
  have f: "f \<in> {0, 1, 2, 3}"
    using assms b by (intro byte_flags) (auto simp: decodeMemberState_def split: if_splits)
  have n: "NormalizeNickname name = Inr name" and
    s: "state = \<lparr>msRevision = 0, nickname = name, muted = (f AND 1 \<noteq> 0), playbackMuted = (f AND 2 \<noteq> 0)\<rparr>"
    using assms b by (auto simp: decodeMemberState_def Let_def split: if_splits sum.splits)
  show ?thesis using f n b unfolding s by (auto simp: normalMemberState_def encodeMemberState_def Let_def)
qed

interpretation member: canonical_codec normalMemberState encodeMemberState decodeMemberState
proof unfold_locales
  show "\<exists>b. encodeMemberState s = Inr b" if "normalMemberState s" for s
    using decode_encodeMemberState [OF that] by blast
  show "decodeMemberState b = Inr s" if "normalMemberState s" "encodeMemberState s = Inr b" for s b
    using decode_encodeMemberState [OF that(1)] that(2) by auto
qed (use encode_decodeMemberState in blast)+

text \<open>Member states survive the wire and the wire form is canonical: encoding normalizes the
  nickname, the receiver gets exactly the announced flags and the normalized name, and every payload
  that is accepted is the only encoding of the state it gives.\<close>

theorem member_state_codec:
  "(case encodeMemberState state of
      Inl err \<Rightarrow> NormalizeNickname (nickname state) = Inl err
    | Inr payload \<Rightarrow> length payload \<le> 129 \<and>
        decodeMemberState payload = Inr (state\<lparr>msRevision := 0, nickname := TrimSpace (nickname state)\<rparr>)) \<and>
   (case decodeMemberState b of
      Inl err \<Rightarrow> \<not> (\<exists>s. normalMemberState s \<and> encodeMemberState s = Inr b)
    | Inr s \<Rightarrow> encodeMemberState s = Inr b)"
proof (rule conjI)
  show "case encodeMemberState state of
      Inl err \<Rightarrow> NormalizeNickname (nickname state) = Inl err
    | Inr payload \<Rightarrow> length payload \<le> 129 \<and>
        decodeMemberState payload = Inr (state\<lparr>msRevision := 0, nickname := TrimSpace (nickname state)\<rparr>)"
  proof (cases "NormalizeNickname (nickname state)")
    case (Inl err)
    then show ?thesis by (simp add: encodeMemberState_def)
  next
    case (Inr name)
    let ?s = "state\<lparr>msRevision := 0, nickname := name\<rparr>"
    have n: "normalMemberState ?s" using NormalizeNickname_idem [OF Inr] by (simp add: normalMemberState_def)
    have e: "encodeMemberState ?s = encodeMemberState state"
      using Inr NormalizeNickname_idem [OF Inr] by (simp add: encodeMemberState_def)
    obtain p where p: "encodeMemberState state = Inr p" "decodeMemberState p = Inr ?s"
      using member.round_trip [OF n] e by auto
    have "length p \<le> 129" using p(1) Inr NormalizeNickname_OK [OF Inr] by (auto simp: encodeMemberState_def Let_def)
    with p NormalizeNickname_OK [OF Inr] show ?thesis by simp
  qed
  show "case decodeMemberState b of
      Inl err \<Rightarrow> \<not> (\<exists>s. normalMemberState s \<and> encodeMemberState s = Inr b)
    | Inr s \<Rightarrow> encodeMemberState s = Inr b"
    using member.dec_accepts [of b] member.enc_dec [of b] by (cases "decodeMemberState b") auto
qed

end
