(* ===== verification/NetAddr.thy ===== *)
theory NetAddr
  imports Prelude
begin

text \<open>
  The addresses of Go's \<open>net/netip\<close> as far as the program uses them.  \<open>AddrZero\<close> is the zero
  \<open>Addr\<close>; an IPv6 address carries its zone, empty when it has none.  Address words are read
  big-endian, so a prefix test looks at the highest bits.
\<close>

datatype Addr =
    AddrZero
  | Addr4 uint32
  | Addr6 id16 string

datatype AddrPort = AddrPortFrom (apAddr: Addr) (apPort: uint16)

fun Is4 :: "Addr \<Rightarrow> bool" where
  "Is4 (Addr4 w) = True"
| "Is4 _ = False"

fun Is6 :: "Addr \<Rightarrow> bool" where
  "Is6 (Addr6 w z) = True"
| "Is6 _ = False"

definition addrIsValid :: "Addr \<Rightarrow> bool" where
  "addrIsValid ip \<longleftrightarrow> ip \<noteq> AddrZero"

definition apIsValid :: "AddrPort \<Rightarrow> bool" where
  "apIsValid address \<longleftrightarrow> addrIsValid (apAddr address)"

fun Is4In6 :: "Addr \<Rightarrow> bool" where
  "Is4In6 (Addr6 w z) = (drop_bit 32 w = 0xffff)"
| "Is4In6 _ = False"

fun Unmap :: "Addr \<Rightarrow> Addr" where
  "Unmap (Addr6 w z) = (if drop_bit 32 w = 0xffff then Addr4 (ucast w) else Addr6 w z)"
| "Unmap ip = ip"

definition IsUnspecified :: "Addr \<Rightarrow> bool" where
  "IsUnspecified ip \<longleftrightarrow> ip = Addr4 0 \<or> ip = Addr6 0 []"

definition IsMulticast :: "Addr \<Rightarrow> bool" where
  "IsMulticast ip = (case Unmap ip of
     AddrZero \<Rightarrow> False
   | Addr4 w \<Rightarrow> drop_bit 28 w = 0xe
   | Addr6 w z \<Rightarrow> drop_bit 120 w = 0xff)"

definition IsLinkLocalUnicast :: "Addr \<Rightarrow> bool" where
  "IsLinkLocalUnicast ip = (case Unmap ip of
     AddrZero \<Rightarrow> False
   | Addr4 w \<Rightarrow> drop_bit 16 w = 0xa9fe
   | Addr6 w z \<Rightarrow> drop_bit 118 w = 0x3fa)"

definition IsLoopback :: "Addr \<Rightarrow> bool" where
  "IsLoopback ip = (case Unmap ip of
     AddrZero \<Rightarrow> False
   | Addr4 w \<Rightarrow> drop_bit 24 w = 127
   | Addr6 w z \<Rightarrow> w = 1)"

definition IsPrivate :: "Addr \<Rightarrow> bool" where
  "IsPrivate ip = (case Unmap ip of
     AddrZero \<Rightarrow> False
   | Addr4 w \<Rightarrow> drop_bit 24 w = 10 \<or> drop_bit 20 w = 0xac1 \<or> drop_bit 16 w = 0xc0a8
   | Addr6 w z \<Rightarrow> drop_bit 121 w = 0x7e)"

fun Zone :: "Addr \<Rightarrow> string" where
  "Zone (Addr6 w z) = z"
| "Zone _ = []"

fun AsSlice :: "Addr \<Rightarrow> bytes" where
  "AsSlice AddrZero = []"
| "AsSlice (Addr4 w) = put_be 4 w"
| "AsSlice (Addr6 w z) = put_be 16 w"

section \<open>Text\<close>

text \<open>\<open>Addr.String\<close> and \<open>AddrPort.String\<close>: dotted decimal, or the groups of an IPv6 address in
  hexadecimal without leading zeros, the first longest run of at least two zero groups written
  as two colons.\<close>

definition digit :: "nat \<Rightarrow> char" where
  "digit n = (''0123456789abcdef'' ! n)"

fun digits :: "nat \<Rightarrow> nat \<Rightarrow> string" where
  "digits base n = (if base \<le> 1 \<or> n < base then [digit n] else digits base (n div base) @ [digit (n mod base)])"

declare digits.simps [simp del]

definition hexBytes :: "bytes \<Rightarrow> string" where
  "hexBytes bs = concat (map (\<lambda>b. [digit (unat b div 16), digit (unat b mod 16)]) bs)"

definition string4 :: "uint32 \<Rightarrow> string" where
  "string4 w = concat (map (\<lambda>(sep, b). sep @ digits 10 (unat b)) (zip ['''', ''.'', ''.'', ''.''] (put_be 4 w)))"

definition groups6 :: "id16 \<Rightarrow> nat list" where
  "groups6 w = map (\<lambda>i. unat (ucast (drop_bit (16 * (7 - i)) w) :: uint16)) [0..<8]"

definition zeroRun :: "nat list \<Rightarrow> nat \<Rightarrow> nat" where
  "zeroRun gs i = length (takeWhile (\<lambda>g. g = 0) (drop i gs))"

definition longestRun :: "nat list \<Rightarrow> nat \<times> nat" where
  "longestRun gs = foldl (\<lambda>(start, len) i. if zeroRun gs i > len then (i, zeroRun gs i) else (start, len))
     (0, 1) [0..<length gs]"

fun colonGroups :: "nat list \<Rightarrow> string" where
  "colonGroups [] = []"
| "colonGroups [g] = digits 16 g"
| "colonGroups (g # h # gs) = digits 16 g @ '':'' @ colonGroups (h # gs)"

definition string6 :: "id16 \<Rightarrow> string" where
  "string6 w =
     (let gs = groups6 w; (start, len) = longestRun gs
      in if len < 2 then colonGroups gs
         else colonGroups (take start gs) @ ''::'' @ colonGroups (drop (start + len) gs))"

fun addrString :: "Addr \<Rightarrow> string" where
  "addrString AddrZero = ''invalid IP''"
| "addrString (Addr4 w) = string4 w"
| "addrString (Addr6 w z) =
     (if drop_bit 32 w = 0xffff then ''::ffff:'' @ string4 (ucast w) else string6 w) @
     (if z = [] then [] else ''%'' @ z)"

definition apString :: "AddrPort \<Rightarrow> string" where
  "apString address =
     (case apAddr address of
        AddrZero \<Rightarrow> ''invalid AddrPort''
      | Addr4 w \<Rightarrow> string4 w @ '':'' @ digits 10 (unat (apPort address))
      | Addr6 w z \<Rightarrow> ''['' @ addrString (Addr6 w z) @ '']:'' @ digits 10 (unat (apPort address)))"

section \<open>Unmapping\<close>

lemma Unmap_not_mapped [simp]: "\<not> Is4In6 (Unmap ip)"
  by (cases ip) auto

lemma Unmap_idem [simp]: "Unmap (Unmap ip) = Unmap ip"
  by (cases ip) auto

lemma Unmap_zero_iff [simp]: "Unmap ip = AddrZero \<longleftrightarrow> ip = AddrZero"
  by (cases ip) auto

lemma Unmap_id: "\<not> Is4In6 ip \<Longrightarrow> Unmap ip = ip"
  by (cases ip) auto

lemma Unmap_tests [simp]:
  "IsMulticast (Unmap ip) = IsMulticast ip"
  "IsLinkLocalUnicast (Unmap ip) = IsLinkLocalUnicast ip"
  "IsLoopback (Unmap ip) = IsLoopback ip"
  "IsPrivate (Unmap ip) = IsPrivate ip"
  by (simp_all add: IsMulticast_def IsLinkLocalUnicast_def IsLoopback_def IsPrivate_def)

end
