(* ===== verification/TopologyMessage.thy ===== *)
theory TopologyMessage
  imports Wire NetAddr
begin

text \<open>
  The codec of topology snapshots, \<open>internal/peer/topology_message.go\<close>: the sender's own candidate
  addresses and, per direct neighbour, the addresses it is reached at.  The decoder of the source walks an
  offset through the payload; here it walks the remaining bytes.
\<close>

record topologyEntry =
  tePeerID :: PeerID
  teAddresses :: "AddrPort list"

record topologyMessage =
  candidates :: "AddrPort list"
  neighbors :: "topologyEntry list"

definition appendTopologyAddress :: "bytes \<Rightarrow> AddrPort \<Rightarrow> bytes result" where
  "appendTopologyAddress payload address =
     (let address = AddrPortFrom (Unmap (apAddr address)) (apPort address)
      in if \<not> apIsValid address \<or> apPort address = 0 then fail ''topology address is invalid''
         else
           let ip = apAddr address;
               family = (if Is4 ip then Some 4 else if Is6 ip then Some 6 else None)
           in case family of
                None \<Rightarrow> fail ''topology address family is invalid''
              | Some f \<Rightarrow> Inr (((payload @ [f]) @ put_be 2 (apPort address)) @ AsSlice ip))"

fun appendAddresses :: "bytes \<Rightarrow> AddrPort list \<Rightarrow> bytes result" where
  "appendAddresses payload [] = Inr payload"
| "appendAddresses payload (address # rest) =
     (case appendTopologyAddress payload address of
        Inl err \<Rightarrow> Inl err
      | Inr payload \<Rightarrow> appendAddresses payload rest)"

fun appendNeighbors :: "bytes \<Rightarrow> topologyEntry list \<Rightarrow> bytes result" where
  "appendNeighbors payload [] = Inr payload"
| "appendNeighbors payload (neighbor # rest) =
     (if IsZero (tePeerID neighbor) \<or> length (teAddresses neighbor) > unat (NOT 0 :: uint16)
      then fail ''topology neighbor is invalid''
      else
        let payload = payload @ put_be 16 (tePeerID neighbor);
            payload = payload @ put_be 2 (of_nat (length (teAddresses neighbor)) :: uint16)
        in case appendAddresses payload (teAddresses neighbor) of
             Inl err \<Rightarrow> Inl err
           | Inr payload \<Rightarrow> appendNeighbors payload rest)"

definition encodeTopologyMessage :: "topologyMessage \<Rightarrow> bytes result" where
  "encodeTopologyMessage message =
     (if length (candidates message) > unat (NOT 0 :: uint16) then fail ''topology message fields are invalid''
      else case appendAddresses (put_be 2 (of_nat (length (candidates message)) :: uint16)) (candidates message) of
        Inl err \<Rightarrow> Inl err
      | Inr payload \<Rightarrow> appendNeighbors payload (neighbors message))"

definition parseTopologyAddress :: "bytes \<Rightarrow> (AddrPort \<times> bytes) result" where
  "parseTopologyAddress rest =
     (if length rest < 3 then fail ''topology address is truncated''
      else
        let family = rest ! 0;
            port = get_be (seg 1 3 rest);
            rest = drop 3 rest
        in if family = 4 then
             (if port = 0 \<or> length rest < 4 then fail ''topology address is invalid''
              else Inr (AddrPortFrom (Unmap (Addr4 (get_be (take 4 rest)))) port, drop 4 rest))
           else if family = 6 then
             (if port = 0 \<or> length rest < 16 then fail ''topology address is invalid''
              else Inr (AddrPortFrom (Unmap (Addr6 (get_be (take 16 rest)) [])) port, drop 16 rest))
           else fail ''topology address family is invalid'')"

fun parseAddresses :: "nat \<Rightarrow> bytes \<Rightarrow> (AddrPort list \<times> bytes) result" where
  "parseAddresses 0 rest = Inr ([], rest)"
| "parseAddresses (Suc count) rest =
     (case parseTopologyAddress rest of
        Inl err \<Rightarrow> Inl err
      | Inr (address, rest) \<Rightarrow>
          (case parseAddresses count rest of
             Inl err \<Rightarrow> Inl err
           | Inr (addresses, rest) \<Rightarrow> Inr (address # addresses, rest)))"

definition parseNeighbor :: "bytes \<Rightarrow> (topologyEntry \<times> bytes) result" where
  "parseNeighbor rest =
     (if length rest < 16 + 2 then fail ''topology neighbor is truncated''
      else
        let peerID = get_be (take 16 rest);
            rest = drop 16 rest
        in if IsZero peerID then fail ''topology neighbor peer ID is zero''
           else case parseAddresses (unat (get_be (take 2 rest) :: uint16)) (drop 2 rest) of
             Inl err \<Rightarrow> Inl err
           | Inr (addresses, rest) \<Rightarrow> Inr (\<lparr>tePeerID = peerID, teAddresses = addresses\<rparr>, rest))"

lemma parseTopologyAddress_shorter: "parseTopologyAddress rest = Inr (a, rest') \<Longrightarrow> length rest' < length rest"
  by (auto simp: parseTopologyAddress_def Let_def split: if_splits)

lemma parseAddresses_shorter: "parseAddresses n rest = Inr (as, rest') \<Longrightarrow> length rest' \<le> length rest"
  by (induction n arbitrary: rest as rest')
    (auto split: sum.splits prod.splits dest!: parseTopologyAddress_shorter, fastforce)

lemma parseNeighbor_shorter: "parseNeighbor rest = Inr (e, rest') \<Longrightarrow> length rest' < length rest"
  by (auto simp: parseNeighbor_def Let_def split: if_splits sum.splits prod.splits
      dest!: parseAddresses_shorter)

function parseNeighbors :: "bytes \<Rightarrow> topologyEntry list result" where
  "parseNeighbors rest =
     (if rest = [] then Inr []
      else case parseNeighbor rest of
        Inl err \<Rightarrow> Inl err
      | Inr (entry, rest) \<Rightarrow>
          (case parseNeighbors rest of Inl err \<Rightarrow> Inl err | Inr entries \<Rightarrow> Inr (entry # entries)))"
  by pat_completeness auto
termination by (relation "measure length") (auto dest: parseNeighbor_shorter)

declare parseNeighbors.simps [simp del]

definition decodeTopologyMessage :: "bytes \<Rightarrow> topologyMessage result" where
  "decodeTopologyMessage payload =
     (if length payload < 2 then fail ''topology message header is invalid''
      else
        let candidateCount = unat (get_be (seg 0 2 payload) :: uint16)
        in case parseAddresses candidateCount (drop 2 payload) of
             Inl err \<Rightarrow> Inl err
           | Inr (addresses, rest) \<Rightarrow>
               (case parseNeighbors rest of
                  Inl err \<Rightarrow> Inl err
                | Inr entries \<Rightarrow> Inr \<lparr>candidates = addresses, neighbors = entries\<rparr>))"

section \<open>What the wire keeps of an address\<close>

text \<open>An IPv4-mapped address is sent as the IPv4 address and a zone is not sent.\<close>

fun wireAddr :: "Addr \<Rightarrow> Addr" where
  "wireAddr (Addr6 w z) = Unmap (Addr6 w [])"
| "wireAddr ip = ip"

definition wireAddress :: "AddrPort \<Rightarrow> AddrPort" where
  "wireAddress address = AddrPortFrom (wireAddr (apAddr address)) (apPort address)"

definition wireEntry :: "topologyEntry \<Rightarrow> topologyEntry" where
  "wireEntry entry = entry\<lparr>teAddresses := map wireAddress (teAddresses entry)\<rparr>"

definition wireMessage :: "topologyMessage \<Rightarrow> topologyMessage" where
  "wireMessage message =
     \<lparr>candidates = map wireAddress (candidates message), neighbors = map wireEntry (neighbors message)\<rparr>"

definition goodAddress :: "AddrPort \<Rightarrow> bool" where
  "goodAddress address \<longleftrightarrow> apIsValid address \<and> apPort address \<noteq> 0"

definition goodEntry :: "topologyEntry \<Rightarrow> bool" where
  "goodEntry entry \<longleftrightarrow> tePeerID entry \<noteq> 0 \<and> length (teAddresses entry) \<le> 65535 \<and> list_all goodAddress (teAddresses entry)"

definition goodMessage :: "topologyMessage \<Rightarrow> bool" where
  "goodMessage message \<longleftrightarrow> length (candidates message) \<le> 65535 \<and> list_all goodAddress (candidates message) \<and>
     list_all goodEntry (neighbors message)"

lemma unat_max16 [simp]: "unat (- 1 :: uint16) = 65535"
  by (simp add: unsigned_minus_1_eq_mask mask_eq_exp_minus_1)

definition addressBytes :: "AddrPort \<Rightarrow> bytes" where
  "addressBytes address =
     (let ip = wireAddr (apAddr address) in (if Is4 ip then 4 else 6) # put_be 2 (apPort address) @ AsSlice ip)"

lemma appendTopologyAddress_eq:
  "appendTopologyAddress payload address =
     (if goodAddress address then Inr (payload @ addressBytes address) else fail ''topology address is invalid'')"
proof (cases "apAddr address")
  case AddrZero
  then show ?thesis by (simp add: appendTopologyAddress_def goodAddress_def apIsValid_def addrIsValid_def)
next
  case (Addr4 w)
  then show ?thesis
    by (simp add: appendTopologyAddress_def goodAddress_def apIsValid_def addrIsValid_def addressBytes_def Let_def)
next
  case (Addr6 w z)
  then show ?thesis
    by (auto simp: appendTopologyAddress_def goodAddress_def apIsValid_def addrIsValid_def addressBytes_def Let_def)
qed

lemma parseTopologyAddress_addressBytes:
  assumes "goodAddress address"
  shows "parseTopologyAddress (addressBytes address @ rest) = Inr (wireAddress address, rest)"
proof (cases "wireAddr (apAddr address)")
  case AddrZero
  then have "apAddr address = AddrZero" by (cases "apAddr address") (auto split: if_splits)
  with assms show ?thesis by (simp add: goodAddress_def apIsValid_def addrIsValid_def)
next
  case (Addr4 w)
  then show ?thesis using assms
    by (simp add: parseTopologyAddress_def addressBytes_def goodAddress_def wireAddress_def Let_def)
next
  case (Addr6 w z)
  then have "z = []" "Unmap (Addr6 w []) = Addr6 w []"
    by (cases "apAddr address"; force split: if_splits)+
  with Addr6 show ?thesis using assms
    by (simp add: parseTopologyAddress_def addressBytes_def goodAddress_def wireAddress_def Let_def)
qed

lemma appendAddresses_eq:
  "appendAddresses payload as =
     (if list_all goodAddress as then Inr (payload @ concat (map addressBytes as))
      else fail ''topology address is invalid'')"
  by (induction as arbitrary: payload) (auto simp: appendTopologyAddress_eq)

lemma parseAddresses_addressBytes:
  "list_all goodAddress as \<Longrightarrow>
     parseAddresses (length as) (concat (map addressBytes as) @ rest) = Inr (map wireAddress as, rest)"
  by (induction as) (auto simp: parseTopologyAddress_addressBytes)

definition entryBytes :: "topologyEntry \<Rightarrow> bytes" where
  "entryBytes entry = put_be 16 (tePeerID entry) @ put_be 2 (of_nat (length (teAddresses entry)) :: uint16) @
     concat (map addressBytes (teAddresses entry))"

lemma appendNeighbors_eq:
  "list_all goodEntry es \<Longrightarrow> appendNeighbors payload es = Inr (payload @ concat (map entryBytes es))"
  "appendNeighbors payload es = Inr b \<Longrightarrow> list_all goodEntry es"
  by (induction es arbitrary: payload)
    (auto simp: goodEntry_def entryBytes_def appendAddresses_eq Let_def split: if_splits)

lemma parseNeighbor_entryBytes:
  assumes "goodEntry entry"
  shows "parseNeighbor (entryBytes entry @ rest) = Inr (wireEntry entry, rest)"
  using assms parseAddresses_addressBytes [of "teAddresses entry" rest]
  by (simp add: parseNeighbor_def entryBytes_def goodEntry_def wireEntry_def Let_def unat_of_nat)

lemma parseNeighbors_entryBytes:
  "list_all goodEntry es \<Longrightarrow> parseNeighbors (concat (map entryBytes es)) = Inr (map wireEntry es)"
proof (induction es)
  case (Cons e es)
  have "entryBytes e \<noteq> []" by (simp add: entryBytes_def flip: length_greater_0_conv)
  with Cons show ?case by (simp add: parseNeighbors.simps [of "entryBytes e @ _"] parseNeighbor_entryBytes)
qed (simp add: parseNeighbors.simps)

lemma encodeTopologyMessage_OK:
  "goodMessage m \<longleftrightarrow> (\<exists>b. encodeTopologyMessage m = Inr b)"
  using appendNeighbors_eq(1) appendNeighbors_eq(2)
  by (auto simp: encodeTopologyMessage_def goodMessage_def appendAddresses_eq split: if_splits)

lemma decode_encodeTopologyMessage:
  assumes "encodeTopologyMessage m = Inr b"
  shows "decodeTopologyMessage b = Inr (wireMessage m)"
proof -
  have good: "goodMessage m" using assms encodeTopologyMessage_OK by blast
  then have "b = put_be 2 (of_nat (length (candidates m)) :: uint16) @ concat (map addressBytes (candidates m)) @
      concat (map entryBytes (neighbors m))"
    using assms by (auto simp: encodeTopologyMessage_def goodMessage_def appendAddresses_eq appendNeighbors_eq(1)
        split: if_splits)
  with good show ?thesis
    using parseAddresses_addressBytes [of "candidates m" "concat (map entryBytes (neighbors m))"]
    by (simp add: decodeTopologyMessage_def goodMessage_def parseNeighbors_entryBytes wireMessage_def unat_of_nat Let_def)
qed

section \<open>What the decoder accepts\<close>

definition plainAddress :: "AddrPort \<Rightarrow> bool" where
  "plainAddress address \<longleftrightarrow> goodAddress address \<and> wireAddress address = address"

lemma parseTopologyAddress_plain: "parseTopologyAddress rest = Inr (a, rest') \<Longrightarrow> plainAddress a"
  by (auto simp: parseTopologyAddress_def plainAddress_def goodAddress_def wireAddress_def apIsValid_def
      addrIsValid_def Let_def split: if_splits)

lemma parseAddresses_plain:
  "parseAddresses n rest = Inr (as, rest') \<Longrightarrow> length as = n \<and> list_all plainAddress as"
proof (induction n arbitrary: rest as rest')
  case (Suc n)
  then obtain a r as' where "parseTopologyAddress rest = Inr (a, r)" "parseAddresses n r = Inr (as', rest')"
    "as = a # as'" by (auto split: sum.splits prod.splits)
  with Suc.IH [of r as' rest'] parseTopologyAddress_plain [of rest a r] show ?case by simp
qed simp

lemma unat_uint16_le: "unat (w :: uint16) \<le> 65535"
  using unsigned_less [of w, where ?'a = nat] by simp

definition plainEntry :: "topologyEntry \<Rightarrow> bool" where
  "plainEntry entry \<longleftrightarrow> goodEntry entry \<and> wireEntry entry = entry"

lemma plain_list: "list_all plainAddress as \<Longrightarrow> list_all goodAddress as \<and> map wireAddress as = as"
  by (induction as) (auto simp: plainAddress_def)

lemma parseNeighbor_plain: "parseNeighbor rest = Inr (e, rest') \<Longrightarrow> plainEntry e"
  by (auto simp: parseNeighbor_def plainEntry_def goodEntry_def wireEntry_def Let_def unat_uint16_le
      split: if_splits sum.splits prod.splits dest!: parseAddresses_plain plain_list)

lemma parseNeighbors_plain: "parseNeighbors rest = Inr es \<Longrightarrow> list_all plainEntry es"
proof (induction rest arbitrary: es rule: parseNeighbors.induct)
  case (1 rest)
  show ?case
  proof (cases "rest = []")
    case True
    with "1.prems" show ?thesis by (simp add: parseNeighbors.simps)
  next
    case False
    with "1.prems" obtain e rest' es' where p: "parseNeighbor rest = Inr (e, rest')" "parseNeighbors rest' = Inr es'"
      "es = e # es'" by (subst (asm) parseNeighbors.simps) (auto split: sum.splits prod.splits)
    from "1.IH" [OF False p(1) refl p(2)] parseNeighbor_plain [OF p(1)] show ?thesis by (simp add: p(3))
  qed
qed

lemma decodeTopologyMessage_plain:
  assumes "decodeTopologyMessage b = Inr m"
  shows "goodMessage m \<and> wireMessage m = m"
proof -
  obtain as rest es where p: "parseAddresses (unat (get_be (seg 0 2 b) :: uint16)) (drop 2 b) = Inr (as, rest)"
    "parseNeighbors rest = Inr es" "m = \<lparr>candidates = as, neighbors = es\<rparr>"
    using assms by (auto simp: decodeTopologyMessage_def Let_def split: if_splits sum.splits prod.splits)
  have "list_all goodEntry es \<and> map wireEntry es = es"
    using parseNeighbors_plain [OF p(2)] by (induction es) (auto simp: plainEntry_def)
  then show ?thesis using parseAddresses_plain [OF p(1)] plain_list [of as]
    by (auto simp: p(3) goodMessage_def wireMessage_def unat_uint16_le)
qed

interpretation topology: codec "\<lambda>m. goodMessage m \<and> wireMessage m = m" encodeTopologyMessage decodeTopologyMessage
  by unfold_locales (use encodeTopologyMessage_OK decode_encodeTopologyMessage in auto)

text \<open>A topology snapshot reaches the neighbour as sent, up to the normal form of its addresses:
  IPv4-mapped addresses become IPv4 and zones are dropped.  Whatever the decoder accepts carries only valid
  addresses in normal form with a port and nonzero peer identities, and can be sent on and read back unchanged.\<close>

theorem topology_message_codec:
  "(case encodeTopologyMessage m of Inl err \<Rightarrow> \<not> goodMessage m | Inr b \<Rightarrow> decodeTopologyMessage b = Inr (wireMessage m)) \<and>
   (case decodeTopologyMessage c of
      Inl err \<Rightarrow> True
    | Inr m' \<Rightarrow> goodMessage m' \<and> wireMessage m' = m' \<and>
        (\<exists>b. encodeTopologyMessage m' = Inr b \<and> decodeTopologyMessage b = Inr m'))"
proof (rule conjI)
  show "case encodeTopologyMessage m of Inl err \<Rightarrow> \<not> goodMessage m | Inr b \<Rightarrow> decodeTopologyMessage b = Inr (wireMessage m)"
    using decode_encodeTopologyMessage [of m] encodeTopologyMessage_OK [of m]
    by (cases "encodeTopologyMessage m") auto
  show "case decodeTopologyMessage c of
      Inl err \<Rightarrow> True
    | Inr m' \<Rightarrow> goodMessage m' \<and> wireMessage m' = m' \<and>
        (\<exists>b. encodeTopologyMessage m' = Inr b \<and> decodeTopologyMessage b = Inr m')"
    using decodeTopologyMessage_plain [of c] topology.round_trip
    by (cases "decodeTopologyMessage c") auto
qed

end
