(* ===== verification/ScreenCodec.thy ===== *)
theory ScreenCodec
  imports Wire
begin

text \<open>
  The encodings of screen sharing, \<open>internal/peer/screen_video.go\<close>: the announced screen state, and
  the fragments a video chunk is cut into.  Widths and heights are checked as Go \<open>int\<close>s.
\<close>

definition ScreenVideoCodecH264Baseline :: string where "ScreenVideoCodecH264Baseline = ''avc1.42E032''"
definition ScreenVideoCodecH264Main :: string where "ScreenVideoCodecH264Main = ''avc1.4D4032''"

definition MaxScreenVideoChunkBytes :: nat where [simp]: "MaxScreenVideoChunkBytes = 256 * 2 ^ 10"
definition MaxScreenVideoWidth :: int where [simp]: "MaxScreenVideoWidth = 2560"
definition MaxScreenVideoHeight :: int where [simp]: "MaxScreenVideoHeight = 1440"
definition screenStateSize :: nat where [simp]: "screenStateSize = 21"
definition screenVideoFragmentHeaderSize :: nat where [simp]: "screenVideoFragmentHeaderSize = 23"
definition maxScreenVideoFragmentBytes :: nat where
  [simp]: "maxScreenVideoFragmentBytes = MaxRoomDatagramPayload - screenVideoFragmentHeaderSize"
definition maxScreenVideoFragments :: nat where
  [simp]: "maxScreenVideoFragments =
     (MaxScreenVideoChunkBytes + maxScreenVideoFragmentBytes - 1) div maxScreenVideoFragmentBytes"
definition maxScreenVideoDurationMicros :: uint32 where [simp]: "maxScreenVideoDurationMicros = 1000000"
definition maxScreenVideoTimestamp :: uint64 where [simp]: "maxScreenVideoTimestamp = 9007199254740991"
definition screenVideoFlagKeyFrame :: byte where [simp]: "screenVideoFlagKeyFrame = 1"

record screenState =
  ssRevision :: uint64
  ssStreamID :: id16
  ssCodec :: string
  ssWidth :: uint16
  ssHeight :: uint16

definition emptyScreenState :: screenState where
  "emptyScreenState = \<lparr>ssRevision = 0, ssStreamID = 0, ssCodec = '''', ssWidth = 0, ssHeight = 0\<rparr>"

definition active :: "screenState \<Rightarrow> bool" where
  "active state \<longleftrightarrow> ssStreamID state \<noteq> 0"

record screenVideoMetadata =
  displayWidth :: uint16
  displayHeight :: uint16
  mdTimestamp :: uint64
  mdDuration :: uint32
  keyFrame :: bool

record decodedScreenVideoFragment =
  frMetadata :: screenVideoMetadata
  frIndex :: uint16
  frCount :: uint16
  frTotalSize :: uint32
  frBytes :: bytes

section \<open>Screen states\<close>

definition screenVideoCodecCode :: "string \<Rightarrow> byte \<times> bool" where
  "screenVideoCodecCode name =
     (if name = ScreenVideoCodecH264Baseline then (1, True)
      else if name = ScreenVideoCodecH264Main then (2, True)
      else (0, False))"

definition screenVideoCodecName :: "byte \<Rightarrow> string \<times> bool" where
  "screenVideoCodecName code =
     (if code = 1 then (ScreenVideoCodecH264Baseline, True)
      else if code = 2 then (ScreenVideoCodecH264Main, True)
      else ('''', False))"

definition validateScreenVideoSize :: "int \<Rightarrow> int \<Rightarrow> unit result" where
  "validateScreenVideoSize width height =
     (if width < 2 \<or> height < 2 \<or> width > MaxScreenVideoWidth \<or> height > MaxScreenVideoHeight
         \<or> width mod 2 \<noteq> 0 \<or> height mod 2 \<noteq> 0
      then fail ''screen video dimensions must be even and at most 2560x1440''
      else Inr ())"

definition validateScreenVideoConfig :: "string \<Rightarrow> int \<Rightarrow> int \<Rightarrow> unit result" where
  "validateScreenVideoConfig name width height =
     (if \<not> snd (screenVideoCodecCode name) then fail ''screen video codec is not supported''
      else validateScreenVideoSize width height)"

definition validateScreenState :: "screenState \<Rightarrow> unit result" where
  "validateScreenState state =
     (if \<not> active state then
        (if ssStreamID state \<noteq> 0 \<or> ssCodec state \<noteq> '''' \<or> ssWidth state \<noteq> 0 \<or> ssHeight state \<noteq> 0
         then fail ''inactive screen state fields are not zero'' else Inr ())
      else validateScreenVideoConfig (ssCodec state) (uint (ssWidth state)) (uint (ssHeight state)))"

definition encodeScreenState :: "screenState \<Rightarrow> bytes result" where
  "encodeScreenState state =
     (case validateScreenState state of
        Inl err \<Rightarrow> Inl err
      | Inr _ \<Rightarrow>
          Inr ((if active state
                then fst (screenVideoCodecCode (ssCodec state)) # put_be 2 (ssWidth state) @ put_be 2 (ssHeight state)
                else replicate 5 0) @ put_be 16 (ssStreamID state)))"

definition decodeScreenState :: "bytes \<Rightarrow> screenState result" where
  "decodeScreenState payload =
     (if length payload \<noteq> screenStateSize then fail ''screen state encoding is invalid''
      else
        let state = \<lparr>ssRevision = 0, ssStreamID = get_be (drop 5 payload), ssCodec = '''',
              ssWidth = get_be (seg 1 3 payload), ssHeight = get_be (seg 3 5 payload)\<rparr>
        in if active state \<and> \<not> snd (screenVideoCodecName (payload ! 0)) then fail ''screen state codec is invalid''
           else if \<not> active state \<and> payload ! 0 \<noteq> 0 then fail ''inactive screen state codec is not zero''
           else
             let state = (if active state then state\<lparr>ssCodec := fst (screenVideoCodecName (payload ! 0))\<rparr> else state)
             in case validateScreenState state of Inl err \<Rightarrow> Inl err | Inr _ \<Rightarrow> Inr state)"

section \<open>Video fragments\<close>

definition validateScreenVideoTiming :: "uint64 \<Rightarrow> uint32 \<Rightarrow> unit result" where
  "validateScreenVideoTiming stamp dur =
     (if stamp > maxScreenVideoTimestamp \<or> dur = 0 \<or> dur > maxScreenVideoDurationMicros
         \<or> stamp > maxScreenVideoTimestamp - ucast dur
      then fail ''screen video timestamp or duration is invalid''
      else Inr ())"

definition validateScreenVideoMetadata :: "screenVideoMetadata \<Rightarrow> unit result" where
  "validateScreenVideoMetadata m =
     (case validateScreenVideoSize (uint (displayWidth m)) (uint (displayHeight m)) of
        Inl err \<Rightarrow> Inl err
      | Inr _ \<Rightarrow> validateScreenVideoTiming (mdTimestamp m) (mdDuration m))"

definition fragmentPayload :: "screenVideoMetadata \<Rightarrow> bytes \<Rightarrow> nat \<Rightarrow> bytes" where
  "fragmentPayload m data i =
     (let start = i * maxScreenVideoFragmentBytes;
          fin = min (start + maxScreenVideoFragmentBytes) (length data)
      in (if keyFrame m then screenVideoFlagKeyFrame else 0) # put_be 2 (of_nat i :: uint16) @
         put_be 8 (mdTimestamp m) @ put_be 4 (mdDuration m) @ put_be 4 (of_nat (length data) :: uint32) @
         put_be 2 (displayWidth m) @ put_be 2 (displayHeight m) @ seg start fin data)"

definition encodeScreenVideoFragments :: "screenVideoMetadata \<Rightarrow> bytes \<Rightarrow> bytes list result" where
  "encodeScreenVideoFragments m data =
     (case validateScreenVideoMetadata m of
        Inl err \<Rightarrow> Inl err
      | Inr _ \<Rightarrow>
          if length data = 0 \<or> length data > MaxScreenVideoChunkBytes
          then fail ''screen video chunk must contain 1 to 262144 bytes''
          else
            let count = (length data + maxScreenVideoFragmentBytes - 1) div maxScreenVideoFragmentBytes
            in if count > maxScreenVideoFragments then fail ''screen video chunk needs too many fragments''
               else Inr (map (fragmentPayload m data) [0..<count]))"

text \<open>The checks on a fragment whose fields are read; the count follows from the total size.\<close>

definition checkFragment :: "decodedScreenVideoFragment \<Rightarrow> decodedScreenVideoFragment result" where
  "checkFragment fragment =
     (case validateScreenVideoMetadata (frMetadata fragment) of
        Inl err \<Rightarrow> Inl err
      | Inr _ \<Rightarrow>
          if frTotalSize fragment = 0 \<or> unat (frTotalSize fragment) > MaxScreenVideoChunkBytes
          then fail ''screen video fragment total size is invalid''
          else
            let expectedCount = (unat (frTotalSize fragment) + maxScreenVideoFragmentBytes - 1)
                  div maxScreenVideoFragmentBytes
            in if expectedCount > maxScreenVideoFragments \<or> unat (frIndex fragment) \<ge> expectedCount
               then fail ''screen video fragment count is invalid''
               else
                 let fragment = fragment\<lparr>frCount := of_nat expectedCount\<rparr>;
                     expectedBytes =
                       (if frIndex fragment = frCount fragment - 1
                        then int (unat (frTotalSize fragment)) - int (unat (frIndex fragment) * maxScreenVideoFragmentBytes)
                        else int maxScreenVideoFragmentBytes)
                 in if int (length (frBytes fragment)) \<noteq> expectedBytes
                    then fail ''screen video fragment length is not canonical''
                    else Inr fragment)"

definition decodeScreenVideoFragment :: "bytes \<Rightarrow> decodedScreenVideoFragment result" where
  "decodeScreenVideoFragment payload =
     (if length payload \<le> screenVideoFragmentHeaderSize \<or> length payload > MaxRoomDatagramPayload
         \<or> payload ! 0 AND NOT screenVideoFlagKeyFrame \<noteq> 0
      then fail ''screen video fragment encoding is invalid''
      else checkFragment
        \<lparr>frMetadata = \<lparr>displayWidth = get_be (seg 19 21 payload), displayHeight = get_be (seg 21 23 payload),
            mdTimestamp = get_be (seg 3 11 payload), mdDuration = get_be (seg 11 15 payload),
            keyFrame = (payload ! 0 AND screenVideoFlagKeyFrame \<noteq> 0)\<rparr>,
         frIndex = get_be (seg 1 3 payload), frCount = 0, frTotalSize = get_be (seg 15 19 payload),
         frBytes = drop screenVideoFragmentHeaderSize payload\<rparr>)"

definition screenVideoMetadataMatchesState :: "screenVideoMetadata \<Rightarrow> screenState \<Rightarrow> bool" where
  "screenVideoMetadataMatchesState m state \<longleftrightarrow>
     active state \<and> displayWidth m \<le> ssWidth state \<and> displayHeight m \<le> ssHeight state"

section \<open>The state codec\<close>

definition announced :: "screenState \<Rightarrow> bool" where
  "announced state \<longleftrightarrow> ssRevision state = 0 \<and> validateScreenState state = Inr ()"

lemma codec_names [simp]:
  "ScreenVideoCodecH264Baseline \<noteq> ScreenVideoCodecH264Main" "ScreenVideoCodecH264Main \<noteq> ScreenVideoCodecH264Baseline"
  by (simp_all add: ScreenVideoCodecH264Baseline_def ScreenVideoCodecH264Main_def)

lemma codec_code_name:
  "snd (screenVideoCodecCode name) \<Longrightarrow> screenVideoCodecName (fst (screenVideoCodecCode name)) = (name, True)"
  by (auto simp: screenVideoCodecCode_def screenVideoCodecName_def split: if_splits)

lemma codec_name_code:
  "snd (screenVideoCodecName code) \<Longrightarrow> screenVideoCodecCode (fst (screenVideoCodecName code)) = (code, True)"
  by (auto simp: screenVideoCodecCode_def screenVideoCodecName_def split: if_splits)

lemma validateScreenState_active:
  "validateScreenState state = Inr () \<Longrightarrow> active state \<Longrightarrow> snd (screenVideoCodecCode (ssCodec state))"
  by (auto simp: validateScreenState_def validateScreenVideoConfig_def split: if_splits)

lemma decode_encodeScreenState:
  assumes "announced state"
  shows "\<exists>b. encodeScreenState state = Inr b \<and> decodeScreenState b = Inr state"
proof (cases "active state")
  case True
  have v: "validateScreenState state = Inr ()" using assms by (simp add: announced_def)
  note c = codec_code_name [OF validateScreenState_active [OF v True]]
  show ?thesis
    using assms True c by (cases state) (simp add: encodeScreenState_def decodeScreenState_def announced_def active_def Let_def)
next
  case False
  then have s: "state = emptyScreenState" using assms
    by (cases state) (auto simp: announced_def active_def validateScreenState_def emptyScreenState_def split: if_splits)
  let ?b = "replicate 5 0 @ put_be 16 (0 :: id16) :: bytes"
  have f: "seg 1 3 ?b = [0, 0]" "seg 3 5 ?b = [0, 0]" "drop 5 ?b = put_be 16 (0 :: id16)" "?b ! 0 = 0" "length ?b = 21"
    by (simp_all add: seg_def numeral_eq_Suc)
  have z: "get_be [0, 0] = (0 :: uint16)" by (simp add: get_be_def)
  have e: "\<not> active emptyScreenState" "validateScreenState emptyScreenState = Inr ()" "ssStreamID emptyScreenState = 0"
    by (simp_all add: emptyScreenState_def active_def validateScreenState_def)
  then have "encodeScreenState state = Inr ?b" by (simp add: s encodeScreenState_def)
  moreover have "decodeScreenState ?b = Inr state"
    unfolding decodeScreenState_def f Let_def s
    using e(2) by (simp add: f z active_def emptyScreenState_def)
  ultimately show ?thesis by blast
qed

lemma encode_decodeScreenState:
  assumes "decodeScreenState b = Inr state"
  shows "announced state \<and> encodeScreenState state = Inr b"
proof -
  let ?id = "get_be (drop 5 b) :: id16"
  have len: "length b = 21" using assms by (auto simp: decodeScreenState_def split: if_splits)
  have b: "b = [b ! 0] @ seg 1 3 b @ seg 3 5 b @ drop 5 b"
    using len by (cases b) (auto simp: seg_def drop_Suc take_Suc numeral_eq_Suc neq_Nil_conv length_Suc_conv)
  have v: "validateScreenState state = Inr ()" "ssRevision state = 0" "ssStreamID state = ?id"
    "ssWidth state = get_be (seg 1 3 b)" "ssHeight state = get_be (seg 3 5 b)"
    using assms by (auto simp: decodeScreenState_def Let_def split: if_splits sum.splits)
  have p: "put_be 2 (ssWidth state) = seg 1 3 b" "put_be 2 (ssHeight state) = seg 3 5 b"
    "put_be 16 (ssStreamID state) = drop 5 b" using len by (simp_all add: v)
  show ?thesis
  proof (cases "active state")
    case True
    then have "ssCodec state = fst (screenVideoCodecName (b ! 0))" "snd (screenVideoCodecName (b ! 0))"
      using assms by (auto simp: decodeScreenState_def active_def Let_def split: if_splits sum.splits)
    then have "fst (screenVideoCodecCode (ssCodec state)) = b ! 0" by (simp add: codec_name_code)
    then show ?thesis using b v p True by (simp add: announced_def encodeScreenState_def)
  next
    case False
    then have "b ! 0 = 0" "ssWidth state = 0" "ssHeight state = 0"
      using assms v(1) by (auto simp: decodeScreenState_def validateScreenState_def active_def Let_def split: if_splits sum.splits)
    then have "seg 1 3 b = put_be 2 (0 :: uint16)" "seg 3 5 b = put_be 2 (0 :: uint16)" using p by simp_all
    then have "replicate 5 0 @ drop 5 b = b" using \<open>b ! 0 = 0\<close>
      by (subst (2) b) (simp add: put_be_def numeral_eq_Suc)
    then show ?thesis using v p False by (simp add: announced_def encodeScreenState_def)
  qed
qed

interpretation screen: canonical_codec announced encodeScreenState decodeScreenState
proof unfold_locales
  show "\<exists>b. encodeScreenState s = Inr b" if "announced s" for s
    using decode_encodeScreenState [OF that] by blast
  show "decodeScreenState b = Inr s" if "announced s" "encodeScreenState s = Inr b" for s b
    using decode_encodeScreenState [OF that(1)] that(2) by auto
qed (use encode_decodeScreenState in blast)+

section \<open>Fragments\<close>

text \<open>How a chunk of a given size is cut: the number of fragments and the length of each.\<close>

definition fragmentTotal :: "nat \<Rightarrow> nat" where
  "fragmentTotal n = (n + maxScreenVideoFragmentBytes - 1) div maxScreenVideoFragmentBytes"

definition fragmentLength :: "nat \<Rightarrow> nat \<Rightarrow> nat" where
  "fragmentLength n i = min 1128 (n - i * 1128)"

definition fragmentBytes :: "bytes \<Rightarrow> nat \<Rightarrow> bytes" where
  "fragmentBytes data i = take 1128 (drop (i * 1128) data)"

lemma fragmentTotal_bound: "n \<le> 262144 \<Longrightarrow> fragmentTotal n \<le> 233"
  by (simp add: fragmentTotal_def)

lemma fragmentTotal_cover: "n \<le> fragmentTotal n * 1128"
  by (simp add: fragmentTotal_def)

lemma fragmentTotal_last: "i < fragmentTotal n \<Longrightarrow> i * 1128 < n"
  by (simp add: fragmentTotal_def)

lemma fragmentLength_eq:
  assumes "i < fragmentTotal n"
  shows "int (fragmentLength n i) = (if i = fragmentTotal n - 1 then int n - int (i * 1128) else 1128)"
  using assms fragmentTotal_last [OF assms]
  by (auto simp: fragmentLength_def fragmentTotal_def of_nat_diff min_def)

lemma length_fragmentBytes [simp]: "length (fragmentBytes data i) = fragmentLength (length data) i"
  by (simp add: fragmentBytes_def fragmentLength_def min.commute)

lemma fragmentBytes_seg:
  "seg (i * 1128) (min (i * 1128 + 1128) (length data)) data = fragmentBytes data i"
  by (auto simp: seg_def fragmentBytes_def min_def)

lemma concat_fragments_take: "concat (map (fragmentBytes data) [0..<k]) = take (k * 1128) data"
  by (induction k) (simp_all add: fragmentBytes_def, metis take_add add.commute)

lemma concat_fragments: "concat (map (fragmentBytes data) [0..<fragmentTotal (length data)]) = data"
  using fragmentTotal_cover [of "length data"] by (simp add: concat_fragments_take)

lemma keyFrame_flag [simp]:
  "(if k then screenVideoFlagKeyFrame else 0) AND NOT 1 = (0 :: byte)"
  "((if k then screenVideoFlagKeyFrame else 0) AND 1 \<noteq> (0 :: byte)) = k"
  by simp_all

definition fragmentOf :: "screenVideoMetadata \<Rightarrow> bytes \<Rightarrow> nat \<Rightarrow> decodedScreenVideoFragment" where
  "fragmentOf m data i = \<lparr>frMetadata = m, frIndex = of_nat i, frCount = of_nat (fragmentTotal (length data)),
     frTotalSize = of_nat (length data), frBytes = fragmentBytes data i\<rparr>"

lemma encodeScreenVideoFragments_OK:
  "encodeScreenVideoFragments m data =
     (case validateScreenVideoMetadata m of
        Inl err \<Rightarrow> Inl err
      | Inr _ \<Rightarrow>
          if length data = 0 \<or> length data > 262144 then fail ''screen video chunk must contain 1 to 262144 bytes''
          else Inr (map (fragmentPayload m data) [0..<fragmentTotal (length data)]))"
  using fragmentTotal_bound [of "length data"]
  by (auto simp: encodeScreenVideoFragments_def fragmentTotal_def Let_def split: sum.splits)

lemma length_fragmentPayload: "length (fragmentPayload m data i) = 23 + fragmentLength (length data) i"
  by (simp add: fragmentPayload_def Let_def fragmentBytes_seg [simplified])

lemma fragmentPayload_fields:
  fixes m data i
  defines "p \<equiv> fragmentPayload m data i"
  shows "p ! 0 = (if keyFrame m then screenVideoFlagKeyFrame else 0)"
    "get_be (seg 1 3 p) = (of_nat i :: uint16)" "get_be (seg 3 11 p) = mdTimestamp m"
    "get_be (seg 11 15 p) = mdDuration m" "get_be (seg 15 19 p) = (of_nat (length data) :: uint32)"
    "get_be (seg 19 21 p) = displayWidth m" "get_be (seg 21 23 p) = displayHeight m"
    "drop 23 p = fragmentBytes data i"
  unfolding p_def fragmentPayload_def Let_def
  by (simp_all add: fragmentBytes_seg [simplified] del: screenVideoFlagKeyFrame_def)

lemma unat_chunk:
  "n \<le> 262144 \<Longrightarrow> unat (of_nat n :: uint32) = n" "i \<le> 262 \<Longrightarrow> unat (of_nat i :: uint16) = i"
  by (simp_all add: unat_of_nat)

lemma last_index:
  assumes "i < k" "k \<le> 233"
  shows "(of_nat i :: uint16) = of_nat k - 1 \<longleftrightarrow> i = k - 1"
proof -
  obtain j where j: "k = Suc j" using assms(1) by (cases k) auto
  have "(of_nat i :: uint16) = of_nat j \<longleftrightarrow> i = j"
    using assms j by (simp add: word_of_nat_eq_iff take_bit_nat_eq_self)
  then show ?thesis by (simp add: j)
qed

lemma checkFragment_iff:
  "checkFragment f = Inr g \<longleftrightarrow>
     validateScreenVideoMetadata (frMetadata f) = Inr () \<and> 0 < unat (frTotalSize f) \<and> unat (frTotalSize f) \<le> 262144 \<and>
     unat (frIndex f) < fragmentTotal (unat (frTotalSize f)) \<and>
     length (frBytes f) = fragmentLength (unat (frTotalSize f)) (unat (frIndex f)) \<and>
     g = f\<lparr>frCount := of_nat (fragmentTotal (unat (frTotalSize f)))\<rparr>"
proof -
  let ?n = "unat (frTotalSize f)" and ?i = "unat (frIndex f)"
  let ?k = "fragmentTotal ?n"
  have e: "(if frIndex f = of_nat ?k - 1 then int ?n - int (?i * 1128) else 1128) = int (fragmentLength ?n ?i)"
    if "?i < ?k" "?n \<le> 262144"
    using last_index [OF that(1) fragmentTotal_bound [OF that(2)]] fragmentLength_eq [OF that(1)] by simp
  have z: "frTotalSize f = 0 \<longleftrightarrow> ?n = 0" by (simp add: unat_eq_0)
  have c: "(?n + 1127) div 1128 = ?k" "(1127 + ?n) div 1128 = ?k" by (simp_all add: fragmentTotal_def)
  show ?thesis
  proof (cases "?i < ?k \<and> ?n \<le> 262144")
    case True
    then show ?thesis using e fragmentTotal_bound [of ?n]
      by (auto simp: checkFragment_def c z Let_def split: sum.splits)
  next
    case False
    then show ?thesis by (auto simp: checkFragment_def c z Let_def split: sum.splits)
  qed
qed

lemma decode_fragmentPayload:
  assumes valid: "validateScreenVideoMetadata m = Inr ()"
    and len: "0 < length data" "length data \<le> 262144" and i: "i < fragmentTotal (length data)"
  shows "decodeScreenVideoFragment (fragmentPayload m data i) = Inr (fragmentOf m data i)"
proof -
  let ?p = "fragmentPayload m data i"
  have k: "fragmentTotal (length data) \<le> 233" using len(2) by (rule fragmentTotal_bound)
  have pos: "0 < fragmentLength (length data) i" "fragmentLength (length data) i \<le> 1128"
    using fragmentTotal_last [OF i] by (simp_all add: fragmentLength_def)
  have l: "23 < length ?p" "length ?p \<le> 1151" using pos by (simp_all add: length_fragmentPayload)
  have u: "unat (of_nat (length data) :: uint32) = length data" "unat (of_nat i :: uint16) = i"
    using len i k by (simp_all add: unat_chunk)
  have "decodeScreenVideoFragment ?p = checkFragment ((fragmentOf m data i)\<lparr>frCount := 0\<rparr>)"
    using l by (cases m) (simp add: decodeScreenVideoFragment_def fragmentPayload_fields [simplified] fragmentOf_def)
  also have "\<dots> = Inr (fragmentOf m data i)"
    using valid len i by (simp add: checkFragment_iff fragmentOf_def u)
  finally show ?thesis .
qed

lemma decodeScreenVideoFragment_OK:
  assumes "decodeScreenVideoFragment p = Inr f"
  shows "validateScreenVideoMetadata (frMetadata f) = Inr ()" "0 < unat (frTotalSize f)" "unat (frTotalSize f) \<le> 262144"
    "unat (frCount f) = fragmentTotal (unat (frTotalSize f))" "unat (frIndex f) < fragmentTotal (unat (frTotalSize f))"
    "length (frBytes f) = fragmentLength (unat (frTotalSize f)) (unat (frIndex f))"
proof -
  obtain g where "checkFragment g = Inr f" using assms by (auto simp: decodeScreenVideoFragment_def split: if_splits)
  then show "validateScreenVideoMetadata (frMetadata f) = Inr ()" "0 < unat (frTotalSize f)" "unat (frTotalSize f) \<le> 262144"
    "unat (frCount f) = fragmentTotal (unat (frTotalSize f))" "unat (frIndex f) < fragmentTotal (unat (frTotalSize f))"
    "length (frBytes f) = fragmentLength (unat (frTotalSize f)) (unat (frIndex f))"
    using fragmentTotal_bound [of "unat (frTotalSize f)"] by (auto simp: checkFragment_iff unat_chunk)
qed

text \<open>A video chunk survives fragmentation: every chunk the encoder accepts becomes at most 233
  fragments that each fit a room datagram and decode to their metadata, index, count and total size, and the
  decoded parts in index order are the chunk again.\<close>

theorem screen_fragments_round_trip:
  "case encodeScreenVideoFragments m data of
     Inl err \<Rightarrow> \<not> (validateScreenVideoMetadata m = Inr () \<and> 0 < length data \<and> length data \<le> MaxScreenVideoChunkBytes)
   | Inr fragments \<Rightarrow>
       length fragments \<le> maxScreenVideoFragments \<and>
       list_all (\<lambda>p. length p \<le> MaxRoomDatagramPayload) fragments \<and>
       map decodeScreenVideoFragment fragments = map (\<lambda>i. Inr (fragmentOf m data i)) [0..<length fragments] \<and>
       concat (map (\<lambda>i. frBytes (fragmentOf m data i)) [0..<length fragments]) = data"
proof (cases "encodeScreenVideoFragments m data")
  case (Inl err)
  then show ?thesis by (auto simp: encodeScreenVideoFragments_OK split: sum.splits if_splits)
next
  case (Inr fragments)
  then have v: "validateScreenVideoMetadata m = Inr ()" "0 < length data" "length data \<le> 262144"
    and f: "fragments = map (fragmentPayload m data) [0..<fragmentTotal (length data)]"
    by (auto simp: encodeScreenVideoFragments_OK split: sum.splits if_splits)
  have "list_all (\<lambda>p. length p \<le> 1151) fragments"
    by (simp add: f list_all_iff length_fragmentPayload fragmentLength_def)
  then show ?thesis
    using Inr v fragmentTotal_bound [OF v(3)]
    by (simp add: f decode_fragmentPayload fragmentOf_def concat_fragments)
qed

end
