(* ===== verification/FileCodec.thy ===== *)
theory FileCodec
  imports Wire GoStrings
begin

text \<open>
  The messages of file transfers, \<open>internal/peer/file.go\<close>: offers, control messages and data chunks.
  \<open>filepath.Base\<close> is the one of Unix.
\<close>

definition fileChunkSize :: nat where [simp]: "fileChunkSize = 32 * 2 ^ 10"
definition MaxFileTransferBytes :: uint64 where [simp]: "MaxFileTransferBytes = 0x40000000"
definition maxFileNameBytes :: nat where [simp]: "maxFileNameBytes = 255"

definition fileControlOffer :: byte where [simp]: "fileControlOffer = 1"
definition fileControlAccept :: byte where [simp]: "fileControlAccept = 2"
definition fileControlReject :: byte where [simp]: "fileControlReject = 3"
definition fileControlCancel :: byte where [simp]: "fileControlCancel = 4"
definition fileControlDataAck :: byte where [simp]: "fileControlDataAck = 5"

record decodedFileOffer =
  offerName :: bytes
  offerSize :: uint64
  offerDigest :: key32

definition emptyOffer :: decodedFileOffer where
  "emptyOffer = \<lparr>offerName = [], offerSize = 0, offerDigest = 0\<rparr>"

definition Base :: "bytes \<Rightarrow> bytes" where
  "Base path =
     (if path = [] then bytes_of ''.''
      else
        let path = rev (dropWhile (\<lambda>b. b = 47) (rev path));
            path = rev (takeWhile (\<lambda>b. b \<noteq> 47) (rev path))
        in if path = [] then bytes_of ''/'' else path)"

definition validFileName :: "bytes \<Rightarrow> bool" where
  "validFileName name \<longleftrightarrow>
     name \<noteq> [] \<and> length name \<le> maxFileNameBytes \<and> ValidString name \<and> name = Base name \<and>
     name \<noteq> bytes_of ''.'' \<and> \<not> list_ex (\<lambda>b. b \<in> {0, 47, 92}) name"

definition encodeFileOffer :: "id16 \<Rightarrow> decodedFileOffer \<Rightarrow> bytes result" where
  "encodeFileOffer ident offer =
     (if \<not> validFileName (offerName offer) \<or> offerSize offer > MaxFileTransferBytes then fail ''file offer is invalid''
      else Inr (fileControlOffer # put_be 16 ident @ put_be 8 (offerSize offer) @ put_be 32 (offerDigest offer) @
             offerName offer))"

text \<open>The payload \<open>queueFileControl\<close> writes.\<close>

definition fileControlPayload :: "id16 \<Rightarrow> byte \<Rightarrow> bytes" where
  "fileControlPayload ident kind = kind # put_be 16 ident"

definition decodeFileControl :: "bytes \<Rightarrow> (byte \<times> id16 \<times> decodedFileOffer) result" where
  "decodeFileControl payload =
     (if length payload < 17 then fail ''file control header is invalid''
      else
        let kind = payload ! 0;
            ident = get_be (seg 1 17 payload)
        in if ident = 0 then fail ''file transfer ID is zero''
           else if kind = fileControlOffer then
             (if length payload \<le> 57 then fail ''file offer is truncated''
              else
                let offer = \<lparr>offerName = drop 57 payload, offerSize = get_be (seg 17 25 payload),
                      offerDigest = get_be (seg 25 57 payload)\<rparr>
                in if offerSize offer > MaxFileTransferBytes \<or> \<not> validFileName (offerName offer)
                   then fail ''file offer fields are invalid''
                   else Inr (kind, ident, offer))
           else if (kind \<noteq> fileControlAccept \<and> kind \<noteq> fileControlReject \<and> kind \<noteq> fileControlCancel
                \<and> kind \<noteq> fileControlDataAck) \<or> length payload \<noteq> 17
           then fail ''file control encoding is invalid''
           else Inr (kind, ident, emptyOffer))"

definition encodeFileData :: "id16 \<Rightarrow> bytes \<Rightarrow> bytes" where
  "encodeFileData ident data = put_be 16 ident @ data"

definition decodeFileData :: "bytes \<Rightarrow> (id16 \<times> bytes) result" where
  "decodeFileData payload =
     (if length payload \<le> 16 \<or> length payload > 16 + fileChunkSize then fail ''file data header is invalid''
      else
        let ident = get_be (seg 0 16 payload)
        in if ident = 0 then fail ''file data encoding is invalid'' else Inr (ident, drop 16 payload))"

section \<open>Codecs\<close>

text \<open>What either end sends on the control channel: an offer, or one of the four other kinds.\<close>

fun encodeFileControl :: "byte \<times> id16 \<times> decodedFileOffer \<Rightarrow> bytes result" where
  "encodeFileControl (kind, ident, offer) =
     (if kind = fileControlOffer then encodeFileOffer ident offer else Inr (fileControlPayload ident kind))"

fun validFileControl :: "byte \<times> id16 \<times> decodedFileOffer \<Rightarrow> bool" where
  "validFileControl (kind, ident, offer) \<longleftrightarrow> ident \<noteq> 0 \<and>
     (if kind = fileControlOffer then validFileName (offerName offer) \<and> offerSize offer \<le> MaxFileTransferBytes
      else kind \<in> {fileControlAccept, fileControlReject, fileControlCancel, fileControlDataAck} \<and> offer = emptyOffer)"

lemma offer_fields:
  assumes "57 < length p"
  shows "p = p ! 0 # seg 1 17 p @ seg 17 25 p @ seg 25 57 p @ drop 57 p"
proof -
  have "p = take 1 p @ drop 1 p" by simp
  also have "take 1 p = [p ! 0]" using assms by (cases p) auto
  also have "drop 1 p = seg 1 17 p @ drop 17 p" by (rule drop_seg) simp
  also have "drop 17 p = seg 17 25 p @ drop 25 p" by (rule drop_seg) simp
  also have "drop 25 p = seg 25 57 p @ drop 57 p" by (rule drop_seg) simp
  finally show ?thesis by simp
qed

lemma control_fields:
  assumes "length p = 17"
  shows "p = p ! 0 # seg 1 17 p"
  using assms by (cases p) (simp_all add: seg_def)

lemma decode_encodeFileControl:
  assumes "validFileControl x"
  shows "\<exists>b. encodeFileControl x = Inr b \<and> decodeFileControl b = Inr x"
proof -
  obtain kind ident offer where x: "x = (kind, ident, offer)" by (metis prod_cases3)
  show ?thesis
  proof (cases "kind = fileControlOffer")
    case True
    moreover from True have "offerName offer \<noteq> []" using assms by (simp add: x validFileName_def)
    ultimately show ?thesis using assms
      by (cases offer) (auto simp: x encodeFileOffer_def decodeFileControl_def Let_def)
  next
    case False
    then show ?thesis using assms by (auto simp: x fileControlPayload_def decodeFileControl_def Let_def)
  qed
qed

lemma encode_decodeFileControl:
  assumes "decodeFileControl b = Inr x"
  shows "validFileControl x \<and> encodeFileControl x = Inr b"
proof -
  have idnz: "(get_be (seg 1 17 b) :: id16) \<noteq> 0" and len: "17 \<le> length b"
    using assms by (auto simp: decodeFileControl_def Let_def split: if_splits)
  show ?thesis
  proof (cases "b ! 0 = fileControlOffer")
    case True
    then have x: "x = (fileControlOffer, get_be (seg 1 17 b), \<lparr>offerName = drop 57 b, offerSize = get_be (seg 17 25 b),
          offerDigest = get_be (seg 25 57 b)\<rparr>)" and l: "57 < length b"
      and v: "get_be (seg 17 25 b) \<le> MaxFileTransferBytes" "validFileName (drop 57 b)"
      using assms by (auto simp: decodeFileControl_def Let_def split: if_splits)
    show ?thesis using idnz v l True offer_fields [OF l] by (simp add: x encodeFileOffer_def)
  next
    case False
    then have x: "x = (b ! 0, get_be (seg 1 17 b), emptyOffer)" and l: "length b = 17"
      and v: "b ! 0 \<in> {fileControlAccept, fileControlReject, fileControlCancel, fileControlDataAck}"
      using assms by (auto simp: decodeFileControl_def Let_def split: if_splits)
    show ?thesis using idnz v l False control_fields [OF l] by (auto simp: x fileControlPayload_def)
  qed
qed

interpretation file_control: canonical_codec validFileControl encodeFileControl decodeFileControl
proof unfold_locales
  show "\<exists>b. encodeFileControl x = Inr b" if "validFileControl x" for x
    using decode_encodeFileControl [OF that] by blast
  show "decodeFileControl b = Inr x" if "validFileControl x" "encodeFileControl x = Inr b" for x b
    using decode_encodeFileControl [OF that(1)] that(2) by auto
qed (use encode_decodeFileControl in blast)+

definition validFileData :: "id16 \<times> bytes \<Rightarrow> bool" where
  "validFileData x \<longleftrightarrow> fst x \<noteq> 0 \<and> 0 < length (snd x) \<and> length (snd x) \<le> fileChunkSize"

interpretation file_data: canonical_codec validFileData "\<lambda>x. Inr (encodeFileData (fst x) (snd x))" decodeFileData
proof unfold_locales
  show "decodeFileData b = Inr x" if "validFileData x" "Inr (encodeFileData (fst x) (snd x)) = (Inr b :: bytes result)" for x b
    using that by (cases x) (auto simp: validFileData_def encodeFileData_def decodeFileData_def Let_def)
  show "validFileData x" if "decodeFileData b = Inr x" for x b
    using that by (auto simp: validFileData_def decodeFileData_def Let_def split: if_splits)
  show "Inr (encodeFileData (fst x) (snd x)) = (Inr b :: bytes result)" if "decodeFileData b = Inr x" for x b
  proof -
    have l: "16 < length b" and x: "x = (get_be (seg 0 16 b), drop 16 b)"
      using that by (auto simp: decodeFileData_def Let_def split: if_splits)
    have "take 16 b @ drop 16 b = b" by (rule append_take_drop_id)
    moreover have "seg 0 16 b = take 16 b" by (simp add: seg_def)
    ultimately show ?thesis using l by (simp add: x encodeFileData_def)
  qed
qed simp

text \<open>File messages are exact on the wire: every valid offer, answer and data chunk decodes to what was
  sent, a payload that decodes is the only encoding of what it gives, and an accepted offer names a plain file,
  not a path, of at most one gibibyte.\<close>

theorem file_messages_codec:
  "(if validFileControl x
    then (case encodeFileControl x of Inl err \<Rightarrow> False | Inr b \<Rightarrow> decodeFileControl b = Inr x)
    else {b. decodeFileControl b = Inr x} = {}) \<and>
   (if validFileData y then decodeFileData (encodeFileData (fst y) (snd y)) = Inr y
    else {b. decodeFileData b = Inr y} = {}) \<and>
   (case decodeFileControl c of
      Inl err \<Rightarrow> True
    | Inr (kind, ident, offer) \<Rightarrow> ident \<noteq> 0 \<and> encodeFileControl (kind, ident, offer) = Inr c \<and>
        offerSize offer \<le> MaxFileTransferBytes \<and> {0, 47, 92} \<inter> set (offerName offer) = {})"
proof (intro conjI)
  show "if validFileControl x
    then (case encodeFileControl x of Inl err \<Rightarrow> False | Inr b \<Rightarrow> decodeFileControl b = Inr x)
    else {b. decodeFileControl b = Inr x} = {}"
    using file_control.round_trip [of x] file_control.dec_valid [of _ x] by auto
  show "if validFileData y then decodeFileData (encodeFileData (fst y) (snd y)) = Inr y
    else {b. decodeFileData b = Inr y} = {}"
    using file_data.round_trip [of y] file_data.dec_valid [of _ y] by auto
  show "case decodeFileControl c of
      Inl err \<Rightarrow> True
    | Inr (kind, ident, offer) \<Rightarrow> ident \<noteq> 0 \<and> encodeFileControl (kind, ident, offer) = Inr c \<and>
        offerSize offer \<le> MaxFileTransferBytes \<and> {0, 47, 92} \<inter> set (offerName offer) = {}"
    using file_control.dec_valid [of c] file_control.enc_dec [of c]
    by (auto simp: validFileName_def emptyOffer_def list_ex_iff split: sum.split if_splits)
qed

end
