(* ===== verification/FanoutPlan.thy ===== *)
theory FanoutPlan
  imports Wire
begin

text \<open>
  Planning who forwards media to whom, \<open>internal/peer/fanout.go\<close>, and the codec of the assignments.
  The sender reaches its direct peers itself; a direct peer that claims others as its neighbours forwards to
  them.  Maps that the source iterates are association lists (\<open>Prelude\<close>).
\<close>

record topologyPeer =
  tpLastSeen :: time
  tpNeighbors :: "(PeerID \<times> time) list"

record outboundFanout =
  activateAt :: time
  destinations :: "PeerID list"
  assignments :: "(PeerID \<times> PeerID list) list"

text \<open>A nil \<open>destinations\<close> is the empty list: the code only appends to it.\<close>

definition assigned :: "outboundFanout \<Rightarrow> PeerID \<Rightarrow> PeerID list" where
  "assigned plan forwarder = (case map_of (assignments plan) forwarder of None \<Rightarrow> [] | Some ls \<Rightarrow> ls)"

section \<open>The greedy plan\<close>

definition claimed :: "(PeerID \<times> topologyPeer) list \<Rightarrow> time \<Rightarrow> PeerID \<Rightarrow> PeerID list" where
  "claimed topology now forwarder =
     (case map_of topology forwarder of
        None \<Rightarrow> []
      | Some peer \<Rightarrow> map fst (filter (\<lambda>(neighbor, expiresAt). now < expiresAt) (tpNeighbors peer)))"

definition candidateOf ::
  "(PeerID \<times> topologyPeer) list \<Rightarrow> time \<Rightarrow> PeerID list \<Rightarrow> PeerID \<Rightarrow> PeerID list" where
  "candidateOf topology now uncovered forwarder =
     sort ((if forwarder \<in> set uncovered then [forwarder] else []) @
       filter (\<lambda>neighbor. neighbor \<in> set uncovered) (claimed topology now forwarder))"

fun selectForwarder ::
  "(PeerID \<Rightarrow> PeerID list) \<Rightarrow> PeerID list \<Rightarrow> PeerID \<times> PeerID list \<Rightarrow> PeerID \<times> PeerID list" where
  "selectForwarder candidate [] best = best"
| "selectForwarder candidate (forwarder # rest) best =
     selectForwarder candidate rest
       (if length (candidate forwarder) > length (snd best) then (forwarder, candidate forwarder) else best)"

definition assign :: "outboundFanout \<Rightarrow> PeerID \<Rightarrow> PeerID list \<Rightarrow> outboundFanout" where
  "assign plan selected coverage =
     plan\<lparr>destinations := destinations plan @ [selected],
       assignments := AList.update selected
         (assigned plan selected @ filter (\<lambda>listener. listener \<noteq> selected) coverage) (assignments plan)\<rparr>"

lemma selectForwarder_max:
  "selectForwarder candidate fs best = (s, c) \<Longrightarrow>
     (s, c) = best \<or> (s \<in> set fs \<and> c = candidate s)"
  "selectForwarder candidate fs best = (s, c) \<Longrightarrow>
     length (snd best) \<le> length c \<and> (\<forall>f \<in> set fs. length (candidate f) \<le> length c)"
proof (induction fs arbitrary: best)
  case (Cons f fs)
  { case 1 then show ?case using Cons.IH(1) [of "if length (candidate f) > length (snd best) then (f, candidate f) else best"]
      by (cases "length (candidate f) > length (snd best)") auto }
  { case 2 then show ?case using Cons.IH(2) [of "if length (candidate f) > length (snd best) then (f, candidate f) else best"]
      by (cases "length (candidate f) > length (snd best)") auto }
qed auto

lemma set_candidateOf: "set (candidateOf topology now uncovered f) =
    set uncovered \<inter> insert f (set (claimed topology now f))"
  by (auto simp: candidateOf_def)

function planLoop ::
  "(PeerID \<times> topologyPeer) list \<Rightarrow> time \<Rightarrow> PeerID list \<Rightarrow> PeerID list \<Rightarrow> outboundFanout \<Rightarrow> outboundFanout" where
  "planLoop topology now direct uncovered plan =
     (if uncovered = [] then plan
      else
        let (selected, coverage) = selectForwarder (candidateOf topology now uncovered) (sort direct) (0, [])
        in if IsZero selected \<or> coverage = [] then plan
           else planLoop topology now direct (filter (\<lambda>listener. listener \<notin> set coverage) uncovered)
                  (assign plan selected coverage))"
  by pat_completeness auto
termination
proof (relation "measure (\<lambda>(topology, now, direct, uncovered, plan). length uncovered)", goal_cases)
  case (2 topology now direct uncovered plan x selected coverage)
  then have "(selected, coverage) = (0, []) \<or>
      (selected \<in> set (sort direct) \<and> coverage = candidateOf topology now uncovered selected)"
    by (intro selectForwarder_max(1)) simp
  with 2 obtain l where "l \<in> set coverage" "l \<in> set uncovered"
    by (metis IntE list.set_intros(1) neq_Nil_conv prod.inject set_candidateOf)
  then have "length (filter (\<lambda>listener. listener \<notin> set coverage) uncovered) < length uncovered"
    by (intro length_filter_less [of l]) auto
  then show ?case by simp
qed simp

declare planLoop.simps [simp del]

definition buildFanoutPlan ::
  "PeerID list \<Rightarrow> PeerID list \<Rightarrow> (PeerID \<times> topologyPeer) list \<Rightarrow> time \<Rightarrow> outboundFanout" where
  "buildFanoutPlan listeners direct topology now =
     planLoop topology now direct (remdups (sort listeners)) \<lparr>activateAt = 0, destinations = [], assignments = []\<rparr>"

section \<open>Targets with a fixed intermediary\<close>

text \<open>The second half of \<open>constrainFanoutToActivePaths\<close>: \<open>forced\<close> maps a target to the peer its bridge path
  goes through.\<close>

definition placeTarget :: "(PeerID \<times> PeerID) list \<Rightarrow> outboundFanout \<Rightarrow> PeerID \<Rightarrow> outboundFanout" where
  "placeTarget forced plan target =
     (let forwarder = the (map_of forced target);
          plan = (if forwarder \<in> set (destinations plan) then plan
                  else plan\<lparr>destinations := destinations plan @ [forwarder]\<rparr>)
      in if target \<in> set (assigned plan forwarder) then plan
         else plan\<lparr>assignments := AList.update forwarder (sort (assigned plan forwarder @ [target])) (assignments plan)\<rparr>)"

definition applyForced :: "outboundFanout \<Rightarrow> (PeerID \<times> PeerID) list \<Rightarrow> outboundFanout" where
  "applyForced plan forced =
     (if forced = [] then plan
      else
        let plan = plan\<lparr>assignments :=
              map (\<lambda>(forwarder, ls). (forwarder, filter (\<lambda>target. map_of forced target = None) ls)) (assignments plan)\<rparr>
        in foldl (placeTarget forced) plan (sort (map fst forced)))"

section \<open>The codec of assignments\<close>

definition marshalFanoutAssignment :: "PeerID list \<Rightarrow> bytes result" where
  "marshalFanoutAssignment listeners =
     (if list_ex IsZero listeners then fail ''fanout listener is zero''
      else Inr (put_be 4 (of_nat (length listeners) :: uint32) @ concat (map (put_be 16) listeners)))"

fun readListeners :: "nat \<Rightarrow> bytes \<Rightarrow> PeerID list result" where
  "readListeners 0 rest = Inr []"
| "readListeners (Suc n) rest =
     (let peerID = get_be (take 16 rest)
      in if IsZero peerID then fail ''fanout listener is zero''
         else case readListeners n (drop 16 rest) of
           Inl err \<Rightarrow> Inl err
         | Inr listeners \<Rightarrow> Inr (peerID # listeners))"

definition parseFanoutAssignment :: "bytes \<Rightarrow> PeerID list result" where
  "parseFanoutAssignment payload =
     (if length payload < 4 then fail ''fanout assignment header is invalid''
      else
        let count = unat (get_be (seg 0 4 payload) :: uint32)
        in if count > (length payload - 4) div 16 \<or> length payload \<noteq> 4 + count * 16
           then fail ''fanout assignment length is invalid''
           else readListeners count (drop 4 payload))"

definition validAssignment :: "PeerID list \<Rightarrow> bool" where
  "validAssignment listeners \<longleftrightarrow> 0 \<notin> set listeners \<and> length listeners < 2 ^ 32"

lemma readListeners_concat:
  "0 \<notin> set ls \<Longrightarrow> readListeners (length ls) (concat (map (put_be 16) ls)) = Inr ls"
  by (induction ls) (auto simp: Let_def)

lemma readListeners_OK:
  "length rest = n * 16 \<Longrightarrow> readListeners n rest = Inr ls \<Longrightarrow>
     length ls = n \<and> 0 \<notin> set ls \<and> concat (map (put_be 16) ls) = rest"
proof (induction n arbitrary: rest ls)
  case (Suc n)
  from Suc.prems obtain ls' where l: "readListeners n (drop 16 rest) = Inr ls'" "ls = get_be (take 16 rest) # ls'"
    "get_be (take 16 rest) \<noteq> (0 :: PeerID)" by (auto simp: Let_def split: if_splits sum.splits)
  with Suc.IH [of "drop 16 rest" ls'] Suc.prems(1) show ?case
    by (simp add: l(2) min_def)
qed simp

lemma length_concat_ids [simp]: "length (concat (map (put_be 16) ls)) = length ls * 16"
  by (induction ls) simp_all

lemma parse_marshalFanoutAssignment:
  assumes "validAssignment ls"
  shows "\<exists>b. marshalFanoutAssignment ls = Inr b \<and> parseFanoutAssignment b = Inr ls"
  using assms readListeners_concat [of ls]
  by (auto simp: validAssignment_def marshalFanoutAssignment_def parseFanoutAssignment_def list_ex_iff
      unat_of_nat Let_def)

lemma marshal_parseFanoutAssignment:
  assumes "parseFanoutAssignment b = Inr ls"
  shows "validAssignment ls \<and> marshalFanoutAssignment ls = Inr b"
proof -
  let ?n = "unat (get_be (seg 0 4 b) :: uint32)"
  have len: "length b = 4 + ?n * 16" and r: "readListeners ?n (drop 4 b) = Inr ls"
    using assms by (auto simp: parseFanoutAssignment_def Let_def split: if_splits)
  have l: "length ls = ?n" "0 \<notin> set ls" "concat (map (put_be 16) ls) = drop 4 b"
    using readListeners_OK [of "drop 4 b" ?n ls] len r by simp_all
  have "?n < 2 ^ 32" using unsigned_less [of "get_be (seg 0 4 b) :: uint32", where ?'a = nat] by simp
  moreover have "put_be 4 (of_nat (length ls) :: uint32) = take 4 b"
    using len by (simp add: l(1) seg_def)
  ultimately show ?thesis using l
    by (simp add: validAssignment_def marshalFanoutAssignment_def list_ex_iff)
qed

interpretation fanout_codec: canonical_codec validAssignment marshalFanoutAssignment parseFanoutAssignment
proof unfold_locales
  show "\<exists>b. marshalFanoutAssignment x = Inr b" if "validAssignment x" for x
    using parse_marshalFanoutAssignment [OF that] by blast
  show "parseFanoutAssignment b = Inr x" if "validAssignment x" "marshalFanoutAssignment x = Inr b" for x b
    using parse_marshalFanoutAssignment [OF that(1)] that(2) by auto
qed (use marshal_parseFanoutAssignment in blast)+

section \<open>What a plan achieves\<close>

definition neighbors_ok :: "(PeerID \<times> topologyPeer) list \<Rightarrow> bool" where
  "neighbors_ok topology \<longleftrightarrow> list_all (\<lambda>(peerID, peer). distinct (map fst (tpNeighbors peer))) topology"

lemma distinct_claimed: "neighbors_ok topology \<Longrightarrow> distinct (claimed topology now f)"
  by (auto simp: claimed_def neighbors_ok_def list_all_iff split: option.splits
      dest!: map_of_SomeD intro!: distinct_map_filter)

definition covered :: "outboundFanout \<Rightarrow> PeerID set" where
  "covered plan = set (destinations plan) \<union> set (concat (map snd (assignments plan)))"

text \<open>The invariant of the loop, with \<open>listeners\<close> the set it started from.\<close>

definition plan_inv ::
  "(PeerID \<times> topologyPeer) list \<Rightarrow> time \<Rightarrow> PeerID list \<Rightarrow> PeerID set \<Rightarrow> PeerID list \<Rightarrow> outboundFanout \<Rightarrow> bool" where
  "plan_inv topology now direct listeners uncovered plan \<longleftrightarrow>
     distinct uncovered \<and> set uncovered \<subseteq> listeners \<and> listeners \<subseteq> set uncovered \<union> covered plan \<and>
     distinct (destinations plan) \<and> set (destinations plan) \<subseteq> set direct \<and>
     map fst (assignments plan) = destinations plan \<and>
     distinct (concat (map snd (assignments plan))) \<and>
     set (concat (map snd (assignments plan))) \<subseteq> listeners - set uncovered \<and>
     (\<forall>(f, ls) \<in> set (assignments plan). f \<notin> set ls \<and> set ls \<subseteq> set (claimed topology now f) \<and>
        set uncovered \<inter> insert f (set (claimed topology now f)) = {}) \<and>
     length (destinations plan) + length uncovered \<le> card listeners"

lemma plan_inv_assign:
  assumes inv: "plan_inv topology now direct listeners uncovered plan"
    and ok: "neighbors_ok topology" and s: "s \<in> set direct"
    and c: "c = candidateOf topology now uncovered s" "c \<noteq> []"
  shows "plan_inv topology now direct listeners (filter (\<lambda>l. l \<notin> set c) uncovered) (assign plan s c)"
proof -
  let ?u = "filter (\<lambda>l. l \<notin> set c) uncovered" and ?as = "filter (\<lambda>l. l \<noteq> s) c"
  note I = inv [unfolded plan_inv_def]
  have cset: "set c = set uncovered \<inter> insert s (set (claimed topology now s))" by (simp add: c(1) set_candidateOf)
  have new: "s \<notin> set (destinations plan)"
  proof
    assume "s \<in> set (destinations plan)"
    then obtain ls where "(s, ls) \<in> set (assignments plan)" using I by (metis (no_types, lifting) imageE list.set_map prod.collapse)
    with I cset have "set c = {}" by fastforce
    with c(2) show False by simp
  qed
  then have none: "map_of (assignments plan) s = None" using I by (simp add: map_of_eq_None_iff flip: set_map)
  have a: "assignments (assign plan s c) = assignments plan @ [(s, ?as)]"
    by (simp add: assign_def assigned_def none update_absent)
  have d: "destinations (assign plan s c) = destinations plan @ [s]" by (simp add: assign_def)
  have dist: "distinct ?as"
    using distinct_claimed [OF ok, of now s] by (simp add: c(1) candidateOf_def filter_sort)
  obtain l where l: "l \<in> set c" using c(2) by (cases c) auto
  then have len: "length ?u < length uncovered" using cset by (intro length_filter_less [of l]) auto
  have cov: "covered (assign plan s c) = covered plan \<union> insert s (set c)"
    by (auto simp: covered_def a d)
  show ?thesis
    unfolding plan_inv_def a d cov
    using I s new dist len cset by auto
qed

lemma planLoop_inv:
  assumes "neighbors_ok topology" "0 \<notin> set direct"
  shows "plan_inv topology now direct listeners uncovered plan \<Longrightarrow>
    \<exists>rest. plan_inv topology now direct listeners rest (planLoop topology now direct uncovered plan) \<and>
      (\<forall>f \<in> set direct. set rest \<inter> insert f (set (claimed topology now f)) = {})"
proof (induction "length uncovered" arbitrary: uncovered plan rule: less_induct)
  case less
  obtain s c where sel: "selectForwarder (candidateOf topology now uncovered) (sort direct) (0, []) = (s, c)"
    by fastforce
  have either: "(s, c) = (0, []) \<or> (s \<in> set direct \<and> c = candidateOf topology now uncovered s)"
    using selectForwarder_max(1) [OF sel] by simp
  have most: "\<forall>f \<in> set direct. length (candidateOf topology now uncovered f) \<le> length c"
    using selectForwarder_max(2) [OF sel] by simp
  show ?case
  proof (cases "c = []")
    case True
    then have "planLoop topology now direct uncovered plan = plan"
      by (subst planLoop.simps) (simp add: sel)
    moreover have "\<forall>f \<in> set direct. set uncovered \<inter> insert f (set (claimed topology now f)) = {}"
      using most True by (metis le_zero_eq length_0_conv list.set(1) list.size(3) set_candidateOf)
    ultimately show ?thesis using less.prems by auto
  next
    case False
    with either have s: "s \<in> set direct" "c = candidateOf topology now uncovered s" by auto
    with assms(2) have nz: "s \<noteq> 0" by auto
    have sub: "set c \<subseteq> set uncovered" by (simp add: s(2) set_candidateOf)
    with False have ne: "uncovered \<noteq> []" by auto
    obtain l where "l \<in> set c" using False by (cases c) auto
    with sub have len: "length (filter (\<lambda>l. l \<notin> set c) uncovered) < length uncovered"
      by (intro length_filter_less [of l]) auto
    have "planLoop topology now direct uncovered plan =
        planLoop topology now direct (filter (\<lambda>l. l \<notin> set c) uncovered) (assign plan s c)"
      using ne False nz by (subst planLoop.simps) (simp add: sel)
    with less.hyps [OF len plan_inv_assign [OF less.prems assms(1) s False]] show ?thesis by simp
  qed
qed

lemma plan_inv_assigned:
  assumes "plan_inv topology now direct listeners rest plan" "l \<in> set (assigned plan f)"
  shows "f \<in> set direct \<and> l \<noteq> f \<and> l \<in> listeners \<and> l \<in> set (claimed topology now f)"
proof -
  obtain ls where ls: "(f, ls) \<in> set (assignments plan)" "l \<in> set ls"
    using assms(2) by (auto simp: assigned_def split: option.splits dest: map_of_SomeD [OF sym])
  moreover from ls have "f \<in> set (map fst (assignments plan))" by force
  moreover from ls have "l \<in> set (concat (map snd (assignments plan)))" by force
  moreover have "set (map fst (assignments plan)) \<subseteq> set direct"
    "set (concat (map snd (assignments plan))) \<subseteq> listeners - set rest"
    using assms(1) by (simp_all only: plan_inv_def)
  moreover have "\<forall>(f, ls) \<in> set (assignments plan). f \<notin> set ls \<and> set ls \<subseteq> set (claimed topology now f) \<and>
      set rest \<inter> insert f (set (claimed topology now f)) = {}"
    using assms(1) unfolding plan_inv_def by (elim conjE)
  from bspec [OF this ls(1)] have "f \<notin> set ls \<and> set ls \<subseteq> set (claimed topology now f)" by simp
  ultimately show ?thesis using ls(2) by auto
qed

text \<open>C10: The forwarding plan reaches everyone who can be reached, once: every destination is a distinct direct
  peer, no listener is assigned to two forwarders, a listener is assigned only to a direct peer with a live
  claim for it, and the listeners served directly or by assignment are exactly those that are direct or claimed
  by a direct peer.  The plan loop always ends, with at most one destination per listener.\<close>

theorem fanout_plan_covers:
  fixes listeners :: "PeerID list" and now :: time
  assumes "neighbors_ok topology" "0 \<notin> set direct"
  defines "plan \<equiv> buildFanoutPlan listeners direct topology now"
  shows "distinct (destinations plan) \<and> set (destinations plan) \<subseteq> set direct \<and>
    map fst (assignments plan) = destinations plan \<and>
    distinct (concat (map snd (assignments plan))) \<and>
    (\<forall>f l. l \<in> set (assigned plan f) \<longrightarrow> f \<in> set direct \<and> l \<noteq> f \<and> l \<in> set listeners \<and> l \<in> set (claimed topology now f)) \<and>
    set listeners \<inter> covered plan =
      {l \<in> set listeners. \<exists>f \<in> set direct. l = f \<or> l \<in> set (claimed topology now f)} \<and>
    length (destinations plan) \<le> card (set listeners)"
proof -
  let ?U = "remdups (sort listeners)" and ?p0 = "\<lparr>activateAt = 0, destinations = [], assignments = []\<rparr>"
  have "plan_inv topology now direct (set listeners) ?U ?p0"
    by (simp add: plan_inv_def covered_def length_remdups_card_conv)
  then obtain rest where inv: "plan_inv topology now direct (set listeners) rest plan"
    and fin: "\<forall>f \<in> set direct. set rest \<inter> insert f (set (claimed topology now f)) = {}"
    using planLoop_inv [OF assms(1,2)] unfolding plan_def buildFanoutPlan_def by blast
  have asg: "f \<in> set direct \<and> l \<noteq> f \<and> l \<in> set listeners \<and> l \<in> set (claimed topology now f)"
    if "l \<in> set (assigned plan f)" for f l using plan_inv_assigned [OF inv that] .
  have dist: "distinct (map fst (assignments plan))" using inv by (simp add: plan_inv_def)
  have cov: "l \<in> set (destinations plan) \<or> (\<exists>f. l \<in> set (assigned plan f))" if "l \<in> covered plan" for l
    using that dist by (auto simp: covered_def assigned_def)
  have "set listeners \<inter> covered plan = {l \<in> set listeners. \<exists>f \<in> set direct. l = f \<or> l \<in> set (claimed topology now f)}"
  proof (intro equalityI subsetI)
    fix l assume "l \<in> set listeners \<inter> covered plan"
    then show "l \<in> {l \<in> set listeners. \<exists>f \<in> set direct. l = f \<or> l \<in> set (claimed topology now f)}"
      using cov [of l] asg [of l] inv by (auto simp: plan_inv_def)
  next
    fix l assume "l \<in> {l \<in> set listeners. \<exists>f \<in> set direct. l = f \<or> l \<in> set (claimed topology now f)}"
    then have "l \<in> set listeners" "l \<notin> set rest" using fin by auto
    then show "l \<in> set listeners \<inter> covered plan" using inv by (auto simp: plan_inv_def)
  qed
  with inv asg show ?thesis by (auto simp: plan_inv_def)
qed

theorem fanout_plan_covers_witness:
  "let topology = [(2, \<lparr>tpLastSeen = 0, tpNeighbors = [(4, 9), (5, 1)]\<rparr>)];
       plan = buildFanoutPlan [2, 3, 4] [2, 3] topology 5
   in neighbors_ok topology \<and> 0 \<notin> set [2, 3 :: PeerID] \<and> distinct (destinations plan) \<and>
      set [2, 3, 4] \<inter> covered plan =
        {l \<in> set [2, 3, 4]. \<exists>f \<in> set [2, 3]. l = f \<or> l \<in> set (claimed topology 5 f)} \<and>
      claimed topology 5 2 = [4]"
proof -
  let ?t = "[(2, \<lparr>tpLastSeen = 0, tpNeighbors = [(4, 9), (5, 1)]\<rparr>)] :: (PeerID \<times> topologyPeer) list"
  have ok: "neighbors_ok ?t" "0 \<notin> set [2, 3 :: PeerID]" by (simp_all add: neighbors_ok_def)
  have "claimed ?t 5 2 = [4]" by (simp add: claimed_def)
  with fanout_plan_covers [OF ok, of "[2, 3, 4]" 5] ok show ?thesis unfolding Let_def by blast
qed

section \<open>Forced targets\<close>

lemma assigned_place:
  "set (assigned (placeTarget forced plan t) f) =
     set (assigned plan f) \<union> (if f = the (map_of forced t) then {t} else {})"
  by (auto simp: placeTarget_def assigned_def Let_def split: option.splits)

lemma destinations_place:
  "set (destinations (placeTarget forced plan t)) = insert (the (map_of forced t)) (set (destinations plan))"
  by (auto simp: placeTarget_def Let_def)

lemma assigned_places:
  "set (assigned (foldl (placeTarget forced) plan ts) f) =
     set (assigned plan f) \<union> {t \<in> set ts. the (map_of forced t) = f}"
  by (induction ts arbitrary: plan) (auto simp: assigned_place)

lemma destinations_places:
  "set (destinations (foldl (placeTarget forced) plan ts)) =
     set (destinations plan) \<union> (\<lambda>t. the (map_of forced t)) ` set ts"
  by (induction ts arbitrary: plan) (auto simp: destinations_place)

lemma map_of_map_snd: "map_of (map (\<lambda>(k, v). (k, g v)) m) k = map_option g (map_of m k)"
  by (induction m) auto

text \<open>A peer reached through a bridge is served by that bridge alone: after the plan is adjusted to the
  active paths, such a target is assigned to its intermediary and to no other forwarder, the intermediary is a
  destination, and every other assignment and destination is kept.\<close>

theorem fanout_forced_targets:
  defines "intermediary forced t \<equiv> the (map_of forced t)"
  shows "set (assigned (applyForced plan forced) f) =
      {t \<in> set (assigned plan f). map_of forced t = None} \<union> {t \<in> dom (map_of forced). intermediary forced t = f} \<and>
    set (destinations (applyForced plan forced)) =
      set (destinations plan) \<union> intermediary forced ` dom (map_of forced)"
proof (cases "forced = []")
  case True
  then show ?thesis by (simp add: applyForced_def)
next
  case False
  let ?p = "plan\<lparr>assignments := map (\<lambda>(forwarder, ls). (forwarder, filter (\<lambda>target. map_of forced target = None) ls))
      (assignments plan)\<rparr>"
  have e: "applyForced plan forced = foldl (placeTarget forced) ?p (sort (map fst forced))"
    using False by (simp add: applyForced_def)
  have "set (assigned ?p f) = {t \<in> set (assigned plan f). map_of forced t = None}"
    by (auto simp: assigned_def map_of_map_snd split: option.splits)
  then show ?thesis
    by (simp add: e assigned_places destinations_places intermediary_def dom_map_of_conv_image_fst)
qed

end
