(* ===== verification/PeerState.thy ===== *)
theory PeerState
  imports HelloWire ControlWire BridgeWire RoomDatagramWire ReliableTransport MediaFlow
    MemberState TopologyMessage ScreenCodec FileCodec FanoutPlan
    "HOL-Library.Char_ord" "HOL-Library.List_Lexorder"
begin

text \<open>
  The state of the peer client and the operations its parts share: paths and sessions (\<open>path.go\<close>,
  \<open>session.go\<close>, \<open>remote_peer.go\<close>), the client itself (\<open>client.go\<close>) and sending over a path (\<open>bridge.go\<close>).

  The client is one record that every handler takes and returns.  A session is found through its peer, as
  the active or the pending one, so an update through a session pointer is an update of that entry.
  The zero \<open>time.Time\<close> is \<open>0\<close>; a handler reads the clock once, as its argument \<open>now\<close>.

  The network below (\<open>networking.RoomNetwork\<close>) is a queue that takes or refuses each submission.  Which it
  does is left open: \<open>admits\<close> is a function of everything submitted before, with the answers, and the
  client keeps that log.
\<close>

section \<open>Paths\<close>

record Path =
  pathAddress :: AddrPort
  pathIntermediary :: PeerID
  pathTarget :: PeerID

definition noAddress :: AddrPort where "noAddress = AddrPortFrom AddrZero 0"

definition noPath :: Path where
  "noPath = \<lparr>pathAddress = noAddress, pathIntermediary = 0, pathTarget = 0\<rparr>"

definition NewPath :: "AddrPort \<Rightarrow> Path result" where
  "NewPath address =
     (let address = AddrPortFrom (Unmap (apAddr address)) (apPort address)
      in if \<not> apIsValid address \<or> apPort address = 0 then fail ''network path address is invalid''
         else Inr \<lparr>pathAddress = address, pathIntermediary = 0, pathTarget = 0\<rparr>)"

definition NewBridgePath :: "AddrPort \<Rightarrow> PeerID \<Rightarrow> PeerID \<Rightarrow> Path result" where
  "NewBridgePath nextHop intermediary target =
     (case NewPath nextHop of
        Inl err \<Rightarrow> fail ''bridge path is invalid''
      | Inr p \<Rightarrow>
          if IsZero intermediary \<or> IsZero target \<or> intermediary = target then fail ''bridge path is invalid''
          else Inr (p\<lparr>pathIntermediary := intermediary, pathTarget := target\<rparr>))"

definition IsDirect :: "Path \<Rightarrow> bool" where
  "IsDirect p \<longleftrightarrow> IsZero (pathIntermediary p) \<and> IsZero (pathTarget p)"

definition pathIsValid :: "Path \<Rightarrow> bool" where
  "pathIsValid p =
     (if \<not> apIsValid (pathAddress p) \<or> apPort (pathAddress p) = 0 then False
      else IsDirect p \<or> (\<not> IsZero (pathIntermediary p) \<and> \<not> IsZero (pathTarget p) \<and> pathIntermediary p \<noteq> pathTarget p))"

definition SameRoute :: "Path \<Rightarrow> Path \<Rightarrow> bool" where
  "SameRoute p other =
     (if IsDirect p \<or> IsDirect other then IsDirect p \<and> IsDirect other \<and> pathAddress p = pathAddress other
      else pathIntermediary p = pathIntermediary other \<and> pathTarget p = pathTarget other)"

section \<open>Sessions\<close>

record pendingPing =
  pingPacketSequence :: uint64
  pingPath :: Path
  pingSentAt :: time

definition noPing :: pendingPing where
  "noPing = \<lparr>pingPacketSequence = 0, pingPath = noPath, pingSentAt = 0\<rparr>"

record pathProbe =
  probePath :: Path
  probeStartedAt :: time
  probePing :: pendingPing

record Session =
  ciphers :: "SessionCiphers option"
  helloPrivateKey :: key32
  localHello :: SessionHello
  localHelloPacket :: bytes
  remoteHello :: SessionHello
  path :: Path
  candidatePath :: "pathProbe option"
  authenticated :: bool
  everAuthenticated :: bool
  packetFlow :: sessionPacketFlow
  reliable :: "reliableTransport option"
  lastAuthenticatedPacketAt :: time
  rttMillis :: int
  sessionPing :: pendingPing
  lastTopologyAt :: time
  topologySentRevision :: uint64
  memberStateSentRevision :: uint64
  screenStateSentRevision :: uint64
  inboundFanout :: "PeerID list option"

definition noHello :: SessionHello where
  "noHello = \<lparr>helloSessionID = 0, helloPeerID = 0, EphemeralKey = 0, wire = []\<rparr>"

text \<open>A session as it is created: nothing received, nothing sent.\<close>

definition blankSession :: "key32 \<Rightarrow> SessionHello \<Rightarrow> bytes \<Rightarrow> Path \<Rightarrow> time \<Rightarrow> Session" where
  "blankSession privateKey hello packet p now =
     \<lparr>ciphers = None, helloPrivateKey = privateKey, localHello = hello, localHelloPacket = packet,
      remoteHello = noHello, path = p, candidatePath = None, authenticated = False, everAuthenticated = False,
      packetFlow = empty_flow, reliable = None, lastAuthenticatedPacketAt = now, rttMillis = 0,
      sessionPing = noPing, lastTopologyAt = 0, topologySentRevision = 0, memberStateSentRevision = 0,
      screenStateSentRevision = 0, inboundFanout = None\<rparr>"

definition sessionId :: "Session \<Rightarrow> id16" where
  "sessionId session = helloSessionID (localHello session)"

text \<open>The parameters of session creation: the primitives, and what the random source gives.\<close>

record entropy =
  randomSessionID :: "id16 result"
  randomPrivateKey :: "key32 result"

record environment =
  mac :: "key32 \<Rightarrow> bytes \<Rightarrow> bytes"
  crypto :: "key32 crypto"

definition sendCipher :: "Session \<Rightarrow> aead option" where
  "sendCipher session = map_option Send (ciphers session)"

definition receiveCipher :: "Session \<Rightarrow> aead option" where
  "receiveCipher session = map_option Receive (ciphers session)"

definition sessionReady :: "Session \<Rightarrow> bool" where
  "sessionReady session \<longleftrightarrow> sendCipher session \<noteq> None \<and> receiveCipher session \<noteq> None"

definition completeSessionHello :: "environment \<Rightarrow> Session \<Rightarrow> SessionHello \<Rightarrow> Session result" where
  "completeSessionHello E session hello =
     (case DeriveSession (crypto E) (Some (helloPrivateKey session)) (localHello session) hello of
        Inl err \<Rightarrow> Inl err
      | Inr cs \<Rightarrow> Inr (session\<lparr>remoteHello := hello, ciphers := Some cs, reliable := Some newReliableTransport\<rparr>))"

definition matchesRemoteHello :: "Session \<Rightarrow> SessionHello \<Rightarrow> bool" where
  "matchesRemoteHello session hello \<longleftrightarrow>
     helloSessionID (remoteHello session) = helloSessionID hello \<and>
     helloPeerID (remoteHello session) = helloPeerID hello \<and>
     EphemeralKey (remoteHello session) = EphemeralKey hello"

definition candidateProbe :: "Session \<Rightarrow> Path \<Rightarrow> pathProbe option" where
  "candidateProbe session p =
     (case candidatePath session of
        None \<Rightarrow> None
      | Some probe \<Rightarrow> if SameRoute (probePath probe) p then Some probe else None)"

definition acceptsPath :: "Session \<Rightarrow> Path \<Rightarrow> bool" where
  "acceptsPath session p \<longleftrightarrow> SameRoute (path session) p \<or> candidateProbe session p \<noteq> None"

definition acceptsDataPath :: "Session \<Rightarrow> Path \<Rightarrow> bool" where
  "acceptsDataPath session p \<longleftrightarrow> authenticated session \<and> SameRoute (path session) p"

definition clearCandidatePath :: "Session \<Rightarrow> Session" where
  "clearCandidatePath session = session\<lparr>candidatePath := None\<rparr>"

section \<open>The client\<close>

record RemotePeer =
  remotePeerID :: PeerID
  activeSession :: "Session option"
  pendingSession :: "Session option"
  peerMemberState :: memberState
  peerScreenState :: screenState

datatype Source = SourceLocal | SourceMDNS | SourceTracker | SourceTopology | SourceHistoricalRemote | SourceOther string

record discoveredAddress =
  source :: Source
  daLastSeen :: time
  expiresAt :: time
  nextProbe :: time
  probeInterval :: duration

text \<open>An own address of the endpoint: its kind and its address, \<open>None\<close> when the text does not parse.\<close>

datatype CandidateType = CandidateNIC | CandidateSTUN | CandidatePortMapped

record endpointSnapshot =
  ListenAddress :: "AddrPort option"
  Candidates :: "(CandidateType \<times> AddrPort option) list"

datatype roomDatagramStreamKey = RoomStream (streamSender: PeerID) (streamID: id16) (streamType: byte)

record roomDatagramReceiveState =
  rdWindow :: sequenceWindow
  rdLastSeen :: time

record screenVideoAssembly =
  svMetadata :: screenVideoMetadata
  svFragmentCount :: uint16
  svTotalSize :: uint32
  svFragments :: "(uint16 \<times> bytes) list"
  svVideoBytes :: int
  svRetainedBytes :: int
  svStartedAt :: time

record screenVideoReceiveState =
  newestChunkID :: uint32
  deliveredChunkID :: uint32
  assemblies :: "(uint32 \<times> screenVideoAssembly) list"
  forwardPackets :: "bytes list"
  forwardDeadline :: time

record ScreenVideoChunk =
  vcPeerID :: PeerID
  vcStreamID :: id16
  vcChunkID :: uint32
  vcCodec :: string
  vcWidth :: uint16
  vcHeight :: uint16
  vcMetadata :: screenVideoMetadata
  vcBytes :: bytes

datatype fileDirection = Outgoing | Incoming

datatype fileStatus =
    Preparing | Offered | Accepting | Transferring | Waiting | Completed | Rejected | Canceled | Failed

text \<open>An open file is a number; the hasher is the bytes it has been given.\<close>

record fileTransfer =
  ftId :: id16
  ftPeerID :: PeerID
  ftSessionID :: id16
  direction :: fileDirection
  ftName :: bytes
  ftPath :: bytes
  status :: fileStatus
  ftSize :: uint64
  transferred :: uint64
  digest :: key32
  errorText :: string
  updatedAt :: time
  ftFile :: "nat option"
  hasher :: "bytes option"
  working :: bool
  cancelWork :: bool

text \<open>Work handed to a goroutine: what it is for and what it reads or writes.\<close>

datatype fileWork =
    WorkOffer id16 bytes
  | WorkCreate id16 bytes
  | WorkRead id16 bytes uint64 nat
  | WorkWrite id16 "nat option" bytes uint64
  | WorkFinish id16 "nat option"
  | WorkClosePartial nat bytes

datatype submission =
    EnqueueControl bytes AddrPort
  | EnqueueLowPriority bytes AddrPort
  | WriteControl bytes AddrPort
  | SendRealtimeBatch "(bytes \<times> AddrPort) list" time uint64

text \<open>What the user interface is shown.  The expiry of a hint stays a time; the code formats it.\<close>

record RemotePeerSnapshot =
  rsPeerID :: PeerID
  rsAddress :: string
  rsSessionID :: string
  rsRTTMillis :: int
  rsTransport :: string
  rsConnected :: bool
  rsNickname :: bytes
  rsMuted :: bool
  rsPlaybackMuted :: bool
  rsScreenSharing :: bool
  rsScreenStreamID :: string

record FileTransferSnapshot =
  tsID :: string
  tsPeerID :: PeerID
  tsDirection :: fileDirection
  tsName :: bytes
  tsPath :: bytes
  tsStatus :: fileStatus
  tsSize :: uint64
  tsTransferred :: uint64
  tsSHA256 :: string
  tsError :: string

record DiscoveryHintSnapshot =
  hsAddress :: string
  hsSource :: Source
  hsExpiresAt :: time

record ClientSnapshot =
  snapshotName :: bytes
  ScreenSharing :: bool
  RemotePeers :: "RemotePeerSnapshot list"
  Transfers :: "FileTransferSnapshot list"
  DiscoveryHints :: "DiscoveryHintSnapshot list"

type_synonym networkLog = "(submission \<times> bool) list"

record RoomNetwork =
  admits :: "networkLog \<Rightarrow> submission \<Rightarrow> bool"
  liveSnapshot :: endpointSnapshot

record Client =
  localPeerID :: PeerID
  roomName :: bytes
  admissionKey :: key32
  helloProbePacket :: bytes
  networkSnapshot :: endpointSnapshot
  roomNetwork :: "RoomNetwork option"
  netLog :: networkLog
  snapshot :: ClientSnapshot
  stateChanges :: bool
  desiredMemberState :: memberState
  memberStateUpdates :: bool
  discoveredAddresses :: "(AddrPort \<times> discoveredAddress) list"
  remotePeers :: "(PeerID \<times> RemotePeer) list"
  topologyRevision :: uint64
  topology :: "(PeerID \<times> topologyPeer) list"
  roomDatagramProtector :: "aead option"
  voicePacketSequence :: uint64
  roomDatagramReceivers :: "(roomDatagramStreamKey \<times> roomDatagramReceiveState) list"
  screenVideoReceivers :: "(roomDatagramStreamKey \<times> screenVideoReceiveState) list"
  screenVideoRetainedBytes :: int
  screenVideoChunks :: "ScreenVideoChunk list"
  fanout :: outboundFanout
  fanoutDirty :: bool
  reliablePeerCursor :: PeerID
  localMemberState :: memberState
  localScreenState :: screenState
  screenPacketSequence :: uint64
  screenVideoChunkID :: uint32
  fileTransfers :: "(id16 \<times> fileTransfer) list"
  fileWorks :: "fileWork list"

definition blankClient :: "PeerID \<Rightarrow> bytes \<Rightarrow> key32 \<Rightarrow> aead option \<Rightarrow> Client" where
  "blankClient peerID name key protector =
     \<lparr>localPeerID = peerID, roomName = name, admissionKey = key, helloProbePacket = [],
      networkSnapshot = \<lparr>ListenAddress = None, Candidates = []\<rparr>, roomNetwork = None, netLog = [],
      snapshot = \<lparr>snapshotName = name, ScreenSharing = False, RemotePeers = [], Transfers = [], DiscoveryHints = []\<rparr>,
      stateChanges = False, desiredMemberState = emptyMemberState, memberStateUpdates = False,
      discoveredAddresses = [], remotePeers = [], topologyRevision = 1, topology = [],
      roomDatagramProtector = protector, voicePacketSequence = 0, roomDatagramReceivers = [],
      screenVideoReceivers = [], screenVideoRetainedBytes = 0, screenVideoChunks = [],
      fanout = \<lparr>activateAt = 0, destinations = [], assignments = []\<rparr>, fanoutDirty = True,
      reliablePeerCursor = 0, localMemberState = emptyMemberState\<lparr>msRevision := 1\<rparr>,
      localScreenState = emptyScreenState\<lparr>ssRevision := 1\<rparr>, screenPacketSequence = 0,
      screenVideoChunkID = 0, fileTransfers = [], fileWorks = []\<rparr>"

definition NewClient :: "PeerID result \<Rightarrow> bytes \<Rightarrow> key32 \<Rightarrow> aead option \<Rightarrow> Client result" where
  "NewClient newID name key protector =
     (case newID of Inl err \<Rightarrow> Inl err | Inr peerID \<Rightarrow> Inr (blankClient peerID name key protector))"

definition initHelloProbe :: "environment \<Rightarrow> Client \<Rightarrow> unit result \<times> Client" where
  "initHelloProbe E c =
     (case MarshalHelloProbe (mac E) (admissionKey c) (localPeerID c) of
        Inl err \<Rightarrow> (Inl err, c)
      | Inr packet \<Rightarrow> (Inr (), c\<lparr>helloProbePacket := packet\<rparr>))"

end
