(* ===== verification/PeerLinks.thy ===== *)
theory PeerLinks
  imports PeerState
begin

text \<open>
  Operations that every part of the client uses: finding and updating peers, publishing the state
  (\<open>client.go\<close>), and sending over a direct or bridged path (\<open>bridge.go\<close>, \<open>fanout.go\<close>).
\<close>

section \<open>Peers and sessions\<close>

definition peerOf :: "Client \<Rightarrow> PeerID \<Rightarrow> RemotePeer option" where
  "peerOf c peerID = map_of (remotePeers c) peerID"

definition activeOf :: "Client \<Rightarrow> PeerID \<Rightarrow> Session option" where
  "activeOf c peerID = Option.bind (peerOf c peerID) activeSession"

definition pendingOf :: "Client \<Rightarrow> PeerID \<Rightarrow> Session option" where
  "pendingOf c peerID = Option.bind (peerOf c peerID) pendingSession"

definition sessionOf :: "Client \<Rightarrow> PeerID \<Rightarrow> bool \<Rightarrow> Session option" where
  "sessionOf c peerID pending = (if pending then pendingOf c peerID else activeOf c peerID)"

text \<open>\<open>activeSession != nil && activeSession.authenticated\<close>, and the same with a direct path.\<close>

fun authenticatedSession :: "Session option \<Rightarrow> bool" where
  "authenticatedSession None = False"
| "authenticatedSession (Some session) = authenticated session"

fun directSession :: "Session option \<Rightarrow> bool" where
  "directSession None = False"
| "directSession (Some session) \<longleftrightarrow> authenticated session \<and> IsDirect (path session)"

definition putPeer :: "Client \<Rightarrow> PeerID \<Rightarrow> RemotePeer \<Rightarrow> Client" where
  "putPeer c peerID peer = c\<lparr>remotePeers := AList.update peerID peer (remotePeers c)\<rparr>"

definition updPeer :: "Client \<Rightarrow> PeerID \<Rightarrow> (RemotePeer \<Rightarrow> RemotePeer) \<Rightarrow> Client" where
  "updPeer c peerID f = c\<lparr>remotePeers := AList.map_entry peerID f (remotePeers c)\<rparr>"

definition onSession :: "bool \<Rightarrow> (Session \<Rightarrow> Session) \<Rightarrow> RemotePeer \<Rightarrow> RemotePeer" where
  "onSession pending f peer =
     (if pending then peer\<lparr>pendingSession := map_option f (pendingSession peer)\<rparr>
      else peer\<lparr>activeSession := map_option f (activeSession peer)\<rparr>)"

definition updSession :: "Client \<Rightarrow> PeerID \<Rightarrow> bool \<Rightarrow> (Session \<Rightarrow> Session) \<Rightarrow> Client" where
  "updSession c peerID pending f = updPeer c peerID (onSession pending f)"

definition authenticatedRemotePeerCount :: "Client \<Rightarrow> nat" where
  "authenticatedRemotePeerCount c =
     length (filter (\<lambda>(peerID, peer). authenticatedSession (activeSession peer)) (remotePeers c))"

section \<open>Publishing\<close>

definition remotePeerSnapshot :: "RemotePeer \<Rightarrow> Session \<Rightarrow> RemotePeerSnapshot" where
  "remotePeerSnapshot peer session =
     \<lparr>rsPeerID = remotePeerID peer, rsAddress = apString (pathAddress (path session)),
      rsSessionID = hexBytes (put_be 16 (sessionId session)), rsRTTMillis = rttMillis session,
      rsTransport = (if IsDirect (path session) then ''direct'' else ''bridge''),
      rsConnected = authenticated session, rsNickname = nickname (peerMemberState peer),
      rsMuted = muted (peerMemberState peer), rsPlaybackMuted = playbackMuted (peerMemberState peer),
      rsScreenSharing = active (peerScreenState peer),
      rsScreenStreamID = hexBytes (put_be 16 (ssStreamID (peerScreenState peer)))\<rparr>"

definition remotePeerSnapshots :: "Client \<Rightarrow> RemotePeerSnapshot list" where
  "remotePeerSnapshots c =
     sort_key rsPeerID (List.map_filter (\<lambda>(peerID, peer).
       case activeSession peer of
         None \<Rightarrow> None
       | Some session \<Rightarrow> if everAuthenticated session then Some (remotePeerSnapshot peer session) else None)
       (remotePeers c))"

definition fileTransferSnapshots :: "Client \<Rightarrow> FileTransferSnapshot list" where
  "fileTransferSnapshots c =
     sort_key tsID (map (\<lambda>(ident, t).
       \<lparr>tsID = hexBytes (put_be 16 (ftId t)), tsPeerID = ftPeerID t, tsDirection = direction t, tsName = ftName t,
        tsPath = ftPath t, tsStatus = status t, tsSize = ftSize t, tsTransferred = transferred t,
        tsSHA256 = hexBytes (put_be 32 (digest t)), tsError = errorText t\<rparr>) (fileTransfers c))"

fun sourceName :: "Source \<Rightarrow> string" where
  "sourceName SourceLocal = ''local''"
| "sourceName SourceMDNS = ''mdns''"
| "sourceName SourceTracker = ''tracker''"
| "sourceName SourceTopology = ''topology''"
| "sourceName SourceHistoricalRemote = ''historical-remote''"
| "sourceName (SourceOther name) = name"

definition connectivitySnapshot :: "Client \<Rightarrow> DiscoveryHintSnapshot list" where
  "connectivitySnapshot c =
     sort_key (\<lambda>hint. sourceName (hsSource hint)) (sort_key hsAddress
       (map (\<lambda>(address, remembered). \<lparr>hsAddress = apString address, hsSource = source remembered,
          hsExpiresAt = expiresAt remembered\<rparr>) (discoveredAddresses c)))"

definition refreshSnapshotLocked :: "Client \<Rightarrow> Client" where
  "refreshSnapshotLocked c = c\<lparr>snapshot :=
     \<lparr>snapshotName = roomName c, ScreenSharing = active (localScreenState c), RemotePeers = remotePeerSnapshots c,
      Transfers = fileTransferSnapshots c, DiscoveryHints = connectivitySnapshot c\<rparr>\<rparr>"

definition publishStateChange :: "Client \<Rightarrow> Client" where
  "publishStateChange c = (refreshSnapshotLocked c)\<lparr>stateChanges := True\<rparr>"

definition markTopologyDirty :: "Client \<Rightarrow> Client" where
  "markTopologyDirty c = c\<lparr>topologyRevision := topologyRevision c + 1\<rparr>"

definition markPeerGraphDirty :: "Client \<Rightarrow> bool \<Rightarrow> Client" where
  "markPeerGraphDirty c topologyChanged =
     (let c = c\<lparr>fanoutDirty := True\<rparr> in if topologyChanged then markTopologyDirty c else c)"

definition applyNetworkSnapshot :: "Client \<Rightarrow> endpointSnapshot \<Rightarrow> Client" where
  "applyNetworkSnapshot c shot =
     (let c = (if Candidates (networkSnapshot c) \<noteq> Candidates shot then markTopologyDirty c else c)
      in (refreshSnapshotLocked (c\<lparr>networkSnapshot := shot\<rparr>))\<lparr>stateChanges := True\<rparr>)"

section \<open>Sending over a path\<close>

definition submit :: "Client \<Rightarrow> submission \<Rightarrow> bool \<times> Client" where
  "submit c s =
     (case roomNetwork c of
        None \<Rightarrow> (False, c)
      | Some network \<Rightarrow>
          let taken = admits network (netLog c) s in (taken, c\<lparr>netLog := netLog c @ [(s, taken)]\<rparr>))"

definition submitResult :: "Client \<Rightarrow> submission \<Rightarrow> unit result \<times> Client" where
  "submitResult c s = (case submit c s of (taken, c) \<Rightarrow> (if taken then Inr () else fail ''network queue is full'', c))"

definition bridgePacket ::
  "Client \<Rightarrow> Path \<Rightarrow> bytes \<Rightarrow> bool \<Rightarrow> (bytes \<times> AddrPort) result \<times> Client" where
  "bridgePacket c p inner lowPriority =
     (let origin = localPeerID c
      in if IsZero origin \<or> IsZero (pathTarget p) \<or> pathTarget p = origin \<or> pathIntermediary p = origin
         then (fail ''bridge path endpoints are invalid'', c)
         else if \<not> directSession (activeOf c (pathIntermediary p))
         then (fail ''bridge intermediary is unavailable'', c)
         else
           let adjacent = the (activeOf c (pathIntermediary p));
               (sequence, flow) = nextSendSequence (packetFlow adjacent);
               c = updSession c (pathIntermediary p) False (\<lambda>session. session\<lparr>packetFlow := flow\<rparr>)
           in case sequence of
                Inl err \<Rightarrow> (Inl err, c)
              | Inr sequence \<Rightarrow>
                  (case MarshalBridge (sessionId adjacent) sequence (pathTarget p) lowPriority inner (sendCipher adjacent) of
                     Inl err \<Rightarrow> (Inl err, c)
                   | Inr packet \<Rightarrow> (Inr (packet, pathAddress (path adjacent)), c)))"

definition sendPacketOnPath :: "Client \<Rightarrow> Path \<Rightarrow> bytes \<Rightarrow> bool \<Rightarrow> unit result \<times> Client" where
  "sendPacketOnPath c p inner lowPriority =
     (if roomNetwork c = None \<or> \<not> pathIsValid p then (fail ''network path is unavailable'', c)
      else if IsDirect p then
        submitResult c (if lowPriority then EnqueueLowPriority inner (pathAddress p) else EnqueueControl inner (pathAddress p))
      else case bridgePacket c p inner lowPriority of
        (Inl err, c) \<Rightarrow> (Inl err, c)
      | (Inr (packet, destination), c) \<Rightarrow>
          submitResult c (if lowPriority then EnqueueLowPriority packet destination else EnqueueControl packet destination))"

definition sendPeerPacketOnPath :: "Client \<Rightarrow> Path \<Rightarrow> bytes \<Rightarrow> unit result \<times> Client" where
  "sendPeerPacketOnPath c p inner = sendPacketOnPath c p inner False"

definition writeControlOnPath :: "Client \<Rightarrow> Path \<Rightarrow> bytes \<Rightarrow> unit result \<times> Client" where
  "writeControlOnPath c p inner =
     (if roomNetwork c = None \<or> \<not> pathIsValid p then (fail ''network path is unavailable'', c)
      else if IsDirect p then submitResult c (WriteControl inner (pathAddress p))
      else case bridgePacket c p inner False of
        (Inl err, c) \<Rightarrow> (Inl err, c)
      | (Inr (packet, destination), c) \<Rightarrow> submitResult c (WriteControl packet destination))"

definition forwardBridgePacket :: "Client \<Rightarrow> BridgePacket \<Rightarrow> Client" where
  "forwardBridgePacket c decoded =
     (if \<not> directSession (activeOf c (Target decoded)) \<or> roomNetwork c = None then c
      else
        let adjacent = the (activeOf c (Target decoded));
            (sequence, flow) = nextSendSequence (packetFlow adjacent);
            c = updSession c (Target decoded) False (\<lambda>session. session\<lparr>packetFlow := flow\<rparr>)
        in case sequence of
             Inl err \<Rightarrow> c
           | Inr sequence \<Rightarrow>
               (case MarshalBridge (sessionId adjacent) sequence (Target decoded) (LowPriority decoded) (Inner decoded)
                   (sendCipher adjacent) of
                  Inl err \<Rightarrow> c
                | Inr packet \<Rightarrow>
                    snd (submit c (if LowPriority decoded then EnqueueLowPriority packet (pathAddress (path adjacent))
                      else EnqueueControl packet (pathAddress (path adjacent))))))"

definition MaxRealtimeBatchDatagrams :: nat where [simp]: "MaxRealtimeBatchDatagrams = 256"

text \<open>The loop over the datagrams: a full batch is submitted at once, the rest at the end.\<close>

fun batchLoop ::
  "time \<Rightarrow> uint64 \<Rightarrow> (bytes \<times> AddrPort) list \<Rightarrow> (bytes \<times> AddrPort) list \<Rightarrow> bool \<Rightarrow> Client \<Rightarrow> bool \<times> Client" where
  "batchLoop deadline generation [] batch anyTaken c =
     (if batch = [] then (anyTaken, c)
      else case submit c (SendRealtimeBatch batch deadline generation) of (taken, c) \<Rightarrow> (taken \<or> anyTaken, c))"
| "batchLoop deadline generation (datagram # rest) batch anyTaken c =
     (let batch = batch @ [datagram]
      in if length batch = MaxRealtimeBatchDatagrams
         then (case submit c (SendRealtimeBatch batch deadline generation) of
             (taken, c) \<Rightarrow> batchLoop deadline generation rest [] (taken \<or> anyTaken) c)
         else batchLoop deadline generation rest batch anyTaken c)"

definition sendRealtimePacketsToPeers ::
  "Client \<Rightarrow> bytes list \<Rightarrow> PeerID list \<Rightarrow> time \<Rightarrow> uint64 \<Rightarrow> bool \<times> Client" where
  "sendRealtimePacketsToPeers c packets peerIDs deadline generation =
     (if roomNetwork c = None \<or> packets = [] then (False, c)
      else
        let datagrams = concat (map (\<lambda>peerID.
              if directSession (activeOf c peerID)
              then map (\<lambda>packet. (packet, pathAddress (path (the (activeOf c peerID))))) packets
              else []) peerIDs)
        in batchLoop deadline generation datagrams [] False c)"

definition sendRealtimeToPeers :: "Client \<Rightarrow> bytes \<Rightarrow> PeerID list \<Rightarrow> time \<Rightarrow> uint64 \<Rightarrow> Client" where
  "sendRealtimeToPeers c packet peerIDs deadline generation =
     snd (sendRealtimePacketsToPeers c [packet] peerIDs deadline generation)"

end
