(* ===== verification/PeerDiscovery.thy ===== *)
theory PeerDiscovery
  imports PeerLinks
begin

text \<open>
  Remembered addresses and probing them: the discovery part of \<open>internal/peer/client_loop.go\<close>, with the
  choice between a session's path and a candidate.
\<close>

definition discoveryProbeInterval :: duration where [simp]: "discoveryProbeInterval = 2 * Second"
definition maxDiscoveryProbeInterval :: duration where [simp]: "maxDiscoveryProbeInterval = 8 * Second"
definition pathFailoverTimeout :: duration where [simp]: "pathFailoverTimeout = 2500 * Millisecond"
definition maxDiscoveryHints :: nat where [simp]: "maxDiscoveryHints = 2048"
definition topologyHintTTL :: duration where [simp]: "topologyHintTTL = 30 * Second"
definition likeForLikeMargin :: int where [simp]: "likeForLikeMargin = 5"
definition topologyClaimTTL :: duration where [simp]: "topologyClaimTTL = 30 * Second"
definition knownPeerTTL :: duration where [simp]: "knownPeerTTL = 2 * topologyClaimTTL"

record Hint =
  hintAddress :: AddrPort
  hintSource :: Source
  hintExpiresAt :: time

section \<open>Addresses\<close>

definition normalizeDiscoveryAddress :: "AddrPort \<Rightarrow> AddrPort option" where
  "normalizeDiscoveryAddress address =
     (if \<not> apIsValid address \<or> apPort address = 0 then None
      else
        let peerAddress = Unmap (apAddr address)
        in if IsUnspecified peerAddress \<or> IsMulticast peerAddress \<or>
              (IsLinkLocalUnicast peerAddress \<and> Zone peerAddress = '''')
           then None
           else Some (AddrPortFrom peerAddress (apPort address)))"

definition validDiscoverySource :: "Source \<Rightarrow> bool" where
  "validDiscoverySource s \<longleftrightarrow> s \<in> {SourceLocal, SourceMDNS, SourceTracker, SourceTopology, SourceHistoricalRemote}"

definition discoveryExpired :: "time \<Rightarrow> time \<Rightarrow> bool" where
  "discoveryExpired expiry now \<longleftrightarrow> expiry \<noteq> 0 \<and> \<not> now < expiry"

definition endpointHasAddress :: "endpointSnapshot \<Rightarrow> AddrPort \<Rightarrow> bool" where
  "endpointHasAddress shot address \<longleftrightarrow>
     Option.bind (ListenAddress shot) normalizeDiscoveryAddress = Some address \<or>
     list_ex (\<lambda>(kind, local). Option.bind local normalizeDiscoveryAddress = Some address) (Candidates shot)"

definition isSelfAddress :: "Client \<Rightarrow> AddrPort \<Rightarrow> bool" where
  "isSelfAddress c address \<longleftrightarrow>
     endpointHasAddress (networkSnapshot c) address \<or>
     (case roomNetwork c of None \<Rightarrow> False | Some network \<Rightarrow> endpointHasAddress (liveSnapshot network) address)"

definition usableTopologyAddress :: "AddrPort \<Rightarrow> AddrPort \<Rightarrow> bool" where
  "usableTopologyAddress address origin =
     (case normalizeDiscoveryAddress address of
        None \<Rightarrow> False
      | Some address \<Rightarrow>
          let ip = Unmap (apAddr address)
          in if IsLoopback ip \<or> IsLinkLocalUnicast ip \<or> IsMulticast ip \<or> IsUnspecified ip then False
             else \<not> IsPrivate ip \<or> IsPrivate (Unmap (apAddr origin)))"

definition sessionAddresses :: "Session option \<Rightarrow> AddrPort list" where
  "sessionAddresses session =
     (case session of
        None \<Rightarrow> []
      | Some session \<Rightarrow> pathAddress (path session) #
          (case candidatePath session of None \<Rightarrow> [] | Some probe \<Rightarrow> [pathAddress (probePath probe)]))"

definition addressInUse :: "Client \<Rightarrow> AddrPort \<Rightarrow> bool" where
  "addressInUse c address \<longleftrightarrow>
     list_ex (\<lambda>(peerID, peer). address \<in> set (sessionAddresses (activeSession peer)) \<or>
       address \<in> set (sessionAddresses (pendingSession peer))) (remotePeers c)"

definition addressHasSessionPath :: "Client \<Rightarrow> AddrPort \<Rightarrow> bool" where
  "addressHasSessionPath c address \<longleftrightarrow>
     list_ex (\<lambda>(peerID, peer).
       (case activeSession peer of
          None \<Rightarrow> False
        | Some session \<Rightarrow> (authenticated session \<and> pathAddress (path session) = address) \<or>
            (case candidatePath session of None \<Rightarrow> False | Some probe \<Rightarrow> pathAddress (probePath probe) = address)) \<or>
       address \<in> set (sessionAddresses (pendingSession peer))) (remotePeers c)"

section \<open>Remembering a hint\<close>

definition evictionRank :: "Client \<Rightarrow> time \<Rightarrow> AddrPort \<Rightarrow> discoveredAddress \<Rightarrow> nat" where
  "evictionRank c now address remembered =
     (let inUse = addressInUse c address
      in if discoveryExpired (expiresAt remembered) now then 0
         else if \<not> inUse \<and> (source remembered = SourceTracker \<or> source remembered = SourceTopology) then 1
         else if \<not> inUse \<and> source remembered \<noteq> SourceHistoricalRemote then 2
         else if \<not> inUse then 3
         else if source remembered \<noteq> SourceHistoricalRemote then 4
         else 5)"

definition maximumRank :: "Source \<Rightarrow> nat" where
  "maximumRank incoming =
     (if incoming = SourceLocal \<or> incoming = SourceMDNS then 2
      else if incoming = SourceHistoricalRemote then 5
      else 1)"

fun evictionLoop ::
  "Client \<Rightarrow> time \<Rightarrow> nat \<Rightarrow> (AddrPort \<times> discoveredAddress) list \<Rightarrow> (AddrPort \<times> nat \<times> time) option \<Rightarrow>
     (AddrPort \<times> nat \<times> time) option" where
  "evictionLoop c now maxRank [] selected = selected"
| "evictionLoop c now maxRank ((address, remembered) # rest) selected =
     (let rank = evictionRank c now address remembered
      in evictionLoop c now maxRank rest
           (if rank > maxRank then selected
            else case selected of
              None \<Rightarrow> Some (address, rank, daLastSeen remembered)
            | Some (best, bestRank, bestAt) \<Rightarrow>
                if rank < bestRank \<or> (rank = bestRank \<and> (daLastSeen remembered < bestAt \<or>
                     (daLastSeen remembered = bestAt \<and> apString address < apString best)))
                then Some (address, rank, daLastSeen remembered) else selected))"

definition discoveryEvictionCandidate :: "Client \<Rightarrow> time \<Rightarrow> Source \<Rightarrow> AddrPort option" where
  "discoveryEvictionCandidate c now incoming =
     map_option fst (evictionLoop c now (maximumRank incoming) (discoveredAddresses c) None)"

definition newDiscovered :: "Hint \<Rightarrow> time \<Rightarrow> discoveredAddress" where
  "newDiscovered hint now = \<lparr>source = hintSource hint, daLastSeen = now, expiresAt = hintExpiresAt hint,
     nextProbe = now + discoveryProbeInterval, probeInterval = discoveryProbeInterval\<rparr>"

definition insertHint :: "Client \<Rightarrow> AddrPort \<Rightarrow> Hint \<Rightarrow> time \<Rightarrow> (AddrPort \<times> bool \<times> bool) \<times> Client" where
  "insertHint c address hint now =
     (let full = length (discoveredAddresses c) \<ge> maxDiscoveryHints;
          victim = (if full then discoveryEvictionCandidate c now (hintSource hint) else None)
      in if full \<and> victim = None then ((noAddress, False, False), c)
         else
           let known = (case victim of None \<Rightarrow> discoveredAddresses c | Some v \<Rightarrow> AList.delete v (discoveredAddresses c))
           in ((address, True, True), c\<lparr>discoveredAddresses := AList.update address (newDiscovered hint now) known\<rparr>))"

definition refreshHint :: "discoveredAddress \<Rightarrow> Hint \<Rightarrow> time \<Rightarrow> discoveredAddress" where
  "refreshHint remembered hint now =
     (let remembered' = remembered\<lparr>daLastSeen := now\<rparr>
      in if hintExpiresAt hint = 0 \<or> (expiresAt remembered \<noteq> 0 \<and>
            (hintSource hint = SourceHistoricalRemote \<or> source remembered \<noteq> SourceHistoricalRemote))
         then remembered'\<lparr>source := hintSource hint, expiresAt := hintExpiresAt hint\<rparr> else remembered')"

definition refusesHint :: "Client \<Rightarrow> Hint \<Rightarrow> time \<Rightarrow> AddrPort \<Rightarrow> bool" where
  "refusesHint c hint now address \<longleftrightarrow>
     \<not> validDiscoverySource (hintSource hint) \<or> discoveryExpired (hintExpiresAt hint) now \<or>
     (hintSource hint \<in> {SourceTracker, SourceTopology, SourceHistoricalRemote} \<and> hintExpiresAt hint = 0) \<or>
     isSelfAddress c address"

text \<open>The results are the address, \<open>added\<close> and \<open>changed\<close>.\<close>

definition rememberDiscoveryHint :: "Client \<Rightarrow> Hint \<Rightarrow> time \<Rightarrow> (AddrPort \<times> bool \<times> bool) \<times> Client" where
  "rememberDiscoveryHint c hint now =
     (case normalizeDiscoveryAddress (hintAddress hint) of
        None \<Rightarrow> ((noAddress, False, False), c)
      | Some address \<Rightarrow>
          if refusesHint c hint now address then ((noAddress, False, False), c)
          else case map_of (discoveredAddresses c) address of
            None \<Rightarrow> insertHint c address hint now
          | Some remembered \<Rightarrow>
              if discoveryExpired (expiresAt remembered) now
              then insertHint (c\<lparr>discoveredAddresses := AList.delete address (discoveredAddresses c)\<rparr>) address hint now
              else
                let remembered' = refreshHint remembered hint now
                in ((address, False, remembered' \<noteq> remembered),
                    c\<lparr>discoveredAddresses := AList.update address remembered' (discoveredAddresses c)\<rparr>))"

definition expireDiscoveryHints :: "Client \<Rightarrow> time \<Rightarrow> bool \<times> Client" where
  "expireDiscoveryHints c now =
     (list_ex (\<lambda>(address, remembered). discoveryExpired (expiresAt remembered) now) (discoveredAddresses c),
      c\<lparr>discoveredAddresses :=
         filter (\<lambda>(address, remembered). \<not> discoveryExpired (expiresAt remembered) now) (discoveredAddresses c)\<rparr>)"

definition rememberAuthenticatedPath :: "Client \<Rightarrow> Path \<Rightarrow> time \<Rightarrow> Client" where
  "rememberAuthenticatedPath c p now =
     (if IsDirect p then
        snd (rememberDiscoveryHint c \<lparr>hintAddress = pathAddress p, hintSource = SourceHistoricalRemote,
          hintExpiresAt = now + knownPeerTTL\<rparr> now)
      else c)"

section \<open>Probing\<close>

definition rememberCandidatePath :: "Session \<Rightarrow> Path \<Rightarrow> time \<Rightarrow> bool \<times> Session" where
  "rememberCandidatePath session p now =
     (if SameRoute (path session) p then (False, session)
      else
        let replace = session\<lparr>candidatePath := Some \<lparr>probePath = p, probeStartedAt = now, probePing = noPing\<rparr>\<rparr>
        in case candidatePath session of
             None \<Rightarrow> (True, replace)
           | Some probe \<Rightarrow>
               if SameRoute (probePath probe) p
               then (False, session\<lparr>candidatePath := Some (probe\<lparr>probePath := p\<rparr>)\<rparr>)
               else if IsDirect (probePath probe) \<and> \<not> IsDirect p then (False, session)
               else (True, replace))"

definition sendHelloProbeOnPath :: "Client \<Rightarrow> Path \<Rightarrow> Client" where
  "sendHelloProbeOnPath c p =
     (if helloProbePacket c = [] then c else snd (sendPeerPacketOnPath c p (helloProbePacket c)))"

definition sendHelloProbe :: "Client \<Rightarrow> AddrPort \<Rightarrow> Client" where
  "sendHelloProbe c destination =
     (case NewPath destination of Inl err \<Rightarrow> c | Inr p \<Rightarrow> sendHelloProbeOnPath c p)"

definition sendSessionHelloOnPath :: "Client \<Rightarrow> PeerID \<Rightarrow> bool \<Rightarrow> Path \<Rightarrow> time \<Rightarrow> Client" where
  "sendSessionHelloOnPath c peerID pending p now =
     (case sessionOf c peerID pending of
        None \<Rightarrow> c
      | Some session \<Rightarrow>
          if localHelloPacket session = [] then c
          else
            let c = updSession c peerID pending (\<lambda>s. snd (rememberCandidatePath s p now))
            in snd (sendPeerPacketOnPath c p (localHelloPacket session)))"

definition addDiscoveryHintAt :: "Client \<Rightarrow> Hint \<Rightarrow> time \<Rightarrow> Client" where
  "addDiscoveryHintAt c hint now =
     (case rememberDiscoveryHint c hint now of
        ((address, added, changed), c) \<Rightarrow>
          let c = (if added then sendHelloProbe c address else c)
          in if changed then publishStateChange c else c)"

definition nextDiscoveryProbeInterval :: "duration \<Rightarrow> duration" where
  "nextDiscoveryProbeInterval interval =
     (if interval < discoveryProbeInterval then discoveryProbeInterval
      else if interval \<ge> maxDiscoveryProbeInterval \<or> interval > maxDiscoveryProbeInterval div 2
      then maxDiscoveryProbeInterval
      else interval * 2)"

definition probeAddress :: "time \<Rightarrow> Client \<Rightarrow> AddrPort \<times> discoveredAddress \<Rightarrow> Client" where
  "probeAddress now c entry =
     (let (address, remembered) = entry
      in if discoveryExpired (expiresAt remembered) now \<or> addressHasSessionPath c address \<or> now < nextProbe remembered
         then c
         else
           let interval = nextDiscoveryProbeInterval (probeInterval remembered);
               remembered = remembered\<lparr>probeInterval := interval, nextProbe := now + interval\<rparr>
           in sendHelloProbe (c\<lparr>discoveredAddresses := AList.update address remembered (discoveredAddresses c)\<rparr>) address)"

definition sendDiscoveryProbes :: "Client \<Rightarrow> time \<Rightarrow> Client" where
  "sendDiscoveryProbes c now = foldl (probeAddress now) c (discoveredAddresses c)"

text \<open>Whether a candidate that answered replaces the session's path.\<close>

definition shouldPromotePath :: "Path \<Rightarrow> bool \<Rightarrow> int \<Rightarrow> time \<Rightarrow> time \<Rightarrow> Path \<Rightarrow> int \<Rightarrow> bool" where
  "shouldPromotePath current currentAuthenticated currentRTT currentLast now candidate candidateRTT =
     (if \<not> currentAuthenticated \<or> currentLast < now - pathFailoverTimeout then True
      else if IsDirect current \<and> \<not> IsDirect candidate then False
      else if \<not> IsDirect current \<and> IsDirect candidate then True
      else candidateRTT + likeForLikeMargin \<le> currentRTT)"

section \<open>The table of hints\<close>

definition hint_ok :: "AddrPort \<Rightarrow> discoveredAddress \<Rightarrow> bool" where
  "hint_ok address d \<longleftrightarrow>
     normalizeDiscoveryAddress address = Some address \<and> validDiscoverySource (source d) \<and>
     (source d \<in> {SourceTracker, SourceTopology, SourceHistoricalRemote} \<longrightarrow> expiresAt d \<noteq> 0) \<and>
     discoveryProbeInterval \<le> probeInterval d \<and> probeInterval d \<le> maxDiscoveryProbeInterval"

definition table_ok :: "(AddrPort \<times> discoveredAddress) list \<Rightarrow> bool" where
  "table_ok m \<longleftrightarrow> distinct (map fst m) \<and> length m \<le> maxDiscoveryHints \<and> (\<forall>(a, d) \<in> set m. hint_ok a d)"

definition hints_ok :: "Client \<Rightarrow> bool" where
  "hints_ok c \<longleftrightarrow> table_ok (discoveredAddresses c)"

lemma normalize_idem:
  "normalizeDiscoveryAddress address = Some a \<Longrightarrow> normalizeDiscoveryAddress a = Some a"
  by (auto simp: normalizeDiscoveryAddress_def Let_def apIsValid_def addrIsValid_def split: if_splits)

lemma set_delete: "set (AList.delete k m) \<subseteq> set m"
  by (auto simp: AList.delete_eq)

lemma table_ok_delete: "table_ok m \<Longrightarrow> table_ok (AList.delete k m)"
  using length_delete_le [of k m] set_delete [of k m]
  by (simp add: table_ok_def) (meson order_trans subsetD)

lemma length_update: "length (AList.update k v m) = (if map_of m k = None then Suc (length m) else length m)"
  by (induction m) (auto simp: map_of_eq_None_iff)

lemma set_update: "set (AList.update k v m) \<subseteq> insert (k, v) (set m)"
  by (induction m) auto

lemma table_ok_update:
  assumes "table_ok m" "hint_ok k v" "map_of m k \<noteq> None \<or> length m < 2048"
  shows "table_ok (AList.update k v m)"
  using assms set_update [of k v m] by (fastforce simp: table_ok_def length_update split: if_splits)

lemma evictionLoop_member:
  "evictionLoop c now maxRank m sel = Some (a, r, t) \<Longrightarrow>
     sel = Some (a, r, t) \<or> (\<exists>d. (a, d) \<in> set m \<and> r = evictionRank c now a d \<and> r \<le> maxRank)"
proof (induction c now maxRank m sel rule: evictionLoop.induct)
  case (2 c now maxRank address remembered rest selected)
  let ?r = "evictionRank c now address remembered"
  define sel' where "sel' = (if ?r > maxRank then selected
      else case selected of
        None \<Rightarrow> Some (address, ?r, daLastSeen remembered)
      | Some (best, bestRank, bestAt) \<Rightarrow>
          if ?r < bestRank \<or> (?r = bestRank \<and> (daLastSeen remembered < bestAt \<or>
               (daLastSeen remembered = bestAt \<and> apString address < apString best)))
          then Some (address, ?r, daLastSeen remembered) else selected)"
  have e: "evictionLoop c now maxRank rest sel' = Some (a, r, t)"
    using "2.prems" by (simp add: sel'_def Let_def)
  have "sel' = Some (a, r, t) \<or> (\<exists>d. (a, d) \<in> set rest \<and> r = evictionRank c now a d \<and> r \<le> maxRank)"
    using "2.IH" [OF refl, folded sel'_def] e by blast
  moreover have "sel' = selected \<or> (sel' = Some (address, ?r, daLastSeen remembered) \<and> ?r \<le> maxRank)"
    by (auto simp: sel'_def split: option.split prod.split)
  ultimately show ?case by auto
qed simp

lemma eviction_rank:
  assumes "discoveryEvictionCandidate c now incoming = Some v"
  shows "\<exists>d. (v, d) \<in> set (discoveredAddresses c) \<and> evictionRank c now v d \<le> maximumRank incoming"
  using assms evictionLoop_member [of c now "maximumRank incoming" "discoveredAddresses c" None]
  by (auto simp: discoveryEvictionCandidate_def)

lemma insertHint_entries:
  "discoveredAddresses (snd (insertHint c address hint now)) =
     (if length (discoveredAddresses c) \<ge> 2048 then
        (case discoveryEvictionCandidate c now (hintSource hint) of
           None \<Rightarrow> discoveredAddresses c
         | Some v \<Rightarrow> AList.update address (newDiscovered hint now) (AList.delete v (discoveredAddresses c)))
      else AList.update address (newDiscovered hint now) (discoveredAddresses c))"
  by (simp add: insertHint_def Let_def split: option.split)

lemma insertHint_table:
  assumes inv: "table_ok (discoveredAddresses c)" and new: "map_of (discoveredAddresses c) address = None"
    and hint: "hint_ok address (newDiscovered hint now)"
  shows "table_ok (discoveredAddresses (snd (insertHint c address hint now)))"
proof (cases "length (discoveredAddresses c) \<ge> 2048")
  case True
  show ?thesis
  proof (cases "discoveryEvictionCandidate c now (hintSource hint)")
    case None
    then show ?thesis using inv True by (simp add: insertHint_entries)
  next
    case (Some v)
    then obtain d where "(v, d) \<in> set (discoveredAddresses c)" using eviction_rank by blast
    then obtain d' where "map_of (discoveredAddresses c) v = Some d'" by (metis weak_map_of_SomeI)
    then have "length (AList.delete v (discoveredAddresses c)) < length (discoveredAddresses c)"
      by (rule length_delete_present)
    moreover have "length (discoveredAddresses c) \<le> 2048" using inv by (simp add: table_ok_def)
    ultimately have "length (AList.delete v (discoveredAddresses c)) < 2048" by simp
    then have "table_ok (AList.update address (newDiscovered hint now) (AList.delete v (discoveredAddresses c)))"
      by (intro table_ok_update table_ok_delete inv hint) simp
    with True Some show ?thesis by (simp add: insertHint_entries)
  qed
next
  case False
  then have "table_ok (AList.update address (newDiscovered hint now) (discoveredAddresses c))"
    by (intro table_ok_update inv hint) simp
  with False show ?thesis by (simp add: insertHint_entries)
qed

lemma hint_ok_new:
  assumes "normalizeDiscoveryAddress (hintAddress hint) = Some address" "\<not> refusesHint c hint now address"
  shows "hint_ok address (newDiscovered hint now)"
  using assms normalize_idem by (auto simp: hint_ok_def newDiscovered_def refusesHint_def)

lemma hint_ok_refresh:
  assumes "hint_ok address d" "\<not> refusesHint c hint now address"
  shows "hint_ok address (refreshHint d hint now)"
  using assms by (auto simp: hint_ok_def refreshHint_def refusesHint_def Let_def)

lemma hints_ok_remember:
  assumes inv: "hints_ok c"
  shows "hints_ok (snd (rememberDiscoveryHint c hint now))"
proof (cases "normalizeDiscoveryAddress (hintAddress hint)")
  case None
  then show ?thesis using inv by (simp add: rememberDiscoveryHint_def)
next
  case (Some a)
  note t = inv [unfolded hints_ok_def]
  show ?thesis
  proof (cases "refusesHint c hint now a")
    case True
    then show ?thesis using inv Some by (simp add: rememberDiscoveryHint_def)
  next
    case False
    show ?thesis
    proof (cases "map_of (discoveredAddresses c) a")
      case None
      then show ?thesis using insertHint_table [OF t None hint_ok_new [OF Some False]] Some False
        by (simp add: rememberDiscoveryHint_def hints_ok_def)
    next
      case (Some d)
      have d: "hint_ok a d" using t map_of_SomeD [OF Some] by (auto simp: table_ok_def)
      let ?c = "c\<lparr>discoveredAddresses := AList.delete a (discoveredAddresses c)\<rparr>"
      have "table_ok (discoveredAddresses (snd (insertHint ?c a hint now)))"
        by (rule insertHint_table)
          (use table_ok_delete [OF t] hint_ok_new [OF \<open>normalizeDiscoveryAddress (hintAddress hint) = Some a\<close> False] in simp_all)
      moreover have "table_ok (AList.update a (refreshHint d hint now) (discoveredAddresses c))"
        by (rule table_ok_update) (use t Some hint_ok_refresh [OF d False] in simp_all)
      ultimately show ?thesis
        using \<open>normalizeDiscoveryAddress (hintAddress hint) = Some a\<close> False Some
        by (simp add: rememberDiscoveryHint_def hints_ok_def Let_def)
    qed
  qed
qed

lemma nextDiscoveryProbeInterval_bounds:
  "discoveryProbeInterval \<le> nextDiscoveryProbeInterval i \<and> nextDiscoveryProbeInterval i \<le> maxDiscoveryProbeInterval"
  by (simp add: nextDiscoveryProbeInterval_def)

text \<open>What a hint of a tracker or of another peer's topology can never displace: an entry that is not expired
  and comes from this network, from an authenticated session, or whose address a session uses.\<close>

definition protected :: "Client \<Rightarrow> time \<Rightarrow> AddrPort \<Rightarrow> discoveredAddress \<Rightarrow> bool" where
  "protected c now a d \<longleftrightarrow> \<not> discoveryExpired (expiresAt d) now \<and>
     (source d \<notin> {SourceTracker, SourceTopology} \<or> addressInUse c a)"

lemma protected_rank: "protected c now a d \<Longrightarrow> evictionRank c now a d \<ge> 2"
  by (auto simp: protected_def evictionRank_def Let_def)

lemma insertHint_keeps:
  assumes inv: "table_ok (discoveredAddresses c)" and hint: "hintSource hint \<in> {SourceTracker, SourceTopology}"
    and d: "map_of (discoveredAddresses c) a = Some d" "protected c now a d" and ne: "a \<noteq> address"
  shows "map_of (discoveredAddresses (snd (insertHint c address hint now))) a = Some d"
proof (cases "discoveryEvictionCandidate c now (hintSource hint)")
  case None
  then show ?thesis using d ne by (simp add: insertHint_entries)
next
  case (Some v)
  then obtain d' where d': "(v, d') \<in> set (discoveredAddresses c)" "evictionRank c now v d' \<le> 1"
    using eviction_rank [OF Some] hint by (auto simp: maximumRank_def)
  have "v \<noteq> a"
  proof
    assume "v = a"
    with d' inv have "map_of (discoveredAddresses c) a = Some d'" by (simp add: table_ok_def)
    with d d' \<open>v = a\<close> protected_rank [of c now a d] show False by simp
  qed
  then show ?thesis using d ne Some by (simp add: insertHint_entries)
qed

text \<open>C11: Untrusted hints cannot displace trusted addresses: whatever a tracker or a topology message brings,
  an unexpired entry of local discovery or of an authenticated session, or one in use by a session, stays in
  the table, and keeps its source and expiry unless it was itself an expiring hint of lower standing.  The table keeps
  its bound of 2048 valid entries.\<close>

theorem untrusted_hints_cannot_evict:
  assumes "hints_ok c" "hintSource hint \<in> {SourceTracker, SourceTopology}"
    "map_of (discoveredAddresses c) a = Some d" "protected c now a d"
  shows "hints_ok (snd (rememberDiscoveryHint c hint now)) \<and>
    (\<exists>d'. map_of (discoveredAddresses (snd (rememberDiscoveryHint c hint now))) a = Some d' \<and>
      (expiresAt d = 0 \<or> source d = SourceHistoricalRemote \<longrightarrow> source d' = source d \<and> expiresAt d' = expiresAt d))"
proof (rule conjI)
  show "hints_ok (snd (rememberDiscoveryHint c hint now))" using assms(1) by (rule hints_ok_remember)
  have t: "table_ok (discoveredAddresses c)" using assms(1) by (simp add: hints_ok_def)
  have ne: "\<not> discoveryExpired (expiresAt d) now" using assms(4) by (simp add: protected_def)
  let ?P = "\<lambda>c'. \<exists>d'. map_of (discoveredAddresses c') a = Some d' \<and>
      (expiresAt d = 0 \<or> source d = SourceHistoricalRemote \<longrightarrow> source d' = source d \<and> expiresAt d' = expiresAt d)"
  show "?P (snd (rememberDiscoveryHint c hint now))"
  proof (cases "\<exists>address. normalizeDiscoveryAddress (hintAddress hint) = Some address \<and> \<not> refusesHint c hint now address")
    case False
    then show ?thesis using assms(3) by (auto simp: rememberDiscoveryHint_def split: option.split)
  next
    case True
    then obtain address where n: "normalizeDiscoveryAddress (hintAddress hint) = Some address"
      and r: "\<not> refusesHint c hint now address" by blast
    show ?thesis
    proof (cases "address = a")
      case True
      have "hintExpiresAt hint \<noteq> 0" using r assms(2) by (auto simp: refusesHint_def)
      then show ?thesis using n r True assms(2,3) ne
        by (auto simp: rememberDiscoveryHint_def refreshHint_def Let_def)
    next
      case False
      show ?thesis
      proof (cases "map_of (discoveredAddresses c) address")
        case None
        then show ?thesis using n r insertHint_keeps [OF t assms(2-4), of address] False
          by (simp add: rememberDiscoveryHint_def)
      next
        case (Some e)
        let ?c = "c\<lparr>discoveredAddresses := AList.delete address (discoveredAddresses c)\<rparr>"
        have "protected ?c now a d" using assms(4) by (simp add: protected_def addressInUse_def)
        then have "map_of (discoveredAddresses (snd (insertHint ?c address hint now))) a = Some d"
          using False assms(2,3) table_ok_delete [OF t] by (intro insertHint_keeps) simp_all
        then show ?thesis using n r Some False assms(3) by (simp add: rememberDiscoveryHint_def Let_def)
      qed
    qed
  qed
qed

theorem untrusted_hints_cannot_evict_witness:
  "let a = AddrPortFrom (Addr4 0x0a000001) 700;
       d = \<lparr>source = SourceLocal, daLastSeen = 1, expiresAt = 0, nextProbe = 2, probeInterval = 2 * Second\<rparr>;
       hint = \<lparr>hintAddress = AddrPortFrom (Addr4 0x0a000001) 700, hintSource = SourceTracker, hintExpiresAt = 9\<rparr>;
       c = (blankClient 1 [] 0 None)\<lparr>discoveredAddresses := [(a, d)]\<rparr>
   in hints_ok c \<and> protected c 5 a d \<and> (\<exists>d'. map_of (discoveredAddresses (snd (rememberDiscoveryHint c hint 5))) a = Some d' \<and>
        source d' = SourceLocal \<and> expiresAt d' = 0)"
proof -
  let ?a = "AddrPortFrom (Addr4 0x0a000001) 700"
  let ?d = "\<lparr>source = SourceLocal, daLastSeen = 1, expiresAt = 0, nextProbe = 2, probeInterval = 2 * Second\<rparr>"
  let ?hint = "\<lparr>hintAddress = AddrPortFrom (Addr4 0x0a000001) 700, hintSource = SourceTracker, hintExpiresAt = 9\<rparr>"
  let ?c = "(blankClient 1 [] 0 None)\<lparr>discoveredAddresses := [(?a, ?d)]\<rparr>"
  have h: "hints_ok ?c"
    by (simp add: hints_ok_def table_ok_def hint_ok_def normalizeDiscoveryAddress_def apIsValid_def addrIsValid_def
        IsUnspecified_def IsMulticast_def IsLinkLocalUnicast_def validDiscoverySource_def)
  have p: "protected ?c 5 ?a ?d" by (simp add: protected_def discoveryExpired_def)
  show ?thesis
    using untrusted_hints_cannot_evict [OF h, of ?hint ?a ?d 5] h p by (simp add: Let_def)
qed

end
