(* ===== verification/PeerTopology.thy ===== *)
theory PeerTopology
  imports PeerDiscovery
begin

text \<open>
  What the client knows of who reaches whom: the claims of its neighbours, bridge paths through them
  (\<open>internal/peer/bridge.go\<close>), and the snapshots peers exchange (\<open>topology_message.go\<close>).
\<close>

definition topologyRefresh :: duration where [simp]: "topologyRefresh = 10 * Second"

section \<open>Claims\<close>

text \<open>Whether the peer may be remembered, and the table with it.\<close>

definition rememberTopologyPeer :: "Client \<Rightarrow> PeerID \<Rightarrow> time \<Rightarrow> bool \<times> Client" where
  "rememberTopologyPeer c peerID now =
     (if IsZero peerID \<or> peerID = localPeerID c then (False, c)
      else
        let peer = (case map_of (topology c) peerID of
              None \<Rightarrow> \<lparr>tpLastSeen = now, tpNeighbors = []\<rparr>
            | Some peer \<Rightarrow> peer\<lparr>tpLastSeen := now\<rparr>)
        in (True, c\<lparr>topology := AList.update peerID peer (topology c)\<rparr>))"

fun claimLoop ::
  "PeerID \<Rightarrow> time \<Rightarrow> topologyEntry list \<Rightarrow> (PeerID \<times> time) list \<Rightarrow> Client \<Rightarrow> (PeerID \<times> time) list \<times> Client" where
  "claimLoop sender now [] claims c = (claims, c)"
| "claimLoop sender now (entry # rest) claims c =
     (case rememberTopologyPeer c (tePeerID entry) now of
        (False, c) \<Rightarrow> claimLoop sender now rest claims c
      | (True, c) \<Rightarrow>
          claimLoop sender now rest
            (if tePeerID entry \<noteq> sender \<and> tePeerID entry \<noteq> localPeerID c
             then AList.update (tePeerID entry) (now + topologyClaimTTL) claims else claims) c)"

definition claimsChanged :: "(PeerID \<times> time) list \<Rightarrow> (PeerID \<times> time) list \<Rightarrow> time \<Rightarrow> bool" where
  "claimsChanged old claims now \<longleftrightarrow>
     (let live = filter (\<lambda>(peerID, expiry). now < expiry) old
      in list_ex (\<lambda>(peerID, expiry). map_of claims peerID = None) live \<or> length live \<noteq> length claims)"

definition recordTopologyClaims :: "Client \<Rightarrow> PeerID \<Rightarrow> topologyEntry list \<Rightarrow> time \<Rightarrow> Client" where
  "recordTopologyClaims c sender entries now =
     (let (known, c) = rememberTopologyPeer c sender now;
          (claims, c) = claimLoop sender now entries [] c
      in if \<not> known then c
         else
           let peer = the (map_of (topology c) sender);
               c' = c\<lparr>topology := AList.update sender (peer\<lparr>tpNeighbors := claims\<rparr>) (topology c)\<rparr>
           in if claimsChanged (tpNeighbors peer) claims now then c'\<lparr>fanoutDirty := True\<rparr> else c')"

text \<open>Expired claims go first, then peers not heard of for long, with every claim about them.\<close>

definition forgetPeer :: "Client \<Rightarrow> time \<Rightarrow> PeerID \<Rightarrow> topologyPeer \<Rightarrow> bool" where
  "forgetPeer c now peerID peer \<longleftrightarrow>
     tpLastSeen peer + knownPeerTTL < now \<and> \<not> authenticatedSession (activeOf c peerID)"

definition gonePeers :: "Client \<Rightarrow> time \<Rightarrow> PeerID list" where
  "gonePeers c now = map fst (filter (\<lambda>(peerID, peer). forgetPeer c now peerID peer) (topology c))"

definition expireClaims :: "PeerID set \<Rightarrow> time \<Rightarrow> topologyPeer \<Rightarrow> topologyPeer" where
  "expireClaims gone now peer =
     peer\<lparr>tpNeighbors := filter (\<lambda>(neighbor, expiry). now < expiry \<and> neighbor \<notin> gone) (tpNeighbors peer)\<rparr>"

definition expireTopology :: "Client \<Rightarrow> time \<Rightarrow> Client" where
  "expireTopology c now =
     (let expired = list_ex (\<lambda>(peerID, peer). list_ex (\<lambda>(neighbor, expiry). \<not> now < expiry) (tpNeighbors peer)) (topology c);
          gone = set (gonePeers c now)
      in c\<lparr>topology := map (\<lambda>(peerID, peer). (peerID, expireClaims gone now peer))
             (filter (\<lambda>(peerID, peer). peerID \<notin> gone) (topology c)),
           fanoutDirty := fanoutDirty c \<or> expired \<or> gone \<noteq> {}\<rparr>)"

section \<open>Bridge paths\<close>

definition claimsTarget :: "Client \<Rightarrow> time \<Rightarrow> PeerID \<Rightarrow> PeerID \<Rightarrow> bool" where
  "claimsTarget c now target peerID =
     (case map_of (topology c) peerID of
        None \<Rightarrow> False
      | Some peer \<Rightarrow> (case map_of (tpNeighbors peer) target of None \<Rightarrow> False | Some expiry \<Rightarrow> now < expiry))"

definition intermediariesTo :: "Client \<Rightarrow> PeerID \<Rightarrow> time \<Rightarrow> PeerID list" where
  "intermediariesTo c target now =
     sort (map fst (filter (\<lambda>(peerID, peer). directSession (activeSession peer) \<and> claimsTarget c now target peerID)
       (remotePeers c)))"

definition bridgePathTo :: "Client \<Rightarrow> PeerID \<Rightarrow> time \<Rightarrow> Path option" where
  "bridgePathTo c target now =
     (if IsZero target \<or> target = localPeerID c then None
      else if directSession (activeOf c target) then None
      else if map_of (topology c) target = None then None
      else case intermediariesTo c target now of
        [] \<Rightarrow> None
      | first # _ \<Rightarrow>
          let intermediary = the (peerOf c first)
          in case NewBridgePath (pathAddress (path (the (activeSession intermediary)))) (remotePeerID intermediary) target of
               Inl err \<Rightarrow> None
             | Inr p \<Rightarrow> Some p)"

definition sessionUsesPath :: "Client \<Rightarrow> PeerID \<Rightarrow> Path \<Rightarrow> bool" where
  "sessionUsesPath c peerID p =
     (case peerOf c peerID of
        None \<Rightarrow> False
      | Some remote \<Rightarrow>
          (case activeSession remote of
             None \<Rightarrow> False
           | Some session \<Rightarrow> (authenticated session \<and> SameRoute (path session) p) \<or> candidateProbe session p \<noteq> None) \<or>
          (case pendingSession remote of None \<Rightarrow> False | Some session \<Rightarrow> acceptsPath session p))"

definition probeBridgePath :: "time \<Rightarrow> Client \<Rightarrow> PeerID \<Rightarrow> Client" where
  "probeBridgePath now c peerID =
     (case bridgePathTo c peerID now of
        None \<Rightarrow> c
      | Some p \<Rightarrow>
          if sessionUsesPath c peerID p then c
          else case peerOf c peerID of
            None \<Rightarrow> sendHelloProbeOnPath c p
          | Some remote \<Rightarrow>
              if pendingSession remote \<noteq> None then sendSessionHelloOnPath c peerID True p now
              else if activeSession remote \<noteq> None then sendSessionHelloOnPath c peerID False p now
              else sendHelloProbeOnPath c p)"

definition probeBridgePaths :: "Client \<Rightarrow> time \<Rightarrow> Client" where
  "probeBridgePaths c now = foldl (probeBridgePath now) c (sort (map fst (topology c)))"

section \<open>Snapshots\<close>

definition ownCandidates :: "Client \<Rightarrow> AddrPort \<Rightarrow> AddrPort list" where
  "ownCandidates c recipientAddress =
     foldl (\<lambda>found (kind, local).
         case local of
           None \<Rightarrow> found
         | Some address \<Rightarrow>
             if usableTopologyAddress address recipientAddress \<and> address \<notin> set found then found @ [address] else found)
       []
       (concat (map (\<lambda>kind. filter (\<lambda>(kind', local). kind' = kind) (Candidates (networkSnapshot c)))
         [CandidatePortMapped, CandidateSTUN, CandidateNIC]))"

definition directNeighbors :: "Client \<Rightarrow> PeerID \<Rightarrow> PeerID list" where
  "directNeighbors c recipientID =
     sort (map fst (filter (\<lambda>(peerID, peer). peerID \<noteq> recipientID \<and> directSession (activeSession peer)) (remotePeers c)))"

definition marshalTopologyMessage :: "Client \<Rightarrow> PeerID \<Rightarrow> AddrPort \<Rightarrow> bytes result" where
  "marshalTopologyMessage c recipientID recipientAddress =
     (let entries = map (\<lambda>peerID.
            let peer = the (peerOf c peerID);
                address = pathAddress (path (the (activeSession peer)))
            in \<lparr>tePeerID = remotePeerID peer,
                teAddresses = (if usableTopologyAddress address recipientAddress then [address] else [])\<rparr>)
          (directNeighbors c recipientID)
      in encodeTopologyMessage \<lparr>candidates = ownCandidates c recipientAddress, neighbors = entries\<rparr>)"

text \<open>\<open>activeSession == nil || !activeSession.authenticated || activeSession.reliable == nil\<close>, negated.\<close>

fun reliableReady :: "Session option \<Rightarrow> bool" where
  "reliableReady None = False"
| "reliableReady (Some session) \<longleftrightarrow> authenticated session \<and> reliable session \<noteq> None"

definition queueOn :: "Client \<Rightarrow> PeerID \<Rightarrow> uint16 \<Rightarrow> bytes \<Rightarrow> (Session \<Rightarrow> Session) \<Rightarrow> Client" where
  "queueOn c peerID channel payload mark =
     (case activeOf c peerID of
        None \<Rightarrow> c
      | Some session \<Rightarrow>
          (case queue (the (reliable session)) channel payload of
             (Inl err, transport) \<Rightarrow> updSession c peerID False (\<lambda>s. s\<lparr>reliable := Some transport\<rparr>)
           | (Inr _, transport) \<Rightarrow> updSession c peerID False (\<lambda>s. mark (s\<lparr>reliable := Some transport\<rparr>))))"

definition queueTopologySnapshot :: "time \<Rightarrow> bool \<Rightarrow> Client \<Rightarrow> PeerID \<Rightarrow> Client" where
  "queueTopologySnapshot now force c peerID =
     (if \<not> reliableReady (activeOf c peerID) then c
      else
        let session = the (activeOf c peerID)
        in if \<not> force \<and> topologySentRevision session = topologyRevision c \<and> now - lastTopologyAt session < topologyRefresh
           then c
           else case marshalTopologyMessage c peerID (pathAddress (path session)) of
             Inl err \<Rightarrow> c
           | Inr payload \<Rightarrow>
               queueOn c peerID reliableChannelTopology payload
                 (\<lambda>s. s\<lparr>topologySentRevision := topologyRevision c, lastTopologyAt := now\<rparr>))"

definition queueTopologySnapshots :: "Client \<Rightarrow> time \<Rightarrow> bool \<Rightarrow> Client" where
  "queueTopologySnapshots c now force = foldl (queueTopologySnapshot now force) c (map fst (remotePeers c))"

definition topologyHint :: "time \<Rightarrow> AddrPort \<Rightarrow> Client \<Rightarrow> AddrPort \<Rightarrow> Client" where
  "topologyHint now origin c address =
     (if usableTopologyAddress address origin
      then addDiscoveryHintAt c \<lparr>hintAddress = address, hintSource = SourceTopology, hintExpiresAt = now + topologyHintTTL\<rparr> now
      else c)"

definition handleTopologySnapshotAt :: "Client \<Rightarrow> PeerID \<Rightarrow> bytes \<Rightarrow> time \<Rightarrow> Client" where
  "handleTopologySnapshotAt c sender payload now =
     (case decodeTopologyMessage payload of
        Inl err \<Rightarrow> c
      | Inr message \<Rightarrow>
          (case activeOf c sender of
             None \<Rightarrow> c
           | Some session \<Rightarrow>
               let origin = pathAddress (path session);
                   c = recordTopologyClaims c sender (neighbors message) now;
                   c = foldl (topologyHint now origin) c (candidates message)
               in foldl (\<lambda>c entry.
                    if tePeerID entry = localPeerID c then c
                    else foldl (topologyHint now origin) c (teAddresses entry)) c (neighbors message)))"

section \<open>The table of claims\<close>

text \<open>Every claim is about another known peer, and no entry is about this client.\<close>

definition topology_ok :: "PeerID \<Rightarrow> (PeerID \<times> topologyPeer) list \<Rightarrow> bool" where
  "topology_ok self m \<longleftrightarrow> distinct (map fst m) \<and> 0 \<notin> fst ` set m \<and> self \<notin> fst ` set m \<and>
     (\<forall>(k, p) \<in> set m. distinct (map fst (tpNeighbors p)) \<and> fst ` set (tpNeighbors p) \<subseteq> fst ` set m - {k})"

lemma keys_update [simp]: "fst ` set (AList.update k v m) = insert k (fst ` set m)"
  using dom_update [of k v m] by (simp add: dom_map_of_conv_image_fst)

lemma topology_okD:
  assumes "topology_ok self m" "(k, p) \<in> set m"
  shows "distinct (map fst (tpNeighbors p))" "fst ` set (tpNeighbors p) \<subseteq> fst ` set m - {k}" "k \<noteq> 0" "k \<noteq> self"
proof -
  show "distinct (map fst (tpNeighbors p))" "fst ` set (tpNeighbors p) \<subseteq> fst ` set m - {k}"
    using assms unfolding topology_ok_def by blast+
  have "k \<in> fst ` set m" using assms(2) by force
  then show "k \<noteq> 0" "k \<noteq> self" using assms(1) unfolding topology_ok_def by blast+
qed

lemma topology_ok_update:
  assumes m: "topology_ok self m" and k: "k \<noteq> 0" "k \<noteq> self"
    and v: "distinct (map fst (tpNeighbors v))" "fst ` set (tpNeighbors v) \<subseteq> fst ` set m - {k}"
  shows "topology_ok self (AList.update k v m)"
proof -
  have "distinct (map fst (tpNeighbors p)) \<and> fst ` set (tpNeighbors p) \<subseteq> insert k (fst ` set m) - {k'}"
    if "(k', p) \<in> set (AList.update k v m)" for k' p
  proof (cases "(k', p) \<in> set m")
    case True
    then show ?thesis using topology_okD [OF m True] by blast
  next
    case False
    with that set_update [of k v m] have "(k', p) = (k, v)" by blast
    then show ?thesis using v by auto
  qed
  then show ?thesis using m k unfolding topology_ok_def by auto
qed

lemma rememberTopologyPeer_frame:
  assumes "rememberTopologyPeer c peerID now = (known, c')"
  shows "localPeerID c' = localPeerID c" "known \<longleftrightarrow> peerID \<noteq> 0 \<and> peerID \<noteq> localPeerID c"
    "fst ` set (topology c') = (if known then insert peerID (fst ` set (topology c)) else fst ` set (topology c))"
proof -
  have k: "known \<longleftrightarrow> peerID \<noteq> 0 \<and> peerID \<noteq> localPeerID c"
    using assms by (simp add: rememberTopologyPeer_def Let_def split: if_splits)
  have c': "c' = (if known then c\<lparr>topology := AList.update peerID (case map_of (topology c) peerID of
      None \<Rightarrow> \<lparr>tpLastSeen = now, tpNeighbors = []\<rparr> | Some peer \<Rightarrow> peer\<lparr>tpLastSeen := now\<rparr>) (topology c)\<rparr> else c)"
    using assms unfolding k by (auto simp: rememberTopologyPeer_def Let_def split: if_splits)
  show "localPeerID c' = localPeerID c" "known \<longleftrightarrow> peerID \<noteq> 0 \<and> peerID \<noteq> localPeerID c"
    "fst ` set (topology c') = (if known then insert peerID (fst ` set (topology c)) else fst ` set (topology c))"
    using k by (simp_all add: c')
qed

lemma topology_ok_remember:
  assumes inv: "topology_ok (localPeerID c) (topology c)" and r: "rememberTopologyPeer c peerID now = (known, c')"
  shows "topology_ok (localPeerID c') (topology c')"
proof (cases known)
  case False
  then show ?thesis using inv r by (auto simp: rememberTopologyPeer_def Let_def split: if_splits)
next
  case True
  then have k: "peerID \<noteq> 0" "peerID \<noteq> localPeerID c" using rememberTopologyPeer_frame(2) [OF r] by simp_all
  let ?peer = "case map_of (topology c) peerID of
      None \<Rightarrow> \<lparr>tpLastSeen = now, tpNeighbors = []\<rparr> | Some peer \<Rightarrow> peer\<lparr>tpLastSeen := now\<rparr>"
  have "topology_ok (localPeerID c) (AList.update peerID ?peer (topology c))"
  proof (rule topology_ok_update [OF inv k])
    show "distinct (map fst (tpNeighbors ?peer))" "fst ` set (tpNeighbors ?peer) \<subseteq> fst ` set (topology c) - {peerID}"
      using topology_okD [OF inv map_of_SomeD, of peerID] by (auto split: option.split)
  qed
  then show ?thesis using r k by (auto simp: rememberTopologyPeer_def Let_def)
qed

lemma claimLoop_ok:
  "claimLoop sender now entries claims c = (claims', c') \<Longrightarrow>
     topology_ok (localPeerID c) (topology c) \<Longrightarrow> distinct (map fst claims) \<Longrightarrow>
     fst ` set claims \<subseteq> fst ` set (topology c) - {sender} \<Longrightarrow>
     topology_ok (localPeerID c') (topology c') \<and> localPeerID c' = localPeerID c \<and>
     fst ` set (topology c) \<subseteq> fst ` set (topology c') \<and>
     distinct (map fst claims') \<and> fst ` set claims' \<subseteq> fst ` set (topology c') - {sender}"
proof (induction entries arbitrary: claims c)
  case Nil
  then show ?case by simp
next
  case (Cons entry rest)
  obtain known c1 where r: "rememberTopologyPeer c (tePeerID entry) now = (known, c1)" by fastforce
  have ok1: "topology_ok (localPeerID c1) (topology c1)" using topology_ok_remember [OF Cons.prems(2) r] .
  note f = rememberTopologyPeer_frame [OF r]
  have sub: "fst ` set (topology c) \<subseteq> fst ` set (topology c1)" using f(3) by auto
  let ?claims = "if known \<and> tePeerID entry \<noteq> sender \<and> tePeerID entry \<noteq> localPeerID c1
             then AList.update (tePeerID entry) (now + topologyClaimTTL) claims else claims"
  have l: "claimLoop sender now rest ?claims c1 = (claims', c')" using Cons.prems(1) r by (cases known) simp_all
  have d: "distinct (map fst ?claims)" using Cons.prems(3) by simp
  have k: "fst ` set ?claims \<subseteq> fst ` set (topology c1) - {sender}"
    using Cons.prems(4) sub f(3) by (cases known) auto
  note g = Cons.IH [OF l ok1 d k]
  then have "fst ` set (topology c) \<subseteq> fst ` set (topology c')" by (intro order_trans [OF sub]) simp
  with g f(1) show ?case by auto
qed

lemma topology_ok_record:
  assumes inv: "topology_ok (localPeerID c) (topology c)"
  shows "topology_ok (localPeerID c) (topology (recordTopologyClaims c sender entries now))"
    "localPeerID (recordTopologyClaims c sender entries now) = localPeerID c"
proof -
  obtain known c1 where r: "rememberTopologyPeer c sender now = (known, c1)" by fastforce
  obtain claims c2 where l: "claimLoop sender now entries [] c1 = (claims, c2)" by fastforce
  note f = rememberTopologyPeer_frame [OF r]
  have c2: "topology_ok (localPeerID c2) (topology c2)" "localPeerID c2 = localPeerID c1"
    "fst ` set (topology c1) \<subseteq> fst ` set (topology c2)"
    "distinct (map fst claims)" "fst ` set claims \<subseteq> fst ` set (topology c2) - {sender}"
    using claimLoop_ok [OF l topology_ok_remember [OF inv r]] by auto
  have id: "localPeerID c2 = localPeerID c" using c2(2) f(1) by simp
  show "localPeerID (recordTopologyClaims c sender entries now) = localPeerID c"
    using id by (simp add: recordTopologyClaims_def r l Let_def)
  show "topology_ok (localPeerID c) (topology (recordTopologyClaims c sender entries now))"
  proof (cases known)
    case False
    then show ?thesis using c2(1) id by (simp add: recordTopologyClaims_def r l)
  next
    case True
    with f(2) have k: "sender \<noteq> 0" "sender \<noteq> localPeerID c2" using id by simp_all
    let ?peer = "(the (map_of (topology c2) sender))\<lparr>tpNeighbors := claims\<rparr>"
    have "topology_ok (localPeerID c2) (AList.update sender ?peer (topology c2))"
      by (rule topology_ok_update [OF c2(1) k]) (use c2(4,5) in simp_all)
    then show ?thesis using True id by (simp add: recordTopologyClaims_def r l Let_def)
  qed
qed

lemma topology_ok_expire:
  assumes inv: "topology_ok (localPeerID c) (topology c)"
  shows "topology_ok (localPeerID c) (topology (expireTopology c now))"
    "localPeerID (expireTopology c now) = localPeerID c"
proof -
  define gone where "gone = set (gonePeers c now)"
  define new where "new = map (\<lambda>(k, p). (k, expireClaims gone now p)) (filter (\<lambda>(k, p). k \<notin> gone) (topology c))"
  have e: "topology (expireTopology c now) = new" by (simp add: expireTopology_def Let_def new_def gone_def)
  show "localPeerID (expireTopology c now) = localPeerID c" by (simp add: expireTopology_def Let_def)
  have keys: "fst ` set new = fst ` set (topology c) - gone" by (force simp: new_def)
  have "distinct (map fst new)"
    using inv by (auto simp: new_def topology_ok_def comp_def split_def distinct_map_filter)
  moreover have "distinct (map fst (tpNeighbors p)) \<and> fst ` set (tpNeighbors p) \<subseteq> fst ` set new - {k}"
    if "(k, p) \<in> set new" for k p
  proof -
    from that obtain p0 where p0: "(k, p0) \<in> set (topology c)"
      "tpNeighbors p = filter (\<lambda>(n, e). now < e \<and> n \<notin> gone) (tpNeighbors p0)"
      by (auto simp: new_def expireClaims_def)
    note d = topology_okD [OF inv p0(1)]
    show ?thesis using d(1,2) unfolding keys p0(2) by (auto simp: distinct_map_filter)
  qed
  ultimately show "topology_ok (localPeerID c) (topology (expireTopology c now))"
    using inv unfolding e topology_ok_def keys by blast
qed

lemma topology_ok_neighbors: "topology_ok self m \<Longrightarrow> neighbors_ok m"
  by (auto simp: topology_ok_def neighbors_ok_def list_all_iff)

section \<open>Sound bridge paths\<close>

text \<open>The peers of the client are kept under their own identity, which is another one than the client's.\<close>

definition peers_keyed :: "Client \<Rightarrow> bool" where
  "peers_keyed c \<longleftrightarrow> distinct (map fst (remotePeers c)) \<and>
     (\<forall>(k, p) \<in> set (remotePeers c). remotePeerID p = k \<and> k \<noteq> localPeerID c)"

lemma NewBridgePath_OK:
  "NewBridgePath hop i t = Inr p \<Longrightarrow>
     pathIsValid p \<and> \<not> IsDirect p \<and> pathIntermediary p = i \<and> pathTarget p = t \<and> i \<noteq> t \<and>
     pathAddress p = AddrPortFrom (Unmap (apAddr hop)) (apPort hop)"
  by (auto simp: NewBridgePath_def NewPath_def IsDirect_def pathIsValid_def Let_def split: if_splits)

text \<open>C12: A bridge path is only chosen where it works: it is a valid one-hop path whose intermediary is an
  authenticated, directly connected peer with a live claim to reach the target, the smallest such identity, and it
  is only sought for a known target other than the client itself that is not directly connected.\<close>

theorem bridge_path_sound:
  assumes "peers_keyed c" "bridgePathTo c target now = Some p"
  shows "pathIsValid p \<and> \<not> IsDirect p \<and> pathTarget p = target \<and> target \<noteq> localPeerID c \<and>
    \<not> directSession (activeOf c target) \<and> directSession (activeOf c (pathIntermediary p)) \<and>
    claimsTarget c now target (pathIntermediary p) \<and>
    (\<forall>i. directSession (activeOf c i) \<and> claimsTarget c now target i \<longrightarrow> pathIntermediary p \<le> i)"
proof -
  obtain i rest where ir: "intermediariesTo c target now = i # rest"
    and t: "target \<noteq> localPeerID c" "\<not> directSession (activeOf c target)"
    and b: "NewBridgePath (pathAddress (path (the (activeSession (the (peerOf c i)))))) (remotePeerID (the (peerOf c i))) target = Inr p"
    using assms(2) by (auto simp: bridgePathTo_def Let_def split: if_splits list.splits sum.splits)
  have dist: "distinct (map fst (remotePeers c))" using assms(1) by (simp add: peers_keyed_def)
  have mem: "j \<in> set (intermediariesTo c target now) \<longleftrightarrow> directSession (activeOf c j) \<and> claimsTarget c now target j" for j
  proof -
    have "j \<in> set (intermediariesTo c target now) \<longleftrightarrow>
        (\<exists>peer. map_of (remotePeers c) j = Some peer \<and> directSession (activeSession peer) \<and> claimsTarget c now target j)"
      using dist by (force simp: intermediariesTo_def)
    then show ?thesis by (auto simp: activeOf_def peerOf_def Option.bind_eq_Some_conv split: Option.bind_splits)
  qed
  have i: "directSession (activeOf c i)" "claimsTarget c now target i" using mem [of i] ir by auto
  then obtain peer where peer: "peerOf c i = Some peer" by (cases "peerOf c i") (auto simp: activeOf_def)
  have "remotePeerID peer = i"
    using assms(1) peer by (auto simp: peers_keyed_def peerOf_def dest!: map_of_SomeD)
  with NewBridgePath_OK [OF b] peer have p: "pathIsValid p" "\<not> IsDirect p" "pathTarget p = target" "pathIntermediary p = i"
    by simp_all
  have "sorted (i # rest)" unfolding ir [symmetric] intermediariesTo_def by (rule sorted_sort)
  then have "\<forall>j \<in> set (i # rest). i \<le> j" by simp
  then have "\<forall>j. directSession (activeOf c j) \<and> claimsTarget c now target j \<longrightarrow> i \<le> j"
    using mem ir by metis
  with p t i show ?thesis by simp
qed

theorem bridge_path_sound_witness:
  "let near = AddrPortFrom (Addr4 0x0a000001) 700;
       session = (blankSession 0 noHello [] \<lparr>pathAddress = near, pathIntermediary = 0, pathTarget = 0\<rparr> 1)\<lparr>authenticated := True\<rparr>;
       peer = \<lparr>remotePeerID = 2, activeSession = Some session, pendingSession = None, peerMemberState = emptyMemberState,
         peerScreenState = emptyScreenState\<rparr>;
       c = (blankClient 1 [] 0 None)\<lparr>remotePeers := [(2, peer)],
         topology := [(2, \<lparr>tpLastSeen = 1, tpNeighbors = [(3, 9)]\<rparr>), (3, \<lparr>tpLastSeen = 1, tpNeighbors = []\<rparr>)]\<rparr>
   in \<exists>p. bridgePathTo c 3 5 = Some p \<and> pathIsValid p \<and> pathIntermediary p = 2 \<and> pathTarget p = 3"
proof -
  let ?near = "AddrPortFrom (Addr4 0x0a000001) 700"
  let ?session = "(blankSession 0 noHello [] \<lparr>pathAddress = ?near, pathIntermediary = 0, pathTarget = 0\<rparr> 1)\<lparr>authenticated := True\<rparr>"
  let ?peer = "\<lparr>remotePeerID = 2, activeSession = Some ?session, pendingSession = None, peerMemberState = emptyMemberState,
    peerScreenState = emptyScreenState\<rparr>"
  let ?c = "(blankClient 1 [] 0 None)\<lparr>remotePeers := [(2, ?peer)],
    topology := [(2, \<lparr>tpLastSeen = 1, tpNeighbors = [(3, 9)]\<rparr>), (3, \<lparr>tpLastSeen = 1, tpNeighbors = []\<rparr>)]\<rparr>"
  let ?p = "\<lparr>pathAddress = ?near, pathIntermediary = 2, pathTarget = 3\<rparr>"
  have k: "peers_keyed ?c" by (simp add: peers_keyed_def blankClient_def)
  have "bridgePathTo ?c 3 5 = Some ?p"
    by (simp add: bridgePathTo_def intermediariesTo_def claimsTarget_def activeOf_def peerOf_def blankClient_def blankSession_def
        NewBridgePath_def NewPath_def IsZero_def IsDirect_def Let_def apIsValid_def addrIsValid_def)
  with bridge_path_sound [OF k this] show ?thesis by (simp add: Let_def)
qed

end
