(* ===== verification/PeerFanout.thy ===== *)
theory PeerFanout
  imports PeerTopology
begin

text \<open>
  Announcing the member state (\<open>internal/peer/member_state.go\<close>), deploying a forwarding plan and
  forwarding media (\<open>fanout.go\<close>), and sending voice (\<open>room_datagram.go\<close>).
\<close>

section \<open>Member states\<close>

definition sameMember :: "memberState \<Rightarrow> memberState \<Rightarrow> bool" where
  "sameMember a b \<longleftrightarrow> nickname a = nickname b \<and> muted a = muted b \<and> playbackMuted a = playbackMuted b"

definition SetLocalMemberState :: "Client \<Rightarrow> bytes \<Rightarrow> bool \<Rightarrow> bool \<Rightarrow> unit result \<times> Client" where
  "SetLocalMemberState c name mute playback =
     (case NormalizeNickname name of
        Inl err \<Rightarrow> (Inl err, c)
      | Inr name \<Rightarrow>
          let desired = (desiredMemberState c)\<lparr>nickname := name, muted := mute, playbackMuted := playback\<rparr>
          in if sameMember (desiredMemberState c) desired then (Inr (), c)
             else (Inr (), c\<lparr>desiredMemberState := desired, memberStateUpdates := True\<rparr>))"

definition queueMemberState :: "bytes \<Rightarrow> Client \<Rightarrow> PeerID \<Rightarrow> Client" where
  "queueMemberState payload c peerID =
     (if \<not> reliableReady (activeOf c peerID) \<or>
         memberStateSentRevision (the (activeOf c peerID)) = msRevision (localMemberState c) then c
      else queueOn c peerID reliableChannelMemberState payload
             (\<lambda>s. s\<lparr>memberStateSentRevision := msRevision (localMemberState c)\<rparr>))"

definition queueMemberStates :: "Client \<Rightarrow> Client" where
  "queueMemberStates c =
     (case encodeMemberState (localMemberState c) of
        Inl err \<Rightarrow> c
      | Inr payload \<Rightarrow> foldl (queueMemberState payload) c (map fst (remotePeers c)))"

definition applyDesiredMemberState :: "Client \<Rightarrow> Client" where
  "applyDesiredMemberState c =
     (let desired = desiredMemberState c
      in if sameMember (localMemberState c) desired then c
         else queueMemberStates (c\<lparr>localMemberState := desired\<lparr>msRevision := msRevision (localMemberState c) + 1\<rparr>\<rparr>))"

definition handleMemberState :: "Client \<Rightarrow> PeerID \<Rightarrow> bytes \<Rightarrow> Client" where
  "handleMemberState c sender payload =
     (case decodeMemberState payload of
        Inl err \<Rightarrow> c
      | Inr state \<Rightarrow>
          (case peerOf c sender of
             None \<Rightarrow> c
           | Some peer \<Rightarrow>
               if state = peerMemberState peer then c
               else publishStateChange (updPeer c sender (\<lambda>p. p\<lparr>peerMemberState := state\<rparr>))))"

section \<open>Deploying a plan\<close>

definition fanoutActivationDelay :: duration where [simp]: "fanoutActivationDelay = Second"

definition viaIntermediary :: "Client \<Rightarrow> PeerID \<times> RemotePeer \<Rightarrow> (PeerID \<times> PeerID) option" where
  "viaIntermediary c entry =
     (let (target, peer) = entry
      in if \<not> authenticatedSession (activeSession peer) \<or> directSession (activeSession peer) then None
         else
           let session = the (activeSession peer);
               intermediary = pathIntermediary (path session)
           in if directSession (activeOf c intermediary) \<and>
                 pathAddress (path (the (activeOf c intermediary))) = pathAddress (path session)
              then Some (target, intermediary) else None)"

definition constrainFanoutToActivePaths :: "outboundFanout \<Rightarrow> Client \<Rightarrow> outboundFanout" where
  "constrainFanoutToActivePaths plan c = applyForced plan (List.map_filter (viaIntermediary c) (remotePeers c))"

definition directReady :: "Client \<Rightarrow> PeerID \<Rightarrow> bool" where
  "directReady c peerID \<longleftrightarrow> directSession (activeOf c peerID) \<and> reliable (the (activeOf c peerID)) \<noteq> None"

text \<open>The preflight of a payload for one peer: its place in the queue is sure.\<close>

definition preflight :: "Client \<Rightarrow> PeerID \<Rightarrow> PeerID list \<Rightarrow> bytes option" where
  "preflight c peerID listeners =
     (case marshalFanoutAssignment listeners of
        Inl err \<Rightarrow> None
      | Inr payload \<Rightarrow>
          (case canQueue (the (reliable (the (activeOf c peerID)))) reliableChannelFanout (length payload) of
             Inl err \<Rightarrow> None
           | Inr _ \<Rightarrow> Some payload))"

fun deployNew :: "Client \<Rightarrow> outboundFanout \<Rightarrow> PeerID list \<Rightarrow> (PeerID \<times> bytes) list option" where
  "deployNew c plan [] = Some []"
| "deployNew c plan (peerID # rest) =
     (if \<not> directReady c peerID then None
      else case preflight c peerID (assigned plan peerID) of
        None \<Rightarrow> None
      | Some payload \<Rightarrow> map_option (\<lambda>ds. (peerID, payload) # ds) (deployNew c plan rest))"

fun deployOld :: "Client \<Rightarrow> PeerID list \<Rightarrow> (PeerID \<times> bytes) list option" where
  "deployOld c [] = Some []"
| "deployOld c (peerID # rest) =
     (if \<not> directReady c peerID then deployOld c rest
      else case preflight c peerID [] of
        None \<Rightarrow> None
      | Some payload \<Rightarrow> map_option (\<lambda>ds. (peerID, payload) # ds) (deployOld c rest))"

definition planFanout :: "Client \<Rightarrow> time \<Rightarrow> outboundFanout" where
  "planFanout c now =
     constrainFanoutToActivePaths
       (buildFanoutPlan
         (map fst (filter (\<lambda>(peerID, peer). authenticatedSession (activeSession peer)) (remotePeers c)))
         (map fst (filter (\<lambda>(peerID, peer). directSession (activeSession peer)) (remotePeers c)))
         (topology c) now) c"

definition refreshFanout :: "Client \<Rightarrow> time \<Rightarrow> Client" where
  "refreshFanout c now =
     (if \<not> fanoutDirty c then c
      else
        let plan = planFanout c now;
            oldOnly = sort (filter (\<lambda>peerID. map_of (assignments plan) peerID = None) (map fst (assignments (fanout c))))
        in case deployNew c plan (destinations plan) of
             None \<Rightarrow> c
           | Some new \<Rightarrow>
               (case deployOld c oldOnly of
                  None \<Rightarrow> c
                | Some old \<Rightarrow>
                    (foldl (\<lambda>c (peerID, payload). queueOn c peerID reliableChannelFanout payload (\<lambda>s. s)) c (new @ old))
                      \<lparr>fanout := plan\<lparr>activateAt := now + fanoutActivationDelay\<rparr>, fanoutDirty := False\<rparr>))"

text \<open>A plan is used once it has destinations, its activation delay has passed, and every forwarder has its assignment.  The destinations
  are nil exactly when there are none: they are only ever appended to.\<close>

definition fanoutReady :: "Client \<Rightarrow> time \<Rightarrow> bool" where
  "fanoutReady c now =
     (if destinations (fanout c) = [] then False
      else if now < activateAt (fanout c) then False
      else list_all (\<lambda>forwarder. reliableReady (activeOf c forwarder) \<and>
             \<not> pendingChannel (the (reliable (the (activeOf c forwarder)))) reliableChannelFanout) (destinations (fanout c)))"

section \<open>Media\<close>

definition directPeers :: "Client \<Rightarrow> PeerID list" where
  "directPeers c = map fst (filter (\<lambda>(peerID, peer). directSession (activeSession peer)) (remotePeers c))"

definition sendVoiceFrame :: "Client \<Rightarrow> SendFrame \<Rightarrow> time \<Rightarrow> Client" where
  "sendVoiceFrame c frame now =
     (if sfPayload frame = [] \<or> length (sfPayload frame) > MaxRoomDatagramPayload \<or> roomNetwork c = None \<or>
         roomDatagramProtector c = None then c
      else if sfDeadline frame \<noteq> 0 \<and> sfDeadline frame < now then c
      else
        let c = refreshFanout c now
        in if voicePacketSequence c = - 1 then c
           else
             let c = c\<lparr>voicePacketSequence := voicePacketSequence c + 1\<rparr>;
                 header = \<lparr>rdType = PacketVoice, rdStreamID = localPeerID c, rdPacketSequence = voicePacketSequence c\<rparr>
             in case MarshalRoomDatagram header (sfTimestamp frame) (sfPayload frame) (roomDatagramProtector c) of
                  Inl err \<Rightarrow> c
                | Inr packet \<Rightarrow>
                    sendRealtimeToPeers c packet (if fanoutReady c now then destinations (fanout c) else directPeers c)
                      (sfDeadline frame) (SendGeneration frame))"

definition forwardRoomDatagram :: "Client \<Rightarrow> PeerID \<Rightarrow> bytes \<Rightarrow> AddrPort \<Rightarrow> time \<Rightarrow> Client" where
  "forwardRoomDatagram c sender data origin deadline =
     (if roomNetwork c = None \<or> \<not> directSession (activeOf c sender) \<or>
         pathAddress (path (the (activeOf c sender))) \<noteq> origin then c
      else case inboundFanout (the (activeOf c sender)) of
        None \<Rightarrow> c
      | Some listeners \<Rightarrow> sendRealtimeToPeers c data listeners deadline 0)"

definition handleFanoutAssignment :: "Client \<Rightarrow> PeerID \<Rightarrow> bytes \<Rightarrow> Client" where
  "handleFanoutAssignment c sender payload =
     (case activeOf c sender of
        None \<Rightarrow> c
      | Some session \<Rightarrow>
          (case parseFanoutAssignment payload of
             Inl err \<Rightarrow> c
           | Inr encoded \<Rightarrow>
               let listeners = foldl (\<lambda>found listener.
                     if listener = localPeerID c \<or> listener \<in> set found then found else found @ [listener]) [] encoded
               in updSession c sender False (\<lambda>s. s\<lparr>inboundFanout := Some listeners\<rparr>)))"

end
