(* ===== verification/FanoutDeploy.thy ===== *)
theory FanoutDeploy
  imports PeerFanout
begin

text \<open>
  Deploying a forwarding plan is all or nothing, and the realtime datagrams of a send are cut into batches
  without losing any (\<open>fanout.go\<close>).
\<close>

section \<open>Sessions after an update\<close>

lemma peerOf_updPeer: "peerOf (updPeer c q f) p = (if p = q then map_option f (peerOf c p) else peerOf c p)"
  by (simp add: peerOf_def updPeer_def map_of_map_entry split: option.split)

lemma activeOf_updSession: "activeOf (updSession c q False f) p = (if p = q then map_option f (activeOf c p) else activeOf c p)"
  by (simp add: activeOf_def updSession_def peerOf_updPeer onSession_def option.map_comp split: Option.bind_splits)

lemma activeOf_queueOn: "p \<noteq> q \<Longrightarrow> activeOf (queueOn c q channel payload mark) p = activeOf c p"
  by (simp add: queueOn_def activeOf_updSession split: option.split prod.split sum.split)

lemma queue_canQueue: "canQueue r channel (length payload) = Inr () \<Longrightarrow> fst (queue r channel payload) = Inr ()"
  by (simp add: queue_def Let_def split: prod.split)

lemma activeOf_queueOn_same:
  assumes "activeOf c p = Some s" "canQueue (the (reliable s)) channel (length payload) = Inr ()"
  shows "activeOf (queueOn c p channel payload (\<lambda>s. s)) p = Some (s\<lparr>reliable := Some (snd (queue (the (reliable s)) channel payload))\<rparr>)"
  using queue_canQueue [OF assms(2)] assms(1)
  by (cases "queue (the (reliable s)) channel payload") (simp add: queueOn_def activeOf_updSession)

section \<open>When a plan is used\<close>

lemma fanoutReady_iff:
  "fanoutReady c now \<longleftrightarrow> destinations (fanout c) \<noteq> [] \<and> activateAt (fanout c) \<le> now \<and>
     (\<forall>forwarder \<in> set (destinations (fanout c)). reliableReady (activeOf c forwarder) \<and>
        \<not> pendingChannel (the (reliable (the (activeOf c forwarder)))) reliableChannelFanout)"
  by (auto simp: fanoutReady_def list_all_iff)

text \<open>A plan that was just deployed waits for its activation delay; until then frames go to the direct peers.\<close>

lemma deployed_plan_waits:
  assumes "fanoutDirty c" and "\<not> fanoutDirty (refreshFanout c now)" and "later < now + fanoutActivationDelay"
  shows "\<not> fanoutReady (refreshFanout c now) later"
proof -
  have "activateAt (fanout (refreshFanout c now)) = now + fanoutActivationDelay"
    using assms(1,2) by (auto simp: refreshFanout_def Let_def split: option.splits)
  with assms(3) show ?thesis by (simp add: fanoutReady_iff)
qed

section \<open>The preflight\<close>

lemma preflight_Some:
  "preflight c p ls = Some payload \<longleftrightarrow> marshalFanoutAssignment ls = Inr payload \<and>
     canQueue (the (reliable (the (activeOf c p)))) reliableChannelFanout (length payload) = Inr ()"
  by (auto simp: preflight_def split: sum.splits)

lemma deployNew_Some:
  "deployNew c plan ds = Some new \<Longrightarrow> map fst new = ds \<and>
     (\<forall>(p, payload) \<in> set new. directReady c p \<and> preflight c p (assigned plan p) = Some payload)"
  by (induction ds arbitrary: new) (auto split: if_splits option.splits)

lemma deployOld_Some: "deployOld c ids = Some old \<Longrightarrow> fst ` set old \<subseteq> set ids"
  by (induction ids arbitrary: old) (fastforce split: if_splits option.splits)+

definition deploy :: "Client \<Rightarrow> (PeerID \<times> bytes) list \<Rightarrow> Client" where
  "deploy c ds = foldl (\<lambda>c (peerID, payload). queueOn c peerID reliableChannelFanout payload (\<lambda>s. s)) c ds"

lemma activeOf_deploy_other: "p \<notin> fst ` set ds \<Longrightarrow> activeOf (deploy c ds) p = activeOf c p"
  unfolding deploy_def by (induction ds arbitrary: c) (auto simp: activeOf_queueOn)

lemma activeOf_deploy:
  assumes "(p, payload) \<in> set ds" "distinct (map fst ds)" "activeOf c p = Some s"
    "canQueue (the (reliable s)) reliableChannelFanout (length payload) = Inr ()"
  shows "activeOf (deploy c ds) p = Some (s\<lparr>reliable := Some (snd (queue (the (reliable s)) reliableChannelFanout payload))\<rparr>)"
proof -
  obtain pre post where ds: "ds = pre @ (p, payload) # post" using assms(1) by (auto simp: in_set_conv_decomp)
  then have "p \<notin> fst ` set pre" "p \<notin> fst ` set post" using assms(2) by (auto simp: image_iff)
  then show ?thesis
    using activeOf_queueOn_same [of "deploy c pre" p s reliableChannelFanout payload] assms(3,4)
      activeOf_deploy_other [of p pre c] activeOf_deploy_other [of p post "queueOn (deploy c pre) p reliableChannelFanout payload (\<lambda>s. s)"]
    by (simp add: ds deploy_def del: reliableChannelFanout_def)
qed

section \<open>The plan names each forwarder once\<close>

definition plan_keyed :: "outboundFanout \<Rightarrow> bool" where
  "plan_keyed plan \<longleftrightarrow> distinct (destinations plan) \<and> set (destinations plan) \<subseteq> fst ` set (assignments plan)"

lemma assigned_key: "t \<in> set (assigned plan f) \<Longrightarrow> f \<in> fst ` set (assignments plan)"
  by (cases "map_of (assignments plan) f") (auto simp: assigned_def dest!: map_of_SomeD intro: rev_image_eqI)

lemma plan_keyed_place:
  assumes "plan_keyed plan"
  shows "plan_keyed (placeTarget forced plan t)"
proof -
  let ?f = "the (map_of forced t)"
  have d: "destinations (placeTarget forced plan t) = (if ?f \<in> set (destinations plan) then destinations plan else destinations plan @ [?f])"
    by (simp add: placeTarget_def Let_def)
  have a: "fst ` set (assignments (placeTarget forced plan t)) = insert ?f (fst ` set (assignments plan))"
  proof (cases "t \<in> set (assigned plan ?f)")
    case True
    then show ?thesis using assigned_key [OF True] by (auto simp: placeTarget_def Let_def assigned_def)
  next
    case False
    then show ?thesis by (auto simp: placeTarget_def Let_def assigned_def dom_update)
  qed
  show ?thesis using assms unfolding plan_keyed_def d a by auto
qed

lemma plan_keyed_places: "plan_keyed plan \<Longrightarrow> plan_keyed (foldl (placeTarget forced) plan ts)"
  by (induction ts arbitrary: plan) (simp_all add: plan_keyed_place)

lemma plan_keyed_forced:
  assumes "plan_keyed plan"
  shows "plan_keyed (applyForced plan forced)"
proof -
  have "plan_keyed (plan\<lparr>assignments := map (\<lambda>(forwarder, ls). (forwarder, g ls)) (assignments plan)\<rparr>)" for g
    using assms by (force simp: plan_keyed_def)
  then show ?thesis using assms by (simp add: applyForced_def Let_def plan_keyed_places)
qed

lemma plan_keyed_build:
  assumes "neighbors_ok graph" "0 \<notin> set direct"
  shows "plan_keyed (buildFanoutPlan listeners direct graph now)"
proof -
  let ?U = "remdups (sort listeners)" and ?p0 = "\<lparr>activateAt = 0, destinations = [], assignments = []\<rparr>"
  have "plan_inv graph now direct (set listeners) ?U ?p0"
    by (simp add: plan_inv_def covered_def length_remdups_card_conv)
  then obtain rest where "plan_inv graph now direct (set listeners) rest (buildFanoutPlan listeners direct graph now)"
    using planLoop_inv [OF assms] unfolding buildFanoutPlan_def by blast
  then have "distinct (destinations (buildFanoutPlan listeners direct graph now))"
    "map fst (assignments (buildFanoutPlan listeners direct graph now)) = destinations (buildFanoutPlan listeners direct graph now)"
    unfolding plan_inv_def by - (elim conjE, assumption)+
  then show ?thesis by (simp add: plan_keyed_def flip: set_map)
qed

lemma plan_keyed_planFanout:
  assumes "neighbors_ok (topology c)" "0 \<notin> fst ` set (remotePeers c)"
  shows "plan_keyed (planFanout c now)"
proof -
  have "0 \<notin> set (map fst (filter (\<lambda>(peerID, peer). directSession (activeSession peer)) (remotePeers c)))" using assms(2) by force
  then show ?thesis
    unfolding planFanout_def constrainFanoutToActivePaths_def by (intro plan_keyed_forced plan_keyed_build assms(1))
qed

lemma refreshFanout_cases:
  obtains "refreshFanout c now = c"
  | new old where "fanoutDirty c" "deployNew c (planFanout c now) (destinations (planFanout c now)) = Some new"
      "fst ` set old \<inter> fst ` set (assignments (planFanout c now)) = {}"
      "refreshFanout c now = (deploy c (new @ old))
        \<lparr>fanout := (planFanout c now)\<lparr>activateAt := now + fanoutActivationDelay\<rparr>, fanoutDirty := False\<rparr>"
proof (cases "refreshFanout c now = c")
  case False
  let ?plan = "planFanout c now"
  let ?oldOnly = "sort (filter (\<lambda>peerID. map_of (assignments ?plan) peerID = None) (map fst (assignments (fanout c))))"
  from False obtain new old where r: "fanoutDirty c" "deployNew c ?plan (destinations ?plan) = Some new" "deployOld c ?oldOnly = Some old"
    by (auto simp: refreshFanout_def Let_def split: if_splits option.splits)
  have "fst ` set old \<inter> fst ` set (assignments ?plan) = {}"
    using deployOld_Some [OF r(3)] by (auto simp: map_of_eq_None_iff)
  moreover have "refreshFanout c now = (deploy c (new @ old))
        \<lparr>fanout := ?plan\<lparr>activateAt := now + fanoutActivationDelay\<rparr>, fanoutDirty := False\<rparr>"
    using r by (simp add: refreshFanout_def deploy_def Let_def)
  ultimately show ?thesis using that(2) r(1,2) by blast
qed (rule that(1))

text \<open>C15: A forwarding plan is deployed as a whole or not at all.  Either the client is left exactly as it was, or the
  new plan is in force one second later and every forwarder it names, an authenticated direct peer, has its
  assignment queued on its reliable transport.\<close>

theorem fanout_deployment_atomic:
  assumes "neighbors_ok (topology c)" "0 \<notin> fst ` set (remotePeers c)"
  shows "refreshFanout c now = c \<or>
    fanout (refreshFanout c now) = (planFanout c now)\<lparr>activateAt := now + Second\<rparr> \<and> \<not> fanoutDirty (refreshFanout c now) \<and>
    (\<forall>p \<in> set (destinations (planFanout c now)). \<exists>s r payload r'.
       activeOf c p = Some s \<and> authenticated s \<and> IsDirect (path s) \<and> reliable s = Some r \<and>
       marshalFanoutAssignment (assigned (planFanout c now) p) = Inr payload \<and>
       queue r reliableChannelFanout payload = (Inr (), r') \<and>
       activeOf (refreshFanout c now) p = Some (s\<lparr>reliable := Some r'\<rparr>))"
proof (cases rule: refreshFanout_cases [of c now])
  case (2 new old)
  let ?plan = "planFanout c now"
  note n = deployNew_Some [OF 2(2)]
  have k: "distinct (map fst new)" "set (destinations ?plan) \<subseteq> fst ` set (assignments ?plan)"
    using plan_keyed_planFanout [OF assms, of now] n by (simp_all add: plan_keyed_def)
  have "\<exists>s r payload r'. activeOf c p = Some s \<and> authenticated s \<and> IsDirect (path s) \<and> reliable s = Some r \<and>
       marshalFanoutAssignment (assigned ?plan p) = Inr payload \<and> queue r reliableChannelFanout payload = (Inr (), r') \<and>
       activeOf (refreshFanout c now) p = Some (s\<lparr>reliable := Some r'\<rparr>)" if p: "p \<in> set (destinations ?plan)" for p
  proof -
    have "p \<in> set (map fst new)" using n p by simp
    then obtain payload where pp: "(p, payload) \<in> set new" by auto
    then have ready: "directReady c p" "preflight c p (assigned ?plan p) = Some payload" using n by auto
    then obtain s r where s: "activeOf c p = Some s" "authenticated s" "IsDirect (path s)" "reliable s = Some r"
      by (cases "activeOf c p") (auto simp: directReady_def)
    have q: "marshalFanoutAssignment (assigned ?plan p) = Inr payload" "canQueue r reliableChannelFanout (length payload) = Inr ()"
      using ready(2) s by (simp_all add: preflight_Some del: reliableChannelFanout_def)
    have "p \<notin> fst ` set old" using 2(3) k(2) p by blast
    moreover have "activeOf (refreshFanout c now) p = activeOf (deploy c (new @ old)) p" by (simp add: 2(4) activeOf_def peerOf_def)
    moreover have "deploy c (new @ old) = deploy (deploy c new) old" by (simp add: deploy_def)
    ultimately have "activeOf (refreshFanout c now) p = Some (s\<lparr>reliable := Some (snd (queue r reliableChannelFanout payload))\<rparr>)"
      using activeOf_deploy [OF pp k(1) s(1)] q(2) s(4) activeOf_deploy_other [of p old "deploy c new"]
      by (simp del: reliableChannelFanout_def)
    then show ?thesis using s q queue_canQueue [OF q(2)] by (metis prod.collapse)
  qed
  then show ?thesis using 2(4) by (simp add: fanoutActivationDelay_def del: reliableChannelFanout_def)
qed simp

section \<open>Batches\<close>

lemma batchLoop_log:
  assumes "roomNetwork c \<noteq> None" "length batch < 256"
  shows "\<exists>batches answers.
     snd (batchLoop deadline generation datagrams batch anyTaken c) =
       c\<lparr>netLog := netLog c @ zip (map (\<lambda>b. SendRealtimeBatch b deadline generation) batches) answers\<rparr> \<and>
     length answers = length batches \<and> concat batches = batch @ datagrams \<and> length ` set batches \<subseteq> {1..256} \<and>
     fst (batchLoop deadline generation datagrams batch anyTaken c) = (anyTaken \<or> True \<in> set answers)"
  using assms
proof (induction datagrams arbitrary: c batch anyTaken)
  case Nil
  obtain network where net: "roomNetwork c = Some network" using Nil.prems(1) by blast
  show ?case
  proof (cases "batch = []")
    case True
    then show ?thesis by (intro exI [of _ "[]"]) simp
  next
    case False
    then show ?thesis using Nil.prems(2) net
      by (intro exI [of _ "[batch]"] exI [of _ "[admits network (netLog c) (SendRealtimeBatch batch deadline generation)]"])
        (auto simp: submit_def Let_def Suc_le_eq)
  qed
next
  case (Cons d ds)
  obtain network where net: "roomNetwork c = Some network" using Cons.prems(1) by blast
  show ?case
  proof (cases "length (batch @ [d]) = 256")
    case True
    let ?b = "SendRealtimeBatch (batch @ [d]) deadline generation"
    let ?taken = "admits network (netLog c) ?b"
    let ?c = "c\<lparr>netLog := netLog c @ [(?b, ?taken)]\<rparr>"
    have e: "batchLoop deadline generation (d # ds) batch anyTaken c = batchLoop deadline generation ds [] (?taken \<or> anyTaken) ?c"
      using True net by (simp add: submit_def Let_def)
    obtain batches answers where
      "snd (batchLoop deadline generation ds [] (?taken \<or> anyTaken) ?c) =
         ?c\<lparr>netLog := netLog ?c @ zip (map (\<lambda>b. SendRealtimeBatch b deadline generation) batches) answers\<rparr>"
      "length answers = length batches" "concat batches = ds" "length ` set batches \<subseteq> {1..256}"
      "fst (batchLoop deadline generation ds [] (?taken \<or> anyTaken) ?c) = ((?taken \<or> anyTaken) \<or> True \<in> set answers)"
      using Cons.IH [of ?c "[]" "?taken \<or> anyTaken"] Cons.prems by auto
    then show ?thesis using True
      by (intro exI [of _ "(batch @ [d]) # batches"] exI [of _ "?taken # answers"]) (auto simp only: e, auto)
  next
    case False
    then show ?thesis using Cons.IH [of c "batch @ [d]" anyTaken] Cons.prems by (simp add: Let_def)
  qed
qed

definition datagramsFor :: "Client \<Rightarrow> bytes list \<Rightarrow> PeerID list \<Rightarrow> (bytes \<times> AddrPort) list" where
  "datagramsFor c packets peerIDs =
     concat (map (\<lambda>session. map (\<lambda>packet. (packet, pathAddress (path session))) packets)
       (List.map_filter (\<lambda>peerID. if directSession (activeOf c peerID) then activeOf c peerID else None) peerIDs))"

lemma datagramsFor_eq:
  "concat (map (\<lambda>peerID. if directSession (activeOf c peerID)
       then map (\<lambda>packet. (packet, pathAddress (path (the (activeOf c peerID))))) packets else []) peerIDs) =
   datagramsFor c packets peerIDs"
  by (induction peerIDs) (auto simp: datagramsFor_def List.map_filter_def split: option.split elim: directSession.elims)

text \<open>Sending media loses nothing on the way to the network: the batches handed to it, none empty and none over 256
  datagrams, are together exactly every packet to the address of every listed peer with an authenticated direct
  session, in order; the send counts as admitted exactly when some batch was, and nothing else of the client changes.\<close>

theorem realtime_batches_complete:
  "\<exists>batches answers.
     snd (sendRealtimePacketsToPeers c packets peerIDs deadline generation) =
       c\<lparr>netLog := netLog c @ zip (map (\<lambda>b. SendRealtimeBatch b deadline generation) batches) answers\<rparr> \<and>
     length answers = length batches \<and> length ` set batches \<subseteq> {1..256} \<and>
     concat batches = (if roomNetwork c = None then [] else datagramsFor c packets peerIDs) \<and>
     fst (sendRealtimePacketsToPeers c packets peerIDs deadline generation) = (True \<in> set answers)"
proof (cases "roomNetwork c = None \<or> packets = []")
  case True
  then have e: "sendRealtimePacketsToPeers c packets peerIDs deadline generation = (False, c)"
    by (auto simp: sendRealtimePacketsToPeers_def)
  have "packets = [] \<Longrightarrow> datagramsFor c packets peerIDs = []" by (simp add: datagramsFor_def)
  then show ?thesis using True unfolding e by (intro exI [of _ "[]"]) auto
next
  case False
  then have e: "sendRealtimePacketsToPeers c packets peerIDs deadline generation =
      batchLoop deadline generation (datagramsFor c packets peerIDs) [] False c"
    by (auto simp: sendRealtimePacketsToPeers_def datagramsFor_eq)
  have "roomNetwork c \<noteq> None" "length ([] :: (bytes \<times> AddrPort) list) < 256" using False by simp_all
  from batchLoop_log [OF this, of deadline generation "datagramsFor c packets peerIDs" False] False
  show ?thesis unfolding e by (elim exE conjE) (intro exI conjI, assumption+, auto)
qed

theorem fanout_deployment_atomic_witness:
  "let near = AddrPortFrom (Addr4 0x0a000001) 700;
       session = (blankSession 0 noHello [] \<lparr>pathAddress = near, pathIntermediary = 0, pathTarget = 0\<rparr> 1)
         \<lparr>authenticated := True, reliable := Some newReliableTransport\<rparr>;
       peer = \<lparr>remotePeerID = 2, activeSession = Some session, pendingSession = None, peerMemberState = emptyMemberState,
         peerScreenState = emptyScreenState\<rparr>;
       c = (blankClient 1 [] 0 None)\<lparr>remotePeers := [(2, peer)]\<rparr>
   in refreshFanout c 5 \<noteq> c \<and> destinations (fanout (refreshFanout c 5)) = [2] \<and>
      (\<exists>r'. queue newReliableTransport reliableChannelFanout [0, 0, 0, 0] = (Inr (), r') \<and>
        activeOf (refreshFanout c 5) 2 = Some (session\<lparr>reliable := Some r'\<rparr>))"
proof -
  let ?near = "AddrPortFrom (Addr4 0x0a000001) 700"
  let ?session = "(blankSession 0 noHello [] \<lparr>pathAddress = ?near, pathIntermediary = 0, pathTarget = 0\<rparr> 1)
    \<lparr>authenticated := True, reliable := Some newReliableTransport\<rparr>"
  let ?peer = "\<lparr>remotePeerID = 2, activeSession = Some ?session, pendingSession = None, peerMemberState = emptyMemberState,
    peerScreenState = emptyScreenState\<rparr>"
  let ?c = "(blankClient 1 [] 0 None)\<lparr>remotePeers := [(2, ?peer)]\<rparr>"
  have ok: "neighbors_ok (topology ?c)" "0 \<notin> fst ` set (remotePeers ?c)" by (simp_all add: neighbors_ok_def blankClient_def)
  have act: "activeOf ?c 2 = Some ?session" by (simp add: activeOf_def peerOf_def)
  have dir: "directSession (Some ?session)" by (simp add: blankSession_def IsDirect_def IsZero_def)
  have plan: "planFanout ?c 5 = \<lparr>activateAt = 0, destinations = [2], assignments = [(2, [])]\<rparr>"
    using dir by (simp add: planFanout_def constrainFanoutToActivePaths_def List.map_filter_def viaIntermediary_def applyForced_def
        buildFanoutPlan_def planLoop.simps candidateOf_def claimed_def assign_def assigned_def blankClient_def IsZero_def)
  have pay: "marshalFanoutAssignment [] = Inr [0, 0, 0, 0]" by (simp add: marshalFanoutAssignment_def put_be_def upt_rec)
  have "fanoutDirty ?c" by (simp add: blankClient_def)
  moreover have "preflight ?c 2 [] = Some [0, 0, 0, 0]" using act
    by (simp add: preflight_Some pay canQueue_def newReliableTransport_def reliableChannelOrdered_def)
  moreover have old: "assignments (fanout ?c) = []" by (simp add: blankClient_def)
  moreover have "directReady ?c 2" using dir act by (simp add: directReady_def)
  ultimately have "\<not> fanoutDirty (refreshFanout ?c 5)"
    by (simp add: refreshFanout_def plan assigned_def old Let_def)
  then have ne: "refreshFanout ?c 5 \<noteq> ?c" using \<open>fanoutDirty ?c\<close> by metis
  with fanout_deployment_atomic [OF ok, of 5] show ?thesis by (simp add: plan act pay assigned_def Let_def)
qed

end
