(* ===== verification/ScreenShare.thy ===== *)
theory ScreenShare
  imports PeerFanout
begin

text \<open>
  Sharing the screen, \<open>internal/peer/screen_video.go\<close>: the announced state, sending chunks and audio, and on the
  receiving side reassembly with bounded retention and forwarding.  A stream identifier is drawn from the
  random source until it is not zero; \<open>draw\<close> is what that loop ends with.
\<close>

definition screenVideoChunkTTL :: duration where [simp]: "screenVideoChunkTTL = 750 * Millisecond"
definition screenAudioSendBudget :: duration where [simp]: "screenAudioSendBudget = 20 * Millisecond"
definition maxScreenVideoRetainedBytes :: int where [simp]: "maxScreenVideoRetainedBytes = 4 * 2 ^ 20"
definition maxCompletedScreenVideoChunks :: nat where [simp]: "maxCompletedScreenVideoChunks = 4"

section \<open>Announcing\<close>

definition queueScreenState :: "bytes \<Rightarrow> Client \<Rightarrow> PeerID \<Rightarrow> Client" where
  "queueScreenState payload c peerID =
     (if \<not> reliableReady (activeOf c peerID) \<or>
         screenStateSentRevision (the (activeOf c peerID)) = ssRevision (localScreenState c) then c
      else queueOn c peerID reliableChannelScreenState payload
             (\<lambda>s. s\<lparr>screenStateSentRevision := ssRevision (localScreenState c)\<rparr>))"

definition queueScreenStates :: "Client \<Rightarrow> Client" where
  "queueScreenStates c =
     (case encodeScreenState (localScreenState c) of
        Inl err \<Rightarrow> c
      | Inr payload \<Rightarrow> foldl (queueScreenState payload) c (map fst (remotePeers c)))"

definition screenStateReady :: "Client \<Rightarrow> Session option \<Rightarrow> bool" where
  "screenStateReady c session \<longleftrightarrow> reliableReady session \<and>
     screenStateSentRevision (the session) = ssRevision (localScreenState c) \<and>
     \<not> pendingChannel (the (reliable (the session))) reliableChannelScreenState"

definition replaceScreenState :: "Client \<Rightarrow> screenState \<Rightarrow> Client" where
  "replaceScreenState c state =
     publishStateChange (queueScreenStates
       (c\<lparr>localScreenState := state, screenPacketSequence := 0, screenVideoChunkID := 0\<rparr>))"

definition activateScreenShare :: "id16 result \<Rightarrow> Client \<Rightarrow> string \<Rightarrow> uint16 \<Rightarrow> uint16 \<Rightarrow> unit result \<times> Client" where
  "activateScreenShare draw c name width height =
     (case validateScreenVideoConfig name (uint width) (uint height) of
        Inl err \<Rightarrow> (Inl err, c)
      | Inr _ \<Rightarrow>
          (case draw of
             Inl err \<Rightarrow> (Inl (wrap ''create screen video stream: '' err), c)
           | Inr stream \<Rightarrow>
               (Inr (), replaceScreenState c \<lparr>ssRevision = ssRevision (localScreenState c) + 1, ssStreamID = stream,
                  ssCodec = name, ssWidth = width, ssHeight = height\<rparr>)))"

definition startScreenShare :: "id16 result \<Rightarrow> Client \<Rightarrow> string \<Rightarrow> uint16 \<Rightarrow> uint16 \<Rightarrow> unit result \<times> Client" where
  "startScreenShare draw c name width height =
     (if active (localScreenState c) then (fail ''screen sharing is already active'', c)
      else activateScreenShare draw c name width height)"

definition replaceScreenShare :: "id16 result \<Rightarrow> Client \<Rightarrow> string \<Rightarrow> uint16 \<Rightarrow> uint16 \<Rightarrow> unit result \<times> Client" where
  "replaceScreenShare draw c name width height =
     (if \<not> active (localScreenState c) then (fail ''screen sharing is not active'', c)
      else activateScreenShare draw c name width height)"

definition stopScreenShare :: "Client \<Rightarrow> unit result \<times> Client" where
  "stopScreenShare c =
     (if \<not> active (localScreenState c) then (fail ''screen sharing is not active'', c)
      else (Inr (), replaceScreenState c (emptyScreenState\<lparr>ssRevision := ssRevision (localScreenState c) + 1\<rparr>)))"

section \<open>Sending\<close>

definition screenMediaDestinations :: "Client \<Rightarrow> time \<Rightarrow> PeerID list \<times> Client" where
  "screenMediaDestinations c now =
     (let c = refreshFanout c now;
          targets = (if fanoutReady c now then destinations (fanout c) else sort (directPeers c))
      in (filter (\<lambda>peerID. screenStateReady c (activeOf c peerID)) targets, c))"

fun packetLoop :: "Client \<Rightarrow> bytes list \<Rightarrow> bytes list \<Rightarrow> bytes list result \<times> Client" where
  "packetLoop c [] packets = (Inr packets, c)"
| "packetLoop c (fragment # rest) packets =
     (let c = c\<lparr>screenPacketSequence := screenPacketSequence c + 1\<rparr>;
          header = \<lparr>rdType = PacketScreenVideo, rdStreamID = ssStreamID (localScreenState c),
            rdPacketSequence = screenPacketSequence c\<rparr>
      in case MarshalRoomDatagram header (screenVideoChunkID c) fragment (roomDatagramProtector c) of
           Inl err \<Rightarrow> (Inl err, c)
         | Inr packet \<Rightarrow> packetLoop c rest (packets @ [packet]))"

definition sendScreenVideoChunk :: "Client \<Rightarrow> screenVideoMetadata \<Rightarrow> bytes \<Rightarrow> time \<Rightarrow> bool result \<times> Client" where
  "sendScreenVideoChunk c m data now =
     (if \<not> active (localScreenState c) then (fail ''screen sharing is not active'', c)
      else if \<not> screenVideoMetadataMatchesState m (localScreenState c)
      then (fail ''screen video display dimensions do not fit the coded frame'', c)
      else case encodeScreenVideoFragments m data of
        Inl err \<Rightarrow> (Inl err, c)
      | Inr fragments \<Rightarrow>
          let c = queueScreenStates c
          in if screenVideoChunkID c = - 1 \<or> of_nat (length fragments) > - 1 - screenPacketSequence c
             then (fail ''screen media stream sequence is exhausted'', c)
             else case packetLoop (c\<lparr>screenVideoChunkID := screenVideoChunkID c + 1\<rparr>) fragments [] of
               (Inl err, c) \<Rightarrow> (Inl err, c)
             | (Inr packets, c) \<Rightarrow>
                 (case screenMediaDestinations c now of
                    (ready, c) \<Rightarrow>
                      if ready = [] then (Inr True, c)
                      else case sendRealtimePacketsToPeers c packets ready (now + screenVideoChunkTTL) 0 of
                        (sent, c) \<Rightarrow> (Inr sent, c)))"

definition sendScreenAudioFrame :: "Client \<Rightarrow> uint32 \<Rightarrow> bytes \<Rightarrow> time \<Rightarrow> unit result \<times> Client" where
  "sendScreenAudioFrame c stamp rawOpus now =
     (if \<not> active (localScreenState c) then (fail ''screen sharing is not active'', c)
      else
        let c = queueScreenStates c
        in if screenPacketSequence c = - 1 then (fail ''screen media stream sequence is exhausted'', c)
           else
             let c = c\<lparr>screenPacketSequence := screenPacketSequence c + 1\<rparr>;
                 header = \<lparr>rdType = PacketScreenAudio, rdStreamID = ssStreamID (localScreenState c),
                   rdPacketSequence = screenPacketSequence c\<rparr>
             in case MarshalRoomDatagram header stamp rawOpus (roomDatagramProtector c) of
                  Inl err \<Rightarrow> (Inl err, c)
                | Inr packet \<Rightarrow>
                    (case screenMediaDestinations c now of
                       (ready, c) \<Rightarrow>
                         if ready = [] then (Inr (), c)
                         else (Inr (), snd (sendRealtimePacketsToPeers c [packet] ready (now + screenAudioSendBudget) 0))))"

text \<open>The commands of the client's user and the checks made before they are sent to the loop.\<close>

datatype screenCommand =
    ScreenStart string int int
  | ScreenReplace string int int
  | ScreenSendVideo uint64 uint32 bool int int bytes
  | ScreenSendAudio uint32 bytes
  | ScreenStop

definition checkScreenCommand :: "screenCommand \<Rightarrow> unit result" where
  "checkScreenCommand command =
     (case command of
        ScreenStart name width height \<Rightarrow> validateScreenVideoConfig name width height
      | ScreenReplace name width height \<Rightarrow> validateScreenVideoConfig name width height
      | ScreenSendVideo stamp dur key width height data \<Rightarrow>
          (case validateScreenVideoTiming stamp dur of
             Inl err \<Rightarrow> Inl err
           | Inr _ \<Rightarrow>
               (case validateScreenVideoSize width height of
                  Inl err \<Rightarrow> Inl err
                | Inr _ \<Rightarrow>
                    if length data = 0 \<or> length data > MaxScreenVideoChunkBytes
                    then fail ''screen video chunk size is invalid'' else Inr ()))
      | ScreenSendAudio stamp rawOpus \<Rightarrow> Inr ()
      | ScreenStop \<Rightarrow> Inr ())"

definition handleScreenCommand :: "id16 result \<Rightarrow> Client \<Rightarrow> screenCommand \<Rightarrow> time \<Rightarrow> bool result \<times> Client" where
  "handleScreenCommand draw c command now =
     (case command of
        ScreenStart name width height \<Rightarrow>
          map_prod (map_sum (\<lambda>err. err) (\<lambda>_. False)) (\<lambda>c. c) (startScreenShare draw c name (of_int width) (of_int height))
      | ScreenReplace name width height \<Rightarrow>
          map_prod (map_sum (\<lambda>err. err) (\<lambda>_. False)) (\<lambda>c. c) (replaceScreenShare draw c name (of_int width) (of_int height))
      | ScreenSendVideo stamp dur key width height data \<Rightarrow>
          sendScreenVideoChunk c \<lparr>displayWidth = of_int width, displayHeight = of_int height, mdTimestamp = stamp,
            mdDuration = dur, keyFrame = key\<rparr> data now
      | ScreenSendAudio stamp rawOpus \<Rightarrow>
          map_prod (map_sum (\<lambda>err. err) (\<lambda>_. False)) (\<lambda>c. c) (sendScreenAudioFrame c stamp rawOpus now)
      | ScreenStop \<Rightarrow> map_prod (map_sum (\<lambda>err. err) (\<lambda>_. False)) (\<lambda>c. c) (stopScreenShare c))"

section \<open>Receiving\<close>

definition emptyReceiveState :: screenVideoReceiveState where
  "emptyReceiveState = \<lparr>newestChunkID = 0, deliveredChunkID = 0, assemblies = [], forwardPackets = [], forwardDeadline = 0\<rparr>"

definition receiverOf :: "Client \<Rightarrow> roomDatagramStreamKey \<Rightarrow> screenVideoReceiveState" where
  "receiverOf c key = (case map_of (screenVideoReceivers c) key of None \<Rightarrow> emptyReceiveState | Some state \<Rightarrow> state)"

definition putReceiver :: "Client \<Rightarrow> roomDatagramStreamKey \<Rightarrow> screenVideoReceiveState \<Rightarrow> Client" where
  "putReceiver c key state = c\<lparr>screenVideoReceivers := AList.update key state (screenVideoReceivers c)\<rparr>"

definition removeScreenVideoChunkAssembly :: "Client \<Rightarrow> roomDatagramStreamKey \<Rightarrow> uint32 \<Rightarrow> Client" where
  "removeScreenVideoChunkAssembly c key chunk =
     (case map_of (screenVideoReceivers c) key of
        None \<Rightarrow> c
      | Some state \<Rightarrow>
          (case map_of (assemblies state) chunk of
             None \<Rightarrow> c
           | Some assembly \<Rightarrow>
               (putReceiver c key (state\<lparr>assemblies := AList.delete chunk (assemblies state)\<rparr>))
                 \<lparr>screenVideoRetainedBytes := screenVideoRetainedBytes c - svRetainedBytes assembly\<rparr>))"

definition removeChunks :: "Client \<Rightarrow> roomDatagramStreamKey \<Rightarrow> uint32 list \<Rightarrow> Client" where
  "removeChunks c key chunks = foldl (\<lambda>c chunk. removeScreenVideoChunkAssembly c key chunk) c chunks"

definition removeScreenVideoAssembly :: "Client \<Rightarrow> roomDatagramStreamKey \<Rightarrow> Client" where
  "removeScreenVideoAssembly c key =
     (case map_of (screenVideoReceivers c) key of
        None \<Rightarrow> c
      | Some state \<Rightarrow> removeChunks c key (map fst (assemblies state)))"

definition dropReceiver :: "Client \<Rightarrow> roomDatagramStreamKey \<Rightarrow> Client" where
  "dropReceiver c key =
     (removeScreenVideoAssembly c key)\<lparr>screenVideoReceivers :=
        AList.delete key (screenVideoReceivers (removeScreenVideoAssembly c key))\<rparr>"

definition removeScreenVideoAssembliesForSender :: "Client \<Rightarrow> PeerID \<Rightarrow> Client" where
  "removeScreenVideoAssembliesForSender c sender =
     foldl dropReceiver c (filter (\<lambda>key. streamSender key = sender) (map fst (screenVideoReceivers c)))"

definition chunkExpired :: "time \<Rightarrow> screenVideoAssembly \<Rightarrow> bool" where
  "chunkExpired now assembly \<longleftrightarrow> \<not> now < svStartedAt assembly + screenVideoChunkTTL"

definition expireScreenVideoChunks :: "Client \<Rightarrow> time \<Rightarrow> Client" where
  "expireScreenVideoChunks c now =
     foldl (\<lambda>c (key, state). removeChunks c key
         (map fst (filter (\<lambda>(chunk, assembly). chunkExpired now assembly) (assemblies state)))) c (screenVideoReceivers c)"

text \<open>The oldest assembly other than the current one, over every stream.\<close>

definition otherAssemblies ::
  "Client \<Rightarrow> roomDatagramStreamKey \<Rightarrow> uint32 \<Rightarrow> (roomDatagramStreamKey \<times> uint32 \<times> time) list" where
  "otherAssemblies c current chunk =
     concat (map (\<lambda>(key, state). List.map_filter (\<lambda>(chunk', assembly).
         if key = current \<and> chunk' = chunk then None else Some (key, chunk', svStartedAt assembly)) (assemblies state))
       (screenVideoReceivers c))"

fun oldestAssembly ::
  "(roomDatagramStreamKey \<times> uint32 \<times> time) list \<Rightarrow> (roomDatagramStreamKey \<times> uint32 \<times> time) option \<Rightarrow>
     (roomDatagramStreamKey \<times> uint32 \<times> time) option" where
  "oldestAssembly [] found = found"
| "oldestAssembly ((key, chunk, at) # rest) found =
     oldestAssembly rest
       (case found of
          None \<Rightarrow> Some (key, chunk, at)
        | Some (key', chunk', at') \<Rightarrow> if at < at' then Some (key, chunk, at) else found)"

definition assemblyCount :: "Client \<Rightarrow> nat" where
  "assemblyCount c = sum_list (map (\<lambda>(key, state). length (assemblies state)) (screenVideoReceivers c))"

lemma oldestAssembly_member: "oldestAssembly xs found = Some x \<Longrightarrow> x \<in> set xs \<or> found = Some x"
  by (induction xs found rule: oldestAssembly.induct) (auto split: option.splits if_splits prod.splits)

lemma otherAssemblies_member:
  "(key, chunk, at) \<in> set (otherAssemblies c k0 c0) \<Longrightarrow>
     \<exists>state. (key, state) \<in> set (screenVideoReceivers c) \<and> chunk \<in> fst ` set (assemblies state)"
  by (force simp: otherAssemblies_def List.map_filter_def split: if_splits)

text \<open>The eviction loop, with the number of turns left; it needs at most one turn per assembly and a last one
  (\<open>retentionLoop_ends\<close> below).\<close>

fun retentionLoop :: "nat \<Rightarrow> roomDatagramStreamKey \<Rightarrow> uint32 \<Rightarrow> int \<Rightarrow> Client \<Rightarrow> (bool \<times> Client) option" where
  "retentionLoop 0 key chunk cost c = None"
| "retentionLoop (Suc turns) key chunk cost c =
     (if \<not> cost > maxScreenVideoRetainedBytes - screenVideoRetainedBytes c then Some (True, c)
      else case oldestAssembly (otherAssemblies c key chunk) None of
        None \<Rightarrow> Some (False, c)
      | Some (oldestKey, oldestChunk, oldestAt) \<Rightarrow>
          retentionLoop turns key chunk cost (removeScreenVideoChunkAssembly c oldestKey oldestChunk))"

definition makeScreenVideoRetentionRoom :: "Client \<Rightarrow> roomDatagramStreamKey \<Rightarrow> uint32 \<Rightarrow> int \<Rightarrow> bool \<times> Client" where
  "makeScreenVideoRetentionRoom c key chunk cost =
     (if cost \<le> 0 \<or> cost > maxScreenVideoRetainedBytes then (False, c)
      else case retentionLoop (Suc (assemblyCount c)) key chunk cost c of
        None \<Rightarrow> (False, c)
      | Some result \<Rightarrow> result)"

record completedScreenVideoChunk =
  ccChunkID :: uint32
  ccMetadata :: screenVideoMetadata
  ccBytes :: bytes

definition newAssembly :: "decodedScreenVideoFragment \<Rightarrow> time \<Rightarrow> screenVideoAssembly" where
  "newAssembly fragment now = \<lparr>svMetadata = frMetadata fragment, svFragmentCount = frCount fragment,
     svTotalSize = frTotalSize fragment, svFragments = [], svVideoBytes = 0, svRetainedBytes = 0, svStartedAt = now\<rparr>"

text \<open>The assembly a fragment belongs to, made when it is new; chunks more than one behind are dropped.\<close>

definition openAssembly ::
  "Client \<Rightarrow> roomDatagramStreamKey \<Rightarrow> uint32 \<Rightarrow> decodedScreenVideoFragment \<Rightarrow> time \<Rightarrow> bool \<times> Client" where
  "openAssembly c key chunk fragment now =
     (let state = receiverOf c key;
          c = putReceiver c key state
      in if chunk \<le> deliveredChunkID state \<or> (chunk < newestChunkID state \<and> newestChunkID state - chunk > 1)
         then (False, c)
         else
           let c = (if chunk > newestChunkID state
                    then removeChunks (putReceiver c key (state\<lparr>newestChunkID := chunk\<rparr>)) key
                           (filter (\<lambda>old. old < chunk \<and> chunk - old > 1) (map fst (assemblies state)))
                    else c);
               state = receiverOf c key
           in (True, if map_of (assemblies state) chunk = None
                then putReceiver c key (state\<lparr>assemblies := AList.update chunk (newAssembly fragment now) (assemblies state)\<rparr>)
                else c))"

definition storeScreenFragment :: "Client \<Rightarrow> roomDatagramStreamKey \<Rightarrow> uint32 \<Rightarrow> decodedScreenVideoFragment \<Rightarrow> Client" where
  "storeScreenFragment c key chunk fragment =
     (let state = receiverOf c key;
          assembly = the (map_of (assemblies state) chunk);
          cost = int (length (frBytes fragment));
          assembly = assembly\<lparr>svFragments := AList.update (frIndex fragment) (frBytes fragment) (svFragments assembly),
            svVideoBytes := svVideoBytes assembly + cost, svRetainedBytes := svRetainedBytes assembly + cost\<rparr>
      in (putReceiver c key (state\<lparr>assemblies := AList.update chunk assembly (assemblies state)\<rparr>))
           \<lparr>screenVideoRetainedBytes := screenVideoRetainedBytes c + cost\<rparr>)"

definition fragmentAt :: "screenVideoAssembly \<Rightarrow> nat \<Rightarrow> bytes" where
  "fragmentAt assembly i = (case map_of (svFragments assembly) (of_nat i) of None \<Rightarrow> [] | Some part \<Rightarrow> part)"

definition completeAssembly ::
  "Client \<Rightarrow> roomDatagramStreamKey \<Rightarrow> uint32 \<Rightarrow> completedScreenVideoChunk option \<times> Client" where
  "completeAssembly c key chunk =
     (let state = receiverOf c key;
          assembly = the (map_of (assemblies state) chunk);
          completed = \<lparr>ccChunkID = chunk, ccMetadata = svMetadata assembly,
            ccBytes = concat (map (fragmentAt assembly) [0..<unat (svFragmentCount assembly)])\<rparr>;
          c = removeChunks (putReceiver c key (state\<lparr>deliveredChunkID := chunk\<rparr>)) key
            (filter (\<lambda>old. old \<le> chunk) (map fst (assemblies state)))
      in (if length (ccBytes completed) \<noteq> unat (svTotalSize assembly) then None else Some completed, c))"

definition fragmentMismatch :: "screenVideoAssembly \<Rightarrow> decodedScreenVideoFragment \<Rightarrow> bool" where
  "fragmentMismatch assembly fragment \<longleftrightarrow>
     svFragmentCount assembly \<noteq> frCount fragment \<or> svTotalSize assembly \<noteq> frTotalSize fragment \<or>
     svMetadata assembly \<noteq> frMetadata fragment"

definition acceptScreenVideoFragment ::
  "Client \<Rightarrow> roomDatagramStreamKey \<Rightarrow> uint32 \<Rightarrow> decodedScreenVideoFragment \<Rightarrow> time \<Rightarrow>
     completedScreenVideoChunk option \<times> Client" where
  "acceptScreenVideoFragment c key chunk fragment now =
     (case openAssembly c key chunk fragment now of
        (False, c) \<Rightarrow> (None, c)
      | (True, c) \<Rightarrow>
          let assembly = the (map_of (assemblies (receiverOf c key)) chunk)
          in if chunkExpired now assembly then (None, removeScreenVideoChunkAssembly c key chunk)
             else if fragmentMismatch assembly fragment then (None, removeScreenVideoChunkAssembly c key chunk)
             else if map_of (svFragments assembly) (frIndex fragment) \<noteq> None then (None, c)
             else if int (length (frBytes fragment)) > int (unat (frTotalSize fragment)) - svVideoBytes assembly
             then (None, removeScreenVideoChunkAssembly c key chunk)
             else case makeScreenVideoRetentionRoom c key chunk (int (length (frBytes fragment))) of
               (room, c) \<Rightarrow>
                 if \<not> room \<or> map_of (assemblies (receiverOf c key)) chunk = None then (None, c)
                 else
                   let c = storeScreenFragment c key chunk fragment;
                       assembly = the (map_of (assemblies (receiverOf c key)) chunk)
                   in if length (svFragments assembly) \<noteq> unat (svFragmentCount assembly) then (None, c)
                      else completeAssembly c key chunk)"

section \<open>Forwarding and delivery\<close>

definition queueScreenVideoForward :: "Client \<Rightarrow> roomDatagramStreamKey \<Rightarrow> bytes \<Rightarrow> time \<Rightarrow> Client" where
  "queueScreenVideoForward c key packet deadline =
     (let state = receiverOf c key
      in putReceiver c key (state\<lparr>forwardDeadline := (if forwardPackets state = [] then deadline else forwardDeadline state),
           forwardPackets := forwardPackets state @ [packet]\<rparr>))"

definition flushScreenVideoForward :: "Client \<Rightarrow> roomDatagramStreamKey \<Rightarrow> Client" where
  "flushScreenVideoForward c key =
     (case map_of (screenVideoReceivers c) key of
        None \<Rightarrow> c
      | Some state \<Rightarrow>
          if forwardPackets state = [] then c
          else
            let c = putReceiver c key (state\<lparr>forwardPackets := [], forwardDeadline := 0\<rparr>)
            in if roomNetwork c = None \<or> \<not> directSession (activeOf c (streamSender key)) then c
               else case inboundFanout (the (activeOf c (streamSender key))) of
                 None \<Rightarrow> c
               | Some listeners \<Rightarrow>
                   snd (sendRealtimePacketsToPeers c (forwardPackets state) listeners (forwardDeadline state) 0))"

definition flushScreenVideoForwards :: "Client \<Rightarrow> Client" where
  "flushScreenVideoForwards c = foldl flushScreenVideoForward c (map fst (screenVideoReceivers c))"

text \<open>A full channel loses its oldest chunk.\<close>

definition deliverScreenVideoChunk :: "Client \<Rightarrow> ScreenVideoChunk \<Rightarrow> Client" where
  "deliverScreenVideoChunk c chunk =
     c\<lparr>screenVideoChunks :=
        (if length (screenVideoChunks c) < maxCompletedScreenVideoChunks then screenVideoChunks c else drop 1 (screenVideoChunks c)) @ [chunk]\<rparr>"

definition handleScreenState :: "Client \<Rightarrow> PeerID \<Rightarrow> bytes \<Rightarrow> Client" where
  "handleScreenState c sender payload =
     (case decodeScreenState payload of
        Inl err \<Rightarrow> c
      | Inr state \<Rightarrow>
          (case peerOf c sender of
             None \<Rightarrow> c
           | Some peer \<Rightarrow>
               if state = peerScreenState peer then c
               else publishStateChange (removeScreenVideoAssembliesForSender
                 (updPeer c sender (\<lambda>p. p\<lparr>peerScreenState := state\<rparr>)) sender)))"

end
