(* ===== verification/ScreenReceive.thy ===== *)
theory ScreenReceive
  imports ScreenShare
begin

text \<open>
  What the receiving side of screen sharing guarantees: retained bytes are counted exactly and bounded, the eviction
  loop ends, and a stream's chunks are delivered whole and in order.
\<close>

section \<open>The invariant\<close>

definition parts :: "screenVideoAssembly \<Rightarrow> int" where
  "parts a = total (\<lambda>b. int (length b)) (svFragments a)"

definition asm_inv :: "screenVideoAssembly \<Rightarrow> bool" where
  "asm_inv a \<longleftrightarrow> distinct (map fst (svFragments a)) \<and> svVideoBytes a = parts a \<and> svRetainedBytes a = parts a"

definition held :: "screenVideoReceiveState \<Rightarrow> int" where
  "held s = total svRetainedBytes (assemblies s)"

definition recv_acct :: "screenVideoReceiveState \<Rightarrow> bool" where
  "recv_acct s \<longleftrightarrow> distinct (map fst (assemblies s)) \<and> (\<forall>(chunk, a) \<in> set (assemblies s). asm_inv a)"

text \<open>Only chunks after the last delivered one are assembled.\<close>

definition recv_ordered :: "screenVideoReceiveState \<Rightarrow> bool" where
  "recv_ordered s \<longleftrightarrow> (\<forall>chunk \<in> fst ` set (assemblies s). deliveredChunkID s < chunk \<and> chunk \<le> newestChunkID s)"

definition screen_acct :: "Client \<Rightarrow> bool" where
  "screen_acct c \<longleftrightarrow> distinct (map fst (screenVideoReceivers c)) \<and>
     (\<forall>(key, s) \<in> set (screenVideoReceivers c). recv_acct s) \<and>
     screenVideoRetainedBytes c = total held (screenVideoReceivers c) \<and>
     screenVideoRetainedBytes c \<le> maxScreenVideoRetainedBytes"

definition screen_inv :: "Client \<Rightarrow> bool" where
  "screen_inv c \<longleftrightarrow> screen_acct c \<and> (\<forall>key. recv_ordered (receiverOf c key))"

text \<open>Assemblies are only removed.\<close>

definition shrinks :: "screenVideoReceiveState \<Rightarrow> screenVideoReceiveState \<Rightarrow> bool" where
  "shrinks s' s \<longleftrightarrow> newestChunkID s' = newestChunkID s \<and> deliveredChunkID s' = deliveredChunkID s \<and>
     set (assemblies s') \<subseteq> set (assemblies s)"

lemma shrinks_refl [simp]: "shrinks s s"
  by (simp add: shrinks_def)

lemma shrinks_trans: "shrinks a b \<Longrightarrow> shrinks b c \<Longrightarrow> shrinks a c"
  by (auto simp: shrinks_def)

lemma shrinks_ordered: "shrinks s' s \<Longrightarrow> recv_ordered s \<Longrightarrow> recv_ordered s'"
  by (fastforce simp: shrinks_def recv_ordered_def)

lemma parts_nonneg: "0 \<le> parts a"
  by (auto simp: parts_def intro: total_nonneg)

lemma held_nonneg: "recv_acct s \<Longrightarrow> 0 \<le> held s"
  by (auto simp: held_def recv_acct_def asm_inv_def parts_nonneg intro!: total_nonneg)

lemma recv_acct_empty [simp]: "recv_acct emptyReceiveState" "held emptyReceiveState = 0"
  by (simp_all add: recv_acct_def emptyReceiveState_def held_def)

lemma recv_acctD:
  assumes "recv_acct s" "map_of (assemblies s) chunk = Some a"
  shows "asm_inv a"
  using assms map_of_SomeD [OF assms(2)] by (auto simp: recv_acct_def)

lemma recv_orderedD:
  assumes "recv_ordered s" "map_of (assemblies s) chunk = Some a"
  shows "deliveredChunkID s < chunk" "chunk \<le> newestChunkID s"
proof -
  have "chunk \<in> fst ` set (assemblies s)" using map_of_SomeD [OF assms(2)] by force
  with assms(1) show "deliveredChunkID s < chunk" "chunk \<le> newestChunkID s" unfolding recv_ordered_def by blast+
qed

lemma screen_acct_receiver: "screen_acct c \<Longrightarrow> recv_acct (receiverOf c key)"
  by (auto simp: screen_acct_def receiverOf_def split: option.splits dest!: map_of_SomeD)

lemma receiverOf_put [simp]: "receiverOf (putReceiver c key s) k = (if k = key then s else receiverOf c k)"
  by (simp add: receiverOf_def putReceiver_def)

lemma receiverOf_retained [simp]: "receiverOf (c\<lparr>screenVideoRetainedBytes := n\<rparr>) k = receiverOf c k"
  by (simp add: receiverOf_def)

lemma total_held_put:
  assumes "distinct (map fst (screenVideoReceivers c))"
  shows "total held (screenVideoReceivers (putReceiver c key s)) =
    total held (screenVideoReceivers c) + held s - held (receiverOf c key)"
  using total_update [OF assms, of held key s]
  by (simp add: putReceiver_def receiverOf_def split: option.split)

lemma screen_acct_put:
  assumes inv: "screen_acct c" and s: "recv_acct s"
    and n: "n = screenVideoRetainedBytes c + held s - held (receiverOf c key)" "n \<le> 4194304"
  shows "screen_acct ((putReceiver c key s)\<lparr>screenVideoRetainedBytes := n\<rparr>)"
proof -
  have d: "distinct (map fst (screenVideoReceivers c))" using inv by (simp add: screen_acct_def)
  have "recv_acct s'" if "(k, s') \<in> set (screenVideoReceivers (putReceiver c key s))" for k s'
    using that set_update [of key s "screenVideoReceivers c"] inv s
    by (auto simp: screen_acct_def putReceiver_def)
  moreover have "n = total held (screenVideoReceivers (putReceiver c key s))"
    using n(1) inv by (simp add: total_held_put [OF d] screen_acct_def)
  ultimately show ?thesis using d n(2) by (auto simp: screen_acct_def putReceiver_def)
qed

lemma screen_acct_put_same:
  assumes inv: "screen_acct c" and s: "recv_acct s" and h: "held s = held (receiverOf c key)"
  shows "screen_acct (putReceiver c key s)"
proof -
  have "screen_acct ((putReceiver c key s)\<lparr>screenVideoRetainedBytes := screenVideoRetainedBytes c\<rparr>)"
    using inv h by (intro screen_acct_put [OF inv s]) (simp_all add: screen_acct_def)
  then show ?thesis by (simp add: putReceiver_def)
qed

section \<open>Removing\<close>

lemma recv_acct_delete: "recv_acct s \<Longrightarrow> recv_acct (s\<lparr>assemblies := AList.delete chunk (assemblies s)\<rparr>)"
  using set_delete [of chunk "assemblies s"] by (auto simp: recv_acct_def)

lemma held_delete:
  "recv_acct s \<Longrightarrow> map_of (assemblies s) chunk = Some a \<Longrightarrow>
     held (s\<lparr>assemblies := AList.delete chunk (assemblies s)\<rparr>) = held s - svRetainedBytes a"
  by (simp add: held_def recv_acct_def total_delete)

lemma remove_cases:
  "removeScreenVideoChunkAssembly c key chunk =
     (case map_of (assemblies (receiverOf c key)) chunk of
        None \<Rightarrow> c
      | Some a \<Rightarrow> (putReceiver c key ((receiverOf c key)\<lparr>assemblies := AList.delete chunk (assemblies (receiverOf c key))\<rparr>))
          \<lparr>screenVideoRetainedBytes := screenVideoRetainedBytes c - svRetainedBytes a\<rparr>)"
  by (auto simp: removeScreenVideoChunkAssembly_def receiverOf_def emptyReceiveState_def split: option.splits)

lemma screen_acct_remove:
  assumes inv: "screen_acct c"
  shows "screen_acct (removeScreenVideoChunkAssembly c key chunk)"
proof (cases "map_of (assemblies (receiverOf c key)) chunk")
  case None
  then show ?thesis using inv by (simp add: remove_cases)
next
  case (Some a)
  note r = screen_acct_receiver [OF inv, of key]
  have "0 \<le> svRetainedBytes a" using recv_acctD [OF r Some] by (simp add: asm_inv_def parts_nonneg)
  then have "screen_acct ((putReceiver c key ((receiverOf c key)\<lparr>assemblies := AList.delete chunk (assemblies (receiverOf c key))\<rparr>))
      \<lparr>screenVideoRetainedBytes := screenVideoRetainedBytes c - svRetainedBytes a\<rparr>)"
    using inv by (intro screen_acct_put [OF inv recv_acct_delete [OF r]]) (simp_all add: held_delete [OF r Some] screen_acct_def)
  then show ?thesis by (simp add: remove_cases Some)
qed

lemma receiverOf_remove:
  "receiverOf (removeScreenVideoChunkAssembly c key chunk) k =
     (if k = key then (receiverOf c key)\<lparr>assemblies := AList.delete chunk (assemblies (receiverOf c key))\<rparr> else receiverOf c k)"
  by (auto simp: remove_cases split: option.split)

lemma shrinks_remove: "shrinks (receiverOf (removeScreenVideoChunkAssembly c key chunk) k) (receiverOf c k)"
  using set_delete [of chunk "assemblies (receiverOf c key)"] by (auto simp: receiverOf_remove shrinks_def)

lemma screen_acct_removeChunks: "screen_acct c \<Longrightarrow> screen_acct (removeChunks c key chunks)"
  unfolding removeChunks_def by (induction chunks arbitrary: c) (simp_all add: screen_acct_remove)

lemma removeChunks_Cons [simp]:
  "removeChunks c key [] = c"
  "removeChunks c key (x # xs) = removeChunks (removeScreenVideoChunkAssembly c key x) key xs"
  by (simp_all add: removeChunks_def)

lemma receiverOf_removeChunks:
  "receiverOf (removeChunks c key chunks) k =
     (if k = key then (receiverOf c key)\<lparr>assemblies := filter (\<lambda>(chunk, a). chunk \<notin> set chunks) (assemblies (receiverOf c key))\<rparr>
      else receiverOf c k)"
proof (induction chunks arbitrary: c)
  case Nil
  then show ?case by simp
next
  case (Cons x xs)
  show ?case by (simp add: Cons.IH receiverOf_remove AList.delete_eq) (auto intro!: arg_cong [of _ _ "\<lambda>x. (receiverOf c key)\<lparr>assemblies := x\<rparr>"] filter_cong)
qed

lemma map_of_receivers_iff: "screen_acct c \<Longrightarrow> (key, s) \<in> set (screenVideoReceivers c) \<longleftrightarrow> map_of (screenVideoReceivers c) key = Some s"
  by (simp add: screen_acct_def)

section \<open>Making room\<close>

lemma assemblyCount_update:
  "distinct (map fst m) \<Longrightarrow> map_of m key = Some s \<Longrightarrow>
     sum_list (map (\<lambda>(key, state). length (assemblies state)) (AList.update key s' m)) + length (assemblies s) =
     sum_list (map (\<lambda>(key, state). length (assemblies state)) m) + length (assemblies s')"
  by (induction m) (auto split: if_splits)

lemma length_delete_one: "distinct (map fst m) \<Longrightarrow> map_of m k = Some v \<Longrightarrow> Suc (length (AList.delete k m)) = length m"
proof (induction m)
  case (Cons x m)
  show ?case
  proof (cases "fst x = k")
    case True
    with Cons.prems have "map_of m k = None" by (auto simp: map_of_eq_None_iff)
    then show ?thesis using True by (cases x) simp
  next
    case False
    with Cons show ?thesis by (cases x) simp
  qed
qed simp

lemma assemblyCount_remove:
  assumes inv: "screen_acct c" and k: "map_of (screenVideoReceivers c) key = Some s" and a: "map_of (assemblies s) chunk = Some a"
  shows "Suc (assemblyCount (removeScreenVideoChunkAssembly c key chunk)) = assemblyCount c"
proof -
  have d: "distinct (map fst (screenVideoReceivers c))" using inv by (simp add: screen_acct_def)
  have ds: "distinct (map fst (assemblies s))" using inv k by (auto simp: screen_acct_def recv_acct_def dest!: map_of_SomeD)
  let ?s = "s\<lparr>assemblies := AList.delete chunk (assemblies s)\<rparr>"
  have "removeScreenVideoChunkAssembly c key chunk =
      (putReceiver c key ?s)\<lparr>screenVideoRetainedBytes := screenVideoRetainedBytes c - svRetainedBytes a\<rparr>"
    using k a by (simp add: removeScreenVideoChunkAssembly_def)
  then show ?thesis
    using assemblyCount_update [OF d k, of ?s] length_delete_one [OF ds a]
    by (simp add: assemblyCount_def putReceiver_def)
qed

lemma oldest_present:
  assumes inv: "screen_acct c" and o: "oldestAssembly (otherAssemblies c k0 c0) None = Some (key, chunk, at)"
  shows "\<exists>s a. map_of (screenVideoReceivers c) key = Some s \<and> map_of (assemblies s) chunk = Some a \<and> (key, chunk) \<noteq> (k0, c0)"
proof -
  have m: "(key, chunk, at) \<in> set (otherAssemblies c k0 c0)" using oldestAssembly_member [OF o] by simp
  then obtain s where "(key, s) \<in> set (screenVideoReceivers c)" "chunk \<in> fst ` set (assemblies s)"
    using otherAssemblies_member by blast
  moreover from this(2) obtain a where "map_of (assemblies s) chunk = Some a"
    by (meson map_of_eq_None_iff not_None_eq)
  moreover have "(key, chunk) \<noteq> (k0, c0)"
    using m by (auto simp: otherAssemblies_def List.map_filter_def split: if_splits)
  ultimately show ?thesis using map_of_receivers_iff [OF inv] by blast
qed

lemma retentionLoop_ends:
  "screen_acct c \<Longrightarrow> assemblyCount c < turns \<Longrightarrow>
     \<exists>room c'. retentionLoop turns key chunk cost c = Some (room, c') \<and> screen_acct c' \<and>
       (\<forall>k. shrinks (receiverOf c' k) (receiverOf c k)) \<and>
       (room \<longrightarrow> screenVideoRetainedBytes c' + cost \<le> 4194304) \<and>
       map_of (assemblies (receiverOf c' key)) chunk = map_of (assemblies (receiverOf c key)) chunk"
proof (induction turns arbitrary: c)
  case (Suc turns)
  show ?case
  proof (cases "\<not> cost > 4194304 - screenVideoRetainedBytes c")
    case True
    then show ?thesis using Suc.prems by simp blast
  next
    case False
    show ?thesis
    proof (cases "oldestAssembly (otherAssemblies c key chunk) None")
      case None
      then show ?thesis using False Suc.prems by simp blast
    next
      case (Some x)
      obtain k ch at where x: "x = (k, ch, at)" by (metis prod_cases3)
      obtain s a where p: "map_of (screenVideoReceivers c) k = Some s" "map_of (assemblies s) ch = Some a" "(k, ch) \<noteq> (key, chunk)"
        using oldest_present [OF Suc.prems(1) Some [unfolded x]] by blast
      let ?c = "removeScreenVideoChunkAssembly c k ch"
      have "assemblyCount ?c < turns" using assemblyCount_remove [OF Suc.prems(1) p(1,2)] Suc.prems(2) by simp
      moreover have "map_of (assemblies (receiverOf ?c key)) chunk = map_of (assemblies (receiverOf c key)) chunk"
        using p(3) by (auto simp: receiverOf_remove)
      ultimately show ?thesis
        using Suc.IH [of ?c] screen_acct_remove [OF Suc.prems(1), of k ch] False Some x
          shrinks_trans [OF _ shrinks_remove, of _ c k ch] by auto
    qed
  qed
qed simp

lemma makeRoom:
  assumes inv: "screen_acct c" and m: "makeScreenVideoRetentionRoom c key chunk cost = (room, c')"
  shows "screen_acct c'" "room \<Longrightarrow> screenVideoRetainedBytes c' + cost \<le> 4194304"
    "map_of (assemblies (receiverOf c' key)) chunk = map_of (assemblies (receiverOf c key)) chunk"
    "shrinks (receiverOf c' k) (receiverOf c k)"
proof -
  obtain room' c'' where r: "retentionLoop (Suc (assemblyCount c)) key chunk cost c = Some (room', c'')" "screen_acct c''"
    "\<forall>k. shrinks (receiverOf c'' k) (receiverOf c k)" "room' \<longrightarrow> screenVideoRetainedBytes c'' + cost \<le> 4194304"
    "map_of (assemblies (receiverOf c'' key)) chunk = map_of (assemblies (receiverOf c key)) chunk"
    using retentionLoop_ends [OF inv, of "Suc (assemblyCount c)" key chunk cost] by blast
  show "screen_acct c'" "room \<Longrightarrow> screenVideoRetainedBytes c' + cost \<le> 4194304"
    "map_of (assemblies (receiverOf c' key)) chunk = map_of (assemblies (receiverOf c key)) chunk"
    "shrinks (receiverOf c' k) (receiverOf c k)"
    using m r inv by (auto simp: makeScreenVideoRetentionRoom_def split: if_splits)
qed

section \<open>Accepting a fragment\<close>

definition openedState :: "screenVideoReceiveState \<Rightarrow> uint32 \<Rightarrow> screenVideoReceiveState" where
  "openedState s chunk =
     (if chunk > newestChunkID s
      then s\<lparr>newestChunkID := chunk,
        assemblies := filter (\<lambda>(old, a). \<not> (old < chunk \<and> chunk - old > 1)) (assemblies s)\<rparr>
      else s)"

definition staleChunk :: "screenVideoReceiveState \<Rightarrow> uint32 \<Rightarrow> bool" where
  "staleChunk s chunk \<longleftrightarrow> chunk \<le> deliveredChunkID s \<or> (chunk < newestChunkID s \<and> newestChunkID s - chunk > 1)"

definition withAssembly :: "screenVideoReceiveState \<Rightarrow> uint32 \<Rightarrow> screenVideoAssembly \<Rightarrow> screenVideoReceiveState" where
  "withAssembly s chunk a = s\<lparr>assemblies := AList.update chunk a (assemblies s)\<rparr>"

lemma openedState_props:
  assumes "recv_acct s" "\<not> staleChunk s chunk"
  shows "recv_acct (openedState s chunk)" "deliveredChunkID (openedState s chunk) = deliveredChunkID s"
    "deliveredChunkID s < chunk" "chunk \<le> newestChunkID (openedState s chunk)"
    "map_of (assemblies (openedState s chunk)) chunk = map_of (assemblies s) chunk"
    "set (assemblies (openedState s chunk)) \<subseteq> set (assemblies s)"
proof -
  have d: "distinct (map fst (assemblies s))" using assms(1) by (simp add: recv_acct_def)
  show "recv_acct (openedState s chunk)"
    using assms(1) by (auto simp: recv_acct_def openedState_def distinct_map_filter)
  have nf: "map_of (filter P m) k = None" if "map_of m k = None" for P and m :: "(uint32 \<times> screenVideoAssembly) list" and k
    using that by (auto simp: map_of_eq_None_iff)
  show "map_of (assemblies (openedState s chunk)) chunk = map_of (assemblies s) chunk"
  proof (cases "map_of (assemblies s) chunk")
    case None
    then show ?thesis using nf [OF None] by (simp add: openedState_def)
  next
    case (Some a)
    then have "(chunk, a) \<in> set (assemblies (openedState s chunk))" by (auto simp: openedState_def dest: map_of_SomeD)
    moreover have "distinct (map fst (assemblies (openedState s chunk)))" using d by (simp add: openedState_def distinct_map_filter)
    ultimately show ?thesis using Some by simp
  qed
qed (use assms(2) in \<open>auto simp: openedState_def staleChunk_def\<close>)

lemma withAssembly_props:
  assumes s: "recv_acct s" and a: "asm_inv a"
  shows "recv_acct (withAssembly s chunk a)"
    "held (withAssembly s chunk a) = held s + svRetainedBytes a -
       (case map_of (assemblies s) chunk of None \<Rightarrow> 0 | Some old \<Rightarrow> svRetainedBytes old)"
proof -
  show "recv_acct (withAssembly s chunk a)"
    using assms set_update [of chunk a "assemblies s"] by (auto simp: recv_acct_def withAssembly_def)
  show "held (withAssembly s chunk a) = held s + svRetainedBytes a -
       (case map_of (assemblies s) chunk of None \<Rightarrow> 0 | Some old \<Rightarrow> svRetainedBytes old)"
    using s by (simp add: held_def withAssembly_def recv_acct_def total_update)
qed

lemma asm_inv_new [simp]: "asm_inv (newAssembly f now)" "svRetainedBytes (newAssembly f now) = 0"
  by (simp_all add: asm_inv_def newAssembly_def parts_def)

lemma openAssembly_stale:
  assumes "screen_acct c" "staleChunk (receiverOf c key) chunk" "openAssembly c key chunk f now = (opened, c')"
  shows "\<not> opened" "screen_acct c'" "receiverOf c' k = receiverOf c k"
proof -
  have e: "opened = False" "c' = putReceiver c key (receiverOf c key)"
    using assms(2,3) by (auto simp: openAssembly_def staleChunk_def Let_def)
  show "\<not> opened" "receiverOf c' k = receiverOf c k" by (simp_all add: e)
  show "screen_acct c'" unfolding e(2) by (rule screen_acct_put_same [OF assms(1) screen_acct_receiver [OF assms(1)]]) simp
qed

lemma openAssembly_fresh:
  assumes inv: "screen_acct c" and fresh: "\<not> staleChunk (receiverOf c key) chunk"
    and o: "openAssembly c key chunk f now = (opened, c')"
  shows "opened" "screen_acct c'" "k \<noteq> key \<Longrightarrow> receiverOf c' k = receiverOf c k"
    "receiverOf c' key = (case map_of (assemblies (receiverOf c key)) chunk of
        None \<Rightarrow> withAssembly (openedState (receiverOf c key) chunk) chunk (newAssembly f now)
      | Some a \<Rightarrow> openedState (receiverOf c key) chunk)"
proof -
  let ?s = "receiverOf c key"
  note r = screen_acct_receiver [OF inv, of key]
  note op = openedState_props [OF r fresh]
  define c1 where "c1 = putReceiver c key ?s"
  define c2 where "c2 = (if chunk > newestChunkID ?s
      then removeChunks (putReceiver c1 key (?s\<lparr>newestChunkID := chunk\<rparr>)) key
             (filter (\<lambda>old. old < chunk \<and> chunk - old > 1) (map fst (assemblies ?s))) else c1)"
  have i1: "screen_acct c1" unfolding c1_def by (rule screen_acct_put_same [OF inv r]) simp
  have up: "recv_acct (?s\<lparr>newestChunkID := chunk\<rparr>)"
    using r by (simp add: recv_acct_def)
  have i2: "screen_acct c2"
    using i1 up by (auto simp: c2_def c1_def held_def intro!: screen_acct_removeChunks screen_acct_put_same)
  have "receiverOf c2 key = openedState ?s chunk"
  proof -
    have "filter (\<lambda>(ch, a). ch \<notin> set (filter (\<lambda>old. old < chunk \<and> chunk - old > 1) (map fst (assemblies ?s)))) (assemblies ?s) =
        filter (\<lambda>(old, a). \<not> (old < chunk \<and> chunk - old > 1)) (assemblies ?s)"
      by (rule filter_cong) (auto simp: image_iff)
    then show ?thesis by (simp add: c2_def c1_def receiverOf_removeChunks openedState_def)
  qed
  then have s2: "receiverOf c2 key = openedState ?s chunk" .
  have k2: "receiverOf c2 k = receiverOf c k" if "k \<noteq> key" for k
    using that by (simp add: c2_def c1_def receiverOf_removeChunks)
  have e: "opened = True" "c' = (if map_of (assemblies (receiverOf c2 key)) chunk = None
      then putReceiver c2 key (withAssembly (receiverOf c2 key) chunk (newAssembly f now)) else c2)"
    using o fresh by (auto simp: openAssembly_def staleChunk_def c1_def c2_def withAssembly_def Let_def)
  show "opened" by (simp add: e(1))
  show "k \<noteq> key \<Longrightarrow> receiverOf c' k = receiverOf c k" by (simp add: e(2) k2)
  show "receiverOf c' key = (case map_of (assemblies ?s) chunk of
        None \<Rightarrow> withAssembly (openedState ?s chunk) chunk (newAssembly f now)
      | Some a \<Rightarrow> openedState ?s chunk)"
    using op(5) by (auto simp: e(2) s2 split: option.split)
  have w: "recv_acct (withAssembly (openedState ?s chunk) chunk (newAssembly f now))"
    "map_of (assemblies ?s) chunk = None \<Longrightarrow> held (withAssembly (openedState ?s chunk) chunk (newAssembly f now)) = held (openedState ?s chunk)"
    using withAssembly_props [OF op(1) asm_inv_new(1), of chunk] op by simp_all
  show "screen_acct c'" using i2 w op(5) s2 by (auto simp: e(2) intro!: screen_acct_put_same)
qed

lemma asm_inv_add:
  assumes "asm_inv a" "map_of (svFragments a) i = None"
  shows "asm_inv (a\<lparr>svFragments := AList.update i b (svFragments a), svVideoBytes := svVideoBytes a + int (length b),
      svRetainedBytes := svRetainedBytes a + int (length b)\<rparr>)"
  using assms by (simp add: asm_inv_def parts_def total_update)

definition addFragment :: "screenVideoAssembly \<Rightarrow> decodedScreenVideoFragment \<Rightarrow> screenVideoAssembly" where
  "addFragment a f = a\<lparr>svFragments := AList.update (frIndex f) (frBytes f) (svFragments a),
     svVideoBytes := svVideoBytes a + int (length (frBytes f)), svRetainedBytes := svRetainedBytes a + int (length (frBytes f))\<rparr>"

lemma storeScreenFragment_eq:
  assumes "map_of (assemblies (receiverOf c key)) chunk = Some a"
  shows "storeScreenFragment c key chunk f =
    (putReceiver c key (withAssembly (receiverOf c key) chunk (addFragment a f)))
      \<lparr>screenVideoRetainedBytes := screenVideoRetainedBytes c + int (length (frBytes f))\<rparr>"
  using assms by (simp add: storeScreenFragment_def withAssembly_def addFragment_def Let_def)

lemma screen_acct_store:
  assumes inv: "screen_acct c" and a: "map_of (assemblies (receiverOf c key)) chunk = Some a"
    and new: "map_of (svFragments a) (frIndex f) = None"
    and room: "screenVideoRetainedBytes c + int (length (frBytes f)) \<le> 4194304"
  shows "screen_acct (storeScreenFragment c key chunk f)"
proof -
  note r = screen_acct_receiver [OF inv, of key]
  note d = recv_acctD [OF r a]
  have "asm_inv (addFragment a f)" using asm_inv_add [OF d new] by (simp add: addFragment_def)
  note w = withAssembly_props [OF r this]
  show ?thesis unfolding storeScreenFragment_eq [OF a]
    by (rule screen_acct_put [OF inv w(1)]) (use room a w(2) in \<open>simp_all add: addFragment_def\<close>)
qed

lemma completeAssembly_props:
  assumes inv: "screen_acct c" and a: "map_of (assemblies (receiverOf c key)) chunk = Some a"
    and r: "completeAssembly c key chunk = (out, c')"
  shows "screen_acct c'" "k \<noteq> key \<Longrightarrow> receiverOf c' k = receiverOf c k"
    "deliveredChunkID (receiverOf c' key) = chunk"
    "assemblies (receiverOf c' key) = filter (\<lambda>(old, a). \<not> old \<le> chunk) (assemblies (receiverOf c key))"
    "newestChunkID (receiverOf c' key) = newestChunkID (receiverOf c key)"
    "out = (if length (concat (map (fragmentAt a) [0..<unat (svFragmentCount a)])) = unat (svTotalSize a)
       then Some \<lparr>ccChunkID = chunk, ccMetadata = svMetadata a,
         ccBytes = concat (map (fragmentAt a) [0..<unat (svFragmentCount a)])\<rparr> else None)"
proof -
  let ?s = "receiverOf c key"
  let ?old = "filter (\<lambda>old. old \<le> chunk) (map fst (assemblies ?s))"
  note ri = screen_acct_receiver [OF inv, of key]
  have c': "c' = removeChunks (putReceiver c key (?s\<lparr>deliveredChunkID := chunk\<rparr>)) key ?old"
    using r a by (simp add: completeAssembly_def Let_def)
  have "recv_acct (?s\<lparr>deliveredChunkID := chunk\<rparr>)" using ri by (simp add: recv_acct_def)
  then show "screen_acct c'"
    unfolding c' by (intro screen_acct_removeChunks screen_acct_put_same [OF inv]) (simp_all add: held_def)
  show "k \<noteq> key \<Longrightarrow> receiverOf c' k = receiverOf c k" by (simp add: c' receiverOf_removeChunks)
  show "deliveredChunkID (receiverOf c' key) = chunk" by (simp add: c' receiverOf_removeChunks)
  show "newestChunkID (receiverOf c' key) = newestChunkID (receiverOf c key)" by (simp add: c' receiverOf_removeChunks)
  have "filter (\<lambda>(ch, a). ch \<notin> set ?old) (assemblies ?s) = filter (\<lambda>(old, a). \<not> old \<le> chunk) (assemblies ?s)"
    by (rule filter_cong) (auto simp: image_iff)
  then show "assemblies (receiverOf c' key) = filter (\<lambda>(old, a). \<not> old \<le> chunk) (assemblies ?s)"
    by (simp add: c' receiverOf_removeChunks)
  show "out = (if length (concat (map (fragmentAt a) [0..<unat (svFragmentCount a)])) = unat (svTotalSize a)
       then Some \<lparr>ccChunkID = chunk, ccMetadata = svMetadata a,
         ccBytes = concat (map (fragmentAt a) [0..<unat (svFragmentCount a)])\<rparr> else None)"
    using r a by (auto simp: completeAssembly_def Let_def)
qed

lemma opened_assembly:
  assumes inv: "screen_inv c" and fresh: "\<not> staleChunk (receiverOf c key) chunk"
    and o: "openAssembly c key chunk f now = (opened, c')"
  obtains a where "map_of (assemblies (receiverOf c' key)) chunk = Some a"
    "a = newAssembly f now \<or> map_of (assemblies (receiverOf c key)) chunk = Some a"
    "set (assemblies (receiverOf c' key)) \<subseteq> insert (chunk, a) (set (assemblies (receiverOf c key)))"
    "screen_inv c'" "deliveredChunkID (receiverOf c' key) = deliveredChunkID (receiverOf c key)"
    "deliveredChunkID (receiverOf c key) < chunk"
proof -
  let ?s = "receiverOf c key"
  have acct: "screen_acct c" and ord: "recv_ordered (receiverOf c k)" for k using inv by (simp_all add: screen_inv_def)
  note op = openedState_props [OF screen_acct_receiver [OF acct] fresh]
  note of = openAssembly_fresh [OF acct fresh o]
  define a where "a = (case map_of (assemblies ?s) chunk of None \<Rightarrow> newAssembly f now | Some a \<Rightarrow> a)"
  have r: "receiverOf c' key = (if map_of (assemblies ?s) chunk = None
      then withAssembly (openedState ?s chunk) chunk a else openedState ?s chunk)"
    using of(4) by (auto simp: a_def split: option.splits)
  have 1: "map_of (assemblies (receiverOf c' key)) chunk = Some a"
    using op(5) by (auto simp: r withAssembly_def a_def)
  have 2: "a = newAssembly f now \<or> map_of (assemblies ?s) chunk = Some a" by (auto simp: a_def split: option.split)
  have 3: "set (assemblies (receiverOf c' key)) \<subseteq> insert (chunk, a) (set (assemblies ?s))"
    using op(6) set_update [of chunk a "assemblies (openedState ?s chunk)"] by (auto simp: r withAssembly_def)
  have newest: "newestChunkID ?s \<le> newestChunkID (openedState ?s chunk)"
    by (simp add: openedState_def less_imp_le)
  have "recv_ordered (receiverOf c' key)"
    unfolding recv_ordered_def
  proof
    fix ch assume "ch \<in> fst ` set (assemblies (receiverOf c' key))"
    with 3 have "ch = chunk \<or> ch \<in> fst ` set (assemblies ?s)" by force
    moreover have "deliveredChunkID (receiverOf c' key) = deliveredChunkID ?s"
      "newestChunkID (receiverOf c' key) = newestChunkID (openedState ?s chunk)"
      using op(2) by (simp_all add: r withAssembly_def)
    ultimately show "deliveredChunkID (receiverOf c' key) < ch \<and> ch \<le> newestChunkID (receiverOf c' key)"
      using op(3,4) ord [of key] newest unfolding recv_ordered_def by (metis order_trans)
  qed
  with of(2,3) ord have "screen_inv c'" unfolding screen_inv_def by (metis (full_types))
  with 1 2 3 op(2,3) that show ?thesis by (simp add: r withAssembly_def)
qed

lemma screen_inv_shrink:
  "screen_acct c' \<Longrightarrow> screen_inv c \<Longrightarrow> (\<And>k. shrinks (receiverOf c' k) (receiverOf c k)) \<Longrightarrow> screen_inv c'"
  by (meson screen_inv_def shrinks_ordered)

lemma screen_inv_remove: "screen_inv c \<Longrightarrow> screen_inv (removeScreenVideoChunkAssembly c key chunk)"
  by (rule screen_inv_shrink [OF _ _ shrinks_remove]) (simp_all add: screen_acct_remove screen_inv_def)

lemma screen_inv_stored:
  assumes inv: "screen_inv c" and a: "map_of (assemblies (receiverOf c key)) chunk = Some a"
    and new: "map_of (svFragments a) (frIndex f) = None"
    and room: "screenVideoRetainedBytes c + int (length (frBytes f)) \<le> 4194304"
  shows "screen_inv (storeScreenFragment c key chunk f)"
proof -
  have acct: "screen_acct c" and ord: "recv_ordered (receiverOf c k)" for k using inv by (simp_all add: screen_inv_def)
  have r: "receiverOf (storeScreenFragment c key chunk f) k =
      (if k = key then withAssembly (receiverOf c key) chunk (addFragment a f) else receiverOf c k)" for k
    by (simp add: storeScreenFragment_eq [OF a])
  have "insert chunk (fst ` set (assemblies (receiverOf c key))) = fst ` set (assemblies (receiverOf c key))"
    using map_of_SomeD [OF a] by force
  then have "recv_ordered (withAssembly (receiverOf c key) chunk (addFragment a f))"
    using ord [of key] by (simp add: recv_ordered_def withAssembly_def)
  then show ?thesis using screen_acct_store [OF acct a new room] ord by (simp add: screen_inv_def r)
qed

lemma screen_inv_completed:
  assumes inv: "screen_inv c" and a: "map_of (assemblies (receiverOf c key)) chunk = Some a"
    and r: "completeAssembly c key chunk = (out, c')"
  shows "screen_inv c'"
proof -
  have acct: "screen_acct c" and ord: "recv_ordered (receiverOf c k)" for k using inv by (simp_all add: screen_inv_def)
  note p = completeAssembly_props [OF acct a r]
  have "recv_ordered (receiverOf c' key)"
    using ord [of key] unfolding recv_ordered_def p(3,4,5) by (auto simp: not_le)
  then show ?thesis using p(1,2) ord unfolding screen_inv_def by (metis (full_types))
qed

section \<open>The outcome of a fragment\<close>

text \<open>Nothing happens to the chunk, its assembly is dropped, or the fragment is stored and the chunk perhaps
  completed; other streams at most lose assemblies.\<close>

definition completionOf :: "uint32 \<Rightarrow> screenVideoAssembly \<Rightarrow> completedScreenVideoChunk" where
  "completionOf chunk a = \<lparr>ccChunkID = chunk, ccMetadata = svMetadata a,
     ccBytes = concat (map (fragmentAt a) [0..<unat (svFragmentCount a)])\<rparr>"

definition outcome ::
  "Client \<Rightarrow> roomDatagramStreamKey \<Rightarrow> uint32 \<Rightarrow> decodedScreenVideoFragment \<Rightarrow> time \<Rightarrow>
     completedScreenVideoChunk option \<Rightarrow> Client \<Rightarrow> bool" where
  "outcome c key chunk f now out c' \<longleftrightarrow>
     screen_inv c' \<and> (\<forall>k. k \<noteq> key \<longrightarrow> shrinks (receiverOf c' k) (receiverOf c k)) \<and>
     deliveredChunkID (receiverOf c key) \<le> deliveredChunkID (receiverOf c' key) \<and>
     (out \<noteq> None \<longrightarrow> deliveredChunkID (receiverOf c key) < chunk \<and> deliveredChunkID (receiverOf c' key) = chunk) \<and>
     (\<exists>a. (a = newAssembly f now \<or> map_of (assemblies (receiverOf c key)) chunk = Some a) \<and>
       (set (assemblies (receiverOf c' key)) \<subseteq> insert (chunk, a) (set (assemblies (receiverOf c key))) \<and> out = None \<or>
        \<not> fragmentMismatch a f \<and> map_of (svFragments a) (frIndex f) = None \<and>
        set (assemblies (receiverOf c' key)) \<subseteq>
          insert (chunk, addFragment a f) (insert (chunk, a) (set (assemblies (receiverOf c key)))) \<and>
        out \<in> {None, Some (completionOf chunk (addFragment a f))} \<and>
        (out \<noteq> None \<longrightarrow> length (svFragments (addFragment a f)) = unat (svFragmentCount (addFragment a f)))))"

lemma outcome_quiet:
  assumes "screen_inv c2" "\<And>k. shrinks (receiverOf c2 k) (receiverOf c1 k)"
    "\<And>k. k \<noteq> key \<Longrightarrow> receiverOf c1 k = receiverOf c k"
    "deliveredChunkID (receiverOf c1 key) = deliveredChunkID (receiverOf c key)"
    "a = newAssembly f now \<or> map_of (assemblies (receiverOf c key)) chunk = Some a"
    "set (assemblies (receiverOf c1 key)) \<subseteq> insert (chunk, a) (set (assemblies (receiverOf c key)))"
  shows "outcome c key chunk f now None c2"
proof -
  have "set (assemblies (receiverOf c2 key)) \<subseteq> insert (chunk, a) (set (assemblies (receiverOf c key)))"
    using assms(2) [of key] assms(6) by (auto simp: shrinks_def)
  moreover have "deliveredChunkID (receiverOf c2 key) = deliveredChunkID (receiverOf c key)"
    using assms(2) [of key] assms(4) by (simp add: shrinks_def)
  moreover have "shrinks (receiverOf c2 k) (receiverOf c k)" if "k \<noteq> key" for k
    using assms(2) [of k] assms(3) that by simp
  ultimately show ?thesis using assms(1,5) by (auto simp: outcome_def)
qed

lemma outcome_stored:
  assumes inv: "screen_inv c2" and a2: "map_of (assemblies (receiverOf c2 key)) chunk = Some a"
    and nf: "\<not> fragmentMismatch a f" "map_of (svFragments a) (frIndex f) = None"
    and room: "screenVideoRetainedBytes c2 + int (length (frBytes f)) \<le> 4194304"
    and r: "(if length (svFragments (addFragment a f)) \<noteq> unat (svFragmentCount (addFragment a f))
        then (None, storeScreenFragment c2 key chunk f)
        else completeAssembly (storeScreenFragment c2 key chunk f) key chunk) = (out, c')"
    and oth: "\<And>k. k \<noteq> key \<Longrightarrow> shrinks (receiverOf c2 k) (receiverOf c k)"
    and del: "deliveredChunkID (receiverOf c2 key) = deliveredChunkID (receiverOf c key)" "deliveredChunkID (receiverOf c key) < chunk"
    and a: "a = newAssembly f now \<or> map_of (assemblies (receiverOf c key)) chunk = Some a"
    and sub: "set (assemblies (receiverOf c2 key)) \<subseteq> insert (chunk, a) (set (assemblies (receiverOf c key)))"
  shows "outcome c key chunk f now out c'"
proof -
  let ?c3 = "storeScreenFragment c2 key chunk f"
  have r3: "receiverOf ?c3 k = (if k = key then withAssembly (receiverOf c2 key) chunk (addFragment a f) else receiverOf c2 k)" for k
    by (simp add: storeScreenFragment_eq [OF a2])
  have a3: "map_of (assemblies (receiverOf ?c3 key)) chunk = Some (addFragment a f)" by (simp add: r3 withAssembly_def)
  have sub3: "set (assemblies (receiverOf ?c3 key)) \<subseteq>
      insert (chunk, addFragment a f) (insert (chunk, a) (set (assemblies (receiverOf c key))))"
    using set_update [of chunk "addFragment a f" "assemblies (receiverOf c2 key)"] sub by (auto simp: r3 withAssembly_def)
  have i3: "screen_inv ?c3" using inv a2 nf(2) room by (rule screen_inv_stored)
  show ?thesis
  proof (cases "length (svFragments (addFragment a f)) = unat (svFragmentCount (addFragment a f))")
    case False
    then have "out = None" "c' = ?c3" using r by simp_all
    then show ?thesis using i3 oth del sub3 a nf by (auto simp: outcome_def r3 withAssembly_def)
  next
    case True
    then have cmp: "completeAssembly ?c3 key chunk = (out, c')" using r by simp
    have acct3: "screen_acct ?c3" using i3 by (simp add: screen_inv_def)
    note p = completeAssembly_props [OF acct3 a3 cmp]
    have "screen_inv c'" using i3 a3 cmp by (rule screen_inv_completed)
    moreover have "set (assemblies (receiverOf c' key)) \<subseteq>
        insert (chunk, addFragment a f) (insert (chunk, a) (set (assemblies (receiverOf c key))))"
      using sub3 unfolding p(4) by auto
    moreover have "shrinks (receiverOf c' k) (receiverOf c k)" if "k \<noteq> key" for k using p(2) oth that by (simp add: r3)
    moreover have "out \<in> {None, Some (completionOf chunk (addFragment a f))}" by (simp add: p(6) completionOf_def)
    ultimately show ?thesis using p(3) del a nf True unfolding outcome_def by (metis (no_types, lifting) less_imp_le)
  qed
qed

lemma accept_outcome:
  assumes inv: "screen_inv c" and r: "acceptScreenVideoFragment c key chunk f now = (out, c')"
  shows "outcome c key chunk f now out c'"
proof -
  let ?s = "receiverOf c key"
  have acct: "screen_acct c" using inv by (simp add: screen_inv_def)
  obtain opened c1 where o: "openAssembly c key chunk f now = (opened, c1)" by fastforce
  show ?thesis
  proof (cases "staleChunk ?s chunk")
    case True
    note st = openAssembly_stale [OF acct True o]
    have e: "out = None" "c' = c1" using r o st(1) by (simp_all add: acceptScreenVideoFragment_def)
    have "screen_inv c1" by (rule screen_inv_shrink [OF st(2) inv]) (simp add: st(3))
    then show ?thesis unfolding e by (rule outcome_quiet [where ?c1.0 = c1 and a = "newAssembly f now"]) (auto simp: st(3))
  next
    case False
    obtain a where a: "map_of (assemblies (receiverOf c1 key)) chunk = Some a"
      "a = newAssembly f now \<or> map_of (assemblies ?s) chunk = Some a"
      "set (assemblies (receiverOf c1 key)) \<subseteq> insert (chunk, a) (set (assemblies ?s))"
      "screen_inv c1" "deliveredChunkID (receiverOf c1 key) = deliveredChunkID ?s" "deliveredChunkID ?s < chunk"
      using opened_assembly [OF inv False o] by blast
    note op = openAssembly_fresh(1,3) [OF acct False o]
    note quiet = outcome_quiet [OF _ _ op(2) a(5,2,3)]
    obtain room c2 where m: "makeScreenVideoRetentionRoom c1 key chunk (int (length (frBytes f))) = (room, c2)" by fastforce
    have acct1: "screen_acct c1" using a(4) by (simp add: screen_inv_def)
    note mr = makeRoom [OF acct1 m]
    have i2: "screen_inv c2" by (rule screen_inv_shrink [OF mr(1) a(4) mr(4)])
    have a2: "map_of (assemblies (receiverOf c2 key)) chunk = Some a" using mr(3) a(1) by simp
    have a3: "map_of (assemblies (receiverOf (storeScreenFragment c2 key chunk f) key)) chunk = Some (addFragment a f)"
      by (simp add: storeScreenFragment_eq [OF a2] withAssembly_def)
    show ?thesis
    proof (cases "chunkExpired now a \<or> fragmentMismatch a f \<or> map_of (svFragments a) (frIndex f) \<noteq> None \<or>
        int (length (frBytes f)) > int (unat (frTotalSize f)) - svVideoBytes a \<or> \<not> room")
      case True
      then have "(out, c') \<in> {(None, removeScreenVideoChunkAssembly c1 key chunk), (None, c1), (None, c2)}"
        using r o op(1) a(1) m by (auto simp: acceptScreenVideoFragment_def Let_def split: if_splits)
      then show ?thesis
        using quiet [OF screen_inv_remove [OF a(4)] shrinks_remove] quiet [OF a(4) shrinks_refl] quiet [OF i2 mr(4)] by auto
    next
      case False
      then have nf: "\<not> fragmentMismatch a f" "map_of (svFragments a) (frIndex f) = None" and rm: "room" by auto
      show ?thesis
      proof (rule outcome_stored [OF i2 a2 nf mr(2) [OF rm]])
        show "(if length (svFragments (addFragment a f)) \<noteq> unat (svFragmentCount (addFragment a f))
            then (None, storeScreenFragment c2 key chunk f)
            else completeAssembly (storeScreenFragment c2 key chunk f) key chunk) = (out, c')"
          using r o op(1) a(1) m a2 a3 False by (simp add: acceptScreenVideoFragment_def Let_def)
        show "shrinks (receiverOf c2 k) (receiverOf c k)" if "k \<noteq> key" for k using mr(4) [of k] op(2) that by simp
        show "deliveredChunkID (receiverOf c2 key) = deliveredChunkID ?s" using mr(4) [of key] a(5) by (simp add: shrinks_def)
        show "set (assemblies (receiverOf c2 key)) \<subseteq> insert (chunk, a) (set (assemblies ?s))"
          using mr(4) [of key] a(3) by (auto simp: shrinks_def)
      qed (use a in simp_all)
    qed
  qed
qed

end
