(* ===== verification/ScreenStream.thy ===== *)
theory ScreenStream
  imports ScreenReceive
begin

text \<open>
  The receiver of screen video over every sequence of events: fragments of any stream, expiry, senders that
  change or stop their stream, forwarding.  The memory it holds is exact and bounded, and the chunks
  it hands on are the ones that were sent, in order.
\<close>

section \<open>The other operations keep the invariant\<close>

lemma shrinks_removeChunks: "shrinks (receiverOf (removeChunks c key chunks) k) (receiverOf c k)"
  by (auto simp: receiverOf_removeChunks shrinks_def)

lemma screen_inv_removeChunks: "screen_inv c \<Longrightarrow> screen_inv (removeChunks c key chunks)"
  by (rule screen_inv_shrink [OF _ _ shrinks_removeChunks]) (simp_all add: screen_acct_removeChunks screen_inv_def)

lemma expire_fold:
  "screen_inv c \<Longrightarrow> screen_inv (foldl (\<lambda>c (key, state). removeChunks c key (f state)) c rs) \<and>
     (\<forall>k. shrinks (receiverOf (foldl (\<lambda>c (key, state). removeChunks c key (f state)) c rs) k) (receiverOf c k))"
proof (induction rs arbitrary: c)
  case Nil
  then show ?case by simp
next
  case (Cons r rs)
  obtain key state where r: "r = (key, state)" by fastforce
  note IH = Cons.IH [OF screen_inv_removeChunks [OF Cons.prems, of key "f state"]]
  show ?case using IH shrinks_trans [OF _ shrinks_removeChunks [of c key "f state"]] by (simp add: r)
qed

lemma screen_inv_expire: "screen_inv c \<Longrightarrow> screen_inv (expireScreenVideoChunks c now)"
  and shrinks_expire: "screen_inv c \<Longrightarrow> shrinks (receiverOf (expireScreenVideoChunks c now) k) (receiverOf c k)"
  unfolding expireScreenVideoChunks_def
  by (rule expire_fold [THEN conjunct1], assumption) (rule expire_fold [THEN conjunct2, THEN spec], assumption)

lemma assemblies_removed: "assemblies (receiverOf (removeScreenVideoAssembly c key) key) = []"
proof (cases "map_of (screenVideoReceivers c) key")
  case None
  then show ?thesis by (simp add: removeScreenVideoAssembly_def receiverOf_def emptyReceiveState_def)
next
  case (Some s)
  then have "receiverOf c key = s" by (simp add: receiverOf_def)
  with Some show ?thesis by (force simp: removeScreenVideoAssembly_def receiverOf_removeChunks filter_empty_conv)
qed

lemma removeAll_inv:
  assumes "screen_inv c"
  shows "screen_inv (removeScreenVideoAssembly c key)"
  using assms screen_inv_removeChunks by (auto simp: removeScreenVideoAssembly_def split: option.split)

lemma receiverOf_removeAll: "k \<noteq> key \<Longrightarrow> receiverOf (removeScreenVideoAssembly c key) k = receiverOf c k"
  by (auto simp: removeScreenVideoAssembly_def receiverOf_removeChunks split: option.split)

lemma receiverOf_drop: "receiverOf (dropReceiver c key) k = (if k = key then emptyReceiveState else receiverOf c k)"
  using receiverOf_removeAll [of k key c] by (simp add: dropReceiver_def receiverOf_def)

lemma screen_inv_drop:
  assumes "screen_inv c"
  shows "screen_inv (dropReceiver c key)"
proof -
  let ?c = "removeScreenVideoAssembly c key"
  have a: "screen_acct ?c" using removeAll_inv [OF assms] by (simp add: screen_inv_def)
  have d: "distinct (map fst (screenVideoReceivers ?c))" using a by (simp add: screen_acct_def)
  have z: "held (receiverOf ?c key) = 0" by (simp add: held_def assemblies_removed)
  have "total held (AList.delete key (screenVideoReceivers ?c)) = total held (screenVideoReceivers ?c)"
  proof (cases "map_of (screenVideoReceivers ?c) key")
    case None
    then show ?thesis by (simp add: map_of_eq_None_iff AList.delete_id)
  next
    case (Some s)
    then show ?thesis using z by (simp add: total_delete [OF d Some] receiverOf_def)
  qed
  then have "screen_acct (dropReceiver c key)"
    using a set_delete [of key "screenVideoReceivers ?c"] by (auto simp: dropReceiver_def screen_acct_def)
  moreover have "recv_ordered (receiverOf (dropReceiver c key) k)" for k
    using assms by (simp add: receiverOf_drop screen_inv_def) (simp add: recv_ordered_def emptyReceiveState_def)
  ultimately show ?thesis by (simp add: screen_inv_def)
qed

lemma drop_fold:
  "screen_inv c \<Longrightarrow> screen_inv (foldl dropReceiver c keys) \<and>
     (\<forall>k. k \<notin> set keys \<longrightarrow> receiverOf (foldl dropReceiver c keys) k = receiverOf c k)"
  by (induction keys arbitrary: c) (simp_all add: screen_inv_drop receiverOf_drop)

lemma screen_inv_sender: "screen_inv c \<Longrightarrow> screen_inv (removeScreenVideoAssembliesForSender c sender)"
  and receiverOf_sender: "screen_inv c \<Longrightarrow> streamSender k \<noteq> sender \<Longrightarrow>
    receiverOf (removeScreenVideoAssembliesForSender c sender) k = receiverOf c k"
  unfolding removeScreenVideoAssembliesForSender_def using drop_fold by auto

lemma screen_inv_put_forward:
  assumes "screen_inv c" "assemblies s = assemblies (receiverOf c key)" "newestChunkID s = newestChunkID (receiverOf c key)"
    "deliveredChunkID s = deliveredChunkID (receiverOf c key)"
  shows "screen_inv (putReceiver c key s)"
proof -
  have a: "screen_acct c" using assms(1) by (simp add: screen_inv_def)
  have "recv_acct s" "held s = held (receiverOf c key)"
    using screen_acct_receiver [OF a, of key] assms(2) by (simp_all add: recv_acct_def held_def)
  then have "screen_acct (putReceiver c key s)" using a by (intro screen_acct_put_same)
  then show ?thesis by (rule screen_inv_shrink [OF _ assms(1)]) (simp add: shrinks_def assms)
qed

lemma screen_inv_queue_forward: "screen_inv c \<Longrightarrow> screen_inv (queueScreenVideoForward c key packet deadline)"
  by (auto simp: queueScreenVideoForward_def Let_def intro: screen_inv_put_forward)

lemma shrinks_queue_forward: "shrinks (receiverOf (queueScreenVideoForward c key packet deadline) k) (receiverOf c k)"
  by (simp add: queueScreenVideoForward_def Let_def shrinks_def)

section \<open>Every sequence of events\<close>

datatype screenEvent =
    ScreenFragment roomDatagramStreamKey uint32 decodedScreenVideoFragment time
  | ScreenExpire time
  | ScreenSenderChanged PeerID
  | ScreenForward roomDatagramStreamKey bytes time

fun screenStep :: "Client \<Rightarrow> screenEvent \<Rightarrow> Client" where
  "screenStep c (ScreenFragment key chunk f now) = snd (acceptScreenVideoFragment c key chunk f now)"
| "screenStep c (ScreenExpire now) = expireScreenVideoChunks c now"
| "screenStep c (ScreenSenderChanged peer) = removeScreenVideoAssembliesForSender c peer"
| "screenStep c (ScreenForward key packet deadline) = queueScreenVideoForward c key packet deadline"

text \<open>The chunks completed on one stream.\<close>

fun screenCompleted :: "roomDatagramStreamKey \<Rightarrow> Client \<Rightarrow> screenEvent list \<Rightarrow> completedScreenVideoChunk list" where
  "screenCompleted key c [] = []"
| "screenCompleted key c (ScreenFragment k chunk f now # es) =
     (if k = key then case fst (acceptScreenVideoFragment c k chunk f now) of None \<Rightarrow> [] | Some d \<Rightarrow> [d] else []) @
     screenCompleted key (screenStep c (ScreenFragment k chunk f now)) es"
| "screenCompleted key c (e # es) = screenCompleted key (screenStep c e) es"

lemma outcome_other: "outcome c key chunk f now out c' \<Longrightarrow> k \<noteq> key \<Longrightarrow> shrinks (receiverOf c' k) (receiverOf c k)"
  unfolding outcome_def by (elim conjE) simp

lemma outcome_delivered:
  assumes "outcome c key chunk f now out c'"
  shows "deliveredChunkID (receiverOf c key) \<le> deliveredChunkID (receiverOf c' key)"
    "out \<noteq> None \<Longrightarrow> deliveredChunkID (receiverOf c key) < chunk \<and> deliveredChunkID (receiverOf c' key) = chunk"
  using assms unfolding outcome_def by (elim conjE, simp)+

lemma screen_inv_accept: "screen_inv c \<Longrightarrow> screen_inv (snd (acceptScreenVideoFragment c key chunk f now))"
  using accept_outcome [of c key chunk f now] by (cases "acceptScreenVideoFragment c key chunk f now") (auto simp: outcome_def)

lemma screen_inv_step: "screen_inv c \<Longrightarrow> screen_inv (screenStep c e)"
  by (cases e) (simp_all add: screen_inv_accept screen_inv_expire screen_inv_sender screen_inv_queue_forward)

lemma screen_inv_start: "screenVideoReceivers c = [] \<Longrightarrow> screenVideoRetainedBytes c = 0 \<Longrightarrow> screen_inv c"
  by (simp add: screen_inv_def screen_acct_def receiverOf_def recv_ordered_def emptyReceiveState_def)

interpretation screen: machine screenStep screen_inv "\<lambda>c. screenVideoReceivers c = [] \<and> screenVideoRetainedBytes c = 0"
  by unfold_locales (auto intro: screen_inv_start screen_inv_step)

text \<open>C13: The memory of screen video is exact and bounded: after every sequence of fragments of any streams,
  expiries, restarted streams and forwards, the retained byte count is the number of fragment bytes held over all
  streams, at most four megabytes; the eviction loop always ends within its turns.\<close>

theorem screen_memory_bounded:
  "let c = foldl screenStep (blankClient peerID name key protector) events
   in screenVideoRetainedBytes c =
        (\<Sum>(k, s) \<leftarrow> screenVideoReceivers c. \<Sum>(chunk, a) \<leftarrow> assemblies s. \<Sum>(i, part) \<leftarrow> svFragments a. int (length part)) \<and>
      screenVideoRetainedBytes c \<le> 4 * 1024 * 1024 \<and>
      retentionLoop (Suc (assemblyCount c)) k chunk cost c \<noteq> None"
proof -
  let ?c = "foldl screenStep (blankClient peerID name key protector) events"
  have "screen_inv ?c" by (rule screen.inv_reachable) (simp add: blankClient_def)
  then have a: "screen_acct ?c" by (simp add: screen_inv_def)
  have h: "held s = (\<Sum>(chunk, a) \<leftarrow> assemblies s. \<Sum>(i, part) \<leftarrow> svFragments a. int (length part))" if "recv_acct s" for s
  proof -
    have "svRetainedBytes a = (\<Sum>(i, part) \<leftarrow> svFragments a. int (length part))" if "(n, a) \<in> set (assemblies s)" for n a
      using that \<open>recv_acct s\<close> by (auto simp: recv_acct_def asm_inv_def parts_def total_def)
    then show ?thesis unfolding held_def total_def by (intro arg_cong [of _ _ sum_list] map_cong) auto
  qed
  have "total held (screenVideoReceivers ?c) =
      (\<Sum>(k, s) \<leftarrow> screenVideoReceivers ?c. \<Sum>(chunk, a) \<leftarrow> assemblies s. \<Sum>(i, part) \<leftarrow> svFragments a. int (length part))"
    unfolding total_def using a by (intro arg_cong [of _ _ sum_list] map_cong) (auto simp: screen_acct_def h)
  moreover have "retentionLoop (Suc (assemblyCount ?c)) k chunk cost ?c \<noteq> None"
    using retentionLoop_ends [OF a, of "Suc (assemblyCount ?c)" k chunk cost] by auto
  ultimately show ?thesis using a by (simp add: Let_def screen_acct_def)
qed

section \<open>What was sent is what is shown\<close>

text \<open>An assembly holds pieces of the chunk its sender encoded.\<close>

definition asm_of :: "screenVideoMetadata \<Rightarrow> bytes \<Rightarrow> screenVideoAssembly \<Rightarrow> bool" where
  "asm_of m data a \<longleftrightarrow> svMetadata a = m \<and> svFragmentCount a = of_nat (fragmentTotal (length data)) \<and>
     svTotalSize a = of_nat (length data) \<and> distinct (map fst (svFragments a)) \<and>
     (\<forall>(i, part) \<in> set (svFragments a). unat i < fragmentTotal (length data) \<and> part = fragmentBytes data (unat i))"

lemma asm_of_new: "asm_of m data (newAssembly (fragmentOf m data i) now)"
  by (simp add: asm_of_def newAssembly_def fragmentOf_def)

lemma unat_fragment_index: "length data \<le> 262144 \<Longrightarrow> i \<le> fragmentTotal (length data) \<Longrightarrow> unat (of_nat i :: uint16) = i"
  using fragmentTotal_bound [of "length data"] by (simp add: unat_of_nat)

lemma asm_of_add:
  assumes "asm_of m data a" "length data \<le> 262144" "i < fragmentTotal (length data)"
  shows "asm_of m data (addFragment a (fragmentOf m data i))"
proof -
  have "unat (of_nat i :: uint16) = i" using assms(2,3) by (intro unat_fragment_index) auto
  then show ?thesis
    using assms set_update [of "of_nat i" "fragmentBytes data i" "svFragments a"]
    by (auto simp: asm_of_def addFragment_def fragmentOf_def distinct_update)
qed

lemma asm_of_complete:
  assumes a: "asm_of m data a" and len: "length data \<le> 262144" and n: "length (svFragments a) = unat (svFragmentCount a)"
  shows "completionOf chunk a = \<lparr>ccChunkID = chunk, ccMetadata = m, ccBytes = data\<rparr>"
proof -
  let ?n = "fragmentTotal (length data)"
  have count: "unat (svFragmentCount a) = ?n" using a len by (simp add: asm_of_def unat_fragment_index)
  have d: "distinct (map fst (svFragments a))" using a by (simp add: asm_of_def)
  have inj: "inj_on unat (fst ` set (svFragments a))" by (rule inj_onI) (simp add: word_unat_eq_iff)
  have "card (unat ` fst ` set (svFragments a)) = ?n"
    using distinct_card [OF d] n count card_image [OF inj] by simp
  moreover have "unat ` fst ` set (svFragments a) \<subseteq> {..<?n}" using a by (auto simp: asm_of_def)
  ultimately have all: "unat ` fst ` set (svFragments a) = {..<?n}" by (intro card_subset_eq) simp_all
  have "fragmentAt a i = fragmentBytes data i" if i: "i < ?n" for i
  proof -
    have "i \<in> unat ` fst ` set (svFragments a)" using all i by simp
    then obtain j part where j: "(j, part) \<in> set (svFragments a)" "unat j = i" by auto
    then have "map_of (svFragments a) (of_nat i) = Some part" using d by (auto simp flip: j(2))
    moreover have "part = fragmentBytes data i" using a j by (auto simp: asm_of_def)
    ultimately show ?thesis by (simp add: fragmentAt_def)
  qed
  then have "concat (map (fragmentAt a) [0..<?n]) = concat (map (fragmentBytes data) [0..<?n])"
    by (intro arg_cong [of _ _ concat] map_cong) auto
  moreover have "svMetadata a = m" using a by (simp add: asm_of_def)
  ultimately show ?thesis by (simp add: completionOf_def count concat_fragments)
qed

text \<open>The events of one stream: its fragments come from chunks of allowed size, in any order, with losses and
  repetitions, and its sender keeps the stream; other streams do anything.\<close>

fun from_sender :: "roomDatagramStreamKey \<Rightarrow> (uint32 \<Rightarrow> screenVideoMetadata) \<Rightarrow> (uint32 \<Rightarrow> bytes) \<Rightarrow> screenEvent \<Rightarrow> bool" where
  "from_sender key meta chunks (ScreenFragment k chunk f now) \<longleftrightarrow>
     k \<noteq> key \<or> length (chunks chunk) \<le> MaxScreenVideoChunkBytes \<and>
       (\<exists>i < fragmentTotal (length (chunks chunk)). f = fragmentOf (meta chunk) (chunks chunk) i)"
| "from_sender key meta chunks (ScreenExpire now) \<longleftrightarrow> True"
| "from_sender key meta chunks (ScreenSenderChanged peer) \<longleftrightarrow> peer \<noteq> streamSender key"
| "from_sender key meta chunks (ScreenForward k packet deadline) \<longleftrightarrow> True"

definition recv_of :: "(uint32 \<Rightarrow> screenVideoMetadata) \<Rightarrow> (uint32 \<Rightarrow> bytes) \<Rightarrow> screenVideoReceiveState \<Rightarrow> bool" where
  "recv_of meta chunks s \<longleftrightarrow> (\<forall>(chunk, a) \<in> set (assemblies s). asm_of (meta chunk) (chunks chunk) a)"

lemma recv_of_shrinks: "recv_of meta chunks s \<Longrightarrow> shrinks s' s \<Longrightarrow> recv_of meta chunks s'"
  by (auto simp: recv_of_def shrinks_def)

lemma fragment_from_sender:
  assumes inv: "screen_inv c" and r: "recv_of meta chunks (receiverOf c key)"
    and len: "length (chunks chunk) \<le> 262144" and i: "i < fragmentTotal (length (chunks chunk))"
    and acc: "acceptScreenVideoFragment c key chunk (fragmentOf (meta chunk) (chunks chunk) i) now = (out, c')"
  shows "recv_of meta chunks (receiverOf c' key)"
    "out = Some d \<Longrightarrow> d = \<lparr>ccChunkID = chunk, ccMetadata = meta chunk, ccBytes = chunks chunk\<rparr>"
proof -
  let ?f = "fragmentOf (meta chunk) (chunks chunk) i"
  obtain a where a: "a = newAssembly ?f now \<or> map_of (assemblies (receiverOf c key)) chunk = Some a"
    and alt: "set (assemblies (receiverOf c' key)) \<subseteq> insert (chunk, a) (set (assemblies (receiverOf c key))) \<and> out = None \<or>
      set (assemblies (receiverOf c' key)) \<subseteq>
        insert (chunk, addFragment a ?f) (insert (chunk, a) (set (assemblies (receiverOf c key)))) \<and>
      out \<in> {None, Some (completionOf chunk (addFragment a ?f))} \<and>
      (out \<noteq> None \<longrightarrow> length (svFragments (addFragment a ?f)) = unat (svFragmentCount (addFragment a ?f)))"
    using accept_outcome [OF inv acc] unfolding outcome_def by (elim conjE exE) blast
  have ao: "asm_of (meta chunk) (chunks chunk) a"
    using a r asm_of_new by (auto simp: recv_of_def dest!: map_of_SomeD)
  note ad = asm_of_add [OF ao len i]
  show "recv_of meta chunks (receiverOf c' key)" using alt r ao ad unfolding recv_of_def by blast
  show "d = \<lparr>ccChunkID = chunk, ccMetadata = meta chunk, ccBytes = chunks chunk\<rparr>" if "out = Some d"
    using alt that asm_of_complete [OF ad len] by auto
qed

lemma step_keeps_sender:
  assumes inv: "screen_inv c" and r: "recv_of meta chunks (receiverOf c key)" and e: "from_sender key meta chunks e"
  shows "recv_of meta chunks (receiverOf (screenStep c e) key)"
proof (cases e)
  case (ScreenFragment k chunk f now)
  obtain out c' where acc: "acceptScreenVideoFragment c k chunk f now = (out, c')" by fastforce
  show ?thesis
  proof (cases "k = key")
    case True
    then obtain i where "length (chunks chunk) \<le> 262144" "i < fragmentTotal (length (chunks chunk))"
      "f = fragmentOf (meta chunk) (chunks chunk) i" using e ScreenFragment by auto
    then show ?thesis using fragment_from_sender(1) [OF inv r] acc True ScreenFragment by simp
  next
    case False
    then have "shrinks (receiverOf c' key) (receiverOf c key)" using outcome_other [OF accept_outcome [OF inv acc]] by simp
    then show ?thesis using recv_of_shrinks [OF r] acc ScreenFragment by simp
  qed
qed (use inv r e in \<open>auto simp: receiverOf_sender intro: recv_of_shrinks shrinks_expire shrinks_queue_forward\<close>)

lemma delivered_grows:
  assumes inv: "screen_inv c" and e: "from_sender key meta chunks e"
  shows "deliveredChunkID (receiverOf c key) \<le> deliveredChunkID (receiverOf (screenStep c e) key)"
proof (cases e)
  case (ScreenFragment k chunk f now)
  obtain out c' where acc: "acceptScreenVideoFragment c k chunk f now = (out, c')" by fastforce
  show ?thesis
    using outcome_other [OF accept_outcome [OF inv acc], of key] outcome_delivered(1) [OF accept_outcome [OF inv acc]] acc ScreenFragment
    by (cases "k = key") (auto simp: shrinks_def)
next
  case (ScreenExpire now)
  then show ?thesis using shrinks_expire [OF inv, of now key] by (simp add: shrinks_def)
next
  case (ScreenForward k packet deadline)
  then show ?thesis using shrinks_queue_forward [of c k packet deadline key] by (simp add: shrinks_def)
qed (use inv e in \<open>simp add: receiverOf_sender\<close>)

lemma completed_from_sender:
  assumes "screen_inv c" "recv_of meta chunks (receiverOf c key)" "\<And>e. e \<in> set es \<Longrightarrow> from_sender key meta chunks e"
  shows "\<exists>ids. screenCompleted key c es =
      map (\<lambda>chunk. \<lparr>ccChunkID = chunk, ccMetadata = meta chunk, ccBytes = chunks chunk\<rparr>) ids \<and>
    sorted_wrt (<) ids \<and> (\<forall>chunk \<in> set ids. deliveredChunkID (receiverOf c key) < chunk)"
  using assms
proof (induction es arbitrary: c)
  case Nil
  then show ?case by simp
next
  case (Cons e es)
  have e: "from_sender key meta chunks e" using Cons.prems(3) by simp
  obtain ids where ids: "screenCompleted key (screenStep c e) es =
      map (\<lambda>chunk. \<lparr>ccChunkID = chunk, ccMetadata = meta chunk, ccBytes = chunks chunk\<rparr>) ids"
    "sorted_wrt (<) ids" "\<forall>chunk \<in> set ids. deliveredChunkID (receiverOf (screenStep c e) key) < chunk"
    using Cons.IH [OF screen_inv_step [OF Cons.prems(1)] step_keeps_sender [OF Cons.prems(1,2) e] Cons.prems(3)] by auto
  have above: "\<forall>chunk \<in> set ids. deliveredChunkID (receiverOf c key) < chunk"
    using ids(3) delivered_grows [OF Cons.prems(1) e] by force
  show ?case
  proof (cases "\<exists>chunk f now d. e = ScreenFragment key chunk f now \<and> fst (acceptScreenVideoFragment c key chunk f now) = Some d")
    case False
    then have "screenCompleted key c (e # es) = screenCompleted key (screenStep c e) es"
      by (cases e) (auto split: option.split)
    then show ?thesis using ids above by (intro exI [of _ ids]) simp
  next
    case True
    then obtain chunk f now d where ev: "e = ScreenFragment key chunk f now"
      and "fst (acceptScreenVideoFragment c key chunk f now) = Some d" by blast
    then obtain c' where acc: "acceptScreenVideoFragment c key chunk f now = (Some d, c')" by (simp add: prod_eq_iff)
    from e ev obtain i where i: "length (chunks chunk) \<le> 262144" "i < fragmentTotal (length (chunks chunk))"
      "f = fragmentOf (meta chunk) (chunks chunk) i" by auto
    have d: "d = \<lparr>ccChunkID = chunk, ccMetadata = meta chunk, ccBytes = chunks chunk\<rparr>"
      using fragment_from_sender(2) [OF Cons.prems(1,2) i(1,2)] acc i(3) by simp
    have dl: "deliveredChunkID (receiverOf c key) < chunk" "deliveredChunkID (receiverOf c' key) = chunk"
      using outcome_delivered(2) [OF accept_outcome [OF Cons.prems(1) acc]] by simp_all
    have "screenCompleted key c (e # es) =
        map (\<lambda>chunk. \<lparr>ccChunkID = chunk, ccMetadata = meta chunk, ccBytes = chunks chunk\<rparr>) (chunk # ids)"
      using ids(1) acc d by (simp add: ev)
    moreover have "sorted_wrt (<) (chunk # ids)" using ids(2,3) dl acc by (simp add: ev)
    moreover have "\<forall>x \<in> set (chunk # ids). deliveredChunkID (receiverOf c key) < x" using above dl(1) by simp
    ultimately show ?thesis by (intro exI [of _ "chunk # ids"]) blast
  qed
qed

text \<open>C14: What is shown is what was sent: whichever of the fragments a sender made of its chunks arrive, in whatever order
  and however often, while other streams do anything and memory runs out or not, the completed chunks of the stream
  carry exactly the bytes and the metadata of the chunk with their number, in increasing order, none twice.\<close>

theorem screen_video_faithful:
  assumes "\<forall>e \<in> set events. from_sender stream meta chunks e"
  shows "\<exists>ids. sorted_wrt (<) ids \<and> screenCompleted stream (blankClient peerID name key protector) events =
    map (\<lambda>chunk. \<lparr>ccChunkID = chunk, ccMetadata = meta chunk, ccBytes = chunks chunk\<rparr>) ids"
proof -
  let ?c = "blankClient peerID name key protector"
  have r: "screenVideoReceivers ?c = []" "screenVideoRetainedBytes ?c = 0" by (simp_all add: blankClient_def)
  have "recv_of meta chunks (receiverOf ?c stream)" by (simp add: recv_of_def receiverOf_def r emptyReceiveState_def)
  then show ?thesis using completed_from_sender [OF screen_inv_start [OF r], of meta chunks stream events] assms by blast
qed

theorem screen_video_faithful_witness:
  "let stream = RoomStream 1 2 PacketScreenVideo;
       m = \<lparr>displayWidth = 320, displayHeight = 200, mdTimestamp = 5, mdDuration = 6, keyFrame = True\<rparr>;
       events = [ScreenFragment stream 4 (fragmentOf m [7, 8] 0) 10, ScreenFragment stream 4 (fragmentOf m [7, 8] 0) 11]
   in screenCompleted stream (blankClient 9 [] 0 None) events = [\<lparr>ccChunkID = 4, ccMetadata = m, ccBytes = [7, 8]\<rparr>] \<and>
      (\<exists>ids. sorted_wrt (<) ids \<and> screenCompleted stream (blankClient 9 [] 0 None) events =
        map (\<lambda>chunk. \<lparr>ccChunkID = chunk, ccMetadata = m, ccBytes = [7, 8]\<rparr>) ids)"
proof -
  let ?k = "RoomStream 1 2 PacketScreenVideo"
  let ?m = "\<lparr>displayWidth = 320, displayHeight = 200, mdTimestamp = 5, mdDuration = 6, keyFrame = True\<rparr> :: screenVideoMetadata"
  let ?es = "[ScreenFragment ?k 4 (fragmentOf ?m [7, 8] 0) 10, ScreenFragment ?k 4 (fragmentOf ?m [7, 8] 0) 11]"
  have "\<forall>e \<in> set ?es. from_sender ?k (\<lambda>_. ?m) (\<lambda>_. [7, 8]) e"
    by (auto simp: fragmentTotal_def intro!: exI [of _ 0])
  note t = screen_video_faithful [OF this, of 9 "[]" 0 None]
  have "screenCompleted ?k (blankClient 9 [] 0 None) ?es = [\<lparr>ccChunkID = 4, ccMetadata = ?m, ccBytes = [7, 8]\<rparr>]"
    by (simp add: acceptScreenVideoFragment_def openAssembly_def blankClient_def receiverOf_def emptyReceiveState_def
        putReceiver_def newAssembly_def fragmentOf_def fragmentTotal_def fragmentBytes_def chunkExpired_def Let_def
        fragmentMismatch_def makeScreenVideoRetentionRoom_def assemblyCount_def storeScreenFragment_def completeAssembly_def
        fragmentAt_def removeChunks_def removeScreenVideoChunkAssembly_def)
  with t show ?thesis by (simp add: Let_def)
qed

end
