(* ===== verification/FileTransfer.thy ===== *)
theory FileTransfer
  imports PeerTopology
begin

text \<open>
  File transfers, \<open>internal/peer/file.go\<close>: offering, accepting, rejecting and canceling, the messages of the other
  side, the results of the goroutines that touch the disk, timeouts and the pruning of old records.

  A \<open>*fileTransfer\<close> is its key in the table; an update of a record that was pruned meanwhile has no effect on the table.
  The work of a goroutine is entered in \<open>fileWorks\<close>, and its result is an event with what the disk gave.
  \<open>sha\<close> is SHA-256; comparing digests as hexadecimal text is comparing them.
\<close>

definition maxFileTransferRecords :: nat where [simp]: "maxFileTransferRecords = 32"
definition fileOfferTimeout :: duration where "fileOfferTimeout = 10 * 60 * Second"
definition fileTransferTimeout :: duration where "fileTransferTimeout = 2 * 60 * Second"

datatype fileCommand =
    FileOffer PeerID bytes
  | FileAccept string bytes
  | FileReject string
  | FileCancel string

datatype fileWorkKind = WorkKindOffer | WorkKindCreate | WorkKindRead | WorkKindWrite | WorkKindFinish

record fileWorkResult =
  resKind :: fileWorkKind
  resTransferID :: string
  resSize :: uint64
  resDigest :: key32
  resData :: bytes
  resFile :: "nat option"
  resErr :: "string option"

section \<open>Looking up transfers\<close>

fun fileTerminal :: "fileStatus \<Rightarrow> bool" where
  "fileTerminal s \<longleftrightarrow> s = Completed \<or> s = Rejected \<or> s = Canceled \<or> s = Failed"

definition hexDigit :: "char \<Rightarrow> nat option" where
  "hexDigit ch =
     (let n = of_char ch :: nat
      in if 48 \<le> n \<and> n \<le> 57 then Some (n - 48)
         else if 97 \<le> n \<and> n \<le> 102 then Some (n - 87)
         else if 65 \<le> n \<and> n \<le> 70 then Some (n - 55)
         else None)"

fun hexDecodeString :: "string \<Rightarrow> bytes option" where
  "hexDecodeString [] = Some []"
| "hexDecodeString [a] = None"
| "hexDecodeString (a # b # rest) =
     (case (hexDigit a, hexDigit b) of
        (Some high, Some low) \<Rightarrow> map_option (\<lambda>bs. of_nat (16 * high + low) # bs) (hexDecodeString rest)
      | _ \<Rightarrow> None)"

definition transferOf :: "Client \<Rightarrow> id16 \<Rightarrow> fileTransfer option" where
  "transferOf c ident = map_of (fileTransfers c) ident"

definition transferName :: "id16 \<Rightarrow> string" where
  "transferName ident = hexBytes (put_be 16 ident)"

definition fileTransferByString :: "Client \<Rightarrow> string \<Rightarrow> (id16 \<times> fileTransfer) option" where
  "fileTransferByString c encoded =
     (case hexDecodeString encoded of
        None \<Rightarrow> None
      | Some decoded \<Rightarrow>
          if length decoded \<noteq> 16 then None
          else map_option (\<lambda>t. (get_be decoded, t)) (transferOf c (get_be decoded)))"

definition activeFileTransfer :: "Client \<Rightarrow> PeerID \<Rightarrow> fileDirection \<Rightarrow> bool" where
  "activeFileTransfer c peerID dir \<longleftrightarrow>
     list_ex (\<lambda>(ident, t). ftPeerID t = peerID \<and> direction t = dir \<and> \<not> fileTerminal (status t)) (fileTransfers c)"

definition activeAcceptedFileTransfer :: "Client \<Rightarrow> PeerID \<Rightarrow> bool" where
  "activeAcceptedFileTransfer c peerID \<longleftrightarrow>
     list_ex (\<lambda>(ident, t). ftPeerID t = peerID \<and> direction t = Incoming \<and> status t \<noteq> Offered \<and> \<not> fileTerminal (status t))
       (fileTransfers c)"

definition activeFileTransferCount :: "Client \<Rightarrow> nat" where
  "activeFileTransferCount c = length (filter (\<lambda>(ident, t). \<not> fileTerminal (status t)) (fileTransfers c))"

definition updTransfer :: "Client \<Rightarrow> id16 \<Rightarrow> (fileTransfer \<Rightarrow> fileTransfer) \<Rightarrow> Client" where
  "updTransfer c ident f = c\<lparr>fileTransfers := AList.map_entry ident f (fileTransfers c)\<rparr>"

definition startFileWork :: "Client \<Rightarrow> fileWork \<Rightarrow> Client" where
  "startFileWork c work = c\<lparr>fileWorks := fileWorks c @ [work]\<rparr>"

definition closePartialFile :: "Client \<Rightarrow> nat \<Rightarrow> bytes \<Rightarrow> Client" where
  "closePartialFile c file p = startFileWork c (WorkClosePartial file p)"

section \<open>Pruning\<close>

text \<open>One pass over the table: the number of terminal records and the oldest of them.\<close>

fun terminalScan :: "(id16 \<times> fileTransfer) list \<Rightarrow> nat \<times> id16 \<times> time \<Rightarrow> nat \<times> id16 \<times> time" where
  "terminalScan [] found = found"
| "terminalScan ((ident, t) # rest) (count, oldestID, oldest) =
     terminalScan rest
       (if \<not> fileTerminal (status t) then (count, oldestID, oldest)
        else if oldest = 0 \<or> updatedAt t < oldest then (count + 1, ident, updatedAt t)
        else (count + 1, oldestID, oldest))"

lemma terminalScan_count:
  "fst (terminalScan ts found) = fst found + length (filter (\<lambda>(ident, t). fileTerminal (status t)) ts)"
  by (induction ts found rule: terminalScan.induct) (auto simp del: fileTerminal.simps)

text \<open>The zero time marks that nothing was found yet, so records at that time replace one another; the choice is
  a terminal record all the same.\<close>

fun scanned :: "(id16 \<times> fileTransfer) list \<Rightarrow> nat \<times> id16 \<times> time \<Rightarrow> bool" where
  "scanned ts (count, oldestID, oldest) \<longleftrightarrow>
     (\<exists>t. (oldestID, t) \<in> set ts \<and> fileTerminal (status t)) \<or> count = 0 \<and> oldest = 0"

lemma terminalScan_terminal:
  "scanned all found \<Longrightarrow> set ts \<subseteq> set all \<Longrightarrow> scanned all (terminalScan ts found)"
proof (induction ts arbitrary: found)
  case (Cons x ts)
  obtain ident t count oldestID oldest where x: "x = (ident, t)" "found = (count, oldestID, oldest)" by (metis prod.exhaust)
  let ?next = "if \<not> fileTerminal (status t) then (count, oldestID, oldest)
        else if oldest = 0 \<or> updatedAt t < oldest then (count + 1, ident, updatedAt t)
        else (count + 1, oldestID, oldest)"
  have "scanned all ?next" using Cons.prems by (auto simp: x simp del: fileTerminal.simps)
  then show ?case using Cons.IH [of ?next] Cons.prems(2) by (simp add: x del: fileTerminal.simps scanned.simps)
qed simp

function pruneLoop :: "(id16 \<times> fileTransfer) list \<Rightarrow> (id16 \<times> fileTransfer) list" where
  "pruneLoop ts =
     (let (terminalCount, oldestID, oldest) = terminalScan ts (0, 0, 0)
      in if terminalCount \<le> maxFileTransferRecords then ts else pruneLoop (AList.delete oldestID ts))"
  by pat_completeness auto
termination
proof (relation "measure length", goal_cases)
  case (2 ts x terminalCount y oldestID oldest)
  then have scan: "terminalScan ts (0, 0, 0) = (terminalCount, oldestID, oldest)" by simp
  have "scanned ts (terminalCount, oldestID, oldest)" using terminalScan_terminal [of ts "(0, 0, 0)" ts] scan by simp
  moreover have "terminalCount \<noteq> 0" using 2 by simp
  ultimately obtain t where "(oldestID, t) \<in> set ts" by auto
  then show ?case by (auto simp: AList.delete_eq intro!: length_filter_less)
qed simp

declare pruneLoop.simps [simp del]

definition pruneFileTransfers :: "Client \<Rightarrow> Client" where
  "pruneFileTransfers c = c\<lparr>fileTransfers := pruneLoop (fileTransfers c)\<rparr>"

section \<open>Messages\<close>

definition queueFilePayload :: "Client \<Rightarrow> fileTransfer \<Rightarrow> uint16 \<Rightarrow> bytes \<Rightarrow> unit result \<times> Client" where
  "queueFilePayload c t channel payload =
     (case activeOf c (ftPeerID t) of
        None \<Rightarrow> (fail ''file transfer session is unavailable'', c)
      | Some session \<Rightarrow>
          if \<not> authenticated session \<or> sessionId session \<noteq> ftSessionID t
          then (fail ''file transfer session is unavailable'', c)
          else case queue (the (reliable session)) channel payload of
            (outcome, transport) \<Rightarrow> (outcome, updSession c (ftPeerID t) False (\<lambda>s. s\<lparr>reliable := Some transport\<rparr>)))"

definition queueFileControl :: "Client \<Rightarrow> fileTransfer \<Rightarrow> byte \<Rightarrow> unit result \<times> Client" where
  "queueFileControl c t kind = queueFilePayload c t reliableChannelFileControl (fileControlPayload (ftId t) kind)"

definition offerOf :: "fileTransfer \<Rightarrow> decodedFileOffer" where
  "offerOf t = \<lparr>offerName = ftName t, offerSize = ftSize t, offerDigest = digest t\<rparr>"

definition releaseChannel :: "Client \<Rightarrow> fileTransfer \<Rightarrow> Client" where
  "releaseChannel c t =
     (case activeOf c (ftPeerID t) of
        None \<Rightarrow> c
      | Some session \<Rightarrow>
          if sessionId session \<noteq> ftSessionID t then c
          else updSession c (ftPeerID t) False (\<lambda>s. s\<lparr>reliable := map_option (\<lambda>r.
            if direction t = Outgoing then discardOutboundChannel r reliableChannelFileData
            else discardInboundChannel r reliableChannelFileData) (reliable s)\<rparr>))"

definition finishFileTransfer :: "Client \<Rightarrow> id16 \<Rightarrow> fileStatus \<Rightarrow> string \<Rightarrow> time \<Rightarrow> Client" where
  "finishFileTransfer c ident final reason now =
     (case transferOf c ident of
        None \<Rightarrow> c
      | Some t \<Rightarrow>
          if fileTerminal (status t) then c
          else
            let c = updTransfer c ident (\<lambda>t. t\<lparr>status := final, errorText := reason, updatedAt := now, working := False,
                  cancelWork := False\<rparr>);
                c = releaseChannel c t;
                c = (case ftFile t of
                       None \<Rightarrow> c
                     | Some file \<Rightarrow> updTransfer (closePartialFile c file (ftPath t)) ident (\<lambda>t. t\<lparr>ftFile := None\<rparr>))
            in publishStateChange (pruneFileTransfers c))"

definition readNextFileChunk :: "Client \<Rightarrow> id16 \<Rightarrow> Client" where
  "readNextFileChunk c ident =
     (case transferOf c ident of
        None \<Rightarrow> c
      | Some t \<Rightarrow>
          if working t \<or> transferred t \<ge> ftSize t then c
          else startFileWork (updTransfer c ident (\<lambda>t. t\<lparr>working := True\<rparr>))
            (WorkRead ident (ftPath t) (transferred t) (unat (min (of_nat fileChunkSize) (ftSize t - transferred t)))))"

section \<open>Commands\<close>

definition newTransfer :: "id16 \<Rightarrow> PeerID \<Rightarrow> id16 \<Rightarrow> fileDirection \<Rightarrow> bytes \<Rightarrow> fileStatus \<Rightarrow> time \<Rightarrow> fileTransfer" where
  "newTransfer ident peerID sid dir name initial now =
     \<lparr>ftId = ident, ftPeerID = peerID, ftSessionID = sid, direction = dir, ftName = name, ftPath = [], status = initial,
      ftSize = 0, transferred = 0, digest = 0, errorText = '''', updatedAt = now, ftFile = None, hasher = None,
      working = False, cancelWork = True\<rparr>"

text \<open>\<open>draw\<close> is what \<open>newFileTransferID\<close> gives: a nonzero random identity, or the error of the random source.\<close>

definition startFileOffer :: "id16 result \<Rightarrow> Client \<Rightarrow> PeerID \<Rightarrow> bytes \<Rightarrow> time \<Rightarrow> string result \<times> Client" where
  "startFileOffer draw c peerID p now =
     (if \<not> authenticatedSession (activeOf c peerID) then (fail ''recipient is not authenticated'', c)
      else if activeFileTransfer c peerID Outgoing then (fail ''an outgoing file transfer is already active for this peer'', c)
      else if activeFileTransferCount c \<ge> maxFileTransferRecords then (fail ''too many active file transfers'', c)
      else if p = [] then (fail ''source path is empty'', c)
      else case draw of
        Inl err \<Rightarrow> (Inl err, c)
      | Inr ident \<Rightarrow>
          let t = (newTransfer ident peerID (sessionId (the (activeOf c peerID))) Outgoing (Base p) Preparing now)
                \<lparr>ftPath := p, working := True\<rparr>;
              c = c\<lparr>fileTransfers := AList.update ident t (fileTransfers c)\<rparr>
          in (Inr (transferName ident), publishStateChange (startFileWork c (WorkOffer ident p))))"

definition acceptFile :: "Client \<Rightarrow> string \<Rightarrow> bytes \<Rightarrow> time \<Rightarrow> unit result \<times> Client" where
  "acceptFile c encodedID destination now =
     (case fileTransferByString c encodedID of
        None \<Rightarrow> (fail ''file offer is not pending'', c)
      | Some (ident, t) \<Rightarrow>
          if direction t \<noteq> Incoming \<or> status t \<noteq> Offered then (fail ''file offer is not pending'', c)
          else if activeAcceptedFileTransfer c (ftPeerID t)
          then (fail ''an incoming file transfer is already accepted for this peer'', c)
          else if destination = [] then (fail ''destination path is empty'', c)
          else
            let c = updTransfer c ident (\<lambda>t. t\<lparr>ftPath := destination, status := Accepting, updatedAt := now, working := True\<rparr>)
            in (Inr (), publishStateChange (startFileWork c (WorkCreate ident destination))))"

definition rejectFile :: "Client \<Rightarrow> string \<Rightarrow> time \<Rightarrow> unit result \<times> Client" where
  "rejectFile c encodedID now =
     (case fileTransferByString c encodedID of
        None \<Rightarrow> (fail ''file offer is not pending'', c)
      | Some (ident, t) \<Rightarrow>
          if direction t \<noteq> Incoming \<or> status t \<noteq> Offered then (fail ''file offer is not pending'', c)
          else (Inr (), finishFileTransfer (snd (queueFileControl c t fileControlReject)) ident Rejected '''' now))"

definition cancelFile :: "Client \<Rightarrow> string \<Rightarrow> bool \<Rightarrow> string \<Rightarrow> time \<Rightarrow> unit result \<times> Client" where
  "cancelFile c encodedID notify reason now =
     (case fileTransferByString c encodedID of
        None \<Rightarrow> (fail ''file transfer is not active'', c)
      | Some (ident, t) \<Rightarrow>
          if fileTerminal (status t) then (fail ''file transfer is not active'', c)
          else
            let c = (if notify then snd (queueFileControl c t fileControlCancel) else c)
            in (Inr (), finishFileTransfer c ident Canceled reason now))"

definition handleFileCommand :: "id16 result \<Rightarrow> Client \<Rightarrow> fileCommand \<Rightarrow> time \<Rightarrow> string result \<times> Client" where
  "handleFileCommand draw c command now =
     (case command of
        FileOffer peerID p \<Rightarrow> startFileOffer draw c peerID p now
      | FileAccept encodedID p \<Rightarrow> map_prod (map_sum (\<lambda>err. err) (\<lambda>_. encodedID)) (\<lambda>c. c) (acceptFile c encodedID p now)
      | FileReject encodedID \<Rightarrow> map_prod (map_sum (\<lambda>err. err) (\<lambda>_. encodedID)) (\<lambda>c. c) (rejectFile c encodedID now)
      | FileCancel encodedID \<Rightarrow>
          map_prod (map_sum (\<lambda>err. err) (\<lambda>_. encodedID)) (\<lambda>c. c) (cancelFile c encodedID True ''canceled'' now))"

section \<open>Results of work\<close>

text \<open>\<open>failWith\<close>: the transfer ends as failed, after a cancel message where the code sends one.\<close>

definition failWith :: "Client \<Rightarrow> id16 \<Rightarrow> fileTransfer \<Rightarrow> bool \<Rightarrow> string \<Rightarrow> time \<Rightarrow> Client" where
  "failWith c ident t notify reason now =
     finishFileTransfer (if notify then snd (queueFileControl c t fileControlCancel) else c) ident Failed reason now"

definition fileOffered :: "Client \<Rightarrow> id16 \<Rightarrow> fileTransfer \<Rightarrow> fileWorkResult \<Rightarrow> time \<Rightarrow> Client" where
  "fileOffered c ident t result now =
     (if status t \<noteq> Preparing \<or> \<not> validFileName (ftName t) then failWith c ident t False ''source filename is invalid'' now
      else
        let t = t\<lparr>ftSize := resSize result, digest := resDigest result, status := Offered, updatedAt := now\<rparr>;
            c = updTransfer c ident (\<lambda>_. t)
        in case encodeFileOffer (ftId t) (offerOf t) of
             Inl err \<Rightarrow> failWith c ident t False ''could not queue file offer'' now
           | Inr payload \<Rightarrow>
               (case queueFilePayload c t reliableChannelFileControl payload of
                  (Inl err, c) \<Rightarrow> failWith c ident t False ''could not queue file offer'' now
                | (Inr _, c) \<Rightarrow> publishStateChange c))"

definition fileCreated :: "(bytes \<Rightarrow> key32) \<Rightarrow> Client \<Rightarrow> id16 \<Rightarrow> fileTransfer \<Rightarrow> fileWorkResult \<Rightarrow> time \<Rightarrow> Client" where
  "fileCreated sha c ident t result now =
     (if status t \<noteq> Accepting then
        (case resFile result of None \<Rightarrow> c | Some file \<Rightarrow> closePartialFile c file (ftPath t))
      else
        let t = t\<lparr>ftFile := resFile result, hasher := Some [], status := Transferring, updatedAt := now\<rparr>;
            c = updTransfer c ident (\<lambda>_. t)
        in publishStateChange
             (case queueFileControl c t fileControlAccept of
                (Inl (Error err), c) \<Rightarrow> failWith c ident t False err now
              | (Inr _, c) \<Rightarrow>
                  if ftSize t = 0 then
                    (if digest t \<noteq> sha [] then failWith c ident t True ''SHA-256 mismatch'' now
                     else startFileWork (updTransfer c ident (\<lambda>t. t\<lparr>working := True\<rparr>)) (WorkFinish ident (ftFile t)))
                  else c))"

definition fileRead :: "Client \<Rightarrow> id16 \<Rightarrow> fileTransfer \<Rightarrow> fileWorkResult \<Rightarrow> time \<Rightarrow> Client" where
  "fileRead c ident t result now =
     (if status t \<noteq> Transferring then c
      else case queueFilePayload c t reliableChannelFileData (encodeFileData (ftId t) (resData result)) of
        (Inl (Error err), c) \<Rightarrow> failWith c ident t False err now
      | (Inr _, c) \<Rightarrow> publishStateChange (updTransfer c ident (\<lambda>t. t\<lparr>status := Waiting, updatedAt := now\<rparr>)))"

definition fileWritten :: "(bytes \<Rightarrow> key32) \<Rightarrow> Client \<Rightarrow> id16 \<Rightarrow> fileTransfer \<Rightarrow> fileWorkResult \<Rightarrow> time \<Rightarrow> Client" where
  "fileWritten sha c ident t result now =
     (if status t \<noteq> Transferring then c
      else
        let t = t\<lparr>hasher := map_option (\<lambda>h. h @ resData result) (hasher t),
                  transferred := transferred t + of_nat (length (resData result)), updatedAt := now\<rparr>;
            c = updTransfer c ident (\<lambda>_. t)
        in if transferred t = ftSize t then
             (if sha (the (hasher t)) \<noteq> digest t then failWith c ident t True ''SHA-256 mismatch'' now
              else startFileWork (updTransfer c ident (\<lambda>t. t\<lparr>working := True\<rparr>)) (WorkFinish ident (ftFile t)))
           else publishStateChange
             (case queueFileControl c t fileControlDataAck of
                (Inl (Error err), c) \<Rightarrow> failWith c ident t False err now
              | (Inr _, c) \<Rightarrow> c))"

definition fileFinished :: "Client \<Rightarrow> id16 \<Rightarrow> fileTransfer \<Rightarrow> time \<Rightarrow> Client" where
  "fileFinished c ident t now =
     (let t = t\<lparr>ftFile := None\<rparr>;
          c = updTransfer c ident (\<lambda>_. t)
      in if status t \<noteq> Transferring then c
         else case queueFileControl c t fileControlDataAck of
           (Inl (Error err), c) \<Rightarrow> failWith c ident t False err now
         | (Inr _, c) \<Rightarrow> publishStateChange (finishFileTransfer c ident Completed '''' now))"

definition handleFileWorkResult :: "(bytes \<Rightarrow> key32) \<Rightarrow> Client \<Rightarrow> fileWorkResult \<Rightarrow> time \<Rightarrow> Client" where
  "handleFileWorkResult sha c result now =
     (case fileTransferByString c (resTransferID result) of
        None \<Rightarrow> (case resFile result of None \<Rightarrow> c | Some file \<Rightarrow> closePartialFile c file [])
      | Some (ident, t) \<Rightarrow>
          if fileTerminal (status t) then (case resFile result of None \<Rightarrow> c | Some file \<Rightarrow> closePartialFile c file [])
          else
            let t = t\<lparr>working := False\<rparr>;
                c = updTransfer c ident (\<lambda>_. t)
            in case resErr result of
                 Some err \<Rightarrow> failWith c ident t True err now
               | None \<Rightarrow>
                   (case resKind result of
                      WorkKindOffer \<Rightarrow> fileOffered c ident t result now
                    | WorkKindCreate \<Rightarrow> fileCreated sha c ident t result now
                    | WorkKindRead \<Rightarrow> fileRead c ident t result now
                    | WorkKindWrite \<Rightarrow> fileWritten sha c ident t result now
                    | WorkKindFinish \<Rightarrow> fileFinished c ident t now))"

section \<open>Messages of the other side\<close>

definition receiveFileOffer :: "Client \<Rightarrow> PeerID \<Rightarrow> id16 \<Rightarrow> decodedFileOffer \<Rightarrow> time \<Rightarrow> Client" where
  "receiveFileOffer c sender ident offer now =
     (if transferOf c ident \<noteq> None \<or> activeFileTransferCount c \<ge> maxFileTransferRecords then c
      else
        let t = (newTransfer ident sender (sessionId (the (activeOf c sender))) Incoming (offerName offer) Offered now)
              \<lparr>ftSize := offerSize offer, digest := offerDigest offer\<rparr>
        in publishStateChange (pruneFileTransfers (c\<lparr>fileTransfers := AList.update ident t (fileTransfers c)\<rparr>)))"

definition fileAccepted :: "Client \<Rightarrow> id16 \<Rightarrow> fileTransfer \<Rightarrow> time \<Rightarrow> Client" where
  "fileAccepted c ident t now =
     (if direction t = Outgoing \<and> status t = Offered then
        let c = updTransfer c ident (\<lambda>t. t\<lparr>status := Waiting, updatedAt := now\<rparr>)
        in if ftSize t \<noteq> 0 then readNextFileChunk (updTransfer c ident (\<lambda>t. t\<lparr>status := Transferring\<rparr>)) ident else c
      else c)"

definition fileDataAcked :: "Client \<Rightarrow> id16 \<Rightarrow> fileTransfer \<Rightarrow> PeerID \<Rightarrow> time \<Rightarrow> Client" where
  "fileDataAcked c ident t sender now =
     (if direction t = Outgoing \<and> status t = Waiting then
        let c = updSession c sender False (\<lambda>s. s\<lparr>reliable := map_option (\<lambda>r. discardOutboundChannel r reliableChannelFileData) (reliable s)\<rparr>);
            step = min (of_nat fileChunkSize) (ftSize t - transferred t);
            t = t\<lparr>transferred := transferred t + step, updatedAt := now\<rparr>;
            c = updTransfer c ident (\<lambda>_. t)
        in if transferred t = ftSize t then finishFileTransfer c ident Completed '''' now
           else readNextFileChunk (updTransfer c ident (\<lambda>t. t\<lparr>status := Transferring\<rparr>)) ident
      else c)"

definition handleFileControl :: "Client \<Rightarrow> PeerID \<Rightarrow> Session \<Rightarrow> bytes \<Rightarrow> time \<Rightarrow> Client" where
  "handleFileControl c sender session payload now =
     (case decodeFileControl payload of
        Inl err \<Rightarrow> c
      | Inr (kind, ident, offer) \<Rightarrow>
          if kind = fileControlOffer then receiveFileOffer c sender ident offer now
          else case transferOf c ident of
            None \<Rightarrow> c
          | Some t \<Rightarrow>
              if ftPeerID t \<noteq> sender \<or> ftSessionID t \<noteq> sessionId session \<or> fileTerminal (status t) then c
              else publishStateChange
                (if kind = fileControlAccept then fileAccepted c ident t now
                 else if kind = fileControlReject then
                   (if direction t = Outgoing \<and> status t = Offered then finishFileTransfer c ident Rejected '''' now else c)
                 else if kind = fileControlCancel then finishFileTransfer c ident Canceled ''canceled by peer'' now
                 else if kind = fileControlDataAck then fileDataAcked c ident t sender now
                 else c))"

definition handleFileData :: "Client \<Rightarrow> PeerID \<Rightarrow> Session \<Rightarrow> bytes \<Rightarrow> Client" where
  "handleFileData c sender session payload =
     (case decodeFileData payload of
        Inl err \<Rightarrow> c
      | Inr (ident, data) \<Rightarrow>
          (case transferOf c ident of
             None \<Rightarrow> c
           | Some t \<Rightarrow>
               if direction t \<noteq> Incoming \<or> status t \<noteq> Transferring \<or> working t \<or> ftPeerID t \<noteq> sender \<or>
                  ftSessionID t \<noteq> sessionId session then c
               else if of_nat (length data) \<noteq> (min (of_nat fileChunkSize) (ftSize t - transferred t) :: uint64) then c
               else startFileWork (updTransfer c ident (\<lambda>t. t\<lparr>working := True\<rparr>))
                 (WorkWrite ident (ftFile t) data (transferred t))))"

definition handleFileMessage :: "Client \<Rightarrow> PeerID \<Rightarrow> deliveredReliableMessage \<Rightarrow> time \<Rightarrow> Client" where
  "handleFileMessage c sender message now =
     (case activeOf c sender of
        None \<Rightarrow> c
      | Some session \<Rightarrow>
          if dChannel message = reliableChannelFileControl then handleFileControl c sender session (dPayload message) now
          else if dChannel message = reliableChannelFileData then handleFileData c sender session (dPayload message)
          else c)"

section \<open>Expiry and the end\<close>

definition expireFileTransfer :: "time \<Rightarrow> Client \<Rightarrow> id16 \<Rightarrow> Client" where
  "expireFileTransfer now c ident =
     (case transferOf c ident of
        None \<Rightarrow> c
      | Some t \<Rightarrow>
          if fileTerminal (status t) then c
          else if \<not> authenticatedSession (activeOf c (ftPeerID t)) \<or>
              sessionId (the (activeOf c (ftPeerID t))) \<noteq> ftSessionID t
          then finishFileTransfer c ident Failed ''peer session ended'' now
          else if working t then c
          else if \<not> now < updatedAt t + (if status t = Offered then fileOfferTimeout else fileTransferTimeout)
          then failWith c ident t True ''file transfer timed out'' now
          else c)"

definition expireFileTransfers :: "Client \<Rightarrow> time \<Rightarrow> Client" where
  "expireFileTransfers c now = foldl (expireFileTransfer now) c (map fst (fileTransfers c))"

definition stopFileTransfers :: "Client \<Rightarrow> time \<Rightarrow> Client" where
  "stopFileTransfers c now =
     foldl (\<lambda>c ident.
         case transferOf c ident of
           None \<Rightarrow> c
         | Some t \<Rightarrow> if fileTerminal (status t) then c else finishFileTransfer c ident Canceled ''peer client stopped'' now)
       c (map fst (fileTransfers c))"

end
