(* ===== verification/FileLedger.thy ===== *)
theory FileLedger
  imports FileTransfer
begin

text \<open>
  The table of file transfers and the goroutines working on it, over every sequence of events: commands, messages,
  results of work, expiry and shutdown, while the rest of the client changes in any way.
\<close>

declare fileTerminal.simps [simp del]

lemma fileTerminal_status [simp]:
  "fileTerminal Completed" "fileTerminal Rejected" "fileTerminal Canceled" "fileTerminal Failed"
  "\<not> fileTerminal Preparing" "\<not> fileTerminal Offered" "\<not> fileTerminal Accepting" "\<not> fileTerminal Transferring"
  "\<not> fileTerminal Waiting"
  by (simp_all add: fileTerminal.simps)

section \<open>What the operations leave alone\<close>

lemma files_publish [simp]:
  "fileTransfers (publishStateChange c) = fileTransfers c" "fileWorks (publishStateChange c) = fileWorks c"
  by (simp_all add: publishStateChange_def refreshSnapshotLocked_def)

lemma files_updSession [simp]:
  "fileTransfers (updSession c p b f) = fileTransfers c" "fileWorks (updSession c p b f) = fileWorks c"
  by (simp_all add: updSession_def updPeer_def)

lemma files_queuePayload [simp]:
  "fileTransfers (snd (queueFilePayload c t channel payload)) = fileTransfers c"
  "fileWorks (snd (queueFilePayload c t channel payload)) = fileWorks c"
  by (simp_all add: queueFilePayload_def split: option.split prod.split)

lemma files_queueControl [simp]:
  "fileTransfers (snd (queueFileControl c t kind)) = fileTransfers c"
  "fileWorks (snd (queueFileControl c t kind)) = fileWorks c"
  by (simp_all add: queueFileControl_def)

lemma files_queueD:
  "queueFilePayload c t channel payload = (r, c') \<Longrightarrow> fileTransfers c' = fileTransfers c \<and> fileWorks c' = fileWorks c"
  "queueFileControl c t kind = (r, c') \<Longrightarrow> fileTransfers c' = fileTransfers c \<and> fileWorks c' = fileWorks c"
  using files_queuePayload [of c t channel payload] files_queueControl [of c t kind] by auto

lemma files_release [simp]:
  "fileTransfers (releaseChannel c t) = fileTransfers c" "fileWorks (releaseChannel c t) = fileWorks c"
  by (simp_all add: releaseChannel_def split: option.split)

lemma files_upd [simp]:
  "fileTransfers (updTransfer c i f) = AList.map_entry i f (fileTransfers c)" "fileWorks (updTransfer c i f) = fileWorks c"
  by (simp_all add: updTransfer_def)

lemma files_work [simp]:
  "fileTransfers (startFileWork c w) = fileTransfers c" "fileWorks (startFileWork c w) = fileWorks c @ [w]"
  "fileTransfers (closePartialFile c n p) = fileTransfers c"
  "fileWorks (closePartialFile c n p) = fileWorks c @ [WorkClosePartial n p]"
  by (simp_all add: startFileWork_def closePartialFile_def)

lemma files_prune [simp]:
  "fileTransfers (pruneFileTransfers c) = pruneLoop (fileTransfers c)" "fileWorks (pruneFileTransfers c) = fileWorks c"
  by (simp_all add: pruneFileTransfers_def)

section \<open>Pruning\<close>

abbreviation ended :: "id16 \<times> fileTransfer \<Rightarrow> bool" where
  "ended x \<equiv> fileTerminal (status (snd x))"

lemma pruneLoop_result:
  assumes "distinct (map fst ts)"
  shows "set (pruneLoop ts) \<subseteq> set ts" "distinct (map fst (pruneLoop ts))"
    "filter (\<lambda>x. \<not> ended x) (pruneLoop ts) = filter (\<lambda>x. \<not> ended x) ts"
    "length (filter ended (pruneLoop ts)) \<le> 32"
proof -
  have "set (pruneLoop ts) \<subseteq> set ts \<and> distinct (map fst (pruneLoop ts)) \<and>
      filter (\<lambda>x. \<not> ended x) (pruneLoop ts) = filter (\<lambda>x. \<not> ended x) ts \<and> length (filter ended (pruneLoop ts)) \<le> 32"
    using assms
  proof (induction ts rule: pruneLoop.induct)
    case (1 ts)
    obtain count oldestID oldest where scan: "terminalScan ts (0, 0, 0) = (count, oldestID, oldest)" by (metis prod.exhaust)
    have count: "count = length (filter ended ts)" using terminalScan_count [of ts "(0, 0, 0)"] scan by (simp add: case_prod_unfold)
    show ?case
    proof (cases "count \<le> 32")
      case True
      then show ?thesis using 1(2) scan count by (simp add: pruneLoop.simps [of ts])
    next
      case False
      have "scanned ts (count, oldestID, oldest)" using terminalScan_terminal [of ts "(0, 0, 0)" ts] scan by simp
      with False obtain t where t: "(oldestID, t) \<in> set ts" "fileTerminal (status t)" by auto
      have same: "x = (oldestID, t)" if "x \<in> set ts" "fst x = oldestID" for x
        using 1(2) t(1) that by (metis eq_key_imp_eq_value prod.collapse)
      have d: "AList.delete oldestID ts = filter (\<lambda>x. fst x \<noteq> oldestID) ts" by (auto simp: AList.delete_eq intro: filter_cong)
      have "filter (\<lambda>x. \<not> ended x) (AList.delete oldestID ts) = filter (\<lambda>x. \<not> ended x) ts"
        unfolding d filter_filter using same t(2) by (intro filter_cong) auto
      moreover have "set (AList.delete oldestID ts) \<subseteq> set ts" "distinct (map fst (AList.delete oldestID ts))"
        using 1(2) by (auto simp: d distinct_map_filter)
      moreover have "pruneLoop ts = pruneLoop (AList.delete oldestID ts)" using scan False by (subst pruneLoop.simps) simp
      ultimately show ?thesis
        using 1(1) [of "(count, oldestID, oldest)" count "(oldestID, oldest)" oldestID oldest] scan False by auto
    qed
  qed
  then show "set (pruneLoop ts) \<subseteq> set ts" "distinct (map fst (pruneLoop ts))"
    "filter (\<lambda>x. \<not> ended x) (pruneLoop ts) = filter (\<lambda>x. \<not> ended x) ts"
    "length (filter ended (pruneLoop ts)) \<le> 32" by blast+
qed

section \<open>The invariant\<close>

fun workID :: "fileWork \<Rightarrow> id16 option" where
  "workID (WorkOffer i p) = Some i"
| "workID (WorkCreate i p) = Some i"
| "workID (WorkRead i p offset n) = Some i"
| "workID (WorkWrite i f data offset) = Some i"
| "workID (WorkFinish i f) = Some i"
| "workID (WorkClosePartial n p) = None"

definition worksFor :: "fileWork list \<Rightarrow> id16 \<Rightarrow> fileWork list" where
  "worksFor ws i = filter (\<lambda>w. workID w = Some i) ws"

lemma worksFor_simps [simp]:
  "worksFor [] i = []" "worksFor (ws @ ws') i = worksFor ws i @ worksFor ws' i"
  "worksFor (w # ws) i = (if workID w = Some i then w # worksFor ws i else worksFor ws i)"
  by (simp_all add: worksFor_def)

text \<open>The bytes of an incoming transfer that have been written and hashed.\<close>

definition received_ok :: "fileTransfer \<Rightarrow> bytes \<Rightarrow> bool" where
  "received_ok t h \<longleftrightarrow> hasher t = Some h \<and> length h = unat (transferred t) \<and> transferred t \<le> ftSize t"

definition verified :: "(bytes \<Rightarrow> key32) \<Rightarrow> fileTransfer \<Rightarrow> bool" where
  "verified sha t \<longleftrightarrow> (\<exists>h. received_ok t h \<and> transferred t = ftSize t \<and> sha h = digest t)"

lemma received_working [simp]: "received_ok (t\<lparr>working := b\<rparr>) = received_ok t"
  by (simp add: received_ok_def fun_eq_iff)

text \<open>The goroutine at work on an incoming or outgoing transfer in each of its states.\<close>

definition incoming_ok :: "(bytes \<Rightarrow> key32) \<Rightarrow> id16 \<Rightarrow> fileTransfer \<Rightarrow> fileWork list \<Rightarrow> bool" where
  "incoming_ok sha i t ws \<longleftrightarrow>
     (case status t of
        Offered \<Rightarrow> ws = [] \<and> \<not> working t \<and> transferred t = 0
      | Accepting \<Rightarrow> (\<exists>p. ws = [WorkCreate i p]) \<and> working t \<and> transferred t = 0
      | Transferring \<Rightarrow>
          (\<exists>h. received_ok t h) \<and>
          (if \<not> working t then ws = []
           else (\<exists>f data. ws = [WorkWrite i f data (transferred t)] \<and> length data \<le> unat (ftSize t - transferred t)) \<or>
                (\<exists>f. ws = [WorkFinish i f]) \<and> verified sha t)
      | Completed \<Rightarrow> verified sha t
      | Rejected \<Rightarrow> True | Canceled \<Rightarrow> True | Failed \<Rightarrow> True
      | Preparing \<Rightarrow> False | Waiting \<Rightarrow> False)"

definition outgoing_ok :: "id16 \<Rightarrow> fileTransfer \<Rightarrow> fileWork list \<Rightarrow> bool" where
  "outgoing_ok i t ws \<longleftrightarrow>
     (case status t of
        Preparing \<Rightarrow> (\<exists>p. ws = [WorkOffer i p]) \<and> working t \<and> transferred t = 0
      | Offered \<Rightarrow> ws = [] \<and> \<not> working t \<and> transferred t = 0
      | Transferring \<Rightarrow> (\<exists>p offset n. ws = [WorkRead i p offset n]) \<and> working t \<and> transferred t < ftSize t
      | Waiting \<Rightarrow> ws = [] \<and> \<not> working t \<and> transferred t \<le> ftSize t
      | Completed \<Rightarrow> transferred t = ftSize t
      | Rejected \<Rightarrow> True | Canceled \<Rightarrow> True | Failed \<Rightarrow> True
      | Accepting \<Rightarrow> False)"

definition transfer_ok :: "(bytes \<Rightarrow> key32) \<Rightarrow> id16 \<Rightarrow> fileTransfer \<Rightarrow> fileWork list \<Rightarrow> bool" where
  "transfer_ok sha i t ws \<longleftrightarrow> ftId t = i \<and>
     (if direction t = Incoming then incoming_ok sha i t ws else outgoing_ok i t ws)"

lemma transfer_ok_terminal: "fileTerminal (status t) \<Longrightarrow> transfer_ok sha i t ws = transfer_ok sha i t ws'"
  by (cases "status t") (auto simp: transfer_ok_def incoming_ok_def outgoing_ok_def)

definition ledger :: "(bytes \<Rightarrow> key32) \<Rightarrow> Client \<Rightarrow> bool" where
  "ledger sha c \<longleftrightarrow> distinct (map fst (fileTransfers c)) \<and>
     length (filter ended (fileTransfers c)) \<le> 32 \<and> length (filter (\<lambda>x. \<not> ended x) (fileTransfers c)) \<le> 32 \<and>
     (\<forall>(i, t) \<in> set (fileTransfers c). transfer_ok sha i t (worksFor (fileWorks c) i))"

text \<open>The ledger with one active transfer in change.\<close>

definition ledger_but :: "(bytes \<Rightarrow> key32) \<Rightarrow> id16 \<Rightarrow> fileTransfer \<Rightarrow> Client \<Rightarrow> bool" where
  "ledger_but sha i t c \<longleftrightarrow> distinct (map fst (fileTransfers c)) \<and>
     length (filter ended (fileTransfers c)) \<le> 32 \<and> length (filter (\<lambda>x. \<not> ended x) (fileTransfers c)) \<le> 32 \<and>
     map_of (fileTransfers c) i = Some t \<and> ftId t = i \<and> \<not> fileTerminal (status t) \<and>
     (\<forall>(j, u) \<in> set (fileTransfers c). j \<noteq> i \<longrightarrow> transfer_ok sha j u (worksFor (fileWorks c) j))"

lemma ledger_cong: "fileTransfers c' = fileTransfers c \<Longrightarrow> fileWorks c' = fileWorks c \<Longrightarrow> ledger sha c' = ledger sha c"
  by (simp add: ledger_def)

lemma ledger_but_cong:
  "fileTransfers c' = fileTransfers c \<Longrightarrow> fileWorks c' = fileWorks c \<Longrightarrow> ledger_but sha i t c' = ledger_but sha i t c"
  by (simp add: ledger_but_def)

lemma ledger_close:
  assumes l: "ledger_but sha i t c" and t: "transfer_ok sha i t (worksFor (fileWorks c) i)"
  shows "ledger sha c"
proof -
  have "transfer_ok sha j u (worksFor (fileWorks c) j)" if "(j, u) \<in> set (fileTransfers c)" for j u
  proof (cases "j = i")
    case True
    then have "u = t" using l that map_of_is_SomeI [of "fileTransfers c" i u] by (simp add: ledger_but_def)
    then show ?thesis using t True by simp
  qed (use l that in \<open>auto simp: ledger_but_def\<close>)
  then show ?thesis using l by (auto simp: ledger_def ledger_but_def)
qed

lemma ledger_open:
  "ledger sha c \<Longrightarrow> transferOf c i = Some t \<Longrightarrow> \<not> fileTerminal (status t) \<Longrightarrow>
     ledger_but sha i t c \<and> transfer_ok sha i t (worksFor (fileWorks c) i)"
  unfolding ledger_def ledger_but_def transferOf_def by (auto dest!: map_of_SomeD simp: transfer_ok_def)

lemma ledger_works:
  "ledger_but sha i t c \<Longrightarrow> fileTransfers c' = fileTransfers c \<Longrightarrow>
     (\<And>j. j \<noteq> i \<Longrightarrow> worksFor (fileWorks c') j = worksFor (fileWorks c) j) \<Longrightarrow> ledger_but sha i t c'"
  unfolding ledger_but_def by auto

lemma keys_map_entry [simp]: "map fst (AList.map_entry i f ts) = map fst ts"
  by (induction ts) auto

lemma set_map_entry: "(j, u) \<in> set (AList.map_entry i f ts) \<Longrightarrow> j \<noteq> i \<Longrightarrow> (j, u) \<in> set ts"
  by (induction ts) (auto split: if_splits)

lemma length_filter_upd:
  "distinct (map fst ts) \<Longrightarrow> (\<And>t. map_of ts i = Some t \<Longrightarrow> P (i, f t) = P (i, t)) \<Longrightarrow>
     length (filter P (AList.map_entry i f ts)) = length (filter P ts)"
proof (induction ts)
  case (Cons x ts)
  then show ?case by (cases x) auto
qed simp

lemma length_filter_map_entry:
  "(\<And>t. map_of ts i = Some t \<Longrightarrow> \<not> P (i, f t)) \<Longrightarrow>
     length (filter P (AList.map_entry i f ts)) \<le> length (filter P ts)"
proof (induction ts)
  case (Cons x ts)
  then show ?case by (cases x) auto
qed simp

lemma ledger_upd:
  assumes l: "ledger_but sha i t c" and f: "f t = t'" "ftId t' = i" "\<not> fileTerminal (status t')"
  shows "ledger_but sha i t' (updTransfer c i f)"
proof -
  let ?ts = "fileTransfers c"
  have d: "distinct (map fst ?ts)" and m: "map_of ?ts i = Some t" and nt: "\<not> fileTerminal (status t)"
    using l by (simp_all add: ledger_but_def)
  have n: "length (filter ended (AList.map_entry i f ?ts)) = length (filter ended ?ts)"
    "length (filter (\<lambda>x. \<not> ended x) (AList.map_entry i f ?ts)) = length (filter (\<lambda>x. \<not> ended x) ?ts)"
    using m f nt by (auto intro!: length_filter_upd [OF d])
  have "transfer_ok sha j u (worksFor (fileWorks c) j)" if "(j, u) \<in> set (AList.map_entry i f ?ts)" "j \<noteq> i" for j u
    using l set_map_entry [OF that] that(2) by (auto simp: ledger_but_def)
  then show ?thesis using l f m n by (auto simp: ledger_but_def map_of_map_entry)
qed

lemma ledger_end:
  assumes l: "ledger_but sha i t c" and f: "f t = t'" "fileTerminal (status t')" "transfer_ok sha i t' []"
    and c': "fileTransfers c' = pruneLoop (AList.map_entry i f (fileTransfers c))"
      "\<And>j. worksFor (fileWorks c') j = worksFor (fileWorks c) j"
  shows "ledger sha c'"
proof -
  let ?ts = "fileTransfers c" and ?us = "AList.map_entry i f (fileTransfers c)"
  have d: "distinct (map fst ?ts)" and m: "map_of ?ts i = Some t" using l by (simp_all add: ledger_but_def)
  have du: "distinct (map fst ?us)" using d by simp
  note p = pruneLoop_result [OF du]
  have "length (filter (\<lambda>x. \<not> ended x) ?us) \<le> length (filter (\<lambda>x. \<not> ended x) ?ts)"
    using f(1,2) m by (intro length_filter_map_entry) auto
  moreover have "transfer_ok sha j u (worksFor (fileWorks c') j)" if "(j, u) \<in> set ?us" for j u
  proof (cases "j = i")
    case True
    then have "u = t'" using map_of_is_SomeI [OF du that] m f(1) by (simp add: map_of_map_entry)
    then show ?thesis using f(2,3) True transfer_ok_terminal by metis
  next
    case False
    then show ?thesis using l set_map_entry [OF that] c'(2) by (auto simp: ledger_but_def)
  qed
  ultimately have "\<forall>(j, u) \<in> set (pruneLoop ?us). transfer_ok sha j u (worksFor (fileWorks c') j)"
    "length (filter (\<lambda>x. \<not> ended x) (pruneLoop ?us)) \<le> 32" using p(1,3) l by (auto simp: ledger_but_def)
  then show ?thesis using p(2,4) by (simp add: ledger_def c'(1))
qed

section \<open>Every operation keeps it\<close>

lemma map_entry_twice: "AList.map_entry i f (AList.map_entry i g ts) = AList.map_entry i (\<lambda>t. f (g t)) ts"
  by (induction ts) auto

lemma ledger_butD:
  assumes "ledger_but sha i t c"
  shows "transferOf c i = Some t" "\<not> fileTerminal (status t)" "ftId t = i"
  using assms by (simp_all add: ledger_but_def transferOf_def)

lemma ledger_finish:
  assumes l: "ledger_but sha i t c"
    and final: "final \<in> {Rejected, Canceled, Failed} \<or>
      final = Completed \<and> (if direction t = Incoming then verified sha t else transferred t = ftSize t)"
  shows "ledger sha (finishFileTransfer c i final reason now)"
proof -
  note t = ledger_butD [OF l]
  let ?f = "\<lambda>t. t\<lparr>status := final, errorText := reason, updatedAt := now, working := False, cancelWork := False\<rparr>"
  let ?g = "case ftFile t of None \<Rightarrow> ?f | Some file \<Rightarrow> (\<lambda>t. (?f t)\<lparr>ftFile := None\<rparr>)"
  have g: "ftId (?g t) = i" "direction (?g t) = direction t" "status (?g t) = final" "verified sha (?g t) = verified sha t"
    "transferred (?g t) = transferred t" "ftSize (?g t) = ftSize t"
    using t(3) by (simp_all add: verified_def received_ok_def split: option.split)
  have fin: "fileTerminal (status (?g t))" using final unfolding g(3) by auto
  have ok: "transfer_ok sha i (?g t) []"
    using final unfolding transfer_ok_def incoming_ok_def outgoing_ok_def g by (auto split: if_splits)
  have ts: "fileTransfers (finishFileTransfer c i final reason now) = pruneLoop (AList.map_entry i ?g (fileTransfers c))"
    using t(1,2) by (simp add: finishFileTransfer_def map_entry_twice Let_def split: option.split)
  have ws: "worksFor (fileWorks (finishFileTransfer c i final reason now)) j = worksFor (fileWorks c) j" for j
    using t(1,2) by (simp add: finishFileTransfer_def Let_def split: option.split)
  show ?thesis by (rule ledger_end [where f = ?g and t' = "?g t", OF l refl fin ok ts ws])
qed

lemma ledger_fail:
  assumes "ledger_but sha i t c"
  shows "ledger sha (failWith c i u notify reason now)"
proof -
  have "ledger_but sha i t (if notify then snd (queueFileControl c u fileControlCancel) else c)"
    using assms ledger_but_cong [of "snd (queueFileControl c u fileControlCancel)" c] by (cases notify) simp_all
  then show ?thesis unfolding failWith_def by (rule ledger_finish) simp
qed

lemma ledger_publish: "ledger sha (publishStateChange c) = ledger sha c"
  by (rule ledger_cong) simp_all

lemma ledger_replace:
  "ledger_but sha i t c \<Longrightarrow> ftId t' = i \<Longrightarrow> \<not> fileTerminal (status t') \<Longrightarrow> ledger_but sha i t' (updTransfer c i (\<lambda>_. t'))"
  by (rule ledger_upd) simp_all

lemma ledger_start:
  assumes "ledger_but sha i t c" "workID w = Some i"
  shows "ledger_but sha i t (startFileWork c w)"
  using assms(1) by (rule ledger_works) (use assms(2) in simp_all)

lemma ledger_offered:
  assumes l: "ledger_but sha i t c" and w: "worksFor (fileWorks c) i = []"
    and t: "direction t = Outgoing" "transferred t = 0" "\<not> working t"
  shows "ledger sha (fileOffered c i t result now)"
proof (cases "status t \<noteq> Preparing \<or> \<not> validFileName (ftName t)")
  case True
  then show ?thesis by (simp add: fileOffered_def ledger_fail [OF l])
next
  case False
  let ?t = "t\<lparr>ftSize := resSize result, digest := resDigest result, status := Offered, updatedAt := now\<rparr>"
  let ?c = "updTransfer c i (\<lambda>_. ?t)"
  have l': "ledger_but sha i ?t ?c" by (rule ledger_replace [OF l]) (use ledger_butD(3) [OF l] in simp_all)
  have ok: "transfer_ok sha i ?t (worksFor (fileWorks c) i)"
    using w t ledger_butD(3) [OF l] by (simp add: transfer_ok_def outgoing_ok_def)
  show ?thesis
  proof (cases "encodeFileOffer (ftId ?t) (offerOf ?t)")
    case (Inl err)
    then show ?thesis using False by (simp add: fileOffered_def ledger_fail [OF l'] Let_def)
  next
    case (Inr payload)
    obtain r c' where q: "queueFilePayload ?c ?t reliableChannelFileControl payload = (r, c')" by fastforce
    then have f: "fileTransfers c' = fileTransfers ?c" "fileWorks c' = fileWorks ?c" using files_queueD(1) [OF q] by simp_all
    have lc: "ledger_but sha i ?t c'" using l' by (simp only: ledger_but_cong [OF f])
    have "ledger sha c'" by (rule ledger_close [OF lc]) (use ok f in simp)
    then show ?thesis using False Inr q ledger_fail [OF lc]
      by (cases r) (simp_all add: fileOffered_def ledger_publish Let_def)
  qed
qed

lemma ledger_created:
  assumes l: "ledger_but sha i t c" and w: "worksFor (fileWorks c) i = []"
    and t: "direction t = Incoming" "status t = Accepting" "transferred t = 0" "\<not> working t"
  shows "ledger sha (fileCreated sha c i t result now)"
proof -
  let ?t = "t\<lparr>ftFile := resFile result, hasher := Some [], status := Transferring, updatedAt := now\<rparr>"
  let ?c = "updTransfer c i (\<lambda>_. ?t)"
  have l': "ledger_but sha i ?t ?c" by (rule ledger_replace [OF l]) (use ledger_butD(3) [OF l] in simp_all)
  obtain r c' where q: "queueFileControl ?c ?t fileControlAccept = (r, c')" by fastforce
  then have f: "fileTransfers c' = fileTransfers ?c" "fileWorks c' = fileWorks ?c" using files_queueD(2) [OF q] by simp_all
  have lc: "ledger_but sha i ?t c'" using l' by (simp only: ledger_but_cong [OF f])
  have h: "received_ok ?t []" using t by (simp add: received_ok_def)
  have idle: "ledger sha c'"
    by (rule ledger_close [OF lc]) (use t w f h ledger_butD(3) [OF l] in \<open>auto simp: transfer_ok_def incoming_ok_def\<close>)
  let ?w = "?t\<lparr>working := True\<rparr>"
  have lw: "ledger_but sha i ?w (startFileWork (updTransfer c' i (\<lambda>t. t\<lparr>working := True\<rparr>)) (WorkFinish i (ftFile ?t)))"
    by (rule ledger_start [OF ledger_upd [OF lc]]) (use ledger_butD(3) [OF l] in simp_all)
  have done': "ledger sha (startFileWork (updTransfer c' i (\<lambda>t. t\<lparr>working := True\<rparr>)) (WorkFinish i (ftFile ?t)))"
    if "ftSize t = 0" "digest t = sha []"
    by (rule ledger_close [OF lw])
      (use t w f that ledger_butD(3) [OF l] in \<open>auto simp: transfer_ok_def incoming_ok_def verified_def received_ok_def\<close>)
  show ?thesis
  proof (cases r)
    case (Inl err)
    then show ?thesis using q t ledger_fail [OF lc] by (cases err) (simp add: fileCreated_def ledger_publish Let_def)
  next
    case (Inr u)
    then show ?thesis using q t ledger_fail [OF lc] idle done' by (auto simp: fileCreated_def ledger_publish Let_def)
  qed
qed

lemma ledger_queue:
  assumes "ledger_but sha i t c"
  shows "queueFileControl c u kind = (r, c') \<Longrightarrow> ledger_but sha i t c' \<and> fileWorks c' = fileWorks c"
    "queueFilePayload c u channel payload = (r, c') \<Longrightarrow> ledger_but sha i t c' \<and> fileWorks c' = fileWorks c"
proof -
  show "ledger_but sha i t c' \<and> fileWorks c' = fileWorks c" if "queueFileControl c u kind = (r, c')"
  proof -
    have f: "fileTransfers c' = fileTransfers c" "fileWorks c' = fileWorks c" using files_queueD(2) [OF that] by simp_all
    then show ?thesis using assms by (simp only: ledger_but_cong [OF f] simp_thms)
  qed
  show "ledger_but sha i t c' \<and> fileWorks c' = fileWorks c" if "queueFilePayload c u channel payload = (r, c')"
  proof -
    have f: "fileTransfers c' = fileTransfers c" "fileWorks c' = fileWorks c" using files_queueD(1) [OF that] by simp_all
    then show ?thesis using assms by (simp only: ledger_but_cong [OF f] simp_thms)
  qed
qed

lemma ledger_read:
  assumes l: "ledger_but sha i t c" and w: "worksFor (fileWorks c) i = []"
    and t: "direction t = Outgoing" "status t = Transferring" "transferred t < ftSize t" "\<not> working t"
  shows "ledger sha (fileRead c i t result now)"
proof -
  obtain r c' where q: "queueFilePayload c t reliableChannelFileData (encodeFileData (ftId t) (resData result)) = (r, c')" by fastforce
  have lc: "ledger_but sha i t c'" "fileWorks c' = fileWorks c" using ledger_queue(2) [OF l q] by simp_all
  let ?t = "t\<lparr>status := Waiting, updatedAt := now\<rparr>"
  have "ledger_but sha i ?t (updTransfer c' i (\<lambda>t. t\<lparr>status := Waiting, updatedAt := now\<rparr>))"
    by (rule ledger_upd [OF lc(1)]) (use ledger_butD(3) [OF l] in simp_all)
  then have "ledger sha (updTransfer c' i (\<lambda>t. t\<lparr>status := Waiting, updatedAt := now\<rparr>))"
    by (rule ledger_close) (use t w lc(2) ledger_butD(3) [OF l] in \<open>simp add: transfer_ok_def outgoing_ok_def\<close>)
  moreover have "ledger sha (failWith c' i t False reason now)" for reason by (rule ledger_fail [OF lc(1)])
  ultimately show ?thesis using q t(2)
    by (cases r; cases "projl r") (simp_all add: fileRead_def ledger_publish del: reliableChannelFileData_def)
qed

lemma unat_advance:
  fixes a b :: uint64
  assumes "a \<le> b" "n \<le> unat (b - a)"
  shows "unat (a + of_nat n) = unat a + n" "a + of_nat n \<le> b"
proof -
  have le: "unat a + n \<le> unat b" using assms by (simp add: unat_sub word_le_nat_alt)
  then have "unat a + n < 2 ^ 64" using unsigned_less [of b, where ?'a = nat] by simp
  then show u: "unat (a + of_nat n) = unat a + n" by (simp add: unat_word_ariths unat_of_nat)
  show "a + of_nat n \<le> b" using le by (simp add: word_le_nat_alt u)
qed

lemma ledger_written:
  assumes l: "ledger_but sha i t c" and w: "worksFor (fileWorks c) i = []"
    and t: "direction t = Incoming" "status t = Transferring" "\<not> working t"
    and h: "received_ok t h" and len: "length (resData result) \<le> unat (ftSize t - transferred t)"
  shows "ledger sha (fileWritten sha c i t result now)"
proof -
  let ?t = "t\<lparr>hasher := map_option (\<lambda>h. h @ resData result) (hasher t),
    transferred := transferred t + of_nat (length (resData result)), updatedAt := now\<rparr>"
  let ?c = "updTransfer c i (\<lambda>_. ?t)"
  have id: "ftId t = i" using ledger_butD(3) [OF l] .
  have l': "ledger_but sha i ?t ?c" by (rule ledger_replace [OF l]) (use id t in simp_all)
  have r: "received_ok ?t (h @ resData result)"
    using h unat_advance [OF _ len] by (simp add: received_ok_def)
  have "ledger sha (failWith ?c i ?t True ''SHA-256 mismatch'' now)" by (rule ledger_fail [OF l'])
  moreover have "ledger sha (startFileWork (updTransfer ?c i (\<lambda>t. t\<lparr>working := True\<rparr>)) (WorkFinish i (ftFile ?t)))"
    if v: "transferred ?t = ftSize ?t" "sha (the (hasher ?t)) = digest ?t"
  proof (rule ledger_close)
    show "ledger_but sha i (?t\<lparr>working := True\<rparr>) (startFileWork (updTransfer ?c i (\<lambda>t. t\<lparr>working := True\<rparr>)) (WorkFinish i (ftFile ?t)))"
      by (rule ledger_start [OF ledger_upd [OF l']]) (use id t in simp_all)
    have "verified sha (?t\<lparr>working := True\<rparr>)"
      unfolding verified_def by (rule exI [of _ "h @ resData result"]) (use r v h in \<open>simp add: received_ok_def\<close>)
    then show "transfer_ok sha i (?t\<lparr>working := True\<rparr>)
        (worksFor (fileWorks (startFileWork (updTransfer ?c i (\<lambda>t. t\<lparr>working := True\<rparr>)) (WorkFinish i (ftFile ?t)))) i)"
      using w t id by (auto simp: transfer_ok_def incoming_ok_def verified_def)
  qed
  moreover have "ledger sha (case queueFileControl ?c ?t fileControlDataAck of
      (Inl (Error err), c) \<Rightarrow> failWith c i ?t False err now | (Inr _, c) \<Rightarrow> c)"
  proof -
    obtain x c' where q: "queueFileControl ?c ?t fileControlDataAck = (x, c')" by fastforce
    have lc: "ledger_but sha i ?t c'" "fileWorks c' = fileWorks ?c" using ledger_queue(1) [OF l' q] by simp_all
    have "ledger sha c'"
      by (rule ledger_close [OF lc(1)]) (use r w t id lc(2) in \<open>auto simp: transfer_ok_def incoming_ok_def\<close>)
    then show ?thesis using ledger_fail [OF lc(1)] by (cases x; cases "projl x") (simp_all only: q case_prod_conv sum.case error.case sum.sel)
  qed
  ultimately show ?thesis using t(2) unfolding fileWritten_def by (simp only: Let_def ledger_publish if_False simp_thms split: if_split) blast
qed

lemma ledger_finished:
  assumes l: "ledger_but sha i t c" and t: "direction t = Incoming" "status t = Transferring" and v: "verified sha t"
  shows "ledger sha (fileFinished c i t now)"
proof -
  let ?t = "t\<lparr>ftFile := None\<rparr>"
  let ?c = "updTransfer c i (\<lambda>_. ?t)"
  have l': "ledger_but sha i ?t ?c" by (rule ledger_replace [OF l]) (use ledger_butD(3) [OF l] t in simp_all)
  obtain x c' where q: "queueFileControl ?c ?t fileControlDataAck = (x, c')" by fastforce
  have lc: "ledger_but sha i ?t c'" using ledger_queue(1) [OF l' q] by simp
  have "ledger sha (finishFileTransfer c' i Completed '''' now)"
    by (rule ledger_finish [OF lc]) (use v t in \<open>simp add: verified_def received_ok_def\<close>)
  then show ?thesis using q t ledger_fail [OF lc]
    by (cases x; cases "projl x") (simp_all add: fileFinished_def ledger_publish Let_def del: fileControlDataAck_def)
qed

section \<open>Results of work\<close>

lemma hexDigit_digit: "n < 16 \<Longrightarrow> hexDigit (digit n) = Some n"
proof -
  assume "n < 16"
  then have "n \<in> set [0..<16]" by simp
  then show ?thesis by (auto simp: hexDigit_def digit_def upt_rec)
qed

lemma hexDecode_hexBytes: "hexDecodeString (hexBytes bs) = Some bs"
proof (induction bs)
  case (Cons b bs)
  have "unat b div 16 < 16" "unat b mod 16 < 16" using unsigned_less [of b, where ?'a = nat] by simp_all
  then have "hexDecodeString (digit (unat b div 16) # digit (unat b mod 16) # hexBytes bs) = Some (b # bs)"
    using Cons by (simp add: hexDigit_digit)
  then show ?case by (simp add: hexBytes_def)
qed (simp add: hexBytes_def)

lemma fileTransferByString_name: "fileTransferByString c (transferName i) = map_option (\<lambda>t. (i, t)) (transferOf c i)"
  by (simp add: fileTransferByString_def transferName_def hexDecode_hexBytes)

text \<open>What a finished goroutine reports, from what the disk gave: a new file only when it was created.\<close>

fun workResult :: "fileWork \<Rightarrow> fileWorkResult \<Rightarrow> fileWorkResult" where
  "workResult (WorkOffer i p) r = r\<lparr>resKind := WorkKindOffer, resTransferID := transferName i, resFile := None\<rparr>"
| "workResult (WorkCreate i p) r = r\<lparr>resKind := WorkKindCreate, resTransferID := transferName i,
     resFile := (if resErr r = None then resFile r else None)\<rparr>"
| "workResult (WorkRead i p offset n) r = r\<lparr>resKind := WorkKindRead, resTransferID := transferName i, resFile := None\<rparr>"
| "workResult (WorkWrite i f data offset) r =
     r\<lparr>resKind := WorkKindWrite, resTransferID := transferName i, resData := data, resFile := None\<rparr>"
| "workResult (WorkFinish i f) r = r\<lparr>resKind := WorkKindFinish, resTransferID := transferName i, resFile := None\<rparr>"
| "workResult (WorkClosePartial n p) r = r"

lemma workResult_id: "workID w = Some i \<Longrightarrow> resTransferID (workResult w r) = transferName i"
  by (cases w) simp_all

text \<open>A file that is created after its transfer has ended is closed but, with no path, not removed from the disk.\<close>

lemma late_file_stays:
  assumes "transferOf c i = Some t" "fileTerminal (status t)" "resErr r = None" "resFile r = Some file"
  shows "handleFileWorkResult sha c (workResult (WorkCreate i p) r) now = startFileWork c (WorkClosePartial file [])"
  using assms by (simp add: handleFileWorkResult_def fileTransferByString_name closePartialFile_def)

lemma ledger_other_works:
  assumes l: "ledger sha c" and ts: "fileTransfers c' = fileTransfers c"
    and ws: "\<And>j t. transferOf c j = Some t \<Longrightarrow> \<not> fileTerminal (status t) \<Longrightarrow> worksFor (fileWorks c') j = worksFor (fileWorks c) j"
  shows "ledger sha c'"
proof -
  have "transfer_ok sha j t (worksFor (fileWorks c') j)" if "(j, t) \<in> set (fileTransfers c)" for j t
  proof -
    have m: "transferOf c j = Some t" using l that by (simp add: ledger_def transferOf_def)
    have ok: "transfer_ok sha j t (worksFor (fileWorks c) j)" using l that by (auto simp: ledger_def)
    show ?thesis
    proof (cases "fileTerminal (status t)")
      case True
      then show ?thesis using ok transfer_ok_terminal [OF True] by blast
    qed (use ok ws [OF m] in simp)
  qed
  then show ?thesis using l by (auto simp: ledger_def ts)
qed

lemma active_single: "transfer_ok sha i t ws \<Longrightarrow> \<not> fileTerminal (status t) \<Longrightarrow> length ws \<le> 1"
  by (cases "status t"; cases "direction t") (auto simp: transfer_ok_def incoming_ok_def outgoing_ok_def split: if_splits)

lemma working_state:
  assumes "transfer_ok sha i t [w]" "\<not> fileTerminal (status t)"
  shows "w = WorkOffer j p \<Longrightarrow> direction t = Outgoing \<and> transferred t = 0"
    "w = WorkCreate j p \<Longrightarrow> direction t = Incoming \<and> status t = Accepting \<and> transferred t = 0"
    "w = WorkRead j p offset n \<Longrightarrow> direction t = Outgoing \<and> status t = Transferring \<and> transferred t < ftSize t"
    "w = WorkWrite j f data offset \<Longrightarrow> direction t = Incoming \<and> status t = Transferring \<and> (\<exists>h. received_ok t h) \<and>
       length data \<le> unat (ftSize t - transferred t)"
    "w = WorkFinish j f \<Longrightarrow> direction t = Incoming \<and> status t = Transferring \<and> verified sha t"
  using assms
  by (cases "status t"; cases "direction t"; simp add: transfer_ok_def incoming_ok_def outgoing_ok_def split: if_splits)+

lemma ledger_result:
  assumes l: "ledger sha c" and ws: "fileWorks c = pre @ w # post" and w: "workID w = Some i"
  shows "ledger sha (handleFileWorkResult sha (c\<lparr>fileWorks := pre @ post\<rparr>) (workResult w r) now)"
proof -
  let ?c = "c\<lparr>fileWorks := pre @ post\<rparr>" and ?r = "workResult w r"
  have look: "fileTransferByString ?c (resTransferID ?r) = map_option (\<lambda>t. (i, t)) (transferOf c i)"
    using workResult_id [OF w] by (simp add: fileTransferByString_name transferOf_def)
  have others: "j \<noteq> i \<Longrightarrow> worksFor (pre @ post) j = worksFor (fileWorks c) j" for j using ws w by auto
  show ?thesis
  proof (cases "\<exists>t. transferOf c i = Some t \<and> \<not> fileTerminal (status t)")
    case False
    then have "handleFileWorkResult sha ?c ?r now = (case resFile ?r of None \<Rightarrow> ?c | Some file \<Rightarrow> closePartialFile ?c file [])"
      by (auto simp: handleFileWorkResult_def look split: option.split)
    moreover have "ledger sha (case resFile ?r of None \<Rightarrow> ?c | Some file \<Rightarrow> closePartialFile ?c file [])"
    proof (rule ledger_other_works [OF l])
      fix j u assume "transferOf c j = Some u" "\<not> fileTerminal (status u)"
      with False have "j \<noteq> i" by blast
      then show "worksFor (fileWorks (case resFile ?r of None \<Rightarrow> ?c | Some file \<Rightarrow> closePartialFile ?c file [])) j =
          worksFor (fileWorks c) j" using others [of j] by (auto split: option.split)
    qed (simp split: option.split)
    ultimately show ?thesis by simp
  next
    case True
    then obtain t where t: "transferOf c i = Some t" "\<not> fileTerminal (status t)" by blast
    note o = ledger_open [OF l t]
    let ?t = "t\<lparr>working := False\<rparr>"
    let ?u = "updTransfer ?c i (\<lambda>_. ?t)"
    have lb: "ledger_but sha i t ?c" by (rule ledger_works [OF o [THEN conjunct1]]) (use others in simp_all)
    have lu: "ledger_but sha i ?t ?u" by (rule ledger_replace [OF lb]) (use ledger_butD [OF lb] in simp_all)
    have split: "worksFor (fileWorks c) i = worksFor pre i @ w # worksFor post i" using ws w by simp
    have "length (worksFor (fileWorks c) i) \<le> 1" by (rule active_single [OF o [THEN conjunct2] t(2)])
    then have none: "worksFor pre i = []" "worksFor post i = []" unfolding split by auto
    then have single: "worksFor (fileWorks c) i = [w]" and wu: "worksFor (fileWorks ?u) i = []" using split by simp_all
    show ?thesis
    proof (cases "resErr ?r")
      case (Some err)
      then show ?thesis using t ledger_fail [OF lu] by (simp add: handleFileWorkResult_def look Let_def)
    next
      case None
      have e: "handleFileWorkResult sha ?c ?r now =
          (case resKind ?r of WorkKindOffer \<Rightarrow> fileOffered ?u i ?t ?r now | WorkKindCreate \<Rightarrow> fileCreated sha ?u i ?t ?r now
           | WorkKindRead \<Rightarrow> fileRead ?u i ?t ?r now | WorkKindWrite \<Rightarrow> fileWritten sha ?u i ?t ?r now
           | WorkKindFinish \<Rightarrow> fileFinished ?u i ?t now)"
        using t None by (simp add: handleFileWorkResult_def look Let_def)
      have ok: "transfer_ok sha i t [w]" using o single by simp
      show ?thesis
      proof (cases w)
        case (WorkOffer i' p)
        then have "direction ?t = Outgoing" "transferred ?t = 0" using working_state(1) [OF ok t(2)] by simp_all
        then show ?thesis using e ledger_offered [OF lu wu] WorkOffer by simp
      next
        case (WorkCreate i' p)
        then have "direction ?t = Incoming" "status ?t = Accepting" "transferred ?t = 0" using working_state(2) [OF ok t(2)] by simp_all
        then show ?thesis using e ledger_created [OF lu wu] WorkCreate by simp
      next
        case (WorkRead i' p offset n)
        then have "direction ?t = Outgoing" "status ?t = Transferring" "transferred ?t < ftSize ?t"
          using working_state(3) [OF ok t(2)] by simp_all
        then show ?thesis using e ledger_read [OF lu wu] WorkRead by simp
      next
        case (WorkWrite i' f data offset)
        then obtain h where "direction ?t = Incoming" "status ?t = Transferring" "received_ok ?t h"
          "length (resData ?r) \<le> unat (ftSize ?t - transferred ?t)"
          using working_state(4) [OF ok t(2)] by (auto simp: received_ok_def)
        then show ?thesis using e ledger_written [OF lu wu] WorkWrite by simp
      next
        case (WorkFinish i' f)
        then have "direction ?t = Incoming" "status ?t = Transferring" "verified sha ?t"
          using working_state(5) [OF ok t(2)] by (simp_all add: verified_def received_ok_def)
        then show ?thesis using e ledger_finished [OF lu] WorkFinish by simp
      next
        case (WorkClosePartial n p)
        then show ?thesis using w by simp
      qed
    qed
  qed
qed

section \<open>Commands and messages\<close>

lemma ledger_prune:
  assumes "ledger sha c"
  shows "ledger sha (pruneFileTransfers c)"
proof -
  have d: "distinct (map fst (fileTransfers c))" using assms by (simp add: ledger_def)
  show ?thesis using pruneLoop_result [OF d] assms by (auto simp: ledger_def)
qed

lemma ledger_insert:
  assumes l: "ledger sha c" and new: "transferOf c i = None" "activeFileTransferCount c < 32"
    and t: "\<not> fileTerminal (status t)" "transfer_ok sha i t (worksFor (fileWorks c') i)"
    and c': "fileTransfers c' = AList.update i t (fileTransfers c)"
      "\<And>j. j \<noteq> i \<Longrightarrow> worksFor (fileWorks c') j = worksFor (fileWorks c) j"
  shows "ledger sha c'"
proof -
  have ts: "fileTransfers c' = fileTransfers c @ [(i, t)]" using new(1) by (simp add: c'(1) update_absent transferOf_def)
  have ni: "i \<notin> fst ` set (fileTransfers c)" using new(1) by (simp add: transferOf_def map_of_eq_None_iff)
  have "length (filter (\<lambda>x. \<not> ended x) (fileTransfers c)) < 32"
    using new(2) by (simp add: activeFileTransferCount_def case_prod_unfold)
  moreover have "transfer_ok sha j u (worksFor (fileWorks c') j)" if "(j, u) \<in> set (fileTransfers c)" for j u
  proof -
    have "j \<noteq> i" using that ni by force
    then show ?thesis using l that c'(2) by (auto simp: ledger_def)
  qed
  ultimately show ?thesis using l ni t by (auto simp: ledger_def ts)
qed

lemma ledger_receiveOffer:
  assumes l: "ledger sha c" and fresh: "transferOf c i = None \<Longrightarrow> worksFor (fileWorks c) i = []"
  shows "ledger sha (receiveFileOffer c sender i offer now)"
proof (cases "transferOf c i \<noteq> None \<or> activeFileTransferCount c \<ge> maxFileTransferRecords")
  case False
  let ?t = "(newTransfer i sender (sessionId (the (activeOf c sender))) Incoming (offerName offer) Offered now)
    \<lparr>ftSize := offerSize offer, digest := offerDigest offer\<rparr>"
  have "ledger sha (c\<lparr>fileTransfers := AList.update i ?t (fileTransfers c)\<rparr>)"
    by (rule ledger_insert [OF l, where i = i and t = ?t])
      (use False fresh in \<open>simp_all add: transfer_ok_def incoming_ok_def newTransfer_def\<close>)
  then show ?thesis using False by (simp add: receiveFileOffer_def ledger_publish ledger_prune Let_def)
qed (use l in \<open>simp add: receiveFileOffer_def\<close>)

lemma ledger_startOffer:
  assumes l: "ledger sha c" and fresh: "\<And>i. draw = Inr i \<Longrightarrow> transferOf c i = None \<and> worksFor (fileWorks c) i = []"
  shows "ledger sha (snd (startFileOffer draw c peerID p now))"
proof -
  let ?t = "\<lambda>i. (newTransfer i peerID (sessionId (the (activeOf c peerID))) Outgoing (Base p) Preparing now)\<lparr>ftPath := p, working := True\<rparr>"
  have "ledger sha (startFileWork (c\<lparr>fileTransfers := AList.update i (?t i) (fileTransfers c)\<rparr>) (WorkOffer i p))"
    if "draw = Inr i" "activeFileTransferCount c < 32" for i
    by (rule ledger_insert [OF l, where i = i and t = "?t i"])
      (use fresh [OF that(1)] that(2) in \<open>simp_all add: transfer_ok_def outgoing_ok_def newTransfer_def\<close>)
  then show ?thesis using l by (auto simp: startFileOffer_def ledger_publish Let_def split: sum.split)
qed

lemma fileTransferByString_SomeD: "fileTransferByString c s = Some (i, t) \<Longrightarrow> transferOf c i = Some t"
  by (auto simp: fileTransferByString_def split: option.splits if_splits)

lemma ledger_accept:
  assumes l: "ledger sha c"
  shows "ledger sha (snd (acceptFile c s destination now))"
proof -
  have "ledger sha (startFileWork (updTransfer c i (\<lambda>t. t\<lparr>ftPath := destination, status := Accepting, updatedAt := now, working := True\<rparr>))
      (WorkCreate i destination))"
    if "fileTransferByString c s = Some (i, t)" "direction t = Incoming" "status t = Offered" for i t
  proof -
    have "\<not> fileTerminal (status t)" using that(3) by simp
    note o = ledger_open [OF l fileTransferByString_SomeD [OF that(1)] this]
    have lb: "ledger_but sha i t c" and ok: "transfer_ok sha i t (worksFor (fileWorks c) i)" using o by blast+
    note id = ledger_butD(3) [OF lb]
    let ?t = "t\<lparr>ftPath := destination, status := Accepting, updatedAt := now, working := True\<rparr>"
    have "ledger_but sha i ?t (startFileWork (updTransfer c i (\<lambda>t. t\<lparr>ftPath := destination, status := Accepting, updatedAt := now, working := True\<rparr>))
        (WorkCreate i destination))"
      by (rule ledger_start [OF ledger_upd [OF lb]]) (use id in simp_all)
    then show ?thesis
      by (rule ledger_close) (use ok that id in \<open>simp add: transfer_ok_def incoming_ok_def\<close>)
  qed
  then show ?thesis using l by (auto simp: acceptFile_def ledger_publish Let_def split: option.split)
qed

lemma ledger_queueControl: "ledger_but sha i t c \<Longrightarrow> ledger_but sha i t (snd (queueFileControl c u kind))"
  using ledger_queue(1) [of sha i t c u kind] by (cases "queueFileControl c u kind") auto

lemma ledger_reject:
  assumes l: "ledger sha c"
  shows "ledger sha (snd (rejectFile c s now))"
proof -
  have "ledger sha (finishFileTransfer (snd (queueFileControl c t fileControlReject)) i Rejected '''' now)"
    if "fileTransferByString c s = Some (i, t)" "status t = Offered" for i t
  proof -
    have "\<not> fileTerminal (status t)" using that(2) by simp
    then have "ledger_but sha i t c" using ledger_open [OF l fileTransferByString_SomeD [OF that(1)]] by blast
    then show ?thesis by (intro ledger_finish [OF ledger_queueControl]) simp_all
  qed
  then show ?thesis using l by (auto simp: rejectFile_def split: option.split)
qed

lemma ledger_cancel:
  assumes l: "ledger sha c"
  shows "ledger sha (snd (cancelFile c s notify reason now))"
proof -
  have "ledger sha (finishFileTransfer (if notify then snd (queueFileControl c t fileControlCancel) else c) i Canceled reason now)"
    if "fileTransferByString c s = Some (i, t)" "\<not> fileTerminal (status t)" for i t
  proof -
    have "ledger_but sha i t c" using ledger_open [OF l fileTransferByString_SomeD [OF that(1)] that(2)] by blast
    then have "ledger_but sha i t (if notify then snd (queueFileControl c t fileControlCancel) else c)"
      using ledger_queueControl by simp
    then show ?thesis by (rule ledger_finish) simp
  qed
  then show ?thesis using l by (auto simp: cancelFile_def Let_def split: option.split)
qed

lemma ledger_command:
  assumes "ledger sha c" "\<And>i. draw = Inr i \<Longrightarrow> transferOf c i = None \<and> worksFor (fileWorks c) i = []"
  shows "ledger sha (snd (handleFileCommand draw c command now))"
  using assms ledger_startOffer ledger_accept ledger_reject ledger_cancel
  by (cases command) (simp_all add: handleFileCommand_def)

lemma ledger_readNext:
  assumes l: "ledger_but sha i t c" and w: "worksFor (fileWorks c) i = []"
    and t: "direction t = Outgoing" "status t = Transferring" "\<not> working t" "transferred t < ftSize t"
  shows "ledger sha (readNextFileChunk c i)"
proof -
  let ?w = "WorkRead i (ftPath t) (transferred t) (unat (min (of_nat fileChunkSize) (ftSize t - transferred t)))"
  note id = ledger_butD [OF l]
  have "ledger_but sha i (t\<lparr>working := True\<rparr>) (startFileWork (updTransfer c i (\<lambda>t. t\<lparr>working := True\<rparr>)) ?w)"
    by (rule ledger_start [OF ledger_upd [OF l]]) (use id t in simp_all)
  then have "ledger sha (startFileWork (updTransfer c i (\<lambda>t. t\<lparr>working := True\<rparr>)) ?w)"
    by (rule ledger_close) (use id t w in \<open>simp add: transfer_ok_def outgoing_ok_def\<close>)
  moreover have "readNextFileChunk c i = startFileWork (updTransfer c i (\<lambda>t. t\<lparr>working := True\<rparr>)) ?w"
    using id(1) t by (auto simp: readNextFileChunk_def)
  ultimately show ?thesis by simp
qed

lemma ledger_accepted:
  assumes l: "ledger sha c" and t: "transferOf c i = Some t" "\<not> fileTerminal (status t)"
  shows "ledger sha (fileAccepted c i t now)"
proof (cases "direction t = Outgoing \<and> status t = Offered")
  case True
  have lb: "ledger_but sha i t c" and ok: "transfer_ok sha i t (worksFor (fileWorks c) i)" using ledger_open [OF l t] by blast+
  then have o: "worksFor (fileWorks c) i = []" "\<not> working t" "transferred t = 0" and id: "ftId t = i"
    using True by (simp_all add: transfer_ok_def outgoing_ok_def)
  let ?t = "t\<lparr>status := Waiting, updatedAt := now\<rparr>"
  let ?c = "updTransfer c i (\<lambda>t. t\<lparr>status := Waiting, updatedAt := now\<rparr>)"
  have lw: "ledger_but sha i ?t ?c" by (rule ledger_upd [OF lb]) (use id in simp_all)
  have "ledger sha ?c"
    by (rule ledger_close [OF lw]) (use o id True in \<open>simp add: transfer_ok_def outgoing_ok_def\<close>)
  moreover have "ledger sha (readNextFileChunk (updTransfer ?c i (\<lambda>t. t\<lparr>status := Transferring\<rparr>)) i)" if "ftSize t \<noteq> 0"
    by (rule ledger_readNext [OF ledger_upd [OF lw refl]])
      (use o id True that in \<open>simp_all add: word_greater_zero_iff\<close>)
  ultimately show ?thesis using True by (simp add: fileAccepted_def Let_def)
qed (use l in \<open>auto simp: fileAccepted_def\<close>)

lemma ledger_acked:
  assumes l: "ledger sha c" and t: "transferOf c i = Some t" "\<not> fileTerminal (status t)"
  shows "ledger sha (fileDataAcked c i t sender now)"
proof (cases "direction t = Outgoing \<and> status t = Waiting")
  case True
  have lb: "ledger_but sha i t c" and ok: "transfer_ok sha i t (worksFor (fileWorks c) i)" using ledger_open [OF l t] by blast+
  then have o: "worksFor (fileWorks c) i = []" "\<not> working t" "transferred t \<le> ftSize t" and id: "ftId t = i"
    using True by (simp_all add: transfer_ok_def outgoing_ok_def)
  let ?d = "updSession c sender False (\<lambda>s. s\<lparr>reliable := map_option (\<lambda>r. discardOutboundChannel r reliableChannelFileData) (reliable s)\<rparr>)"
  let ?step = "min (of_nat fileChunkSize) (ftSize t - transferred t)"
  let ?t = "t\<lparr>transferred := transferred t + ?step, updatedAt := now\<rparr>"
  let ?c = "updTransfer ?d i (\<lambda>_. ?t)"
  have ld: "ledger_but sha i t ?d"
    using lb ledger_but_cong [of ?d c] by simp
  have lu: "ledger_but sha i ?t ?c" by (rule ledger_replace [OF ld]) (use id True in simp_all)
  have le: "transferred ?t \<le> ftSize t"
    using unat_advance(2) [OF o(3), of "unat ?step"] by (simp add: word_le_nat_alt min_def)
  have "ledger sha (finishFileTransfer ?c i Completed '''' now)" if "transferred ?t = ftSize t"
    by (rule ledger_finish [OF lu]) (use that True in simp)
  moreover have "ledger sha (readNextFileChunk (updTransfer ?c i (\<lambda>t. t\<lparr>status := Transferring\<rparr>)) i)" if "transferred ?t \<noteq> ftSize t"
    by (rule ledger_readNext [OF ledger_upd [OF lu refl]]) (use o id True that le in simp_all)
  ultimately show ?thesis using True by (simp add: fileDataAcked_def Let_def)
qed (use l in \<open>auto simp: fileDataAcked_def\<close>)

lemma ledger_control:
  assumes l: "ledger sha c"
    and fresh: "\<And>i offer. decodeFileControl payload = Inr (fileControlOffer, i, offer) \<Longrightarrow> transferOf c i = None \<Longrightarrow>
      worksFor (fileWorks c) i = []"
  shows "ledger sha (handleFileControl c sender session payload now)"
proof (cases "decodeFileControl payload")
  case (Inl err)
  then show ?thesis using l by (simp add: handleFileControl_def)
next
  case (Inr x)
  obtain kind i offer where x: "x = (kind, i, offer)" by (metis prod_cases3)
  show ?thesis
  proof (cases "kind = fileControlOffer")
    case True
    then show ?thesis using ledger_receiveOffer [OF l] fresh Inr x by (simp add: handleFileControl_def)
  next
    case False
    show ?thesis
    proof (cases "\<exists>t. transferOf c i = Some t \<and> \<not> fileTerminal (status t)")
      case True
      then obtain t where t: "transferOf c i = Some t" "\<not> fileTerminal (status t)" by blast
      have "ledger_but sha i t c" using ledger_open [OF l t] by blast
      then have "ledger sha (finishFileTransfer c i final reason now)" if "final \<in> {Rejected, Canceled}" for final reason
        using that by (intro ledger_finish) auto
      then show ?thesis
        using False Inr x t l ledger_accepted [OF l t] ledger_acked [OF l t] by (simp add: handleFileControl_def ledger_publish)
    next
      case none: False
      then have "handleFileControl c sender session payload now = c"
        using False Inr x by (auto simp: handleFileControl_def split: option.split)
      then show ?thesis using l by simp
    qed
  qed
qed

lemma ledger_data:
  assumes l: "ledger sha c"
  shows "ledger sha (handleFileData c sender session payload)"
proof -
  have "ledger sha (startFileWork (updTransfer c i (\<lambda>t. t\<lparr>working := True\<rparr>)) (WorkWrite i (ftFile t) data (transferred t)))"
    if d: "decodeFileData payload = Inr (i, data)" and t: "transferOf c i = Some t" "direction t = Incoming" "status t = Transferring"
      "\<not> working t" and len: "of_nat (length data) = (min (of_nat fileChunkSize) (ftSize t - transferred t) :: uint64)" for i data t
  proof -
    have "\<not> fileTerminal (status t)" using t by simp
    then have lb: "ledger_but sha i t c" and ok: "transfer_ok sha i t (worksFor (fileWorks c) i)" using ledger_open [OF l t(1)] by blast+
    have w: "worksFor (fileWorks c) i = []" and h: "\<exists>h. received_ok t h" using ok t by (auto simp: transfer_ok_def incoming_ok_def)
    have "length data \<le> 32768" using d by (auto simp: decodeFileData_def Let_def split: if_splits)
    then have "length data = unat (of_nat (length data) :: uint64)" by (simp add: unat_of_nat)
    also have "\<dots> \<le> unat (ftSize t - transferred t)" unfolding len by (simp add: min_def word_le_nat_alt)
    finally have le: "length data \<le> unat (ftSize t - transferred t)" .
    have "ledger_but sha i (t\<lparr>working := True\<rparr>)
        (startFileWork (updTransfer c i (\<lambda>t. t\<lparr>working := True\<rparr>)) (WorkWrite i (ftFile t) data (transferred t)))"
      by (rule ledger_start [OF ledger_upd [OF lb]]) (use ledger_butD [OF lb] in simp_all)
    then show ?thesis
      by (rule ledger_close) (use w h t le ledger_butD [OF lb] in \<open>simp add: transfer_ok_def incoming_ok_def\<close>)
  qed
  then show ?thesis using l unfolding handleFileData_def
    by (auto split: sum.split option.split prod.split)
qed

lemma ledger_message:
  assumes "ledger sha c"
    and "\<And>i offer. decodeFileControl (dPayload message) = Inr (fileControlOffer, i, offer) \<Longrightarrow> transferOf c i = None \<Longrightarrow>
      worksFor (fileWorks c) i = []"
  shows "ledger sha (handleFileMessage c sender message now)"
  using assms ledger_control [OF assms] ledger_data [OF assms(1)] by (simp add: handleFileMessage_def split: option.split)

section \<open>Expiry\<close>

lemma ledger_expireOne:
  assumes l: "ledger sha c"
  shows "ledger sha (expireFileTransfer now c i)"
proof (cases "\<exists>t. transferOf c i = Some t \<and> \<not> fileTerminal (status t)")
  case True
  then obtain t where t: "transferOf c i = Some t" "\<not> fileTerminal (status t)" by blast
  have lb: "ledger_but sha i t c" using ledger_open [OF l t] by blast
  then have "ledger sha (finishFileTransfer c i Failed reason now)" for reason by (rule ledger_finish) simp
  then show ?thesis using t l ledger_fail [OF lb] by (simp add: expireFileTransfer_def)
qed (use l in \<open>auto simp: expireFileTransfer_def split: option.split\<close>)

lemma ledger_expire: "ledger sha c \<Longrightarrow> ledger sha (expireFileTransfers c now)"
proof -
  have "ledger sha c \<Longrightarrow> ledger sha (foldl (expireFileTransfer now) c ids)" for ids
    by (induction ids arbitrary: c) (simp_all add: ledger_expireOne)
  then show "ledger sha c \<Longrightarrow> ledger sha (expireFileTransfers c now)" by (simp add: expireFileTransfers_def)
qed

lemma ledger_stop: "ledger sha c \<Longrightarrow> ledger sha (stopFileTransfers c now)"
proof -
  let ?f = "\<lambda>c ident. case transferOf c ident of None \<Rightarrow> c
    | Some t \<Rightarrow> if fileTerminal (status t) then c else finishFileTransfer c ident Canceled ''peer client stopped'' now"
  have one: "ledger sha (?f c i)" if l: "ledger sha c" for c i
  proof (cases "\<exists>t. transferOf c i = Some t \<and> \<not> fileTerminal (status t)")
    case True
    then obtain t where t: "transferOf c i = Some t" "\<not> fileTerminal (status t)" by blast
    have "ledger_but sha i t c" using ledger_open [OF l t] by blast
    then show ?thesis using t by (simp add: ledger_finish)
  qed (use l in \<open>auto split: option.split\<close>)
  have "ledger sha c \<Longrightarrow> ledger sha (foldl ?f c ids)" for ids
    by (induction ids arbitrary: c) (simp_all only: foldl.simps one)
  then show "ledger sha c \<Longrightarrow> ledger sha (stopFileTransfers c now)" by (simp only: stopFileTransfers_def)
qed

section \<open>Every sequence of events\<close>

text \<open>The steps of a client as far as file transfers are concerned.  A finished goroutine leaves the list of works as
  its result is handled; what the disk gave is any record \<open>r\<close>.  A new transfer, offered or drawn, has an identity no
  running goroutine works for: identities are 16 random bytes.  The rest of the client changes at will.\<close>

inductive fileStep :: "(bytes \<Rightarrow> key32) \<Rightarrow> Client \<Rightarrow> Client \<Rightarrow> bool" for sha where
  Command: "(\<And>i. draw = Inr i \<Longrightarrow> transferOf c i = None \<and> worksFor (fileWorks c) i = []) \<Longrightarrow>
     fileStep sha c (snd (handleFileCommand draw c command now))"
| Message: "(\<And>i offer. decodeFileControl (dPayload message) = Inr (fileControlOffer, i, offer) \<Longrightarrow> transferOf c i = None \<Longrightarrow>
       worksFor (fileWorks c) i = []) \<Longrightarrow>
     fileStep sha c (handleFileMessage c sender message now)"
| Result: "fileWorks c = pre @ w # post \<Longrightarrow> workID w = Some i \<Longrightarrow>
     fileStep sha c (handleFileWorkResult sha (c\<lparr>fileWorks := pre @ post\<rparr>) (workResult w r) now)"
| Closed: "fileWorks c = pre @ WorkClosePartial n p # post \<Longrightarrow> fileStep sha c (c\<lparr>fileWorks := pre @ post\<rparr>)"
| Expire: "fileStep sha c (expireFileTransfers c now)"
| Stop: "fileStep sha c (stopFileTransfers c now)"
| Rest: "fileTransfers c' = fileTransfers c \<Longrightarrow> fileWorks c' = fileWorks c \<Longrightarrow> fileStep sha c c'"

inductive_cases fileStepE: "fileStep sha c c'"

lemma ledger_step: "fileStep sha c c' \<Longrightarrow> ledger sha c \<Longrightarrow> ledger sha c'"
proof (induction rule: fileStep.induct)
  case (Command draw c command now)
  then show ?case by (intro ledger_command) blast+
next
  case (Message message c sender now)
  then show ?case by (intro ledger_message) blast+
next
  case (Result c pre w post i r now)
  then show ?case by (intro ledger_result)
next
  case (Closed c pre n p post)
  show ?case by (rule ledger_other_works [OF Closed(2)]) (simp_all add: Closed(1))
next
  case (Rest c' c)
  then show ?case using ledger_cong [OF Rest(1,2)] by simp
qed (simp_all add: ledger_expire ledger_stop)

text \<open>What can happen after a fresh start.\<close>

definition fileRun :: "(bytes \<Rightarrow> key32) \<Rightarrow> Client \<Rightarrow> bool" where
  "fileRun sha c \<longleftrightarrow> (\<exists>peerID name key protector. (fileStep sha)\<^sup>*\<^sup>* (blankClient peerID name key protector) c)"

lemma ledger_run:
  assumes "fileRun sha c"
  shows "ledger sha c"
proof -
  obtain peerID name key protector where "(fileStep sha)\<^sup>*\<^sup>* (blankClient peerID name key protector) c"
    using assms by (auto simp: fileRun_def)
  then show ?thesis
  proof (induction rule: rtranclp_induct)
    case base
    show ?case by (simp add: ledger_def blankClient_def)
  next
    case (step c c')
    show ?case using step(2,3) by (rule ledger_step)
  qed
qed

text \<open>C16: A received file is what was offered: over every sequence of commands, messages, disk results, timeouts and
  restarts of sessions, a transfer from another peer is only complete when the bytes written for it have exactly the
  offered length and the offered SHA-256 digest; and while one is under way, at most one goroutine works on it, writing
  just behind the bytes already written.\<close>

theorem received_file_verified:
  assumes "fileRun sha c" "transferOf c i = Some t" "direction t = Incoming"
  shows "(status t = Completed \<longrightarrow> (\<exists>content. hasher t = Some content \<and> length content = unat (ftSize t) \<and> sha content = digest t)) \<and>
    (status t = Transferring \<longrightarrow> (\<exists>content. hasher t = Some content \<and> length content = unat (transferred t) \<and>
      (worksFor (fileWorks c) i = [] \<or>
       (\<exists>f data. worksFor (fileWorks c) i = [WorkWrite i f data (of_nat (length content))] \<and>
          length content + length data \<le> unat (ftSize t)) \<or>
       (\<exists>f. worksFor (fileWorks c) i = [WorkFinish i f]) \<and> sha content = digest t)))"
proof -
  have ok: "transfer_ok sha i t (worksFor (fileWorks c) i)"
    using ledger_run [OF assms(1)] assms(2) by (auto simp: ledger_def transferOf_def dest!: map_of_SomeD)
  have room: "length content + n \<le> unat (ftSize t)"
    if "received_ok t content" "n \<le> unat (ftSize t - transferred t)" for content n
    using that by (auto simp: received_ok_def unat_sub word_le_nat_alt)
  show ?thesis
  proof (intro conjI impI)
    assume "status t = Completed"
    then show "\<exists>content. hasher t = Some content \<and> length content = unat (ftSize t) \<and> sha content = digest t"
      using ok assms(3) by (auto simp: transfer_ok_def incoming_ok_def verified_def received_ok_def)
  next
    assume s: "status t = Transferring"
    then obtain content where h: "received_ok t content" using ok assms(3) by (auto simp: transfer_ok_def incoming_ok_def)
    then have tr: "of_nat (length content) = transferred t" "hasher t = Some content" "length content = unat (transferred t)"
      by (simp_all add: received_ok_def)
    have "worksFor (fileWorks c) i = [] \<or>
       (\<exists>f data. worksFor (fileWorks c) i = [WorkWrite i f data (transferred t)] \<and> length content + length data \<le> unat (ftSize t)) \<or>
       (\<exists>f. worksFor (fileWorks c) i = [WorkFinish i f]) \<and> sha content = digest t"
      using ok assms(3) s room [OF h] tr(2)
      by (auto simp: transfer_ok_def incoming_ok_def verified_def received_ok_def split: if_splits)
    then show "\<exists>content. hasher t = Some content \<and> length content = unat (transferred t) \<and>
      (worksFor (fileWorks c) i = [] \<or>
       (\<exists>f data. worksFor (fileWorks c) i = [WorkWrite i f data (of_nat (length content))] \<and>
          length content + length data \<le> unat (ftSize t)) \<or>
       (\<exists>f. worksFor (fileWorks c) i = [WorkFinish i f]) \<and> sha content = digest t)"
      using tr by (intro exI [of _ content]) simp
  qed
qed

text \<open>The table of transfers is bounded: whatever peers offer, at most 32 transfers are active and at most 32 ended
  ones are remembered, each identity once, and an active transfer has at most one goroutine.\<close>

theorem file_table_bounded:
  assumes "fileRun sha c"
  shows "distinct (map fst (fileTransfers c)) \<and> activeFileTransferCount c \<le> 32 \<and> length (fileTransfers c) \<le> 64 \<and>
    {i. \<exists>t. transferOf c i = Some t \<and> \<not> fileTerminal (status t)} \<subseteq> {i. length (worksFor (fileWorks c) i) \<le> 1}"
proof -
  have l: "ledger sha c" using ledger_run [OF assms] .
  have "length (filter ended (fileTransfers c)) + length (filter (\<lambda>x. \<not> ended x) (fileTransfers c)) = length (fileTransfers c)"
    by (rule sum_length_filter_compl)
  moreover have "length (worksFor (fileWorks c) i) \<le> 1" if "transferOf c i = Some t" "\<not> fileTerminal (status t)" for i t
    using active_single ledger_open [OF l that] that(2) by blast
  ultimately show ?thesis using l by (auto simp: ledger_def activeFileTransferCount_def case_prod_unfold)
qed

section \<open>An example\<close>

text \<open>Peer 2 offers an empty file, it is accepted, created, flushed and complete.\<close>

definition exampleSession :: Session where
  "exampleSession = (blankSession 0 noHello []
       \<lparr>pathAddress = AddrPortFrom (Addr4 0x0a000001) 700, pathIntermediary = 0, pathTarget = 0\<rparr> 1)
     \<lparr>authenticated := True, reliable := Some newReliableTransport\<rparr>"

definition exampleClient :: "(id16 \<times> fileTransfer) list \<Rightarrow> fileWork list \<Rightarrow> Client" where
  "exampleClient ts ws = (blankClient 1 [] 0 None)\<lparr>remotePeers := [(2, \<lparr>remotePeerID = 2, activeSession = Some exampleSession,
     pendingSession = None, peerMemberState = emptyMemberState, peerScreenState = emptyScreenState\<rparr>)],
     fileTransfers := ts, fileWorks := ws\<rparr>"

definition exampleOffer :: "byte \<times> id16 \<times> decodedFileOffer" where
  "exampleOffer = (fileControlOffer, 5, \<lparr>offerName = [65], offerSize = 0, offerDigest = 7\<rparr>)"

definition exampleMessage :: deliveredReliableMessage where
  "exampleMessage = \<lparr>dChannel = reliableChannelFileControl, dPayload = projr (encodeFileControl exampleOffer)\<rparr>"

definition exampleResult :: fileWorkResult where
  "exampleResult = \<lparr>resKind = WorkKindOffer, resTransferID = [], resSize = 0, resDigest = 0, resData = [], resFile = Some 4,
     resErr = None\<rparr>"

lemma example_message: "decodeFileControl (dPayload exampleMessage) = Inr exampleOffer"
proof -
  have "validFileControl exampleOffer"
    by (simp add: exampleOffer_def validFileName_def Base_def ValidString_ascii bytes_of_def)
  from decode_encodeFileControl [OF this] show ?thesis by (auto simp: exampleMessage_def)
qed

lemma example_active [simp]: "activeOf (exampleClient ts ws) 2 = Some exampleSession"
  by (simp add: activeOf_def peerOf_def exampleClient_def)

lemma example_session [simp]: "sessionId exampleSession = 0"
  by (simp add: exampleSession_def blankSession_def sessionId_def noHello_def)

lemma example_channel [simp]: "dChannel exampleMessage = reliableChannelFileControl"
  by (simp add: exampleMessage_def)

lemma example_files [simp]:
  "fileTransfers (exampleClient ts ws) = ts" "fileWorks (exampleClient ts ws) = ws"
  "transferOf (exampleClient ts ws) i = map_of ts i" "fileTransfers (exampleClient ts ws\<lparr>fileWorks := ws'\<rparr>) = ts"
  "exampleClient ts ws\<lparr>fileWorks := ws'\<rparr> = exampleClient ts ws'"
  by (simp_all add: exampleClient_def transferOf_def)

lemma example_queue:
  assumes "remotePeers c = remotePeers (exampleClient [] [])" "ftPeerID t = 2" "ftSessionID t = 0"
  shows "\<exists>c'. queueFileControl c t kind = (Inr (), c') \<and> fileTransfers c' = fileTransfers c \<and> fileWorks c' = fileWorks c"
proof -
  have "activeOf c 2 = Some exampleSession" using assms(1) by (simp add: activeOf_def peerOf_def exampleClient_def)
  moreover have "authenticated exampleSession" "sessionId exampleSession = 0" "reliable exampleSession = Some newReliableTransport"
    by (simp_all add: exampleSession_def blankSession_def sessionId_def noHello_def)
  moreover obtain r' where "queue newReliableTransport reliableChannelFileControl (fileControlPayload (ftId t) kind) = (Inr (), r')"
    unfolding prod_eq_iff
    by (simp add: queue_def canQueue_def newReliableTransport_def reliableChannelOrdered_def fileControlPayload_def Let_def split: prod.split)
  ultimately show ?thesis using assms(2,3)
    by (intro exI [of _ "updSession c 2 False (\<lambda>s. s\<lparr>reliable := Some r'\<rparr>)"])
      (simp add: queueFileControl_def queueFilePayload_def del: reliableChannelFileControl_def)
qed

abbreviation exampleTransfer :: "fileStatus \<Rightarrow> fileTransfer" where
  "exampleTransfer s \<equiv> \<lparr>ftId = 5, ftPeerID = 2, ftSessionID = 0, direction = Incoming, ftName = [65],
     ftPath = (if s = Offered then [] else [66]), status = s, ftSize = 0, transferred = 0, digest = 7, errorText = '''',
     updatedAt = (if s = Offered then 10 else if s = Accepting then 11 else if s = Transferring then 12 else 13),
     ftFile = (if s = Transferring then Some 4 else None),
     hasher = (if s = Offered \<or> s = Accepting then None else Some []),
     working = (s = Accepting \<or> s = Transferring), cancelWork = (s \<noteq> Completed)\<rparr>"

lemma prune_one: "pruneLoop [x] = [x]"
  by (cases x) (simp add: pruneLoop.simps)

lemma example_offered:
  "fileTransfers (handleFileMessage (exampleClient [] []) 2 exampleMessage 10) = [(5, exampleTransfer Offered)]"
  "fileWorks (handleFileMessage (exampleClient [] []) 2 exampleMessage 10) = []"
  by (simp_all add: handleFileMessage_def handleFileControl_def example_message [unfolded exampleOffer_def]
      receiveFileOffer_def activeFileTransferCount_def newTransfer_def prune_one Let_def)

lemma example_accepting:
  "fileTransfers (snd (handleFileCommand (fail []) (exampleClient [(5, exampleTransfer Offered)] []) (FileAccept (transferName 5) [66]) 11)) =
     [(5, exampleTransfer Accepting)]"
  "fileWorks (snd (handleFileCommand (fail []) (exampleClient [(5, exampleTransfer Offered)] []) (FileAccept (transferName 5) [66]) 11)) =
     [WorkCreate 5 [66]]"
  by (simp_all add: handleFileCommand_def acceptFile_def fileTransferByString_name activeAcceptedFileTransfer_def Let_def)

lemma example_finishing:
  "fileTransfers (handleFileWorkResult (\<lambda>_. 7) (exampleClient [(5, exampleTransfer Accepting)] []) (workResult (WorkCreate 5 [66]) exampleResult) 12) =
     [(5, exampleTransfer Transferring)]"
  "fileWorks (handleFileWorkResult (\<lambda>_. 7) (exampleClient [(5, exampleTransfer Accepting)] []) (workResult (WorkCreate 5 [66]) exampleResult) 12) =
     [WorkFinish 5 (Some 4)]"
proof -
  let ?t = "(exampleTransfer Accepting)\<lparr>working := False, ftFile := Some 4, hasher := Some [], status := Transferring, updatedAt := 12\<rparr>"
  let ?c = "updTransfer (updTransfer (exampleClient [(5, exampleTransfer Accepting)] []) 5 (\<lambda>_. (exampleTransfer Accepting)\<lparr>working := False\<rparr>)) 5 (\<lambda>_. ?t)"
  obtain c' where c': "queueFileControl ?c ?t fileControlAccept = (Inr (), c')" "fileTransfers c' = fileTransfers ?c" "fileWorks c' = fileWorks ?c"
    using example_queue [of ?c ?t fileControlAccept] by (auto simp: updTransfer_def exampleClient_def)
  show "fileTransfers (handleFileWorkResult (\<lambda>_. 7) (exampleClient [(5, exampleTransfer Accepting)] []) (workResult (WorkCreate 5 [66]) exampleResult) 12) =
     [(5, exampleTransfer Transferring)]"
    "fileWorks (handleFileWorkResult (\<lambda>_. 7) (exampleClient [(5, exampleTransfer Accepting)] []) (workResult (WorkCreate 5 [66]) exampleResult) 12) =
     [WorkFinish 5 (Some 4)]"
    using c' by (simp_all add: handleFileWorkResult_def fileTransferByString_name fileCreated_def exampleResult_def Let_def)
qed

lemma example_completed:
  "fileTransfers (handleFileWorkResult (\<lambda>_. 7) (exampleClient [(5, exampleTransfer Transferring)] []) (workResult (WorkFinish 5 (Some 4)) exampleResult) 13) =
     [(5, exampleTransfer Completed)]"
proof -
  let ?t = "(exampleTransfer Transferring)\<lparr>working := False, ftFile := None\<rparr>"
  let ?c = "updTransfer (updTransfer (exampleClient [(5, exampleTransfer Transferring)] []) 5 (\<lambda>_. (exampleTransfer Transferring)\<lparr>working := False\<rparr>)) 5 (\<lambda>_. ?t)"
  obtain c' where c': "queueFileControl ?c ?t fileControlDataAck = (Inr (), c')" "fileTransfers c' = fileTransfers ?c"
    using example_queue [of ?c ?t fileControlDataAck] by (auto simp: updTransfer_def exampleClient_def)
  then show ?thesis
    by (simp add: handleFileWorkResult_def fileTransferByString_name fileFinished_def exampleResult_def finishFileTransfer_def
        transferOf_def prune_one Let_def)
qed

lemma example_rest: "fileStep sha c (exampleClient (fileTransfers c) (fileWorks c))"
  by (rule Rest) simp_all

lemma example_run: "\<exists>c. fileRun (\<lambda>_. 7) c \<and> fileTransfers c = [(5, exampleTransfer Completed)]"
proof -
  let ?s = "fileStep (\<lambda>_. 7)"
  let ?ex = exampleClient
  have 1: "?s (blankClient 1 [] 0 None) (?ex [] [])" by (rule Rest) (simp_all add: blankClient_def)
  have 2: "?s (?ex [] []) (handleFileMessage (?ex [] []) 2 exampleMessage 10)" by (rule Message) simp
  note 3 = example_rest [of "\<lambda>_. 7" "handleFileMessage (?ex [] []) 2 exampleMessage 10", unfolded example_offered]
  have 4: "?s (?ex [(5, exampleTransfer Offered)] [])
      (snd (handleFileCommand (fail []) (?ex [(5, exampleTransfer Offered)] []) (FileAccept (transferName 5) [66]) 11))"
    by (rule Command) simp
  note 5 = example_rest [of "\<lambda>_. 7" "snd (handleFileCommand (fail []) (?ex [(5, exampleTransfer Offered)] []) (FileAccept (transferName 5) [66]) 11)",
    unfolded example_accepting]
  have 6: "?s (?ex [(5, exampleTransfer Accepting)] [WorkCreate 5 [66]])
      (handleFileWorkResult (\<lambda>_. 7) (?ex [(5, exampleTransfer Accepting)] []) (workResult (WorkCreate 5 [66]) exampleResult) 12)"
    using Result [of "?ex [(5, exampleTransfer Accepting)] [WorkCreate 5 [66]]" "[]" "WorkCreate 5 [66]" "[]" 5] by simp
  note 7 = example_rest [of "\<lambda>_. 7" "handleFileWorkResult (\<lambda>_. 7) (?ex [(5, exampleTransfer Accepting)] [])
    (workResult (WorkCreate 5 [66]) exampleResult) 12", unfolded example_finishing]
  have 8: "?s (?ex [(5, exampleTransfer Transferring)] [WorkFinish 5 (Some 4)])
      (handleFileWorkResult (\<lambda>_. 7) (?ex [(5, exampleTransfer Transferring)] []) (workResult (WorkFinish 5 (Some 4)) exampleResult) 13)"
    using Result [of "?ex [(5, exampleTransfer Transferring)] [WorkFinish 5 (Some 4)]" "[]" "WorkFinish 5 (Some 4)" "[]" 5] by simp
  have "?s\<^sup>*\<^sup>* (blankClient 1 [] 0 None)
      (handleFileWorkResult (\<lambda>_. 7) (?ex [(5, exampleTransfer Transferring)] []) (workResult (WorkFinish 5 (Some 4)) exampleResult) 13)"
    by (rule converse_rtranclp_into_rtranclp [where r = ?s, OF 1], rule converse_rtranclp_into_rtranclp [where r = ?s, OF 2],
        rule converse_rtranclp_into_rtranclp [where r = ?s, OF 3], rule converse_rtranclp_into_rtranclp [where r = ?s, OF 4],
        rule converse_rtranclp_into_rtranclp [where r = ?s, OF 5], rule converse_rtranclp_into_rtranclp [where r = ?s, OF 6],
        rule converse_rtranclp_into_rtranclp [where r = ?s, OF 7], rule converse_rtranclp_into_rtranclp [where r = ?s, OF 8], rule rtranclp.rtrancl_refl)
  then show ?thesis using example_completed unfolding fileRun_def by blast
qed

theorem received_file_verified_witness:
  "\<exists>c t content. fileRun (\<lambda>_. 7) c \<and> transferOf c 5 = Some t \<and> status t = Completed \<and>
     hasher t = Some content \<and> length content = unat (ftSize t) \<and> digest t = 7"
proof -
  obtain c where c: "fileRun (\<lambda>_. 7) c" "fileTransfers c = [(5, exampleTransfer Completed)]" using example_run by blast
  then have t: "transferOf c 5 = Some (exampleTransfer Completed)" by (simp add: transferOf_def)
  from received_file_verified [OF c(1) t] c(1) t show ?thesis by (intro exI [of _ c] exI [of _ "exampleTransfer Completed"]) simp
qed

theorem file_table_bounded_witness:
  "\<exists>c. fileTransfers c = [(5, exampleTransfer Completed)] \<and> activeFileTransferCount c \<le> 32 \<and> length (fileTransfers c) \<le> 64"
proof -
  obtain c where c: "fileRun (\<lambda>_. 7) c" "fileTransfers c = [(5, exampleTransfer Completed)]" using example_run by blast
  with file_table_bounded [OF c(1)] show ?thesis by (intro exI [of _ c]) simp
qed

end
