(* ===== verification/PeerSessions.thy ===== *)
theory PeerSessions
  imports ScreenShare
begin

text \<open>
  Sessions between two peers: creating them, the hellos that complete them, pings that verify keys and paths, the
  choice of the path, expiry and leaving (\<open>session.go\<close>, \<open>leave.go\<close> and the session part of \<open>client_loop.go\<close>).

  A \<open>*RemotePeer\<close> is its identity, a \<open>*Session\<close> the identity with its place, active or pending.  A peer that is not in the
  table yet enters it only with its first session.
\<close>

definition pingInterval :: duration where "pingInterval = Second"
definition remotePeerTimeout :: duration where "remotePeerTimeout = 8 * Second"

section \<open>New sessions\<close>

definition newSessionWithLocalHello :: "environment \<Rightarrow> entropy \<Rightarrow> Client \<Rightarrow> Path \<Rightarrow> id16 \<Rightarrow> time \<Rightarrow> Session result" where
  "newSessionWithLocalHello E random c p sid now =
     (case randomPrivateKey random of
        Inl err \<Rightarrow> Inl err
      | Inr key \<Rightarrow>
          (case MarshalSessionHello (mac E) (admissionKey c) (localPeerID c) sid (PublicKey (crypto E) key) of
             Inl err \<Rightarrow> Inl err
           | Inr packet \<Rightarrow>
               (case ParseSessionHello (mac E) packet (admissionKey c) of
                  Inl err \<Rightarrow> Inl err
                | Inr hello \<Rightarrow> Inr (blankSession key hello packet p now))))"

definition newInitiatingSession :: "environment \<Rightarrow> entropy \<Rightarrow> Client \<Rightarrow> Path \<Rightarrow> time \<Rightarrow> Session result" where
  "newInitiatingSession E random c p now =
     (case randomSessionID random of
        Inl err \<Rightarrow> Inl err
      | Inr sid \<Rightarrow> newSessionWithLocalHello E random c p sid now)"

definition newPeer :: "PeerID \<Rightarrow> RemotePeer" where
  "newPeer peerID = \<lparr>remotePeerID = peerID, activeSession = None, pendingSession = None,
     peerMemberState = emptyMemberState, peerScreenState = emptyScreenState\<rparr>"

definition putPending :: "Client \<Rightarrow> PeerID \<Rightarrow> Session \<Rightarrow> Client" where
  "putPending c peerID session =
     putPeer c peerID ((case peerOf c peerID of None \<Rightarrow> newPeer peerID | Some peer \<Rightarrow> peer)\<lparr>pendingSession := Some session\<rparr>)"

definition startInitiatingSession :: "environment \<Rightarrow> entropy \<Rightarrow> Client \<Rightarrow> PeerID \<Rightarrow> Path \<Rightarrow> time \<Rightarrow> Client" where
  "startInitiatingSession E random c peerID p now =
     (case newInitiatingSession E random c p now of
        Inl err \<Rightarrow> c
      | Inr session \<Rightarrow> sendSessionHelloOnPath (putPending c peerID session) peerID True p now)"

section \<open>Pings\<close>

definition setPing :: "bool \<Rightarrow> pendingPing \<Rightarrow> Session \<Rightarrow> Session" where
  "setPing onCandidate ping session =
     (if onCandidate then session\<lparr>candidatePath := map_option (\<lambda>probe. probe\<lparr>probePing := ping\<rparr>) (candidatePath session)\<rparr>
      else session\<lparr>sessionPing := ping\<rparr>)"

definition sendPingOnPath :: "Client \<Rightarrow> PeerID \<Rightarrow> bool \<Rightarrow> Session \<Rightarrow> bool \<Rightarrow> Path \<Rightarrow> pendingPing \<Rightarrow> time \<Rightarrow> Client" where
  "sendPingOnPath c peerID pending session onCandidate p ping now =
     (if pingPacketSequence ping \<noteq> 0 \<and> now - pingSentAt ping < pingInterval then c
      else case nextSendSequence (packetFlow session) of
        (Inl err, flow) \<Rightarrow>
          let c = updSession c peerID pending (\<lambda>s. s\<lparr>packetFlow := flow\<rparr>)
          in if authenticated session
             then markPeerGraphDirty (updSession c peerID pending (\<lambda>s. s\<lparr>authenticated := False\<rparr>)) (IsDirect (path session))
             else c
      | (Inr sequence, flow) \<Rightarrow>
          let c = updSession c peerID pending (\<lambda>s. setPing onCandidate
                \<lparr>pingPacketSequence = sequence, pingPath = p, pingSentAt = now\<rparr> (s\<lparr>packetFlow := flow\<rparr>))
          in case MarshalControl PacketPing (sessionId session) sequence 0 (sendCipher session) of
               Inl err \<Rightarrow> c
             | Inr packet \<Rightarrow> snd (sendPeerPacketOnPath c p packet))"

definition sendPing :: "Client \<Rightarrow> PeerID \<Rightarrow> bool \<Rightarrow> time \<Rightarrow> Client" where
  "sendPing c peerID pending now =
     (case sessionOf c peerID pending of
        None \<Rightarrow> c
      | Some session \<Rightarrow>
          if \<not> sessionReady session then c
          else
            let c = sendPingOnPath c peerID pending session False (path session) (sessionPing session) now
            in case sessionOf c peerID pending of
                 None \<Rightarrow> c
               | Some session \<Rightarrow>
                   (case candidatePath session of
                      None \<Rightarrow> c
                    | Some probe \<Rightarrow> sendPingOnPath c peerID pending session True (probePath probe) (probePing probe) now))"

definition pingTargets :: "Client \<Rightarrow> (PeerID \<times> bool) list" where
  "pingTargets c = concat (map (\<lambda>(peerID, peer).
       (if activeSession peer \<noteq> None then [(peerID, False)] else []) @
       (if pendingSession peer \<noteq> None then [(peerID, True)] else [])) (remotePeers c))"

definition sendPings :: "Client \<Rightarrow> time \<Rightarrow> Client" where
  "sendPings c now = foldl (\<lambda>c (peerID, pending). sendPing c peerID pending now) c (pingTargets c)"

definition retrySessionHello :: "time \<Rightarrow> Client \<Rightarrow> PeerID \<Rightarrow> Client" where
  "retrySessionHello now c peerID =
     (case pendingOf c peerID of
        None \<Rightarrow> c
      | Some session \<Rightarrow>
          let c = sendSessionHelloOnPath c peerID True (path session) now
          in case Option.bind (pendingOf c peerID) candidatePath of
               None \<Rightarrow> c
             | Some probe \<Rightarrow> sendSessionHelloOnPath c peerID True (probePath probe) now)"

definition retrySessionHellos :: "Client \<Rightarrow> time \<Rightarrow> Client" where
  "retrySessionHellos c now = foldl (retrySessionHello now) c (map fst (remotePeers c))"

section \<open>Hellos\<close>

definition resumeSessionFromHello ::
  "environment \<Rightarrow> Client \<Rightarrow> PeerID \<Rightarrow> SessionHello \<Rightarrow> Path \<Rightarrow> time \<Rightarrow> bool \<Rightarrow> bool \<times> Client" where
  "resumeSessionFromHello E c peerID hello p now pending =
     (case sessionOf c peerID pending of
        None \<Rightarrow> (False, c)
      | Some session \<Rightarrow>
          let (matches, c) =
                (if \<not> sessionReady session \<and> sessionId session = helloSessionID hello then
                   (case completeSessionHello E session hello of
                      Inl err \<Rightarrow> (False, c)
                    | Inr completed \<Rightarrow> (True, updSession c peerID pending (\<lambda>_. completed)))
                 else (matchesRemoteHello session hello, c))
          in if \<not> matches then (False, c)
             else (True, sendPing (updSession c peerID pending (\<lambda>s. snd (rememberCandidatePath s p now))) peerID pending now))"

definition handleHelloProbe :: "environment \<Rightarrow> entropy \<Rightarrow> Client \<Rightarrow> PeerID \<Rightarrow> Path \<Rightarrow> time \<Rightarrow> Client" where
  "handleHelloProbe E random c peerID p now =
     (if pendingOf c peerID \<noteq> None then sendPing (sendSessionHelloOnPath c peerID True p now) peerID True now
      else if activeOf c peerID \<noteq> None then sendPing (sendSessionHelloOnPath c peerID False p now) peerID False now
      else if localPeerID c < peerID then startInitiatingSession E random c peerID p now
      else sendHelloProbeOnPath c p)"

definition handleUnexpectedResponderHello ::
  "environment \<Rightarrow> entropy \<Rightarrow> Client \<Rightarrow> PeerID \<Rightarrow> SessionHello \<Rightarrow> Path \<Rightarrow> time \<Rightarrow> Client" where
  "handleUnexpectedResponderHello E random c peerID hello p now =
     (let pending = (pendingOf c peerID \<noteq> None)
      in case sessionOf c peerID pending of
           None \<Rightarrow> startInitiatingSession E random c peerID p now
         | Some current \<Rightarrow>
             if sessionId current \<noteq> helloSessionID hello then sendSessionHelloOnPath c peerID pending p now
             else startInitiatingSession E random c peerID p now)"

definition handleSessionHello ::
  "environment \<Rightarrow> entropy \<Rightarrow> Client \<Rightarrow> PeerID \<Rightarrow> SessionHello \<Rightarrow> Path \<Rightarrow> time \<Rightarrow> Client" where
  "handleSessionHello E random c peerID hello p now =
     (case resumeSessionFromHello E c peerID hello p now False of
        (True, c) \<Rightarrow> c
      | (False, c) \<Rightarrow>
          (case resumeSessionFromHello E c peerID hello p now True of
             (True, c) \<Rightarrow> c
           | (False, c) \<Rightarrow>
               if localPeerID c < peerID then handleUnexpectedResponderHello E random c peerID hello p now
               else case newSessionWithLocalHello E random c p (helloSessionID hello) now of
                 Inl err \<Rightarrow> c
               | Inr session \<Rightarrow>
                   (case completeSessionHello E session hello of
                      Inl err \<Rightarrow> c
                    | Inr session \<Rightarrow>
                        sendPing (sendSessionHelloOnPath (putPending c peerID session) peerID True p now) peerID True now)))"

definition handleHelloOnPath :: "environment \<Rightarrow> entropy \<Rightarrow> Client \<Rightarrow> bytes \<Rightarrow> Path \<Rightarrow> time \<Rightarrow> Client" where
  "handleHelloOnPath E random c data p now =
     (case ParsePrefix data of
        Inl err \<Rightarrow> c
      | Inr packetType \<Rightarrow>
          if packetType = PacketHelloProbe then
            (case ParseHelloProbe (mac E) data (admissionKey c) of
               Inl err \<Rightarrow> c
             | Inr peerID \<Rightarrow> if peerID = localPeerID c then c else handleHelloProbe E random c peerID p now)
          else if packetType \<noteq> PacketSessionHello then c
          else case ParseSessionHello (mac E) data (admissionKey c) of
            Inl err \<Rightarrow> c
          | Inr hello \<Rightarrow>
              if helloPeerID hello = localPeerID c then c
              else handleSessionHello E random c (helloPeerID hello) hello p now)"

definition handleHello :: "environment \<Rightarrow> entropy \<Rightarrow> Client \<Rightarrow> bytes \<Rightarrow> AddrPort \<Rightarrow> time \<Rightarrow> Client" where
  "handleHello E random c data origin now =
     (case NewPath origin of Inl err \<Rightarrow> c | Inr p \<Rightarrow> handleHelloOnPath E random c data p now)"

section \<open>Pings and pongs received\<close>

text \<open>The session a packet belongs to: among the active sessions first, then among the pending ones.\<close>

definition answersHeader :: "SessionHeader \<Rightarrow> Path \<Rightarrow> Session option \<Rightarrow> bool" where
  "answersHeader header p entry =
     (case entry of
        None \<Rightarrow> False
      | Some session \<Rightarrow> sessionReady session \<and> sessionId session = SessionID header \<and> acceptsPath session p)"

definition sessionForHeader :: "Client \<Rightarrow> SessionHeader \<Rightarrow> Path \<Rightarrow> (PeerID \<times> bool) option" where
  "sessionForHeader c header p =
     (case List.find (\<lambda>(peerID, peer). answersHeader header p (activeSession peer)) (remotePeers c) of
        Some (peerID, peer) \<Rightarrow> Some (peerID, False)
      | None \<Rightarrow>
          (case List.find (\<lambda>(peerID, peer). answersHeader header p (pendingSession peer)) (remotePeers c) of
             Some (peerID, peer) \<Rightarrow> Some (peerID, True)
           | None \<Rightarrow> None))"

definition authenticatedDirectPath :: "Client \<Rightarrow> PeerID \<Rightarrow> Path option" where
  "authenticatedDirectPath c peerID =
     (if directSession (activeOf c peerID) then Some (path (the (activeOf c peerID))) else None)"

definition touchSession :: "Path \<Rightarrow> time \<Rightarrow> Session \<Rightarrow> Session" where
  "touchSession p now session =
     session\<lparr>path := (if SameRoute (path session) p then p else path session), lastAuthenticatedPacketAt := now\<rparr>"

definition handlePing :: "Client \<Rightarrow> PeerID \<Rightarrow> bool \<Rightarrow> uint64 \<Rightarrow> Path \<Rightarrow> time \<Rightarrow> Client" where
  "handlePing c peerID pending pingSequence p now =
     (case sessionOf c peerID pending of
        None \<Rightarrow> c
      | Some session \<Rightarrow>
          let c = (if everAuthenticated session \<and> candidateProbe session p = None
                   then rememberAuthenticatedPath (updSession c peerID pending (touchSession p now)) p now else c);
              (sequence, flow) = nextSendSequence (packetFlow session);
              c = updSession c peerID pending (\<lambda>s. s\<lparr>packetFlow := flow\<rparr>)
          in case sequence of
               Inl err \<Rightarrow> c
             | Inr sequence \<Rightarrow>
                 (case MarshalControl PacketPong (sessionId session) sequence pingSequence (sendCipher session) of
                    Inl err \<Rightarrow> c
                  | Inr response \<Rightarrow> snd (sendPeerPacketOnPath c p response)))"

text \<open>What a matching pong does to its session: a pong on the candidate path may promote that path, one on the path of the
  session verifies it.\<close>

definition pongOnCandidate :: "Path \<Rightarrow> int \<Rightarrow> time \<Rightarrow> Session \<Rightarrow> bool \<times> Session" where
  "pongOnCandidate p rtt now session =
     (if shouldPromotePath (path session) (authenticated session) (rttMillis session) (lastAuthenticatedPacketAt session) now p rtt
      then (True, (clearCandidatePath session)\<lparr>path := p, lastAuthenticatedPacketAt := now, rttMillis := rtt, authenticated := True,
              everAuthenticated := True, sessionPing := noPing\<rparr>)
      else (False, clearCandidatePath session))"

definition pongOnPath :: "Path \<Rightarrow> int \<Rightarrow> time \<Rightarrow> Session \<Rightarrow> Session" where
  "pongOnPath p rtt now session =
     (touchSession p now session)\<lparr>sessionPing := noPing, authenticated := True, everAuthenticated := True, rttMillis := rtt\<rparr>"

definition promotePending :: "Client \<Rightarrow> PeerID \<Rightarrow> Client" where
  "promotePending c peerID =
     updPeer c peerID (\<lambda>peer. peer\<lparr>activeSession := pendingSession peer, pendingSession := None\<rparr>)"

definition afterPong :: "Client \<Rightarrow> PeerID \<Rightarrow> bool \<Rightarrow> bool \<Rightarrow> bool \<Rightarrow> Path option \<Rightarrow> time \<Rightarrow> Client" where
  "afterPong c peerID wasAuthenticated promoted pathChanged before now =
     (let isAuthenticated = authenticatedSession (activeOf c peerID);
          changed = (wasAuthenticated \<noteq> isAuthenticated \<or> promoted \<or> pathChanged);
          c = (if isAuthenticated \<and> (\<not> wasAuthenticated \<or> promoted) then queueScreenStates (queueMemberStates c) else c);
          c = (if changed
               then let c = snd (rememberTopologyPeer c peerID now)
                    in queueTopologySnapshots (markPeerGraphDirty c (before \<noteq> authenticatedDirectPath c peerID)) now True
               else c)
      in publishStateChange c)"

definition handlePong :: "Client \<Rightarrow> PeerID \<Rightarrow> bool \<Rightarrow> uint64 \<Rightarrow> Path \<Rightarrow> time \<Rightarrow> Client" where
  "handlePong c peerID pending pingSequence p now =
     (case sessionOf c peerID pending of
        None \<Rightarrow> c
      | Some session \<Rightarrow>
          let candidate = candidateProbe session p;
              ping = (case candidate of None \<Rightarrow> sessionPing session | Some probe \<Rightarrow> probePing probe)
          in if pingPacketSequence ping = 0 \<or> pingSequence \<noteq> pingPacketSequence ping \<or> \<not> SameRoute (pingPath ping) p then c
             else
               let before = authenticatedDirectPath c peerID;
                   rtt = max 1 ((now - pingSentAt ping) div Millisecond);
                   (pathChanged, c) =
                     (case candidate of
                        None \<Rightarrow> (False, rememberAuthenticatedPath (updSession c peerID pending (pongOnPath p rtt now)) p now)
                      | Some probe \<Rightarrow>
                          (fst (pongOnCandidate p rtt now session),
                           updSession (rememberAuthenticatedPath c p now) peerID pending (\<lambda>s. snd (pongOnCandidate p rtt now s))));
                   c = (if pending then promotePending c peerID else c)
               in afterPong c peerID (authenticated session) pending pathChanged before now)"

definition handleSessionPacketOnPath :: "Client \<Rightarrow> bytes \<Rightarrow> Path \<Rightarrow> time \<Rightarrow> Client" where
  "handleSessionPacketOnPath c data p now =
     (case ParseSessionHeader data of
        Inl err \<Rightarrow> c
      | Inr header \<Rightarrow>
          if Type header \<noteq> PacketPing \<and> Type header \<noteq> PacketPong then c
          else case sessionForHeader c header p of
            None \<Rightarrow> c
          | Some (peerID, pending) \<Rightarrow>
              (case sessionOf c peerID pending of
                 None \<Rightarrow> c
               | Some session \<Rightarrow>
                   if \<not> mayReceive (packetFlow session) (PacketSequence header) then c
                   else case ParseControl data (sessionId session) (receiveCipher session) of
                     Inl err \<Rightarrow> c
                   | Inr pingSequence \<Rightarrow>
                       (case commitReceived (packetFlow session) (PacketSequence header) of
                          (taken, flow) \<Rightarrow>
                            let c = updSession c peerID pending (\<lambda>s. s\<lparr>packetFlow := flow\<rparr>)
                            in if \<not> taken then c
                               else if Type header = PacketPing
                               then handlePing c peerID pending (PacketSequence header) p now
                               else handlePong c peerID pending pingSequence p now)))"

section \<open>Expiry\<close>

text \<open>One peer grown older: what is left of it, and whether an authenticated session failed, the snapshot changed, and a
  direct path was lost.\<close>

definition ageActive :: "time \<Rightarrow> Session \<Rightarrow> bool \<times> Session" where
  "ageActive now session =
     (let session = (case candidatePath session of
            None \<Rightarrow> session
          | Some probe \<Rightarrow> if probeStartedAt probe < now - remotePeerTimeout then clearCandidatePath session else session)
      in if authenticated session \<and> lastAuthenticatedPacketAt session < now - pathFailoverTimeout
         then (True, (clearCandidatePath session)\<lparr>authenticated := False, sessionPing := noPing\<rparr>)
         else (False, session))"

definition tooOld :: "time \<Rightarrow> Session option \<Rightarrow> bool" where
  "tooOld now entry =
     (case entry of None \<Rightarrow> False | Some session \<Rightarrow> lastAuthenticatedPacketAt session < now - remotePeerTimeout)"

definition failedSession :: "time \<Rightarrow> RemotePeer \<Rightarrow> Session option" where
  "failedSession now peer =
     (case activeSession peer of None \<Rightarrow> None | Some session \<Rightarrow> if fst (ageActive now session) then Some session else None)"

definition agePeer :: "time \<Rightarrow> RemotePeer \<Rightarrow> RemotePeer option" where
  "agePeer now peer =
     (let active = (if tooOld now (activeSession peer) then None else map_option (\<lambda>s. snd (ageActive now s)) (activeSession peer));
          pending = (if tooOld now (pendingSession peer) then None else pendingSession peer);
          gone = (active = None \<and> activeSession peer \<noteq> None \<and> pendingSession peer = None) \<or>
                 (pending = None \<and> pendingSession peer \<noteq> None \<and> active = None)
      in if gone then None else Some (peer\<lparr>activeSession := active, pendingSession := pending\<rparr>))"

definition expireRemotePeers :: "Client \<Rightarrow> time \<Rightarrow> Client" where
  "expireRemotePeers c now =
     (let failing = List.map_filter (\<lambda>(peerID, peer). failedSession now peer) (remotePeers c);
          changed = (failing \<noteq> []);
          topologyChanged = list_ex (\<lambda>session. IsDirect (path session)) failing;
          snapshotChanged = changed \<or> list_ex (\<lambda>(peerID, peer). tooOld now (activeSession peer) \<and>
            everAuthenticated (the (activeSession peer))) (remotePeers c);
          c = c\<lparr>remotePeers := List.map_filter (\<lambda>(peerID, peer). map_option (Pair peerID) (agePeer now peer)) (remotePeers c)\<rparr>;
          c = (if changed then markPeerGraphDirty c topologyChanged else c)
      in if snapshotChanged then publishStateChange c else c)"

section \<open>Leaving\<close>

definition sendLeave :: "Client \<Rightarrow> PeerID \<Rightarrow> Session \<Rightarrow> Client" where
  "sendLeave c peerID session =
     (case nextSendSequence (packetFlow session) of
        (sequence, flow) \<Rightarrow>
          let c = updSession c peerID False (\<lambda>s. s\<lparr>packetFlow := flow\<rparr>)
          in case sequence of
               Inl err \<Rightarrow> c
             | Inr sequence \<Rightarrow>
                 (case MarshalControl PacketLeave (sessionId session) sequence 0 (sendCipher session) of
                    Inl err \<Rightarrow> c
                  | Inr packet \<Rightarrow> snd (writeControlOnPath c (path session) packet)))"

definition sendLeaveTo :: "bool \<Rightarrow> Client \<Rightarrow> PeerID \<Rightarrow> Client" where
  "sendLeaveTo direct c peerID =
     (case activeOf c peerID of
        None \<Rightarrow> c
      | Some session \<Rightarrow>
          if \<not> everAuthenticated session \<or> IsDirect (path session) \<noteq> direct then c else sendLeave c peerID session)"

definition sendLeaves :: "Client \<Rightarrow> Client" where
  "sendLeaves c = foldl (\<lambda>c direct. foldl (sendLeaveTo direct) c (map fst (remotePeers c))) c [False, True]"

definition leaveSessionForHeader :: "Client \<Rightarrow> SessionHeader \<Rightarrow> Path \<Rightarrow> (PeerID \<times> Session) option" where
  "leaveSessionForHeader c header p =
     (case sessionForHeader c header p of
        None \<Rightarrow> None
      | Some (peerID, pending) \<Rightarrow>
          if pending then None
          else case activeOf c peerID of
            None \<Rightarrow> None
          | Some session \<Rightarrow>
              if \<not> everAuthenticated session \<or> \<not> SameRoute (path session) p then None
              else if \<not> mayReceive (packetFlow session) (PacketSequence header) then None
              else Some (peerID, session))"

definition handleLeavePacketOnPath :: "Client \<Rightarrow> bytes \<Rightarrow> Path \<Rightarrow> Client" where
  "handleLeavePacketOnPath c data p =
     (case ParseSessionHeader data of
        Inl err \<Rightarrow> c
      | Inr header \<Rightarrow>
          if Type header \<noteq> PacketLeave then c
          else case leaveSessionForHeader c header p of
            None \<Rightarrow> c
          | Some (peerID, session) \<Rightarrow>
              (case ParseControl data (sessionId session) (receiveCipher session) of
                 Inl err \<Rightarrow> c
               | Inr _ \<Rightarrow>
                   if \<not> fst (commitReceived (packetFlow session) (PacketSequence header)) then c
                   else publishStateChange (markPeerGraphDirty
                     (c\<lparr>remotePeers := AList.delete peerID (remotePeers c)\<rparr>) (IsDirect (path session)))))"

end
