(* ===== verification/PeerPackets.thy ===== *)
theory PeerPackets
  imports PeerSessions FileTransfer
begin

text \<open>
  The packets of the client: sending over the reliable transports in turn, and what arrives, by the type of the packet
  (\<open>client_loop.go\<close>, \<open>bridge.go\<close>, \<open>room_datagram.go\<close>, and the dispatch of reliable messages of \<open>fanout.go\<close>).
\<close>

definition maxReliablePacketsPerTick :: nat where [simp]: "maxReliablePacketsPerTick = 32"
definition maxRoomDatagramReceiveStreams :: nat where [simp]: "maxRoomDatagramReceiveStreams = 4096"

section \<open>Sending reliable packets\<close>

text \<open>One peer's turn: what remains of the budget, and whether a packet went out.\<close>

definition sendTurn :: "time \<Rightarrow> nat \<times> bool \<times> Client \<Rightarrow> PeerID \<Rightarrow> nat \<times> bool \<times> Client" where
  "sendTurn now st peerID =
     (case st of (remaining, progress, c) \<Rightarrow>
        if remaining = 0 \<or> \<not> reliableReady (activeOf c peerID) then (remaining, progress, c)
        else
          let session = the (activeOf c peerID);
              transport = the (reliable session)
          in case nextSend transport now of
               None \<Rightarrow> (remaining, progress, c)
             | Some (packet, reservation) \<Rightarrow>
                 (case nextSendSequence (packetFlow session) of
                    (Inl err, flow) \<Rightarrow>
                      (remaining, progress,
                       markPeerGraphDirty (updSession c peerID False (\<lambda>s. s\<lparr>packetFlow := flow, authenticated := False\<rparr>))
                         (IsDirect (path session)))
                  | (Inr sequence, flow) \<Rightarrow>
                      let c = updSession c peerID False (\<lambda>s. s\<lparr>packetFlow := flow\<rparr>);
                          lowPriority = (Channel packet = reliableChannelFileData \<and> \<not> AckOnly packet);
                          (sent, c) =
                            (case MarshalReliable (sessionId session) sequence packet (sendCipher session) of
                               Inl err \<Rightarrow> (False, c)
                             | Inr encoded \<Rightarrow>
                                 (case sendPacketOnPath c (path session) encoded lowPriority of
                                    (Inl err, c) \<Rightarrow> (False, c)
                                  | (Inr _, c) \<Rightarrow> (True, c)))
                      in if \<not> sent
                         then (remaining, progress, updSession c peerID False (\<lambda>s. s\<lparr>reliable := Some (reject transport reservation)\<rparr>))
                         else (remaining - 1, True,
                           (updSession c peerID False (\<lambda>s. s\<lparr>reliable := Some (commit transport reservation)\<rparr>))
                             \<lparr>reliablePeerCursor := peerID\<rparr>)))"

definition sendRound :: "time \<Rightarrow> PeerID list \<Rightarrow> nat \<Rightarrow> Client \<Rightarrow> nat \<times> bool \<times> Client" where
  "sendRound now peerIDs remaining c = foldl (sendTurn now) (remaining, False, c) peerIDs"

lemma sendTurn_budget:
  "sendTurn now (remaining, progress, c) peerID = (remaining', progress', c') \<Longrightarrow>
     remaining' \<le> remaining \<and> (progress' \<longrightarrow> progress \<or> remaining' < remaining)"
  by (auto simp: sendTurn_def Let_def split: if_splits option.splits prod.splits sum.splits)

lemma sendTurns_budget:
  "foldl (sendTurn now) (remaining, progress, c) peerIDs = (remaining', progress', c') \<Longrightarrow>
     remaining' \<le> remaining \<and> (progress' \<longrightarrow> progress \<or> remaining' < remaining)"
proof (induction peerIDs arbitrary: remaining progress c)
  case (Cons peerID rest)
  obtain r p d where turn: "sendTurn now (remaining, progress, c) peerID = (r, p, d)" by (metis prod_cases3)
  show ?case using sendTurn_budget [OF turn] Cons.IH [of r p d] Cons.prems turn by auto
qed simp

text \<open>Rounds over the peers until the budget is spent or nobody has anything to send.\<close>

function sendRounds :: "time \<Rightarrow> PeerID list \<Rightarrow> nat \<Rightarrow> Client \<Rightarrow> Client" where
  "sendRounds now peerIDs remaining c =
     (if remaining = 0 then c
      else case sendRound now peerIDs remaining c of
        (remaining', progress, c') \<Rightarrow> if progress then sendRounds now peerIDs remaining' c' else c')"
  by pat_completeness auto
termination
  by (relation "measure (\<lambda>(now, peerIDs, remaining, c). remaining)")
    (auto simp: sendRound_def dest!: sendTurns_budget [OF sym])

declare sendRounds.simps [simp del]

definition startAfter :: "PeerID \<Rightarrow> PeerID list \<Rightarrow> PeerID list" where
  "startAfter cursor peerIDs = filter (\<lambda>peerID. cursor < peerID) peerIDs @ filter (\<lambda>peerID. \<not> cursor < peerID) peerIDs"

definition sendReliable :: "Client \<Rightarrow> time \<Rightarrow> Client" where
  "sendReliable c now =
     (let peerIDs = sort (map fst (filter (\<lambda>(peerID, peer). reliableReady (activeSession peer)) (remotePeers c)))
      in if peerIDs = [] then c
         else sendRounds now (startAfter (reliablePeerCursor c) peerIDs) maxReliablePacketsPerTick c)"

section \<open>Receiving reliable packets\<close>

definition handleReliableMessage :: "Client \<Rightarrow> PeerID \<Rightarrow> deliveredReliableMessage \<Rightarrow> time \<Rightarrow> Client" where
  "handleReliableMessage c sender message now =
     (if peerOf c sender = None then c
      else if dChannel message = reliableChannelTopology then handleTopologySnapshotAt c sender (dPayload message) now
      else if dChannel message = reliableChannelMemberState then handleMemberState c sender (dPayload message)
      else if dChannel message = reliableChannelScreenState then handleScreenState c sender (dPayload message)
      else if dChannel message = reliableChannelFileControl \<or> dChannel message = reliableChannelFileData
      then handleFileMessage c sender message now
      else if dChannel message \<noteq> reliableChannelFanout then c
      else handleFanoutAssignment c sender (dPayload message))"

definition handleReliablePacketOnPath :: "Client \<Rightarrow> bytes \<Rightarrow> Path \<Rightarrow> time \<Rightarrow> Client" where
  "handleReliablePacketOnPath c data p now =
     (case ParseSessionHeader data of
        Inl err \<Rightarrow> c
      | Inr header \<Rightarrow>
          if Type header \<noteq> PacketReliable then c
          else case sessionForHeader c header p of
            None \<Rightarrow> c
          | Some (peerID, pending) \<Rightarrow>
              (case sessionOf c peerID pending of
                 None \<Rightarrow> c
               | Some session \<Rightarrow>
                   if pending \<or> \<not> authenticated session \<or> \<not> acceptsDataPath session p \<or>
                      \<not> mayReceive (packetFlow session) (PacketSequence header) then c
                   else case ParseReliable data (sessionId session) (receiveCipher session) of
                     Inl err \<Rightarrow> c
                   | Inr decoded \<Rightarrow>
                       (case commitReceived (packetFlow session) (PacketSequence header) of
                          (taken, flow) \<Rightarrow>
                            let c = updSession c peerID False (\<lambda>s. s\<lparr>packetFlow := flow\<rparr>)
                            in if \<not> taken then c
                               else
                                 let c = rememberAuthenticatedPath
                                       (updSession c peerID False (\<lambda>s. s\<lparr>lastAuthenticatedPacketAt := now\<rparr>)) p now;
                                     (transport, messages) = receive (the (reliable session)) decoded now;
                                     c = updSession c peerID False (\<lambda>s. s\<lparr>reliable := Some transport\<rparr>)
                                 in foldl (\<lambda>c message. handleReliableMessage c peerID message now) c messages)))"

section \<open>Bridged packets\<close>

definition remotePeerForSessionID :: "Client \<Rightarrow> id16 \<Rightarrow> PeerID option" where
  "remotePeerForSessionID c sid =
     (let named = (\<lambda>entry. case entry of None \<Rightarrow> False | Some session \<Rightarrow> sessionReady session \<and> sessionId session = sid)
      in map_option fst (List.find (\<lambda>(peerID, peer). named (activeSession peer) \<or> named (pendingSession peer)) (remotePeers c)))"

definition bridgedInnerOrigin :: "environment \<Rightarrow> Client \<Rightarrow> bytes \<Rightarrow> (byte \<times> PeerID) option" where
  "bridgedInnerOrigin E c inner =
     (case ParsePrefix inner of
        Inl err \<Rightarrow> None
      | Inr packetType \<Rightarrow>
          if packetType = PacketHelloProbe then
            (case ParseHelloProbe (mac E) inner (admissionKey c) of Inl err \<Rightarrow> None | Inr peerID \<Rightarrow> Some (packetType, peerID))
          else if packetType = PacketSessionHello then
            (case ParseSessionHello (mac E) inner (admissionKey c) of Inl err \<Rightarrow> None | Inr hello \<Rightarrow> Some (packetType, helloPeerID hello))
          else if packetType \<in> {PacketPing, PacketPong, PacketReliable, PacketLeave} then
            (case ParseSessionHeader inner of
               Inl err \<Rightarrow> None
             | Inr header \<Rightarrow> map_option (Pair packetType) (remotePeerForSessionID c (SessionID header)))
          else None)"

definition handleBridgedInner ::
  "environment \<Rightarrow> entropy \<Rightarrow> Client \<Rightarrow> bytes \<Rightarrow> AddrPort \<Rightarrow> PeerID \<Rightarrow> time \<Rightarrow> Client" where
  "handleBridgedInner E random c inner nextHop intermediary now =
     (case bridgedInnerOrigin E c inner of
        None \<Rightarrow> c
      | Some (packetType, origin) \<Rightarrow>
          if origin = localPeerID c \<or> origin = intermediary then c
          else case NewBridgePath nextHop intermediary origin of
            Inl err \<Rightarrow> c
          | Inr p \<Rightarrow>
              if packetType = PacketHelloProbe \<or> packetType = PacketSessionHello then handleHelloOnPath E random c inner p now
              else if packetType = PacketPing \<or> packetType = PacketPong then handleSessionPacketOnPath c inner p now
              else if packetType = PacketReliable then handleReliablePacketOnPath c inner p now
              else if packetType = PacketLeave then handleLeavePacketOnPath c inner p
              else c)"

definition handleBridgePacket :: "environment \<Rightarrow> entropy \<Rightarrow> Client \<Rightarrow> bytes \<Rightarrow> AddrPort \<Rightarrow> time \<Rightarrow> Client" where
  "handleBridgePacket E random c data origin now =
     (case NewPath origin of
        Inl err \<Rightarrow> c
      | Inr outerPath \<Rightarrow>
          (case ParseSessionHeader data of
             Inl err \<Rightarrow> c
           | Inr header \<Rightarrow>
               if Type header \<noteq> PacketBridge \<and> Type header \<noteq> PacketBridgeLowPriority then c
               else case sessionForHeader c header outerPath of
                 None \<Rightarrow> c
               | Some (previous, pending) \<Rightarrow>
                   (case sessionOf c previous pending of
                      None \<Rightarrow> c
                    | Some adjacent \<Rightarrow>
                        if pending \<or> \<not> authenticated adjacent \<or> \<not> IsDirect (path adjacent) \<or> \<not> acceptsDataPath adjacent outerPath \<or>
                           \<not> mayReceive (packetFlow adjacent) (PacketSequence header) then c
                        else case ParseBridge data (sessionId adjacent) (receiveCipher adjacent) of
                          Inl err \<Rightarrow> c
                        | Inr decoded \<Rightarrow>
                            (case commitReceived (packetFlow adjacent) (PacketSequence header) of
                               (taken, flow) \<Rightarrow>
                                 let c = updSession c previous False (\<lambda>s. s\<lparr>packetFlow := flow\<rparr>)
                                 in if \<not> taken then c
                                    else
                                      let c = rememberAuthenticatedPath
                                            (updSession c previous False (\<lambda>s. s\<lparr>lastAuthenticatedPacketAt := now\<rparr>)) outerPath now
                                      in if Target decoded = localPeerID c
                                         then handleBridgedInner E random c (Inner decoded) origin previous now
                                         else if Target decoded = previous then c
                                         else forwardBridgePacket c decoded))))"

section \<open>Room datagrams\<close>

definition roomDatagramSender :: "Client \<Rightarrow> byte \<Rightarrow> id16 \<Rightarrow> PeerID option" where
  "roomDatagramSender c packetType stream =
     (if packetType = PacketVoice then map_option (\<lambda>_. stream) (peerOf c stream)
      else map_option fst (List.find (\<lambda>(peerID, peer). active (peerScreenState peer) \<and> ssStreamID (peerScreenState peer) = stream)
        (remotePeers c)))"

definition authenticatedDirectSession :: "Client \<Rightarrow> AddrPort \<Rightarrow> PeerID option" where
  "authenticatedDirectSession c address =
     map_option fst (List.find (\<lambda>(peerID, peer). directSession (activeSession peer) \<and>
       pathAddress (path (the (activeSession peer))) = address) (remotePeers c))"

fun oldestReceiver :: "(roomDatagramStreamKey \<times> roomDatagramReceiveState) list \<Rightarrow> (roomDatagramStreamKey \<times> time) option \<Rightarrow>
    (roomDatagramStreamKey \<times> time) option" where
  "oldestReceiver [] found = found"
| "oldestReceiver ((key, retained) # rest) found =
     oldestReceiver rest
       (case found of
          None \<Rightarrow> Some (key, rdLastSeen retained)
        | Some (_, oldestAt) \<Rightarrow> if rdLastSeen retained < oldestAt then Some (key, rdLastSeen retained) else found)"

text \<open>Room for the window of a new stream: the one unused for longest goes, with its video.\<close>

definition makeReceiverRoom :: "Client \<Rightarrow> Client" where
  "makeReceiverRoom c =
     (if length (roomDatagramReceivers c) < maxRoomDatagramReceiveStreams then c
      else case oldestReceiver (roomDatagramReceivers c) None of
        None \<Rightarrow> c
      | Some (oldestKey, _) \<Rightarrow>
          dropReceiver (c\<lparr>roomDatagramReceivers := AList.delete oldestKey (roomDatagramReceivers c)\<rparr>) oldestKey)"

definition emptyRoomReceiver :: roomDatagramReceiveState where
  "emptyRoomReceiver = \<lparr>rdWindow = empty_window, rdLastSeen = 0\<rparr>"

text \<open>A fragment of the screen, when the datagram carries one that fits the announced stream.\<close>

definition screenFragment :: "byte \<Rightarrow> RoomDatagram \<Rightarrow> RemotePeer \<Rightarrow> decodedScreenVideoFragment option result" where
  "screenFragment packetType decoded peer =
     (if packetType \<noteq> PacketScreenVideo then Inr None
      else if MediaUnitID decoded = 0 then fail []
      else case decodeScreenVideoFragment (rdPayload decoded) of
        Inl err \<Rightarrow> Inl err
      | Inr fragment \<Rightarrow>
          if \<not> screenVideoMetadataMatchesState (frMetadata fragment) (peerScreenState peer) then fail []
          else Inr (Some fragment))"

definition receiveScreenVideo ::
  "Client \<Rightarrow> PeerID \<Rightarrow> RemotePeer \<Rightarrow> roomDatagramStreamKey \<Rightarrow> bytes \<Rightarrow> AddrPort \<Rightarrow> uint32 \<Rightarrow> decodedScreenVideoFragment \<Rightarrow>
     time \<Rightarrow> Client" where
  "receiveScreenVideo c peerID peer key data origin unit fragment now =
     (let session = the (activeSession peer);
          c = (if IsDirect (path session) \<and> pathAddress (path session) = origin
               then queueScreenVideoForward c key data (now + screenVideoChunkTTL) else c)
      in case acceptScreenVideoFragment c key unit fragment now of
           (None, c) \<Rightarrow> c
         | (Some finished, c) \<Rightarrow>
             deliverScreenVideoChunk c \<lparr>vcPeerID = peerID, vcStreamID = streamID key, vcChunkID = ccChunkID finished,
               vcCodec = ssCodec (peerScreenState peer), vcWidth = ssWidth (peerScreenState peer),
               vcHeight = ssHeight (peerScreenState peer), vcMetadata = ccMetadata finished, vcBytes = ccBytes finished\<rparr>)"

definition receiveAudio ::
  "Client \<Rightarrow> PeerID \<Rightarrow> RoomDatagramHeader \<Rightarrow> RoomDatagram \<Rightarrow> bytes \<Rightarrow> AddrPort \<Rightarrow> time \<Rightarrow> ReceivedFrame option \<times> Client" where
  "receiveAudio c peerID header decoded data origin now =
     (let screen = (rdType header = PacketScreenAudio);
          deadline = now + (if screen then screenAudioSendBudget else 10 * Millisecond)
      in (Some \<lparr>rfSourceID = peerID, rfStreamKind = (if screen then AudioStreamScreen else AudioStreamVoice),
            rfStreamID = rdStreamID header, rfSequence = rdPacketSequence header, rfTimestamp = MediaUnitID decoded,
            rfPayload = rdPayload decoded, rfReceivedAt = now\<rparr>,
          forwardRoomDatagram c peerID data origin deadline))"

text \<open>The frame, if any, is what the media port is handed.  \<open>now\<close> is the time of receipt.\<close>

definition handleRoomDatagram :: "Client \<Rightarrow> bytes \<Rightarrow> AddrPort \<Rightarrow> time \<Rightarrow> ReceivedFrame option \<times> Client" where
  "handleRoomDatagram c data origin now =
     (case ParseRoomDatagramHeader data of
        Inl err \<Rightarrow> (None, c)
      | Inr header \<Rightarrow>
          (case (roomDatagramSender c (rdType header) (rdStreamID header), authenticatedDirectSession c origin) of
             (Some peerID, Some sourceID) \<Rightarrow>
               let peer = the (peerOf c peerID);
                   key = RoomStream peerID (rdStreamID header) (rdType header);
                   known = map_of (roomDatagramReceivers c) key;
                   state = (case known of None \<Rightarrow> emptyRoomReceiver | Some state \<Rightarrow> state)
               in if \<not> authenticatedSession (activeSession peer) \<or> \<not> mayAccept (rdWindow state) (rdPacketSequence header)
                  then (None, c)
                  else case ParseRoomDatagram data header (roomDatagramProtector c) of
                    Inl err \<Rightarrow> (None, c)
                  | Inr decoded \<Rightarrow>
                      (case screenFragment (rdType header) decoded peer of
                         Inl err \<Rightarrow> (None, c)
                       | Inr fragment \<Rightarrow>
                           (case accept (rdWindow state) (rdPacketSequence header) of
                              (taken, window) \<Rightarrow>
                                if \<not> taken then (None, c)
                                else
                                  let c = (if known = None then makeReceiverRoom c else c);
                                      c = c\<lparr>roomDatagramReceivers := AList.update key \<lparr>rdWindow = window, rdLastSeen = now\<rparr>
                                            (roomDatagramReceivers c)\<rparr>;
                                      c = updSession c sourceID False (\<lambda>s. s\<lparr>lastAuthenticatedPacketAt :=
                                            (if lastAuthenticatedPacketAt s < now then now else lastAuthenticatedPacketAt s)\<rparr>)
                                  in case fragment of
                                       Some fragment \<Rightarrow>
                                         (None, receiveScreenVideo c peerID peer key data origin (MediaUnitID decoded) fragment now)
                                     | None \<Rightarrow> receiveAudio c peerID header decoded data origin now))
           | _ \<Rightarrow> (None, c)))"

section \<open>Dispatch\<close>

definition handleSessionControlPacket :: "Client \<Rightarrow> bytes \<Rightarrow> AddrPort \<Rightarrow> byte \<Rightarrow> time \<Rightarrow> Client" where
  "handleSessionControlPacket c data origin packetType now =
     (case NewPath origin of
        Inl err \<Rightarrow> c
      | Inr p \<Rightarrow>
          if packetType = PacketLeave then handleLeavePacketOnPath c data p else handleSessionPacketOnPath c data p now)"

definition handlePacket ::
  "environment \<Rightarrow> entropy \<Rightarrow> Client \<Rightarrow> bytes \<Rightarrow> AddrPort \<Rightarrow> time \<Rightarrow> ReceivedFrame option \<times> Client" where
  "handlePacket E random c data origin now =
     (case ParsePrefix data of
        Inl err \<Rightarrow> (None, c)
      | Inr packetType \<Rightarrow>
          if packetType = PacketHelloProbe \<or> packetType = PacketSessionHello then (None, handleHello E random c data origin now)
          else if packetType \<in> {PacketPing, PacketPong, PacketLeave}
          then (None, handleSessionControlPacket c data origin packetType now)
          else if packetType = PacketReliable then
            (None, case NewPath origin of Inl err \<Rightarrow> c | Inr p \<Rightarrow> handleReliablePacketOnPath c data p now)
          else if packetType \<in> {PacketVoice, PacketScreenVideo, PacketScreenAudio} then handleRoomDatagram c data origin now
          else if packetType = PacketBridge \<or> packetType = PacketBridgeLowPriority
          then (None, handleBridgePacket E random c data origin now)
          else (None, c))"

end
