(* ===== verification/ClientSafety.thy ===== *)
theory ClientSafety
  imports PeerPackets
begin

text \<open>
  The sessions of a client in every state it can reach: whatever arrives, an authenticated session has its keys and its
  transport, its keys come from a hello that was made with the admission key and names this peer and this session, every path is valid, and the table is
  keyed by the identities of its peers.  Every operation of the client keeps this; the lemmas are collected in \<open>peers_safe\<close>.
\<close>

named_theorems peers_safe

section \<open>The invariant\<close>

text \<open>The room as this client knows it: its own identity, the admission key, and the authentication code.\<close>

record room =
  selfID :: PeerID
  roomKey :: key32
  roomMac :: "key32 \<Rightarrow> bytes \<Rightarrow> bytes"

text \<open>A hello made by someone with the admission key.\<close>

definition admittedHello :: "room \<Rightarrow> SessionHello \<Rightarrow> bool" where
  "admittedHello me hello \<longleftrightarrow> (\<exists>packet. ParseSessionHello (roomMac me) packet (roomKey me) = Inr hello)"

definition session_ok :: "room \<Rightarrow> PeerID \<Rightarrow> Session \<Rightarrow> bool" where
  "session_ok me k s \<longleftrightarrow> (authenticated s \<longrightarrow> everAuthenticated s) \<and> (everAuthenticated s \<longrightarrow> ciphers s \<noteq> None) \<and>
     (ciphers s \<noteq> None \<longrightarrow> reliable s \<noteq> None \<and> admittedHello me (remoteHello s) \<and> helloPeerID (remoteHello s) = k \<and> helloSessionID (remoteHello s) = sessionId s) \<and>
     pathIsValid (path s) \<and> (\<forall>probe. candidatePath s = Some probe \<longrightarrow> pathIsValid (probePath probe))"

definition opt_ok :: "room \<Rightarrow> PeerID \<Rightarrow> Session option \<Rightarrow> bool" where
  "opt_ok me k entry \<longleftrightarrow> (\<forall>s. entry = Some s \<longrightarrow> session_ok me k s)"

lemma opt_ok_simps [simp]: "opt_ok me k None" "opt_ok me k (Some s) = session_ok me k s"
  by (simp_all add: opt_ok_def)

definition peer_ok :: "room \<Rightarrow> PeerID \<Rightarrow> RemotePeer \<Rightarrow> bool" where
  "peer_ok me k p \<longleftrightarrow> remotePeerID p = k \<and> k \<noteq> selfID me \<and> opt_ok me k (activeSession p) \<and> opt_ok me k (pendingSession p)"

definition peers_ok :: "room \<Rightarrow> Client \<Rightarrow> bool" where
  "peers_ok me c \<longleftrightarrow> localPeerID c = selfID me \<and> admissionKey c = roomKey me \<and> distinct (map fst (remotePeers c)) \<and> (\<forall>(k, p) \<in> set (remotePeers c). peer_ok me k p)"

lemma peers_ok_cong: "remotePeers c' = remotePeers c \<Longrightarrow> localPeerID c' = localPeerID c \<Longrightarrow> admissionKey c' = admissionKey c \<Longrightarrow> peers_ok me c' = peers_ok me c"
  by (simp add: peers_ok_def)

lemma peers_ok_fields [simp]:
  "peers_ok me (c\<lparr>netLog := a1\<rparr>) = peers_ok me c" "peers_ok me (c\<lparr>snapshot := a2\<rparr>) = peers_ok me c"
  "peers_ok me (c\<lparr>stateChanges := a3\<rparr>) = peers_ok me c" "peers_ok me (c\<lparr>fanoutDirty := a4\<rparr>) = peers_ok me c"
  "peers_ok me (c\<lparr>topologyRevision := a5\<rparr>) = peers_ok me c" "peers_ok me (c\<lparr>topology := a6\<rparr>) = peers_ok me c"
  "peers_ok me (c\<lparr>discoveredAddresses := a7\<rparr>) = peers_ok me c" "peers_ok me (c\<lparr>roomDatagramReceivers := a8\<rparr>) = peers_ok me c"
  "peers_ok me (c\<lparr>screenVideoReceivers := a9\<rparr>) = peers_ok me c" "peers_ok me (c\<lparr>screenVideoRetainedBytes := b1\<rparr>) = peers_ok me c"
  "peers_ok me (c\<lparr>screenVideoChunks := b2\<rparr>) = peers_ok me c" "peers_ok me (c\<lparr>fanout := b3\<rparr>) = peers_ok me c"
  "peers_ok me (c\<lparr>voicePacketSequence := b4\<rparr>) = peers_ok me c" "peers_ok me (c\<lparr>screenPacketSequence := b5\<rparr>) = peers_ok me c"
  "peers_ok me (c\<lparr>screenVideoChunkID := b6\<rparr>) = peers_ok me c" "peers_ok me (c\<lparr>localScreenState := b7\<rparr>) = peers_ok me c"
  "peers_ok me (c\<lparr>localMemberState := b8\<rparr>) = peers_ok me c" "peers_ok me (c\<lparr>fileTransfers := b9\<rparr>) = peers_ok me c"
  "peers_ok me (c\<lparr>fileWorks := c1\<rparr>) = peers_ok me c" "peers_ok me (c\<lparr>reliablePeerCursor := c2\<rparr>) = peers_ok me c"
  "peers_ok me (c\<lparr>networkSnapshot := c3\<rparr>) = peers_ok me c" "peers_ok me (c\<lparr>desiredMemberState := c4\<rparr>) = peers_ok me c"
  "peers_ok me (c\<lparr>memberStateUpdates := c5\<rparr>) = peers_ok me c" "peers_ok me (c\<lparr>helloProbePacket := c6\<rparr>) = peers_ok me c"
  "peers_ok me (c\<lparr>roomNetwork := c7\<rparr>) = peers_ok me c"
  by (simp_all add: peers_ok_def)

lemma peers_ok_peer: "peers_ok me c \<Longrightarrow> peerOf c k = Some p \<Longrightarrow> peer_ok me k p"
  by (auto simp: peers_ok_def peerOf_def dest!: map_of_SomeD)

lemma peers_ok_session: "peers_ok me c \<Longrightarrow> sessionOf c k b = Some s \<Longrightarrow> session_ok me k s"
  by (auto simp: sessionOf_def activeOf_def pendingOf_def peer_ok_def bind_eq_Some_conv dest!: peers_ok_peer split: if_splits)

lemma peers_ok_active: "peers_ok me c \<Longrightarrow> activeOf c k = Some s \<Longrightarrow> session_ok me k s"
  using peers_ok_session [of me c k False s] by (simp add: sessionOf_def)

lemma peers_ok_foldl [peers_safe]:
  "(\<And>c x. peers_ok me c \<Longrightarrow> peers_ok me (f c x)) \<Longrightarrow> peers_ok me c \<Longrightarrow> peers_ok me (foldl f c xs)"
  by (induction xs arbitrary: c) simp_all

lemma peers_ok_updPeer:
  assumes c: "peers_ok me c" and f: "\<And>p. peerOf c k = Some p \<Longrightarrow> peer_ok me k p \<Longrightarrow> peer_ok me k (f p)"
  shows "peers_ok me (updPeer c k f)"
proof -
  have d: "distinct (map fst (remotePeers c))" using c by (simp add: peers_ok_def)
  have keys: "map fst (AList.map_entry k f ps) = map fst ps" for ps :: "(PeerID \<times> RemotePeer) list" by (induction ps) auto
  have "peer_ok me j p" if jp: "(j, p) \<in> set (AList.map_entry k f (remotePeers c))" for j p
  proof -
    have "map_of (AList.map_entry k f (remotePeers c)) j = Some p" using jp d keys by (simp add: map_of_is_SomeI)
    then obtain q where q: "peerOf c j = Some q" "p = (if j = k then f q else q)"
      by (auto simp: map_of_map_entry peerOf_def split: if_splits option.splits)
    then show ?thesis using f [of q] peers_ok_peer [OF c q(1)] by auto
  qed
  then show ?thesis using c d keys by (auto simp: peers_ok_def updPeer_def)
qed

lemma peers_ok_updSession:
  assumes c: "peers_ok me c" and f: "\<And>s. sessionOf c k b = Some s \<Longrightarrow> session_ok me k s \<Longrightarrow> session_ok me k (f s)"
  shows "peers_ok me (updSession c k b f)"
  unfolding updSession_def
proof (rule peers_ok_updPeer [OF c])
  fix p assume "peerOf c k = Some p" "peer_ok me k p"
  then show "peer_ok me k (onSession b f p)"
    using f by (cases "activeSession p"; cases "pendingSession p") (auto simp: peer_ok_def onSession_def sessionOf_def activeOf_def pendingOf_def)
qed

lemma peers_ok_updSession_any [peers_safe]:
  "peers_ok me c \<Longrightarrow> (\<And>s. session_ok me k s \<Longrightarrow> session_ok me k (f s)) \<Longrightarrow> peers_ok me (updSession c k b f)"
  by (rule peers_ok_updSession)

lemma session_ok_fields [simp]:
  "session_ok me k (s\<lparr>packetFlow := a\<rparr>) = session_ok me k s" "session_ok me k (s\<lparr>lastAuthenticatedPacketAt := t\<rparr>) = session_ok me k s"
  "session_ok me k (s\<lparr>rttMillis := r\<rparr>) = session_ok me k s" "session_ok me k (s\<lparr>sessionPing := ping\<rparr>) = session_ok me k s"
  "session_ok me k (s\<lparr>lastTopologyAt := t\<rparr>) = session_ok me k s" "session_ok me k (s\<lparr>topologySentRevision := n\<rparr>) = session_ok me k s"
  "session_ok me k (s\<lparr>memberStateSentRevision := n\<rparr>) = session_ok me k s" "session_ok me k (s\<lparr>screenStateSentRevision := n\<rparr>) = session_ok me k s"
  "session_ok me k (s\<lparr>inboundFanout := ls\<rparr>) = session_ok me k s"
  by (simp_all add: session_ok_def sessionId_def)

lemma session_ok_more [simp]:
  "session_ok me k s \<Longrightarrow> session_ok me k (s\<lparr>authenticated := False\<rparr>)" "session_ok me k s \<Longrightarrow> session_ok me k (clearCandidatePath s)"
  "session_ok me k s \<Longrightarrow> session_ok me k (s\<lparr>reliable := Some r\<rparr>)" "session_ok me k s \<Longrightarrow> session_ok me k (s\<lparr>reliable := map_option g (reliable s)\<rparr>)"
  "session_ok me k s \<Longrightarrow> pathIsValid p \<Longrightarrow> session_ok me k (snd (rememberCandidatePath s p now))"
  "session_ok me k s \<Longrightarrow> session_ok me k (setPing b ping s)" "session_ok me k s \<Longrightarrow> pathIsValid p \<Longrightarrow> session_ok me k (touchSession p now s)"
  by (auto simp: session_ok_def clearCandidatePath_def rememberCandidatePath_def setPing_def touchSession_def Let_def sessionId_def
      split: option.splits)

section \<open>Publishing and sending\<close>

lemma publish_safe [simp]: "peers_ok me (publishStateChange c) = peers_ok me c"
  by (simp add: publishStateChange_def refreshSnapshotLocked_def)

lemma dirty_safe [simp]: "peers_ok me (markTopologyDirty c) = peers_ok me c" "peers_ok me (markPeerGraphDirty c b) = peers_ok me c"
  by (simp_all add: markTopologyDirty_def markPeerGraphDirty_def Let_def)

lemma network_safe [simp]: "peers_ok me (applyNetworkSnapshot c shot) = peers_ok me c"
  by (simp add: applyNetworkSnapshot_def refreshSnapshotLocked_def Let_def)

lemma submit_safe [simp]: "peers_ok me (snd (submit c s)) = peers_ok me c" "peers_ok me (snd (submitResult c s)) = peers_ok me c"
  by (auto simp: submit_def submitResult_def Let_def split: option.splits prod.splits)

lemma submit_safeD: "submit c s = (b, c') \<Longrightarrow> peers_ok me c \<Longrightarrow> peers_ok me c'"
  using submit_safe(1) [of me c s] by simp

lemma bridge_safe: "peers_ok me c \<Longrightarrow> peers_ok me (snd (bridgePacket c p inner low))"
  by (auto simp: bridgePacket_def Let_def split: prod.splits sum.splits intro!: peers_safe)

lemma send_safe [peers_safe]: "peers_ok me c \<Longrightarrow> peers_ok me (snd (sendPacketOnPath c p inner low))"
  using bridge_safe [of me c p inner low]
  by (auto simp: sendPacketOnPath_def split: prod.splits sum.splits)

lemma sendPeer_safe [peers_safe]: "peers_ok me c \<Longrightarrow> peers_ok me (snd (sendPeerPacketOnPath c p inner))"
  by (simp add: sendPeerPacketOnPath_def send_safe)

lemma writeControl_safe [peers_safe]: "peers_ok me c \<Longrightarrow> peers_ok me (snd (writeControlOnPath c p inner))"
  using bridge_safe [of me c p inner False]
  by (auto simp: writeControlOnPath_def split: prod.splits sum.splits)

lemma forwardBridge_safe [peers_safe]: "peers_ok me c \<Longrightarrow> peers_ok me (forwardBridgePacket c decoded)"
  by (auto simp: forwardBridgePacket_def Let_def split: prod.splits sum.splits intro!: peers_safe)

lemma batch_safe: "peers_ok me c \<Longrightarrow> peers_ok me (snd (batchLoop deadline generation ds batch anyTaken c))"
proof (induction deadline generation ds batch anyTaken c rule: batchLoop.induct)
  case (1 deadline generation batch anyTaken c)
  then show ?case by (auto dest: submit_safeD split: prod.splits)
next
  case (2 deadline generation datagram rest batch anyTaken c)
  obtain taken d where d: "submit c (SendRealtimeBatch (batch @ [datagram]) deadline generation) = (taken, d)" by fastforce
  show ?case using 2 submit_safeD [OF d] by (auto simp: Let_def d)
qed

lemma realtime_safe [peers_safe]:
  "peers_ok me c \<Longrightarrow> peers_ok me (snd (sendRealtimePacketsToPeers c packets peerIDs deadline generation))"
  "peers_ok me c \<Longrightarrow> peers_ok me (sendRealtimeToPeers c packet peerIDs deadline generation)"
  by (simp_all add: sendRealtimeToPeers_def sendRealtimePacketsToPeers_def batch_safe Let_def)

section \<open>Discovery\<close>

lemma insertHint_safe [simp]: "peers_ok me (snd (insertHint c address hint now)) = peers_ok me c"
  by (simp add: insertHint_def Let_def)

lemma rememberHint_safe [simp]: "peers_ok me (snd (rememberDiscoveryHint c hint now)) = peers_ok me c"
  by (auto simp: rememberDiscoveryHint_def Let_def split: option.splits)

lemma rememberHint_safeD: "rememberDiscoveryHint c hint now = (r, c') \<Longrightarrow> peers_ok me c \<Longrightarrow> peers_ok me c'"
  using rememberHint_safe [of me c hint now] by simp

lemma rememberPath_safe [simp]: "peers_ok me (rememberAuthenticatedPath c p now) = peers_ok me c"
  by (simp add: rememberAuthenticatedPath_def)

lemma expireHints_safe [simp]: "peers_ok me (snd (expireDiscoveryHints c now)) = peers_ok me c"
  by (simp add: expireDiscoveryHints_def)

lemma probe_safe [peers_safe]:
  "peers_ok me c \<Longrightarrow> peers_ok me (sendHelloProbeOnPath c p)" "peers_ok me c \<Longrightarrow> peers_ok me (sendHelloProbe c a)"
  by (auto simp: sendHelloProbe_def sendHelloProbeOnPath_def sendPeer_safe split: sum.splits)

lemma sessionHello_safe [peers_safe]:
  "peers_ok me c \<Longrightarrow> pathIsValid p \<Longrightarrow> peers_ok me (sendSessionHelloOnPath c k b p now)"
  by (auto simp: sendSessionHelloOnPath_def Let_def split: option.splits intro!: peers_safe)

lemma addHint_safe [peers_safe]: "peers_ok me c \<Longrightarrow> peers_ok me (addDiscoveryHintAt c hint now)"
  by (auto simp: addDiscoveryHintAt_def Let_def probe_safe dest: rememberHint_safeD split: prod.splits)

lemma discoveryProbes_safe [peers_safe]: "peers_ok me c \<Longrightarrow> peers_ok me (sendDiscoveryProbes c now)"
  by (auto simp: sendDiscoveryProbes_def probeAddress_def Let_def split: prod.splits intro!: peers_safe)

section \<open>Topology, member states and plans\<close>

lemma rememberTopology_safe [simp]: "peers_ok me (snd (rememberTopologyPeer c k now)) = peers_ok me c"
  by (simp add: rememberTopologyPeer_def Let_def)

lemma rememberTopology_safeD: "rememberTopologyPeer c k now = (b, c') \<Longrightarrow> peers_ok me c' = peers_ok me c"
  using rememberTopology_safe [of me c k now] by simp

lemma claimLoop_safe: "claimLoop sender now entries claims c = (claims', c') \<Longrightarrow> peers_ok me c' = peers_ok me c"
  by (induction sender now entries claims c rule: claimLoop.induct)
    (auto split: prod.splits bool.splits dest: rememberTopology_safeD)

lemma recordClaims_safe [simp]: "peers_ok me (recordTopologyClaims c sender entries now) = peers_ok me c"
  by (auto simp: recordTopologyClaims_def Let_def split: prod.splits dest!: rememberTopology_safeD claimLoop_safe)

lemma expireTopology_safe [simp]: "peers_ok me (expireTopology c now) = peers_ok me c"
  by (auto simp: expireTopology_def Let_def peers_ok_def)

lemma NewPath_valid: "NewPath a = Inr p \<Longrightarrow> pathIsValid p"
  by (auto simp: NewPath_def pathIsValid_def IsDirect_def IsZero_def Let_def split: if_splits)

lemma NewBridgePath_valid: "NewBridgePath a i t = Inr p \<Longrightarrow> pathIsValid p"
  by (auto simp: NewBridgePath_def NewPath_def pathIsValid_def IsDirect_def Let_def split: if_splits)

lemma bridgePathTo_valid: "bridgePathTo c k now = Some p \<Longrightarrow> pathIsValid p"
  by (auto simp: bridgePathTo_def Let_def split: if_splits list.splits sum.splits dest: NewBridgePath_valid)

lemma probeBridge_safe [peers_safe]: "peers_ok me c \<Longrightarrow> peers_ok me (probeBridgePath now c k)"
  by (auto simp: probeBridgePath_def split: option.splits intro!: peers_safe dest: bridgePathTo_valid)

lemma probeBridges_safe [peers_safe]: "peers_ok me c \<Longrightarrow> peers_ok me (probeBridgePaths c now)"
  unfolding probeBridgePaths_def by (rule peers_ok_foldl) (rule probeBridge_safe)

lemma queueOn_safe [peers_safe]:
  "peers_ok me c \<Longrightarrow> (\<And>s. session_ok me k s \<Longrightarrow> session_ok me k (mark s)) \<Longrightarrow> peers_ok me (queueOn c k channel payload mark)"
  by (auto simp: queueOn_def split: option.splits prod.splits sum.splits intro!: peers_safe)

lemma queueTopology_safe [peers_safe]: "peers_ok me c \<Longrightarrow> peers_ok me (queueTopologySnapshots c now force)"
  by (auto simp: queueTopologySnapshots_def queueTopologySnapshot_def Let_def split: sum.splits intro!: peers_safe)

lemma topologyHint_safe [peers_safe]: "peers_ok me c \<Longrightarrow> peers_ok me (topologyHint now origin c a)"
  by (simp add: topologyHint_def addHint_safe)

lemma topologySnapshot_safe [peers_safe]: "peers_ok me c \<Longrightarrow> peers_ok me (handleTopologySnapshotAt c sender payload now)"
  by (auto simp: handleTopologySnapshotAt_def Let_def split: sum.splits option.splits intro!: peers_safe)

lemma memberStates_safe [peers_safe]: "peers_ok me c \<Longrightarrow> peers_ok me (queueMemberStates c)"
  by (auto simp: queueMemberStates_def queueMemberState_def split: sum.splits intro!: peers_safe)

lemma setMember_safe [simp]: "peers_ok me (snd (SetLocalMemberState c name m p)) = peers_ok me c"
  by (auto simp: SetLocalMemberState_def Let_def split: sum.splits)

lemma applyMember_safe [peers_safe]: "peers_ok me c \<Longrightarrow> peers_ok me (applyDesiredMemberState c)"
  by (auto simp: applyDesiredMemberState_def Let_def intro!: peers_safe)

lemma handleMember_safe [peers_safe]: "peers_ok me c \<Longrightarrow> peers_ok me (handleMemberState c sender payload)"
  by (auto simp: handleMemberState_def peer_ok_def split: sum.splits option.splits intro!: peers_ok_updPeer)

lemma fanout_safe [peers_safe]: "peers_ok me c \<Longrightarrow> peers_ok me (refreshFanout c now)"
  by (auto simp: refreshFanout_def Let_def split: option.splits prod.splits intro!: peers_safe)

lemma voice_safe [peers_safe]: "peers_ok me c \<Longrightarrow> peers_ok me (sendVoiceFrame c frame now)"
  using fanout_safe [of me c now]
  by (auto simp: sendVoiceFrame_def Let_def split: sum.splits intro!: peers_safe)

lemma forwardRoom_safe [peers_safe]: "peers_ok me c \<Longrightarrow> peers_ok me (forwardRoomDatagram c sender data origin deadline)"
  by (auto simp: forwardRoomDatagram_def split: option.splits intro!: peers_safe)

lemma assignment_safe [peers_safe]: "peers_ok me c \<Longrightarrow> peers_ok me (handleFanoutAssignment c sender payload)"
  by (auto simp: handleFanoutAssignment_def Let_def split: option.splits sum.splits intro!: peers_safe)

section \<open>Screen sharing\<close>

lemma screenStates_safe [peers_safe]: "peers_ok me c \<Longrightarrow> peers_ok me (queueScreenStates c)"
  by (auto simp: queueScreenStates_def queueScreenState_def split: sum.splits intro!: peers_safe)

lemma replaceScreen_safe [peers_safe]: "peers_ok me c \<Longrightarrow> peers_ok me (replaceScreenState c state)"
  by (simp add: replaceScreenState_def screenStates_safe)

lemma shares_safe [peers_safe]:
  "peers_ok me c \<Longrightarrow> peers_ok me (snd (startScreenShare draw c name w h))"
  "peers_ok me c \<Longrightarrow> peers_ok me (snd (replaceScreenShare draw c name w h))"
  "peers_ok me c \<Longrightarrow> peers_ok me (snd (stopScreenShare c))"
  by (auto simp: startScreenShare_def replaceScreenShare_def activateScreenShare_def stopScreenShare_def replaceScreen_safe
      split: sum.splits)

lemma mediaDestinations_safeD: "screenMediaDestinations c now = (ready, c') \<Longrightarrow> peers_ok me c \<Longrightarrow> peers_ok me c'"
  by (auto simp: screenMediaDestinations_def Let_def fanout_safe)

lemma packetLoop_safeD: "packetLoop c fragments packets = (r, c') \<Longrightarrow> peers_ok me c' = peers_ok me c"
  by (induction c fragments packets rule: packetLoop.induct) (auto simp: Let_def split: sum.splits)

lemma realtime_safeD: "sendRealtimePacketsToPeers c packets ks deadline generation = (r, c') \<Longrightarrow> peers_ok me c \<Longrightarrow> peers_ok me c'"
  using realtime_safe(1) [of me c packets ks deadline generation] by simp

lemma sendVideo_safe [peers_safe]: "peers_ok me c \<Longrightarrow> peers_ok me (snd (sendScreenVideoChunk c m data now))"
  using screenStates_safe [of me c]
  by (auto simp: sendScreenVideoChunk_def Let_def split: sum.splits prod.splits
      dest!: packetLoop_safeD [where me = me] mediaDestinations_safeD [where me = me] realtime_safeD [where me = me])

lemma sendAudio_safe [peers_safe]: "peers_ok me c \<Longrightarrow> peers_ok me (snd (sendScreenAudioFrame c stamp rawOpus now))"
  using screenStates_safe [of me c]
  by (auto simp: sendScreenAudioFrame_def Let_def split: sum.splits prod.splits
      dest!: mediaDestinations_safeD [where me = me] intro!: realtime_safe)

lemma screenCommand_safe [peers_safe]: "peers_ok me c \<Longrightarrow> peers_ok me (snd (handleScreenCommand draw c command now))"
  by (cases command) (simp_all add: handleScreenCommand_def peers_safe)

lemma receiver_safe [simp]:
  "peers_ok me (putReceiver c key state) = peers_ok me c"
  "peers_ok me (removeScreenVideoChunkAssembly c key chunk) = peers_ok me c"
  by (auto simp: putReceiver_def removeScreenVideoChunkAssembly_def split: option.splits)

lemma removeChunks_safe [simp]: "peers_ok me (removeChunks c key chunks) = peers_ok me c"
  by (induction chunks arbitrary: c) (simp_all add: removeChunks_def)

lemma dropReceiver_safe [simp]:
  "peers_ok me (removeScreenVideoAssembly c key) = peers_ok me c" "peers_ok me (dropReceiver c key) = peers_ok me c"
  by (auto simp: dropReceiver_def removeScreenVideoAssembly_def split: option.splits)

lemma dropReceivers_safe [simp]: "peers_ok me (foldl dropReceiver c keys) = peers_ok me c"
  by (induction keys arbitrary: c) simp_all

lemma expireChunks_safe [simp]: "peers_ok me (expireScreenVideoChunks c now) = peers_ok me c"
proof -
  have "peers_ok me (foldl (\<lambda>c (key, state). removeChunks c key (f state)) c rs) = peers_ok me c" for f rs
    by (induction rs arbitrary: c) (auto split: prod.splits)
  then show ?thesis by (simp add: expireScreenVideoChunks_def)
qed

lemma openAssembly_safeD: "openAssembly c key chunk fragment now = (b, c') \<Longrightarrow> peers_ok me c' = peers_ok me c"
  by (auto simp: openAssembly_def Let_def split: if_splits)

lemma retention_safeD: "retentionLoop n key chunk cost c = Some (b, c') \<Longrightarrow> peers_ok me c' = peers_ok me c"
  by (induction n key chunk cost c rule: retentionLoop.induct) (auto split: if_splits option.splits prod.splits)

lemma room_safeD: "makeScreenVideoRetentionRoom c key chunk cost = (b, c') \<Longrightarrow> peers_ok me c' = peers_ok me c"
  by (auto simp: makeScreenVideoRetentionRoom_def simp del: retentionLoop.simps split: if_splits option.splits dest: retention_safeD)

lemma completeAssembly_safe [simp]:
  "peers_ok me (snd (completeAssembly c key chunk)) = peers_ok me c"
  "peers_ok me (storeScreenFragment c key chunk fragment) = peers_ok me c"
  by (simp_all add: completeAssembly_def storeScreenFragment_def Let_def)

lemma acceptFragment_safe [simp]: "peers_ok me (snd (acceptScreenVideoFragment c key chunk fragment now)) = peers_ok me c"
proof -
  obtain b d where d: "openAssembly c key chunk fragment now = (b, d)" by fastforce
  obtain r e where e: "makeScreenVideoRetentionRoom d key chunk (int (length (frBytes fragment))) = (r, e)" by fastforce
  have "peers_ok me d = peers_ok me c" "peers_ok me e = peers_ok me c"
    using openAssembly_safeD [OF d, of me] room_safeD [OF e, of me] by simp_all
  then show ?thesis
    by (cases b) (simp_all add: acceptScreenVideoFragment_def d e Let_def)
qed

lemma acceptFragment_safeD: "acceptScreenVideoFragment c key chunk fragment now = (r, c') \<Longrightarrow> peers_ok me c' = peers_ok me c"
  using acceptFragment_safe [of me c key chunk fragment now] by simp

lemma deliver_safe [simp]:
  "peers_ok me (queueScreenVideoForward c key packet deadline) = peers_ok me c"
  "peers_ok me (deliverScreenVideoChunk c chunk) = peers_ok me c"
  by (simp_all add: queueScreenVideoForward_def deliverScreenVideoChunk_def Let_def)

lemma flush_safe [peers_safe]: "peers_ok me c \<Longrightarrow> peers_ok me (flushScreenVideoForwards c)"
  by (auto simp: flushScreenVideoForwards_def flushScreenVideoForward_def Let_def split: option.splits intro!: peers_safe)

lemma screenState_safe [peers_safe]: "peers_ok me c \<Longrightarrow> peers_ok me (handleScreenState c sender payload)"
  by (auto simp: handleScreenState_def removeScreenVideoAssembliesForSender_def peer_ok_def
      split: sum.splits option.splits intro!: peers_ok_updPeer)

section \<open>File transfers\<close>

lemma transfer_safe [simp]:
  "peers_ok me (updTransfer c i f) = peers_ok me c" "peers_ok me (startFileWork c w) = peers_ok me c"
  "peers_ok me (closePartialFile c n p) = peers_ok me c" "peers_ok me (pruneFileTransfers c) = peers_ok me c"
  "peers_ok me (readNextFileChunk c i) = peers_ok me c"
  by (auto simp: updTransfer_def closePartialFile_def startFileWork_def pruneFileTransfers_def readNextFileChunk_def split: option.splits)

lemma filePayload_safe [peers_safe]: "peers_ok me c \<Longrightarrow> peers_ok me (snd (queueFilePayload c t channel payload))"
  by (auto simp: queueFilePayload_def split: option.splits prod.splits intro!: peers_safe)

lemma filePayload_safeD: "queueFilePayload c t channel payload = (r, c') \<Longrightarrow> peers_ok me c \<Longrightarrow> peers_ok me c'"
  using filePayload_safe [of me c t channel payload] by simp

lemma fileControl_safe [peers_safe]: "peers_ok me c \<Longrightarrow> peers_ok me (snd (queueFileControl c t kind))"
  by (simp add: queueFileControl_def filePayload_safe)

lemma fileControl_safeD: "queueFileControl c t kind = (r, c') \<Longrightarrow> peers_ok me c \<Longrightarrow> peers_ok me c'"
  using fileControl_safe [of me c t kind] by simp

lemma releaseChannel_safe [peers_safe]: "peers_ok me c \<Longrightarrow> peers_ok me (releaseChannel c t)"
  by (auto simp: releaseChannel_def split: option.splits intro!: peers_safe)

lemma finishFile_safe [peers_safe]: "peers_ok me c \<Longrightarrow> peers_ok me (finishFileTransfer c i final reason now)"
  by (auto simp: finishFileTransfer_def Let_def releaseChannel_safe split: option.splits)

lemma failWith_safe [peers_safe]: "peers_ok me c \<Longrightarrow> peers_ok me (failWith c i t notify reason now)"
  by (auto simp: failWith_def intro!: peers_safe)

lemma fileCommand_safe [peers_safe]: "peers_ok me c \<Longrightarrow> peers_ok me (snd (handleFileCommand draw c command now))"
  by (cases command)
    (auto simp: handleFileCommand_def startFileOffer_def acceptFile_def rejectFile_def cancelFile_def Let_def
      split: option.splits sum.splits prod.splits intro!: peers_safe)

lemma fileOffered_safe [peers_safe]: "peers_ok me c \<Longrightarrow> peers_ok me (fileOffered c i t result now)"
  using filePayload_safe [of me "updTransfer c i f" for f]
  by (auto simp: fileOffered_def Let_def failWith_safe split: sum.split prod.split dest!: filePayload_safeD [where me = me])

lemma fileCreated_safe [peers_safe]: "peers_ok me c \<Longrightarrow> peers_ok me (fileCreated sha c i t result now)"
  by (auto simp: fileCreated_def Let_def failWith_safe split: option.split sum.split prod.split error.split
      dest!: fileControl_safeD [where me = me])

lemma fileRead_safe [peers_safe]: "peers_ok me c \<Longrightarrow> peers_ok me (fileRead c i t result now)"
  by (auto simp: fileRead_def failWith_safe split: sum.split prod.split error.split dest!: filePayload_safeD [where me = me])

lemma fileWritten_safe [peers_safe]: "peers_ok me c \<Longrightarrow> peers_ok me (fileWritten sha c i t result now)"
  by (auto simp: fileWritten_def Let_def failWith_safe split: sum.split prod.split error.split
      dest!: fileControl_safeD [where me = me])

lemma fileFinished_safe [peers_safe]: "peers_ok me c \<Longrightarrow> peers_ok me (fileFinished c i t now)"
  by (auto simp: fileFinished_def Let_def failWith_safe finishFile_safe split: sum.split prod.split error.split
      dest!: fileControl_safeD [where me = me])

lemma fileResult_safe [peers_safe]: "peers_ok me c \<Longrightarrow> peers_ok me (handleFileWorkResult sha c result now)"
  by (simp add: handleFileWorkResult_def Let_def failWith_safe fileOffered_safe fileCreated_safe fileRead_safe fileWritten_safe
      fileFinished_safe split: option.split prod.split fileWorkKind.split del: fileTerminal.simps)

lemma fileControl_answers_safe:
  assumes "peers_ok me c"
  shows "peers_ok me (receiveFileOffer c sender i offer now)" "peers_ok me (fileAccepted c i t now)"
    "peers_ok me (fileDataAcked c i t sender now)"
  using assms by (auto simp: receiveFileOffer_def fileAccepted_def fileDataAcked_def Let_def intro!: peers_safe)

lemma handleControl_safe [peers_safe]: "peers_ok me c \<Longrightarrow> peers_ok me (handleFileControl c sender session payload now)"
  by (simp add: handleFileControl_def fileControl_answers_safe finishFile_safe
      split: sum.split prod.split option.split del: fileTerminal.simps)

lemma handleData_safe [peers_safe]: "peers_ok me c \<Longrightarrow> peers_ok me (handleFileData c sender session payload)"
  by (simp add: handleFileData_def split: sum.split prod.split option.split)

lemma fileMessage_safe [peers_safe]: "peers_ok me c \<Longrightarrow> peers_ok me (handleFileMessage c sender message now)"
  by (simp add: handleFileMessage_def handleControl_safe handleData_safe split: option.split)

lemma expireFiles_safe [peers_safe]:
  "peers_ok me c \<Longrightarrow> peers_ok me (expireFileTransfers c now)" "peers_ok me c \<Longrightarrow> peers_ok me (stopFileTransfers c now)"
  by (auto simp: expireFileTransfers_def expireFileTransfer_def stopFileTransfers_def split: option.splits intro!: peers_safe)

section \<open>Sessions\<close>

lemma newSession_ok: "newSessionWithLocalHello E random c p sid now = Inr s \<Longrightarrow> pathIsValid p \<Longrightarrow> session_ok me k s"
  by (auto simp: newSessionWithLocalHello_def blankSession_def session_ok_def split: sum.splits)

lemma initiating_ok: "newInitiatingSession E random c p now = Inr s \<Longrightarrow> pathIsValid p \<Longrightarrow> session_ok me k s"
  by (auto simp: newInitiatingSession_def newSession_ok split: sum.splits)

lemma derive_ids: "DeriveSession C key own remote = Inr cs \<Longrightarrow> helloSessionID own = helloSessionID remote"
  by (auto simp: DeriveSession_def validateSessionInputs_def validSessionIDPair_def Let_def
      split: option.splits if_splits sum.splits)

lemma complete_ok: "completeSessionHello E s hello = Inr s' \<Longrightarrow> session_ok me k s \<Longrightarrow> helloPeerID hello = k \<Longrightarrow> admittedHello me hello \<Longrightarrow>
     session_ok me k s'"
  by (auto simp: completeSessionHello_def session_ok_def sessionId_def split: sum.splits dest: derive_ids)

lemma putPending_safe [peers_safe]:
  assumes c: "peers_ok me c" and k: "k \<noteq> selfID me" and s: "session_ok me k s"
  shows "peers_ok me (putPending c k s)"
proof -
  let ?p = "(case peerOf c k of None \<Rightarrow> newPeer k | Some peer \<Rightarrow> peer)\<lparr>pendingSession := Some s\<rparr>"
  have p: "peer_ok me k ?p" using k s peers_ok_peer [OF c] by (auto simp: peer_ok_def newPeer_def split: option.split)
  have "peer_ok me j q" if jq: "(j, q) \<in> set (AList.update k ?p (remotePeers c))" for j q
    using jq set_update [of k ?p "remotePeers c"] p c by (auto simp: peers_ok_def)
  then show ?thesis using c by (auto simp: peers_ok_def putPending_def putPeer_def)
qed

lemma startSession_safe [peers_safe]:
  "peers_ok me c \<Longrightarrow> k \<noteq> selfID me \<Longrightarrow> pathIsValid p \<Longrightarrow> peers_ok me (startInitiatingSession E random c k p now)"
  by (auto simp: startInitiatingSession_def split: sum.splits intro!: peers_safe intro: initiating_ok)

lemma pingOnPath_safe [peers_safe]: "peers_ok me c \<Longrightarrow> peers_ok me (sendPingOnPath c k b s onCandidate p ping now)"
  by (auto simp: sendPingOnPath_def Let_def split: prod.splits sum.splits intro!: peers_safe)

lemma sendPing_safe [peers_safe]: "peers_ok me c \<Longrightarrow> peers_ok me (sendPing c k b now)"
  by (auto simp: sendPing_def Let_def split: option.splits intro!: peers_safe)

lemma sendPings_safe [peers_safe]: "peers_ok me c \<Longrightarrow> peers_ok me (sendPings c now)"
  by (auto simp: sendPings_def split: prod.splits intro!: peers_safe)

lemma session_paths: "session_ok me k s \<Longrightarrow> pathIsValid (path s)"
  "session_ok me k s \<Longrightarrow> candidatePath s = Some probe \<Longrightarrow> pathIsValid (probePath probe)"
  by (simp_all add: session_ok_def)

lemma retryHello_safe: assumes c: "peers_ok me c" shows "peers_ok me (retrySessionHello now c k)"
proof (cases "pendingOf c k")
  case (Some s)
  let ?d = "sendSessionHelloOnPath c k True (path s) now"
  have "session_ok me k s" using peers_ok_session [OF c, of k True s] Some by (simp add: sessionOf_def)
  then have d: "peers_ok me ?d" using c by (simp add: sessionHello_safe session_paths)
  have "pathIsValid (probePath probe)" if "Option.bind (pendingOf ?d k) candidatePath = Some probe" for probe
    using that peers_ok_session [OF d, of k True] by (auto simp: sessionOf_def bind_eq_Some_conv session_paths)
  then show ?thesis using d Some by (auto simp: retrySessionHello_def Let_def sessionHello_safe split: option.split)
qed (use c in \<open>simp add: retrySessionHello_def\<close>)

lemma retryHellos_safe [peers_safe]: "peers_ok me c \<Longrightarrow> peers_ok me (retrySessionHellos c now)"
  unfolding retrySessionHellos_def by (rule peers_ok_foldl) (rule retryHello_safe)

lemma resume_safe:
  assumes c: "peers_ok me c" and h: "admittedHello me hello" and p: "pathIsValid p"
    and r: "resumeSessionFromHello E c (helloPeerID hello) hello p now b = (done', c')"
  shows "peers_ok me c'"
proof -
  have *: "peers_ok me (updSession c (helloPeerID hello) b (\<lambda>_. completed))"
    if "sessionOf c (helloPeerID hello) b = Some s" "completeSessionHello E s hello = Inr completed" for s completed
    using complete_ok [OF that(2) peers_ok_session [OF c that(1)] _ h] by (intro peers_ok_updSession [OF c]) simp
  show ?thesis
    using r c p by (auto simp: resumeSessionFromHello_def Let_def split: option.splits if_splits sum.splits prod.splits
        intro!: sendPing_safe peers_ok_updSession_any * )
qed

lemma handleProbe_safe [peers_safe]:
  "peers_ok me c \<Longrightarrow> k \<noteq> selfID me \<Longrightarrow> pathIsValid p \<Longrightarrow> peers_ok me (handleHelloProbe E random c k p now)"
  by (auto simp: handleHelloProbe_def intro!: peers_safe)

lemma unexpected_safe [peers_safe]:
  "peers_ok me c \<Longrightarrow> k \<noteq> selfID me \<Longrightarrow> pathIsValid p \<Longrightarrow> peers_ok me (handleUnexpectedResponderHello E random c k hello p now)"
  by (auto simp: handleUnexpectedResponderHello_def Let_def split: option.splits intro!: peers_safe)

lemma sessionHelloMessage_safe [peers_safe]:
  assumes c: "peers_ok me c" and h: "admittedHello me hello" and k: "helloPeerID hello \<noteq> selfID me" and p: "pathIsValid p"
  shows "peers_ok me (handleSessionHello E random c (helloPeerID hello) hello p now)"
proof -
  obtain a d where d: "resumeSessionFromHello E c (helloPeerID hello) hello p now False = (a, d)" by fastforce
  obtain b e where e: "resumeSessionFromHello E d (helloPeerID hello) hello p now True = (b, e)" by fastforce
  note ok = resume_safe [OF c h p d] resume_safe [OF resume_safe [OF c h p d] h p e]
  have "session_ok me (helloPeerID hello) s'"
    if "newSessionWithLocalHello E random e p (helloSessionID hello) now = Inr s" "completeSessionHello E s hello = Inr s'" for s s'
    using complete_ok [OF that(2) newSession_ok [OF that(1) p] _ h] by simp
  then show ?thesis
    using ok k p by (auto simp: handleSessionHello_def d e split: bool.splits sum.splits intro!: peers_safe)
qed

lemma hello_safe [peers_safe]:
  assumes c: "peers_ok me c" and E: "mac E = roomMac me" and p: "pathIsValid p"
  shows "peers_ok me (handleHelloOnPath E random c data p now)"
proof -
  have "localPeerID c = selfID me" "admissionKey c = roomKey me" using c by (simp_all add: peers_ok_def)
  moreover have "admittedHello me hello" if "ParseSessionHello (mac E) data (roomKey me) = Inr hello" for hello
    using that E by (auto simp: admittedHello_def)
  ultimately show ?thesis
    using assms by (simp add: handleHelloOnPath_def handleProbe_safe sessionHelloMessage_safe split: sum.split)
qed

lemma handleHello_safe [peers_safe]: "peers_ok me c \<Longrightarrow> mac E = roomMac me \<Longrightarrow> peers_ok me (handleHello E random c data origin now)"
  by (auto simp: handleHello_def hello_safe NewPath_valid split: sum.splits)

section \<open>Packets of a session\<close>

lemma peerOf_updPeer_iff: "peerOf (updPeer c k f) j = (if j = k then map_option f (peerOf c j) else peerOf c j)"
  by (simp add: peerOf_def updPeer_def map_of_map_entry split: option.split)

lemma sessionOf_updSession: "sessionOf (updSession c k b f) k b = map_option f (sessionOf c k b)"
  by (cases "peerOf c k") (auto simp: sessionOf_def activeOf_def pendingOf_def updSession_def peerOf_updPeer_iff onSession_def)

lemma remotePeers_rememberHint: "remotePeers (snd (rememberDiscoveryHint c hint now)) = remotePeers c"
  by (auto simp: rememberDiscoveryHint_def insertHint_def Let_def split: option.splits)

lemma sessionOf_rememberPath [simp]: "sessionOf (rememberAuthenticatedPath c p now) k b = sessionOf c k b"
  by (simp add: rememberAuthenticatedPath_def sessionOf_def activeOf_def pendingOf_def peerOf_def remotePeers_rememberHint)

definition keyed :: "Client \<Rightarrow> PeerID \<Rightarrow> bool \<Rightarrow> bool" where
  "keyed c k b \<longleftrightarrow> (\<forall>s. sessionOf c k b = Some s \<longrightarrow> ciphers s \<noteq> None)"

lemma keyed_updSession [simp]: "(\<And>s. ciphers (f s) = ciphers s) \<Longrightarrow> keyed c k b \<Longrightarrow> keyed (updSession c k b f) k b"
  by (auto simp: keyed_def sessionOf_updSession)

lemma keyed_rememberPath [simp]: "keyed (rememberAuthenticatedPath c p now) k b = keyed c k b"
  by (simp add: keyed_def)

lemma answers_keyed: "answersHeader header p (Some s) \<Longrightarrow> ciphers s \<noteq> None"
  by (auto simp: answersHeader_def sessionReady_def sendCipher_def)

lemma sessionForHeader_keyed:
  assumes c: "peers_ok me c" and s: "sessionForHeader c header p = Some (k, b)" shows "keyed c k b"
proof -
  have d: "distinct (map fst (remotePeers c))" using c by (simp add: peers_ok_def)
  have found: "\<exists>q. peerOf c k = Some q \<and> answersHeader header p (f q)"
    if "List.find (\<lambda>(k, q). answersHeader header p (f q)) (remotePeers c) = Some (k, q)" for f :: "RemotePeer \<Rightarrow> Session option" and k q
    using that d by (auto simp: find_Some_iff peerOf_def intro!: map_of_is_SomeI) (metis nth_mem)
  obtain q where q: "peerOf c k = Some q" "answersHeader header p (if b then pendingSession q else activeSession q)"
    using s by (auto simp: sessionForHeader_def split: option.splits dest!: found)
  then show ?thesis
    by (auto simp: keyed_def sessionOf_def activeOf_def pendingOf_def split: if_splits dest: answers_keyed)
qed

lemma pong_ok:
  "session_ok me k s \<Longrightarrow> ciphers s \<noteq> None \<Longrightarrow> pathIsValid p \<Longrightarrow> session_ok me k (pongOnPath p rtt now s)"
  "session_ok me k s \<Longrightarrow> ciphers s \<noteq> None \<Longrightarrow> pathIsValid p \<Longrightarrow> session_ok me k (snd (pongOnCandidate p rtt now s))"
  by (auto simp: session_ok_def pongOnPath_def pongOnCandidate_def touchSession_def clearCandidatePath_def sessionId_def)

lemma promote_safe [peers_safe]: "peers_ok me c \<Longrightarrow> peers_ok me (promotePending c k)"
  unfolding promotePending_def by (rule peers_ok_updPeer) (auto simp: peer_ok_def)

lemma afterPong_safe [peers_safe]: "peers_ok me c \<Longrightarrow> peers_ok me (afterPong c k a b d e now)"
  by (auto simp: afterPong_def Let_def intro!: peers_safe)

lemma handlePing_safe [peers_safe]: "peers_ok me c \<Longrightarrow> pathIsValid p \<Longrightarrow> peers_ok me (handlePing c k b n p now)"
  by (auto simp: handlePing_def Let_def split: option.splits prod.splits sum.splits intro!: peers_safe)

lemma handlePong_safe [peers_safe]:
  assumes c: "peers_ok me c" and k: "keyed c k b" and p: "pathIsValid p" shows "peers_ok me (handlePong c k b n p now)"
proof -
  have "peers_ok me (rememberAuthenticatedPath (updSession c k b (pongOnPath p rtt now)) p now)" for rtt
    using k by (auto simp: keyed_def intro!: peers_ok_updSession [OF c] pong_ok p)
  moreover have "peers_ok me (updSession (rememberAuthenticatedPath c p now) k b (\<lambda>s. snd (pongOnCandidate p rtt now s)))" for rtt
    using k c by (auto simp: keyed_def intro!: peers_ok_updSession pong_ok p)
  ultimately show ?thesis
    using c by (auto simp: handlePong_def Let_def split: option.split intro!: promote_safe afterPong_safe)
qed

lemma sessionPacket_safe [peers_safe]:
  assumes c: "peers_ok me c" and p: "pathIsValid p" shows "peers_ok me (handleSessionPacketOnPath c data p now)"
proof -
  have "peers_ok me (handlePing (updSession c k b (packetFlow_update (\<lambda>_. flow))) k b n p now)" for k b flow n
    using assms by (intro handlePing_safe peers_ok_updSession_any) simp_all
  moreover have "peers_ok me (handlePong (updSession c k b (packetFlow_update (\<lambda>_. flow))) k b n p now)"
    if "sessionForHeader c header p = Some (k, b)" for k b flow n header
    using assms sessionForHeader_keyed [OF c that] by (intro handlePong_safe peers_ok_updSession_any) simp_all
  moreover have "peers_ok me (updSession c k b (packetFlow_update (\<lambda>_. flow)))" for k b flow
    using c by (intro peers_ok_updSession_any) simp_all
  ultimately show ?thesis
    using c by (simp add: handleSessionPacketOnPath_def Let_def split: sum.split option.split prod.split)
qed

lemma ageActive_ok: "session_ok me k s \<Longrightarrow> session_ok me k (snd (ageActive now s))"
  by (auto simp: ageActive_def Let_def split: option.splits)

lemma agePeer_ok: "peer_ok me k p \<Longrightarrow> agePeer now p = Some q \<Longrightarrow> peer_ok me k q"
  by (cases "activeSession p")
    (auto simp: agePeer_def peer_ok_def Let_def ageActive_ok split: if_splits)

lemma expirePeers_safe [peers_safe]: assumes c: "peers_ok me c" shows "peers_ok me (expireRemotePeers c now)"
proof -
  let ?ps = "List.map_filter (\<lambda>(k, p). map_option (Pair k) (agePeer now p)) (remotePeers c)"
  have keys: "fst ` set (List.map_filter (\<lambda>(k, p). map_option (Pair k) (agePeer now p)) ps) \<subseteq> fst ` set ps"
    for ps :: "(PeerID \<times> RemotePeer) list" by (force simp: List.map_filter_def)
  have "distinct (map fst ps) \<Longrightarrow> distinct (map fst (List.map_filter (\<lambda>(k, p). map_option (Pair k) (agePeer now p)) ps))"
    for ps :: "(PeerID \<times> RemotePeer) list"
  proof (induction ps)
    case (Cons x ps)
    then show ?case using keys [of ps] by (cases x) (auto simp: map_filter_simps split: option.split)
  qed (simp add: map_filter_simps)
  moreover have "\<forall>(k, p) \<in> set ?ps. peer_ok me k p"
    using c agePeer_ok [of me _ _ now] by (fastforce simp: peers_ok_def List.map_filter_def)
  ultimately have "peers_ok me (c\<lparr>remotePeers := ?ps\<rparr>)" using c by (simp add: peers_ok_def)
  then show ?thesis by (simp add: expireRemotePeers_def Let_def)
qed

lemma sendLeaves_safe [peers_safe]: "peers_ok me c \<Longrightarrow> peers_ok me (sendLeaves c)"
  by (auto simp: sendLeaves_def sendLeaveTo_def sendLeave_def Let_def split: option.splits prod.splits sum.splits
      intro!: peers_safe simp del: foldl_Cons)

lemma delete_safe [peers_safe]: "peers_ok me c \<Longrightarrow> peers_ok me (c\<lparr>remotePeers := AList.delete k (remotePeers c)\<rparr>)"
  by (auto simp: peers_ok_def AList.delete_eq distinct_map_filter)

lemma leave_safe [peers_safe]: "peers_ok me c \<Longrightarrow> peers_ok me (handleLeavePacketOnPath c data p)"
  by (auto simp: handleLeavePacketOnPath_def delete_safe split: sum.split option.split)

section \<open>Every packet\<close>

lemma sendTurn_safe:
  assumes c: "peers_ok me c" and t: "sendTurn now (n, b, c) k = (n', b', c')" shows "peers_ok me c'"
proof -
  have flow: "peers_ok me (updSession c k False (packetFlow_update (\<lambda>_. flow)))" for flow
    using c by (intro peers_ok_updSession_any) simp_all
  have sent: "peers_ok me d'" if "sendPacketOnPath d q encoded low = (r, d')" "peers_ok me d" for d d' q encoded low r
    using send_safe [OF that(2), of q encoded low] that(1) by simp
  show ?thesis
    using t c flow
    by (auto simp: sendTurn_def Let_def split: if_splits option.splits prod.splits sum.splits
        intro!: peers_ok_updSession_any dest!: sent)
qed

lemma sendTurns_safe: "peers_ok me c \<Longrightarrow> foldl (sendTurn now) (n, b, c) ks = (n', b', c') \<Longrightarrow> peers_ok me c'"
proof (induction ks arbitrary: n b c)
  case (Cons k ks)
  obtain m d e where "sendTurn now (n, b, c) k = (m, d, e)" by (metis prod_cases3)
  then show ?case using Cons.IH [OF sendTurn_safe [OF Cons.prems(1)]] Cons.prems(2) by simp
qed simp

lemma sendRounds_safe: "peers_ok me c \<Longrightarrow> peers_ok me (sendRounds now ks n c)"
proof (induction now ks n c rule: sendRounds.induct)
  case (1 now ks n c)
  obtain m b d where r: "sendRound now ks n c = (m, b, d)" by (metis prod_cases3)
  have "peers_ok me d" using 1(2) r unfolding sendRound_def by (rule sendTurns_safe)
  then show ?case using 1 by (subst sendRounds.simps) (simp add: r)
qed

lemma sendReliable_safe [peers_safe]: "peers_ok me c \<Longrightarrow> peers_ok me (sendReliable c now)"
  by (simp add: sendReliable_def Let_def sendRounds_safe)

lemma reliableMessage_safe [peers_safe]: "peers_ok me c \<Longrightarrow> peers_ok me (handleReliableMessage c sender message now)"
  by (simp add: handleReliableMessage_def peers_safe)

lemma reliablePacket_safe [peers_safe]:
  assumes c: "peers_ok me c" shows "peers_ok me (handleReliablePacketOnPath c data p now)"
proof -
  have flow: "peers_ok me (updSession c k False (packetFlow_update (\<lambda>_. flow)))" for k flow
    using c by (intro peers_ok_updSession_any) simp_all
  have heard: "peers_ok me (updSession (rememberAuthenticatedPath
      (updSession (updSession c k False (packetFlow_update (\<lambda>_. flow))) k False (lastAuthenticatedPacketAt_update (\<lambda>_. now))) p now)
      k False (reliable_update (\<lambda>_. Some transport)))" for k flow transport
    using flow by (intro peers_ok_updSession_any) (simp_all add: peers_ok_updSession_any)
  have "peers_ok me (foldl (\<lambda>c message. handleReliableMessage c k message now) d messages)" if "peers_ok me d" for k d messages
    using that by (intro peers_ok_foldl) (simp_all add: reliableMessage_safe)
  with c flow heard show ?thesis
    by (simp add: handleReliablePacketOnPath_def Let_def split: sum.split option.split prod.split)
qed

lemma bridgedInner_safe [peers_safe]: "peers_ok me c \<Longrightarrow> mac E = roomMac me \<Longrightarrow> peers_ok me (handleBridgedInner E random c inner hop k now)"
  by (auto simp: handleBridgedInner_def split: option.split sum.split intro!: peers_safe dest: NewBridgePath_valid)

lemma bridgePacketIn_safe [peers_safe]:
  assumes c: "peers_ok me c" and E: "mac E = roomMac me" shows "peers_ok me (handleBridgePacket E random c data origin now)"
proof -
  have flow: "peers_ok me (updSession c k False (packetFlow_update (\<lambda>_. flow)))" for k flow
    using c by (intro peers_ok_updSession_any) simp_all
  have "peers_ok me (rememberAuthenticatedPath
      (updSession (updSession c k False (packetFlow_update (\<lambda>_. flow))) k False (lastAuthenticatedPacketAt_update (\<lambda>_. now))) p now)"
    for k flow p using flow by (simp add: peers_ok_updSession_any)
  with c E flow show ?thesis
    by (simp add: handleBridgePacket_def Let_def bridgedInner_safe forwardBridge_safe split: sum.split option.split prod.split)
qed

lemma receiverRoom_safe [simp]: "peers_ok me (makeReceiverRoom c) = peers_ok me c"
  by (auto simp: makeReceiverRoom_def split: option.split prod.split)

lemma video_safe [peers_safe]: "peers_ok me c \<Longrightarrow> peers_ok me (receiveScreenVideo c k peer key data origin unit fragment now)"
  by (auto simp: receiveScreenVideo_def Let_def split: prod.splits option.splits dest!: acceptFragment_safeD [where me = me])

lemma audio_safe [peers_safe]: "peers_ok me c \<Longrightarrow> peers_ok me (snd (receiveAudio c k header decoded data origin now))"
  by (simp add: receiveAudio_def Let_def forwardRoom_safe)

lemma roomDatagram_safe [peers_safe]:
  assumes c: "peers_ok me c" shows "peers_ok me (snd (handleRoomDatagram c data origin now))"
proof -
  have heard: "peers_ok me (updSession (c'\<lparr>roomDatagramReceivers := rs\<rparr>) k False
      (\<lambda>s. s\<lparr>lastAuthenticatedPacketAt := (if lastAuthenticatedPacketAt s < now then now else lastAuthenticatedPacketAt s)\<rparr>))"
    if "peers_ok me c'" for c' rs k using that by (intro peers_ok_updSession_any) simp_all
  show ?thesis
    unfolding handleRoomDatagram_def Let_def
    by (simp add: c heard video_safe audio_safe split: sum.split option.split prod.split)
qed

lemma controlPacket_safe [peers_safe]: "peers_ok me c \<Longrightarrow> peers_ok me (handleSessionControlPacket c data origin t now)"
  by (auto simp: handleSessionControlPacket_def split: sum.split intro!: peers_safe dest: NewPath_valid)

lemma packet_safe [peers_safe]: "peers_ok me c \<Longrightarrow> mac E = roomMac me \<Longrightarrow> peers_ok me (snd (handlePacket E random c data origin now))"
  by (simp add: handlePacket_def handleHello_safe controlPacket_safe reliablePacket_safe roomDatagram_safe bridgePacketIn_safe
      split: sum.split)

end
