(* ===== verification/ClientLoop.thy ===== *)
theory ClientLoop
  imports ClientSafety
begin

text \<open>
  The loop of the client, \<open>internal/peer/client.go\<close>: what each case of its \<open>select\<close> does, one event at a time, with the
  queues between the network and the audio engine (\<open>MediaFlow\<close>) as its other half.  Which event comes next is the
  scheduler's; the limit of eight realtime events in a row only orders them.
\<close>

definition maxRealtimeEventsPerTurn :: nat where [simp]: "maxRealtimeEventsPerTurn = 8"

record loopState =
  loopClient :: Client
  loopMedia :: "Flow option"

datatype clientEvent =
    SetMemberEvent bytes bool bool
  | MemberUpdateEvent
  | ScreenCommandEvent "id16 result" screenCommand time
  | FileCommandEvent "id16 result" fileCommand time
  | FileResultEvent fileWorkResult time
  | NetworkChangeEvent endpointSnapshot
  | HintEvent Hint time
  | PacketEvent entropy bytes AddrPort time
  | ScreenBurstEvent "(bytes \<times> AddrPort \<times> time) list"
  | SendReadyEvent time
  | ProbeTick time
  | PingTick time
  | ReliableTick time
  | CleanupTick time
  | StopEvent time

text \<open>The frame of a room datagram goes to the media port, when there is one.\<close>

definition deliverFrame :: "Flow option \<Rightarrow> ReceivedFrame option \<Rightarrow> Flow option" where
  "deliverFrame m frame =
     (case frame of None \<Rightarrow> m | Some x \<Rightarrow> map_option (\<lambda>f. snd (SubmitReceived f x)) m)"

definition loopPacket :: "environment \<Rightarrow> entropy \<Rightarrow> loopState \<Rightarrow> bytes \<Rightarrow> AddrPort \<Rightarrow> time \<Rightarrow> loopState" where
  "loopPacket E random st data origin now =
     (case handlePacket E random (loopClient st) data origin now of
        (frame, c) \<Rightarrow> \<lparr>loopClient = c, loopMedia = deliverFrame (loopMedia st) frame\<rparr>)"

definition roomPacket :: "loopState \<Rightarrow> bytes \<times> AddrPort \<times> time \<Rightarrow> loopState" where
  "roomPacket st packet =
     (case packet of (data, origin, now) \<Rightarrow>
        (case handleRoomDatagram (loopClient st) data origin now of
           (frame, c) \<Rightarrow> \<lparr>loopClient = c, loopMedia = deliverFrame (loopMedia st) frame\<rparr>))"

text \<open>The screen packets that are waiting, up to the limit of a turn; then what they left to forward goes out.\<close>

definition handleScreenPacketBurst :: "loopState \<Rightarrow> (bytes \<times> AddrPort \<times> time) list \<Rightarrow> loopState" where
  "handleScreenPacketBurst st packets =
     (let st = foldl roomPacket st (take maxRealtimeEventsPerTurn packets)
      in st\<lparr>loopClient := flushScreenVideoForwards (loopClient st)\<rparr>)"

definition consumeVoice :: "loopState \<Rightarrow> time \<Rightarrow> loopState" where
  "consumeVoice st now =
     (case loopMedia st of
        None \<Rightarrow> st
      | Some m \<Rightarrow>
          (case ConsumeSend m of
             (None, m) \<Rightarrow> st\<lparr>loopMedia := Some m\<rparr>
           | (Some frame, m) \<Rightarrow> \<lparr>loopClient = sendVoiceFrame (loopClient st) frame now, loopMedia = Some m\<rparr>))"

definition probeTick :: "Client \<Rightarrow> time \<Rightarrow> Client" where
  "probeTick c now =
     queueTopologySnapshots (probeBridgePaths (sendDiscoveryProbes (retrySessionHellos c now) now) now) now False"

definition reliableTick :: "Client \<Rightarrow> time \<Rightarrow> Client" where
  "reliableTick c now = sendReliable (queueScreenStates (queueMemberStates c)) now"

definition cleanupTick :: "Client \<Rightarrow> time \<Rightarrow> Client" where
  "cleanupTick c now =
     (let c = expireFileTransfers (expireRemotePeers c now) now;
          (expired, c) = expireDiscoveryHints c now;
          c = (if expired then publishStateChange c else c)
      in expireScreenVideoChunks (expireTopology c now) now)"

fun clientStep :: "environment \<Rightarrow> (bytes \<Rightarrow> key32) \<Rightarrow> loopState \<Rightarrow> clientEvent \<Rightarrow> loopState" where
  "clientStep E sha st (SetMemberEvent name mute playback) =
     st\<lparr>loopClient := snd (SetLocalMemberState (loopClient st) name mute playback)\<rparr>"
| "clientStep E sha st MemberUpdateEvent =
     st\<lparr>loopClient := applyDesiredMemberState ((loopClient st)\<lparr>memberStateUpdates := False\<rparr>)\<rparr>"
| "clientStep E sha st (ScreenCommandEvent draw command now) =
     st\<lparr>loopClient := snd (handleScreenCommand draw (loopClient st) command now)\<rparr>"
| "clientStep E sha st (FileCommandEvent draw command now) =
     st\<lparr>loopClient := snd (handleFileCommand draw (loopClient st) command now)\<rparr>"
| "clientStep E sha st (FileResultEvent result now) =
     st\<lparr>loopClient := handleFileWorkResult sha (loopClient st) result now\<rparr>"
| "clientStep E sha st (NetworkChangeEvent shot) = st\<lparr>loopClient := applyNetworkSnapshot (loopClient st) shot\<rparr>"
| "clientStep E sha st (HintEvent hint now) = st\<lparr>loopClient := addDiscoveryHintAt (loopClient st) hint now\<rparr>"
| "clientStep E sha st (PacketEvent random data origin now) = loopPacket E random st data origin now"
| "clientStep E sha st (ScreenBurstEvent packets) = handleScreenPacketBurst st packets"
| "clientStep E sha st (SendReadyEvent now) = consumeVoice st now"
| "clientStep E sha st (ProbeTick now) = st\<lparr>loopClient := probeTick (loopClient st) now\<rparr>"
| "clientStep E sha st (PingTick now) = st\<lparr>loopClient := sendPings (loopClient st) now\<rparr>"
| "clientStep E sha st (ReliableTick now) = st\<lparr>loopClient := reliableTick (loopClient st) now\<rparr>"
| "clientStep E sha st (CleanupTick now) = st\<lparr>loopClient := cleanupTick (loopClient st) now\<rparr>"
| "clientStep E sha st (StopEvent now) = st\<lparr>loopClient := stopFileTransfers (sendLeaves (loopClient st)) now\<rparr>"

text \<open>The state in which the loop is entered: the probe made, the member state applied, the network created.\<close>

definition loopStart :: "environment \<Rightarrow> RoomNetwork \<Rightarrow> Flow option \<Rightarrow> Client \<Rightarrow> loopState result" where
  "loopStart E network m c =
     (case initHelloProbe E c of
        (Inl err, c) \<Rightarrow> Inl err
      | (Inr _, c) \<Rightarrow>
          Inr \<lparr>loopClient = (applyDesiredMemberState c)\<lparr>roomNetwork := Some network\<rparr>,
            loopMedia = map_option (\<lambda>f. snd (SetSendInvalidator f True)) m\<rparr>)"

section \<open>The invariant of the loop\<close>

definition loop_ok :: "room \<Rightarrow> loopState \<Rightarrow> bool" where
  "loop_ok me st \<longleftrightarrow> peers_ok me (loopClient st) \<and> pred_option flow_inv (loopMedia st)"

lemma deliverFrame_ok: "pred_option flow_inv m \<Longrightarrow> pred_option flow_inv (deliverFrame m frame)"
  using flow_inv_step [of "the m" "FSubmitReceived (the frame)"]
  by (cases m; cases frame) (auto simp: deliverFrame_def)

lemma ConsumeSend_ok: "ConsumeSend f = (r, g) \<Longrightarrow> flow_inv f \<Longrightarrow> flow_inv g"
  using flow_inv_step [of f FConsumeSend] by simp

lemma consumeVoice_ok: "loop_ok me st \<Longrightarrow> loop_ok me (consumeVoice st now)"
  by (auto simp: loop_ok_def consumeVoice_def voice_safe split: option.splits prod.splits dest: ConsumeSend_ok)

lemma roomPacket_ok: "loop_ok me st \<Longrightarrow> loop_ok me (roomPacket st packet)"
  using roomDatagram_safe [of me "loopClient st"]
  by (auto simp: loop_ok_def roomPacket_def deliverFrame_ok split: prod.split) (metis snd_conv)

lemma loopPacket_ok: "loop_ok me st \<Longrightarrow> mac E = roomMac me \<Longrightarrow> loop_ok me (loopPacket E random st data origin now)"
  using packet_safe [of me "loopClient st" E random data origin now]
  by (auto simp: loop_ok_def loopPacket_def deliverFrame_ok split: prod.split)

lemma roomPackets_ok: "loop_ok me st \<Longrightarrow> loop_ok me (foldl roomPacket st packets)"
  by (induction packets arbitrary: st) (simp_all add: roomPacket_ok)

lemma burst_ok: "loop_ok me st \<Longrightarrow> loop_ok me (handleScreenPacketBurst st packets)"
  using roomPackets_ok [of me st "take maxRealtimeEventsPerTurn packets"]
  by (simp add: loop_ok_def handleScreenPacketBurst_def Let_def flush_safe)

lemma ticks_ok:
  "peers_ok me c \<Longrightarrow> peers_ok me (probeTick c now)" "peers_ok me c \<Longrightarrow> peers_ok me (reliableTick c now)"
  "peers_ok me c \<Longrightarrow> peers_ok me (cleanupTick c now)"
  by (simp_all add: probeTick_def reliableTick_def cleanupTick_def peers_safe expireDiscoveryHints_def Let_def)

lemma loop_ok_client: "loop_ok me st \<Longrightarrow> peers_ok me c \<Longrightarrow> loop_ok me (st\<lparr>loopClient := c\<rparr>)"
  by (simp add: loop_ok_def)

lemma loop_ok_step: assumes st: "loop_ok me st" and E: "mac E = roomMac me" shows "loop_ok me (clientStep E sha st event)"
proof -
  have c: "peers_ok me (loopClient st)" using st by (simp add: loop_ok_def)
  show ?thesis
    using st E c by (cases event)
      (simp_all add: loop_ok_client peers_safe ticks_ok loopPacket_ok burst_ok consumeVoice_ok)
qed

lemma peers_ok_blank: "peers_ok \<lparr>selfID = peerID, roomKey = key, roomMac = hmac\<rparr> (blankClient peerID name key protector)"
  by (simp add: peers_ok_def blankClient_def)

lemma loop_ok_start:
  assumes "loopStart E network m (blankClient peerID name key protector) = Inr st" "pred_option flow_inv m"
  shows "loop_ok \<lparr>selfID = peerID, roomKey = key, roomMac = hmac\<rparr> st"
proof -
  obtain f where st: "st = \<lparr>loopClient = (applyDesiredMemberState ((blankClient peerID name key protector)\<lparr>helloProbePacket := f\<rparr>))
      \<lparr>roomNetwork := Some network\<rparr>, loopMedia = map_option (\<lambda>f. snd (SetSendInvalidator f True)) m\<rparr>"
    using assms(1) by (auto simp: loopStart_def initHelloProbe_def split: sum.splits)
  have "peers_ok \<lparr>selfID = peerID, roomKey = key, roomMac = hmac\<rparr> (loopClient st)" by (simp add: st applyMember_safe peers_ok_blank)
  then show ?thesis using assms(2) flow_inv_step [of "the m" "FSetSendInvalidator True"]
    by (cases m) (auto simp: loop_ok_def st)
qed

interpretation client: machine "clientStep E sha" "loop_ok \<lparr>selfID = peerID, roomKey = key, roomMac = mac E\<rparr>"
  "\<lambda>st. \<exists>network m name protector. pred_option flow_inv m \<and>
     loopStart E network m (blankClient peerID name key protector) = Inr st"
  for E sha peerID key
  by unfold_locales (auto intro: loop_ok_start loop_ok_step)

section \<open>Membership\<close>

text \<open>C17: Whatever arrives, in whatever order: the session of a peer always has a usable path and is no session with
  oneself, it counts as authenticated only with keys, and it has keys only together with a transport and a hello of
  exactly this peer and session that carries the authentication code of the room's admission key.\<close>

theorem client_sessions_admitted:
  assumes "loopStart E network m (blankClient peerID name key protector) = Inr start" "m = None \<or> m = Some NewFlow"
    and s: "sessionOf (loopClient (foldl (clientStep E sha) start events)) k pending = Some s"
  shows "k \<noteq> peerID \<and> pathIsValid (path s) \<and> (authenticated s \<longrightarrow> ciphers s \<noteq> None) \<and>
    (ciphers s \<noteq> None \<longrightarrow> reliable s \<noteq> None \<and> helloPeerID (remoteHello s) = k \<and>
       helloSessionID (remoteHello s) = sessionId s \<and> (\<exists>body. wire (remoteHello s) = body @ mac E key body))"
proof -
  let ?me = "\<lparr>selfID = peerID, roomKey = key, roomMac = mac E\<rparr>"
  have "pred_option flow_inv m" using assms(2) by (auto simp: flow_inv_New)
  then have "loop_ok ?me (foldl (clientStep E sha) start events)"
    using assms(1) by (intro client.inv_reachable) blast
  then have c: "peers_ok ?me (loopClient (foldl (clientStep E sha) start events))" by (simp add: loop_ok_def)
  have "k \<noteq> peerID"
    using s peers_ok_peer [OF c, of k]
    by (auto simp: peer_ok_def sessionOf_def activeOf_def pendingOf_def bind_eq_Some_conv split: if_splits)
  moreover have "\<exists>body. wire hello = body @ mac E key body" if "admittedHello ?me hello" for hello
    using that ParseSessionHello_authentic [of "mac E" _ key hello] by (auto simp: admittedHello_def)
  ultimately show ?thesis using peers_ok_session [OF c s] by (auto simp: session_ok_def)
qed

section \<open>A run with a session\<close>

text \<open>The witness: a hello of another member arrives, and there is a session with keys.\<close>

definition hasKeys :: "Client \<Rightarrow> PeerID \<Rightarrow> bool \<Rightarrow> bool" where
  "hasKeys c k b \<longleftrightarrow> (\<exists>s. sessionOf c k b = Some s \<and> ciphers s \<noteq> None)"

lemma sessionOf_updSession_other: "j \<noteq> k \<or> b' \<noteq> b \<Longrightarrow> sessionOf (updSession c j b' f) k b = sessionOf c k b"
  by (cases "peerOf c k") (auto simp: sessionOf_def activeOf_def pendingOf_def updSession_def peerOf_updPeer_iff onSession_def)

lemma hasKeys_updSession: "hasKeys c k b \<Longrightarrow> (\<And>s. ciphers (f s) = ciphers s) \<Longrightarrow> hasKeys (updSession c j b' f) k b"
  by (cases "j = k \<and> b' = b") (auto simp: hasKeys_def sessionOf_updSession sessionOf_updSession_other)

lemma hasKeys_same: "remotePeers c' = remotePeers c \<Longrightarrow> hasKeys c' k b = hasKeys c k b"
  by (simp add: hasKeys_def sessionOf_def activeOf_def pendingOf_def peerOf_def)

lemma submit_peers: "remotePeers (snd (submitResult c s)) = remotePeers c"
  by (auto simp: submitResult_def submit_def Let_def split: option.split)

lemma hasKeys_send: "hasKeys c k b \<Longrightarrow> hasKeys (snd (sendPeerPacketOnPath c p inner)) k b"
  unfolding sendPeerPacketOnPath_def sendPacketOnPath_def bridgePacket_def Let_def
  by (auto simp: hasKeys_same [OF submit_peers] hasKeys_updSession split: prod.split sum.split)

lemma remember_ciphers: "ciphers (snd (rememberCandidatePath s p now)) = ciphers s"
  by (auto simp: rememberCandidatePath_def Let_def split: option.split)

lemma hasKeys_hello: "hasKeys c k b \<Longrightarrow> hasKeys (sendSessionHelloOnPath c k b p now) k b"
  by (auto simp: sendSessionHelloOnPath_def Let_def split: option.split
      intro!: hasKeys_send hasKeys_updSession remember_ciphers)

lemma hasKeys_dirty: "hasKeys (markPeerGraphDirty c changed) k b = hasKeys c k b"
  by (rule hasKeys_same) (simp add: markPeerGraphDirty_def markTopologyDirty_def Let_def)

lemma setPing_ciphers: "ciphers (setPing onCandidate ping (s\<lparr>packetFlow := flow\<rparr>)) = ciphers s"
  by (simp add: setPing_def)

lemma hasKeys_pingOnPath: "hasKeys c k b \<Longrightarrow> hasKeys (sendPingOnPath c k b s onCandidate p ping now) k b"
  by (simp add: sendPingOnPath_def Let_def hasKeys_dirty hasKeys_send hasKeys_updSession setPing_ciphers
      split: prod.split sum.split)

lemma hasKeys_ping: "hasKeys c k b \<Longrightarrow> hasKeys (sendPing c k b now) k b"
  by (auto simp: sendPing_def Let_def split: option.split intro!: hasKeys_pingOnPath)

lemma hasKeys_putPending: "ciphers s \<noteq> None \<Longrightarrow> hasKeys (putPending c k s) k True"
  by (simp add: hasKeys_def sessionOf_def pendingOf_def peerOf_def putPending_def putPeer_def update_conv)

lemma loopPacket_client: "loopClient (loopPacket E random st data origin now) = snd (handlePacket E random (loopClient st) data origin now)"
  by (simp add: loopPacket_def split: prod.split)

lemma hello_makes_session:
  assumes "ParseSessionHello (mac E) data (admissionKey c) = Inr hello" "NewPath origin = Inr p"
    and "peerOf c (helloPeerID hello) = None" "helloPeerID hello < localPeerID c"
    and "newSessionWithLocalHello E random c p (helloSessionID hello) now = Inr s" "completeSessionHello E s hello = Inr s'"
  shows "hasKeys (snd (handlePacket E random c data origin now)) (helloPeerID hello) True"
proof -
  have "ParsePrefix data = Inr PacketSessionHello"
    using assms(1) by (auto simp: ParseSessionHello_def split: if_splits sum.splits)
  moreover have "resumeSessionFromHello E c (helloPeerID hello) hello p now b = (False, c)" for b
    using assms(3) by (cases b) (simp_all add: resumeSessionFromHello_def sessionOf_def activeOf_def pendingOf_def)
  moreover have "ciphers s' \<noteq> None" using assms(6) by (auto simp: completeSessionHello_def split: sum.splits)
  ultimately show ?thesis
    using assms by (auto simp: handlePacket_def handleHello_def handleHelloOnPath_def handleSessionHello_def
        intro!: hasKeys_ping hasKeys_hello hasKeys_putPending)
qed

theorem client_sessions_admitted_witness:
  "\<exists>start event s. sessionOf (loopClient (foldl (clientStep \<lparr>mac = toy_mac, crypto = toy_crypto\<rparr> (\<lambda>_. 0)) start [event])) 2 True = Some s \<and>
     ciphers s \<noteq> None \<and> reliable s \<noteq> None \<and> helloPeerID (remoteHello s) = 2 \<and>
     (\<exists>body. wire (remoteHello s) = body @ toy_mac 9 body)"
proof -
  let ?E = "\<lparr>mac = toy_mac, crypto = toy_crypto\<rparr>"
  let ?network = "\<lparr>admits = (\<lambda>log s. True), liveSnapshot = \<lparr>ListenAddress = None, Candidates = []\<rparr>\<rparr>"
  let ?blank = "blankClient 3 [] 9 None"
  let ?origin = "AddrPortFrom (Addr4 0x7F000001) 4000"
  let ?random = "\<lparr>randomSessionID = Inr 7, randomPrivateKey = Inr 11\<rparr> :: entropy"
  let ?run = "\<lambda>start event. foldl (clientStep ?E (\<lambda>_. 0)) start [event]"
  obtain probe where probe: "MarshalHelloProbe toy_mac 9 3 = Inr probe" by (simp add: MarshalHelloProbe_def Let_def)
  let ?start = "\<lparr>loopClient = (?blank\<lparr>helloProbePacket := probe\<rparr>)\<lparr>roomNetwork := Some ?network\<rparr>, loopMedia = None\<rparr>"
  have start: "loopStart ?E ?network None ?blank = Inr ?start"
    by (simp add: loopStart_def initHelloProbe_def probe blankClient_def applyDesiredMemberState_def sameMember_def emptyMemberState_def Let_def)
  obtain data where data: "MarshalSessionHello toy_mac 9 2 7 5 = Inr data" by (simp add: MarshalSessionHello_def Let_def)
  obtain own where own: "MarshalSessionHello toy_mac 9 3 7 11 = Inr own" by (simp add: MarshalSessionHello_def Let_def)
  note parse = ParseSessionHello_MarshalSessionHello [OF toy_mac_sized data] ParseSessionHello_MarshalSessionHello [OF toy_mac_sized own]
  obtain p where p: "NewPath ?origin = Inr p" by (simp add: NewPath_def apIsValid_def addrIsValid_def Let_def)
  let ?hello = "\<lparr>helloSessionID = 7, helloPeerID = 2, EphemeralKey = 5, wire = data\<rparr>"
  have new: "newSessionWithLocalHello ?E ?random (loopClient ?start) p 7 0 = Inr
      (blankSession 11 \<lparr>helloSessionID = 7, helloPeerID = 3, EphemeralKey = 11, wire = own\<rparr> own p 0)"
    using own parse(2) by (simp add: newSessionWithLocalHello_def toy_crypto_def blankClient_def)
  obtain s' where done': "completeSessionHello ?E
      (blankSession 11 \<lparr>helloSessionID = 7, helloPeerID = 3, EphemeralKey = 11, wire = own\<rparr> own p 0) ?hello = Inr s'"
    by (simp add: completeSessionHello_def blankSession_def DeriveSession_def validateSessionInputs_def validSessionPeers_def
        validSessionIDPair_def deriveSessionCipher_def sessionTranscript_def toy_crypto_def Let_def)
  have "hasKeys (snd (handlePacket ?E ?random (loopClient ?start) data ?origin 0)) (helloPeerID ?hello) True"
  proof (rule hello_makes_session [OF _ p])
    show "ParseSessionHello (mac ?E) data (admissionKey (loopClient ?start)) = Inr ?hello" using parse(1) by (simp add: blankClient_def)
    show "completeSessionHello ?E (blankSession 11 \<lparr>helloSessionID = 7, helloPeerID = 3, EphemeralKey = 11, wire = own\<rparr> own p 0) ?hello = Inr s'"
      by (rule done')
  qed (use new in \<open>simp_all add: peerOf_def blankClient_def\<close>)
  then obtain s where s: "sessionOf (loopClient (?run ?start (PacketEvent ?random data ?origin 0))) 2 True = Some s" "ciphers s \<noteq> None"
    by (auto simp: hasKeys_def loopPacket_client)
  have "reliable s \<noteq> None \<and> helloPeerID (remoteHello s) = 2 \<and> (\<exists>body. wire (remoteHello s) = body @ toy_mac 9 body)"
    using client_sessions_admitted [OF start _ s(1)] s(2) by simp
  then show ?thesis using s by blast
qed

end
