(* ===== verification/Stun.thy ===== *)
theory Stun
  imports NetAddr
begin

text \<open>
  The STUN messages of \<open>internal/networking/endpoint/stun.go\<close>: the binding request, and the response with the address a
  server saw.  A transaction is its twelve bytes read big-endian; xoring bytes in place is xoring the words.
\<close>

type_synonym stunTransaction = "96 word"

definition stunHeaderSize :: nat where [simp]: "stunHeaderSize = 20"
definition stunMagicCookie :: uint32 where "stunMagicCookie = 0x2112a442"
definition stunBindingRequest :: uint16 where "stunBindingRequest = 0x0001"
definition stunBindingSuccess :: uint16 where "stunBindingSuccess = 0x0101"
definition stunBindingError :: uint16 where "stunBindingError = 0x0111"
definition stunMappedAddress :: uint16 where "stunMappedAddress = 0x0001"
definition stunXORMappedAddress :: uint16 where "stunXORMappedAddress = 0x0020"

lemmas stun_types = stunBindingRequest_def stunBindingSuccess_def stunBindingError_def stunMappedAddress_def
  stunXORMappedAddress_def

definition newBindingRequest :: "stunTransaction result \<Rightarrow> (stunTransaction \<times> bytes) result" where
  "newBindingRequest random =
     (case random of
        Inl err \<Rightarrow> Inl (wrap ''generate STUN transaction: '' err)
      | Inr transaction \<Rightarrow>
          Inr (transaction, put_be 2 stunBindingRequest @ [0, 0] @ put_be 4 stunMagicCookie @ put_be 12 transaction))"

definition stunTransactionFromMessage :: "bytes \<Rightarrow> stunTransaction option" where
  "stunTransactionFromMessage message =
     (if length message < stunHeaderSize \<or> get_be (seg 4 8 message) \<noteq> stunMagicCookie then None
      else Some (get_be (seg 8 20 message)))"

definition mappedAddress :: "Addr \<Rightarrow> uint16 \<Rightarrow> AddrPort result" where
  "mappedAddress address port =
     (if \<not> addrIsValid address \<or> IsUnspecified address \<or> port = 0 then fail ''STUN mapped address is unusable''
      else Inr (AddrPortFrom (Unmap address) port))"

definition xorMask6 :: "stunTransaction \<Rightarrow> id16" where
  "xorMask6 transaction = push_bit 96 (ucast stunMagicCookie) OR ucast transaction"

definition parseMappedAddress :: "bytes \<Rightarrow> stunTransaction \<Rightarrow> bool \<Rightarrow> AddrPort result" where
  "parseMappedAddress value transaction xored =
     (if length value < 4 \<or> value ! 0 \<noteq> 0 then fail ''STUN mapped address is malformed''
      else
        let port = get_be (seg 2 4 value);
            port = (if xored then port XOR ucast (drop_bit 16 stunMagicCookie) else port)
        in if value ! 1 = 0x01 then
             (if length value \<noteq> 8 then fail ''STUN IPv4 mapped address length is invalid''
              else
                let w = get_be (seg 4 8 value)
                in mappedAddress (Addr4 (if xored then w XOR stunMagicCookie else w)) port)
           else if value ! 1 = 0x02 then
             (if length value \<noteq> 20 then fail ''STUN IPv6 mapped address length is invalid''
              else
                let w = get_be (seg 4 20 value)
                in mappedAddress (Addr6 (if xored then w XOR xorMask6 transaction else w) []) port)
           else fail ''STUN mapped address family is unsupported'')"

definition padded :: "nat \<Rightarrow> nat" where
  "padded n = (n + 3) div 4 * 4"

lemma padded_le: "n \<le> padded n"
  by (simp add: padded_def)

text \<open>The loop over the attributes, with what is left of the message and the address found so far.\<close>

function attributeLoop :: "stunTransaction \<Rightarrow> bytes \<Rightarrow> AddrPort option \<Rightarrow> AddrPort result" where
  "attributeLoop transaction rest mapped =
     (if rest = [] then
        (case mapped of
           None \<Rightarrow> fail ''STUN response does not contain a mapped address''
         | Some address \<Rightarrow> Inr address)
      else if length rest < 4 then fail ''STUN attribute header is truncated''
      else
        let attributeType = get_be (seg 0 2 rest);
            attributeLength = unat (get_be (seg 2 4 rest) :: uint16);
            value = take attributeLength (drop 4 rest)
        in if 4 + attributeLength > length rest then fail ''STUN attribute value is truncated''
           else if attributeType = stunXORMappedAddress then parseMappedAddress value transaction True
           else
             let mapped = (if attributeType = stunMappedAddress then
                   (case parseMappedAddress value transaction False of Inl err \<Rightarrow> mapped | Inr address \<Rightarrow> Some address)
                 else mapped)
             in if 4 + padded attributeLength > length rest then fail ''STUN attribute padding is truncated''
                else attributeLoop transaction (drop (4 + padded attributeLength) rest) mapped)"
  by pat_completeness auto
termination by (relation "measure (\<lambda>(transaction, rest, mapped). length rest)") (auto simp: neq_Nil_conv)

declare attributeLoop.simps [simp del]

definition hex4 :: "uint16 \<Rightarrow> string" where
  "hex4 w = map (\<lambda>i. digit (unat (drop_bit (4 * (3 - i)) w) mod 16)) [0..<4]"

definition parseBindingResponse :: "bytes \<Rightarrow> stunTransaction \<Rightarrow> AddrPort result" where
  "parseBindingResponse message transaction =
     (if length message < stunHeaderSize then fail ''STUN response is truncated''
      else
        let messageType = get_be (seg 0 2 message)
        in if messageType = stunBindingError then fail ''STUN server returned an error response''
           else if messageType \<noteq> stunBindingSuccess then fail (''unexpected STUN response type 0x'' @ hex4 messageType)
           else if get_be (seg 4 8 message) \<noteq> stunMagicCookie then fail ''STUN response has an invalid magic cookie''
           else if seg 8 20 message \<noteq> put_be 12 transaction then fail ''STUN response transaction does not match''
           else
             let declaredLength = unat (get_be (seg 2 4 message) :: uint16)
             in if declaredLength mod 4 \<noteq> 0 \<or> declaredLength \<noteq> length message - stunHeaderSize
                then fail ''STUN response length is invalid''
                else attributeLoop transaction (drop stunHeaderSize message) None)"

section \<open>The responses of a server\<close>

text \<open>A response as RFC 8489 lays it out: the header, then attributes padded to four bytes.\<close>

type_synonym stunAttribute = "uint16 \<times> bytes"

definition attributeBytes :: "stunAttribute \<Rightarrow> bytes" where
  "attributeBytes attribute =
     (case attribute of (t, value) \<Rightarrow>
        put_be 2 t @ put_be 2 (of_nat (length value) :: uint16) @ value @ replicate (padded (length value) - length value) 0)"

definition stunResponse :: "stunTransaction \<Rightarrow> stunAttribute list \<Rightarrow> bytes" where
  "stunResponse transaction attributes =
     (let body = concat (map attributeBytes attributes)
      in put_be 2 stunBindingSuccess @ put_be 2 (of_nat (length body) :: uint16) @ put_be 4 stunMagicCookie @
         put_be 12 transaction @ body)"

text \<open>What the response means: its first xored address, or else its last usable plain one.\<close>

definition isXor :: "stunAttribute \<Rightarrow> bool" where "isXor a \<longleftrightarrow> fst a = stunXORMappedAddress"

definition plainAddresses :: "stunTransaction \<Rightarrow> stunAttribute list \<Rightarrow> AddrPort list" where
  "plainAddresses transaction attributes =
     List.map_filter (\<lambda>(t, value). if t \<noteq> stunMappedAddress then None
       else case parseMappedAddress value transaction False of Inl err \<Rightarrow> None | Inr address \<Rightarrow> Some address) attributes"

definition meaning :: "stunTransaction \<Rightarrow> stunAttribute list \<Rightarrow> AddrPort option \<Rightarrow> AddrPort result" where
  "meaning transaction attributes found =
     (case List.find isXor attributes of
        Some (t, value) \<Rightarrow> parseMappedAddress value transaction True
      | None \<Rightarrow>
          (case (if plainAddresses transaction attributes = [] then found else Some (last (plainAddresses transaction attributes))) of
             None \<Rightarrow> fail ''STUN response does not contain a mapped address''
           | Some address \<Rightarrow> Inr address))"

definition xorValue :: "stunTransaction \<Rightarrow> Addr \<Rightarrow> uint16 \<Rightarrow> bytes" where
  "xorValue transaction address port =
     (let p = put_be 2 (port XOR ucast (drop_bit 16 stunMagicCookie))
      in case address of
           AddrZero \<Rightarrow> []
         | Addr4 w \<Rightarrow> [0, 1] @ p @ put_be 4 (w XOR stunMagicCookie)
         | Addr6 w z \<Rightarrow> [0, 2] @ p @ put_be 16 (w XOR xorMask6 transaction))"

section \<open>Parsing is what the response means\<close>

lemma padded_mod [simp]: "padded n mod 4 = 0"
  by (simp add: padded_def)

lemma length_attributeBytes: "length (attributeBytes (t, value)) = 4 + padded (length value)"
  using padded_le [of "length value"] by (simp add: attributeBytes_def)

lemma attributeLoop_step:
  assumes "length v < 65536"
  shows "attributeLoop transaction (attributeBytes (t, v) @ rest) mapped =
    (if t = stunXORMappedAddress then parseMappedAddress v transaction True
     else attributeLoop transaction rest
       (if t = stunMappedAddress then
          (case parseMappedAddress v transaction False of Inl err \<Rightarrow> mapped | Inr address \<Rightarrow> Some address)
        else mapped))"
proof -
  have len: "unat (of_nat (length v) :: uint16) = length v"
    using assms by (simp add: unat_of_nat)
  define all where "all = attributeBytes (t, v) @ rest"
  have "all = put_be 2 t @ put_be 2 (of_nat (length v) :: uint16) @ v @
      (replicate (padded (length v) - length v) 0 @ rest)" by (simp add: all_def attributeBytes_def)
  then have f: "get_be (seg 0 2 all) = t" "get_be (seg 2 4 all) = (of_nat (length v) :: uint16)"
    "take (length v) (drop 4 all) = v" by simp_all
  have l: "length all = 4 + padded (length v) + length rest" by (simp add: all_def length_attributeBytes)
  have d: "drop (4 + padded (length v)) all = rest" by (simp add: all_def length_attributeBytes)
  have g: "all \<noteq> []" "\<not> length all < 4" "\<not> length all < 4 + length v" "\<not> length all < 4 + padded (length v)"
    using padded_le [of "length v"] l by auto
  show ?thesis
    unfolding all_def [symmetric] by (subst attributeLoop.simps) (simp add: f len d g Let_def)
qed

lemma plainAddresses_Cons:
  "plainAddresses transaction ((t, v) # attributes) =
     (if t \<noteq> stunMappedAddress then [] else case parseMappedAddress v transaction False of Inl err \<Rightarrow> [] | Inr a \<Rightarrow> [a]) @
     plainAddresses transaction attributes"
  by (auto simp: plainAddresses_def map_filter_simps split: sum.split)

lemma meaning_Nil: "meaning transaction [] found =
    (case found of None \<Rightarrow> fail ''STUN response does not contain a mapped address'' | Some address \<Rightarrow> Inr address)"
  by (simp add: meaning_def plainAddresses_def map_filter_simps)

lemma meaning_Cons:
  "meaning transaction ((t, v) # attributes) found =
     (if t = stunXORMappedAddress then parseMappedAddress v transaction True
      else meaning transaction attributes
        (if t = stunMappedAddress then
           (case parseMappedAddress v transaction False of Inl err \<Rightarrow> found | Inr address \<Rightarrow> Some address)
         else found))"
  unfolding meaning_def plainAddresses_Cons by (cases "List.find isXor attributes") (auto simp: isXor_def split: sum.split)

lemma attributeLoop_meaning:
  "\<forall>a \<in> set attributes. length (snd a) < 65536 \<Longrightarrow>
     attributeLoop transaction (concat (map attributeBytes attributes)) mapped = meaning transaction attributes mapped"
proof (induction attributes arbitrary: mapped)
  case Nil
  then show ?case by (subst attributeLoop.simps) (simp add: meaning_Nil)
next
  case (Cons a attributes)
  then show ?case by (cases a) (simp add: attributeLoop_step meaning_Cons)
qed

lemma body_mod: "length (concat (map attributeBytes attributes)) mod 4 = 0"
proof (induction attributes)
  case (Cons a attributes)
  then show ?case by (cases a) (simp add: length_attributeBytes mod_add_left_eq [symmetric])
qed simp

lemma attribute_fits: "a \<in> set attributes \<Longrightarrow> length (snd a) \<le> length (concat (map attributeBytes attributes))"
proof (induction attributes)
  case (Cons b attributes)
  obtain t v where a: "a = (t, v)" by fastforce
  show ?case using Cons padded_le [of "length v"] by (auto simp: a length_attributeBytes)
qed simp

lemma unxor: "addrIsValid address \<Longrightarrow> Zone address = [] \<Longrightarrow> parseMappedAddress (xorValue transaction address port) transaction True =
    mappedAddress address port"
  by (cases address) (simp_all add: addrIsValid_def parseMappedAddress_def xorValue_def Let_def xor.assoc)

lemma parse_response:
  assumes fits: "length (concat (map attributeBytes attributes)) < 65536"
  shows "parseBindingResponse (stunResponse transaction attributes) transaction = meaning transaction attributes None"
proof -
  define body where "body = concat (map attributeBytes attributes)"
  define all where "all = stunResponse transaction attributes"
  have all: "all = put_be 2 stunBindingSuccess @ put_be 2 (of_nat (length body) :: uint16) @ put_be 4 stunMagicCookie @
         put_be 12 transaction @ body" by (simp add: all_def stunResponse_def body_def Let_def)
  have f: "get_be (seg 0 2 all) = stunBindingSuccess" "get_be (seg 2 4 all) = (of_nat (length body) :: uint16)"
    "get_be (seg 4 8 all) = stunMagicCookie" "seg 8 20 all = put_be 12 transaction" "drop 20 all = body"
    "length all = 20 + length body" by (simp_all add: all)
  have "unat (of_nat (length body) :: uint16) = length body" using fits by (simp add: unat_of_nat body_def)
  moreover have "length body mod 4 = 0" using body_mod [of attributes] by (simp add: body_def)
  moreover have "\<forall>a \<in> set attributes. length (snd a) < 65536" using attribute_fits fits by (meson le_less_trans)
  ultimately show ?thesis
    unfolding all_def [symmetric]
    by (simp add: parseBindingResponse_def f Let_def attributeLoop_meaning body_def [symmetric])
      (simp add: stun_types body_def attributeLoop_meaning)
qed

text \<open>C18: For every list of attributes that fits a message, parsing the response is its meaning: the first xored address
  decides, otherwise the last usable plain one, otherwise there is none; and a usable address that the server xored comes
  back, unmapped, whatever else the message holds.\<close>

theorem stun_response_meaning:
  assumes "length (concat (map attributeBytes attributes)) < 65536"
  shows "parseBindingResponse (stunResponse transaction attributes) transaction = meaning transaction attributes None \<and>
    (List.find isXor attributes = Some (stunXORMappedAddress, xorValue transaction address port) \<and>
       addrIsValid address \<and> \<not> IsUnspecified address \<and> Zone address = [] \<and> port \<noteq> 0 \<longrightarrow>
     parseBindingResponse (stunResponse transaction attributes) transaction = Inr (AddrPortFrom (Unmap address) port))"
  using parse_response [OF assms, of transaction] by (auto simp: meaning_def unxor mappedAddress_def)

theorem stun_response_meaning_witness:
  "parseBindingResponse (stunResponse 7 [(0x8022, [1, 2, 3]), (stunXORMappedAddress, xorValue 7 (Addr4 0x01020304) 4000)]) 7 =
     Inr (AddrPortFrom (Addr4 0x01020304) 4000)"
proof -
  let ?as = "[(0x8022, [1, 2, 3]), (stunXORMappedAddress, xorValue 7 (Addr4 0x01020304) 4000)]"
  have "length (concat (map attributeBytes ?as)) < 65536"
    by (simp add: length_attributeBytes xorValue_def padded_def Let_def)
  note m = stun_response_meaning [OF this, of 7 "Addr4 0x01020304" 4000]
  have "List.find isXor ?as = Some (stunXORMappedAddress, xorValue 7 (Addr4 0x01020304) 4000)"
    by (simp add: isXor_def stunXORMappedAddress_def)
  then show ?thesis using conjunct2 [OF m] by (simp add: addrIsValid_def IsUnspecified_def del: find.simps)
qed

end
