(* ===== verification/Endpoint.thy ===== *)
theory Endpoint
  imports Stun Wire "HOL-Library.Multiset"
begin

text \<open>
  The shared UDP endpoint, \<open>internal/networking/endpoint/endpoint.go\<close>: the queues between the room and the socket, the
  writer that shares the socket among four lanes, and the reader that sorts what arrives.  A channel is a list with a
  capacity; the goroutines are the steps of \<open>endpointStep\<close>, each as long as the code holds a lock or works on its own
  variables.  What the socket and the context answer to a write is an argument of the step.  The zero \<open>time.Time\<close> is 0.
\<close>

section \<open>State\<close>

definition maxDatagramSize :: nat where [simp]: "maxDatagramSize = 2048"
definition MaxRealtimeBatchDatagrams :: nat where [simp]: "MaxRealtimeBatchDatagrams = 256"
definition maxRealtimeBatchBytes :: nat where [simp]: "maxRealtimeBatchBytes = MaxRealtimeBatchDatagrams * MaxDatagramSize"
definition maxSTUNServerResults :: nat where [simp]: "maxSTUNServerResults = 8"
definition maxPendingSTUN :: nat where [simp]: "maxPendingSTUN = maxSTUNServerResults * 2"
definition maxPeerDatagrams :: nat where [simp]: "maxPeerDatagrams = 256"
definition maxVoiceBatches :: nat where [simp]: "maxVoiceBatches = 64"
definition maxScreenBatches :: nat where [simp]: "maxScreenBatches = 32"
definition maxVoiceWriteTime :: duration where "maxVoiceWriteTime = 20 * Millisecond"
definition maxScreenWriteTime :: duration where "maxScreenWriteTime = 50 * Millisecond"
definition maxNonAudioWriteTime :: duration where "maxNonAudioWriteTime = 2 * Millisecond"
definition controlWriteTimeout :: duration where "controlWriteTimeout = Second"
definition controlWriteCapacity :: nat where [simp]: "controlWriteCapacity = 256"
definition lowPriorityCapacity :: nat where [simp]: "lowPriorityCapacity = 32"

record Datagram =
  dgData :: bytes
  dgFrom :: AddrPort
  dgReceivedAt :: time

datatype packetClass = packetDrop | packetControl | packetReliable | packetVoice | packetScreen

record RealtimeDatagram =
  rtData :: bytes
  rtDestination :: AddrPort

record RealtimeBatch =
  Datagrams :: "RealtimeDatagram list"
  Deadline :: time
  SendGeneration :: uint64
  writeUntil :: time

text \<open>A result channel is named by a number; \<open>None\<close> is the nil channel.\<close>

record queuedWrite =
  qwData :: bytes
  qwDestination :: AddrPort
  qwDeadline :: time
  qwResult :: "nat option"

record pendingSTUN =
  stunServer :: AddrPort
  stunMessage :: "bytes option"

record Endpoint =
  conn :: bool
  closed :: bool
  pending :: "(stunTransaction \<times> pendingSTUN) list"
  controlPackets :: "Datagram list"
  reliablePackets :: "Datagram list"
  voicePackets :: "Datagram list"
  screenPackets :: "Datagram list"
  voiceBatches :: "RealtimeBatch list"
  screenBatches :: "RealtimeBatch list"
  controlWrites :: "queuedWrite list"
  lowPriorityWrites :: "queuedWrite list"
  currentSendGeneration :: uint64

definition NewEndpoint :: Endpoint where
  "NewEndpoint = \<lparr>conn = False, closed = False, pending = [], controlPackets = [], reliablePackets = [],
     voicePackets = [], screenPackets = [], voiceBatches = [], screenBatches = [], controlWrites = [],
     lowPriorityWrites = [], currentSendGeneration = 0\<rparr>"

text \<open>The errors of the socket and of a context.\<close>

datatype ioError = ErrClosed | Canceled | DeadlineExceeded | IoFailed string

section \<open>Queues\<close>

definition enqueueFresh :: "nat \<Rightarrow> 'a list \<Rightarrow> 'a \<Rightarrow> 'a list" where
  "enqueueFresh capacity q v =
     (if length q < capacity then q @ [v]
      else
        let q = tl q
        in if length q < capacity then q @ [v] else q)"

definition classifyRoomPacket :: "bytes \<Rightarrow> packetClass" where
  "classifyRoomPacket packet =
     (case ParsePrefix packet of
        Inl err \<Rightarrow> packetDrop
      | Inr packetType \<Rightarrow>
          if \<not> ValidPacketSize packetType (length packet) then packetDrop
          else if packetType = PacketVoice then packetVoice
          else if packetType = PacketScreenVideo \<or> packetType = PacketScreenAudio then packetScreen
          else if packetType \<in> {PacketHelloProbe, PacketSessionHello, PacketPing, PacketPong, PacketBridge, PacketLeave}
            then packetControl
          else if packetType \<in> {PacketBridgeLowPriority, PacketReliable} then packetReliable
          else packetDrop)"

definition sizeMessage :: string where
  "sizeMessage = ''peer datagram must contain 1 to '' @ digits 10 maxDatagramSize @ '' bytes''"

text \<open>The checks of a single datagram, the first to fail giving the error.\<close>

definition datagramError :: "bytes \<Rightarrow> AddrPort \<Rightarrow> error option" where
  "datagramError data destination =
     (if length data = 0 \<or> length data > maxDatagramSize then Some (Error sizeMessage)
      else if \<not> apIsValid destination \<or> apPort destination = 0 then Some (Error ''peer datagram destination is invalid'')
      else None)"

definition enqueuePeerDatagram ::
  "Endpoint \<Rightarrow> bytes \<Rightarrow> AddrPort \<Rightarrow> time \<Rightarrow> queuedWrite list \<Rightarrow> nat \<Rightarrow> string \<Rightarrow> queuedWrite list result" where
  "enqueuePeerDatagram e data destination now q capacity lane =
     (case datagramError data destination of
        Some err \<Rightarrow> Inl err
      | None \<Rightarrow>
          if \<not> conn e \<or> closed e then fail ''UDP endpoint is not running''
          else if length q < capacity
            then Inr (q @ [\<lparr>qwData = data, qwDestination = destination, qwDeadline = now + controlWriteTimeout, qwResult = None\<rparr>])
          else fail (''UDP '' @ lane @ '' queue is full''))"

definition EnqueueControl :: "Endpoint \<Rightarrow> bytes \<Rightarrow> AddrPort \<Rightarrow> time \<Rightarrow> unit result \<times> Endpoint" where
  "EnqueueControl e data destination now =
     (case enqueuePeerDatagram e data destination now (controlWrites e) controlWriteCapacity ''control'' of
        Inl err \<Rightarrow> (Inl err, e)
      | Inr q \<Rightarrow> (Inr (), e\<lparr>controlWrites := q\<rparr>))"

definition EnqueueLowPriority :: "Endpoint \<Rightarrow> bytes \<Rightarrow> AddrPort \<Rightarrow> time \<Rightarrow> unit result \<times> Endpoint" where
  "EnqueueLowPriority e data destination now =
     (case enqueuePeerDatagram e data destination now (lowPriorityWrites e) lowPriorityCapacity ''low-priority'' of
        Inl err \<Rightarrow> (Inl err, e)
      | Inr q \<Rightarrow> (Inr (), e\<lparr>lowPriorityWrites := q\<rparr>))"

text \<open>
  A write that waits for the socket.  The context is its error so far and its deadline; the caller is refused, or
  blocked while the lane is full, or queued with the number of its result channel.
\<close>

datatype admission = Refused ioError | Blocked | Queued Endpoint

definition queueWrite :: "Endpoint \<Rightarrow> ioError option \<Rightarrow> time option \<Rightarrow> bytes \<Rightarrow> AddrPort \<Rightarrow> time \<Rightarrow> nat \<Rightarrow> admission" where
  "queueWrite e ctxErr ctxDeadline data destination now result =
     (case ctxErr of
        Some err \<Rightarrow> Refused err
      | None \<Rightarrow>
          (case ctxDeadline of
             None \<Rightarrow> Refused (IoFailed ''write context requires a deadline'')
           | Some deadline \<Rightarrow>
               if \<not> deadline > now then Refused DeadlineExceeded
               else if length (controlWrites e) < controlWriteCapacity
                 then Queued (e\<lparr>controlWrites := controlWrites e @
                   [\<lparr>qwData = data, qwDestination = destination, qwDeadline = deadline, qwResult = Some result\<rparr>]\<rparr>)
               else Blocked))"

definition WriteControl ::
  "Endpoint \<Rightarrow> ioError option \<Rightarrow> time option \<Rightarrow> bytes \<Rightarrow> AddrPort \<Rightarrow> time \<Rightarrow> nat \<Rightarrow> admission result" where
  "WriteControl e ctxErr ctxDeadline data destination now result =
     (case datagramError data destination of
        Some err \<Rightarrow> Inl err
      | None \<Rightarrow>
          if \<not> (conn e \<and> \<not> closed e) then fail ''UDP endpoint is not running''
          else Inr (queueWrite e ctxErr ctxDeadline data destination now result))"

section \<open>Batches of the realtime lanes\<close>

text \<open>The loop over the datagrams of a batch: the error of the first bad one.\<close>

fun batchError :: "int \<Rightarrow> RealtimeDatagram list \<Rightarrow> error option" where
  "batchError totalBytes [] = None"
| "batchError totalBytes (packet # packets) =
     (if length (rtData packet) = 0 \<or> length (rtData packet) > maxDatagramSize then Some (Error sizeMessage)
      else if int (length (rtData packet)) > int maxRealtimeBatchBytes - totalBytes
        then Some (Error (''realtime batch contains more than '' @ digits 10 maxRealtimeBatchBytes @ '' bytes''))
      else if \<not> apIsValid (rtDestination packet) \<or> apPort (rtDestination packet) = 0
        then Some (Error ''peer datagram destination is invalid'')
      else batchError (totalBytes + int (length (rtData packet))) packets)"

definition SendRealtimeBatch :: "Endpoint \<Rightarrow> RealtimeBatch \<Rightarrow> time \<Rightarrow> unit result \<times> Endpoint" where
  "SendRealtimeBatch e batch now =
     (if length (Datagrams batch) = 0 then (fail ''realtime batch is empty'', e)
      else if length (Datagrams batch) > MaxRealtimeBatchDatagrams
        then (fail (''realtime batch contains more than '' @ digits 10 MaxRealtimeBatchDatagrams @ '' datagrams''), e)
      else if Deadline batch \<noteq> 0 \<and> now > Deadline batch then (fail ''realtime batch deadline has expired'', e)
      else
        let class = classifyRoomPacket (rtData (hd (Datagrams batch)))
        in if class \<noteq> packetVoice \<and> class \<noteq> packetScreen then (fail ''realtime batch packet type is invalid'', e)
           else case batchError 0 (Datagrams batch) of
               Some err \<Rightarrow> (Inl err, e)
             | None \<Rightarrow>
                 if \<not> conn e \<or> closed e then (fail ''UDP endpoint is not running'', e)
                 else if SendGeneration batch \<noteq> 0 \<and> SendGeneration batch \<noteq> currentSendGeneration e
                   then (fail ''realtime batch send generation is stale'', e)
                 else if class = packetVoice
                   then (Inr (), e\<lparr>voiceBatches := enqueueFresh maxVoiceBatches (voiceBatches e) batch\<rparr>)
                 else (Inr (), e\<lparr>screenBatches := enqueueFresh maxScreenBatches (screenBatches e) batch\<rparr>))"

definition retainRealtimeSendGeneration :: "RealtimeBatch list \<Rightarrow> uint64 \<Rightarrow> RealtimeBatch list" where
  "retainRealtimeSendGeneration batches sendGeneration =
     filter (\<lambda>batch. SendGeneration batch = 0 \<or> SendGeneration batch = sendGeneration) batches"

definition SetRealtimeSendGeneration :: "Endpoint \<Rightarrow> uint64 \<Rightarrow> Endpoint" where
  "SetRealtimeSendGeneration e sendGeneration =
     e\<lparr>currentSendGeneration := sendGeneration,
       voiceBatches := retainRealtimeSendGeneration (voiceBatches e) sendGeneration,
       screenBatches := retainRealtimeSendGeneration (screenBatches e) sendGeneration\<rparr>"

section \<open>Starting, stopping and reading\<close>

definition startEndpoint :: "Endpoint \<Rightarrow> Endpoint" where
  "startEndpoint e = e\<lparr>conn := True\<rparr>"

definition stopAcceptingWrites :: "Endpoint \<Rightarrow> Endpoint" where
  "stopAcceptingWrites e = e\<lparr>closed := True, conn := False\<rparr>"

text \<open>The answer of a probe: its channel holds one message.\<close>

definition answerProbe :: "Endpoint \<Rightarrow> bytes \<Rightarrow> AddrPort \<Rightarrow> Endpoint option" where
  "answerProbe e data remote =
     (case stunTransactionFromMessage data of
        None \<Rightarrow> None
      | Some transaction \<Rightarrow>
          (case map_of (pending e) transaction of
             None \<Rightarrow> None
           | Some p \<Rightarrow>
               if stunServer p \<noteq> remote then None
               else Some (case stunMessage p of
                   None \<Rightarrow> e\<lparr>pending := AList.update transaction (p\<lparr>stunMessage := Some data\<rparr>) (pending e)\<rparr>
                 | Some message \<Rightarrow> e)))"

text \<open>One turn of \<open>readLoop\<close>.\<close>

definition readDatagram :: "Endpoint \<Rightarrow> bytes \<Rightarrow> AddrPort \<Rightarrow> time \<Rightarrow> Endpoint" where
  "readDatagram e data origin receivedAt =
     (if length data > maxDatagramSize then e
      else
        let remote = AddrPortFrom (Unmap (apAddr origin)) (apPort origin)
        in case answerProbe e data remote of
             Some e' \<Rightarrow> e'
           | None \<Rightarrow>
               let packet = \<lparr>dgData = data, dgFrom = remote, dgReceivedAt = receivedAt\<rparr>
               in case classifyRoomPacket data of
                    packetDrop \<Rightarrow> e
                  | packetControl \<Rightarrow> e\<lparr>controlPackets := enqueueFresh maxPeerDatagrams (controlPackets e) packet\<rparr>
                  | packetReliable \<Rightarrow> e\<lparr>reliablePackets := enqueueFresh maxPeerDatagrams (reliablePackets e) packet\<rparr>
                  | packetVoice \<Rightarrow> e\<lparr>voicePackets := enqueueFresh maxPeerDatagrams (voicePackets e) packet\<rparr>
                  | packetScreen \<Rightarrow> e\<lparr>screenPackets := enqueueFresh maxPeerDatagrams (screenPackets e) packet\<rparr>)"

section \<open>Probes\<close>

definition addPending :: "Endpoint \<Rightarrow> stunTransaction \<Rightarrow> pendingSTUN \<Rightarrow> unit result \<times> Endpoint" where
  "addPending e transaction p =
     (if closed e \<or> \<not> conn e then (fail ''UDP endpoint is closed'', e)
      else if length (pending e) \<ge> maxPendingSTUN then (fail ''too many pending STUN transactions'', e)
      else if map_of (pending e) transaction \<noteq> None then (fail ''duplicate STUN transaction'', e)
      else (Inr (), e\<lparr>pending := AList.update transaction p (pending e)\<rparr>))"

definition removePending :: "Endpoint \<Rightarrow> stunTransaction \<Rightarrow> Endpoint" where
  "removePending e transaction = e\<lparr>pending := AList.delete transaction (pending e)\<rparr>"

record stunProbeResult =
  mapped :: AddrPort
  rttMillis :: int

text \<open>\<open>probeSTUN\<close> up to the request, which its caller tries to queue until there is room, and its end when a message is
  there.\<close>

definition bindingRequest :: "stunTransaction \<Rightarrow> bytes" where
  "bindingRequest transaction = (case newBindingRequest (Inr transaction) of Inr (_, request) \<Rightarrow> request | _ \<Rightarrow> [])"

definition probeStart :: "Endpoint \<Rightarrow> stunTransaction result \<Rightarrow> AddrPort \<Rightarrow> stunTransaction result \<times> Endpoint" where
  "probeStart e drawn server =
     (case newBindingRequest drawn of
        Inl err \<Rightarrow> (Inl err, e)
      | Inr (transaction, request) \<Rightarrow>
          (case addPending e transaction \<lparr>stunServer = server, stunMessage = None\<rparr> of
             (Inl err, e) \<Rightarrow> (Inl err, e)
           | (Inr _, e) \<Rightarrow> (Inr transaction, e)))"

definition probeFinish :: "Endpoint \<Rightarrow> stunTransaction \<Rightarrow> time \<Rightarrow> time \<Rightarrow> stunProbeResult result option \<times> Endpoint" where
  "probeFinish e transaction started now =
     (case Option.bind (map_of (pending e) transaction) stunMessage of
        None \<Rightarrow> (None, e)
      | Some packet \<Rightarrow>
          (Some (case parseBindingResponse packet transaction of
              Inl err \<Rightarrow> Inl err
            | Inr address \<Rightarrow> Inr \<lparr>mapped = address, rttMillis = max 1 ((now - started) div Millisecond)\<rparr>),
           removePending e transaction))"

section \<open>The writer\<close>

datatype lane = voiceLane | controlLane | screenLane | lowPriorityLane

primrec weight :: "lane \<Rightarrow> nat" where
  "weight voiceLane = 8"
| "weight controlLane = 2"
| "weight screenLane = 2"
| "weight lowPriorityLane = 1"

primrec laneAfter :: "lane \<Rightarrow> lane" where
  "laneAfter voiceLane = controlLane"
| "laneAfter controlLane = screenLane"
| "laneAfter screenLane = lowPriorityLane"
| "laneAfter lowPriorityLane = voiceLane"

datatype job = SendBatch RealtimeBatch | SendQueued queuedWrite

datatype writerState = Scanning | Waiting | Writing lane job | Stopped ioError

record writer =
  wLane :: lane
  wRemaining :: nat
  pendingRealtime :: "lane \<Rightarrow> RealtimeBatch"
  wState :: writerState

definition noBatch :: RealtimeBatch where
  "noBatch = \<lparr>Datagrams = [], Deadline = 0, SendGeneration = 0, writeUntil = 0\<rparr>"

definition newWriter :: writer where
  "newWriter = \<lparr>wLane = voiceLane, wRemaining = weight voiceLane, pendingRealtime = (\<lambda>_. noBatch), wState = Scanning\<rparr>"

definition advance :: "writer \<Rightarrow> writer" where
  "advance w = w\<lparr>wLane := laneAfter (wLane w), wRemaining := weight (laneAfter (wLane w))\<rparr>"

definition spend :: "writer \<Rightarrow> writer" where
  "spend w = (let w = w\<lparr>wRemaining := wRemaining w - 1\<rparr> in if wRemaining w = 0 then advance w else w)"

text \<open>A receive from the channel of a lane, when it has something.\<close>

definition receiveLane :: "lane \<Rightarrow> Endpoint \<Rightarrow> (job \<times> Endpoint) option" where
  "receiveLane l e =
     (case l of
        voiceLane \<Rightarrow> (case voiceBatches e of [] \<Rightarrow> None | b # q \<Rightarrow> Some (SendBatch b, e\<lparr>voiceBatches := q\<rparr>))
      | controlLane \<Rightarrow> (case controlWrites e of [] \<Rightarrow> None | r # q \<Rightarrow> Some (SendQueued r, e\<lparr>controlWrites := q\<rparr>))
      | screenLane \<Rightarrow> (case screenBatches e of [] \<Rightarrow> None | b # q \<Rightarrow> Some (SendBatch b, e\<lparr>screenBatches := q\<rparr>))
      | lowPriorityLane \<Rightarrow>
          (case lowPriorityWrites e of [] \<Rightarrow> None | r # q \<Rightarrow> Some (SendQueued r, e\<lparr>lowPriorityWrites := q\<rparr>)))"

definition realtimeLane :: "lane \<Rightarrow> bool" where
  "realtimeLane l \<longleftrightarrow> l = voiceLane \<or> l = screenLane"

definition takeLane :: "lane \<Rightarrow> Endpoint \<Rightarrow> writer \<Rightarrow> (job \<times> Endpoint \<times> writer) option" where
  "takeLane l e w =
     (if realtimeLane l \<and> length (Datagrams (pendingRealtime w l)) > 0
      then Some (SendBatch (pendingRealtime w l), e, w\<lparr>pendingRealtime := (pendingRealtime w)(l := noBatch)\<rparr>)
      else map_option (\<lambda>(j, e). (j, e, w)) (receiveLane l e))"

text \<open>The scan for a ready lane, from the current one around.\<close>

fun scanLanes :: "nat \<Rightarrow> Endpoint \<Rightarrow> writer \<Rightarrow> (lane \<times> job) option \<times> Endpoint \<times> writer" where
  "scanLanes 0 e w = (None, e, w)"
| "scanLanes (Suc n) e w =
     (case takeLane (wLane w) e w of
        Some (j, e, w') \<Rightarrow> (Some (wLane w, j), e, spend w')
      | None \<Rightarrow> scanLanes n e (advance w))"

definition laneCount :: nat where [simp]: "laneCount = 4"

text \<open>The select in which the writer blocks has chosen \<open>l\<close>.\<close>

definition wakeLane :: "lane \<Rightarrow> Endpoint \<Rightarrow> writer \<Rightarrow> (job \<times> Endpoint \<times> writer) option" where
  "wakeLane l e w =
     (case receiveLane l e of
        None \<Rightarrow> None
      | Some (j, e) \<Rightarrow>
          let w = w\<lparr>wLane := l, wRemaining := weight l - 1\<rparr>
          in Some (j, e, if wRemaining w = 0 then advance w else w))"

text \<open>What the context and the socket answer to one write.\<close>

record writeAnswer =
  deadlineErr :: "ioError option"
  ctxErr :: "ioError option"
  sendErr :: "ioError option"

text \<open>The rest of the batch, the error, and the datagram handed to the socket, if any.\<close>

definition writeRealtimeDatagram ::
  "uint64 \<Rightarrow> RealtimeBatch \<Rightarrow> duration \<Rightarrow> time \<Rightarrow> writeAnswer \<Rightarrow>
    RealtimeBatch \<times> ioError option \<times> RealtimeDatagram option" where
  "writeRealtimeDatagram generation batch writeBudget now answer =
     (if length (Datagrams batch) = 0 then (noBatch, None, None)
      else if (SendGeneration batch \<noteq> 0 \<and> SendGeneration batch \<noteq> generation) \<or> (Deadline batch \<noteq> 0 \<and> now > Deadline batch)
        then (noBatch, None, None)
      else
        let batch = (if writeUntil batch = 0
              then let batch = batch\<lparr>writeUntil := now + writeBudget\<rparr>
                   in if Deadline batch \<noteq> 0 \<and> Deadline batch < writeUntil batch
                     then batch\<lparr>writeUntil := Deadline batch\<rparr> else batch
              else batch)
        in if now > writeUntil batch then (noBatch, None, None)
           else
             let packet = hd (Datagrams batch); batch = batch\<lparr>Datagrams := tl (Datagrams batch)\<rparr>
             in case deadlineErr answer of
                  Some err \<Rightarrow> (batch, Some err, None)
                | None \<Rightarrow>
                    (case ctxErr answer of
                       Some err \<Rightarrow> (batch, Some err, None)
                     | None \<Rightarrow>
                         (batch, if sendErr answer = Some ErrClosed then Some ErrClosed else None, Some packet)))"

type_synonym reports = "(nat \<times> ioError option) list"

definition reportQueuedWrite :: "queuedWrite \<Rightarrow> ioError option \<Rightarrow> reports \<Rightarrow> reports" where
  "reportQueuedWrite request err rs =
     (case qwResult request of
        None \<Rightarrow> rs
      | Some channel \<Rightarrow> if channel \<in> fst ` set rs then rs else rs @ [(channel, err)])"

definition writeQueued :: "queuedWrite \<Rightarrow> time \<Rightarrow> writeAnswer \<Rightarrow> reports \<Rightarrow> ioError option \<times> RealtimeDatagram option \<times> reports" where
  "writeQueued request now answer rs =
     (if \<not> qwDeadline request > now then (None, None, reportQueuedWrite request (Some DeadlineExceeded) rs)
      else case deadlineErr answer of
          Some err \<Rightarrow> (Some err, None, reportQueuedWrite request (Some err) rs)
        | None \<Rightarrow>
            (sendErr answer, Some \<lparr>rtData = qwData request, rtDestination = qwDestination request\<rparr>,
             reportQueuedWrite request (sendErr answer) rs))"

definition drainQueuedWrites :: "queuedWrite list \<Rightarrow> ioError \<Rightarrow> reports \<Rightarrow> reports" where
  "drainQueuedWrites q err rs = foldl (\<lambda>rs request. reportQueuedWrite request (Some err) rs) rs q"

section \<open>Steps\<close>

text \<open>
  The endpoint with its writer, and what has left it: the datagrams handed to the socket, each with the send generation
  it belongs to (0 for the queued lanes), the lanes in the order they were chosen, and the results reported.
\<close>

record node =
  ep :: Endpoint
  wr :: writer
  sent :: "(uint64 \<times> RealtimeDatagram) list"
  chosen :: "lane list"
  reported :: reports

datatype endpointEvent =
    ControlEvent bytes AddrPort time
  | LowPriorityEvent bytes AddrPort time
  | WriteControlEvent "ioError option" "time option" bytes AddrPort time nat
  | BatchEvent RealtimeBatch time
  | GenerationEvent uint64
  | DatagramEvent bytes AddrPort time
  | TakeEvent packetClass
  | ProbeEvent "stunTransaction result" AddrPort
  | ProbeRequestEvent stunTransaction AddrPort "ioError option" "time option" time nat
  | ProbeEndEvent stunTransaction time time
  | ProbeTimeoutEvent stunTransaction
  | CloseEvent
  | ScanEvent "ioError option"
  | WakeEvent lane
  | CancelEvent ioError
  | WriteEvent time writeAnswer

definition takePacket :: "Endpoint \<Rightarrow> packetClass \<Rightarrow> Endpoint" where
  "takePacket e class =
     (case class of
        packetDrop \<Rightarrow> e
      | packetControl \<Rightarrow> e\<lparr>controlPackets := tl (controlPackets e)\<rparr>
      | packetReliable \<Rightarrow> e\<lparr>reliablePackets := tl (reliablePackets e)\<rparr>
      | packetVoice \<Rightarrow> e\<lparr>voicePackets := tl (voicePackets e)\<rparr>
      | packetScreen \<Rightarrow> e\<lparr>screenPackets := tl (screenPackets e)\<rparr>)"

text \<open>The deferred end of \<open>writeLoop\<close>: no more writes are accepted, and those queued are answered.\<close>

definition stopWriter :: "node \<Rightarrow> ioError \<Rightarrow> ioError option \<Rightarrow> node" where
  "stopWriter n err ctx =
     (let drainErr = (case ctx of Some e \<Rightarrow> e | None \<Rightarrow> ErrClosed);
          rs = drainQueuedWrites (controlWrites (ep n)) drainErr (reported n);
          rs = drainQueuedWrites (lowPriorityWrites (ep n)) drainErr rs
      in n\<lparr>ep := (stopAcceptingWrites (ep n))\<lparr>controlWrites := [], lowPriorityWrites := []\<rparr>,
           wr := (wr n)\<lparr>wState := Stopped err\<rparr>, reported := rs\<rparr>)"

definition chooseLane :: "node \<Rightarrow> lane \<Rightarrow> job \<Rightarrow> Endpoint \<Rightarrow> writer \<Rightarrow> node" where
  "chooseLane n l j e w = n\<lparr>ep := e, wr := w\<lparr>wState := Writing l j\<rparr>, chosen := chosen n @ [l]\<rparr>"

definition scanStep :: "node \<Rightarrow> ioError option \<Rightarrow> node" where
  "scanStep n ctx =
     (case ctx of
        Some err \<Rightarrow> stopWriter n err ctx
      | None \<Rightarrow>
          (case scanLanes laneCount (ep n) (wr n) of
             (Some (l, j), e, w) \<Rightarrow> chooseLane n l j e w
           | (None, e, w) \<Rightarrow> n\<lparr>ep := e, wr := w\<lparr>wState := Waiting\<rparr>\<rparr>))"

text \<open>The budgets of \<open>writeLoop\<close>.\<close>

definition writeBudget :: "lane \<Rightarrow> duration" where
  "writeBudget l = (if l = voiceLane then maxVoiceWriteTime else min maxScreenWriteTime maxNonAudioWriteTime)"

definition logSent :: "node \<Rightarrow> uint64 \<Rightarrow> RealtimeDatagram option \<Rightarrow> node" where
  "logSent n generation packet = n\<lparr>sent := sent n @ (case packet of None \<Rightarrow> [] | Some p \<Rightarrow> [(generation, p)])\<rparr>"

definition afterWrite :: "node \<Rightarrow> ioError option \<Rightarrow> ioError option \<Rightarrow> node" where
  "afterWrite n err ctx =
     (case err of
        Some e \<Rightarrow>
          if e = ErrClosed \<or> e = Canceled then stopWriter n e ctx else n\<lparr>wr := (wr n)\<lparr>wState := Scanning\<rparr>\<rparr>
      | None \<Rightarrow> n\<lparr>wr := (wr n)\<lparr>wState := Scanning\<rparr>\<rparr>)"

definition writeStep :: "node \<Rightarrow> lane \<Rightarrow> job \<Rightarrow> time \<Rightarrow> writeAnswer \<Rightarrow> node" where
  "writeStep n l j now answer =
     (case j of
        SendBatch batch \<Rightarrow>
          (case writeRealtimeDatagram (currentSendGeneration (ep n)) batch (writeBudget l) now answer of
             (rest, err, packet) \<Rightarrow>
               let n = logSent n (SendGeneration batch) packet;
                   n = (if length (Datagrams rest) > 0
                        then n\<lparr>wr := (wr n)\<lparr>pendingRealtime := (pendingRealtime (wr n))(l := rest)\<rparr>\<rparr> else n)
               in afterWrite n err (ctxErr answer))
      | SendQueued request \<Rightarrow>
          (case writeQueued request now answer (reported n) of
             (err, packet, rs) \<Rightarrow> afterWrite ((logSent n 0 packet)\<lparr>reported := rs\<rparr>) err (ctxErr answer)))"

fun endpointStep :: "node \<Rightarrow> endpointEvent \<Rightarrow> node" where
  "endpointStep n (ControlEvent data destination now) = n\<lparr>ep := snd (EnqueueControl (ep n) data destination now)\<rparr>"
| "endpointStep n (LowPriorityEvent data destination now) =
     n\<lparr>ep := snd (EnqueueLowPriority (ep n) data destination now)\<rparr>"
| "endpointStep n (WriteControlEvent ctx ctxDeadline data destination now channel) =
     (case WriteControl (ep n) ctx ctxDeadline data destination now channel of
        Inr (Queued e) \<Rightarrow> n\<lparr>ep := e\<rparr>
      | _ \<Rightarrow> n)"
| "endpointStep n (BatchEvent batch now) = n\<lparr>ep := snd (SendRealtimeBatch (ep n) batch now)\<rparr>"
| "endpointStep n (GenerationEvent generation) = n\<lparr>ep := SetRealtimeSendGeneration (ep n) generation\<rparr>"
| "endpointStep n (DatagramEvent data origin now) = n\<lparr>ep := readDatagram (ep n) data origin now\<rparr>"
| "endpointStep n (TakeEvent class) = n\<lparr>ep := takePacket (ep n) class\<rparr>"
| "endpointStep n (ProbeEvent drawn server) = n\<lparr>ep := snd (probeStart (ep n) drawn server)\<rparr>"
| "endpointStep n (ProbeRequestEvent transaction server ctx ctxDeadline now channel) =
     (if map_option stunServer (map_of (pending (ep n)) transaction) = Some server
      then case queueWrite (ep n) ctx ctxDeadline (bindingRequest transaction) server now channel of
             Queued e \<Rightarrow> n\<lparr>ep := e\<rparr>
           | Blocked \<Rightarrow> n
           | Refused err \<Rightarrow> n\<lparr>ep := removePending (ep n) transaction\<rparr>
      else n)"
| "endpointStep n (ProbeEndEvent transaction started now) = n\<lparr>ep := snd (probeFinish (ep n) transaction started now)\<rparr>"
| "endpointStep n (ProbeTimeoutEvent transaction) = n\<lparr>ep := removePending (ep n) transaction\<rparr>"
| "endpointStep n CloseEvent = n\<lparr>ep := stopAcceptingWrites (ep n)\<rparr>"
| "endpointStep n (ScanEvent ctx) = (if wState (wr n) = Scanning then scanStep n ctx else n)"
| "endpointStep n (WakeEvent l) =
     (if wState (wr n) = Waiting
      then case wakeLane l (ep n) (wr n) of Some (j, e, w) \<Rightarrow> chooseLane n l j e w | None \<Rightarrow> n
      else n)"
| "endpointStep n (CancelEvent err) =
     (if wState (wr n) = Waiting then stopWriter n err (Some err) else n)"
| "endpointStep n (WriteEvent now answer) =
     (case wState (wr n) of Writing l j \<Rightarrow> writeStep n l j now answer | _ \<Rightarrow> n)"

definition startNode :: node where
  "startNode = \<lparr>ep = startEndpoint NewEndpoint, wr = newWriter, sent = [], chosen = [], reported = []\<rparr>"

end
