(* ===== verification/EndpointSafety.thy ===== *)
theory EndpointSafety
  imports Endpoint
begin

text \<open>
  What the endpoint promises, over every sequence of its steps: bounded queues, no datagram invented or sent twice, no
  realtime datagram of an older send generation, and a bounded wait for every lane that has something to send.
\<close>

section \<open>The lanes\<close>

definition turn_ok :: "writer \<Rightarrow> bool" where
  "turn_ok w \<longleftrightarrow> 1 \<le> wRemaining w \<and> wRemaining w \<le> weight (wLane w)"

lemma weight_pos: "1 \<le> weight l"
  by (cases l) auto

lemma turn_ok_New: "turn_ok newWriter"
  by (simp add: turn_ok_def newWriter_def)

lemma turn_ok_advance [simp]: "turn_ok (advance w)"
  using weight_pos [of "laneAfter (wLane w)"] by (simp add: turn_ok_def advance_def)

lemma turn_ok_spend: "turn_ok w \<Longrightarrow> turn_ok (spend w)"
  by (auto simp: spend_def Let_def turn_ok_def [of w] simp flip: One_nat_def) (auto simp: turn_ok_def)

lemma turn_ok_cong [simp]:
  "turn_ok (w\<lparr>wState := s\<rparr>) = turn_ok w" "turn_ok (w\<lparr>pendingRealtime := p\<rparr>) = turn_ok w"
  by (simp_all add: turn_ok_def)

definition between :: "lane \<Rightarrow> lane \<Rightarrow> nat" where
  "between m l = sum_list (map weight (takeWhile (\<lambda>x. x \<noteq> l)
     [m, laneAfter m, laneAfter (laneAfter m), laneAfter (laneAfter (laneAfter m))]))"

lemma between_self [simp]: "between l l = 0"
  by (simp add: between_def)

lemma between_next: "m \<noteq> l \<Longrightarrow> between m l = weight m + between (laneAfter m) l"
  by (cases m; cases l) (simp_all add: between_def)

lemma between_le: "between m l \<le> 13 - weight l"
  by (cases m; cases l) (simp_all add: between_def)

text \<open>How many writes of other lanes can still come before one of lane \<open>l\<close>.\<close>

definition credit :: "lane \<Rightarrow> writer \<Rightarrow> nat" where
  "credit l w = (if wLane w = l then 0 else wRemaining w + between (laneAfter (wLane w)) l)"

lemma credit_cong [simp]:
  "credit l (w\<lparr>wState := s\<rparr>) = credit l w" "credit l (w\<lparr>pendingRealtime := p\<rparr>) = credit l w"
  by (simp_all add: credit_def)

lemma credit_le: "turn_ok w \<Longrightarrow> credit l w \<le> 13 - weight l"
  using between_le [of "wLane w" l] between_next [of "wLane w" l] by (auto simp: credit_def turn_ok_def)

lemma credit_advance: "wLane w \<noteq> l \<Longrightarrow> credit l (advance w) = between (laneAfter (wLane w)) l"
  by (auto simp: credit_def advance_def between_next)

lemma credit_spend: "turn_ok w \<Longrightarrow> wLane w \<noteq> l \<Longrightarrow> credit l (spend w) + 1 = credit l w"
  by (auto simp: spend_def Let_def credit_def turn_ok_def advance_def between_next)

lemma credit_wake:
  "l' \<noteq> l \<Longrightarrow> credit l (let w = w\<lparr>wLane := l', wRemaining := weight l' - 1\<rparr> in if wRemaining w = 0 then advance w else w) + 1
     \<le> 13 - weight l"
  by (cases l'; cases l) (simp_all add: credit_def advance_def between_def)

lemma turn_ok_wake: "turn_ok (let w = w\<lparr>wLane := l', wRemaining := weight l' - 1\<rparr> in if wRemaining w = 0 then advance w else w)"
  by (auto simp: Let_def) (auto simp: turn_ok_def)

text \<open>A lane is ready when its interrupted batch or its channel has something.\<close>

definition ready :: "Endpoint \<Rightarrow> writer \<Rightarrow> lane \<Rightarrow> bool" where
  "ready e w l \<longleftrightarrow> takeLane l e w \<noteq> None"

lemma takeLane_frame: "takeLane l e w = Some (j, e', w') \<Longrightarrow> wLane w' = wLane w \<and> wRemaining w' = wRemaining w \<and> wState w' = wState w"
  by (auto simp: takeLane_def split: if_splits)

lemma takeLane_cong: "pendingRealtime w' = pendingRealtime w \<Longrightarrow> takeLane l e w' = None \<longleftrightarrow> takeLane l e w = None"
  by (simp add: takeLane_def)

lemma ready_cong: "pendingRealtime w' = pendingRealtime w \<Longrightarrow> ready e w' l = ready e w l"
  unfolding ready_def by (subst takeLane_cong) auto

fun laneSteps :: "nat \<Rightarrow> lane \<Rightarrow> lane" where
  "laneSteps 0 m = m"
| "laneSteps (Suc k) m = laneSteps k (laneAfter m)"

lemma lane_within: "\<exists>k < 4. laneSteps k m = l"
proof -
  have "laneSteps 0 m = l \<or> laneSteps 1 m = l \<or> laneSteps 2 m = l \<or> laneSteps 3 m = l"
    by (cases m; cases l) (simp_all add: eval_nat_numeral)
  moreover have "(0::nat) < 4" "(1::nat) < 4" "(2::nat) < 4" "(3::nat) < 4" by simp_all
  ultimately show ?thesis by blast
qed

lemma scan_progress:
  assumes "turn_ok w" "ready e w l" "laneSteps k (wLane w) = l" "k < m"
  shows "\<exists>l' j e' w'. scanLanes m e w = (Some (l', j), e', w') \<and> turn_ok w' \<and>
    (l' = l \<or> credit l w' + 1 \<le> credit l w) "
  using assms
proof (induction m arbitrary: k w)
  case 0
  then show ?case by simp
next
  case (Suc m)
  show ?case
  proof (cases "takeLane (wLane w) e w")
    case (Some a)
    obtain j e' w' where a: "a = (j, e', w')" by (metis surj_pair)
    have same: "wLane w' = wLane w" "wRemaining w' = wRemaining w" using takeLane_frame Some a by blast+
    have t: "turn_ok w'" and c: "credit l w' = credit l w" using Suc.prems(1) same by (simp_all add: turn_ok_def credit_def)
    show ?thesis
      using Some a t c turn_ok_spend [OF t] credit_spend [OF t, of l] same by (cases "wLane w = l") auto
  next
    case None
    then have ne: "wLane w \<noteq> l" using Suc.prems(2) by (auto simp: ready_def)
    then obtain k' where k': "k = Suc k'" using Suc.prems(3) by (cases k) auto
    have r: "ready e (advance w) l" using Suc.prems(2) ready_cong [of "advance w" w] by (simp add: advance_def)
    have "laneSteps k' (wLane (advance w)) = l" using Suc.prems(3) k' by (simp add: advance_def)
    with Suc.IH [of "advance w" k'] r k' Suc.prems(4) None ne credit_advance [OF ne]
    show ?thesis using Suc.prems(1) by (fastforce simp: credit_def)
  qed
qed

section \<open>What a step does to the choice of lanes\<close>

definition budget :: "lane \<Rightarrow> writer \<Rightarrow> nat" where
  "budget l w = (if wState w = Waiting then 13 - weight l else credit l w)"

definition chooses :: "node \<Rightarrow> endpointEvent \<Rightarrow> lane list" where
  "chooses n event = drop (length (chosen n)) (chosen (endpointStep n event))"

lemma budget_le: "turn_ok w \<Longrightarrow> budget l w \<le> 13 - weight l"
  by (simp add: budget_def credit_le)

lemma stopWriter_frame [simp]:
  "chosen (stopWriter n err ctx) = chosen n" "turn_ok (wr (stopWriter n err ctx)) = turn_ok (wr n)"
  "wState (wr (stopWriter n err ctx)) = Stopped err" "credit l (wr (stopWriter n err ctx)) = credit l (wr n)"
  by (simp_all add: stopWriter_def Let_def)

lemma stopWriter_sent [simp]: "sent (stopWriter n err ctx) = sent n"
  by (simp add: stopWriter_def Let_def)

lemma afterWrite_frame [simp]:
  "chosen (afterWrite n err ctx) = chosen n" "turn_ok (wr (afterWrite n err ctx)) = turn_ok (wr n)"
  "wState (wr (afterWrite n err ctx)) \<noteq> Waiting" "credit l (wr (afterWrite n err ctx)) = credit l (wr n)"
  "sent (afterWrite n err ctx) = sent n"
  by (simp_all add: afterWrite_def split: option.split)

lemma logSent_frame [simp]:
  "chosen (logSent n generation packet) = chosen n" "wr (logSent n generation packet) = wr n" "ep (logSent n generation packet) = ep n"
  "reported (logSent n generation packet) = reported n"
  by (simp_all add: logSent_def)

lemma writeStep_frame:
  "chosen (writeStep n l' j now answer) = chosen n" "turn_ok (wr (writeStep n l' j now answer)) = turn_ok (wr n)"
  "wState (wr (writeStep n l' j now answer)) \<noteq> Waiting" "credit l (wr (writeStep n l' j now answer)) = credit l (wr n)"
  by (simp_all add: writeStep_def Let_def split: job.split prod.split)

lemma scan_budget:
  assumes "turn_ok (wr n)" "ready (ep n) (wr n) l" "wState (wr n) = Scanning"
  shows "turn_ok (wr (scanStep n ctx)) \<and> (\<exists>new. chosen (scanStep n ctx) = chosen n @ new \<and>
    (l \<in> set new \<or> length new + budget l (wr (scanStep n ctx)) \<le> budget l (wr n)))"
proof (cases ctx)
  case None
  obtain k where "k < 4" "laneSteps k (wLane (wr n)) = l" using lane_within by blast
  with scan_progress [OF assms(1,2), of k 4] obtain l' j e' w' where
    "scanLanes 4 (ep n) (wr n) = (Some (l', j), e', w')" "turn_ok w'" "l' = l \<or> credit l w' + 1 \<le> credit l (wr n)"
    by blast
  then show ?thesis using None assms(3) by (auto simp: scanStep_def chooseLane_def budget_def)
next
  case (Some err)
  then show ?thesis using assms by (simp add: scanStep_def budget_def)
qed

lemma wake_budget:
  assumes "wState (wr n) = Waiting" "wakeLane l' (ep n) (wr n) = Some (j, e, w)"
  shows "turn_ok w \<and> (l' = l \<or> 1 + credit l w \<le> budget l (wr n))"
proof -
  have w: "w = (let w = (wr n)\<lparr>wLane := l', wRemaining := weight l' - 1\<rparr> in if wRemaining w = 0 then advance w else w)"
    using assms(2) by (auto simp: wakeLane_def Let_def split: option.splits prod.splits)
  show ?thesis unfolding w using turn_ok_wake [where w = "wr n"] credit_wake [of l' l "wr n"] assms(1)
    by (cases "l' = l") (auto simp: budget_def simp del: One_nat_def)
qed

lemma step_budget:
  assumes "turn_ok (wr n)" "ready (ep n) (wr n) l"
  shows "turn_ok (wr (endpointStep n event)) \<and> (\<exists>new. chosen (endpointStep n event) = chosen n @ new \<and>
    (l \<in> set new \<or> length new + budget l (wr (endpointStep n event)) \<le> budget l (wr n)))"
proof (cases event)
  case (ScanEvent ctx)
  then show ?thesis using scan_budget [OF assms] assms by simp
next
  case (WakeEvent l')
  show ?thesis
  proof (cases "wState (wr n) = Waiting \<and> wakeLane l' (ep n) (wr n) \<noteq> None")
    case True
    then obtain j e w where w: "wakeLane l' (ep n) (wr n) = Some (j, e, w)" by (metis option.exhaust prod_cases3)
    show ?thesis using True WakeEvent w wake_budget [OF _ w, of l] by (auto simp: chooseLane_def budget_def)
  next
    case False
    then have "endpointStep n event = n" using WakeEvent by (auto split: option.split)
    then show ?thesis using assms by simp
  qed
next
  case (WriteEvent now answer)
  show ?thesis
  proof (cases "wState (wr n)")
    case (Writing l' j)
    then show ?thesis using WriteEvent assms by (simp add: writeStep_frame budget_def)
  qed (use WriteEvent assms in simp_all)
next
  case (CancelEvent err)
  then show ?thesis using assms credit_le [OF assms(1)] by (simp add: budget_def)
next
  case (WriteControlEvent ctx ctxDeadline data destination now channel)
  then show ?thesis using assms by (simp split: sum.split admission.split)
next
  case (ProbeRequestEvent transaction server ctx ctxDeadline now channel)
  then show ?thesis using assms by (simp split: admission.split)
qed (use assms in simp_all)


lemma lane_wait:
  assumes "turn_ok (wr n)"
    and "\<And>k. k \<le> length events \<Longrightarrow> ready (ep (foldl endpointStep n (take k events))) (wr (foldl endpointStep n (take k events))) l"
  shows "\<exists>new. chosen (foldl endpointStep n events) = chosen n @ new \<and>
    (l \<in> set new \<or> length new + budget l (wr (foldl endpointStep n events)) \<le> budget l (wr n))"
  using assms
proof (induction events arbitrary: n)
  case Nil
  then show ?case by simp
next
  case (Cons event events)
  have r: "ready (ep n) (wr n) l" using Cons.prems(2) [of 0] by simp
  note S = step_budget [OF Cons.prems(1) r, of event]
  then obtain a where a: "chosen (endpointStep n event) = chosen n @ a"
    "l \<in> set a \<or> length a + budget l (wr (endpointStep n event)) \<le> budget l (wr n)" by blast
  have "ready (ep (foldl endpointStep (endpointStep n event) (take k events))) (wr (foldl endpointStep (endpointStep n event) (take k events))) l"
    if "k \<le> length events" for k
    using Cons.prems(2) [of "Suc k"] that by simp
  from Cons.IH [OF conjunct1 [OF S] this] obtain b where
    "chosen (foldl endpointStep (endpointStep n event) events) = chosen (endpointStep n event) @ b"
    "l \<in> set b \<or> length b + budget l (wr (foldl endpointStep (endpointStep n event) events)) \<le> budget l (wr (endpointStep n event))"
    by blast
  with a show ?case by (intro exI [of _ "a @ b"]) auto
qed

lemma scanLanes_turn: "scanLanes m e w = (r, e', w') \<Longrightarrow> turn_ok w \<Longrightarrow> turn_ok w'"
proof (induction m arbitrary: w)
  case 0
  then show ?case by simp
next
  case (Suc m)
  then show ?case using takeLane_frame [of "wLane w" e w]
    by (auto simp: turn_ok_def [of w] split: option.splits intro!: turn_ok_spend) (auto simp: turn_ok_def)
qed

lemma turn_ok_step: assumes "turn_ok (wr n)" shows "turn_ok (wr (endpointStep n event))"
proof (cases event)
  case (ScanEvent ctx)
  show ?thesis using ScanEvent assms scanLanes_turn [of 4 "ep n" "wr n"]
    by (auto simp: scanStep_def chooseLane_def split: option.split prod.split)
next
  case (WakeEvent l')
  show ?thesis using WakeEvent assms wake_budget [of n l'] by (auto simp: chooseLane_def split: option.split)
qed (use assms in \<open>simp_all add: writeStep_frame split: sum.split admission.split option.split writerState.split\<close>)

section \<open>What is on its way\<close>

type_synonym tagged = "uint64 \<times> RealtimeDatagram"

definition plain :: "bytes \<Rightarrow> AddrPort \<Rightarrow> tagged" where
  "plain data destination = (0, \<lparr>rtData = data, rtDestination = destination\<rparr>)"

definition ofBatch :: "RealtimeBatch \<Rightarrow> tagged multiset" where
  "ofBatch b = image_mset (Pair (SendGeneration b)) (mset (Datagrams b))"

definition ofWrite :: "queuedWrite \<Rightarrow> tagged multiset" where
  "ofWrite r = {#plain (qwData r) (qwDestination r)#}"

primrec ofJob :: "job \<Rightarrow> tagged multiset" where
  "ofJob (SendBatch b) = ofBatch b"
| "ofJob (SendQueued r) = ofWrite r"

definition queued :: "Endpoint \<Rightarrow> tagged multiset" where
  "queued e = sum_list (map ofBatch (voiceBatches e)) + sum_list (map ofBatch (screenBatches e)) +
     sum_list (map ofWrite (controlWrites e)) + sum_list (map ofWrite (lowPriorityWrites e))"

definition interrupted :: "(lane \<Rightarrow> RealtimeBatch) \<Rightarrow> tagged multiset" where
  "interrupted p = ofBatch (p voiceLane) + ofBatch (p controlLane) + ofBatch (p screenLane) + ofBatch (p lowPriorityLane)"

definition inWriting :: "writerState \<Rightarrow> tagged multiset" where
  "inWriting s = (case s of Writing l j \<Rightarrow> ofJob j | _ \<Rightarrow> {#})"

text \<open>Everything sent and everything still held.\<close>

definition everything :: "node \<Rightarrow> tagged multiset" where
  "everything n = mset (sent n) + queued (ep n) + interrupted (pendingRealtime (wr n)) + inWriting (wState (wr n))"

text \<open>What an event hands to the endpoint.\<close>

primrec submitted :: "endpointEvent \<Rightarrow> tagged multiset" where
  "submitted (ControlEvent data destination now) = {#plain data destination#}"
| "submitted (LowPriorityEvent data destination now) = {#plain data destination#}"
| "submitted (WriteControlEvent ctx ctxDeadline data destination now channel) = {#plain data destination#}"
| "submitted (BatchEvent batch now) = ofBatch batch"
| "submitted (ProbeRequestEvent transaction server ctx ctxDeadline now channel) = {#plain (bindingRequest transaction) server#}"
| "submitted (GenerationEvent g) = {#}"
| "submitted (DatagramEvent data origin now) = {#}"
| "submitted (TakeEvent class) = {#}"
| "submitted (ProbeEvent drawn server) = {#}"
| "submitted (ProbeEndEvent transaction started now) = {#}"
| "submitted (ProbeTimeoutEvent transaction) = {#}"
| "submitted CloseEvent = {#}"
| "submitted (ScanEvent ctx) = {#}"
| "submitted (WakeEvent l) = {#}"
| "submitted (CancelEvent err) = {#}"
| "submitted (WriteEvent now answer) = {#}"

text \<open>A datagram the endpoint may send.\<close>

definition sendable :: "tagged \<Rightarrow> bool" where
  "sendable x \<longleftrightarrow> 1 \<le> length (rtData (snd x)) \<and> length (rtData (snd x)) \<le> maxDatagramSize \<and>
     (apIsValid (rtDestination (snd x)) \<and> apPort (rtDestination (snd x)) \<noteq> 0 \<or> (\<exists>t. rtData (snd x) = bindingRequest t))"

text \<open>\<open>grows m m' new\<close>: \<open>m'\<close> holds no more than \<open>m\<close> and \<open>new\<close>, and what it adds is sendable.\<close>

definition grows :: "tagged multiset \<Rightarrow> tagged multiset \<Rightarrow> tagged multiset \<Rightarrow> bool" where
  "grows m m' new \<longleftrightarrow> m' \<subseteq># m \<or> (m' \<subseteq># m + new \<and> (\<forall>x. x \<in># new \<longrightarrow> sendable x))"

lemma grows_same [simp]: "grows m m new"
  by (simp add: grows_def)

lemma grows_less: "m' \<subseteq># m \<Longrightarrow> grows m m' new"
  by (simp add: grows_def)

lemma grows_frame: "grows m m' new \<Longrightarrow> grows (a + m) (a + m') new" "grows m m' new \<Longrightarrow> grows (m + a) (m' + a) new"
  by (auto simp: grows_def ac_simps)

lemma growsD: "grows m m' new \<Longrightarrow> m' \<subseteq># m + new"
  by (auto simp: grows_def intro: subset_mset.trans)

lemma grows_sendable: "grows m m' new \<Longrightarrow> x \<in># m' \<Longrightarrow> x \<in># m \<or> sendable x"
  unfolding grows_def by (meson mset_subset_eqD union_iff)

lemma grows_add: "sendable x \<Longrightarrow> grows m (add_mset x m) {#x#}"
  by (simp add: grows_def)

section \<open>The operations, one by one\<close>

lemma sum_list_enqueueFresh:
  "sum_list (map f (enqueueFresh c q v)) \<subseteq># sum_list (map f q) + (f v :: 'a multiset)"
  by (cases q) (auto simp: enqueueFresh_def Let_def ac_simps intro: subset_mset.add_increasing)

lemma sum_list_filter_subset: "sum_list (map f (filter P q)) \<subseteq># (sum_list (map f q) :: 'a multiset)"
  by (induction q) (auto intro: subset_mset.add_increasing)

lemma batchError_ok: "batchError so_far packets = None \<Longrightarrow> packet \<in> set packets \<Longrightarrow>
    1 \<le> length (rtData packet) \<and> length (rtData packet) \<le> maxDatagramSize \<and>
    apIsValid (rtDestination packet) \<and> apPort (rtDestination packet) \<noteq> 0"
  by (induction so_far packets rule: batchError.induct) (auto simp: Suc_le_eq split: if_splits)

lemma datagramError_ok: "datagramError data destination = None \<Longrightarrow> sendable (plain data destination)"
  by (auto simp: datagramError_def sendable_def plain_def Suc_le_eq split: if_splits)

lemma request_ok: "sendable (plain (bindingRequest t) server)"
  by (auto simp: sendable_def plain_def) (simp_all add: bindingRequest_def newBindingRequest_def)

lemma grows_queued: "queued e' \<subseteq># queued e + new \<Longrightarrow> (\<And>x. x \<in># new \<Longrightarrow> sendable x) \<Longrightarrow> grows (queued e) (queued e') new"
  by (simp add: grows_def)

lemma grows_EnqueueControl: "grows (queued e) (queued (snd (EnqueueControl e data destination now))) {#plain data destination#}"
  using datagramError_ok [of data destination]
  by (auto simp: EnqueueControl_def enqueuePeerDatagram_def queued_def ofWrite_def ac_simps intro!: grows_add split: option.split)

lemma grows_EnqueueLowPriority: "grows (queued e) (queued (snd (EnqueueLowPriority e data destination now))) {#plain data destination#}"
  using datagramError_ok [of data destination]
  by (auto simp: EnqueueLowPriority_def enqueuePeerDatagram_def queued_def ofWrite_def ac_simps intro!: grows_add split: option.split)

lemma grows_queueWrite:
  "queueWrite e ctx ctxDeadline data destination now channel = Queued e' \<Longrightarrow> sendable (plain data destination) \<Longrightarrow>
     grows (queued e) (queued e') {#plain data destination#}"
  by (auto simp: queueWrite_def queued_def ofWrite_def ac_simps intro!: grows_add split: option.splits if_splits)

lemma grows_WriteControl:
  "WriteControl e ctx ctxDeadline data destination now channel = Inr (Queued e') \<Longrightarrow>
     grows (queued e) (queued e') {#plain data destination#}"
  using datagramError_ok [of data destination] grows_queueWrite
  by (auto simp: WriteControl_def split: option.splits if_splits)

lemma SendRealtimeBatch_cases:
  "SendRealtimeBatch e batch now = (r, e') \<Longrightarrow> e' = e \<or>
     (batchError 0 (Datagrams batch) = None \<and> (SendGeneration batch = 0 \<or> SendGeneration batch = currentSendGeneration e) \<and>
      (e' = e\<lparr>voiceBatches := enqueueFresh maxVoiceBatches (voiceBatches e) batch\<rparr> \<or>
       e' = e\<lparr>screenBatches := enqueueFresh maxScreenBatches (screenBatches e) batch\<rparr>))"
  by (simp add: SendRealtimeBatch_def Let_def split: if_splits option.splits)

lemma queued_enqueueFresh:
  "queued (e\<lparr>voiceBatches := enqueueFresh c (voiceBatches e) b\<rparr>) \<subseteq># queued e + ofBatch b"
  "queued (e\<lparr>screenBatches := enqueueFresh c (screenBatches e) b\<rparr>) \<subseteq># queued e + ofBatch b"
  using sum_list_enqueueFresh [of ofBatch c "voiceBatches e" b] sum_list_enqueueFresh [of ofBatch c "screenBatches e" b]
  by (simp_all add: queued_def ac_simps)

lemma grows_SendRealtimeBatch: "grows (queued e) (queued (snd (SendRealtimeBatch e batch now))) (ofBatch batch)"
proof -
  obtain r e' where eq: "SendRealtimeBatch e batch now = (r, e')" by fastforce
  have s: "sendable x" if "batchError 0 (Datagrams batch) = None" "x \<in># ofBatch batch" for x
    using that batchError_ok [OF that(1)] by (auto simp: ofBatch_def sendable_def)
  from SendRealtimeBatch_cases [OF eq] show ?thesis unfolding eq snd_conv
    by (elim disjE conjE) (simp_all only: grows_same grows_queued [OF queued_enqueueFresh(1) s] grows_queued [OF queued_enqueueFresh(2) s])
qed

lemma queued_SetRealtimeSendGeneration: "queued (SetRealtimeSendGeneration e g) \<subseteq># queued e"
  using sum_list_filter_subset [of ofBatch _ "voiceBatches e"] sum_list_filter_subset [of ofBatch _ "screenBatches e"]
  by (auto simp: queued_def SetRealtimeSendGeneration_def retainRealtimeSendGeneration_def intro!: subset_mset.add_mono)

text \<open>The operations that touch no lane.\<close>

lemma queued_same [simp]:
  "queued (readDatagram e data origin now) = queued e" "queued (takePacket e class) = queued e"
  "queued (snd (probeStart e drawn server)) = queued e" "queued (snd (probeFinish e t started now)) = queued e"
  "queued (removePending e t) = queued e" "queued (stopAcceptingWrites e) = queued e"
  by (auto simp: queued_def readDatagram_def answerProbe_def Let_def takePacket_def probeStart_def addPending_def probeFinish_def
    removePending_def stopAcceptingWrites_def split: option.split packetClass.split sum.split prod.split)

lemma receiveLane_queued: "receiveLane l e = Some (j, e') \<Longrightarrow> queued e = queued e' + ofJob j"
  by (cases l) (auto simp: receiveLane_def queued_def ac_simps split: list.splits)

lemma interrupted_take: "interrupted (p(l := noBatch)) + ofBatch (p l) = interrupted p"
  by (cases l) (simp_all add: interrupted_def ofBatch_def noBatch_def ac_simps)

lemma interrupted_put: "interrupted (p(l := b)) \<subseteq># interrupted p + ofBatch b"
  by (cases l) (simp_all add: interrupted_def ac_simps)

lemma takeLane_held: "takeLane l e w = Some (j, e', w') \<Longrightarrow>
    queued e' + interrupted (pendingRealtime w') + ofJob j = queued e + interrupted (pendingRealtime w)"
  using interrupted_take [of "pendingRealtime w" l]
  by (auto simp: takeLane_def ac_simps dest: receiveLane_queued split: if_splits)

lemma spend_frame [simp]: "pendingRealtime (advance w) = pendingRealtime w" "pendingRealtime (spend w) = pendingRealtime w"
  by (simp_all add: advance_def spend_def Let_def)

lemma scanLanes_held: "scanLanes m e w = (r, e', w') \<Longrightarrow>
    queued e' + interrupted (pendingRealtime w') + (case r of None \<Rightarrow> {#} | Some (l, j) \<Rightarrow> ofJob j) = queued e + interrupted (pendingRealtime w)"
  by (induction m arbitrary: w) (auto dest: takeLane_held split: option.splits)

lemma ofBatch_cons: "Datagrams b \<noteq> [] \<Longrightarrow> ofBatch b = add_mset (SendGeneration b, hd (Datagrams b)) (ofBatch (b\<lparr>Datagrams := tl (Datagrams b)\<rparr>))"
  by (cases "Datagrams b") (simp_all add: ofBatch_def)

lemma ofBatch_cong [simp]: "ofBatch (b\<lparr>writeUntil := t\<rparr>) = ofBatch b" "ofBatch noBatch = {#}"
  by (simp_all add: ofBatch_def noBatch_def)

lemma write_held: "writeRealtimeDatagram g b span now answer = (rest, err, packet) \<Longrightarrow>
    ofBatch rest + (case packet of None \<Rightarrow> {#} | Some p \<Rightarrow> {#(SendGeneration b, p)#}) \<subseteq># ofBatch b"
  using ofBatch_cons [of b]
  by (auto simp: writeRealtimeDatagram_def Let_def ofBatch_def noBatch_def split: if_splits option.splits)

section \<open>Every step\<close>

lemma stopWriter_everything: "everything (stopWriter n err ctx) \<subseteq># everything n"
  by (auto simp: everything_def stopWriter_def Let_def queued_def inWriting_def stopAcceptingWrites_def
    intro!: subset_mset.add_mono subset_mset.le_add_same_cancel1 [THEN iffD2] split: writerState.split)

text \<open>When a step leaves the writer alone.\<close>

lemma everything_ep: "grows (queued (ep n)) (queued e') new \<Longrightarrow> grows (everything n) (everything (n\<lparr>ep := e'\<rparr>)) new"
  by (simp add: everything_def grows_frame)

lemma scanStep_everything: "wState (wr n) = Scanning \<Longrightarrow> everything (scanStep n ctx) \<subseteq># everything n"
  using scanLanes_held [of laneCount "ep n" "wr n"]
  by (cases ctx) (auto simp: scanStep_def stopWriter_everything, auto simp: everything_def chooseLane_def inWriting_def ac_simps
    split: option.split prod.split)

lemma wake_everything:
  assumes "wState (wr n) = Waiting" "wakeLane l (ep n) (wr n) = Some (j, e, w)"
  shows "everything (chooseLane n l j e w) \<subseteq># everything n"
proof -
  have "queued (ep n) = queued e + ofJob j" "pendingRealtime w = pendingRealtime (wr n)"
    using assms(2) by (auto simp: wakeLane_def Let_def dest: receiveLane_queued split: option.splits prod.splits if_splits)
  then show ?thesis using assms(1) by (simp add: everything_def chooseLane_def inWriting_def ac_simps)
qed

lemma afterWrite_everything:
  "everything (afterWrite n err ctx) \<subseteq># mset (sent n) + queued (ep n) + interrupted (pendingRealtime (wr n))"
proof -
  have a: "everything (n\<lparr>wr := (wr n)\<lparr>wState := Scanning\<rparr>\<rparr>) = mset (sent n) + queued (ep n) + interrupted (pendingRealtime (wr n))"
    by (simp add: everything_def inWriting_def)
  have b: "stopWriter n e ctx = stopWriter (n\<lparr>wr := (wr n)\<lparr>wState := Scanning\<rparr>\<rparr>) e ctx" for e
    by (simp add: stopWriter_def Let_def)
  show ?thesis using stopWriter_everything [of "n\<lparr>wr := (wr n)\<lparr>wState := Scanning\<rparr>\<rparr>"] unfolding b a [symmetric]
    by (simp add: afterWrite_def b split: option.split)
qed

lemma writeStep_everything:
  assumes "wState (wr n) = Writing l j"
  shows "everything (writeStep n l j now answer) \<subseteq># everything n"
proof (cases j)
  case (SendBatch b)
  obtain rest err packet where w: "writeRealtimeDatagram (currentSendGeneration (ep n)) b (writeBudget l) now answer = (rest, err, packet)"
    using prod_cases3 by blast
  define n' where "n' = (let n = logSent n (SendGeneration b) packet in
     if length (Datagrams rest) > 0 then n\<lparr>wr := (wr n)\<lparr>pendingRealtime := (pendingRealtime (wr n))(l := rest)\<rparr>\<rparr> else n)"
  have step: "writeStep n l j now answer = afterWrite n' err (ctxErr answer)"
    using SendBatch w by (simp add: writeStep_def n'_def Let_def)
  have "mset (sent n') = mset (sent n) + (case packet of None \<Rightarrow> {#} | Some p \<Rightarrow> {#(SendGeneration b, p)#})"
    "queued (ep n') = queued (ep n)" "interrupted (pendingRealtime (wr n')) \<subseteq># interrupted (pendingRealtime (wr n)) + ofBatch rest"
    by (simp_all add: n'_def logSent_def Let_def interrupted_put [simplified] split: option.split)
  with write_held [OF w] have "mset (sent n') + queued (ep n') + interrupted (pendingRealtime (wr n')) \<subseteq>#
      mset (sent n) + queued (ep n) + interrupted (pendingRealtime (wr n)) + ofBatch b"
    by (smt (verit, ccfv_threshold) ab_semigroup_add_class.add_ac(1) add.commute subset_mset.add_left_mono subset_mset.trans)
  then show ?thesis
    using subset_mset.trans [OF afterWrite_everything [of n' err "ctxErr answer"]] assms SendBatch unfolding step
    by (simp add: everything_def [of n] inWriting_def)
next
  case (SendQueued request)
  obtain err packet rs where w: "writeQueued request now answer (reported n) = (err, packet, rs)"
    using prod_cases3 by blast
  define n' where "n' = (logSent n 0 packet)\<lparr>reported := rs\<rparr>"
  have step: "writeStep n l j now answer = afterWrite n' err (ctxErr answer)"
    using SendQueued w by (simp add: writeStep_def n'_def)
  have "mset (sent n') \<subseteq># mset (sent n) + ofWrite request"
    using w by (auto simp: n'_def logSent_def writeQueued_def ofWrite_def plain_def split: if_splits option.splits)
  moreover have "queued (ep n') = queued (ep n)" "pendingRealtime (wr n') = pendingRealtime (wr n)"
    by (simp_all add: n'_def)
  ultimately have "mset (sent n') + queued (ep n') + interrupted (pendingRealtime (wr n')) \<subseteq>#
      mset (sent n) + queued (ep n) + interrupted (pendingRealtime (wr n)) + ofWrite request"
    by (simp add: ac_simps subset_mset.add_left_mono)
  then show ?thesis
    using subset_mset.trans [OF afterWrite_everything [of n' err "ctxErr answer"]] assms SendQueued unfolding step
    by (simp add: everything_def [of n] inWriting_def)
qed

lemma everything_grows: "grows (everything n) (everything (endpointStep n event)) (submitted event)"
proof (cases event)
  case (WriteControlEvent ctx ctxDeadline data destination now channel)
  then show ?thesis by (auto intro!: everything_ep grows_WriteControl split: sum.split admission.split)
next
  case (ProbeRequestEvent t server ctx ctxDeadline now channel)
  then show ?thesis using grows_queueWrite [OF _ request_ok]
    by (auto intro!: everything_ep split: admission.split)
next
  case (ScanEvent ctx)
  then show ?thesis by (auto intro!: grows_less scanStep_everything)
next
  case (WakeEvent l)
  then show ?thesis by (auto intro!: grows_less wake_everything split: option.split)
next
  case (WriteEvent now answer)
  then show ?thesis by (auto intro!: grows_less writeStep_everything split: writerState.split)
qed (simp_all add: everything_ep grows_EnqueueControl grows_EnqueueLowPriority grows_SendRealtimeBatch grows_less
   queued_SetRealtimeSendGeneration stopWriter_everything)

section \<open>Bounds\<close>

definition fresh :: "Endpoint \<Rightarrow> RealtimeBatch \<Rightarrow> bool" where
  "fresh e b \<longleftrightarrow> SendGeneration b = 0 \<or> SendGeneration b = currentSendGeneration e"

definition probe_ok :: "stunTransaction \<times> pendingSTUN \<Rightarrow> bool" where
  "probe_ok x \<longleftrightarrow> (\<forall>message. stunMessage (snd x) = Some message \<longrightarrow> stunTransactionFromMessage message = Some (fst x))"

definition bounded :: "Endpoint \<Rightarrow> bool" where
  "bounded e \<longleftrightarrow>
     length (controlPackets e) \<le> maxPeerDatagrams \<and> length (reliablePackets e) \<le> maxPeerDatagrams \<and>
     length (voicePackets e) \<le> maxPeerDatagrams \<and> length (screenPackets e) \<le> maxPeerDatagrams \<and>
     length (voiceBatches e) \<le> maxVoiceBatches \<and> length (screenBatches e) \<le> maxScreenBatches \<and>
     length (controlWrites e) \<le> controlWriteCapacity \<and> length (lowPriorityWrites e) \<le> lowPriorityCapacity \<and>
     length (pending e) \<le> maxPendingSTUN \<and> distinct (map fst (pending e)) \<and> list_all probe_ok (pending e) \<and>
     list_all (fresh e) (voiceBatches e) \<and> list_all (fresh e) (screenBatches e)"

lemma length_enqueueFresh [simp]: "0 < c \<Longrightarrow> length q \<le> c \<Longrightarrow> length (enqueueFresh c q v) \<le> c"
  by (auto simp: enqueueFresh_def Let_def)

lemma list_all_enqueueFresh: "list_all P q \<Longrightarrow> P v \<Longrightarrow> list_all P (enqueueFresh c q v)"
  by (cases q) (auto simp: enqueueFresh_def Let_def)

lemma list_all_tl: "list_all P q \<Longrightarrow> list_all P (tl q)"
  by (cases q) auto

lemma list_all_update: "list_all P m \<Longrightarrow> P (k, v) \<Longrightarrow> list_all P (AList.update k v m)"
  by (induction m) auto

lemma list_all_delete: "list_all P m \<Longrightarrow> list_all P (AList.delete k m)"
  by (auto simp: list_all_iff AList.delete_eq)

lemma length_update_le: "length (AList.update k v m) \<le> Suc (length m)"
  by (induction m) auto

lemma length_update_present: "map_of m k = Some u \<Longrightarrow> length (AList.update k v m) = length m"
  by (induction m) auto

lemma fresh_cong [simp]:
  "fresh (e\<lparr>voiceBatches := q\<rparr>) = fresh e" "fresh (e\<lparr>screenBatches := q\<rparr>) = fresh e" "fresh (e\<lparr>controlWrites := r\<rparr>) = fresh e"
  "fresh (e\<lparr>lowPriorityWrites := r\<rparr>) = fresh e" "fresh (e\<lparr>pending := p\<rparr>) = fresh e" "fresh (e\<lparr>controlPackets := d\<rparr>) = fresh e"
  "fresh (e\<lparr>reliablePackets := d\<rparr>) = fresh e" "fresh (e\<lparr>voicePackets := d\<rparr>) = fresh e" "fresh (e\<lparr>screenPackets := d\<rparr>) = fresh e"
  "fresh (e\<lparr>closed := c\<rparr>) = fresh e" "fresh (e\<lparr>conn := c\<rparr>) = fresh e"
  by (auto simp: fresh_def fun_eq_iff)

lemma bounded_EnqueueControl: "bounded e \<Longrightarrow> bounded (snd (EnqueueControl e data destination now))"
  by (auto simp: EnqueueControl_def enqueuePeerDatagram_def bounded_def split: option.split)

lemma bounded_EnqueueLowPriority: "bounded e \<Longrightarrow> bounded (snd (EnqueueLowPriority e data destination now))"
  by (auto simp: EnqueueLowPriority_def enqueuePeerDatagram_def bounded_def split: option.split)

lemma bounded_queueWrite: "queueWrite e ctx ctxDeadline data destination now channel = Queued e' \<Longrightarrow> bounded e \<Longrightarrow> bounded e'"
  by (auto simp: queueWrite_def bounded_def split: option.splits if_splits)

lemma bounded_WriteControl: "WriteControl e ctx ctxDeadline data destination now channel = Inr (Queued e') \<Longrightarrow> bounded e \<Longrightarrow> bounded e'"
  by (auto simp: WriteControl_def split: option.splits if_splits dest: bounded_queueWrite)

lemma bounded_SendRealtimeBatch: "bounded e \<Longrightarrow> bounded (snd (SendRealtimeBatch e batch now))"
  using SendRealtimeBatch_cases [of e batch now "fst (SendRealtimeBatch e batch now)" "snd (SendRealtimeBatch e batch now)"]
  by (auto simp: bounded_def list_all_enqueueFresh fresh_def [of e batch])

lemma bounded_SetRealtimeSendGeneration: "bounded e \<Longrightarrow> bounded (SetRealtimeSendGeneration e g)"
  by (auto simp: bounded_def SetRealtimeSendGeneration_def retainRealtimeSendGeneration_def list_all_iff fresh_def
    intro: order_trans [OF length_filter_le])

lemma bounded_answerProbe: "answerProbe e data remote = Some e' \<Longrightarrow> bounded e \<Longrightarrow> bounded e'"
  by (auto simp: answerProbe_def bounded_def probe_ok_def length_update_present intro!: list_all_update split: option.splits if_splits)

lemma bounded_readDatagram: "bounded e \<Longrightarrow> bounded (readDatagram e data origin now)"
proof -
  assume b: "bounded e"
  show ?thesis
  proof (cases "answerProbe e data (AddrPortFrom (Unmap (apAddr origin)) (apPort origin))")
    case None
    then show ?thesis using b by (auto simp: readDatagram_def Let_def bounded_def split: packetClass.split)
  next
    case (Some e')
    then show ?thesis using b bounded_answerProbe by (simp add: readDatagram_def Let_def)
  qed
qed

lemma bounded_takePacket: "bounded e \<Longrightarrow> bounded (takePacket e class)"
  by (auto simp: takePacket_def bounded_def split: packetClass.split)

lemma bounded_removePending: "bounded e \<Longrightarrow> bounded (removePending e t)"
  by (auto simp: removePending_def bounded_def list_all_delete intro: order_trans [OF length_delete_le])

lemma bounded_addPending: "addPending e t p = (r, e') \<Longrightarrow> stunMessage p = None \<Longrightarrow> bounded e \<Longrightarrow> bounded e'"
  using length_update_le [of t p "pending e"]
  by (auto simp: addPending_def bounded_def intro!: list_all_update split: if_splits) (auto simp: probe_ok_def)

lemma bounded_probeStart: "bounded e \<Longrightarrow> bounded (snd (probeStart e drawn server))"
  by (auto simp: probeStart_def split: sum.split prod.split dest: bounded_addPending)

lemma bounded_probeFinish: "bounded e \<Longrightarrow> bounded (snd (probeFinish e t started now))"
  by (auto simp: probeFinish_def bounded_removePending split: option.split)

lemma bounded_receiveLane: "receiveLane l e = Some (j, e') \<Longrightarrow> bounded e \<Longrightarrow> bounded e'"
  by (cases l) (auto simp: receiveLane_def bounded_def split: list.splits)

lemma bounded_takeLane: "takeLane l e w = Some (j, e', w') \<Longrightarrow> bounded e \<Longrightarrow> bounded e'"
  by (auto simp: takeLane_def split: if_splits dest: bounded_receiveLane)

lemma bounded_scanLanes: "scanLanes m e w = (r, e', w') \<Longrightarrow> bounded e \<Longrightarrow> bounded e'"
  by (induction m arbitrary: w) (auto split: option.splits dest: bounded_takeLane)

lemma bounded_stop: "bounded e \<Longrightarrow> bounded (stopAcceptingWrites e)"
  by (simp add: stopAcceptingWrites_def bounded_def)

lemma bounded_stopWriter: "bounded (ep n) \<Longrightarrow> bounded (ep (stopWriter n err ctx))"
  by (simp add: stopWriter_def Let_def stopAcceptingWrites_def bounded_def)

lemma bounded_afterWrite: "bounded (ep n) \<Longrightarrow> bounded (ep (afterWrite n err ctx))"
  by (simp add: afterWrite_def bounded_stopWriter split: option.split)

lemma bounded_step: assumes b: "bounded (ep n)" shows "bounded (ep (endpointStep n event))"
proof (cases event)
  case (WriteControlEvent ctx ctxDeadline data destination now channel)
  then show ?thesis using b by (auto split: sum.split admission.split dest: bounded_WriteControl)
next
  case (ProbeRequestEvent t server ctx ctxDeadline now channel)
  then show ?thesis using b by (auto simp: bounded_removePending split: admission.split dest: bounded_queueWrite)
next
  case (ScanEvent ctx)
  then show ?thesis using b bounded_scanLanes [of laneCount "ep n" "wr n"]
    by (auto simp: scanStep_def chooseLane_def bounded_stopWriter split: option.split prod.split)
next
  case (WakeEvent l)
  then show ?thesis using b by (auto simp: wakeLane_def Let_def chooseLane_def split: option.split prod.split dest: bounded_receiveLane)
next
  case (WriteEvent now answer)
  then show ?thesis using b
    by (auto simp: writeStep_def Let_def bounded_afterWrite split: writerState.split job.split prod.split)
qed (use b in \<open>simp_all add: bounded_EnqueueControl bounded_EnqueueLowPriority bounded_SendRealtimeBatch bounded_SetRealtimeSendGeneration
   bounded_readDatagram bounded_takePacket bounded_probeStart bounded_probeFinish bounded_removePending bounded_stop bounded_stopWriter\<close>)

section \<open>Properties\<close>

lemma startNode_ok: "turn_ok (wr startNode)" "bounded (ep startNode)" "everything startNode = {#}"
  by (simp_all add: turn_ok_def startNode_def startEndpoint_def NewEndpoint_def bounded_def everything_def queued_def interrupted_def
    newWriter_def inWriting_def)

definition node_ok :: "node \<Rightarrow> bool" where
  "node_ok n \<longleftrightarrow> turn_ok (wr n) \<and> bounded (ep n) \<and> (\<forall>x. x \<in># everything n \<longrightarrow> sendable x)"

interpretation endpoint: machine endpointStep node_ok "\<lambda>n. n = startNode"
proof unfold_locales
  show "node_ok n" if "n = startNode" for n using that by (simp add: node_ok_def startNode_ok)
  show "node_ok (endpointStep n event)" if "node_ok n" for n event
    using that turn_ok_step [of n event] bounded_step [of n event] grows_sendable [OF everything_grows [of n event]]
    unfolding node_ok_def by blast
qed

lemma everything_run: "everything (foldl endpointStep n events) \<subseteq># everything n + sum_list (map submitted events)"
proof (induction events arbitrary: n)
  case Nil
  then show ?case by simp
next
  case (Cons event events)
  have "everything (foldl endpointStep n (event # events)) \<subseteq># everything (endpointStep n event) + sum_list (map submitted events)"
    using Cons.IH by simp
  also have "\<dots> \<subseteq># everything n + submitted event + sum_list (map submitted events)"
    using growsD [OF everything_grows [of n event]] by simp
  finally show ?case by (simp add: ac_simps)
qed

text \<open>C19: Over every run of the endpoint each datagram handed in leaves it at most once and nothing else does; what leaves it
  has 1 to 2048 bytes and a usable destination (a STUN request goes to its server); every queue stays within its capacity
  and holds no realtime batch of an older send generation; and a stored probe answer carries its transaction.\<close>

theorem endpoint_conserves_datagrams:
  fixes events :: "endpointEvent list"
  defines "n \<equiv> foldl endpointStep startNode events"
  shows "mset (sent n) \<subseteq># sum_list (map submitted events) \<and> list_all sendable (sent n) \<and> bounded (ep n)"
proof -
  have "node_ok n" unfolding n_def by (rule endpoint.inv_reachable) simp
  moreover have "mset (sent n) \<subseteq># everything n" by (simp add: everything_def)
  moreover have "everything n \<subseteq># sum_list (map submitted events)"
    using everything_run [of startNode events] by (simp add: n_def startNode_ok)
  ultimately show ?thesis
    by (auto simp: node_ok_def list_all_iff dest: mset_subset_eqD intro: subset_mset.trans)
qed

lemma sent_step: "\<exists>new. sent (endpointStep n event) = sent n @ new \<and> (\<forall>x \<in> set new. fst x = 0 \<or> fst x = currentSendGeneration (ep n))"
proof (cases event)
  case (WriteEvent now answer)
  then show ?thesis
    by (auto simp: writeStep_def logSent_def writeRealtimeDatagram_def Let_def split: writerState.split job.split prod.split option.split)
next
  case (WriteControlEvent ctx ctxDeadline data destination now channel)
  then show ?thesis by (auto split: sum.split admission.split)
next
  case (ProbeRequestEvent t server ctx ctxDeadline now channel)
  then show ?thesis by (auto split: admission.split)
next
  case (ScanEvent ctx)
  then show ?thesis by (auto simp: scanStep_def chooseLane_def split: option.split prod.split)
next
  case (WakeEvent l)
  then show ?thesis by (auto simp: chooseLane_def split: option.split)
qed auto

definition changesGeneration :: "endpointEvent \<Rightarrow> bool" where
  "changesGeneration event = (case event of GenerationEvent g \<Rightarrow> True | _ \<Rightarrow> False)"

lemma generation_receiveLane: "receiveLane l e = Some (j, e') \<Longrightarrow> currentSendGeneration e' = currentSendGeneration e"
  by (cases l) (auto simp: receiveLane_def split: list.splits)

lemma generation_scan: "scanLanes m e w = (r, e', w') \<Longrightarrow> currentSendGeneration e' = currentSendGeneration e"
  by (induction m arbitrary: w) (auto simp: takeLane_def split: option.splits if_splits dest: generation_receiveLane)

lemma generation_stop [simp]: "currentSendGeneration (ep (stopWriter n err ctx)) = currentSendGeneration (ep n)"
  by (simp add: stopWriter_def stopAcceptingWrites_def Let_def)

lemma generation_afterWrite [simp]: "currentSendGeneration (ep (afterWrite n err ctx)) = currentSendGeneration (ep n)"
  by (simp add: afterWrite_def split: option.split)

lemma generation_queueWrite:
  "queueWrite e ctx ctxDeadline data destination now channel = Queued e' \<Longrightarrow> currentSendGeneration e' = currentSendGeneration e"
  by (auto simp: queueWrite_def split: option.splits if_splits)

lemma generation_other:
  "currentSendGeneration (snd (EnqueueControl e data destination now)) = currentSendGeneration e"
  "currentSendGeneration (snd (EnqueueLowPriority e data destination now)) = currentSendGeneration e"
  "currentSendGeneration (snd (SendRealtimeBatch e batch now)) = currentSendGeneration e"
  "currentSendGeneration (takePacket e class) = currentSendGeneration e" "currentSendGeneration (removePending e t) = currentSendGeneration e"
  "currentSendGeneration (stopAcceptingWrites e) = currentSendGeneration e"
  "currentSendGeneration (snd (probeStart e drawn server)) = currentSendGeneration e"
  "currentSendGeneration (snd (probeFinish e t started now)) = currentSendGeneration e"
  by (auto simp: EnqueueControl_def EnqueueLowPriority_def SendRealtimeBatch_def Let_def takePacket_def removePending_def
    stopAcceptingWrites_def probeStart_def addPending_def probeFinish_def split: sum.split option.split packetClass.split prod.split)

lemma generation_read [simp]: "currentSendGeneration (readDatagram e data origin now) = currentSendGeneration e"
  by (auto simp: readDatagram_def answerProbe_def Let_def split: option.split packetClass.split)

lemma generation_step: "\<not> changesGeneration event \<Longrightarrow> currentSendGeneration (ep (endpointStep n event)) = currentSendGeneration (ep n)"
proof (cases event)
  case (WriteControlEvent ctx ctxDeadline data destination now channel)
  then show ?thesis
    by (auto simp: WriteControl_def split: sum.split admission.split option.splits if_splits dest: generation_queueWrite)
next
  case (ProbeRequestEvent t server ctx ctxDeadline now channel)
  then show ?thesis by (auto simp: generation_other split: admission.split dest: generation_queueWrite)
next
  case (ScanEvent ctx)
  then show ?thesis by (auto simp: scanStep_def chooseLane_def split: option.split prod.split dest: generation_scan)
next
  case (WakeEvent l)
  then show ?thesis
    by (auto simp: wakeLane_def Let_def chooseLane_def split: option.split prod.split dest: generation_receiveLane)
next
  case (WriteEvent now answer)
  then show ?thesis by (auto simp: writeStep_def Let_def split: writerState.split job.split prod.split)
qed (simp_all add: generation_other changesGeneration_def)

text \<open>C20: Once a send generation is set, no realtime datagram of another generation reaches the socket, whether its batch was
  waiting, interrupted or already taken by the writer.\<close>

theorem endpoint_no_stale_generation:
  assumes "list_all (\<lambda>event. \<not> changesGeneration event) events"
  shows "\<exists>new. sent (foldl endpointStep (endpointStep n (GenerationEvent g)) events) = sent n @ new \<and>
    list_all (\<lambda>x. fst x = 0 \<or> fst x = g) new"
proof -
  have "\<exists>new. sent (foldl endpointStep n' events) = sent n' @ new \<and> list_all (\<lambda>x. fst x = 0 \<or> fst x = currentSendGeneration (ep n')) new" for n'
    using assms
  proof (induction events arbitrary: n')
    case Nil
    then show ?case by simp
  next
    case (Cons event events)
    obtain a where a: "sent (endpointStep n' event) = sent n' @ a" "\<forall>x \<in> set a. fst x = 0 \<or> fst x = currentSendGeneration (ep n')"
      using sent_step by blast
    obtain b where b: "sent (foldl endpointStep (endpointStep n' event) events) = sent (endpointStep n' event) @ b"
      "list_all (\<lambda>x. fst x = 0 \<or> fst x = currentSendGeneration (ep (endpointStep n' event))) b"
      using Cons by fastforce
    show ?case using a b generation_step [of event n'] Cons.prems by (intro exI [of _ "a @ b"]) (auto simp: list_all_iff)
  qed
  from this [of "endpointStep n (GenerationEvent g)"] show ?thesis by (simp add: SetRealtimeSendGeneration_def)
qed

definition exampleVoice :: bytes where
  "exampleVoice = Magic @ [PacketVoice] @ replicate 60 1"

definition examplePeer :: AddrPort where
  "examplePeer = AddrPortFrom (Addr4 0x01020304) 4000"

definition exampleBatch :: RealtimeBatch where
  "exampleBatch = \<lparr>Datagrams = [\<lparr>rtData = exampleVoice, rtDestination = examplePeer\<rparr>], Deadline = 0, SendGeneration = 7, writeUntil = 0\<rparr>"

definition exampleRun :: "endpointEvent list" where
  "exampleRun = [BatchEvent exampleBatch 1, ScanEvent None, WriteEvent 2 \<lparr>deadlineErr = None, ctxErr = None, sendErr = None\<rparr>]"

definition exampleStart :: Endpoint where
  "exampleStart = (startEndpoint NewEndpoint)\<lparr>currentSendGeneration := 7\<rparr>"

lemma scan_voice: "voiceBatches e = b # q \<Longrightarrow> scanLanes laneCount e newWriter =
    (Some (voiceLane, SendBatch b), e\<lparr>voiceBatches := q\<rparr>, newWriter\<lparr>wRemaining := 7\<rparr>)"
  by (simp add: eval_nat_numeral takeLane_def receiveLane_def realtimeLane_def newWriter_def noBatch_def spend_def Let_def)

lemma exampleRun_sent:
  "sent (foldl endpointStep (endpointStep startNode (GenerationEvent 7)) exampleRun) = [(7, \<lparr>rtData = exampleVoice, rtDestination = examplePeer\<rparr>)]"
proof -
  have begun: "endpointStep startNode (GenerationEvent 7) = startNode\<lparr>ep := exampleStart\<rparr>"
    by (simp add: startNode_def exampleStart_def startEndpoint_def NewEndpoint_def SetRealtimeSendGeneration_def retainRealtimeSendGeneration_def)
  have voice: "classifyRoomPacket exampleVoice = packetVoice" by code_simp
  have "apIsValid examplePeer" "apPort examplePeer \<noteq> 0" by (simp_all add: examplePeer_def apIsValid_def addrIsValid_def)
  moreover have "length exampleVoice = 65" by (simp add: exampleVoice_def Magic_def)
  ultimately have good: "batchError 0 (Datagrams exampleBatch) = None" by (simp add: exampleBatch_def)
  have batch: "snd (SendRealtimeBatch exampleStart exampleBatch 1) = exampleStart\<lparr>voiceBatches := [exampleBatch]\<rparr>"
    using good voice by (simp add: SendRealtimeBatch_def Let_def exampleStart_def startEndpoint_def NewEndpoint_def enqueueFresh_def)
      (simp add: exampleBatch_def)
  have "writeRealtimeDatagram 7 exampleBatch (20 * Millisecond) 2 \<lparr>deadlineErr = None, ctxErr = None, sendErr = None\<rparr> =
      (exampleBatch\<lparr>Datagrams := [], writeUntil := 2 + 20 * Millisecond\<rparr>, None, Some \<lparr>rtData = exampleVoice, rtDestination = examplePeer\<rparr>)"
    by (simp add: writeRealtimeDatagram_def exampleBatch_def)
  then have written: "sent (endpointStep (startNode\<lparr>ep := exampleStart, wr := newWriter\<lparr>wRemaining := 7, wState := Writing voiceLane (SendBatch exampleBatch)\<rparr>,
      chosen := [voiceLane]\<rparr>) (WriteEvent 2 \<lparr>deadlineErr = None, ctxErr = None, sendErr = None\<rparr>)) =
      [(7, \<lparr>rtData = exampleVoice, rtDestination = examplePeer\<rparr>)]"
    by (simp add: writeStep_def writeBudget_def maxVoiceWriteTime_def exampleStart_def logSent_def)
      (simp add: startNode_def exampleBatch_def)
  have enqueue: "endpointStep (startNode\<lparr>ep := exampleStart\<rparr>) (BatchEvent exampleBatch 1) =
      startNode\<lparr>ep := exampleStart\<lparr>voiceBatches := [exampleBatch]\<rparr>\<rparr>"
    by (simp add: batch)
  have scan: "endpointStep (startNode\<lparr>ep := exampleStart\<lparr>voiceBatches := [exampleBatch]\<rparr>\<rparr>) (ScanEvent None) =
      startNode\<lparr>ep := exampleStart, wr := newWriter\<lparr>wRemaining := 7, wState := Writing voiceLane (SendBatch exampleBatch)\<rparr>, chosen := [voiceLane]\<rparr>"
    using scan_voice [of "exampleStart\<lparr>voiceBatches := [exampleBatch]\<rparr>" exampleBatch "[]"]
    by (simp add: scanStep_def startNode_def chooseLane_def del: laneCount_def)
      (simp add: newWriter_def exampleStart_def startEndpoint_def NewEndpoint_def)
  show ?thesis unfolding begun exampleRun_def foldl.simps enqueue scan by (rule written)
qed

theorem endpoint_no_stale_generation_witness:
  "sent (foldl endpointStep (endpointStep startNode (GenerationEvent 7)) exampleRun) = [(7, \<lparr>rtData = exampleVoice, rtDestination = examplePeer\<rparr>)] \<and>
   (\<exists>new. sent (foldl endpointStep (endpointStep startNode (GenerationEvent 7)) exampleRun) = sent startNode @ new \<and>
    list_all (\<lambda>x. fst x = 0 \<or> fst x = 7) new)"
proof
  show "sent (foldl endpointStep (endpointStep startNode (GenerationEvent 7)) exampleRun) = [(7, \<lparr>rtData = exampleVoice, rtDestination = examplePeer\<rparr>)]"
    by (rule exampleRun_sent)
  show "\<exists>new. sent (foldl endpointStep (endpointStep startNode (GenerationEvent 7)) exampleRun) = sent startNode @ new \<and>
    list_all (\<lambda>x. fst x = 0 \<or> fst x = 7) new"
    by (rule endpoint_no_stale_generation) (simp add: exampleRun_def changesGeneration_def)
qed

text \<open>C21: No lane starves: while a lane has something to send, at most 13 less its weight other writes come before one of its own,
  5 for voice, 11 for control and screen, 12 for low priority.\<close>

theorem endpoint_lane_served:
  assumes "\<And>k. k \<le> length events \<Longrightarrow>
      ready (ep (foldl endpointStep startNode (before @ take k events))) (wr (foldl endpointStep startNode (before @ take k events))) l"
  shows "\<exists>new. chosen (foldl endpointStep startNode (before @ events)) = chosen (foldl endpointStep startNode before) @ new \<and>
    (l \<in> set new \<or> length new \<le> 13 - weight l)"
proof -
  define n where "n = foldl endpointStep startNode before"
  have "node_ok n" unfolding n_def by (rule endpoint.inv_reachable) simp
  then have t: "turn_ok (wr n)" by (simp add: node_ok_def)
  have "ready (ep (foldl endpointStep n (take k events))) (wr (foldl endpointStep n (take k events))) l" if "k \<le> length events" for k
    using assms [OF that] by (simp add: n_def)
  from lane_wait [OF t this] budget_le [OF t, of l] show ?thesis
    unfolding foldl_append n_def [symmetric] by fastforce
qed

definition exampleLow :: endpointEvent where
  "exampleLow = LowPriorityEvent [1] examplePeer 0"

theorem endpoint_lane_served_witness:
  "\<exists>new. chosen (foldl endpointStep startNode ([exampleLow, exampleLow] @ [ScanEvent None])) = chosen (foldl endpointStep startNode [exampleLow, exampleLow]) @ new \<and>
    (lowPriorityLane \<in> set new \<or> length new \<le> 13 - weight lowPriorityLane)"
proof (rule endpoint_lane_served)
  have peer: "datagramError [1] examplePeer = None" by code_simp
  have scan: "scanLanes 4 e w = scanLanes (Suc (Suc (Suc (Suc 0)))) e w" for e w
    by (simp add: eval_nat_numeral del: scanLanes.simps)
  fix k :: nat
  assume "k \<le> length [ScanEvent None]"
  then have "k = 0 \<or> k = 1" by auto
  then show "ready (ep (foldl endpointStep startNode ([exampleLow, exampleLow] @ take k [ScanEvent None])))
      (wr (foldl endpointStep startNode ([exampleLow, exampleLow] @ take k [ScanEvent None]))) lowPriorityLane"
    by (auto simp: exampleLow_def startNode_def startEndpoint_def NewEndpoint_def EnqueueLowPriority_def enqueuePeerDatagram_def
      peer scan ready_def takeLane_def receiveLane_def realtimeLane_def newWriter_def noBatch_def
      scanStep_def advance_def spend_def chooseLane_def Let_def)
qed

end
