(* ===== verification/AddrText.thy ===== *)
theory AddrText
  imports NetAddr
begin

text \<open>
  Reading addresses from text, as \<open>netip.ParseAddr\<close> and \<open>netip.ParseAddrPort\<close> of Go's library do; the program only
  tests whether they fail.  \<open>strconv.ParseUint\<close> and \<open>strconv.ParseInt\<close> to base 10 tell a bad digit from a number out of
  range, since one caller does.
\<close>

section \<open>Numbers\<close>

definition isDigit :: "char \<Rightarrow> bool" where
  "isDigit c \<longleftrightarrow> 48 \<le> (of_char c :: nat) \<and> (of_char c :: nat) \<le> 57"

definition digitValue :: "char \<Rightarrow> nat" where
  "digitValue c = of_char c - 48"

datatype numError = ErrSyntax | ErrRange

fun parseUintLoop :: "nat \<Rightarrow> nat \<Rightarrow> string \<Rightarrow> numError + nat" where
  "parseUintLoop bits n [] = Inr n"
| "parseUintLoop bits n (c # s) =
     (if \<not> isDigit c then Inl ErrSyntax
      else if n * 10 + digitValue c \<ge> 2 ^ bits then Inl ErrRange
      else parseUintLoop bits (n * 10 + digitValue c) s)"

definition ParseUint :: "nat \<Rightarrow> string \<Rightarrow> numError + nat" where
  "ParseUint bits s = (if s = [] then Inl ErrSyntax else parseUintLoop bits 0 s)"

definition ParseInt :: "nat \<Rightarrow> string \<Rightarrow> numError + int" where
  "ParseInt bits s =
     (if s = [] then Inl ErrSyntax
      else
        let neg = (hd s = CHR ''-''); u = (if hd s = CHR ''+'' \<or> hd s = CHR ''-'' then tl s else s)
        in case ParseUint bits u of
             Inl ErrSyntax \<Rightarrow> Inl ErrSyntax
           | Inl ErrRange \<Rightarrow> Inl ErrRange
           | Inr n \<Rightarrow>
               if \<not> neg \<and> n \<ge> 2 ^ (bits - 1) then Inl ErrRange
               else if neg \<and> n > 2 ^ (bits - 1) then Inl ErrRange
               else Inr (if neg then - int n else int n))"

section \<open>Addresses\<close>

fun parseIPv4Loop :: "char option \<Rightarrow> nat \<Rightarrow> nat \<Rightarrow> nat list \<Rightarrow> string \<Rightarrow> nat list option" where
  "parseIPv4Loop previous val digLen fields [] = (if length fields < 3 then None else Some (fields @ [val]))"
| "parseIPv4Loop previous val digLen fields (c # s) =
     (if isDigit c then
        if digLen = 1 \<and> val = 0 then None
        else
          let val = val * 10 + digitValue c
          in if val > 255 then None else parseIPv4Loop (Some c) val (digLen + 1) fields s
      else if c = CHR ''.'' then
        if previous = None \<or> s = [] \<or> previous = Some CHR ''.'' then None
        else if length fields = 3 then None
        else parseIPv4Loop (Some c) 0 0 (fields @ [val]) s
      else None)"

definition parseIPv4Fields :: "string \<Rightarrow> nat list option" where
  "parseIPv4Fields s = parseIPv4Loop None 0 0 [] s"

definition parseIPv4 :: "string \<Rightarrow> Addr option" where
  "parseIPv4 s = map_option (\<lambda>fields. Addr4 (get_be (map (\<lambda>n. word_of_nat n :: byte) fields))) (parseIPv4Fields s)"

definition isHexDigit :: "char \<Rightarrow> bool" where
  "isHexDigit c \<longleftrightarrow> isDigit c \<or> (97 \<le> (of_char c :: nat) \<and> (of_char c :: nat) \<le> 102) \<or>
     (65 \<le> (of_char c :: nat) \<and> (of_char c :: nat) \<le> 70)"

definition hexValue :: "char \<Rightarrow> nat" where
  "hexValue c = (if isDigit c then digitValue c
     else if 97 \<le> (of_char c :: nat) then of_char c - 87 else of_char c - 55)"

lemma dropWhile_less: "r = dropWhile P xs \<Longrightarrow> takeWhile P xs \<noteq> [] \<Longrightarrow> length r < length xs"
  by (metis length_append length_greater_0_conv less_add_same_cancel2 takeWhile_dropWhile_id)

text \<open>The groups read so far, where the ellipsis stands among them, and what is left of the text.\<close>

function parseIPv6Loop :: "nat list \<Rightarrow> nat option \<Rightarrow> string \<Rightarrow> (nat list \<times> nat option \<times> string) option" where
  "parseIPv6Loop groups ellipsis s =
     (if length groups \<ge> 8 then Some (groups, ellipsis, s)
      else
        let hex = takeWhile isHexDigit s; rest = dropWhile isHexDigit s
        in if hex = [] \<or> length hex > 4 then None
           else if rest \<noteq> [] \<and> hd rest = CHR ''.'' then
             if ellipsis = None \<and> length groups \<noteq> 6 then None
             else if length groups > 6 then None
             else (case parseIPv4Fields s of
                 Some [a, b, c, d] \<Rightarrow> Some (groups @ [256 * a + b, 256 * c + d], ellipsis, [])
               | _ \<Rightarrow> None)
           else
             let groups = groups @ [foldl (\<lambda>acc c. 16 * acc + hexValue c) 0 hex]
             in case rest of
                  [] \<Rightarrow> Some (groups, ellipsis, [])
                | [c] \<Rightarrow> None
                | c # c' # s' \<Rightarrow>
                    if c \<noteq> CHR '':'' then None
                    else if c' = CHR '':'' then
                      if ellipsis \<noteq> None then None
                      else if s' = [] then Some (groups, Some (length groups), [])
                      else parseIPv6Loop groups (Some (length groups)) s'
                    else parseIPv6Loop groups ellipsis (c' # s'))"
  by pat_completeness auto

termination
proof (relation "measure (\<lambda>(groups, ellipsis, s). length s)", goal_cases)
  case (2 groups ellipsis s x xa)
  then show ?case using dropWhile_less [of xa isHexDigit s] by (auto dest: arg_cong [of _ _ length])
next
  case (3 groups ellipsis s x xa)
  then show ?case using dropWhile_less [of xa isHexDigit s] by (auto dest: arg_cong [of _ _ length])
qed simp

declare parseIPv6Loop.simps [simp del]

definition groupsWord :: "nat list \<Rightarrow> id16" where
  "groupsWord groups = foldl (\<lambda>w g. push_bit 16 w OR word_of_nat g) 0 groups"

definition parseIPv6 :: "string \<Rightarrow> Addr option" where
  "parseIPv6 text =
     (let s = takeWhile (\<lambda>c. c \<noteq> CHR ''%'') text; after = dropWhile (\<lambda>c. c \<noteq> CHR ''%'') text; zone = tl after
      in if after \<noteq> [] \<and> zone = [] then None
         else
           let leading = (take 2 s = ''::''); s = (if leading then drop 2 s else s)
           in if leading \<and> s = [] then Some (Addr6 0 zone)
              else case parseIPv6Loop [] (if leading then Some 0 else None) s of
                  None \<Rightarrow> None
                | Some (groups, ellipsis, rest) \<Rightarrow>
                    if rest \<noteq> [] then None
                    else if length groups < 8 then
                      (case ellipsis of
                         None \<Rightarrow> None
                       | Some e \<Rightarrow> Some (Addr6 (groupsWord (take e groups @ replicate (8 - length groups) 0 @ drop e groups)) zone))
                    else if ellipsis \<noteq> None then None
                    else Some (Addr6 (groupsWord groups) zone))"

text \<open>The first of a dot, a colon and a percent sign tells what the text is.\<close>

definition ParseAddr :: "string \<Rightarrow> Addr option" where
  "ParseAddr s =
     (case dropWhile (\<lambda>c. c \<notin> set ''.:%'') s of
        [] \<Rightarrow> None
      | c # _ \<Rightarrow> if c = CHR ''.'' then parseIPv4 s else if c = CHR '':'' then parseIPv6 s else None)"

definition ParseAddrPort :: "string \<Rightarrow> AddrPort option" where
  "ParseAddrPort s =
     (if CHR '':'' \<notin> set s then None
      else
        let port = rev (takeWhile (\<lambda>c. c \<noteq> CHR '':'') (rev s)); ip = take (length s - length port - 1) s
        in if ip = [] \<or> port = [] then None
           else if hd ip = CHR ''['' \<and> (length ip < 2 \<or> last ip \<noteq> CHR '']'') then None
           else
             let v6 = (hd ip = CHR ''[''); ip = (if v6 then butlast (tl ip) else ip)
             in case ParseUint 16 port of
                  Inl err \<Rightarrow> None
                | Inr n \<Rightarrow>
                    (case ParseAddr ip of
                       None \<Rightarrow> None
                     | Some a \<Rightarrow> if v6 \<and> Is4 a \<or> \<not> v6 \<and> Is6 a then None else Some (AddrPortFrom a (word_of_nat n))))"

definition IsGlobalUnicast :: "Addr \<Rightarrow> bool" where
  "IsGlobalUnicast ip \<longleftrightarrow> ip \<noteq> AddrZero \<and> Unmap ip \<noteq> Addr4 0 \<and> Unmap ip \<noteq> Addr4 0xffffffff \<and> Unmap ip \<noteq> Addr6 0 [] \<and>
     \<not> IsLoopback ip \<and> \<not> IsMulticast ip \<and> \<not> IsLinkLocalUnicast ip"

end
