(* ===== verification/Bencode.thy ===== *)
theory Bencode
  imports AddrText
begin

text \<open>
  The bencode decoder of the tracker client, \<open>internal/networking/discovery/tracker/bencode.go\<close>.  The decoder is the part
  of the data from its position on; a failed call gives only its error, as no caller goes on after one.
\<close>

section \<open>The decoder\<close>

definition maxHTTPTrackerResponseSize :: nat where [simp]: "maxHTTPTrackerResponseSize = 64 * 1024"
definition maxBencodeDepth :: nat where [simp]: "maxBencodeDepth = 8"
definition maxBencodeStringLength :: nat where [simp]: "maxBencodeStringLength = maxHTTPTrackerResponseSize"
definition maxBencodeKeyLength :: nat where [simp]: "maxBencodeKeyLength = 128"

text \<open>The bytes with a meaning.\<close>

definition chrD :: byte where [simp]: "chrD = 100"
definition chrE :: byte where [simp]: "chrE = 101"
definition chrI :: byte where [simp]: "chrI = 105"
definition chrL :: byte where [simp]: "chrL = 108"
definition chrColon :: byte where [simp]: "chrColon = 58"
definition chrMinus :: byte where [simp]: "chrMinus = 45"
definition chrPlus :: byte where [simp]: "chrPlus = 43"
definition chr0 :: byte where [simp]: "chr0 = 48"

definition digitByte :: "byte \<Rightarrow> bool" where
  "digitByte b \<longleftrightarrow> 48 \<le> b \<and> b \<le> 57"

definition enterValue :: "nat \<Rightarrow> error option" where
  "enterValue depth =
     (if depth > maxBencodeDepth then Some (Error ''bencoded tracker response is nested too deeply'') else None)"

text \<open>\<open>take\<close>: the next byte, 0 at the end.\<close>

definition takeByte :: "bytes \<Rightarrow> byte \<times> bytes" where
  "takeByte d = (case d of [] \<Rightarrow> (0, []) | b # rest \<Rightarrow> (b, rest))"

definition parseRawString :: "bytes \<Rightarrow> (bytes \<times> bytes) result" where
  "parseRawString d =
     (if d = [] \<or> \<not> digitByte (hd d) then fail ''invalid bencoded byte string''
      else if chrColon \<notin> set d then fail ''truncated bencoded byte string length''
      else
        let encoded = takeWhile (\<lambda>b. b \<noteq> chrColon) d
        in if length encoded > 1 \<and> encoded ! 0 = chr0 then fail ''non-canonical bencoded byte string length''
           else case ParseUint 64 (textOf encoded) of
               Inl ErrRange \<Rightarrow> fail ''bencoded byte string is too long''
             | Inl ErrSyntax \<Rightarrow> fail ''invalid bencoded byte string length''
             | Inr len \<Rightarrow>
                 if len > maxBencodeStringLength then fail ''bencoded byte string is too long''
                 else
                   let d = drop (length encoded + 1) d
                   in if len > length d then fail ''truncated bencoded byte string''
                      else Inr (take len d, drop len d))"

definition parseString :: "nat \<Rightarrow> bytes \<Rightarrow> (bytes \<times> bytes) result" where
  "parseString depth d = (case enterValue depth of Some err \<Rightarrow> Inl err | None \<Rightarrow> parseRawString d)"

definition parseRawInteger :: "bytes \<Rightarrow> (int \<times> bytes) result" where
  "parseRawInteger d =
     (if fst (takeByte d) \<noteq> chrI then fail ''invalid bencoded integer''
      else
        let d = snd (takeByte d)
        in if chrE \<notin> set d then fail ''truncated bencoded integer''
           else
             let encoded = takeWhile (\<lambda>b. b \<noteq> chrE) d;
                 digits = (if length encoded > 0 \<and> encoded ! 0 = chrMinus then tl encoded else encoded)
             in if length digits = 0 then fail ''truncated bencoded integer''
                else if encoded ! 0 = chrPlus then fail ''invalid bencoded integer digit''
                else if digits ! 0 = chr0 \<and> length digits > 1 then fail ''non-canonical bencoded integer''
                else if encoded ! 0 = chrMinus \<and> digits ! 0 = chr0 then fail ''non-canonical negative zero''
                else if length encoded > 20 then fail ''bencoded integer is too long''
                else case ParseInt 64 (textOf encoded) of
                    Inl ErrSyntax \<Rightarrow> fail ''invalid bencoded integer digit''
                  | Inl ErrRange \<Rightarrow> fail ''bencoded integer is out of range''
                  | Inr v \<Rightarrow> Inr (v, drop (length encoded + 1) d))"

definition parseInteger :: "nat \<Rightarrow> bytes \<Rightarrow> (int \<times> bytes) result" where
  "parseInteger depth d = (case enterValue depth of Some err \<Rightarrow> Inl err | None \<Rightarrow> parseRawInteger d)"

text \<open>\<open>bytes.Compare(previousKey, key) < 0\<close>, or there is no previous key.\<close>

definition keyAfter :: "bytes option \<Rightarrow> bytes \<Rightarrow> bool" where
  "keyAfter previousKey key = (case previousKey of None \<Rightarrow> True | Some p \<Rightarrow> ord_class.lexordp p key)"

definition keyValid :: "bytes \<Rightarrow> bool" where
  "keyValid key \<longleftrightarrow> length key \<noteq> 0 \<and> length key \<le> maxBencodeKeyLength"

text \<open>Every parser leaves a shorter rest, so the loops end.\<close>

lemma parseRawString_shorter: "parseRawString d = Inr (v, d') \<Longrightarrow> length d' < length d"
proof -
  assume p: "parseRawString d = Inr (v, d')"
  then have "d \<noteq> []" by (auto simp: parseRawString_def)
  with p show ?thesis by (auto simp: parseRawString_def Let_def split: if_splits sum.splits numError.splits)
qed

lemma parseString_shorter: "parseString depth d = Inr (v, d') \<Longrightarrow> length d' < length d"
  by (auto simp: parseString_def parseRawString_shorter split: option.splits)

lemma parseRawInteger_shorter: "parseRawInteger d = Inr (v, d') \<Longrightarrow> length d' < length d"
  by (cases d) (auto simp: parseRawInteger_def takeByte_def Let_def split: if_splits sum.splits numError.splits)

lemma map_sum_snd_iff: "map_sum (\<lambda>err. err) snd r = Inr d' \<longleftrightarrow> (\<exists>v. r = Inr (v, d'))"
  by (cases r) auto

text \<open>
  \<open>skipValue\<close>: its two loops, over the elements of a list and over the entries of a dictionary, are the other values
  of the first argument.
\<close>

datatype skipping = SkipValue | SkipList | SkipDictionary "bytes option"

function (sequential) skipValue :: "skipping \<Rightarrow> nat \<Rightarrow> bytes \<Rightarrow> bytes result" where
  "skipValue SkipValue depth d =
     (case enterValue depth of
        Some err \<Rightarrow> Inl err
      | None \<Rightarrow>
          (case d of
             [] \<Rightarrow> fail ''truncated bencoded value''
           | b # rest \<Rightarrow>
               if b = chrI then map_sum (\<lambda>err. err) snd (parseRawInteger d)
               else if b = chrL then skipValue SkipList depth rest
               else if b = chrD then skipValue (SkipDictionary None) depth rest
               else if \<not> digitByte b then fail ''invalid bencoded value type''
               else map_sum (\<lambda>err. err) snd (parseRawString d)))"
| "skipValue SkipList depth d =
     (case d of
        [] \<Rightarrow> fail ''truncated bencoded list''
      | b # rest \<Rightarrow>
          if b = chrE then Inr rest
          else case skipValue SkipValue (depth + 1) d of
              Inl err \<Rightarrow> Inl err
            | Inr d \<Rightarrow> skipValue SkipList depth d)"
| "skipValue (SkipDictionary previousKey) depth d =
     (case d of
        [] \<Rightarrow> fail ''truncated bencoded dictionary''
      | b # rest \<Rightarrow>
          if b = chrE then Inr rest
          else case parseString (depth + 1) d of
              Inl err \<Rightarrow> Inl err
            | Inr (key, d) \<Rightarrow>
                if \<not> keyValid key \<or> \<not> keyAfter previousKey key then fail ''invalid bencoded dictionary key ordering''
                else case skipValue SkipValue (depth + 1) d of
                    Inl err \<Rightarrow> Inl err
                  | Inr d \<Rightarrow> skipValue (SkipDictionary (Some key)) depth d)"
  by pat_completeness auto

termination
proof -
  have shorter: "skipValue_dom (m, depth, d) \<Longrightarrow> skipValue m depth d = Inr d' \<Longrightarrow> length d' < length d" for m depth d d'
  proof (induction m depth d arbitrary: d' rule: skipValue.pinduct)
    case (1 depth d)
    show ?case
    proof (cases d)
      case Nil
      then show ?thesis using 1 by (simp add: skipValue.psimps split: option.splits)
    next
      case (Cons b rest)
      show ?thesis
        using 1 Cons parseRawInteger_shorter parseRawString_shorter
        by (simp add: skipValue.psimps map_sum_snd_iff split: option.splits if_splits) (metis length_Cons less_SucI)+
    qed
  next
    case (2 depth d)
    then show ?case by (fastforce simp: skipValue.psimps split: list.splits if_splits sum.splits)
  next
    case (3 previousKey depth d)
    then show ?case by (fastforce simp: skipValue.psimps split: list.splits if_splits sum.splits dest: parseString_shorter)
  qed
  show ?thesis
  proof (relation "measure (\<lambda>(m, depth, d). 2 * length d + (if m = SkipValue then 0 else 1))", goal_cases)
    case (5 depth d b rest d')
    then show ?case using shorter [of SkipValue "depth + 1" d d'] by simp
  next
    case (6 previousKey depth d b rest x key d')
    then show ?case using parseString_shorter [of "depth + 1" d key d'] by simp
  next
    case (7 previousKey depth d b rest x key d' d'')
    then show ?case
      using shorter [of SkipValue "depth + 1" d' d''] parseString_shorter [of "depth + 1" d key d'] by simp
  qed simp_all
qed

declare skipValue.simps [simp del]

end
