(* ===== verification/BencodeGrammar.thy ===== *)
theory BencodeGrammar
  imports Bencode
begin

text \<open>
  What the decoder of \<open>Bencode\<close> accepts: exactly the canonical encodings of values, with their depth, string and integer
  limits.  Numbers in decimal are read and written by inverse functions.
\<close>

section \<open>Decimal numbers\<close>

lemma isDigit_cases: "isDigit c \<Longrightarrow> c \<in> set ''0123456789''"
proof -
  assume d: "isDigit c"
  define n where "n = (of_char c :: nat)"
  have c: "c = char_of n" by (simp add: n_def)
  have "n = 48 \<or> n = 49 \<or> n = 50 \<or> n = 51 \<or> n = 52 \<or> n = 53 \<or> n = 54 \<or> n = 55 \<or> n = 56 \<or> n = 57"
    using d unfolding isDigit_def n_def [symmetric] by arith
  then show ?thesis unfolding c by (elim disjE) (simp_all add: char_of_def bit_Suc_0_iff)
qed

lemma digit_digitValue: "isDigit c \<Longrightarrow> digit (digitValue c) = c"
  by (drule isDigit_cases) (auto simp: digit_def digitValue_def)

lemma digitValue_less: "isDigit c \<Longrightarrow> digitValue c < 10"
  by (auto simp: isDigit_def digitValue_def)

lemma digit_isDigit: "n < 10 \<Longrightarrow> isDigit (digit n) \<and> digitValue (digit n) = n"
proof -
  assume "n < 10"
  then have "n \<in> {0, 1, 2, 3, 4, 5, 6, 7, 8, 9}" by auto
  then show ?thesis by (auto simp: digit_def isDigit_def digitValue_def)
qed

lemma digits_small: "n < 10 \<Longrightarrow> digits 10 n = [digit n]"
  by (subst digits.simps) simp

lemma digits_step: "10 \<le> n \<Longrightarrow> digits 10 n = digits 10 (n div 10) @ [digit (n mod 10)]"
  by (subst digits.simps) simp

lemma digits_not_Nil [simp]: "digits b n \<noteq> []"
  by (subst digits.simps) simp

lemma parseUintLoop_append: "parseUintLoop bits a (s @ t) =
    (case parseUintLoop bits a s of Inl err \<Rightarrow> Inl err | Inr n \<Rightarrow> parseUintLoop bits n t)"
  by (induction bits a s rule: parseUintLoop.induct) auto

lemma parse_digits: "n < 2 ^ bits \<Longrightarrow> parseUintLoop bits 0 (digits 10 n) = Inr n"
proof (induction n rule: less_induct)
  case (less n)
  show ?case
  proof (cases "n < 10")
    case True
    then show ?thesis using less.prems digit_isDigit [of n] by (simp add: digits_small)
  next
    case False
    have "n div 10 < n" "n div 10 \<le> n" using False by simp_all
    then have "parseUintLoop bits 0 (digits 10 (n div 10)) = Inr (n div 10)" using less by simp
    then show ?thesis using False less.prems digit_isDigit [of "n mod 10"] by (simp add: digits_step parseUintLoop_append)
  qed
qed

lemma hd_digits: "0 < n \<Longrightarrow> hd (digits 10 n) \<noteq> CHR ''0''"
proof (induction n rule: less_induct)
  case (less n)
  show ?case
  proof (cases "n < 10")
    case True
    then have "n \<in> {1, 2, 3, 4, 5, 6, 7, 8, 9}" using less.prems by auto
    then show ?thesis using True by (auto simp: digits_small digit_def)
  next
    case False
    then show ?thesis using less.IH [of "n div 10"] by (simp add: digits_step)
  qed
qed

lemma digits_parse:
  "parseUintLoop bits 0 s = Inr n \<Longrightarrow> s \<noteq> [] \<Longrightarrow> hd s \<noteq> CHR ''0'' \<or> length s = 1 \<Longrightarrow> s = digits 10 n"
proof (induction s arbitrary: n rule: rev_induct)
  case Nil
  then show ?case by simp
next
  case (snoc c s)
  from snoc.prems(1) obtain m where m: "parseUintLoop bits 0 s = Inr m" "isDigit c" "n = m * 10 + digitValue c"
    by (auto simp: parseUintLoop_append split: sum.splits if_splits)
  show ?case
  proof (cases "s = []")
    case True
    then show ?thesis using m digit_digitValue digitValue_less by (simp add: digits_small)
  next
    case False
    then have s: "s = digits 10 m" using snoc.IH [OF m(1)] snoc.prems(3) by simp
    have "m \<noteq> 0"
    proof
      assume "m = 0"
      then have "s = [CHR ''0'']" using s by (simp add: digits_small digit_def)
      then show False using snoc.prems(3) by simp
    qed
    then have "10 \<le> n" "n div 10 = m" "n mod 10 = digitValue c" using m digitValue_less [of c] by auto
    then show ?thesis using s m digit_digitValue by (simp add: digits_step)
  qed
qed

lemma parseUintLoop_bound: "parseUintLoop bits a s = Inr n \<Longrightarrow> a < 2 ^ bits \<Longrightarrow> n < 2 ^ bits"
  by (induction bits a s rule: parseUintLoop.induct) (auto split: if_splits)

lemma parseUintLoop_digits: "parseUintLoop bits a s = Inr n \<Longrightarrow> list_all isDigit s"
  by (induction bits a s rule: parseUintLoop.induct) (auto split: if_splits)

lemma digits_all: "list_all isDigit (digits 10 n)"
proof -
  have "parseUintLoop (Suc n) 0 (digits 10 n) = Inr n" by (rule parse_digits) (meson Suc_lessD less_exp)
  then show ?thesis by (rule parseUintLoop_digits)
qed

section \<open>Text and bytes\<close>

lemma unat_of_char: "unat (of_char c :: byte) = of_char c"
proof -
  have "(of_char c :: byte) = of_nat (of_char c)" by (simp add: of_nat_of_char)
  moreover have "(of_char c :: nat) < 256" by (metis mod_less_divisor of_char_mod_256 zero_less_numeral)
  ultimately show ?thesis by (simp add: unat_of_nat take_bit_eq_mod)
qed

lemma textOf_bytes_of [simp]: "textOf (bytes_of s) = s"
  by (induction s) (simp_all add: textOf_def bytes_of_def unat_of_char)

lemma bytes_of_textOf [simp]: "bytes_of (textOf b) = b"
proof (induction b)
  case (Cons x xs)
  have "(of_char (char_of (unat x)) :: byte) = of_nat (of_char (char_of (unat x)))" by (simp only: of_nat_of_char)
  also have "\<dots> = x"
  proof -
    have "unat x < 2 ^ LENGTH(8)" by (rule unsigned_less)
    then show ?thesis by simp
  qed
  finally show ?case using Cons by (simp add: textOf_def bytes_of_def)
qed (simp add: textOf_def bytes_of_def)

section \<open>The grammar\<close>

datatype bvalue =
    BInteger int
  | BString bytes
  | BList "bvalue list"
  | BDictionary "(bytes \<times> bvalue) list"

definition decimal :: "nat \<Rightarrow> bytes" where
  "decimal n = bytes_of (digits 10 n)"

definition encodeInteger :: "int \<Rightarrow> bytes" where
  "encodeInteger v = [chrI] @ (if v < 0 then [chrMinus] else []) @ decimal (nat \<bar>v\<bar>) @ [chrE]"

definition encodeString :: "bytes \<Rightarrow> bytes" where
  "encodeString s = decimal (length s) @ [chrColon] @ s"

fun bencode :: "bvalue \<Rightarrow> bytes" where
  "bencode (BInteger v) = encodeInteger v"
| "bencode (BString s) = encodeString s"
| "bencode (BList vs) = [chrL] @ concat (map bencode vs) @ [chrE]"
| "bencode (BDictionary es) = [chrD] @ concat (map (\<lambda>(key, v). encodeString key @ bencode v) es) @ [chrE]"

definition sortedFrom :: "bytes option \<Rightarrow> bytes list \<Rightarrow> bool" where
  "sortedFrom p keys \<longleftrightarrow> (case keys of [] \<Rightarrow> True | k # _ \<Rightarrow> keyAfter p k) \<and> successively ord_class.lexordp keys"

lemma sortedFrom_simps [simp]: "sortedFrom p []" "sortedFrom p (k # ks) \<longleftrightarrow> keyAfter p k \<and> sortedFrom (Some k) ks"
  by (auto simp: sortedFrom_def keyAfter_def successively_Cons split: list.splits)

fun canonical :: "nat \<Rightarrow> bvalue \<Rightarrow> bool" where
  "canonical depth (BInteger v) \<longleftrightarrow> depth \<le> maxBencodeDepth \<and> - (2 ^ 63) \<le> v \<and> v < 2 ^ 63"
| "canonical depth (BString s) \<longleftrightarrow> depth \<le> maxBencodeDepth \<and> length s \<le> maxBencodeStringLength"
| "canonical depth (BList vs) \<longleftrightarrow> depth \<le> maxBencodeDepth \<and> list_all (canonical (depth + 1)) vs"
| "canonical depth (BDictionary es) \<longleftrightarrow> depth \<le> maxBencodeDepth \<and>
     list_all (\<lambda>(key, v). keyValid key \<and> canonical (depth + 1) v) es \<and> sortedFrom None (map fst es)"

section \<open>Strings and integers\<close>

lemma digitByte_of_char: "isDigit c \<Longrightarrow> digitByte (of_char c)"
  by (drule isDigit_cases) (auto simp: digitByte_def)

lemma decimal_bytes: "list_all digitByte (decimal n)" "decimal n \<noteq> []"
  using digits_all [of n] by (auto simp: decimal_def bytes_of_def list_all_iff digitByte_of_char)

lemma digitByte_less [simp]: "digitByte b \<Longrightarrow> b \<noteq> 58" "digitByte b \<Longrightarrow> b \<noteq> 101" "digitByte b \<Longrightarrow> b \<noteq> 45" "digitByte b \<Longrightarrow> b \<noteq> 43"
  "digitByte b \<Longrightarrow> b \<noteq> 105" "digitByte b \<Longrightarrow> b \<noteq> 108" "digitByte b \<Longrightarrow> b \<noteq> 100"
  by (auto simp: digitByte_def)

lemma decimal_free: "chrColon \<notin> set (decimal n)" "chrE \<notin> set (decimal n)"
proof -
  have "\<not> digitByte chrColon" "\<not> digitByte chrE" by (simp_all add: digitByte_def)
  then show "chrColon \<notin> set (decimal n)" "chrE \<notin> set (decimal n)"
    using decimal_bytes(1) [of n] unfolding list_all_iff by blast+
qed

lemma hd_decimal: "digitByte (hd (decimal n))" "decimal n ! 0 = chr0 \<Longrightarrow> length (decimal n) = 1"
proof -
  show "digitByte (hd (decimal n))" using decimal_bytes [of n] by (cases "decimal n") auto
  assume z: "decimal n ! 0 = chr0"
  have "hd (digits 10 n) = CHR ''0''"
  proof -
    have "of_char (hd (digits 10 n)) = (of_char CHR ''0'' :: byte)"
      using z by (cases "digits 10 n") (simp_all add: decimal_def bytes_of_def)
    then have "unat (of_char (hd (digits 10 n)) :: byte) = unat (of_char CHR ''0'' :: byte)" by (rule arg_cong)
    then show ?thesis unfolding unat_of_char by (simp only: of_char_eq_iff)
  qed
  then have "n = 0" using hd_digits [of n] by auto
  then show "length (decimal n) = 1" by (simp add: decimal_def bytes_of_def digits_small)
qed

lemma takeWhile_sep: "c \<notin> set xs \<Longrightarrow> takeWhile (\<lambda>b. b \<noteq> c) (xs @ c # ys) = xs"
  by (induction xs) auto

lemma split_sep: "c \<in> set xs \<Longrightarrow> xs = takeWhile (\<lambda>b. b \<noteq> c) xs @ c # drop (length (takeWhile (\<lambda>b. b \<noteq> c) xs) + 1) xs"
  by (induction xs) auto

lemma ParseUint_decimal: "n < 2 ^ bits \<Longrightarrow> ParseUint bits (textOf (decimal n)) = Inr n"
  by (simp add: ParseUint_def decimal_def parse_digits)

lemma decimal_ParseUint:
  assumes "ParseUint bits (textOf d) = Inr n" "length d = 1 \<or> hd d \<noteq> chr0"
  shows "d = decimal n"
proof -
  have ne: "d \<noteq> []" and p: "parseUintLoop bits 0 (textOf d) = Inr n"
    using assms(1) by (auto simp: ParseUint_def textOf_def split: if_splits)
  have "hd (textOf d) \<noteq> CHR ''0'' \<or> length (textOf d) = 1"
  proof (cases "length d = 1")
    case False
    then have "hd d \<noteq> chr0" using assms(2) by simp
    moreover have "hd (textOf d) = char_of (unat (hd d))" using ne by (simp add: textOf_def hd_map)
    moreover have "char_of (unat (hd d)) = CHR ''0'' \<Longrightarrow> hd d = chr0"
      using bytes_of_textOf [of "[hd d]"] by (simp add: textOf_def bytes_of_def)
    ultimately show ?thesis by auto
  qed (simp add: textOf_def)
  then have "textOf d = digits 10 n" using digits_parse [OF p] ne by (simp add: textOf_def)
  then show ?thesis unfolding decimal_def using bytes_of_textOf [of d] by simp
qed

lemma parse_encodeString: "length s \<le> maxBencodeStringLength \<Longrightarrow> parseRawString (encodeString s @ rest) = Inr (s, rest)"
proof -
  assume len: "length s \<le> maxBencodeStringLength"
  let ?n = "decimal (length s)"
  have e: "encodeString s @ rest = ?n @ chrColon # (s @ rest)" by (simp add: encodeString_def)
  have t: "takeWhile (\<lambda>b. b \<noteq> chrColon) (?n @ chrColon # (s @ rest)) = ?n" by (rule takeWhile_sep) (rule decimal_free)
  have "ParseUint 64 (textOf ?n) = Inr (length s)" using len by (intro ParseUint_decimal) simp
  then show ?thesis
    using len hd_decimal [of "length s"] decimal_bytes(2) [of "length s"] t unfolding e parseRawString_def
    by (auto simp: Let_def)
qed

lemma parseRawString_encoded: "parseRawString d = Inr (s, rest) \<Longrightarrow> d = encodeString s @ rest \<and> length s \<le> maxBencodeStringLength"
proof -
  assume p: "parseRawString d = Inr (s, rest)"
  define n where "n = takeWhile (\<lambda>b. b \<noteq> chrColon) d"
  from p have "chrColon \<in> set d" and d: "d \<noteq> []" "digitByte (hd d)"
    by (auto simp: parseRawString_def split: if_splits)
  have split: "d = n @ chrColon # drop (length n + 1) d" unfolding n_def by (rule split_sep) fact
  have "n \<noteq> []" using d unfolding n_def by (cases d) auto
  with p obtain len where len: "ParseUint 64 (textOf n) = Inr len" "len \<le> maxBencodeStringLength"
    "length n > 1 \<longrightarrow> n ! 0 \<noteq> chr0" "len \<le> length (drop (length n + 1) d)"
    "s = take len (drop (length n + 1) d)" "rest = drop len (drop (length n + 1) d)"
    unfolding parseRawString_def n_def [symmetric] Let_def by (auto split: if_splits sum.splits numError.splits)
  have "length n = 1 \<or> hd n \<noteq> chr0" using len(3) \<open>n \<noteq> []\<close> by (cases n) auto
  then have "n = decimal len" by (rule decimal_ParseUint [OF len(1)])
  moreover have "length s = len" using len(4,5) by simp
  moreover have "drop (length n + 1) d = s @ rest" unfolding len(5,6) by (simp only: append_take_drop_id)
  ultimately show ?thesis using split len(2) by (simp add: encodeString_def)
qed

lemma length_digits: "n < 10 ^ k \<Longrightarrow> 0 < k \<Longrightarrow> length (digits 10 n) \<le> k"
proof (induction k arbitrary: n)
  case 0
  then show ?case by simp
next
  case (Suc k)
  show ?case
  proof (cases "n < 10")
    case True
    then show ?thesis by (simp add: digits_small)
  next
    case False
    then have "n div 10 < 10 ^ k" "0 < k" using Suc.prems by (auto simp: less_mult_imp_div_less intro: ccontr)
    then show ?thesis using Suc.IH [of "n div 10"] False by (simp add: digits_step)
  qed
qed

lemma textOf_Cons: "textOf (b # bs) = char_of (unat b) # textOf bs"
  by (simp add: textOf_def)

lemma sign_chars: "char_of (unat chrMinus) = CHR ''-''" "char_of (unat chrPlus) = CHR ''+''"
  by (simp_all add: char_of_def bit_Suc_0_iff)

lemma sign_bytes: "char_of (unat b) = CHR ''-'' \<longleftrightarrow> b = chrMinus" "char_of (unat b) = CHR ''+'' \<longleftrightarrow> b = chrPlus"
proof -
  have inj: "a = b" if "char_of (unat a) = char_of (unat b)" for a b :: byte
  proof -
    have "textOf [a] = textOf [b]" using that by (simp only: textOf_def list.map)
    then have "[a] = [b]" by (metis bytes_of_textOf)
    then show ?thesis by simp
  qed
  show "char_of (unat b) = CHR ''-'' \<longleftrightarrow> b = chrMinus" using inj [of b chrMinus] unfolding sign_chars(1) [symmetric] by auto
  show "char_of (unat b) = CHR ''+'' \<longleftrightarrow> b = chrPlus" using inj [of b chrPlus] unfolding sign_chars(2) [symmetric] by auto
qed

text \<open>\<open>ParseInt\<close> on a text without a plus sign.\<close>

lemma ParseInt_signed: "ParseInt 64 (textOf (chrMinus # d)) =
    (case ParseUint 64 (textOf d) of Inl err \<Rightarrow> Inl err | Inr n \<Rightarrow> if n > 2 ^ 63 then Inl ErrRange else Inr (- int n))"
  by (simp add: ParseInt_def textOf_Cons sign_chars(1) [simplified] split: sum.split numError.split)

lemma ParseInt_unsigned: "d \<noteq> [] \<Longrightarrow> hd d \<noteq> chrMinus \<Longrightarrow> hd d \<noteq> chrPlus \<Longrightarrow> ParseInt 64 (textOf d) =
    (case ParseUint 64 (textOf d) of Inl err \<Rightarrow> Inl err | Inr n \<Rightarrow> if n \<ge> 2 ^ 63 then Inl ErrRange else Inr (int n))"
  using sign_bytes [of "hd d"]
  by (cases d) (auto simp: ParseInt_def textOf_Cons Let_def split: sum.split numError.split)

lemma parse_encodeInteger:
  assumes "- (2 ^ 63) \<le> v" "v < 2 ^ 63"
  shows "parseRawInteger (encodeInteger v @ rest) = Inr (v, rest)"
proof -
  define n where "n = nat \<bar>v\<bar>"
  define e where "e = (if v < 0 then [chrMinus] else []) @ decimal n"
  have enc: "encodeInteger v @ rest = chrI # e @ chrE # rest" by (simp add: encodeInteger_def e_def n_def)
  have n: "n \<le> 2 ^ 63" "\<not> v < 0 \<Longrightarrow> n < 2 ^ 63" using assms by (auto simp: n_def)
  have t: "takeWhile (\<lambda>b. b \<noteq> chrE) (e @ chrE # rest) = e"
    by (rule takeWhile_sep) (use decimal_free(2) [of n] in \<open>simp add: e_def\<close>)
  have ne: "decimal n \<noteq> []" and hd: "digitByte (hd (decimal n))" "digitByte (decimal n ! 0)"
    using decimal_bytes(2) hd_decimal(1) [of n] by (simp_all add: hd_conv_nth)
  have len: "length (decimal n) \<le> 19" using length_digits [of n 19] n(1) by (simp add: decimal_def bytes_of_def)
  have u: "ParseUint 64 (textOf (decimal n)) = Inr n" using n by (intro ParseUint_decimal) simp
  have p: "ParseInt 64 (textOf e) = Inr v"
  proof (cases "v < 0")
    case True
    then show ?thesis using u n by (simp only: e_def if_True append_Cons append_Nil ParseInt_signed) (simp add: n_def)
  next
    case False
    then show ?thesis using u n ne hd ParseInt_unsigned [of "decimal n"] by (simp add: e_def) (simp add: n_def)
  qed
  have zero: "decimal n ! 0 = chr0 \<Longrightarrow> length (decimal n) = 1" "v < 0 \<Longrightarrow> decimal n ! 0 \<noteq> chr0"
  proof -
    show z: "decimal n ! 0 = chr0 \<Longrightarrow> length (decimal n) = 1" by (rule hd_decimal)
    show "decimal n ! 0 \<noteq> chr0" if "v < 0"
    proof
      assume "decimal n ! 0 = chr0"
      then have "decimal n = [chr0]" using z ne by (cases "decimal n") auto
      then have "decimal n = decimal 0" by (simp add: decimal_def digits_small digit_def bytes_of_def)
      then have "n = 0" using u ParseUint_decimal [of 0 64] by simp
      then show False using that by (simp add: n_def)
    qed
  qed
  show ?thesis unfolding enc parseRawInteger_def takeByte_def list.case fst_conv snd_conv Let_def t
    using p ne hd len zero by (cases "v < 0") (simp_all add: e_def)
qed

lemma parseRawInteger_encoded:
  assumes p: "parseRawInteger d = Inr (v, rest)"
  shows "d = encodeInteger v @ rest \<and> - (2 ^ 63) \<le> v \<and> v < 2 ^ 63"
proof -
  obtain d' where d: "d = chrI # d'" using p by (cases d) (auto simp: parseRawInteger_def takeByte_def split: if_splits)
  define e where "e = takeWhile (\<lambda>b. b \<noteq> chrE) d'"
  define ds where "ds = (if length e > 0 \<and> e ! 0 = chrMinus then tl e else e)"
  have "chrE \<in> set d'" using p by (auto simp: parseRawInteger_def d takeByte_def split: if_splits)
  then have split: "d' = e @ chrE # drop (length e + 1) d'" unfolding e_def by (rule split_sep)
  have q: "ds \<noteq> []" "e ! 0 \<noteq> chrPlus" "ds ! 0 = chr0 \<longrightarrow> \<not> length ds > 1" "e ! 0 = chrMinus \<longrightarrow> ds ! 0 \<noteq> chr0"
    "ParseInt 64 (textOf e) = Inr v" "rest = drop (length e + 1) d'"
    using p unfolding parseRawInteger_def d takeByte_def list.case fst_conv snd_conv Let_def e_def [symmetric] ds_def [symmetric]
    by (auto split: if_splits sum.splits numError.splits)
  have lead: "length ds = 1 \<or> hd ds \<noteq> chr0" using q(1,3) by (cases ds) auto
  show ?thesis
  proof (cases "length e > 0 \<and> e ! 0 = chrMinus")
    case True
    then have e: "e = chrMinus # ds" by (cases e) (auto simp: ds_def)
    obtain n where n: "ParseUint 64 (textOf ds) = Inr n" "n \<le> 2 ^ 63" "v = - int n"
      using q(5) unfolding e ParseInt_signed by (auto split: sum.splits if_splits)
    have ds: "ds = decimal n" by (rule decimal_ParseUint [OF n(1) lead])
    have "n \<noteq> 0"
    proof
      assume "n = 0"
      then have "ds = [chr0]" unfolding ds by (simp add: decimal_def digits_small digit_def bytes_of_def)
      then show False using q(4) True by simp
    qed
    then show ?thesis using n split q(6) by (simp add: d e ds encodeInteger_def)
  next
    case False
    then have e: "e = ds" "hd e \<noteq> chrMinus" "hd e \<noteq> chrPlus" using q(1,2) by (auto simp: ds_def hd_conv_nth split: if_splits)
    obtain n where n: "ParseUint 64 (textOf ds) = Inr n" "n < 2 ^ 63" "v = int n"
      using q(5) ParseInt_unsigned [of e] q(1) e by (auto split: sum.splits if_splits)
    have ds: "ds = decimal n" by (rule decimal_ParseUint [OF n(1) lead])
    show ?thesis using n split q(6) by (simp add: d e ds encodeInteger_def)
  qed
qed

section \<open>Skipping a value\<close>

lemma encode_start:
  "canonical depth v \<Longrightarrow> \<exists>b bs. bencode v = b # bs \<and> b \<noteq> chrE"
proof (cases v)
  case (BString s)
  have "decimal (length s) \<noteq> []" "digitByte (hd (decimal (length s)))" by (rule decimal_bytes hd_decimal)+
  then show ?thesis unfolding BString by (cases "decimal (length s)") (auto simp: encodeString_def)
qed (auto simp: encodeInteger_def)

lemma encodeString_start: "\<exists>b bs. encodeString s = b # bs \<and> digitByte b"
proof -
  have "decimal (length s) \<noteq> []" "digitByte (hd (decimal (length s)))" by (rule decimal_bytes hd_decimal)+
  then show ?thesis by (cases "decimal (length s)") (auto simp: encodeString_def)
qed

definition encodeEntry :: "bytes \<times> bvalue \<Rightarrow> bytes" where
  "encodeEntry = (\<lambda>(key, v). encodeString key @ bencode v)"

definition entriesOk :: "nat \<Rightarrow> bytes option \<Rightarrow> (bytes \<times> bvalue) list \<Rightarrow> bool" where
  "entriesOk depth p es \<longleftrightarrow> list_all (\<lambda>(key, v). keyValid key \<and> canonical (depth + 1) v) es \<and> sortedFrom p (map fst es)"

lemma canonical_depth: "canonical depth v \<Longrightarrow> depth \<le> maxBencodeDepth"
  by (cases v) auto

lemma keyValid_length: "keyValid key \<Longrightarrow> length key \<le> maxBencodeStringLength"
  by (simp add: keyValid_def)

text \<open>What a call leaves, in terms of the grammar.\<close>

fun skipped :: "skipping \<Rightarrow> nat \<Rightarrow> bytes \<Rightarrow> bytes \<Rightarrow> bool" where
  "skipped SkipValue depth d rest \<longleftrightarrow> (\<exists>v. canonical depth v \<and> d = bencode v @ rest)"
| "skipped SkipList depth d rest \<longleftrightarrow>
     (\<exists>vs. list_all (canonical (depth + 1)) vs \<and> d = concat (map bencode vs) @ [chrE] @ rest)"
| "skipped (SkipDictionary p) depth d rest \<longleftrightarrow>
     (\<exists>es. entriesOk depth p es \<and> d = concat (map encodeEntry es) @ [chrE] @ rest)"

lemma enterValue_iff: "enterValue depth = None \<longleftrightarrow> depth \<le> maxBencodeDepth"
  by (simp add: enterValue_def)

lemma skipValue_sound: "skipValue m depth d = Inr rest \<Longrightarrow> skipped m depth d rest"
proof (induction m depth d arbitrary: rest rule: skipValue.induct)
  case (1 depth d)
  then obtain b d' where d: "d = b # d'" and e: "depth \<le> maxBencodeDepth"
    by (cases d) (auto simp: skipValue.simps enterValue_iff split: option.splits)
  have en: "enterValue depth = None" using e by (simp add: enterValue_iff)
  consider "b = chrI" | "b = chrL" | "b = chrD" | "b \<noteq> chrI" "b \<noteq> chrL" "b \<noteq> chrD" by blast
  then show ?case
  proof cases
    case 1
    with "1.prems" obtain v where "parseRawInteger d = Inr (v, rest)"
      by (auto simp: skipValue.simps d en map_sum_snd_iff)
    then have "canonical depth (BInteger v) \<and> d = bencode (BInteger v) @ rest" using parseRawInteger_encoded e by simp
    then show ?thesis by (simp only: skipped.simps) blast
  next
    case 2
    then have "skipped SkipList depth d' rest" using "1.IH"(1) [OF en d] "1.prems" by (simp add: skipValue.simps d en)
    then obtain vs where "list_all (canonical (depth + 1)) vs" "d' = concat (map bencode vs) @ [chrE] @ rest" by auto
    then have "canonical depth (BList vs) \<and> d = bencode (BList vs) @ rest" using 2 e by (simp add: d)
    then show ?thesis by (simp only: skipped.simps) blast
  next
    case 3
    then have "skipped (SkipDictionary None) depth d' rest" using "1.IH"(2) [OF en d] "1.prems" by (simp add: skipValue.simps d en)
    then obtain es where "entriesOk depth None es" "d' = concat (map encodeEntry es) @ [chrE] @ rest" by auto
    then have "canonical depth (BDictionary es) \<and> d = bencode (BDictionary es) @ rest"
      using 3 e by (simp add: d entriesOk_def encodeEntry_def)
    then show ?thesis by (simp only: skipped.simps) blast
  next
    case 4
    with "1.prems" obtain s where "parseRawString d = Inr (s, rest)"
      by (auto simp: skipValue.simps d en map_sum_snd_iff split: if_splits)
    then have "canonical depth (BString s) \<and> d = bencode (BString s) @ rest" using parseRawString_encoded e by simp
    then show ?thesis by (simp only: skipped.simps) blast
  qed
next
  case (2 depth d)
  then obtain b d' where d: "d = b # d'" by (cases d) (auto simp: skipValue.simps)
  show ?case
  proof (cases "b = chrE")
    case True
    then have "list_all (canonical (depth + 1)) [] \<and> d = concat (map bencode []) @ [chrE] @ rest"
      using "2.prems" by (simp add: skipValue.simps d)
    then show ?thesis by (simp only: skipped.simps) blast
  next
    case False
    with "2.prems" obtain d2 where s: "skipValue SkipValue (depth + 1) d = Inr d2" "skipValue SkipList depth d2 = Inr rest"
      by (auto simp: skipValue.simps(2) [of depth "b # d'"] d split: sum.splits)
    have "skipped SkipValue (depth + 1) d d2" "skipped SkipList depth d2 rest"
      using "2.IH" d False s by (auto simp del: skipped.simps)
    then obtain v vs where "canonical (depth + 1) v" "d = bencode v @ d2" "list_all (canonical (depth + 1)) vs"
      "d2 = concat (map bencode vs) @ [chrE] @ rest" by auto
    then have "list_all (canonical (depth + 1)) (v # vs) \<and> d = concat (map bencode (v # vs)) @ [chrE] @ rest" by simp
    then show ?thesis by (simp only: skipped.simps) blast
  qed
next
  case (3 p depth d)
  then obtain b d' where d: "d = b # d'" by (cases d) (auto simp: skipValue.simps)
  show ?case
  proof (cases "b = chrE")
    case True
    then have "entriesOk depth p [] \<and> d = concat (map encodeEntry []) @ [chrE] @ rest"
      using "3.prems" by (simp add: skipValue.simps d entriesOk_def)
    then show ?thesis by (simp only: skipped.simps) blast
  next
    case False
    with "3.prems" obtain key d1 d2 where s: "parseString (depth + 1) d = Inr (key, d1)" "keyValid key" "keyAfter p key"
      "skipValue SkipValue (depth + 1) d1 = Inr d2" "skipValue (SkipDictionary (Some key)) depth d2 = Inr rest"
      by (auto simp: skipValue.simps(3) [of p depth "b # d'"] d split: sum.splits if_splits)
    have "skipped SkipValue (depth + 1) d1 d2" "skipped (SkipDictionary (Some key)) depth d2 rest"
      using "3.IH" d False s by (auto simp del: skipped.simps)
    then obtain v es where "canonical (depth + 1) v" "d1 = bencode v @ d2" "entriesOk depth (Some key) es"
      "d2 = concat (map encodeEntry es) @ [chrE] @ rest" by auto
    moreover have "d = encodeString key @ d1"
      using s(1) parseRawString_encoded by (auto simp: parseString_def split: option.splits)
    ultimately have "entriesOk depth p ((key, v) # es) \<and> d = concat (map encodeEntry ((key, v) # es)) @ [chrE] @ rest"
      using s(2,3) by (simp add: entriesOk_def encodeEntry_def)
    then show ?thesis by (simp only: skipped.simps) blast
  qed
qed

lemma skip_list:
  assumes "\<And>v depth rest. v \<in> set vs \<Longrightarrow> canonical depth v \<Longrightarrow> skipValue SkipValue depth (bencode v @ rest) = Inr rest"
    and "list_all (canonical (depth + 1)) vs"
  shows "skipValue SkipList depth (concat (map bencode vs) @ chrE # rest) = Inr rest"
  using assms
proof (induction vs)
  case Nil
  then show ?case by (simp add: skipValue.simps)
next
  case (Cons v vs)
  have v: "canonical (depth + 1) v" using Cons.prems(2) by simp
  obtain b bs where b: "bencode v = b # bs" "b \<noteq> chrE" using encode_start [OF v] by blast
  have "skipValue SkipValue (depth + 1) (bencode v @ concat (map bencode vs) @ chrE # rest) = Inr (concat (map bencode vs) @ chrE # rest)"
    using Cons.prems(1) [OF _ v] by simp
  then show ?case using Cons b by (simp add: skipValue.simps(2) [of depth "b # _"])
qed

lemma skip_dictionary:
  assumes "\<And>key v depth rest. (key, v) \<in> set es \<Longrightarrow> canonical depth v \<Longrightarrow> skipValue SkipValue depth (bencode v @ rest) = Inr rest"
    and "entriesOk depth p es"
  shows "skipValue (SkipDictionary p) depth (concat (map encodeEntry es) @ chrE # rest) = Inr rest"
  using assms
proof (induction es arbitrary: p)
  case Nil
  then show ?case by (simp add: skipValue.simps)
next
  case (Cons x es)
  obtain key v where x: "x = (key, v)" by fastforce
  have v: "canonical (depth + 1) v" "keyValid key" "keyAfter p key" "entriesOk depth (Some key) es"
    using Cons.prems(2) by (simp_all add: x entriesOk_def)
  obtain b bs where b: "encodeString key = b # bs" "b \<noteq> chrE" using encodeString_start [of key] by auto
  let ?rest = "concat (map encodeEntry es) @ chrE # rest"
  have "skipValue SkipValue (depth + 1) (bencode v @ ?rest) = Inr ?rest"
    using Cons.prems(1) [of key v "depth + 1"] v x by simp
  moreover have "parseString (depth + 1) (encodeString key @ bencode v @ ?rest) = Inr (key, bencode v @ ?rest)"
    using parse_encodeString [OF keyValid_length [OF v(2)]] canonical_depth [OF v(1)] by (simp add: parseString_def enterValue_def)
  moreover have "skipValue (SkipDictionary (Some key)) depth ?rest = Inr rest"
    by (rule Cons.IH [OF _ v(4)]) (use Cons.prems(1) in auto)
  ultimately show ?case using v b x by (simp add: encodeEntry_def skipValue.simps(3) [of p depth "b # _"])
qed

lemma skipValue_complete: "canonical depth v \<Longrightarrow> skipValue SkipValue depth (bencode v @ rest) = Inr rest"
proof (induction v arbitrary: depth rest rule: bencode.induct)
  case (1 v)
  then have "parseRawInteger (encodeInteger v @ rest) = Inr (v, rest)" using parse_encodeInteger by simp
  then show ?case using 1 by (simp add: skipValue.simps(1) enterValue_def) (simp add: encodeInteger_def)
next
  case (2 s)
  then have p: "parseRawString (encodeString s @ rest) = Inr (s, rest)" using parse_encodeString by simp
  obtain b bs where b: "encodeString s = b # bs" "digitByte b" using encodeString_start [of s] by auto
  show ?case using 2 p b by (auto simp: skipValue.simps(1) enterValue_def digitByte_def)
next
  case (3 vs)
  then have "skipValue SkipList depth (concat (map bencode vs) @ chrE # rest) = Inr rest"
    by (intro skip_list) auto
  then show ?case using 3 by (simp add: skipValue.simps(1) enterValue_def)
next
  case (4 es)
  have "skipValue (SkipDictionary None) depth (concat (map encodeEntry es) @ chrE # rest) = Inr rest"
    by (rule skip_dictionary) (use 4 in \<open>auto simp: entriesOk_def\<close>)
  then show ?case using 4 by (simp add: skipValue.simps(1) enterValue_def encodeEntry_def)
qed

text \<open>C22: Skipping a value succeeds exactly on the canonical encoding of a value within the limits of depth, string length and
  integer range, and leaves exactly what comes after it.\<close>

theorem bencode_skip_equivalence:
  "skipValue SkipValue depth d = Inr rest \<longleftrightarrow> (\<exists>v. canonical depth v \<and> d = bencode v @ rest)"
  using skipValue_sound [of SkipValue depth d rest] skipValue_complete by auto

end
