(* ===== verification/TrackerResponse.thy ===== *)
theory TrackerResponse
  imports BencodeGrammar
begin

text \<open>
  The response of a tracker: \<open>protocol.go\<close> of \<open>internal/networking/discovery/tracker\<close>, and the part of \<open>bencode.go\<close>
  that reads an announce response out of its dictionary.
\<close>

section \<open>Peers\<close>

definition maxAnnouncePeers :: nat where [simp]: "maxAnnouncePeers = 50"
definition maxFailureReasonLength :: nat where [simp]: "maxFailureReasonLength = 1024"
definition maxHTTPPeerNameLength :: nat where [simp]: "maxHTTPPeerNameLength = 253"

record httpPeer =
  hpAddress :: Addr
  hpName :: string
  hpPort :: uint16

record announceResponse =
  arInterval :: duration
  arPeers :: "AddrPort list"
  arPeerNames :: "httpPeer list"

definition usablePeer :: "AddrPort \<Rightarrow> bool" where
  "usablePeer peer \<longleftrightarrow> apIsValid peer \<and> apPort peer \<noteq> 0 \<and>
     (let address = Unmap (apAddr peer)
      in IsGlobalUnicast address \<and> \<not> IsPrivate address \<and> \<not> IsLoopback address \<and> \<not> IsLinkLocalUnicast address)"

text \<open>The peers so far and the map of those seen.\<close>

type_synonym peerSet = "AddrPort list \<times> AddrPort set"

definition appendUniquePeer :: "peerSet \<Rightarrow> AddrPort \<Rightarrow> peerSet" where
  "appendUniquePeer ps peer =
     (case ps of (peers, seen) \<Rightarrow>
        if length peers \<ge> maxAnnouncePeers \<or> \<not> usablePeer peer then ps
        else if peer \<in> seen then ps
        else (peers @ [peer], insert peer seen))"

definition compactPeer :: "bool \<Rightarrow> bytes \<Rightarrow> AddrPort" where
  "compactPeer ipv6 chunk =
     (let n = length chunk - 2
      in AddrPortFrom (if ipv6 then Unmap (Addr6 (get_be (take n chunk)) []) else Addr4 (get_be (take n chunk)))
           (get_be (drop n chunk)))"

function compactLoop :: "bool \<Rightarrow> peerSet \<Rightarrow> bytes \<Rightarrow> peerSet" where
  "compactLoop ipv6 ps compact =
     (if compact = [] \<or> length (fst ps) \<ge> maxAnnouncePeers then ps
      else
        let peerSize = (if ipv6 then 18 else 6)
        in compactLoop ipv6 (appendUniquePeer ps (compactPeer ipv6 (take peerSize compact))) (drop peerSize compact))"
  by pat_completeness auto
termination
  by (relation "measure (\<lambda>(ipv6, ps, compact). length compact)") auto

declare compactLoop.simps [simp del]

definition appendCompactPeers :: "peerSet \<Rightarrow> bytes \<Rightarrow> bool \<Rightarrow> peerSet result" where
  "appendCompactPeers ps compact ipv6 =
     (if length compact mod (if ipv6 then 18 else 6) \<noteq> 0 then fail ''tracker response has a malformed compact peer list''
      else Inr (compactLoop ipv6 ps compact))"

section \<open>A listed peer\<close>

definition beginCollection :: "nat \<Rightarrow> byte \<Rightarrow> string \<Rightarrow> bytes \<Rightarrow> bytes result" where
  "beginCollection depth marker name d =
     (case enterValue depth of
        Some err \<Rightarrow> Inl err
      | None \<Rightarrow>
          if fst (takeByte d) \<noteq> marker then fail (''bencoded tracker '' @ name @ '' has the wrong value type'')
          else Inr (snd (takeByte d)))"

definition endCollection :: "string \<Rightarrow> bytes \<Rightarrow> (bool \<times> bytes) result" where
  "endCollection name d =
     (case d of
        [] \<Rightarrow> fail (''bencoded tracker '' @ name @ '' is truncated'')
      | b # rest \<Rightarrow> if b \<noteq> chrE then Inr (False, d) else Inr (True, rest))"

definition parseAddress :: "httpPeer \<Rightarrow> nat \<Rightarrow> bytes \<Rightarrow> (httpPeer \<times> bytes) result" where
  "parseAddress p0 depth d =
     (case parseString depth d of
        Inl err \<Rightarrow> Inl err
      | Inr (encoded, d) \<Rightarrow>
          (case ParseAddr (textOf encoded) of
             Some address \<Rightarrow>
               if Zone address = [] then Inr (p0\<lparr>hpAddress := Unmap address\<rparr>, d)
               else if length encoded > 0 \<and> length encoded \<le> maxHTTPPeerNameLength
                 then Inr (p0\<lparr>hpName := textOf encoded\<rparr>, d)
               else Inr (p0, d)
           | None \<Rightarrow>
               if length encoded > 0 \<and> length encoded \<le> maxHTTPPeerNameLength
                 then Inr (p0\<lparr>hpName := textOf encoded\<rparr>, d)
               else Inr (p0, d)))"

definition parsePort :: "httpPeer \<Rightarrow> nat \<Rightarrow> bytes \<Rightarrow> (httpPeer \<times> bytes) result" where
  "parsePort p0 depth d =
     (case parseInteger depth d of
        Inl err \<Rightarrow> Inl err
      | Inr (port, d) \<Rightarrow> Inr (if port > 0 \<and> port \<le> 65535 then p0\<lparr>hpPort := word_of_int port\<rparr> else p0, d))"

definition parseHTTPPeerField :: "httpPeer \<Rightarrow> bytes \<Rightarrow> nat \<Rightarrow> bytes \<Rightarrow> (httpPeer \<times> bytes) result" where
  "parseHTTPPeerField p0 key depth d =
     (if key = bytes_of ''ip'' then parseAddress p0 depth d
      else if key = bytes_of ''peer id'' then map_sum (\<lambda>err. err) (\<lambda>(s, d). (p0, d)) (parseString depth d)
      else if key = bytes_of ''port'' then parsePort p0 depth d
      else map_sum (\<lambda>err. err) (\<lambda>d. (p0, d)) (skipValue SkipValue depth d))"

definition parseHTTPPeerEntry :: "httpPeer \<Rightarrow> nat \<Rightarrow> bytes option \<Rightarrow> bytes \<Rightarrow> (bytes \<times> httpPeer \<times> bytes) result" where
  "parseHTTPPeerEntry p0 depth previousKey d =
     (case parseString depth d of
        Inl err \<Rightarrow> Inl err
      | Inr (key, d) \<Rightarrow>
          if \<not> keyValid key then fail ''bencoded peer dictionary key is invalid''
          else if \<not> keyAfter previousKey key then fail ''bencoded peer dictionary keys are not strictly ordered''
          else map_sum (\<lambda>err. err) (\<lambda>r. (key, r)) (parseHTTPPeerField p0 key depth d))"

text \<open>What an entry with a given value does to a peer.\<close>

definition peerField :: "httpPeer \<Rightarrow> bytes \<times> bvalue \<Rightarrow> httpPeer option" where
  "peerField p0 entry =
     (case entry of (key, v) \<Rightarrow>
        if key = bytes_of ''ip'' then
          (case v of
             BString s \<Rightarrow>
               Some (case ParseAddr (textOf s) of
                 Some address \<Rightarrow>
                   if Zone address = [] then p0\<lparr>hpAddress := Unmap address\<rparr>
                   else if length s > 0 \<and> length s \<le> maxHTTPPeerNameLength then p0\<lparr>hpName := textOf s\<rparr> else p0
               | None \<Rightarrow> if length s > 0 \<and> length s \<le> maxHTTPPeerNameLength then p0\<lparr>hpName := textOf s\<rparr> else p0)
           | _ \<Rightarrow> None)
        else if key = bytes_of ''peer id'' then (case v of BString s \<Rightarrow> Some p0 | _ \<Rightarrow> None)
        else if key = bytes_of ''port'' then
          (case v of
             BInteger n \<Rightarrow> Some (if n > 0 \<and> n \<le> 65535 then p0\<lparr>hpPort := word_of_int n\<rparr> else p0)
           | _ \<Rightarrow> None)
        else Some p0)"

lemma parseString_encoded: "parseString depth d = Inr (s, rest) \<Longrightarrow> canonical depth (BString s) \<and> d = bencode (BString s) @ rest"
  using parseRawString_encoded by (auto simp: parseString_def enterValue_def split: if_splits)

lemma parseInteger_encoded: "parseInteger depth d = Inr (v, rest) \<Longrightarrow> canonical depth (BInteger v) \<and> d = bencode (BInteger v) @ rest"
  using parseRawInteger_encoded by (auto simp: parseInteger_def enterValue_def split: if_splits)

lemma parseHTTPPeerField_sound:
  assumes "parseHTTPPeerField p0 key depth d = Inr (p', rest)"
  shows "\<exists>v. canonical depth v \<and> d = bencode v @ rest \<and> peerField p0 (key, v) = Some p'"
proof -
  consider "key = bytes_of ''ip''" | "key = bytes_of ''peer id''" "key \<noteq> bytes_of ''ip''"
    | "key = bytes_of ''port''" "key \<noteq> bytes_of ''ip''" "key \<noteq> bytes_of ''peer id''"
    | "key \<noteq> bytes_of ''ip''" "key \<noteq> bytes_of ''peer id''" "key \<noteq> bytes_of ''port''" by blast
  then show ?thesis
  proof cases
    case 1
    with assms obtain s where "parseString depth d = Inr (s, rest)" "peerField p0 (key, BString s) = Some p'"
      by (auto simp: parseHTTPPeerField_def parseAddress_def peerField_def split: sum.splits option.splits if_splits)
    then show ?thesis using parseString_encoded by blast
  next
    case 2
    with assms obtain s where "parseString depth d = Inr (s, rest)" "peerField p0 (key, BString s) = Some p'"
      by (cases "parseString depth d") (auto simp: parseHTTPPeerField_def peerField_def)
    then show ?thesis using parseString_encoded by blast
  next
    case 3
    with assms obtain n where "parseInteger depth d = Inr (n, rest)" "peerField p0 (key, BInteger n) = Some p'"
      by (cases "parseInteger depth d") (auto simp: parseHTTPPeerField_def parsePort_def peerField_def)
    then show ?thesis using parseInteger_encoded by blast
  next
    case 4
    with assms have "skipValue SkipValue depth d = Inr rest" "p' = p0"
      by (cases "skipValue SkipValue depth d"; simp add: parseHTTPPeerField_def)+
    then show ?thesis using 4 skipValue_sound [of SkipValue depth d rest] by (auto simp: peerField_def)
  qed
qed

lemma parseHTTPPeerEntry_sound:
  assumes "parseHTTPPeerEntry p0 depth p d = Inr (key, p', rest)"
  shows "\<exists>v. canonical depth v \<and> keyValid key \<and> keyAfter p key \<and> d = encodeEntry (key, v) @ rest \<and> peerField p0 (key, v) = Some p'"
proof -
  obtain d1 where d1: "parseString depth d = Inr (key, d1)" "keyValid key" "keyAfter p key"
    "parseHTTPPeerField p0 key depth d1 = Inr (p', rest)"
    using assms by (cases "parseString depth d"; auto simp: parseHTTPPeerEntry_def split: if_splits; cases "parseHTTPPeerField p0 (fst (projr (parseString depth d))) depth (snd (projr (parseString depth d)))"; auto)
  then show ?thesis using parseHTTPPeerField_sound [OF d1(4)] parseString_encoded [OF d1(1)] by (auto simp: encodeEntry_def)
qed

lemma parseHTTPPeerEntry_shorter: "parseHTTPPeerEntry p0 depth p d = Inr (key, p', rest) \<Longrightarrow> length rest < length d"
  using parseHTTPPeerEntry_sound [of p0 depth p d key p' rest] encodeString_start [of key] by (auto simp: encodeEntry_def)

definition noPeer :: httpPeer where
  "noPeer = \<lparr>hpAddress = AddrZero, hpName = [], hpPort = 0\<rparr>"

text \<open>The loop of \<open>parseHTTPPeer\<close> over the entries of a peer.\<close>

function peerLoop :: "httpPeer \<Rightarrow> nat \<Rightarrow> bytes option \<Rightarrow> bytes \<Rightarrow> (httpPeer \<times> bytes) result" where
  "peerLoop p0 depth previousKey d =
     (case endCollection ''peer dictionary'' d of
        Inl err \<Rightarrow> Inl err
      | Inr (ended, d') \<Rightarrow>
          if ended then Inr (p0, d')
          else case parseHTTPPeerEntry p0 (depth + 1) previousKey d of
              Inl err \<Rightarrow> Inl err
            | Inr (key, p', rest) \<Rightarrow> peerLoop p' depth (Some key) rest)"
  by pat_completeness auto
termination
  by (relation "measure (\<lambda>(p0, depth, previousKey, d). length d)") (auto dest: parseHTTPPeerEntry_shorter)

declare peerLoop.simps [simp del]

definition parseHTTPPeer :: "nat \<Rightarrow> bytes \<Rightarrow> (httpPeer \<times> bytes) result" where
  "parseHTTPPeer depth d =
     (case beginCollection depth chrD ''peer'' d of
        Inl err \<Rightarrow> Inl err
      | Inr d \<Rightarrow> peerLoop noPeer depth None d)"

fun peerFields :: "httpPeer \<Rightarrow> (bytes \<times> bvalue) list \<Rightarrow> httpPeer option" where
  "peerFields p0 [] = Some p0"
| "peerFields p0 (e # es) = Option.bind (peerField p0 e) (\<lambda>p'. peerFields p' es)"

definition peerValue :: "bvalue \<Rightarrow> httpPeer option" where
  "peerValue v = (case v of BDictionary es \<Rightarrow> peerFields noPeer es | _ \<Rightarrow> None)"

lemma endCollection_iff:
  "endCollection name d = Inr (ended, d') \<longleftrightarrow> (if ended then d = chrE # d' else d \<noteq> [] \<and> hd d \<noteq> chrE \<and> d' = d)"
  by (cases d) (auto simp: endCollection_def)

lemma peerLoop_sound: "peerLoop p0 depth p d = Inr (p', rest) \<Longrightarrow>
    \<exists>es. entriesOk depth p es \<and> d = concat (map encodeEntry es) @ [chrE] @ rest \<and> peerFields p0 es = Some p'"
proof (induction p0 depth p d rule: peerLoop.induct)
  case (1 p0 depth p d)
  from "1.prems" obtain ended d' where e: "endCollection ''peer dictionary'' d = Inr (ended, d')"
    by (subst (asm) peerLoop.simps) (auto split: sum.splits)
  show ?case
  proof (cases ended)
    case True
    then have "p' = p0" "d = chrE # rest" using "1.prems" e endCollection_iff [of _ d ended d']
      by (subst (asm) peerLoop.simps, simp)+
    then have "entriesOk depth p [] \<and> d = concat (map encodeEntry []) @ [chrE] @ rest \<and> peerFields p0 [] = Some p'"
      by (simp add: entriesOk_def)
    then show ?thesis by blast
  next
    case False
    with "1.prems" e obtain key q d2 where s: "parseHTTPPeerEntry p0 (depth + 1) p d = Inr (key, q, d2)"
      "peerLoop q depth (Some key) d2 = Inr (p', rest)"
      by (subst (asm) peerLoop.simps) (auto split: sum.splits)
    obtain v where v: "canonical (depth + 1) v" "keyValid key" "keyAfter p key" "d = encodeEntry (key, v) @ d2"
      "peerField p0 (key, v) = Some q" using parseHTTPPeerEntry_sound [OF s(1)] by blast
    obtain es where "entriesOk depth (Some key) es" "d2 = concat (map encodeEntry es) @ [chrE] @ rest" "peerFields q es = Some p'"
      using "1.IH" [OF e refl False s(1) refl refl s(2)] by blast
    with v have "entriesOk depth p ((key, v) # es) \<and> d = concat (map encodeEntry ((key, v) # es)) @ [chrE] @ rest \<and>
        peerFields p0 ((key, v) # es) = Some p'" by (simp add: entriesOk_def)
    then show ?thesis by blast
  qed
qed

lemma beginCollection_iff: "beginCollection depth marker name d = Inr rest \<Longrightarrow> marker \<noteq> 0 \<Longrightarrow> d = marker # rest \<and> depth \<le> maxBencodeDepth"
  by (cases d) (auto simp: beginCollection_def takeByte_def enterValue_def split: if_splits)

lemma parseHTTPPeer_sound: "parseHTTPPeer depth d = Inr (p', rest) \<Longrightarrow>
    \<exists>v. canonical depth v \<and> d = bencode v @ rest \<and> peerValue v = Some p'"
proof -
  assume "parseHTTPPeer depth d = Inr (p', rest)"
  then obtain d1 where "beginCollection depth chrD ''peer'' d = Inr d1" and l: "peerLoop noPeer depth None d1 = Inr (p', rest)"
    by (auto simp: parseHTTPPeer_def split: sum.splits)
  then have d: "d = chrD # d1" "depth \<le> maxBencodeDepth" using beginCollection_iff by fastforce+
  obtain es where "entriesOk depth None es" "d1 = concat (map encodeEntry es) @ [chrE] @ rest" "peerFields noPeer es = Some p'"
    using peerLoop_sound [OF l] by blast
  then have "canonical depth (BDictionary es) \<and> d = bencode (BDictionary es) @ rest \<and> peerValue (BDictionary es) = Some p'"
    using d by (simp add: entriesOk_def encodeEntry_def peerValue_def)
  then show ?thesis by blast
qed

lemma bencode_not_Nil: "canonical depth v \<Longrightarrow> bencode v \<noteq> []"
  using encode_start by fastforce

lemma parseHTTPPeer_shorter: "parseHTTPPeer depth d = Inr (p', rest) \<Longrightarrow> length rest < length d"
  by (drule parseHTTPPeer_sound) (auto dest: bencode_not_Nil)

section \<open>The list of peers\<close>

text \<open>The peers with an address, those seen, and the peers with a name.\<close>

type_synonym listedPeers = "peerSet \<times> httpPeer list"

definition appendHTTPPeer :: "listedPeers \<Rightarrow> httpPeer \<Rightarrow> listedPeers" where
  "appendHTTPPeer ls peer =
     (case ls of ((peers, seen), names) \<Rightarrow>
        if addrIsValid (hpAddress peer) \<and> hpPort peer \<noteq> 0
          then (appendUniquePeer (peers, seen) (AddrPortFrom (hpAddress peer) (hpPort peer)), names)
        else if hpName peer \<noteq> [] \<and> hpPort peer \<noteq> 0 \<and> length peers + length names < maxAnnouncePeers
          then ((peers, seen), names @ [peer])
        else ls)"

function peerListLoop :: "listedPeers \<Rightarrow> nat \<Rightarrow> bytes \<Rightarrow> (listedPeers \<times> bytes) result" where
  "peerListLoop ls depth d =
     (case endCollection ''peer list'' d of
        Inl err \<Rightarrow> Inl err
      | Inr (ended, d') \<Rightarrow>
          if ended then Inr (ls, d')
          else case parseHTTPPeer (depth + 1) d of
              Inl err \<Rightarrow> Inl err
            | Inr (peer, rest) \<Rightarrow> peerListLoop (appendHTTPPeer ls peer) depth rest)"
  by pat_completeness auto
termination
  by (relation "measure (\<lambda>(ls, depth, d). length d)") (auto dest: parseHTTPPeer_shorter)

declare peerListLoop.simps [simp del]

definition parseHTTPPeerList :: "nat \<Rightarrow> bytes \<Rightarrow> (listedPeers \<times> bytes) result" where
  "parseHTTPPeerList depth d =
     (case beginCollection depth chrL ''peer list'' d of
        Inl err \<Rightarrow> Inl err
      | Inr d \<Rightarrow> peerListLoop (([], {}), []) depth d)"

fun listPeers :: "listedPeers \<Rightarrow> bvalue list \<Rightarrow> listedPeers option" where
  "listPeers ls [] = Some ls"
| "listPeers ls (v # vs) = Option.bind (peerValue v) (\<lambda>peer. listPeers (appendHTTPPeer ls peer) vs)"

lemma peerListLoop_sound: "peerListLoop ls depth d = Inr (ls', rest) \<Longrightarrow>
    \<exists>vs. list_all (canonical (depth + 1)) vs \<and> d = concat (map bencode vs) @ [chrE] @ rest \<and> listPeers ls vs = Some ls'"
proof (induction ls depth d rule: peerListLoop.induct)
  case (1 ls depth d)
  from "1.prems" obtain ended d' where e: "endCollection ''peer list'' d = Inr (ended, d')"
    by (subst (asm) peerListLoop.simps) (auto split: sum.splits)
  show ?case
  proof (cases ended)
    case True
    then have "ls' = ls" "d = chrE # rest" using "1.prems" e endCollection_iff [of _ d ended d']
      by (subst (asm) peerListLoop.simps, simp)+
    then have "list_all (canonical (depth + 1)) [] \<and> d = concat (map bencode []) @ [chrE] @ rest \<and> listPeers ls [] = Some ls'" by simp
    then show ?thesis by blast
  next
    case False
    with "1.prems" e obtain peer d2 where s: "parseHTTPPeer (depth + 1) d = Inr (peer, d2)"
      "peerListLoop (appendHTTPPeer ls peer) depth d2 = Inr (ls', rest)"
      by (subst (asm) peerListLoop.simps) (auto split: sum.splits)
    obtain v where v: "canonical (depth + 1) v" "d = bencode v @ d2" "peerValue v = Some peer" using parseHTTPPeer_sound [OF s(1)] by blast
    obtain vs where "list_all (canonical (depth + 1)) vs" "d2 = concat (map bencode vs) @ [chrE] @ rest"
      "listPeers (appendHTTPPeer ls peer) vs = Some ls'" using "1.IH" [OF e refl False s(1) refl s(2)] by blast
    with v have "list_all (canonical (depth + 1)) (v # vs) \<and> d = concat (map bencode (v # vs)) @ [chrE] @ rest \<and>
        listPeers ls (v # vs) = Some ls'" by simp
    then show ?thesis by blast
  qed
qed

lemma parseHTTPPeerList_sound: "parseHTTPPeerList depth d = Inr (ls, rest) \<Longrightarrow>
    \<exists>vs. canonical depth (BList vs) \<and> d = bencode (BList vs) @ rest \<and> listPeers (([], {}), []) vs = Some ls"
proof -
  assume "parseHTTPPeerList depth d = Inr (ls, rest)"
  then obtain d1 where "beginCollection depth chrL ''peer list'' d = Inr d1" and l: "peerListLoop (([], {}), []) depth d1 = Inr (ls, rest)"
    by (auto simp: parseHTTPPeerList_def split: sum.splits)
  then have d: "d = chrL # d1" "depth \<le> maxBencodeDepth" using beginCollection_iff by fastforce+
  from peerListLoop_sound [OF l] d show ?thesis by auto
qed

section \<open>The announce response\<close>

text \<open>The variables of \<open>parseHTTPAnnounceResponse\<close>; a value with its flag is an option.\<close>

record announceFields =
  afInterval :: "int option"
  afCompact4 :: bytes
  afCompact6 :: bytes
  afListed :: listedPeers
  afFailure :: "bytes option"

definition noFields :: announceFields where
  "noFields = \<lparr>afInterval = None, afCompact4 = [], afCompact6 = [], afListed = (([], {}), []), afFailure = None\<rparr>"

definition parseHTTPPeers :: "announceFields \<Rightarrow> nat \<Rightarrow> bytes \<Rightarrow> (announceFields \<times> bytes) result" where
  "parseHTTPPeers a depth d =
     (case d of
        [] \<Rightarrow> fail ''bencoded tracker peers value is truncated''
      | b # _ \<Rightarrow>
          if b = chrL then
            (case parseHTTPPeerList depth d of
               Inl err \<Rightarrow> Inl err
             | Inr (ls, d) \<Rightarrow> Inr (a\<lparr>afCompact4 := [], afListed := ls\<rparr>, d))
          else
            (case parseString depth d of
               Inl err \<Rightarrow> Inl err
             | Inr (compact, d) \<Rightarrow> Inr (a\<lparr>afCompact4 := compact, afListed := (([], {}), [])\<rparr>, d)))"

definition parseAnnounceField :: "announceFields \<Rightarrow> bytes \<Rightarrow> bytes \<Rightarrow> (announceFields \<times> bytes) result" where
  "parseAnnounceField a key d =
     (if key = bytes_of ''failure reason'' then
        (case parseString 1 d of
           Inl err \<Rightarrow> Inl err
         | Inr (failure, d) \<Rightarrow>
             if length failure > maxFailureReasonLength then fail ''HTTP tracker failure reason is too long''
             else Inr (a\<lparr>afFailure := Some failure\<rparr>, d))
      else if key = bytes_of ''interval'' then
        (case parseInteger 1 d of
           Inl err \<Rightarrow> Inl err
         | Inr (n, d) \<Rightarrow> Inr (a\<lparr>afInterval := Some n\<rparr>, d))
      else if key = bytes_of ''peers'' then parseHTTPPeers a 1 d
      else if key = bytes_of ''peers6'' then
        (case parseString 1 d of
           Inl err \<Rightarrow> Inl err
         | Inr (compact, d) \<Rightarrow> Inr (a\<lparr>afCompact6 := compact\<rparr>, d))
      else (case skipValue SkipValue 1 d of Inl err \<Rightarrow> Inl err | Inr d \<Rightarrow> Inr (a, d)))"

text \<open>What the value of a key stands for.\<close>

definition announceField :: "announceFields \<Rightarrow> bytes \<times> bvalue \<Rightarrow> announceFields option" where
  "announceField a entry =
     (case entry of (key, v) \<Rightarrow>
        if key = bytes_of ''failure reason'' then
          (case v of BString s \<Rightarrow> if length s > maxFailureReasonLength then None else Some (a\<lparr>afFailure := Some s\<rparr>) | _ \<Rightarrow> None)
        else if key = bytes_of ''interval'' then (case v of BInteger n \<Rightarrow> Some (a\<lparr>afInterval := Some n\<rparr>) | _ \<Rightarrow> None)
        else if key = bytes_of ''peers'' then
          (case v of
             BString s \<Rightarrow> Some (a\<lparr>afCompact4 := s, afListed := (([], {}), [])\<rparr>)
           | BList vs \<Rightarrow> map_option (\<lambda>ls. a\<lparr>afCompact4 := [], afListed := ls\<rparr>) (listPeers (([], {}), []) vs)
           | _ \<Rightarrow> None)
        else if key = bytes_of ''peers6'' then (case v of BString s \<Rightarrow> Some (a\<lparr>afCompact6 := s\<rparr>) | _ \<Rightarrow> None)
        else Some a)"

lemma parseHTTPPeers_sound:
  assumes "parseHTTPPeers a depth d = Inr (a', rest)"
  shows "\<exists>v. canonical depth v \<and> d = bencode v @ rest \<and> announceField a (bytes_of ''peers'', v) = Some a'"
proof -
  have k: "bytes_of ''peers'' \<noteq> bytes_of ''failure reason''" "bytes_of ''peers'' \<noteq> bytes_of ''interval''"
    by (simp_all add: bytes_of_def)
  obtain b d' where d: "d = b # d'" using assms by (cases d) (auto simp: parseHTTPPeers_def)
  show ?thesis
  proof (cases "b = chrL")
    case True
    then obtain ls where "parseHTTPPeerList depth d = Inr (ls, rest)" "a' = a\<lparr>afCompact4 := [], afListed := ls\<rparr>"
      using assms by (auto simp: parseHTTPPeers_def d split: sum.splits)
    then show ?thesis using parseHTTPPeerList_sound [of depth d ls rest] k by (fastforce simp: announceField_def)
  next
    case False
    then obtain s where "parseString depth d = Inr (s, rest)" "a' = a\<lparr>afCompact4 := s, afListed := (([], {}), [])\<rparr>"
      using assms by (auto simp: parseHTTPPeers_def d split: sum.splits)
    then show ?thesis using parseString_encoded k by (fastforce simp: announceField_def)
  qed
qed

lemma parseAnnounceField_sound:
  assumes "parseAnnounceField a key d = Inr (a', rest)"
  shows "\<exists>v. canonical 1 v \<and> d = bencode v @ rest \<and> announceField a (key, v) = Some a'"
proof -
  let ?f = "bytes_of ''failure reason''" and ?i = "bytes_of ''interval''" and ?p = "bytes_of ''peers''" and ?s = "bytes_of ''peers6''"
  consider "key = ?f" | "key = ?i" "key \<noteq> ?f" | "key = ?p" "key \<noteq> ?f" "key \<noteq> ?i" | "key = ?s" "key \<noteq> ?f" "key \<noteq> ?i" "key \<noteq> ?p"
    | "key \<noteq> ?f" "key \<noteq> ?i" "key \<noteq> ?p" "key \<noteq> ?s" by blast
  then show ?thesis
  proof cases
    case 1
    with assms obtain s where "parseString 1 d = Inr (s, rest)" "announceField a (key, BString s) = Some a'"
      by (auto simp: parseAnnounceField_def announceField_def split: sum.splits if_splits)
    then show ?thesis using parseString_encoded by blast
  next
    case 2
    with assms obtain n where "parseInteger 1 d = Inr (n, rest)" "announceField a (key, BInteger n) = Some a'"
      by (auto simp: parseAnnounceField_def announceField_def split: sum.splits)
    then show ?thesis using parseInteger_encoded by blast
  next
    case 3
    with assms have "parseHTTPPeers a 1 d = Inr (a', rest)" by (simp add: parseAnnounceField_def)
    then show ?thesis using parseHTTPPeers_sound 3 by blast
  next
    case 4
    with assms obtain s where "parseString 1 d = Inr (s, rest)" "announceField a (key, BString s) = Some a'"
      by (auto simp: parseAnnounceField_def announceField_def split: sum.splits)
    then show ?thesis using parseString_encoded by blast
  next
    case 5
    with assms have "skipValue SkipValue 1 d = Inr rest" "a' = a" by (auto simp: parseAnnounceField_def split: sum.splits)
    then show ?thesis using 5 skipValue_sound [of SkipValue 1 d rest] by (auto simp: announceField_def)
  qed
qed

text \<open>The loop over the entries of the response.\<close>

definition announceEntry :: "announceFields \<Rightarrow> bytes option \<Rightarrow> bytes \<Rightarrow> (bytes \<times> announceFields \<times> bytes) result" where
  "announceEntry a previousKey d =
     (case parseString 1 d of
        Inl err \<Rightarrow> Inl err
      | Inr (key, d) \<Rightarrow>
          if \<not> keyValid key then fail ''bencoded tracker dictionary key is invalid''
          else if \<not> keyAfter previousKey key then fail ''bencoded tracker dictionary keys are not strictly ordered''
          else case parseAnnounceField a key d of
              Inl err \<Rightarrow> Inl err
            | Inr (a, d) \<Rightarrow> Inr (key, a, d))"

lemma announceEntry_sound:
  assumes "announceEntry a p d = Inr (key, a', rest)"
  shows "\<exists>v. canonical 1 v \<and> keyValid key \<and> keyAfter p key \<and> d = encodeEntry (key, v) @ rest \<and> announceField a (key, v) = Some a'"
proof -
  obtain d1 where d1: "parseString 1 d = Inr (key, d1)" "keyValid key" "keyAfter p key" "parseAnnounceField a key d1 = Inr (a', rest)"
    using assms by (auto simp: announceEntry_def split: sum.splits if_splits)
  show ?thesis using parseAnnounceField_sound [OF d1(4)] parseString_encoded [OF d1(1)] d1 by (auto simp: encodeEntry_def)
qed

lemma announceEntry_shorter: "announceEntry a p d = Inr (key, a', rest) \<Longrightarrow> length rest < length d"
  using announceEntry_sound [of a p d key a' rest] encodeString_start [of key] by (auto simp: encodeEntry_def)

function announceLoop :: "announceFields \<Rightarrow> bytes option \<Rightarrow> bytes \<Rightarrow> (announceFields \<times> bytes) result" where
  "announceLoop a previousKey d =
     (case d of
        [] \<Rightarrow> fail ''bencoded tracker dictionary is truncated''
      | b # d' \<Rightarrow>
          if b = chrE then Inr (a, d')
          else case announceEntry a previousKey d of
              Inl err \<Rightarrow> Inl err
            | Inr (key, a', rest) \<Rightarrow> announceLoop a' (Some key) rest)"
  by pat_completeness auto
termination
  by (relation "measure (\<lambda>(a, previousKey, d). length d)") (auto dest: announceEntry_shorter)

declare announceLoop.simps [simp del]

definition parseHTTPCompactPeers :: "announceResponse \<Rightarrow> bytes \<Rightarrow> bytes \<Rightarrow> announceResponse result" where
  "parseHTTPCompactPeers response compact4 compact6 =
     (case appendCompactPeers (arPeers response, set (arPeers response)) compact4 False of
        Inl err \<Rightarrow> Inl (wrap ''HTTP tracker IPv4 peers: '' err)
      | Inr ps \<Rightarrow>
          (case appendCompactPeers ps compact6 True of
             Inl err \<Rightarrow> Inl (wrap ''HTTP tracker IPv6 peers: '' err)
           | Inr ps \<Rightarrow> Inr (response\<lparr>arPeers := fst ps\<rparr>)))"

definition finishAnnounce :: "announceFields \<Rightarrow> announceResponse result" where
  "finishAnnounce a =
     (if length (afCompact4 a) mod 6 \<noteq> 0 \<or> length (afCompact6 a) mod 18 \<noteq> 0
        then fail ''HTTP tracker response has a malformed compact peer list''
      else case afFailure a of
          Some failure \<Rightarrow> fail (''tracker returned an error: '' @ textOf failure)
        | None \<Rightarrow>
            (case afInterval a of
               None \<Rightarrow> fail ''HTTP tracker interval is missing or invalid''
             | Some n \<Rightarrow>
                 if n \<le> 0 \<or> n > 2 ^ 32 - 1 then fail ''HTTP tracker interval is missing or invalid''
                 else parseHTTPCompactPeers
                   \<lparr>arInterval = n * Second, arPeers = fst (fst (afListed a)), arPeerNames = snd (afListed a)\<rparr>
                   (afCompact4 a) (afCompact6 a)))"

definition parseHTTPAnnounceResponse :: "bytes \<Rightarrow> announceResponse result" where
  "parseHTTPAnnounceResponse packet =
     (if length packet = 0 then fail ''HTTP tracker response is empty''
      else if length packet > maxHTTPTrackerResponseSize
        then fail (''HTTP tracker response exceeds '' @ digits 10 maxHTTPTrackerResponseSize @ '' bytes'')
      else if fst (takeByte packet) \<noteq> chrD then fail ''HTTP tracker response must be a bencoded dictionary''
      else case announceLoop noFields None (snd (takeByte packet)) of
          Inl err \<Rightarrow> Inl err
        | Inr (a, rest) \<Rightarrow>
            if rest \<noteq> [] then fail ''HTTP tracker response has trailing bencode data''
            else finishAnnounce a)"

section \<open>What an accepted response is\<close>

fun announceMeaning :: "announceFields \<Rightarrow> (bytes \<times> bvalue) list \<Rightarrow> announceFields option" where
  "announceMeaning a [] = Some a"
| "announceMeaning a (e # es) = Option.bind (announceField a e) (\<lambda>a'. announceMeaning a' es)"

lemma announceLoop_sound: "announceLoop a p d = Inr (a', rest) \<Longrightarrow>
    \<exists>es. entriesOk 0 p es \<and> d = concat (map encodeEntry es) @ [chrE] @ rest \<and> announceMeaning a es = Some a'"
proof (induction a p d rule: announceLoop.induct)
  case (1 a p d)
  then obtain b d' where d: "d = b # d'" by (cases d) (auto simp: announceLoop.simps)
  show ?case
  proof (cases "b = chrE")
    case True
    then have "a' = a" "d = chrE # rest" using "1.prems" d by (subst (asm) announceLoop.simps, simp)+
    then have "entriesOk 0 p [] \<and> d = concat (map encodeEntry []) @ [chrE] @ rest \<and> announceMeaning a [] = Some a'"
      by (simp add: entriesOk_def)
    then show ?thesis by blast
  next
    case False
    with "1.prems" obtain key a2 d2 where s: "announceEntry a p d = Inr (key, a2, d2)" "announceLoop a2 (Some key) d2 = Inr (a', rest)"
      by (auto simp: announceLoop.simps [of a p "b # d'"] d split: sum.splits)
    obtain v where v: "canonical (0 + 1) v" "keyValid key" "keyAfter p key" "d = encodeEntry (key, v) @ d2" "announceField a (key, v) = Some a2"
      using announceEntry_sound [OF s(1)] by auto
    obtain es where "entriesOk 0 (Some key) es" "d2 = concat (map encodeEntry es) @ [chrE] @ rest" "announceMeaning a2 es = Some a'"
      using "1.IH" [OF d False s(1) refl refl s(2)] by blast
    with v have "entriesOk 0 p ((key, v) # es) \<and> d = concat (map encodeEntry ((key, v) # es)) @ [chrE] @ rest \<and>
        announceMeaning a ((key, v) # es) = Some a'" by (simp add: entriesOk_def)
    then show ?thesis by blast
  qed
qed

text \<open>The peers stay distinct, usable and few.\<close>

definition peerSet_ok :: "peerSet \<Rightarrow> bool" where
  "peerSet_ok ps \<longleftrightarrow> distinct (fst ps) \<and> list_all usablePeer (fst ps) \<and> length (fst ps) \<le> maxAnnouncePeers \<and> snd ps = set (fst ps)"

lemma peerSet_ok_append: "peerSet_ok ps \<Longrightarrow> peerSet_ok (appendUniquePeer ps peer)"
  by (cases ps) (auto simp: peerSet_ok_def appendUniquePeer_def)

lemma peerSet_ok_compactLoop: "peerSet_ok ps \<Longrightarrow> peerSet_ok (compactLoop ipv6 ps compact)"
proof (induction ipv6 ps compact rule: compactLoop.induct)
  case (1 ipv6 ps compact)
  then show ?case by (subst compactLoop.simps) (simp add: Let_def peerSet_ok_append)
qed

definition listed_ok :: "listedPeers \<Rightarrow> bool" where
  "listed_ok ls \<longleftrightarrow> peerSet_ok (fst ls) \<and> length (snd ls) \<le> maxAnnouncePeers \<and>
     list_all (\<lambda>p. hpName p \<noteq> [] \<and> hpPort p \<noteq> 0) (snd ls)"

lemma listed_ok_Nil: "listed_ok (([], {}), [])"
  by (simp add: listed_ok_def peerSet_ok_def)

lemma listed_ok_append: "listed_ok ls \<Longrightarrow> listed_ok (appendHTTPPeer ls peer)"
  using peerSet_ok_append [of "fst ls"]
  by (cases ls) (auto simp: listed_ok_def appendHTTPPeer_def)

lemma listed_ok_list: "listPeers ls vs = Some ls' \<Longrightarrow> listed_ok ls \<Longrightarrow> listed_ok ls'"
  by (induction ls vs rule: listPeers.induct) (auto split: bind_splits intro: listed_ok_append)

lemma listed_ok_field: "announceField a (key, v) = Some a' \<Longrightarrow> listed_ok (afListed a) \<Longrightarrow> listed_ok (afListed a')"
  by (auto simp: announceField_def listed_ok_Nil split: if_splits bvalue.splits intro: listed_ok_list [OF _ listed_ok_Nil])

lemma listed_ok_meaning: "announceMeaning a es = Some a' \<Longrightarrow> listed_ok (afListed a) \<Longrightarrow> listed_ok (afListed a')"
proof (induction a es rule: announceMeaning.induct)
  case (2 a e es)
  then show ?case by (cases e) (auto split: bind_splits intro: listed_ok_field)
qed simp

definition response_ok :: "announceResponse \<Rightarrow> bool" where
  "response_ok r \<longleftrightarrow> Second \<le> arInterval r \<and> arInterval r \<le> (2 ^ 32 - 1) * Second \<and>
     length (arPeers r) \<le> maxAnnouncePeers \<and> distinct (arPeers r) \<and> list_all usablePeer (arPeers r) \<and>
     length (arPeerNames r) \<le> maxAnnouncePeers \<and> list_all (\<lambda>p. hpName p \<noteq> [] \<and> hpPort p \<noteq> 0) (arPeerNames r)"

lemma appendCompactPeers_ok: "appendCompactPeers ps compact ipv6 = Inr ps' \<Longrightarrow> peerSet_ok ps \<Longrightarrow> peerSet_ok ps'"
  by (auto simp: appendCompactPeers_def peerSet_ok_compactLoop split: if_splits)

lemma parseHTTPCompactPeers_ok:
  assumes "parseHTTPCompactPeers r c4 c6 = Inr r'" "response_ok r"
  shows "response_ok r' \<and> arInterval r' = arInterval r \<and> arPeerNames r' = arPeerNames r"
proof -
  obtain ps ps' where a: "appendCompactPeers (arPeers r, set (arPeers r)) c4 False = Inr ps" "appendCompactPeers ps c6 True = Inr ps'"
    "r' = r\<lparr>arPeers := fst ps'\<rparr>" using assms(1) by (auto simp: parseHTTPCompactPeers_def split: sum.splits)
  have "peerSet_ok (arPeers r, set (arPeers r))" using assms(2) by (simp add: response_ok_def peerSet_ok_def)
  then have "peerSet_ok ps'" using a appendCompactPeers_ok by blast
  then show ?thesis using assms(2) a(3) by (simp add: response_ok_def peerSet_ok_def)
qed

lemma finishAnnounce_ok:
  assumes "finishAnnounce a = Inr r" "listed_ok (afListed a)"
  shows "response_ok r \<and> afFailure a = None \<and> (\<exists>n. afInterval a = Some n \<and> arInterval r = n * Second) \<and> arPeerNames r = snd (afListed a)"
proof -
  obtain n where n: "afFailure a = None" "afInterval a = Some n" "0 < n" "n \<le> 2 ^ 32 - 1"
    "parseHTTPCompactPeers \<lparr>arInterval = n * Second, arPeers = fst (fst (afListed a)), arPeerNames = snd (afListed a)\<rparr>
       (afCompact4 a) (afCompact6 a) = Inr r"
    using assms(1) by (auto simp: finishAnnounce_def split: if_splits option.splits)
  have "response_ok \<lparr>arInterval = n * Second, arPeers = fst (fst (afListed a)), arPeerNames = snd (afListed a)\<rparr>"
    using assms(2) n by (simp add: response_ok_def listed_ok_def peerSet_ok_def)
  from parseHTTPCompactPeers_ok [OF n(5) this] n(1,2) show ?thesis by simp
qed

lemma interval_entry: "announceMeaning a es = Some a' \<Longrightarrow> afInterval a' = Some n \<Longrightarrow>
    afInterval a = Some n \<or> (bytes_of ''interval'', BInteger n) \<in> set es"
proof (induction a es rule: announceMeaning.induct)
  case (2 a e es)
  obtain key v where e: "e = (key, v)" by fastforce
  from 2 obtain a2 where a2: "announceField a (key, v) = Some a2" "announceMeaning a2 es = Some a'" by (auto simp: e split: bind_splits)
  have "afInterval a2 = afInterval a \<or> (key = bytes_of ''interval'' \<and> (\<exists>m. v = BInteger m \<and> afInterval a2 = Some m))"
    using a2(1) by (auto simp: announceField_def split: if_splits bvalue.splits)
  then show ?case using 2 a2 e by auto
qed simp

lemma failure_entry: "announceMeaning a es = Some a' \<Longrightarrow> afFailure a' = None \<Longrightarrow>
    afFailure a = None \<and> (\<forall>v. (bytes_of ''failure reason'', v) \<notin> set es)"
proof (induction a es rule: announceMeaning.induct)
  case (2 a e es)
  obtain key v where e: "e = (key, v)" by fastforce
  from 2 obtain a2 where a2: "announceField a (key, v) = Some a2" "announceMeaning a2 es = Some a'" by (auto simp: e split: bind_splits)
  then have "afFailure a2 = None" "\<forall>v. (bytes_of ''failure reason'', v) \<notin> set es" using 2 e by auto
  moreover have "afFailure a = None \<and> key \<noteq> bytes_of ''failure reason''"
    using a2(1) \<open>afFailure a2 = None\<close> by (auto simp: announceField_def split: if_splits bvalue.splits)
  ultimately show ?case using e by auto
qed simp

lemma tracker_response_ok: "parseHTTPAnnounceResponse packet = Inr r \<Longrightarrow> response_ok r"
proof -
  assume p: "parseHTTPAnnounceResponse packet = Inr r"
  obtain d a where d: "announceLoop noFields None d = Inr (a, [])" "finishAnnounce a = Inr r"
    using p by (auto simp: parseHTTPAnnounceResponse_def split: if_splits sum.splits)
  obtain es where "announceMeaning noFields es = Some a" using announceLoop_sound [OF d(1)] by blast
  then have "listed_ok (afListed a)" using listed_ok_meaning by (fastforce simp: noFields_def listed_ok_Nil)
  then show ?thesis using finishAnnounce_ok [OF d(2)] by blast
qed

text \<open>C23: A tracker response that is accepted is at most 64 KiB and the canonical encoding of one dictionary without a failure
  reason, its interval is that of the dictionary and 1 to 2^32 - 1 seconds, and it gives at most 50 peers, all different
  and publicly routable, and at most 50 names.\<close>

theorem tracker_response_accepted:
  assumes "parseHTTPAnnounceResponse packet = Inr r"
  shows "\<exists>es n. canonical 0 (BDictionary es) \<and> packet = bencode (BDictionary es) \<and> length packet \<le> maxHTTPTrackerResponseSize \<and>
    (\<forall>v. (bytes_of ''failure reason'', v) \<notin> set es) \<and> (bytes_of ''interval'', BInteger n) \<in> set es \<and> arInterval r = n * Second \<and>
    response_ok r"
proof -
  obtain d a where d: "packet = chrD # d" "length packet \<le> maxHTTPTrackerResponseSize" "announceLoop noFields None d = Inr (a, [])"
    "finishAnnounce a = Inr r"
    using assms by (cases packet) (auto simp: parseHTTPAnnounceResponse_def takeByte_def split: if_splits sum.splits)
  obtain es where es: "entriesOk 0 None es" "d = concat (map encodeEntry es) @ [chrE]" "announceMeaning noFields es = Some a"
    using announceLoop_sound [OF d(3)] by auto
  have "listed_ok (afListed a)" using listed_ok_meaning [OF es(3)] by (simp add: noFields_def listed_ok_Nil)
  with finishAnnounce_ok [OF d(4)] obtain n where n: "response_ok r" "afFailure a = None" "afInterval a = Some n" "arInterval r = n * Second"
    by blast
  have "(bytes_of ''interval'', BInteger n) \<in> set es" using interval_entry [OF es(3) n(3)] by (simp add: noFields_def)
  moreover have "\<forall>v. (bytes_of ''failure reason'', v) \<notin> set es" using failure_entry [OF es(3) n(2)] by simp
  moreover have "canonical 0 (BDictionary es)" "packet = bencode (BDictionary es)"
    using es(1,2) d(1) by (simp_all add: entriesOk_def encodeEntry_def)
  ultimately show ?thesis using n d(2) by blast
qed

definition exampleEntries :: "(bytes \<times> bvalue) list" where
  "exampleEntries = [(bytes_of ''interval'', BInteger 60), (bytes_of ''peers'', BString [8, 8, 8, 8, 31, 144])]"

lemma parseString_encode: "depth \<le> maxBencodeDepth \<Longrightarrow> length s \<le> maxBencodeStringLength \<Longrightarrow> parseString depth (encodeString s @ rest) = Inr (s, rest)"
  using parse_encodeString [of s rest] by (simp add: parseString_def enterValue_def)

lemma parseInteger_encode:
  "depth \<le> maxBencodeDepth \<Longrightarrow> - (2 ^ 63) \<le> v \<Longrightarrow> v < 2 ^ 63 \<Longrightarrow> parseInteger depth (encodeInteger v @ rest) = Inr (v, rest)"
  using parse_encodeInteger [of v rest] by (simp add: parseInteger_def enterValue_def)

lemma announceLoop_entry:
  "announceEntry a p (encodeString key @ d) = Inr (key', a', rest) \<Longrightarrow>
    announceLoop a p (encodeString key @ d) = announceLoop a' (Some key') rest"
  using encodeString_start [of key] by (subst announceLoop.simps) auto

lemma example_response: "parseHTTPAnnounceResponse (bencode (BDictionary exampleEntries)) =
    Inr \<lparr>arInterval = 60 * Second, arPeers = [AddrPortFrom (Addr4 0x08080808) 8080], arPeerNames = []\<rparr>"
proof -
  let ?i = "bytes_of ''interval''" and ?p = "bytes_of ''peers''" and ?c = "[8, 8, 8, 8, 31, 144] :: bytes"
  let ?rest = "encodeString ?p @ encodeString ?c @ [chrE]"
  let ?a = "noFields\<lparr>afInterval := Some 60\<rparr>" and ?b = "noFields\<lparr>afInterval := Some 60, afCompact4 := ?c, afListed := (([], {}), [])\<rparr>"
  have keys: "keyValid ?i" "keyValid ?p" "keyAfter (Some ?i) ?p" "length ?i \<le> maxBencodeStringLength" "length ?p \<le> maxBencodeStringLength"
    "?i \<noteq> bytes_of ''failure reason''" "?p \<noteq> bytes_of ''failure reason''" "?p \<noteq> ?i"
    by (simp_all add: keyValid_def keyAfter_def bytes_of_def)
  have 1: "announceEntry noFields None (encodeString ?i @ encodeInteger 60 @ ?rest) = Inr (?i, ?a, ?rest)"
    using parseString_encode [OF _ keys(4), of 1] parseInteger_encode [of 1 60 ?rest] keys(1,6)
    by (simp add: announceEntry_def keyAfter_def parseAnnounceField_def)
  obtain b bs where b: "encodeString ?c @ [chrE] = b # bs" "b \<noteq> chrL"
    using encodeString_start [of ?c] by (auto simp: digitByte_def)
  have "parseString 1 (encodeString ?c @ [chrE]) = Inr (?c, [chrE])" by (rule parseString_encode) simp_all
  then have "parseHTTPPeers ?a 1 (encodeString ?c @ [chrE]) = Inr (?b, [chrE])"
    using b by (simp add: parseHTTPPeers_def)
  then have 2: "announceEntry ?a (Some ?i) ?rest = Inr (?p, ?b, [chrE])"
    using parseString_encode [OF _ keys(5), of 1] keys(2,3,7,8)
    by (simp add: announceEntry_def parseAnnounceField_def)
  have loop: "announceLoop noFields None (encodeString ?i @ encodeInteger 60 @ ?rest) = Inr (?b, [])"
    unfolding announceLoop_entry [OF 1] announceLoop_entry [OF 2] by (subst announceLoop.simps) simp
  have peers: "compactLoop False ([], {}) ?c = ([AddrPortFrom (Addr4 0x08080808) 8080], {AddrPortFrom (Addr4 0x08080808) 8080})"
  proof -
    have "usablePeer (AddrPortFrom (Addr4 0x08080808) 8080)" by code_simp
    moreover have "compactPeer False ?c = AddrPortFrom (Addr4 0x08080808) 8080" by code_simp
    ultimately show ?thesis by (subst compactLoop.simps, simp, subst compactLoop.simps, simp add: appendUniquePeer_def)
  qed
  have "compactLoop True ps [] = ps" for ps by (subst compactLoop.simps) simp
  then have "finishAnnounce ?b = Inr \<lparr>arInterval = 60 * Second, arPeers = [AddrPortFrom (Addr4 0x08080808) 8080], arPeerNames = []\<rparr>"
    using peers by (simp add: finishAnnounce_def noFields_def parseHTTPCompactPeers_def appendCompactPeers_def)
  moreover have "bencode (BDictionary exampleEntries) = chrD # encodeString ?i @ encodeInteger 60 @ ?rest"
    by (simp add: exampleEntries_def)
  moreover have "length (encodeString ?i @ encodeInteger 60 @ ?rest) < maxHTTPTrackerResponseSize"
    using length_digits [of "length ?i" 2] length_digits [of "length ?p" 2] length_digits [of "length ?c" 2] length_digits [of 60 2]
    by (simp add: encodeString_def encodeInteger_def decimal_def bytes_of_def)
  ultimately show ?thesis using loop by (simp add: parseHTTPAnnounceResponse_def takeByte_def)
qed

theorem tracker_response_accepted_witness:
  "\<exists>es n. canonical 0 (BDictionary es) \<and> bencode (BDictionary exampleEntries) = bencode (BDictionary es) \<and>
    length (bencode (BDictionary exampleEntries)) \<le> maxHTTPTrackerResponseSize \<and>
    (\<forall>v. (bytes_of ''failure reason'', v) \<notin> set es) \<and> (bytes_of ''interval'', BInteger n) \<in> set es \<and> 60 * Second = n * Second \<and>
    response_ok \<lparr>arInterval = 60 * Second, arPeers = [AddrPortFrom (Addr4 0x08080808) 8080], arPeerNames = []\<rparr>"
  using tracker_response_accepted [OF example_response] unfolding announceResponse.simps .

end
