(* ===== verification/BoundedText.thy ===== *)
theory BoundedText
  imports GoStrings NetAddr
begin

text \<open>
  Texts cut to a length: \<open>boundedText\<close>, \<open>errorSummary\<close> and \<open>combineErrors\<close> of \<open>internal/networking/portmap\<close>.
  A text is its bytes; an error is its text.
\<close>

section \<open>Bounded texts\<close>

text \<open>\<open>strings.ToValidUTF8(value, "?")\<close>: a run of bytes that are no text becomes one question mark.\<close>

function toValidUTF8 :: "bool \<Rightarrow> bytes \<Rightarrow> bytes" where
  "toValidUTF8 inRun s =
     (if s = [] then []
      else case decodeRune s of
          None \<Rightarrow> (if inRun then [] else [63]) @ toValidUTF8 True (tl s)
        | Some (r, w) \<Rightarrow> take w s @ toValidUTF8 False (drop w s))"
  by pat_completeness auto
termination
  by (relation "measure (\<lambda>(inRun, s). length s)") (auto dest!: decodeRune_width)

declare toValidUTF8.simps [simp del]

fun runeEnd :: "bytes \<Rightarrow> nat \<Rightarrow> nat" where
  "runeEnd s 0 = 0"
| "runeEnd s (Suc n) = (if \<not> RuneStart (s ! Suc n) then runeEnd s n else Suc n)"

text \<open>A control character is a single byte of the text, so the bytes are mapped one by one.\<close>

definition controlsToSpaces :: "bytes \<Rightarrow> bytes" where
  "controlsToSpaces s = map (\<lambda>b. if b < 0x20 \<or> b = 0x7f then 0x20 else b) s"

definition boundedText :: "bytes \<Rightarrow> nat \<Rightarrow> bytes" where
  "boundedText s maximum =
     (if s = [] \<or> maximum = 0 then []
      else
        let s = (if length s > maximum * 4 then take (maximum * 4) s else s);
            s = controlsToSpaces (toValidUTF8 False s)
        in if length s \<le> maximum then s
           else if maximum \<le> 3 then replicate maximum 46
           else take (runeEnd s (maximum - 3)) s @ [46, 46, 46])"

lemma length_toValidUTF8: "length (toValidUTF8 inRun s) \<le> length s"
proof (induction inRun s rule: toValidUTF8.induct)
  case (1 inRun s)
  show ?case
  proof (cases "decodeRune s")
    case None
    with 1 show ?thesis by (cases s) (auto simp: toValidUTF8.simps [of inRun])
  next
    case (Some rw)
    moreover obtain r w where "rw = (r, w)" by (cases rw)
    moreover from calculation have "1 \<le> w" "w \<le> length s" by (auto dest: decodeRune_width)
    moreover from calculation have "length (toValidUTF8 False (drop w s)) \<le> length s - w" using 1 by fastforce
    ultimately show ?thesis by (auto simp: toValidUTF8.simps [of inRun s] min_def toValidUTF8.simps [of False "[]"])
  qed
qed

lemma runeEnd_le: "runeEnd s n \<le> n"
  by (induction n) auto

lemma length_controlsToSpaces [simp]: "length (controlsToSpaces s) = length s"
  by (simp add: controlsToSpaces_def)

lemma boundedText_length: "length (boundedText s maximum) \<le> maximum"
proof -
  have "length (take (runeEnd t (maximum - 3)) t @ [46, 46, 46 :: byte]) \<le> maximum" if "\<not> maximum \<le> 3" for t
    using runeEnd_le [of t "maximum - 3"] that by simp
  note cut = this [unfolded length_append list.size]
  show ?thesis by (auto simp: boundedText_def Let_def simp del: length_take intro!: cut [simplified])
qed

text \<open>No control character is left, so a bounded text stays on its line.\<close>

definition printable :: "byte \<Rightarrow> bool" where
  "printable b \<longleftrightarrow> 0x20 \<le> b \<and> b \<noteq> 0x7f"

lemma controlsToSpaces_printable: "list_all printable (controlsToSpaces s)"
  by (auto simp: controlsToSpaces_def printable_def list_all_iff not_less)

lemma boundedText_printable: "list_all printable (boundedText s maximum)"
  using controlsToSpaces_printable [unfolded list_all_iff]
  by (auto simp: boundedText_def Let_def list_all_iff printable_def dest: in_set_takeD)

definition lineText :: "nat \<Rightarrow> bytes \<Rightarrow> bool" where
  "lineText maximum s \<longleftrightarrow> length s \<le> maximum \<and> list_all printable s"

lemma lineText_boundedText [simp, intro]: "lineText maximum (boundedText s maximum)"
  by (simp add: lineText_def boundedText_length boundedText_printable)

section \<open>Failures\<close>

definition maxErrorLength :: nat where "maxErrorLength = 512"
definition maxErrorPartLength :: nat where "maxErrorPartLength = 160"

record errorSummary =
  esParts :: "bytes list"
  esOmitted :: nat

definition noFailures :: errorSummary where
  "noFailures = \<lparr>esParts = [], esOmitted = 0\<rparr>"

definition addText :: "errorSummary \<Rightarrow> bytes \<Rightarrow> errorSummary" where
  "addText summary text =
     (if text = [] then summary
      else if length (esParts summary) \<ge> 8 then summary\<lparr>esOmitted := esOmitted summary + 1\<rparr>
      else summary\<lparr>esParts := esParts summary @ [boundedText text maxErrorPartLength]\<rparr>)"

definition addFailure :: "errorSummary \<Rightarrow> bytes \<Rightarrow> bytes option \<Rightarrow> errorSummary" where
  "addFailure summary label err =
     (case err of
        None \<Rightarrow> summary
      | Some err \<Rightarrow>
          let text = boundedText err maxErrorPartLength
          in addText summary
               (if label \<noteq> [] then boundedText (label @ bytes_of '': '' @ text) maxErrorPartLength else text))"

fun joinTexts :: "bytes \<Rightarrow> bytes list \<Rightarrow> bytes" where
  "joinTexts sep [] = []"
| "joinTexts sep [s] = s"
| "joinTexts sep (s # t # ts) = s @ sep @ joinTexts sep (t # ts)"

definition decimal :: "nat \<Rightarrow> bytes" where
  "decimal n = bytes_of (digits 10 n)"

definition decimalInt :: "int \<Rightarrow> bytes" where
  "decimalInt n = (if n < 0 then bytes_of ''-'' @ decimal (nat (- n)) else decimal (nat n))"

definition summaryErr :: "errorSummary \<Rightarrow> bytes \<Rightarrow> bytes" where
  "summaryErr summary prefix =
     (let parts = esParts summary;
          parts = (if esOmitted summary \<noteq> 0 then parts @ [decimal (esOmitted summary) @ bytes_of '' additional failures''] else parts);
          parts = (if length parts = 0 then parts @ [bytes_of ''operation failed''] else parts)
      in boundedText (prefix @ bytes_of '': '' @ joinTexts (bytes_of ''; '') parts) maxErrorLength)"

definition combineErrors :: "bytes \<Rightarrow> bytes option list \<Rightarrow> bytes" where
  "combineErrors prefix errs = summaryErr (foldl (\<lambda>summary. addFailure summary []) noFailures errs) prefix"

definition boundedError :: "bytes option \<Rightarrow> bytes" where
  "boundedError err = (case err of None \<Rightarrow> [] | Some err \<Rightarrow> boundedText err maxErrorLength)"

text \<open>A summary keeps at most eight parts, however many failures there were, and counts the others.\<close>

definition summary_ok :: "errorSummary \<Rightarrow> bool" where
  "summary_ok summary \<longleftrightarrow> length (esParts summary) \<le> 8 \<and> list_all (lineText maxErrorPartLength) (esParts summary) \<and>
     (esOmitted summary \<noteq> 0 \<longrightarrow> length (esParts summary) = 8)"

lemma summary_ok_noFailures: "summary_ok noFailures"
  by (simp add: summary_ok_def noFailures_def)

lemma summary_ok_addText: "summary_ok summary \<Longrightarrow> summary_ok (addText summary text)"
  by (auto simp: summary_ok_def addText_def)

lemma summary_ok_addFailure: "summary_ok summary \<Longrightarrow> summary_ok (addFailure summary label err)"
  by (auto simp: addFailure_def Let_def summary_ok_addText split: option.splits)

lemma lineText_summaryErr [simp]: "lineText maxErrorLength (summaryErr summary prefix)"
  by (simp add: summaryErr_def Let_def)

lemma lineText_combineErrors [simp]: "lineText maxErrorLength (combineErrors prefix errs)"
  by (simp add: combineErrors_def)

lemma lineText_boundedError [simp]: "lineText maxErrorLength (boundedError err)"
  by (auto simp: boundedError_def lineText_def list_all_iff split: option.splits
    dest: boundedText_length [THEN order_trans] intro: boundedText_length
      boundedText_printable [unfolded list_all_iff, rule_format])

end
