(* ===== verification/Tracker.thy ===== *)
theory Tracker
  imports TrackerResponse PeerDiscovery BoundedText
begin

text \<open>
  The announcers of a room, \<open>announcer.go\<close>, \<open>group.go\<close> and the announce turn of \<open>http.go\<close> in
  \<open>internal/networking/discovery/tracker\<close>: one announcer per candidate address, each with one worker per provider that
  announces, publishes the peers it is told as hints, and waits.  What the tracker answers is an argument; a provider is
  its display text and its scope.  Times of a status stay times; the code formats them.
\<close>

section \<open>Candidates and intervals\<close>

record provider =
  display :: string
  scope :: string

record AnnounceCandidate =
  acAddress :: Addr
  acPort :: uint16

definition candidateString :: "AnnounceCandidate \<Rightarrow> string" where
  "candidateString candidate =
     (if acPort candidate = 0 then []
      else if addrIsValid (acAddress candidate) then apString (AddrPortFrom (Unmap (acAddress candidate)) (acPort candidate))
      else apString (AddrPortFrom (Addr4 0) (acPort candidate)))"

definition maxResolvedAddresses :: nat where [simp]: "maxResolvedAddresses = 8"
definition providerRetryInitial :: duration where [simp]: "providerRetryInitial = 5 * Second"
definition providerRetryMaximum :: duration where [simp]: "providerRetryMaximum = 5 * Minute"
definition maxTrackerErrorLength :: nat where [simp]: "maxTrackerErrorLength = 512"
definition initialAnnounceCount :: int where [simp]: "initialAnnounceCount = 3"
definition initialAnnounceInterval :: duration where [simp]: "initialAnnounceInterval = 5 * Second"
definition maximumAnnounceInterval :: duration where [simp]: "maximumAnnounceInterval = 30 * Second"

definition effectiveAnnounceInterval :: "duration \<Rightarrow> int \<Rightarrow> duration" where
  "effectiveAnnounceInterval providerInterval announces =
     (if announces < initialAnnounceCount then initialAnnounceInterval
      else min (max providerInterval initialAnnounceInterval) maximumAnnounceInterval)"

record trackerRegistration =
  regCandidate :: AnnounceCandidate
  regPeerID :: "160 word"
  regKey :: uint32

definition registration :: "(bytes \<Rightarrow> bytes \<Rightarrow> bytes \<Rightarrow> nat \<Rightarrow> bytes) \<Rightarrow> PeerID \<Rightarrow> 160 word \<Rightarrow> provider \<Rightarrow> AnnounceCandidate \<Rightarrow> trackerRegistration" where
  "registration hkdf peerID infoHash configured candidate =
     (let info = bytes_of ''bork/tracker-registration/v2'' @ [0] @ bytes_of (scope configured);
          material = hkdf (put_be 16 peerID) (put_be 20 infoHash) info 24;
          key = get_be (seg 20 24 material)
      in \<lparr>regCandidate = candidate, regPeerID = get_be (take 20 material), regKey = (if key = 0 then 1 else key)\<rparr>)"

section \<open>Texts\<close>

definition boundedTrackerText :: "bytes \<Rightarrow> nat \<Rightarrow> bytes" where
  "boundedTrackerText s maximum =
     (if s = [] \<or> maximum = 0 then []
      else
        let s = toValidUTF8 False (if length s > maximum * 4 then take (maximum * 4) s else s)
        in if length s \<le> maximum then s else take (runeEnd s maximum) s)"

section \<open>An announcer\<close>

record ProviderStatus =
  psProvider :: string
  psCandidate :: string
  psNextAnnounce :: "time option"
  psPeerAddresses :: "string list"
  psError :: bytes

definition noStatus :: ProviderStatus where
  "noStatus = \<lparr>psProvider = [], psCandidate = [], psNextAnnounce = None, psPeerAddresses = [], psError = []\<rparr>"

record Announcer =
  anProviders :: "provider list"
  anCandidate :: AnnounceCandidate
  anStatuses :: "string \<Rightarrow> ProviderStatus option"
  anChanges :: bool

definition newAnnouncerFromProviders :: "provider list \<Rightarrow> AnnounceCandidate \<Rightarrow> Announcer" where
  "newAnnouncerFromProviders providers candidate =
     \<lparr>anProviders = providers, anCandidate = candidate, anStatuses = (\<lambda>_. None), anChanges = False\<rparr>"

definition announcerSnapshot :: "Announcer \<Rightarrow> ProviderStatus list" where
  "announcerSnapshot a =
     map (\<lambda>configured. (case anStatuses a (scope configured) of None \<Rightarrow> noStatus | Some s \<Rightarrow> s)
         \<lparr>psProvider := display configured, psCandidate := candidateString (anCandidate a)\<rparr>) (anProviders a)"

definition recordStatus :: "Announcer \<Rightarrow> provider \<Rightarrow> ProviderStatus \<Rightarrow> Announcer" where
  "recordStatus a configured s = a\<lparr>anStatuses := (anStatuses a)(scope configured \<mapsto> s), anChanges := True\<rparr>"

definition recordSuccess :: "Announcer \<Rightarrow> provider \<Rightarrow> announceResponse \<Rightarrow> duration \<Rightarrow> time \<Rightarrow> Announcer" where
  "recordSuccess a configured response interval now =
     recordStatus a configured
       (noStatus\<lparr>psNextAnnounce := Some (now + interval), psPeerAddresses := map apString (arPeers response)\<rparr>)"

definition recordFailure :: "Announcer \<Rightarrow> provider \<Rightarrow> bytes \<Rightarrow> time \<Rightarrow> Announcer" where
  "recordFailure a configured message retryAt =
     recordStatus a configured
       (noStatus\<lparr>psNextAnnounce := Some retryAt, psError := boundedTrackerText message maxTrackerErrorLength\<rparr>)"

text \<open>\<open>lookup name\<close> is what the resolver gives for a name.\<close>

fun resolveNames :: "(string \<Rightarrow> Addr list) \<Rightarrow> peerSet \<Rightarrow> httpPeer list \<Rightarrow> peerSet" where
  "resolveNames lookup ps [] = ps"
| "resolveNames lookup ps (peer # names) =
     (if length (fst ps) \<ge> maxAnnouncePeers then ps
      else resolveNames lookup
        (foldl (\<lambda>ps address. appendUniquePeer ps (AddrPortFrom (Unmap address) (hpPort peer))) ps
          (take maxResolvedAddresses (lookup (hpName peer)))) names)"

definition resolveHTTPPeerNames :: "(string \<Rightarrow> Addr list) \<Rightarrow> announceResponse \<Rightarrow> announceResponse" where
  "resolveHTTPPeerNames lookup response =
     response\<lparr>arPeers := fst (resolveNames lookup (arPeers response, set (arPeers response)) (arPeerNames response)),
       arPeerNames := []\<rparr>"

text \<open>The hints \<open>publishAndWait\<close> hands on.\<close>

definition publishedHints :: "announceResponse \<Rightarrow> duration \<Rightarrow> time \<Rightarrow> Hint list" where
  "publishedHints response interval now =
     (let expires = now + max (interval * 2) Minute
      in map (\<lambda>peer. \<lparr>hintAddress = peer, hintSource = SourceTracker, hintExpiresAt = expires\<rparr>) (arPeers response))"

text \<open>
  One turn of \<open>runHTTPTracker\<close>: the body the tracker answered (or the error of the exchange), the error of the request's
  context after the names were resolved, the number of announces before, and the time; what comes out is the hints with
  the time of the next turn.
\<close>

definition announceEvent :: "int \<Rightarrow> string" where
  "announceEvent announces = (if announces = 0 then ''started'' else [])"

definition announceTurn ::
  "(string \<Rightarrow> Addr list) \<Rightarrow> error option \<Rightarrow> Announcer \<Rightarrow> provider \<Rightarrow> bytes result \<Rightarrow> int \<Rightarrow> time \<Rightarrow>
    (Hint list \<times> time) result \<times> Announcer" where
  "announceTurn lookup requestErr a configured answer announces now =
     (case answer of
        Inl err \<Rightarrow> (Inl (wrap (''announce to '' @ display configured @ '': '') err), a)
      | Inr body \<Rightarrow>
          (case parseHTTPAnnounceResponse body of
             Inl err \<Rightarrow> (Inl (wrap (''announce to '' @ display configured @ '': '') err), a)
           | Inr parsed \<Rightarrow>
               let response = resolveHTTPPeerNames lookup parsed;
                   interval = effectiveAnnounceInterval (arInterval response) announces
               in case requestErr of
                    Some err \<Rightarrow>
                      if arPeers response = []
                      then (Inl (wrap (''announce to '' @ display configured @ '': resolve HTTP tracker peers: '') err), a)
                      else (Inr (publishedHints response interval now, now + interval), recordSuccess a configured response interval now)
                  | None \<Rightarrow>
                      (Inr (publishedHints response interval now, now + interval), recordSuccess a configured response interval now)))"

text \<open>One turn of \<open>runProvider\<close> after a failure: the delay before the next try and the delay after it.\<close>

definition providerFailed :: "Announcer \<Rightarrow> provider \<Rightarrow> bytes \<Rightarrow> bool \<Rightarrow> duration \<Rightarrow> time \<Rightarrow> duration \<times> duration \<times> Announcer" where
  "providerFailed a configured message progressed retry now =
     (let retry = (if progressed then providerRetryInitial else retry)
      in (retry, min (retry * 2) providerRetryMaximum, recordFailure a configured message (now + retry)))"

section \<open>The group\<close>

definition MaxAnnounceCandidates :: nat where [simp]: "MaxAnnounceCandidates = 4"

record Group =
  grProviders :: "provider list"
  grCandidates :: "AnnounceCandidate list"
  grRevision :: uint64
  grChildren :: "AnnounceCandidate \<Rightarrow> Announcer option"
  grUpdates :: bool
  grChanges :: bool

definition NewGroup :: "provider list \<Rightarrow> PeerID \<Rightarrow> Group result" where
  "NewGroup providers peerID =
     (if length providers > 0 \<and> IsZero peerID then fail ''tracker peer ID is required''
      else Inr \<lparr>grProviders = providers, grCandidates = [], grRevision = 0, grChildren = (\<lambda>_. None), grUpdates = False,
        grChanges = False\<rparr>)"

definition UpdateCandidates :: "Group \<Rightarrow> AnnounceCandidate list \<Rightarrow> Group" where
  "UpdateCandidates g cs =
     (if grCandidates g = cs then g else g\<lparr>grCandidates := cs, grRevision := grRevision g + 1, grUpdates := True\<rparr>)"

definition groupSnapshot :: "Group \<Rightarrow> ProviderStatus list" where
  "groupSnapshot g =
     concat (map (\<lambda>candidate.
         (case grChildren g candidate of
            Some child \<Rightarrow> announcerSnapshot child
          | None \<Rightarrow> map (\<lambda>configured. noStatus\<lparr>psProvider := display configured, psCandidate := candidateString candidate\<rparr>)
              (grProviders g)))
       (grCandidates g))"

definition candidateSnapshot :: "Group \<Rightarrow> AnnounceCandidate list \<times> uint64" where
  "candidateSnapshot g = (grCandidates g, grRevision g)"

definition signalChange :: "Group \<Rightarrow> Group" where
  "signalChange g = g\<lparr>grChanges := True\<rparr>"

definition setChildren :: "Group \<Rightarrow> (AnnounceCandidate \<Rightarrow> Announcer option) \<Rightarrow> Group" where
  "setChildren g children = signalChange (g\<lparr>grChildren := children\<rparr>)"

text \<open>The announcers \<open>runCandidates\<close> starts, and their end.\<close>

definition startCandidates :: "Group \<Rightarrow> AnnounceCandidate list \<Rightarrow> Group" where
  "startCandidates g cs =
     setChildren g (\<lambda>candidate. if candidate \<in> set cs then Some (newAnnouncerFromProviders (grProviders g) candidate) else None)"

definition stopCandidates :: "Group \<Rightarrow> Group" where
  "stopCandidates g = setChildren g (\<lambda>_. None)"

text \<open>The turn of \<open>Run\<close> that takes the candidates up: it waits without any, and starts over when they changed meanwhile.\<close>

definition takeCandidates :: "Group \<Rightarrow> uint64 \<Rightarrow> AnnounceCandidate list \<Rightarrow> (AnnounceCandidate list \<times> Group) option" where
  "takeCandidates g revision cs =
     (if length cs = 0 \<or> length (grProviders g) = 0 then None
      else
        let g = g\<lparr>grUpdates := False\<rparr>
        in if grRevision g \<noteq> revision then Some ([], g) else Some (cs, startCandidates g cs))"

section \<open>The hints of a tracker\<close>

lemma resolveNames_ok: "peerSet_ok ps \<Longrightarrow> peerSet_ok (resolveNames lookup ps names)"
proof (induction lookup ps names rule: resolveNames.induct)
  case (2 lookup ps peer names)
  have "peerSet_ok ps \<Longrightarrow>
      peerSet_ok (foldl (\<lambda>ps address. appendUniquePeer ps (AddrPortFrom (Unmap address) (hpPort peer))) ps as)" for ps as
    by (induction as arbitrary: ps) (simp_all only: foldl.simps peerSet_ok_append)
  with 2 show ?case by simp
qed simp

lemma resolve_ok: "response_ok r \<Longrightarrow> response_ok (resolveHTTPPeerNames lookup r)"
  using resolveNames_ok [of "(arPeers r, set (arPeers r))" lookup "arPeerNames r"]
  by (simp add: response_ok_def resolveHTTPPeerNames_def peerSet_ok_def)

definition trackerHint_ok :: "time \<Rightarrow> time \<Rightarrow> Hint \<Rightarrow> bool" where
  "trackerHint_ok now next_turn hint \<longleftrightarrow> hintSource hint = SourceTracker \<and> usablePeer (hintAddress hint) \<and>
     now + Minute \<le> hintExpiresAt hint \<and> next_turn + (next_turn - now) \<le> hintExpiresAt hint"

text \<open>Every turn that succeeds publishes at most 50 hints, different and publicly routable, that live at least a minute and
  outlast the next announce by another interval; the next turn comes after 5 to 30 seconds.\<close>

theorem tracker_turn_hints:
  assumes "announceTurn lookup requestErr a configured answer announces now = (Inr (hints, next_turn), a')"
  shows "length hints \<le> maxAnnouncePeers \<and> distinct (map hintAddress hints) \<and> list_all (trackerHint_ok now next_turn) hints \<and>
    now + 5 * Second \<le> next_turn \<and> next_turn \<le> now + 30 * Second"
proof -
  obtain body parsed where p: "answer = Inr body" "parseHTTPAnnounceResponse body = Inr parsed"
    using assms by (auto simp: announceTurn_def split: sum.splits)
  define r where "r = resolveHTTPPeerNames lookup parsed"
  define interval where "interval = effectiveAnnounceInterval (arInterval r) announces"
  have ok: "response_ok r" using tracker_response_ok [OF p(2)] resolve_ok by (simp add: r_def)
  have eq: "hints = publishedHints r interval now" "next_turn = now + interval"
    using assms p by (auto simp: announceTurn_def Let_def r_def interval_def split: option.splits if_splits)
  have i: "5 * Second \<le> interval" "interval \<le> 30 * Second"
    by (auto simp: interval_def effectiveAnnounceInterval_def)
  have "map hintAddress hints = arPeers r" by (simp add: eq publishedHints_def Let_def comp_def)
  moreover have "list_all (trackerHint_ok now next_turn) hints"
    using ok i by (auto simp: list_all_iff eq publishedHints_def Let_def trackerHint_ok_def response_ok_def)
  moreover have "length hints = length (arPeers r)" by (simp add: eq publishedHints_def Let_def)
  ultimately show ?thesis using ok i by (simp add: response_ok_def eq)
qed

definition exampleProvider :: provider where
  "exampleProvider = \<lparr>display = ''https://tracker.example'', scope = ''https://tracker.example''\<rparr>"

definition exampleAnnouncer :: Announcer where
  "exampleAnnouncer = newAnnouncerFromProviders [exampleProvider] \<lparr>acAddress = AddrZero, acPort = 9\<rparr>"

definition exampleHint :: Hint where
  "exampleHint = \<lparr>hintAddress = AddrPortFrom (Addr4 0x08080808) 8080, hintSource = SourceTracker, hintExpiresAt = Minute\<rparr>"

theorem tracker_turn_hints_witness:
  "length [exampleHint] \<le> maxAnnouncePeers \<and> distinct (map hintAddress [exampleHint]) \<and> list_all (trackerHint_ok 0 (5 * Second)) [exampleHint] \<and>
    0 + 5 * Second \<le> 5 * Second \<and> 5 * Second \<le> 0 + 30 * Second"
proof -
  have "announceTurn (\<lambda>_. []) None exampleAnnouncer exampleProvider (Inr (bencode (BDictionary exampleEntries))) 0 0 =
      (Inr ([exampleHint], 5 * Second), snd (announceTurn (\<lambda>_. []) None exampleAnnouncer exampleProvider (Inr (bencode (BDictionary exampleEntries))) 0 0))"
    by (simp add: announceTurn_def example_response resolveHTTPPeerNames_def effectiveAnnounceInterval_def publishedHints_def
      exampleHint_def del: bencode.simps)
  then show ?thesis by (rule tracker_turn_hints)
qed

end
