(* ===== verification/Effects.thy ===== *)
theory Effects
  imports Prelude "HOL-Library.State_Monad"
begin

text \<open>
  Operations that talk to the outside: a computation over the trace of what happened so far, newest first.  What the outside
  answers next is a function of that trace, so a computation is a function of the answers; nothing is assumed of them.
  \<open>wp\<close> is the weakest precondition of a computation, and the rules of \<open>wp_intros\<close> walk through one, making every answer arbitrary.
\<close>

section \<open>Asking\<close>

type_synonym ('e, 'a) io = "('e list, 'a) state"

definition ask :: "('e list \<Rightarrow> 'a) \<Rightarrow> ('a \<Rightarrow> 'e) \<Rightarrow> ('e, 'a) io" where
  "ask answer event = State (\<lambda>tr. let a = answer tr in (a, event a # tr))"

lemma run_ask [simp]: "run_state (ask answer event) tr = (answer tr, event (answer tr) # tr)"
  by (simp add: ask_def Let_def)

abbreviation pass :: "'a \<Rightarrow> ('s, 'a) state" where
  "pass \<equiv> State_Monad.return"

section \<open>Weakest preconditions\<close>

definition wp :: "('s, 'a) state \<Rightarrow> ('a \<Rightarrow> 's \<Rightarrow> bool) \<Rightarrow> 's \<Rightarrow> bool" where
  "wp m Q s \<longleftrightarrow> (case run_state m s of (a, s') \<Rightarrow> Q a s')"

named_theorems wp_intros \<open>introduction rules of weakest preconditions\<close>

lemma wp_bind [wp_intros]: "wp m (\<lambda>a. wp (f a) Q) s \<Longrightarrow> wp (m \<bind> f) Q s"
  by (simp add: wp_def split: prod.splits)

lemma wp_pass [wp_intros]: "Q a s \<Longrightarrow> wp (pass a) Q s"
  by (simp add: wp_def)

lemma wp_ask [wp_intros]: "(\<And>a. Q a (event a # tr)) \<Longrightarrow> wp (ask answer event) Q tr"
  by (simp add: wp_def)

lemma wp_if [wp_intros]: "(b \<Longrightarrow> wp m Q s) \<Longrightarrow> (\<not> b \<Longrightarrow> wp n Q s) \<Longrightarrow> wp (if b then m else n) Q s"
  by simp

lemma wp_option [wp_intros]:
  "(x = None \<Longrightarrow> wp m Q s) \<Longrightarrow> (\<And>y. x = Some y \<Longrightarrow> wp (f y) Q s) \<Longrightarrow> wp (case x of None \<Rightarrow> m | Some y \<Rightarrow> f y) Q s"
  by (cases x) simp_all

lemma wp_sum [wp_intros]:
  "(\<And>y. x = Inl y \<Longrightarrow> wp (f y) Q s) \<Longrightarrow> (\<And>y. x = Inr y \<Longrightarrow> wp (g y) Q s) \<Longrightarrow> wp (case x of Inl y \<Rightarrow> f y | Inr y \<Rightarrow> g y) Q s"
  by (cases x) simp_all

lemma wp_prod [wp_intros]: "(\<And>y z. x = (y, z) \<Longrightarrow> wp (f y z) Q s) \<Longrightarrow> wp (case x of (y, z) \<Rightarrow> f y z) Q s"
  by (cases x) simp

lemma wp_let [wp_intros]: "(\<And>x. x = e \<Longrightarrow> wp (f x) Q s) \<Longrightarrow> wp (let x = e in f x) Q s"
  by simp

lemma wp_mono: "wp m Q s \<Longrightarrow> (\<And>a s'. Q a s' \<Longrightarrow> R a s') \<Longrightarrow> wp m R s"
  by (auto simp: wp_def split: prod.splits)

lemma wp_conj: "wp m Q s \<Longrightarrow> wp m R s \<Longrightarrow> wp m (\<lambda>a s'. Q a s' \<and> R a s') s"
  by (auto simp: wp_def split: prod.splits)

lemma wp_run: "wp m Q s \<Longrightarrow> run_state m s = (a, s') \<Longrightarrow> Q a s'"
  by (simp add: wp_def)

section \<open>What happened\<close>

text \<open>A later trace, and a fact about a trace that stays once it holds.\<close>

definition later :: "'e list \<Rightarrow> 'e list \<Rightarrow> bool" where
  "later tr tr' \<longleftrightarrow> (\<exists>es. tr' = es @ tr)"

lemma later_refl [simp, intro]: "later tr tr"
  by (simp add: later_def)

lemma later_Cons [simp, intro]: "later tr tr' \<Longrightarrow> later tr (e # tr')"
  by (auto simp: later_def)

lemma later_trans [trans]: "later tr tr' \<Longrightarrow> later tr' tr'' \<Longrightarrow> later tr tr''"
  by (auto simp: later_def)

definition happened :: "'e list \<Rightarrow> 'e list \<Rightarrow> bool" where
  "happened es tr \<longleftrightarrow> (\<exists>before. later (es @ before) tr)"

lemma happened_later: "happened es tr \<Longrightarrow> later tr tr' \<Longrightarrow> happened es tr'"
  using later_trans by (auto simp: happened_def)

lemma happened_now [simp, intro]: "happened es (es @ tr)"
  by (auto simp: happened_def)

lemma happened_Cons: "happened es tr \<Longrightarrow> happened es (e # tr)"
  by (auto simp: happened_def)

text \<open>A property of every event together with what came before it.\<close>

fun everyEvent :: "('e \<Rightarrow> 'e list \<Rightarrow> bool) \<Rightarrow> 'e list \<Rightarrow> bool" where
  "everyEvent P [] = True"
| "everyEvent P (e # tr) = (P e tr \<and> everyEvent P tr)"

lemma everyEvent_later: "everyEvent P (es @ tr) \<Longrightarrow> everyEvent P tr"
  by (induction es) auto

lemma everyEventD: "everyEvent P (es @ e # tr) \<Longrightarrow> P e tr"
  by (induction es) auto

lemma everyEvent_iff: "everyEvent P tr \<longleftrightarrow> (\<forall>es e before. tr = es @ e # before \<longrightarrow> P e before)"
proof (induction tr)
  case (Cons e tr)
  then show ?case by (auto simp: Cons_eq_append_conv)
qed simp

end
