(* ===== verification/PortMap.thy ===== *)
theory PortMap
  imports BoundedText AddrText Effects
begin

text \<open>
  What the mappers of \<open>internal/networking/portmap\<close> share, the second half of \<open>portmap.go\<close>: mappings and the states that
  publish them, leases and delays, the addresses taken for public, ports and tokens from the random source, and the turns of
  a mapper that the clock, the context, the states channel and the wait decide.
\<close>

section \<open>Mappings and states\<close>

definition Hour :: duration where [simp]: "Hour = 60 * Minute"
definition requestedLease :: duration where [simp]: "requestedLease = Hour"
definition defaultRetryInitial :: duration where [simp]: "defaultRetryInitial = 2 * Second"
definition defaultRetryMaximum :: duration where [simp]: "defaultRetryMaximum = Minute"
definition discoveryTimeout :: duration where [simp]: "discoveryTimeout = 8 * Second"
definition operationTimeout :: duration where [simp]: "operationTimeout = 8 * Second"
definition cleanupTimeout :: duration where [simp]: "cleanupTimeout = 3 * Second"
definition fallbackPortAttempts :: nat where [simp]: "fallbackPortAttempts = 4"
definition highPortBase :: uint16 where [simp]: "highPortBase = 49152"
definition maxProviderLength :: nat where "maxProviderLength = 96"

record Mapping =
  mpExternal :: AddrPort
  mpProvider :: bytes
  mpExpiresAt :: time

record State =
  stMapping :: "Mapping option"
  stError :: bytes
  stRetryAfter :: "time option"

definition errorState :: "bytes \<Rightarrow> State" where
  "errorState message = \<lparr>stMapping = None, stError = message, stRetryAfter = None\<rparr>"

record mapperTiming =
  tmLease :: duration
  tmRetryInitial :: duration
  tmRetryMaximum :: duration
  tmDiscovery :: duration
  tmOperation :: duration
  tmCleanup :: duration

definition defaultMapperTiming :: mapperTiming where
  "defaultMapperTiming = \<lparr>tmLease = requestedLease, tmRetryInitial = defaultRetryInitial, tmRetryMaximum = defaultRetryMaximum,
     tmDiscovery = discoveryTimeout, tmOperation = operationTimeout, tmCleanup = cleanupTimeout\<rparr>"

definition normalizeTiming :: "mapperTiming \<Rightarrow> mapperTiming" where
  "normalizeTiming t =
     (let t = (if tmLease t < Second then t\<lparr>tmLease := requestedLease\<rparr> else t);
          t = (if tmRetryInitial t \<le> 0 then t\<lparr>tmRetryInitial := defaultRetryInitial\<rparr> else t);
          t = (if tmRetryMaximum t < tmRetryInitial t then t\<lparr>tmRetryMaximum := tmRetryInitial t\<rparr> else t);
          t = (if tmDiscovery t \<le> 0 then t\<lparr>tmDiscovery := discoveryTimeout\<rparr> else t);
          t = (if tmOperation t \<le> 0 then t\<lparr>tmOperation := operationTimeout\<rparr> else t)
      in if tmCleanup t \<le> 0 then t\<lparr>tmCleanup := cleanupTimeout\<rparr> else t)"

definition nextRetry :: "duration \<Rightarrow> duration \<Rightarrow> duration" where
  "nextRetry current maximum = (if current \<ge> maximum div 2 then maximum else current * 2)"

definition conservativeLease :: "uint32 \<Rightarrow> uint32 \<Rightarrow> uint32" where
  "conservativeLease requested reported = (if reported \<noteq> 0 \<and> reported < requested then reported else requested)"

definition leaseSeconds :: "duration \<Rightarrow> uint32" where
  "leaseSeconds d = (let seconds = d div Second in if seconds > 4294967295 then 4294967295 else word_of_int seconds)"

definition leaseEnd :: "time \<Rightarrow> uint32 \<Rightarrow> time" where
  "leaseEnd started lease = started + uint lease * Second"

definition mappingValidAt :: "Mapping \<Rightarrow> time \<Rightarrow> bool" where
  "mappingValidAt mapping now \<longleftrightarrow> now < mpExpiresAt mapping"

definition activeMappingState :: "Mapping \<Rightarrow> bool \<Rightarrow> bytes \<Rightarrow> time \<Rightarrow> State" where
  "activeMappingState mapping advertised message now =
     (if advertised \<and> mappingValidAt mapping now then (errorState message)\<lparr>stMapping := Some mapping\<rparr> else errorState message)"

text \<open>\<open>-lease * 3 / 5\<close> on durations; Go rounds towards zero, and three times whole seconds are divisible by five.\<close>

definition mappingRefreshDelay :: "Mapping \<Rightarrow> uint32 \<Rightarrow> time \<Rightarrow> duration" where
  "mappingRefreshDelay mapping lease now =
     (let renewAt = mpExpiresAt mapping - uint lease * Second * 3 div 5
      in if renewAt - now > 0 then renewAt - now else Millisecond)"

lemma conservativeLease_le: "conservativeLease requested reported \<le> requested"
  by (auto simp: conservativeLease_def)

lemma leaseEnd_mono: "lease \<le> lease' \<Longrightarrow> leaseEnd started lease \<le> leaseEnd started lease'"
  by (simp add: leaseEnd_def word_le_def)

lemma nextRetry_le: "current \<le> maximum \<Longrightarrow> nextRetry current maximum \<le> maximum"
  by (auto simp: nextRetry_def)

lemma nextRetry_ge: "0 < current \<Longrightarrow> current \<le> maximum \<Longrightarrow> current \<le> nextRetry current maximum"
  by (auto simp: nextRetry_def)

lemma normalizeTiming_ok:
  "0 < tmRetryInitial (normalizeTiming t) \<and> tmRetryInitial (normalizeTiming t) \<le> tmRetryMaximum (normalizeTiming t) \<and>
   Second \<le> tmLease (normalizeTiming t)"
  by (auto simp: normalizeTiming_def Let_def)

section \<open>Addresses\<close>

definition AddrFromSlice :: "bytes \<Rightarrow> Addr option" where
  "AddrFromSlice ip =
     (if length ip = 4 then Some (Addr4 (get_be ip)) else if length ip = 16 then Some (Addr6 (get_be ip) []) else None)"

definition nonPublicIPv4Prefixes :: "(uint32 \<times> nat) list" where
  "nonPublicIPv4Prefixes =
     [(0x00000000, 8), (0x0A000000, 8), (0x64400000, 10), (0x7F000000, 8), (0xA9FE0000, 16), (0xAC100000, 12), (0xC0000000, 24),
      (0xC0000200, 24), (0xC0586300, 24), (0xC0A80000, 16), (0xC6120000, 15), (0xC6336400, 24), (0xCB007100, 24),
      (0xE0000000, 4), (0xF0000000, 4)]"

definition prefixContains :: "uint32 \<times> nat \<Rightarrow> uint32 \<Rightarrow> bool" where
  "prefixContains prefix w \<longleftrightarrow> drop_bit (32 - snd prefix) w = drop_bit (32 - snd prefix) (fst prefix)"

definition publiclyRoutableIPv4 :: "Addr \<Rightarrow> bool" where
  "publiclyRoutableIPv4 address =
     (let address = Unmap address
      in if \<not> Is4 address \<or> \<not> IsGlobalUnicast address then False
         else case address of
             Addr4 w \<Rightarrow> list_all (\<lambda>prefix. \<not> prefixContains prefix w) nonPublicIPv4Prefixes
           | _ \<Rightarrow> False)"

definition validLocalAddress :: "bytes \<Rightarrow> bytes + Addr" where
  "validLocalAddress ip =
     (case AddrFromSlice ip of
        None \<Rightarrow> Inl (bytes_of ''router has no usable local address'')
      | Some address \<Rightarrow>
          let address = Unmap address
          in if \<not> Is4 address \<or> \<not> IsGlobalUnicast address then Inl (bytes_of ''router local address is not usable IPv4'')
             else Inr address)"

definition safeProvider :: "bytes \<Rightarrow> bytes" where
  "safeProvider provider =
     (let provider = boundedText provider maxProviderLength in if provider = [] then bytes_of ''UPnP IGD'' else provider)"

text \<open>The numbers behind the prefixes: which first bytes a public address cannot have.\<close>

lemma publiclyRoutableIPv4_not_private:
  assumes "publiclyRoutableIPv4 a"
  shows "Is4 (Unmap a) \<and> \<not> IsPrivate a \<and> \<not> IsLoopback a \<and> \<not> IsLinkLocalUnicast a \<and> \<not> IsMulticast a"
proof -
  obtain w where u: "Unmap a = Addr4 w"
    using assms by (cases "Unmap a") (auto simp: publiclyRoutableIPv4_def Let_def)
  have g: "IsGlobalUnicast (Addr4 w)" "list_all (\<lambda>prefix. \<not> prefixContains prefix w) nonPublicIPv4Prefixes"
    using assms u by (auto simp: publiclyRoutableIPv4_def Let_def split: if_splits)
  have "\<not> IsPrivate (Addr4 w)"
    using g(2) by (simp add: IsPrivate_def nonPublicIPv4Prefixes_def prefixContains_def)
  moreover have "\<not> IsLoopback (Addr4 w)" "\<not> IsLinkLocalUnicast (Addr4 w)" "\<not> IsMulticast (Addr4 w)"
    using g(1) by (simp_all add: IsGlobalUnicast_def)
  ultimately show ?thesis by (metis u Is4.simps(1) Unmap_tests)
qed

lemma lineText_safeProvider: "lineText maxProviderLength (safeProvider provider)"
  by (auto simp: safeProvider_def Let_def) (simp add: lineText_def bytes_of_def printable_def maxProviderLength_def)

section \<open>What is outside\<close>

text \<open>
  Every mapper reads the clock and the error of its context, takes random bytes (a missing source answers with its error),
  sends states to its caller, which its context may cut short, and waits.  What its gateway is asked comes with each mapper.
\<close>

datatype 'c mapperEvent =
    Clock time
  | ContextErr "bytes option"
  | RandomRead nat "bytes + bytes"
  | Published State bool
  | Waited duration bool
  | Called 'c

record 'c host =
  hostNow :: "'c mapperEvent list \<Rightarrow> time"
  hostErr :: "'c mapperEvent list \<Rightarrow> bytes option"
  hostRandom :: "'c mapperEvent list \<Rightarrow> nat \<Rightarrow> bytes + bytes"
  hostAccepts :: "'c mapperEvent list \<Rightarrow> State \<Rightarrow> bool"
  hostWaits :: "'c mapperEvent list \<Rightarrow> duration \<Rightarrow> bool"

type_synonym ('c, 'a) mapperIO = "('c mapperEvent, 'a) io"

definition clock :: "('c, 'm) host_scheme \<Rightarrow> ('c, time) mapperIO" where
  "clock h = ask (hostNow h) Clock"

definition ctxErr :: "('c, 'm) host_scheme \<Rightarrow> ('c, bytes option) mapperIO" where
  "ctxErr h = ask (hostErr h) ContextErr"

definition readFull :: "('c, 'm) host_scheme \<Rightarrow> nat \<Rightarrow> ('c, bytes + bytes) mapperIO" where
  "readFull h n = ask (\<lambda>tr. hostRandom h tr n) (RandomRead n)"

definition publishState :: "('c, 'm) host_scheme \<Rightarrow> State \<Rightarrow> ('c, bool) mapperIO" where
  "publishState h st =
     (let st = st\<lparr>stError := boundedText (stError st) maxErrorLength\<rparr> in ask (\<lambda>tr. hostAccepts h tr st) (Published st))"

definition waitContext :: "('c, 'm) host_scheme \<Rightarrow> duration \<Rightarrow> ('c, bool) mapperIO" where
  "waitContext h d = (let d = (if d \<le> 0 then Millisecond else d) in ask (\<lambda>tr. hostWaits h tr d) (Waited d))"

lemma wp_clock [wp_intros]: "(\<And>t. Q t (Clock t # tr)) \<Longrightarrow> wp (clock h) Q tr"
  by (simp add: clock_def wp_ask)

lemma wp_ctxErr [wp_intros]: "(\<And>e. Q e (ContextErr e # tr)) \<Longrightarrow> wp (ctxErr h) Q tr"
  by (simp add: ctxErr_def wp_ask)

lemma wp_ctxErr_iff: "wp (ctxErr h \<bind> f) Q tr \<longleftrightarrow> wp (f (hostErr h tr)) Q (ContextErr (hostErr h tr) # tr)"
  by (simp add: ctxErr_def wp_def)

lemma wp_readFull [wp_intros]: "(\<And>r. Q r (RandomRead n r # tr)) \<Longrightarrow> wp (readFull h n) Q tr"
  by (simp add: readFull_def wp_ask)

lemma wp_publishState [wp_intros]:
  "(\<And>b st'. st' = st\<lparr>stError := boundedText (stError st) maxErrorLength\<rparr> \<Longrightarrow> Q b (Published st' b # tr)) \<Longrightarrow>
    wp (publishState h st) Q tr"
  by (simp add: publishState_def wp_ask Let_def)

lemma wp_waitContext [wp_intros]: "(\<And>b d. 0 < d \<Longrightarrow> Q b (Waited d b # tr)) \<Longrightarrow> wp (waitContext h d') Q tr"
  by (auto simp: waitContext_def Let_def intro!: wp_ask)

section \<open>Random ports and tokens\<close>

definition mappingTokenBytes :: nat where "mappingTokenBytes = 16"

definition randomMappingDescription :: "('c, 'm) host_scheme \<Rightarrow> ('c, bytes + string) mapperIO" where
  "randomMappingDescription h = do {
     token \<leftarrow> readFull h mappingTokenBytes;
     pass (map_sum (\<lambda>err. err) (\<lambda>token. ''Bork-'' @ hexBytes token) token)
   }"

definition randomHighPort :: "('c, 'm) host_scheme \<Rightarrow> ('c, bytes + uint16) mapperIO" where
  "randomHighPort h = do {
     bs \<leftarrow> readFull h 2;
     pass (map_sum (\<lambda>err. err) (\<lambda>bs. highPortBase + (get_be bs AND 0x3fff)) bs)
   }"

fun nextRandomPortLoop :: "nat \<Rightarrow> ('c, 'm) host_scheme \<Rightarrow> uint16 list \<Rightarrow> ('c, bytes + uint16) mapperIO" where
  "nextRandomPortLoop 0 h used = pass (Inl (bytes_of ''random source returned duplicate fallback ports''))"
| "nextRandomPortLoop (Suc n) h used = do {
     port \<leftarrow> randomHighPort h;
     (case port of
        Inl err \<Rightarrow> pass (Inl err)
      | Inr port \<Rightarrow> if port \<notin> set used then pass (Inr port) else nextRandomPortLoop n h used)
   }"

definition nextRandomPort :: "('c, 'm) host_scheme \<Rightarrow> uint16 list \<Rightarrow> ('c, bytes + uint16) mapperIO" where
  "nextRandomPort = nextRandomPortLoop fallbackPortAttempts"

text \<open>A fallback port is a new one of the dynamic range.\<close>

lemma highPort_ge: "highPortBase \<le> highPortBase + (w AND 0x3fff)"
proof -
  have "w AND 0x3fff \<le> 0x3fff" by (rule word_and_le1)
  then have "unat (w AND 0x3fff) \<le> 0x3fff" by (simp add: word_le_nat_alt)
  then show ?thesis by (simp add: word_le_nat_alt unat_word_ariths)
qed

definition keeps :: "('c mapperEvent \<Rightarrow> 'c mapperEvent list \<Rightarrow> bool) \<Rightarrow> 'c mapperEvent list \<Rightarrow> 'c mapperEvent list \<Rightarrow> bool" where
  "keeps P tr tr' \<longleftrightarrow> later tr tr' \<and> (everyEvent P tr \<longrightarrow> everyEvent P tr')"

lemma keeps_refl [simp, intro]: "keeps P tr tr"
  by (simp add: keeps_def)

lemma keeps_Cons: "keeps P tr tr' \<Longrightarrow> P e tr' \<Longrightarrow> keeps P tr (e # tr')"
  by (simp add: keeps_def)

lemma keeps_trans [trans]: "keeps P tr tr' \<Longrightarrow> keeps P tr' tr'' \<Longrightarrow> keeps P tr tr''"
  by (auto simp: keeps_def intro: later_trans)

lemma keeps_length: "keeps P tr tr' \<Longrightarrow> length tr \<le> length tr'"
  by (auto simp: keeps_def later_def)

lemma wp_nextRandomPortLoop:
  assumes "\<And>n r tr. P (RandomRead n r) tr"
  shows "keeps P tr0 tr \<Longrightarrow> wp (nextRandomPortLoop n h used) (\<lambda>r tr'. keeps P tr0 tr' \<and>
    (\<forall>port. r = Inr port \<longrightarrow> port \<notin> set used \<and> highPortBase \<le> port)) tr"
proof (induction n arbitrary: tr)
  case (Suc n)
  show ?case unfolding nextRandomPortLoop.simps randomHighPort_def
    by (intro wp_intros Suc.IH) (use Suc.prems assms highPort_ge in \<open>auto intro!: keeps_Cons simp: map_sum_def split: sum.splits\<close>)
qed (auto intro!: wp_intros)

end
