(* ===== verification/Mapper.thy ===== *)
theory Mapper
  imports PortMap
begin

text \<open>
  The loop \<open>UPnP.Run\<close> and \<open>NATPMP.Run\<close> share, over the operations of the protocol: drop a mapping that has expired,
  establish one or refresh the own one, publish it or the failure, wait.  The contract of those operations is the locale
  \<open>mapper\<close>: what they do keeps a property of the trace, and the mapping they hand out is vouched for.
\<close>

section \<open>The loop\<close>

record ('c, 'o) mapperOps =
  opMapping :: "'o \<Rightarrow> Mapping"
  opAdvertised :: "'o \<Rightarrow> bool"
  opLease :: "'o \<Rightarrow> uint32"
  opExpired :: bytes
  opCleanup :: "'o \<Rightarrow> ('c, unit) mapperIO"
  opEstablish :: "('c, 'o option \<times> bytes option) mapperIO"
  opRefresh :: "'o \<Rightarrow> ('c, 'o option \<times> bytes option) mapperIO"

record 'o loopState =
  lsOwned :: "'o option"
  lsRetry :: duration
  lsFailure :: bytes

datatype 'o turn = Continue "'o loopState" | Stop "'o option" | Panic

definition dropExpired :: "('c, 'm) host_scheme \<Rightarrow> ('c, 'o) mapperOps \<Rightarrow> 'o option \<Rightarrow> ('c, 'o option \<times> bool) mapperIO" where
  "dropExpired h ops owned =
     (case owned of
        None \<Rightarrow> pass (None, False)
      | Some mine \<Rightarrow> do {
          now \<leftarrow> clock h;
          if mappingValidAt (opMapping ops mine) now then pass (Some mine, False)
          else do { _ \<leftarrow> opCleanup ops mine; pass (None, True) }
        })"

definition announceMapping ::
  "('c, 'm) host_scheme \<Rightarrow> ('c, 'o) mapperOps \<Rightarrow> mapperTiming \<Rightarrow> 'o option \<Rightarrow> ('c, 'o turn) mapperIO" where
  "announceMapping h ops timing owned =
     (case owned of
        None \<Rightarrow> pass Panic
      | Some mine \<Rightarrow> do {
          now \<leftarrow> clock h;
          accepted \<leftarrow> publishState h (activeMappingState (opMapping ops mine) (opAdvertised ops mine) [] now);
          if \<not> accepted then pass (Stop owned)
          else do {
            now \<leftarrow> clock h;
            waited \<leftarrow> waitContext h (mappingRefreshDelay (opMapping ops mine) (opLease ops mine) now);
            pass (if waited then Continue \<lparr>lsOwned = owned, lsRetry = tmRetryInitial timing, lsFailure = []\<rparr> else Stop owned)
          }
        })"

definition reportFailure ::
  "('c, 'm) host_scheme \<Rightarrow> ('c, 'o) mapperOps \<Rightarrow> mapperTiming \<Rightarrow> duration \<Rightarrow> 'o option \<Rightarrow> bytes \<Rightarrow> ('c, 'o turn) mapperIO" where
  "reportFailure h ops timing retry owned attemptErr = do {
     let lastFailure = boundedError (Some attemptErr);
     now \<leftarrow> clock h;
     owned \<leftarrow>
       (case owned of
          None \<Rightarrow> pass None
        | Some mine \<Rightarrow>
            if mappingValidAt (opMapping ops mine) now then pass owned
            else do { _ \<leftarrow> opCleanup ops mine; pass None });
     accepted \<leftarrow> publishState h
       (case owned of
          None \<Rightarrow> errorState lastFailure
        | Some mine \<Rightarrow> activeMappingState (opMapping ops mine) (opAdvertised ops mine) lastFailure now);
     if \<not> accepted then pass (Stop owned)
     else do {
       let delay = (case owned of None \<Rightarrow> retry | Some mine \<Rightarrow> min (mpExpiresAt (opMapping ops mine) - now) retry);
       waited \<leftarrow> waitContext h delay;
       pass (if waited
         then Continue \<lparr>lsOwned = owned, lsRetry = nextRetry retry (tmRetryMaximum timing), lsFailure = lastFailure\<rparr>
         else Stop owned)
     }
   }"

definition attemptMapping :: "('c, 'o) mapperOps \<Rightarrow> 'o option \<Rightarrow> ('c, 'o option \<times> bytes option) mapperIO" where
  "attemptMapping ops owned = (case owned of None \<Rightarrow> opEstablish ops | Some mine \<Rightarrow> opRefresh ops mine)"

definition mapperTurn ::
  "('c, 'm) host_scheme \<Rightarrow> ('c, 'o) mapperOps \<Rightarrow> mapperTiming \<Rightarrow> 'o loopState \<Rightarrow> ('c, 'o turn) mapperIO" where
  "mapperTurn h ops timing s = do {
     cancelled \<leftarrow> ctxErr h;
     if cancelled \<noteq> None then pass (Stop (lsOwned s))
     else do {
       (owned, expired) \<leftarrow> dropExpired h ops (lsOwned s);
       accepted \<leftarrow> (if expired then publishState h (errorState (lsFailure s)) else pass True);
       if \<not> accepted then pass (Stop owned)
       else do {
         (owned, attemptErr) \<leftarrow> attemptMapping ops owned;
         cancelled \<leftarrow> ctxErr h;
         if cancelled \<noteq> None then pass (Stop owned)
         else do {
           (owned, expired) \<leftarrow> dropExpired h ops owned;
           (case (if expired \<and> attemptErr = None then Some (opExpired ops) else attemptErr) of
              None \<Rightarrow> announceMapping h ops timing owned
            | Some err \<Rightarrow> reportFailure h ops timing (lsRetry s) owned err)
         }
       }
     }
   }"

lemma wp_turn [wp_intros]:
  "(\<And>s'. t = Continue s' \<Longrightarrow> wp (f s') Q s) \<Longrightarrow> (\<And>x. t = Stop x \<Longrightarrow> wp (g x) Q s) \<Longrightarrow> (t = Panic \<Longrightarrow> wp m Q s) \<Longrightarrow>
    wp (case t of Continue s' \<Rightarrow> f s' | Stop x \<Rightarrow> g x | Panic \<Rightarrow> m) Q s"
  by (cases t) simp_all

text \<open>
  The loop for a number of turns, after which it still runs; when it returns, the deferred cleanup drops the mapping left.
\<close>

datatype runOutcome = Running | Returned | Panicked

fun mapperLoop ::
  "nat \<Rightarrow> ('c, 'm) host_scheme \<Rightarrow> ('c, 'o) mapperOps \<Rightarrow> mapperTiming \<Rightarrow> 'o loopState \<Rightarrow> ('c, runOutcome) mapperIO" where
  "mapperLoop 0 h ops timing s = pass Running"
| "mapperLoop (Suc n) h ops timing s = do {
     turn \<leftarrow> mapperTurn h ops timing s;
     (case turn of
        Continue s \<Rightarrow> mapperLoop n h ops timing s
      | Stop owned \<Rightarrow> do {
          _ \<leftarrow> (case owned of None \<Rightarrow> pass () | Some mine \<Rightarrow> opCleanup ops mine);
          pass Returned
        }
      | Panic \<Rightarrow> pass Panicked)
   }"

definition firstState :: "mapperTiming \<Rightarrow> 'o loopState" where
  "firstState timing = \<lparr>lsOwned = None, lsRetry = tmRetryInitial timing, lsFailure = []\<rparr>"

section \<open>The contract of the operations\<close>

text \<open>
  \<open>vouched mine tr\<close>: the mapping held is backed by what happened.  The answers of \<open>establish\<close> and \<open>refresh\<close> never are
  neither a mapping nor an error, so the loop never reads a missing mapping.
\<close>

definition handsOut ::
  "('c mapperEvent \<Rightarrow> 'c mapperEvent list \<Rightarrow> bool) \<Rightarrow> ('o \<Rightarrow> 'c mapperEvent list \<Rightarrow> bool) \<Rightarrow> 'c mapperEvent list \<Rightarrow>
    'o option \<times> bytes option \<Rightarrow> 'c mapperEvent list \<Rightarrow> bool" where
  "handsOut P vouched tr r tr' \<longleftrightarrow> keeps P tr tr' \<and> pred_option (\<lambda>mine. vouched mine tr') (fst r) \<and> (fst r = None \<longrightarrow> snd r \<noteq> None)"

locale mapper =
  fixes h :: "('c, 'm) host_scheme"
    and ops :: "('c, 'o) mapperOps"
    and P :: "'c mapperEvent \<Rightarrow> 'c mapperEvent list \<Rightarrow> bool"
    and vouched :: "'o \<Rightarrow> 'c mapperEvent list \<Rightarrow> bool"
  assumes idle: "P (Clock t) tr" "P (ContextErr e) tr" "P (Waited d b) tr"
    and failure_published: "lineText maxErrorLength (stError st) \<Longrightarrow> stMapping st = None \<Longrightarrow> P (Published st b) tr"
    and mapping_published: "lineText maxErrorLength (stError st) \<Longrightarrow> stMapping st = Some (opMapping ops mine) \<Longrightarrow>
      opAdvertised ops mine \<Longrightarrow> vouched mine tr \<Longrightarrow> now < mpExpiresAt (opMapping ops mine) \<Longrightarrow>
      P (Published st b) (Clock now # tr)"
    and vouched_later: "vouched mine tr \<Longrightarrow> later tr tr' \<Longrightarrow> vouched mine tr'"
    and cleanup_keeps: "vouched mine tr \<Longrightarrow> wp (opCleanup ops mine) (\<lambda>_. keeps P tr) tr"
    and establish_hands: "wp (opEstablish ops) (handsOut P vouched tr) tr"
    and refresh_hands: "vouched mine tr \<Longrightarrow> wp (opRefresh ops mine) (handsOut P vouched tr) tr"
begin

lemma vouched_Cons: "vouched mine tr \<Longrightarrow> vouched mine (e # tr)"
  by (rule vouched_later) auto

lemma keeps_idle: "keeps P tr tr' \<Longrightarrow> keeps P tr (Clock t # tr')" "keeps P tr tr' \<Longrightarrow> keeps P tr (ContextErr e # tr')"
  "keeps P tr tr' \<Longrightarrow> keeps P tr (Waited d b # tr')"
  by (auto intro: keeps_Cons idle)

lemma keeps_failure:
  "keeps P tr tr' \<Longrightarrow> lineText maxErrorLength (stError st) \<Longrightarrow> stMapping st = None \<Longrightarrow> keeps P tr (Published st b # tr')"
  by (auto intro: keeps_Cons failure_published)

lemma keeps_error:
  "keeps P tr tr' \<Longrightarrow> keeps P tr (Published ((errorState message)\<lparr>stError := boundedText message' maxErrorLength\<rparr>) b # tr')"
  by (rule keeps_failure) (simp_all add: errorState_def)

lemma keeps_active:
  assumes "keeps P tr tr'" "vouched mine tr'" "st = (activeMappingState (opMapping ops mine) (opAdvertised ops mine) message now)
    \<lparr>stError := boundedText message' maxErrorLength\<rparr>"
  shows "keeps P tr (Published st b # Clock now # tr')"
proof (cases "stMapping st")
  case None
  then show ?thesis using assms by (intro keeps_failure keeps_idle) auto
next
  case (Some m)
  then have m: "m = opMapping ops mine" "opAdvertised ops mine" "now < mpExpiresAt (opMapping ops mine)"
    using assms(3) by (auto simp: activeMappingState_def errorState_def mappingValidAt_def split: if_splits)
  have "P (Published st b) (Clock now # tr')"
    using assms Some m by (intro mapping_published) auto
  then show ?thesis using assms(1) by (intro keeps_Cons keeps_idle)
qed

definition held :: "'o option \<Rightarrow> 'c mapperEvent list \<Rightarrow> bool" where
  "held owned tr \<longleftrightarrow> pred_option (\<lambda>mine. vouched mine tr) owned"

lemma held_simps [simp]: "held None tr" "held (Some mine) tr = vouched mine tr"
  by (simp_all add: held_def)

lemma held_Cons: "held owned tr \<Longrightarrow> held owned (e # tr)"
  by (cases owned) (auto intro: vouched_Cons)

definition turn_ok :: "'c mapperEvent list \<Rightarrow> 'o turn \<Rightarrow> 'c mapperEvent list \<Rightarrow> bool" where
  "turn_ok tr turn tr' \<longleftrightarrow> keeps P tr tr' \<and>
     (case turn of
        Continue s \<Rightarrow> held (lsOwned s) tr'
      | Stop owned \<Rightarrow> held owned tr'
      | Panic \<Rightarrow> False)"

lemma dropExpired_keeps:
  assumes "keeps P tr0 tr" "held owned tr"
  shows "wp (dropExpired h ops owned) (\<lambda>r tr'. keeps P tr0 tr' \<and> held (fst r) tr' \<and>
    (owned \<noteq> None \<and> \<not> snd r \<longrightarrow> fst r \<noteq> None)) tr"
  unfolding dropExpired_def
  by (intro wp_intros cleanup_keeps [THEN wp_mono])
    (use assms in \<open>auto intro: keeps_idle held_Cons vouched_Cons keeps_trans\<close>)

lemma announce_ok:
  assumes "keeps P tr0 tr" "held owned tr" "owned \<noteq> None"
  shows "wp (announceMapping h ops timing owned) (turn_ok tr0) tr"
  unfolding announceMapping_def
  by (intro wp_intros)
    (use assms in \<open>auto simp: turn_ok_def intro!: keeps_idle keeps_active vouched_Cons\<close>)

lemma report_ok:
  assumes "keeps P tr0 tr" "held owned tr"
  shows "wp (reportFailure h ops timing retry owned err) (turn_ok tr0) tr"
  unfolding reportFailure_def
  by (intro wp_intros cleanup_keeps [THEN wp_mono])
    (use assms in \<open>auto simp: turn_ok_def intro!: keeps_idle keeps_active keeps_error vouched_Cons intro: keeps_trans\<close>)

lemma attempt_keeps:
  assumes "keeps P tr0 tr" "held owned tr"
  shows "wp (attemptMapping ops owned) (\<lambda>r tr'. keeps P tr0 tr' \<and> held (fst r) tr' \<and>
    (fst r = None \<longrightarrow> snd r \<noteq> None)) tr"
  unfolding attemptMapping_def
  by (intro wp_intros establish_hands [THEN wp_mono] refresh_hands [THEN wp_mono])
    (use assms in \<open>auto simp: handsOut_def held_def intro: keeps_trans\<close>)

lemma turn_keeps:
  assumes "held (lsOwned s) tr"
  shows "wp (mapperTurn h ops timing s) (\<lambda>turn tr'. turn_ok tr turn tr' \<and> length tr < length tr' \<and>
    (hostErr h tr \<noteq> None \<longrightarrow> (\<exists>owned. turn = Stop owned))) tr"
proof -
  let ?tr = "ContextErr (hostErr h tr) # tr"
  have "wp (mapperTurn h ops timing s) (\<lambda>turn tr'. turn_ok ?tr turn tr' \<and> (hostErr h tr \<noteq> None \<longrightarrow> (\<exists>owned. turn = Stop owned))) tr"
    unfolding mapperTurn_def wp_ctxErr_iff
    by (intro wp_intros dropExpired_keeps [of ?tr, THEN wp_mono] attempt_keeps [of ?tr, THEN wp_mono] report_ok [THEN wp_mono])
      (use assms in \<open>auto simp: turn_ok_def intro!: keeps_idle keeps_error held_Cons announce_ok [THEN wp_mono] split: if_splits\<close>)
  then show ?thesis
    by (rule wp_mono) (auto simp: turn_ok_def dest: keeps_length keeps_trans [OF keeps_idle(2) [OF keeps_refl]])
qed

lemma loop_keeps:
  "held (lsOwned s) tr \<Longrightarrow>
    wp (mapperLoop n h ops timing s) (\<lambda>r tr'. keeps P tr tr' \<and> r \<noteq> Panicked) tr"
proof (induction n arbitrary: s tr)
  case (Suc n)
  show ?case unfolding mapperLoop.simps
    by (intro wp_intros turn_keeps [THEN wp_mono] Suc.prems Suc.IH [THEN wp_mono] cleanup_keeps [THEN wp_mono])
      (auto simp: turn_ok_def intro: keeps_trans)
qed (auto intro: wp_intros)

text \<open>Once the context reports its end whatever happened, from a number of events on, the loop returns.\<close>

lemma loop_returns:
  assumes ended: "\<And>tr. k \<le> length tr \<Longrightarrow> hostErr h tr \<noteq> None"
  shows "held (lsOwned s) tr \<Longrightarrow> k \<le> length tr + n \<Longrightarrow> wp (mapperLoop (Suc n) h ops timing s) (\<lambda>r tr'. r = Returned) tr"
proof (induction n arbitrary: s tr)
  case 0
  then show ?case using ended [of tr] unfolding mapperLoop.simps(2)
    by (intro wp_intros turn_keeps [THEN wp_mono] cleanup_keeps [THEN wp_mono]) (auto simp: turn_ok_def)
next
  case (Suc n)
  show ?case unfolding mapperLoop.simps(2) [of "Suc n"]
    by (intro wp_intros turn_keeps [THEN wp_mono] Suc.prems Suc.IH cleanup_keeps [THEN wp_mono])
      (use Suc.prems in \<open>auto simp: turn_ok_def\<close>)
qed

end

end
