(* ===== verification/UPnP.thy ===== *)
theory UPnP
  imports Mapper
begin

text \<open>
  The UPnP mapper, the first half of \<open>internal/networking/portmap/portmap.go\<close>.  A mapping of the gateway carries a random
  token of this run in its description; the mapper reads the gateway's entry before it changes it, and only deletes an entry
  that shows the token.  The gateway itself, the discovery and the SOAP library are outside.
\<close>

section \<open>The gateway\<close>

record portMappingEntry =
  peInternalPort :: uint16
  peInternalIP :: string
  peEnabled :: bool
  peDescription :: string
  peLease :: uint32

text \<open>An error of a gateway, with the code of the SOAP fault it wraps, if it does.\<close>

datatype gatewayErr = GatewayErr (upnpErrorCode: "int option") (errText: bytes)

definition isUPnPError :: "gatewayErr \<Rightarrow> int \<Rightarrow> bool" where
  "isUPnPError err code \<longleftrightarrow> upnpErrorCode err = Some code"

record gateway =
  gwID :: string
  gwProvider :: bytes
  gwLocalAddr :: bytes

datatype upnpCall =
    Discovered "gateway option list" "bytes option"
  | Lookup gateway uint16 "gatewayErr + portMappingEntry"
  | Added gateway uint16 uint16 string string uint32 "gatewayErr option"
  | ExternalIP gateway "bytes + bytes"
  | Deleted gateway uint16 "gatewayErr option"

type_synonym 'a upnpIO = "(upnpCall, 'a) mapperIO"
type_synonym upnpTrace = "upnpCall mapperEvent list"

record upnpHost = "upnpCall host" +
  discoverGateways :: "upnpTrace \<Rightarrow> gateway option list \<times> bytes option"
  gwLookup :: "upnpTrace \<Rightarrow> gateway \<Rightarrow> uint16 \<Rightarrow> gatewayErr + portMappingEntry"
  gwAdd :: "upnpTrace \<Rightarrow> gateway \<Rightarrow> uint16 \<Rightarrow> uint16 \<Rightarrow> string \<Rightarrow> string \<Rightarrow> uint32 \<Rightarrow> gatewayErr option"
  gwExternalIP :: "upnpTrace \<Rightarrow> gateway \<Rightarrow> bytes + bytes"
  gwDelete :: "upnpTrace \<Rightarrow> gateway \<Rightarrow> uint16 \<Rightarrow> gatewayErr option"

definition discoverCall :: "upnpHost \<Rightarrow> (gateway option list \<times> bytes option) upnpIO" where
  "discoverCall h = ask (discoverGateways h) (\<lambda>(gateways, err). Called (Discovered gateways err))"

definition getSpecificPortMapping :: "upnpHost \<Rightarrow> gateway \<Rightarrow> uint16 \<Rightarrow> (gatewayErr + portMappingEntry) upnpIO" where
  "getSpecificPortMapping h g port = ask (\<lambda>tr. gwLookup h tr g port) (\<lambda>r. Called (Lookup g port r))"

definition addMapping :: "upnpHost \<Rightarrow> gateway \<Rightarrow> uint16 \<Rightarrow> uint16 \<Rightarrow> string \<Rightarrow> string \<Rightarrow> uint32 \<Rightarrow> gatewayErr option upnpIO" where
  "addMapping h g externalPort internalPort internalIP description lease =
     ask (\<lambda>tr. gwAdd h tr g externalPort internalPort internalIP description lease)
       (\<lambda>err. Called (Added g externalPort internalPort internalIP description lease err))"

definition externalIPAddress :: "upnpHost \<Rightarrow> gateway \<Rightarrow> (bytes + bytes) upnpIO" where
  "externalIPAddress h g = ask (\<lambda>tr. gwExternalIP h tr g) (\<lambda>r. Called (ExternalIP g r))"

definition deletePortMapping :: "upnpHost \<Rightarrow> gateway \<Rightarrow> uint16 \<Rightarrow> gatewayErr option upnpIO" where
  "deletePortMapping h g port = ask (\<lambda>tr. gwDelete h tr g port) (\<lambda>err. Called (Deleted g port err))"

section \<open>An owned mapping\<close>

record ownedMapping =
  omGateway :: gateway
  omInternalPort :: uint16
  omInternalIP :: string
  omExternalPort :: uint16
  omDescription :: string
  omLease :: uint32
  omConfirmed :: bool
  omAdvertised :: bool
  omMapping :: Mapping

definition noMapping :: Mapping where
  "noMapping = \<lparr>mpExternal = AddrPortFrom AddrZero 0, mpProvider = [], mpExpiresAt = 0\<rparr>"

definition newMappingOwnership :: "gateway \<Rightarrow> uint16 \<Rightarrow> uint16 \<Rightarrow> string \<Rightarrow> string \<Rightarrow> ownedMapping" where
  "newMappingOwnership g externalPort internalPort internalIP description =
     \<lparr>omGateway = g, omInternalPort = internalPort, omInternalIP = internalIP, omExternalPort = externalPort,
      omDescription = description, omLease = 0, omConfirmed = False, omAdvertised = False, omMapping = noMapping\<rparr>"

definition newPendingMapping :: "gateway \<Rightarrow> uint16 \<Rightarrow> uint16 \<Rightarrow> string \<Rightarrow> string \<Rightarrow> uint32 \<Rightarrow> time \<Rightarrow> ownedMapping" where
  "newPendingMapping g externalPort internalPort internalIP description lease started =
     (newMappingOwnership g externalPort internalPort internalIP description)
       \<lparr>omLease := lease,
        omMapping := noMapping\<lparr>mpProvider := safeProvider (gwProvider g), mpExpiresAt := leaseEnd started lease\<rparr>\<rparr>"

definition newOwnedMapping ::
  "gateway \<Rightarrow> uint16 \<Rightarrow> uint16 \<Rightarrow> string \<Rightarrow> string \<Rightarrow> uint32 \<Rightarrow> uint32 \<Rightarrow> time \<Rightarrow> ownedMapping" where
  "newOwnedMapping g externalPort internalPort internalIP description requested reportedLease started =
     (let lease = conservativeLease requested reportedLease
      in (newMappingOwnership g externalPort internalPort internalIP description)
       \<lparr>omLease := lease, omConfirmed := True,
        omMapping := noMapping\<lparr>mpProvider := safeProvider (gwProvider g), mpExpiresAt := leaseEnd started lease\<rparr>\<rparr>)"

definition mappingMatches :: "portMappingEntry \<Rightarrow> uint16 \<Rightarrow> string \<Rightarrow> string \<Rightarrow> bool" where
  "mappingMatches entry internalPort internalIP description \<longleftrightarrow>
     peInternalPort entry = internalPort \<and> peInternalIP entry = internalIP \<and> peEnabled entry \<and> peDescription entry = description"

definition ownedMatches :: "ownedMapping \<Rightarrow> portMappingEntry \<Rightarrow> bool" where
  "ownedMatches owned entry = mappingMatches entry (omInternalPort owned) (omInternalIP owned) (omDescription owned)"

section \<open>Asking the gateway\<close>

definition lookupMapping :: "upnpHost \<Rightarrow> gateway \<Rightarrow> uint16 \<Rightarrow> (gatewayErr + portMappingEntry option) upnpIO" where
  "lookupMapping h g port = do {
     r \<leftarrow> getSpecificPortMapping h g port;
     pass (case r of
         Inl err \<Rightarrow> if isUPnPError err 714 then Inr None else Inl err
       | Inr entry \<Rightarrow> Inr (Some entry))
   }"

definition queryExternalAddress :: "upnpHost \<Rightarrow> gateway \<Rightarrow> (bytes + Addr) upnpIO" where
  "queryExternalAddress h g = do {
     raw \<leftarrow> externalIPAddress h g;
     pass (case raw of
         Inl err \<Rightarrow> Inl (bytes_of ''query external IP address: '' @ err)
       | Inr raw \<Rightarrow>
           (case ParseAddr (textOf (TrimSpace raw)) of
              None \<Rightarrow> Inl (bytes_of ''router returned an invalid external IP address'')
            | Some address \<Rightarrow>
                let address = Unmap address
                in if \<not> publiclyRoutableIPv4 address then Inl (bytes_of ''router external IP address is not usable IPv4'')
                   else Inr address))
   }"

text \<open>Whether the mapping may be forgotten, and the error.\<close>

definition deleteOwnedMapping :: "upnpHost \<Rightarrow> ownedMapping \<Rightarrow> (bool \<times> bytes option) upnpIO" where
  "deleteOwnedMapping h owned = do {
     r \<leftarrow> lookupMapping h (omGateway owned) (omExternalPort owned);
     (case r of
        Inl err \<Rightarrow> pass (False, Some (bytes_of ''verify mapping before delete: '' @ errText err))
      | Inr entry \<Rightarrow>
          if entry = None \<or> \<not> ownedMatches owned (the entry) then pass (True, None)
          else do {
            err \<leftarrow> deletePortMapping h (omGateway owned) (omExternalPort owned);
            pass (case err of
                None \<Rightarrow> (True, None)
              | Some err \<Rightarrow>
                  if isUPnPError err 714 then (True, None)
                  else (False, Some (bytes_of ''delete verified mapping: '' @ errText err)))
          })
   }"

definition upnpCleanup :: "upnpHost \<Rightarrow> ownedMapping \<Rightarrow> unit upnpIO" where
  "upnpCleanup h owned = do { _ \<leftarrow> deleteOwnedMapping h owned; pass () }"

definition rejectPermanentMapping :: "upnpHost \<Rightarrow> ownedMapping \<Rightarrow> bytes upnpIO" where
  "rejectPermanentMapping h owned = do {
     let leaseErr = bytes_of ''router reported lease duration 0 for a token-matched mapping; permanent UPnP mappings are not accepted'';
     (_, err) \<leftarrow> deleteOwnedMapping h owned;
     pass (case err of
         None \<Rightarrow> leaseErr
       | Some err \<Rightarrow> combineErrors (bytes_of ''reject permanent UPnP mapping'') [Some leaseErr, Some err])
   }"

section \<open>Trying a port\<close>

datatype portAttemptOutcome = portAttemptGatewayFailure | portAttemptConflict | portAttemptAmbiguous

type_synonym portAttempt = "ownedMapping option \<times> portAttemptOutcome \<times> bytes option"

text \<open>What \<open>attemptPort\<close> makes of the answer to \<open>AddPortMapping\<close> and of the entry read after it, when neither is permanent.\<close>

definition judgeAdded ::
  "gateway \<Rightarrow> uint16 \<Rightarrow> uint16 \<Rightarrow> string \<Rightarrow> string \<Rightarrow> uint32 \<Rightarrow> time \<Rightarrow> gatewayErr option \<Rightarrow> portMappingEntry option \<Rightarrow> portAttempt" where
  "judgeAdded g externalPort internalPort internalIP description lease started addErr verified =
     (let exact = (verified \<noteq> None \<and> mappingMatches (the verified) internalPort internalIP description);
          pending = newPendingMapping g externalPort internalPort internalIP description lease started;
          owned = newOwnedMapping g externalPort internalPort internalIP description lease (peLease (the verified)) started
      in case addErr of
           None \<Rightarrow>
             if \<not> exact
             then (Some pending, portAttemptAmbiguous, Some (bytes_of ''router accepted AddPortMapping but ownership could not be verified''))
             else (Some owned, portAttemptGatewayFailure, None)
         | Some addErr \<Rightarrow>
             (case upnpErrorCode addErr of
                None \<Rightarrow>
                  if exact then (Some owned, portAttemptGatewayFailure, None)
                  else (Some pending, portAttemptAmbiguous, Some (combineErrors (bytes_of ''AddPortMapping result is ambiguous'') [Some (errText addErr)]))
              | Some code \<Rightarrow>
                  if exact
                  then (Some pending, portAttemptAmbiguous, Some (bytes_of ''router returned SOAP error '' @ decimalInt code @ bytes_of '' but the run token is present''))
                  else if code = 718
                  then (None, portAttemptConflict, Some (bytes_of ''router rejected external port '' @ decimal (unat externalPort) @ bytes_of '' with conflict 718''))
                  else (None, portAttemptGatewayFailure, Some (bytes_of ''router rejected AddPortMapping with UPnP error '' @ decimalInt code))))"

definition judgeUnverified ::
  "gateway \<Rightarrow> uint16 \<Rightarrow> uint16 \<Rightarrow> string \<Rightarrow> string \<Rightarrow> uint32 \<Rightarrow> time \<Rightarrow> gatewayErr option \<Rightarrow> gatewayErr \<Rightarrow> portAttempt" where
  "judgeUnverified g externalPort internalPort internalIP description lease started addErr verifyErr =
     (let errs = [map_option errText addErr, Some (errText verifyErr)]
      in case Option.bind addErr upnpErrorCode of
           Some code \<Rightarrow>
             if code = 718 then (None, portAttemptConflict, Some (combineErrors (bytes_of ''router reported port conflict 718'') errs))
             else (None, portAttemptGatewayFailure, Some (combineErrors (bytes_of ''router rejected AddPortMapping'') errs))
         | None \<Rightarrow>
             (Some (newPendingMapping g externalPort internalPort internalIP description lease started), portAttemptAmbiguous,
              Some (combineErrors (bytes_of ''verify added mapping'') errs)))"

definition attemptPort :: "upnpHost \<Rightarrow> gateway \<Rightarrow> uint16 \<Rightarrow> uint16 \<Rightarrow> string \<Rightarrow> string \<Rightarrow> uint32 \<Rightarrow> portAttempt upnpIO" where
  "attemptPort h g externalPort internalPort internalIP description lease = do {
     let ownership = newMappingOwnership g externalPort internalPort internalIP description;
     r \<leftarrow> lookupMapping h g externalPort;
     (case r of
        Inl err \<Rightarrow> pass (None, portAttemptGatewayFailure, Some (bytes_of ''check existing mapping: '' @ errText err))
      | Inr entry \<Rightarrow>
          if entry \<noteq> None \<and> \<not> mappingMatches (the entry) internalPort internalIP description
          then pass (None, portAttemptConflict, Some (bytes_of ''external port already has a different UDP mapping''))
          else if entry \<noteq> None \<and> peLease (the entry) = 0
          then do {
            err \<leftarrow> rejectPermanentMapping h ownership;
            pass (None, portAttemptGatewayFailure, Some err)
          }
          else do {
            started \<leftarrow> clock h;
            addErr \<leftarrow> addMapping h g externalPort internalPort internalIP description lease;
            r \<leftarrow> lookupMapping h g externalPort;
            (case r of
               Inl verifyErr \<Rightarrow> pass (judgeUnverified g externalPort internalPort internalIP description lease started addErr verifyErr)
             | Inr verified \<Rightarrow>
                 if verified \<noteq> None \<and> mappingMatches (the verified) internalPort internalIP description \<and> peLease (the verified) = 0
                 then do {
                   err \<leftarrow> rejectPermanentMapping h ownership;
                   pass (None, portAttemptGatewayFailure,
                     Some (combineErrors (bytes_of ''verify temporary UPnP mapping'') [map_option errText addErr, Some err]))
                 }
                 else pass (judgeAdded g externalPort internalPort internalIP description lease started addErr verified))
          })
   }"

section \<open>Creating a mapping\<close>

datatype createErr = plainError (createText: bytes) | is_ambiguous: ambiguousMappingError (createText: bytes)

text \<open>The mapping is there; it is handed out once the external address is known, and taken back otherwise.\<close>

definition finishCreate :: "upnpHost \<Rightarrow> gateway \<Rightarrow> uint16 \<Rightarrow> ownedMapping \<Rightarrow> (ownedMapping option \<times> createErr option) upnpIO" where
  "finishCreate h g port owned = do {
     r \<leftarrow> queryExternalAddress h g;
     (case r of
        Inr address \<Rightarrow>
          pass (Some (owned\<lparr>omMapping := (omMapping owned)\<lparr>mpExternal := AddrPortFrom address port\<rparr>, omAdvertised := True\<rparr>), None)
      | Inl externalErr \<Rightarrow> do {
          (safeToForget, rollbackErr) \<leftarrow> deleteOwnedMapping h owned;
          let combined = combineErrors (bytes_of ''query external IP after creating mapping'') [Some externalErr, rollbackErr];
          pass (if safeToForget then (None, Some (plainError combined)) else (Some owned, Some (ambiguousMappingError combined)))
        })
   }"

text \<open>The loop over the ports; \<open>left\<close> is how many fallback ports may still follow.\<close>

fun createLoop ::
  "nat \<Rightarrow> upnpHost \<Rightarrow> gateway \<Rightarrow> uint16 \<Rightarrow> string \<Rightarrow> string \<Rightarrow> uint32 \<Rightarrow> uint16 list \<Rightarrow> uint16 \<Rightarrow> errorSummary \<Rightarrow>
    (ownedMapping option \<times> createErr option) upnpIO" where
  "createLoop left h g internalPort internalIP description lease used port failures = do {
     (owned, outcome, err) \<leftarrow> attemptPort h g port internalPort internalIP description lease;
     (case owned of
        Some mine \<Rightarrow>
          if \<not> omConfirmed mine then pass (Some mine, Some (ambiguousMappingError (the err)))
          else finishCreate h g port mine
      | None \<Rightarrow> do {
          let failures = addFailure failures (bytes_of ''external port '' @ decimal (unat port)) err;
          let failed = summaryErr failures (bytes_of ''add port mapping'');
          if outcome = portAttemptAmbiguous then pass (None, Some (ambiguousMappingError failed))
          else if outcome = portAttemptGatewayFailure then pass (None, Some (plainError failed))
          else
            (case left of
               0 \<Rightarrow> pass (None, Some (plainError failed))
             | Suc left \<Rightarrow> do {
                 next_port \<leftarrow> nextRandomPort h used;
                 (case next_port of
                    Inl err \<Rightarrow>
                      pass (None, Some (plainError (summaryErr (addFailure failures (bytes_of ''choose fallback port'') (Some err))
                        (bytes_of ''add port mapping''))))
                  | Inr port \<Rightarrow> createLoop left h g internalPort internalIP description lease (port # used) port failures)
               })
        })
   }"

declare createLoop.simps [simp del]

definition create :: "upnpHost \<Rightarrow> gateway \<Rightarrow> uint16 \<Rightarrow> string \<Rightarrow> uint32 \<Rightarrow> (ownedMapping option \<times> createErr option) upnpIO" where
  "create h g internalPort description lease =
     (case validLocalAddress (gwLocalAddr g) of
        Inl err \<Rightarrow> pass (None, Some (plainError err))
      | Inr localAddress \<Rightarrow>
          createLoop fallbackPortAttempts h g internalPort (addrString localAddress) description lease [internalPort] internalPort noFailures)"

fun establishLoop ::
  "upnpHost \<Rightarrow> uint16 \<Rightarrow> string \<Rightarrow> uint32 \<Rightarrow> gateway option list \<Rightarrow> string list \<Rightarrow> nat \<Rightarrow> errorSummary \<Rightarrow>
    (ownedMapping option \<times> bytes option) upnpIO" where
  "establishLoop h internalPort description lease [] seen attempted failures =
     (let failures = (if attempted = 0 then addText failures (bytes_of ''no UPnP IGD WAN connection services found'') else failures)
      in pass (None, Some (summaryErr failures (bytes_of ''create UPnP port mapping''))))"
| "establishLoop h internalPort description lease (None # gateways) seen attempted failures =
     establishLoop h internalPort description lease gateways seen attempted failures"
| "establishLoop h internalPort description lease (Some candidate # gateways) seen attempted failures =
     (if gwID candidate \<noteq> [] \<and> gwID candidate \<in> set seen
      then establishLoop h internalPort description lease gateways seen attempted failures
      else do {
        let seen = (if gwID candidate \<noteq> [] then gwID candidate # seen else seen);
        (created, err) \<leftarrow> create h candidate internalPort description lease;
        if created \<noteq> None then pass (created, map_option createText err)
        else do {
          cancelled \<leftarrow> ctxErr h;
          if cancelled \<noteq> None then pass (None, cancelled)
          else do {
            let failures = addFailure failures (safeProvider (gwProvider candidate)) (map_option createText err);
            if err \<noteq> None \<and> is_ambiguous (the err)
            then pass (None, Some (summaryErr failures (bytes_of ''create UPnP port mapping'')))
            else establishLoop h internalPort description lease gateways seen (attempted + 1) failures
          }
        }
      })"

definition upnpEstablish :: "upnpHost \<Rightarrow> uint16 \<Rightarrow> string \<Rightarrow> mapperTiming \<Rightarrow> (ownedMapping option \<times> bytes option) upnpIO" where
  "upnpEstablish h internalPort description timing = do {
     (gateways, discoveryErr) \<leftarrow> discoverCall h;
     cancelled \<leftarrow> ctxErr h;
     if cancelled \<noteq> None then pass (None, cancelled)
     else establishLoop h internalPort description (leaseSeconds (tmLease timing)) gateways [] 0
       (addFailure noFailures (bytes_of ''discovery'') discoveryErr)
   }"

section \<open>Refreshing it\<close>

text \<open>The mapping when it is kept, and the error.\<close>

definition finishRefresh :: "upnpHost \<Rightarrow> ownedMapping \<Rightarrow> time \<Rightarrow> uint32 \<Rightarrow> (ownedMapping option \<times> bytes option) upnpIO" where
  "finishRefresh h owned started reportedLease = do {
     let lease = conservativeLease (omLease owned) reportedLease;
     let owned = owned\<lparr>omLease := lease, omMapping := (omMapping owned)\<lparr>mpExpiresAt := leaseEnd started lease\<rparr>\<rparr>;
     r \<leftarrow> queryExternalAddress h (omGateway owned);
     pass (case r of
         Inl externalErr \<Rightarrow> (Some owned, Some (bytes_of ''query external IP after renewing mapping: '' @ externalErr))
       | Inr address \<Rightarrow>
           (Some (owned\<lparr>omMapping := (omMapping owned)\<lparr>mpExternal := AddrPortFrom address (omExternalPort owned)\<rparr>, omAdvertised := True\<rparr>),
            None))
   }"

definition upnpRefresh :: "upnpHost \<Rightarrow> ownedMapping \<Rightarrow> (ownedMapping option \<times> bytes option) upnpIO" where
  "upnpRefresh h owned = do {
     r \<leftarrow> lookupMapping h (omGateway owned) (omExternalPort owned);
     (case r of
        Inl err \<Rightarrow> do {
          cancelled \<leftarrow> ctxErr h;
          pass (Some owned, if cancelled \<noteq> None then cancelled else Some (bytes_of ''verify mapping before renewal: '' @ errText err))
        }
      | Inr entry \<Rightarrow>
          if entry = None \<or> \<not> ownedMatches owned (the entry)
          then pass (None, Some (bytes_of ''UPnP mapping ownership was lost before renewal''))
          else if peLease (the entry) = 0 then do { err \<leftarrow> rejectPermanentMapping h owned; pass (None, Some err) }
          else do {
            started \<leftarrow> clock h;
            addErr \<leftarrow> addMapping h (omGateway owned) (omExternalPort owned) (omInternalPort owned) (omInternalIP owned)
              (omDescription owned) (omLease owned);
            r \<leftarrow> lookupMapping h (omGateway owned) (omExternalPort owned);
            (case r of
               Inl verifyErr \<Rightarrow> do {
                 cancelled \<leftarrow> ctxErr h;
                 pass (Some owned, if cancelled \<noteq> None then cancelled
                   else Some (combineErrors (bytes_of ''verify renewed mapping'') [map_option errText addErr, Some (errText verifyErr)]))
               }
             | Inr verified \<Rightarrow>
                 if verified = None \<or> \<not> ownedMatches owned (the verified)
                 then pass (None, Some (combineErrors (bytes_of ''renewed mapping ownership was not verified'') [map_option errText addErr]))
                 else if peLease (the verified) = 0
                 then do {
                   err \<leftarrow> rejectPermanentMapping h owned;
                   pass (None, Some (combineErrors (bytes_of ''verify temporary UPnP mapping renewal'') [map_option errText addErr, Some err]))
                 }
                 else
                   (case addErr of
                      Some addErr \<Rightarrow>
                        pass (Some owned, Some (bytes_of ''mapping renewal returned an error while ownership remained exact: '' @ errText addErr))
                    | None \<Rightarrow> finishRefresh h owned started (peLease (the verified))))
          })
   }"

section \<open>The mapper\<close>

definition upnpOps :: "upnpHost \<Rightarrow> uint16 \<Rightarrow> string \<Rightarrow> mapperTiming \<Rightarrow> (upnpCall, ownedMapping) mapperOps" where
  "upnpOps h internalPort description timing =
     \<lparr>opMapping = omMapping, opAdvertised = omAdvertised, opLease = omLease,
      opExpired = bytes_of ''UPnP mapping expired before it could be published'', opCleanup = upnpCleanup h,
      opEstablish = upnpEstablish h internalPort description timing, opRefresh = upnpRefresh h\<rparr>"

text \<open>\<open>Run\<close> for \<open>n\<close> turns; \<open>running\<close> is the flag of the mapper.\<close>

definition upnpRun :: "nat \<Rightarrow> upnpHost \<Rightarrow> bool \<Rightarrow> mapperTiming \<Rightarrow> uint16 \<Rightarrow> (bytes + runOutcome) upnpIO" where
  "upnpRun n h running timing internalPort =
     (if internalPort = 0 then pass (Inl (bytes_of ''UPnP requires a non-zero internal port''))
      else if running then pass (Inl (bytes_of ''UPnP mapper is already running''))
      else do {
        description \<leftarrow> randomMappingDescription h;
        (case description of
           Inl err \<Rightarrow> pass (Inl (boundedText (bytes_of ''generate UPnP mapping token: '' @ err) maxErrorLength))
         | Inr description \<Rightarrow> do {
             let timing = normalizeTiming timing;
             outcome \<leftarrow> mapperLoop n h (upnpOps h internalPort description timing) timing (firstState timing);
             pass (Inr outcome)
           })
      })"

end
