(* ===== verification/UPnPSafety.thy ===== *)
theory UPnPSafety
  imports UPnP
begin

text \<open>
  What the UPnP mapper does to a gateway: it deletes only an entry it has just seen to be its own, and a mapping it publishes
  is public, lives, and was seen in the gateway with a lease that lasts as long as is claimed.
\<close>

section \<open>The events of a run\<close>

definition ownEntry :: "uint16 \<Rightarrow> string \<Rightarrow> portMappingEntry \<Rightarrow> bool" where
  "ownEntry internalPort description entry \<longleftrightarrow>
     peEnabled entry \<and> peInternalPort entry = internalPort \<and> peDescription entry = description"

text \<open>
  The gateway was asked for \<open>port\<close> at a time, then showed the entry of this run there, with a lease; the mapping is not
  claimed for longer than that lease from that time.
\<close>

definition granted :: "uint16 \<Rightarrow> string \<Rightarrow> uint16 \<Rightarrow> time \<Rightarrow> upnpTrace \<Rightarrow> bool" where
  "granted internalPort description port expires tr \<longleftrightarrow>
     (\<exists>g ip lease err entry started.
        happened [Called (Lookup g port (Inr entry)), Called (Added g port internalPort ip description lease err), Clock started] tr \<and>
        ownEntry internalPort description entry \<and> peLease entry \<noteq> 0 \<and>
        expires \<le> leaseEnd started lease \<and> expires \<le> leaseEnd started (peLease entry))"

definition publishable :: "uint16 \<Rightarrow> string \<Rightarrow> Mapping \<Rightarrow> upnpTrace \<Rightarrow> bool" where
  "publishable internalPort description m tr \<longleftrightarrow>
     publiclyRoutableIPv4 (apAddr (mpExternal m)) \<and> granted internalPort description (apPort (mpExternal m)) (mpExpiresAt m) tr"

fun upnpEvent :: "uint16 \<Rightarrow> string \<Rightarrow> upnpCall mapperEvent \<Rightarrow> upnpTrace \<Rightarrow> bool" where
  "upnpEvent internalPort description (Called (Deleted g port err)) before =
     (\<exists>entry before'. before = Called (Lookup g port (Inr entry)) # before' \<and> ownEntry internalPort description entry)"
| "upnpEvent internalPort description (Called (Added g port ip addr token lease err)) before =
     (\<exists>t r before'. before = Clock t # Called (Lookup g port r) # before' \<and> ip = internalPort \<and> token = description \<and>
        (case r of Inl e \<Rightarrow> isUPnPError e 714 | Inr entry \<Rightarrow> ownEntry internalPort description entry))"
| "upnpEvent internalPort description (Published st b) before =
     (lineText maxErrorLength (stError st) \<and>
      (case stMapping st of
         None \<Rightarrow> True
       | Some m \<Rightarrow>
           (\<exists>now before'. before = Clock now # before' \<and> now < mpExpiresAt m \<and> lineText maxProviderLength (mpProvider m) \<and>
              publishable internalPort description m before')))"
| "upnpEvent internalPort description e before = True"

section \<open>The operations\<close>

definition upnpVouched :: "uint16 \<Rightarrow> string \<Rightarrow> ownedMapping \<Rightarrow> upnpTrace \<Rightarrow> bool" where
  "upnpVouched internalPort description mine tr \<longleftrightarrow>
     omDescription mine = description \<and> omInternalPort mine = internalPort \<and> lineText maxProviderLength (mpProvider (omMapping mine)) \<and>
     (omAdvertised mine \<longrightarrow> apPort (mpExternal (omMapping mine)) = omExternalPort mine \<and> publishable internalPort description (omMapping mine) tr)"

lemma granted_later: "granted internalPort description port expires tr \<Longrightarrow> later tr tr' \<Longrightarrow>
    granted internalPort description port expires tr'"
  unfolding granted_def by (blast intro: happened_later)

lemma publishable_later: "publishable internalPort description m tr \<Longrightarrow> later tr tr' \<Longrightarrow> publishable internalPort description m tr'"
  by (auto simp: publishable_def intro: granted_later)

lemma vouched_upnp_later: "upnpVouched internalPort description mine tr \<Longrightarrow> later tr tr' \<Longrightarrow> upnpVouched internalPort description mine tr'"
  by (auto simp: upnpVouched_def intro: publishable_later)

abbreviation upnpKeeps :: "uint16 \<Rightarrow> string \<Rightarrow> upnpTrace \<Rightarrow> upnpTrace \<Rightarrow> bool" where
  "upnpKeeps internalPort description \<equiv> keeps (upnpEvent internalPort description)"

lemma keeps_plain:
  "upnpKeeps i d tr0 tr \<Longrightarrow> upnpKeeps i d tr0 (Clock t # tr)"
  "upnpKeeps i d tr0 tr \<Longrightarrow> upnpKeeps i d tr0 (ContextErr e # tr)"
  "upnpKeeps i d tr0 tr \<Longrightarrow> upnpKeeps i d tr0 (Waited x b # tr)"
  "upnpKeeps i d tr0 tr \<Longrightarrow> upnpKeeps i d tr0 (RandomRead n r # tr)"
  "upnpKeeps i d tr0 tr \<Longrightarrow> upnpKeeps i d tr0 (Called (Lookup g port entry) # tr)"
  "upnpKeeps i d tr0 tr \<Longrightarrow> upnpKeeps i d tr0 (Called (ExternalIP g ip) # tr)"
  "upnpKeeps i d tr0 tr \<Longrightarrow> upnpKeeps i d tr0 (Called (Discovered gs err) # tr)"
  by (simp_all add: keeps_def later_Cons)

lemma wp_lookupMapping:
  assumes "\<And>r. Q (case r of Inl err \<Rightarrow> if isUPnPError err 714 then Inr None else Inl err | Inr entry \<Rightarrow> Inr (Some entry))
      (Called (Lookup g port r) # tr)"
  shows "wp (lookupMapping h g port) Q tr"
  unfolding lookupMapping_def getSpecificPortMapping_def by (intro wp_intros assms)

lemma matches_own: "mappingMatches entry internalPort ip description \<Longrightarrow> ownEntry internalPort description entry"
  by (simp add: mappingMatches_def ownEntry_def)

lemma delete_keeps:
  assumes "upnpKeeps i d tr0 tr" "omDescription owned = d" "omInternalPort owned = i"
  shows "wp (deleteOwnedMapping h owned) (\<lambda>_. upnpKeeps i d tr0) tr"
  unfolding deleteOwnedMapping_def deletePortMapping_def ownedMatches_def
  by (intro wp_intros wp_lookupMapping)
    (use assms in \<open>auto intro!: keeps_plain simp: keeps_Cons matches_own split: sum.splits if_splits\<close>)

lemma reject_keeps:
  assumes "upnpKeeps i d tr0 tr" "omDescription owned = d" "omInternalPort owned = i"
  shows "wp (rejectPermanentMapping h owned) (\<lambda>_. upnpKeeps i d tr0) tr"
  unfolding rejectPermanentMapping_def
  by (intro wp_intros delete_keeps [THEN wp_mono]) (use assms in auto)

lemma external_keeps:
  assumes "upnpKeeps i d tr0 tr"
  shows "wp (queryExternalAddress h g) (\<lambda>r tr'. upnpKeeps i d tr0 tr' \<and> later tr tr' \<and> (\<forall>a. r = Inr a \<longrightarrow> publiclyRoutableIPv4 a)) tr"
  unfolding queryExternalAddress_def externalIPAddress_def
  by (intro wp_intros) (use assms in \<open>auto intro!: keeps_plain simp: Let_def split: sum.splits option.splits\<close>)

lemma own_facts [simp]:
  "omDescription (newMappingOwnership g port i ip d) = d" "omInternalPort (newMappingOwnership g port i ip d) = i"
  "omDescription (newPendingMapping g port i ip d lease started) = d" "omInternalPort (newPendingMapping g port i ip d lease started) = i"
  "omDescription (newOwnedMapping g port i ip d lease reported started) = d"
  "omInternalPort (newOwnedMapping g port i ip d lease reported started) = i"
  by (simp_all add: newMappingOwnership_def newPendingMapping_def newOwnedMapping_def Let_def)

definition attempt_ok :: "uint16 \<Rightarrow> string \<Rightarrow> uint16 \<Rightarrow> portAttempt \<Rightarrow> upnpTrace \<Rightarrow> bool" where
  "attempt_ok i d port r tr \<longleftrightarrow>
     (case r of
        (None, _, err) \<Rightarrow> True
      | (Some mine, _, err) \<Rightarrow> upnpVouched i d mine tr \<and> \<not> omAdvertised mine \<and> omExternalPort mine = port \<and>
          (if omConfirmed mine then granted i d port (mpExpiresAt (omMapping mine)) tr else err \<noteq> None))"

lemma conservative_ends:
  "reported \<noteq> 0 \<Longrightarrow> leaseEnd started (conservativeLease lease reported) \<le> leaseEnd started lease \<and>
    leaseEnd started (conservativeLease lease reported) \<le> leaseEnd started reported"
  by (auto simp: conservativeLease_def intro: leaseEnd_mono)

lemma granted_now:
  "ownEntry i d entry \<Longrightarrow> peLease entry \<noteq> 0 \<Longrightarrow> expires = leaseEnd started (conservativeLease lease (peLease entry)) \<Longrightarrow>
    granted i d port expires (Called (Lookup g port (Inr entry)) # Called (Added g port i ip d lease err) # Clock started # tr)"
  unfolding granted_def using conservative_ends [of "peLease entry"] happened_now [of "[_, _, _]" tr]
  by (metis append_Cons append_Nil)

lemma vouched_new:
  "upnpVouched i d (newPendingMapping g port i ip d lease started) tr \<and> \<not> omAdvertised (newPendingMapping g port i ip d lease started)"
  "upnpVouched i d (newOwnedMapping g port i ip d lease reported started) tr \<and>
    \<not> omAdvertised (newOwnedMapping g port i ip d lease reported started)"
  by (simp_all add: upnpVouched_def newPendingMapping_def newOwnedMapping_def newMappingOwnership_def noMapping_def Let_def
    lineText_safeProvider)

lemma new_confirmed [simp]:
  "\<not> omConfirmed (newPendingMapping g port i ip d lease started)" "omConfirmed (newOwnedMapping g port i ip d lease reported started)"
  "omExternalPort (newPendingMapping g port i ip d lease started) = port"
  "omExternalPort (newOwnedMapping g port i ip d lease reported started) = port"
  "mpExpiresAt (omMapping (newOwnedMapping g port i ip d lease reported started)) = leaseEnd started (conservativeLease lease reported)"
  by (simp_all add: newPendingMapping_def newOwnedMapping_def newMappingOwnership_def noMapping_def Let_def)

lemma attempt_none [simp]: "attempt_ok i d port (None, outcome, err) tr"
  by (simp add: attempt_ok_def)

lemma unverified_ok: "attempt_ok i d port (judgeUnverified g port i ip d lease started addErr verifyErr) tr"
  by (auto simp: judgeUnverified_def Let_def vouched_new attempt_ok_def split: option.splits)

lemma added_ok:
  assumes "verified = None \<or> (\<exists>entry. verified = Some entry \<and> r = Inr entry)"
    "verified \<noteq> None \<and> mappingMatches (the verified) i ip d \<longrightarrow> peLease (the verified) \<noteq> 0"
  shows "attempt_ok i d port (judgeAdded g port i ip d lease started addErr verified)
    (Called (Lookup g port r) # Called (Added g port i ip d lease addErr) # Clock started # tr)"
  using assms
  by (auto simp: judgeAdded_def Let_def vouched_new attempt_ok_def split: option.splits intro!: granted_now intro: matches_own)

lemma attemptPort_keeps:
  assumes "upnpKeeps i d tr0 tr"
  shows "wp (attemptPort h g port i ip d lease) (\<lambda>r tr'. upnpKeeps i d tr0 tr' \<and> attempt_ok i d port r tr') tr"
  unfolding attemptPort_def addMapping_def
  by (intro wp_intros wp_lookupMapping reject_keeps [of i d tr0, THEN wp_mono])
    (use assms in \<open>auto intro!: keeps_plain added_ok unverified_ok simp: keeps_Cons matches_own split: sum.splits if_splits\<close>)

definition created_ok :: "uint16 \<Rightarrow> string \<Rightarrow> ownedMapping option \<times> createErr option \<Rightarrow> upnpTrace \<Rightarrow> bool" where
  "created_ok i d r tr \<longleftrightarrow> pred_option (\<lambda>mine. upnpVouched i d mine tr) (fst r) \<and> (fst r = None \<longrightarrow> snd r \<noteq> None)"

lemma created_none: "created_ok i d (None, Some err) tr"
  by (simp add: created_ok_def)

lemma created_pending: "upnpVouched i d mine tr \<Longrightarrow> created_ok i d (Some mine, err) tr"
  by (simp add: created_ok_def)

lemma finish_keeps:
  assumes "upnpKeeps i d tr0 tr" and mine: "upnpVouched i d mine tr" "\<not> omAdvertised mine" "omExternalPort mine = port"
      "granted i d port (mpExpiresAt (omMapping mine)) tr"
  shows "wp (finishCreate h g port mine) (\<lambda>r tr'. upnpKeeps i d tr0 tr' \<and> created_ok i d r tr') tr"
proof -
  have later_ok: "upnpVouched i d mine tr'" "granted i d port (mpExpiresAt (omMapping mine)) tr'" if "later tr tr'" for tr'
    using mine that by (auto intro: vouched_upnp_later granted_later)
  show ?thesis unfolding finishCreate_def
    by (intro wp_intros external_keeps [OF assms(1), THEN wp_mono] delete_keeps [of i d tr0, THEN wp_mono])
      (use mine later_ok in \<open>auto simp: created_ok_def upnpVouched_def publishable_def split: if_splits\<close>)
qed

lemma wp_port:
  assumes "upnpKeeps i d tr0 tr"
  shows "wp (nextRandomPort h used) (\<lambda>r. upnpKeeps i d tr0) tr"
  unfolding nextRandomPort_def
  by (rule wp_nextRandomPortLoop [THEN wp_mono]) (use assms in auto)

lemma wp_nat [wp_intros]:
  "(n = 0 \<Longrightarrow> wp m Q s) \<Longrightarrow> (\<And>k. n = Suc k \<Longrightarrow> wp (f k) Q s) \<Longrightarrow> wp (case n of 0 \<Rightarrow> m | Suc k \<Rightarrow> f k) Q s"
  by (cases n) simp_all

lemma createLoop_keeps:
  "upnpKeeps i d tr0 tr \<Longrightarrow>
    wp (createLoop left h g i ip d lease used port failures) (\<lambda>r tr'. upnpKeeps i d tr0 tr' \<and> created_ok i d r tr') tr"
proof (induction left arbitrary: used port failures tr)
  case 0
  show ?case unfolding createLoop.simps [of 0]
    by (intro wp_intros attemptPort_keeps [OF 0, THEN wp_mono])
      (auto simp: created_none attempt_ok_def created_pending intro!: finish_keeps)
next
  case (Suc left)
  show ?case unfolding createLoop.simps [of "Suc left"]
    by (intro wp_intros attemptPort_keeps [OF Suc.prems, THEN wp_mono] wp_port [of i d tr0, THEN wp_mono] Suc.IH)
      (auto simp: created_none attempt_ok_def created_pending intro!: finish_keeps Suc.IH)
qed

lemma create_keeps:
  assumes "upnpKeeps i d tr0 tr"
  shows "wp (create h g i d lease) (\<lambda>r tr'. upnpKeeps i d tr0 tr' \<and> created_ok i d r tr') tr"
  unfolding create_def
  by (intro wp_intros createLoop_keeps assms) (use assms in \<open>auto simp: created_ok_def\<close>)

lemma establishLoop_keeps:
  "upnpKeeps i d tr0 tr \<Longrightarrow>
    wp (establishLoop h i d lease gateways seen attempted failures) (handsOut (upnpEvent i d) (upnpVouched i d) tr0) tr"
proof (induction gateways arbitrary: seen attempted failures tr)
  case (Cons candidate gateways)
  show ?case
  proof (cases candidate)
    case (Some g)
    show ?thesis unfolding Some establishLoop.simps
      by (intro wp_intros create_keeps [of i d tr0, THEN wp_mono] Cons.IH)
        (use Cons.prems in \<open>auto simp: created_ok_def handsOut_def intro!: keeps_plain\<close>)
  qed (use Cons in simp)
qed (auto intro!: wp_intros simp: handsOut_def)

lemma upnpEstablish_keeps: "wp (upnpEstablish h i d timing) (handsOut (upnpEvent i d) (upnpVouched i d) tr) tr"
  unfolding upnpEstablish_def discoverCall_def
  by (intro wp_intros establishLoop_keeps) (auto simp: handsOut_def intro!: keeps_plain)

lemma finishRefresh_keeps:
  assumes "upnpKeeps i d tr0 tr" "upnpVouched i d mine tr"
    "granted i d (omExternalPort mine) (leaseEnd started (conservativeLease (omLease mine) reported)) tr"
  shows "wp (finishRefresh h mine started reported) (handsOut (upnpEvent i d) (upnpVouched i d) tr0) tr"
proof -
  have later_ok: "upnpVouched i d mine tr'" "granted i d (omExternalPort mine) (leaseEnd started (conservativeLease (omLease mine) reported)) tr'"
    if "later tr tr'" for tr'
    using assms(2,3) that by (auto intro: vouched_upnp_later granted_later)
  show ?thesis unfolding finishRefresh_def
    by (intro wp_intros external_keeps [OF assms(1), THEN wp_mono])
      (use later_ok in \<open>auto simp: handsOut_def upnpVouched_def publishable_def split: sum.splits\<close>)
qed

lemma keeps_added:
  "upnpKeeps i d tr0 tr \<Longrightarrow> ownEntry i d entry \<Longrightarrow>
    upnpKeeps i d tr0 (Called (Added g port i ip d lease err) # Clock t # Called (Lookup g port (Inr entry)) # tr)"
  by (rule keeps_Cons) (auto intro!: keeps_plain)

lemma upnpRefresh_keeps:
  assumes "upnpVouched i d mine tr"
  shows "wp (upnpRefresh h mine) (handsOut (upnpEvent i d) (upnpVouched i d) tr) tr"
proof -
  have mine: "omDescription mine = d" "omInternalPort mine = i" using assms by (simp_all add: upnpVouched_def)
  have own: "ownedMatches mine entry \<Longrightarrow> ownEntry i d entry" for entry
    using mine by (simp add: ownedMatches_def matches_own)
  have kept: "upnpVouched i d mine tr'" if "later tr tr'" for tr'
    using assms that by (rule vouched_upnp_later)
  show ?thesis unfolding upnpRefresh_def addMapping_def
    by (intro wp_intros wp_lookupMapping reject_keeps [of i d tr, THEN wp_mono] finishRefresh_keeps)
      (auto simp: mine handsOut_def intro!: own keeps_added keeps_plain kept granted_now split: sum.splits if_splits)
qed

section \<open>The mapper keeps its contract\<close>

lemma upnpOps_simps:
  "opMapping (upnpOps h i d timing) = omMapping" "opAdvertised (upnpOps h i d timing) = omAdvertised"
  "opLease (upnpOps h i d timing) = omLease" "opCleanup (upnpOps h i d timing) = upnpCleanup h"
  "opEstablish (upnpOps h i d timing) = upnpEstablish h i d timing" "opRefresh (upnpOps h i d timing) = upnpRefresh h"
  by (simp_all add: upnpOps_def)

interpretation upnp: mapper h "upnpOps h i d timing" "upnpEvent i d" "upnpVouched i d"
  for h i d timing
proof unfold_locales
  fix st :: State and mine tr now b
  assume "lineText maxErrorLength (stError st)" "stMapping st = Some (opMapping (upnpOps h i d timing) mine)"
    "opAdvertised (upnpOps h i d timing) mine" "upnpVouched i d mine tr" "now < mpExpiresAt (opMapping (upnpOps h i d timing) mine)"
  then show "upnpEvent i d (Published st b) (Clock now # tr)"
    by (auto simp: upnpOps_def upnpVouched_def)
next
  fix mine tr
  assume "upnpVouched i d mine tr"
  then show "wp (opCleanup (upnpOps h i d timing) mine) (\<lambda>_. upnpKeeps i d tr) tr"
    unfolding upnpOps_def upnpCleanup_def mapperOps.simps
    by (intro wp_intros delete_keeps [THEN wp_mono]) (auto simp: upnpVouched_def)
qed (auto simp: upnpOps_def upnpEstablish_keeps upnpRefresh_keeps intro: vouched_upnp_later)

lemma upnp_run:
  assumes "run_state (upnpRun n h running timing port) [] = (Inr outcome, tr)"
  obtains token where "tr \<noteq> []" "last tr = RandomRead mappingTokenBytes (Inr token)"
    "everyEvent (upnpEvent port (''Bork-'' @ hexBytes token)) tr" "outcome \<noteq> Panicked"
proof -
  let ?Q = "\<lambda>r tr'. \<forall>outcome. r = Inr outcome \<longrightarrow> (\<exists>token. later [RandomRead mappingTokenBytes (Inr token)] tr' \<and>
      everyEvent (upnpEvent port (''Bork-'' @ hexBytes token)) tr' \<and> outcome \<noteq> Panicked)"
  have "wp (upnpRun n h running timing port) ?Q []"
    unfolding upnpRun_def randomMappingDescription_def
    by (intro wp_intros upnp.loop_keeps [THEN wp_mono])
      (auto simp: upnp.held_def firstState_def keeps_def map_sum_def split: sum.splits)
  then obtain token where "later [RandomRead mappingTokenBytes (Inr token)] tr"
      "everyEvent (upnpEvent port (''Bork-'' @ hexBytes token)) tr" "outcome \<noteq> Panicked"
    using wp_run [OF _ assms] by blast
  then show thesis by (intro that [of token]) (auto simp: later_def)
qed

text \<open>C24: The UPnP mapper deletes a port mapping only directly after the gateway has shown it the entry of that port, enabled, for its own
  internal port, and with the random token of this run in its description; whatever the gateway answers, the clock
  shows and the context does.\<close>

theorem upnp_deletes_own_entries:
  assumes "run_state (upnpRun n h running timing port) [] = (Inr outcome, tr)"
    and "tr = after @ Called (Deleted g external err) # before"
  shows "\<exists>entry before' token. before = Called (Lookup g external (Inr entry)) # before' \<and>
    peEnabled entry \<and> peInternalPort entry = port \<and> peDescription entry = ''Bork-'' @ hexBytes token \<and>
    last tr = RandomRead mappingTokenBytes (Inr token)"
proof -
  obtain token where run: "last tr = RandomRead mappingTokenBytes (Inr token)" "everyEvent (upnpEvent port (''Bork-'' @ hexBytes token)) tr"
    using assms(1) by (rule upnp_run)
  have "upnpEvent port (''Bork-'' @ hexBytes token) (Called (Deleted g external err)) before"
    using run(2) unfolding assms(2) by (rule everyEventD)
  then show ?thesis using run(1) by (auto simp: ownEntry_def)
qed

text \<open>Every mapping the UPnP mapper publishes has not expired at the clock read just before, has an external address that is public
  IPv4 and a provider text of at most 96 bytes on one line, and is no promise of the mapper alone: the gateway was asked for that
  port and then showed the enabled entry with the token of this run there, and the mapping expires no later than the lease asked
  for and the lease shown, counted from a time read before the request was sent.\<close>

theorem upnp_published_mappings_granted:
  assumes "run_state (upnpRun n h running timing port) [] = (Inr outcome, tr)"
    and "tr = after @ Published st b # before" and "stMapping st = Some m"
  shows "\<exists>now before' token. before = Clock now # before' \<and> now < mpExpiresAt m \<and>
    publiclyRoutableIPv4 (apAddr (mpExternal m)) \<and> lineText maxProviderLength (mpProvider m) \<and>
    granted port (''Bork-'' @ hexBytes token) (apPort (mpExternal m)) (mpExpiresAt m) before' \<and>
    last tr = RandomRead mappingTokenBytes (Inr token)"
proof -
  obtain token where run: "last tr = RandomRead mappingTokenBytes (Inr token)" "everyEvent (upnpEvent port (''Bork-'' @ hexBytes token)) tr"
    using assms(1) by (rule upnp_run)
  have "upnpEvent port (''Bork-'' @ hexBytes token) (Published st b) before"
    using run(2) unfolding assms(2) by (rule everyEventD)
  then show ?thesis using run(1) assms(3) by (auto simp: publishable_def)
qed

text \<open>C25: The UPnP mapper returns: when its context has ended for good after some number of events, one turn more than that number is
  enough, and it never reads a mapping that is not there.\<close>

theorem upnp_run_returns:
  assumes "\<And>tr. k \<le> length tr \<Longrightarrow> hostErr h tr \<noteq> None"
  shows "\<exists>tr. run_state (upnpRun (Suc k) h False timing port) [] = (Inr Returned, tr) \<or>
    (\<exists>msg. run_state (upnpRun (Suc k) h False timing port) [] = (Inl msg, tr))"
proof -
  have "wp (upnpRun (Suc k) h False timing port) (\<lambda>r tr. r = Inr Returned \<or> isl r) []"
    unfolding upnpRun_def randomMappingDescription_def
    by (intro wp_intros upnp.loop_returns [OF assms, THEN wp_mono])
      (auto simp: upnp.held_def firstState_def)
  then show ?thesis by (cases "run_state (upnpRun (Suc k) h False timing port) []") (auto simp: wp_def isl_def)
qed

section \<open>A run\<close>

definition exampleGateway :: gateway where
  "exampleGateway = \<lparr>gwID = ''igd'', gwProvider = [73, 71, 68], gwLocalAddr = [192, 168, 1, 2]\<rparr>"

definition exampleToken :: string where
  "exampleToken = ''Bork-'' @ hexBytes (replicate mappingTokenBytes 0)"

definition exampleEntry :: portMappingEntry where
  "exampleEntry = \<lparr>peInternalPort = 4000, peInternalIP = ''192.168.1.2'', peEnabled = True, peDescription = exampleToken, peLease = 600\<rparr>"

definition exampleHost :: upnpHost where
  "exampleHost = \<lparr>hostNow = int \<circ> length, hostErr = (\<lambda>tr. if length tr \<ge> 20 then Some [] else None),
     hostRandom = (\<lambda>tr n. Inr (replicate n 0)), hostAccepts = (\<lambda>tr st. True), hostWaits = (\<lambda>tr d. False),
     discoverGateways = (\<lambda>tr. ([None, Some exampleGateway], None)),
     gwLookup = (\<lambda>tr g port. if length tr \<le> 4 then Inl (GatewayErr (Some 714) []) else Inr exampleEntry),
     gwAdd = (\<lambda>tr g external internal ip description lease. None),
     gwExternalIP = (\<lambda>tr g. Inr [56, 46, 56, 46, 56, 46, 56]), gwDelete = (\<lambda>tr g port. None)\<rparr>"

lemma example_host [simp]:
  "hostNow exampleHost tr = int (length tr)" "hostErr exampleHost tr = (if length tr \<ge> 20 then Some [] else None)"
  "hostRandom exampleHost tr n = Inr (replicate n 0)" "hostAccepts exampleHost tr st" "\<not> hostWaits exampleHost tr d"
  "discoverGateways exampleHost tr = ([None, Some exampleGateway], None)"
  "gwLookup exampleHost tr g port = (if length tr \<le> 4 then Inl (GatewayErr (Some 714) []) else Inr exampleEntry)"
  "gwAdd exampleHost tr g external internal ip description lease = None"
  "gwExternalIP exampleHost tr g = Inr [56, 46, 56, 46, 56, 46, 56]" "gwDelete exampleHost tr g port = None"
  by (simp_all add: exampleHost_def)

lemma example_local: "validLocalAddress [192, 168, 1, 2] = Inr (Addr4 0xC0A80102)"
  by (code_simp)

lemma example_local_text: "string4 0xC0A80102 = ''192.168.1.2''"
  by (code_simp)

lemma example_external: "ParseAddr (textOf (TrimSpace [56, 46, 56, 46, 56, 46, 56])) = Some (Addr4 0x08080808)"
proof -
  have "TrimSpace [56, 46, 56, 46, 56, 46, 56] = [56, 46, 56, 46, 56, 46, 56]"
    using rightTrimmed_ascii [of 56 "[56, 46, 56, 46, 56, 46]"] by (intro TrimSpace_id) (simp_all add: IsSpace_def)
  moreover have "ParseAddr (textOf [56, 46, 56, 46, 56, 46, 56]) = Some (Addr4 0x08080808)" by code_simp
  ultimately show ?thesis by simp
qed

lemma example_public: "publiclyRoutableIPv4 (Addr4 0x08080808)"
  by (code_simp)

lemma example_provider: "safeProvider [73, 71, 68] = [73, 71, 68]"
  by (code_simp)

definition exampleTiming :: mapperTiming where
  "exampleTiming = normalizeTiming defaultMapperTiming"

lemma example_lease: "leaseSeconds (tmLease exampleTiming) = 3600"
  by (code_simp)

definition exampleMapping :: ownedMapping where
  "exampleMapping =
     \<lparr>omGateway = exampleGateway, omInternalPort = 4000, omInternalIP = ''192.168.1.2'', omExternalPort = 4000,
      omDescription = exampleToken, omLease = 600, omConfirmed = True, omAdvertised = True,
      omMapping = \<lparr>mpExternal = AddrPortFrom (Addr4 0x08080808) 4000, mpProvider = [73, 71, 68], mpExpiresAt = 600000000005\<rparr>\<rparr>"

definition exampleTrace :: upnpTrace where
  "exampleTrace =
     [Called (ExternalIP exampleGateway (Inr [56, 46, 56, 46, 56, 46, 56])),
      Called (Lookup exampleGateway 4000 (Inr exampleEntry)),
      Called (Added exampleGateway 4000 4000 ''192.168.1.2'' exampleToken 3600 None), Clock 5,
      Called (Lookup exampleGateway 4000 (Inl (GatewayErr (Some 714) [])))]"

lemma example_create:
  "length tr = 4 \<Longrightarrow> run_state (create exampleHost exampleGateway 4000 exampleToken 3600) tr =
    ((Some exampleMapping, None), exampleTrace @ tr)"
  by (simp add: create_def exampleGateway_def [THEN arg_cong [of _ _ gwLocalAddr]] exampleGateway_def [THEN arg_cong [of _ _ gwProvider]]
      example_local createLoop.simps attemptPort_def lookupMapping_def getSpecificPortMapping_def isUPnPError_def clock_def
      addMapping_def mappingMatches_def exampleEntry_def judgeAdded_def finishCreate_def queryExternalAddress_def
      externalIPAddress_def example_local_text example_external example_public example_provider newOwnedMapping_def
      newMappingOwnership_def noMapping_def conservativeLease_def leaseEnd_def Let_def exampleMapping_def exampleTrace_def)

lemma example_establish:
  "run_state (upnpEstablish exampleHost 4000 exampleToken exampleTiming) [c, e] =
    ((Some exampleMapping, None), exampleTrace @ [ContextErr None, Called (Discovered [None, Some exampleGateway] None), c, e])"
  by (simp add: upnpEstablish_def discoverCall_def ctxErr_def example_lease example_create exampleGateway_def [THEN arg_cong [of _ _ gwID]]
    split: prod.split)

lemma example_mapping [simp]:
  "omMapping exampleMapping = \<lparr>mpExternal = AddrPortFrom (Addr4 0x08080808) 4000, mpProvider = [73, 71, 68], mpExpiresAt = 600000000005\<rparr>"
  "omAdvertised exampleMapping" "length exampleTrace = 5" "omGateway exampleMapping = exampleGateway" "omExternalPort exampleMapping = 4000"
  "ownedMatches exampleMapping exampleEntry"
  by (simp_all add: exampleMapping_def exampleTrace_def ownedMatches_def mappingMatches_def exampleEntry_def)

definition exampleState :: State where
  "exampleState = \<lparr>stMapping = Some (omMapping exampleMapping), stError = [], stRetryAfter = None\<rparr>"

definition exampleStart :: upnpTrace where
  "exampleStart = [ContextErr None, Called (Discovered [None, Some exampleGateway] None), ContextErr None,
     RandomRead mappingTokenBytes (Inr (replicate mappingTokenBytes 0))]"

definition examplePublished :: upnpTrace where
  "examplePublished = Clock 11 # Clock 10 # ContextErr None # exampleTrace @ exampleStart"

lemma example_upnp_turn:
  "run_state (mapperTurn exampleHost (upnpOps exampleHost 4000 exampleToken exampleTiming) exampleTiming (firstState exampleTiming))
      [RandomRead mappingTokenBytes (Inr (replicate mappingTokenBytes 0))] =
    (Stop (Some exampleMapping), Waited 239999999992 False # Clock 13 # Published exampleState True # examplePublished)"
  by (simp add: mapperTurn_def ctxErr_def dropExpired_def clock_def attemptMapping_def upnpOps_simps firstState_def example_establish
    mappingValidAt_def announceMapping_def publishState_def waitContext_def activeMappingState_def errorState_def boundedText_def
    mappingRefreshDelay_def exampleState_def exampleStart_def examplePublished_def
    exampleMapping_def [THEN arg_cong [of _ _ omLease]])

lemma example_upnp_run:
  "run_state (upnpRun 1 exampleHost False defaultMapperTiming 4000) [] =
    (Inr Returned, [Called (Deleted exampleGateway 4000 None), Called (Lookup exampleGateway 4000 (Inr exampleEntry)),
       Waited 239999999992 False, Clock 13, Published exampleState True] @ examplePublished)"
  by (simp add: upnpRun_def randomMappingDescription_def readFull_def example_upnp_turn upnpOps_simps upnpCleanup_def
    deleteOwnedMapping_def lookupMapping_def getSpecificPortMapping_def deletePortMapping_def examplePublished_def
    flip: exampleTiming_def exampleToken_def [simplified])

theorem upnp_deletes_own_entries_witness:
  "\<exists>entry before' token.
    [Called (Lookup exampleGateway 4000 (Inr exampleEntry)), Waited 239999999992 False, Clock 13, Published exampleState True] @
      examplePublished = Called (Lookup exampleGateway 4000 (Inr entry)) # before' \<and>
    peEnabled entry \<and> peInternalPort entry = 4000 \<and> peDescription entry = ''Bork-'' @ hexBytes token \<and>
    last ([Called (Deleted exampleGateway 4000 None), Called (Lookup exampleGateway 4000 (Inr exampleEntry)),
       Waited 239999999992 False, Clock 13, Published exampleState True] @ examplePublished) =
      RandomRead mappingTokenBytes (Inr token)"
  by (rule upnp_deletes_own_entries [OF example_upnp_run, of "[]"]) simp

theorem upnp_published_mappings_granted_witness:
  "\<exists>now before' token. examplePublished = Clock now # before' \<and> now < mpExpiresAt (omMapping exampleMapping) \<and>
    publiclyRoutableIPv4 (apAddr (mpExternal (omMapping exampleMapping))) \<and>
    lineText maxProviderLength (mpProvider (omMapping exampleMapping)) \<and>
    granted 4000 (''Bork-'' @ hexBytes token) (apPort (mpExternal (omMapping exampleMapping)))
      (mpExpiresAt (omMapping exampleMapping)) before' \<and>
    last ([Called (Deleted exampleGateway 4000 None), Called (Lookup exampleGateway 4000 (Inr exampleEntry)),
       Waited 239999999992 False, Clock 13, Published exampleState True] @ examplePublished) =
      RandomRead mappingTokenBytes (Inr token)"
  by (rule upnp_published_mappings_granted [OF example_upnp_run,
      of "[Called (Deleted exampleGateway 4000 None), Called (Lookup exampleGateway 4000 (Inr exampleEntry)),
        Waited 239999999992 False, Clock 13]" exampleState True])
    (simp_all add: exampleState_def)

theorem upnp_run_returns_witness:
  "\<exists>tr. run_state (upnpRun (Suc 20) exampleHost False defaultMapperTiming 4000) [] = (Inr Returned, tr) \<or>
    (\<exists>msg. run_state (upnpRun (Suc 20) exampleHost False defaultMapperTiming 4000) [] = (Inl msg, tr))"
  by (rule upnp_run_returns) simp

end
