(* ===== verification/NatPmp.thy ===== *)
theory NatPmp
  imports Mapper
begin

text \<open>
  The NAT-PMP mapper, \<open>internal/networking/portmap/natpmp.go\<close>.  NAT-PMP knows neither tokens nor a way to read a mapping; the
  mapper asks the gateway for its address and then for a port, and drops its mapping by asking for a lifetime of zero.  The
  default route and the protocol library are outside.
\<close>

section \<open>The gateway\<close>

definition providerNATPMP :: bytes where
  "providerNATPMP = bytes_of ''NAT-PMP''"

record natPMPExternalResult =
  neAddress :: Addr
  neEpoch :: uint32

record natPMPPortResult =
  nrEpoch :: uint32
  nrInternalPort :: uint16
  nrExternalPort :: uint16
  nrLifetime :: uint32

datatype natpmpCall =
    FoundGateways "bytes list" "bytes option"
  | Remaining "duration option"
  | NewClient Addr duration bool
  | GotAddress Addr "bytes + natPMPExternalResult"
  | GotPort Addr uint16 uint16 uint32 "bytes + natPMPPortResult"

type_synonym 'a natpmpIO = "(natpmpCall, 'a) mapperIO"
type_synonym natpmpTrace = "natpmpCall mapperEvent list"

text \<open>The answers of the library: \<open>GetExternalAddress\<close> and \<open>AddPortMapping\<close>, \<open>None\<close> without an error being a missing response.\<close>

record natpmpHost = "natpmpCall host" +
  findGateways :: "natpmpTrace \<Rightarrow> bytes list \<times> bytes option"
  remainingTime :: "natpmpTrace \<Rightarrow> duration option"
  makesClient :: "natpmpTrace \<Rightarrow> Addr \<Rightarrow> duration \<Rightarrow> bool"
  libExternalAddress :: "natpmpTrace \<Rightarrow> Addr \<Rightarrow> bytes + (uint32 \<times> uint32) option"
  libAddPortMapping :: "natpmpTrace \<Rightarrow> Addr \<Rightarrow> uint16 \<Rightarrow> uint16 \<Rightarrow> uint32 \<Rightarrow> bytes + natPMPPortResult option"

definition clientExternalAddress :: "natpmpHost \<Rightarrow> Addr \<Rightarrow> (bytes + natPMPExternalResult) natpmpIO" where
  "clientExternalAddress h g =
     ask (\<lambda>tr. case libExternalAddress h tr g of
         Inl err \<Rightarrow> Inl err
       | Inr None \<Rightarrow> Inl (bytes_of ''NAT-PMP gateway returned no address response'')
       | Inr (Some (address, epoch)) \<Rightarrow> Inr \<lparr>neAddress = Addr4 address, neEpoch = epoch\<rparr>) (\<lambda>r. Called (GotAddress g r))"

definition addUDPMapping :: "natpmpHost \<Rightarrow> Addr \<Rightarrow> uint16 \<Rightarrow> uint16 \<Rightarrow> uint32 \<Rightarrow> (bytes + natPMPPortResult) natpmpIO" where
  "addUDPMapping h g internalPort externalPort lifetime =
     ask (\<lambda>tr. case libAddPortMapping h tr g internalPort externalPort lifetime of
         Inl err \<Rightarrow> Inl err
       | Inr None \<Rightarrow> Inl (bytes_of ''NAT-PMP gateway returned no mapping response'')
       | Inr (Some r) \<Rightarrow> Inr r) (\<lambda>r. Called (GotPort g internalPort externalPort lifetime r))"

definition newClient :: "natpmpHost \<Rightarrow> Addr \<Rightarrow> duration \<Rightarrow> bool natpmpIO" where
  "newClient h g timeout = ask (\<lambda>tr. makesClient h tr g timeout) (\<lambda>b. Called (NewClient g timeout b))"

definition validNATPMPGateway :: "bytes \<Rightarrow> bytes + Addr" where
  "validNATPMPGateway ip =
     (case AddrFromSlice ip of
        None \<Rightarrow> Inl (bytes_of ''NAT-PMP gateway address is invalid'')
      | Some address \<Rightarrow>
          let address = Unmap address
          in if \<not> Is4 address \<or> \<not> IsGlobalUnicast address \<or> IsLoopback address \<or> IsLinkLocalUnicast address
             then Inl (bytes_of ''NAT-PMP gateway is not usable IPv4'') else Inr address)"

section \<open>An owned mapping\<close>

record natPMPMapping =
  nmGateway :: Addr
  nmInternalPort :: uint16
  nmExternalPort :: uint16
  nmLease :: uint32
  nmAdvertised :: bool
  nmMapping :: Mapping

definition newNATPMPMapping :: "Addr \<Rightarrow> uint16 \<Rightarrow> Addr \<Rightarrow> uint32 \<Rightarrow> time \<Rightarrow> natPMPMapping" where
  "newNATPMPMapping g internalPort externalAddress lease started =
     \<lparr>nmGateway = g, nmInternalPort = internalPort, nmExternalPort = internalPort, nmLease = lease, nmAdvertised = False,
      nmMapping = \<lparr>mpExternal = AddrPortFrom externalAddress internalPort, mpProvider = providerNATPMP,
        mpExpiresAt = leaseEnd started lease\<rparr>\<rparr>"

definition applyNATPMPResult ::
  "natPMPMapping \<Rightarrow> natPMPExternalResult \<Rightarrow> natPMPPortResult \<Rightarrow> uint32 \<Rightarrow> time \<Rightarrow> bytes + natPMPMapping" where
  "applyNATPMPResult owned external result requested started =
     (if nrInternalPort result \<noteq> nmInternalPort owned then Inl (bytes_of ''NAT-PMP gateway returned a different internal port'')
      else if nrExternalPort result = 0 then Inl (bytes_of ''NAT-PMP gateway returned a zero external port'')
      else if nrLifetime result = 0 then Inl (bytes_of ''NAT-PMP gateway returned a zero mapping lifetime'')
      else if nrEpoch result < neEpoch external
      then Inl (bytes_of ''NAT-PMP gateway restarted between address query and mapping'')
      else
        let lease = conservativeLease requested (nrLifetime result)
        in Inr (owned\<lparr>nmExternalPort := nrExternalPort result, nmLease := lease, nmAdvertised := True,
             nmMapping := (nmMapping owned)\<lparr>mpExternal := AddrPortFrom (neAddress external) (nrExternalPort result),
               mpExpiresAt := leaseEnd started lease\<rparr>\<rparr>))"

section \<open>The operations\<close>

text \<open>The timeout of a client is that of the operation, or what the context leaves.\<close>

definition operationClient :: "natpmpHost \<Rightarrow> Addr \<Rightarrow> duration \<Rightarrow> bytes option natpmpIO" where
  "operationClient h g timeout = do {
     cancelled \<leftarrow> ctxErr h;
     if cancelled \<noteq> None then pass cancelled
     else do {
       remaining \<leftarrow> ask (remainingTime h) (\<lambda>r. Called (Remaining r));
       if remaining \<noteq> None \<and> the remaining \<le> 0 then pass (Some (bytes_of ''context deadline exceeded''))
       else do {
         let timeout = (if remaining \<noteq> None \<and> (timeout \<le> 0 \<or> the remaining < timeout) then the remaining else timeout);
         let timeout = (if timeout \<le> 0 then operationTimeout else timeout);
         available \<leftarrow> newClient h g timeout;
         pass (if available then None else Some (bytes_of ''NAT-PMP client is unavailable''))
       }
     }
   }"

definition queryNATPMPExternalAddress :: "natpmpHost \<Rightarrow> Addr \<Rightarrow> (bytes + natPMPExternalResult) natpmpIO" where
  "queryNATPMPExternalAddress h g = do {
     cancelled \<leftarrow> ctxErr h;
     (case cancelled of
        Some err \<Rightarrow> pass (Inl err)
      | None \<Rightarrow> do {
          r \<leftarrow> clientExternalAddress h g;
          (case r of
             Inl err \<Rightarrow> pass (Inl (bytes_of ''query NAT-PMP external address: '' @ err))
           | Inr result \<Rightarrow> do {
               cancelled \<leftarrow> ctxErr h;
               (case cancelled of
                  Some err \<Rightarrow> pass (Inl err)
                | None \<Rightarrow>
                    let result = result\<lparr>neAddress := Unmap (neAddress result)\<rparr>
                    in pass (if \<not> publiclyRoutableIPv4 (neAddress result)
                      then Inl (bytes_of ''NAT-PMP external address is not public IPv4'') else Inr result))
             })
        })
   }"

definition natpmpCreate :: "natpmpHost \<Rightarrow> Addr \<Rightarrow> uint16 \<Rightarrow> uint32 \<Rightarrow> duration \<Rightarrow> (natPMPMapping option \<times> bytes option) natpmpIO" where
  "natpmpCreate h g internalPort lease timeout = do {
     err \<leftarrow> operationClient h g timeout;
     if err \<noteq> None then pass (None, err)
     else do {
       r \<leftarrow> queryNATPMPExternalAddress h g;
       (case r of
          Inl err \<Rightarrow> pass (None, Some err)
        | Inr external \<Rightarrow> do {
            cancelled \<leftarrow> ctxErr h;
            if cancelled \<noteq> None then pass (None, cancelled)
            else do {
              started \<leftarrow> clock h;
              let owned = newNATPMPMapping g internalPort (neAddress external) lease started;
              r \<leftarrow> addUDPMapping h g internalPort internalPort lease;
              (case r of
                 Inl err \<Rightarrow> pass (Some owned, Some (bytes_of ''add NAT-PMP UDP mapping: '' @ err))
               | Inr result \<Rightarrow>
                   (case applyNATPMPResult owned external result lease started of
                      Inl err \<Rightarrow> pass (Some owned, Some err)
                    | Inr owned \<Rightarrow> do {
                        cancelled \<leftarrow> ctxErr h;
                        pass (Some owned, cancelled)
                      }))
            }
          })
     }
   }"

fun natpmpEstablishLoop ::
  "natpmpHost \<Rightarrow> uint16 \<Rightarrow> uint32 \<Rightarrow> duration \<Rightarrow> bytes list \<Rightarrow> Addr list \<Rightarrow> nat \<Rightarrow> errorSummary \<Rightarrow>
    (natPMPMapping option \<times> bytes option) natpmpIO" where
  "natpmpEstablishLoop h internalPort lease timeout [] seen attempted failures =
     (let failures = (if attempted = 0 then addText failures (bytes_of ''no usable IPv4 default gateway found'') else failures)
      in pass (None, Some (summaryErr failures (bytes_of ''create NAT-PMP UDP mapping''))))"
| "natpmpEstablishLoop h internalPort lease timeout (rawGateway # gateways) seen attempted failures =
     (case validNATPMPGateway rawGateway of
        Inl err \<Rightarrow>
          natpmpEstablishLoop h internalPort lease timeout gateways seen attempted (addFailure failures (bytes_of ''gateway'') (Some err))
      | Inr g \<Rightarrow>
          if g \<in> set seen then natpmpEstablishLoop h internalPort lease timeout gateways seen attempted failures
          else do {
            (created, err) \<leftarrow> natpmpCreate h g internalPort lease timeout;
            if created \<noteq> None then pass (created, err)
            else do {
              cancelled \<leftarrow> ctxErr h;
              if cancelled \<noteq> None then pass (None, cancelled)
              else natpmpEstablishLoop h internalPort lease timeout gateways (g # seen) (attempted + 1)
                (addFailure failures (bytes_of (addrString g)) err)
            }
          })"

definition natpmpEstablish :: "natpmpHost \<Rightarrow> uint16 \<Rightarrow> mapperTiming \<Rightarrow> (natPMPMapping option \<times> bytes option) natpmpIO" where
  "natpmpEstablish h internalPort timing = do {
     (gateways, discoveryErr) \<leftarrow> ask (findGateways h) (\<lambda>(gateways, err). Called (FoundGateways gateways err));
     cancelled \<leftarrow> ctxErr h;
     if cancelled \<noteq> None then pass (None, cancelled)
     else natpmpEstablishLoop h internalPort (leaseSeconds (tmLease timing)) (tmOperation timing) gateways [] 0
       (addFailure noFailures (bytes_of ''discovery'') discoveryErr)
   }"

definition natpmpRefresh :: "natpmpHost \<Rightarrow> duration \<Rightarrow> natPMPMapping \<Rightarrow> (natPMPMapping option \<times> bytes option) natpmpIO" where
  "natpmpRefresh h timeout owned = do {
     err \<leftarrow> operationClient h (nmGateway owned) timeout;
     if err \<noteq> None then pass (Some owned, err)
     else do {
       r \<leftarrow> queryNATPMPExternalAddress h (nmGateway owned);
       (case r of
          Inl err \<Rightarrow> pass (Some owned, Some (bytes_of ''query public IPv4 before NAT-PMP renewal: '' @ err))
        | Inr external \<Rightarrow> do {
            cancelled \<leftarrow> ctxErr h;
            if cancelled \<noteq> None then pass (Some owned, cancelled)
            else do {
              started \<leftarrow> clock h;
              r \<leftarrow> addUDPMapping h (nmGateway owned) (nmInternalPort owned) (nmExternalPort owned) (nmLease owned);
              (case r of
                 Inl err \<Rightarrow> pass (Some owned, Some (bytes_of ''renew NAT-PMP UDP mapping: '' @ err))
               | Inr result \<Rightarrow>
                   (case applyNATPMPResult owned external result (nmLease owned) started of
                      Inl err \<Rightarrow> pass (Some owned, Some (bytes_of ''validate renewed NAT-PMP UDP mapping: '' @ err))
                    | Inr owned \<Rightarrow> do {
                        cancelled \<leftarrow> ctxErr h;
                        pass (Some owned, cancelled)
                      }))
            }
          })
     }
   }"

definition natpmpCleanup :: "natpmpHost \<Rightarrow> duration \<Rightarrow> natPMPMapping \<Rightarrow> unit natpmpIO" where
  "natpmpCleanup h timeout owned =
     (if \<not> nmAdvertised owned then pass ()
      else do {
        let timeout = (if timeout \<le> 0 then cleanupTimeout else timeout);
        available \<leftarrow> newClient h (nmGateway owned) timeout;
        if \<not> available then pass ()
        else do {
          _ \<leftarrow> addUDPMapping h (nmGateway owned) (nmInternalPort owned) 0 0;
          pass ()
        }
      })"

section \<open>The mapper\<close>

definition natpmpTiming :: mapperTiming where
  "natpmpTiming = defaultMapperTiming\<lparr>tmOperation := 2 * Second, tmCleanup := 2 * Second\<rparr>"

definition natpmpOps :: "natpmpHost \<Rightarrow> uint16 \<Rightarrow> mapperTiming \<Rightarrow> (natpmpCall, natPMPMapping) mapperOps" where
  "natpmpOps h internalPort timing =
     \<lparr>opMapping = nmMapping, opAdvertised = nmAdvertised, opLease = nmLease,
      opExpired = bytes_of ''NAT-PMP mapping expired before it could be published'', opCleanup = natpmpCleanup h (tmCleanup timing),
      opEstablish = natpmpEstablish h internalPort timing, opRefresh = natpmpRefresh h (tmOperation timing)\<rparr>"

definition natpmpRun :: "nat \<Rightarrow> natpmpHost \<Rightarrow> bool \<Rightarrow> mapperTiming \<Rightarrow> uint16 \<Rightarrow> (bytes + runOutcome) natpmpIO" where
  "natpmpRun n h running timing internalPort =
     (if internalPort = 0 then pass (Inl (bytes_of ''NAT-PMP requires a non-zero internal port''))
      else if running then pass (Inl (bytes_of ''NAT-PMP mapper is already running''))
      else do {
        let timing = normalizeTiming timing;
        outcome \<leftarrow> mapperLoop n h (natpmpOps h internalPort timing) timing (firstState timing);
        pass (Inr outcome)
      })"

section \<open>What the mapper claims\<close>

text \<open>
  A mapping claimed was granted: the gateway said its public address, then, after the clock was read, gave this port of it, without
  a restart in between, for a lifetime the claim does not exceed.
\<close>

definition leased :: "uint16 \<Rightarrow> Addr \<Rightarrow> AddrPort \<Rightarrow> time \<Rightarrow> natpmpTrace \<Rightarrow> bool" where
  "leased internalPort g external expires tr \<longleftrightarrow>
     (\<exists>port lifetime result started e1 e2 answer.
        happened [Called (GotPort g internalPort port lifetime (Inr result)), Clock started, ContextErr e1, ContextErr e2,
          Called (GotAddress g (Inr answer))] tr \<and>
        nrInternalPort result = internalPort \<and> nrExternalPort result \<noteq> 0 \<and> nrLifetime result \<noteq> 0 \<and> neEpoch answer \<le> nrEpoch result \<and>
        external = AddrPortFrom (Unmap (neAddress answer)) (nrExternalPort result) \<and>
        expires \<le> leaseEnd started lifetime \<and> expires \<le> leaseEnd started (nrLifetime result))"

fun natpmpEvent :: "uint16 \<Rightarrow> natpmpCall mapperEvent \<Rightarrow> natpmpTrace \<Rightarrow> bool" where
  "natpmpEvent internalPort (Called (GotPort g port external lifetime r)) before =
     (port = internalPort \<and> (lifetime = 0 \<longrightarrow> external = 0 \<and> (\<exists>address expires. leased internalPort g address expires before)))"
| "natpmpEvent internalPort (Published st b) before =
     (lineText maxErrorLength (stError st) \<and>
      (case stMapping st of
         None \<Rightarrow> True
       | Some m \<Rightarrow>
           (\<exists>now before'. before = Clock now # before' \<and> now < mpExpiresAt m \<and> mpProvider m = providerNATPMP \<and>
              publiclyRoutableIPv4 (apAddr (mpExternal m)) \<and> (\<exists>g. leased internalPort g (mpExternal m) (mpExpiresAt m) before'))))"
| "natpmpEvent internalPort e before = True"

definition natpmpVouched :: "uint16 \<Rightarrow> natPMPMapping \<Rightarrow> natpmpTrace \<Rightarrow> bool" where
  "natpmpVouched internalPort mine tr \<longleftrightarrow>
     nmInternalPort mine = internalPort \<and> nmLease mine \<noteq> 0 \<and> mpProvider (nmMapping mine) = providerNATPMP \<and>
     (nmAdvertised mine \<longrightarrow> publiclyRoutableIPv4 (apAddr (mpExternal (nmMapping mine))) \<and>
        leased internalPort (nmGateway mine) (mpExternal (nmMapping mine)) (mpExpiresAt (nmMapping mine)) tr)"

lemma leased_later: "leased i g external expires tr \<Longrightarrow> later tr tr' \<Longrightarrow> leased i g external expires tr'"
  unfolding leased_def by (blast intro: happened_later)

lemma leased_Cons: "leased i g external expires tr \<Longrightarrow> leased i g external expires (e # tr)"
  by (rule leased_later) auto

lemma vouched_natpmp_later: "natpmpVouched i mine tr \<Longrightarrow> later tr tr' \<Longrightarrow> natpmpVouched i mine tr'"
  by (auto simp: natpmpVouched_def intro: leased_later)

abbreviation natpmpKeeps :: "uint16 \<Rightarrow> natpmpTrace \<Rightarrow> natpmpTrace \<Rightarrow> bool" where
  "natpmpKeeps internalPort \<equiv> keeps (natpmpEvent internalPort)"

lemma keeps_silent:
  "natpmpKeeps i tr0 tr \<Longrightarrow> natpmpKeeps i tr0 (Clock t # tr)"
  "natpmpKeeps i tr0 tr \<Longrightarrow> natpmpKeeps i tr0 (ContextErr e # tr)"
  "natpmpKeeps i tr0 tr \<Longrightarrow> natpmpKeeps i tr0 (Waited x b # tr)"
  "natpmpKeeps i tr0 tr \<Longrightarrow> natpmpKeeps i tr0 (Called (FoundGateways gs err) # tr)"
  "natpmpKeeps i tr0 tr \<Longrightarrow> natpmpKeeps i tr0 (Called (Remaining r) # tr)"
  "natpmpKeeps i tr0 tr \<Longrightarrow> natpmpKeeps i tr0 (Called (NewClient g timeout b) # tr)"
  "natpmpKeeps i tr0 tr \<Longrightarrow> natpmpKeeps i tr0 (Called (GotAddress g answer) # tr)"
  "natpmpKeeps i tr0 tr \<Longrightarrow> lifetime \<noteq> 0 \<Longrightarrow> natpmpKeeps i tr0 (Called (GotPort g i port lifetime r') # tr)"
  by (simp_all add: keeps_def later_Cons)

lemma client_keeps:
  assumes "natpmpKeeps i tr0 tr"
  shows "wp (operationClient h g timeout) (\<lambda>_. natpmpKeeps i tr0) tr"
  unfolding operationClient_def newClient_def
  by (intro wp_intros) (use assms in \<open>auto intro!: keeps_silent\<close>)

lemma query_keeps:
  assumes "natpmpKeeps i tr0 tr"
  shows "wp (queryNATPMPExternalAddress h g) (\<lambda>r tr'. natpmpKeeps i tr0 tr' \<and>
    (\<forall>external. r = Inr external \<longrightarrow> publiclyRoutableIPv4 (neAddress external) \<and>
      (\<exists>answer before. tr' = ContextErr None # Called (GotAddress g (Inr answer)) # before \<and> neAddress external = Unmap (neAddress answer) \<and>
        neEpoch external = neEpoch answer))) tr"
  unfolding queryNATPMPExternalAddress_def clientExternalAddress_def
  by (intro wp_intros) (use assms in \<open>auto intro!: keeps_silent\<close>)

lemma conservativeLease_0 [simp]: "conservativeLease requested reported = 0 \<longleftrightarrow> requested = 0"
  by (auto simp: conservativeLease_def word_less_nat_alt)

lemma conservative_leases:
  "reported \<noteq> 0 \<Longrightarrow> leaseEnd started (conservativeLease lease reported) \<le> leaseEnd started lease \<and>
    leaseEnd started (conservativeLease lease reported) \<le> leaseEnd started reported"
  by (auto simp: conservativeLease_def intro: leaseEnd_mono)

lemma leased_now:
  assumes "applyNATPMPResult owned external result lease started = Inr mine" "nmInternalPort owned = i" "neAddress external = Unmap (neAddress answer)"
    "neEpoch external = neEpoch answer"
  shows "leased i g (mpExternal (nmMapping mine)) (mpExpiresAt (nmMapping mine))
    (Called (GotPort g i port lease (Inr result)) # Clock started # ContextErr e1 # ContextErr e2 #
      Called (GotAddress g (Inr answer)) # before)"
proof -
  have "happened [Called (GotPort g i port lease (Inr result)), Clock started, ContextErr e1, ContextErr e2, Called (GotAddress g (Inr answer))]
      (Called (GotPort g i port lease (Inr result)) # Clock started # ContextErr e1 # ContextErr e2 #
        Called (GotAddress g (Inr answer)) # before)"
    using happened_now [of "[_, _, _, _, _]" before] by simp
  moreover have "nrInternalPort result = i" "nrExternalPort result \<noteq> 0" "nrLifetime result \<noteq> 0" "neEpoch answer \<le> nrEpoch result"
      "mpExternal (nmMapping mine) = AddrPortFrom (Unmap (neAddress answer)) (nrExternalPort result)"
      "mpExpiresAt (nmMapping mine) \<le> leaseEnd started lease" "mpExpiresAt (nmMapping mine) \<le> leaseEnd started (nrLifetime result)"
    using assms conservative_leases [of "nrLifetime result" started lease]
    by (auto simp: applyNATPMPResult_def Let_def split: if_splits)
  ultimately show ?thesis unfolding leased_def by blast
qed

lemma applied:
  assumes "applyNATPMPResult owned external result lease started = Inr mine"
  shows "nmInternalPort mine = nmInternalPort owned" "nmGateway mine = nmGateway owned" "nmLease mine = conservativeLease lease (nrLifetime result)"
    "mpProvider (nmMapping mine) = mpProvider (nmMapping owned)" "apAddr (mpExternal (nmMapping mine)) = neAddress external"
  using assms by (auto simp: applyNATPMPResult_def Let_def split: if_splits)

lemma vouched_new_natpmp: "lease \<noteq> 0 \<Longrightarrow> natpmpVouched i (newNATPMPMapping g i a lease started) tr"
  by (simp add: natpmpVouched_def newNATPMPMapping_def)

lemma vouched_applied:
  assumes "applyNATPMPResult owned external result lease started = Inr mine" "neAddress external = Unmap (neAddress answer)"
    "neEpoch external = neEpoch answer" "nmInternalPort owned = i" "nmGateway owned = g" "lease \<noteq> 0"
    "mpProvider (nmMapping owned) = providerNATPMP" "publiclyRoutableIPv4 (neAddress external)"
  shows "natpmpVouched i mine (ContextErr e # Called (GotPort g i port lease (Inr result)) # Clock started # ContextErr e1 #
    ContextErr e2 # Called (GotAddress g (Inr answer)) # before)"
  using applied [OF assms(1)] leased_now [OF assms(1,4,2,3), THEN leased_later, OF later_Cons, OF later_refl] assms(4-)
  by (simp add: natpmpVouched_def)

lemma new_facts [simp]:
  "nmInternalPort (newNATPMPMapping g i a lease started) = i" "nmGateway (newNATPMPMapping g i a lease started) = g"
  "mpProvider (nmMapping (newNATPMPMapping g i a lease started)) = providerNATPMP"
  by (simp_all add: newNATPMPMapping_def)

lemma natpmpCreate_keeps:
  assumes "natpmpKeeps i tr0 tr" "lease \<noteq> 0"
  shows "wp (natpmpCreate h g i lease timeout) (\<lambda>r tr'. natpmpKeeps i tr0 tr' \<and> pred_option (\<lambda>mine. natpmpVouched i mine tr') (fst r) \<and>
    (fst r = None \<longrightarrow> snd r \<noteq> None)) tr"
  unfolding natpmpCreate_def addUDPMapping_def
  by (intro wp_intros client_keeps [of i tr0, THEN wp_mono] query_keeps [of i tr0, THEN wp_mono])
    (use assms in \<open>auto intro!: keeps_silent vouched_new_natpmp intro: vouched_applied\<close>)

lemma natpmpEstablishLoop_keeps:
  "natpmpKeeps i tr0 tr \<Longrightarrow> lease \<noteq> 0 \<Longrightarrow>
    wp (natpmpEstablishLoop h i lease timeout gateways seen attempted failures) (handsOut (natpmpEvent i) (natpmpVouched i) tr0) tr"
proof (induction gateways arbitrary: seen attempted failures tr)
  case (Cons g gateways)
  show ?case unfolding natpmpEstablishLoop.simps
    by (intro wp_intros natpmpCreate_keeps [of i tr0, THEN wp_mono] Cons.IH)
      (use Cons.prems in \<open>auto simp: handsOut_def intro!: keeps_silent\<close>)
qed (auto intro!: wp_intros simp: handsOut_def)

lemma natpmpEstablish_keeps:
  assumes "leaseSeconds (tmLease timing) \<noteq> 0"
  shows "wp (natpmpEstablish h i timing) (handsOut (natpmpEvent i) (natpmpVouched i) tr) tr"
  unfolding natpmpEstablish_def
  by (intro wp_intros natpmpEstablishLoop_keeps) (use assms in \<open>auto simp: handsOut_def intro!: keeps_silent\<close>)

lemma natpmpRefresh_keeps:
  assumes "natpmpVouched i mine tr"
  shows "wp (natpmpRefresh h timeout mine) (handsOut (natpmpEvent i) (natpmpVouched i) tr) tr"
proof -
  have kept: "natpmpVouched i mine tr'" if "natpmpKeeps i tr tr'" for tr'
    using assms that by (auto simp: keeps_def intro: vouched_natpmp_later)
  have mine: "nmInternalPort mine = i" "nmLease mine \<noteq> 0" "mpProvider (nmMapping mine) = providerNATPMP"
    using assms by (simp_all add: natpmpVouched_def)
  show ?thesis unfolding natpmpRefresh_def addUDPMapping_def
    by (intro wp_intros client_keeps [of i tr, THEN wp_mono] query_keeps [of i tr, THEN wp_mono])
      (auto simp: handsOut_def mine intro!: keeps_silent kept intro: vouched_applied)
qed

lemma keeps_dropped:
  assumes "natpmpVouched i mine tr" "nmAdvertised mine"
  shows "natpmpKeeps i tr (Called (GotPort (nmGateway mine) i 0 0 r) # Called (NewClient g' timeout b) # tr)"
proof (rule keeps_Cons)
  show "natpmpKeeps i tr (Called (NewClient g' timeout b) # tr)" by (intro keeps_silent) auto
  have "leased i (nmGateway mine) (mpExternal (nmMapping mine)) (mpExpiresAt (nmMapping mine)) (Called (NewClient g' timeout b) # tr)"
    using assms by (auto simp: natpmpVouched_def intro: leased_Cons)
  then show "natpmpEvent i (Called (GotPort (nmGateway mine) i 0 0 r)) (Called (NewClient g' timeout b) # tr)" by auto
qed

lemma natpmpCleanup_keeps:
  assumes "natpmpVouched i mine tr"
  shows "wp (natpmpCleanup h timeout mine) (\<lambda>_. natpmpKeeps i tr) tr"
proof -
  have mine: "nmInternalPort mine = i" using assms by (simp add: natpmpVouched_def)
  show ?thesis unfolding natpmpCleanup_def newClient_def addUDPMapping_def mine
    by (intro wp_intros) (use assms in \<open>auto intro!: keeps_dropped keeps_silent(1-7)\<close>)
qed

section \<open>The mapper keeps its contract\<close>

lemma natpmpOps_simps:
  "opMapping (natpmpOps h i timing) = nmMapping" "opAdvertised (natpmpOps h i timing) = nmAdvertised"
  "opLease (natpmpOps h i timing) = nmLease" "opCleanup (natpmpOps h i timing) = natpmpCleanup h (tmCleanup timing)"
  "opEstablish (natpmpOps h i timing) = natpmpEstablish h i timing" "opRefresh (natpmpOps h i timing) = natpmpRefresh h (tmOperation timing)"
  by (simp_all add: natpmpOps_def)

lemma normalized_lease: "leaseSeconds (tmLease (normalizeTiming timing)) \<noteq> 0"
proof -
  define seconds where "seconds = tmLease (normalizeTiming timing) div Second"
  have "1 \<le> seconds" using normalizeTiming_ok [of timing] zdiv_mono1 [of Second "tmLease (normalizeTiming timing)" Second] by (simp add: seconds_def)
  then have "(word_of_int seconds :: uint32) \<noteq> 0" if "seconds \<le> 4294967295"
  proof -
    have "uint (word_of_int seconds :: uint32) = seconds"
      using that \<open>1 \<le> seconds\<close> by (simp add: uint_word_of_int)
    then show ?thesis using \<open>1 \<le> seconds\<close> by force
  qed
  then show ?thesis unfolding leaseSeconds_def Let_def seconds_def [symmetric] by auto
qed

interpretation natpmp: mapper h "natpmpOps h i (normalizeTiming timing)" "natpmpEvent i" "natpmpVouched i"
  for h i timing
proof unfold_locales
  fix st :: State and mine tr now b
  assume "lineText maxErrorLength (stError st)" "stMapping st = Some (opMapping (natpmpOps h i (normalizeTiming timing)) mine)"
    "opAdvertised (natpmpOps h i (normalizeTiming timing)) mine" "natpmpVouched i mine tr"
    "now < mpExpiresAt (opMapping (natpmpOps h i (normalizeTiming timing)) mine)"
  then show "natpmpEvent i (Published st b) (Clock now # tr)"
    by (auto simp: natpmpOps_def natpmpVouched_def)
qed (auto simp: natpmpOps_def natpmpEstablish_keeps natpmpRefresh_keeps natpmpCleanup_keeps normalized_lease intro: vouched_natpmp_later)

lemma natpmp_run:
  assumes "run_state (natpmpRun n h running timing port) [] = (Inr outcome, tr)"
  shows "everyEvent (natpmpEvent port) tr" "outcome \<noteq> Panicked"
proof -
  have "wp (natpmpRun n h running timing port) (\<lambda>r tr'. \<forall>outcome. r = Inr outcome \<longrightarrow> everyEvent (natpmpEvent port) tr' \<and> outcome \<noteq> Panicked) []"
    unfolding natpmpRun_def Let_def
    by (intro wp_intros natpmp.loop_keeps [THEN wp_mono]) (auto simp: natpmp.held_def firstState_def keeps_def)
  from wp_run [OF this assms] show "everyEvent (natpmpEvent port) tr" "outcome \<noteq> Panicked" by auto
qed

text \<open>Every mapping the NAT-PMP mapper publishes is live at the clock read just before, public, and leased: a gateway had told that
  address and then, without a restart in between and after the clock was read, granted that port of it to the own internal
  port, for a lifetime, and for a lease asked for, that the claim does not exceed.\<close>

theorem natpmp_published_mappings_leased:
  assumes "run_state (natpmpRun n h running timing port) [] = (Inr outcome, tr)"
    and "tr = after @ Published st b # before" and "stMapping st = Some m"
  shows "\<exists>now before' g. before = Clock now # before' \<and> now < mpExpiresAt m \<and> publiclyRoutableIPv4 (apAddr (mpExternal m)) \<and>
    mpProvider m = providerNATPMP \<and> leased port g (mpExternal m) (mpExpiresAt m) before'"
proof -
  have "natpmpEvent port (Published st b) before"
    using natpmp_run(1) [OF assms(1)] unfolding assms(2) by (rule everyEventD)
  then show ?thesis using assms(3) by auto
qed

section \<open>A run\<close>

definition natpmpExample :: natpmpHost where
  "natpmpExample = \<lparr>hostNow = int \<circ> length, hostErr = (\<lambda>tr. None), hostRandom = (\<lambda>tr n. Inl []), hostAccepts = (\<lambda>tr st. True),
     hostWaits = (\<lambda>tr d. False), findGateways = (\<lambda>tr. ([[192, 168, 1, 1]], None)), remainingTime = (\<lambda>tr. None),
     makesClient = (\<lambda>tr g timeout. True), libExternalAddress = (\<lambda>tr g. Inr (Some (0x08080808, 7))),
     libAddPortMapping = (\<lambda>tr g internal external lifetime.
       Inr (Some \<lparr>nrEpoch = 8, nrInternalPort = internal, nrExternalPort = 5000, nrLifetime = 600\<rparr>))\<rparr>"

lemma natpmp_example_host [simp]:
  "hostNow natpmpExample tr = int (length tr)" "hostErr natpmpExample tr = None" "hostAccepts natpmpExample tr st"
  "\<not> hostWaits natpmpExample tr d" "findGateways natpmpExample tr = ([[192, 168, 1, 1]], None)" "remainingTime natpmpExample tr = None"
  "makesClient natpmpExample tr g timeout" "libExternalAddress natpmpExample tr g = Inr (Some (0x08080808, 7))"
  "libAddPortMapping natpmpExample tr g internal external lifetime =
    Inr (Some \<lparr>nrEpoch = 8, nrInternalPort = internal, nrExternalPort = 5000, nrLifetime = 600\<rparr>)"
  by (simp_all add: natpmpExample_def)

lemma natpmp_example_gateway: "validNATPMPGateway [192, 168, 1, 1] = Inr (Addr4 0xC0A80101)"
  by code_simp

lemma natpmp_example_public: "publiclyRoutableIPv4 (Addr4 0x08080808)"
  by code_simp

lemma natpmp_example_timing:
  "leaseSeconds (tmLease (normalizeTiming natpmpTiming)) = 3600" "tmOperation (normalizeTiming natpmpTiming) = 2000000000"
  "tmCleanup (normalizeTiming natpmpTiming) = 2000000000"
  by code_simp+

definition natpmpExampleMapping :: natPMPMapping where
  "natpmpExampleMapping =
     \<lparr>nmGateway = Addr4 0xC0A80101, nmInternalPort = 4000, nmExternalPort = 5000, nmLease = 600, nmAdvertised = True,
      nmMapping = \<lparr>mpExternal = AddrPortFrom (Addr4 0x08080808) 5000, mpProvider = providerNATPMP, mpExpiresAt = leaseEnd 10 600\<rparr>\<rparr>"

definition natpmpExampleTrace :: natpmpTrace where
  "natpmpExampleTrace =
     [ContextErr None,
      Called (GotPort (Addr4 0xC0A80101) 4000 4000 3600
        (Inr \<lparr>nrEpoch = 8, nrInternalPort = 4000, nrExternalPort = 5000, nrLifetime = 600\<rparr>)),
      Clock 10, ContextErr None, ContextErr None,
      Called (GotAddress (Addr4 0xC0A80101) (Inr \<lparr>neAddress = Addr4 0x08080808, neEpoch = 7\<rparr>)), ContextErr None,
      Called (NewClient (Addr4 0xC0A80101) 2000000000 True), Called (Remaining None), ContextErr None,
      ContextErr None, Called (FoundGateways [[192, 168, 1, 1]] None), ContextErr None]"

lemma natpmp_example_create:
  "length tr = 3 \<Longrightarrow> tr = [ContextErr None, Called (FoundGateways [[192, 168, 1, 1]] None), ContextErr None] \<Longrightarrow>
    run_state (natpmpCreate natpmpExample (Addr4 0xC0A80101) 4000 3600 2000000000) tr =
    ((Some natpmpExampleMapping, None), natpmpExampleTrace)"
  by (simp add: natpmpCreate_def operationClient_def newClient_def ctxErr_def queryNATPMPExternalAddress_def clientExternalAddress_def
    natpmp_example_public clock_def addUDPMapping_def applyNATPMPResult_def newNATPMPMapping_def conservativeLease_def Let_def
    natpmpExampleMapping_def natpmpExampleTrace_def)

lemma natpmp_example_establish:
  "run_state (natpmpEstablish natpmpExample 4000 (normalizeTiming natpmpTiming)) [ContextErr None] =
    ((Some natpmpExampleMapping, None), natpmpExampleTrace)"
  by (simp add: natpmpEstablish_def ctxErr_def natpmp_example_timing natpmp_example_gateway natpmp_example_create)

definition natpmpExampleState :: State where
  "natpmpExampleState = \<lparr>stMapping = Some (nmMapping natpmpExampleMapping), stError = [], stRetryAfter = None\<rparr>"

lemma natpmp_example_turn:
  "run_state (mapperTurn natpmpExample (natpmpOps natpmpExample 4000 (normalizeTiming natpmpTiming)) (normalizeTiming natpmpTiming)
      (firstState (normalizeTiming natpmpTiming))) [] =
    (Stop (Some natpmpExampleMapping),
     [Waited 239999999993 False, Clock 17, Published natpmpExampleState True, Clock 15, Clock 14, ContextErr None] @ natpmpExampleTrace)"
  by (simp add: mapperTurn_def ctxErr_def dropExpired_def clock_def attemptMapping_def natpmpOps_simps firstState_def
    natpmp_example_establish mappingValidAt_def announceMapping_def publishState_def waitContext_def activeMappingState_def
    errorState_def boundedText_def mappingRefreshDelay_def natpmpExampleState_def natpmpExampleMapping_def natpmpExampleTrace_def leaseEnd_def)

lemma natpmp_example_run:
  "run_state (natpmpRun 1 natpmpExample False natpmpTiming 4000) [] =
    (Inr Returned,
     [Called (GotPort (Addr4 0xC0A80101) 4000 0 0 (Inr \<lparr>nrEpoch = 8, nrInternalPort = 4000, nrExternalPort = 5000, nrLifetime = 600\<rparr>)),
      Called (NewClient (Addr4 0xC0A80101) 2000000000 True), Waited 239999999993 False, Clock 17] @
     Published natpmpExampleState True # [Clock 15, Clock 14, ContextErr None] @ natpmpExampleTrace)"
  by (simp add: natpmpRun_def Let_def natpmp_example_turn natpmpOps_simps natpmpCleanup_def natpmp_example_timing newClient_def
    addUDPMapping_def natpmpExampleMapping_def)

theorem natpmp_published_mappings_leased_witness:
  "\<exists>now before' g. [Clock 15, Clock 14, ContextErr None] @ natpmpExampleTrace = Clock now # before' \<and>
    now < mpExpiresAt (nmMapping natpmpExampleMapping) \<and>
    publiclyRoutableIPv4 (apAddr (mpExternal (nmMapping natpmpExampleMapping))) \<and>
    mpProvider (nmMapping natpmpExampleMapping) = providerNATPMP \<and>
    leased 4000 g (mpExternal (nmMapping natpmpExampleMapping)) (mpExpiresAt (nmMapping natpmpExampleMapping)) before'"
  by (rule natpmp_published_mappings_leased [OF natpmp_example_run refl]) (simp add: natpmpExampleState_def)

end
