(* ===== verification/Pcp.thy ===== *)
theory Pcp
  imports PortMap
begin

text \<open>
  The PCP mapper, \<open>internal/networking/portmap/pcp.go\<close>: the MAP request and its response on the wire, the exchange of datagrams with
  the gateway, and the mapper, which keeps one nonce for all its requests and drops its mapping by asking for a lifetime of zero.
  The default route, the socket and the clock are outside.
\<close>

section \<open>The wire\<close>

type_synonym nonce = "96 word"

definition providerPCP :: bytes where
  "providerPCP = bytes_of ''PCP''"

definition pcpVersion :: byte where [simp]: "pcpVersion = 2"
definition pcpMapOpcode :: byte where [simp]: "pcpMapOpcode = 1"
definition pcpResponseBit :: byte where [simp]: "pcpResponseBit = 0x80"
definition pcpUDPProtocol :: byte where [simp]: "pcpUDPProtocol = 17"
definition pcpMapMessageSize :: nat where [simp]: "pcpMapMessageSize = 60"
definition pcpRequestAttempts :: nat where [simp]: "pcpRequestAttempts = 3"
definition pcpGatewayPort :: uint16 where [simp]: "pcpGatewayPort = 5351"
definition pcpReadPoll :: duration where [simp]: "pcpReadPoll = 100 * Millisecond"

record pcpMapResponse =
  prExternal :: AddrPort
  prLifetime :: uint32
  prEpoch :: uint32

fun As16 :: "Addr \<Rightarrow> bytes" where
  "As16 AddrZero = replicate 16 0"
| "As16 (Addr4 w) = put_be 16 (push_bit 32 0xffff OR (ucast w :: id16))"
| "As16 (Addr6 w z) = put_be 16 w"

definition buildPCPMapRequest :: "Addr \<Rightarrow> nonce \<Rightarrow> uint16 \<Rightarrow> uint16 \<Rightarrow> Addr \<Rightarrow> uint32 \<Rightarrow> bytes" where
  "buildPCPMapRequest localAddress nonce internalPort externalPort externalAddress lifetime =
     (let clientAddress = As16 (Unmap localAddress);
          suggestedAddress =
            (if lifetime \<noteq> 0 then
               if addrIsValid externalAddress then As16 (Unmap externalAddress)
               else if Is6 localAddress then As16 (Addr6 0 []) else As16 (Addr4 0)
             else replicate 16 0)
      in [pcpVersion, pcpMapOpcode, 0, 0] @ put_be 4 lifetime @ clientAddress @ put_be 12 nonce @ [pcpUDPProtocol, 0, 0, 0] @
         put_be 2 internalPort @ put_be 2 externalPort @ suggestedAddress)"

definition natPMPUnsupportedVersion :: "bytes \<Rightarrow> bool" where
  "natPMPUnsupportedVersion message =
     (if length message < 4 \<or> message ! 0 \<noteq> 0 \<or> (message ! 1 \<noteq> 0 \<and> message ! 1 \<noteq> 0x80) then False
      else get_be (seg 2 4 message) = (1 :: uint16))"

function validatePCPOptions :: "bytes \<Rightarrow> bytes option" where
  "validatePCPOptions options =
     (if options = [] then None
      else if length options < 4 then Some (bytes_of ''invalid PCP option header'')
      else
        let valueLength = unat (get_be (seg 2 4 options) :: uint16);
            paddedLength = (valueLength + 3) div 4 * 4
        in if paddedLength > length options - 4 then Some (bytes_of ''truncated PCP option'')
           else validatePCPOptions (drop (4 + paddedLength) options))"
  by pat_completeness auto
termination
  by (relation "measure length") (auto simp: Let_def)

declare validatePCPOptions.simps [simp del]

definition usablePCPExternalAddress :: "Addr \<Rightarrow> bool" where
  "usablePCPExternalAddress address \<longleftrightarrow>
     (if Is4 address then publiclyRoutableIPv4 address else Is6 address \<and> IsGlobalUnicast address \<and> \<not> IsPrivate address)"

definition pcpResultText :: "byte \<Rightarrow> string" where
  "pcpResultText code =
     (let results = [''success'', ''unsupported version'', ''not authorized'', ''malformed request'', ''unsupported opcode'',
        ''unsupported option'', ''malformed option'', ''network failure'', ''no resources'', ''unsupported protocol'',
        ''user quota exceeded'', ''cannot provide external address'', ''address mismatch'', ''excessive remote peers'']
      in if unat code < length results then results ! unat code else ''unknown'')"

datatype pcpErr =
    pcpResultError byte uint32
  | pcpPlain bytes

fun pcpErrText :: "pcpErr \<Rightarrow> bytes" where
  "pcpErrText (pcpResultError code lifetime) =
     bytes_of ''PCP result '' @ decimal (unat code) @ bytes_of '' ('' @ bytes_of (pcpResultText code) @ bytes_of '')''"
| "pcpErrText (pcpPlain text) = text"

text \<open>An error with its wrapping, as \<open>errors.As\<close> sees through it.\<close>

record wrappedErr =
  weCause :: pcpErr
  weText :: bytes

definition wrapErr :: "string \<Rightarrow> pcpErr \<Rightarrow> wrappedErr" where
  "wrapErr prefix err = \<lparr>weCause = err, weText = bytes_of prefix @ pcpErrText err\<rparr>"

definition plainErr :: "string \<Rightarrow> wrappedErr" where
  "plainErr text = wrapErr [] (pcpPlain (bytes_of text))"

definition parsePCPMapResponse :: "bytes \<Rightarrow> nonce \<Rightarrow> uint16 \<Rightarrow> pcpErr + pcpMapResponse" where
  "parsePCPMapResponse message nonce internalPort =
     (if natPMPUnsupportedVersion message then Inl (pcpPlain (bytes_of ''PCP gateway does not support version 2''))
      else if length message < pcpMapMessageSize then Inl (pcpPlain (bytes_of ''invalid PCP MAP response size''))
      else if message ! 1 \<noteq> (pcpResponseBit OR pcpMapOpcode) then Inl (pcpPlain (bytes_of ''invalid PCP MAP response header''))
      else if seg 24 36 message \<noteq> put_be 12 nonce \<or> message ! 36 \<noteq> pcpUDPProtocol \<or> get_be (seg 40 42 message) \<noteq> internalPort
      then Inl (pcpPlain (bytes_of ''PCP MAP response does not match request''))
      else
        case validatePCPOptions (drop pcpMapMessageSize message) of
          Some err \<Rightarrow> Inl (pcpPlain err)
        | None \<Rightarrow>
            let resultCode = message ! 3; lifetime = get_be (seg 4 8 message)
            in if message ! 0 \<noteq> pcpVersion then
                 if message ! 0 = 0 \<and> resultCode = 1 then Inl (pcpPlain (bytes_of ''PCP gateway does not support version 2''))
                 else Inl (pcpPlain (bytes_of ''invalid PCP MAP response version''))
               else if resultCode \<noteq> 0 then Inl (pcpResultError resultCode lifetime)
               else if lifetime = 0
               then Inr \<lparr>prExternal = AddrPortFrom AddrZero 0, prLifetime = 0, prEpoch = get_be (seg 8 12 message)\<rparr>
               else
                 let externalPort = get_be (seg 42 44 message); externalAddress = Unmap (Addr6 (get_be (seg 44 60 message)) [])
                 in if externalPort = 0 \<or> \<not> usablePCPExternalAddress externalAddress
                    then Inl (pcpPlain (bytes_of ''PCP gateway returned an unusable external address''))
                    else Inr \<lparr>prExternal = AddrPortFrom externalAddress externalPort, prLifetime = lifetime,
                      prEpoch = get_be (seg 8 12 message)\<rparr>)"

section \<open>An owned mapping\<close>

record pcpOwnedMapping =
  poNonce :: nonce
  poInternalPort :: uint16
  poLease :: uint32
  poEpoch :: uint32
  poMapping :: Mapping

definition applyPCPResponse :: "pcpOwnedMapping \<Rightarrow> pcpMapResponse \<Rightarrow> time \<Rightarrow> wrappedErr + pcpOwnedMapping" where
  "applyPCPResponse owned response started =
     (if prLifetime response = 0 then Inl (plainErr ''PCP gateway returned a zero mapping lifetime'')
      else
        let lease = conservativeLease (poLease owned) (prLifetime response)
        in Inr (owned\<lparr>poEpoch := prEpoch response, poLease := lease,
             poMapping := \<lparr>mpExternal = prExternal response, mpProvider = providerPCP, mpExpiresAt = leaseEnd started lease\<rparr>\<rparr>))"

definition newPCPOwnedMapping :: "nonce \<Rightarrow> uint16 \<Rightarrow> uint32 \<Rightarrow> pcpMapResponse \<Rightarrow> time \<Rightarrow> wrappedErr + pcpOwnedMapping" where
  "newPCPOwnedMapping nonce internalPort requested response started =
     applyPCPResponse \<lparr>poNonce = nonce, poInternalPort = internalPort, poLease = requested, poEpoch = 0,
       poMapping = \<lparr>mpExternal = AddrPortFrom AddrZero 0, mpProvider = [], mpExpiresAt = 0\<rparr>\<rparr> response started"

text \<open>A renewal whose epoch moved backwards is kept, with an error.\<close>

definition applyPCPRenewal :: "pcpOwnedMapping \<Rightarrow> pcpMapResponse \<Rightarrow> time \<Rightarrow> wrappedErr option \<times> pcpOwnedMapping" where
  "applyPCPRenewal owned response started =
     (case applyPCPResponse owned response started of
        Inl err \<Rightarrow> (Some err, owned)
      | Inr renewed \<Rightarrow> (if prEpoch response < poEpoch owned then Some (plainErr ''PCP gateway epoch moved backwards'') else None, renewed))"

section \<open>Routes\<close>

record defaultRoute =
  drGateway :: bytes
  drLocal :: bytes
  drZone :: string

record pcpRoute =
  rtGateway :: Addr
  rtLocal :: Addr

fun WithZone :: "Addr \<Rightarrow> string \<Rightarrow> Addr" where
  "WithZone (Addr6 w z) zone = Addr6 w zone"
| "WithZone ip zone = ip"

definition usablePCPLocalAddress :: "Addr \<Rightarrow> bool \<Rightarrow> bool" where
  "usablePCPLocalAddress address ipv6 \<longleftrightarrow>
     addrIsValid address \<and> Is6 address = ipv6 \<and> IsGlobalUnicast address \<and> (\<not> ipv6 \<or> \<not> IsPrivate address)"

definition usablePCPGatewayAddress :: "Addr \<Rightarrow> bool \<Rightarrow> bool" where
  "usablePCPGatewayAddress address ipv6 \<longleftrightarrow>
     (if \<not> addrIsValid address \<or> Is6 address \<noteq> ipv6 then False
      else IsGlobalUnicast address \<or> ipv6 \<and> IsLinkLocalUnicast address)"

definition pcpRouteFromDefault :: "defaultRoute \<Rightarrow> bool \<Rightarrow> bytes + pcpRoute" where
  "pcpRouteFromDefault route ipv6 =
     (case AddrFromSlice (drLocal route) of
        None \<Rightarrow> Inl (bytes_of ''PCP local address is not usable'')
      | Some localAddress \<Rightarrow>
          if \<not> usablePCPLocalAddress (Unmap localAddress) ipv6 then Inl (bytes_of ''PCP local address is not usable'')
          else
            case AddrFromSlice (drGateway route) of
              None \<Rightarrow> Inl (bytes_of ''PCP gateway address is not usable'')
            | Some g \<Rightarrow>
                if \<not> usablePCPGatewayAddress (Unmap g) ipv6 then Inl (bytes_of ''PCP gateway address is not usable'')
                else if IsLinkLocalUnicast (Unmap g) then
                  if drZone route = [] then Inl (bytes_of ''PCP link-local gateway has no interface zone'')
                  else Inr \<lparr>rtGateway = WithZone (Unmap g) (drZone route), rtLocal = Unmap localAddress\<rparr>
                else Inr \<lparr>rtGateway = Unmap g, rtLocal = Unmap localAddress\<rparr>)"

definition discoverIPv6PCPAnycast :: pcpRoute where
  "discoverIPv6PCPAnycast = \<lparr>rtGateway = Addr6 0x20010001000000000000000000000001 [], rtLocal = AddrZero\<rparr>"

definition pcpDialAddresses :: "pcpRoute \<Rightarrow> uint16 \<Rightarrow> string \<times> AddrPort option \<times> AddrPort" where
  "pcpDialAddresses route port =
     (let network = (if Is6 (rtGateway route) then ''udp6'' else ''udp4''); g = AddrPortFrom (rtGateway route) port
      in if \<not> addrIsValid (rtLocal route) then (network, None, g) else (network, Some (AddrPortFrom (rtLocal route) 0), g))"

section \<open>What is outside\<close>

text \<open>
  The socket: dialled to a gateway it has a local address; a read gives a datagram, times out, or fails.  \<open>Wrote\<close> carries whether
  writing succeeded, timed out or failed.
\<close>

datatype 'a ioAnswer = IOk 'a | ITimeout | IFail bytes

datatype pcpCall =
    FoundRoute "bytes + pcpRoute"
  | Dialled pcpRoute "bytes + Addr"
  | OperationErr "bytes option"
  | CtxDeadline "time option"
  | DeadlineSet "bytes option"
  | Wrote bytes "unit ioAnswer"
  | ReadBack "bytes ioAnswer"
  | ClosedSocket

type_synonym 'a pcpIO = "(pcpCall, 'a) mapperIO"
type_synonym pcpTrace = "pcpCall mapperEvent list"

record pcpHost = "pcpCall host" +
  discoverRoute :: "pcpTrace \<Rightarrow> bytes + pcpRoute"
  dialUDP :: "pcpTrace \<Rightarrow> pcpRoute \<Rightarrow> bytes + Addr"
  operationErr :: "pcpTrace \<Rightarrow> bytes option"
  setDeadline :: "pcpTrace \<Rightarrow> bytes option"
  contextDeadline :: "pcpTrace \<Rightarrow> time option"
  writesUDP :: "pcpTrace \<Rightarrow> bytes \<Rightarrow> unit ioAnswer"
  readsUDP :: "pcpTrace \<Rightarrow> bytes ioAnswer"

definition closeClient :: "pcpHost \<Rightarrow> unit pcpIO" where
  "closeClient h = ask (\<lambda>_. ()) (\<lambda>_. Called ClosedSocket)"

definition deadlineCall :: "pcpHost \<Rightarrow> bytes option pcpIO" where
  "deadlineCall h = ask (setDeadline h) (\<lambda>err. Called (DeadlineSet err))"

definition operationCtxErr :: "pcpHost \<Rightarrow> bytes option pcpIO" where
  "operationCtxErr h = ask (operationErr h) (\<lambda>err. Called (OperationErr err))"

text \<open>\<open>newPCPGatewayClient\<close>: the local address of the socket.\<close>

definition newPCPGatewayClient :: "pcpHost \<Rightarrow> pcpRoute \<Rightarrow> (bytes + Addr) pcpIO" where
  "newPCPGatewayClient h route = do {
     r \<leftarrow> ask (\<lambda>tr. dialUDP h tr route) (\<lambda>r. Called (Dialled route r));
     (case r of
        Inl err \<Rightarrow> pass (Inl err)
      | Inr address \<Rightarrow>
          let actualLocal = Unmap address
          in if \<not> usablePCPLocalAddress actualLocal (Is6 (rtGateway route))
             then do { _ \<leftarrow> closeClient h; pass (Inl (bytes_of ''PCP socket selected an unusable local address'')) }
             else pass (Inr actualLocal))
   }"

section \<open>The exchange\<close>

datatype exchangeOutcome = Message bytes | NextAttempt | ExchangeFailed bytes | Reading

text \<open>The reads of one attempt, at most \<open>n\<close>; \<open>match\<close> tells the response.\<close>

fun readLoop :: "nat \<Rightarrow> pcpHost \<Rightarrow> (bytes \<Rightarrow> bool) \<Rightarrow> time \<Rightarrow> exchangeOutcome pcpIO" where
  "readLoop 0 h match deadline = pass Reading"
| "readLoop (Suc n) h match deadline = do {
     cancelled \<leftarrow> operationCtxErr h;
     if cancelled \<noteq> None then pass (ExchangeFailed (the cancelled))
     else do {
       _ \<leftarrow> clock h;
       err \<leftarrow> deadlineCall h;
       if err \<noteq> None then pass (ExchangeFailed (the err))
       else do {
         r \<leftarrow> ask (readsUDP h) (\<lambda>r. Called (ReadBack r));
         (case r of
            ITimeout \<Rightarrow> do {
              now \<leftarrow> clock h;
              if now < deadline then readLoop n h match deadline else pass NextAttempt
            }
          | IFail err \<Rightarrow> pass (ExchangeFailed err)
          | IOk message \<Rightarrow> if match message then pass (Message message) else readLoop n h match deadline)
       }
     }
   }"

fun exchangeLoop :: "nat \<Rightarrow> pcpHost \<Rightarrow> bytes \<Rightarrow> (bytes \<Rightarrow> bool) \<Rightarrow> nat list \<Rightarrow> (bytes + bytes) option pcpIO" where
  "exchangeLoop n h request match [] = pass (Some (Inl (bytes_of ''context deadline exceeded'')))"
| "exchangeLoop n h request match (attempt # attempts) = do {
     let timeout = Second * 2 ^ attempt;
     cancelled \<leftarrow> operationCtxErr h;
     if cancelled \<noteq> None then pass (Some (Inl (the cancelled)))
     else do {
       now \<leftarrow> clock h;
       limit \<leftarrow> ask (contextDeadline h) (\<lambda>d. Called (CtxDeadline d));
       let deadline = (case limit of None \<Rightarrow> now + timeout | Some d \<Rightarrow> if d < now + timeout then d else now + timeout);
       err \<leftarrow> deadlineCall h;
       if err \<noteq> None then pass (Some (Inl (the err)))
       else do {
         w \<leftarrow> ask (\<lambda>tr. writesUDP h tr request) (\<lambda>r. Called (Wrote request r));
         (case w of
            ITimeout \<Rightarrow> exchangeLoop n h request match attempts
          | IFail err \<Rightarrow> pass (Some (Inl err))
          | IOk _ \<Rightarrow> do {
              r \<leftarrow> readLoop n h match deadline;
              (case r of
                 Message message \<Rightarrow> pass (Some (Inr message))
               | NextAttempt \<Rightarrow> exchangeLoop n h request match attempts
               | ExchangeFailed err \<Rightarrow> pass (Some (Inl err))
               | Reading \<Rightarrow> pass None)
            })
       }
     }
   }"

definition matchesResponse :: "nonce \<Rightarrow> bytes \<Rightarrow> bool" where
  "matchesResponse nonce message \<longleftrightarrow>
     natPMPUnsupportedVersion message \<or>
     36 \<le> length message \<and> message ! 0 = pcpVersion \<and> message ! 1 = (pcpResponseBit OR pcpMapOpcode) \<and> seg 24 36 message = put_be 12 nonce"

definition requestPCPMapping ::
  "nat \<Rightarrow> pcpHost \<Rightarrow> Addr \<Rightarrow> nonce \<Rightarrow> uint16 \<Rightarrow> uint16 \<Rightarrow> Addr \<Rightarrow> uint32 \<Rightarrow> (pcpErr + pcpMapResponse) option pcpIO" where
  "requestPCPMapping n h localAddress nonce internalPort externalPort externalAddress lifetime = do {
     let request = buildPCPMapRequest localAddress nonce internalPort externalPort externalAddress lifetime;
     r \<leftarrow> exchangeLoop n h request (matchesResponse nonce) [0..<pcpRequestAttempts];
     pass (map_option (\<lambda>r. case r of
         Inl err \<Rightarrow> Inl (pcpPlain err)
       | Inr message \<Rightarrow> parsePCPMapResponse message nonce internalPort) r)
   }"

text \<open>Only whether the deletion is done matters: its error is logged.\<close>

definition deletePCPMapping :: "nat \<Rightarrow> pcpHost \<Rightarrow> Addr \<Rightarrow> nonce \<Rightarrow> uint16 \<Rightarrow> bytes option option pcpIO" where
  "deletePCPMapping n h localAddress nonce internalPort = do {
     r \<leftarrow> requestPCPMapping n h localAddress nonce internalPort 0 AddrZero 0;
     pass (map_option (\<lambda>r. case r of
         Inl err \<Rightarrow> Some (pcpErrText err)
       | Inr response \<Rightarrow>
           if prLifetime response \<noteq> 0
           then Some (bytes_of ''PCP gateway deferred mapping deletion for '' @ decimal (unat (prLifetime response)) @ bytes_of '' seconds'')
           else None) r)
   }"

section \<open>The mapper\<close>

record pcpState =
  psClient :: "Addr option"
  psOwned :: "pcpOwnedMapping option"
  psAttempted :: bool
  psRetry :: duration

datatype pcpTurn = PcpContinue pcpState | PcpStop pcpState | PcpPanic | PcpBusy

text \<open>Deleting the mapping and closing the socket, as on every way out of a mapping; \<open>False\<close> while the deletion still reads.\<close>

definition dropMapping :: "nat \<Rightarrow> pcpHost \<Rightarrow> nonce \<Rightarrow> uint16 \<Rightarrow> Addr \<Rightarrow> bool pcpIO" where
  "dropMapping n h nonce internalPort localAddress = do {
     r \<leftarrow> deletePCPMapping n h localAddress nonce internalPort;
     if r = None then pass False else do { _ \<leftarrow> closeClient h; pass True }
   }"

definition dropped :: "pcpState \<Rightarrow> pcpState" where
  "dropped s = s\<lparr>psOwned := None, psAttempted := False, psClient := None\<rparr>"

definition connect :: "pcpHost \<Rightarrow> pcpState \<Rightarrow> (wrappedErr option \<times> pcpState) pcpIO" where
  "connect h s =
     (if psClient s \<noteq> None then pass (None, s)
      else do {
        route \<leftarrow> ask (discoverRoute h) (\<lambda>r. Called (FoundRoute r));
        client \<leftarrow> (case route of Inl err \<Rightarrow> pass (Inl err) | Inr route \<Rightarrow> newPCPGatewayClient h route);
        pass (case client of
            Inl err \<Rightarrow> (Some (wrapErr ''discover PCP gateway: '' (pcpPlain err)), s)
          | Inr localAddress \<Rightarrow> (None, s\<lparr>psClient := Some localAddress\<rparr>))
      })"

definition createOwned ::
  "nat \<Rightarrow> pcpHost \<Rightarrow> nonce \<Rightarrow> uint16 \<Rightarrow> uint32 \<Rightarrow> Addr \<Rightarrow> pcpState \<Rightarrow> (wrappedErr option \<times> pcpState) option pcpIO" where
  "createOwned n h nonce internalPort lease localAddress s = do {
     started \<leftarrow> clock h;
     let s = s\<lparr>psAttempted := True\<rparr>;
     r \<leftarrow> requestPCPMapping n h localAddress nonce internalPort internalPort AddrZero lease;
     pass (map_option (\<lambda>r. case r of
         Inl err \<Rightarrow> (Some (wrapErr ''create PCP UDP mapping: '' err), s)
       | Inr response \<Rightarrow>
           (case newPCPOwnedMapping nonce internalPort lease response started of
              Inl err \<Rightarrow> (Some err, s)
            | Inr owned \<Rightarrow> (None, s\<lparr>psOwned := Some owned\<rparr>))) r)
   }"

definition renewOwned ::
  "nat \<Rightarrow> pcpHost \<Rightarrow> uint16 \<Rightarrow> Addr \<Rightarrow> pcpOwnedMapping \<Rightarrow> pcpState \<Rightarrow> (wrappedErr option \<times> pcpState) option pcpIO" where
  "renewOwned n h internalPort localAddress owned s = do {
     started \<leftarrow> clock h;
     r \<leftarrow> requestPCPMapping n h localAddress (poNonce owned) internalPort (apPort (mpExternal (poMapping owned)))
       (apAddr (mpExternal (poMapping owned))) (poLease owned);
     pass (map_option (\<lambda>r. case r of
         Inl err \<Rightarrow> (Some (wrapErr ''renew PCP UDP mapping: '' err), s)
       | Inr response \<Rightarrow>
           (case applyPCPRenewal owned response started of (err, owned) \<Rightarrow> (err, s\<lparr>psOwned := Some owned\<rparr>))) r)
   }"

definition pcpRetryDelay :: "duration \<Rightarrow> State \<Rightarrow> pcpOwnedMapping option \<Rightarrow> time \<Rightarrow> duration" where
  "pcpRetryDelay retry st owned now =
     (case owned of
        None \<Rightarrow> retry
      | Some mine \<Rightarrow>
          let delay = (case stRetryAfter st of None \<Rightarrow> retry | Some t \<Rightarrow> if t - now > retry then t - now else retry)
          in if mpExpiresAt (poMapping mine) - now < delay then mpExpiresAt (poMapping mine) - now else delay)"

text \<open>What a failure does to the mapping and says, before it is published.\<close>

definition failedAttempt :: "pcpHost \<Rightarrow> wrappedErr \<Rightarrow> pcpState \<Rightarrow> (State \<times> pcpState) pcpIO" where
  "failedAttempt h err s = do {
     let st = errorState (boundedError (Some (weText err)));
     (st, s) \<leftarrow>
       (case weCause err of
          pcpPlain _ \<Rightarrow> pass (st, s)
        | pcpResultError code lifetime \<Rightarrow> do {
            let holdoff = min (uint lifetime * Second) Hour;
            now \<leftarrow> (if holdoff > 0 then clock h else pass 0);
            pass (if holdoff > 0 then st\<lparr>stRetryAfter := Some (now + holdoff)\<rparr> else st,
              if psOwned s \<noteq> None \<and> (code = 2 \<or> code = 12) then s\<lparr>psOwned := None\<rparr> else s)
          });
     (case psOwned s of
        None \<Rightarrow> pass (st, s)
      | Some mine \<Rightarrow> do {
          now \<leftarrow> clock h;
          pass (if now < mpExpiresAt (poMapping mine) then st\<lparr>stMapping := Some (poMapping mine)\<rparr> else st, s)
        })
   }"

definition reportAttempt :: "nat \<Rightarrow> pcpHost \<Rightarrow> nonce \<Rightarrow> uint16 \<Rightarrow> mapperTiming \<Rightarrow> wrappedErr \<Rightarrow> pcpState \<Rightarrow> pcpTurn pcpIO" where
  "reportAttempt n h nonce internalPort timing err s = do {
     (st, s) \<leftarrow> failedAttempt h err s;
     accepted \<leftarrow> publishState h st;
     if \<not> accepted then pass (PcpStop s)
     else do {
       released \<leftarrow>
         (if psOwned s = None \<and> psClient s \<noteq> None then
            if psAttempted s then dropMapping n h nonce internalPort (the (psClient s))
            else do { _ \<leftarrow> closeClient h; pass True }
          else pass True);
       if \<not> released then pass PcpBusy
       else do {
         let s = (if psOwned s = None \<and> psClient s \<noteq> None then dropped s else s);
         now \<leftarrow> clock h;
         waited \<leftarrow> waitContext h (pcpRetryDelay (psRetry s) st (psOwned s) now);
         pass (if waited then PcpContinue (s\<lparr>psRetry := nextRetry (psRetry s) (tmRetryMaximum timing)\<rparr>) else PcpStop s)
       }
     }
   }"

definition announceOwned :: "pcpHost \<Rightarrow> mapperTiming \<Rightarrow> pcpState \<Rightarrow> pcpTurn pcpIO" where
  "announceOwned h timing s =
     (case psOwned s of
        None \<Rightarrow> pass PcpPanic
      | Some mine \<Rightarrow> do {
          let s = s\<lparr>psRetry := tmRetryInitial timing\<rparr>;
          accepted \<leftarrow> publishState h ((errorState [])\<lparr>stMapping := Some (poMapping mine)\<rparr>);
          if \<not> accepted then pass (PcpStop s)
          else do {
            now \<leftarrow> clock h;
            waited \<leftarrow> waitContext h (mappingRefreshDelay (poMapping mine) (poLease mine) now);
            pass (if waited then PcpContinue s else PcpStop s)
          }
        })"

text \<open>Whether the mapping has expired at the clock.\<close>

definition ownedExpired :: "pcpHost \<Rightarrow> pcpState \<Rightarrow> bool pcpIO" where
  "ownedExpired h s =
     (case psOwned s of
        None \<Rightarrow> pass False
      | Some mine \<Rightarrow> do { now \<leftarrow> clock h; pass (\<not> mappingValidAt (poMapping mine) now) })"

text \<open>One attempt to get or renew the mapping.  Without a socket the code would dereference nil.\<close>

datatype pcpAttempted = Attempted "wrappedErr option" pcpState | AttemptPanic | AttemptBusy

definition pcpAttempt :: "nat \<Rightarrow> pcpHost \<Rightarrow> nonce \<Rightarrow> uint16 \<Rightarrow> mapperTiming \<Rightarrow> pcpState \<Rightarrow> pcpAttempted pcpIO" where
  "pcpAttempt n h nonce internalPort timing s = do {
     (err, s) \<leftarrow> connect h s;
     (case err of
        Some err \<Rightarrow> pass (Attempted (Some err) s)
      | None \<Rightarrow>
          (case psClient s of
             None \<Rightarrow> pass AttemptPanic
           | Some localAddress \<Rightarrow> do {
               r \<leftarrow> (case psOwned s of
                     None \<Rightarrow> createOwned n h nonce internalPort (leaseSeconds (tmLease timing)) localAddress s
                   | Some mine \<Rightarrow> renewOwned n h internalPort localAddress mine s);
               pass (case r of None \<Rightarrow> AttemptBusy | Some (err, s) \<Rightarrow> Attempted err s)
             }))
   }"

definition finishTurn ::
  "nat \<Rightarrow> pcpHost \<Rightarrow> nonce \<Rightarrow> uint16 \<Rightarrow> mapperTiming \<Rightarrow> wrappedErr option \<Rightarrow> pcpState \<Rightarrow> pcpTurn pcpIO" where
  "finishTurn n h nonce internalPort timing attemptErr s = do {
     expired \<leftarrow> ownedExpired h s;
     if expired \<and> psClient s = None then pass PcpPanic
     else do {
       released \<leftarrow> (if expired then dropMapping n h nonce internalPort (the (psClient s)) else pass True);
       if \<not> released then pass PcpBusy
       else do {
         let s = (if expired then dropped s else s);
         (case (if expired \<and> attemptErr = None then Some (plainErr ''PCP mapping expired before it could be published'') else attemptErr) of
            None \<Rightarrow> announceOwned h timing s
          | Some err \<Rightarrow> reportAttempt n h nonce internalPort timing err s)
       }
     }
   }"

definition pcpTurnStep :: "nat \<Rightarrow> pcpHost \<Rightarrow> nonce \<Rightarrow> uint16 \<Rightarrow> mapperTiming \<Rightarrow> pcpState \<Rightarrow> pcpTurn pcpIO" where
  "pcpTurnStep n h nonce internalPort timing s = do {
     cancelled \<leftarrow> ctxErr h;
     if cancelled \<noteq> None then pass (PcpStop s)
     else do {
       expired \<leftarrow> ownedExpired h s;
       if expired \<and> psClient s = None then pass PcpPanic
       else do {
         released \<leftarrow> (if expired then dropMapping n h nonce internalPort (the (psClient s)) else pass True);
         if \<not> released then pass PcpBusy
         else do {
           let s = (if expired then dropped s else s);
           accepted \<leftarrow> (if expired then publishState h (errorState (bytes_of ''PCP mapping expired'')) else pass True);
           if \<not> accepted then pass (PcpStop s)
           else do {
             r \<leftarrow> pcpAttempt n h nonce internalPort timing s;
             (case r of
                AttemptBusy \<Rightarrow> pass PcpBusy
              | AttemptPanic \<Rightarrow> pass PcpPanic
              | Attempted attemptErr s \<Rightarrow> do {
                  cancelled \<leftarrow> ctxErr h;
                  if cancelled \<noteq> None then pass (PcpStop s)
                  else finishTurn n h nonce internalPort timing attemptErr s
                })
           }
         }
       }
     }
   }"

text \<open>The deferred cleanup, and the loop for a number of turns.\<close>

definition pcpCleanup :: "nat \<Rightarrow> pcpHost \<Rightarrow> nonce \<Rightarrow> uint16 \<Rightarrow> pcpState \<Rightarrow> bool pcpIO" where
  "pcpCleanup n h nonce internalPort s =
     (case psClient s of
        None \<Rightarrow> pass True
      | Some localAddress \<Rightarrow>
          if psAttempted s then dropMapping n h nonce internalPort localAddress else do { _ \<leftarrow> closeClient h; pass True })"

datatype pcpOutcome = PcpRunning | PcpReturned | PcpPanicked

fun pcpLoop :: "nat \<Rightarrow> nat \<Rightarrow> pcpHost \<Rightarrow> nonce \<Rightarrow> uint16 \<Rightarrow> mapperTiming \<Rightarrow> pcpState \<Rightarrow> pcpOutcome pcpIO" where
  "pcpLoop 0 n h nonce internalPort timing s = pass PcpRunning"
| "pcpLoop (Suc turns) n h nonce internalPort timing s = do {
     t \<leftarrow> pcpTurnStep n h nonce internalPort timing s;
     (case t of
        PcpContinue s \<Rightarrow> pcpLoop turns n h nonce internalPort timing s
      | PcpStop s \<Rightarrow> do {
          released \<leftarrow> pcpCleanup n h nonce internalPort s;
          pass (if released then PcpReturned else PcpRunning)
        }
      | PcpPanic \<Rightarrow> pass PcpPanicked
      | PcpBusy \<Rightarrow> pass PcpRunning)
   }"

definition pcpRun :: "nat \<Rightarrow> nat \<Rightarrow> pcpHost \<Rightarrow> bool \<Rightarrow> mapperTiming \<Rightarrow> uint16 \<Rightarrow> (bytes + pcpOutcome) pcpIO" where
  "pcpRun turns n h running timing internalPort =
     (if internalPort = 0 then pass (Inl (bytes_of ''PCP requires a non-zero internal port''))
      else if running then pass (Inl (bytes_of ''PCP mapper is already running''))
      else do {
        r \<leftarrow> readFull h 12;
        (case r of
           Inl err \<Rightarrow> pass (Inl (bytes_of ''create PCP nonce: '' @ err))
         | Inr bs \<Rightarrow> do {
             let timing = normalizeTiming timing;
             outcome \<leftarrow> pcpLoop turns n h (get_be bs) internalPort timing
               \<lparr>psClient = None, psOwned = None, psAttempted = False, psRetry = tmRetryInitial timing\<rparr>;
             pass (Inr outcome)
           })
      })"

end
