(* ===== verification/PcpSafety.thy ===== *)
theory PcpSafety
  imports Pcp
begin

text \<open>
  What the PCP mapper publishes: mappings that live, with an address the gateway gave in a response to this run's nonce, for no longer
  than that response grants.  No turn uses a socket or a mapping that is not there.
\<close>

section \<open>Responses\<close>

lemma parsed_response:
  assumes "parsePCPMapResponse message nonce port = Inr response"
  shows "seg 24 36 message = put_be 12 nonce" "get_be (seg 40 42 message) = port" "message ! 36 = pcpUDPProtocol"
    "prLifetime response = get_be (seg 4 8 message)"
    "prLifetime response \<noteq> 0 \<Longrightarrow> usablePCPExternalAddress (apAddr (prExternal response)) \<and> apPort (prExternal response) \<noteq> 0"
  using assms by (auto simp: parsePCPMapResponse_def Let_def split: if_splits option.splits)

section \<open>The events of a run\<close>

definition pcpGranted :: "nonce \<Rightarrow> uint16 \<Rightarrow> Mapping \<Rightarrow> pcpTrace \<Rightarrow> bool" where
  "pcpGranted nonce port m tr \<longleftrightarrow>
     (\<exists>message response started es before.
        later (Called (ReadBack (IOk message)) # es @ Clock started # before) tr \<and>
        parsePCPMapResponse message nonce port = Inr response \<and> prLifetime response \<noteq> 0 \<and>
        mpExternal m = prExternal response \<and> mpExpiresAt m \<le> leaseEnd started (prLifetime response))"

fun pcpEvent :: "nonce \<Rightarrow> uint16 \<Rightarrow> pcpCall mapperEvent \<Rightarrow> pcpTrace \<Rightarrow> bool" where
  "pcpEvent nonce port (Published st b) before =
     (lineText maxErrorLength (stError st) \<and>
      (case stMapping st of
         None \<Rightarrow> True
       | Some m \<Rightarrow>
           (\<exists>now before'. before = Clock now # before' \<and> now < mpExpiresAt m \<and> mpProvider m = providerPCP \<and> pcpGranted nonce port m before')))"
| "pcpEvent nonce port e before = True"

abbreviation pcpKeeps :: "nonce \<Rightarrow> uint16 \<Rightarrow> pcpTrace \<Rightarrow> pcpTrace \<Rightarrow> bool" where
  "pcpKeeps nonce port \<equiv> keeps (pcpEvent nonce port)"

lemma keeps_pcp:
  "pcpKeeps x p tr0 tr \<Longrightarrow> pcpKeeps x p tr0 (Clock t # tr)"
  "pcpKeeps x p tr0 tr \<Longrightarrow> pcpKeeps x p tr0 (ContextErr e # tr)"
  "pcpKeeps x p tr0 tr \<Longrightarrow> pcpKeeps x p tr0 (Waited d b # tr)"
  "pcpKeeps x p tr0 tr \<Longrightarrow> pcpKeeps x p tr0 (RandomRead n r # tr)"
  "pcpKeeps x p tr0 tr \<Longrightarrow> pcpKeeps x p tr0 (Called c # tr)"
  by (simp_all add: keeps_def later_Cons)

lemma wp_ioAnswer [wp_intros]:
  "(\<And>a. r = IOk a \<Longrightarrow> wp (f a) Q s) \<Longrightarrow> (r = ITimeout \<Longrightarrow> wp m Q s) \<Longrightarrow> (\<And>e. r = IFail e \<Longrightarrow> wp (g e) Q s) \<Longrightarrow>
    wp (case r of IOk a \<Rightarrow> f a | ITimeout \<Rightarrow> m | IFail e \<Rightarrow> g e) Q s"
  by (cases r) simp_all

lemma wp_exchangeOutcome [wp_intros]:
  "(\<And>a. r = Message a \<Longrightarrow> wp (f a) Q s) \<Longrightarrow> (r = NextAttempt \<Longrightarrow> wp m Q s) \<Longrightarrow> (\<And>e. r = ExchangeFailed e \<Longrightarrow> wp (g e) Q s) \<Longrightarrow>
    (r = Reading \<Longrightarrow> wp m' Q s) \<Longrightarrow>
    wp (case r of Message a \<Rightarrow> f a | NextAttempt \<Rightarrow> m | ExchangeFailed e \<Rightarrow> g e | Reading \<Rightarrow> m') Q s"
  by (cases r) simp_all

lemma wp_pcpErr [wp_intros]:
  "(\<And>c l. r = pcpResultError c l \<Longrightarrow> wp (f c l) Q s) \<Longrightarrow> (\<And>e. r = pcpPlain e \<Longrightarrow> wp (g e) Q s) \<Longrightarrow>
    wp (case r of pcpResultError c l \<Rightarrow> f c l | pcpPlain e \<Rightarrow> g e) Q s"
  by (cases r) simp_all

lemma wp_pcpTurn [wp_intros]:
  "(\<And>a. r = PcpContinue a \<Longrightarrow> wp (f a) Q s) \<Longrightarrow> (\<And>a. r = PcpStop a \<Longrightarrow> wp (g a) Q s) \<Longrightarrow> (r = PcpPanic \<Longrightarrow> wp m Q s) \<Longrightarrow>
    (r = PcpBusy \<Longrightarrow> wp m' Q s) \<Longrightarrow>
    wp (case r of PcpContinue a \<Rightarrow> f a | PcpStop a \<Rightarrow> g a | PcpPanic \<Rightarrow> m | PcpBusy \<Rightarrow> m') Q s"
  by (cases r) simp_all

lemma wp_pcpAttempted [wp_intros]:
  "(\<And>e s'. r = Attempted e s' \<Longrightarrow> wp (f e s') Q s) \<Longrightarrow> (r = AttemptPanic \<Longrightarrow> wp m Q s) \<Longrightarrow> (r = AttemptBusy \<Longrightarrow> wp m' Q s) \<Longrightarrow>
    wp (case r of AttemptBusy \<Rightarrow> m' | AttemptPanic \<Rightarrow> m | Attempted e s' \<Rightarrow> f e s') Q s"
  by (cases r) simp_all

definition reads :: "nonce \<Rightarrow> uint16 \<Rightarrow> pcpTrace \<Rightarrow> pcpTrace \<Rightarrow> bytes \<Rightarrow> pcpTrace \<Rightarrow> bool" where
  "reads x p tr0 tr message tr' \<longleftrightarrow> (\<exists>before. tr' = Called (ReadBack (IOk message)) # before \<and> later tr before)"

lemma readLoop_keeps:
  "pcpKeeps x p tr0 tr' \<Longrightarrow> later tr tr' \<Longrightarrow>
    wp (readLoop n h match d) (\<lambda>r tr'. pcpKeeps x p tr0 tr' \<and> later tr tr' \<and> (\<forall>m. r = Message m \<longrightarrow> reads x p tr0 tr m tr')) tr'"
proof (induction n arbitrary: tr')
  case (Suc n)
  show ?case unfolding readLoop.simps operationCtxErr_def deadlineCall_def
    by (intro wp_intros Suc.IH) (use Suc.prems in \<open>auto simp: reads_def intro!: keeps_pcp\<close>)
qed (auto intro: wp_intros)

lemma exchangeLoop_keeps:
  "pcpKeeps x p tr0 tr' \<Longrightarrow> later tr tr' \<Longrightarrow>
    wp (exchangeLoop n h request match attempts)
      (\<lambda>r tr'. pcpKeeps x p tr0 tr' \<and> later tr tr' \<and> (\<forall>m. r = Some (Inr m) \<longrightarrow> reads x p tr0 tr m tr')) tr'"
proof (induction attempts arbitrary: tr')
  case (Cons attempt attempts)
  show ?case unfolding exchangeLoop.simps operationCtxErr_def deadlineCall_def
    by (intro wp_intros readLoop_keeps [of x p tr0 _ tr, THEN wp_mono] Cons.IH)
      (use Cons.prems in \<open>auto intro!: keeps_pcp\<close>)
qed (auto intro: wp_intros)

lemma request_keeps:
  assumes "pcpKeeps x p tr0 tr"
  shows "wp (requestPCPMapping n h a x p external address lifetime) (\<lambda>r tr'. pcpKeeps x p tr0 tr' \<and> later tr tr' \<and>
    (\<forall>response. r = Some (Inr response) \<longrightarrow>
      (\<exists>message. parsePCPMapResponse message x p = Inr response \<and> reads x p tr0 tr message tr'))) tr"
  unfolding requestPCPMapping_def
  by (intro wp_intros exchangeLoop_keeps [of x p tr0 _ tr, THEN wp_mono])
    (use assms in \<open>auto simp: map_option_case split: option.splits sum.splits\<close>)

lemma drop_keeps:
  assumes "pcpKeeps x p tr0 tr"
  shows "wp (dropMapping n h x p a) (\<lambda>_. pcpKeeps x p tr0) tr"
  unfolding dropMapping_def deletePCPMapping_def closeClient_def
  by (intro wp_intros request_keeps [of x p tr0, THEN wp_mono]) (use assms in \<open>auto intro!: keeps_pcp\<close>)

section \<open>The state between the steps\<close>

definition pcpHeld :: "nonce \<Rightarrow> uint16 \<Rightarrow> pcpState \<Rightarrow> pcpTrace \<Rightarrow> bool" where
  "pcpHeld x p s tr \<longleftrightarrow>
     (case psOwned s of
        None \<Rightarrow> True
      | Some mine \<Rightarrow> psClient s \<noteq> None \<and> psAttempted s \<and> poNonce mine = x \<and> mpProvider (poMapping mine) = providerPCP \<and>
          pcpGranted x p (poMapping mine) tr)"

lemma pcpGranted_later: "pcpGranted x p m tr \<Longrightarrow> later tr tr' \<Longrightarrow> pcpGranted x p m tr'"
  unfolding pcpGranted_def by (blast intro: later_trans)

lemma pcpHeld_later: "pcpHeld x p s tr \<Longrightarrow> later tr tr' \<Longrightarrow> pcpHeld x p s tr'"
  by (auto simp: pcpHeld_def intro: pcpGranted_later split: option.splits)

lemma pcpHeld_Cons: "pcpHeld x p s tr \<Longrightarrow> pcpHeld x p s (e # tr)"
  by (rule pcpHeld_later) auto

lemma pcpHeld_none [simp]: "psOwned s = None \<Longrightarrow> pcpHeld x p s tr" "pcpHeld x p (dropped s) tr"
  by (simp_all add: pcpHeld_def dropped_def)

lemma applied_response:
  "applyPCPResponse owned response started = Inr mine \<Longrightarrow> mpProvider (poMapping mine) = providerPCP \<and> poNonce mine = poNonce owned"
  by (auto simp: applyPCPResponse_def Let_def split: if_splits)

lemma pcpGranted_now:
  assumes "applyPCPResponse owned response started = Inr mine" "parsePCPMapResponse message x p = Inr response"
    "reads x p tr0 (Clock started # tr) message tr'"
  shows "pcpGranted x p (poMapping mine) tr'"
proof -
  obtain es where tr': "tr' = Called (ReadBack (IOk message)) # es @ Clock started # tr"
    using assms(3) by (auto simp: reads_def later_def)
  have "prLifetime response \<noteq> 0" "mpExternal (poMapping mine) = prExternal response"
      "mpExpiresAt (poMapping mine) \<le> leaseEnd started (prLifetime response)"
    using assms(1) leaseEnd_mono by (auto simp: applyPCPResponse_def Let_def conservativeLease_def split: if_splits)
  then show ?thesis using assms(2) tr' unfolding pcpGranted_def by blast
qed

lemma pcpHeld_retry [simp]: "pcpHeld x p (s\<lparr>psRetry := t\<rparr>) tr = pcpHeld x p s tr"
  by (simp add: pcpHeld_def split: option.splits)

lemma pcpHeld_client: "pcpHeld x p s tr \<Longrightarrow> psOwned s = Some mine \<Longrightarrow> psClient s \<noteq> None"
  by (simp add: pcpHeld_def)

definition attempted_ok :: "nonce \<Rightarrow> uint16 \<Rightarrow> wrappedErr option \<times> pcpState \<Rightarrow> pcpTrace \<Rightarrow> bool" where
  "attempted_ok x p r tr \<longleftrightarrow> pcpHeld x p (snd r) tr \<and> (fst r = None \<longrightarrow> psOwned (snd r) \<noteq> None)"

lemma create_owned_keeps:
  assumes "pcpKeeps x p tr0 tr" "psOwned s = None" "psClient s \<noteq> None"
  shows "wp (createOwned n h x p lease a s) (\<lambda>r tr'. pcpKeeps x p tr0 tr' \<and> pred_option (\<lambda>r. attempted_ok x p r tr') r) tr"
  unfolding createOwned_def newPCPOwnedMapping_def
  by (intro wp_intros request_keeps [of x p tr0, THEN wp_mono] keeps_pcp assms)
    (use assms in \<open>auto simp: attempted_ok_def map_option_case pcpHeld_def split: sum.splits option.splits
      dest: applied_response intro: pcpGranted_now\<close>)

lemma renew_owned_keeps:
  assumes "pcpKeeps x p tr0 tr" "psOwned s = Some mine" "pcpHeld x p s tr"
  shows "wp (renewOwned n h p a mine s) (\<lambda>r tr'. pcpKeeps x p tr0 tr' \<and> pred_option (\<lambda>r. attempted_ok x p r tr') r) tr"
proof -
  have x: "poNonce mine = x" using assms(2,3) by (simp add: pcpHeld_def)
  have kept: "pcpHeld x p s tr'" if "later (Clock t # tr) tr'" for t tr'
    using assms(3) that by (meson later_Cons later_refl later_trans pcpHeld_later)
  show ?thesis unfolding renewOwned_def applyPCPRenewal_def x
    by (intro wp_intros request_keeps [of x p tr0, THEN wp_mono] keeps_pcp assms)
      (use assms x kept in \<open>auto simp: attempted_ok_def map_option_case pcpHeld_def split: sum.splits option.splits
        dest: applied_response intro: pcpGranted_now\<close>)
qed

lemma connect_keeps:
  assumes "pcpKeeps x p tr0 tr" "pcpHeld x p s tr"
  shows "wp (connect h s) (\<lambda>r tr'. pcpKeeps x p tr0 tr' \<and> pcpHeld x p (snd r) tr' \<and> psOwned (snd r) = psOwned s \<and>
    (fst r = None \<longrightarrow> psClient (snd r) \<noteq> None)) tr"
proof -
  have "psOwned s = None" if "psClient s = None" using assms(2) that by (auto simp: pcpHeld_def split: option.splits)
  then show ?thesis unfolding connect_def newPCPGatewayClient_def closeClient_def
    by (intro wp_intros) (use assms in \<open>auto intro!: keeps_pcp split: sum.splits\<close>)
qed

lemma pcp_attempt_keeps:
  assumes "pcpKeeps x p tr0 tr" "pcpHeld x p s tr"
  shows "wp (pcpAttempt n h x p timing s) (\<lambda>r tr'. pcpKeeps x p tr0 tr' \<and> r \<noteq> AttemptPanic \<and>
    (\<forall>err s'. r = Attempted err s' \<longrightarrow> pcpHeld x p s' tr' \<and> (err = None \<longrightarrow> psOwned s' \<noteq> None))) tr"
  unfolding pcpAttempt_def
  by (intro wp_intros connect_keeps [OF assms, THEN wp_mono] create_owned_keeps [THEN wp_mono] renew_owned_keeps [THEN wp_mono])
    (auto simp: attempted_ok_def split: option.splits)

section \<open>The turns\<close>

definition turn_held :: "nonce \<Rightarrow> uint16 \<Rightarrow> pcpTrace \<Rightarrow> pcpTurn \<Rightarrow> pcpTrace \<Rightarrow> bool" where
  "turn_held x p tr0 t tr \<longleftrightarrow> pcpKeeps x p tr0 tr \<and>
     (case t of PcpContinue s \<Rightarrow> pcpHeld x p s tr | PcpStop s \<Rightarrow> pcpHeld x p s tr | PcpPanic \<Rightarrow> False | PcpBusy \<Rightarrow> True)"

lemma failed_keeps:
  assumes "pcpKeeps x p tr0 tr" "pcpHeld x p s tr"
  shows "wp (failedAttempt h err s) (\<lambda>(st, s) tr'. pcpKeeps x p tr0 tr' \<and> pcpHeld x p s tr' \<and>
    (\<forall>m. stMapping st = Some m \<longrightarrow> (\<exists>now before. tr' = Clock now # before \<and> now < mpExpiresAt m \<and> mpProvider m = providerPCP \<and>
      pcpGranted x p m before))) tr"
  unfolding failedAttempt_def
  by (intro wp_intros) (use assms in \<open>auto intro!: keeps_pcp simp: errorState_def pcpHeld_def intro: pcpGranted_later split: option.splits if_splits\<close>)

lemma keeps_published:
  assumes "pcpKeeps x p tr0 tr" "st' = st\<lparr>stError := boundedText message maxErrorLength\<rparr>"
    "\<forall>m. stMapping st = Some m \<longrightarrow> (\<exists>now before. tr = Clock now # before \<and> now < mpExpiresAt m \<and> mpProvider m = providerPCP \<and>
      pcpGranted x p m before)"
  shows "pcpKeeps x p tr0 (Published st' b # tr)"
  using assms by (auto intro!: keeps_Cons split: option.splits)

lemma keeps_error_state:
  "pcpKeeps x p tr0 tr \<Longrightarrow> pcpKeeps x p tr0 (Published ((errorState text)\<lparr>stError := boundedText message maxErrorLength\<rparr>) b # tr)"
  by (rule keeps_published [OF _ refl]) (auto simp: errorState_def)

lemma keeps_active_state:
  "pcpKeeps x p tr0 (Clock now # before) \<Longrightarrow> now < mpExpiresAt m \<Longrightarrow> mpProvider m = providerPCP \<Longrightarrow> pcpGranted x p m before \<Longrightarrow>
    pcpKeeps x p tr0 (Published ((errorState text)\<lparr>stMapping := Some m, stError := boundedText message maxErrorLength\<rparr>) b # Clock now # before)"
  by (rule keeps_published [OF _ refl]) (auto simp: errorState_def)

lemma report_keeps:
  assumes "pcpKeeps x p tr0 tr" "pcpHeld x p s tr"
  shows "wp (reportAttempt n h x p timing err s) (turn_held x p tr0) tr"
  unfolding reportAttempt_def closeClient_def
  by (intro wp_intros failed_keeps [of x p tr0, THEN wp_mono] drop_keeps [of x p tr0, THEN wp_mono])
    (use assms in \<open>auto simp: turn_held_def intro!: keeps_pcp keeps_published pcpHeld_Cons\<close>)

lemma announce_keeps:
  assumes "pcpKeeps x p tr0 tr" "pcpHeld x p s tr" "psOwned s = Some mine" "tr = Clock now # before" "now < mpExpiresAt (poMapping mine)"
    "pcpHeld x p s before"
  shows "wp (announceOwned h timing s) (turn_held x p tr0) tr"
proof -
  have held: "pcpHeld x p (s\<lparr>psRetry := t\<rparr>) tr'" if "later tr tr'" for t tr'
    using pcpHeld_later [OF assms(2) that] by (simp add: pcpHeld_def split: option.splits)
  show ?thesis unfolding announceOwned_def assms(3)
    by (simp, intro wp_intros)
      (use assms held in \<open>auto simp: turn_held_def pcpHeld_def intro!: keeps_pcp keeps_active_state\<close>)
qed

lemma expired_keeps:
  assumes "pcpKeeps x p tr0 tr" "pcpHeld x p s tr"
  shows "wp (ownedExpired h s) (\<lambda>expired tr'. pcpKeeps x p tr0 tr' \<and> pcpHeld x p s tr' \<and> (expired \<longrightarrow> psClient s \<noteq> None) \<and>
    (\<not> expired \<longrightarrow> (\<forall>mine. psOwned s = Some mine \<longrightarrow>
      (\<exists>now before. tr' = Clock now # before \<and> now < mpExpiresAt (poMapping mine) \<and> pcpHeld x p s before)))) tr"
  unfolding ownedExpired_def
  by (intro wp_intros)
    (use assms pcpHeld_client [OF assms(2)] in \<open>auto intro!: keeps_pcp pcpHeld_Cons simp: mappingValidAt_def split: option.splits\<close>)

lemma finish_turn_keeps:
  assumes "pcpKeeps x p tr0 tr" "pcpHeld x p s tr" "attemptErr = None \<longrightarrow> psOwned s \<noteq> None"
  shows "wp (finishTurn n h x p timing attemptErr s) (turn_held x p tr0) tr"
  unfolding finishTurn_def
  by (intro wp_intros expired_keeps [OF assms(1,2), THEN wp_mono] drop_keeps [of x p tr0, THEN wp_mono] report_keeps)
    (use assms in \<open>auto simp: turn_held_def intro: announce_keeps split: if_splits\<close>)

lemma turn_step_keeps:
  assumes "pcpHeld x p s tr"
  shows "wp (pcpTurnStep n h x p timing s) (turn_held x p tr) tr"
  unfolding pcpTurnStep_def
  by (intro wp_intros expired_keeps [of x p tr, THEN wp_mono] drop_keeps [of x p tr, THEN wp_mono] pcp_attempt_keeps [of x p tr, THEN wp_mono]
      finish_turn_keeps)
    (use assms in \<open>auto simp: turn_held_def intro!: keeps_pcp keeps_error_state pcpHeld_Cons\<close>)

lemma cleanup_pcp_keeps:
  assumes "pcpKeeps x p tr0 tr"
  shows "wp (pcpCleanup n h x p s) (\<lambda>_. pcpKeeps x p tr0) tr"
  unfolding pcpCleanup_def closeClient_def
  by (intro wp_intros drop_keeps assms) (use assms in \<open>auto intro!: keeps_pcp\<close>)

lemma pcpLoop_keeps:
  "pcpKeeps x p tr0 tr \<Longrightarrow> pcpHeld x p s tr \<Longrightarrow>
    wp (pcpLoop turns n h x p timing s) (\<lambda>r tr'. pcpKeeps x p tr0 tr' \<and> r \<noteq> PcpPanicked) tr"
proof (induction turns arbitrary: s tr)
  case (Suc turns)
  show ?case unfolding pcpLoop.simps
    by (intro wp_intros turn_step_keeps [THEN wp_mono] Suc.IH cleanup_pcp_keeps [of x p tr0, THEN wp_mono])
      (use Suc.prems in \<open>auto simp: turn_held_def intro: keeps_trans\<close>)
qed (auto intro: wp_intros)

text \<open>However a run ends or is left, it has not panicked; and either it published nothing, or it has drawn its nonce first.\<close>

lemma pcp_run:
  assumes "run_state (pcpRun turns n h running timing port) [] = (result, tr)"
  shows "result \<noteq> Inr PcpPanicked" and "Published st b \<in> set tr \<Longrightarrow>
    \<exists>token. everyEvent (pcpEvent (get_be token) port) tr \<and> last tr = RandomRead 12 (Inr token)"
proof -
  have "wp (pcpRun turns n h running timing port) (\<lambda>r tr'. r \<noteq> Inr PcpPanicked \<and> ((\<forall>st b. Published st b \<notin> set tr') \<or>
      (\<exists>token. later [RandomRead 12 (Inr token)] tr' \<and> everyEvent (pcpEvent (get_be token) port) tr'))) []"
    unfolding pcpRun_def Let_def
    by (intro wp_intros pcpLoop_keeps [THEN wp_mono]) (auto simp: keeps_def)
  from wp_run [OF this assms] show "result \<noteq> Inr PcpPanicked" and "Published st b \<in> set tr \<Longrightarrow>
      \<exists>token. everyEvent (pcpEvent (get_be token) port) tr \<and> last tr = RandomRead 12 (Inr token)"
    by (auto simp: later_def)
qed

text \<open>C26: However long the PCP mapper runs and whatever the gateway, the clock and the context do, it never uses a socket or a mapping
  that is not there, whether it publishes a mapping or not.  Every mapping it publishes is live at the clock read just before, and was
  granted: the gateway sent a response to this run's nonce, for UDP and the own internal port, with that external address, usable and
  with a port, and with a lifetime; and the mapping expires no later than this lifetime after a time read before the response came.\<close>

theorem pcp_published_mappings_granted:
  assumes "run_state (pcpRun turns n h running timing port) [] = (result, tr)"
  shows "result \<noteq> Inr PcpPanicked \<and>
    (\<forall>after st b before m. tr = after @ Published st b # before \<and> stMapping st = Some m \<longrightarrow>
      (\<exists>now before' token. before = Clock now # before' \<and> now < mpExpiresAt m \<and> last tr = RandomRead 12 (Inr token) \<and>
        pcpGranted (get_be token) port m before' \<and> usablePCPExternalAddress (apAddr (mpExternal m)) \<and> apPort (mpExternal m) \<noteq> 0))"
proof (intro conjI allI impI; (elim conjE)?)
  show "result \<noteq> Inr PcpPanicked" using assms by (rule pcp_run)
next
  fix after st b before m
  assume tr: "tr = after @ Published st b # before" and m: "stMapping st = Some m"
  then obtain token where run: "everyEvent (pcpEvent (get_be token) port) tr" "last tr = RandomRead 12 (Inr token)"
    using pcp_run(2) [OF assms, of st b] by auto
  have "pcpEvent (get_be token) port (Published st b) before"
    using run(1) unfolding tr by (rule everyEventD)
  then obtain now before' where p: "before = Clock now # before'" "now < mpExpiresAt m" "pcpGranted (get_be token) port m before'"
    using m by auto
  moreover have "usablePCPExternalAddress (apAddr (mpExternal m)) \<and> apPort (mpExternal m) \<noteq> 0"
    using p(3) parsed_response(5) by (auto simp: pcpGranted_def)
  ultimately show "\<exists>now before' token. before = Clock now # before' \<and> now < mpExpiresAt m \<and> last tr = RandomRead 12 (Inr token) \<and>
      pcpGranted (get_be token) port m before' \<and> usablePCPExternalAddress (apAddr (mpExternal m)) \<and> apPort (mpExternal m) \<noteq> 0"
    using run(2) by blast
qed

section \<open>A run\<close>

definition pcpExampleMessage :: bytes where
  "pcpExampleMessage = [2, 0x81, 0, 0, 0, 0, 2, 88, 0, 0, 0, 7] @ replicate 12 0 @ replicate 12 0 @ [17, 0, 0, 0, 15, 160, 19, 136] @
     replicate 10 0 @ [255, 255, 8, 8, 8, 8]"

definition pcpExampleRoute :: pcpRoute where
  "pcpExampleRoute = \<lparr>rtGateway = Addr4 0xC0A80101, rtLocal = Addr4 0xC0A80102\<rparr>"

definition pcpExample :: pcpHost where
  "pcpExample = \<lparr>hostNow = int \<circ> length, hostErr = (\<lambda>tr. None), hostRandom = (\<lambda>tr n. Inr (replicate n 0)), hostAccepts = (\<lambda>tr st. True),
     hostWaits = (\<lambda>tr d. False), discoverRoute = (\<lambda>tr. Inr pcpExampleRoute), dialUDP = (\<lambda>tr route. Inr (Addr4 0xC0A80102)),
     operationErr = (\<lambda>tr. None), setDeadline = (\<lambda>tr. None), contextDeadline = (\<lambda>tr. None), writesUDP = (\<lambda>tr request. IOk ()),
     readsUDP = (\<lambda>tr. if length tr < 15 then IOk pcpExampleMessage else IFail [])\<rparr>"

lemma pcp_example_host [simp]:
  "hostNow pcpExample tr = int (length tr)" "hostErr pcpExample tr = None" "hostRandom pcpExample tr n = Inr (replicate n 0)"
  "hostAccepts pcpExample tr st" "\<not> hostWaits pcpExample tr d" "discoverRoute pcpExample tr = Inr pcpExampleRoute"
  "dialUDP pcpExample tr route = Inr (Addr4 0xC0A80102)" "operationErr pcpExample tr = None" "setDeadline pcpExample tr = None"
  "contextDeadline pcpExample tr = None" "writesUDP pcpExample tr request = IOk ()"
  "readsUDP pcpExample tr = (if length tr < 15 then IOk pcpExampleMessage else IFail [])"
  by (simp_all add: pcpExample_def)

definition pcpExampleResponse :: pcpMapResponse where
  "pcpExampleResponse = \<lparr>prExternal = AddrPortFrom (Addr4 0x08080808) 5000, prLifetime = 600, prEpoch = 7\<rparr>"

lemma pcp_example_parse: "parsePCPMapResponse pcpExampleMessage 0 4000 = Inr pcpExampleResponse"
  by code_simp

lemma pcp_example_match: "matchesResponse 0 pcpExampleMessage"
  by code_simp

lemma pcp_example_local: "usablePCPLocalAddress (Addr4 0xC0A80102) False"
  by code_simp

lemma pcp_example_lease: "leaseSeconds (tmLease (normalizeTiming defaultMapperTiming)) = 3600"
  by code_simp

definition pcpExchangeTrace :: "uint16 \<Rightarrow> uint32 \<Rightarrow> pcpTrace \<Rightarrow> pcpTrace" where
  "pcpExchangeTrace external lifetime tr =
     [Called (DeadlineSet None), Clock (int (length tr) + 6), Called (OperationErr None),
      Called (Wrote (buildPCPMapRequest (Addr4 0xC0A80102) 0 4000 external AddrZero lifetime) (IOk ())), Called (DeadlineSet None),
      Called (CtxDeadline None), Clock (int (length tr) + 1), Called (OperationErr None)] @ tr"

lemma pcp_example_request:
  "length tr < 7 \<Longrightarrow> run_state (requestPCPMapping (Suc 0) pcpExample (Addr4 0xC0A80102) 0 4000 external AddrZero lifetime) tr =
    (Some (Inr pcpExampleResponse), Called (ReadBack (IOk pcpExampleMessage)) # pcpExchangeTrace external lifetime tr)"
  by (simp add: requestPCPMapping_def Let_def upt_rec operationCtxErr_def clock_def deadlineCall_def pcp_example_match pcp_example_parse pcpExchangeTrace_def)

lemma pcp_example_delete:
  "length tr > 15 \<Longrightarrow> run_state (requestPCPMapping (Suc 0) pcpExample (Addr4 0xC0A80102) 0 4000 external AddrZero lifetime) tr =
    (Some (Inl (pcpPlain [])), Called (ReadBack (IFail [])) # pcpExchangeTrace external lifetime tr)"
  by (simp add: requestPCPMapping_def Let_def upt_rec operationCtxErr_def clock_def deadlineCall_def pcpExchangeTrace_def)

definition pcpExampleOwned :: pcpOwnedMapping where
  "pcpExampleOwned = \<lparr>poNonce = 0, poInternalPort = 4000, poLease = 600, poEpoch = 7,
     poMapping = \<lparr>mpExternal = AddrPortFrom (Addr4 0x08080808) 5000, mpProvider = providerPCP, mpExpiresAt = leaseEnd 4 600\<rparr>\<rparr>"

definition pcpExampleTrace :: pcpTrace where
  "pcpExampleTrace =
     Called (ReadBack (IOk pcpExampleMessage)) # pcpExchangeTrace 4000 3600
       [Clock 4, Called (Dialled pcpExampleRoute (Inr (Addr4 0xC0A80102))), Called (FoundRoute (Inr pcpExampleRoute)),
        ContextErr None, RandomRead 12 (Inr (replicate 12 0))]"

lemma pcp_example_attempt:
  "run_state (pcpAttempt (Suc 0) pcpExample 0 4000 (normalizeTiming defaultMapperTiming)
      \<lparr>psClient = None, psOwned = None, psAttempted = False, psRetry = t\<rparr>) [ContextErr None, RandomRead 12 (Inr (replicate 12 0))] =
    (Attempted None \<lparr>psClient = Some (Addr4 0xC0A80102), psOwned = Some pcpExampleOwned, psAttempted = True, psRetry = t\<rparr>, pcpExampleTrace)"
  by (simp add: pcpAttempt_def connect_def newPCPGatewayClient_def pcpExampleRoute_def pcp_example_local createOwned_def
     pcp_example_request clock_def pcp_example_lease newPCPOwnedMapping_def applyPCPResponse_def pcpExampleResponse_def conservativeLease_def
     Let_def pcpExampleOwned_def pcpExampleTrace_def)

definition pcpExampleState :: State where
  "pcpExampleState = \<lparr>stMapping = Some (poMapping pcpExampleOwned), stError = [], stRetryAfter = None\<rparr>"

lemma pcp_example_length [simp]: "length pcpExampleTrace = 14" "length (pcpExchangeTrace p l tr) = length tr + 8"
  by (simp_all add: pcpExampleTrace_def pcpExchangeTrace_def)

lemma pcp_example_turn:
  "run_state (pcpTurnStep (Suc 0) pcpExample 0 4000 (normalizeTiming defaultMapperTiming)
      \<lparr>psClient = None, psOwned = None, psAttempted = False, psRetry = t\<rparr>) [RandomRead 12 (Inr (replicate 12 0))] =
    (PcpStop \<lparr>psClient = Some (Addr4 0xC0A80102), psOwned = Some pcpExampleOwned, psAttempted = True,
       psRetry = tmRetryInitial (normalizeTiming defaultMapperTiming)\<rparr>,
     Waited 239999999987 False # Clock 17 # Published pcpExampleState True # Clock 15 # ContextErr None # pcpExampleTrace)"
  by (simp add: pcpTurnStep_def Let_def ctxErr_def ownedExpired_def pcp_example_attempt finishTurn_def clock_def mappingValidAt_def
    announceOwned_def publishState_def boundedText_def waitContext_def mappingRefreshDelay_def errorState_def pcpExampleOwned_def
    leaseEnd_def pcpExampleState_def)

definition pcpExampleEnd :: pcpTrace where
  "pcpExampleEnd =
     [Called ClosedSocket, Called (ReadBack (IFail [])), Called (DeadlineSet None), Clock 25, Called (OperationErr None),
      Called (Wrote (buildPCPMapRequest (Addr4 0xC0A80102) 0 4000 0 AddrZero 0) (IOk ())), Called (DeadlineSet None),
      Called (CtxDeadline None), Clock 20, Called (OperationErr None), Waited 239999999987 False, Clock 17]"

lemma pcp_example_nonce: "get_be (replicate 12 0) = (0 :: nonce)"
  by code_simp

lemma pcp_example_run:
  "run_state (pcpRun 1 (Suc 0) pcpExample False defaultMapperTiming 4000) [] =
    (Inr PcpReturned, pcpExampleEnd @ Published pcpExampleState True # [Clock 15, ContextErr None] @ pcpExampleTrace)"
  by (simp add: pcpRun_def readFull_def Let_def pcp_example_turn pcpCleanup_def dropMapping_def deletePCPMapping_def pcp_example_delete
    closeClient_def pcp_example_nonce pcpExampleEnd_def pcpExchangeTrace_def)

theorem pcp_published_mappings_granted_witness:
  "(Inr PcpReturned :: bytes + pcpOutcome) \<noteq> Inr PcpPanicked \<and>
   (\<exists>now before' token. [Clock 15, ContextErr None] @ pcpExampleTrace = Clock now # before' \<and> now < mpExpiresAt (poMapping pcpExampleOwned) \<and>
    last (pcpExampleEnd @ Published pcpExampleState True # [Clock 15, ContextErr None] @ pcpExampleTrace) = RandomRead 12 (Inr token) \<and>
    pcpGranted (get_be token) 4000 (poMapping pcpExampleOwned) before' \<and>
    usablePCPExternalAddress (apAddr (mpExternal (poMapping pcpExampleOwned))) \<and> apPort (mpExternal (poMapping pcpExampleOwned)) \<noteq> 0)"
proof (intro conjI)
  show "(Inr PcpReturned :: bytes + pcpOutcome) \<noteq> Inr PcpPanicked"
    by (rule pcp_published_mappings_granted [OF pcp_example_run, THEN conjunct1])
next
  have "stMapping pcpExampleState = Some (poMapping pcpExampleOwned)" by (simp add: pcpExampleState_def)
  from pcp_published_mappings_granted [OF pcp_example_run, THEN conjunct2, rule_format, OF conjI, OF refl this]
  show "\<exists>now before' token. [Clock 15, ContextErr None] @ pcpExampleTrace = Clock now # before' \<and> now < mpExpiresAt (poMapping pcpExampleOwned) \<and>
    last (pcpExampleEnd @ Published pcpExampleState True # [Clock 15, ContextErr None] @ pcpExampleTrace) = RandomRead 12 (Inr token) \<and>
    pcpGranted (get_be token) 4000 (poMapping pcpExampleOwned) before' \<and>
    usablePCPExternalAddress (apAddr (mpExternal (poMapping pcpExampleOwned))) \<and> apPort (mpExternal (poMapping pcpExampleOwned)) \<noteq> 0" .
qed

end
