(* ===== verification/Failover.thy ===== *)
theory Failover
  imports PortMap
begin

text \<open>
  The gateway mapper, \<open>internal/networking/portmap/gateway.go\<close>: it runs one mapper after the other, hands on the states of the one that
  runs, and turns to the next when the mapping is lost or none came.  A mapper is outside: it is started, sends states, returns, or
  is stopped.
\<close>

section \<open>A provider\<close>

datatype runErr = RunErr (isCanceled: bool) (runText: bytes)

datatype providerEvent =
    ProviderState State
  | ProviderReturned "runErr option"
  | ContextDone

datatype gatewayCall =
    Started nat
  | Received nat providerEvent
  | Stopped nat "runErr option"

type_synonym 'a gatewayIO = "(gatewayCall, 'a) mapperIO"
type_synonym gatewayTrace = "gatewayCall mapperEvent list"

record gatewayHost = "gatewayCall host" +
  providerSelects :: "gatewayTrace \<Rightarrow> nat \<Rightarrow> providerEvent"
  providerStops :: "gatewayTrace \<Rightarrow> nat \<Rightarrow> runErr option"

record mapperProvider =
  mprName :: bytes
  mprPresent :: bool

definition newGatewayProviders :: "mapperProvider list" where
  "newGatewayProviders = map (\<lambda>name. \<lparr>mprName = bytes_of name, mprPresent = True\<rparr>) [''PCP'', ''NAT-PMP'', ''UPnP'']"

definition newIPv6Providers :: "mapperProvider list" where
  "newIPv6Providers =
     map (\<lambda>name. \<lparr>mprName = bytes_of name, mprPresent = True\<rparr>) [''PCP IPv6 default gateway'', ''PCP IPv6 anycast'']"

record gatewayTiming =
  gtRetryInitial :: duration
  gtRetryMaximum :: duration

definition normalizeGatewayTiming :: "gatewayTiming \<Rightarrow> gatewayTiming" where
  "normalizeGatewayTiming t =
     (let t = (if gtRetryInitial t \<le> 0 then t\<lparr>gtRetryInitial := defaultRetryInitial\<rparr> else t)
      in if gtRetryMaximum t < gtRetryInitial t then t\<lparr>gtRetryMaximum := gtRetryInitial t\<rparr> else t)"

datatype providerErr = providerRunError (providerText: bytes) "time option" | otherErr (providerText: bytes)

definition stopProvider :: "gatewayHost \<Rightarrow> nat \<Rightarrow> runErr option gatewayIO" where
  "stopProvider h i = ask (\<lambda>tr. providerStops h tr i) (\<lambda>err. Called (Stopped i err))"

text \<open>What is left of a run when the caller's context has ended.\<close>

definition endedRun :: "gatewayHost \<Rightarrow> bool \<Rightarrow> (bool \<times> providerErr option) option gatewayIO" where
  "endedRun h active = do { cancelled \<leftarrow> ctxErr h; pass (Some (active, map_option otherErr cancelled)) }"

definition failedState :: "gatewayHost \<Rightarrow> nat \<Rightarrow> bytes \<Rightarrow> bool \<Rightarrow> State \<Rightarrow> (bool \<times> providerErr option) option gatewayIO" where
  "failedState h i name active st = do {
     let st = (if stError st = [] then st\<lparr>stError := name @ bytes_of '' mapping became unavailable''\<rparr> else st);
     let stateErr = providerRunError (boundedText (stError st) maxErrorLength) (stRetryAfter st);
     accepted \<leftarrow> (if active then publishState h st else pass True);
     if \<not> accepted then do { _ \<leftarrow> stopProvider h i; endedRun h True }
     else do {
       err \<leftarrow> stopProvider h i;
       pass (Some (active, Some
         (case err of
            None \<Rightarrow> stateErr
          | Some err \<Rightarrow>
              if isCanceled err then stateErr
              else otherErr (combineErrors (bytes_of ''mapper failed'') [Some (providerText stateErr), Some (runText err)]))))
     }
   }"

definition returnedRun :: "gatewayHost \<Rightarrow> bytes \<Rightarrow> bool \<Rightarrow> runErr option \<Rightarrow> (bool \<times> providerErr option) option gatewayIO" where
  "returnedRun h name active err = do {
     cancelled \<leftarrow> ctxErr h;
     if cancelled \<noteq> None then pass (Some (active, map_option otherErr cancelled))
     else do {
       let message = name @ bytes_of '': '' @ (case err of None \<Rightarrow> bytes_of ''mapper stopped unexpectedly'' | Some err \<Rightarrow> runText err);
       accepted \<leftarrow> (if active then publishState h (errorState (boundedError (Some message))) else pass True);
       if \<not> accepted then endedRun h True else pass (Some (active, Some (otherErr message)))
     }
   }"

text \<open>The loop over what is selected next, for at most \<open>n\<close> of them; \<open>None\<close> is a mapper that still runs.\<close>

fun providerLoop :: "nat \<Rightarrow> gatewayHost \<Rightarrow> nat \<Rightarrow> bytes \<Rightarrow> bool \<Rightarrow> (bool \<times> providerErr option) option gatewayIO" where
  "providerLoop 0 h i name active = pass None"
| "providerLoop (Suc n) h i name active = do {
     e \<leftarrow> ask (\<lambda>tr. providerSelects h tr i) (\<lambda>e. Called (Received i e));
     (case e of
        ProviderState st \<Rightarrow>
          if stMapping st \<noteq> None then do {
            accepted \<leftarrow> publishState h st;
            if \<not> accepted then do { _ \<leftarrow> stopProvider h i; endedRun h True }
            else providerLoop n h i name True
          }
          else failedState h i name active st
      | ProviderReturned err \<Rightarrow> returnedRun h name active err
      | ContextDone \<Rightarrow> do { _ \<leftarrow> stopProvider h i; endedRun h active })
   }"

definition runMapperProvider :: "nat \<Rightarrow> gatewayHost \<Rightarrow> nat \<Rightarrow> bytes \<Rightarrow> (bool \<times> providerErr option) option gatewayIO" where
  "runMapperProvider n h i name = do {
     _ \<leftarrow> ask (\<lambda>tr. ()) (\<lambda>_. Called (Started i));
     providerLoop n h i name False
   }"

section \<open>The rounds\<close>

record gatewayState =
  gsNext :: nat
  gsRetry :: duration
  gsRetryAfter :: "nat \<Rightarrow> time option"

definition notBefore :: "time option \<Rightarrow> time \<Rightarrow> bool" where
  "notBefore retryAfter now \<longleftrightarrow> (case retryAfter of None \<Rightarrow> False | Some t \<Rightarrow> now < t)"

datatype roundOutcome =
    RoundRunning
  | RoundCancelled
  | RoundActivated nat "nat \<Rightarrow> time option"
  | RoundFailed errorSummary "nat \<Rightarrow> time option"

definition providerName :: "mapperProvider list \<Rightarrow> nat \<Rightarrow> bytes" where
  "providerName providers i =
     (let name = boundedText (mprName (providers ! i)) maxProviderLength
      in if name = [] then bytes_of ''provider '' @ decimal (i + 1) else name)"

fun gatewayRound ::
  "nat \<Rightarrow> gatewayHost \<Rightarrow> mapperProvider list \<Rightarrow> nat list \<Rightarrow> (nat \<Rightarrow> time option) \<Rightarrow> errorSummary \<Rightarrow> roundOutcome gatewayIO" where
  "gatewayRound n h providers [] retryAfter failures = pass (RoundFailed failures retryAfter)"
| "gatewayRound n h providers (i # is) retryAfter failures = do {
     now \<leftarrow> clock h;
     if notBefore (retryAfter i) now then gatewayRound n h providers is retryAfter failures
     else if \<not> mprPresent (providers ! i)
     then gatewayRound n h providers is retryAfter
       (addText failures (providerName providers i @ bytes_of '': mapper is unavailable''))
     else do {
       r \<leftarrow> runMapperProvider n h i (providerName providers i);
       (case r of
          None \<Rightarrow> pass RoundRunning
        | Some (wasActive, err) \<Rightarrow> do {
            cancelled \<leftarrow> ctxErr h;
            if cancelled \<noteq> None then pass RoundCancelled
            else if wasActive then pass (RoundActivated i retryAfter)
            else do {
              now \<leftarrow> (if err \<noteq> None \<and> is_providerRunError (the err) then clock h else pass 0);
              let retryAfter =
                (case err of
                   Some (providerRunError text t) \<Rightarrow> if notBefore t now then retryAfter(i := t) else retryAfter
                 | _ \<Rightarrow> retryAfter);
              gatewayRound n h providers is retryAfter (addFailure failures (providerName providers i) (map_option providerText err))
            }
          })
     }
   }"

definition roundOrder :: "nat \<Rightarrow> nat \<Rightarrow> nat list" where
  "roundOrder start count = map (\<lambda>offset. (start + offset) mod count) [0..<count]"

fun gatewayLoop :: "nat \<Rightarrow> nat \<Rightarrow> gatewayHost \<Rightarrow> mapperProvider list \<Rightarrow> gatewayTiming \<Rightarrow> gatewayState \<Rightarrow> bool gatewayIO" where
  "gatewayLoop 0 n h providers timing s = pass False"
| "gatewayLoop (Suc rounds) n h providers timing s = do {
     r \<leftarrow> gatewayRound n h providers (roundOrder (gsNext s) (length providers)) (gsRetryAfter s) noFailures;
     (case r of
        RoundRunning \<Rightarrow> pass False
      | RoundCancelled \<Rightarrow> pass True
      | RoundActivated i retryAfter \<Rightarrow>
          gatewayLoop rounds n h providers timing
            (s\<lparr>gsNext := (i + 1) mod length providers, gsRetry := gtRetryInitial timing, gsRetryAfter := retryAfter\<rparr>)
      | RoundFailed failures retryAfter \<Rightarrow> do {
          accepted \<leftarrow> publishState h (errorState (summaryErr failures (bytes_of ''gateway port mapping unavailable'')));
          if \<not> accepted then pass True
          else do {
            waited \<leftarrow> waitContext h (gsRetry s);
            if \<not> waited then pass True
            else gatewayLoop rounds n h providers timing
              (s\<lparr>gsRetry := nextRetry (gsRetry s) (gtRetryMaximum timing), gsRetryAfter := retryAfter\<rparr>)
          }
        })
   }"

text \<open>\<open>Run\<close> for a number of rounds, whose providers select at most \<open>n\<close> times each; whether it has returned.\<close>

definition gatewayRun ::
  "nat \<Rightarrow> nat \<Rightarrow> gatewayHost \<Rightarrow> mapperProvider list \<Rightarrow> bool \<Rightarrow> gatewayTiming \<Rightarrow> uint16 \<Rightarrow> (bytes + bool) gatewayIO" where
  "gatewayRun rounds n h providers running timing internalPort =
     (if internalPort = 0 then pass (Inl (bytes_of ''gateway mapper requires a non-zero internal port''))
      else if running then pass (Inl (bytes_of ''gateway mapper is already running''))
      else if length providers = 0 then pass (Inl (bytes_of ''gateway mapper has no providers''))
      else do {
        let timing = normalizeGatewayTiming timing;
        returned \<leftarrow> gatewayLoop rounds n h providers timing
          \<lparr>gsNext = 0, gsRetry = gtRetryInitial timing, gsRetryAfter = (\<lambda>_. None)\<rparr>;
        pass (Inr returned)
      })"

section \<open>One mapper at a time\<close>

text \<open>The mapper that runs after a trace.\<close>

fun runningMapper :: "gatewayTrace \<Rightarrow> nat option" where
  "runningMapper [] = None"
| "runningMapper (Called (Started i) # tr) = Some i"
| "runningMapper (Called (Stopped i err) # tr) = None"
| "runningMapper (Called (Received i (ProviderReturned err)) # tr) = None"
| "runningMapper (e # tr) = runningMapper tr"

fun gatewayEvent :: "nat \<Rightarrow> gatewayCall mapperEvent \<Rightarrow> gatewayTrace \<Rightarrow> bool" where
  "gatewayEvent count (Called (Started i)) before = (i < count \<and> runningMapper before = None)"
| "gatewayEvent count (Called (Received i e)) before = (runningMapper before = Some i)"
| "gatewayEvent count (Called (Stopped i err)) before = (runningMapper before = Some i)"
| "gatewayEvent count (Published st b) before =
     (lineText maxErrorLength (stError st) \<and>
      (stMapping st \<noteq> None \<longrightarrow> (\<exists>i received before'. before = Called (Received i (ProviderState received)) # before' \<and>
         runningMapper before = Some i \<and> stMapping st = stMapping received)))"
| "gatewayEvent count e before = True"

abbreviation gatewayKeeps :: "nat \<Rightarrow> gatewayTrace \<Rightarrow> gatewayTrace \<Rightarrow> bool" where
  "gatewayKeeps count \<equiv> keeps (gatewayEvent count)"

lemma wp_providerEvent [wp_intros]:
  "(\<And>st. e = ProviderState st \<Longrightarrow> wp (f st) Q s) \<Longrightarrow> (\<And>err. e = ProviderReturned err \<Longrightarrow> wp (g err) Q s) \<Longrightarrow>
    (e = ContextDone \<Longrightarrow> wp m Q s) \<Longrightarrow>
    wp (case e of ProviderState st \<Rightarrow> f st | ProviderReturned err \<Rightarrow> g err | ContextDone \<Rightarrow> m) Q s"
  by (cases e) simp_all

lemma wp_roundOutcome [wp_intros]:
  "(r = RoundRunning \<Longrightarrow> wp a Q s) \<Longrightarrow> (r = RoundCancelled \<Longrightarrow> wp b Q s) \<Longrightarrow> (\<And>i x. r = RoundActivated i x \<Longrightarrow> wp (c i x) Q s) \<Longrightarrow>
    (\<And>x y. r = RoundFailed x y \<Longrightarrow> wp (d x y) Q s) \<Longrightarrow>
    wp (case r of RoundRunning \<Rightarrow> a | RoundCancelled \<Rightarrow> b | RoundActivated i x \<Rightarrow> c i x | RoundFailed x y \<Rightarrow> d x y) Q s"
  by (cases r) simp_all

lemma providerLoop_keeps:
  "gatewayKeeps count tr0 tr \<Longrightarrow> runningMapper tr = Some i \<Longrightarrow>
    wp (providerLoop n h i name active) (\<lambda>r tr'. gatewayKeeps count tr0 tr' \<and> (r \<noteq> None \<longrightarrow> runningMapper tr' = None)) tr"
proof (induction n arbitrary: active tr)
  case (Suc n)
  show ?case unfolding providerLoop.simps failedState_def returnedRun_def endedRun_def stopProvider_def errorState_def
    by (intro wp_intros Suc.IH) (use Suc.prems in \<open>auto intro!: keeps_Cons\<close>)
qed (auto intro: wp_intros)

lemma round_keeps:
  "gatewayKeeps count tr0 tr \<Longrightarrow> runningMapper tr = None \<Longrightarrow> \<forall>i\<in>set is. i < count \<Longrightarrow>
    wp (gatewayRound n h providers is retryAfter failures)
      (\<lambda>r tr'. gatewayKeeps count tr0 tr' \<and> (r \<noteq> RoundRunning \<longrightarrow> runningMapper tr' = None)) tr"
proof (induction "is" arbitrary: retryAfter failures tr)
  case (Cons i "is")
  show ?case unfolding gatewayRound.simps runMapperProvider_def
    by (intro wp_intros providerLoop_keeps [of count tr0, THEN wp_mono] Cons.IH)
      (use Cons.prems in \<open>auto intro!: keeps_Cons\<close>)
qed (auto intro!: wp_intros)

lemma order_less: "0 < count \<Longrightarrow> \<forall>i\<in>set (roundOrder start count). i < count"
  by (simp add: roundOrder_def)

lemma gatewayLoop_keeps:
  "gatewayKeeps (length providers) tr0 tr \<Longrightarrow> runningMapper tr = None \<Longrightarrow> providers \<noteq> [] \<Longrightarrow>
    wp (gatewayLoop rounds n h providers timing s) (\<lambda>r. gatewayKeeps (length providers) tr0) tr"
proof (induction rounds arbitrary: s tr)
  case (Suc rounds)
  show ?case unfolding gatewayLoop.simps
    by (intro wp_intros round_keeps [of "length providers" tr0, THEN wp_mono] Suc.IH order_less)
      (use Suc.prems in \<open>auto intro!: keeps_Cons simp: errorState_def\<close>)
qed (auto intro: wp_intros)

text \<open>C27: The gateway mapper runs at most one mapper at any time: it starts one only when none runs, selects from and stops only the one
  that runs, and hands on a mapping only directly after the running mapper sent it.  Texts of errors stay bounded.\<close>

theorem gateway_one_mapper:
  assumes "run_state (gatewayRun rounds n h providers running timing port) [] = (r, tr)"
  shows "everyEvent (gatewayEvent (length providers)) tr"
proof -
  have "wp (gatewayRun rounds n h providers running timing port) (\<lambda>r. gatewayKeeps (length providers) []) []"
    unfolding gatewayRun_def
    by (intro wp_intros gatewayLoop_keeps [THEN wp_mono]) auto
  from wp_run [OF this assms] show ?thesis by (simp add: keeps_def)
qed

definition failoverMapping :: Mapping where
  "failoverMapping = \<lparr>mpExternal = AddrPortFrom (Addr4 0x08080808) 4000, mpProvider = [80, 67, 80], mpExpiresAt = 9\<rparr>"

definition failoverState :: State where
  "failoverState = \<lparr>stMapping = Some failoverMapping, stError = [], stRetryAfter = None\<rparr>"

definition failoverHost :: gatewayHost where
  "failoverHost = \<lparr>hostNow = (\<lambda>tr. 0), hostErr = (\<lambda>tr. if length tr > 6 then Some [] else None), hostRandom = (\<lambda>tr n. Inl []),
     hostAccepts = (\<lambda>tr st. True), hostWaits = (\<lambda>tr d. False),
     providerSelects = (\<lambda>tr i. if i = 0 then ProviderReturned None else if length tr = 7 then ProviderState failoverState else ContextDone),
     providerStops = (\<lambda>tr i. None)\<rparr>"

definition failoverTrace :: gatewayTrace where
  "failoverTrace =
     [ContextErr (Some []), ContextErr (Some []), Called (Stopped 1 None), Called (Received 1 ContextDone), Published failoverState True,
      Called (Received 1 (ProviderState failoverState)), Called (Started 1), Clock 0, ContextErr None, ContextErr None,
      Called (Received 0 (ProviderReturned None)), Called (Started 0), Clock 0]"

lemma failover_host [simp]:
  "hostNow failoverHost tr = 0" "hostErr failoverHost tr = (if length tr > 6 then Some [] else None)" "hostAccepts failoverHost tr st"
  "providerSelects failoverHost tr i =
    (if i = 0 then ProviderReturned None else if length tr = 7 then ProviderState failoverState else ContextDone)"
  "providerStops failoverHost tr i = None"
  by (simp_all add: failoverHost_def)

lemma failover_first:
  "run_state (runMapperProvider (Suc (Suc 0)) failoverHost 0 name) [e] =
    (Some (False, Some (otherErr (name @ bytes_of '': '' @ bytes_of ''mapper stopped unexpectedly''))),
     [ContextErr None, Called (Received 0 (ProviderReturned None)), Called (Started 0), e])"
  by (simp add: runMapperProvider_def returnedRun_def ctxErr_def)

lemma failover_second:
  "length tr = 6 \<Longrightarrow> run_state (runMapperProvider (Suc (Suc 0)) failoverHost (Suc 0) name) tr =
    (Some (True, Some (otherErr [])),
     [ContextErr (Some []), Called (Stopped 1 None), Called (Received 1 ContextDone), Published failoverState True,
      Called (Received 1 (ProviderState failoverState)), Called (Started 1)] @ tr)"
  by (simp add: runMapperProvider_def ctxErr_def endedRun_def stopProvider_def publishState_def failoverState_def boundedText_def)

lemma failover_run:
  "run_state (gatewayRun 1 (Suc (Suc 0)) failoverHost [\<lparr>mprName = [80], mprPresent = True\<rparr>, \<lparr>mprName = [78], mprPresent = True\<rparr>] False
      \<lparr>gtRetryInitial = 1, gtRetryMaximum = 2\<rparr> 4000) [] = (Inr True, failoverTrace)"
  by (simp add: gatewayRun_def roundOrder_def clock_def notBefore_def failover_first failover_second ctxErr_def failoverTrace_def Let_def
    split: prod.split)

theorem gateway_one_mapper_witness: "everyEvent (gatewayEvent (Suc (Suc 0))) failoverTrace"
  using gateway_one_mapper [OF failover_run] by simp

end
