(* ===== verification/EndpointCandidates.thy ===== *)
theory EndpointCandidates
  imports AddrText Endpoint PeerState "HOL-Library.Char_ord" "HOL-Library.List_Lexorder" "HOL-Library.Product_Lexorder"
begin

text \<open>
  The addresses an endpoint is reachable at: \<open>candidate.go\<close>, \<open>options.go\<close> and the discovery half of \<open>endpoint.go\<close> in
  \<open>internal/networking/endpoint\<close>.  The interfaces of the machine and the answers of resolver and STUN servers are arguments.
  Go's sort leaves equal elements in any order; here they keep theirs.
\<close>

section \<open>Candidates\<close>

record Candidate =
  cdType :: CandidateType
  cdAddress :: string
  cdFamily :: string
  cdInterface :: string
  cdSource :: string

record STUNResult =
  srServer :: string
  srFamily :: string
  srMappedAddress :: string
  srRTTMillis :: int
  srError :: string

record EndpointSnapshot =
  esListenAddress :: string
  esCandidates :: "Candidate list"
  esSTUN :: "STUNResult list"

definition isUsableNICAddress :: "Addr \<Rightarrow> bool" where
  "isUsableNICAddress address \<longleftrightarrow>
     addrIsValid address \<and> \<not> IsUnspecified address \<and> \<not> IsLoopback address \<and> \<not> IsMulticast address \<and> \<not> IsLinkLocalUnicast address"

definition addressFamily :: "Addr \<Rightarrow> string" where
  "addressFamily address = (if Is4 address then ''ipv4'' else ''ipv6'')"

record networkInterface =
  niUp :: bool
  niName :: string
  niAddresses :: "Addr list option"

definition nicCandidate :: "string \<Rightarrow> uint16 \<Rightarrow> Addr \<Rightarrow> Candidate" where
  "nicCandidate name port address =
     \<lparr>cdType = CandidateNIC, cdAddress = apString (AddrPortFrom address port), cdFamily = addressFamily address,
      cdInterface = name, cdSource = []\<rparr>"

fun interfaceAddresses :: "Addr \<Rightarrow> uint16 \<Rightarrow> string \<Rightarrow> Addr set \<times> Candidate list \<Rightarrow> Addr list \<Rightarrow> Addr set \<times> Candidate list" where
  "interfaceAddresses bound port name (known, cs) [] = (known, cs)"
| "interfaceAddresses bound port name (known, cs) (address # addresses) =
     (let parsed = Unmap address
      in if Is4 bound \<and> \<not> Is4 parsed \<or> \<not> isUsableNICAddress parsed \<or> parsed \<in> known
         then interfaceAddresses bound port name (known, cs) addresses
         else interfaceAddresses bound port name (insert parsed known, cs @ [nicCandidate name port parsed]) addresses)"

fun interfaceCandidates :: "Addr \<Rightarrow> uint16 \<Rightarrow> Addr set \<times> Candidate list \<Rightarrow> networkInterface list \<Rightarrow> Candidate list" where
  "interfaceCandidates bound port (known, cs) [] = cs"
| "interfaceCandidates bound port (known, cs) (ni # nis) =
     (if \<not> niUp ni then interfaceCandidates bound port (known, cs) nis
      else case niAddresses ni of
          None \<Rightarrow> interfaceCandidates bound port (known, cs) nis
        | Some addresses \<Rightarrow> interfaceCandidates bound port (interfaceAddresses bound port (niName ni) (known, cs) addresses) nis)"

text \<open>\<open>None\<close> when the interfaces cannot be listed.\<close>

definition nicCandidates :: "networkInterface list option \<Rightarrow> Addr \<Rightarrow> uint16 \<Rightarrow> Candidate list option" where
  "nicCandidates interfaces boundAddress port =
     (let bound = Unmap boundAddress
      in if addrIsValid bound \<and> \<not> IsUnspecified bound then
           if \<not> isUsableNICAddress bound then Some [] else Some [nicCandidate [] port bound]
         else map_option
           (\<lambda>nis. sort_key (\<lambda>c. (cdFamily c, cdInterface c, cdAddress c)) (interfaceCandidates bound port ({}, []) nis)) interfaces)"

text \<open>\<open>Run\<close> when its socket is bound.\<close>

definition endpointListening :: "networkInterface list option \<Rightarrow> AddrPort \<Rightarrow> EndpointSnapshot \<Rightarrow> EndpointSnapshot" where
  "endpointListening interfaces localAddress snap =
     (let local = AddrPortFrom (Unmap (apAddr localAddress)) (apPort localAddress)
      in snap\<lparr>esListenAddress := apString local,
           esCandidates := (case nicCandidates interfaces (apAddr local) (apPort local) of None \<Rightarrow> [] | Some cs \<Rightarrow> cs)\<rparr>)"

section \<open>Options\<close>

record EndpointOptions =
  eoListenAddress :: string
  eoSTUNServers :: "string list"
  eoSTUNTimeout :: duration
  eoSTUNRefresh :: duration

definition defaultListenAddress :: string where
  "defaultListenAddress = ''[::]:0''"

definition defaultSTUNTimeout :: duration where [simp]: "defaultSTUNTimeout = 2500 * Millisecond"
definition defaultSTUNRefresh :: duration where [simp]: "defaultSTUNRefresh = 5 * Minute"

definition DefaultOptions :: EndpointOptions where
  "DefaultOptions =
     \<lparr>eoListenAddress = defaultListenAddress, eoSTUNServers = [], eoSTUNTimeout = defaultSTUNTimeout, eoSTUNRefresh = defaultSTUNRefresh\<rparr>"

definition normalizeOptions :: "EndpointOptions \<Rightarrow> EndpointOptions" where
  "normalizeOptions options =
     (let options = (if eoListenAddress options = [] then options\<lparr>eoListenAddress := defaultListenAddress\<rparr> else options);
          options = (if eoSTUNTimeout options \<le> 0 then options\<lparr>eoSTUNTimeout := defaultSTUNTimeout\<rparr> else options)
      in if eoSTUNRefresh options < 0 then options\<lparr>eoSTUNRefresh := 0\<rparr> else options)"

section \<open>STUN results\<close>

definition sortSTUNResults :: "STUNResult list \<Rightarrow> STUNResult list" where
  "sortSTUNResults results = sort_key (\<lambda>r. (srServer r, srFamily r)) results"

definition stunCandidate :: "STUNResult \<Rightarrow> Candidate option" where
  "stunCandidate result =
     (case ParseAddrPort (srMappedAddress result) of
        None \<Rightarrow> None
      | Some address \<Rightarrow>
          Some \<lparr>cdType = CandidateSTUN, cdAddress = srMappedAddress result, cdFamily = addressFamily (apAddr address),
            cdInterface = [], cdSource = srServer result\<rparr>)"

fun addSTUNCandidates :: "string list \<Rightarrow> Candidate list \<Rightarrow> STUNResult list \<Rightarrow> Candidate list" where
  "addSTUNCandidates known cs [] = cs"
| "addSTUNCandidates known cs (result # results) =
     (case stunCandidate result of
        None \<Rightarrow> addSTUNCandidates known cs results
      | Some c \<Rightarrow>
          if cdAddress c \<in> set known then addSTUNCandidates known cs results
          else addSTUNCandidates (cdAddress c # known) (cs @ [c]) results)"

definition mergeSTUNCandidates :: "Candidate list \<Rightarrow> STUNResult list \<Rightarrow> Candidate list" where
  "mergeSTUNCandidates existing results =
     addSTUNCandidates [] (filter (\<lambda>c. cdType c = CandidateNIC) existing) results"

text \<open>The addresses of a server, at most one per family.\<close>

definition resolveSTUNAddresses :: "string \<Rightarrow> Addr list \<Rightarrow> uint16 \<Rightarrow> AddrPort list result" where
  "resolveSTUNAddresses server addresses port =
     (let unmapped = map Unmap addresses;
          resolved =
            (case filter Is4 unmapped of [] \<Rightarrow> [] | a # _ \<Rightarrow> [AddrPortFrom a port]) @
            (case filter Is6 unmapped of [] \<Rightarrow> [] | a # _ \<Rightarrow> [AddrPortFrom a port])
      in if resolved = [] then fail (''STUN server '' @ server @ '' has no IP addresses'') else Inr resolved)"

text \<open>One probe of a server: its answer, and whether the query had run out of time.\<close>

definition familyResult :: "string \<Rightarrow> AddrPort \<Rightarrow> stunProbeResult result \<Rightarrow> bool \<Rightarrow> STUNResult" where
  "familyResult server address answer timedOut =
     (let result = \<lparr>srServer = server, srFamily = (if Is4 (apAddr address) then ''ipv4'' else ''ipv6''), srMappedAddress = [],
        srRTTMillis = 0, srError = []\<rparr>
      in case answer of
           Inl (Error err) \<Rightarrow> result\<lparr>srError := (if timedOut then ''STUN request timed out'' else err)\<rparr>
         | Inr reply \<Rightarrow> result\<lparr>srMappedAddress := apString (mapped reply), srRTTMillis := stunProbeResult.rttMillis reply\<rparr>)"

definition collectSTUNFamilies :: "string \<Rightarrow> (AddrPort \<times> stunProbeResult result \<times> bool) list \<Rightarrow> STUNResult list" where
  "collectSTUNFamilies server answers =
     sortSTUNResults (map (\<lambda>(address, answer, timedOut). familyResult server address answer timedOut) answers)"

definition querySTUN :: "string \<Rightarrow> string + (AddrPort \<times> stunProbeResult result \<times> bool) list \<Rightarrow> STUNResult list" where
  "querySTUN server answers =
     (case answers of
        Inl err \<Rightarrow> [\<lparr>srServer = server, srFamily = [], srMappedAddress = [], srRTTMillis = 0, srError = err\<rparr>]
      | Inr answers \<Rightarrow> collectSTUNFamilies server answers)"

text \<open>The batches of the servers, in the order in which they answered.\<close>

definition querySTUNServers :: "STUNResult list list \<Rightarrow> STUNResult list" where
  "querySTUNServers batches = sortSTUNResults (concat batches)"

definition refreshSTUN :: "EndpointOptions \<Rightarrow> (string list \<Rightarrow> STUNResult list list) \<Rightarrow> EndpointSnapshot \<Rightarrow> EndpointSnapshot" where
  "refreshSTUN options query snap =
     (let servers = eoSTUNServers options;
          servers = (if length servers > maxSTUNServerResults then take maxSTUNServerResults servers else servers);
          stunResults = querySTUNServers (query servers)
      in snap\<lparr>esCandidates := mergeSTUNCandidates (esCandidates snap) stunResults, esSTUN := stunResults\<rparr>)"

section \<open>What the endpoint offers\<close>

text \<open>No candidate of an endpoint's own is a port mapping, and those of STUN have different addresses.\<close>

definition selfFound :: "Candidate list \<Rightarrow> bool" where
  "selfFound cs \<longleftrightarrow> list_all (\<lambda>c. cdType c \<noteq> CandidatePortMapped) cs \<and>
     distinct (map cdAddress (filter (\<lambda>c. cdType c = CandidateSTUN) cs))"

lemma stunCandidate_type: "stunCandidate r = Some c \<Longrightarrow> cdType c = CandidateSTUN"
  by (auto simp: stunCandidate_def split: option.splits)

lemma own_snoc:
  "cdType c = CandidateSTUN \<Longrightarrow>
   selfFound (cs @ [c]) \<longleftrightarrow> selfFound cs \<and> cdAddress c \<notin> cdAddress ` {c \<in> set cs. cdType c = CandidateSTUN}"
  by (auto simp: selfFound_def)

lemma addSTUN_own:
  "selfFound cs \<Longrightarrow> cdAddress ` {c \<in> set cs. cdType c = CandidateSTUN} = set known \<Longrightarrow> selfFound (addSTUNCandidates known cs results)"
proof (induction known cs results rule: addSTUNCandidates.induct)
  case (2 known cs result results)
  show ?case
  proof (cases "stunCandidate result")
    case (Some c)
    then have c: "cdType c = CandidateSTUN" by (rule stunCandidate_type)
    then have "cdAddress ` {d \<in> set (cs @ [c]). cdType d = CandidateSTUN} = insert (cdAddress c) (cdAddress ` {d \<in> set cs. cdType d = CandidateSTUN})"
      by auto
    with 2 Some c show ?thesis by (simp add: own_snoc)
  qed (use 2 in simp)
qed simp

lemma mergeSTUN_own: "selfFound (mergeSTUNCandidates existing results)"
  unfolding mergeSTUNCandidates_def
  by (rule addSTUN_own) (auto simp: selfFound_def list_all_iff)

lemma interfaceAddresses_nic:
  "list_all (\<lambda>c. cdType c = CandidateNIC) cs \<Longrightarrow>
   list_all (\<lambda>c. cdType c = CandidateNIC) (snd (interfaceAddresses bound port name (known, cs) as))"
  by (induction bound port name "(known, cs)" as arbitrary: known cs rule: interfaceAddresses.induct) (auto simp: Let_def nicCandidate_def)

lemma interfaceCandidates_nic:
  "list_all (\<lambda>c. cdType c = CandidateNIC) cs \<Longrightarrow> list_all (\<lambda>c. cdType c = CandidateNIC) (interfaceCandidates bound port (known, cs) nis)"
proof (induction nis arbitrary: known cs)
  case (Cons ni nis)
  show ?case
  proof (cases "niAddresses ni")
    case (Some as)
    obtain known' cs' where r: "interfaceAddresses bound port (niName ni) (known, cs) as = (known', cs')" by fastforce
    then show ?thesis using Cons interfaceAddresses_nic [OF Cons.prems, of bound port "niName ni" known as] Some by simp
  qed (use Cons in simp)
qed simp

lemma nicCandidates_own: "nicCandidates interfaces bound port = Some cs \<Longrightarrow> selfFound cs"
  using interfaceCandidates_nic [of "[]" "Unmap bound" port "{}"]
  by (auto simp: nicCandidates_def Let_def selfFound_def list_all_iff nicCandidate_def filter_empty_conv split: if_splits)

text \<open>The endpoint's own moves: it binds its socket, and it refreshes what STUN servers see.\<close>

inductive endpointMove :: "EndpointOptions \<Rightarrow> EndpointSnapshot \<Rightarrow> EndpointSnapshot \<Rightarrow> bool" where
  listens: "endpointMove options e (endpointListening interfaces localAddress e)"
| refreshes: "endpointMove options e (refreshSTUN options query e)"

lemma endpointMove_own: "endpointMove options e e' \<Longrightarrow> selfFound (esCandidates e) \<Longrightarrow> selfFound (esCandidates e')"
  by (induction rule: endpointMove.induct)
    (auto simp: endpointListening_def refreshSTUN_def Let_def mergeSTUN_own selfFound_def [of "[]"]
      split: option.split dest: nicCandidates_own)

lemma endpointMoves_own:
  "(endpointMove options)\<^sup>*\<^sup>* e e' \<Longrightarrow> selfFound (esCandidates e) \<Longrightarrow> selfFound (esCandidates e')"
  by (induction rule: rtranclp_induct) (auto dest: endpointMove_own)

text \<open>Neither the order in which servers answer nor the time it took them shows in the candidates.\<close>

definition stunKey :: "STUNResult \<Rightarrow> string \<times> string" where
  "stunKey r = (srServer r, srFamily r)"

definition untimed :: "STUNResult \<Rightarrow> STUNResult" where
  "untimed r = r\<lparr>srRTTMillis := 0\<rparr>"

lemma untimed_simps [simp]: "stunKey (untimed r) = stunKey r" "stunCandidate (untimed r) = stunCandidate r"
  by (simp_all add: stunKey_def untimed_def stunCandidate_def split: option.split)

lemma insort_key_map: "insort_key f (g x) (map g xs) = map g (insort_key (\<lambda>x. f (g x)) x xs)"
  by (induction xs) auto

lemma sort_key_map: "sort_key f (map g xs) = map g (sort_key (\<lambda>x. f (g x)) xs)"
  by (induction xs) (simp_all add: insort_key_map)

lemma sort_untimed: "sortSTUNResults (map untimed rs) = map untimed (sortSTUNResults rs)"
  by (simp add: sortSTUNResults_def sort_key_map flip: stunKey_def)

lemma addSTUN_untimed: "addSTUNCandidates known cs (map untimed rs) = addSTUNCandidates known cs rs"
  by (induction known cs rs rule: addSTUNCandidates.induct) (auto split: option.splits)

lemma sorted_answers:
  assumes "mset rs = mset rs'" and "distinct (map stunKey rs)"
  shows "sortSTUNResults rs = sortSTUNResults rs'"
proof -
  have k: "(\<lambda>r. (srServer r, srFamily r)) = stunKey" by (simp add: fun_eq_iff stunKey_def)
  have "sort_key stunKey rs = sort_key stunKey rs'"
    using assms by (intro sort_key_inj_key_eq) (auto simp: distinct_map)
  then show ?thesis by (simp add: sortSTUNResults_def k)
qed

lemma merge_untimed:
  assumes "mset (map untimed rs) = mset (map untimed rs')" and "distinct (map stunKey rs)"
  shows "mergeSTUNCandidates existing (sortSTUNResults rs) = mergeSTUNCandidates existing (sortSTUNResults rs')"
proof -
  have "sortSTUNResults (map untimed rs) = sortSTUNResults (map untimed rs')"
    using assms by (intro sorted_answers) (simp_all add: comp_def)
  then have "map untimed (sortSTUNResults rs) = map untimed (sortSTUNResults rs')"
    by (simp only: sort_untimed)
  then have "addSTUNCandidates [] cs (map untimed (sortSTUNResults rs)) = addSTUNCandidates [] cs (map untimed (sortSTUNResults rs'))" for cs
    by (rule arg_cong)
  then show ?thesis by (simp only: mergeSTUNCandidates_def addSTUN_untimed)
qed

end
