(* ===== verification/RoomNetwork.thy ===== *)
theory RoomNetwork
  imports EndpointCandidates Tracker PortMap
begin

text \<open>
  The network of a room, \<open>internal/networking/room_network.go\<close>: the endpoint, the tracker group, the discovery services
  and the two port mappers run beside each other, and one loop turns what they report into the published snapshot and
  the candidates the tracker announces.  Every \<open>select\<close> case of \<open>Run\<close> is a step on the state of that loop; a channel that is
  nil takes no step.  What a mapper, the tracker and the endpoint do in between are steps of their own.
\<close>

section \<open>Port mapping lanes\<close>

record portMappingLane =
  plFamily :: string
  plMapper :: bool
  plCancel :: bool
  plStarted :: bool
  plMapping :: "Mapping option"
  plErr :: bytes

record portMappingEvent =
  pmLane :: nat
  pmState :: "State option"
  pmErr :: "bytes option"

definition newLane :: "string \<Rightarrow> bool \<Rightarrow> portMappingLane" where
  "newLane family mapper =
     \<lparr>plFamily = family, plMapper = mapper, plCancel = False, plStarted = False, plMapping = None, plErr = []\<rparr>"

definition newPortMappingLanes :: "bool \<Rightarrow> bool \<Rightarrow> portMappingLane list" where
  "newPortMappingLanes ipv4 ipv6 = [newLane ''ipv4'' ipv4, newLane ''ipv6'' ipv6]"

definition portMappingInternalPort :: "EndpointSnapshot \<Rightarrow> string \<Rightarrow> uint16" where
  "portMappingInternalPort snap family =
     (case ParseAddrPort (esListenAddress snap) of
        None \<Rightarrow> 0
      | Some listen \<Rightarrow>
          if apPort listen = 0 \<or> \<not> IsUnspecified (apAddr listen) then 0
          else if list_ex (\<lambda>candidate. cdType candidate = CandidateNIC \<and> cdFamily candidate = family \<and>
                    (case ParseAddrPort (cdAddress candidate) of None \<Rightarrow> False | Some address \<Rightarrow> apPort address = apPort listen))
                  (esCandidates snap)
          then apPort listen else 0)"

definition startLane :: "EndpointSnapshot \<Rightarrow> portMappingLane \<Rightarrow> portMappingLane" where
  "startLane snap lane =
     (if \<not> plMapper lane \<or> plStarted lane \<or> portMappingInternalPort snap (plFamily lane) = 0 then lane
      else lane\<lparr>plCancel := True, plStarted := True\<rparr>)"

definition startAvailable :: "EndpointSnapshot \<Rightarrow> portMappingLane list \<Rightarrow> portMappingLane list" where
  "startAvailable snap lanes = map (startLane snap) lanes"

definition applyLane :: "portMappingEvent \<Rightarrow> portMappingLane \<Rightarrow> portMappingLane" where
  "applyLane event lane =
     (case pmState event of
        Some state \<Rightarrow> lane\<lparr>plErr := stError state, plMapping := stMapping state\<rparr>
      | None \<Rightarrow> lane\<lparr>plCancel := False, plMapping := None,
          plErr := (case pmErr event of None \<Rightarrow> bytes_of ''port mapper stopped unexpectedly'' | Some err \<Rightarrow> err)\<rparr>)"

definition applyEvent :: "portMappingEvent \<Rightarrow> portMappingLane list \<Rightarrow> portMappingLane list" where
  "applyEvent event lanes = lanes[pmLane event := applyLane event (lanes ! pmLane event)]"

definition laneCandidate :: "Mapping option \<Rightarrow> Candidate list" where
  "laneCandidate mapping =
     (case mapping of
        None \<Rightarrow> []
      | Some mapping \<Rightarrow>
          if \<not> apIsValid (mpExternal mapping) \<or> apPort (mpExternal mapping) = 0 then []
          else [\<lparr>cdType = CandidatePortMapped, cdAddress = apString (mpExternal mapping),
            cdFamily = (if Is4 (Unmap (apAddr (mpExternal mapping))) then ''ipv4'' else ''ipv6''), cdInterface = [],
            cdSource = textOf (mpProvider mapping)\<rparr>])"

definition withPortMappings :: "EndpointSnapshot \<Rightarrow> Mapping option list \<Rightarrow> EndpointSnapshot" where
  "withPortMappings snap mappings =
     snap\<lparr>esCandidates := esCandidates snap @ concat (map laneCandidate mappings)\<rparr>"

definition project :: "portMappingLane list \<Rightarrow> EndpointSnapshot \<Rightarrow> EndpointSnapshot" where
  "project lanes snap = withPortMappings snap (map plMapping lanes)"

definition errorText :: "portMappingLane list \<Rightarrow> bytes" where
  "errorText lanes =
     joinTexts (bytes_of ''; '')
       (map (\<lambda>lane. bytes_of (plFamily lane) @ bytes_of '': '' @ plErr lane) (filter (\<lambda>lane. plErr lane \<noteq> []) lanes))"

text \<open>
  \<open>stop\<close>: the running mappers are cancelled and lose their mappings at once; then their ends are awaited, until the events
  that came before the timer fired are used up.
\<close>

definition cancelLane :: "portMappingLane \<Rightarrow> portMappingLane" where
  "cancelLane lane = (if plCancel lane then lane\<lparr>plMapping := None\<rparr> else lane)"

fun awaitLanes :: "nat \<Rightarrow> portMappingEvent list \<Rightarrow> portMappingLane list \<Rightarrow> bool \<times> portMappingLane list" where
  "awaitLanes 0 events lanes = (True, lanes)"
| "awaitLanes (Suc n) [] lanes = (False, lanes)"
| "awaitLanes (Suc n) (event # events) lanes =
     (if pmState event \<noteq> None then awaitLanes (Suc n) events lanes
      else awaitLanes n events (lanes[pmLane event := (lanes ! pmLane event)\<lparr>plCancel := False\<rparr>]))"

definition stopLanes :: "portMappingEvent list \<Rightarrow> portMappingLane list \<Rightarrow> bool \<times> portMappingLane list" where
  "stopLanes events lanes = awaitLanes (length (filter plCancel lanes)) events (map cancelLane lanes)"

section \<open>The candidates of the tracker\<close>

definition carrierGradeNAT :: "Addr \<Rightarrow> bool" where
  "carrierGradeNAT address = (case address of Addr4 w \<Rightarrow> drop_bit 22 w = 0x191 | _ \<Rightarrow> False)"

definition usablePublicTrackerAddress :: "Addr \<Rightarrow> bool" where
  "usablePublicTrackerAddress address \<longleftrightarrow> IsGlobalUnicast address \<and> \<not> IsPrivate address \<and> \<not> carrierGradeNAT address"

definition trackerCandidateAddress :: "Candidate \<Rightarrow> AddrPort option" where
  "trackerCandidateAddress candidate =
     (case ParseAddrPort (cdAddress candidate) of
        None \<Rightarrow> None
      | Some address \<Rightarrow>
          if apPort address = 0 then None
          else
            let ip = Unmap (apAddr address)
            in if \<not> usablePublicTrackerAddress ip then None else Some (AddrPortFrom ip (apPort address)))"

definition appendCandidate :: "AnnounceCandidate list \<Rightarrow> Candidate \<Rightarrow> AnnounceCandidate list \<times> bool" where
  "appendCandidate acs candidate =
     (if length acs = MaxAnnounceCandidates then (acs, False)
      else case trackerCandidateAddress candidate of
          None \<Rightarrow> (acs, False)
        | Some address \<Rightarrow>
            let ac = \<lparr>acAddress = apAddr address, acPort = apPort address\<rparr>
            in if ac \<in> set acs then (acs, False)
               else if Is6 (acAddress ac) \<and> list_ex (\<lambda>existing. Is6 (acAddress existing)) acs then (acs, False)
               else (acs @ [ac], True))"

definition appendCandidates :: "CandidateType \<Rightarrow> Candidate list \<Rightarrow> AnnounceCandidate list \<Rightarrow> AnnounceCandidate list" where
  "appendCandidates candidateType cs acs =
     foldl (\<lambda>acs candidate. fst (appendCandidate acs candidate)) acs
       (filter (\<lambda>candidate. cdType candidate = candidateType) cs)"

fun appendIPv6 :: "CandidateType \<Rightarrow> Candidate list \<Rightarrow> AnnounceCandidate list \<Rightarrow> AnnounceCandidate list" where
  "appendIPv6 candidateType [] acs = acs"
| "appendIPv6 candidateType (candidate # cs) acs =
     (if cdType candidate = candidateType \<and> cdFamily candidate = ''ipv6''
      then let (acs, appended) = appendCandidate acs candidate
           in if appended then acs else appendIPv6 candidateType cs acs
      else appendIPv6 candidateType cs acs)"

definition publicCandidates :: "Candidate list \<Rightarrow> AnnounceCandidate list" where
  "publicCandidates cs =
     appendCandidates CandidateNIC cs
       (appendCandidates CandidateSTUN cs
         (appendIPv6 CandidateNIC cs (appendIPv6 CandidateSTUN cs (appendCandidates CandidatePortMapped cs []))))"

definition trackerAnnounceCandidates :: "EndpointSnapshot \<Rightarrow> AnnounceCandidate list" where
  "trackerAnnounceCandidates snap =
     (let acs = publicCandidates (esCandidates snap)
      in if length acs = 0 then
           (case ParseAddrPort (esListenAddress snap) of
              None \<Rightarrow> acs
            | Some listen \<Rightarrow>
                if apPort listen \<noteq> 0 then acs @ [\<lparr>acAddress = AddrZero, acPort = apPort listen\<rparr>] else acs)
         else acs)"

section \<open>Discovery\<close>

definition defaultDiscoveryRetryInitial :: duration where [simp]: "defaultDiscoveryRetryInitial = 250 * Millisecond"
definition defaultDiscoveryRetryMax :: duration where [simp]: "defaultDiscoveryRetryMax = 30 * Second"
definition maxDiscoveryErrorLength :: nat where "maxDiscoveryErrorLength = 1024"

definition nextDiscoveryRetryDelay :: "duration \<Rightarrow> duration \<Rightarrow> duration" where
  "nextDiscoveryRetryDelay delay maximum = (if delay \<ge> maximum \<or> delay > maximum div 2 then maximum else delay * 2)"

definition discoveryErrorText :: "bytes option list \<Rightarrow> bytes option list \<Rightarrow> bytes" where
  "discoveryErrorText serviceErrors additional =
     (let messages = List.map_filter (\<lambda>err. err) serviceErrors @ List.map_filter (\<lambda>err. err) additional;
          text = joinTexts (bytes_of ''; '') messages
      in if length text \<le> maxDiscoveryErrorLength then text
         else take (runeEnd text (maxDiscoveryErrorLength - length ''...'')) text @ bytes_of ''...'')"

text \<open>
  \<open>superviseDiscovery\<close>: each run of a service is the error it returned with and the time it took; whether the context ended
  with the run, before the event was taken, or while waiting.  Out come the events sent and the delays waited.
\<close>

datatype supervision = ContextEnded | EventRefused | WaitCut | WaitedThen bool

fun superviseDiscovery :: "nat \<Rightarrow> duration \<Rightarrow> (bytes option \<times> duration \<times> supervision) list \<Rightarrow> (nat \<times> bytes option) list \<times> duration list" where
  "superviseDiscovery index delay [] = ([], [])"
| "superviseDiscovery index delay ((err, elapsed, outcome) # runs) =
     (if outcome = ContextEnded then ([], [])
      else
        let delay = (if elapsed \<ge> defaultDiscoveryRetryMax then defaultDiscoveryRetryInitial else delay);
            message = (case err of None \<Rightarrow> bytes_of ''discovery service stopped unexpectedly'' | Some err \<Rightarrow> err)
        in case outcome of
             EventRefused \<Rightarrow> ([], [])
           | WaitCut \<Rightarrow> ([(index, Some message)], [delay])
           | WaitedThen taken \<Rightarrow>
               if \<not> taken then ([(index, Some message)], [delay])
               else
                 let (events, delays) = superviseDiscovery index (nextDiscoveryRetryDelay delay defaultDiscoveryRetryMax) runs
                 in ((index, Some message) # (index, None) # events, delay # delays)
           | ContextEnded \<Rightarrow> ([], []))"

section \<open>The loop\<close>

record RoomSnapshot =
  rsEndpoint :: EndpointSnapshot
  rsTracker :: "ProviderStatus list"
  rsNetworkError :: bytes
  rsDiscoveryError :: bytes
  rsPortMappingError :: bytes

record RoomNetwork =
  rnOptions :: EndpointOptions
  rnEndpoint :: EndpointSnapshot
  rnServices :: nat
  rnTracker :: "Group option"
  rnLanes :: "portMappingLane list"
  rnSnapshot :: RoomSnapshot
  rnStateChanges :: bool
  rnDiscoveryStarted :: bool
  rnDiscoveryErrors :: "bytes option list"
  rnTrackerResult :: bool
  rnTrackerChanges :: bool
  rnTrackerError :: "bytes option"
  rnEndpointResult :: bool
  rnEndpointChanges :: bool
  rnContextDone :: bool
  rnReturned :: "bytes option option"

definition noEndpoint :: EndpointSnapshot where
  "noEndpoint = \<lparr>esListenAddress = [], esCandidates = [], esSTUN = []\<rparr>"

definition noRoom :: RoomSnapshot where
  "noRoom = \<lparr>rsEndpoint = noEndpoint, rsTracker = [], rsNetworkError = [], rsDiscoveryError = [], rsPortMappingError = []\<rparr>"

definition updateSnapshot :: "(RoomSnapshot \<Rightarrow> RoomSnapshot) \<Rightarrow> RoomNetwork \<Rightarrow> RoomNetwork" where
  "updateSnapshot f n = n\<lparr>rnSnapshot := f (rnSnapshot n), rnStateChanges := True\<rparr>"

text \<open>The fields of \<open>NewRoomNetwork\<close> and the start of \<open>Run\<close>; the group is absent without tracker URLs, the mappers when mapping is off.\<close>

definition startRoom :: "EndpointOptions \<Rightarrow> nat \<Rightarrow> Group option \<Rightarrow> bool \<Rightarrow> RoomNetwork" where
  "startRoom options services grp enablePortMapping =
     (let n = \<lparr>rnOptions = normalizeOptions options, rnEndpoint = noEndpoint, rnServices = services, rnTracker = grp,
            rnLanes = newPortMappingLanes enablePortMapping enablePortMapping, rnSnapshot = noRoom, rnStateChanges = False,
            rnDiscoveryStarted = False, rnDiscoveryErrors = replicate services None, rnTrackerResult = False,
            rnTrackerChanges = (grp \<noteq> None), rnTrackerError = None, rnEndpointResult = True, rnEndpointChanges = True,
            rnContextDone = False, rnReturned = None\<rparr>
      in case grp of
           None \<Rightarrow> n
         | Some g \<Rightarrow> updateSnapshot (\<lambda>s. s\<lparr>rsTracker := groupSnapshot g\<rparr>) n)"

text \<open>Without tracker URLs there are no providers; a group that cannot be made is an error \<open>Run\<close> returns at once.\<close>

definition NewRoomNetwork :: "EndpointOptions \<Rightarrow> nat \<Rightarrow> provider list \<Rightarrow> PeerID \<Rightarrow> bool \<Rightarrow> RoomNetwork result" where
  "NewRoomNetwork options services providers peerID enablePortMapping =
     (if length providers > 0 then
        (case NewGroup providers peerID of
           Inl err \<Rightarrow> Inl err
         | Inr g \<Rightarrow> Inr (startRoom options services (Some g) enablePortMapping))
      else Inr (startRoom options services None enablePortMapping))"

definition announceTo :: "EndpointSnapshot \<Rightarrow> RoomNetwork \<Rightarrow> RoomNetwork" where
  "announceTo projected n =
     n\<lparr>rnTracker := map_option (\<lambda>g. UpdateCandidates g (trackerAnnounceCandidates projected)) (rnTracker n)\<rparr>"

definition applyPortMappings :: "RoomNetwork \<Rightarrow> RoomNetwork" where
  "applyPortMappings n =
     (let projected = project (rnLanes n) (rnEndpoint n)
      in announceTo projected
        (updateSnapshot (\<lambda>s. s\<lparr>rsEndpoint := projected, rsPortMappingError := errorText (rnLanes n)\<rparr>) n))"

definition errorsJoin :: "bytes option \<Rightarrow> bytes \<Rightarrow> bytes option" where
  "errorsJoin err cleanup = Some (case err of None \<Rightarrow> cleanup | Some err \<Rightarrow> err @ [10] @ cleanup)"

text \<open>
  What \<open>finish\<close> meets while it waits: what the endpoint has become when the mappers have stopped, the events of the mappers before their timer, whether the tracker's timer fired,
  whether the parent context is done, and the error of the endpoint with whether that is the end of its context.
\<close>

record closing =
  clEndpoint :: EndpointSnapshot
  clEvents :: "portMappingEvent list"
  clTrackerTimeout :: bool
  clParentDone :: bool
  clEndpointErr :: "(bytes \<times> bool) option"

definition stopMappings :: "closing \<Rightarrow> bytes option \<Rightarrow> RoomNetwork \<Rightarrow> bytes option \<times> RoomNetwork" where
  "stopMappings cl runErr n =
     (let hadPortMapping = list_ex (\<lambda>lane. plMapping lane \<noteq> None) (rnLanes n);
          (stopped, lanes) = stopLanes (clEvents cl) (rnLanes n);
          runErr = (if stopped then runErr else errorsJoin runErr (bytes_of ''timed out cleaning up port mappings''));
          n = n\<lparr>rnLanes := lanes, rnEndpoint := clEndpoint cl\<rparr>
      in (runErr, if hadPortMapping then updateSnapshot (\<lambda>s. s\<lparr>rsEndpoint := project lanes (rnEndpoint n)\<rparr>) n else n))"

definition stopTracker :: "closing \<Rightarrow> bytes option \<Rightarrow> RoomNetwork \<Rightarrow> bytes option \<times> RoomNetwork" where
  "stopTracker cl runErr n =
     (if rnTrackerResult n then
        (if clTrackerTimeout cl then errorsJoin runErr (bytes_of ''timed out cleaning up tracker registrations'') else runErr,
         n\<lparr>rnTrackerResult := False\<rparr>)
      else (runErr, n))"

definition stopEndpoint :: "closing \<Rightarrow> bytes option \<Rightarrow> RoomNetwork \<Rightarrow> bytes option \<times> RoomNetwork" where
  "stopEndpoint cl runErr n =
     (let n = n\<lparr>rnContextDone := True\<rparr>
      in if rnEndpointResult n then
           (case clEndpointErr cl of
              None \<Rightarrow> runErr
            | Some (err, cancelled) \<Rightarrow> if runErr = None \<and> \<not> clParentDone cl \<and> \<not> cancelled then Some err else runErr,
            n\<lparr>rnEndpointResult := False\<rparr>)
         else (runErr, n))"

definition finishRoom :: "closing \<Rightarrow> bytes option \<Rightarrow> RoomNetwork \<Rightarrow> RoomNetwork" where
  "finishRoom cl runErr n =
     (let (runErr, n) = stopMappings cl runErr n;
          (runErr, n) = stopTracker cl runErr n;
          (runErr, n) = stopEndpoint cl runErr n
      in n\<lparr>rnReturned := Some runErr\<rparr>)"

text \<open>The cases of the \<open>select\<close>, with the steps of the other goroutines that show in the state.\<close>

definition endpointChanged :: "closing \<Rightarrow> bytes \<Rightarrow> RoomNetwork \<Rightarrow> RoomNetwork" where
  "endpointChanged cl parseErr n =
     (let snap = rnEndpoint n;
          projected = project (rnLanes n) snap;
          n = announceTo projected (updateSnapshot (\<lambda>s. s\<lparr>rsEndpoint := projected\<rparr>) n);
          n = (if rnTracker n \<noteq> None \<and> \<not> rnTrackerResult n \<and> rnTrackerError n = None \<and> esListenAddress snap \<noteq> []
               then n\<lparr>rnTrackerResult := True\<rparr> else n);
          n = n\<lparr>rnLanes := startAvailable snap (rnLanes n)\<rparr>
      in if \<not> rnDiscoveryStarted n \<and> esListenAddress snap \<noteq> [] then
           (case ParseAddrPort (esListenAddress snap) of
              None \<Rightarrow> finishRoom cl (Some parseErr) n
            | Some listen \<Rightarrow> if rnServices n = 0 then n else n\<lparr>rnDiscoveryStarted := True\<rparr>)
         else n)"

definition discoveryReported :: "nat \<Rightarrow> bytes option \<Rightarrow> RoomNetwork \<Rightarrow> RoomNetwork" where
  "discoveryReported service err n =
     (let n = n\<lparr>rnDiscoveryErrors := (rnDiscoveryErrors n)[service := err]\<rparr>
      in updateSnapshot (\<lambda>s. s\<lparr>rsDiscoveryError := discoveryErrorText (rnDiscoveryErrors n) [rnTrackerError n]\<rparr>) n)"

definition trackerReturned :: "bytes option \<Rightarrow> RoomNetwork \<Rightarrow> RoomNetwork" where
  "trackerReturned err n =
     (let n = n\<lparr>rnTrackerResult := False\<rparr>
      in if rnContextDone n then n
         else
           let n = n\<lparr>rnTrackerError := Some (case err of None \<Rightarrow> bytes_of ''tracker announcer stopped unexpectedly'' | Some err \<Rightarrow> err)\<rparr>
           in updateSnapshot (\<lambda>s. s\<lparr>rsDiscoveryError := discoveryErrorText (rnDiscoveryErrors n) [rnTrackerError n]\<rparr>) n)"

definition trackerChanged :: "RoomNetwork \<Rightarrow> RoomNetwork" where
  "trackerChanged n =
     (case rnTracker n of None \<Rightarrow> n | Some g \<Rightarrow> updateSnapshot (\<lambda>s. s\<lparr>rsTracker := groupSnapshot g\<rparr>) n)"

definition laneReported :: "portMappingEvent \<Rightarrow> RoomNetwork \<Rightarrow> RoomNetwork" where
  "laneReported event n = applyPortMappings (n\<lparr>rnLanes := applyEvent event (rnLanes n)\<rparr>)"

definition endpointReturned :: "closing \<Rightarrow> bytes option \<Rightarrow> RoomNetwork \<Rightarrow> RoomNetwork" where
  "endpointReturned cl err n =
     (let n = n\<lparr>rnEndpointResult := False\<rparr>
      in if rnContextDone n then finishRoom cl None n
         else finishRoom cl err
           (case err of None \<Rightarrow> n | Some e \<Rightarrow> updateSnapshot (\<lambda>s. s\<lparr>rsNetworkError := e\<rparr>) n))"

datatype groupTurn = TakeUp uint64 "AnnounceCandidate list" | PutDown | Child AnnounceCandidate Announcer

definition groupStep :: "groupTurn \<Rightarrow> Group \<Rightarrow> Group" where
  "groupStep turn g =
     (case turn of
        TakeUp revision cs \<Rightarrow> (case takeCandidates g revision cs of None \<Rightarrow> g | Some (_, g) \<Rightarrow> g)
      | PutDown \<Rightarrow> stopCandidates g
      | Child c a \<Rightarrow> if grChildren g c = None then g else setChildren g ((grChildren g)(c \<mapsto> a)))"

inductive roomStep :: "RoomNetwork \<Rightarrow> RoomNetwork \<Rightarrow> bool" where
  endpointMoves: "rnReturned n = None \<Longrightarrow> rnEndpointResult n \<Longrightarrow> endpointMove (rnOptions n) (rnEndpoint n) e \<Longrightarrow>
    roomStep n (n\<lparr>rnEndpoint := e\<rparr>)"
| groupMoves: "rnReturned n = None \<Longrightarrow> rnTrackerResult n \<Longrightarrow> rnTracker n = Some g \<Longrightarrow>
    roomStep n (n\<lparr>rnTracker := Some (groupStep turn g)\<rparr>)"
| endpointChanges: "rnReturned n = None \<Longrightarrow> rnEndpointChanges n \<Longrightarrow> (endpointMove (rnOptions n))\<^sup>*\<^sup>* (rnEndpoint n) (clEndpoint cl) \<Longrightarrow>
    roomStep n (endpointChanged cl parseErr n)"
| endpointChangesClosed: "rnReturned n = None \<Longrightarrow> rnEndpointChanges n \<Longrightarrow> roomStep n (n\<lparr>rnEndpointChanges := False\<rparr>)"
| discoveryReports: "rnReturned n = None \<Longrightarrow> rnDiscoveryStarted n \<Longrightarrow> service < rnServices n \<Longrightarrow> roomStep n (discoveryReported service err n)"
| trackerReturns: "rnReturned n = None \<Longrightarrow> rnTrackerResult n \<Longrightarrow> roomStep n (trackerReturned err n)"
| trackerChanges: "rnReturned n = None \<Longrightarrow> rnTrackerChanges n \<Longrightarrow> roomStep n (trackerChanged n)"
| trackerChangesClosed: "rnReturned n = None \<Longrightarrow> rnTrackerChanges n \<Longrightarrow> roomStep n (n\<lparr>rnTrackerChanges := False\<rparr>)"
| laneReports: "rnReturned n = None \<Longrightarrow> pmLane event < length (rnLanes n) \<Longrightarrow> plCancel (rnLanes n ! pmLane event) \<Longrightarrow>
    roomStep n (laneReported event n)"
| endpointReturns: "rnReturned n = None \<Longrightarrow> rnEndpointResult n \<Longrightarrow> (endpointMove (rnOptions n))\<^sup>*\<^sup>* (rnEndpoint n) (clEndpoint cl) \<Longrightarrow>
    roomStep n (endpointReturned cl err n)"
| parentDone: "rnReturned n = None \<Longrightarrow> (endpointMove (rnOptions n))\<^sup>*\<^sup>* (rnEndpoint n) (clEndpoint cl) \<Longrightarrow>
    roomStep n (finishRoom cl None n)"

end
