(* ===== verification/AddrInverse.thy ===== *)
theory AddrInverse
  imports BencodeGrammar
begin

text \<open>
  An IPv4 address and port read back from the text \<open>netip\<close> writes for them, which is how addresses cross from the port
  mappers to the tracker.
\<close>

lemma isDigit_not [simp]: "isDigit c \<Longrightarrow> c \<noteq> CHR ''.''" "isDigit c \<Longrightarrow> c \<noteq> CHR '':''" "isDigit c \<Longrightarrow> c \<noteq> CHR ''%''" "isDigit c \<Longrightarrow> c \<noteq> CHR ''[''"
  by (auto simp: isDigit_def)

lemma digits_two: "10 \<le> n \<Longrightarrow> n < 100 \<Longrightarrow> digits 10 n = [digit (n div 10), digit (n mod 10)]"
  by (simp add: digits_step digits_small)

lemma digits_three:
  assumes "100 \<le> n" and "n < 1000"
  shows "digits 10 n = [digit (n div 100), digit (n div 10 mod 10), digit (n mod 10)]"
proof -
  have "10 \<le> n div 10" "n div 10 < 100" using assms by simp_all
  then show ?thesis using assms digits_two [of "n div 10"] by (simp add: digits_step [of n] div_mult2_eq [symmetric])
qed

lemma parse_octet:
  assumes "n \<le> 255"
  shows "\<exists>c len. isDigit c \<and> parseIPv4Loop previous 0 0 fs (digits 10 n @ s) = parseIPv4Loop (Some c) n len fs s"
proof -
  have d: "isDigit (digit (m mod 10))" "digitValue (digit (m mod 10)) = m mod 10" for m
    using digit_isDigit [of "m mod 10"] by simp_all
  consider "n < 10" | "10 \<le> n" "n < 100" | "100 \<le> n" by linarith
  then show ?thesis
  proof cases
    case 1
    then show ?thesis using assms digit_isDigit [of n] by (auto simp: digits_small Let_def)
  next
    case 2
    then have "n div 10 < 10" "n div 10 \<noteq> 0" by simp_all
    then show ?thesis using 2 d [of n] digit_isDigit [of "n div 10"] by (auto simp: digits_two Let_def)
  next
    case 3
    have q: "n div 100 < 10" "n div 100 \<noteq> 0" using 3 assms by simp_all
    have "n div 100 * 10 + n div 10 mod 10 = n div 10" using div_mult2_eq [of n 10 10] by simp
    moreover have "\<not> 255 < n div 10" "n div 10 * 10 + n mod 10 = n" using assms by simp_all
    ultimately show ?thesis using q 3 assms d [of n] d [of "n div 10"] digit_isDigit [of "n div 100"]
      by (auto simp: digits_three Let_def; presburger)
  qed
qed

lemma string4_octets:
  obtains a b c d where "put_be 4 w = [a, b, c, d]"
    "string4 w = digits 10 (unat a) @ CHR ''.'' # digits 10 (unat b) @ CHR ''.'' # digits 10 (unat c) @ CHR ''.'' # digits 10 (unat d)"
proof -
  have "length (put_be 4 w) = 4" by simp
  then obtain a b c d where p: "put_be 4 w = [a, b, c, d]"
    by (auto simp: numeral_eq_Suc length_Suc_conv simp del: length_put_be)
  then show thesis by (intro that [of a b c d]) (simp_all add: string4_def)
qed

lemma octet_le: "unat (b :: byte) \<le> 255"
proof -
  have "unat b < 2 ^ LENGTH(8)" by (rule unsigned_less)
  then show ?thesis by simp
qed

lemma parseIPv4_string4: "parseIPv4 (string4 w) = Some (Addr4 w)"
proof -
  obtain a b c d where p: "put_be 4 w = [a, b, c, d]" and
    s: "string4 w = digits 10 (unat a) @ CHR ''.'' # digits 10 (unat b) @ CHR ''.'' # digits 10 (unat c) @ CHR ''.'' # digits 10 (unat d)"
    by (rule string4_octets [of w])
  have step: "parseIPv4Loop previous 0 0 fs (digits 10 (unat x) @ CHR ''.'' # s) = parseIPv4Loop (Some CHR ''.'') 0 0 (fs @ [unat x]) s"
    if "length fs < 3" "s \<noteq> []" for previous fs s and x :: byte
    using parse_octet [OF octet_le, of previous fs x "CHR ''.'' # s"] that by (auto simp: isDigit_def)
  have last: "parseIPv4Loop previous 0 0 fs (digits 10 (unat x)) = Some (fs @ [unat x])" if "length fs = 3" for previous fs and x :: byte
    using parse_octet [OF octet_le, of previous fs x "[]"] that by auto
  have "parseIPv4Fields (string4 w) = Some [unat a, unat b, unat c, unat d]"
    by (simp add: parseIPv4Fields_def s step last)
  moreover have "get_be [a, b, c, d] = w" using p get_put_be [of 4 w] by simp
  ultimately show ?thesis by (simp add: parseIPv4_def)
qed

lemma ParseAddr_string4: "ParseAddr (string4 w) = Some (Addr4 w)"
proof -
  obtain a b c d where "put_be 4 w = [a, b, c, d]" and
    s: "string4 w = digits 10 (unat a) @ CHR ''.'' # digits 10 (unat b) @ CHR ''.'' # digits 10 (unat c) @ CHR ''.'' # digits 10 (unat d)"
    by (rule string4_octets [of w])
  have "dropWhile (\<lambda>c. c \<notin> set ''.:%'') (digits 10 n @ CHR ''.'' # t) = CHR ''.'' # t" for n t
    using digits_all [of n] by (subst dropWhile_append2) (auto simp: list_all_iff)
  then have "\<exists>t. dropWhile (\<lambda>c. c \<notin> set ''.:%'') (string4 w) = CHR ''.'' # t" by (simp add: s)
  then show ?thesis by (auto simp: ParseAddr_def parseIPv4_string4)
qed

lemma hd_digits_digit: "isDigit (hd (digits 10 n))"
  using digits_all [of n] by (cases "digits 10 n") auto

theorem ParseAddrPort_apString4: "ParseAddrPort (apString (AddrPortFrom (Addr4 w) p)) = Some (AddrPortFrom (Addr4 w) p)"
proof -
  let ?port = "digits 10 (unat p)"
  have s: "apString (AddrPortFrom (Addr4 w) p) = string4 w @ '':'' @ ?port" by (simp add: apString_def)
  have "list_all isDigit (rev ?port)" using digits_all by simp
  then have "takeWhile (\<lambda>c. c \<noteq> CHR '':'') (rev ?port @ CHR '':'' # rev (string4 w)) = rev ?port"
    by (subst takeWhile_append2) (auto simp: list_all_iff)
  then have port: "rev (takeWhile (\<lambda>c. c \<noteq> CHR '':'') (rev (string4 w @ '':'' @ ?port))) = ?port" by simp
  have "string4 w \<noteq> []" "hd (string4 w) \<noteq> CHR ''[''" using string4_octets [of w] hd_digits_digit by (metis append_is_Nil_conv digits_not_Nil hd_append2 isDigit_not(4))+
  moreover have less: "unat p < 2 ^ LENGTH(16)" by (rule unsigned_less)
  moreover have "ParseUint 16 ?port = Inr (unat p)"
    using parse_digits [of "unat p" 16] less by (simp add: ParseUint_def)
  ultimately show ?thesis by (simp add: ParseAddrPort_def Let_def s port [simplified] ParseAddr_string4)
qed

end
