(* ===== verification/RoomSafety.thy ===== *)
theory RoomSafety
  imports RoomNetwork AddrInverse
begin

text \<open>
  The network of a room keeps what it publishes and what it announces together: an invariant of the steps of its loop, and
  the bounds of the candidates announced.
\<close>

section \<open>The announced candidates\<close>

definition announcedPublic :: "AnnounceCandidate \<Rightarrow> bool" where
  "announcedPublic ac \<longleftrightarrow> usablePublicTrackerAddress (acAddress ac) \<and> acPort ac \<noteq> 0"

definition announced_ok :: "AnnounceCandidate list \<Rightarrow> bool" where
  "announced_ok acs \<longleftrightarrow> length acs \<le> MaxAnnounceCandidates \<and> distinct acs \<and> list_all announcedPublic acs \<and>
     length (filter (\<lambda>ac. Is6 (acAddress ac)) acs) \<le> 1"

lemma announced_ok_Nil [simp]: "announced_ok []"
  by (simp add: announced_ok_def)

lemma announced_ok_append: "announced_ok acs \<Longrightarrow> announced_ok (fst (appendCandidate acs c))"
  by (auto simp: appendCandidate_def announced_ok_def announcedPublic_def trackerCandidateAddress_def Let_def list_ex_iff
    filter_empty_conv split: option.splits if_splits)

lemma announced_ok_appends: "announced_ok acs \<Longrightarrow> announced_ok (appendCandidates t cs acs)"
proof -
  have "announced_ok acs \<Longrightarrow> announced_ok (foldl (\<lambda>acs c. fst (appendCandidate acs c)) acs cs')" for cs'
    by (induction cs' arbitrary: acs) (auto intro: announced_ok_append)
  then show "announced_ok acs \<Longrightarrow> announced_ok (appendCandidates t cs acs)" by (simp add: appendCandidates_def)
qed

lemma announced_ok_ipv6: "announced_ok acs \<Longrightarrow> announced_ok (appendIPv6 t cs acs)"
proof (induction t cs acs rule: appendIPv6.induct)
  case (2 t c cs acs)
  then show ?case using announced_ok_append [of acs c] by (auto split: prod.splits)
qed simp

lemma announced_ok_public: "announced_ok (publicCandidates cs)"
  by (simp add: publicCandidates_def announced_ok_appends announced_ok_ipv6)

text \<open>Nothing is taken back, and as long as nothing was taken, the next usable address is.\<close>

lemma appendCandidate_prefix: "\<exists>more. fst (appendCandidate acs c) = acs @ more"
  by (auto simp: appendCandidate_def Let_def split: option.splits)

lemma foldl_prefix: "\<exists>more. foldl (\<lambda>acs c. fst (appendCandidate acs c)) acs cs = acs @ more"
proof (induction cs arbitrary: acs)
  case (Cons c cs)
  obtain more where "fst (appendCandidate acs c) = acs @ more" using appendCandidate_prefix by blast
  then show ?case using Cons [of "acs @ more"] by auto
qed simp

lemma appendCandidates_prefix: "\<exists>more. appendCandidates t cs acs = acs @ more"
  by (simp add: appendCandidates_def foldl_prefix)

lemma appendIPv6_prefix: "\<exists>more. appendIPv6 t cs acs = acs @ more"
proof (induction cs arbitrary: acs)
  case (Cons c cs)
  show ?case
  proof (cases "cdType c = t \<and> cdFamily c = ''ipv6''")
    case True
    obtain taken more where a: "appendCandidate acs c = (acs @ more, taken)"
      using appendCandidate_prefix [of acs c] by (metis prod.collapse)
    show ?thesis using a True Cons [of "acs @ more"] by (cases taken) auto
  qed (use Cons in auto)
qed simp

lemma appendCandidates_empty:
  "appendCandidates t cs [] = [] \<Longrightarrow> list_all (\<lambda>c. cdType c = t \<longrightarrow> trackerCandidateAddress c = None) cs"
proof (induction cs)
  case (Cons c cs)
  show ?case
  proof (cases "cdType c = t")
    case True
    obtain more where m: "appendCandidates t cs (fst (appendCandidate [] c)) = fst (appendCandidate [] c) @ more"
      using appendCandidates_prefix by blast
    have "appendCandidates t (c # cs) [] = appendCandidates t cs (fst (appendCandidate [] c))"
      using True by (simp add: appendCandidates_def)
    with m Cons.prems have e: "fst (appendCandidate [] c) = []" by simp
    then have "trackerCandidateAddress c = None" by (auto simp: appendCandidate_def Let_def split: option.splits)
    with Cons e True show ?thesis by (simp add: appendCandidates_def)
  qed (use Cons in \<open>simp add: appendCandidates_def\<close>)
qed simp

lemma publicCandidates_empty:
  assumes "publicCandidates cs = []"
  shows "list_all (\<lambda>c. trackerCandidateAddress c = None) cs"
proof -
  note prefixes = appendCandidates_prefix appendIPv6_prefix
  have mapped: "appendCandidates CandidatePortMapped cs [] = []"
    and six: "appendIPv6 CandidateNIC cs (appendIPv6 CandidateSTUN cs []) = []"
    and stun: "appendCandidates CandidateSTUN cs [] = []" and nic: "appendCandidates CandidateNIC cs [] = []"
    using assms unfolding publicCandidates_def by (metis prefixes append_is_Nil_conv)+
  show ?thesis
    using appendCandidates_empty [OF mapped] appendCandidates_empty [OF stun] appendCandidates_empty [OF nic]
    unfolding list_all_iff by (metis CandidateType.exhaust)
qed

lemma trackerAnnounce_cases:
  "trackerAnnounceCandidates e = publicCandidates (esCandidates e) \<and> publicCandidates (esCandidates e) \<noteq> [] \<or>
   publicCandidates (esCandidates e) = [] \<and>
     trackerAnnounceCandidates e =
       (case ParseAddrPort (esListenAddress e) of
          None \<Rightarrow> []
        | Some listen \<Rightarrow> if apPort listen = 0 then [] else [\<lparr>acAddress = AddrZero, acPort = apPort listen\<rparr>])"
  by (auto simp: trackerAnnounceCandidates_def Let_def split: option.splits)

section \<open>What the loop keeps\<close>

definition lane_ok :: "portMappingLane \<Rightarrow> bool" where
  "lane_ok lane \<longleftrightarrow> (if plCancel lane then plStarted lane \<and> plMapper lane else plMapping lane = None)"

definition announcing :: "RoomNetwork \<Rightarrow> bool" where
  "announcing n \<longleftrightarrow>
     (case rnTracker n of None \<Rightarrow> True | Some g \<Rightarrow> grCandidates g = trackerAnnounceCandidates (rsEndpoint (rnSnapshot n)))"

definition published_ok :: "RoomNetwork \<Rightarrow> bool" where
  "published_ok n \<longleftrightarrow>
     (\<exists>e. selfFound (esCandidates e) \<and> rsEndpoint (rnSnapshot n) = project (rnLanes n) e)"

definition room_ok :: "RoomNetwork \<Rightarrow> bool" where
  "room_ok n \<longleftrightarrow>
     length (rnLanes n) = 2 \<and> list_all lane_ok (rnLanes n) \<and> selfFound (esCandidates (rnEndpoint n)) \<and> published_ok n \<and>
     rsPortMappingError (rnSnapshot n) = errorText (rnLanes n) \<and>
     length (rsDiscoveryError (rnSnapshot n)) \<le> maxDiscoveryErrorLength"

definition running :: "RoomNetwork \<Rightarrow> bool" where
  "running n \<longleftrightarrow> rnReturned n = None"

definition at_rest :: "RoomNetwork \<Rightarrow> bool" where
  "at_rest n \<longleftrightarrow> list_all (\<lambda>lane. plMapping lane = None) (rnLanes n) \<and> \<not> rnTrackerResult n \<and> \<not> rnEndpointResult n"

definition room_inv :: "RoomNetwork \<Rightarrow> bool" where
  "room_inv n \<longleftrightarrow> room_ok n \<and> (if running n then announcing n \<and> \<not> rnContextDone n else at_rest n)"

lemma length_discoveryErrorText: "length (discoveryErrorText errs additional) \<le> maxDiscoveryErrorLength"
proof -
  have dots: "length (bytes_of ''...'') = 3" by (simp add: bytes_of_def)
  have "runeEnd t (1024 - 3) + 3 \<le> 1024" for t using runeEnd_le [of t "1024 - 3"] by linarith
  then have "length (take (runeEnd t (1024 - 3)) t @ bytes_of ''...'') \<le> 1024" for t
    unfolding length_append length_take dots by (meson add_le_mono1 min.cobounded2 order_trans)
  then show ?thesis unfolding discoveryErrorText_def Let_def maxDiscoveryErrorLength_def by (auto simp del: length_append)
qed

lemma project_cong: "map plMapping lanes = map plMapping lanes' \<Longrightarrow> project lanes e = project lanes' e"
  by (simp add: project_def)

lemma errorText_cong:
  "map plFamily lanes = map plFamily lanes' \<Longrightarrow> map plErr lanes = map plErr lanes' \<Longrightarrow> errorText lanes = errorText lanes'"
proof -
  assume e: "map plFamily lanes = map plFamily lanes'" "map plErr lanes = map plErr lanes'"
  have "filter (\<lambda>(f, e). e \<noteq> []) (zip (map plFamily ls) (map plErr ls)) = map (\<lambda>l. (plFamily l, plErr l)) (filter (\<lambda>l. plErr l \<noteq> []) ls)" for ls
    by (induction ls) auto
  note parts = this
  have "errorText ls = joinTexts (bytes_of ''; '') (map (\<lambda>(f, e). bytes_of f @ bytes_of '': '' @ e)
      (filter (\<lambda>(f, e). e \<noteq> []) (zip (map plFamily ls) (map plErr ls))))" for ls
    unfolding parts by (simp add: errorText_def comp_def)
  then show ?thesis using e by simp
qed

lemma startLane_simps [simp]:
  "plMapping (startLane snap lane) = plMapping lane" "plErr (startLane snap lane) = plErr lane"
  "plFamily (startLane snap lane) = plFamily lane"
  by (simp_all add: startLane_def)

lemma startAvailable_maps [simp]:
  "map plMapping (startAvailable snap lanes) = map plMapping lanes" "map plErr (startAvailable snap lanes) = map plErr lanes"
  "map plFamily (startAvailable snap lanes) = map plFamily lanes" "length (startAvailable snap lanes) = length lanes"
  by (simp_all add: startAvailable_def comp_def)

lemma startAvailable_ok: "list_all lane_ok lanes \<Longrightarrow> list_all lane_ok (startAvailable snap lanes)"
  by (auto simp: startAvailable_def list_all_iff lane_ok_def startLane_def split: if_splits)

lemma startAvailable_project [simp]: "project (startAvailable snap lanes) e = project lanes e"
  by (rule project_cong) simp

lemma startAvailable_errors [simp]: "errorText (startAvailable snap lanes) = errorText lanes"
  by (rule errorText_cong) simp_all

lemma room_ok_updates [simp]:
  "room_ok (n\<lparr>rnTrackerResult := x\<rparr>) = room_ok n" "room_ok (n\<lparr>rnTracker := grp\<rparr>) = room_ok n"
  "room_ok (n\<lparr>rnTrackerError := err\<rparr>) = room_ok n" "room_ok (n\<lparr>rnEndpointResult := y\<rparr>) = room_ok n"
  "room_ok (n\<lparr>rnReturned := r\<rparr>) = room_ok n" "room_ok (n\<lparr>rnDiscoveryStarted := d\<rparr>) = room_ok n"
  "room_ok (n\<lparr>rnContextDone := c\<rparr>) = room_ok n" "room_ok (n\<lparr>rnDiscoveryErrors := es\<rparr>) = room_ok n"
  "room_ok (n\<lparr>rnEndpointChanges := ec\<rparr>) = room_ok n" "room_ok (n\<lparr>rnTrackerChanges := tc\<rparr>) = room_ok n"
  by (simp_all add: room_ok_def published_ok_def)

lemma room_ok_start:
  "room_ok n \<Longrightarrow> room_ok (n\<lparr>rnLanes := startAvailable snap (rnLanes n)\<rparr>)"
  by (simp add: room_ok_def published_ok_def startAvailable_ok)

lemma room_ok_endpoint:
  "room_ok n \<Longrightarrow> room_ok (announceTo (project (rnLanes n) (rnEndpoint n))
     (updateSnapshot (\<lambda>s. s\<lparr>rsEndpoint := project (rnLanes n) (rnEndpoint n)\<rparr>) n))"
  by (auto simp: room_ok_def published_ok_def announceTo_def updateSnapshot_def)

lemma room_ok_discovery:
  "room_ok n \<Longrightarrow> room_ok (updateSnapshot (\<lambda>s. s\<lparr>rsDiscoveryError := discoveryErrorText errs additional\<rparr>) n)"
  by (simp add: room_ok_def published_ok_def updateSnapshot_def length_discoveryErrorText)

lemma room_ok_snapshot:
  "room_ok n \<Longrightarrow> room_ok (updateSnapshot (\<lambda>s. s\<lparr>rsTracker := statuses\<rparr>) n)"
  "room_ok n \<Longrightarrow> room_ok (updateSnapshot (\<lambda>s. s\<lparr>rsNetworkError := e\<rparr>) n)"
  by (simp_all add: room_ok_def published_ok_def updateSnapshot_def)

lemma room_ok_lane:
  assumes "room_ok n" and "plCancel (rnLanes n ! pmLane event)" and "pmLane event < length (rnLanes n)"
  shows "room_ok (laneReported event n)"
proof -
  have "lane_ok (rnLanes n ! pmLane event)" using assms by (auto simp: room_ok_def list_all_length)
  then have "list_all lane_ok (applyEvent event (rnLanes n))"
    using assms unfolding room_ok_def applyEvent_def applyLane_def
    by (auto simp: list_all_iff lane_ok_def split: option.splits dest!: set_update_subset_insert [THEN subsetD])
  with assms show ?thesis
    by (auto simp: room_ok_def published_ok_def laneReported_def applyPortMappings_def announceTo_def updateSnapshot_def
      Let_def applyEvent_def)
qed

text \<open>Stopping takes the mappings away from the lanes, whether or not the mappers end in time.\<close>

lemma cancelLane_simps [simp]:
  "plErr (cancelLane lane) = plErr lane" "plFamily (cancelLane lane) = plFamily lane"
  "lane_ok lane \<Longrightarrow> plMapping (cancelLane lane) = None" "lane_ok lane \<Longrightarrow> lane_ok (cancelLane lane)"
  by (auto simp: cancelLane_def lane_ok_def)

lemma map_update_same: "(\<And>x. f (g x) = f x) \<Longrightarrow> map f (xs[i := g (xs ! i)]) = map f xs"
  by (cases "i < length xs") (simp_all add: map_update list_update_same_conv list_update_beyond)

lemma awaitLanes_keeps:
  "awaitLanes left events lanes = (stopped, lanes') \<Longrightarrow> list_all (\<lambda>lane. plMapping lane = None \<and> lane_ok lane) lanes \<Longrightarrow>
   list_all (\<lambda>lane. plMapping lane = None \<and> lane_ok lane) lanes' \<and> map plErr lanes' = map plErr lanes \<and>
   map plFamily lanes' = map plFamily lanes"
proof (induction left events lanes rule: awaitLanes.induct)
  case (3 n event events lanes)
  let ?lanes = "lanes[pmLane event := (lanes ! pmLane event)\<lparr>plCancel := False\<rparr>]"
  have "map plErr ?lanes = map plErr lanes" "map plFamily ?lanes = map plFamily lanes"
    by (rule map_update_same, simp)+
  moreover have "list_all (\<lambda>lane. plMapping lane = None \<and> lane_ok lane) ?lanes"
    using "3.prems"(2) by (cases "pmLane event < length lanes")
      (auto simp: list_all_length nth_list_update lane_ok_def)
  ultimately show ?case using 3 by (auto split: if_splits)
qed auto

lemma stopLanes_keeps:
  assumes "stopLanes events lanes = (stopped, lanes')" and "list_all lane_ok lanes"
  shows "list_all (\<lambda>lane. plMapping lane = None) lanes'" and "list_all lane_ok lanes'" and "errorText lanes' = errorText lanes"
    and "length lanes' = length lanes"
proof -
  have cancelled: "list_all (\<lambda>lane. plMapping lane = None \<and> lane_ok lane) (map cancelLane lanes)"
    using assms by (auto simp: list_all_iff)
  note kept = awaitLanes_keeps [OF assms(1) [unfolded stopLanes_def] cancelled]
  then show "list_all (\<lambda>lane. plMapping lane = None) lanes'" "list_all lane_ok lanes'" by (auto simp: list_all_iff)
  show "errorText lanes' = errorText lanes" using kept by (intro errorText_cong) (simp_all add: comp_def)
  show "length lanes' = length lanes" using kept by (metis length_map)
qed

lemma no_mappings: "list_all (\<lambda>lane. plMapping lane = None) lanes \<Longrightarrow> map plMapping lanes = replicate (length lanes) None"
  by (induction lanes) auto

lemma stopMappings_keeps:
  assumes "room_ok n" and "(endpointMove options)\<^sup>*\<^sup>* (rnEndpoint n) (clEndpoint cl)" and "stopMappings cl err n = (err', n')"
  shows "room_ok n' \<and> list_all (\<lambda>lane. plMapping lane = None) (rnLanes n')"
proof -
  obtain stopped lanes where s: "stopLanes (clEvents cl) (rnLanes n) = (stopped, lanes)" by fastforce
  have ok: "list_all lane_ok (rnLanes n)" using assms by (simp add: room_ok_def)
  have own: "selfFound (esCandidates (clEndpoint cl))"
    using assms endpointMoves_own by (auto simp: room_ok_def)
  have same: "project lanes e = project (rnLanes n) e" if "\<not> list_ex (\<lambda>lane. plMapping lane \<noteq> None) (rnLanes n)" for e
  proof (rule project_cong)
    have "map plMapping lanes = replicate (length lanes) None" "map plMapping (rnLanes n) = replicate (length (rnLanes n)) None"
      using that stopLanes_keeps(1) [OF s ok] by (auto simp: list_all_iff list_ex_iff intro!: no_mappings)
    then show "map plMapping lanes = map plMapping (rnLanes n)" using stopLanes_keeps(4) [OF s ok] by simp
  qed
  show ?thesis using assms own same stopLanes_keeps [OF s ok]
    by (auto simp: stopMappings_def s Let_def room_ok_def published_ok_def updateSnapshot_def split: if_splits)
qed

lemma finishRoom_keeps:
  assumes "room_ok n" and "(endpointMove options)\<^sup>*\<^sup>* (rnEndpoint n) (clEndpoint cl)"
  shows "room_inv (finishRoom cl err n)"
proof -
  obtain err' m where m: "stopMappings cl err n = (err', m)" by fastforce
  show ?thesis using stopMappings_keeps [OF assms m]
    by (simp add: finishRoom_def m Let_def stopTracker_def stopEndpoint_def room_inv_def running_def at_rest_def
      split: option.splits)
qed

lemma announcing_simps [simp]:
  "announcing (announceTo (rsEndpoint (rnSnapshot n)) n)"
  "announcing (n\<lparr>rnEndpoint := e\<rparr>) = announcing n" "announcing (n\<lparr>rnLanes := lanes\<rparr>) = announcing n"
  "announcing (n\<lparr>rnTrackerResult := x\<rparr>) = announcing n" "announcing (n\<lparr>rnDiscoveryStarted := d\<rparr>) = announcing n"
  "announcing (n\<lparr>rnEndpointChanges := ec\<rparr>) = announcing n" "announcing (n\<lparr>rnTrackerChanges := tc\<rparr>) = announcing n"
  by (auto simp: announcing_def announceTo_def UpdateCandidates_def split: option.splits)

lemma announceTo_published: "rsEndpoint (rnSnapshot n) = e \<Longrightarrow> announcing (announceTo e n)"
  by (auto simp: announcing_def announceTo_def UpdateCandidates_def split: option.splits)

lemma groupStep_candidates [simp]: "grCandidates (groupStep turn g) = grCandidates g"
  by (cases turn) (auto simp: groupStep_def takeCandidates_def startCandidates_def stopCandidates_def setChildren_def
    signalChange_def Let_def split: option.splits if_splits)

lemma endpointChanged_inv:
  assumes "room_inv n" and "running n" and moves: "(endpointMove options)\<^sup>*\<^sup>* (rnEndpoint n) (clEndpoint cl)"
  shows "room_inv (endpointChanged cl parseErr n)"
proof -
  define e where "e = project (rnLanes n) (rnEndpoint n)"
  define a where "a = announceTo e (updateSnapshot (\<lambda>s. s\<lparr>rsEndpoint := e\<rparr>) n)"
  define b where "b = (if rnTracker a \<noteq> None \<and> \<not> rnTrackerResult a \<and> rnTrackerError a = None \<and> esListenAddress (rnEndpoint n) \<noteq> []
    then a\<lparr>rnTrackerResult := True\<rparr> else a)"
  define c where "c = b\<lparr>rnLanes := startAvailable (rnEndpoint n) (rnLanes b)\<rparr>"
  have "announcing a" unfolding a_def by (rule announceTo_published) (simp add: updateSnapshot_def)
  moreover have "room_ok a" using assms room_ok_endpoint [of n] by (simp add: a_def e_def room_inv_def)
  moreover have "running a" "\<not> rnContextDone a" "rnEndpoint a = rnEndpoint n"
    using assms by (simp_all add: a_def announceTo_def updateSnapshot_def room_inv_def running_def)
  ultimately have a: "room_ok a" "announcing a" "running a" "\<not> rnContextDone a" "rnEndpoint a = rnEndpoint n"
    by simp_all
  have b: "room_ok b" "announcing b" "running b" "\<not> rnContextDone b" "rnEndpoint b = rnEndpoint n"
    using a by (simp_all add: b_def running_def)
  then have ok: "room_ok c" using room_ok_start by (simp add: c_def)
  have c: "announcing c" "running c" "\<not> rnContextDone c" "rnEndpoint c = rnEndpoint n"
    using b by (simp_all add: c_def running_def)
  have "endpointChanged cl parseErr n =
      (if \<not> rnDiscoveryStarted c \<and> esListenAddress (rnEndpoint n) \<noteq> [] then
         (case ParseAddrPort (esListenAddress (rnEndpoint n)) of
            None \<Rightarrow> finishRoom cl (Some parseErr) c
          | Some listen \<Rightarrow> if rnServices c = 0 then c else c\<lparr>rnDiscoveryStarted := True\<rparr>)
       else c)"
    unfolding endpointChanged_def Let_def e_def [symmetric] a_def [symmetric] b_def [symmetric] c_def [symmetric] ..
  moreover have "room_inv c" "room_inv (c\<lparr>rnDiscoveryStarted := True\<rparr>)"
    using ok c by (simp_all add: room_inv_def running_def)
  moreover have "room_inv (finishRoom cl (Some parseErr) c)" using ok moves c by (intro finishRoom_keeps) auto
  ultimately show ?thesis by (auto split: option.split)
qed

lemma step_updates:
  "running (updateSnapshot f n) = running n" "rnContextDone (updateSnapshot f n) = rnContextDone n"
  "rnEndpoint (updateSnapshot f n) = rnEndpoint n"
  "(\<And>s. rsEndpoint (f s) = rsEndpoint s) \<Longrightarrow> announcing (updateSnapshot f n) = announcing n"
  "announcing (n\<lparr>rnDiscoveryErrors := es\<rparr>) = announcing n" "announcing (n\<lparr>rnTrackerError := err\<rparr>) = announcing n"
  "running (n\<lparr>rnDiscoveryErrors := es\<rparr>) = running n" "running (n\<lparr>rnTrackerError := err\<rparr>) = running n"
  "running (n\<lparr>rnTrackerResult := x\<rparr>) = running n" "running (n\<lparr>rnEndpoint := e\<rparr>) = running n"
  by (auto simp: running_def updateSnapshot_def announcing_def split: option.split)

lemma room_inv_running: "running n \<Longrightarrow> room_inv n \<longleftrightarrow> room_ok n \<and> announcing n \<and> \<not> rnContextDone n"
  by (simp add: room_inv_def)

lemma room_step_inv: "roomStep n n' \<Longrightarrow> room_inv n \<Longrightarrow> room_inv n'"
proof (induction rule: roomStep.induct)
  case (endpointMoves n e)
  then show ?case using endpointMove_own
    by (auto simp: room_inv_def running_def room_ok_def published_ok_def)
next
  case (groupMoves n g turn)
  then show ?case by (simp add: room_inv_def running_def announcing_def)
next
  case (endpointChanges n cl parseErr)
  then show ?case by (intro endpointChanged_inv) (simp_all add: running_def)
next
  case (discoveryReports n service err)
  then show ?case unfolding discoveryReported_def Let_def
    by (simp add: running_def [symmetric] room_inv_running step_updates room_ok_discovery)
next
  case (trackerReturns n err)
  then show ?case unfolding trackerReturned_def Let_def
    by (simp add: running_def [symmetric] room_inv_running step_updates room_ok_discovery)
next
  case (trackerChanges n)
  then show ?case unfolding trackerChanged_def
    by (simp add: running_def [symmetric] room_inv_running step_updates room_ok_snapshot split: option.split)
next
  case (laneReports n event)
  then have "room_ok (laneReported event n)" by (intro room_ok_lane) (simp_all add: room_inv_def running_def)
  moreover have "announcing (laneReported event n)"
    unfolding laneReported_def applyPortMappings_def Let_def by (rule announceTo_published) (simp add: updateSnapshot_def)
  moreover have "running (laneReported event n)" "\<not> rnContextDone (laneReported event n)"
    using laneReports by (simp_all add: room_inv_def running_def laneReported_def applyPortMappings_def Let_def announceTo_def updateSnapshot_def)
  ultimately show ?case by (simp add: room_inv_def)
next
  case (endpointReturns n cl err)
  let ?n = "n\<lparr>rnEndpointResult := False\<rparr>"
  have n: "room_ok n" "\<not> rnContextDone n" using endpointReturns by (simp_all add: room_inv_def running_def)
  then have "room_inv (finishRoom cl None ?n)" "room_inv (finishRoom cl err ?n)"
    "room_inv (finishRoom cl err (updateSnapshot (\<lambda>s. s\<lparr>rsNetworkError := e\<rparr>) ?n))" for e
    using endpointReturns by (auto simp: room_ok_snapshot step_updates intro!: finishRoom_keeps)
  then show ?case by (cases err) (simp_all add: endpointReturned_def Let_def)
next
  case (parentDone n cl)
  then show ?case by (auto simp: room_inv_def [of n] running_def intro!: finishRoom_keeps)
qed (simp_all add: room_inv_def running_def)

lemma room_start_inv: "NewRoomNetwork options services providers peerID mapping = Inr start \<Longrightarrow> room_inv start"
proof -
  have pieces: "lane_ok (newLane f m)" "project (newPortMappingLanes a b) noEndpoint = noEndpoint" "errorText (newPortMappingLanes a b) = []"
    "trackerAnnounceCandidates noEndpoint = []" for f m a b
    by (simp_all add: newLane_def lane_ok_def project_def withPortMappings_def newPortMappingLanes_def laneCandidate_def
      noEndpoint_def errorText_def trackerAnnounceCandidates_def publicCandidates_def appendCandidates_def ParseAddrPort_def)
  have own: "selfFound (esCandidates noEndpoint)" by (simp add: selfFound_def noEndpoint_def)
  assume "NewRoomNetwork options services providers peerID mapping = Inr start"
  then obtain grp where start: "start = startRoom options services grp mapping" and
    grp: "grp = None \<or> (\<exists>g. grp = Some g \<and> grCandidates g = [])"
    by (auto simp: NewRoomNetwork_def NewGroup_def split: if_splits)
  have "room_ok start" unfolding room_ok_def published_ok_def start startRoom_def Let_def updateSnapshot_def
    using own pieces by (auto simp: noRoom_def split: option.split intro!: exI [of _ noEndpoint])
      (simp_all add: newPortMappingLanes_def pieces)
  moreover have "running start" "announcing start" "\<not> rnContextDone start"
    using grp by (auto simp: running_def announcing_def start startRoom_def Let_def updateSnapshot_def noRoom_def pieces)
  ultimately show ?thesis by (simp add: room_inv_def)
qed

lemma room_reach_inv:
  "roomStep\<^sup>*\<^sup>* start n \<Longrightarrow> NewRoomNetwork options services providers peerID mapping = Inr start \<Longrightarrow> room_inv n"
  by (induction rule: rtranclp_induct) (auto intro: room_start_inv room_step_inv)

section \<open>The supervised services\<close>

text \<open>The delays before a service is run again stay between the first and the greatest.\<close>

lemma nextDiscoveryRetryDelay_bounds:
  "0 \<le> delay \<Longrightarrow> delay \<le> maximum \<Longrightarrow> delay \<le> nextDiscoveryRetryDelay delay maximum \<and> nextDiscoveryRetryDelay delay maximum \<le> maximum"
  by (auto simp: nextDiscoveryRetryDelay_def)

lemma superviseDiscovery_delays:
  "defaultDiscoveryRetryInitial \<le> delay \<Longrightarrow> delay \<le> defaultDiscoveryRetryMax \<Longrightarrow>
   list_all (\<lambda>d. defaultDiscoveryRetryInitial \<le> d \<and> d \<le> defaultDiscoveryRetryMax) (snd (superviseDiscovery index delay runs))"
proof (induction index delay runs rule: superviseDiscovery.induct)
  case (2 index delay err elapsed outcome runs)
  define d where "d = (if elapsed \<ge> defaultDiscoveryRetryMax then defaultDiscoveryRetryInitial else delay)"
  have d: "defaultDiscoveryRetryInitial \<le> d" "d \<le> defaultDiscoveryRetryMax" using 2 by (auto simp: d_def)
  have "outcome = WaitedThen True \<Longrightarrow>
      list_all (\<lambda>d. defaultDiscoveryRetryInitial \<le> d \<and> d \<le> defaultDiscoveryRetryMax)
        (snd (superviseDiscovery index (nextDiscoveryRetryDelay d defaultDiscoveryRetryMax) runs))"
    using d nextDiscoveryRetryDelay_bounds [of d defaultDiscoveryRetryMax] by (intro "2.IH") (auto simp: d_def)
  then show ?case using d
    by (simp only: superviseDiscovery.simps Let_def d_def [symmetric]) (auto split: supervision.split prod.split)
qed simp

section \<open>Properties\<close>

text \<open>C28: while the loop of a room runs, the candidates its tracker group announces are those of the endpoint it has
  published; either they are at most four different public addresses with at most one IPv6 address among them, or no
  candidate of the endpoint is usable and only the listening port is announced.\<close>

theorem room_announces_published:
  assumes "NewRoomNetwork options services providers peerID mapping = Inr start" and "roomStep\<^sup>*\<^sup>* start n"
    and "rnReturned n = None" and "rnTracker n = Some g"
  shows "grCandidates g = trackerAnnounceCandidates (rsEndpoint (rnSnapshot n)) \<and>
    (announced_ok (grCandidates g) \<or>
     list_all (\<lambda>c. trackerCandidateAddress c = None) (esCandidates (rsEndpoint (rnSnapshot n))) \<and>
     (\<exists>listen. grCandidates g = [\<lparr>acAddress = AddrZero, acPort = listen\<rparr>] \<and> listen \<noteq> 0))"
proof -
  have e: "grCandidates g = trackerAnnounceCandidates (rsEndpoint (rnSnapshot n))"
    using room_reach_inv [OF assms(2,1)] assms by (simp add: room_inv_def running_def announcing_def)
  then show ?thesis
    using trackerAnnounce_cases [of "rsEndpoint (rnSnapshot n)"] announced_ok_public [of "esCandidates (rsEndpoint (rnSnapshot n))"]
      publicCandidates_empty [of "esCandidates (rsEndpoint (rnSnapshot n))"]
    by (auto split: option.splits if_splits)
qed

lemma laneCandidate_mapped: "filter (\<lambda>c. cdType c = CandidatePortMapped) (laneCandidate m) = laneCandidate m"
  by (auto simp: laneCandidate_def split: option.split)

lemma own_unmapped: "selfFound cs \<Longrightarrow> filter (\<lambda>c. cdType c = CandidatePortMapped) cs = []"
  by (auto simp: selfFound_def list_all_iff filter_empty_conv)

lemma mapped_project:
  "selfFound (esCandidates e) \<Longrightarrow>
   filter (\<lambda>c. cdType c = CandidatePortMapped) (esCandidates (project lanes e)) = concat (map (\<lambda>lane. laneCandidate (plMapping lane)) lanes)"
  by (simp add: project_def withPortMappings_def own_unmapped filter_concat comp_def laneCandidate_mapped)

lemma running_lanes:
  "list_all lane_ok lanes \<Longrightarrow>
   concat (map (\<lambda>lane. laneCandidate (plMapping lane)) lanes) = concat (map (\<lambda>lane. laneCandidate (plMapping lane)) (filter plCancel lanes))"
  by (induction lanes) (auto simp: lane_ok_def laneCandidate_def)

text \<open>C29: the port mappings a room publishes are exactly the mappings of its running mappers, in the order of the lanes, and
  once \<open>Run\<close> has returned it publishes none, even when the mappers did not end in time.\<close>

theorem room_mappings_live:
  assumes "NewRoomNetwork options services providers peerID mapping = Inr start" and "roomStep\<^sup>*\<^sup>* start n"
  shows "filter (\<lambda>c. cdType c = CandidatePortMapped) (esCandidates (rsEndpoint (rnSnapshot n))) =
      (if rnReturned n = None then concat (map (\<lambda>lane. laneCandidate (plMapping lane)) (filter plCancel (rnLanes n))) else [])"
proof -
  have inv: "room_inv n" using room_reach_inv assms by blast
  then obtain e where "selfFound (esCandidates e)" "rsEndpoint (rnSnapshot n) = project (rnLanes n) e" "list_all lane_ok (rnLanes n)"
    by (auto simp: room_inv_def room_ok_def published_ok_def)
  moreover have "concat (map (\<lambda>lane. laneCandidate (plMapping lane)) (rnLanes n)) = []" if "rnReturned n \<noteq> None"
    using inv that by (auto simp: room_inv_def running_def at_rest_def list_all_iff laneCandidate_def)
  ultimately show ?thesis by (simp add: mapped_project running_lanes)
qed

lemma merge_again:
  "filter (\<lambda>c. cdType c = CandidateNIC) (mergeSTUNCandidates existing rs) = filter (\<lambda>c. cdType c = CandidateNIC) existing"
proof -
  have "filter (\<lambda>c. cdType c = CandidateNIC) (addSTUNCandidates known cs rs) = filter (\<lambda>c. cdType c = CandidateNIC) cs" for known cs
    by (induction known cs rs rule: addSTUNCandidates.induct) (auto split: option.split dest: stunCandidate_type)
  then show ?thesis by (simp add: mergeSTUNCandidates_def)
qed

lemma announce_refresh:
  "trackerAnnounceCandidates (project lanes (refreshSTUN options query e)) =
   trackerAnnounceCandidates (project lanes (e\<lparr>esCandidates := esCandidates (refreshSTUN options query e)\<rparr>))"
  by (simp add: trackerAnnounceCandidates_def project_def withPortMappings_def refreshSTUN_def Let_def)

text \<open>C30: when a refresh of the endpoint brings the same answers of the STUN servers, in whatever order they came in and
  however long each took, the tracker group keeps its candidates and revision, so no registration starts over.\<close>

theorem stun_timing_keeps_registrations:
  assumes "mset (map untimed (concat batches)) = mset (map untimed (concat batches'))" and "distinct (map stunKey (concat batches))"
  shows "let e1 = refreshSTUN options (\<lambda>_. batches) e; e2 = refreshSTUN options (\<lambda>_. batches') e1;
           g1 = UpdateCandidates g (trackerAnnounceCandidates (project lanes e1))
         in UpdateCandidates g1 (trackerAnnounceCandidates (project lanes e2)) = g1"
proof -
  let ?e1 = "refreshSTUN options (\<lambda>_. batches) e"
  let ?e2 = "refreshSTUN options (\<lambda>_. batches') ?e1"
  have "esCandidates ?e2 = mergeSTUNCandidates (esCandidates e) (sortSTUNResults (concat batches'))"
    by (simp add: refreshSTUN_def Let_def querySTUNServers_def mergeSTUNCandidates_def [of "mergeSTUNCandidates _ _"] merge_again)
      (simp add: mergeSTUNCandidates_def)
  also have "\<dots> = esCandidates ?e1"
    using merge_untimed [OF assms] by (simp add: refreshSTUN_def Let_def querySTUNServers_def)
  finally have same: "esCandidates ?e2 = esCandidates ?e1" .
  have "?e1\<lparr>esCandidates := esCandidates ?e1\<rparr> = ?e1" by simp
  with same have "trackerAnnounceCandidates (project lanes ?e2) = trackerAnnounceCandidates (project lanes ?e1)"
    unfolding announce_refresh [of lanes options "\<lambda>_. batches'" ?e1] by simp
  then show ?thesis by (simp add: Let_def UpdateCandidates_def)
qed

lemma mapping_first:
  assumes "selfFound (esCandidates e)" and "plMapping lane = Some m" and "mpExternal m = AddrPortFrom (Addr4 w) p" and "p \<noteq> 0"
    and "usablePublicTrackerAddress (Addr4 w)"
  shows "\<exists>more. trackerAnnounceCandidates (project (lane # lanes) e) = \<lparr>acAddress = Addr4 w, acPort = p\<rparr> # more"
proof -
  let ?cs = "esCandidates (project (lane # lanes) e)" and ?ac = "\<lparr>acAddress = Addr4 w, acPort = p\<rparr>"
  obtain c where c: "laneCandidate (Some m) = [c]" "cdAddress c = apString (AddrPortFrom (Addr4 w) p)"
    using assms by (auto simp: laneCandidate_def apIsValid_def addrIsValid_def)
  then have "appendCandidate [] c = ([?ac], True)"
    using assms by (simp add: appendCandidate_def trackerCandidateAddress_def ParseAddrPort_apString4)
  moreover have "filter (\<lambda>c. cdType c = CandidatePortMapped) ?cs = c # concat (map (\<lambda>lane. laneCandidate (plMapping lane)) lanes)"
    using assms c by (simp add: mapped_project)
  moreover obtain more where "foldl (\<lambda>acs c. fst (appendCandidate acs c)) [?ac] (concat (map (\<lambda>lane. laneCandidate (plMapping lane)) lanes)) = [?ac] @ more"
    using foldl_prefix by blast
  ultimately have "appendCandidates CandidatePortMapped ?cs [] = ?ac # more" by (simp add: appendCandidates_def)
  moreover obtain a b c d where
    "publicCandidates ?cs = (((appendCandidates CandidatePortMapped ?cs [] @ a) @ b) @ c) @ d"
    unfolding publicCandidates_def by (metis appendCandidates_prefix appendIPv6_prefix)
  ultimately show ?thesis using trackerAnnounce_cases [of "project (lane # lanes) e"] by auto
qed

text \<open>while the loop runs, a public IPv4 mapping of the first mapper is the first candidate the tracker group
  announces, read back from the text it was published as.\<close>

theorem room_announces_mapping_first:
  assumes "NewRoomNetwork options services providers peerID mapping = Inr start" and "roomStep\<^sup>*\<^sup>* start n"
    and "rnReturned n = None" and "rnTracker n = Some g"
    and "plMapping (rnLanes n ! 0) = Some m" and "mpExternal m = AddrPortFrom (Addr4 w) p" and "p \<noteq> 0"
    and "usablePublicTrackerAddress (Addr4 w)"
  shows "\<exists>more. grCandidates g = \<lparr>acAddress = Addr4 w, acPort = p\<rparr> # more"
proof -
  have inv: "room_inv n" using room_reach_inv assms by blast
  then obtain e where "selfFound (esCandidates e)" "rsEndpoint (rnSnapshot n) = project (rnLanes n) e"
    by (auto simp: room_inv_def room_ok_def published_ok_def)
  moreover obtain lane lanes where "rnLanes n = lane # lanes" using inv by (cases "rnLanes n") (auto simp: room_inv_def room_ok_def)
  moreover have "grCandidates g = trackerAnnounceCandidates (rsEndpoint (rnSnapshot n))"
    using inv assms by (simp add: room_inv_def running_def announcing_def)
  ultimately show ?thesis using mapping_first [of e lane m w p lanes] assms by simp
qed

section \<open>A room that runs\<close>

definition sampleOptions :: EndpointOptions where "sampleOptions = DefaultOptions"
definition sampleSecret :: PeerID where "sampleSecret = 7"
definition sampleBound :: AddrPort where "sampleBound = AddrPortFrom (Addr4 0) 4242"
definition sampleInterface :: networkInterface where
  "sampleInterface = \<lparr>niUp = True, niName = ''eth0'', niAddresses = Some [Addr4 0xc0a80105]\<rparr>"
definition sampleListening :: EndpointSnapshot where
  "sampleListening = endpointListening (Some [sampleInterface]) sampleBound noEndpoint"
definition sampleClosing :: closing where
  "sampleClosing = \<lparr>clEndpoint = sampleListening, clEvents = [], clTrackerTimeout = False, clParentDone = True, clEndpointErr = None\<rparr>"
definition sampleExternal :: Mapping where
  "sampleExternal = \<lparr>mpExternal = AddrPortFrom (Addr4 0x08080808) 4242, mpProvider = [], mpExpiresAt = 3600 * Second\<rparr>"
definition sampleMapped :: portMappingEvent where
  "sampleMapped = \<lparr>pmLane = 0, pmState = Some \<lparr>stMapping = Some sampleExternal, stError = [], stRetryAfter = None\<rparr>, pmErr = None\<rparr>"
definition sampleStart :: RoomNetwork where
  "sampleStart = startRoom sampleOptions 1 (Some \<lparr>grProviders = [exampleProvider], grCandidates = [], grRevision = 0,
     grChildren = (\<lambda>_. None), grUpdates = False, grChanges = False\<rparr>) True"
definition sampleRoom :: RoomNetwork where
  "sampleRoom = laneReported sampleMapped (endpointChanged sampleClosing [] (sampleStart\<lparr>rnEndpoint := sampleListening\<rparr>))"

lemma sample_start: "NewRoomNetwork sampleOptions 1 [exampleProvider] sampleSecret True = Inr sampleStart"
  by (simp add: NewRoomNetwork_def NewGroup_def sampleStart_def sampleSecret_def IsZero_def)

lemma sample_listening:
  "esListenAddress sampleListening = apString sampleBound"
  "esCandidates sampleListening = [nicCandidate ''eth0'' 4242 (Addr4 0xc0a80105)]"
  by (simp_all add: sampleListening_def endpointListening_def sampleBound_def sampleInterface_def nicCandidates_def Let_def
    addrIsValid_def IsUnspecified_def isUsableNICAddress_def IsLoopback_def IsMulticast_def IsLinkLocalUnicast_def)

lemma sample_address: "ParseAddrPort (apString sampleBound) = Some sampleBound" "apString sampleBound \<noteq> []"
proof -
  show "ParseAddrPort (apString sampleBound) = Some sampleBound" by (simp add: sampleBound_def ParseAddrPort_apString4)
  then show "apString sampleBound \<noteq> []" by (auto simp: ParseAddrPort_def)
qed

lemma sample_ports: "portMappingInternalPort sampleListening ''ipv4'' = 4242" "portMappingInternalPort sampleListening ''ipv6'' = 0"
  by (simp_all add: portMappingInternalPort_def sample_listening sample_address nicCandidate_def addressFamily_def
    ParseAddrPort_apString4) (simp_all add: sampleBound_def IsUnspecified_def)

lemma sample_lane:
  "rnReturned (endpointChanged sampleClosing [] (sampleStart\<lparr>rnEndpoint := sampleListening\<rparr>)) = None"
  "rnLanes (endpointChanged sampleClosing [] (sampleStart\<lparr>rnEndpoint := sampleListening\<rparr>)) =
   [(newLane ''ipv4'' True)\<lparr>plCancel := True, plStarted := True\<rparr>, newLane ''ipv6'' True]"
  by (simp_all add: endpointChanged_def Let_def announceTo_def updateSnapshot_def sampleStart_def startRoom_def sample_listening
    sample_address startAvailable_def startLane_def newPortMappingLanes_def newLane_def sample_ports)

lemma sample_reached: "roomStep\<^sup>*\<^sup>* sampleStart sampleRoom"
proof -
  have "rnEndpoint sampleStart = noEndpoint" "rnReturned sampleStart = None" "rnEndpointResult sampleStart" "rnEndpointChanges sampleStart"
    by (simp_all add: sampleStart_def startRoom_def updateSnapshot_def Let_def)
  then have "roomStep sampleStart (sampleStart\<lparr>rnEndpoint := sampleListening\<rparr>)"
    by (intro roomStep.endpointMoves) (simp_all add: sampleListening_def endpointMove.listens)
  moreover have "roomStep (sampleStart\<lparr>rnEndpoint := sampleListening\<rparr>)
      (endpointChanged sampleClosing [] (sampleStart\<lparr>rnEndpoint := sampleListening\<rparr>))"
    using \<open>rnReturned sampleStart = None\<close> \<open>rnEndpointChanges sampleStart\<close>
    by (intro roomStep.endpointChanges) (simp_all add: sampleClosing_def)
  moreover have "roomStep (endpointChanged sampleClosing [] (sampleStart\<lparr>rnEndpoint := sampleListening\<rparr>)) sampleRoom"
    unfolding sampleRoom_def by (rule roomStep.laneReports) (simp_all add: sample_lane sampleMapped_def)
  ultimately show ?thesis by (meson converse_rtranclp_into_rtranclp rtranclp.rtrancl_refl)
qed

lemma sample_room:
  "rnReturned sampleRoom = None" "plMapping (rnLanes sampleRoom ! 0) = Some sampleExternal" "\<exists>g. rnTracker sampleRoom = Some g"
proof -
  show "rnReturned sampleRoom = None" "plMapping (rnLanes sampleRoom ! 0) = Some sampleExternal"
    unfolding sampleRoom_def laneReported_def applyPortMappings_def Let_def announceTo_def updateSnapshot_def
    by (simp_all add: sample_lane applyEvent_def sampleMapped_def applyLane_def)
  have "rnTracker (endpointChanged sampleClosing [] (sampleStart\<lparr>rnEndpoint := sampleListening\<rparr>)) \<noteq> None"
    by (simp add: endpointChanged_def Let_def announceTo_def updateSnapshot_def sampleStart_def startRoom_def sample_listening sample_address)
  then show "\<exists>g. rnTracker sampleRoom = Some g"
    by (auto simp: sampleRoom_def laneReported_def applyPortMappings_def Let_def announceTo_def updateSnapshot_def)
qed

lemma sample_external: "usablePublicTrackerAddress (Addr4 0x08080808)" "mpExternal sampleExternal = AddrPortFrom (Addr4 0x08080808) 4242"
  by (simp_all add: usablePublicTrackerAddress_def IsGlobalUnicast_def IsLoopback_def IsMulticast_def IsLinkLocalUnicast_def
    IsPrivate_def carrierGradeNAT_def sampleExternal_def)

theorem room_announces_mapping_first_witness:
  "\<exists>g more. rnTracker sampleRoom = Some g \<and> grCandidates g = \<lparr>acAddress = Addr4 0x08080808, acPort = 4242\<rparr> # more"
proof -
  obtain g where "rnTracker sampleRoom = Some g" using sample_room by blast
  with room_announces_mapping_first [OF sample_start sample_reached sample_room(1) this sample_room(2) sample_external(2)]
  show ?thesis using sample_external(1) by simp
qed

theorem room_announces_published_witness:
  "\<exists>g. rnTracker sampleRoom = Some g \<and> grCandidates g = trackerAnnounceCandidates (rsEndpoint (rnSnapshot sampleRoom))"
proof -
  obtain g where "rnTracker sampleRoom = Some g" using sample_room by blast
  with room_announces_published [OF sample_start sample_reached sample_room(1) this] show ?thesis by simp
qed

theorem room_mappings_live_witness:
  "filter (\<lambda>c. cdType c = CandidatePortMapped) (esCandidates (rsEndpoint (rnSnapshot sampleRoom))) =
   concat (map (\<lambda>lane. laneCandidate (plMapping lane)) (filter plCancel (rnLanes sampleRoom)))"
  using room_mappings_live [OF sample_start sample_reached] sample_room(1) by simp

definition sampleAnswer :: "string \<Rightarrow> int \<Rightarrow> STUNResult" where
  "sampleAnswer server rtt = \<lparr>srServer = server, srFamily = ''ipv4'', srMappedAddress = apString (AddrPortFrom (Addr4 0x08080808) 4242),
     srRTTMillis = rtt, srError = []\<rparr>"

theorem stun_timing_keeps_registrations_witness:
  "let e1 = refreshSTUN sampleOptions (\<lambda>_. [[sampleAnswer ''a'' 10], [sampleAnswer ''b'' 20]]) sampleListening;
       e2 = refreshSTUN sampleOptions (\<lambda>_. [[sampleAnswer ''b'' 15], [sampleAnswer ''a'' 30]]) e1;
       g1 = UpdateCandidates (the (rnTracker sampleStart)) (trackerAnnounceCandidates (project [] e1))
     in UpdateCandidates g1 (trackerAnnounceCandidates (project [] e2)) = g1"
  by (rule stun_timing_keeps_registrations) (simp_all add: sampleAnswer_def untimed_def stunKey_def)

end
