(* ===== verification/IdentityText.thy ===== *)
theory IdentityText
  imports Wire
begin

text \<open>
  The text of a peer identifier and its generation, \<open>internal/identity/identity.go\<close>.  The base 32 of package
  \<open>encoding/base32\<close> is written over the bits: five bits a character, most significant first, the last group filled with
  zeros and no padding character.  Reading it back drops line ends, refuses every character outside the alphabet and gives
  as many whole bytes as the groups of eight characters hold.
\<close>

section \<open>Base 32\<close>

definition peerIDPrefix :: bytes where "peerIDPrefix = bytes_of ''b2''"

definition base32Alphabet :: bytes where "base32Alphabet = bytes_of ''abcdefghijklmnopqrstuvwxyz234567''"

definition bitsOf :: "nat \<Rightarrow> 'a::semiring_bits \<Rightarrow> bool list" where
  "bitsOf n w = map (bit w) (rev [0..<n])"

definition ofBits :: "bool list \<Rightarrow> 'a::comm_semiring_1" where
  "ofBits bs = horner_sum of_bool 2 (rev bs)"

fun encodeBits :: "bool list \<Rightarrow> bytes" where
  "encodeBits bs =
     (if bs = [] then []
      else base32Alphabet ! ofBits (take 5 bs @ replicate (5 - length bs) False) # encodeBits (drop 5 bs))"

declare encodeBits.simps [simp del]

definition EncodeToString :: "bytes \<Rightarrow> bytes" where
  "EncodeToString bs = encodeBits (concat (map (bitsOf 8) bs))"

definition base32Digit :: "byte \<Rightarrow> nat option" where
  "base32Digit c = List.find (\<lambda>i. base32Alphabet ! i = c) [0..<length base32Alphabet]"

definition decodedLength :: "nat \<Rightarrow> nat" where
  "decodedLength n =
     5 * (n div 8) + (if n mod 8 = 7 then 4 else if n mod 8 = 5 then 3 else if n mod 8 = 4 then 2 else if n mod 8 = 2 then 1 else 0)"

fun bytesOfBits :: "nat \<Rightarrow> bool list \<Rightarrow> bytes" where
  "bytesOfBits 0 bs = []"
| "bytesOfBits (Suc n) bs = ofBits (take 8 bs) # bytesOfBits n (drop 8 bs)"

definition DecodeString :: "bytes \<Rightarrow> bytes option" where
  "DecodeString value =
     (case those (map base32Digit (filter (\<lambda>c. c \<noteq> 10 \<and> c \<noteq> 13) value)) of
        None \<Rightarrow> None
      | Some digits \<Rightarrow> Some (bytesOfBits (decodedLength (length digits)) (concat (map (bitsOf 5) digits))))"

section \<open>Peer identifiers\<close>

definition PeerIDString :: "PeerID \<Rightarrow> bytes" where
  "PeerIDString peerID = peerIDPrefix @ EncodeToString (put_be 16 peerID)"

definition ParsePeerID :: "bytes \<Rightarrow> PeerID result" where
  "ParsePeerID value =
     (if length value < length peerIDPrefix \<or> take (length peerIDPrefix) value \<noteq> peerIDPrefix then fail ''invalid peer ID prefix''
      else
        case DecodeString (drop (length peerIDPrefix) value) of
          None \<Rightarrow> fail ''invalid peer ID''
        | Some decoded \<Rightarrow>
            if length decoded \<noteq> 16 then fail ''invalid peer ID''
            else
              let peerID = get_be decoded
              in if IsZero peerID then fail ''invalid peer ID''
                 else if PeerIDString peerID \<noteq> value then fail ''non-canonical peer ID''
                 else Inr peerID)"

definition MarshalText :: "PeerID \<Rightarrow> bytes result" where
  "MarshalText peerID = Inr (PeerIDString peerID)"

definition UnmarshalText :: "bytes \<Rightarrow> PeerID \<Rightarrow> error option \<times> PeerID" where
  "UnmarshalText text peerID =
     (case ParsePeerID text of Inl err \<Rightarrow> (Some err, peerID) | Inr parsed \<Rightarrow> (None, parsed))"

text \<open>\<open>New\<close> on the results of \<open>rand.Read\<close>; \<open>None\<close> when it still waits for one that is not zero.\<close>

fun newPeerID :: "(error + PeerID) list \<Rightarrow> PeerID result option" where
  "newPeerID [] = None"
| "newPeerID (Inl err # draws) = Some (Inl (wrap ''generate peer ID: '' err))"
| "newPeerID (Inr peerID # draws) = (if IsZero peerID then newPeerID draws else Some (Inr peerID))"

section \<open>What is written is read back\<close>

lemma length_bitsOf [simp]: "length (bitsOf n w) = n"
  by (simp add: bitsOf_def)

lemma ofBits_bitsOf_byte: "ofBits (bitsOf 8 (b :: byte)) = b"
  by (simp add: ofBits_def bitsOf_def rev_map horner_sum_bit_eq_take_bit take_bit_word_eq_self)

lemma bitsOf_ofBits: "length bs = 5 \<Longrightarrow> bitsOf 5 (ofBits bs :: nat) = bs"
  by (intro nth_equalityI) (auto simp: bitsOf_def ofBits_def bit_horner_sum_bit_iff rev_nth)

lemma ofBits_less: "length bs = 5 \<Longrightarrow> (ofBits bs :: nat) < 32"
  using horner_sum_of_bool_2_less [of "rev bs", where ?'a = nat] by (simp add: ofBits_def)

lemma length_alphabet [simp]: "length base32Alphabet = 32"
  by (simp add: base32Alphabet_def bytes_of_def)

lemma alphabet_distinct: "distinct base32Alphabet"
  by code_simp

lemma alphabet_no_line_end: "10 \<notin> set base32Alphabet" "13 \<notin> set base32Alphabet"
  by code_simp+

lemma base32Digit_alphabet: "d < 32 \<Longrightarrow> base32Digit (base32Alphabet ! d) = Some d"
  by (auto simp: base32Digit_def find_Some_iff nth_eq_iff_index_eq [OF alphabet_distinct])

lemma digits_of_bits:
  "\<exists>ds. encodeBits bs = map ((!) base32Alphabet) ds \<and> (\<forall>d \<in> set ds. d < 32) \<and> length ds = (length bs + 4) div 5 \<and>
        (\<exists>n. concat (map (bitsOf 5) ds) = bs @ replicate n False)"
proof (induction bs rule: encodeBits.induct)
  case (1 bs)
  show ?case
  proof (cases "bs = []")
    case False
    define group where "group = take 5 bs @ replicate (5 - length bs) False"
    have group: "length group = 5" by (simp add: group_def)
    from 1 [OF False] obtain ds n where ds: "encodeBits (drop 5 bs) = map ((!) base32Alphabet) ds" "\<forall>d \<in> set ds. d < 32"
        "length ds = (length (drop 5 bs) + 4) div 5" "concat (map (bitsOf 5) ds) = drop 5 bs @ replicate n False" by blast
    have "concat (map (bitsOf 5) (ofBits group # ds)) = group @ drop 5 bs @ replicate n False"
      by (simp add: ds(4) bitsOf_ofBits group)
    also have "\<exists>k. \<dots> = bs @ replicate k False"
      by (cases "length bs \<le> 5") (auto simp: group_def replicate_add [symmetric] intro: exI [of _ n])
    finally have "\<exists>k. concat (map (bitsOf 5) (ofBits group # ds)) = bs @ replicate k False" .
    moreover have "Suc ((length (drop 5 bs) + 4) div 5) = (length bs + 4) div 5" 
    proof -
      have "Suc ((m - 5 + 4) div 5) = (m + 4) div 5" if "0 < m" for m :: nat
        using that by (cases "5 \<le> m") (auto simp: le_Suc_ex add.commute dest!: le_Suc_ex)
      then show ?thesis using False by simp
    qed
    ultimately show ?thesis using ds(1-3) False
      by (intro exI [of _ "ofBits group # ds"]) (simp add: encodeBits.simps [of bs] ofBits_less group group_def [symmetric])
  qed (simp add: encodeBits.simps)
qed

lemma bytesOfBits_bits: "bytesOfBits (length bs) (concat (map (bitsOf 8) bs) @ rest) = bs"
  by (induction bs) (simp_all add: ofBits_bitsOf_byte)

lemma length_bits: "length (concat (map (bitsOf k) xs)) = k * length xs"
  by (induction xs) simp_all

lemma DecodeString_EncodeToString: "length bs = 16 \<Longrightarrow> DecodeString (EncodeToString bs) = Some bs"
proof -
  assume bs: "length bs = 16"
  define B where "B = concat (map (bitsOf 8 :: byte \<Rightarrow> bool list) bs)"
  have len: "length B = 128" unfolding B_def length_bits by (simp add: bs)
  from digits_of_bits [of B] obtain ds n where
    ds: "encodeBits B = map ((!) base32Alphabet) ds" "\<forall>d \<in> set ds. d < 32" "length ds = (length B + 4) div 5"
    and bits: "concat (map (bitsOf 5) ds) = B @ replicate n False"
    by blast
  have encoded: "EncodeToString bs = map ((!) base32Alphabet) ds" by (simp add: EncodeToString_def B_def [symmetric] ds(1))
  have kept: "filter (\<lambda>c. c \<noteq> 10 \<and> c \<noteq> 13) (map ((!) base32Alphabet) ds) = map ((!) base32Alphabet) ds"
  proof (rule filter_True, rule ballI)
    fix c assume "c \<in> set (map ((!) base32Alphabet) ds)"
    then have "c \<in> set base32Alphabet" using ds(2) by auto
    then show "c \<noteq> 10 \<and> c \<noteq> 13" using alphabet_no_line_end by metis
  qed
  have "map base32Digit (map ((!) base32Alphabet) ds) = map Some ds"
    using ds(2) by (simp add: base32Digit_alphabet)
  moreover have "those (map Some ds) = Some ds" by (induction ds) auto
  moreover have "decodedLength (length ds) = length bs" by (simp add: ds(3) len bs decodedLength_def)
  ultimately show ?thesis by (simp add: DecodeString_def encoded kept bits B_def bytesOfBits_bits del: map_map)
qed

interpretation ident: canonical_codec "\<lambda>peerID. peerID \<noteq> 0" MarshalText ParsePeerID
proof
  fix x :: PeerID and b
  show "x \<noteq> 0 \<Longrightarrow> \<exists>b. MarshalText x = Inr b" by (simp add: MarshalText_def)
  show "x \<noteq> 0 \<Longrightarrow> MarshalText x = Inr b \<Longrightarrow> ParsePeerID b = Inr x"
    by (auto simp: MarshalText_def ParsePeerID_def PeerIDString_def DecodeString_EncodeToString)
  show "ParsePeerID b = Inr x \<Longrightarrow> x \<noteq> 0"
    by (auto simp: ParsePeerID_def Let_def split: if_splits option.splits)
  show "ParsePeerID b = Inr x \<Longrightarrow> MarshalText x = Inr b"
    by (auto simp: MarshalText_def ParsePeerID_def Let_def split: if_splits option.splits)
qed

text \<open>C37: a text is accepted as a peer identifier exactly when it is the one text of an identifier that is not zero;
  everything else, line ends, other letters and stray bits in the last character included, is refused.\<close>

theorem peer_id_text: "ParsePeerID v = Inr peerID \<longleftrightarrow> peerID \<noteq> 0 \<and> v = PeerIDString peerID"
  using ident.dec_iff_enc [of peerID v] ident.dec_valid [of v peerID] by (auto simp: MarshalText_def)

lemma newPeerID_nonzero: "newPeerID draws = Some (Inr peerID) \<Longrightarrow> peerID \<noteq> 0"
  by (induction draws rule: newPeerID.induct) (auto split: if_splits)

end
