(* ===== verification/AudioQueue.thy ===== *)
theory AudioQueue
  imports Prelude
begin

text \<open>
  The frame queue between the audio callback and a worker, \<open>internal/audio/frame_queue.go\<close>: slots in a ring, a counter
  written by the consumer and one written by the producer.  Samples are of any type with a zero.  The last section lets
  producer and consumer run beside each other, one atomic access at a time.
\<close>

section \<open>Frames\<close>

definition SampleRate :: nat where [simp]: "SampleRate = 48000"
definition FrameDuration :: nat where [simp]: "FrameDuration = 10"
definition FrameSamples :: nat where "FrameSamples = SampleRate * FrameDuration div 1000"

lemma FrameSamples_pos [simp]: "0 < FrameSamples" "FrameSamples \<noteq> 0"
  by (simp_all add: FrameSamples_def)

record 's pcmFrame =
  pfSamples :: "'s list"
  pfReference :: "'s list"
  pfTimestamp :: uint32
  pfIndex :: uint64
  pfGeneration :: uint64
  pfLocalOnly :: bool
  pfMuted :: bool
  pfReferenceValid :: bool

definition noFrame :: "('s::zero) pcmFrame" where
  "noFrame = \<lparr>pfSamples = replicate FrameSamples 0, pfReference = replicate FrameSamples 0, pfTimestamp = 0, pfIndex = 0,
     pfGeneration = 0, pfLocalOnly = False, pfMuted = False, pfReferenceValid = False\<rparr>"

section \<open>The queue\<close>

record 'f frameQueue =
  fqFrames :: "'f list"
  fqRead :: uint64
  fqWrite :: uint64

type_synonym 's pcmFrameQueue = "'s pcmFrame frameQueue"

definition newPCMFrameQueue :: "nat \<Rightarrow> ('s::zero) pcmFrameQueue" where
  "newPCMFrameQueue capacity = \<lparr>fqFrames = replicate capacity noFrame, fqRead = 0, fqWrite = 0\<rparr>"

definition slotOf :: "'f frameQueue \<Rightarrow> uint64 \<Rightarrow> nat" where
  "slotOf q counter = unat (counter mod of_nat (length (fqFrames q)))"

text \<open>A slot is handed out by its index.\<close>

definition AcquireWrite :: "'f frameQueue \<Rightarrow> nat option" where
  "AcquireWrite q =
     (if fqWrite q - fqRead q \<ge> of_nat (length (fqFrames q)) then None else Some (slotOf q (fqWrite q)))"

definition CommitWrite :: "'f frameQueue \<Rightarrow> 'f frameQueue" where
  "CommitWrite q = q\<lparr>fqWrite := fqWrite q + 1\<rparr>"

definition AcquireRead :: "'f frameQueue \<Rightarrow> nat option" where
  "AcquireRead q = (if fqRead q = fqWrite q then None else Some (slotOf q (fqRead q)))"

definition ReleaseRead :: "'f frameQueue \<Rightarrow> 'f frameQueue" where
  "ReleaseRead q = q\<lparr>fqRead := fqRead q + 1\<rparr>"

definition slot :: "'f frameQueue \<Rightarrow> nat \<Rightarrow> 'f" where
  "slot q i = fqFrames q ! i"

definition putSlot :: "nat \<Rightarrow> 'f \<Rightarrow> 'f frameQueue \<Rightarrow> 'f frameQueue" where
  "putSlot i f q = q\<lparr>fqFrames := (fqFrames q)[i := f]\<rparr>"

section \<open>A queue of frames\<close>

text \<open>What users of the queue rely on, in terms of its contents.\<close>

locale frame_queue =
  fixes invar :: "'q \<Rightarrow> bool" and contents :: "'q \<Rightarrow> 'f list" and room :: "'q \<Rightarrow> nat option" and head :: "'q \<Rightarrow> nat option"
    and at :: "'q \<Rightarrow> nat \<Rightarrow> 'f" and put :: "nat \<Rightarrow> 'f \<Rightarrow> 'q \<Rightarrow> 'q" and commit :: "'q \<Rightarrow> 'q" and release :: "'q \<Rightarrow> 'q"
  assumes put_room: "invar q \<Longrightarrow> room q = Some i \<Longrightarrow>
      invar (put i f q) \<and> contents (put i f q) = contents q \<and> room (put i f q) = Some i \<and> at (put i f q) i = f"
    and commit_room: "invar q \<Longrightarrow> room q = Some i \<Longrightarrow> invar (commit q) \<and> contents (commit q) = contents q @ [at q i]"
    and head_None: "invar q \<Longrightarrow> head q = None \<longleftrightarrow> contents q = []"
    and head_Some: "invar q \<Longrightarrow> head q = Some i \<Longrightarrow> at q i = hd (contents q)"
    and release_head: "invar q \<Longrightarrow> head q = Some i \<Longrightarrow> invar (release q) \<and> contents (release q) = tl (contents q)"
    and release_room: "invar q \<Longrightarrow> head q = Some i \<Longrightarrow> room q = Some j \<Longrightarrow> room (release q) = Some j \<and> at (release q) j = at q j"
begin

lemma push: "invar q \<Longrightarrow> room q = Some i \<Longrightarrow> invar (commit (put i f q)) \<and> contents (commit (put i f q)) = contents q @ [f]"
  using put_room commit_room by metis

lemma head_present: "invar q \<Longrightarrow> head q = Some i \<Longrightarrow> contents q = at q i # tl (contents q)"
  using head_None head_Some by (metis list.collapse option.distinct(1))

lemma pop: "invar q \<Longrightarrow> head q = Some i \<Longrightarrow> contents q = at q i # contents (release q)"
  using head_present release_head by metis

text \<open>A pending frame survives what the consumer does meanwhile.\<close>

lemma push_after_release:
  "invar q \<Longrightarrow> head q = Some i \<Longrightarrow> room q = Some j \<Longrightarrow>
   contents (commit (release q)) = tl (contents q) @ [at q j]"
  using release_room release_head commit_room by metis

end

section \<open>The ring is such a queue\<close>

definition ring_ok :: "nat \<Rightarrow> bool" where
  "ring_ok capacity \<longleftrightarrow> 0 < capacity \<and> capacity < 2 ^ 64 \<and> capacity dvd 2 ^ 64"

definition queue_ok :: "'f frameQueue \<Rightarrow> bool" where
  "queue_ok q \<longleftrightarrow> ring_ok (length (fqFrames q)) \<and> unat (fqWrite q - fqRead q) \<le> length (fqFrames q)"

definition queued :: "'f frameQueue \<Rightarrow> 'f list" where
  "queued q = map (\<lambda>k. slot q (slotOf q (fqRead q + of_nat k))) [0..<unat (fqWrite q - fqRead q)]"

lemma slotOf_nat: "ring_ok (length (fqFrames q)) \<Longrightarrow> slotOf q c = unat c mod length (fqFrames q)"
  by (simp add: slotOf_def ring_ok_def unat_mod unat_of_nat)

lemma slotOf_add:
  assumes "ring_ok (length (fqFrames q))"
  shows "slotOf q (c + of_nat k) = (unat c + k) mod length (fqFrames q)"
proof -
  have "unat (c + of_nat k) mod length (fqFrames q) = (unat c + k) mod 2 ^ 64 mod length (fqFrames q)"
    by (simp add: unat_word_ariths unat_of_nat mod_simps)
  then show ?thesis using assms by (simp add: slotOf_nat ring_ok_def mod_mod_cancel)
qed

lemma slotOf_less: "ring_ok (length (fqFrames q)) \<Longrightarrow> slotOf q c < length (fqFrames q)"
  by (simp add: slotOf_nat ring_ok_def)

lemma slotOf_distinct:
  assumes "ring_ok (length (fqFrames q))" and "k < l" and "l < k + length (fqFrames q)"
  shows "slotOf q (c + of_nat k) \<noteq> slotOf q (c + of_nat l)"
proof
  assume "slotOf q (c + of_nat k) = slotOf q (c + of_nat l)"
  then have "(unat c + k) mod length (fqFrames q) = (unat c + l) mod length (fqFrames q)" using assms by (simp add: slotOf_add)
  then have "length (fqFrames q) dvd (unat c + l) - (unat c + k)" using assms by (intro mod_eq_dvd_iff_nat [THEN iffD1]) auto
  then show False using assms by (auto dest: dvd_imp_le)
qed

lemma unat_counter: "w = of_nat n \<Longrightarrow> n < 2 ^ 64 \<Longrightarrow> unat (w :: uint64) = n"
  by (simp add: unat_of_nat)

lemma write_counter: "fqWrite q = fqRead q + of_nat (unat (fqWrite q - fqRead q))"
  by simp

lemma length_queued [simp]: "length (queued q) = unat (fqWrite q - fqRead q)"
  by (simp add: queued_def)

lemma AcquireWrite_iff:
  "ring_ok (length (fqFrames q)) \<Longrightarrow>
   AcquireWrite q = (if length (queued q) \<ge> length (fqFrames q) then None else Some (slotOf q (fqWrite q)))"
  by (simp add: AcquireWrite_def word_le_nat_alt unat_of_nat ring_ok_def)

lemma AcquireRead_iff: "AcquireRead q = (if queued q = [] then None else Some (slotOf q (fqRead q)))"
proof -
  have "queued q = [] \<longleftrightarrow> unat (fqWrite q - fqRead q) = 0" by (simp add: queued_def)
  also have "\<dots> \<longleftrightarrow> fqRead q = fqWrite q" by (metis eq_iff_diff_eq_0 unat_0_iff)
  finally show ?thesis by (simp add: AcquireRead_def)
qed

text \<open>The slot to write next is none of those that hold a frame.\<close>

lemma write_slot_fresh:
  assumes "queue_ok q" and "AcquireWrite q = Some i" and "k < length (queued q)"
  shows "slotOf q (fqRead q + of_nat k) \<noteq> i"
proof -
  have ok: "ring_ok (length (fqFrames q))" using assms by (simp add: queue_ok_def)
  with assms have "length (queued q) < length (fqFrames q)" "i = slotOf q (fqRead q + of_nat (length (queued q)))"
    by (auto simp: AcquireWrite_iff split: if_splits)
  then show ?thesis using slotOf_distinct [OF ok assms(3), of "fqRead q"] by simp
qed

lemma putSlot_simps [simp]:
  "fqRead (putSlot i f q) = fqRead q" "fqWrite (putSlot i f q) = fqWrite q" "length (fqFrames (putSlot i f q)) = length (fqFrames q)"
  "slotOf (putSlot i f q) c = slotOf q c" "queue_ok (putSlot i f q) = queue_ok q" "AcquireWrite (putSlot i f q) = AcquireWrite q"
  by (simp_all add: putSlot_def slotOf_def queue_ok_def AcquireWrite_def)

lemma slot_putSlot: "slot (putSlot i f q) j = (if i = j \<and> j < length (fqFrames q) then f else slot q j)"
  by (cases "i < length (fqFrames q)") (auto simp: slot_def putSlot_def nth_list_update list_update_beyond)

lemma queued_putSlot: "queue_ok q \<Longrightarrow> AcquireWrite q = Some i \<Longrightarrow> queued (putSlot i f q) = queued q"
  unfolding queued_def putSlot_simps using write_slot_fresh [of q i] by (intro map_cong refl) (auto simp: slot_putSlot)

lemma counter_simps [simp]:
  "fqRead (CommitWrite q) = fqRead q" "fqWrite (CommitWrite q) = fqWrite q + 1" "fqFrames (CommitWrite q) = fqFrames q"
  "slot (CommitWrite q) = slot q" "slotOf (CommitWrite q) = slotOf q"
  "fqRead (ReleaseRead q) = fqRead q + 1" "fqWrite (ReleaseRead q) = fqWrite q" "fqFrames (ReleaseRead q) = fqFrames q"
  "slot (ReleaseRead q) = slot q" "slotOf (ReleaseRead q) = slotOf q"
  by (auto simp: CommitWrite_def ReleaseRead_def slot_def slotOf_def)

lemma commit_keeps:
  assumes "queue_ok q" and "AcquireWrite q = Some i"
  shows "queue_ok (CommitWrite q)" and "queued (CommitWrite q) = queued q @ [slot q i]"
proof -
  have ok: "ring_ok (length (fqFrames q))" using assms by (simp add: queue_ok_def)
  let ?n = "unat (fqWrite q - fqRead q)"
  have n: "?n < length (fqFrames q)" "i = slotOf q (fqWrite q)"
    using assms AcquireWrite_iff [OF ok] by (auto split: if_splits)
  have "fqWrite q + 1 - fqRead q = of_nat (?n + 1)" by (simp add: algebra_simps)
  moreover have "?n + 1 < 2 ^ 64" using n(1) ok unfolding ring_ok_def by linarith
  ultimately have next_n: "unat (fqWrite q + 1 - fqRead q) = ?n + 1" by (rule unat_counter)
  show "queue_ok (CommitWrite q)" using ok n next_n by (simp add: queue_ok_def)
  have "queued (CommitWrite q) = map (\<lambda>k. slot q (slotOf q (fqRead q + of_nat k))) [0..<?n + 1]"
    by (simp only: queued_def counter_simps next_n)
  then show "queued (CommitWrite q) = queued q @ [slot q i]" using n(2) by (simp add: queued_def)
qed

lemma release_keeps:
  assumes "queue_ok q" and "AcquireRead q = Some i"
  shows "queue_ok (ReleaseRead q)" and "queued (ReleaseRead q) = tl (queued q)" and "slot q i = hd (queued q)"
proof -
  let ?n = "unat (fqWrite q - fqRead q)"
  have i: "i = slotOf q (fqRead q)" "queued q \<noteq> []" using assms by (auto simp: AcquireRead_iff split: if_splits)
  then obtain m where m: "?n = Suc m" by (metis length_queued length_greater_0_conv gr0_conv_Suc)
  have "fqWrite q - (fqRead q + 1) = of_nat m"
  proof -
    have "fqWrite q - fqRead q = of_nat (Suc m)" unfolding m [symmetric] by simp
    then show ?thesis by (simp add: algebra_simps)
  qed
  moreover have "m < 2 ^ 64" using m assms unfolding queue_ok_def ring_ok_def by linarith
  ultimately have rest: "unat (fqWrite q - (fqRead q + 1)) = m" by (rule unat_counter)
  show "queue_ok (ReleaseRead q)" using assms m rest by (simp add: queue_ok_def)
  have "queued (ReleaseRead q) = map (\<lambda>k. slot q (slotOf q (fqRead q + of_nat (Suc k)))) [0..<m]"
    by (simp only: queued_def counter_simps rest of_nat_Suc add.assoc)
  moreover have "queued q = map (\<lambda>k. slot q (slotOf q (fqRead q + of_nat k))) (0 # map Suc [0..<m])"
    unfolding queued_def m by (metis upt_conv_Cons map_Suc_upt zero_less_Suc)
  ultimately show "queued (ReleaseRead q) = tl (queued q)" "slot q i = hd (queued q)"
    using i by (simp_all add: comp_def)
qed

lemma release_room_keeps:
  assumes "queue_ok q" and "AcquireRead q = Some i" and "AcquireWrite q = Some j"
  shows "AcquireWrite (ReleaseRead q) = Some j"
proof -
  have "length (queued (ReleaseRead q)) \<le> length (queued q)" using release_keeps [OF assms(1,2)] by simp
  moreover have "ring_ok (length (fqFrames q))" "ring_ok (length (fqFrames (ReleaseRead q)))"
    using assms by (simp_all add: queue_ok_def ReleaseRead_def)
  ultimately show ?thesis using assms AcquireWrite_iff [of q] AcquireWrite_iff [of "ReleaseRead q"]
    by (auto simp: ReleaseRead_def slotOf_def split: if_splits)
qed

interpretation pcm: frame_queue queue_ok queued AcquireWrite AcquireRead slot putSlot CommitWrite ReleaseRead
proof
  fix q :: "'f frameQueue" and i j f
  assume q: "queue_ok q"
  show "AcquireRead q = None \<longleftrightarrow> queued q = []" by (simp add: AcquireRead_iff)
  show "slot q i = hd (queued q)" if "AcquireRead q = Some i" using release_keeps [OF q that] by simp
  show "queue_ok (ReleaseRead q) \<and> queued (ReleaseRead q) = tl (queued q)" if "AcquireRead q = Some i"
    using release_keeps [OF q that] by simp
  show "AcquireWrite (ReleaseRead q) = Some j \<and> slot (ReleaseRead q) j = slot q j"
    if "AcquireRead q = Some i" "AcquireWrite q = Some j"
    using release_room_keeps [OF q that] by (simp add: slot_def ReleaseRead_def)
  assume w: "AcquireWrite q = Some i"
  then have "i < length (fqFrames q)" using q slotOf_less by (auto simp: AcquireWrite_def queue_ok_def split: if_splits)
  then show "queue_ok (putSlot i f q) \<and> queued (putSlot i f q) = queued q \<and> AcquireWrite (putSlot i f q) = Some i \<and>
      slot (putSlot i f q) i = f"
    using q w by (simp add: queued_putSlot slot_putSlot)
  show "queue_ok (CommitWrite q) \<and> queued (CommitWrite q) = queued q @ [slot q i]" using commit_keeps [OF q w] by simp
qed

lemma new_queue_ok:
  "ring_ok capacity \<Longrightarrow> queue_ok (newPCMFrameQueue capacity :: ('s::zero) pcmFrameQueue) \<and>
   queued (newPCMFrameQueue capacity :: 's pcmFrameQueue) = []"
  by (simp add: queue_ok_def newPCMFrameQueue_def queued_def)

section \<open>Producer and consumer beside each other\<close>

text \<open>
  One atomic access per step.  \<open>AcquireWrite\<close> loads the consumer's counter first, so what it compares may be old;
  \<open>AcquireRead\<close> loads its own counter first.  A slot held is written or read at any time until it is given up.
\<close>

datatype producer = ProducerIdle | ReadLoaded uint64 | Writing nat
datatype consumer = ConsumerIdle | OwnLoaded uint64 | Reading nat

record 'f shared =
  shQueue :: "'f frameQueue"
  shProducer :: producer
  shConsumer :: consumer
  shPushed :: "'f list"
  shPopped :: "'f list"

definition startShared :: "'f frameQueue \<Rightarrow> 'f shared" where
  "startShared q = \<lparr>shQueue = q, shProducer = ProducerIdle, shConsumer = ConsumerIdle, shPushed = [], shPopped = []\<rparr>"

inductive sharedStep :: "'f shared \<Rightarrow> 'f shared \<Rightarrow> bool" where
  loadRead: "shProducer s = ProducerIdle \<Longrightarrow> sharedStep s (s\<lparr>shProducer := ReadLoaded (fqRead (shQueue s))\<rparr>)"
| full: "shProducer s = ReadLoaded r \<Longrightarrow> fqWrite (shQueue s) - r \<ge> of_nat (length (fqFrames (shQueue s))) \<Longrightarrow>
    sharedStep s (s\<lparr>shProducer := ProducerIdle\<rparr>)"
| takeSlot: "shProducer s = ReadLoaded r \<Longrightarrow> \<not> fqWrite (shQueue s) - r \<ge> of_nat (length (fqFrames (shQueue s))) \<Longrightarrow>
    sharedStep s (s\<lparr>shProducer := Writing (slotOf (shQueue s) (fqWrite (shQueue s)))\<rparr>)"
| writeSlot: "shProducer s = Writing i \<Longrightarrow> sharedStep s (s\<lparr>shQueue := putSlot i f (shQueue s)\<rparr>)"
| commitSlot: "shProducer s = Writing i \<Longrightarrow>
    sharedStep s (s\<lparr>shQueue := CommitWrite (shQueue s), shProducer := ProducerIdle, shPushed := shPushed s @ [slot (shQueue s) i]\<rparr>)"
| loadOwn: "shConsumer s = ConsumerIdle \<Longrightarrow> sharedStep s (s\<lparr>shConsumer := OwnLoaded (fqRead (shQueue s))\<rparr>)"
| nothing: "shConsumer s = OwnLoaded r \<Longrightarrow> r = fqWrite (shQueue s) \<Longrightarrow> sharedStep s (s\<lparr>shConsumer := ConsumerIdle\<rparr>)"
| readSlot: "shConsumer s = OwnLoaded r \<Longrightarrow> r \<noteq> fqWrite (shQueue s) \<Longrightarrow>
    sharedStep s (s\<lparr>shConsumer := Reading (slotOf (shQueue s) r)\<rparr>)"
| releaseSlot: "shConsumer s = Reading i \<Longrightarrow>
    sharedStep s (s\<lparr>shQueue := ReleaseRead (shQueue s), shConsumer := ConsumerIdle, shPopped := shPopped s @ [slot (shQueue s) i]\<rparr>)"

definition producer_ok :: "'f shared \<Rightarrow> bool" where
  "producer_ok s \<longleftrightarrow>
     (case shProducer s of
        ProducerIdle \<Rightarrow> True
      | ReadLoaded r \<Rightarrow> length (queued (shQueue s)) \<le> unat (fqWrite (shQueue s) - r)
      | Writing i \<Rightarrow> AcquireWrite (shQueue s) = Some i)"

definition consumer_ok :: "'f shared \<Rightarrow> bool" where
  "consumer_ok s \<longleftrightarrow>
     (case shConsumer s of
        ConsumerIdle \<Rightarrow> True
      | OwnLoaded r \<Rightarrow> r = fqRead (shQueue s)
      | Reading i \<Rightarrow> AcquireRead (shQueue s) = Some i)"

definition shared_inv :: "'f shared \<Rightarrow> bool" where
  "shared_inv s \<longleftrightarrow> queue_ok (shQueue s) \<and> shPushed s = shPopped s @ queued (shQueue s) \<and> producer_ok s \<and> consumer_ok s"

lemma AcquireRead_Commit:
  "queue_ok q \<Longrightarrow> AcquireWrite q = Some j \<Longrightarrow> AcquireRead q = Some i \<Longrightarrow> AcquireRead (CommitWrite q) = Some i"
  by (auto simp: AcquireRead_iff commit_keeps split: if_splits)

lemma AcquireRead_put [simp]: "AcquireRead (putSlot i f q) = AcquireRead q"
  by (simp add: AcquireRead_def)

lemma shared_simps:
  "producer_ok (s\<lparr>shProducer := ProducerIdle\<rparr>)" "consumer_ok (s\<lparr>shConsumer := ConsumerIdle\<rparr>)"
  "producer_ok (s\<lparr>shConsumer := c\<rparr>) = producer_ok s" "consumer_ok (s\<lparr>shProducer := p\<rparr>) = consumer_ok s"
  by (simp_all add: producer_ok_def consumer_ok_def split: producer.split consumer.split)

lemma sharedStep_inv: "sharedStep s s' \<Longrightarrow> shared_inv s \<Longrightarrow> shared_inv s'"
proof (induction rule: sharedStep.induct)
  case (takeSlot s r)
  then have "length (queued (shQueue s)) < length (fqFrames (shQueue s))"
    by (auto simp: shared_inv_def producer_ok_def word_le_nat_alt unat_of_nat queue_ok_def ring_ok_def)
  with takeSlot show ?case
    by (auto simp: shared_inv_def shared_simps producer_ok_def AcquireWrite_iff queue_ok_def)
next
  case (writeSlot s i f)
  then have "AcquireWrite (shQueue s) = Some i" by (simp add: shared_inv_def producer_ok_def)
  with writeSlot show ?case
    by (auto simp: shared_inv_def queued_putSlot producer_ok_def consumer_ok_def split: consumer.splits)
next
  case (commitSlot s i)
  then have w: "queue_ok (shQueue s)" "AcquireWrite (shQueue s) = Some i" by (simp_all add: shared_inv_def producer_ok_def)
  with commitSlot show ?case using commit_keeps [OF w] AcquireRead_Commit [OF w]
    by (auto simp: shared_inv_def producer_ok_def consumer_ok_def split: consumer.splits)
next
  case (readSlot s r)
  then show ?case by (auto simp: shared_inv_def shared_simps consumer_ok_def AcquireRead_def)
next
  case (releaseSlot s i)
  then have r: "queue_ok (shQueue s)" "AcquireRead (shQueue s) = Some i" by (simp_all add: shared_inv_def consumer_ok_def)
  have p: "producer_ok s" using releaseSlot by (simp add: shared_inv_def)
  show ?case using releaseSlot p pcm.pop [OF r] release_keeps(1) [OF r] release_room_keeps [OF r]
    by (auto simp: shared_inv_def producer_ok_def consumer_ok_def split: producer.splits)
qed (auto simp: shared_inv_def producer_ok_def consumer_ok_def split: producer.splits consumer.splits)

lemma shared_reach:
  "sharedStep\<^sup>*\<^sup>* (startShared (newPCMFrameQueue capacity)) s \<Longrightarrow> ring_ok capacity \<Longrightarrow> shared_inv s"
proof (induction rule: rtranclp_induct)
  case base
  then show ?case by (simp add: new_queue_ok shared_inv_def startShared_def producer_ok_def consumer_ok_def)
qed (auto intro: sharedStep_inv)

lemma sharedStep_capacity: "sharedStep s s' \<Longrightarrow> length (fqFrames (shQueue s')) = length (fqFrames (shQueue s))"
  by (induction rule: sharedStep.induct) simp_all

text \<open>C31: whatever way the callback and the worker interleave their accesses, the frames read are those committed, whole and in
  order, the rest waits in the queue, at most as many as it has slots, and no slot is ever held by both sides; this holds
  for counters that wrap around, when the number of slots divides \<open>2^64\<close>.\<close>

theorem audio_queue_fifo:
  assumes "ring_ok capacity" and "sharedStep\<^sup>*\<^sup>* (startShared (newPCMFrameQueue capacity)) s"
  shows "shPushed s = shPopped s @ queued (shQueue s) \<and> length (queued (shQueue s)) \<le> capacity \<and>
    (shProducer s = Writing i \<longrightarrow> shConsumer s = Reading j \<longrightarrow> i \<noteq> j)"
proof -
  have inv: "shared_inv s" using shared_reach assms by blast
  have "length (fqFrames (shQueue s)) = capacity"
    using assms(2) by (induction rule: rtranclp_induct) (simp_all add: sharedStep_capacity startShared_def newPCMFrameQueue_def)
  moreover have "i \<noteq> j" if "shProducer s = Writing i" "shConsumer s = Reading j"
    using inv that write_slot_fresh [of "shQueue s" i 0]
    by (auto simp: shared_inv_def producer_ok_def consumer_ok_def AcquireRead_iff simp del: length_queued split: if_splits)
  ultimately show ?thesis using inv by (auto simp: shared_inv_def queue_ok_def)
qed

theorem audio_queue_fifo_witness:
  "\<exists>(s :: nat pcmFrame shared) f. shPushed s = [f] \<and> shPopped s = [f] \<and> queued (shQueue s) = []"
proof -
  let ?q = "newPCMFrameQueue 2 :: nat pcmFrameQueue" and ?f = "noFrame\<lparr>pfIndex := 1\<rparr> :: nat pcmFrame"
  define s1 where "s1 = (startShared ?q)\<lparr>shProducer := ReadLoaded 0\<rparr>"
  define s2 where "s2 = s1\<lparr>shProducer := Writing 0\<rparr>"
  define s3 where "s3 = s2\<lparr>shQueue := putSlot 0 ?f ?q\<rparr>"
  define s4 where "s4 = s3\<lparr>shQueue := CommitWrite (putSlot 0 ?f ?q), shProducer := ProducerIdle, shPushed := [?f]\<rparr>"
  define s5 where "s5 = s4\<lparr>shConsumer := OwnLoaded 0\<rparr>"
  define s6 where "s6 = s5\<lparr>shConsumer := Reading 0\<rparr>"
  define s7 where "s7 = s6\<lparr>shQueue := ReleaseRead (CommitWrite (putSlot 0 ?f ?q)), shConsumer := ConsumerIdle, shPopped := [?f]\<rparr>"
  note fields = startShared_def newPCMFrameQueue_def putSlot_def slot_def
  have "sharedStep (startShared ?q) s1" using sharedStep.loadRead [of "startShared ?q"] by (simp add: s1_def fields)
  moreover have "sharedStep s1 s2" using sharedStep.takeSlot [of "s1" 0] by (simp add: s2_def s1_def fields slotOf_def)
  moreover have "sharedStep s2 s3" using sharedStep.writeSlot [of "s2" 0 "?f"] by (simp add: s3_def s1_def s2_def fields)
  moreover have "sharedStep s3 s4" using sharedStep.commitSlot [of "s3" 0] by (simp add: s4_def s1_def s2_def s3_def fields)
  moreover have "sharedStep s4 s5" using sharedStep.loadOwn [of "s4"] by (simp add: s5_def s1_def s2_def s3_def s4_def fields)
  moreover have "sharedStep s5 s6" using sharedStep.readSlot [of "s5" 0] by (simp add: s6_def s1_def s2_def s3_def s4_def s5_def fields slotOf_def)
  moreover have "sharedStep s6 s7" using sharedStep.releaseSlot [of "s6" 0] by (simp add: s7_def s1_def s2_def s3_def s4_def s5_def s6_def fields)
  ultimately have "sharedStep\<^sup>*\<^sup>* (startShared ?q) s7" by (meson converse_rtranclp_into_rtranclp rtranclp.rtrancl_refl)
  moreover have "ring_ok 2" by (simp add: ring_ok_def)
  ultimately have "shPushed s7 = shPopped s7 @ queued (shQueue s7)" using audio_queue_fifo [of 2 s7] by blast
  moreover have "shPushed s7 = [?f]" "shPopped s7 = [?f]" by (simp_all add: s1_def s2_def s3_def s4_def s5_def s6_def s7_def startShared_def)
  ultimately have "shPushed s7 = [?f] \<and> shPopped s7 = [?f] \<and> queued (shQueue s7) = []" by simp
  then show ?thesis by blast
qed

end
