(* ===== verification/AudioCallbacks.thy ===== *)
theory AudioCallbacks
  imports AudioQueue
begin

text \<open>
  The two halves of the audio callback, \<open>internal/audio/callbacks.go\<close>: the assembler cuts what was captured into frames for
  the encoder, the reader plays the frames of the mixer.  Both run on the queue of \<open>AudioQueue\<close>.  A loop over the samples
  of one callback gets one unit of fuel per sample, and every turn takes at least one of them.
\<close>

section \<open>Capture\<close>

definition overwrite :: "nat \<Rightarrow> 'a list \<Rightarrow> 'a list \<Rightarrow> 'a list" where
  "overwrite offset ys xs = take offset xs @ ys @ drop (offset + length ys) xs"

record 's captureAssembler =
  caQueue :: "'s pcmFrameQueue"
  caReady :: bool
  caCurrent :: "nat option"
  caOffset :: nat
  caDrop :: bool
  caSilent :: bool
  caReferenceValid :: bool
  caClock :: uint32

definition newAssembler :: "nat \<Rightarrow> ('s::zero) captureAssembler" where
  "newAssembler capacity = \<lparr>caQueue = newPCMFrameQueue capacity, caReady = False, caCurrent = None, caOffset = 0, caDrop = False,
     caSilent = False, caReferenceValid = False, caClock = 0\<rparr>"

definition updateCurrent :: "('s pcmFrame \<Rightarrow> 's pcmFrame) \<Rightarrow> 's captureAssembler \<Rightarrow> 's captureAssembler" where
  "updateCurrent f a =
     (case caCurrent a of
        None \<Rightarrow> a
      | Some i \<Rightarrow> a\<lparr>caQueue := putSlot i (f (slot (caQueue a) i)) (caQueue a)\<rparr>)"

text \<open>The generation is the one loaded when the frame begins, \<open>None\<close> when there is none to load.\<close>

definition beginFrame :: "uint64 option \<Rightarrow> bool \<Rightarrow> 's captureAssembler \<Rightarrow> 's captureAssembler" where
  "beginFrame generation muted a =
     (if caOffset a = 0 then
        let current = AcquireWrite (caQueue a);
            a = a\<lparr>caCurrent := current, caDrop := (current = None), caSilent := muted, caReferenceValid := True\<rparr>
        in (case generation of None \<Rightarrow> a | Some g \<Rightarrow> updateCurrent (\<lambda>f. f\<lparr>pfGeneration := g\<rparr>) a)
      else a)"

definition noteFlags :: "bool \<Rightarrow> bool \<Rightarrow> 's captureAssembler \<Rightarrow> 's captureAssembler" where
  "noteFlags muted referenceValid a =
     a\<lparr>caSilent := muted \<or> caSilent a, caReferenceValid := referenceValid \<and> caReferenceValid a\<rparr>"

definition copySamples :: "('s::zero) list \<Rightarrow> 's list \<Rightarrow> 's captureAssembler \<Rightarrow> 's captureAssembler" where
  "copySamples samples reference a =
     (if caDrop a then a
      else
        let a = (if caSilent a then a
                 else updateCurrent (\<lambda>f. f\<lparr>pfSamples := overwrite (caOffset a) samples (pfSamples f)\<rparr>) a)
        in updateCurrent (\<lambda>f. f\<lparr>pfReference := overwrite (caOffset a)
             (take (length samples) reference @ replicate (length samples - length reference) 0) (pfReference f)\<rparr>) a)"

definition finishFrame :: "('s::zero) captureAssembler \<Rightarrow> 's captureAssembler \<times> 's pcmFrame option list" where
  "finishFrame a =
     (if caOffset a = FrameSamples then
        let a' = updateCurrent (\<lambda>f. f\<lparr>pfSamples := (if caSilent a then replicate (length (pfSamples f)) 0 else pfSamples f),
                   pfMuted := caSilent a, pfReferenceValid := caReferenceValid a, pfTimestamp := caClock a\<rparr>) a;
            committed = a'\<lparr>caQueue := CommitWrite (caQueue a'), caReady := True\<rparr>
        in if caDrop a then (a\<lparr>caCurrent := None, caOffset := 0\<rparr>, [None])
           else (committed\<lparr>caCurrent := None, caOffset := 0\<rparr>, [map_option (slot (caQueue a')) (caCurrent a)])
      else (a, []))"

text \<open>
  One turn of the loop of \<open>Write\<close> over the next samples of the callback, as many as fit the frame.  Each turn that begins a
  frame loads the generation anew: it is a function of the number of samples that are left then.
\<close>

definition writeChunk :: "uint64 option \<Rightarrow> bool \<Rightarrow> bool \<Rightarrow> ('s::zero) list \<Rightarrow> 's list \<Rightarrow> 's captureAssembler \<Rightarrow>
    's captureAssembler \<times> 's pcmFrame option list" where
  "writeChunk generation muted lengthValid chunk reference a =
     (let a = noteFlags muted (lengthValid \<and> length chunk \<le> length reference) (beginFrame generation muted a);
          a = copySamples chunk reference a
      in finishFrame (a\<lparr>caOffset := caOffset a + length chunk, caClock := caClock a + of_nat (length chunk)\<rparr>))"

fun writeLoop :: "nat \<Rightarrow> (nat \<Rightarrow> uint64 option) \<Rightarrow> bool \<Rightarrow> bool \<Rightarrow> ('s::zero) list \<Rightarrow> 's list \<Rightarrow> 's captureAssembler \<Rightarrow>
    's captureAssembler \<times> 's pcmFrame option list" where
  "writeLoop 0 generation muted lengthValid samples reference a = (a, [])"
| "writeLoop (Suc n) generation muted lengthValid samples reference a =
     (if samples = [] then (a, [])
      else
        let count = min (length samples) (FrameSamples - caOffset a);
            (a, out) = writeChunk (generation (length samples)) muted lengthValid (take count samples) reference a;
            (a, outs) = writeLoop n generation muted lengthValid (drop count samples) (drop count reference) a
        in (a, out @ outs))"

definition assemblerWrite :: "(nat \<Rightarrow> uint64 option) \<Rightarrow> ('s::zero) list \<Rightarrow> 's list \<Rightarrow> bool \<Rightarrow> 's captureAssembler \<Rightarrow>
    's captureAssembler \<times> 's pcmFrame option list" where
  "assemblerWrite generation samples reference muted a =
     writeLoop (length samples) generation muted (length reference = length samples) samples reference a"

section \<open>Playback\<close>

record 's playbackReader =
  prQueue :: "'s pcmFrameQueue"
  prDemand :: uint64
  prWake :: bool
  prCurrent :: "nat option"
  prOffset :: nat
  prIndex :: uint64

definition newPlaybackReader :: "'s pcmFrameQueue \<Rightarrow> uint64 \<Rightarrow> 's playbackReader" where
  "newPlaybackReader q demand = \<lparr>prQueue = q, prDemand = demand, prWake = False, prCurrent = None, prOffset = FrameSamples, prIndex = 0\<rparr>"

text \<open>Frames whose time has passed are given back; one whose time has not come yet stays.  Fuel: the frames queued.\<close>

fun seekFrame :: "nat \<Rightarrow> uint64 \<Rightarrow> 's pcmFrameQueue \<Rightarrow> nat option \<times> 's pcmFrameQueue" where
  "seekFrame n index q =
     (case AcquireRead q of
        None \<Rightarrow> (None, q)
      | Some i \<Rightarrow>
          if pfIndex (slot q i) < index then
            (case n of 0 \<Rightarrow> (None, q) | Suc n \<Rightarrow> seekFrame n index (ReleaseRead q))
          else (if pfIndex (slot q i) = index then Some i else None, q))"

declare seekFrame.simps [simp del]

definition beginPlayback :: "'s playbackReader \<Rightarrow> 's playbackReader" where
  "beginPlayback r =
     (if prOffset r = FrameSamples then
        let (current, q) = seekFrame (length (queued (prQueue r))) (prIndex r) (prQueue r)
        in r\<lparr>prQueue := q, prCurrent := current, prOffset := 0, prDemand := prIndex r + 1, prWake := True\<rparr>
      else r)"

definition playedSamples :: "bool \<Rightarrow> nat \<Rightarrow> ('s::zero) playbackReader \<Rightarrow> 's list" where
  "playedSamples muted count r =
     (case prCurrent r of
        None \<Rightarrow> replicate count 0
      | Some i \<Rightarrow>
          let f = slot (prQueue r) i
          in if \<not> muted \<or> pfLocalOnly f then take count (drop (prOffset r) (pfSamples f)) else replicate count 0)"

definition finishPlayback :: "'s playbackReader \<Rightarrow> 's playbackReader" where
  "finishPlayback r =
     (if prOffset r = FrameSamples then
        (case prCurrent r of
           None \<Rightarrow> r
         | Some i \<Rightarrow> r\<lparr>prQueue := ReleaseRead (prQueue r), prCurrent := None\<rparr>)\<lparr>prIndex := prIndex r + 1\<rparr>
      else r)"

fun readLoop :: "nat \<Rightarrow> bool \<Rightarrow> nat \<Rightarrow> ('s::zero) playbackReader \<Rightarrow> 's list \<times> 's playbackReader" where
  "readLoop 0 muted left r = ([], r)"
| "readLoop (Suc n) muted left r =
     (if left = 0 then ([], r)
      else
        let r = beginPlayback r;
            count = min left (FrameSamples - prOffset r);
            out = playedSamples muted count r;
            (outs, r) = readLoop n muted (left - count) (finishPlayback (r\<lparr>prOffset := prOffset r + count\<rparr>))
        in (out @ outs, r))"

definition readerRead :: "nat \<Rightarrow> bool \<Rightarrow> ('s::zero) playbackReader \<Rightarrow> 's list \<times> 's playbackReader" where
  "readerRead count muted r = readLoop count muted count r"

end
