(* ===== verification/AudioCapture.thy ===== *)
theory AudioCapture
  imports AudioCallbacks
begin

text \<open>
  The frames of the capture callback are the captured samples cut into blocks, in whatever pieces they come, and a block with
  a muted sample leaves as silence.  A history lists the captured samples with whether capture was muted then.
\<close>

section \<open>What a frame holds\<close>

definition frame_ok :: "(('s::zero) \<times> bool) list \<Rightarrow> nat \<Rightarrow> 's pcmFrame option \<Rightarrow> bool" where
  "frame_ok block n out \<longleftrightarrow>
     (case out of
        None \<Rightarrow> True
      | Some f \<Rightarrow> pfMuted f = list_ex snd block \<and>
          pfSamples f = (if list_ex snd block then replicate FrameSamples 0 else map fst block) \<and>
          pfTimestamp f = of_nat (FrameSamples * Suc n))"

definition slots_sized :: "'s pcmFrameQueue \<Rightarrow> bool" where
  "slots_sized q \<longleftrightarrow> list_all (\<lambda>f. length (pfSamples f) = FrameSamples) (fqFrames q)"

definition slot_holds :: "('s \<times> bool) list \<Rightarrow> 's captureAssembler \<Rightarrow> bool" where
  "slot_holds cur a \<longleftrightarrow>
     (\<not> caDrop a \<longrightarrow>
       (\<exists>i. caCurrent a = Some i \<and> AcquireWrite (caQueue a) = Some i \<and>
          (\<not> caSilent a \<longrightarrow> take (length cur) (pfSamples (slot (caQueue a) i)) = map fst cur)))"

definition assembling :: "nat \<Rightarrow> ('s \<times> bool) list \<Rightarrow> 's captureAssembler \<Rightarrow> bool" where
  "assembling n cur a \<longleftrightarrow>
     queue_ok (caQueue a) \<and> slots_sized (caQueue a) \<and> caOffset a = length cur \<and> length cur < FrameSamples \<and>
     caClock a = of_nat (FrameSamples * n + length cur) \<and> (cur \<noteq> [] \<longrightarrow> caSilent a = list_ex snd cur \<and> slot_holds cur a)"

lemma slots_sized_slot: "slots_sized q \<Longrightarrow> i < length (fqFrames q) \<Longrightarrow> length (pfSamples (slot q i)) = FrameSamples"
  by (simp add: slots_sized_def slot_def list_all_length)

lemma slots_sized_put: "slots_sized q \<Longrightarrow> length (pfSamples f) = FrameSamples \<Longrightarrow> slots_sized (putSlot i f q)"
  by (auto simp: slots_sized_def putSlot_def list_all_iff dest: set_update_subset_insert [THEN subsetD])

lemma slots_sized_counters [simp]: "slots_sized (CommitWrite q) = slots_sized q" "slots_sized (ReleaseRead q) = slots_sized q"
  by (simp_all add: slots_sized_def)

lemma acquired_less: "queue_ok q \<Longrightarrow> AcquireWrite q = Some i \<Longrightarrow> i < length (fqFrames q)"
  using slotOf_less by (auto simp: AcquireWrite_def queue_ok_def split: if_splits)

lemma updateCurrent_simps [simp]:
  "caOffset (updateCurrent f a) = caOffset a" "caClock (updateCurrent f a) = caClock a" "caSilent (updateCurrent f a) = caSilent a"
  "caDrop (updateCurrent f a) = caDrop a" "caCurrent (updateCurrent f a) = caCurrent a" "caReferenceValid (updateCurrent f a) = caReferenceValid a"
  by (simp_all add: updateCurrent_def split: option.split)

lemma updateCurrent_slot:
  assumes "queue_ok (caQueue a)" and "AcquireWrite (caQueue a) = Some i" and "caCurrent a = Some i"
  shows "queue_ok (caQueue (updateCurrent f a))" and "AcquireWrite (caQueue (updateCurrent f a)) = Some i"
    and "slot (caQueue (updateCurrent f a)) i = f (slot (caQueue a) i)"
    and "queued (caQueue (updateCurrent f a)) = queued (caQueue a)"
  using assms acquired_less [OF assms(1,2)] by (simp_all add: updateCurrent_def slot_putSlot queued_putSlot)

lemma updateCurrent_sized:
  assumes "queue_ok (caQueue a)" and "AcquireWrite (caQueue a) = Some i" and "caCurrent a = Some i" and "slots_sized (caQueue a)"
    and "\<And>g. length (pfSamples g) = FrameSamples \<Longrightarrow> length (pfSamples (f g)) = FrameSamples"
  shows "slots_sized (caQueue (updateCurrent f a))"
  using assms acquired_less [OF assms(1,2)] by (simp add: updateCurrent_def slots_sized_put slots_sized_slot)

text \<open>After the flags are noted the frame is open, whether it was just begun or not.\<close>

definition open_frame :: "('s \<times> bool) list \<Rightarrow> bool \<Rightarrow> 's captureAssembler \<Rightarrow> bool" where
  "open_frame cur silent a \<longleftrightarrow>
     queue_ok (caQueue a) \<and> slots_sized (caQueue a) \<and> caOffset a = length cur \<and> caSilent a = silent \<and> slot_holds cur a"

lemma begin_open:
  assumes "assembling n cur a"
  shows "open_frame cur (muted \<or> list_ex snd cur) (noteFlags muted valid (beginFrame generation muted a))"
proof (cases "cur = []")
  case True
  define b where "b = a\<lparr>caCurrent := AcquireWrite (caQueue a), caDrop := (AcquireWrite (caQueue a) = None), caSilent := muted, caReferenceValid := True\<rparr>"
  have b: "queue_ok (caQueue b)" "slots_sized (caQueue b)" "caOffset b = 0" "caSilent b = muted" "caCurrent b = AcquireWrite (caQueue b)"
    "caDrop b \<longleftrightarrow> AcquireWrite (caQueue b) = None"
    using assms True by (simp_all add: b_def assembling_def)
  have e: "beginFrame generation muted a = (case generation of None \<Rightarrow> b | Some g \<Rightarrow> updateCurrent (\<lambda>f. f\<lparr>pfGeneration := g\<rparr>) b)"
    unfolding b_def using assms True by (simp add: beginFrame_def assembling_def Let_def)
  show ?thesis
  proof (cases "AcquireWrite (caQueue b)")
    case None
    with b True show ?thesis
      by (auto simp: e open_frame_def noteFlags_def slot_holds_def updateCurrent_def split: option.split)
  next
    case (Some i)
    with b True updateCurrent_slot [of b i] updateCurrent_sized [of b i] show ?thesis
      by (auto simp: e open_frame_def noteFlags_def slot_holds_def split: option.split)
  qed
next
  case False
  with assms show ?thesis
    by (auto simp: assembling_def beginFrame_def noteFlags_def open_frame_def slot_holds_def)
qed

lemma overwrite_prefix:
  assumes "length ys + offset \<le> length xs"
  shows "take (offset + length ys) (overwrite offset ys xs) = take offset xs @ ys" and "length (overwrite offset ys xs) = length xs"
  using assms by (cases ys; simp add: overwrite_def min_def)+

lemma copy_open:
  assumes "open_frame cur silent a" and "length cur + length chunk \<le> FrameSamples"
    and c_def: "c = copySamples chunk reference a"
  shows "queue_ok (caQueue c)" and "slots_sized (caQueue c)" and "caOffset c = length cur" and "caSilent c = silent"
    and "caClock c = caClock a" and "slot_holds (cur @ map (\<lambda>s. (s, muted)) chunk) c"
proof -
  have "queue_ok (caQueue c) \<and> slots_sized (caQueue c) \<and> caOffset c = length cur \<and> caSilent c = silent \<and> caClock c = caClock a \<and>
      slot_holds (cur @ map (\<lambda>s. (s, muted)) chunk) c"
  proof (cases "caDrop a")
    case True
    with assms show ?thesis by (simp add: copySamples_def open_frame_def slot_holds_def)
  next
    case False
    then obtain i where i: "caCurrent a = Some i" "AcquireWrite (caQueue a) = Some i"
      and prefix: "\<not> silent \<Longrightarrow> take (length cur) (pfSamples (slot (caQueue a) i)) = map fst cur"
      using assms by (auto simp: open_frame_def slot_holds_def)
    have q: "queue_ok (caQueue a)" "slots_sized (caQueue a)" "caOffset a = length cur" "caSilent a = silent"
      using assms by (simp_all add: open_frame_def)
    define b where "b = (if silent then a else updateCurrent (\<lambda>f. f\<lparr>pfSamples := overwrite (length cur) chunk (pfSamples f)\<rparr>) a)"
    have size: "length (pfSamples (slot (caQueue a) i)) = FrameSamples" using q i acquired_less slots_sized_slot by blast
    note written = overwrite_prefix [of chunk "length cur" "pfSamples (slot (caQueue a) i)"]
    have b: "queue_ok (caQueue b)" "AcquireWrite (caQueue b) = Some i" "caCurrent b = Some i" "slots_sized (caQueue b)"
      "\<not> silent \<Longrightarrow> take (length cur + length chunk) (pfSamples (slot (caQueue b) i)) = map fst cur @ chunk"
      using q i prefix size written assms(2) updateCurrent_slot [OF q(1) i(2,1)] updateCurrent_sized [OF q(1) i(2,1) q(2)]
      by (auto simp: b_def overwrite_prefix)
    have c: "c = updateCurrent (\<lambda>f. f\<lparr>pfReference := overwrite (caOffset b)
        (take (length chunk) reference @ replicate (length chunk - length reference) 0) (pfReference f)\<rparr>) b"
      using False q by (simp add: c_def copySamples_def b_def Let_def)
    have "caOffset b = length cur" "caSilent b = silent" "caClock b = caClock a" "caDrop b = caDrop a"
      using q by (simp_all add: b_def)
    then show ?thesis using b updateCurrent_slot [OF b(1-3)] updateCurrent_sized [OF b(1-4)]
      unfolding c slot_holds_def by (auto simp: comp_def)
  qed
  then show "queue_ok (caQueue c)" "slots_sized (caQueue c)" "caOffset c = length cur" "caSilent c = silent"
    "caClock c = caClock a" "slot_holds (cur @ map (\<lambda>s. (s, muted)) chunk) c" by simp_all
qed

lemma finish_frame:
  assumes "queue_ok (caQueue a)" and "slots_sized (caQueue a)" and "caOffset a = length cur" and "length cur \<le> FrameSamples"
    and "caClock a = of_nat (FrameSamples * n + length cur)" and "caSilent a = list_ex snd cur" and "slot_holds cur a" and "cur \<noteq> []"
    and f: "finishFrame a = (a', out)"
  shows "if length cur = FrameSamples then (\<exists>f. out = [f] \<and> frame_ok cur n f) \<and> assembling (Suc n) [] a'
    else out = [] \<and> assembling n cur a'"
proof (cases "length cur = FrameSamples")
  case False
  with assms show ?thesis by (auto simp: finishFrame_def assembling_def)
next
  case full: True
  have clock: "caClock a = of_nat (FrameSamples * Suc n)" using assms full by (simp add: add.commute)
  show ?thesis
  proof (cases "caDrop a")
    case True
    with assms full clock show ?thesis by (auto simp: finishFrame_def assembling_def frame_ok_def)
  next
    case False
    then obtain i where i: "caCurrent a = Some i" "AcquireWrite (caQueue a) = Some i"
      and prefix: "\<not> caSilent a \<Longrightarrow> take (length cur) (pfSamples (slot (caQueue a) i)) = map fst cur"
      using assms by (auto simp: slot_holds_def)
    let ?f = "\<lambda>f. f\<lparr>pfSamples := (if caSilent a then replicate (length (pfSamples f)) 0 else pfSamples f),
      pfMuted := caSilent a, pfReferenceValid := caReferenceValid a, pfTimestamp := caClock a\<rparr>"
    have size: "length (pfSamples (slot (caQueue a) i)) = FrameSamples" using assms i acquired_less slots_sized_slot by blast
    note slot = updateCurrent_slot [OF assms(1) i(2,1), of ?f]
    note sized = updateCurrent_sized [OF assms(1) i(2,1) assms(2), of ?f]
    have "frame_ok cur n (Some (?f (slot (caQueue a) i)))"
      using prefix size full clock assms by (auto simp: frame_ok_def)
    moreover have "out = [Some (?f (slot (caQueue a) i))]" using f full False i assms slot by (simp add: finishFrame_def Let_def)
    moreover have "a' = (updateCurrent ?f a)\<lparr>caQueue := CommitWrite (caQueue (updateCurrent ?f a)), caReady := True, caCurrent := None, caOffset := 0\<rparr>"
      using f full False assms by (auto simp: finishFrame_def Let_def)
    moreover have "queue_ok (CommitWrite (caQueue (updateCurrent ?f a)))" using commit_keeps slot by blast
    ultimately show ?thesis using full clock sized by (simp add: assembling_def)
  qed
qed

lemma writeChunk_keeps:
  assumes "assembling n cur a" and "chunk \<noteq> []" and "length cur + length chunk \<le> FrameSamples"
    and "writeChunk generation muted lengthValid chunk reference a = (a', out)"
  defines "cur' \<equiv> cur @ map (\<lambda>s. (s, muted)) chunk"
  shows "if length cur' = FrameSamples then (\<exists>f. out = [f] \<and> frame_ok cur' n f) \<and> assembling (Suc n) [] a'
    else out = [] \<and> assembling n cur' a'"
proof -
  define b where "b = noteFlags muted (lengthValid \<and> length chunk \<le> length reference) (beginFrame generation muted a)"
  define c where "c = copySamples chunk reference b"
  have b: "open_frame cur (muted \<or> list_ex snd cur) b" unfolding b_def using assms(1) by (rule begin_open)
  have "caClock b = caClock a" by (simp add: b_def noteFlags_def beginFrame_def Let_def split: option.split)
  then have clock: "caClock b = of_nat (FrameSamples * n + length cur)" using assms by (simp add: assembling_def)
  note c = copy_open [OF b assms(3) c_def]
  have "list_ex snd cur' = (muted \<or> list_ex snd cur)" using assms(2) by (cases chunk) (auto simp: cur'_def list_ex_iff)
  moreover have "finishFrame (c\<lparr>caOffset := caOffset c + length chunk, caClock := caClock c + of_nat (length chunk)\<rparr>) = (a', out)"
    using assms(4) by (simp add: writeChunk_def b_def c_def Let_def)
  ultimately show ?thesis using c clock assms(2,3)
    by (intro finish_frame) (auto simp: cur'_def slot_holds_def)
qed

section \<open>Callbacks\<close>

text \<open>A history cut into the frames that came out and a rest that is still being assembled.\<close>

fun framed :: "nat \<Rightarrow> (('s::zero) \<times> bool) list \<Rightarrow> 's pcmFrame option list \<Rightarrow> ('s \<times> bool) list \<Rightarrow> bool" where
  "framed n history [] rest \<longleftrightarrow> history = rest"
| "framed n history (f # outs) rest \<longleftrightarrow>
     FrameSamples \<le> length history \<and> frame_ok (take FrameSamples history) n f \<and> framed (Suc n) (drop FrameSamples history) outs rest"

lemma framed_more: "framed n history outs rest \<Longrightarrow> framed n (history @ xs) outs (rest @ xs)"
  by (induction n history outs rest rule: framed.induct) auto

lemma framed_trans:
  "framed n history outs rest \<Longrightarrow> framed (n + length outs) rest outs' rest' \<Longrightarrow> framed n history (outs @ outs') rest'"
  by (induction n history outs rest rule: framed.induct) auto

lemma framed_nth:
  "framed n history outs rest \<Longrightarrow> k < length outs \<Longrightarrow> frame_ok (take FrameSamples (drop (FrameSamples * k) history)) (n + k) (outs ! k)"
proof (induction n history outs rest arbitrary: k rule: framed.induct)
  case (2 n history f outs rest)
  then show ?case by (cases k) (auto simp: add.commute)
qed simp

lemma framed_length: "framed n history outs rest \<Longrightarrow> length history = FrameSamples * length outs + length rest"
  by (induction n history outs rest rule: framed.induct) auto

lemma chunk_framed:
  assumes "assembling n cur a" and "chunk \<noteq> []" and "length cur + length chunk \<le> FrameSamples"
    and "writeChunk generation muted lengthValid chunk reference a = (a', out)"
  obtains rest where "framed n (cur @ map (\<lambda>s. (s, muted)) chunk) out rest" and "assembling (n + length out) rest a'"
proof (cases "length cur + length chunk = FrameSamples")
  case True
  with writeChunk_keeps [OF assms] that [of "[]"] show thesis by (auto simp: FrameSamples_def)
next
  case False
  with writeChunk_keeps [OF assms] that show thesis by auto
qed

lemma writeLoop_framed:
  assumes "assembling n cur a" and "length samples \<le> fuel" and "writeLoop fuel generation muted lengthValid samples reference a = (a', outs)"
  shows "\<exists>rest. framed n (cur @ map (\<lambda>s. (s, muted)) samples) outs rest \<and> assembling (n + length outs) rest a'"
  using assms
proof (induction fuel arbitrary: n cur a samples reference outs a')
  case (Suc fuel)
  show ?case
  proof (cases "samples = []")
    case False
    define count where "count = min (length samples) (FrameSamples - caOffset a)"
    have off: "caOffset a = length cur" "length cur < FrameSamples" using Suc.prems(1) by (simp_all add: assembling_def)
    then have count: "0 < count" "count \<le> length samples" "length cur + count \<le> FrameSamples" using False by (auto simp: count_def)
    obtain a1 out where c: "writeChunk (generation (length samples)) muted lengthValid (take count samples) reference a = (a1, out)" by fastforce
    obtain a2 outs2 where l: "writeLoop fuel generation muted lengthValid (drop count samples) (drop count reference) a1 = (a2, outs2)" by fastforce
    obtain rest where r: "framed n (cur @ map (\<lambda>s. (s, muted)) (take count samples)) out rest" "assembling (n + length out) rest a1"
      using chunk_framed [OF Suc.prems(1) _ _ c] count False by auto
    have "length (drop count samples) \<le> fuel" using count Suc.prems(2) by simp
    from Suc.IH [OF r(2) this l] obtain rest' where
      r': "framed (n + length out) (rest @ map (\<lambda>s. (s, muted)) (drop count samples)) outs2 rest'"
        "assembling (n + length out + length outs2) rest' a2" by blast
    have "map (\<lambda>s. (s, muted)) (take count samples) @ map (\<lambda>s. (s, muted)) (drop count samples) = map (\<lambda>s. (s, muted)) samples"
      by (metis append_take_drop_id map_append)
    with framed_more [OF r(1), of "map (\<lambda>s. (s, muted)) (drop count samples)"]
    have "framed n (cur @ map (\<lambda>s. (s, muted)) samples) out (rest @ map (\<lambda>s. (s, muted)) (drop count samples))" by simp
    from framed_trans [OF this r'(1)] r'(2) show ?thesis
      using Suc.prems(3) False c l by (auto simp: count_def [symmetric] Let_def add.assoc)
  qed (use Suc.prems in \<open>auto\<close>)
qed auto

text \<open>The encoder works on the frame at the head of the queue and gives it back.\<close>

datatype 's captureEvent = Captured "nat \<Rightarrow> uint64 option" "'s list" "'s list" bool | EncoderEdits "'s list" | EncoderReleases

definition editHead :: "'s list \<Rightarrow> 's pcmFrameQueue \<Rightarrow> 's pcmFrameQueue" where
  "editHead samples q =
     (case AcquireRead q of
        None \<Rightarrow> q
      | Some j \<Rightarrow> if length samples = FrameSamples then putSlot j ((slot q j)\<lparr>pfSamples := samples\<rparr>) q else q)"

definition releaseHead :: "'f frameQueue \<Rightarrow> 'f frameQueue" where
  "releaseHead q = (if AcquireRead q = None then q else ReleaseRead q)"

definition captureStep :: "('s::zero) captureAssembler \<times> 's pcmFrame option list \<Rightarrow> 's captureEvent \<Rightarrow>
    's captureAssembler \<times> 's pcmFrame option list" where
  "captureStep s event =
     (case event of
        Captured generation samples reference muted \<Rightarrow>
          (let (a, outs) = assemblerWrite generation samples reference muted (fst s) in (a, snd s @ outs))
      | EncoderEdits samples \<Rightarrow> ((fst s)\<lparr>caQueue := editHead samples (caQueue (fst s))\<rparr>, snd s)
      | EncoderReleases \<Rightarrow> ((fst s)\<lparr>caQueue := releaseHead (caQueue (fst s))\<rparr>, snd s))"

definition captureRun :: "nat \<Rightarrow> ('s::zero) captureEvent list \<Rightarrow> 's captureAssembler \<times> 's pcmFrame option list" where
  "captureRun capacity events = foldl captureStep (newAssembler capacity, []) events"

fun heard :: "'s captureEvent \<Rightarrow> ('s \<times> bool) list" where
  "heard (Captured generation samples reference muted) = map (\<lambda>s. (s, muted)) samples"
| "heard (EncoderEdits samples) = []"
| "heard EncoderReleases = []"

lemma head_edit:
  assumes "queue_ok q" and "slots_sized q" and "q' = editHead samples q"
  shows "queue_ok q'" and "slots_sized q'" and "AcquireWrite q' = AcquireWrite q"
    and "AcquireWrite q = Some i \<Longrightarrow> slot q' i = slot q i"
proof -
  show "queue_ok q'" "slots_sized q'" "AcquireWrite q' = AcquireWrite q"
    using assms by (simp_all add: editHead_def slots_sized_put split: option.split)
  show "slot q' i = slot q i" if w: "AcquireWrite q = Some i"
    using write_slot_fresh [OF assms(1) w, of 0] assms(3)
    by (auto simp: editHead_def AcquireRead_iff slot_putSlot simp del: length_queued split: if_splits)
qed

lemma head_release:
  assumes "queue_ok q" and "slots_sized q"
  shows "queue_ok (releaseHead q)" and "slots_sized (releaseHead q)" and "slot (releaseHead q) = slot q"
    and "AcquireWrite q = Some i \<Longrightarrow> AcquireWrite (releaseHead q) = Some i"
  using assms release_keeps(1) [OF assms(1)] release_room_keeps [OF assms(1)] by (auto simp: releaseHead_def)

lemma assembling_queue:
  assumes "assembling n cur a" and "queue_ok q" and "slots_sized q"
    and "\<And>i. AcquireWrite (caQueue a) = Some i \<Longrightarrow> AcquireWrite q = Some i \<and> slot q i = slot (caQueue a) i"
  shows "assembling n cur (a\<lparr>caQueue := q\<rparr>)"
  using assms by (fastforce simp: assembling_def slot_holds_def)

lemma captureStep_framed:
  assumes "framed 0 history outs rest" and "assembling (length outs) rest a" and "captureStep (a, outs) event = (a', outs')"
  shows "\<exists>rest'. framed 0 (history @ heard event) outs' rest' \<and> assembling (length outs') rest' a'"
proof (cases event)
  case (Captured generation samples reference muted)
  then obtain more where w: "writeLoop (length samples) generation muted (length reference = length samples) samples reference a = (a', more)"
    and outs: "outs' = outs @ more"
    using assms(3) by (auto simp: captureStep_def assemblerWrite_def split: prod.splits)
  from writeLoop_framed [OF assms(2) order_refl w] obtain rest' where
    r: "framed (length outs) (rest @ heard event) more rest'" "assembling (length outs + length more) rest' a'"
    using Captured by auto
  show ?thesis using framed_trans [OF framed_more [OF assms(1), of "heard event"]] r outs by auto
next
  case (EncoderEdits samples)
  have q: "queue_ok (caQueue a)" "slots_sized (caQueue a)" using assms by (simp_all add: assembling_def)
  show ?thesis using assms EncoderEdits head_edit [OF q refl, where samples = samples]
    by (intro exI [of _ rest]) (auto simp: captureStep_def intro!: assembling_queue)
next
  case EncoderReleases
  have q: "queue_ok (caQueue a)" "slots_sized (caQueue a)" using assms by (simp_all add: assembling_def)
  show ?thesis using assms EncoderReleases head_release [OF q]
    by (intro exI [of _ rest]) (auto simp: captureStep_def intro!: assembling_queue)
qed

lemma new_sized: "slots_sized (newPCMFrameQueue capacity)"
  by (simp add: slots_sized_def newPCMFrameQueue_def noFrame_def list_all_iff)

lemma capture_framed:
  assumes "ring_ok capacity"
  shows "\<exists>rest. framed 0 (concat (map heard events)) (snd (captureRun capacity events)) rest \<and>
    assembling (length (snd (captureRun capacity events))) rest (fst (captureRun capacity events))"
proof (induction events rule: rev_induct)
  case Nil
  show ?case by (simp add: captureRun_def assembling_def newAssembler_def new_sized new_queue_ok [OF assms])
next
  case (snoc event events)
  then show ?case
    using captureStep_framed [of _ "snd (captureRun capacity events)" _ "fst (captureRun capacity events)" event]
    by (auto simp: captureRun_def)
qed

text \<open>C33: however the captured samples arrive, the \<open>k\<close>-th frame of the capture callback is their \<open>k\<close>-th block, or was dropped
  because the encoder had left no slot; a frame with a sample captured while muted is all silence and marked as muted, and
  a timestamp counts the samples up to the end of its frame, dropped ones included.\<close>

theorem capture_frames:
  assumes "ring_ok capacity"
  shows "length (snd (captureRun capacity events)) = length (concat (map heard events)) div FrameSamples \<and>
    (\<forall>k < length (snd (captureRun capacity events)).
       frame_ok (take FrameSamples (drop (FrameSamples * k) (concat (map heard events)))) k (snd (captureRun capacity events) ! k))"
proof -
  obtain rest where r: "framed 0 (concat (map heard events)) (snd (captureRun capacity events)) rest" "length rest < FrameSamples"
    using capture_framed [OF assms] by (auto simp: assembling_def)
  then have "length (concat (map heard events)) div FrameSamples = length (snd (captureRun capacity events))"
    using framed_length [OF r(1)] by simp
  then show ?thesis using framed_nth [OF r(1)] by simp
qed

text \<open>One frame of sound, the second half captured while muted, in two callbacks of 240 samples.\<close>

definition exampleCapture :: "nat captureEvent list" where
  "exampleCapture = [Captured (\<lambda>_. Some 1) (replicate 240 5) (replicate 240 0) False, Captured (\<lambda>_. Some 1) (replicate 240 7) (replicate 240 0) True]"

theorem capture_frames_witness:
  "\<exists>out. snd (captureRun 2 exampleCapture) = [out] \<and>
     (\<forall>f. out = Some f \<longrightarrow> pfMuted f \<and> pfSamples f = replicate FrameSamples 0 \<and> pfTimestamp f = 480)"
proof -
  have "ring_ok 2" by (simp add: ring_ok_def)
  note frames = capture_frames [OF this, of exampleCapture]
  have heard: "concat (map heard exampleCapture) = replicate 240 (5, False) @ replicate 240 (7, True)" by (simp add: exampleCapture_def)
  then have "length (snd (captureRun 2 exampleCapture)) = 1" using frames by (simp add: FrameSamples_def)
  then obtain out where out: "snd (captureRun 2 exampleCapture) = [out]" by (auto simp: length_Suc_conv)
  have "frame_ok (replicate 240 (5, False) @ replicate 240 (7, True)) 0 out"
    using frames unfolding heard out by (simp add: FrameSamples_def)
  then show ?thesis using out by (auto simp: frame_ok_def FrameSamples_def list_ex_iff)
qed

end
