(* ===== verification/AudioMute.thy ===== *)
theory AudioMute
  imports MediaFlow AudioCapture
begin

text \<open>
  Muting the microphone while the audio callback, the encoder and the peer run: \<open>setCaptureMuted\<close> and \<open>encodeLoop\<close> of
  \<open>internal/audio/engine.go\<close> over the callback of \<open>callbacks.go\<close> and the \<open>Flow\<close> of \<open>internal/media/flow.go\<close>, one access to what
  they share per step.  \<open>captureMuted\<close> and \<open>captureGeneration\<close> are atomic variables: the callback loads the first when it
  begins and the second whenever it begins a frame; muting stores the first, has the port invalidate what waits there and
  stores the generation the port then has.  Of a frame that is sent the model remembers the samples it was made of.
\<close>

section \<open>The parties\<close>

record 's micCallback =
  cbMuted :: bool
  cbSamples :: "'s list"
  cbReference :: "'s list"
  cbLengthValid :: bool

datatype 's encoderStage =
    EncoderIdle
  | Encoding "'s pcmFrame"
  | Encoded "'s pcmFrame" bytes
  | Submitting "'s pcmFrame" bytes

datatype muteStage =
    SetterIdle
  | Invalidating bool
  | Storing bool uint64
  | Finishing bool

record 's voice =
  voMuted :: bool
  voGeneration :: uint64
  voStatus :: bool
  voPort :: Flow
  voSetter :: muteStage
  voAssembler :: "'s captureAssembler"
  voCallback :: "'s micCallback option"
  voEncoder :: "'s encoderStage"
  voSent :: "'s pcmFrame option"

datatype 's voiceEvent =
    SetMuted bool
  | SetterTurn
  | CallbackBegins "'s list" "'s list"
  | CallbackTurn
  | EncoderTakes
  | EncoderEncodes "bytes option" bool
  | EncoderChecks
  | EncoderSubmits time
  | PeerConsumes

section \<open>Their steps\<close>

definition startVoice :: "nat \<Rightarrow> uint64 \<Rightarrow> ('s::zero) voice" where
  "startVoice capacity generation =
     \<lparr>voMuted = False, voGeneration = generation, voStatus = False, voPort = NewFlow\<lparr>sendGeneration := generation\<rparr>,
      voSetter = SetterIdle, voAssembler = newAssembler capacity, voCallback = None, voEncoder = EncoderIdle, voSent = None\<rparr>"

definition beginMute :: "bool \<Rightarrow> 's voice \<Rightarrow> 's voice" where
  "beginMute muted v =
     (if voSetter v \<noteq> SetterIdle \<or> voStatus v = muted then v
      else (if muted then v\<lparr>voMuted := True\<rparr> else v)\<lparr>voSetter := Invalidating muted\<rparr>)"

definition setterTurn :: "'s voice \<Rightarrow> 's voice" where
  "setterTurn v =
     (case voSetter v of
        SetterIdle \<Rightarrow> v
      | Invalidating muted \<Rightarrow>
          (let (generation, _, port) = InvalidateSend (voPort v)
           in v\<lparr>voPort := port, voSent := None, voSetter := Storing muted generation\<rparr>)
      | Storing muted generation \<Rightarrow> v\<lparr>voGeneration := generation, voSetter := Finishing muted\<rparr>
      | Finishing muted \<Rightarrow> (if muted then v else v\<lparr>voMuted := False\<rparr>)\<lparr>voStatus := muted, voSetter := SetterIdle\<rparr>)"

definition beginCallback :: "'s list \<Rightarrow> 's list \<Rightarrow> 's voice \<Rightarrow> 's voice" where
  "beginCallback samples reference v =
     (if voCallback v \<noteq> None then v
      else v\<lparr>voCallback := Some \<lparr>cbMuted = voMuted v, cbSamples = samples, cbReference = reference,
             cbLengthValid = (length reference = length samples)\<rparr>\<rparr>)"

text \<open>A turn of the loop of \<open>Write\<close>, or its return.\<close>

definition callbackTurn :: "('s::zero) voice \<Rightarrow> 's voice" where
  "callbackTurn v =
     (case voCallback v of
        None \<Rightarrow> v
      | Some cb \<Rightarrow>
          if cbSamples cb = [] then v\<lparr>voCallback := None\<rparr>
          else
            let count = min (length (cbSamples cb)) (FrameSamples - caOffset (voAssembler v));
                (a, _) = writeChunk (Some (voGeneration v)) (cbMuted cb) (cbLengthValid cb) (take count (cbSamples cb)) (cbReference cb)
                  (voAssembler v)
            in v\<lparr>voAssembler := a,
                 voCallback := Some (cb\<lparr>cbSamples := drop count (cbSamples cb), cbReference := drop count (cbReference cb)\<rparr>)\<rparr>)"

definition releaseCaptured :: "'s voice \<Rightarrow> 's voice" where
  "releaseCaptured v = v\<lparr>voAssembler := (voAssembler v)\<lparr>caQueue := releaseHead (caQueue (voAssembler v))\<rparr>\<rparr>"

definition encoderTakes :: "'s voice \<Rightarrow> 's voice" where
  "encoderTakes v =
     (case AcquireRead (caQueue (voAssembler v)) of
        None \<Rightarrow> v
      | Some i \<Rightarrow>
          let f = slot (caQueue (voAssembler v)) i
          in if voEncoder v \<noteq> EncoderIdle then v
             else if pfGeneration f \<noteq> voGeneration v then releaseCaptured v
             else v\<lparr>voEncoder := Encoding f\<rparr>)"

text \<open>What \<open>Encode\<close> gives: a payload or, with \<open>None\<close>, an error, and whether the encoder is in discontinuous transmission.\<close>

definition encoderEncodes :: "bytes option \<Rightarrow> bool \<Rightarrow> 's voice \<Rightarrow> 's voice" where
  "encoderEncodes result inDTX v =
     (case voEncoder v of
        Encoding f \<Rightarrow>
          (releaseCaptured v)\<lparr>voEncoder :=
             (case result of
                None \<Rightarrow> EncoderIdle
              | Some payload \<Rightarrow> if length payload = 0 \<or> inDTX then EncoderIdle else Encoded f payload)\<rparr>
      | _ \<Rightarrow> v)"

definition encoderChecks :: "'s voice \<Rightarrow> 's voice" where
  "encoderChecks v =
     (case voEncoder v of
        Encoded f payload \<Rightarrow>
          v\<lparr>voEncoder := (if pfGeneration f \<noteq> voGeneration v then EncoderIdle else Submitting f payload)\<rparr>
      | _ \<Rightarrow> v)"

definition encoderSubmits :: "time \<Rightarrow> 's voice \<Rightarrow> 's voice" where
  "encoderSubmits deadline v =
     (case voEncoder v of
        Submitting f payload \<Rightarrow>
          (let (accepted, port) = SubmitSend (voPort v)
                 \<lparr>sfTimestamp = pfTimestamp f, sfPayload = payload, sfDeadline = deadline, SendGeneration = pfGeneration f\<rparr>
           in v\<lparr>voPort := port, voSent := (if accepted then Some f else voSent v), voEncoder := EncoderIdle\<rparr>)
      | _ \<Rightarrow> v)"

definition peerConsumes :: "'s voice \<Rightarrow> 's voice" where
  "peerConsumes v = v\<lparr>voPort := snd (ConsumeSend (voPort v)), voSent := None\<rparr>"

fun voiceStep :: "('s::zero) voice \<Rightarrow> 's voiceEvent \<Rightarrow> 's voice" where
  "voiceStep v (SetMuted muted) = beginMute muted v"
| "voiceStep v SetterTurn = setterTurn v"
| "voiceStep v (CallbackBegins samples reference) = beginCallback samples reference v"
| "voiceStep v CallbackTurn = callbackTurn v"
| "voiceStep v EncoderTakes = encoderTakes v"
| "voiceStep v (EncoderEncodes result inDTX) = encoderEncodes result inDTX v"
| "voiceStep v EncoderChecks = encoderChecks v"
| "voiceStep v (EncoderSubmits deadline) = encoderSubmits deadline v"
| "voiceStep v PeerConsumes = peerConsumes v"

section \<open>A turn of the callback\<close>

definition openGeneration :: "'s captureAssembler \<Rightarrow> uint64" where
  "openGeneration a = (case caCurrent a of None \<Rightarrow> 0 | Some i \<Rightarrow> pfGeneration (slot (caQueue a) i))"

lemma openGeneration_counters [simp]: "openGeneration (a\<lparr>caOffset := x, caClock := y\<rparr>) = openGeneration a"
  by (simp add: openGeneration_def split: option.split)

definition holds_room :: "'s captureAssembler \<Rightarrow> bool" where
  "holds_room a \<longleftrightarrow> (\<not> caDrop a \<longrightarrow> (\<exists>i. caCurrent a = Some i \<and> AcquireWrite (caQueue a) = Some i))"

lemma holds_slot: "slot_holds cur a \<Longrightarrow> holds_room a"
  by (auto simp: slot_holds_def holds_room_def)

lemma update_open:
  assumes "queue_ok (caQueue a)" and "holds_room a" and "\<not> caDrop a" and "\<And>x. pfGeneration (f x) = pfGeneration x"
  shows "openGeneration (updateCurrent f a) = openGeneration a" and "queued (caQueue (updateCurrent f a)) = queued (caQueue a)"
    and "holds_room (updateCurrent f a)" and "queue_ok (caQueue (updateCurrent f a))"
proof -
  obtain i where "AcquireWrite (caQueue a) = Some i" "caCurrent a = Some i" using assms by (auto simp: holds_room_def)
  with assms updateCurrent_slot [of a i f] show "openGeneration (updateCurrent f a) = openGeneration a"
    "queued (caQueue (updateCurrent f a)) = queued (caQueue a)" "holds_room (updateCurrent f a)" "queue_ok (caQueue (updateCurrent f a))"
    by (simp_all add: openGeneration_def holds_room_def)
qed

definition begunDrop :: "('s \<times> bool) list \<Rightarrow> 's captureAssembler \<Rightarrow> bool" where
  "begunDrop cur a \<longleftrightarrow> (if cur = [] then AcquireWrite (caQueue a) = None else caDrop a)"

definition begunGeneration :: "('s \<times> bool) list \<Rightarrow> uint64 \<Rightarrow> 's captureAssembler \<Rightarrow> uint64" where
  "begunGeneration cur g a = (if cur = [] then g else openGeneration a)"

lemma begin_generation:
  assumes "assembling n cur a" and "b = noteFlags muted valid (beginFrame (Some g) muted a)"
  shows "caDrop b = begunDrop cur a" and "queued (caQueue b) = queued (caQueue a)"
    and "\<not> caDrop b \<Longrightarrow> openGeneration b = begunGeneration cur g a"
proof -
  have "caDrop b = begunDrop cur a \<and> queued (caQueue b) = queued (caQueue a) \<and>
      (\<not> caDrop b \<longrightarrow> openGeneration b = begunGeneration cur g a)"
  proof (cases "cur = []")
    case False
    with assms show ?thesis
      by (auto simp: assembling_def noteFlags_def beginFrame_def begunDrop_def begunGeneration_def openGeneration_def split: option.split)
  next
    case True
    define c where "c = a\<lparr>caCurrent := AcquireWrite (caQueue a), caDrop := (AcquireWrite (caQueue a) = None), caSilent := muted, caReferenceValid := True\<rparr>"
    have c: "queue_ok (caQueue c)" "caCurrent c = AcquireWrite (caQueue c)" "caDrop c \<longleftrightarrow> AcquireWrite (caQueue c) = None"
        "caQueue c = caQueue a"
      using assms(1) by (simp_all add: c_def assembling_def)
    have b: "b = noteFlags muted valid (updateCurrent (\<lambda>f. f\<lparr>pfGeneration := g\<rparr>) c)"
      using assms True by (simp add: c_def beginFrame_def assembling_def Let_def)
    show ?thesis
    proof (cases "AcquireWrite (caQueue c)")
      case None
      then show ?thesis using c True by (simp add: b noteFlags_def updateCurrent_def begunDrop_def)
    next
      case (Some i)
      then show ?thesis using c True updateCurrent_slot [of c i "\<lambda>f. f\<lparr>pfGeneration := g\<rparr>"]
        by (simp add: b noteFlags_def begunDrop_def begunGeneration_def openGeneration_def)
    qed
  qed
  then show "caDrop b = begunDrop cur a" "queued (caQueue b) = queued (caQueue a)"
    "\<not> caDrop b \<Longrightarrow> openGeneration b = begunGeneration cur g a" by simp_all
qed

lemma copy_generation:
  assumes "queue_ok (caQueue a)" and "holds_room a" and "c = copySamples samples reference a"
  shows "caDrop c = caDrop a" and "queued (caQueue c) = queued (caQueue a)" and "\<not> caDrop a \<Longrightarrow> openGeneration c = openGeneration a"
proof -
  let ?s = "\<lambda>f. f\<lparr>pfSamples := overwrite (caOffset a) samples (pfSamples f)\<rparr>"
  define b where "b = (if caSilent a then a else updateCurrent ?s a)"
  let ?r = "\<lambda>f. f\<lparr>pfReference := overwrite (caOffset b) (take (length samples) reference @ replicate (length samples - length reference) 0) (pfReference f)\<rparr>"
  have "caDrop c = caDrop a \<and> queued (caQueue c) = queued (caQueue a) \<and> (\<not> caDrop a \<longrightarrow> openGeneration c = openGeneration a)"
  proof (cases "caDrop a")
    case False
    have b: "queue_ok (caQueue b)" "holds_room b" "\<not> caDrop b" "openGeneration b = openGeneration a" "queued (caQueue b) = queued (caQueue a)"
      using assms(1,2) False update_open [of a ?s] by (simp_all add: b_def)
    have "c = updateCurrent ?r b" using assms(3) False by (simp add: copySamples_def b_def Let_def)
    with b False update_open [of b ?r] show ?thesis by simp
  qed (simp add: assms(3) copySamples_def)
  then show "caDrop c = caDrop a" "queued (caQueue c) = queued (caQueue a)" "\<not> caDrop a \<Longrightarrow> openGeneration c = openGeneration a"
    by simp_all
qed

lemma finish_generation:
  assumes "queue_ok (caQueue a)" and "holds_room a" and "finishFrame a = (a', out)"
  shows "if caOffset a = FrameSamples
    then queued (caQueue a') = queued (caQueue a) @ List.map_filter id out \<and>
         (\<forall>x \<in> set out. x = None \<longleftrightarrow> caDrop a) \<and> (\<forall>f. Some f \<in> set out \<longrightarrow> pfGeneration f = openGeneration a)
    else a' = a \<and> out = []"
proof (cases "caOffset a = FrameSamples \<and> \<not> caDrop a")
  case False
  with assms show ?thesis by (auto simp: finishFrame_def map_filter_def)
next
  case True
  then obtain i where i: "caCurrent a = Some i" "AcquireWrite (caQueue a) = Some i" using assms by (auto simp: holds_room_def)
  let ?f = "\<lambda>f. f\<lparr>pfSamples := (if caSilent a then replicate (length (pfSamples f)) 0 else pfSamples f),
      pfMuted := caSilent a, pfReferenceValid := caReferenceValid a, pfTimestamp := caClock a\<rparr>"
  note u = updateCurrent_slot [OF assms(1) i(2,1), of ?f]
  have "queued (CommitWrite (caQueue (updateCurrent ?f a))) = queued (caQueue a) @ [?f (slot (caQueue a) i)]"
    using pcm.commit_room [OF u(1,2)] u by simp
  then show ?thesis using True i u assms(3)
    by (auto simp: finishFrame_def Let_def openGeneration_def map_filter_def)
qed

lemma chunk_generation:
  assumes "assembling n cur a" and "chunk \<noteq> []" and "length cur + length chunk \<le> FrameSamples"
    and w: "writeChunk (Some g) muted lengthValid chunk reference a = (a', out)"
  shows "if length cur + length chunk = FrameSamples
    then queued (caQueue a') = queued (caQueue a) @ List.map_filter id out \<and>
         (\<forall>x \<in> set out. x = None \<longleftrightarrow> begunDrop cur a) \<and> (\<forall>f. Some f \<in> set out \<longrightarrow> pfGeneration f = begunGeneration cur g a)
    else queued (caQueue a') = queued (caQueue a) \<and> caDrop a' = begunDrop cur a \<and> caSilent a' = (muted \<or> list_ex snd cur) \<and>
         (\<not> caDrop a' \<longrightarrow> openGeneration a' = begunGeneration cur g a)"
proof -
  define b where "b = noteFlags muted (lengthValid \<and> length chunk \<le> length reference) (beginFrame (Some g) muted a)"
  define c where "c = copySamples chunk reference b"
  define d where "d = c\<lparr>caOffset := caOffset c + length chunk, caClock := caClock c + of_nat (length chunk)\<rparr>"
  have b: "open_frame cur (muted \<or> list_ex snd cur) b" unfolding b_def using assms(1) by (rule begin_open)
  then have room: "queue_ok (caQueue b)" "holds_room b" by (auto simp: open_frame_def intro: holds_slot)
  note begun = begin_generation [OF assms(1) b_def]
  note copied = copy_open [OF b assms(3) c_def] copy_generation [OF room c_def]
  have d: "queue_ok (caQueue d)" "holds_room d" "caOffset d = length cur + length chunk" "caDrop d = begunDrop cur a"
    "queued (caQueue d) = queued (caQueue a)" "\<not> caDrop d \<Longrightarrow> openGeneration d = begunGeneration cur g a"
    "caSilent d = (muted \<or> list_ex snd cur)"
    using copied begun holds_slot [OF copied(6)] by (simp_all add: d_def holds_room_def)
  have "finishFrame d = (a', out)" using w by (simp add: writeChunk_def b_def c_def d_def Let_def)
  from finish_generation [OF d(1,2) this] d show ?thesis by (auto split: if_splits)
qed

section \<open>What holds at every moment\<close>

definition quiet :: "'s voice \<Rightarrow> bool" where
  "quiet v \<longleftrightarrow> voMuted v \<and> (voSetter v = Finishing True \<or> voSetter v = SetterIdle \<and> voStatus v)"

definition setter_ok :: "'s voice \<Rightarrow> bool" where
  "setter_ok v \<longleftrightarrow>
     (case voSetter v of
        SetterIdle \<Rightarrow> voGeneration v = sendGeneration (voPort v) \<and> (voStatus v \<longrightarrow> voMuted v)
      | Invalidating muted \<Rightarrow> voGeneration v = sendGeneration (voPort v) \<and> (muted \<longrightarrow> voMuted v)
      | Storing muted g \<Rightarrow> g = sendGeneration (voPort v) \<and> unat (voGeneration v) < unat g \<and> (muted \<longrightarrow> voMuted v)
      | Finishing muted \<Rightarrow> voGeneration v = sendGeneration (voPort v) \<and> (muted \<longrightarrow> voMuted v))"

definition frame_fine :: "('s::zero) voice \<Rightarrow> 's pcmFrame \<Rightarrow> bool" where
  "frame_fine v f \<longleftrightarrow> unat (pfGeneration f) \<le> unat (voGeneration v) \<and> (pfMuted f \<longrightarrow> pfSamples f = replicate FrameSamples 0) \<and>
     (quiet v \<and> pfGeneration f = voGeneration v \<longrightarrow> pfMuted f)"

text \<open>Only the callback that was running when the microphone was muted may have begun a frame of the new generation aloud.\<close>

definition callback_ok :: "'s voice \<Rightarrow> 's micCallback \<Rightarrow> bool" where
  "callback_ok v cb \<longleftrightarrow> length (cbSamples cb) < FrameSamples \<and>
     (quiet v \<and> \<not> cbMuted cb \<and> 0 < caOffset (voAssembler v) \<and> \<not> caDrop (voAssembler v) \<and> \<not> caSilent (voAssembler v) \<and>
        openGeneration (voAssembler v) = voGeneration v \<longrightarrow> caOffset (voAssembler v) + length (cbSamples cb) < FrameSamples)"

definition captured_ok :: "('s::zero) voice \<Rightarrow> bool" where
  "captured_ok v \<longleftrightarrow> (\<exists>n cur. assembling n cur (voAssembler v)) \<and> list_all (frame_fine v) (queued (caQueue (voAssembler v))) \<and>
     (0 < caOffset (voAssembler v) \<longrightarrow> \<not> caDrop (voAssembler v) \<longrightarrow> unat (openGeneration (voAssembler v)) \<le> unat (voGeneration v)) \<and>
     pred_option (callback_ok v) (voCallback v)"

fun encoding_ok :: "('s pcmFrame \<Rightarrow> bool) \<Rightarrow> 's encoderStage \<Rightarrow> bool" where
  "encoding_ok P EncoderIdle \<longleftrightarrow> True"
| "encoding_ok P (Encoding f) \<longleftrightarrow> P f"
| "encoding_ok P (Encoded f payload) \<longleftrightarrow> P f"
| "encoding_ok P (Submitting f payload) \<longleftrightarrow> P f"

definition sent_ok :: "('s::zero) voice \<Rightarrow> bool" where
  "sent_ok v \<longleftrightarrow> (hasSend (voPort v) \<longrightarrow>
     (\<exists>f. voSent v = Some f \<and> frame_fine v f \<and> pfGeneration f = sendGeneration (voPort v)))"

definition voice_inv :: "('s::zero) voice \<Rightarrow> bool" where
  "voice_inv v \<longleftrightarrow> setter_ok v \<and> captured_ok v \<and> encoding_ok (frame_fine v) (voEncoder v) \<and> sent_ok v"

text \<open>A step that leaves the generation alone and does not make the state quiet keeps what is known of every frame.\<close>

lemma fine_mono:
  "frame_fine v f \<Longrightarrow> voGeneration v' = voGeneration v \<Longrightarrow> (quiet v' \<Longrightarrow> quiet v) \<Longrightarrow> frame_fine v' f"
  by (auto simp: frame_fine_def)

lemma encoding_mono: "encoding_ok P e \<Longrightarrow> (\<And>f. P f \<Longrightarrow> Q f) \<Longrightarrow> encoding_ok Q e"
  by (cases e) auto

lemma captured_mono:
  assumes "captured_ok v" and "voGeneration v' = voGeneration v" and "quiet v' \<Longrightarrow> quiet v"
    and "voAssembler v' = voAssembler v" and "voCallback v' = voCallback v"
  shows "captured_ok v'"
  using assms fine_mono [OF _ assms(2,3)]
  by (auto simp: captured_ok_def callback_ok_def list_all_iff option.pred_set)

lemma sent_mono:
  assumes "sent_ok v" and "voGeneration v' = voGeneration v" and "quiet v' \<Longrightarrow> quiet v"
    and "voPort v' = voPort v" and "voSent v' = voSent v"
  shows "sent_ok v'"
  using assms fine_mono [OF _ assms(2,3)] by (auto simp: sent_ok_def)

lemma same_parts:
  assumes "voice_inv v" and "setter_ok v'" and "voGeneration v' = voGeneration v" and "quiet v' \<Longrightarrow> quiet v"
    and "voAssembler v' = voAssembler v" and "voCallback v' = voCallback v" and "voEncoder v' = voEncoder v"
    and "voPort v' = voPort v" and "voSent v' = voSent v"
  shows "voice_inv v'"
  using assms captured_mono [of v v'] sent_mono [of v v'] encoding_mono [of "frame_fine v" "voEncoder v" "frame_fine v'"]
    fine_mono [OF _ assms(3,4)]
  by (auto simp: voice_inv_def)

section \<open>Every step keeps it\<close>

lemma setter_ok_simps [simp]:
  "setter_ok (v\<lparr>voCallback := c\<rparr>) = setter_ok v" "setter_ok (v\<lparr>voAssembler := a\<rparr>) = setter_ok v"
  "setter_ok (v\<lparr>voEncoder := e\<rparr>) = setter_ok v" "setter_ok (v\<lparr>voSent := f\<rparr>) = setter_ok v"
  by (simp_all add: setter_ok_def split: muteStage.split)

lemma setter_ok_port: "setter_ok v \<Longrightarrow> sendGeneration p = sendGeneration (voPort v) \<Longrightarrow> setter_ok (v\<lparr>voPort := p\<rparr>)"
  by (simp add: setter_ok_def split: muteStage.splits)

lemma beginMute_inv: "voice_inv v \<Longrightarrow> voice_inv (beginMute muted v)"
proof -
  assume v: "voice_inv v"
  then have "setter_ok v" by (simp add: voice_inv_def)
  show ?thesis
  proof (cases "voSetter v \<noteq> SetterIdle \<or> voStatus v = muted")
    case True
    with v show ?thesis by (simp add: beginMute_def)
  next
    case False
    with \<open>setter_ok v\<close> show ?thesis
      by (intro same_parts [OF v]) (auto simp: beginMute_def setter_ok_def quiet_def)
  qed
qed

lemma invalidated:
  assumes "InvalidateSend p = (g, calls, p')" and "unat (sendGeneration p) < 2 ^ 64 - 1"
  shows "g = sendGeneration p'" and "\<not> hasSend p'" and "unat (sendGeneration p') = unat (sendGeneration p) + 1"
proof -
  have up: "unat (sendGeneration p + 1) = unat (sendGeneration p) + 1"
    using assms(2) by (simp add: unat_word_ariths)
  then have "sendGeneration p + 1 \<noteq> 0" by (metis Suc_eq_plus1 nat.distinct(1) unsigned_0)
  with assms(1) up show "g = sendGeneration p'" "\<not> hasSend p'" "unat (sendGeneration p') = unat (sendGeneration p) + 1"
    by (auto simp: InvalidateSend_def advanceSendGenerationLocked_def Let_def)
qed

lemma storing_captured:
  assumes "captured_ok v" and "unat (voGeneration v) < unat g"
  shows "captured_ok (v\<lparr>voGeneration := g, voSetter := s\<rparr>)"
  using assms by (auto simp: captured_ok_def callback_ok_def frame_fine_def list_all_iff option.pred_set)

lemma setterTurn_inv:
  assumes v: "voice_inv v" and "unat (sendGeneration (voPort v)) < 2 ^ 64 - 1"
  shows "voice_inv (setterTurn v)"
proof (cases "voSetter v")
  case SetterIdle
  with v show ?thesis by (simp add: setterTurn_def)
next
  case (Invalidating muted)
  obtain g calls p where p: "InvalidateSend (voPort v) = (g, calls, p)" using prod_cases3 by blast
  note up = invalidated [OF p assms(2)]
  define v' where "v' = v\<lparr>voPort := p, voSent := None, voSetter := Storing muted g\<rparr>"
  have e: "setterTurn v = v'" by (simp add: setterTurn_def Invalidating p v'_def)
  have loud: "\<not> quiet v'" by (simp add: v'_def quiet_def)
  have "setter_ok v'" using v up Invalidating by (auto simp: voice_inv_def setter_ok_def v'_def)
  moreover have "captured_ok v'" using v loud by (intro captured_mono [of v v']) (auto simp: voice_inv_def v'_def)
  moreover have "encoding_ok (frame_fine v') (voEncoder v')"
    using v loud fine_mono [of v _ v'] encoding_mono [of "frame_fine v" "voEncoder v" "frame_fine v'"] by (auto simp: voice_inv_def v'_def)
  moreover have "sent_ok v'" using up by (simp add: sent_ok_def v'_def)
  ultimately show ?thesis by (simp add: voice_inv_def e)
next
  case (Storing muted g)
  then have s: "g = sendGeneration (voPort v)" "unat (voGeneration v) < unat g" "muted \<longrightarrow> voMuted v"
    using v by (auto simp: voice_inv_def setter_ok_def)
  define v' where "v' = v\<lparr>voGeneration := g, voSetter := Finishing muted\<rparr>"
  have fine: "frame_fine v f \<Longrightarrow> frame_fine v' f" for f using s by (auto simp: frame_fine_def v'_def)
  have "captured_ok v'" unfolding v'_def using v s storing_captured by (auto simp: voice_inv_def)
  moreover have "encoding_ok (frame_fine v') (voEncoder v')"
    using v fine encoding_mono [of "frame_fine v" "voEncoder v" "frame_fine v'"] by (auto simp: voice_inv_def v'_def)
  moreover have "sent_ok v'" using v fine by (auto simp: voice_inv_def sent_ok_def v'_def)
  moreover have "setter_ok v'" using s by (simp add: setter_ok_def v'_def)
  ultimately show ?thesis by (simp add: voice_inv_def setterTurn_def Storing v'_def)
next
  case (Finishing muted)
  then have "voGeneration v = sendGeneration (voPort v)" "muted \<longrightarrow> voMuted v" using v by (auto simp: voice_inv_def setter_ok_def)
  then show ?thesis using Finishing by (intro same_parts [OF v]) (auto simp: setterTurn_def setter_ok_def quiet_def split: if_splits)
qed

lemma beginCallback_inv:
  assumes v: "voice_inv v" and "length samples < FrameSamples"
  shows "voice_inv (beginCallback samples reference v)"
proof (cases "voCallback v")
  case None
  define v' where "v' = beginCallback samples reference v"
  have e: "v' = v\<lparr>voCallback := Some \<lparr>cbMuted = voMuted v, cbSamples = samples, cbReference = reference,
             cbLengthValid = (length reference = length samples)\<rparr>\<rparr>" using None by (simp add: v'_def beginCallback_def)
  have q: "quiet v' = quiet v" by (simp add: e quiet_def)
  have f: "frame_fine v' = frame_fine v" using q by (simp add: fun_eq_iff frame_fine_def e)
  show ?thesis using v assms(2) f q unfolding v'_def [symmetric]
    by (auto simp: voice_inv_def captured_ok_def callback_ok_def sent_ok_def quiet_def e)
qed (use v in \<open>simp add: beginCallback_def\<close>)

lemma release_assembling: "assembling n cur a \<Longrightarrow> assembling n cur (a\<lparr>caQueue := releaseHead (caQueue a)\<rparr>)"
  using head_release [of "caQueue a"] by (intro assembling_queue) (auto simp: assembling_def)

lemma release_open: "assembling n cur a \<Longrightarrow> openGeneration (a\<lparr>caQueue := releaseHead (caQueue a)\<rparr>) = openGeneration a"
  using head_release(3) [of "caQueue a"] by (simp add: assembling_def openGeneration_def split: option.split)

lemma release_queued: "queue_ok q \<Longrightarrow> set (queued (releaseHead q)) \<subseteq> set (queued q)"
proof (cases "AcquireRead q")
  case (Some i)
  assume "queue_ok q"
  from pcm.pop [OF this Some] show ?thesis by (simp add: releaseHead_def Some) auto
qed (simp add: releaseHead_def)

lemma release_inv: "voice_inv v \<Longrightarrow> voice_inv (releaseCaptured v)"
proof -
  assume v: "voice_inv v"
  define v' where "v' = releaseCaptured v"
  obtain n cur where a: "assembling n cur (voAssembler v)" using v by (auto simp: voice_inv_def captured_ok_def)
  then have sub: "set (queued (caQueue (voAssembler v'))) \<subseteq> set (queued (caQueue (voAssembler v)))"
    using release_queued by (auto simp: v'_def releaseCaptured_def assembling_def)
  have q: "quiet v' = quiet v" by (simp add: v'_def releaseCaptured_def quiet_def)
  have f: "frame_fine v' = frame_fine v" using q by (simp add: fun_eq_iff frame_fine_def v'_def releaseCaptured_def)
  have "captured_ok v'"
    using v a sub f q release_assembling [OF a] release_open [OF a]
    by (auto simp: voice_inv_def captured_ok_def callback_ok_def list_all_iff option.pred_set v'_def releaseCaptured_def)
  then show ?thesis using v f unfolding v'_def [symmetric]
    by (auto simp: voice_inv_def sent_ok_def v'_def releaseCaptured_def)
qed

lemma encoder_stage_inv:
  assumes "voice_inv v" and "encoding_ok (frame_fine v) e"
  shows "voice_inv (v\<lparr>voEncoder := e\<rparr>)"
proof -
  let ?v = "v\<lparr>voEncoder := e\<rparr>"
  have q: "quiet ?v = quiet v" by (simp add: quiet_def)
  have f: "frame_fine ?v = frame_fine v" using q by (simp add: fun_eq_iff frame_fine_def)
  show ?thesis using assms f q
    by (auto simp: voice_inv_def captured_ok_def callback_ok_def sent_ok_def option.pred_set)
qed

lemma encoderTakes_inv: "voice_inv v \<Longrightarrow> voice_inv (encoderTakes v)"
proof (cases "AcquireRead (caQueue (voAssembler v))")
  case (Some i)
  assume v: "voice_inv v"
  then have ok: "queue_ok (caQueue (voAssembler v))" and fine: "list_all (frame_fine v) (queued (caQueue (voAssembler v)))"
    by (auto simp: voice_inv_def captured_ok_def assembling_def)
  have "slot (caQueue (voAssembler v)) i \<in> set (queued (caQueue (voAssembler v)))"
    using pcm.head_present [OF ok Some] by (metis list.set_intros(1))
  then have "frame_fine v (slot (caQueue (voAssembler v)) i)" using fine by (simp add: list_all_iff)
  with v show ?thesis using release_inv [OF v] encoder_stage_inv [OF v] by (simp add: encoderTakes_def Some Let_def)
qed (simp add: encoderTakes_def)

lemma releaseCaptured_simps [simp]:
  "frame_fine (releaseCaptured v) = frame_fine v" "voEncoder (releaseCaptured v) = voEncoder v"
  by (simp_all add: fun_eq_iff frame_fine_def quiet_def releaseCaptured_def)

lemma encoderEncodes_inv: "voice_inv v \<Longrightarrow> voice_inv (encoderEncodes result inDTX v)"
proof (cases "voEncoder v")
  case (Encoding f)
  assume v: "voice_inv v"
  then have "frame_fine v f" by (simp add: voice_inv_def Encoding)
  then show ?thesis using encoder_stage_inv [OF release_inv [OF v]] by (auto simp: encoderEncodes_def Encoding split: option.split)
qed (simp_all add: encoderEncodes_def)

lemma encoderChecks_inv: "voice_inv v \<Longrightarrow> voice_inv (encoderChecks v)"
proof (cases "voEncoder v")
  case (Encoded f payload)
  assume v: "voice_inv v"
  then have "frame_fine v f" by (simp add: voice_inv_def Encoded)
  then show ?thesis using encoder_stage_inv [OF v] by (simp add: encoderChecks_def Encoded)
qed (simp_all add: encoderChecks_def)

lemma port_inv:
  assumes v: "voice_inv v" and "sendGeneration p = sendGeneration (voPort v)"
    and "hasSend p \<Longrightarrow> \<exists>f. sent = Some f \<and> frame_fine v f \<and> pfGeneration f = sendGeneration p"
  shows "voice_inv (v\<lparr>voPort := p, voSent := sent\<rparr>)"
proof -
  let ?v = "v\<lparr>voPort := p, voSent := sent\<rparr>"
  have q: "quiet ?v = quiet v" by (simp add: quiet_def)
  have f: "frame_fine ?v = frame_fine v" using q by (simp add: fun_eq_iff frame_fine_def)
  show ?thesis using assms f q
    by (auto simp: voice_inv_def captured_ok_def callback_ok_def sent_ok_def option.pred_set intro: setter_ok_port)
qed

lemma encoderSubmits_inv: "voice_inv v \<Longrightarrow> voice_inv (encoderSubmits deadline v)"
proof (cases "voEncoder v")
  case (Submitting f payload)
  assume v: "voice_inv v"
  then have fine: "frame_fine v f" by (simp add: voice_inv_def Submitting)
  obtain b p where s: "SubmitSend (voPort v)
      \<lparr>sfTimestamp = pfTimestamp f, sfPayload = payload, sfDeadline = deadline, SendGeneration = pfGeneration f\<rparr> = (b, p)" by fastforce
  then have p: "sendGeneration p = sendGeneration (voPort v)" "b \<Longrightarrow> pfGeneration f = sendGeneration p" "\<not> b \<Longrightarrow> p = voPort v"
    by (auto simp: SubmitSend_def split: if_splits)
  have "voice_inv (v\<lparr>voPort := p, voSent := (if b then Some f else voSent v)\<rparr>)"
    using v p fine by (intro port_inv) (auto simp: voice_inv_def sent_ok_def)
  then have "voice_inv (v\<lparr>voPort := p, voSent := (if b then Some f else voSent v)\<rparr>\<lparr>voEncoder := EncoderIdle\<rparr>)"
    by (intro encoder_stage_inv) simp_all
  then show ?thesis by (simp add: encoderSubmits_def Submitting s)
qed (simp_all add: encoderSubmits_def)

lemma peerConsumes_inv: "voice_inv v \<Longrightarrow> voice_inv (peerConsumes v)"
  unfolding peerConsumes_def by (intro port_inv) (auto simp: ConsumeSend_def split: if_splits)

lemma callbackTurn_inv:
  assumes v: "voice_inv v"
  shows "voice_inv (callbackTurn v)"
proof (cases "voCallback v")
  case (Some cb)
  let ?a = "voAssembler v"
  have cb: "callback_ok v cb" using v Some by (simp add: voice_inv_def captured_ok_def)
  show ?thesis
  proof (cases "cbSamples cb = []")
    case True
    define v' where "v' = v\<lparr>voCallback := None\<rparr>"
    have q: "quiet v' = quiet v" by (simp add: quiet_def v'_def)
    have f: "frame_fine v' = frame_fine v" using q by (simp add: fun_eq_iff frame_fine_def v'_def)
    have "callbackTurn v = v'" by (simp add: callbackTurn_def Some True v'_def)
    with v f q show ?thesis by (auto simp: voice_inv_def captured_ok_def sent_ok_def v'_def)
  next
    case False
    obtain n cur where a: "assembling n cur ?a" using v by (auto simp: voice_inv_def captured_ok_def)
    define count where "count = min (length (cbSamples cb)) (FrameSamples - caOffset ?a)"
    define chunk where "chunk = take count (cbSamples cb)"
    have off: "caOffset ?a = length cur" "length cur < FrameSamples" using a by (simp_all add: assembling_def)
    have chunk: "chunk \<noteq> []" "length chunk = count" "length cur + length chunk \<le> FrameSamples"
      using False off by (auto simp: chunk_def count_def)
    obtain a' out where w: "writeChunk (Some (voGeneration v)) (cbMuted cb) (cbLengthValid cb) chunk (cbReference cb) ?a = (a', out)"
      by fastforce
    define cb' where "cb' = cb\<lparr>cbSamples := drop count (cbSamples cb), cbReference := drop count (cbReference cb)\<rparr>"
    define v' where "v' = v\<lparr>voAssembler := a', voCallback := Some cb'\<rparr>"
    have e: "callbackTurn v = v'"
      using w by (simp add: callbackTurn_def Some False v'_def cb'_def chunk_def count_def [symmetric])
    have q: "quiet v' = quiet v" by (simp add: quiet_def v'_def)
    have f: "frame_fine v' = frame_fine v" using q by (simp add: fun_eq_iff frame_fine_def v'_def)
    note keeps = writeChunk_keeps [OF a chunk(1,3) w]
    note effect = chunk_generation [OF a chunk(1,3) w]
    have silent: "cur \<noteq> [] \<Longrightarrow> caSilent ?a = list_ex snd cur" using a by (simp add: assembling_def)
    have gen: "\<not> begunDrop cur ?a \<Longrightarrow> unat (begunGeneration cur (voGeneration v) ?a) \<le> unat (voGeneration v)"
      using v off by (auto simp: voice_inv_def captured_ok_def begunDrop_def begunGeneration_def split: if_splits)
    have "captured_ok v'"
    proof (cases "length cur + length chunk = FrameSamples")
      case True
      then obtain x where x: "out = [x]" "frame_ok (cur @ map (\<lambda>s. (s, cbMuted cb)) chunk) n x" "assembling (Suc n) [] a'"
        using keeps by auto
      have ended: "queued (caQueue a') = queued (caQueue ?a) @ List.map_filter id out"
        "\<And>f. x = Some f \<Longrightarrow> \<not> begunDrop cur ?a \<and> pfGeneration f = begunGeneration cur (voGeneration v) ?a"
        using effect True x by auto
      have loud: "cbMuted cb" if "quiet v" "begunGeneration cur (voGeneration v) ?a = voGeneration v" "\<not> begunDrop cur ?a"
        "\<not> list_ex snd cur"
        using that cb off silent True chunk
        by (auto simp: callback_ok_def begunGeneration_def begunDrop_def count_def split: if_splits)
      have "frame_fine v f" if f: "x = Some f" for f
      proof -
        have "pfMuted f = list_ex snd (cur @ map (\<lambda>s. (s, cbMuted cb)) chunk)"
          "pfMuted f \<longrightarrow> pfSamples f = replicate FrameSamples 0" using x(2) f by (auto simp: frame_ok_def)
        moreover have "list_ex snd (cur @ map (\<lambda>s. (s, cbMuted cb)) chunk) = (cbMuted cb \<or> list_ex snd cur)"
          using chunk(1) by (cases chunk) (auto simp: list_ex_iff)
        ultimately show ?thesis using ended(2) [OF f] gen loud by (auto simp: frame_fine_def)
      qed
      then have "list_all (frame_fine v) (queued (caQueue a'))"
        using v ended(1) x(1) by (auto simp: voice_inv_def captured_ok_def list_all_iff map_filter_def split: option.splits)
      moreover have "callback_ok v' cb'" using cb x(3) by (auto simp: callback_ok_def v'_def cb'_def assembling_def)
      moreover have "caOffset a' = 0" using x(3) by (simp add: assembling_def)
      ultimately show ?thesis using x(3) f by (auto simp: captured_ok_def v'_def)
    next
      case False
      then have a': "assembling n (cur @ map (\<lambda>s. (s, cbMuted cb)) chunk) a'" using keeps by auto
      have going: "queued (caQueue a') = queued (caQueue ?a)" "caDrop a' = begunDrop cur ?a"
        "caSilent a' = (cbMuted cb \<or> list_ex snd cur)" "\<not> caDrop a' \<Longrightarrow> openGeneration a' = begunGeneration cur (voGeneration v) ?a"
        using effect False by auto
      have all: "count = length (cbSamples cb)" using False off chunk by (auto simp: count_def)
      have "callback_ok v' cb'" using a' all chunk(3) False by (auto simp: callback_ok_def v'_def cb'_def assembling_def)
      then show ?thesis using v going gen a' f by (auto simp: voice_inv_def captured_ok_def v'_def)
    qed
    moreover have "setter_ok v'" "sent_ok v'" "encoding_ok (frame_fine v') (voEncoder v')"
      using v f by (simp_all add: voice_inv_def sent_ok_def v'_def)
    ultimately show ?thesis by (simp add: voice_inv_def e)
  qed
qed (use v in \<open>simp add: callbackTurn_def\<close>)

section \<open>Muting\<close>

fun shortCallback :: "'s voiceEvent \<Rightarrow> bool" where
  "shortCallback (CallbackBegins samples reference) \<longleftrightarrow> length samples < FrameSamples"
| "shortCallback _ \<longleftrightarrow> True"

lemma voiceStep_inv:
  "voice_inv v \<Longrightarrow> shortCallback e \<Longrightarrow> unat (sendGeneration (voPort v)) < 2 ^ 64 - 1 \<Longrightarrow> voice_inv (voiceStep v e)"
  by (cases e) (auto intro: beginMute_inv setterTurn_inv beginCallback_inv callbackTurn_inv encoderTakes_inv encoderEncodes_inv
    encoderChecks_inv encoderSubmits_inv peerConsumes_inv)

lemma port_generation:
  "unat (sendGeneration (voPort v)) < 2 ^ 64 - 1 \<Longrightarrow>
   unat (sendGeneration (voPort (voiceStep v e))) \<le> unat (sendGeneration (voPort v)) + 1"
proof (cases e)
  case SetterTurn
  assume "unat (sendGeneration (voPort v)) < 2 ^ 64 - 1"
  then show ?thesis using invalidated [of "voPort v"] by (auto simp: SetterTurn setterTurn_def split: muteStage.splits prod.splits)
qed (auto simp: beginMute_def beginCallback_def callbackTurn_def encoderTakes_def encoderEncodes_def encoderChecks_def
    encoderSubmits_def peerConsumes_def releaseCaptured_def SubmitSend_def ConsumeSend_def Let_def
    split: option.splits encoderStage.splits prod.splits if_splits)

lemma voice_start: "ring_ok capacity \<Longrightarrow> voice_inv (startVoice capacity g :: ('s::zero) voice)"
proof -
  assume ring: "ring_ok capacity"
  have "assembling 0 [] (newAssembler capacity :: 's captureAssembler)"
    using new_queue_ok [OF ring, where ?'s = 's] new_sized by (simp add: assembling_def newAssembler_def)
  then show ?thesis using new_queue_ok [OF ring, where ?'s = 's]
    by (auto simp: voice_inv_def startVoice_def setter_ok_def captured_ok_def sent_ok_def NewFlow_def newAssembler_def)
qed

lemma voice_run:
  assumes "ring_ok capacity" and "list_all shortCallback es" and "unat g + length es < 2 ^ 64"
  shows "voice_inv (foldl voiceStep (startVoice capacity g) es) \<and>
    unat (sendGeneration (voPort (foldl voiceStep (startVoice capacity g) es))) \<le> unat g + length es"
  using assms(2,3)
proof (induction es rule: rev_induct)
  case Nil
  show ?case using voice_start [OF assms(1)] by (simp add: startVoice_def)
next
  case (snoc e es)
  let ?v = "foldl voiceStep (startVoice capacity g) es"
  have v: "voice_inv ?v" "unat (sendGeneration (voPort ?v)) \<le> unat g + length es" using snoc by simp_all
  then have "unat (sendGeneration (voPort ?v)) < 2 ^ 64 - 1" using snoc.prems by simp
  with v snoc.prems voiceStep_inv [of ?v e] port_generation [of ?v e] show ?case by simp
qed

text \<open>C32: once \<open>SetCaptureMuted(true)\<close> has returned, and until unmuting begins, whatever waits at the port for the peer is a frame
  of silence, although callback, encoder and peer run on meanwhile at any step; a frame with sound that was captured,
  encoded or even handed over before is gone or refused.  This needs callbacks of less than one frame.\<close>

theorem mute_silences:
  assumes "ring_ok capacity" and "list_all shortCallback es" and "unat g + length es < 2 ^ 64"
    and "v = foldl voiceStep (startVoice capacity g) es"
    and "voSetter v = SetterIdle" and "voStatus v" and "hasSend (voPort v)"
  shows "\<exists>f. voSent v = Some f \<and> pfMuted f \<and> pfSamples f = replicate FrameSamples 0"
proof -
  have inv: "voice_inv v" using voice_run [OF assms(1-3)] assms(4) by simp
  then have "quiet v" "voGeneration v = sendGeneration (voPort v)"
    using assms(5,6) by (simp_all add: voice_inv_def setter_ok_def quiet_def)
  with inv assms(7) show ?thesis by (auto simp: voice_inv_def sent_ok_def frame_fine_def)
qed

text \<open>One frame through the encoder, and samples that fit the frame through the callback.\<close>

lemma frame_sent:
  assumes "queue_ok (caQueue (voAssembler v))" and "queued (caQueue (voAssembler v)) = [f]" and "voEncoder v = EncoderIdle"
    and "pfGeneration f = voGeneration v" and "voGeneration v = sendGeneration (voPort v)"
    and "v' = foldl voiceStep v [EncoderTakes, EncoderEncodes (Some [1]) False, EncoderChecks, EncoderSubmits 0]"
  shows "voSent v' = Some f" and "hasSend (voPort v')" and "voSetter v' = voSetter v" and "voStatus v' = voStatus v"
proof -
  obtain i where i: "AcquireRead (caQueue (voAssembler v)) = Some i"
    using assms(2) pcm.head_None [OF assms(1)] by (metis list.discI not_None_eq)
  then have "slot (caQueue (voAssembler v)) i = f" using pcm.head_Some [OF assms(1)] assms(2) by fastforce
  with i assms show "voSent v' = Some f" "hasSend (voPort v')" "voSetter v' = voSetter v" "voStatus v' = voStatus v"
    by (simp_all add: encoderTakes_def encoderEncodes_def encoderChecks_def encoderSubmits_def releaseCaptured_def SubmitSend_def Let_def)
qed

lemma block_captured:
  assumes "assembling n cur a" and "writeChunk (Some g) muted valid xs ys a = (a', out)" and "xs \<noteq> []" and "length cur + length xs \<le> FrameSamples"
    and "voCallback v = Some \<lparr>cbMuted = muted, cbSamples = xs, cbReference = ys, cbLengthValid = valid\<rparr>"
    and "voGeneration v = g" and "voAssembler v = a"
  shows "foldl voiceStep v [CallbackTurn, CallbackTurn] = v\<lparr>voAssembler := a', voCallback := None\<rparr>"
proof -
  have "min (length xs) (FrameSamples - caOffset a) = length xs" using assms by (auto simp: assembling_def)
  then show ?thesis using assms by (simp add: callbackTurn_def)
qed

lemma new_assembling:
  fixes a :: "nat captureAssembler"
  assumes "a = newAssembler 2"
  shows "assembling 0 [] a" "queued (caQueue a) = []" "\<not> begunDrop [] a"
proof -
  have "ring_ok 2" by (simp add: ring_ok_def)
  from new_queue_ok [OF this, where ?'s = nat] show "assembling 0 [] a" "queued (caQueue a) = []" "\<not> begunDrop [] a"
    using new_sized assms by (auto simp: assembling_def newAssembler_def begunDrop_def AcquireWrite_def newPCMFrameQueue_def)
qed

text \<open>
  The callback loads \<open>captureMuted\<close> before the generation of its frame.  A callback of a whole frame that began before the
  microphone was muted and loads the generation afterwards marks what it captured as new, and it is sent.
\<close>

definition exampleLeak :: "nat voiceEvent list" where
  "exampleLeak = [CallbackBegins (replicate FrameSamples 5) (replicate FrameSamples 0), SetMuted True, SetterTurn, SetterTurn, SetterTurn]
     @ [CallbackTurn, CallbackTurn] @ [EncoderTakes, EncoderEncodes (Some [1]) False, EncoderChecks, EncoderSubmits 0]"

lemma leak_begin:
  assumes "v = foldl voiceStep (startVoice 2 1)
    [CallbackBegins (replicate FrameSamples 5) (replicate FrameSamples (0 :: nat)), SetMuted True, SetterTurn, SetterTurn, SetterTurn]"
  shows "voSetter v = SetterIdle" "voStatus v" "voGeneration v = 2" "sendGeneration (voPort v) = 2" "voEncoder v = EncoderIdle"
    "voAssembler v = newAssembler 2"
    "voCallback v = Some \<lparr>cbMuted = False, cbSamples = replicate FrameSamples 5, cbReference = replicate FrameSamples 0, cbLengthValid = True\<rparr>"
  by (simp_all add: assms startVoice_def beginCallback_def beginMute_def setterTurn_def InvalidateSend_def
    advanceSendGenerationLocked_def NewFlow_def Let_def)

theorem mute_leaks_whole_frame:
  "\<exists>f. voSent (foldl voiceStep (startVoice 2 1) exampleLeak) = Some f \<and> pfSamples f = replicate FrameSamples 5 \<and>
     hasSend (voPort (foldl voiceStep (startVoice 2 1) exampleLeak)) \<and>
     voSetter (foldl voiceStep (startVoice 2 1) exampleLeak) = SetterIdle \<and> voStatus (foldl voiceStep (startVoice 2 1) exampleLeak)"
proof -
  define v where "v = foldl voiceStep (startVoice 2 1)
    [CallbackBegins (replicate FrameSamples 5) (replicate FrameSamples (0 :: nat)), SetMuted True, SetterTurn, SetterTurn, SetterTurn]"
  note v = leak_begin [OF v_def] and fresh = new_assembling [OF refl]
  obtain a out where w: "writeChunk (Some 2) False True (replicate FrameSamples 5) (replicate FrameSamples (0 :: nat)) (newAssembler 2) = (a, out)"
    by fastforce
  have u: "foldl voiceStep v [CallbackTurn, CallbackTurn] = v\<lparr>voAssembler := a, voCallback := None\<rparr>"
    by (rule block_captured [OF fresh(1) w _ _ v(7,3,6)]) simp_all
  from writeChunk_keeps [OF fresh(1) _ _ w] chunk_generation [OF fresh(1) _ _ w] fresh
  obtain f where f: "frame_ok (map (\<lambda>s. (s, False)) (replicate FrameSamples 5)) 0 (Some f)" "queued (caQueue a) = [f]"
      "pfGeneration f = 2" "assembling 1 [] a"
    by (auto simp: map_filter_def begunGeneration_def)
  define u where "u = v\<lparr>voAssembler := a, voCallback := None\<rparr>"
  have q: "queue_ok (caQueue (voAssembler u))" "queued (caQueue (voAssembler u)) = [f]" "voEncoder u = EncoderIdle"
      "pfGeneration f = voGeneration u" "voGeneration u = sendGeneration (voPort u)"
    using f v by (simp_all add: u_def assembling_def)
  have e: "foldl voiceStep (startVoice 2 1) exampleLeak =
      foldl voiceStep u [EncoderTakes, EncoderEncodes (Some [1]) False, EncoderChecks, EncoderSubmits 0]"
    unfolding exampleLeak_def foldl_append v_def [symmetric] u u_def ..
  have "pfSamples f = replicate FrameSamples 5" using f(1) by (auto simp: frame_ok_def list_ex_iff comp_def)
  then show ?thesis using frame_sent [OF q e] v by (auto simp: u_def)
qed

text \<open>Muted first, then a frame, which is sent as silence.\<close>

definition exampleMute :: "nat voiceEvent list" where
  "exampleMute = [SetMuted True, SetterTurn, SetterTurn, SetterTurn, CallbackBegins (replicate 240 5) (replicate 240 0)] @ [CallbackTurn, CallbackTurn]
     @ [CallbackBegins (replicate 240 5) (replicate 240 0)] @ [CallbackTurn, CallbackTurn]
     @ [EncoderTakes, EncoderEncodes (Some [1]) False, EncoderChecks, EncoderSubmits 0]"

lemma mute_begin:
  assumes "v = foldl voiceStep (startVoice 2 1)
    [SetMuted True, SetterTurn, SetterTurn, SetterTurn, CallbackBegins (replicate 240 5) (replicate 240 (0 :: nat))]"
  shows "voSetter v = SetterIdle" "voStatus v" "voMuted v" "voGeneration v = 2" "sendGeneration (voPort v) = 2" "voEncoder v = EncoderIdle"
    "voAssembler v = newAssembler 2"
    "voCallback v = Some \<lparr>cbMuted = True, cbSamples = replicate 240 5, cbReference = replicate 240 0, cbLengthValid = True\<rparr>"
  by (simp_all add: assms startVoice_def beginCallback_def beginMute_def setterTurn_def InvalidateSend_def
    advanceSendGenerationLocked_def NewFlow_def Let_def)

lemma mute_sent:
  assumes "v = foldl voiceStep (startVoice 2 1) exampleMute"
  shows "voSetter v = SetterIdle" "voStatus v" "hasSend (voPort v)"
proof -
  define b where "b = foldl voiceStep (startVoice 2 1)
    [SetMuted True, SetterTurn, SetterTurn, SetterTurn, CallbackBegins (replicate 240 5) (replicate 240 (0 :: nat))]"
  note b = mute_begin [OF b_def] and fresh = new_assembling [OF refl]
  let ?half = "map (\<lambda>s. (s, True)) (replicate 240 (5 :: nat))"
  have half: "length ?half = 240" "?half \<noteq> []" "FrameSamples = 480" by (simp_all add: FrameSamples_def)
  obtain a out where w: "writeChunk (Some 2) True True (replicate 240 5) (replicate 240 (0 :: nat)) (newAssembler 2) = (a, out)"
    by fastforce
  have u: "foldl voiceStep b [CallbackTurn, CallbackTurn] = b\<lparr>voAssembler := a, voCallback := None\<rparr>"
    by (rule block_captured [OF fresh(1) w _ _ b(8,4,7)]) (simp_all add: half(3))
  have a: "assembling 0 ?half a" "queued (caQueue a) = []" "\<not> caDrop a" "openGeneration a = 2"
    using writeChunk_keeps [OF fresh(1) _ _ w] chunk_generation [OF fresh(1) _ _ w] fresh half
    by (auto simp: begunGeneration_def)
  define c where "c = foldl voiceStep (b\<lparr>voAssembler := a, voCallback := None\<rparr>) [CallbackBegins (replicate 240 5) (replicate 240 0)]"
  have c: "voSetter c = SetterIdle" "voStatus c" "voGeneration c = 2" "sendGeneration (voPort c) = 2" "voEncoder c = EncoderIdle"
    "voAssembler c = a" "voCallback c = Some \<lparr>cbMuted = True, cbSamples = replicate 240 5, cbReference = replicate 240 0, cbLengthValid = True\<rparr>"
    using b by (simp_all add: c_def beginCallback_def)
  obtain a' out' where w': "writeChunk (Some 2) True True (replicate 240 5) (replicate 240 0) a = (a', out')"
    by fastforce
  have u': "foldl voiceStep c [CallbackTurn, CallbackTurn] = c\<lparr>voAssembler := a', voCallback := None\<rparr>"
    by (rule block_captured [OF a(1) w' _ _ c(7,3,6)]) (simp_all add: half(3))
  have full: "length ?half + length (replicate 240 (5 :: nat)) = FrameSamples" "replicate 240 (5 :: nat) \<noteq> []" using half by auto
  obtain f where f: "queued (caQueue a') = [f]" "pfGeneration f = 2" "queue_ok (caQueue a')"
    using writeChunk_keeps [OF a(1) full(2) _ w'] chunk_generation [OF a(1) full(2) _ w'] a half full
    by (auto simp: map_filter_def begunGeneration_def begunDrop_def assembling_def)
  define d where "d = c\<lparr>voAssembler := a', voCallback := None\<rparr>"
  have q: "queue_ok (caQueue (voAssembler d))" "queued (caQueue (voAssembler d)) = [f]" "voEncoder d = EncoderIdle"
      "pfGeneration f = voGeneration d" "voGeneration d = sendGeneration (voPort d)"
    using f c by (simp_all add: d_def)
  have e: "v = foldl voiceStep d [EncoderTakes, EncoderEncodes (Some [1]) False, EncoderChecks, EncoderSubmits 0]"
    unfolding assms exampleMute_def foldl_append b_def [symmetric] u c_def [symmetric] u' d_def ..
  show "voSetter v = SetterIdle" "voStatus v" "hasSend (voPort v)" using frame_sent [OF q e] c by (simp_all add: d_def)
qed

theorem mute_silences_witness:
  "\<exists>f. voSent (foldl voiceStep (startVoice 2 1) exampleMute) = Some f \<and> pfMuted f \<and> pfSamples f = replicate FrameSamples 0"
proof (rule mute_silences [of 2 exampleMute 1, OF _ _ _ refl])
  show "ring_ok 2" by (simp add: ring_ok_def)
  show "list_all shortCallback exampleMute" "unat (1 :: uint64) + length exampleMute < 2 ^ 64"
    by (simp_all add: exampleMute_def FrameSamples_def)
qed (rule mute_sent [OF refl])+

end
