(* ===== verification/AudioPlayback.thy ===== *)
theory AudioPlayback
  imports AudioCallbacks
begin

text \<open>
  Every sample the playback callback plays is silence or the sample of the frame whose time it is: frames that come late are
  skipped, frames that come early wait.
\<close>

section \<open>Finding the frame whose time it is\<close>

lemma seek_keeps:
  "seekFrame n index q = (current, q') \<Longrightarrow> queue_ok q \<Longrightarrow>
   queue_ok q' \<and> set (queued q') \<subseteq> set (queued q) \<and>
   (\<forall>i. current = Some i \<longrightarrow> AcquireRead q' = Some i \<and> pfIndex (slot q' i) = index)"
proof (induction n index q arbitrary: current q' rule: seekFrame.induct)
  case (1 n index q)
  show ?case
  proof (cases "AcquireRead q")
    case None
    with 1 show ?thesis by (auto simp: seekFrame.simps [of n])
  next
    case (Some i)
    show ?thesis
    proof (cases "pfIndex (slot q i) < index \<and> n \<noteq> 0")
      case True
      then obtain m where m: "n = Suc m" by (cases n) auto
      have rest: "queue_ok (ReleaseRead q)" "queued (ReleaseRead q) = tl (queued q)" using release_keeps [OF 1(3) Some] by simp_all
      have "seekFrame m index (ReleaseRead q) = (current, q')" using 1(2) Some True m by (simp add: seekFrame.simps [of "Suc m"])
      moreover have "set (tl (queued q)) \<subseteq> set (queued q)" by (cases "queued q") auto
      ultimately show ?thesis using "1.IH" [OF Some _ m] True rest by auto
    next
      case False
      with 1 Some show ?thesis by (auto simp: seekFrame.simps [of n] split: nat.splits if_splits)
    qed
  qed
qed

text \<open>A frame in the queue is found when its time comes, as long as the frames lie in the order of their time.\<close>

lemma seek_finds:
  "queue_ok q \<Longrightarrow> length (queued q) \<le> n \<Longrightarrow> sorted_wrt (\<lambda>f g. pfIndex f < pfIndex g) (queued q) \<Longrightarrow> f \<in> set (queued q) \<Longrightarrow>
   pfIndex f = index \<Longrightarrow> seekFrame n index q = (current, q') \<Longrightarrow> \<exists>i. current = Some i \<and> slot q' i = f"
proof (induction n index q arbitrary: current q' rule: seekFrame.induct)
  case (1 n index q)
  then obtain i where i: "AcquireRead q = Some i" by (cases "AcquireRead q") (auto simp: pcm.head_None)
  note q = pcm.pop [OF "1.prems"(1) i]
  show ?case
  proof (cases "pfIndex (slot q i) < index")
    case True
    then obtain m where m: "n = Suc m" using "1.prems"(2) q by (cases n) (auto simp: pcm.head_None [OF "1.prems"(1)] i simp del: length_queued)
    have f: "f \<in> set (queued (ReleaseRead q))" using True "1.prems"(4,5) q by (metis list.set_cases order_less_irrefl set_ConsD)
    have rest: "length (queued (ReleaseRead q)) \<le> m" "sorted_wrt (\<lambda>f g. pfIndex f < pfIndex g) (queued (ReleaseRead q))"
      using "1.prems"(2,3) m unfolding q by (simp_all del: length_queued)
    have "seekFrame m index (ReleaseRead q) = (current, q')" using "1.prems"(6) i True m by (simp add: seekFrame.simps [of "Suc m"])
    from "1.IH" [OF i True m release_keeps(1) [OF "1.prems"(1) i] rest f "1.prems"(5) this] show ?thesis .
  next
    case False
    have "slot q i = f"
      using False "1.prems"(3-5) unfolding q by auto
    then have "seekFrame n index q = (Some i, q)" using False i "1.prems"(5) by (subst seekFrame.simps) simp
    with \<open>slot q i = f\<close> "1.prems"(6) show ?thesis by auto
  qed
qed

section \<open>What is played\<close>

definition timely :: "('s::zero) pcmFrame list \<Rightarrow> nat \<Rightarrow> 's \<times> bool \<Rightarrow> bool" where
  "timely pushed m played \<longleftrightarrow>
     fst played = 0 \<or>
     list_ex (\<lambda>f. pfIndex f = of_nat (m div FrameSamples) \<and> fst played = pfSamples f ! (m mod FrameSamples) \<and>
       (snd played \<longrightarrow> pfLocalOnly f)) pushed"

definition all_timely :: "('s::zero) pcmFrame list \<Rightarrow> ('s \<times> bool) list \<Rightarrow> bool" where
  "all_timely pushed out \<longleftrightarrow> (\<forall>m < length out. timely pushed m (out ! m))"

definition playing :: "('s::zero) pcmFrame list \<Rightarrow> nat \<Rightarrow> ('s \<times> bool) list \<Rightarrow> 's playbackReader \<Rightarrow> bool" where
  "playing pushed index out r \<longleftrightarrow>
     queue_ok (prQueue r) \<and> set (queued (prQueue r)) \<subseteq> set pushed \<and> list_all (\<lambda>f. length (pfSamples f) = FrameSamples) pushed \<and>
     prIndex r = of_nat index \<and> prOffset r \<le> FrameSamples \<and> all_timely pushed out \<and>
     length out = FrameSamples * index + (if prOffset r = FrameSamples then 0 else prOffset r) \<and>
     (prOffset r < FrameSamples \<longrightarrow>
       (\<forall>i. prCurrent r = Some i \<longrightarrow> AcquireRead (prQueue r) = Some i \<and> pfIndex (slot (prQueue r) i) = of_nat index))"

lemma begin_playing:
  assumes "playing pushed index out r"
  shows "playing pushed index out (beginPlayback r)" and "prOffset (beginPlayback r) < FrameSamples"
proof -
  obtain current q where s: "seekFrame (length (queued (prQueue r))) (prIndex r) (prQueue r) = (current, q)" by fastforce
  have e: "beginPlayback r = (if prOffset r = FrameSamples then r\<lparr>prQueue := q, prCurrent := current, prOffset := 0,
      prDemand := prIndex r + 1, prWake := True\<rparr> else r)"
    unfolding beginPlayback_def s by simp
  have "queue_ok (prQueue r)" using assms by (simp add: playing_def)
  note kept = seek_keeps [OF s this]
  show "playing pushed index out (beginPlayback r)" using assms kept unfolding playing_def e by (auto simp del: length_queued)
  show "prOffset (beginPlayback r) < FrameSamples" using assms by (simp add: e playing_def)
qed

lemma length_playedSamples:
  assumes "playing pushed index out r" and "prOffset r + count \<le> FrameSamples" and "0 < count"
  shows "length (playedSamples muted count r) = count"
proof (cases "prCurrent r")
  case (Some i)
  with assms have i: "queue_ok (prQueue r)" "AcquireRead (prQueue r) = Some i" by (simp_all add: playing_def)
  have "slot (prQueue r) i \<in> set pushed" using assms(1) pcm.pop [OF i] by (metis list.set_intros(1) playing_def subsetD)
  then have "length (pfSamples (slot (prQueue r) i)) = FrameSamples" using assms(1) by (auto simp: playing_def list_all_iff)
  then show ?thesis using assms(2) Some by (simp add: playedSamples_def Let_def)
qed (simp add: playedSamples_def)

lemma played_timely:
  assumes "playing pushed index out r" and "prOffset r < FrameSamples" and "prOffset r + count \<le> FrameSamples" and "j < count"
  shows "timely pushed (length out + j) (playedSamples muted count r ! j, muted)"
proof (cases "prCurrent r")
  case None
  with assms show ?thesis by (simp add: playedSamples_def timely_def)
next
  case (Some i)
  with assms have i: "queue_ok (prQueue r)" "AcquireRead (prQueue r) = Some i" "pfIndex (slot (prQueue r) i) = of_nat index"
    by (simp_all add: playing_def)
  have p: "slot (prQueue r) i \<in> set pushed" using assms(1) pcm.pop [OF i(1,2)] by (metis list.set_intros(1) playing_def subsetD)
  then have size: "length (pfSamples (slot (prQueue r) i)) = FrameSamples" using assms(1) by (auto simp: playing_def list_all_iff)
  have "length out + j = FrameSamples * index + (prOffset r + j)" "prOffset r + j < FrameSamples" using assms by (auto simp: playing_def)
  moreover have "(FrameSamples * index + x) div FrameSamples = index" "(FrameSamples * index + x) mod FrameSamples = x"
    if "x < FrameSamples" for x using that by simp_all
  ultimately have m: "(length out + j) div FrameSamples = index" "(length out + j) mod FrameSamples = prOffset r + j" by metis+
  show ?thesis
  proof (cases "\<not> muted \<or> pfLocalOnly (slot (prQueue r) i)")
    case True
    then have "playedSamples muted count r ! j = pfSamples (slot (prQueue r) i) ! (prOffset r + j)"
      using Some size assms by (simp add: playedSamples_def Let_def)
    then show ?thesis using True p i m by (auto simp: timely_def list_ex_iff intro!: bexI [of _ "slot (prQueue r) i"])
  next
    case False
    with Some assms show ?thesis by (simp add: playedSamples_def Let_def timely_def)
  qed
qed

lemma all_timely_append:
  "all_timely pushed out \<Longrightarrow> (\<And>j. j < length added \<Longrightarrow> timely pushed (length out + j) (added ! j)) \<Longrightarrow> all_timely pushed (out @ added)"
  by (auto simp: all_timely_def nth_append) (metis add_diff_inverse_nat nat_add_left_cancel_less)

lemma turn_playing:
  assumes "playing pushed index out r" and "prOffset r < FrameSamples" and "0 < count" and "prOffset r + count \<le> FrameSamples"
  shows "\<exists>index'. playing pushed index' (out @ map (\<lambda>s. (s, muted)) (playedSamples muted count r))
    (finishPlayback (r\<lparr>prOffset := prOffset r + count\<rparr>))"
proof -
  have len: "length (playedSamples muted count r) = count" using length_playedSamples assms by blast
  have "all_timely pushed (out @ map (\<lambda>s. (s, muted)) (playedSamples muted count r))"
    using assms played_timely [OF assms(1,2,4)] by (intro all_timely_append) (auto simp: len playing_def)
  note timely = this
  show ?thesis
  proof (cases "prOffset r + count = FrameSamples")
    case False
    with assms timely len show ?thesis by (intro exI [of _ index]) (auto simp: playing_def finishPlayback_def)
  next
    case True
    have "set (tl (queued (prQueue r))) \<subseteq> set (queued (prQueue r))" by (cases "queued (prQueue r)") auto
    with assms timely len True release_keeps [of "prQueue r"] show ?thesis
      by (intro exI [of _ "Suc index"]) (auto simp: playing_def finishPlayback_def split: option.split)
  qed
qed

lemma readLoop_playing:
  "playing pushed index out r \<Longrightarrow> left \<le> fuel \<Longrightarrow> readLoop fuel muted left r = (outs, r') \<Longrightarrow>
   length outs = left \<and> (\<exists>index'. playing pushed index' (out @ map (\<lambda>s. (s, muted)) outs) r')"
proof (induction fuel arbitrary: index out left r outs r')
  case (Suc fuel)
  show ?case
  proof (cases "left = 0")
    case False
    define b where "b = beginPlayback r"
    define count where "count = min left (FrameSamples - prOffset b)"
    have b: "playing pushed index out b" "prOffset b < FrameSamples" using begin_playing [OF Suc.prems(1)] by (simp_all add: b_def)
    then have count: "0 < count" "count \<le> left" "prOffset b + count \<le> FrameSamples" using False by (auto simp: count_def)
    obtain added r2 where l: "readLoop fuel muted (left - count) (finishPlayback (b\<lparr>prOffset := prOffset b + count\<rparr>)) = (added, r2)"
      by fastforce
    have e: "outs = playedSamples muted count b @ added" "r' = r2"
      using Suc.prems(3) False l by (simp_all add: b_def [symmetric] count_def [symmetric] Let_def)
    obtain index' where "playing pushed index' (out @ map (\<lambda>s. (s, muted)) (playedSamples muted count b))
        (finishPlayback (b\<lparr>prOffset := prOffset b + count\<rparr>))"
      using turn_playing [OF b count(1,3)] by blast
    from Suc.IH [OF this _ l] Suc.prems(2) count e length_playedSamples [OF b(1) count(3,1)] show ?thesis by auto
  qed (use Suc.prems in auto)
qed auto

section \<open>Reader and mixer\<close>

definition pushFrame :: "'s pcmFrame \<Rightarrow> 's pcmFrameQueue \<Rightarrow> 's pcmFrameQueue" where
  "pushFrame f q = (case AcquireWrite q of None \<Rightarrow> q | Some i \<Rightarrow> CommitWrite (putSlot i f q))"

datatype 's playbackEvent = Plays nat bool | Pushes "'s pcmFrame"

definition playbackStep :: "('s::zero) playbackReader \<times> ('s \<times> bool) list \<times> 's pcmFrame list \<Rightarrow> 's playbackEvent \<Rightarrow>
    's playbackReader \<times> ('s \<times> bool) list \<times> 's pcmFrame list" where
  "playbackStep s event =
     (case s of (r, out, pushed) \<Rightarrow>
        (case event of
           Plays count muted \<Rightarrow> (let (samples, r) = readerRead count muted r in (r, out @ map (\<lambda>s. (s, muted)) samples, pushed))
         | Pushes f \<Rightarrow> if length (pfSamples f) = FrameSamples then (r\<lparr>prQueue := pushFrame f (prQueue r)\<rparr>, out, pushed @ [f]) else s))"

definition playbackRun :: "nat \<Rightarrow> ('s::zero) playbackEvent list \<Rightarrow> 's playbackReader \<times> ('s \<times> bool) list \<times> 's pcmFrame list" where
  "playbackRun capacity events = foldl playbackStep (newPlaybackReader (newPCMFrameQueue capacity) 0, [], []) events"

lemma all_timely_more: "all_timely pushed out \<Longrightarrow> all_timely (pushed @ added) out"
  by (auto simp: all_timely_def timely_def)

lemma push_playing:
  assumes "playing pushed index out r" and "length (pfSamples f) = FrameSamples"
  shows "playing (pushed @ [f]) index out (r\<lparr>prQueue := pushFrame f (prQueue r)\<rparr>)"
proof (cases "AcquireWrite (prQueue r)")
  case None
  with assms show ?thesis by (auto simp: playing_def pushFrame_def all_timely_more)
next
  case (Some i)
  have q: "queue_ok (prQueue r)" using assms by (simp add: playing_def)
  note p = pcm.push [OF q Some, of f]
  have "AcquireRead (CommitWrite (putSlot i f (prQueue r))) = Some j \<and> slot (CommitWrite (putSlot i f (prQueue r))) j = slot (prQueue r) j"
    if "AcquireRead (prQueue r) = Some j" for j
    using that q Some p AcquireRead_Commit [of "putSlot i f (prQueue r)"] write_slot_fresh [OF q Some, of 0]
    by (auto simp: slot_putSlot AcquireRead_iff simp del: length_queued split: if_splits)
  with assms p Some show ?thesis by (auto simp: playing_def pushFrame_def all_timely_more)
qed

lemma playbackStep_playing:
  "playing pushed index out r \<Longrightarrow> playbackStep (r, out, pushed) event = (r', out', pushed') \<Longrightarrow> \<exists>index'. playing pushed' index' out' r'"
proof (cases event)
  case (Plays count muted)
  moreover assume "playing pushed index out r" "playbackStep (r, out, pushed) event = (r', out', pushed')"
  ultimately show ?thesis using readLoop_playing [of pushed index out r count count muted]
    by (auto simp: playbackStep_def readerRead_def split: prod.splits)
next
  case (Pushes f)
  moreover assume "playing pushed index out r" "playbackStep (r, out, pushed) event = (r', out', pushed')"
  ultimately show ?thesis using push_playing [of pushed index out r f]
    by (auto simp: playbackStep_def split: if_splits)
qed

lemma playback_playing:
  assumes "ring_ok capacity" and "playbackRun capacity events = (r, out, pushed)"
  shows "\<exists>index. playing pushed index out r"
  using assms(2)
proof (induction events arbitrary: r out pushed rule: rev_induct)
  case Nil
  then show ?case
    by (auto simp: playbackRun_def playing_def newPlaybackReader_def all_timely_def new_queue_ok [OF assms(1)] intro!: exI [of _ 0])
next
  case (snoc event events)
  obtain r1 out1 pushed1 where s: "playbackRun capacity events = (r1, out1, pushed1)" by (cases "playbackRun capacity events") auto
  from snoc.IH [OF this] obtain index where "playing pushed1 index out1 r1" ..
  from playbackStep_playing [OF this] snoc.prems s show ?case by (auto simp: playbackRun_def)
qed

text \<open>C34: in any run of playback callbacks and committed frames, in whatever pieces samples are asked for, a sample that is
  not silence is the one its frame holds for just that time, and while playback is muted only frames marked as local are
  heard; late frames are never played, and no frame is played twice or early.\<close>

theorem playback_in_time:
  assumes "ring_ok capacity" and "playbackRun capacity events = (r, out, pushed)" and "m < length out"
  shows "timely pushed m (out ! m)"
  using playback_playing [OF assms(1,2)] assms(3) by (auto simp: playing_def all_timely_def)

lemma run_snoc: "playbackRun capacity (events @ [event]) = playbackStep (playbackRun capacity events) event"
  by (simp add: playbackRun_def)

lemma length_out_plays:
  assumes "ring_ok capacity" and "playbackRun capacity events = (r, out, pushed)"
    and "playbackRun capacity (events @ [Plays count muted]) = (r', out', pushed')"
  shows "length out' = length out + count"
proof -
  obtain index where "playing pushed index out r" using playback_playing assms by blast
  with assms readLoop_playing [of pushed index out r count count muted] show ?thesis
    by (auto simp: run_snoc playbackStep_def readerRead_def split: prod.splits)
qed

definition exampleTone :: "nat pcmFrame" where "exampleTone = noFrame\<lparr>pfSamples := replicate FrameSamples 5\<rparr>"

theorem playback_in_time_witness:
  "\<exists>r out pushed. playbackRun 2 [Pushes exampleTone, Plays 10 False] = (r, out, pushed) \<and> timely pushed 9 (out ! 9)"
proof -
  have ring: "ring_ok 2" by (simp add: ring_ok_def)
  obtain r out pushed where b: "playbackRun 2 [Pushes exampleTone] = (r, out, pushed)" by (cases "playbackRun 2 [Pushes exampleTone]") auto
  obtain r' out' pushed' where p: "playbackRun 2 ([Pushes exampleTone] @ [Plays 10 False]) = (r', out', pushed')"
    by (cases "playbackRun 2 ([Pushes exampleTone] @ [Plays 10 False])") auto
  have "9 < length out'" using length_out_plays [OF ring b p] by simp
  from playback_in_time [OF ring p this] p show ?thesis by auto
qed

text \<open>A frame that is in the queue when its time comes is played whole, unless playback is muted and the frame is not
  local, as long as the mixer commits frames in the order of their time.\<close>

theorem playback_plays_due:
  assumes "queue_ok (prQueue r)" and "sorted_wrt (\<lambda>f g. pfIndex f < pfIndex g) (queued (prQueue r))" and "f \<in> set (queued (prQueue r))"
    and "length (pfSamples f) = FrameSamples" and "pfIndex f = prIndex r" and "prOffset r = FrameSamples" and "muted \<longrightarrow> pfLocalOnly f"
  shows "fst (readerRead FrameSamples muted r) = pfSamples f \<and> prDemand (snd (readerRead FrameSamples muted r)) = prIndex r + 1"
proof -
  obtain current q where s: "seekFrame (length (queued (prQueue r))) (prIndex r) (prQueue r) = (current, q)" by fastforce
  then obtain i where i: "current = Some i" "slot q i = f" using seek_finds [OF assms(1) order_refl assms(2,3,5)] by blast
  define b where "b = r\<lparr>prQueue := q, prCurrent := Some i, prOffset := 0, prDemand := prIndex r + 1, prWake := True\<rparr>"
  have b: "beginPlayback r = b" using assms(6) s i by (simp add: beginPlayback_def b_def)
  have "playedSamples muted FrameSamples b = pfSamples f" using i assms(4,7) by (auto simp: playedSamples_def b_def)
  moreover obtain n where n: "FrameSamples = Suc n" by (metis FrameSamples_pos(1) gr0_conv_Suc)
  have "readLoop (Suc n) muted FrameSamples r = (playedSamples muted FrameSamples b, finishPlayback (b\<lparr>prOffset := FrameSamples\<rparr>))"
  proof -
    have "readLoop n muted 0 x = ([], x)" for x :: "'a playbackReader" by (cases n) simp_all
    then show ?thesis using b by (simp add: Let_def b_def)
  qed
  ultimately show ?thesis unfolding readerRead_def by (simp add: n finishPlayback_def b_def split: option.split)
qed

theorem playback_plays_due_witness:
  "\<exists>r. queued (prQueue r) = [exampleTone] \<and> fst (readerRead FrameSamples False r) = replicate FrameSamples 5"
proof -
  define q where "q = pushFrame exampleTone (newPCMFrameQueue 2)"
  have new: "queue_ok (newPCMFrameQueue 2 :: nat pcmFrameQueue)" "queued (newPCMFrameQueue 2 :: nat pcmFrameQueue) = []"
    using new_queue_ok [where 's = nat, of 2] by (simp_all add: ring_ok_def)
  have "AcquireWrite (newPCMFrameQueue 2 :: nat pcmFrameQueue) = Some 0" by (simp add: AcquireWrite_def newPCMFrameQueue_def slotOf_def)
  with pcm.push [OF new(1) this, of exampleTone] new have q: "queue_ok q" "queued q = [exampleTone]" by (simp_all add: q_def pushFrame_def)
  let ?r = "newPlaybackReader q 0"
  have "fst (readerRead FrameSamples False ?r) = pfSamples exampleTone \<and> prDemand (snd (readerRead FrameSamples False ?r)) = prIndex ?r + 1"
    by (rule playback_plays_due) (simp_all add: q newPlaybackReader_def exampleTone_def noFrame_def)
  then show ?thesis using q by (intro exI [of _ ?r]) (simp add: newPlaybackReader_def exampleTone_def)
qed

end
