(* ===== verification/AudioMixer.thy ===== *)
theory AudioMixer
  imports Complex_Main AudioQueue IdentityText MediaFlow
begin

text \<open>
  The mixer of the received audio, \<open>internal/audio/mixer.go\<close>: one jitter buffer per source and kind, which puts frames in
  order, conceals the lost ones and hands them to the decoder.  The decoder and the floating-point operations are
  parameters; nothing below depends on what they compute.  Go visits a map in any order; here the streams lie in a list.
\<close>

section \<open>Arithmetic and decoder\<close>

record ('s, 'f) floats =
  flLiteral :: "rat \<Rightarrow> 'f"
  flOfInt :: "int \<Rightarrow> 'f"
  flWiden :: "'s \<Rightarrow> 'f"
  flNarrow :: "'f \<Rightarrow> 's"
  flAdd :: "'f \<Rightarrow> 'f \<Rightarrow> 'f"
  flSub :: "'f \<Rightarrow> 'f \<Rightarrow> 'f"
  flMul :: "'f \<Rightarrow> 'f \<Rightarrow> 'f"
  flDiv :: "'f \<Rightarrow> 'f \<Rightarrow> 'f"
  flSqrt :: "'f \<Rightarrow> 'f"
  flMin :: "'f \<Rightarrow> 'f \<Rightarrow> 'f"
  flMax :: "'f \<Rightarrow> 'f \<Rightarrow> 'f"
  flLess :: "'f \<Rightarrow> 'f \<Rightarrow> bool"
  flEqual :: "'f \<Rightarrow> 'f \<Rightarrow> bool"
  smOfInt :: "int \<Rightarrow> 's"
  smAdd :: "'s \<Rightarrow> 's \<Rightarrow> 's"
  smSub :: "'s \<Rightarrow> 's \<Rightarrow> 's"
  smMul :: "'s \<Rightarrow> 's \<Rightarrow> 's"
  smDiv :: "'s \<Rightarrow> 's \<Rightarrow> 's"
  smMin :: "'s \<Rightarrow> 's \<Rightarrow> 's"
  smMax :: "'s \<Rightarrow> 's \<Rightarrow> 's"

text \<open>What a decoding gives: an error, or the number of samples it wrote and the buffer.\<close>

record ('d, 's) decoderOps =
  dcNew :: "nat \<Rightarrow> bytes + 'd"
  dcReset :: "'d \<Rightarrow> 'd"
  dcDecode :: "'d \<Rightarrow> bytes option \<Rightarrow> 'd \<times> (bytes + nat \<times> 's list)"
  dcDecodeFEC :: "'d \<Rightarrow> bytes \<Rightarrow> 'd \<times> (bytes + nat \<times> 's list)"

section \<open>Constants\<close>

definition prebufferFrames :: nat where [simp]: "prebufferFrames = 2"
definition maxJitterFrames :: nat where [simp]: "maxJitterFrames = 16"
definition streamIdleFrames :: nat where [simp]: "streamIdleFrames = 100"
definition maxPLCFrames :: nat where [simp]: "maxPLCFrames = 10"
definition speakingThreshold :: rat where "speakingThreshold = 1 / 100"
definition speakingReleaseFrames :: nat where "speakingReleaseFrames = 300 div FrameDuration"
definition normalizationTargetRMS :: rat where "normalizationTargetRMS = 1 / 10"
definition normalizationMinimumGain :: rat where "normalizationMinimumGain = 1 / 4"
definition normalizationMaximumGain :: rat where "normalizationMaximumGain = 4"
definition normalizationAttackFrames :: nat where "normalizationAttackFrames = 50 div FrameDuration"
definition normalizationReleaseFrames :: nat where "normalizationReleaseFrames = 500 div FrameDuration"
definition normalizationSmoothingFrames :: nat where "normalizationSmoothingFrames = 100 div FrameDuration"
definition normalizationHoldFrames :: nat where "normalizationHoldFrames = 300 div FrameDuration"

section \<open>Speaking and loudness\<close>

text \<open>\<open>speakingHold\<close>: the frames left.  The first component tells whether the state changed.\<close>

definition speakingActive :: "nat \<Rightarrow> bool" where
  "speakingActive frames \<longleftrightarrow> frames > 0"

definition speakingUpdate :: "bool \<Rightarrow> nat \<Rightarrow> bool \<times> nat" where
  "speakingUpdate loud frames =
     (let frames' = (if loud then speakingReleaseFrames else if frames > 0 then frames - 1 else frames)
      in (speakingActive frames \<noteq> speakingActive frames', frames'))"

definition pcmRMS :: "('s, 'f) floats \<Rightarrow> 's list \<Rightarrow> 'f" where
  "pcmRMS fl pcm =
     (let energy = foldl (\<lambda>energy sample. flAdd fl energy (flWiden fl (smMul fl sample sample))) (flOfInt fl 0) pcm
      in flSqrt fl (flDiv fl energy (flOfInt fl (int (length pcm)))))"

fun rampLoop :: "('s, 'f) floats \<Rightarrow> 's \<Rightarrow> 's \<Rightarrow> 's list \<Rightarrow> 's list" where
  "rampLoop fl step gain [] = []"
| "rampLoop fl step gain (sample # samples) =
     (let gain = smAdd fl gain step
      in smMax fl (smOfInt fl (- 1)) (smMin fl (smOfInt fl 1) (smMul fl sample gain)) # rampLoop fl step gain samples)"

definition applyGainRamp :: "('s, 'f) floats \<Rightarrow> 's list \<Rightarrow> 's \<Rightarrow> 's \<Rightarrow> 's list \<times> 's" where
  "applyGainRamp fl samples fromGain toGain =
     (if length samples = 0 then (samples, toGain)
      else (rampLoop fl (smDiv fl (smSub fl toGain fromGain) (smOfInt fl (int (length samples)))) fromGain samples, toGain))"

record 'f loudnessNormalizer =
  lnMeasured :: 'f
  lnGain :: 'f
  lnHold :: nat

definition normalizerReset :: "('s, 'f) floats \<Rightarrow> 'f loudnessNormalizer" where
  "normalizerReset fl = \<lparr>lnMeasured = flOfInt fl 0, lnGain = flOfInt fl 1, lnHold = 0\<rparr>"

definition normalizerMeasure :: "('s, 'f) floats \<Rightarrow> 'f \<Rightarrow> bool \<Rightarrow> 'f loudnessNormalizer \<Rightarrow> 'f loudnessNormalizer" where
  "normalizerMeasure fl rawRMS measured n =
     (if measured \<and> flLess fl (flLiteral fl speakingThreshold) rawRMS then
        (let coefficient = flDiv fl (flOfInt fl 1)
               (flOfInt fl (int (if flLess fl (lnMeasured n) rawRMS then normalizationAttackFrames else normalizationReleaseFrames)));
             level = (if flEqual fl (lnMeasured n) (flOfInt fl 0) then rawRMS
                      else flAdd fl (lnMeasured n) (flMul fl (flSub fl rawRMS (lnMeasured n)) coefficient))
         in n\<lparr>lnMeasured := level, lnHold := normalizationHoldFrames\<rparr>)
      else if lnHold n > 0 then n\<lparr>lnHold := lnHold n - 1\<rparr>
      else n)"

definition normalizerTarget :: "('s, 'f) floats \<Rightarrow> bool \<Rightarrow> 'f loudnessNormalizer \<Rightarrow> 'f" where
  "normalizerTarget fl enabled n =
     (if enabled \<and> lnHold n > 0 \<and> flLess fl (flOfInt fl 0) (lnMeasured n) then
        flMax fl (flLiteral fl normalizationMinimumGain)
          (flMin fl (flLiteral fl normalizationMaximumGain) (flDiv fl (flLiteral fl normalizationTargetRMS) (lnMeasured n)))
      else flOfInt fl 1)"

definition normalizerProcess :: "('s, 'f) floats \<Rightarrow> 's list \<Rightarrow> 'f \<Rightarrow> bool \<Rightarrow> bool \<Rightarrow> 'f loudnessNormalizer \<Rightarrow>
    's list \<times> 'f loudnessNormalizer" where
  "normalizerProcess fl pcm rawRMS measured enabled n =
     (let n = (if flEqual fl (lnGain n) (flOfInt fl 0) then n\<lparr>lnGain := flOfInt fl 1\<rparr> else n);
          n = normalizerMeasure fl rawRMS measured n;
          target = normalizerTarget fl enabled n;
          nextGain = flAdd fl (lnGain n) (flDiv fl (flSub fl target (lnGain n)) (flOfInt fl (int normalizationSmoothingFrames)))
      in (fst (applyGainRamp fl pcm (flNarrow fl (lnGain n)) (flNarrow fl nextGain)), n\<lparr>lnGain := nextGain\<rparr>))"

section \<open>Jitter buffers\<close>

record jitterFrame =
  jfSequence :: uint64
  jfPayload :: bytes

record ('d, 's, 'f) jitterStream =
  jsDecoder :: 'd
  jsStreamID :: id16
  jsFrames :: "(uint32 \<times> jitterFrame) list"
  jsExpected :: uint32
  jsLatest :: uint32
  jsLatestSequence :: uint64
  jsFloor :: uint64
  jsHasLatest :: bool
  jsStarted :: bool
  jsIdle :: nat
  jsLosses :: nat
  jsPcm :: "'s list"
  jsSpeaking :: nat
  jsNormalizer :: "'f loudnessNormalizer"

type_synonym mixerStreamKey = "PeerID \<times> byte"

record ('d, 's, 'f) mixer =
  mxStreams :: "(mixerStreamKey \<times> ('d, 's, 'f) jitterStream) list"
  mxMaxFrameBytes :: nat
  mxSpeaking :: "PeerID list"
  mxNormalization :: bool
  mxScreenSource :: PeerID

definition newMixer :: "nat \<Rightarrow> ('d, 's, 'f) mixer" where
  "newMixer maxFrameBytes =
     \<lparr>mxStreams = [], mxMaxFrameBytes = maxFrameBytes, mxSpeaking = [], mxNormalization = True, mxScreenSource = 0\<rparr>"

definition resetJitterStream :: "('d, 's) decoderOps \<Rightarrow> ('s, 'f) floats \<Rightarrow> id16 \<Rightarrow> uint64 \<Rightarrow> ('d, 's, 'f) jitterStream \<Rightarrow>
    ('d, 's, 'f) jitterStream" where
  "resetJitterStream dc fl streamID sequenceFloor s =
     s\<lparr>jsDecoder := dcReset dc (jsDecoder s), jsFrames := [], jsStreamID := streamID, jsExpected := 0, jsLatest := 0,
       jsLatestSequence := 0, jsFloor := sequenceFloor, jsHasLatest := False, jsStarted := False, jsLosses := 0,
       jsNormalizer := normalizerReset fl\<rparr>"

definition newJitterStream :: "('s::zero, 'f) floats \<Rightarrow> 'd \<Rightarrow> id16 \<Rightarrow> ('d, 's, 'f) jitterStream" where
  "newJitterStream fl decoder streamID =
     \<lparr>jsDecoder = decoder, jsStreamID = streamID, jsFrames = [], jsExpected = 0, jsLatest = 0, jsLatestSequence = 0,
       jsFloor = 0, jsHasLatest = False, jsStarted = False, jsIdle = 0, jsLosses = 0, jsPcm = replicate FrameSamples 0,
       jsSpeaking = 0, jsNormalizer = normalizerReset fl\<rparr>"

text \<open>\<open>int32(a - b)\<close>, and whether a distance is no whole number of frames or more than the buffer holds.\<close>

definition tsDistance :: "uint32 \<Rightarrow> uint32 \<Rightarrow> int" where
  "tsDistance a b = sint (a - b)"

definition outOfStep :: "int \<Rightarrow> bool" where
  "outOfStep d \<longleftrightarrow> d mod int FrameSamples \<noteq> 0 \<or> d > int (maxJitterFrames * FrameSamples)"

definition resyncLatest :: "('d, 's) decoderOps \<Rightarrow> ('s, 'f) floats \<Rightarrow> ReceivedFrame \<Rightarrow> ('d, 's, 'f) jitterStream \<Rightarrow>
    ('d, 's, 'f) jitterStream" where
  "resyncLatest dc fl frame s =
     (if jsHasLatest s \<and> rfSequence frame > jsLatestSequence s then
        (let delta = tsDistance (rfTimestamp frame) (jsLatest s)
         in if delta \<le> 0 \<or> outOfStep delta then resetJitterStream dc fl (rfStreamID frame) (rfSequence frame) s else s)
      else s)"

text \<open>\<open>None\<close> for a frame that comes too late.\<close>

definition resyncStarted :: "('d, 's) decoderOps \<Rightarrow> ('s, 'f) floats \<Rightarrow> ReceivedFrame \<Rightarrow> ('d, 's, 'f) jitterStream \<Rightarrow>
    ('d, 's, 'f) jitterStream option" where
  "resyncStarted dc fl frame s =
     (if jsStarted s then
        (let ahead = tsDistance (rfTimestamp frame) (jsExpected s)
         in if ahead < 0 then None
            else if outOfStep ahead then Some (resetJitterStream dc fl (rfStreamID frame) (rfSequence frame) s)
            else Some s)
      else Some s)"

definition fartherOf :: "uint32 \<Rightarrow> uint32 \<times> int \<Rightarrow> uint32 \<times> jitterFrame \<Rightarrow> uint32 \<times> int" where
  "fartherOf base best entry =
     (if tsDistance (fst entry) base > snd best then (fst entry, tsDistance (fst entry) base) else best)"

definition farthest :: "uint32 \<Rightarrow> uint32 \<Rightarrow> (uint32 \<times> jitterFrame) list \<Rightarrow> uint32 \<times> int" where
  "farthest base timestamp frames = foldl (fartherOf base) (timestamp, - 1) frames"

text \<open>A full buffer gives up its farthest frame for a nearer one; \<open>None\<close> when the new one is the farthest.\<close>

definition makeRoom :: "uint32 \<Rightarrow> ('d, 's, 'f) jitterStream \<Rightarrow> ('d, 's, 'f) jitterStream option" where
  "makeRoom timestamp s =
     (if length (jsFrames s) \<ge> maxJitterFrames then
        (let base = (if \<not> jsStarted s \<and> jsHasLatest s then jsLatest s else jsExpected s);
             (t, d) = farthest base timestamp (jsFrames s)
         in if tsDistance timestamp base \<ge> d then None else Some (s\<lparr>jsFrames := AList.delete t (jsFrames s)\<rparr>))
      else Some s)"

definition storeJitter :: "ReceivedFrame \<Rightarrow> ('d, 's, 'f) jitterStream \<Rightarrow> ('d, 's, 'f) jitterStream" where
  "storeJitter frame s =
     (let s = s\<lparr>jsFrames := AList.update (rfTimestamp frame) \<lparr>jfSequence = rfSequence frame, jfPayload = rfPayload frame\<rparr> (jsFrames s)\<rparr>;
          s = (if \<not> jsHasLatest s \<or> rfSequence frame > jsLatestSequence s
               then s\<lparr>jsLatestSequence := rfSequence frame, jsLatest := rfTimestamp frame, jsHasLatest := True\<rparr> else s)
      in s\<lparr>jsIdle := 0\<rparr>)"

text \<open>The part of \<open>Add\<close> on the stream of the frame, every return included.\<close>

definition addToStream :: "('d, 's) decoderOps \<Rightarrow> ('s, 'f) floats \<Rightarrow> ReceivedFrame \<Rightarrow> ('d, 's, 'f) jitterStream \<Rightarrow>
    ('d, 's, 'f) jitterStream" where
  "addToStream dc fl frame s =
     (let s = (if rfStreamID frame \<noteq> jsStreamID s then resetJitterStream dc fl (rfStreamID frame) 0 s else s)
      in if rfSequence frame = 0 \<or> length (rfPayload frame) = 0 then s
         else if rfSequence frame < jsFloor s then s
         else
           let s = resyncLatest dc fl frame s
           in case resyncStarted dc fl frame s of
                None \<Rightarrow> s
              | Some s \<Rightarrow>
                  if map_of (jsFrames s) (rfTimestamp frame) \<noteq> None then s
                  else (case makeRoom (rfTimestamp frame) s of None \<Rightarrow> s | Some s \<Rightarrow> storeJitter frame s))"

definition mixerAdd :: "('d, 's) decoderOps \<Rightarrow> ('s::zero, 'f) floats \<Rightarrow> ReceivedFrame \<Rightarrow> ('d, 's, 'f) mixer \<Rightarrow>
    bytes option \<times> ('d, 's, 'f) mixer" where
  "mixerAdd dc fl frame m =
     (let key = (rfSourceID frame, rfStreamKind frame)
      in if snd key = AudioStreamScreen \<and> fst key \<noteq> mxScreenSource m then (None, m)
         else
           (case (case map_of (mxStreams m) key of
                    Some s \<Rightarrow> Inr s
                  | None \<Rightarrow> map_sum (\<lambda>err. err) (\<lambda>decoder. newJitterStream fl decoder (rfStreamID frame)) (dcNew dc (mxMaxFrameBytes m))) of
              Inl err \<Rightarrow> (Some err, m)
            | Inr s \<Rightarrow> (None, m\<lparr>mxStreams := AList.update key (addToStream dc fl frame s) (mxStreams m)\<rparr>)))"

definition setScreenAudioSource :: "PeerID \<Rightarrow> ('d, 's, 'f) mixer \<Rightarrow> ('d, 's, 'f) mixer" where
  "setScreenAudioSource sourceID m =
     (if mxScreenSource m = sourceID then m
      else m\<lparr>mxStreams := AList.delete (mxScreenSource m, AudioStreamScreen) (mxStreams m), mxScreenSource := sourceID\<rparr>)"

section \<open>Mixing\<close>

text \<open>The earliest frame, by its sequence, that the next \<open>prebufferFrames - 1\<close> frames follow.\<close>

definition contiguousAt :: "(uint32 \<times> jitterFrame) list \<Rightarrow> uint32 \<Rightarrow> bool" where
  "contiguousAt frames timestamp \<longleftrightarrow>
     list_all (\<lambda>offset. map_of frames (timestamp + of_nat (offset * FrameSamples)) \<noteq> None) [1..<prebufferFrames]"

definition selectStart :: "(uint32 \<times> jitterFrame) list \<Rightarrow> (uint32 \<times> uint64) option \<Rightarrow> uint32 \<times> jitterFrame \<Rightarrow> (uint32 \<times> uint64) option" where
  "selectStart frames selected entry =
     (if contiguousAt frames (fst entry) \<and>
         (case selected of None \<Rightarrow> True | Some (_, sequence) \<Rightarrow> jfSequence (snd entry) < sequence)
      then Some (fst entry, jfSequence (snd entry)) else selected)"

definition contiguousStart :: "(uint32 \<times> jitterFrame) list \<Rightarrow> uint32 option" where
  "contiguousStart frames =
     (if length frames < prebufferFrames then None
      else map_option fst (foldl (selectStart frames) None frames))"

text \<open>A stream that plays nothing in this turn; only voice has a speaking state.\<close>

definition quietVoice :: "('s, 'f) floats \<Rightarrow> bool \<Rightarrow> byte \<Rightarrow> ('d, 's, 'f) jitterStream \<Rightarrow> ('d, 's, 'f) jitterStream" where
  "quietVoice fl normalization kind s =
     (if kind = AudioStreamVoice then
        s\<lparr>jsSpeaking := snd (speakingUpdate False (jsSpeaking s)),
          jsNormalizer := snd (normalizerProcess fl [] (flOfInt fl 0) False normalization (jsNormalizer s))\<rparr>
      else s)"

definition stoppedStream :: "('d, 's) decoderOps \<Rightarrow> ('s, 'f) floats \<Rightarrow> byte \<Rightarrow> ('d, 's, 'f) jitterStream \<Rightarrow> ('d, 's, 'f) jitterStream" where
  "stoppedStream dc fl kind s =
     (let s = s\<lparr>jsDecoder := dcReset dc (jsDecoder s), jsStarted := False, jsLosses := 0\<rparr>
      in if kind = AudioStreamVoice
         then s\<lparr>jsSpeaking := snd (speakingUpdate False (jsSpeaking s)), jsNormalizer := normalizerReset fl\<rparr> else s)"

definition decodeNext :: "('d, 's) decoderOps \<Rightarrow> jitterFrame option \<Rightarrow> ('d, 's, 'f) jitterStream \<Rightarrow> 'd \<times> (bytes + nat \<times> 's list)" where
  "decodeNext dc frame s =
     (case frame of
        Some f \<Rightarrow> dcDecode dc (jsDecoder s) (Some (jfPayload f))
      | None \<Rightarrow>
          (case map_of (jsFrames s) (jsExpected s + of_nat FrameSamples) of
             Some f \<Rightarrow> dcDecodeFEC dc (jsDecoder s) (jfPayload f)
           | None \<Rightarrow> dcDecode dc (jsDecoder s) None))"

datatype streamFault =
    DecodeFailed bytes
  | UnexpectedSize

datatype ('d, 's, 'f) streamTurn =
    Removed "streamFault option"
  | Silent "('d, 's, 'f) jitterStream"
  | Played "('d, 's, 'f) jitterStream" "'s list"

text \<open>\<open>Removed\<close> with the fault that ended the stream, or without one when it was idle.\<close>

definition playDecoded :: "('s, 'f) floats \<Rightarrow> bool \<Rightarrow> byte \<Rightarrow> bool \<Rightarrow> 's list \<Rightarrow> ('d, 's, 'f) jitterStream \<Rightarrow> ('d, 's, 'f) streamTurn" where
  "playDecoded fl normalization kind present pcm s =
     (let level = pcmRMS fl pcm;
          s = s\<lparr>jsExpected := jsExpected s + of_nat FrameSamples, jsPcm := pcm\<rparr>;
          s = (if kind = AudioStreamVoice then
                 (let (pcm, n) = normalizerProcess fl pcm level present normalization (jsNormalizer s)
                  in s\<lparr>jsSpeaking := snd (speakingUpdate (flLess fl (flLiteral fl speakingThreshold) level) (jsSpeaking s)),
                       jsPcm := pcm, jsNormalizer := n\<rparr>)
               else s)
      in if \<not> flLess fl (flLiteral fl (1 / 10000)) level then Silent s else Played s (jsPcm s))"

definition playExpected :: "('d, 's) decoderOps \<Rightarrow> ('s, 'f) floats \<Rightarrow> bool \<Rightarrow> byte \<Rightarrow> ('d, 's, 'f) jitterStream \<Rightarrow> ('d, 's, 'f) streamTurn" where
  "playExpected dc fl normalization kind s =
     (let frame = map_of (jsFrames s) (jsExpected s);
          s = (if frame \<noteq> None then s\<lparr>jsFrames := AList.delete (jsExpected s) (jsFrames s), jsLosses := 0\<rparr>
               else s\<lparr>jsLosses := jsLosses s + 1\<rparr>)
      in if frame = None \<and> jsLosses s > maxPLCFrames then Silent (stoppedStream dc fl kind s)
         else
           let (decoder, result) = decodeNext dc frame s; s = s\<lparr>jsDecoder := decoder\<rparr>
           in case result of
                Inl err \<Rightarrow> Removed (Some (DecodeFailed err))
              | Inr (count, pcm) \<Rightarrow>
                  if count \<noteq> FrameSamples then Removed (Some UnexpectedSize)
                  else playDecoded fl normalization kind (frame \<noteq> None) pcm s)"

definition nextStream :: "('d, 's) decoderOps \<Rightarrow> ('s, 'f) floats \<Rightarrow> bool \<Rightarrow> byte \<Rightarrow> ('d, 's, 'f) jitterStream \<Rightarrow> ('d, 's, 'f) streamTurn" where
  "nextStream dc fl normalization kind s =
     (let s = s\<lparr>jsIdle := jsIdle s + 1\<rparr>
      in if jsIdle s > streamIdleFrames then Removed None
         else if jsStarted s then playExpected dc fl normalization kind s
         else
           (case contiguousStart (jsFrames s) of
              None \<Rightarrow> Silent (quietVoice fl normalization kind s)
            | Some timestamp \<Rightarrow>
                playExpected dc fl normalization kind (s\<lparr>jsExpected := timestamp, jsStarted := True, jsLosses := 0\<rparr>)))"

fun keptStream :: "('d, 's, 'f) streamTurn \<Rightarrow> ('d, 's, 'f) jitterStream option" where
  "keptStream (Removed err) = None"
| "keptStream (Silent s) = Some s"
| "keptStream (Played s pcm) = Some s"

fun faultText :: "PeerID \<Rightarrow> streamFault \<Rightarrow> bytes" where
  "faultText peerID (DecodeFailed err) = bytes_of ''decode audio from '' @ PeerIDString peerID @ bytes_of '': '' @ err"
| "faultText peerID UnexpectedSize = bytes_of ''Opus decoder returned an unexpected frame size''"

fun turnError :: "PeerID \<Rightarrow> ('d, 's, 'f) streamTurn \<Rightarrow> bytes option" where
  "turnError peerID (Removed fault) = map_option (faultText peerID) fault"
| "turnError peerID _ = None"

fun turnPcm :: "('d, 's, 'f) streamTurn \<Rightarrow> 's list option" where
  "turnPcm (Played s pcm) = Some pcm"
| "turnPcm _ = None"

definition speakingPeers :: "(mixerStreamKey \<times> ('d, 's, 'f) jitterStream) list \<Rightarrow> PeerID list" where
  "speakingPeers streams =
     sort (map (\<lambda>(key, s). fst key) (filter (\<lambda>(key, s). snd key = AudioStreamVoice \<and> speakingActive (jsSpeaking s)) streams))"

definition mixInto :: "('s, 'f) floats \<Rightarrow> 's list \<Rightarrow> 's list \<Rightarrow> 's list" where
  "mixInto fl destination pcm = map2 (smAdd fl) destination pcm"

definition limitMix :: "('s, 'f) floats \<Rightarrow> nat \<Rightarrow> 's \<Rightarrow> 's" where
  "limitMix fl active sample =
     (let sample = (if active > 1 then smDiv fl sample (smOfInt fl (int active)) else sample)
      in smMax fl (smOfInt fl (- 1)) (smMin fl (smOfInt fl 1) sample))"

text \<open>\<open>NextInto\<close> on a destination of one frame: the frame, whether it sounds, the first error, and the mixer.\<close>

definition NextInto :: "('d, 's) decoderOps \<Rightarrow> ('s::zero, 'f) floats \<Rightarrow> ('d, 's, 'f) mixer \<Rightarrow>
    's list \<times> bool \<times> bytes option \<times> ('d, 's, 'f) mixer" where
  "NextInto dc fl m =
     (let turns = map (\<lambda>(key, s). (key, nextStream dc fl (mxNormalization m) (snd key) s)) (mxStreams m);
          streams = List.map_filter (\<lambda>(key, t). map_option (\<lambda>s. (key, s)) (keptStream t)) turns;
          pcms = List.map_filter (\<lambda>(key, t). turnPcm t) turns;
          active = length pcms;
          errors = List.map_filter (\<lambda>(key, t). turnError (fst key) t) turns;
          mixed = foldl (mixInto fl) (replicate FrameSamples 0) pcms;
          m = m\<lparr>mxStreams := streams, mxSpeaking := speakingPeers streams\<rparr>
      in (if active = 0 then replicate FrameSamples 0 else map (limitMix fl active) mixed, active \<noteq> 0,
          (case errors of [] \<Rightarrow> None | err # _ \<Rightarrow> Some err), m))"

end
