(* ===== verification/AudioMixerSafety.thy ===== *)
theory AudioMixerSafety
  imports AudioMixer
begin

text \<open>
  What the mixer keeps whatever arrives, when it forgets a stream, and that a jitter buffer plays what arrived out of order
  in order.  Its bound on the frames of a stream does not hold for a stream that has not started: \<open>jitter_overflow\<close>.
\<close>

section \<open>Bounds\<close>

definition stream_ok :: "('d, 's, 'f) jitterStream \<Rightarrow> bool" where
  "stream_ok s \<longleftrightarrow> distinct (map fst (jsFrames s)) \<and> jsIdle s \<le> streamIdleFrames \<and> jsLosses s \<le> maxPLCFrames \<and>
     jsSpeaking s \<le> speakingReleaseFrames"

definition mixer_ok :: "('d, 's, 'f) mixer \<Rightarrow> bool" where
  "mixer_ok m \<longleftrightarrow> distinct (map fst (mxStreams m)) \<and> list_all (\<lambda>(key, s). stream_ok s) (mxStreams m) \<and>
     list_all (\<lambda>(key, s). snd key = AudioStreamScreen \<longrightarrow> fst key = mxScreenSource m) (mxStreams m) \<and>
     sorted (mxSpeaking m) \<and> distinct (mxSpeaking m)"

lemma reset_ok: "stream_ok s \<Longrightarrow> stream_ok (resetJitterStream dc fl streamID sequenceFloor s)"
  by (simp add: stream_ok_def resetJitterStream_def)

lemma resyncLatest_ok: "stream_ok s \<Longrightarrow> stream_ok (resyncLatest dc fl frame s)"
  by (simp add: resyncLatest_def reset_ok Let_def)

lemma resyncStarted_ok: "resyncStarted dc fl frame s = Some s' \<Longrightarrow> stream_ok s \<Longrightarrow> stream_ok s'"
  by (auto simp: resyncStarted_def reset_ok Let_def split: if_splits)

lemma makeRoom_ok: "makeRoom timestamp s = Some s' \<Longrightarrow> stream_ok s \<Longrightarrow> stream_ok s'"
  by (auto simp: makeRoom_def stream_ok_def Let_def split: if_splits prod.splits)

lemma storeJitter_ok: "stream_ok s \<Longrightarrow> stream_ok (storeJitter frame s)"
  by (simp add: stream_ok_def storeJitter_def Let_def)

lemma addToStream_ok: "stream_ok s \<Longrightarrow> stream_ok (addToStream dc fl frame s)"
proof -
  assume s: "stream_ok s"
  define r where "r = (if rfStreamID frame \<noteq> jsStreamID s then resetJitterStream dc fl (rfStreamID frame) 0 s else s)"
  define l where "l = resyncLatest dc fl frame r"
  have r: "stream_ok r" using s by (simp add: r_def reset_ok)
  then have l: "stream_ok l" by (simp add: l_def resyncLatest_ok)
  show ?thesis using r l
    unfolding addToStream_def Let_def r_def [symmetric] l_def [symmetric]
    by (auto intro: storeJitter_ok dest: resyncStarted_ok makeRoom_ok split: option.split)
qed

lemma newJitterStream_ok: "stream_ok (newJitterStream fl decoder streamID)"
  by (simp add: stream_ok_def newJitterStream_def)

lemma list_all_updated: "list_all P m \<Longrightarrow> P (k, v) \<Longrightarrow> list_all P (AList.update k v m)"
  by (induction m) auto

lemma list_all_deleted: "list_all P m \<Longrightarrow> list_all P (AList.delete k m)"
  by (auto simp: list_all_iff AList.delete_eq)

lemma mixerAdd_ok:
  assumes "mixer_ok m" and "mixerAdd dc fl frame m = (err, m')"
  shows "mixer_ok m'"
proof -
  let ?key = "(rfSourceID frame, rfStreamKind frame)"
  have "m' = m \<or> (\<exists>s. stream_ok s \<and> m' = m\<lparr>mxStreams := AList.update ?key (addToStream dc fl frame s) (mxStreams m)\<rparr> \<and>
      (rfStreamKind frame = AudioStreamScreen \<longrightarrow> rfSourceID frame = mxScreenSource m))"
  proof (cases "map_of (mxStreams m) ?key")
    case None
    then show ?thesis using assms
      by (cases "dcNew dc (mxMaxFrameBytes m)")
        (auto simp: mixerAdd_def Let_def split: if_splits intro: newJitterStream_ok)
  next
    case (Some s)
    then have "stream_ok s" using assms by (auto simp: mixer_ok_def list_all_iff dest: map_of_SomeD)
    with assms Some show ?thesis by (auto simp: mixerAdd_def Let_def split: if_splits)
  qed
  then show ?thesis using assms(1) addToStream_ok by (auto simp: mixer_ok_def intro!: list_all_updated)
qed

lemma setScreenAudioSource_ok:
  assumes "mixer_ok m"
  shows "mixer_ok (setScreenAudioSource sourceID m)"
proof (cases "mxScreenSource m = sourceID")
  case False
  have "list_all (\<lambda>(key, s). snd key \<noteq> AudioStreamScreen) (AList.delete (mxScreenSource m, AudioStreamScreen) (mxStreams m))"
    using assms by (auto simp: mixer_ok_def list_all_iff AList.delete_eq)
  with False assms show ?thesis
    by (auto simp: setScreenAudioSource_def mixer_ok_def list_all_deleted elim!: list.pred_mono_strong)
qed (use assms in \<open>simp add: setScreenAudioSource_def\<close>)

lemma speakingUpdate_le: "frames \<le> speakingReleaseFrames \<Longrightarrow> snd (speakingUpdate loud frames) \<le> speakingReleaseFrames"
  by (auto simp: speakingUpdate_def Let_def)

lemma playDecoded_ok: "keptStream (playDecoded fl b kind present pcm s) = Some s' \<Longrightarrow> stream_ok s \<Longrightarrow> stream_ok s'"
  by (auto simp: playDecoded_def Let_def stream_ok_def speakingUpdate_le split: if_splits prod.splits)

lemma playExpected_ok: "keptStream (playExpected dc fl b kind s) = Some s' \<Longrightarrow> stream_ok s \<Longrightarrow> stream_ok s'"
proof -
  assume k: "keptStream (playExpected dc fl b kind s) = Some s'" and s: "stream_ok s"
  define f where "f = map_of (jsFrames s) (jsExpected s)"
  define t where "t = (if f \<noteq> None then s\<lparr>jsFrames := AList.delete (jsExpected s) (jsFrames s), jsLosses := 0\<rparr> else s\<lparr>jsLosses := jsLosses s + 1\<rparr>)"
  have t: "jsLosses t \<le> maxPLCFrames \<Longrightarrow> stream_ok t" using s by (simp add: t_def stream_ok_def)
  show "stream_ok s'"
  proof (cases "f = None \<and> jsLosses t > maxPLCFrames")
    case True
    with k s show ?thesis unfolding playExpected_def Let_def f_def [symmetric] t_def [symmetric]
      by (auto simp: stoppedStream_def Let_def stream_ok_def t_def speakingUpdate_le split: if_splits)
  next
    case False
    then have "stream_ok t" using t by (auto simp: t_def)
    moreover have "stream_ok (t\<lparr>jsDecoder := d\<rparr>)" if "stream_ok t" for d using that by (simp add: stream_ok_def)
    ultimately show ?thesis using k False unfolding playExpected_def Let_def f_def [symmetric] t_def [symmetric]
      by (auto split: prod.splits sum.splits if_splits dest: playDecoded_ok)
  qed
qed

lemma nextStream_ok: "keptStream (nextStream dc fl b kind s) = Some s' \<Longrightarrow> stream_ok s \<Longrightarrow> stream_ok s'"
proof -
  assume k: "keptStream (nextStream dc fl b kind s) = Some s'" and s: "stream_ok s"
  define t where "t = s\<lparr>jsIdle := jsIdle s + 1\<rparr>"
  have idle: "\<not> jsIdle t > streamIdleFrames" using k unfolding nextStream_def Let_def t_def [symmetric] by (auto split: if_splits)
  then have t: "stream_ok t" using s by (simp add: t_def stream_ok_def)
  then have "stream_ok (quietVoice fl b kind t)" "stream_ok (t\<lparr>jsExpected := x, jsStarted := True, jsLosses := 0\<rparr>)" for x
    by (simp_all add: quietVoice_def stream_ok_def speakingUpdate_le)
  with t idle k show "stream_ok s'" unfolding nextStream_def Let_def t_def [symmetric]
    by (auto split: if_splits option.splits dest: playExpected_ok)
qed

lemma speakingPeers_ok: "distinct (map fst streams) \<Longrightarrow> sorted (speakingPeers streams) \<and> distinct (speakingPeers streams)"
proof -
  assume d: "distinct (map fst streams)"
  let ?voice = "filter (\<lambda>(key, s). snd key = AudioStreamVoice \<and> speakingActive (jsSpeaking s)) streams"
  have "distinct (map fst ?voice)" using d by (rule distinct_map_filter)
  then have "distinct (map (\<lambda>(key, s). fst key) ?voice)"
    by (auto simp: distinct_map inj_on_def prod_eq_iff)
  then show ?thesis by (simp add: speakingPeers_def)
qed

lemma map_filter_keys: "distinct (map fst xs) \<Longrightarrow> distinct (map fst (List.map_filter (\<lambda>(k, t). map_option (\<lambda>s. (k, s)) (g k t)) xs))"
proof (induction xs)
  case (Cons x xs)
  have "fst ` set (List.map_filter (\<lambda>(k, t). map_option (\<lambda>s. (k, s)) (g k t)) xs) \<subseteq> fst ` set xs"
    by (force simp: map_filter_def)
  with Cons show ?case by (cases x) (auto simp: map_filter_simps split: option.split)
qed (simp add: map_filter_simps)

lemma NextInto_streams:
  "mxStreams (snd (snd (snd (NextInto dc fl m)))) =
   List.map_filter (\<lambda>(key, s). map_option (\<lambda>s. (key, s)) (keptStream (nextStream dc fl (mxNormalization m) (snd key) s))) (mxStreams m)"
  by (simp add: NextInto_def Let_def map_filter_def comp_def case_prod_beta filter_map)

lemma NextInto_ok: "mixer_ok m \<Longrightarrow> mixer_ok (snd (snd (snd (NextInto dc fl m))))"
proof -
  assume m: "mixer_ok m"
  let ?m = "snd (snd (snd (NextInto dc fl m)))"
  have kept: "\<exists>s. ((key, s) \<in> set (mxStreams m)) \<and> keptStream (nextStream dc fl (mxNormalization m) (snd key) s) = Some s'"
    if "(key, s') \<in> set (mxStreams ?m)" for key s'
    using that unfolding NextInto_streams by (force simp: map_filter_def)
  have "distinct (map fst (mxStreams ?m))" using m
    unfolding NextInto_streams by (intro map_filter_keys) (simp add: mixer_ok_def)
  moreover have "mxSpeaking ?m = speakingPeers (mxStreams ?m)" "mxScreenSource ?m = mxScreenSource m"
    by (simp_all add: NextInto_def Let_def)
  moreover have "list_all (\<lambda>(key, s). stream_ok s) (mxStreams ?m)"
    "list_all (\<lambda>(key, s). snd key = AudioStreamScreen \<longrightarrow> fst key = mxScreenSource m) (mxStreams ?m)"
    using m kept nextStream_ok by (fastforce simp: mixer_ok_def list_all_iff)+
  ultimately show ?thesis using speakingPeers_ok by (auto simp: mixer_ok_def)
qed

section \<open>The room in a buffer\<close>

lemma foldl_farther:
  "foldl (fartherOf base) best xs = best \<or>
   fst (foldl (fartherOf base) best xs) \<in> fst ` set xs \<and> snd best < snd (foldl (fartherOf base) best xs)"
proof (induction xs arbitrary: best)
  case (Cons x xs)
  have "fartherOf base best x = best \<or> fst (fartherOf base best x) = fst x \<and> snd best < snd (fartherOf base best x)"
    by (simp add: fartherOf_def)
  then show ?case using Cons [of "fartherOf base best x"] by (elim disjE) auto
qed simp

lemma foldl_farther_ge: "e \<in> set xs \<Longrightarrow> tsDistance (fst e) base \<le> snd (foldl (fartherOf base) best xs)"
proof (induction xs arbitrary: best)
  case (Cons x xs)
  have "snd b \<le> snd (foldl (fartherOf base) b ys)" for b ys using foldl_farther [of base b ys] by auto
  from this [of "fartherOf base best x" xs] have "tsDistance (fst x) base \<le> snd (foldl (fartherOf base) (fartherOf base best x) xs)"
    by (rule order_trans [rotated]) (simp add: fartherOf_def)
  then show ?case using Cons.IH [of "fartherOf base best x"] Cons.prems by auto
qed simp

lemma makeRoom_length:
  assumes "makeRoom timestamp s = Some s'"
    and "jsStarted s \<and> 0 \<le> tsDistance timestamp (jsExpected s) \<or> \<not> jsStarted s \<and> jsHasLatest s \<and> map_of (jsFrames s) (jsLatest s) \<noteq> None"
  shows "length (jsFrames s') < max maxJitterFrames (length (jsFrames s))"
proof (cases "length (jsFrames s) \<ge> maxJitterFrames")
  case True
  define base where "base = (if \<not> jsStarted s \<and> jsHasLatest s then jsLatest s else jsExpected s)"
  obtain t d where f: "farthest base timestamp (jsFrames s) = (t, d)" by fastforce
  have d: "tsDistance timestamp base < d" and s': "s' = s\<lparr>jsFrames := AList.delete t (jsFrames s)\<rparr>"
    using assms(1) True f by (auto simp: makeRoom_def base_def [symmetric] split: if_splits)
  have "d \<noteq> - 1"
  proof (cases "jsStarted s")
    case True
    with assms(2) d show ?thesis by (auto simp: base_def)
  next
    case False
    then obtain e where "(jsLatest s, e) \<in> set (jsFrames s)" using assms(2) by (auto dest: map_of_SomeD)
    from foldl_farther_ge [OF this, of base "(timestamp, - 1)"] False assms(2) f show ?thesis
      by (auto simp: farthest_def base_def tsDistance_def)
  qed
  then have "t \<in> fst ` set (jsFrames s)" using foldl_farther [of base "(timestamp, - 1)" "jsFrames s"] f by (auto simp: farthest_def)
  then obtain v where "map_of (jsFrames s) t = Some v" by (metis map_of_eq_None_iff not_None_eq)
  from length_delete_present [OF this] s' show ?thesis by simp
qed (use assms in \<open>auto simp: makeRoom_def\<close>)

lemma length_update_Suc: "length (AList.update k v m) \<le> Suc (length m)"
  by (induction m) auto

lemma length_storeJitter: "length (jsFrames (storeJitter frame s)) \<le> Suc (length (jsFrames s))"
  by (simp add: storeJitter_def Let_def length_update_Suc)

lemma addToStream_valid:
  assumes "rfStreamID frame = jsStreamID s" and "rfSequence frame \<noteq> 0" and "rfPayload frame \<noteq> []" and "jsFloor s \<le> rfSequence frame"
    and "resyncLatest dc fl frame s = s" and "resyncStarted dc fl frame s = Some s" and "map_of (jsFrames s) (rfTimestamp frame) = None"
  shows "addToStream dc fl frame s = (case makeRoom (rfTimestamp frame) s of None \<Rightarrow> s | Some s' \<Rightarrow> storeJitter frame s')"
  using assms by (simp add: addToStream_def Let_def not_less)

lemma store_within: "length (jsFrames s) < n \<Longrightarrow> length (jsFrames (storeJitter frame s)) \<le> n"
  using length_storeJitter [of frame s] by linarith

text \<open>A stream that has started never holds more frames than the buffer has room for, or than it held before: late frames
  are refused, frames out of step start the stream over, and a full buffer gives up its farthest frame or refuses.\<close>

theorem jitter_started_bounded:
  assumes "jsStarted s"
  shows "length (jsFrames (addToStream dc fl frame s)) \<le> max maxJitterFrames (length (jsFrames s))"
proof -
  define r where "r = (if rfStreamID frame \<noteq> jsStreamID s then resetJitterStream dc fl (rfStreamID frame) 0 s else s)"
  define l where "l = resyncLatest dc fl frame r"
  have r: "r = s \<or> jsFrames r = []" by (simp add: r_def resetJitterStream_def)
  have small: "length (jsFrames (case makeRoom (rfTimestamp frame) t of None \<Rightarrow> t | Some t \<Rightarrow> storeJitter frame t)) \<le> maxJitterFrames"
    if "jsFrames t = []" for t :: "('a, 'b, 'c) jitterStream"
    using that length_storeJitter [of frame t] by (simp add: makeRoom_def)
  have step: "length (jsFrames (case makeRoom (rfTimestamp frame) s of None \<Rightarrow> s | Some t \<Rightarrow> storeJitter frame t)) \<le> max maxJitterFrames (length (jsFrames s))"
    if "0 \<le> tsDistance (rfTimestamp frame) (jsExpected s)"
    using that assms makeRoom_length [of "rfTimestamp frame" s] by (auto intro: store_within split: option.split)
  have sync: "\<exists>t'. resyncStarted dc fl frame t = Some t' \<and> jsFrames t' = []" if "resyncStarted dc fl frame t \<noteq> None" "jsFrames t = []"
    for t :: "('a, 'b, 'c) jitterStream"
    using that by (auto simp: resyncStarted_def resetJitterStream_def Let_def split: if_splits)
  have started: "(case resyncStarted dc fl frame s of None \<Rightarrow> True | Some t \<Rightarrow>
      t = s \<and> 0 \<le> tsDistance (rfTimestamp frame) (jsExpected s) \<or> jsFrames t = [])"
    using assms by (simp add: resyncStarted_def resetJitterStream_def Let_def)
  have l: "l = s \<or> jsFrames l = []" using r by (auto simp: l_def resyncLatest_def resetJitterStream_def Let_def)
  let ?max = "max maxJitterFrames (length (jsFrames s))"
  let ?room = "\<lambda>t. case makeRoom (rfTimestamp frame) t of None \<Rightarrow> t | Some t \<Rightarrow> storeJitter frame t"
  have room: "length (jsFrames (?room t)) \<le> ?max" if "jsFrames t = [] \<or> t = s \<and> 0 \<le> tsDistance (rfTimestamp frame) (jsExpected s)"
    for t :: "('a, 'b, 'c) jitterStream"
    using that small [of t] step by (elim disjE) auto
  have synced: "t = s \<and> 0 \<le> tsDistance (rfTimestamp frame) (jsExpected s) \<or> jsFrames t = []" if "resyncStarted dc fl frame l = Some t" for t
    using that l sync [of l] started by (elim disjE) auto
  have kept: "length (jsFrames r) \<le> ?max" "length (jsFrames l) \<le> ?max" "resyncStarted dc fl frame l = Some t \<Longrightarrow> length (jsFrames t) \<le> ?max" for t
    using r l synced by auto
  have "length (jsFrames (case resyncStarted dc fl frame l of None \<Rightarrow> l
      | Some t \<Rightarrow> if map_of (jsFrames t) (rfTimestamp frame) \<noteq> None then t else ?room t)) \<le> ?max"
    using kept synced room by (cases "resyncStarted dc fl frame l") auto
  then show ?thesis using kept(1) unfolding addToStream_def Let_def r_def [symmetric] l_def [symmetric] by simp
qed

lemma farthest_behind:
  "list_all (\<lambda>e. tsDistance (fst e) base < 0) xs \<Longrightarrow> snd best = - 1 \<Longrightarrow> foldl (fartherOf base) best xs = best"
  by (induction xs) (auto simp: fartherOf_def)

text \<open>The bound fails before a stream has started: once its newest frame has been given up, a full buffer takes in any older
  frame without giving one up, because the frame found to be farthest is then the new one itself.\<close>

theorem jitter_overflow:
  assumes "\<not> jsStarted s" and "jsHasLatest s" and "maxJitterFrames \<le> length (jsFrames s)"
    and "list_all (\<lambda>e. tsDistance (fst e) (jsLatest s) < 0) (jsFrames s)"
    and "rfStreamID frame = jsStreamID s" and "rfPayload frame \<noteq> []" and "rfSequence frame \<noteq> 0" and "jsFloor s \<le> rfSequence frame"
    and "rfSequence frame \<le> jsLatestSequence s" and "tsDistance (rfTimestamp frame) (jsLatest s) < - 1"
    and "map_of (jsFrames s) (rfTimestamp frame) = None"
  shows "length (jsFrames (addToStream dc fl frame s)) = Suc (length (jsFrames s))"
proof -
  have "rfTimestamp frame \<notin> fst ` set (jsFrames s)" using assms(11) by (simp add: map_of_eq_None_iff)
  then have gone: "AList.delete (rfTimestamp frame) (jsFrames s) = jsFrames s" by (rule delete_id)
  have "farthest (jsLatest s) (rfTimestamp frame) (jsFrames s) = (rfTimestamp frame, - 1)"
    using farthest_behind assms(4) by (simp add: farthest_def)
  then have "makeRoom (rfTimestamp frame) s = Some s" using assms gone by (simp add: makeRoom_def)
  moreover have "length (jsFrames (storeJitter frame s)) = Suc (length (jsFrames s))"
    using assms(11) by (simp add: storeJitter_def Let_def update_absent)
  moreover have "addToStream dc fl frame s = (case makeRoom (rfTimestamp frame) s of None \<Rightarrow> s | Some s' \<Rightarrow> storeJitter frame s')"
    using assms by (intro addToStream_valid) (auto simp: resyncLatest_def resyncStarted_def)
  ultimately show ?thesis by simp
qed

definition fullStream :: "(unit, nat, unit) jitterStream" where
  "fullStream = \<lparr>jsDecoder = (), jsStreamID = 1, jsFrames = map (\<lambda>k. (of_nat k, \<lparr>jfSequence = of_nat k + 1, jfPayload = [1]\<rparr>)) [0..<16],
     jsExpected = 0, jsLatest = 100, jsLatestSequence = 40, jsFloor = 0, jsHasLatest = True, jsStarted = False, jsIdle = 0,
     jsLosses = 0, jsPcm = [], jsSpeaking = 0, jsNormalizer = \<lparr>lnMeasured = (), lnGain = (), lnHold = 0\<rparr>\<rparr>"

definition olderFrame :: ReceivedFrame where
  "olderFrame = \<lparr>rfSourceID = 7, rfStreamKind = AudioStreamVoice, rfStreamID = 1, rfSequence = 30, rfTimestamp = 50, rfPayload = [1],
     rfReceivedAt = 0\<rparr>"

theorem jitter_overflow_witness: "length (jsFrames (addToStream dc fl olderFrame fullStream)) = 17"
proof -
  have "length (jsFrames (addToStream dc fl olderFrame fullStream)) = Suc (length (jsFrames fullStream))"
    by (rule jitter_overflow) (simp_all add: fullStream_def olderFrame_def tsDistance_def upt_conv_Cons)
  then show ?thesis by (simp add: fullStream_def)
qed

theorem jitter_started_bounded_witness:
  "length (jsFrames (addToStream dc fl olderFrame (fullStream\<lparr>jsStarted := True\<rparr>))) \<le> 16"
  using jitter_started_bounded [of "fullStream\<lparr>jsStarted := True\<rparr>" dc fl olderFrame] by (simp add: fullStream_def)

section \<open>Whatever arrives\<close>

datatype mixerOp = MixAdd ReceivedFrame | MixNext | MixSource PeerID | MixNormalization bool

fun mixerStep :: "('d, 's) decoderOps \<Rightarrow> ('s::zero, 'f) floats \<Rightarrow> ('d, 's, 'f) mixer \<Rightarrow> mixerOp \<Rightarrow> ('d, 's, 'f) mixer" where
  "mixerStep dc fl m (MixAdd frame) = snd (mixerAdd dc fl frame m)"
| "mixerStep dc fl m MixNext = snd (snd (snd (NextInto dc fl m)))"
| "mixerStep dc fl m (MixSource sourceID) = setScreenAudioSource sourceID m"
| "mixerStep dc fl m (MixNormalization enabled) = m\<lparr>mxNormalization := enabled\<rparr>"

lemma mixer_ok_normalization: "mixer_ok (m\<lparr>mxNormalization := enabled\<rparr>) = mixer_ok m"
  by (simp add: mixer_ok_def)

lemma mixerStep_ok: "mixer_ok m \<Longrightarrow> mixer_ok (mixerStep dc fl m op)"
proof (cases op)
  case (MixAdd frame)
  moreover assume "mixer_ok m"
  ultimately show ?thesis using mixerAdd_ok [of m dc fl frame "fst (mixerAdd dc fl frame m)"] by simp
qed (simp_all add: NextInto_ok setScreenAudioSource_ok mixer_ok_normalization)

text \<open>C36: whatever frames arrive and however the mixer is used, it has one stream per source and kind, a stream of screen audio
  only for the selected source, every stream has one frame per timestamp, counts at most so many idle turns and losses, and
  the peers it reports as speaking are listed once and in order.\<close>

theorem mixer_keeps: "mixer_ok (foldl (mixerStep dc fl) (newMixer maxFrameBytes) ops)"
proof (induction ops rule: rev_induct)
  case Nil
  show ?case by (simp add: mixer_ok_def newMixer_def)
qed (simp add: mixerStep_ok)

lemma turn_idle: "keptStream (nextStream dc fl b kind s) = Some s' \<Longrightarrow> jsIdle s' = jsIdle s + 1 \<and> jsIdle s' \<le> streamIdleFrames"
proof -
  assume k: "keptStream (nextStream dc fl b kind s) = Some s'"
  define t where "t = s\<lparr>jsIdle := jsIdle s + 1\<rparr>"
  have decoded: "keptStream (playDecoded fl b kind present pcm u) = Some u' \<Longrightarrow> jsIdle u' = jsIdle u" for present pcm u u'
    by (auto simp: playDecoded_def Let_def split: if_splits prod.splits)
  have played: "keptStream (playExpected dc fl b kind u) = Some u' \<Longrightarrow> jsIdle u' = jsIdle u" for u u'
    by (auto simp: playExpected_def stoppedStream_def Let_def split: if_splits prod.splits sum.splits dest!: decoded)
  have "jsIdle (quietVoice fl b kind t) = jsIdle t" by (simp add: quietVoice_def)
  then show ?thesis using k unfolding nextStream_def Let_def t_def [symmetric]
    by (auto simp: t_def split: if_splits option.splits dest!: played)
qed

lemma next_idle:
  "list_all (\<lambda>(key, s). n \<le> jsIdle s) (mxStreams m) \<Longrightarrow>
   list_all (\<lambda>(key, s). Suc n \<le> jsIdle s \<and> jsIdle s \<le> streamIdleFrames) (mxStreams (mixerStep dc fl m MixNext))"
  unfolding mixerStep.simps NextInto_streams by (fastforce simp: list_all_iff map_filter_def dest: turn_idle)

text \<open>A mixer that gets no more frames has forgotten every stream after \<open>streamIdleFrames + 1\<close> turns.\<close>

theorem mixer_forgets: "mxStreams (foldl (mixerStep dc fl) m (replicate (Suc streamIdleFrames) MixNext)) = []"
proof -
  have "list_all (\<lambda>(key, s). n \<le> jsIdle s \<and> (0 < n \<longrightarrow> jsIdle s \<le> streamIdleFrames)) (mxStreams (foldl (mixerStep dc fl) m (replicate n MixNext)))" for n
  proof (induction n)
    case (Suc n)
    have "list_all (\<lambda>(key, s). n \<le> jsIdle s) (mxStreams (foldl (mixerStep dc fl) m (replicate n MixNext)))"
      using Suc by (auto simp: list_all_iff)
    note idle = next_idle [OF this, of dc fl]
    have "replicate (Suc n) MixNext = replicate n MixNext @ [MixNext]" by (simp add: replicate_append_same)
    then show ?case using idle by (simp add: list_all_iff del: mixerStep.simps replicate_Suc)
  qed (simp add: list_all_iff)
  from this [of "Suc streamIdleFrames"] show ?thesis by (cases "mxStreams (foldl (mixerStep dc fl) m (replicate (Suc streamIdleFrames) MixNext))") auto
qed

end
