(* ===== verification/AudioJitter.thy ===== *)
theory AudioJitter
  imports AudioMixer
begin

text \<open>
  A jitter buffer puts its frames in order: up to \<open>maxJitterFrames\<close> consecutive frames that arrive in any order before the
  stream starts go to the decoder one per turn, each once, in the order of their timestamps, until one does not decode to a full frame.
\<close>

section \<open>Consecutive frames\<close>

record sentStream =
  ssSource :: PeerID
  ssKind :: byte
  ssStreamID :: id16
  ssFirst :: uint64
  ssStart :: uint32
  ssPayload :: "nat \<Rightarrow> bytes"

definition sentSequence :: "sentStream \<Rightarrow> nat \<Rightarrow> uint64" where
  "sentSequence x k = ssFirst x + of_nat k"

definition sentTimestamp :: "sentStream \<Rightarrow> nat \<Rightarrow> uint32" where
  "sentTimestamp x k = ssStart x + of_nat (k * FrameSamples)"

definition sentFrame :: "sentStream \<Rightarrow> nat \<Rightarrow> ReceivedFrame" where
  "sentFrame x k = \<lparr>rfSourceID = ssSource x, rfStreamKind = ssKind x, rfStreamID = ssStreamID x, rfSequence = sentSequence x k,
     rfTimestamp = sentTimestamp x k, rfPayload = ssPayload x k, rfReceivedAt = 0\<rparr>"

definition sentJitter :: "sentStream \<Rightarrow> nat \<Rightarrow> jitterFrame" where
  "sentJitter x k = \<lparr>jfSequence = sentSequence x k, jfPayload = ssPayload x k\<rparr>"

definition sendable :: "sentStream \<Rightarrow> nat \<Rightarrow> bool" where
  "sendable x n \<longleftrightarrow> prebufferFrames \<le> n \<and> n \<le> maxJitterFrames \<and> 0 < ssFirst x \<and> unat (ssFirst x) + n < 2 ^ 64 \<and>
     list_all (\<lambda>k. ssPayload x k \<noteq> []) [0..<n]"

lemma sint_small: "- (2 ^ 31) \<le> i \<Longrightarrow> i < 2 ^ 31 \<Longrightarrow> sint (word_of_int i :: uint32) = i"
  by (simp add: signed_of_int signed_take_bit_int_eq_self)

lemma timestamp_distance:
  assumes "a \<le> maxJitterFrames" and "b \<le> maxJitterFrames"
  shows "tsDistance (sentTimestamp x a) (sentTimestamp x b) = (int a - int b) * int FrameSamples"
proof -
  have "sentTimestamp x a - sentTimestamp x b = word_of_int ((int a - int b) * int FrameSamples)"
    by (simp add: sentTimestamp_def algebra_simps)
  moreover have "- (2 ^ 31) \<le> (int a - int b) * int FrameSamples" "(int a - int b) * int FrameSamples < 2 ^ 31"
    using assms by (simp_all add: FrameSamples_def)
  ultimately show ?thesis by (simp only: tsDistance_def sint_small)
qed

lemma timestamp_inject:
  "a \<le> maxJitterFrames \<Longrightarrow> b \<le> maxJitterFrames \<Longrightarrow> sentTimestamp x a = sentTimestamp x b \<longleftrightarrow> a = b"
  using timestamp_distance [of a b x] by (auto simp: tsDistance_def)

lemma sequence_less: "sendable x n \<Longrightarrow> a < n \<Longrightarrow> b < n \<Longrightarrow> sentSequence x a < sentSequence x b \<longleftrightarrow> a < b"
proof -
  assume n: "sendable x n" "a < n" "b < n"
  have "unat (ssFirst x + of_nat k) = unat (ssFirst x) + k" if "k < n" for k
    using n(1) that by (simp add: sendable_def unat_word_ariths unat_of_nat)
  with n show ?thesis by (simp add: sentSequence_def word_less_nat_alt)
qed

lemma next_timestamp: "sentTimestamp x k + of_nat FrameSamples = sentTimestamp x (Suc k)"
  by (simp add: sentTimestamp_def algebra_simps)

section \<open>Filling the buffer\<close>

definition holds :: "sentStream \<Rightarrow> nat \<Rightarrow> nat set \<Rightarrow> (uint32 \<times> jitterFrame) list \<Rightarrow> bool" where
  "holds x n ks frames \<longleftrightarrow> ks \<subseteq> {..<n} \<and> distinct (map fst frames) \<and> set frames = (\<lambda>k. (sentTimestamp x k, sentJitter x k)) ` ks"

definition filling :: "sentStream \<Rightarrow> nat \<Rightarrow> 'd \<Rightarrow> nat set \<Rightarrow> ('d, 's, 'f) jitterStream \<Rightarrow> bool" where
  "filling x n decoder ks s \<longleftrightarrow>
     holds x n ks (jsFrames s) \<and> jsDecoder s = decoder \<and> jsStreamID s = ssStreamID x \<and> jsFloor s = 0 \<and> \<not> jsStarted s \<and>
     jsIdle s = 0 \<and> (jsHasLatest s \<longleftrightarrow> ks \<noteq> {}) \<and>
     (ks \<noteq> {} \<longrightarrow> jsLatest s = sentTimestamp x (Max ks) \<and> jsLatestSequence s = sentSequence x (Max ks))"

lemma holds_map_of:
  assumes "holds x n ks frames" and "n \<le> maxJitterFrames" and "k \<le> n"
  shows "map_of frames (sentTimestamp x k) = (if k \<in> ks then Some (sentJitter x k) else None)"
proof (cases "k \<in> ks")
  case True
  with assms show ?thesis by (auto simp: holds_def)
next
  case False
  have "sentTimestamp x k \<noteq> sentTimestamp x j" if "j \<in> ks" for j
    using that False assms timestamp_inject [of k j x] by (auto simp: holds_def)
  then have "sentTimestamp x k \<notin> sentTimestamp x ` ks" by blast
  moreover have "fst ` set frames = sentTimestamp x ` ks" using assms by (simp add: holds_def image_image)
  ultimately show ?thesis using False by (simp add: map_of_eq_None_iff)
qed

lemma holds_length: "holds x n ks frames \<Longrightarrow> n \<le> maxJitterFrames \<Longrightarrow> length frames = card ks"
proof -
  assume h: "holds x n ks frames" "n \<le> maxJitterFrames"
  have "inj_on (\<lambda>k. (sentTimestamp x k, sentJitter x k)) ks"
    using h timestamp_inject by (auto simp: inj_on_def holds_def) (metis lessThan_iff less_imp_le order_trans subsetD)
  then have "card (set frames) = card ks" using h by (simp add: holds_def card_image)
  moreover have "distinct frames" using h by (auto simp: holds_def distinct_map)
  ultimately show ?thesis by (simp add: distinct_card)
qed

lemma store_fields:
  "jsDecoder (storeJitter (sentFrame x k) s) = jsDecoder s" "jsStreamID (storeJitter (sentFrame x k) s) = jsStreamID s"
  "jsFloor (storeJitter (sentFrame x k) s) = jsFloor s" "jsStarted (storeJitter (sentFrame x k) s) = jsStarted s"
  "jsIdle (storeJitter (sentFrame x k) s) = 0" "jsHasLatest (storeJitter (sentFrame x k) s)"
  "jsLatest (storeJitter (sentFrame x k) s) =
     (if \<not> jsHasLatest s \<or> sentSequence x k > jsLatestSequence s then sentTimestamp x k else jsLatest s)"
  "jsLatestSequence (storeJitter (sentFrame x k) s) =
     (if \<not> jsHasLatest s \<or> sentSequence x k > jsLatestSequence s then sentSequence x k else jsLatestSequence s)"
  by (simp_all add: storeJitter_def Let_def sentFrame_def)

lemma fill_step:
  assumes "sendable x n" and "filling x n decoder ks s" and "k < n" and "k \<notin> ks"
  shows "filling x n decoder (insert k ks) (addToStream dc fl (sentFrame x k) s)"
proof -
  have n: "n \<le> maxJitterFrames" "finite ks" using assms by (auto simp: sendable_def filling_def holds_def dest: finite_subset)
  have h: "holds x n ks (jsFrames s)" using assms by (simp add: filling_def)
  have absent: "map_of (jsFrames s) (sentTimestamp x k) = None" using holds_map_of [OF h n(1), of k] assms by simp
  have "card ks < n" using assms h n by (metis card_lessThan finite_lessThan holds_def lessThan_iff psubsetI psubset_card_mono)
  then have room: "makeRoom (sentTimestamp x k) s = Some s" using holds_length [OF h n(1)] n by (simp add: makeRoom_def)
  have latest: "resyncLatest dc fl (sentFrame x k) s = s"
  proof (cases "jsHasLatest s \<and> sentSequence x k > jsLatestSequence s")
    case True
    then have ks: "ks \<noteq> {}" "jsLatest s = sentTimestamp x (Max ks)" "jsLatestSequence s = sentSequence x (Max ks)"
      using assms by (auto simp: filling_def)
    then have m: "Max ks < n" using n h by (auto simp: holds_def dest: Max_in)
    with True ks have "Max ks < k" using sequence_less [OF assms(1) m assms(3)] by simp
    have "tsDistance (sentTimestamp x k) (jsLatest s) = (int k - int (Max ks)) * int FrameSamples"
      unfolding ks(2) using m assms(3) n(1) by (intro timestamp_distance) simp_all
    moreover have "0 < (int k - int (Max ks)) * int FrameSamples" "(int k - int (Max ks)) * int FrameSamples \<le> int (maxJitterFrames * FrameSamples)"
      using \<open>Max ks < k\<close> assms(3) n by (simp_all add: FrameSamples_def)
    ultimately show ?thesis by (simp add: resyncLatest_def sentFrame_def Let_def outOfStep_def del: maxJitterFrames_def)
  qed (auto simp: resyncLatest_def sentFrame_def)
  have "0 < sentSequence x k"
  proof -
    have "unat (sentSequence x k) = unat (ssFirst x) + k" using assms(1,3)
      by (simp add: sentSequence_def sendable_def unat_word_ariths unat_of_nat)
    then show ?thesis using assms(1) by (auto simp: sendable_def word_less_nat_alt)
  qed
  moreover have "ssPayload x k \<noteq> []" using assms(1,3) by (auto simp: sendable_def list_all_iff)
  ultimately have add: "addToStream dc fl (sentFrame x k) s = storeJitter (sentFrame x k) s"
    using assms latest absent room by (simp add: addToStream_def Let_def filling_def sentFrame_def resyncStarted_def)
  have "holds x n (insert k ks) (jsFrames (storeJitter (sentFrame x k) s))"
    using h absent assms(3) by (simp add: storeJitter_def Let_def sentFrame_def holds_def update_absent sentJitter_def map_of_eq_None_iff)
  note kept = this
  have "sentSequence x k > jsLatestSequence s \<longleftrightarrow> Max ks < k" if "ks \<noteq> {}"
    using that assms h n sequence_less [OF assms(1), of "Max ks" k] by (auto simp: filling_def holds_def dest!: Max_in)
  note newer = this
  have "Max (insert k ks) = (if ks = {} then k else max k (Max ks))" using n by simp
  moreover have "ks \<noteq> {} \<Longrightarrow> Max ks \<noteq> k" using assms(4) n Max_in by blast
  ultimately show ?thesis unfolding add using assms(2) newer kept
    by (cases "ks = {}") (auto simp: filling_def store_fields max_def not_less less_le)
qed

lemma fill_all:
  assumes "sendable x n" and "distinct ks" and "set ks \<subseteq> {..<n}"
  shows "filling x n decoder (set ks)
    (foldl (\<lambda>s k. addToStream dc fl (sentFrame x k) s) (newJitterStream fl decoder (ssStreamID x)) ks)"
  using assms(2,3)
proof (induction ks rule: rev_induct)
  case Nil
  show ?case by (simp add: filling_def holds_def newJitterStream_def)
next
  case (snoc k ks)
  then show ?case by (auto intro!: fill_step [OF assms(1)])
qed

section \<open>Playing it\<close>

text \<open>The earliest of the frames starts the stream.\<close>

lemma first_selected:
  assumes "sendable x n" and "holds x n {..<n} frames" and "set es \<subseteq> set frames"
    and "selected = None \<or> (\<exists>k < n. selected = Some (sentTimestamp x k, sentSequence x k))"
    and "(sentTimestamp x 0, sentJitter x 0) \<in> set es \<or> selected = Some (sentTimestamp x 0, sentSequence x 0)"
  shows "foldl (selectStart frames) selected es = Some (sentTimestamp x 0, sentSequence x 0)"
  using assms(3-5)
proof (induction es arbitrary: selected)
  case (Cons e es)
  have n: "0 < n" "Suc 0 < n" "n \<le> maxJitterFrames" using assms(1) by (simp_all add: sendable_def)
  have first: "contiguousAt frames (sentTimestamp x 0)"
    using holds_map_of [OF assms(2) n(3), of 1] n next_timestamp [of x 0] by (simp add: contiguousAt_def upt_conv_Cons)
  obtain k where k: "k < n" "e = (sentTimestamp x k, sentJitter x k)" using Cons.prems(1) assms(2) by (auto simp: holds_def)
  let ?next = "selectStart frames selected e"
  have "?next = None \<or> (\<exists>k < n. ?next = Some (sentTimestamp x k, sentSequence x k))"
    using Cons.prems(2) k by (auto simp: selectStart_def sentJitter_def)
  moreover have "(sentTimestamp x 0, sentJitter x 0) \<in> set es \<or> ?next = Some (sentTimestamp x 0, sentSequence x 0)"
  proof (cases "e = (sentTimestamp x 0, sentJitter x 0)")
    case True
    then show ?thesis using Cons.prems(2) first sequence_less [OF assms(1) n(1)]
      by (auto simp: selectStart_def sentJitter_def split: option.split)
  next
    case False
    then show ?thesis using Cons.prems(3) k sequence_less [OF assms(1) k(1) n(1)] by (auto simp: selectStart_def sentJitter_def)
  qed
  ultimately show ?case using Cons by simp
qed auto

lemma start_first: "sendable x n \<Longrightarrow> holds x n {..<n} frames \<Longrightarrow> contiguousStart frames = Some (sentTimestamp x 0)"
proof -
  assume h: "sendable x n" "holds x n {..<n} frames"
  then have "length frames = n" "(sentTimestamp x 0, sentJitter x 0) \<in> set frames"
    using holds_length [OF h(2)] by (auto simp: sendable_def holds_def)
  then show ?thesis using h first_selected [OF h order_refl, of None] by (simp add: contiguousStart_def sendable_def)
qed

lemma play_present:
  assumes "map_of (jsFrames s) (jsExpected s) = Some f" and "dcDecode dc (jsDecoder s) (Some (jfPayload f)) = (d, Inr (FrameSamples, pcm))"
  shows "\<exists>u. keptStream (playExpected dc fl b kind s) = Some u \<and> jsDecoder u = d \<and> jsFrames u = AList.delete (jsExpected s) (jsFrames s) \<and>
    jsExpected u = jsExpected s + of_nat FrameSamples \<and> jsStarted u = jsStarted s \<and> jsIdle u = jsIdle s"
proof -
  have decoded: "\<exists>u. keptStream (playDecoded fl b kind True pcm t) = Some u \<and> jsDecoder u = jsDecoder t \<and> jsFrames u = jsFrames t \<and>
      jsExpected u = jsExpected t + of_nat FrameSamples \<and> jsStarted u = jsStarted t \<and> jsIdle u = jsIdle t" for t
    by (simp add: playDecoded_def Let_def split: prod.split)
  show ?thesis using assms decoded [of "s\<lparr>jsFrames := AList.delete (jsExpected s) (jsFrames s), jsLosses := 0, jsDecoder := d\<rparr>"]
    by (simp add: playExpected_def Let_def decodeNext_def)
qed

definition playingFrom :: "sentStream \<Rightarrow> nat \<Rightarrow> nat \<Rightarrow> 'd \<Rightarrow> ('d, 's, 'f) jitterStream \<Rightarrow> bool" where
  "playingFrom x n j decoder s \<longleftrightarrow>
     holds x n {j..<n} (jsFrames s) \<and> jsDecoder s = decoder \<and> jsStarted s \<and> jsExpected s = sentTimestamp x j"

lemma play_one:
  assumes "sendable x n" and "playingFrom x n j decoder s" and "j < n"
    and "dcDecode dc decoder (Some (ssPayload x j)) = (d, Inr (FrameSamples, pcm))"
  shows "\<exists>u. keptStream (playExpected dc fl b kind s) = Some u \<and> playingFrom x n (Suc j) d u \<and> jsIdle u = jsIdle s"
proof -
  have h: "holds x n {j..<n} (jsFrames s)" and n: "n \<le> maxJitterFrames" using assms by (simp_all add: playingFrom_def sendable_def)
  have f: "map_of (jsFrames s) (jsExpected s) = Some (sentJitter x j)"
    using assms holds_map_of [OF h n, of j] by (simp add: playingFrom_def)
  have "AList.delete (sentTimestamp x j) (jsFrames s) = filter (\<lambda>e. fst e \<noteq> sentTimestamp x j) (jsFrames s)"
    by (auto simp: AList.delete_eq intro: filter_cong)
  then have "set (AList.delete (sentTimestamp x j) (jsFrames s)) = (\<lambda>k. (sentTimestamp x k, sentJitter x k)) ` {Suc j..<n}"
    using h n assms(3) timestamp_inject [of _ j x] by (auto simp: holds_def le_Suc_eq Suc_le_eq less_le image_iff)
  then have "holds x n {Suc j..<n} (AList.delete (sentTimestamp x j) (jsFrames s))" using h by (auto simp: holds_def)
  with play_present [OF f, of dc d pcm fl b kind] assms show ?thesis
    by (fastforce simp: playingFrom_def sentJitter_def next_timestamp)
qed

fun jitterTurns :: "('d, 's) decoderOps \<Rightarrow> ('s, 'f) floats \<Rightarrow> bool \<Rightarrow> byte \<Rightarrow> nat \<Rightarrow> ('d, 's, 'f) jitterStream \<Rightarrow>
    ('d, 's, 'f) jitterStream option" where
  "jitterTurns dc fl b kind 0 s = Some s"
| "jitterTurns dc fl b kind (Suc turns) s = Option.bind (keptStream (nextStream dc fl b kind s)) (jitterTurns dc fl b kind turns)"

text \<open>The payloads of the frames \<open>ks\<close> through the decoder one after the other; \<open>None\<close> once it fails or gives a frame of another size.\<close>

fun decodeInTurn :: "('d, 's) decoderOps \<Rightarrow> sentStream \<Rightarrow> nat list \<Rightarrow> 'd \<Rightarrow> 'd option" where
  "decodeInTurn dc x [] d = Some d"
| "decodeInTurn dc x (k # ks) d =
     (case dcDecode dc d (Some (ssPayload x k)) of
        (d', Inl err) \<Rightarrow> None
      | (d', Inr (count, pcm)) \<Rightarrow> if count = FrameSamples then decodeInTurn dc x ks d' else None)"

lemma play_removed:
  assumes "sendable x n" and "playingFrom x n j decoder s" and "j < n"
    and "\<nexists>d pcm. dcDecode dc decoder (Some (ssPayload x j)) = (d, Inr (FrameSamples, pcm))"
  shows "keptStream (playExpected dc fl b kind s) = None"
proof -
  have "map_of (jsFrames s) (jsExpected s) = Some (sentJitter x j)"
    using assms holds_map_of [of x n "{j..<n}" "jsFrames s" j] by (simp add: playingFrom_def sendable_def)
  then show ?thesis using assms(2,4)
    by (auto simp: playExpected_def Let_def decodeNext_def playingFrom_def sentJitter_def split: prod.split sum.split)
qed

text \<open>What is left of a stream after some turns, for a comparison: its decoder and how many frames wait.\<close>

abbreviation left_over :: "('d, 's, 'f) jitterStream option \<Rightarrow> ('d \<times> nat) option" where
  "left_over \<equiv> map_option (\<lambda>s. (jsDecoder s, length (jsFrames s)))"

lemma decodeInTurn_fails:
  "\<nexists>d' pcm. dcDecode dc d (Some (ssPayload x k)) = (d', Inr (FrameSamples, pcm)) \<Longrightarrow> decodeInTurn dc x (k # ks) d = None"
  by (auto split: prod.split sum.split)

text \<open>A turn from a stream that plays, and the turns that follow.\<close>

lemma turn_then:
  assumes "sendable x n" and "playingFrom x n j d s" and "j < n"
    and begun: "nextStream dc fl b kind t = playExpected dc fl b kind s"
    and rest: "\<And>u d'. playingFrom x n (Suc j) d' u \<Longrightarrow> jsIdle u = jsIdle s \<Longrightarrow>
      left_over (jitterTurns dc fl b kind m u) = map_option (\<lambda>d. (d, n - (Suc j + m))) (decodeInTurn dc x [Suc j..<Suc j + m] d')"
  shows "left_over (jitterTurns dc fl b kind (Suc m) t) = map_option (\<lambda>d. (d, n - (j + Suc m))) (decodeInTurn dc x [j..<j + Suc m] d)"
proof -
  have upt: "[j..<Suc (j + m)] = j # [Suc j..<Suc (j + m)]" by (simp add: upt_conv_Cons del: upt_Suc)
  show ?thesis
  proof (cases "\<exists>d' pcm. dcDecode dc d (Some (ssPayload x j)) = (d', Inr (FrameSamples, pcm))")
    case True
    then obtain d' pcm where dec: "dcDecode dc d (Some (ssPayload x j)) = (d', Inr (FrameSamples, pcm))" by blast
    then obtain u where "keptStream (playExpected dc fl b kind s) = Some u" "playingFrom x n (Suc j) d' u" "jsIdle u = jsIdle s"
      using play_one [OF assms(1-3)] by blast
    with rest [of d' u] dec show ?thesis by (simp add: begun upt del: upt_Suc)
  next
    case False
    with play_removed [OF assms(1-3)] decodeInTurn_fails show ?thesis by (simp add: begun upt del: upt_Suc decodeInTurn.simps)
  qed
qed

lemma playing_length: "playingFrom x n j d s \<Longrightarrow> sendable x n \<Longrightarrow> length (jsFrames s) = n - j"
  using holds_length [of x n "{j..<n}" "jsFrames s"] by (simp add: playingFrom_def sendable_def)

lemma turns_from:
  assumes "sendable x n"
  shows "playingFrom x n j d s \<Longrightarrow> jsIdle s \<le> Suc j \<Longrightarrow> j + m \<le> n \<Longrightarrow>
    left_over (jitterTurns dc fl b kind m s) = map_option (\<lambda>d. (d, n - (j + m))) (decodeInTurn dc x [j..<j + m] d)"
proof (induction m arbitrary: j d s)
  case 0
  then show ?case using playing_length [OF _ assms] by (auto simp: playingFrom_def)
next
  case (Suc m)
  have idle: "\<not> jsIdle s + 1 > streamIdleFrames" using Suc.prems assms by (simp add: sendable_def)
  let ?s = "s\<lparr>jsIdle := jsIdle s + 1\<rparr>"
  have "playingFrom x n j d ?s" "j < n" using Suc.prems by (simp_all add: playingFrom_def)
  moreover have "nextStream dc fl b kind s = playExpected dc fl b kind ?s"
    using idle Suc.prems by (simp add: nextStream_def Let_def playingFrom_def)
  ultimately show ?case
    by (rule turn_then [OF assms]) (rule Suc.IH, use Suc.prems in auto)
qed

text \<open>C35: two to sixteen consecutive frames of a source that arrive in any order before their stream starts are handed to the decoder
  in the order they were sent, one per turn and each once, whatever the decoder makes of them.  After \<open>m\<close> turns the decoder is where
  the first \<open>m\<close> payloads take it and only the other frames wait; the stream is gone exactly when one of these payloads does not decode
  to a full frame.\<close>

theorem jitter_reorders:
  assumes "sendable x n" and "distinct ks" and "set ks = {..<n}" and "m \<le> n"
  shows "map_option (\<lambda>s. (jsDecoder s, length (jsFrames s))) (jitterTurns dc fl b kind m
        (foldl (\<lambda>s k. addToStream dc fl (sentFrame x k) s) (newJitterStream fl decoder (ssStreamID x)) ks)) =
      map_option (\<lambda>d. (d, n - m)) (decodeInTurn dc x [0..<m] decoder)"
proof -
  define full where "full = foldl (\<lambda>s k. addToStream dc fl (sentFrame x k) s) (newJitterStream fl decoder (ssStreamID x)) ks"
  have f: "filling x n decoder {..<n} full" using fill_all [OF assms(1,2), of decoder dc fl] assms(3) by (simp add: full_def)
  define s where "s = full\<lparr>jsIdle := jsIdle full + 1, jsExpected := sentTimestamp x 0, jsStarted := True, jsLosses := 0\<rparr>"
  have n: "0 < n" using assms(1) by (simp add: sendable_def)
  have playing: "playingFrom x n 0 decoder s" using f by (simp add: playingFrom_def filling_def s_def lessThan_atLeast0)
  have idle: "jsIdle s = 1" using f by (simp add: s_def filling_def)
  have "contiguousStart (jsFrames full) = Some (sentTimestamp x 0)" using start_first [OF assms(1)] f by (simp add: filling_def)
  then have "nextStream dc fl b kind full = playExpected dc fl b kind s"
    using f by (simp add: nextStream_def Let_def filling_def s_def)
  note turn = turn_then [OF assms(1) playing n this]
  show ?thesis unfolding full_def [symmetric]
  proof (cases m)
    case 0
    with f show "left_over (jitterTurns dc fl b kind m full) = map_option (\<lambda>d. (d, n - m)) (decodeInTurn dc x [0..<m] decoder)"
      using holds_length [of x n "{..<n}" "jsFrames full"] assms(1) by (simp add: filling_def sendable_def)
  next
    case (Suc m')
    have "left_over (jitterTurns dc fl b kind (Suc m') full) =
        map_option (\<lambda>d. (d, n - (0 + Suc m'))) (decodeInTurn dc x [0..<0 + Suc m'] decoder)"
      by (rule turn, rule turns_from [OF assms(1)]) (use idle assms(4) Suc in auto)
    with Suc show "left_over (jitterTurns dc fl b kind m full) = map_option (\<lambda>d. (d, n - m)) (decodeInTurn dc x [0..<m] decoder)" by simp
  qed
qed

text \<open>A decoder that remembers what it was given and refuses one payload.\<close>

definition tracingDecoder :: "(bytes list, nat) decoderOps" where
  "tracingDecoder = \<lparr>dcNew = (\<lambda>_. Inr []), dcReset = (\<lambda>d. d),
     dcDecode = (\<lambda>d p. case p of None \<Rightarrow> (d, Inr (FrameSamples, []))
       | Some p \<Rightarrow> (d @ [p], if p = [9] then Inl (bytes_of ''corrupted'') else Inr (FrameSamples, []))),
     dcDecodeFEC = (\<lambda>d p. (d @ [p], Inr (FrameSamples, [])))\<rparr>"

definition exampleSent :: "byte \<Rightarrow> sentStream" where
  "exampleSent third = \<lparr>ssSource = 7, ssKind = AudioStreamVoice, ssStreamID = 1, ssFirst = 5, ssStart = 4294967000,
     ssPayload = (\<lambda>k. [if k = 2 then third else of_nat k])\<rparr>"

abbreviation exampleTurns :: "(nat, unit) floats \<Rightarrow> byte \<Rightarrow> nat \<Rightarrow> (bytes list \<times> nat) option" where
  "exampleTurns fl third m \<equiv> map_option (\<lambda>s. (jsDecoder s, length (jsFrames s))) (jitterTurns tracingDecoder fl True AudioStreamVoice m
      (foldl (\<lambda>s k. addToStream tracingDecoder fl (sentFrame (exampleSent third) k) s)
        (newJitterStream fl [] (ssStreamID (exampleSent third))) [2, 0, 1]))"

theorem jitter_reorders_witness:
  "\<forall>fl. exampleTurns fl 2 3 = Some ([[0], [1], [2]], 0) \<and> exampleTurns fl 9 2 = Some ([[0], [1]], 1) \<and> exampleTurns fl 9 3 = None"
proof
  fix fl :: "(nat, unit) floats"
  have x: "sendable (exampleSent third) 3" for third by (simp add: sendable_def exampleSent_def upt_conv_Cons)
  have ks: "distinct [2, 0, 1 :: nat]" "set [2, 0, 1] = {..<3 :: nat}" by auto
  have "exampleTurns fl third m = map_option (\<lambda>d. (d, 3 - m)) (decodeInTurn tracingDecoder (exampleSent third) [0..<m] [])" if "m \<le> 3" for third m
    by (rule jitter_reorders [OF x ks that])
  then show "exampleTurns fl 2 3 = Some ([[0], [1], [2]], 0) \<and> exampleTurns fl 9 2 = Some ([[0], [1]], 1) \<and> exampleTurns fl 9 3 = None"
    by (simp add: tracingDecoder_def exampleSent_def upt_conv_Cons)
qed

end
