(* ===== verification/AudioEngine.thy ===== *)
theory AudioEngine
  imports AudioMixer
begin

text \<open>
  The audio engine, \<open>internal/audio/engine.go\<close> with the types of \<open>types.go\<close>: devices, the status it shows, its settings and
  the life of a run.  An operation holds \<open>opMu\<close> and the status is guarded by \<open>mu\<close>, so each is one step; the workers of a run
  go on while it is stopped, and their reports are steps of their own.  Runs are kept in a list and known by their place,
  as the code compares pointers; ports (\<open>MediaFlow\<close>) likewise.  What the audio library answers is an argument.
\<close>

section \<open>Types\<close>

definition defaultAudioGain :: int where [simp]: "defaultAudioGain = 100"
definition minimumAudioGain :: int where [simp]: "minimumAudioGain = 0"
definition maximumAudioGain :: int where [simp]: "maximumAudioGain = 200"

definition peerJoinedNotification :: uint32 where "peerJoinedNotification = 1"
definition peerLeftNotification :: uint32 where "peerLeftNotification = 2"
definition audioMutedNotification :: uint32 where "audioMutedNotification = 3"
definition audioUnmutedNotification :: uint32 where "audioUnmutedNotification = 4"

record Device =
  dvID :: bytes
  dvName :: bytes
  dvDefault :: bool

record 'f Status =
  stRunning :: bool
  stCaptureMuted :: bool
  stPlaybackMuted :: bool
  stCaptureGain :: int
  stCaptureLevel :: 'f
  stCaptureClipped :: bool
  stPlaybackGain :: int
  stEcho :: bool
  stNoise :: bool
  stLoudness :: bool
  stSpeaking :: bool
  stSpeakingPeers :: "PeerID list"
  stCaptureID :: bytes
  stPlaybackID :: bytes
  stCaptureDevices :: "Device list"
  stPlaybackDevices :: "Device list"
  stError :: bytes

definition DevicesAvailable :: "'f Status \<Rightarrow> bool" where
  "DevicesAvailable s \<longleftrightarrow> length (stCaptureDevices s) > 0 \<and> length (stPlaybackDevices s) > 0"

definition defaultStatus :: "('f::zero) Status" where
  "defaultStatus =
     \<lparr>stRunning = False, stCaptureMuted = False, stPlaybackMuted = False, stCaptureGain = defaultAudioGain, stCaptureLevel = 0,
      stCaptureClipped = False, stPlaybackGain = defaultAudioGain, stEcho = True, stNoise = True, stLoudness = True,
      stSpeaking = False, stSpeakingPeers = [], stCaptureID = [], stPlaybackID = [], stCaptureDevices = [], stPlaybackDevices = [],
      stError = []\<rparr>"

record engineRun =
  erPort :: nat
  erGeneration :: uint64
  erPeerNotification :: uint32
  erAudioNotification :: uint32
  erActive :: bool

record 'f Engine =
  enState :: "'f Status"
  enRuns :: "engineRun list"
  enRun :: "nat option"
  enCaptureMuted :: bool
  enPlaybackMuted :: bool
  enCaptureGain :: int
  enPlaybackGain :: int
  enEcho :: bool
  enNoise :: bool
  enLoudness :: bool
  enChanged :: bool
  enClosed :: bool
  enPorts :: "Flow list"

abbreviation onState :: "('f Status \<Rightarrow> 'f Status) \<Rightarrow> 'f Engine \<Rightarrow> 'f Engine" where
  "onState f e \<equiv> e\<lparr>enState := f (enState e)\<rparr>"

text \<open>\<open>publish\<close>: the channel holds one signal.\<close>

definition publish :: "'f Engine \<Rightarrow> 'f Engine" where
  "publish e = e\<lparr>enChanged := True\<rparr>"

definition updateRun :: "nat \<Rightarrow> (engineRun \<Rightarrow> engineRun) \<Rightarrow> 'f Engine \<Rightarrow> 'f Engine" where
  "updateRun r f e = e\<lparr>enRuns := (enRuns e)[r := f (enRuns e ! r)]\<rparr>"

section \<open>Devices\<close>

definition deviceExists :: "Device list \<Rightarrow> bytes \<Rightarrow> bool" where
  "deviceExists devices deviceID \<longleftrightarrow> deviceID = [] \<or> list_ex (\<lambda>device. dvID device = deviceID) devices"

definition availableDeviceID :: "Device list \<Rightarrow> bytes \<Rightarrow> bytes" where
  "availableDeviceID devices selected = (if deviceExists devices selected then selected else [])"

definition validateDeviceIDs :: "Device list \<Rightarrow> Device list \<Rightarrow> bytes \<Rightarrow> bytes \<Rightarrow> bytes option" where
  "validateDeviceIDs capture playback captureID playbackID =
     (if \<not> deviceExists capture captureID then Some (bytes_of ''capture device is unavailable'')
      else if \<not> deviceExists playback playbackID then Some (bytes_of ''playback device is unavailable'')
      else None)"

text \<open>The two enumerations are what the audio library gives; the result is an error or whether the selection changed.\<close>

definition refreshDevicesLocked :: "bytes + Device list \<Rightarrow> bytes + Device list \<Rightarrow> 'f Engine \<Rightarrow> (bytes + bool) \<times> 'f Engine" where
  "refreshDevicesLocked captureResult playbackResult e =
     (case captureResult of
        Inl err \<Rightarrow> (Inl (bytes_of ''enumerate capture devices: '' @ err), e)
      | Inr capture \<Rightarrow>
          (case playbackResult of
             Inl err \<Rightarrow> (Inl (bytes_of ''enumerate playback devices: '' @ err), e)
           | Inr playback \<Rightarrow>
               let s = enState e;
                   nextCaptureID = availableDeviceID capture (stCaptureID s);
                   nextPlaybackID = availableDeviceID playback (stPlaybackID s);
                   selectionChanged = (stCaptureID s \<noteq> nextCaptureID \<or> stPlaybackID s \<noteq> nextPlaybackID);
                   unchanged = (stCaptureID s = nextCaptureID \<and> stPlaybackID s = nextPlaybackID \<and>
                     stCaptureDevices s = capture \<and> stPlaybackDevices s = playback)
               in if unchanged then (Inr False, e)
                  else (Inr selectionChanged,
                    publish (onState (\<lambda>s. s\<lparr>stCaptureDevices := capture, stPlaybackDevices := playback, stCaptureID := nextCaptureID,
                      stPlaybackID := nextPlaybackID\<rparr>) e))))"

definition newEngine :: "Flow list \<Rightarrow> ('f::zero) Engine" where
  "newEngine ports =
     \<lparr>enState = defaultStatus, enRuns = [], enRun = None, enCaptureMuted = False, enPlaybackMuted = False,
      enCaptureGain = defaultAudioGain, enPlaybackGain = defaultAudioGain, enEcho = True, enNoise = True, enLoudness = True,
      enChanged = False, enClosed = False, enPorts = ports\<rparr>"

definition NewEngine :: "int \<Rightarrow> bytes option \<Rightarrow> bytes + Device list \<Rightarrow> bytes + Device list \<Rightarrow> Flow list \<Rightarrow> bytes + ('f::zero) Engine" where
  "NewEngine maxEncodedFrameBytes contextError capture playback ports =
     (if maxEncodedFrameBytes \<le> 0 then Inl (bytes_of ''maximum encoded frame size must be positive'')
      else
        case contextError of
          Some err \<Rightarrow> Inl (bytes_of ''initialise audio context: '' @ err)
        | None \<Rightarrow>
            (case refreshDevicesLocked capture playback (newEngine ports) of
               (Inl err, _) \<Rightarrow> Inl err
             | (Inr _, e) \<Rightarrow> Inr e))"

section \<open>Starting and stopping\<close>

definition engineFail :: "bytes \<Rightarrow> 'f Engine \<Rightarrow> bytes option \<times> 'f Engine" where
  "engineFail err e = (Some err, publish (onState (\<lambda>s. s\<lparr>stError := err, stSpeaking := False, stSpeakingPeers := []\<rparr>) e))"

definition setRuntimeError :: "bytes \<Rightarrow> 'f Engine \<Rightarrow> 'f Engine" where
  "setRuntimeError err e =
     (if stError (enState e) = err then e else publish (onState (\<lambda>s. s\<lparr>stError := err\<rparr>) e))"

definition resetPort :: "nat \<Rightarrow> 'f Engine \<Rightarrow> uint64 \<times> 'f Engine" where
  "resetPort i e =
     (let (generation, _, port) = Reset (enPorts e ! i) in (generation, e\<lparr>enPorts := (enPorts e)[i := port]\<rparr>))"

definition stopRunLocked :: "nat option \<Rightarrow> ('f::zero) Engine \<Rightarrow> 'f Engine" where
  "stopRunLocked run e =
     (case run of
        None \<Rightarrow> e
      | Some r \<Rightarrow>
          if enRun e \<noteq> Some r then e
          else
            let e = updateRun r (\<lambda>x. x\<lparr>erActive := False\<rparr>) (e\<lparr>enRun := None\<rparr>);
                e = onState (\<lambda>s. s\<lparr>stRunning := False, stSpeaking := False, stCaptureLevel := 0, stCaptureClipped := False,
                      stSpeakingPeers := []\<rparr>) e
            in publish (snd (resetPort (erPort (enRuns e ! r)) e)))"

text \<open>The errors of the encoder, of the device and of its start, in the order they are met.\<close>

record startOutcome =
  soEncoder :: "bytes option"
  soDevice :: "bytes option"
  soStart :: "bytes option"

definition beginRun :: "nat \<Rightarrow> startOutcome \<Rightarrow> 'f Engine \<Rightarrow> bytes option \<times> 'f Engine" where
  "beginRun port outcome e =
     (let (generation, e) = resetPort port e
      in case soDevice outcome of
           Some err \<Rightarrow> engineFail err e
         | None \<Rightarrow>
             (case soStart outcome of
                Some err \<Rightarrow> engineFail (bytes_of ''start audio device: '' @ err) (snd (resetPort port e))
              | None \<Rightarrow>
                  (None, publish (onState (\<lambda>s. s\<lparr>stRunning := True, stError := []\<rparr>)
                     (e\<lparr>enRun := Some (length (enRuns e)),
                        enRuns := enRuns e @ [\<lparr>erPort = port, erGeneration = generation, erPeerNotification = 0,
                          erAudioNotification = 0, erActive = True\<rparr>]\<rparr>)))))"

definition startLocked :: "nat option \<Rightarrow> startOutcome \<Rightarrow> 'f Engine \<Rightarrow> bytes option \<times> 'f Engine" where
  "startLocked mediaPort outcome e =
     (if enClosed e then (Some (bytes_of ''audio engine is closed''), e)
      else
        case mediaPort of
          None \<Rightarrow> (Some (bytes_of ''audio media port is required''), e)
        | Some port \<Rightarrow>
            if stRunning (enState e) then (None, e)
            else if \<not> DevicesAvailable (enState e) then (Some (bytes_of ''capture and playback devices are required''), e)
            else
              (case soEncoder outcome of
                 Some err \<Rightarrow> engineFail (bytes_of ''initialise Opus encoder: '' @ err) e
               | None \<Rightarrow> beginRun port outcome e))"

definition rebuildRunLocked :: "nat \<Rightarrow> startOutcome \<Rightarrow> ('f::zero) Engine \<Rightarrow> bytes option \<times> 'f Engine" where
  "rebuildRunLocked r outcome e =
     (let mediaPort = erPort (enRuns e ! r);
          e = stopRunLocked (Some r) e
      in if \<not> DevicesAvailable (enState e) then (None, e) else startLocked (Some mediaPort) outcome e)"

definition RefreshDevices :: "bytes + Device list \<Rightarrow> bytes + Device list \<Rightarrow> startOutcome \<Rightarrow> ('f::zero) Engine \<Rightarrow> bytes option \<times> 'f Engine" where
  "RefreshDevices capture playback outcome e =
     (if enClosed e then (Some (bytes_of ''audio engine is closed''), e)
      else
        case refreshDevicesLocked capture playback e of
          (Inl err, e) \<Rightarrow> (Some err, e)
        | (Inr selectionChanged, e) \<Rightarrow>
            (case enRun e of
               None \<Rightarrow> (None, e)
             | Some r \<Rightarrow> if \<not> selectionChanged \<and> DevicesAvailable (enState e) then (None, e) else rebuildRunLocked r outcome e))"

definition SetDevices :: "bytes \<Rightarrow> bytes \<Rightarrow> startOutcome \<Rightarrow> ('f::zero) Engine \<Rightarrow> bytes option \<times> 'f Engine" where
  "SetDevices captureID playbackID outcome e =
     (if enClosed e then (Some (bytes_of ''audio engine is closed''), e)
      else
        case validateDeviceIDs (stCaptureDevices (enState e)) (stPlaybackDevices (enState e)) captureID playbackID of
          Some err \<Rightarrow> (Some err, e)
        | None \<Rightarrow>
            if stCaptureID (enState e) = captureID \<and> stPlaybackID (enState e) = playbackID then (None, e)
            else
              let e = onState (\<lambda>s. s\<lparr>stCaptureID := captureID, stPlaybackID := playbackID\<rparr>) e
              in case enRun e of None \<Rightarrow> (None, publish e) | Some r \<Rightarrow> rebuildRunLocked r outcome e)"

definition StopEngine :: "('f::zero) Engine \<Rightarrow> 'f Engine" where
  "StopEngine e = stopRunLocked (enRun e) e"

definition CloseEngine :: "bytes option \<Rightarrow> ('f::zero) Engine \<Rightarrow> bytes option \<times> 'f Engine" where
  "CloseEngine uninit e = (if enClosed e then (None, e) else (uninit, (stopRunLocked (enRun e) e)\<lparr>enClosed := True\<rparr>))"

text \<open>One turn of \<open>watchDeviceStop\<close> for a run after the grace period; a run that was stopped is no longer watched.\<close>

definition deviceStopped :: "nat \<Rightarrow> bool \<Rightarrow> ('f::zero) Engine \<Rightarrow> 'f Engine" where
  "deviceStopped r isStarted e =
     (if enClosed e \<or> enRun e \<noteq> Some r then e
      else if isStarted then e
      else stopRunLocked (Some r) (setRuntimeError (bytes_of ''audio device stopped unexpectedly'') e))"

section \<open>Settings\<close>

definition queueAudioNotificationLocked :: "bool \<Rightarrow> 'f Engine \<Rightarrow> 'f Engine" where
  "queueAudioNotificationLocked muted e =
     (case enRun e of
        None \<Rightarrow> e
      | Some r \<Rightarrow>
          if \<not> erActive (enRuns e ! r) then e
          else updateRun r (\<lambda>x. x\<lparr>erAudioNotification := (if muted then audioMutedNotification else audioUnmutedNotification)\<rparr>) e)"

definition PlayPeerChange :: "bool \<Rightarrow> 'f Engine \<Rightarrow> 'f Engine" where
  "PlayPeerChange joined e =
     (case enRun e of
        None \<Rightarrow> e
      | Some r \<Rightarrow>
          if \<not> erActive (enRuns e ! r) then e
          else updateRun r (\<lambda>x. x\<lparr>erPeerNotification := (if joined then peerJoinedNotification else peerLeftNotification)\<rparr>) e)"

definition invalidateRun :: "'f Engine \<Rightarrow> 'f Engine" where
  "invalidateRun e =
     (case enRun e of
        None \<Rightarrow> e
      | Some r \<Rightarrow>
          let i = erPort (enRuns e ! r);
              (generation, _, port) = InvalidateSend (enPorts e ! i)
          in updateRun r (\<lambda>x. x\<lparr>erGeneration := generation\<rparr>) (e\<lparr>enPorts := (enPorts e)[i := port]\<rparr>))"

definition setCaptureMuted :: "bool \<Rightarrow> bool \<Rightarrow> ('f::zero) Engine \<Rightarrow> 'f Engine" where
  "setCaptureMuted muted notify e =
     (if stCaptureMuted (enState e) = muted then e
      else
        let e = (if muted then e\<lparr>enCaptureMuted := True\<rparr> else e);
            e = invalidateRun e;
            e = (if muted then e else e\<lparr>enCaptureMuted := False\<rparr>);
            e = onState (\<lambda>s. s\<lparr>stCaptureMuted := muted, stSpeaking := (if muted then False else stSpeaking s),
                  stCaptureLevel := (if muted then 0 else stCaptureLevel s),
                  stCaptureClipped := (if muted then False else stCaptureClipped s)\<rparr>) e;
            e = (if notify then queueAudioNotificationLocked muted e else e)
        in publish e)"

definition SetPlaybackMuted :: "bool \<Rightarrow> 'f Engine \<Rightarrow> 'f Engine" where
  "SetPlaybackMuted muted e =
     (let changed = (stPlaybackMuted (enState e) \<noteq> muted);
          e = onState (\<lambda>s. s\<lparr>stPlaybackMuted := muted\<rparr>) (e\<lparr>enPlaybackMuted := muted\<rparr>)
      in if changed then publish (queueAudioNotificationLocked muted e) else e)"

definition publishIf :: "bool \<Rightarrow> 'f Engine \<Rightarrow> 'f Engine" where
  "publishIf changed e = (if changed then publish e else e)"

definition SetCaptureGain :: "int \<Rightarrow> 'f Engine \<Rightarrow> bytes option \<times> 'f Engine" where
  "SetCaptureGain gain e =
     (if gain < minimumAudioGain \<or> gain > maximumAudioGain then (Some (bytes_of ''capture gain must be between 0 and 200''), e)
      else (None, publishIf (stCaptureGain (enState e) \<noteq> gain) (onState (\<lambda>s. s\<lparr>stCaptureGain := gain\<rparr>) (e\<lparr>enCaptureGain := gain\<rparr>))))"

definition SetPlaybackGain :: "int \<Rightarrow> 'f Engine \<Rightarrow> bytes option \<times> 'f Engine" where
  "SetPlaybackGain gain e =
     (if gain < minimumAudioGain \<or> gain > maximumAudioGain then (Some (bytes_of ''playback gain must be between 0 and 200''), e)
      else (None, publishIf (stPlaybackGain (enState e) \<noteq> gain) (onState (\<lambda>s. s\<lparr>stPlaybackGain := gain\<rparr>) (e\<lparr>enPlaybackGain := gain\<rparr>))))"

definition SetRemoteLoudnessNormalization :: "bool \<Rightarrow> 'f Engine \<Rightarrow> 'f Engine" where
  "SetRemoteLoudnessNormalization enabled e =
     publishIf (stLoudness (enState e) \<noteq> enabled) (onState (\<lambda>s. s\<lparr>stLoudness := enabled\<rparr>) (e\<lparr>enLoudness := enabled\<rparr>))"

definition SetEchoCancellation :: "bool \<Rightarrow> 'f Engine \<Rightarrow> 'f Engine" where
  "SetEchoCancellation enabled e =
     publishIf (stEcho (enState e) \<noteq> enabled) (onState (\<lambda>s. s\<lparr>stEcho := enabled\<rparr>) (e\<lparr>enEcho := enabled\<rparr>))"

definition SetNoiseSuppression :: "bool \<Rightarrow> 'f Engine \<Rightarrow> 'f Engine" where
  "SetNoiseSuppression enabled e =
     publishIf (stNoise (enState e) \<noteq> enabled) (onState (\<lambda>s. s\<lparr>stNoise := enabled\<rparr>) (e\<lparr>enNoise := enabled\<rparr>))"

section \<open>Reports of the workers\<close>

definition setLocalSpeaking :: "nat \<Rightarrow> uint64 \<Rightarrow> bool \<Rightarrow> 'f Engine \<Rightarrow> 'f Engine" where
  "setLocalSpeaking r generation speaking e =
     (if \<not> erActive (enRuns e ! r) \<or> enCaptureMuted e \<or> generation \<noteq> erGeneration (enRuns e ! r) \<or> stSpeaking (enState e) = speaking
      then e
      else publish (onState (\<lambda>s. s\<lparr>stSpeaking := speaking\<rparr>) e))"

definition setCaptureMeter :: "nat \<Rightarrow> uint64 \<Rightarrow> 'f \<Rightarrow> bool \<Rightarrow> ('f::zero) Engine \<Rightarrow> 'f Engine" where
  "setCaptureMeter r generation level clipped e =
     (if \<not> erActive (enRuns e ! r) \<or> generation \<noteq> erGeneration (enRuns e ! r) then e
      else
        let level = (if enCaptureMuted e then 0 else level);
            clipped = (if enCaptureMuted e then False else clipped)
        in if stCaptureLevel (enState e) = level \<and> stCaptureClipped (enState e) = clipped then e
           else publish (onState (\<lambda>s. s\<lparr>stCaptureLevel := level, stCaptureClipped := clipped\<rparr>) e))"

definition setSpeakingPeerIDs :: "nat \<Rightarrow> PeerID list \<Rightarrow> 'f Engine \<Rightarrow> 'f Engine" where
  "setSpeakingPeerIDs r peerIDs e =
     (if \<not> erActive (enRuns e ! r) \<or> stSpeakingPeers (enState e) = peerIDs then e
      else publish (onState (\<lambda>s. s\<lparr>stSpeakingPeers := peerIDs\<rparr>) e))"

end
