(* ===== verification/EngineSafety.thy ===== *)
theory EngineSafety
  imports AudioEngine
begin

text \<open>
  What the audio engine keeps through any sequence of calls, device events, reports of workers old and new, and uses of its
  ports by the peer.
\<close>

section \<open>Events\<close>

datatype 'f engineEvent =
    DevicesRefreshed "bytes + Device list" "bytes + Device list" startOutcome
  | DevicesSelected bytes bytes startOutcome
  | CaptureMuted bool bool
  | PlaybackMuted bool
  | PeerChanged bool
  | CaptureGain int
  | PlaybackGain int
  | LoudnessSet bool
  | EchoSet bool
  | NoiseSet bool
  | Started "nat option" startOutcome
  | Stopped
  | EngineClosed "bytes option"
  | DeviceStopped nat bool
  | LocalSpeaking nat uint64 bool
  | Metered nat uint64 'f bool
  | PeersSpeaking nat "PeerID list"
  | WorkerError bytes
  | FrameReceived nat ReceivedFrame
  | FrameTaken nat
  | FrameSubmitted nat SendFrame
  | FrameConsumed nat
  | SourceSelected nat PeerID
  | InvalidatorSet nat bool

text \<open>A place in the list of runs or ports that names nothing is no event.\<close>

definition onPort :: "nat \<Rightarrow> (Flow \<Rightarrow> Flow) \<Rightarrow> 'f Engine \<Rightarrow> 'f Engine" where
  "onPort i f e = (if i < length (enPorts e) then e\<lparr>enPorts := (enPorts e)[i := f (enPorts e ! i)]\<rparr> else e)"

definition knownPort :: "nat option \<Rightarrow> 'f Engine \<Rightarrow> bool" where
  "knownPort port e \<longleftrightarrow> (\<forall>i. port = Some i \<longrightarrow> i < length (enPorts e))"

fun engineStep :: "('f::zero) Engine \<Rightarrow> 'f engineEvent \<Rightarrow> 'f Engine" where
  "engineStep e (DevicesRefreshed capture playback outcome) = snd (RefreshDevices capture playback outcome e)"
| "engineStep e (DevicesSelected captureID playbackID outcome) = snd (SetDevices captureID playbackID outcome e)"
| "engineStep e (CaptureMuted muted notify) = setCaptureMuted muted notify e"
| "engineStep e (PlaybackMuted muted) = SetPlaybackMuted muted e"
| "engineStep e (PeerChanged joined) = PlayPeerChange joined e"
| "engineStep e (CaptureGain gain) = snd (SetCaptureGain gain e)"
| "engineStep e (PlaybackGain gain) = snd (SetPlaybackGain gain e)"
| "engineStep e (LoudnessSet enabled) = SetRemoteLoudnessNormalization enabled e"
| "engineStep e (EchoSet enabled) = SetEchoCancellation enabled e"
| "engineStep e (NoiseSet enabled) = SetNoiseSuppression enabled e"
| "engineStep e (Started port outcome) = (if knownPort port e then snd (startLocked port outcome e) else e)"
| "engineStep e Stopped = StopEngine e"
| "engineStep e (EngineClosed uninit) = snd (CloseEngine uninit e)"
| "engineStep e (DeviceStopped r isStarted) = deviceStopped r isStarted e"
| "engineStep e (LocalSpeaking r generation speaking) = (if r < length (enRuns e) then setLocalSpeaking r generation speaking e else e)"
| "engineStep e (Metered r generation level clipped) = (if r < length (enRuns e) then setCaptureMeter r generation level clipped e else e)"
| "engineStep e (PeersSpeaking r peerIDs) = (if r < length (enRuns e) then setSpeakingPeerIDs r peerIDs e else e)"
| "engineStep e (WorkerError err) = setRuntimeError err e"
| "engineStep e (FrameReceived i frame) = onPort i (\<lambda>f. snd (SubmitReceived f frame)) e"
| "engineStep e (FrameTaken i) = onPort i (\<lambda>f. case TakeReceived f of None \<Rightarrow> f | Some (_, f) \<Rightarrow> f) e"
| "engineStep e (FrameSubmitted i frame) = onPort i (\<lambda>f. snd (SubmitSend f frame)) e"
| "engineStep e (FrameConsumed i) = onPort i (\<lambda>f. snd (ConsumeSend f)) e"
| "engineStep e (SourceSelected i source) = onPort i (\<lambda>f. SetScreenAudioSource f source) e"
| "engineStep e (InvalidatorSet i b) = onPort i (\<lambda>f. snd (SetSendInvalidator f b)) e"

section \<open>The invariant\<close>

definition run_ok :: "'f Engine \<Rightarrow> bool" where
  "run_ok e \<longleftrightarrow> (stRunning (enState e) \<longleftrightarrow> enRun e \<noteq> None) \<and>
     (\<forall>r < length (enRuns e). erActive (enRuns e ! r) \<longleftrightarrow> enRun e = Some r) \<and>
     (\<forall>r. enRun e = Some r \<longrightarrow> r < length (enRuns e) \<and> \<not> enClosed e \<and> erPort (enRuns e ! r) < length (enPorts e) \<and>
        erGeneration (enRuns e ! r) = sendGeneration (enPorts e ! erPort (enRuns e ! r)))"

definition settings_ok :: "'f Engine \<Rightarrow> bool" where
  "settings_ok e \<longleftrightarrow> enCaptureMuted e = stCaptureMuted (enState e) \<and> enPlaybackMuted e = stPlaybackMuted (enState e) \<and>
     enCaptureGain e = stCaptureGain (enState e) \<and> enPlaybackGain e = stPlaybackGain (enState e) \<and>
     enEcho e = stEcho (enState e) \<and> enNoise e = stNoise (enState e) \<and> enLoudness e = stLoudness (enState e) \<and>
     enCaptureGain e \<in> {minimumAudioGain..maximumAudioGain} \<and> enPlaybackGain e \<in> {minimumAudioGain..maximumAudioGain}"

definition shown_ok :: "('f::zero) Status \<Rightarrow> bool" where
  "shown_ok s \<longleftrightarrow> (stCaptureMuted s \<or> \<not> stRunning s \<longrightarrow> \<not> stSpeaking s \<and> stCaptureLevel s = 0 \<and> \<not> stCaptureClipped s) \<and>
     (\<not> stRunning s \<longrightarrow> stSpeakingPeers s = []) \<and>
     deviceExists (stCaptureDevices s) (stCaptureID s) \<and> deviceExists (stPlaybackDevices s) (stPlaybackID s)"

definition engine_base :: "('f::zero) Engine \<Rightarrow> bool" where
  "engine_base e \<longleftrightarrow> run_ok e \<and> settings_ok e \<and> shown_ok (enState e)"

definition engine_ok :: "('f::zero) Engine \<Rightarrow> bool" where
  "engine_ok e \<longleftrightarrow> engine_base e \<and> (stRunning (enState e) \<longrightarrow> DevicesAvailable (enState e))"

lemma publish_fields [simp]:
  "enState (publish e) = enState e" "enRun (publish e) = enRun e" "enRuns (publish e) = enRuns e" "enClosed (publish e) = enClosed e"
  "enPorts (publish e) = enPorts e" "enCaptureMuted (publish e) = enCaptureMuted e" "enPlaybackMuted (publish e) = enPlaybackMuted e"
  "enCaptureGain (publish e) = enCaptureGain e" "enPlaybackGain (publish e) = enPlaybackGain e" "enEcho (publish e) = enEcho e"
  "enNoise (publish e) = enNoise e" "enLoudness (publish e) = enLoudness e" "run_ok (publish e) = run_ok e" "settings_ok (publish e) = settings_ok e"
  by (simp_all add: publish_def run_ok_def settings_ok_def)

lemma publish_ok [simp]: "engine_base (publish e) = engine_base e" "engine_ok (publish e) = engine_ok e"
  by (simp_all add: engine_ok_def engine_base_def)

lemma run_ok_state: "stRunning s = stRunning (enState e) \<Longrightarrow> run_ok (e\<lparr>enState := s\<rparr>) = run_ok e"
  by (simp add: run_ok_def)

lemma publishIf_simps [simp]:
  "enState (publishIf b e) = enState e" "engine_base (publishIf b e) = engine_base e" "engine_ok (publishIf b e) = engine_ok e"
  by (simp_all add: publishIf_def)

lemma publishIf_fields [simp]:
  "run_ok (publishIf b e) = run_ok e" "enCaptureMuted (publishIf b e) = enCaptureMuted e" "enPlaybackMuted (publishIf b e) = enPlaybackMuted e"
  "enCaptureGain (publishIf b e) = enCaptureGain e" "enPlaybackGain (publishIf b e) = enPlaybackGain e" "enEcho (publishIf b e) = enEcho e"
  "enNoise (publishIf b e) = enNoise e" "enLoudness (publishIf b e) = enLoudness e"
  by (simp_all add: publishIf_def)

fun settingsOf :: "'f Status \<Rightarrow> bool \<times> bool \<times> int \<times> int \<times> bool \<times> bool \<times> bool" where
  "settingsOf s = (stCaptureMuted s, stPlaybackMuted s, stCaptureGain s, stPlaybackGain s, stEcho s, stNoise s, stLoudness s)"

lemma settings_state: "settingsOf s = settingsOf (enState e) \<Longrightarrow> settings_ok (e\<lparr>enState := s\<rparr>) = settings_ok e"
  by (simp add: settings_ok_def)

lemma port_generations:
  "sendGeneration (snd (SubmitReceived f frame)) = sendGeneration f"
  "sendGeneration (case TakeReceived f of None \<Rightarrow> f | Some (_, f) \<Rightarrow> f) = sendGeneration f"
  "sendGeneration (snd (SubmitSend f s)) = sendGeneration f"
  "sendGeneration (snd (ConsumeSend f)) = sendGeneration f"
  "sendGeneration (SetScreenAudioSource f source) = sendGeneration f"
  "sendGeneration (snd (SetSendInvalidator f b)) = sendGeneration f"
proof -
  show "sendGeneration (case TakeReceived f of None \<Rightarrow> f | Some (_, f) \<Rightarrow> f) = sendGeneration f"
    by (auto simp: TakeReceived_def takeAt_def Let_def split: option.split if_splits dest!: first_some_SomeD)
qed (auto simp: SubmitReceived_def SubmitSend_def ConsumeSend_def SetScreenAudioSource_def SetSendInvalidator_def Let_def
  split: option.split)

lemma onPort_ok:
  assumes "engine_ok e" and "\<And>f. sendGeneration (g f) = sendGeneration f"
  shows "engine_ok (onPort i g e)"
  using assms by (auto simp: onPort_def engine_ok_def engine_base_def run_ok_def settings_ok_def nth_list_update)

section \<open>Starting and stopping\<close>

lemma engineFail_base: "engine_base e \<Longrightarrow> engine_base (snd (engineFail err e))"
  by (simp add: engineFail_def engine_base_def run_ok_state settings_ok_def shown_ok_def)

lemma engineFail_state: "stRunning (enState (snd (engineFail err e))) = stRunning (enState e)"
  "DevicesAvailable (enState (snd (engineFail err e))) = DevicesAvailable (enState e)"
  by (simp_all add: engineFail_def DevicesAvailable_def)

lemma resetPort_simps [simp]:
  "enState (snd (resetPort i e)) = enState e" "enRun (snd (resetPort i e)) = enRun e" "enRuns (snd (resetPort i e)) = enRuns e"
  "enClosed (snd (resetPort i e)) = enClosed e" "length (enPorts (snd (resetPort i e))) = length (enPorts e)"
  "settings_ok (snd (resetPort i e)) = settings_ok e"
  by (simp_all add: resetPort_def settings_ok_def split: prod.split)

lemma resetPort_generation: "i < length (enPorts e) \<Longrightarrow> sendGeneration (enPorts (snd (resetPort i e)) ! i) = fst (resetPort i e)"
  by (auto simp: resetPort_def Reset_def Let_def)

lemma resetPort_base: "engine_base e \<Longrightarrow> enRun e = None \<Longrightarrow> engine_base (snd (resetPort i e))"
  by (simp add: engine_base_def run_ok_def)

lemma stopped:
  assumes "engine_base e" and "e' = stopRunLocked (enRun e) e"
  shows "engine_base e'" and "enRun e' = None" and "\<not> stRunning (enState e')"
    and "DevicesAvailable (enState e') = DevicesAvailable (enState e)" and "enClosed e' = enClosed e"
    and "length (enPorts e') = length (enPorts e)"
proof -
  have "engine_base e' \<and> enRun e' = None \<and> \<not> stRunning (enState e') \<and> DevicesAvailable (enState e') = DevicesAvailable (enState e) \<and>
      enClosed e' = enClosed e \<and> length (enPorts e') = length (enPorts e)"
  proof (cases "enRun e")
    case None
    with assms show ?thesis by (auto simp: stopRunLocked_def engine_base_def run_ok_def)
  next
    case (Some r)
    define d where "d = onState (\<lambda>s. s\<lparr>stRunning := False, stSpeaking := False, stCaptureLevel := 0, stCaptureClipped := False,
        stSpeakingPeers := []\<rparr>) (updateRun r (\<lambda>x. x\<lparr>erActive := False\<rparr>) (e\<lparr>enRun := None\<rparr>))"
    have d: "engine_base d" "enRun d = None" "\<not> stRunning (enState d)" "DevicesAvailable (enState d) = DevicesAvailable (enState e)"
      "enClosed d = enClosed e" "enPorts d = enPorts e"
      using assms(1) Some
      by (auto simp: d_def updateRun_def engine_base_def run_ok_def settings_ok_def shown_ok_def DevicesAvailable_def nth_list_update)
    have "e' = publish (snd (resetPort (erPort (enRuns d ! r)) d))"
      using assms(2) Some by (simp add: stopRunLocked_def d_def Let_def)
    with d resetPort_base [OF d(1,2)] show ?thesis by simp
  qed
  then show "engine_base e'" "enRun e' = None" "\<not> stRunning (enState e')" "DevicesAvailable (enState e') = DevicesAvailable (enState e)"
    "enClosed e' = enClosed e" "length (enPorts e') = length (enPorts e)" by simp_all
qed

lemma registered_base:
  assumes "engine_base e" and "enRun e = None" and "\<not> enClosed e" and "i < length (enPorts e)" and "g = sendGeneration (enPorts e ! i)"
  shows "engine_base (onState (\<lambda>s. s\<lparr>stRunning := True, stError := []\<rparr>) (e\<lparr>enRun := Some (length (enRuns e)),
    enRuns := enRuns e @ [\<lparr>erPort = i, erGeneration = g, erPeerNotification = 0, erAudioNotification = 0, erActive = True\<rparr>]\<rparr>))"
  using assms by (auto simp: engine_base_def run_ok_def settings_ok_def shown_ok_def nth_append less_Suc_eq)

lemma beginRun_ok:
  assumes "engine_base e" and "enRun e = None" and "\<not> enClosed e" and "i < length (enPorts e)" and "DevicesAvailable (enState e)"
  shows "engine_ok (snd (beginRun i outcome e))"
proof -
  obtain g d where d: "resetPort i e = (g, d)" by fastforce
  have base: "engine_base d" "enRun d = None" "\<not> enClosed d" "i < length (enPorts d)" "g = sendGeneration (enPorts d ! i)"
      "enState d = enState e"
    using resetPort_base [OF assms(1,2), of i] resetPort_generation [OF assms(4)] assms d
      resetPort_simps [of i e] by simp_all
  have ok: "engine_ok x" if "engine_base x" "DevicesAvailable (enState x)" for x :: "'a Engine"
    using that by (simp add: engine_ok_def)
  have again: "engine_base (snd (resetPort i d))" using base resetPort_base by blast
  show ?thesis
    using base assms(5) registered_base [OF base(1-5)] engineFail_base [OF base(1)] engineFail_base [OF again]
    by (auto simp: beginRun_def d Let_def engineFail_state intro!: ok split: option.split) (simp_all add: DevicesAvailable_def)
qed

lemma startLocked_ok: "engine_ok e \<Longrightarrow> knownPort port e \<Longrightarrow> engine_ok (snd (startLocked port outcome e))"
proof -
  assume e: "engine_ok e" and port: "knownPort port e"
  then have base: "engine_base e" by (simp add: engine_ok_def)
  show ?thesis
  proof (cases "enClosed e \<or> port = None \<or> stRunning (enState e) \<or> \<not> DevicesAvailable (enState e)")
    case True
    with e show ?thesis by (auto simp: startLocked_def split: option.split)
  next
    case False
    then have "enRun e = None" using base by (simp add: engine_base_def run_ok_def)
    with False e base port show ?thesis using engineFail_base [OF base]
      by (auto simp: startLocked_def knownPort_def engine_ok_def engineFail_state beginRun_ok [unfolded engine_ok_def] split: option.split)
  qed
qed

lemma rebuild_ok:
  assumes "engine_base e" and "enRun e = Some r"
  shows "engine_ok (snd (rebuildRunLocked r outcome e))"
proof -
  define d where "d = stopRunLocked (Some r) e"
  have d: "engine_base d" "\<not> stRunning (enState d)" "length (enPorts d) = length (enPorts e)"
    using stopped [OF assms(1)] assms(2) by (simp_all add: d_def)
  then have "engine_ok d" by (simp add: engine_ok_def)
  moreover have "knownPort (Some (erPort (enRuns e ! r))) d"
    using assms d by (auto simp: knownPort_def engine_base_def run_ok_def)
  ultimately show ?thesis by (simp add: rebuildRunLocked_def d_def [symmetric] Let_def startLocked_ok)
qed

lemma available_exists [simp]: "deviceExists devices (availableDeviceID devices selected)"
  by (simp add: availableDeviceID_def) (simp add: deviceExists_def)

lemma refreshDevices_base:
  assumes "engine_base e" and "refreshDevicesLocked capture playback e = (b, e')"
  shows "engine_base e' \<and> enClosed e' = enClosed e"
proof (cases "e' = e")
  case False
  then obtain c p where "e' = publish (onState (\<lambda>s. s\<lparr>stCaptureDevices := c, stPlaybackDevices := p,
      stCaptureID := availableDeviceID c (stCaptureID s), stPlaybackID := availableDeviceID p (stPlaybackID s)\<rparr>) e)"
    using assms(2) by (auto simp: refreshDevicesLocked_def Let_def split: sum.splits if_splits)
  with assms(1) show ?thesis by (simp add: engine_base_def run_ok_state settings_ok_def shown_ok_def)
qed (use assms in simp)

lemma refreshDevices_error: "refreshDevicesLocked capture playback e = (Inl err, e') \<Longrightarrow> e' = e"
  by (auto simp: refreshDevicesLocked_def Let_def split: sum.splits if_splits)

lemma RefreshDevices_ok: "engine_ok e \<Longrightarrow> engine_ok (snd (RefreshDevices capture playback outcome e))"
proof -
  assume e: "engine_ok e"
  obtain b d where d: "refreshDevicesLocked capture playback e = (b, d)" by fastforce
  have base: "engine_base d" using refreshDevices_base [OF _ d] e by (simp add: engine_ok_def)
  show ?thesis
  proof (cases "enClosed e \<or> isl b")
    case True
    with e d refreshDevices_error [of capture playback e] show ?thesis by (auto simp: RefreshDevices_def isl_def)
  next
    case False
    then obtain changed where b: "b = Inr changed" by (cases b) auto
    show ?thesis
    proof (cases "enRun d")
      case None
      with base have "engine_ok d" by (simp add: engine_ok_def engine_base_def run_ok_def)
      then show ?thesis using False d b None by (simp add: RefreshDevices_def)
    next
      case (Some r)
      show ?thesis using False d b Some rebuild_ok [OF base Some] base by (simp add: RefreshDevices_def engine_ok_def)
    qed
  qed
qed

lemma SetDevices_ok: "engine_ok e \<Longrightarrow> engine_ok (snd (SetDevices captureID playbackID outcome e))"
proof -
  assume e: "engine_ok e"
  define d where "d = onState (\<lambda>s. s\<lparr>stCaptureID := captureID, stPlaybackID := playbackID\<rparr>) e"
  show ?thesis
  proof (cases "enClosed e \<or> validateDeviceIDs (stCaptureDevices (enState e)) (stPlaybackDevices (enState e)) captureID playbackID \<noteq> None \<or>
      (stCaptureID (enState e) = captureID \<and> stPlaybackID (enState e) = playbackID)")
    case True
    with e show ?thesis by (auto simp: SetDevices_def split: option.split)
  next
    case False
    then have ids: "deviceExists (stCaptureDevices (enState e)) captureID" "deviceExists (stPlaybackDevices (enState e)) playbackID"
      by (auto simp: validateDeviceIDs_def split: if_splits)
    have d: "engine_base d" "DevicesAvailable (enState d) = DevicesAvailable (enState e)" "stRunning (enState d) = stRunning (enState e)"
      "enRun d = enRun e"
      using e ids by (simp_all add: d_def engine_ok_def engine_base_def run_ok_state settings_ok_def shown_ok_def DevicesAvailable_def)
    then have "engine_ok d" using e by (simp add: engine_ok_def)
    then show ?thesis using False d(1) rebuild_ok [OF d(1)] unfolding SetDevices_def
      by (auto simp: d_def [symmetric] Let_def split: option.split)
  qed
qed

lemma stop_ok: "engine_ok e \<Longrightarrow> engine_ok (stopRunLocked (enRun e) e)"
  using stopped [OF _ refl, of e] by (simp add: engine_ok_def)

lemma close_ok: "engine_ok e \<Longrightarrow> enRun e = None \<Longrightarrow> engine_ok (e\<lparr>enClosed := True\<rparr>)"
  by (simp add: engine_ok_def engine_base_def run_ok_def settings_ok_def)

lemma error_ok: "engine_ok e \<Longrightarrow> engine_ok (setRuntimeError err e) \<and> enRun (setRuntimeError err e) = enRun e"
  by (simp add: setRuntimeError_def engine_ok_def engine_base_def run_ok_state settings_ok_def shown_ok_def DevicesAvailable_def)

lemma lifecycle_ok:
  assumes "engine_ok e"
  shows "engine_ok (StopEngine e)" and "engine_ok (snd (CloseEngine uninit e))" and "engine_ok (deviceStopped r isStarted e)"
proof -
  show "engine_ok (StopEngine e)" using stop_ok [OF assms] by (simp add: StopEngine_def)
  show "engine_ok (snd (CloseEngine uninit e))"
    using assms close_ok [OF stop_ok [OF assms]] stopped(2) [OF _ refl, of e] by (simp add: CloseEngine_def engine_ok_def)
  show "engine_ok (deviceStopped r isStarted e)"
    using assms error_ok [OF assms] stop_ok [of "setRuntimeError (bytes_of ''audio device stopped unexpectedly'') e"]
    by (auto simp: deviceStopped_def)
qed

section \<open>Settings and reports\<close>

lemma updateRun_ok:
  assumes "engine_ok e" and "\<And>x. erPort (f x) = erPort x \<and> erGeneration (f x) = erGeneration x \<and> erActive (f x) = erActive x"
  shows "engine_ok (updateRun r f e)"
proof -
  have same: "erPort ((enRuns e)[r := f (enRuns e ! r)] ! k) = erPort (enRuns e ! k)"
    "erGeneration ((enRuns e)[r := f (enRuns e ! r)] ! k) = erGeneration (enRuns e ! k)"
    "erActive ((enRuns e)[r := f (enRuns e ! r)] ! k) = erActive (enRuns e ! k)" if "k < length (enRuns e)" for k
    using that by (cases "k = r"; simp add: assms(2))+
  have "run_ok e" using assms by (simp add: engine_ok_def engine_base_def)
  then have "run_ok (updateRun r f e)" unfolding run_ok_def updateRun_def by (auto simp: same)
  moreover have "settings_ok (updateRun r f e)" "enState (updateRun r f e) = enState e"
    using assms by (simp_all add: updateRun_def engine_ok_def engine_base_def settings_ok_def)
  ultimately show ?thesis using assms by (simp add: engine_ok_def engine_base_def)
qed

lemma notify_ok: "engine_ok e \<Longrightarrow> engine_ok (queueAudioNotificationLocked muted e)" "engine_ok e \<Longrightarrow> engine_ok (PlayPeerChange joined e)"
  by (auto simp: queueAudioNotificationLocked_def PlayPeerChange_def intro!: updateRun_ok split: option.split)

lemma setting_ok:
  assumes "engine_ok e"
  shows "engine_ok (SetPlaybackMuted muted e)" and "engine_ok (snd (SetCaptureGain gain e))" and "engine_ok (snd (SetPlaybackGain gain e))"
    and "engine_ok (SetRemoteLoudnessNormalization enabled e)" and "engine_ok (SetEchoCancellation enabled e)"
    and "engine_ok (SetNoiseSuppression enabled e)"
proof -
  have "engine_ok (onState (\<lambda>s. s\<lparr>stPlaybackMuted := muted\<rparr>) (e\<lparr>enPlaybackMuted := muted\<rparr>))"
    using assms by (simp add: engine_ok_def engine_base_def run_ok_def settings_ok_def shown_ok_def DevicesAvailable_def)
  then show "engine_ok (SetPlaybackMuted muted e)" using notify_ok(1) by (auto simp: SetPlaybackMuted_def Let_def)
  have run: "run_ok e" "run_ok (e\<lparr>enCaptureGain := gain\<rparr>)" "run_ok (e\<lparr>enPlaybackGain := gain\<rparr>)" "run_ok (e\<lparr>enLoudness := enabled\<rparr>)"
    "run_ok (e\<lparr>enEcho := enabled\<rparr>)" "run_ok (e\<lparr>enNoise := enabled\<rparr>)"
    using assms by (simp_all add: engine_ok_def engine_base_def run_ok_def)
  show "engine_ok (snd (SetCaptureGain gain e))" "engine_ok (snd (SetPlaybackGain gain e))"
    "engine_ok (SetRemoteLoudnessNormalization enabled e)" "engine_ok (SetEchoCancellation enabled e)"
    "engine_ok (SetNoiseSuppression enabled e)"
    using assms run by (simp_all add: SetCaptureGain_def SetPlaybackGain_def SetRemoteLoudnessNormalization_def SetEchoCancellation_def
      SetNoiseSuppression_def engine_ok_def engine_base_def run_ok_state settings_ok_def shown_ok_def DevicesAvailable_def)
qed

lemma invalidateRun_simps [simp]:
  "enState (invalidateRun e) = enState e" "enCaptureMuted (invalidateRun e) = enCaptureMuted e"
  "enPlaybackMuted (invalidateRun e) = enPlaybackMuted e" "enCaptureGain (invalidateRun e) = enCaptureGain e"
  "enPlaybackGain (invalidateRun e) = enPlaybackGain e" "enEcho (invalidateRun e) = enEcho e" "enNoise (invalidateRun e) = enNoise e"
  "enLoudness (invalidateRun e) = enLoudness e"
  by (simp_all add: invalidateRun_def updateRun_def Let_def split: option.split prod.split)

lemma invalidateRun_run: "run_ok e \<Longrightarrow> run_ok (invalidateRun e)"
  by (auto simp: invalidateRun_def updateRun_def run_ok_def InvalidateSend_def Let_def nth_list_update split: option.split)

lemma invalidateRun_muted: "invalidateRun e\<lparr>enCaptureMuted := m\<rparr> = invalidateRun (e\<lparr>enCaptureMuted := m\<rparr>)"
  by (auto simp: invalidateRun_def updateRun_def Let_def split: option.split prod.split)

lemma setCaptureMuted_ok:
  assumes "engine_ok e"
  shows "engine_ok (setCaptureMuted muted notify e)"
proof (cases "stCaptureMuted (enState e) = muted")
  case False
  define d where "d = onState (\<lambda>s. s\<lparr>stCaptureMuted := muted, stSpeaking := (if muted then False else stSpeaking s),
      stCaptureLevel := (if muted then 0 else stCaptureLevel s), stCaptureClipped := (if muted then False else stCaptureClipped s)\<rparr>)
      (invalidateRun (e\<lparr>enCaptureMuted := muted\<rparr>))"
  have "run_ok (e\<lparr>enCaptureMuted := muted\<rparr>)" using assms by (simp add: engine_ok_def engine_base_def run_ok_def)
  from invalidateRun_run [OF this] have "run_ok d" by (simp add: d_def run_ok_state)
  moreover have "settings_ok d" using assms by (simp add: d_def engine_ok_def engine_base_def settings_ok_def)
  moreover have "shown_ok (enState d)"
    using assms False by (cases muted) (simp_all add: d_def engine_ok_def engine_base_def shown_ok_def)
  moreover have "stRunning (enState d) \<longrightarrow> DevicesAvailable (enState d)" using assms by (simp add: d_def engine_ok_def DevicesAvailable_def)
  ultimately have "engine_ok d" by (simp add: engine_ok_def engine_base_def)
  moreover have "setCaptureMuted muted notify e = publish (if notify then queueAudioNotificationLocked muted d else d)"
    using False by (auto simp: setCaptureMuted_def d_def Let_def invalidateRun_muted)
  ultimately show ?thesis by (simp add: notify_ok(1))
qed (simp add: assms setCaptureMuted_def)

text \<open>A report of a worker counts only for the run that goes on; the others are inactive.\<close>

lemma worker_report_ok:
  assumes "engine_ok e" and "r < length (enRuns e)"
  shows "engine_ok (setLocalSpeaking r generation speaking e)" and "engine_ok (setCaptureMeter r generation level clipped e)"
    and "engine_ok (setSpeakingPeerIDs r peerIDs e)"
proof -
  have running: "stRunning (enState e)" if "erActive (enRuns e ! r)"
    using assms that by (auto simp: engine_ok_def engine_base_def run_ok_def)
  have muted: "enCaptureMuted e = stCaptureMuted (enState e)" using assms by (simp add: engine_ok_def engine_base_def settings_ok_def)
  have ok: "run_ok e" "settings_ok e" "shown_ok (enState e)" "stRunning (enState e) \<longrightarrow> DevicesAvailable (enState e)"
    using assms(1) by (simp_all add: engine_ok_def engine_base_def)
  have report: "engine_ok (onState f e)"
    if "stRunning (f (enState e)) = stRunning (enState e)" "settingsOf (f (enState e)) = settingsOf (enState e)" "shown_ok (f (enState e))"
      "DevicesAvailable (f (enState e)) = DevicesAvailable (enState e)" for f
    using that ok by (simp add: engine_ok_def engine_base_def run_ok_state settings_state del: settingsOf.simps)
  show "engine_ok (setLocalSpeaking r generation speaking e)"
  proof (cases "erActive (enRuns e ! r) \<and> \<not> enCaptureMuted e")
    case True
    then have "engine_ok (onState (\<lambda>s. s\<lparr>stSpeaking := speaking\<rparr>) e)"
      using running muted ok(3) by (intro report) (simp_all add: shown_ok_def DevicesAvailable_def)
    with assms show ?thesis by (simp add: setLocalSpeaking_def)
  qed (use assms in \<open>auto simp: setLocalSpeaking_def\<close>)
  show "engine_ok (setCaptureMeter r generation level clipped e)"
  proof (cases "erActive (enRuns e ! r)")
    case True
    then have "engine_ok (onState (\<lambda>s. s\<lparr>stCaptureLevel := if enCaptureMuted e then 0 else level,
        stCaptureClipped := if enCaptureMuted e then False else clipped\<rparr>) e)"
      using running muted ok(3) by (intro report) (simp_all add: shown_ok_def DevicesAvailable_def)
    with assms show ?thesis by (cases "enCaptureMuted e") (simp_all add: setCaptureMeter_def Let_def)
  qed (use assms in \<open>simp add: setCaptureMeter_def\<close>)
  show "engine_ok (setSpeakingPeerIDs r peerIDs e)"
  proof (cases "erActive (enRuns e ! r)")
    case True
    then have "engine_ok (onState (\<lambda>s. s\<lparr>stSpeakingPeers := peerIDs\<rparr>) e)"
      using running ok(3) by (intro report) (simp_all add: shown_ok_def DevicesAvailable_def)
    with assms show ?thesis by (simp add: setSpeakingPeerIDs_def)
  qed (use assms in \<open>simp add: setSpeakingPeerIDs_def\<close>)
qed

lemma engineStep_ok: "engine_ok e \<Longrightarrow> engine_ok (engineStep e event)"
  by (cases event) (auto intro: RefreshDevices_ok SetDevices_ok setCaptureMuted_ok setting_ok notify_ok startLocked_ok lifecycle_ok worker_report_ok
    onPort_ok simp: port_generations error_ok)

section \<open>Any history\<close>

interpretation engine: machine engineStep engine_ok "\<lambda>e. \<exists>n err c p ports. NewEngine n err c p ports = Inr e"
proof
  fix e :: "'a Engine" and event :: "'a engineEvent"
  show "engine_ok (engineStep e event)" if "engine_ok e" using that by (rule engineStep_ok)
  assume "\<exists>n err c p ports. NewEngine n err c p ports = Inr e"
  then obtain n err c p ports b where r: "refreshDevicesLocked c p (newEngine ports) = (b, e)"
    by (auto simp: NewEngine_def split: if_splits option.splits prod.splits sum.splits)
  have "engine_base (newEngine ports :: 'a Engine)"
    by (simp add: newEngine_def defaultStatus_def engine_base_def run_ok_def settings_ok_def shown_ok_def deviceExists_def)
  then have "engine_base e" using refreshDevices_base r by blast
  moreover have "\<not> stRunning (enState e)"
    using r by (auto simp: refreshDevicesLocked_def newEngine_def defaultStatus_def Let_def split: sum.splits if_splits)
  ultimately show "engine_ok e" by (simp add: engine_ok_def)
qed

text \<open>C38: through any calls, device events and reports of current and former workers, and whatever the peer does with its ports,
  an engine shows that it runs exactly while it has a run, only that run is active and has the send generation of its port,
  nobody is shown speaking and no level while it is muted or stopped, it runs only with devices for both directions, the
  selected devices exist, and what the workers read of the settings is what is shown, with gains between 0 and 200.\<close>

theorem engine_keeps:
  assumes "NewEngine n err capture playback ports = Inr e"
  shows "engine_ok (foldl engineStep e events)"
  using assms engine.inv_reachable by blast

theorem engine_keeps_witness:
  "\<exists>e :: nat Engine. NewEngine 400 None (Inr [\<lparr>dvID = [1], dvName = [], dvDefault = True\<rparr>]) (Inr [\<lparr>dvID = [2], dvName = [], dvDefault = True\<rparr>]) [NewFlow] = Inr e \<and>
     stRunning (enState (foldl engineStep e [Started (Some 0) \<lparr>soEncoder = None, soDevice = None, soStart = None\<rparr>])) \<and>
     engine_ok (foldl engineStep e [Started (Some 0) \<lparr>soEncoder = None, soDevice = None, soStart = None\<rparr>, LocalSpeaking 0 2 True, CaptureMuted True True])"
proof -
  let ?c = "[\<lparr>dvID = [1], dvName = [], dvDefault = True\<rparr>]" and ?p = "[\<lparr>dvID = [2], dvName = [], dvDefault = True\<rparr>]"
  define e where "e = snd (refreshDevicesLocked (Inr ?c) (Inr ?p) (newEngine [NewFlow] :: nat Engine))"
  have new: "NewEngine 400 None (Inr ?c) (Inr ?p) [NewFlow] = Inr e"
    by (simp add: NewEngine_def e_def refreshDevicesLocked_def Let_def newEngine_def defaultStatus_def)
  moreover have "stRunning (enState (foldl engineStep e [Started (Some 0) \<lparr>soEncoder = None, soDevice = None, soStart = None\<rparr>]))"
    by (simp add: e_def refreshDevicesLocked_def Let_def newEngine_def defaultStatus_def knownPort_def startLocked_def beginRun_def
      DevicesAvailable_def publish_def split: prod.split)
  ultimately show ?thesis using engine_keeps [OF new] by blast
qed

section \<open>The settings of the user\<close>

definition validGain :: "int \<Rightarrow> bool" where
  "validGain gain \<longleftrightarrow> minimumAudioGain \<le> gain \<and> gain \<le> maximumAudioGain"

fun applySetting :: "bool \<times> bool \<times> int \<times> int \<times> bool \<times> bool \<times> bool \<Rightarrow> 'f engineEvent \<Rightarrow> bool \<times> bool \<times> int \<times> int \<times> bool \<times> bool \<times> bool" where
  "applySetting (m, pm, cg, pg, echo, noise, loud) event =
     (case event of
        CaptureMuted muted notify \<Rightarrow> (muted, pm, cg, pg, echo, noise, loud)
      | PlaybackMuted muted \<Rightarrow> (m, muted, cg, pg, echo, noise, loud)
      | CaptureGain gain \<Rightarrow> (m, pm, if validGain gain then gain else cg, pg, echo, noise, loud)
      | PlaybackGain gain \<Rightarrow> (m, pm, cg, if validGain gain then gain else pg, echo, noise, loud)
      | EchoSet enabled \<Rightarrow> (m, pm, cg, pg, enabled, noise, loud)
      | NoiseSet enabled \<Rightarrow> (m, pm, cg, pg, echo, enabled, loud)
      | LoudnessSet enabled \<Rightarrow> (m, pm, cg, pg, echo, noise, enabled)
      | _ \<Rightarrow> (m, pm, cg, pg, echo, noise, loud))"

lemma settings_simps [simp]:
  "settingsOf (enState (snd (engineFail err e))) = settingsOf (enState e)"
  "settingsOf (enState (setRuntimeError err e)) = settingsOf (enState e)"
  "settingsOf (enState (stopRunLocked r e)) = settingsOf (enState e)"
  "settingsOf (enState (onPort i f e)) = settingsOf (enState e)"
  "enState (queueAudioNotificationLocked muted e) = enState e"
  "enState (PlayPeerChange muted e) = enState e"
  by (simp_all add: engineFail_def setRuntimeError_def stopRunLocked_def onPort_def queueAudioNotificationLocked_def PlayPeerChange_def
    updateRun_def Let_def split: option.split)

lemma settings_begin [simp]: "settingsOf (enState (snd (beginRun i outcome e))) = settingsOf (enState e)"
proof -
  obtain g d where d: "resetPort i e = (g, d)" by fastforce
  then have "enState d = enState e" using resetPort_simps(1) [of i e] by simp
  then show ?thesis by (simp add: beginRun_def d Let_def del: settingsOf.simps split: option.split) (simp add: engineFail_def)
qed

lemma settings_start [simp]:
  "settingsOf (enState (snd (startLocked port outcome e))) = settingsOf (enState e)"
  "settingsOf (enState (snd (rebuildRunLocked r outcome e))) = settingsOf (enState e)"
  by (simp_all add: startLocked_def rebuildRunLocked_def Let_def del: settingsOf.simps split: option.split)

lemma settings_refresh: "refreshDevicesLocked c p e = (b, e') \<Longrightarrow> settingsOf (enState e') = settingsOf (enState e)"
  by (auto simp: refreshDevicesLocked_def Let_def split: sum.splits if_splits)

lemma settings_devices [simp]:
  "settingsOf (enState (snd (RefreshDevices c p outcome e))) = settingsOf (enState e)"
  "settingsOf (enState (snd (SetDevices c' p' outcome e))) = settingsOf (enState e)"
  by (auto simp: RefreshDevices_def SetDevices_def Let_def simp del: settingsOf.simps split: prod.split sum.split option.split dest: settings_refresh)
    simp_all

lemma settings_reports [simp]:
  "settingsOf (enState (setLocalSpeaking r g b e)) = settingsOf (enState e)"
  "settingsOf (enState (setCaptureMeter r g l b e)) = settingsOf (enState e)"
  "settingsOf (enState (setSpeakingPeerIDs r ids e)) = settingsOf (enState e)"
  by (simp_all add: setLocalSpeaking_def setCaptureMeter_def setSpeakingPeerIDs_def Let_def)

lemma engineStep_settings: "settingsOf (enState (engineStep e event)) = applySetting (settingsOf (enState e)) event"
proof (cases event)
  case (CaptureMuted muted notify)
  then show ?thesis by (auto simp: setCaptureMuted_def Let_def)
next
  case (PlaybackMuted muted)
  then show ?thesis by (simp add: SetPlaybackMuted_def Let_def)
next
  case (EngineClosed uninit)
  have "settingsOf (enState (stopRunLocked (enRun e) e)) = settingsOf (enState e)" by (simp del: settingsOf.simps)
  then show ?thesis
    by (cases "settingsOf (enState e)") (simp add: EngineClosed CloseEngine_def del: settingsOf.simps)
qed (auto simp: SetCaptureGain_def SetPlaybackGain_def SetRemoteLoudnessNormalization_def SetEchoCancellation_def
  SetNoiseSuppression_def validGain_def StopEngine_def deviceStopped_def simp del: settingsOf.simps, auto simp: validGain_def)

text \<open>C39: the settings an engine shows are always those the user set last, with refused gains left out: no loss of devices, failed
  or repeated start, stop, device change or report changes one.\<close>

theorem engine_settings_last:
  "settingsOf (enState (foldl engineStep e events)) = foldl applySetting (settingsOf (enState e)) events"
  by (induction events arbitrary: e) (simp_all add: engineStep_settings del: settingsOf.simps)

end
