(* ===== verification/PlaybackWorker.thy ===== *)
theory PlaybackWorker
  imports AudioEngine
begin

text \<open>
  The playback worker of a run, \<open>playbackLoop\<close> of \<open>internal/audio/engine.go\<close>, with the notification tones it mixes in.  A turn
  of one of its loops is a step; what it shares with others (port, demand, queue, settings and notifications of the run)
  may change between two of them.  What it tells the engine is kept in the order it tells it.
\<close>

section \<open>Tones\<close>

definition notificationSamples :: nat where "notificationSamples = SampleRate * 140 div 1000"
definition notificationAttack :: nat where "notificationAttack = SampleRate * 5 div 1000"
definition notificationRelease :: nat where "notificationRelease = SampleRate * 30 div 1000"
definition notificationAmplitude :: rat where "notificationAmplitude = 15 / 100"
definition maxPlaybackAge :: duration where "maxPlaybackAge = 100 * Millisecond"
definition playbackQueueFrames :: nat where "playbackQueueFrames = 2"

definition playbackGainFactor :: "('s, 'f) floats \<Rightarrow> int \<Rightarrow> 's" where
  "playbackGainFactor fl percent = (let gain = smDiv fl (smOfInt fl percent) (smOfInt fl 100) in smMul fl gain gain)"

record 'f trigonometry =
  tgSin :: "'f \<Rightarrow> 'f"
  tgTwoPi :: 'f

record 'f notificationTone =
  ntPhase :: 'f
  ntFrequency :: int
  ntSecond :: int
  ntRemaining :: nat
  ntAudible :: bool

definition toneStart :: "('s, 'f) floats \<Rightarrow> uint32 \<Rightarrow> 'f notificationTone \<Rightarrow> 'f notificationTone" where
  "toneStart fl notification t =
     (let t = t\<lparr>ntAudible := False, ntSecond := 0\<rparr>;
          begun = (\<lambda>t. t\<lparr>ntAudible := (notification = audioMutedNotification \<or> notification = audioUnmutedNotification),
                    ntPhase := flOfInt fl 0, ntRemaining := notificationSamples\<rparr>)
      in if notification = peerJoinedNotification then begun (t\<lparr>ntFrequency := 520, ntSecond := 760\<rparr>)
         else if notification = peerLeftNotification then begun (t\<lparr>ntFrequency := 520, ntSecond := 340\<rparr>)
         else if notification = audioUnmutedNotification then begun (t\<lparr>ntFrequency := 880\<rparr>)
         else if notification = audioMutedNotification then begun (t\<lparr>ntFrequency := 440\<rparr>)
         else t)"

definition toneSample :: "('s, 'f) floats \<Rightarrow> 'f trigonometry \<Rightarrow> 's \<Rightarrow> 'f notificationTone \<Rightarrow> 's \<times> 'f notificationTone" where
  "toneSample fl tg sample t =
     (let elapsed = notificationSamples - ntRemaining t;
          envelope = flMin fl (flOfInt fl 1) (flDiv fl (flOfInt fl (int elapsed)) (flOfInt fl (int notificationAttack)));
          envelope = flMin fl envelope (flDiv fl (flOfInt fl (int (ntRemaining t))) (flOfInt fl (int notificationRelease)));
          level = flMul fl (flLiteral fl notificationAmplitude) envelope;
          sample = smAdd fl (smMul fl sample (flNarrow fl (flSub fl (flOfInt fl 1) level)))
                     (flNarrow fl (flMul fl (tgSin tg (ntPhase t)) level));
          frequency = (if ntSecond t \<noteq> 0 \<and> elapsed \<ge> notificationSamples div 2 then ntSecond t else ntFrequency t);
          phase = flAdd fl (ntPhase t) (flDiv fl (flMul fl (tgTwoPi tg) (flOfInt fl frequency)) (flOfInt fl (int SampleRate)))
      in (sample, t\<lparr>ntPhase := phase, ntRemaining := ntRemaining t - 1\<rparr>))"

fun toneLoop :: "('s, 'f) floats \<Rightarrow> 'f trigonometry \<Rightarrow> 's list \<Rightarrow> 'f notificationTone \<Rightarrow> 's list \<times> 'f notificationTone" where
  "toneLoop fl tg [] t = ([], t)"
| "toneLoop fl tg (sample # samples) t =
     (if ntRemaining t = 0 then (sample # samples, t)
      else
        let (sample, t) = toneSample fl tg sample t; (samples, t) = toneLoop fl tg samples t
        in (sample # samples, t))"

definition toneMix :: "('s::zero, 'f) floats \<Rightarrow> 'f trigonometry \<Rightarrow> 's list \<Rightarrow> bool \<Rightarrow> 'f notificationTone \<Rightarrow>
    bool \<times> 's list \<times> 'f notificationTone" where
  "toneMix fl tg samples playbackMuted t =
     (let localOnly = (ntRemaining t > 0 \<and> ntAudible t \<and> playbackMuted);
          samples = (if localOnly then replicate (length samples) 0 else samples);
          (samples, t) = toneLoop fl tg samples t
      in (localOnly, samples, t))"

section \<open>The worker\<close>

datatype playbackReport =
    SpeakingReport "PeerID list"
  | ErrorReport bytes

record ('d, 's, 'f) playbackWorker =
  pwMixer :: "('d, 's, 'f) mixer"
  pwNext :: uint64
  pwGain :: 's
  pwTone :: "'f notificationTone"
  pwTarget :: "uint64 option"
  pwReports :: "playbackReport list"
  pwQueue :: "'s pcmFrameQueue"
  pwDemand :: uint64
  pwPort :: Flow
  pwMuted :: bool
  pwPercent :: int
  pwLoudness :: bool
  pwAudioNotification :: uint32
  pwPeerNotification :: uint32

text \<open>The queue starts with one frame of silence, of index 0.\<close>

definition startPlayback :: "('s::zero, 'f) floats \<Rightarrow> nat \<Rightarrow> Flow \<Rightarrow> int \<Rightarrow> ('d, 's, 'f) playbackWorker" where
  "startPlayback fl maxFrameBytes port percent =
     \<lparr>pwMixer = newMixer maxFrameBytes, pwNext = 1, pwGain = playbackGainFactor fl percent,
      pwTone = \<lparr>ntPhase = flOfInt fl 0, ntFrequency = 0, ntSecond = 0, ntRemaining = 0, ntAudible = False\<rparr>, pwTarget = None,
      pwReports = [], pwQueue = CommitWrite (newPCMFrameQueue playbackQueueFrames), pwDemand = 1, pwPort = port, pwMuted = False,
      pwPercent = percent, pwLoudness = True, pwAudioNotification = 0, pwPeerNotification = 0\<rparr>"

definition report :: "playbackReport \<Rightarrow> ('d, 's, 'f) playbackWorker \<Rightarrow> ('d, 's, 'f) playbackWorker" where
  "report r w = w\<lparr>pwReports := pwReports w @ [r]\<rparr>"

definition reportDecode :: "bytes option \<Rightarrow> ('d, 's, 'f) playbackWorker \<Rightarrow> ('d, 's, 'f) playbackWorker" where
  "reportDecode err w = (case err of None \<Rightarrow> w | Some e \<Rightarrow> report (ErrorReport (bytes_of ''decode Opus: '' @ e)) w)"

definition startNotification :: "('s, 'f) floats \<Rightarrow> ('d, 's, 'f) playbackWorker \<Rightarrow> ('d, 's, 'f) playbackWorker" where
  "startNotification fl w =
     (if ntRemaining (pwTone w) \<noteq> 0 then w
      else
        let waiting = pwAudioNotification w;
            (waiting, w) = (if waiting = 0 then (pwPeerNotification w, w\<lparr>pwAudioNotification := 0, pwPeerNotification := 0\<rparr>)
                            else (waiting, w\<lparr>pwAudioNotification := 0\<rparr>))
        in if waiting \<noteq> 0 then w\<lparr>pwTone := toneStart fl waiting (pwTone w)\<rparr> else w)"

definition mixFrame :: "('d, 's) decoderOps \<Rightarrow> ('s::zero, 'f) floats \<Rightarrow> 'f trigonometry \<Rightarrow> ('d, 's, 'f) playbackWorker \<Rightarrow>
    's list \<times> bool \<times> bytes option \<times> ('d, 's, 'f) playbackWorker" where
  "mixFrame dc fl tg w =
     (let m = setScreenAudioSource (screenAudioSourceID (pwPort w)) (pwMixer w);
          (pcm, _, err, m) = NextInto dc fl (m\<lparr>mxNormalization := pwLoudness w\<rparr>);
          w = startNotification fl (report (SpeakingReport (mxSpeaking m)) (w\<lparr>pwMixer := m\<rparr>));
          (localOnly, pcm, tone) = toneMix fl tg pcm (pwMuted w) (pwTone w);
          (pcm, gain) = applyGainRamp fl pcm (pwGain w) (playbackGainFactor fl (pwPercent w))
      in (pcm, localOnly, err, w\<lparr>pwTone := tone, pwGain := gain\<rparr>))"

text \<open>
  What waits at the port is taken until nothing is left; an instant 0 stands for the zero \<open>time.Time\<close>.  The clock is read for
  every frame: it is a function of the turns left, of which there is one for each frame that waits.
\<close>

definition portFrames :: "Flow \<Rightarrow> nat" where
  "portFrames f = sum_list (map (\<lambda>key. length (receivedQueues f key)) (receivedOrder f))"

fun drainLoop :: "('d, 's) decoderOps \<Rightarrow> ('s::zero, 'f) floats \<Rightarrow> (nat \<Rightarrow> time) \<Rightarrow> nat \<Rightarrow> ('d, 's, 'f) playbackWorker \<Rightarrow>
    ('d, 's, 'f) playbackWorker" where
  "drainLoop dc fl now 0 w = w"
| "drainLoop dc fl now (Suc n) w =
     (case TakeReceived (pwPort w) of
        None \<Rightarrow> w
      | Some (frame, port) \<Rightarrow>
          let w = w\<lparr>pwPort := port\<rparr>
          in if rfReceivedAt frame \<noteq> 0 \<and> now n - rfReceivedAt frame > maxPlaybackAge then drainLoop dc fl now n w
             else
               let (err, m) = mixerAdd dc fl frame (pwMixer w);
                   w = w\<lparr>pwMixer := m\<rparr>;
                   w = (case err of None \<Rightarrow> w | Some e \<Rightarrow> report (ErrorReport (bytes_of ''initialise Opus decoder: '' @ e)) w)
               in drainLoop dc fl now n w)"

definition drainPlayback :: "('d, 's) decoderOps \<Rightarrow> ('s::zero, 'f) floats \<Rightarrow> (nat \<Rightarrow> time) \<Rightarrow> ('d, 's, 'f) playbackWorker \<Rightarrow>
    ('d, 's, 'f) playbackWorker" where
  "drainPlayback dc fl now w =
     drainLoop dc fl now (portFrames (pwPort w)) (w\<lparr>pwMixer := setScreenAudioSource (screenAudioSourceID (pwPort w)) (pwMixer w)\<rparr>)"

text \<open>The two cases of its \<open>select\<close>, and a turn of the loops that follow a wake-up.\<close>

definition playbackReady :: "('d, 's) decoderOps \<Rightarrow> ('s::zero, 'f) floats \<Rightarrow> (nat \<Rightarrow> time) \<Rightarrow> ('d, 's, 'f) playbackWorker \<Rightarrow>
    ('d, 's, 'f) playbackWorker" where
  "playbackReady dc fl now w = (if pwTarget w = None then drainPlayback dc fl now w else w)"

definition playbackWoken :: "('d, 's) decoderOps \<Rightarrow> ('s::zero, 'f) floats \<Rightarrow> (nat \<Rightarrow> time) \<Rightarrow> ('d, 's, 'f) playbackWorker \<Rightarrow>
    ('d, 's, 'f) playbackWorker" where
  "playbackWoken dc fl now w =
     (if pwTarget w = None then let w = drainPlayback dc fl now w in w\<lparr>pwTarget := Some (pwDemand w)\<rparr> else w)"

definition skipFrame :: "('d, 's) decoderOps \<Rightarrow> ('s::zero, 'f) floats \<Rightarrow> 'f trigonometry \<Rightarrow> ('d, 's, 'f) playbackWorker \<Rightarrow>
    ('d, 's, 'f) playbackWorker" where
  "skipFrame dc fl tg w =
     (let (_, _, err, w) = mixFrame dc fl tg w; w = reportDecode err w in w\<lparr>pwNext := pwNext w + 1\<rparr>)"

definition commitFrame :: "('d, 's) decoderOps \<Rightarrow> ('s::zero, 'f) floats \<Rightarrow> 'f trigonometry \<Rightarrow> nat \<Rightarrow> ('d, 's, 'f) playbackWorker \<Rightarrow>
    ('d, 's, 'f) playbackWorker" where
  "commitFrame dc fl tg i w =
     (let (pcm, localOnly, err, w) = mixFrame dc fl tg w;
          f = (slot (pwQueue w) i)\<lparr>pfSamples := pcm, pfIndex := pwNext w, pfLocalOnly := localOnly\<rparr>;
          w = w\<lparr>pwQueue := CommitWrite (putSlot i f (pwQueue w)), pwNext := pwNext w + 1\<rparr>
      in reportDecode err w)"

definition playbackTurn :: "('d, 's) decoderOps \<Rightarrow> ('s::zero, 'f) floats \<Rightarrow> 'f trigonometry \<Rightarrow> ('d, 's, 'f) playbackWorker \<Rightarrow>
    ('d, 's, 'f) playbackWorker" where
  "playbackTurn dc fl tg w =
     (case pwTarget w of
        None \<Rightarrow> w
      | Some target \<Rightarrow>
          if pwNext w < target then skipFrame dc fl tg w
          else if pwNext w \<le> target then
            (case AcquireWrite (pwQueue w) of
               None \<Rightarrow> w\<lparr>pwTarget := None\<rparr>
             | Some i \<Rightarrow> commitFrame dc fl tg i w)
          else w\<lparr>pwTarget := None\<rparr>)"

datatype playbackWorkerEvent =
    PortReady "nat \<Rightarrow> time"
  | Woken "nat \<Rightarrow> time"
  | LoopTurn
  | ReaderReleases
  | DemandStored uint64
  | PortChanged Flow
  | PlaybackSettings bool int bool
  | Notified uint32 uint32

fun playbackWorkerStep :: "('d, 's) decoderOps \<Rightarrow> ('s::zero, 'f) floats \<Rightarrow> 'f trigonometry \<Rightarrow> ('d, 's, 'f) playbackWorker \<Rightarrow> playbackWorkerEvent \<Rightarrow>
    ('d, 's, 'f) playbackWorker" where
  "playbackWorkerStep dc fl tg w (PortReady now) = playbackReady dc fl now w"
| "playbackWorkerStep dc fl tg w (Woken now) = playbackWoken dc fl now w"
| "playbackWorkerStep dc fl tg w LoopTurn = playbackTurn dc fl tg w"
| "playbackWorkerStep dc fl tg w ReaderReleases =
     (if AcquireRead (pwQueue w) = None then w else w\<lparr>pwQueue := ReleaseRead (pwQueue w)\<rparr>)"
| "playbackWorkerStep dc fl tg w (DemandStored d) = w\<lparr>pwDemand := d\<rparr>"
| "playbackWorkerStep dc fl tg w (PortChanged port) = w\<lparr>pwPort := port\<rparr>"
| "playbackWorkerStep dc fl tg w (PlaybackSettings muted percent loudness) =
     w\<lparr>pwMuted := muted, pwPercent := percent, pwLoudness := loudness\<rparr>"
| "playbackWorkerStep dc fl tg w (Notified audio peer) = w\<lparr>pwAudioNotification := audio, pwPeerNotification := peer\<rparr>"

section \<open>What the loops leave alone\<close>

lemma report_fields [simp]:
  "pwNext (report r w) = pwNext w" "pwTarget (report r w) = pwTarget w" "pwQueue (report r w) = pwQueue w" "pwDemand (report r w) = pwDemand w"
  "pwPort (report r w) = pwPort w" "pwTone (report r w) = pwTone w"
  by (simp_all add: report_def)

lemma reportDecode_fields [simp]:
  "pwNext (reportDecode e w) = pwNext w" "pwTarget (reportDecode e w) = pwTarget w" "pwQueue (reportDecode e w) = pwQueue w"
  "pwDemand (reportDecode e w) = pwDemand w"
  by (simp_all add: reportDecode_def split: option.split)

lemma startNotification_fields [simp]:
  "pwNext (startNotification fl w) = pwNext w" "pwTarget (startNotification fl w) = pwTarget w"
  "pwQueue (startNotification fl w) = pwQueue w" "pwDemand (startNotification fl w) = pwDemand w"
  by (simp_all add: startNotification_def Let_def)

lemma mixFrame_fields:
  assumes "mixFrame dc fl tg w = (pcm, localOnly, err, w')"
  shows "pwNext w' = pwNext w" "pwTarget w' = pwTarget w" "pwQueue w' = pwQueue w" "pwDemand w' = pwDemand w"
  using assms by (auto simp: mixFrame_def Let_def split: prod.splits)

lemma drainLoop_fields [simp]:
  "pwNext (drainLoop dc fl now n w) = pwNext w" "pwTarget (drainLoop dc fl now n w) = pwTarget w"
  "pwQueue (drainLoop dc fl now n w) = pwQueue w" "pwDemand (drainLoop dc fl now n w) = pwDemand w"
  by (induction n arbitrary: w) (auto simp: Let_def split: option.split prod.split)

lemma drainPlayback_fields [simp]:
  "pwNext (drainPlayback dc fl now w) = pwNext w" "pwTarget (drainPlayback dc fl now w) = pwTarget w"
  "pwQueue (drainPlayback dc fl now w) = pwQueue w" "pwDemand (drainPlayback dc fl now w) = pwDemand w"
  by (simp_all add: drainPlayback_def)

lemma skipFrame_fields:
  "pwNext (skipFrame dc fl tg w) = pwNext w + 1" "pwTarget (skipFrame dc fl tg w) = pwTarget w"
  "pwQueue (skipFrame dc fl tg w) = pwQueue w" "pwDemand (skipFrame dc fl tg w) = pwDemand w"
  by (auto simp: skipFrame_def Let_def split: prod.split dest: mixFrame_fields)

lemma commitFrame_fields:
  assumes "AudioQueue.queue_ok (pwQueue w)" and "AcquireWrite (pwQueue w) = Some i"
  shows "pwNext (commitFrame dc fl tg i w) = pwNext w + 1" "pwTarget (commitFrame dc fl tg i w) = pwTarget w"
    "AudioQueue.queue_ok (pwQueue (commitFrame dc fl tg i w))" "pwDemand (commitFrame dc fl tg i w) = pwDemand w"
    "\<exists>f. queued (pwQueue (commitFrame dc fl tg i w)) = queued (pwQueue w) @ [f] \<and> pfIndex f = pwNext w"
proof -
  obtain pcm localOnly err w' where m: "mixFrame dc fl tg w = (pcm, localOnly, err, w')" by (cases "mixFrame dc fl tg w") auto
  define f where "f = (slot (pwQueue w') i)\<lparr>pfSamples := pcm, pfIndex := pwNext w', pfLocalOnly := localOnly\<rparr>"
  have c: "commitFrame dc fl tg i w = reportDecode err (w'\<lparr>pwQueue := CommitWrite (putSlot i f (pwQueue w')), pwNext := pwNext w' + 1\<rparr>)"
    by (simp add: commitFrame_def m f_def Let_def)
  note same = mixFrame_fields [OF m]
  have "pfIndex f = pwNext w" by (simp add: f_def same)
  with c same pcm.push [OF assms, of f] show "pwNext (commitFrame dc fl tg i w) = pwNext w + 1"
    "pwTarget (commitFrame dc fl tg i w) = pwTarget w" "AudioQueue.queue_ok (pwQueue (commitFrame dc fl tg i w))"
    "pwDemand (commitFrame dc fl tg i w) = pwDemand w"
    "\<exists>f. queued (pwQueue (commitFrame dc fl tg i w)) = queued (pwQueue w) @ [f] \<and> pfIndex f = pwNext w" by auto
qed

section \<open>Draining leaves nothing at the port\<close>

lemma portFrames_sum:
  assumes "flow_inv f" and "finite A" and "set (receivedOrder f) \<subseteq> A"
  shows "portFrames f = (\<Sum>key\<in>A. length (receivedQueues f key))"
proof -
  have "portFrames f = (\<Sum>key\<in>set (receivedOrder f). length (receivedQueues f key))"
    using flow_invD(1) [OF assms(1)] by (simp add: portFrames_def sum_list_distinct_conv_sum_set)
  also have "\<dots> = (\<Sum>key\<in>A. length (receivedQueues f key))"
    using assms flow_invD(2) [OF assms(1)] by (intro sum.mono_neutral_left) auto
  finally show ?thesis .
qed

lemma taken_fewer:
  assumes "flow_inv f" and "TakeReceived f = Some (x, f')"
  shows "flow_inv f'" and "portFrames f' < portFrames f"
proof -
  have t: "receivedNext f < length (receivedOrder f)" "takeAt f (receivedNext f) = Some (x, f')"
    using assms(2) by (cases rule: TakeReceived_cases [OF assms(1)]; simp)+
  show inv: "flow_inv f'" by (rule flow_inv_takeAt [OF assms(1) t])
  let ?k = "receivedOrder f ! receivedNext f" and ?A = "set (receivedOrder f)"
  note T = takeAt_rotation [OF assms(1) t]
  have "set (receivedOrder f') \<subseteq> ?A" unfolding T(5) by (auto dest: in_set_takeD in_set_dropD)
  from portFrames_sum [OF inv _ this] have f': "portFrames f' = (\<Sum>key\<in>?A. length (receivedQueues f' key))" by simp
  have f: "portFrames f = (\<Sum>key\<in>?A. length (receivedQueues f key))" by (rule portFrames_sum [OF assms(1)]) simp_all
  have "?k \<in> ?A" using t(1) by simp
  moreover have "length (receivedQueues f' ?k) < length (receivedQueues f ?k)" unfolding T(1) by simp
  moreover have "length (receivedQueues f' key) \<le> length (receivedQueues f key)" for key unfolding T(2) by simp
  ultimately show "portFrames f' < portFrames f" unfolding f f' by (intro sum_strict_mono_ex1) auto
qed

lemma drainLoop_empties:
  "flow_inv (pwPort w) \<Longrightarrow> portFrames (pwPort w) \<le> n \<Longrightarrow> TakeReceived (pwPort (drainLoop dc fl now n w)) = None"
proof (induction n arbitrary: w)
  case 0
  show ?case
  proof (cases "TakeReceived (pwPort w)")
    case (Some y)
    then obtain x f' where "TakeReceived (pwPort w) = Some (x, f')" by (cases y) auto
    from taken_fewer(2) [OF 0(1) this] 0(2) show ?thesis by simp
  qed simp
next
  case (Suc n)
  show ?case
  proof (cases "TakeReceived (pwPort w)")
    case (Some y)
    then obtain x f' where t: "TakeReceived (pwPort w) = Some (x, f')" by (cases y) auto
    have f': "flow_inv f'" "portFrames f' \<le> n" using taken_fewer [OF Suc.prems(1) t] Suc.prems(2) by simp_all
    have "TakeReceived (pwPort (drainLoop dc fl now n v)) = None" if "pwPort v = f'" for v :: "('a, 'b, 'c) playbackWorker"
      using Suc.IH [of v] f' that by simp
    then show ?thesis by (auto simp: t Let_def split: option.split prod.split)
  qed simp
qed

lemma drain_empties: "flow_inv (pwPort w) \<Longrightarrow> TakeReceived (pwPort (drainPlayback dc fl now w)) = None"
  unfolding drainPlayback_def by (rule drainLoop_empties) simp_all

section \<open>Frames are committed in the order of their time\<close>

definition worker_ok :: "('d, 's, 'f) playbackWorker \<Rightarrow> bool" where
  "worker_ok w \<longleftrightarrow> AudioQueue.queue_ok (pwQueue w) \<and> sorted_wrt (\<lambda>f g. pfIndex f < pfIndex g) (queued (pwQueue w)) \<and>
     (\<forall>f \<in> set (queued (pwQueue w)). pfIndex f < pwNext w)"

lemma next_less: "unat (n :: uint64) < 2 ^ 64 - 1 \<Longrightarrow> m < n \<Longrightarrow> m < n + 1"
  "unat (n :: uint64) < 2 ^ 64 - 1 \<Longrightarrow> n < n + 1" "unat (n :: uint64) < 2 ^ 64 - 1 \<Longrightarrow> unat (n + 1) = unat n + 1"
  by (simp_all add: word_less_nat_alt unat_word_ariths)

lemma playbackTurn_ok:
  assumes "worker_ok w" and "unat (pwNext w) < 2 ^ 64 - 1"
  shows "worker_ok (playbackTurn dc fl tg w) \<and> unat (pwNext (playbackTurn dc fl tg w)) \<le> unat (pwNext w) + 1"
proof (cases "pwTarget w")
  case None
  with assms show ?thesis by (simp add: playbackTurn_def)
next
  case (Some target)
  have later: "pfIndex f < pwNext w + 1" if "f \<in> set (queued (pwQueue w))" for f
    using assms that next_less(1) by (auto simp: worker_ok_def)
  consider (skip) "pwNext w < target" | (commit) i where "pwNext w = target" "AcquireWrite (pwQueue w) = Some i"
    | (leave) "playbackTurn dc fl tg w = w\<lparr>pwTarget := None\<rparr>"
    using Some by (cases "pwNext w" target rule: linorder_cases; cases "AcquireWrite (pwQueue w)") (auto simp: playbackTurn_def)
  then show ?thesis
  proof cases
    case skip
    then show ?thesis using assms later Some next_less(3)
      by (simp add: playbackTurn_def worker_ok_def skipFrame_fields)
  next
    case (commit i)
    have q: "AudioQueue.queue_ok (pwQueue w)" using assms by (simp add: worker_ok_def)
    note c = commitFrame_fields [OF q commit(2), of dc fl tg]
    obtain f where f: "queued (pwQueue (commitFrame dc fl tg i w)) = queued (pwQueue w) @ [f]" "pfIndex f = pwNext w" using c(5) by blast
    have "playbackTurn dc fl tg w = commitFrame dc fl tg i w" using Some commit by (simp add: playbackTurn_def)
    then show ?thesis using assms c f later next_less(2,3)
      by (auto simp: worker_ok_def sorted_wrt_append)
  next
    case leave
    with assms show ?thesis by (simp add: worker_ok_def)
  qed
qed

lemma playbackWorkerStep_ok:
  assumes "worker_ok w" and "unat (pwNext w) < 2 ^ 64 - 1"
  shows "worker_ok (playbackWorkerStep dc fl tg w event) \<and> unat (pwNext (playbackWorkerStep dc fl tg w event)) \<le> unat (pwNext w) + 1"
proof (cases event)
  case LoopTurn
  with playbackTurn_ok [OF assms] show ?thesis by simp
next
  case ReaderReleases
  show ?thesis
  proof (cases "AcquireRead (pwQueue w)")
    case None
    with assms ReaderReleases show ?thesis by simp
  next
    case (Some i)
    have q: "AudioQueue.queue_ok (pwQueue w)" using assms by (simp add: worker_ok_def)
    have "queued (pwQueue w) = slot (pwQueue w) i # queued (ReleaseRead (pwQueue w))" by (rule pcm.pop [OF q Some])
    then have "sorted_wrt (\<lambda>f g. pfIndex f < pfIndex g) (queued (ReleaseRead (pwQueue w)))"
      "set (queued (ReleaseRead (pwQueue w))) \<subseteq> set (queued (pwQueue w))"
      using assms by (auto simp: worker_ok_def)
    with assms ReaderReleases Some release_keeps(1) [OF q Some] show ?thesis by (auto simp: worker_ok_def)
  qed
qed (use assms in \<open>auto simp: worker_ok_def playbackReady_def playbackWoken_def Let_def\<close>)

lemma start_worker: "worker_ok (startPlayback fl n port percent :: ('d, 's::zero, 'f) playbackWorker)"
proof -
  let ?q = "newPCMFrameQueue playbackQueueFrames :: 's pcmFrameQueue"
  have "ring_ok playbackQueueFrames" by (simp add: ring_ok_def playbackQueueFrames_def)
  note q = new_queue_ok [OF this, where ?'s = 's]
  have room: "AcquireWrite ?q = Some 0" by (simp add: AcquireWrite_def newPCMFrameQueue_def slotOf_def playbackQueueFrames_def)
  have "slot ?q 0 = noFrame" by (simp add: slot_def newPCMFrameQueue_def playbackQueueFrames_def)
  with q pcm.commit_room [OF conjunct1 [OF q] room] show ?thesis by (simp add: startPlayback_def worker_ok_def noFrame_def)
qed

text \<open>Whatever wakes the worker and whatever demand, settings and port are then, the frames in the playback queue lie in the
  order of their time, none twice, and all before the next one it mixes: the order the playback callback relies on.\<close>

theorem playback_committed_in_order:
  assumes "length events < 2 ^ 64 - 1" and "w = foldl (playbackWorkerStep dc fl tg) (startPlayback fl maxFrameBytes port percent) events"
  shows "AudioQueue.queue_ok (pwQueue w) \<and> sorted_wrt (\<lambda>f g. pfIndex f < pfIndex g) (queued (pwQueue w)) \<and>
    (\<forall>f \<in> set (queued (pwQueue w)). pfIndex f < pwNext w)"
proof -
  have "worker_ok w \<and> unat (pwNext w) \<le> length events + 1" using assms
  proof (induction events arbitrary: w rule: rev_induct)
    case Nil
    with start_worker show ?case by (simp add: startPlayback_def)
  next
    case (snoc event events)
    define v where "v = foldl (playbackWorkerStep dc fl tg) (startPlayback fl maxFrameBytes port percent) events"
    have v: "worker_ok v" "unat (pwNext v) \<le> length events + 1" using snoc.IH [OF _ v_def] snoc.prems by simp_all
    then have "unat (pwNext v) < 2 ^ 64 - 1" using snoc.prems by simp
    with v snoc.prems playbackWorkerStep_ok [of v dc fl tg event] show ?case by (auto simp: v_def)
  qed
  then show ?thesis by (simp add: worker_ok_def)
qed

text \<open>C40: woken while the queue has room, the worker catches up with the demand: it drops the frames whose time has passed, one a
  turn, and commits the one that is demanded.\<close>

theorem playback_meets_demand:
  fixes w :: "('d, 's::zero, 'f) playbackWorker"
  assumes "AudioQueue.queue_ok (pwQueue w)" and "AcquireWrite (pwQueue w) = Some i" and "pwTarget w = None"
    and "pwNext w \<le> pwDemand w" and "unat (pwDemand w) < 2 ^ 64 - 1"
    and "w' = ((playbackTurn dc fl tg) ^^ (unat (pwDemand w) - unat (pwNext w) + 1)) (playbackWoken dc fl now w)"
  shows "\<exists>f. queued (pwQueue w') = queued (pwQueue w) @ [f] \<and> pfIndex f = pwDemand w \<and> pwNext w' = pwDemand w + 1"
proof -
  have turns: "\<exists>f. queued (pwQueue (((playbackTurn dc fl tg) ^^ (n + 1)) v)) = queued (pwQueue w) @ [f] \<and> pfIndex f = pwDemand w \<and>
      pwNext (((playbackTurn dc fl tg) ^^ (n + 1)) v) = pwDemand w + 1"
    if "pwQueue v = pwQueue w" "pwTarget v = Some (pwDemand w)" "unat (pwNext v) + n = unat (pwDemand w)"
    for n and v :: "('d, 's, 'f) playbackWorker"
    using that
  proof (induction n arbitrary: v)
    case 0
    then have "pwNext v = pwDemand w" by (simp add: unat_arith_simps)
    with 0 assms commitFrame_fields [of v i dc fl tg] show ?case by (auto simp: playbackTurn_def)
  next
    case (Suc n)
    then have "pwNext v < pwDemand w" by (simp add: word_less_nat_alt)
    then have turn: "playbackTurn dc fl tg v = skipFrame dc fl tg v" using Suc by (simp add: playbackTurn_def)
    have "unat (pwNext v) < 2 ^ 64 - 1" using Suc.prems(3) assms(5) by simp
    then have "unat (pwNext (skipFrame dc fl tg v)) + n = unat (pwDemand w)" using Suc.prems(3) next_less(3) by (simp add: skipFrame_fields)
    from Suc.IH [OF _ _ this] Suc.prems(1,2)
    have "\<exists>f. queued (pwQueue (((playbackTurn dc fl tg) ^^ (n + 1)) (skipFrame dc fl tg v))) = queued (pwQueue w) @ [f] \<and> pfIndex f = pwDemand w \<and>
      pwNext (((playbackTurn dc fl tg) ^^ (n + 1)) (skipFrame dc fl tg v)) = pwDemand w + 1" by (simp only: skipFrame_fields)
    moreover have "((playbackTurn dc fl tg) ^^ (Suc n + 1)) v = ((playbackTurn dc fl tg) ^^ (n + 1)) (skipFrame dc fl tg v)"
      by (simp only: add_Suc funpow_Suc_right comp_apply turn)
    ultimately show ?case by (simp only:)
  qed
  have "unat (pwNext w) + (unat (pwDemand w) - unat (pwNext w)) = unat (pwDemand w)"
    using assms(4) by (simp add: word_le_nat_alt)
  with assms(3) show ?thesis unfolding assms(6) by (intro turns) (simp_all add: playbackWoken_def Let_def)
qed

lemma start_room:
  "AcquireWrite (pwQueue (startPlayback fl n port percent :: ('d, 's::zero, 'f) playbackWorker)) = Some 1"
  by (simp add: startPlayback_def AcquireWrite_def CommitWrite_def newPCMFrameQueue_def playbackQueueFrames_def slotOf_def word_le_nat_alt)

theorem playback_meets_demand_witness:
  "\<forall>(dc :: (unit, nat) decoderOps) (fl :: (nat, unit) floats) tg now. \<exists>f.
     queued (pwQueue (playbackTurn dc fl tg (playbackWoken dc fl now (startPlayback fl 400 NewFlow 100)))) =
       queued (pwQueue (startPlayback fl 400 NewFlow 100 :: (unit, nat, unit) playbackWorker)) @ [f] \<and> pfIndex f = 1"
proof (intro allI)
  fix dc :: "(unit, nat) decoderOps" and fl :: "(nat, unit) floats" and tg now
  define w where "w = (startPlayback fl 400 NewFlow 100 :: (unit, nat, unit) playbackWorker)"
  have "AudioQueue.queue_ok (pwQueue w)" using start_worker unfolding w_def worker_ok_def by blast
  moreover have "AcquireWrite (pwQueue w) = Some 1" unfolding w_def by (rule start_room)
  moreover have "pwTarget w = None" "pwNext w = 1" "pwDemand w = 1" by (simp_all add: w_def startPlayback_def)
  ultimately show "\<exists>f. queued (pwQueue (playbackTurn dc fl tg (playbackWoken dc fl now (startPlayback fl 400 NewFlow 100)))) =
      queued (pwQueue (startPlayback fl 400 NewFlow 100 :: (unit, nat, unit) playbackWorker)) @ [f] \<and> pfIndex f = 1"
    using playback_meets_demand [of w 1 "playbackTurn dc fl tg (playbackWoken dc fl now w)" dc fl tg now] unfolding w_def by auto
qed

end
