(* ===== verification/CaptureWorker.thy ===== *)
theory CaptureWorker
  imports AudioEngine
begin

text \<open>
  What the capture worker does with a frame, \<open>encodeLoop\<close> of \<open>internal/audio/engine.go\<close>: echo cancellation and noise
  suppression, gain, the meter, the speaking state and the encoder.  The encoder, the processor and floating point are
  parameters.  When a frame is taken and whether it may be sent in the end are steps of \<open>AudioMute\<close>.
\<close>

section \<open>The meter\<close>

definition captureClipThreshold :: rat where "captureClipThreshold = 999 / 1000"
definition captureClipHoldFrames :: nat where "captureClipHoldFrames = 1000 div FrameDuration"
definition captureMeterFrames :: nat where "captureMeterFrames = 50 div FrameDuration"

record 'f meterOps =
  moNumber :: "'f \<Rightarrow> bool"
  moAbs :: "'f \<Rightarrow> 'f"

text \<open>Samples that are not a finite number count neither for the level nor as clipped.\<close>

definition meterSample :: "('s, 'f) floats \<Rightarrow> 'f meterOps \<Rightarrow> 'f \<times> bool \<Rightarrow> 's \<Rightarrow> 'f \<times> bool" where
  "meterSample fl mo acc sample =
     (let number = flWiden fl sample
      in if \<not> moNumber mo number then acc
         else (flAdd fl (fst acc) (flMul fl number number),
               snd acc \<or> \<not> flLess fl (moAbs mo number) (flLiteral fl captureClipThreshold)))"

definition captureMeter :: "('s, 'f) floats \<Rightarrow> 'f meterOps \<Rightarrow> 's list \<Rightarrow> 'f \<times> bool" where
  "captureMeter fl mo samples =
     (let (energy, clipped) = foldl (meterSample fl mo) (flOfInt fl 0, False) samples
      in if length samples = 0 then (flOfInt fl 0, clipped)
         else (flMin fl (flOfInt fl 1) (flSqrt fl (flDiv fl energy (flOfInt fl (int (length samples))))), clipped))"

record 'f captureMeterWindow =
  mwSquared :: 'f
  mwFrames :: nat

definition emptyWindow :: "('s, 'f) floats \<Rightarrow> 'f captureMeterWindow" where
  "emptyWindow fl = \<lparr>mwSquared = flOfInt fl 0, mwFrames = 0\<rparr>"

definition addWindow :: "('s, 'f) floats \<Rightarrow> 'f \<Rightarrow> 'f captureMeterWindow \<Rightarrow> 'f option \<times> 'f captureMeterWindow" where
  "addWindow fl level w =
     (let w = w\<lparr>mwSquared := flAdd fl (mwSquared w) (flMul fl level level), mwFrames := mwFrames w + 1\<rparr>
      in if mwFrames w < captureMeterFrames then (None, w)
         else (Some (flSqrt fl (flDiv fl (mwSquared w) (flOfInt fl (int (mwFrames w))))), emptyWindow fl))"

section \<open>The worker\<close>

record ('c, 'p, 's) captureOps =
  coEncode :: "'c \<Rightarrow> 's list \<Rightarrow> 'c \<times> (bytes + bytes)"
  coReset :: "'c \<Rightarrow> 'c"
  coInDTX :: "'c \<Rightarrow> bool"
  coProcess :: "'p \<Rightarrow> 's list \<Rightarrow> 's list \<Rightarrow> bool \<Rightarrow> bool \<Rightarrow> 'p \<times> 's list"
  coResetEcho :: "'p \<Rightarrow> 'p"
  coResetNoise :: "'p \<Rightarrow> 'p"

datatype 'f captureReport =
    SpeakingNow uint64 bool
  | LevelNow uint64 'f bool
  | CaptureError bytes

record ('c, 'p, 's, 'f) captureWorker =
  cwCodec :: 'c
  cwProcessor :: 'p
  cwEncoderGeneration :: uint64
  cwSpeakingGeneration :: uint64
  cwProcessorGeneration :: uint64
  cwEcho :: bool
  cwNoise :: bool
  cwLast :: uint32
  cwSpeaking :: nat
  cwClipHold :: nat
  cwWindow :: "'f captureMeterWindow"
  cwGain :: 's
  cwReports :: "'f captureReport list"

text \<open>What a turn loads: the settings of the engine and whether the run is active.\<close>

record captureLoads =
  clEcho :: bool
  clNoise :: bool
  clGain :: int
  clActive :: bool

definition tell :: "'f captureReport \<Rightarrow> ('c, 'p, 's, 'f) captureWorker \<Rightarrow> ('c, 'p, 's, 'f) captureWorker" where
  "tell r w = w\<lparr>cwReports := cwReports w @ [r]\<rparr>"

definition enterGeneration :: "('c, 'p, 's) captureOps \<Rightarrow> ('s, 'f) floats \<Rightarrow> uint64 \<Rightarrow> ('c, 'p, 's, 'f) captureWorker \<Rightarrow>
    ('c, 'p, 's, 'f) captureWorker" where
  "enterGeneration co fl generation w =
     (let w = (if cwEncoderGeneration w \<noteq> generation
               then w\<lparr>cwCodec := coReset co (cwCodec w), cwEncoderGeneration := generation\<rparr> else w)
      in if cwSpeakingGeneration w \<noteq> generation
         then (tell (SpeakingNow generation False) (w\<lparr>cwSpeaking := 0, cwClipHold := 0, cwWindow := emptyWindow fl\<rparr>))
                \<lparr>cwSpeakingGeneration := generation\<rparr>
         else w)"

definition alignProcessor :: "('c, 'p, 's) captureOps \<Rightarrow> captureLoads \<Rightarrow> 's pcmFrame \<Rightarrow> ('c, 'p, 's, 'f) captureWorker \<Rightarrow>
    ('c, 'p, 's, 'f) captureWorker" where
  "alignProcessor co loads f w =
     (let discontinuous = (cwLast w \<noteq> 0 \<and> pfTimestamp f - cwLast w \<noteq> of_nat FrameSamples);
          w = (if cwProcessorGeneration w \<noteq> pfGeneration f \<or> discontinuous then
                 w\<lparr>cwProcessor := coResetNoise co (coResetEcho co (cwProcessor w)), cwProcessorGeneration := pfGeneration f,
                   cwEcho := clEcho loads, cwNoise := clNoise loads\<rparr>
               else
                 let w = (if \<not> pfReferenceValid f \<or> cwEcho w \<noteq> clEcho loads
                          then w\<lparr>cwProcessor := coResetEcho co (cwProcessor w), cwEcho := clEcho loads\<rparr> else w)
                 in if cwNoise w \<noteq> clNoise loads
                    then w\<lparr>cwProcessor := coResetNoise co (cwProcessor w), cwNoise := clNoise loads\<rparr> else w)
      in w\<lparr>cwLast := pfTimestamp f\<rparr>)"

definition processFrame :: "('c, 'p, 's) captureOps \<Rightarrow> ('s, 'f) floats \<Rightarrow> captureLoads \<Rightarrow> 's pcmFrame \<Rightarrow> ('c, 'p, 's, 'f) captureWorker \<Rightarrow>
    's list \<times> ('c, 'p, 's, 'f) captureWorker" where
  "processFrame co fl loads f w =
     (let (p, samples) = (if pfMuted f then (cwProcessor w, pfSamples f)
                          else coProcess co (cwProcessor w) (pfSamples f) (pfReference f) (clEcho loads \<and> pfReferenceValid f) (clNoise loads));
          (samples, gain) = applyGainRamp fl samples (cwGain w) (smDiv fl (smOfInt fl (clGain loads)) (smOfInt fl 100))
      in (samples, w\<lparr>cwProcessor := p, cwGain := gain\<rparr>))"

definition meterFrame :: "('s, 'f) floats \<Rightarrow> uint64 \<Rightarrow> bool \<Rightarrow> bool \<Rightarrow> 'f \<Rightarrow> ('c, 'p, 's, 'f) captureWorker \<Rightarrow> ('c, 'p, 's, 'f) captureWorker" where
  "meterFrame fl generation muted clipped level w =
     (if muted then tell (LevelNow generation (flOfInt fl 0) False) (w\<lparr>cwClipHold := 0, cwWindow := emptyWindow fl\<rparr>)
      else
        let w = (if clipped then w\<lparr>cwClipHold := captureClipHoldFrames\<rparr>
                 else if cwClipHold w > 0 then w\<lparr>cwClipHold := cwClipHold w - 1\<rparr> else w);
            (windowLevel, window) = addWindow fl level (cwWindow w);
            w = w\<lparr>cwWindow := window\<rparr>
        in case windowLevel of None \<Rightarrow> w | Some l \<Rightarrow> tell (LevelNow generation l (cwClipHold w > 0)) w)"

definition speakFrame :: "('s, 'f) floats \<Rightarrow> uint64 \<Rightarrow> bool \<Rightarrow> bool \<Rightarrow> 'f \<Rightarrow> ('c, 'p, 's, 'f) captureWorker \<Rightarrow> ('c, 'p, 's, 'f) captureWorker" where
  "speakFrame fl generation active muted level w =
     (if active \<and> \<not> muted then
        let (changed, frames) = speakingUpdate (flLess fl (flLiteral fl speakingThreshold) level) (cwSpeaking w);
            w = w\<lparr>cwSpeaking := frames\<rparr>
        in if changed then tell (SpeakingNow generation (speakingActive frames)) w else w
      else w)"

text \<open>A frame of the current generation: the payload that may be sent, if any.\<close>

definition captureFrame :: "('c, 'p, 's) captureOps \<Rightarrow> ('s, 'f) floats \<Rightarrow> 'f meterOps \<Rightarrow> captureLoads \<Rightarrow> 's pcmFrame \<Rightarrow>
    ('c, 'p, 's, 'f) captureWorker \<Rightarrow> bytes option \<times> ('c, 'p, 's, 'f) captureWorker" where
  "captureFrame co fl mo loads f w =
     (let w = enterGeneration co fl (pfGeneration f) w;
          inputClipped = snd (captureMeter fl mo (pfSamples f));
          (samples, w) = processFrame co fl loads f (alignProcessor co loads f w);
          (level, outputClipped) = captureMeter fl mo samples;
          level = (if pfMuted f then flOfInt fl 0 else level);
          w = meterFrame fl (pfGeneration f) (pfMuted f) (inputClipped \<or> outputClipped) level w;
          w = speakFrame fl (pfGeneration f) (clActive loads) (pfMuted f) level w;
          (codec, result) = coEncode co (cwCodec w) samples;
          w = w\<lparr>cwCodec := codec\<rparr>
      in case result of
           Inl err \<Rightarrow> (None, tell (CaptureError (bytes_of ''encode Opus: '' @ err)) w)
         | Inr payload \<Rightarrow> (if length payload = 0 \<or> coInDTX co codec then None else Some payload, w))"

text \<open>When the generation has moved on meanwhile, the frame is dropped and the encoder starts over.\<close>

definition dropEncoded :: "('c, 'p, 's) captureOps \<Rightarrow> ('c, 'p, 's, 'f) captureWorker \<Rightarrow> ('c, 'p, 's, 'f) captureWorker" where
  "dropEncoded co w = w\<lparr>cwCodec := coReset co (cwCodec w), cwEncoderGeneration := 0\<rparr>"

section \<open>What a frame may depend on\<close>

text \<open>Two workers that differ only in what they remember of older generations.\<close>

definition forgets :: "('c, 'p, 's) captureOps \<Rightarrow> bool" where
  "forgets co \<longleftrightarrow> (\<forall>c d. coReset co c = coReset co d) \<and>
     (\<forall>p q. coResetNoise co (coResetEcho co p) = coResetNoise co (coResetEcho co q))"

lemma tell_fields [simp]:
  "cwCodec (tell r w) = cwCodec w" "cwProcessor (tell r w) = cwProcessor w" "cwGain (tell r w) = cwGain w"
  "cwSpeaking (tell r w) = cwSpeaking w" "cwClipHold (tell r w) = cwClipHold w" "cwWindow (tell r w) = cwWindow w"
  "cwReports (tell r w) = cwReports w @ [r]" "cwEncoderGeneration (tell r w) = cwEncoderGeneration w"
  "cwProcessorGeneration (tell r w) = cwProcessorGeneration w" "cwSpeakingGeneration (tell r w) = cwSpeakingGeneration w"
  by (simp_all add: tell_def)

lemma entered:
  assumes "w' = enterGeneration co fl g w" and "cwEncoderGeneration w \<noteq> g" and "cwSpeakingGeneration w \<noteq> g"
  shows "cwCodec w' = coReset co (cwCodec w)" "cwProcessor w' = cwProcessor w" "cwProcessorGeneration w' = cwProcessorGeneration w"
    "cwSpeaking w' = 0" "cwClipHold w' = 0" "cwWindow w' = emptyWindow fl" "cwGain w' = cwGain w"
    "cwReports w' = cwReports w @ [SpeakingNow g False]"
  using assms by (simp_all add: enterGeneration_def Let_def)

lemma aligned:
  assumes "w' = alignProcessor co loads f w" and "cwProcessorGeneration w \<noteq> pfGeneration f"
  shows "cwProcessor w' = coResetNoise co (coResetEcho co (cwProcessor w))" "cwCodec w' = cwCodec w" "cwGain w' = cwGain w"
    "cwSpeaking w' = cwSpeaking w" "cwClipHold w' = cwClipHold w" "cwWindow w' = cwWindow w" "cwReports w' = cwReports w"
  using assms by (simp_all add: alignProcessor_def Let_def)

lemma meterFrame_fields:
  "cwCodec (meterFrame fl g m c l w) = cwCodec w" "cwSpeaking (meterFrame fl g m c l w) = cwSpeaking w"
  by (auto simp: meterFrame_def Let_def split: option.split prod.split)

lemma speakFrame_fields: "cwCodec (speakFrame fl g a m l w) = cwCodec w"
  by (simp add: speakFrame_def Let_def split: prod.split)

text \<open>Nothing of an older generation leaks into the first frame of a new one: with an encoder and a processor that forget when
  they are reset, its payload is the same whatever was captured before; only the gain reached so far still counts.\<close>

theorem generation_starts_fresh:
  assumes "forgets co" and "cwGain v = cwGain w"
    and "\<And>u. u \<in> {v, w} \<Longrightarrow> cwEncoderGeneration u \<noteq> pfGeneration f \<and> cwSpeakingGeneration u \<noteq> pfGeneration f \<and>
      cwProcessorGeneration u \<noteq> pfGeneration f"
  shows "fst (captureFrame co fl mo loads f v) = fst (captureFrame co fl mo loads f w)"
proof -
  define enter where "enter u = alignProcessor co loads f (enterGeneration co fl (pfGeneration f) u)" for u :: "('a, 'b, 'c, 'd) captureWorker"
  have e: "cwCodec (enter v) = cwCodec (enter w)" "cwProcessor (enter v) = cwProcessor (enter w)" "cwGain (enter v) = cwGain (enter w)"
    using assms entered [OF refl, of v "pfGeneration f" co fl] entered [OF refl, of w "pfGeneration f" co fl]
      aligned [OF refl, of "enterGeneration co fl (pfGeneration f) v" f co loads]
      aligned [OF refl, of "enterGeneration co fl (pfGeneration f) w" f co loads]
    unfolding enter_def forgets_def by (metis insertCI)+
  obtain sv v' where v': "processFrame co fl loads f (enter v) = (sv, v')" by fastforce
  obtain sw w' where w': "processFrame co fl loads f (enter w) = (sw, w')" by fastforce
  have same: "sv = sw" "cwCodec v' = cwCodec w'" using v' w' e by (auto simp: processFrame_def Let_def split: prod.splits if_splits)
  obtain level clipped where m: "captureMeter fl mo sw = (level, clipped)" by fastforce
  obtain codec result where r: "coEncode co (cwCodec w') sw = (codec, result)" by fastforce
  show ?thesis using same m r
    by (simp add: captureFrame_def enter_def [symmetric] v' w' meterFrame_fields speakFrame_fields Let_def split: sum.split)
qed

text \<open>A muted frame is not processed, shows level zero and never changes who is shown as speaking.\<close>

theorem muted_frame_unseen:
  assumes "pfMuted f" and "cwSpeakingGeneration w = pfGeneration f" and "captureFrame co fl mo loads f w = (payload, w')"
  shows "\<exists>errors. cwReports w' = cwReports w @ LevelNow (pfGeneration f) (flOfInt fl 0) False # map CaptureError errors \<and>
    cwSpeaking w' = cwSpeaking w"
proof -
  define e where "e = alignProcessor co loads f (enterGeneration co fl (pfGeneration f) w)"
  have e: "cwReports e = cwReports w" "cwSpeaking e = cwSpeaking w"
    using assms(2) by (simp_all add: e_def alignProcessor_def enterGeneration_def Let_def)
  obtain samples p where p: "processFrame co fl loads f e = (samples, p)" by fastforce
  then have "cwReports p = cwReports w" "cwSpeaking p = cwSpeaking w"
    using e by (auto simp: processFrame_def Let_def split: prod.splits)
  moreover obtain codec result where "coEncode co (cwCodec p) samples = (codec, result)" by fastforce
  moreover obtain level clipped where "captureMeter fl mo samples = (level, clipped)" by fastforce
  ultimately have "cwReports w' = cwReports w @ LevelNow (pfGeneration f) (flOfInt fl 0) False #
      map CaptureError (case result of Inl err \<Rightarrow> [bytes_of ''encode Opus: '' @ err] | Inr _ \<Rightarrow> []) \<and> cwSpeaking w' = cwSpeaking w"
    using assms(1,3) p
    by (cases result) (auto simp: captureFrame_def e_def [symmetric] meterFrame_def speakFrame_def Let_def tell_def)
  then show ?thesis by blast
qed

end
