(* ===== verification/Spec2Isabelle.thy ===== *)
theory Spec2Isabelle
  imports ControlWire HelloWire BridgeWire RoomDatagramWire ReliableSystem MediaFlow RoomInvite
    MemberState TopologyMessage ScreenCodec FileCodec FanoutPlan
    PeerDiscovery PeerTopology FanoutDeploy ScreenStream FileLedger PeerPackets
    ClientLoop Stun EndpointSafety Tracker UPnPSafety NatPmp PcpSafety Failover RoomSafety
    IdentityText AudioMute AudioPlayback AudioMixerSafety AudioJitter EngineSafety PlaybackWorker CaptureWorker
begin

text \<open>
  \<^bold>\<open>Bork, a peer-to-peer voice chat: verification of its core.\<close>

  Peers of a room find each other (tracker, local discovery), prove membership with a keyed
  hello, agree on session keys, and then exchange UDP datagrams: control packets, reliable
  packets carrying six message channels, bridge packets for peers without a direct path, and
  room datagrams with voice and screen media.

  \<^bold>\<open>Theories.\<close>
  \<^item> \<open>Prelude\<close>: integers, results, byte strings, slices, association lists; the locales
    \<open>codec\<close>, \<open>canonical_codec\<close> and \<open>machine\<close>.
  \<^item> \<open>Wire\<close>, \<open>ControlWire\<close>, \<open>ReliableWire\<close>, \<open>BridgeWire\<close>, \<open>HelloWire\<close>, \<open>RoomDatagramWire\<close>:
    \<open>internal/protocol\<close>, one theory per file, function by function.  Marshalling and parsing are
    exact inverses; what a parser accepts satisfies the checks its caller relies on.
  \<^item> \<open>SequenceWindow\<close>: \<open>internal/peer/control_flow.go\<close>, the replay window as a refinement of the
    set of accepted sequences.
  \<^item> \<open>ReliableTransport\<close>: \<open>internal/peer/reliable.go\<close>.  \<open>ReliableAccounting\<close> has its resource
    invariant, \<open>ReliableStream\<close> and \<open>ReliableReceive\<close> the meaning of fragments and assemblies, and
    \<open>ReliableSystem\<close> two transports over a lossy network with the delivery theorems.
  \<^item> \<open>MediaFlow\<close>: \<open>internal/media/flow.go\<close>, the queues between network and audio engine.
  \<^item> \<open>GoStrings\<close>, \<open>Base58\<close>, \<open>RoomInvite\<close>: the UTF-8 and string functions of Go's library the
    program uses, and \<open>internal/invite\<close>.
  \<^item> \<open>NetAddr\<close>: the addresses of Go's \<open>net/netip\<close>.
  \<^item> \<open>MemberState\<close>, \<open>TopologyMessage\<close>, \<open>ScreenCodec\<close>, \<open>FileCodec\<close>: the messages of the reliable channels
    in \<open>internal/peer\<close>, each an interpretation of a codec.  \<open>FanoutPlan\<close>: \<open>fanout.go\<close>, who forwards media
    to whom.
  \<^item> \<open>PeerState\<close>, \<open>PeerLinks\<close>: the state of the peer client (\<open>client.go\<close>, \<open>session.go\<close>, \<open>path.go\<close>), publishing it, and
    sending over direct and bridged paths.  On it: \<open>PeerDiscovery\<close> (addresses to probe, \<open>client_loop.go\<close>),
    \<open>PeerTopology\<close> (claims and bridge paths, \<open>bridge.go\<close>, \<open>topology_message.go\<close>), \<open>PeerFanout\<close> with \<open>FanoutDeploy\<close>
    (deploying a forwarding plan and when it is used, member states, voice), \<open>ScreenShare\<close> with \<open>ScreenReceive\<close> and \<open>ScreenStream\<close>
    (\<open>screen_video.go\<close>: sharing, reassembly, memory bounds, faithfulness), \<open>FileTransfer\<close> with \<open>FileLedger\<close> (\<open>file.go\<close>: the transfers and the goroutines
    that touch the disk as a step relation, integrity and bounds), \<open>PeerSessions\<close> (hellos, pings, expiry, leaving) and
    \<open>PeerPackets\<close> (the handlers of every packet type, sending over the reliable transports).  \<open>ClientLoop\<close> is the event
    loop that calls them all, \<open>ClientSafety\<close> the proof that every operation keeps the sessions admitted.
  \<^item> \<open>Stun\<close>: \<open>internal/networking/endpoint/stun.go\<close>.  \<open>Endpoint\<close>: the queues, writer, reader and probes of \<open>endpoint.go\<close> as steps;
    \<open>EndpointSafety\<close> has their bounds, the conservation of datagrams, send generations and the fairness of the writer's lanes.
  \<^item> \<open>AddrText\<close>: addresses and numbers from text, as Go's library reads them.  \<open>Bencode\<close>, \<open>BencodeGrammar\<close>: the decoder of
    \<open>internal/networking/discovery/tracker/bencode.go\<close> and the language it accepts; \<open>TrackerResponse\<close>: announce responses;
    \<open>Tracker\<close>: announcers and their group (\<open>announcer.go\<close>, \<open>http.go\<close>, \<open>group.go\<close>).
  \<^item> \<open>Effects\<close>: computations that ask the outside, as functions of the trace of what happened, with weakest preconditions.
    \<open>BoundedText\<close>: texts and error summaries cut to a length.  \<open>PortMap\<close>: what the mappers of \<open>internal/networking/portmap\<close>
    share; \<open>Mapper\<close>: the loop of a mapper over the contract of its operations; \<open>UPnP\<close>: those of \<open>portmap.go\<close>;
    \<open>UPnPSafety\<close>: what they do to a gateway and what they publish.  \<open>NatPmp\<close>: those of \<open>natpmp.go\<close>.  \<open>Pcp\<close>, \<open>PcpSafety\<close>:
    the wire format, exchange and mapper of \<open>pcp.go\<close>.  \<open>Failover\<close>: the mapper of \<open>gateway.go\<close> that runs one of them at a time.
    \<open>EndpointCandidates\<close>: the addresses an endpoint finds by itself and by STUN.  \<open>AddrInverse\<close>: IPv4 addresses read back
    from their text.  \<open>RoomNetwork\<close>, \<open>RoomSafety\<close>: the loop of \<open>room_network.go\<close> over endpoint, tracker and mappers.

  \<^item> \<open>IdentityText\<close>: \<open>internal/identity\<close>, the text of a peer identifier and its base 32.
  \<^item> \<open>AudioQueue\<close>, \<open>AudioCallbacks\<close>: \<open>frame_queue.go\<close> and \<open>callbacks.go\<close> of \<open>internal/audio\<close>; \<open>AudioCapture\<close>, \<open>AudioPlayback\<close>: what
    the callback hands to the encoder and what it plays.  \<open>AudioMixer\<close>: \<open>mixer.go\<close>, over parameters for floating point and the
    Opus decoder; \<open>AudioMixerSafety\<close>, \<open>AudioJitter\<close>: what it keeps, forgets and puts in order.  \<open>AudioMute\<close>: muting the
    microphone (\<open>engine.go\<close>) while callback, encoder and peer take their steps.  \<open>AudioEngine\<close>, \<open>EngineSafety\<close>: its devices,
    settings, status and runs, and what they keep.  \<open>PlaybackWorker\<close>, \<open>CaptureWorker\<close>: the two workers of a run.  Draining the port
    has one turn for each frame that waits, which \<open>drain_empties\<close> shows to be enough.

  \<^bold>\<open>Conventions.\<close>  Fixed byte arrays are words read big-endian (their byte order is the
  unsigned order); a Go error is the left side of a sum with its message; times and durations
  are nanoseconds as integers; a Go map that is never iterated is a partial function, an
  iterated one an association list.  Cryptographic primitives are parameters: what a theorem
  needs of them is a named hypothesis (\<open>aead_correct\<close>, \<open>aead_strict\<close>, \<open>mac_sized\<close>,
  \<open>ecdh_agrees\<close>), shown satisfiable by a concrete instance in the witnesses.  Loops are
  structural or end by a measure; only the eviction loop of screen video counts its turns, one for each assembly
  held and a last one, which \<open>screen_memory_bounded\<close> shows to be enough.

  \<^bold>\<open>Not modelled.\<close>  Code that only calls libraries or the operating system: opening sockets, resolving names, multicast
  (\<open>internal/networking/discovery/local\<close>), HTTP, the discovery of UPnP gateways and the routes of the system, devices, Opus, echo cancellation
  and noise suppression, video capture and encoding, global shortcuts, and the desktop interface with its settings
  (\<open>internal/app\<close>, \<open>internal/config\<close>).  Goroutines are steps of their own where a theory says so; elsewhere a method
  that holds its mutex is one step.
\<close>

end
